(* ===== verification/Prelude.thy ===== *)
theory Prelude
  imports Main "HOL-Library.Word"
begin

text \<open>
  Shared vocabulary of the development: machine integers, the fault values that stand for
  a process exit or for behaviour the C language leaves undefined, C strings, and the part
  of the C library that the modelled sources call: \<^verbatim>\<open>strtoul\<close> with base 0, \<^verbatim>\<open>strcmp\<close> and
  \<^verbatim>\<open>strncmp\<close> against a table entry, and the conversions \<^verbatim>\<open>%X\<close>, \<^verbatim>\<open>%0nX\<close> and \<^verbatim>\<open>%d\<close> of
  \<^verbatim>\<open>printf\<close>. The generic lemmas (printing then scanning a number, C array access) are the
  ones the component theories use.
\<close>

unbundle bit_operations_syntax

section \<open>Machine integers\<close>

text \<open>
  The programs run on 32-bit front-end computers: \<^verbatim>\<open>int\<close>, \<^verbatim>\<open>long\<close> and pointers have 32 bits
  (asm.h: an instruction is "implemented in 2 longs", one of them a "32 bit literal").
  Signed values are read from the same words by \<open>sint\<close>.
\<close>

type_synonym u8 = "8 word"
type_synonym u32 = "32 word"
type_synonym i32 = "32 word"

section \<open>Faults\<close>

datatype fault =
    Exited          \<comment> \<open>the process called \<^verbatim>\<open>exit (1)\<close>\<close>
  | Out_of_bounds   \<comment> \<open>an access outside an array or buffer\<close>
  | Bad_arith       \<comment> \<open>division by zero or a shift count outside the word\<close>
  | Uninitialised   \<comment> \<open>use of a variable before any assignment\<close>
  | Blocked         \<comment> \<open>waiting for input that has not been typed\<close>
  | Bad_lock        \<comment> \<open>locking a mutex the caller holds, or unlocking one it does not hold\<close>
  | Bug_on          \<comment> \<open>a failed \<^verbatim>\<open>BUG_ON\<close> assertion or a NULL pointer dereference\<close>
  | Endless         \<comment> \<open>a loop that never ends\<close>

text \<open>The kernel's error codes that the drivers return.\<close>

datatype errno =
  EINVAL | ENXIO | ENOMEM | EFAULT | EBUSY | ERESTARTSYS | ENOIOCTLCMD | EINTR | EDEADLK | ETIME | EPERM | ENODEV | EBADF | EACCES | ENOTTY

type_synonym 'a result = "fault + 'a"

definition bind_r :: "'a result \<Rightarrow> ('a \<Rightarrow> 'b result) \<Rightarrow> 'b result" where
  "bind_r m f = (case m of Inl e \<Rightarrow> Inl e | Inr x \<Rightarrow> f x)"

lemma bind_r_simps [simp]:
  "bind_r (Inl e) f = Inl e"
  "bind_r (Inr x) f = f x"
  by (simp_all add: bind_r_def)

lemma bind_r_cong [fundef_cong]:
  "m = m' \<Longrightarrow> (\<And>x. m' = Inr x \<Longrightarrow> f x = g x) \<Longrightarrow> bind_r m f = bind_r m' g"
  by (cases m') auto

lemma bind_r_eq_Inr:
  "bind_r m f = Inr y \<longleftrightarrow> (\<exists>x. m = Inr x \<and> f x = Inr y)"
  by (cases m) auto

lemma bind_r_eq_Inl:
  "bind_r m f = Inl e \<longleftrightarrow> m = Inl e \<or> (\<exists>x. m = Inr x \<and> f x = Inl e)"
  by (cases m) auto

text \<open>A \<^verbatim>\<open>for\<close> loop over a list of indices that threads a state and stops at a fault.\<close>

fun fold_r :: "('a \<Rightarrow> 's \<Rightarrow> 's result) \<Rightarrow> 'a list \<Rightarrow> 's \<Rightarrow> 's result" where
  "fold_r f [] s = Inr s"
| "fold_r f (x # xs) s = bind_r (f x s) (fold_r f xs)"

lemma fold_r_append: "fold_r f (xs @ ys) s = bind_r (fold_r f xs s) (fold_r f ys)"
  by (induction xs arbitrary: s) (auto simp: bind_r_def split: sum.splits)

lemma fold_r_invariant:
  assumes "fold_r f xs s = Inr s'" "P s" "\<And>x s s'. x \<in> set xs \<Longrightarrow> P s \<Longrightarrow> f x s = Inr s' \<Longrightarrow> P s'"
  shows "P s'"
  using assms
proof (induction xs arbitrary: s)
  case (Cons x xs)
  from Cons.prems(1) obtain s1 where s1: "f x s = Inr s1" "fold_r f xs s1 = Inr s'"
    by (auto simp: bind_r_eq_Inr)
  have "P s1" using Cons.prems(3) [of x s s1] Cons.prems(2) s1(1) by simp
  with Cons.IH [OF s1(2)] Cons.prems(3) show ?case by auto
qed simp

text \<open>
  Total correctness: the computation returns, and its result satisfies the predicate. One rule
  per combinator, so that a call is followed step by step.
\<close>

definition good :: "('a \<Rightarrow> bool) \<Rightarrow> 'a result \<Rightarrow> bool" where
  "good P m = (case m of Inl e \<Rightarrow> False | Inr x \<Rightarrow> P x)"

lemma good_simps [simp]: "good P (Inr x) = P x" "\<not> good P (Inl e)"
  by (simp_all add: good_def)

lemma good_iff: "good P m \<longleftrightarrow> (\<exists>x. m = Inr x \<and> P x)"
  by (cases m) auto

lemma good_bind: "good P m \<Longrightarrow> (\<And>x. P x \<Longrightarrow> good Q (f x)) \<Longrightarrow> good Q (bind_r m f)"
  by (cases m) auto

lemma good_mono: "good P m \<Longrightarrow> (\<And>x. P x \<Longrightarrow> Q x) \<Longrightarrow> good Q m"
  by (cases m) auto

lemma good_fold:
  assumes "P s" "\<And>x s. x \<in> set xs \<Longrightarrow> P s \<Longrightarrow> good P (f x s)"
  shows "good P (fold_r f xs s)"
  using assms
proof (induction xs arbitrary: s)
  case (Cons x xs)
  then have "good P (f x s)" by simp
  then show ?case using Cons by (auto intro: good_bind)
qed simp

section \<open>C arrays\<close>

text \<open>An array read or write at a signed index; outside the array it is a fault.\<close>

definition arr_get :: "'a list \<Rightarrow> int \<Rightarrow> 'a result" where
  "arr_get xs i = (if 0 \<le> i \<and> i < int (length xs) then Inr (xs ! nat i) else Inl Out_of_bounds)"

definition arr_set :: "'a list \<Rightarrow> int \<Rightarrow> 'a \<Rightarrow> 'a list result" where
  "arr_set xs i v =
     (if 0 \<le> i \<and> i < int (length xs) then Inr (xs[nat i := v]) else Inl Out_of_bounds)"

lemma arr_get_ok [simp]: "0 \<le> i \<Longrightarrow> i < int (length xs) \<Longrightarrow> arr_get xs i = Inr (xs ! nat i)"
  by (simp add: arr_get_def)

lemma arr_set_ok [simp]: "0 \<le> i \<Longrightarrow> i < int (length xs) \<Longrightarrow> arr_set xs i v = Inr (xs[nat i := v])"
  by (simp add: arr_set_def)

lemma arr_get_Inr: "arr_get xs i = Inr v \<longleftrightarrow> 0 \<le> i \<and> i < int (length xs) \<and> v = xs ! nat i"
  by (auto simp: arr_get_def)

lemma arr_set_Inr: "arr_set xs i v = Inr ys \<longleftrightarrow> 0 \<le> i \<and> i < int (length xs) \<and> ys = xs[nat i := v]"
  by (auto simp: arr_set_def)

lemma arr_get_Inl: "arr_get xs i = Inl e \<longleftrightarrow> e = Out_of_bounds \<and> \<not> (0 \<le> i \<and> i < int (length xs))"
  by (auto simp: arr_get_def)

lemma arr_set_Inl: "arr_set xs i v = Inl e \<longleftrightarrow> e = Out_of_bounds \<and> \<not> (0 \<le> i \<and> i < int (length xs))"
  by (auto simp: arr_set_def)

section \<open>Linear search\<close>

text \<open>The tables are searched from the front for the first row that matches.\<close>

lemma find_SomeD: "find P xs = Some x \<Longrightarrow> x \<in> set xs \<and> P x"
  by (induction xs) (auto split: if_splits)

lemma find_key: "distinct (map f xs) \<Longrightarrow> x \<in> set xs \<Longrightarrow> find (\<lambda>y. f y = f x) xs = Some x"
  by (induction xs) (auto simp: image_iff)

section \<open>C strings\<close>

text \<open>A C string is the list of its characters without the final NUL.\<close>

definition isspace_c :: "char \<Rightarrow> bool" where
  "isspace_c c \<longleftrightarrow> of_char c = (32::nat) \<or> (9 \<le> (of_char c :: nat) \<and> (of_char c :: nat) \<le> 13)"

text \<open>The value of a character as a digit in a base up to 36, as \<^verbatim>\<open>strtoul\<close> reads it.\<close>

definition digit_val :: "char \<Rightarrow> nat option" where
  "digit_val c =
     (let n = of_char c :: nat in
      if 48 \<le> n \<and> n \<le> 57 then Some (n - 48)
      else if 65 \<le> n \<and> n \<le> 90 then Some (n - 55)
      else if 97 \<le> n \<and> n \<le> 122 then Some (n - 87)
      else None)"

definition is_digit_in :: "nat \<Rightarrow> char \<Rightarrow> bool" where
  "is_digit_in b c = (case digit_val c of None \<Rightarrow> False | Some d \<Rightarrow> d < b)"

fun scan_digits :: "nat \<Rightarrow> nat \<Rightarrow> string \<Rightarrow> nat \<times> string" where
  "scan_digits b acc [] = (acc, [])"
| "scan_digits b acc (c # cs) =
     (if is_digit_in b c then scan_digits b (acc * b + the (digit_val c)) cs else (acc, c # cs))"

definition starts_digit :: "nat \<Rightarrow> string \<Rightarrow> bool" where
  "starts_digit b s = (case s of [] \<Rightarrow> False | c # _ \<Rightarrow> is_digit_in b c)"

text \<open>
  \<^verbatim>\<open>strtoul (s, &e, 0)\<close> on a 32-bit \<^verbatim>\<open>unsigned long\<close>: the value and the text at \<open>e\<close>. Leading
  white space and a sign are skipped, \<^verbatim>\<open>0x\<close> before a hexadecimal digit selects base 16,
  another leading \<^verbatim>\<open>0\<close> base 8; a value that does not fit is \<^verbatim>\<open>ULONG_MAX\<close>; with no digit at
  all the value is 0 and \<open>e = s\<close>.
\<close>

definition strtoul_sign :: "string \<Rightarrow> bool \<times> string" where
  "strtoul_sign s =
     (case s of [] \<Rightarrow> (False, s)
      | c # cs \<Rightarrow> if c = CHR ''-'' then (True, cs) else if c = CHR ''+'' then (False, cs) else (False, s))"

definition strtoul_base :: "string \<Rightarrow> nat \<times> string" where
  "strtoul_base s =
     (if s \<noteq> [] \<and> hd s = CHR ''0''
      then (if tl s \<noteq> [] \<and> (hd (tl s) = CHR ''x'' \<or> hd (tl s) = CHR ''X'') \<and> starts_digit 16 (tl (tl s))
            then (16, tl (tl s)) else (8, s))
      else (10, s))"

definition strtoul :: "string \<Rightarrow> u32 \<times> string" where
  "strtoul s =
     (let (neg, s1) = strtoul_sign (dropWhile isspace_c s); (b, s2) = strtoul_base s1 in
      if starts_digit b s2
      then (let (n, r) = scan_digits b 0 s2 in
            (if 2 ^ 32 \<le> n then - 1 else if neg then - of_nat n else of_nat n, r))
      else (0, s))"

text \<open>Number conversions of \<^verbatim>\<open>printf\<close>: digits of a natural number in a base up to 16, upper case.\<close>

definition digit_char :: "nat \<Rightarrow> char" where
  "digit_char d = (if d < 10 then char_of (48 + d) else char_of (55 + d))"

fun show_base :: "nat \<Rightarrow> nat \<Rightarrow> string" where
  "show_base b n =
     (if b < 2 \<or> n < b then [digit_char n] else show_base b (n div b) @ [digit_char (n mod b)])"

declare show_base.simps [simp del]

definition fmt_X :: "u32 \<Rightarrow> string" where
  "fmt_X w = show_base 16 (unat w)"

definition fmt_0X :: "nat \<Rightarrow> u32 \<Rightarrow> string" where
  "fmt_0X k w = (let s = fmt_X w in replicate (k - length s) (CHR ''0'') @ s)"

definition lower_c :: "char \<Rightarrow> char" where
  "lower_c c = (if 65 \<le> (of_char c :: nat) \<and> (of_char c :: nat) \<le> 90 then char_of (of_char c + (32::nat)) else c)"

definition fmt_x :: "u32 \<Rightarrow> string" where
  "fmt_x w = map lower_c (fmt_X w)"

definition fmt_d :: "i32 \<Rightarrow> string" where
  "fmt_d w = (if sint w < 0 then CHR ''-'' # show_base 10 (nat (- sint w)) else show_base 10 (nat (sint w)))"

definition fmt_0d :: "nat \<Rightarrow> i32 \<Rightarrow> string" where
  "fmt_0d k w =
     (let s = show_base 10 (nat \<bar>sint w\<bar>) in
      if sint w < 0 then CHR ''-'' # replicate (k - 1 - length s) (CHR ''0'') @ s
      else replicate (k - length s) (CHR ''0'') @ s)"

abbreviation nl :: string where
  "nl \<equiv> [CHR 0x0A]"

text \<open>\<^verbatim>\<open>strncmp (s, name, strlen (name)) == 0\<close>: the text starts with the name.\<close>

definition starts_with :: "string \<Rightarrow> string \<Rightarrow> bool" where
  "starts_with s name = (take (length name) s = name)"

subsection \<open>Printing and scanning numbers\<close>

lemma digit_val_digit_char: "d < 16 \<Longrightarrow> digit_val (digit_char d) = Some d"
  by (auto simp: digit_val_def digit_char_def Let_def)

lemma is_digit_digit_char [simp]: "d < b \<Longrightarrow> b \<le> 16 \<Longrightarrow> is_digit_in b (digit_char d)"
  by (simp add: is_digit_in_def digit_val_digit_char)

lemma scan_digits_stop: "\<not> starts_digit b s \<Longrightarrow> scan_digits b acc s = (acc, s)"
  by (cases s) (auto simp: starts_digit_def)

lemma scan_show_base:
  assumes "2 \<le> b" "b \<le> 16"
  shows "scan_digits b acc (show_base b n @ r) =
         scan_digits b (acc * b ^ length (show_base b n) + n) r"
  using assms
proof (induction b n arbitrary: acc r rule: show_base.induct)
  case (1 b n)
  show ?case
  proof (cases "n < b")
    case True
    with 1(2,3) show ?thesis
      by (simp add: show_base.simps [of b n] digit_val_digit_char)
  next
    case False
    define m where "m = acc * b ^ length (show_base b (n div b)) + n div b"
    have "scan_digits b acc (show_base b n @ r) = scan_digits b m (digit_char (n mod b) # r)"
      using "1.IH" [of acc "digit_char (n mod b) # r"] 1(2,3) False
      by (simp add: show_base.simps [of b n] m_def)
    also have "\<dots> = scan_digits b (m * b + n mod b) r"
      using 1(2,3) by (simp add: digit_val_digit_char order.strict_trans2 [of "n mod b" b 16])
    also have "m * b + n mod b = acc * b ^ length (show_base b n) + n"
      using 1(2) False
      by (simp add: show_base.simps [of b n] m_def algebra_simps)
    finally show ?thesis .
  qed
qed

lemma show_base_Nil [simp]: "show_base b n \<noteq> []"
  by (subst show_base.simps) simp

lemma show_base_hd_digit:
  assumes "2 \<le> b" "b \<le> 16"
  shows "is_digit_in b (hd (show_base b n))"
  using assms
proof (induction b n rule: show_base.induct)
  case (1 b n)
  then show ?case by (subst show_base.simps) auto
qed

lemma starts_digit_show_base: "2 \<le> b \<Longrightarrow> b \<le> 16 \<Longrightarrow> starts_digit b (show_base b n @ r)"
  using show_base_hd_digit [of b n]
  by (cases "show_base b n") (auto simp: starts_digit_def)

text \<open>\<^verbatim>\<open>strtoul\<close> reads back what \<^verbatim>\<open>0x%X\<close> prints, after any white space, up to a non-digit.\<close>

lemma strtoul_hex:
  assumes "\<not> starts_digit 16 r" "\<forall>c \<in> set sp. isspace_c c"
  shows "strtoul (sp @ ''0x'' @ fmt_X w @ r) = (w, r)"
proof -
  have sp: "dropWhile isspace_c (sp @ ''0x'' @ fmt_X w @ r) = ''0x'' @ fmt_X w @ r"
    using assms(2) by (simp add: isspace_c_def)
  have base: "strtoul_base (''0x'' @ fmt_X w @ r) = (16, fmt_X w @ r)"
    by (simp add: strtoul_base_def fmt_X_def starts_digit_show_base)
  have scan: "scan_digits 16 0 (fmt_X w @ r) = (unat w, r)"
    using assms(1) by (simp add: fmt_X_def scan_show_base scan_digits_stop)
  have st: "starts_digit 16 (fmt_X w @ r)"
    by (simp add: fmt_X_def starts_digit_show_base)
  have "\<not> 2 ^ 32 \<le> unat w" using unsigned_less [of w] by (simp add: not_le)
  then show ?thesis
    unfolding strtoul_def sp
    by (simp add: strtoul_sign_def base [simplified] scan st)
qed

lemma show_base_hd_pos:
  assumes "2 \<le> b" "b \<le> 16" "0 < n"
  shows "\<exists>d. 0 < d \<and> d < b \<and> hd (show_base b n) = digit_char d"
  using assms
proof (induction b n rule: show_base.induct)
  case (1 b n)
  show ?case
  proof (cases "n < b")
    case True with 1 show ?thesis by (subst show_base.simps) auto
  next
    case False
    with 1 have "0 < n div b" by (simp add: div_greater_zero_iff)
    with 1 False show ?thesis by (subst show_base.simps) auto
  qed
qed

lemma digit_char_10: "d < 10 \<Longrightarrow> of_char (digit_char d) = 48 + d"
  by (simp add: digit_char_def)

lemma strtoul_dec:
  assumes "0 < n" "n < 2 ^ 32" "\<not> starts_digit 10 r"
  shows "strtoul (show_base 10 n @ r) = (of_nat n, r)"
proof -
  obtain d cs where d: "0 < d" "d < 10" and hd: "show_base 10 n = digit_char d # cs"
    using show_base_hd_pos [of 10 n] assms(1) by (cases "show_base 10 n") auto
  have ne: "digit_char d \<notin> {CHR ''-'', CHR ''+'', CHR ''0''}" "\<not> isspace_c (digit_char d)"
    using d by (auto simp: isspace_c_def digit_char_10 dest!: arg_cong [of _ _ "of_char :: char \<Rightarrow> nat"])
  have scan: "scan_digits 10 0 (show_base 10 n @ r) = (n, r)"
    using assms(3) by (simp add: scan_show_base scan_digits_stop)
  have "starts_digit 10 (show_base 10 n @ r)" by (simp add: starts_digit_show_base)
  with scan ne assms(2) show ?thesis
    by (simp add: strtoul_def hd strtoul_sign_def strtoul_base_def)
qed

lemma show_base_ascii_digits: 
  assumes "2 \<le> b" "b \<le> 10" "c \<in> set (show_base b n)"
  shows "48 \<le> (of_char c :: nat) \<and> (of_char c :: nat) \<le> 57"
  using assms
proof (induction b n rule: show_base.induct)
  case (1 b n)
  have "n mod b < b" using 1(2) by simp
  with 1(3) have "n mod b < 10" by linarith
  with 1 show ?case by (auto simp: show_base.simps [of b n] digit_char_10 split: if_splits)
qed

lemma show_base_length: "2 \<le> b \<Longrightarrow> n < b ^ Suc k \<Longrightarrow> length (show_base b n) \<le> Suc k"
proof (induction k arbitrary: n)
  case 0 then show ?case by (simp add: show_base.simps [of b n])
next
  case (Suc k)
  then have "n div b < b ^ Suc k" by (simp add: less_mult_imp_div_less mult.commute)
  with Suc show ?case by (simp add: show_base.simps [of b n])
qed

lemma word_range: "m \<le> n \<Longrightarrow> n \<le> k \<Longrightarrow> k < 2 ^ 32 \<Longrightarrow> (of_nat m :: u32) \<le> of_nat n \<and> of_nat n \<le> (of_nat k :: u32)"
  by (simp add: word_le_nat_alt unat_of_nat)

end
