(* ===== verification/Mtt_Opcodes.thy ===== *)
theory Mtt_Opcodes
  imports Prelude
begin

text \<open>
  The instruction set and the register set of the MTT timing generator: the types of
  mttn/include/asm.h and mttn/include/opcodes.h and the two tables of mttn/lib/opcodes.c,
  which the assembler, the emulator and the task library share. The lemmas say what the
  clients rely on: opcode numbers and mnemonics are unique, the 15 register descriptors
  partition the register numbers 0..255, and a decoded opcode number is its instruction.
\<close>

section \<open>Types\<close>

datatype ArgType = AtNothing | AtLiteral | AtAddress | AtRegister

datatype IdNumber =
    HALT | NOOP | INT_op
  | WEQV | WEQR | WRLV | WRLR | WORV | WORR
  | MOVV | MOVR | MOVIR | MOVRI
  | ADDV | ADDR | SUBV | SUBR | LORV | LORR | ANDV | ANDR | XORV | XORR
  | LSV | LSR | RSV | RSR
  | WDOG | JMP | BEQ | BNE | BLT | BGT | BLE | BGE | BCR

record OpCode =
  Op_Name :: string
  Op_Comment :: string
  Op_Number :: u8
  Op_Src1 :: ArgType
  Op_Src2 :: ArgType
  Op_Dest :: ArgType

record Instruction =
  I_Dest :: u8
  I_Src2 :: u8
  I_Number :: u8
  I_Crc :: u8
  I_Src1 :: i32

record ProgramBuf =
  LoadAddress :: u32
  InstructionCount :: u32
  Program :: "Instruction list"

record RegisterDsc =
  Reg_Name :: string
  Reg_Comment :: string
  Reg_Start :: nat
  Reg_End :: nat
  Reg_Offset :: nat
  Reg_LorG :: nat

definition MAX_OP_CODE_STRING_LENGTH :: nat where "MAX_OP_CODE_STRING_LENGTH = 8"
definition MAX_REGISTER_STRING_LENGTH :: nat where "MAX_REGISTER_STRING_LENGTH = 8"
definition GLOBALS :: nat where "GLOBALS = 224"
definition LOCALS :: nat where "LOCALS = 32"
definition GLOBAL_REG :: nat where "GLOBAL_REG = 1"
definition LOCAL_REG :: nat where "LOCAL_REG = 2"

section \<open>Opcode numbers\<close>

primrec op_number :: "IdNumber \<Rightarrow> u8" where
  "op_number HALT = 0x00"
| "op_number NOOP = 0x4d"
| "op_number INT_op = 0xC1"
| "op_number WEQV = 0x91"
| "op_number WEQR = 0x11"
| "op_number WRLV = 0x92"
| "op_number WRLR = 0x12"
| "op_number WORV = 0x93"
| "op_number WORR = 0x13"
| "op_number MOVV = 0xe2"
| "op_number MOVR = 0x62"
| "op_number MOVIR = 0x64"
| "op_number MOVRI = 0x65"
| "op_number ADDV = 0xe6"
| "op_number ADDR = 0x66"
| "op_number SUBV = 0xe7"
| "op_number SUBR = 0x67"
| "op_number LORV = 0xe8"
| "op_number LORR = 0x68"
| "op_number ANDV = 0xe9"
| "op_number ANDR = 0x69"
| "op_number XORV = 0xea"
| "op_number XORR = 0x6a"
| "op_number LSV = 0xeb"
| "op_number LSR = 0x6b"
| "op_number RSV = 0xec"
| "op_number RSR = 0x6c"
| "op_number WDOG = 0x34"
| "op_number JMP = 0x85"
| "op_number BEQ = 0x86"
| "op_number BNE = 0x87"
| "op_number BLT = 0x88"
| "op_number BGT = 0x89"
| "op_number BLE = 0x8a"
| "op_number BGE = 0x8b"
| "op_number BCR = 0x8c"

section \<open>The instruction table\<close>

text \<open>One row of the table; the number of a row is the one of its mnemonic.\<close>

definition opc :: "string \<Rightarrow> string \<Rightarrow> IdNumber \<Rightarrow> ArgType \<Rightarrow> ArgType \<Rightarrow> ArgType \<Rightarrow> OpCode" where
  "opc n c i s1 s2 d =
     \<lparr>Op_Name = n, Op_Comment = c, Op_Number = op_number i, Op_Src1 = s1, Op_Src2 = s2, Op_Dest = d\<rparr>"

definition InstructionSet :: "OpCode list" where
  "InstructionSet =
   [opc ''HALT'' ''Stop program'' HALT AtNothing AtNothing AtNothing,
    opc ''NOOP'' ''No operation'' NOOP AtNothing AtNothing AtNothing,
    opc ''INT'' ''Interrupt[1..16]'' INT_op AtLiteral AtNothing AtNothing,
    opc ''WEQV'' ''Wait value equal'' WEQV AtLiteral AtRegister AtNothing,
    opc ''WRLV'' ''Wait value relative'' WRLV AtLiteral AtRegister AtNothing,
    opc ''WORV'' ''Wait value bit mask'' WORV AtLiteral AtRegister AtNothing,
    opc ''WEQR'' ''Wait register equal'' WEQR AtRegister AtRegister AtNothing,
    opc ''WRLR'' ''Wait register relative'' WRLR AtRegister AtRegister AtNothing,
    opc ''WORR'' ''Wait register bit mask'' WORR AtRegister AtRegister AtNothing,
    opc ''MOVV'' ''Load register'' MOVV AtLiteral AtNothing AtRegister,
    opc ''MOVR'' ''Move register'' MOVR AtRegister AtNothing AtRegister,
    opc ''MOVIR'' ''Move Index register'' MOVIR AtRegister AtNothing AtRegister,
    opc ''MOVRI'' ''Move register Index'' MOVRI AtRegister AtRegister AtNothing,
    opc ''ADDR'' ''Add register'' ADDR AtRegister AtRegister AtRegister,
    opc ''SUBR'' ''Subtract register'' SUBR AtRegister AtRegister AtRegister,
    opc ''LORR'' ''Or register'' LORR AtRegister AtRegister AtRegister,
    opc ''ANDR'' ''And register'' ANDR AtRegister AtRegister AtRegister,
    opc ''XORR'' ''ExclusiveOr register'' XORR AtRegister AtRegister AtRegister,
    opc ''LSR'' ''LeftShift register'' LSR AtRegister AtRegister AtRegister,
    opc ''RSR'' ''RightShift register'' RSR AtRegister AtRegister AtRegister,
    opc ''ADDV'' ''Add value'' ADDV AtLiteral AtRegister AtRegister,
    opc ''SUBV'' ''Subtract value'' SUBV AtLiteral AtRegister AtRegister,
    opc ''LORV'' ''Or value'' LORV AtLiteral AtRegister AtRegister,
    opc ''ANDV'' ''And value'' ANDV AtLiteral AtRegister AtRegister,
    opc ''XORV'' ''ExclusiveOr value'' XORV AtLiteral AtRegister AtRegister,
    opc ''LSV'' ''LeftShift value'' LSV AtLiteral AtRegister AtRegister,
    opc ''RSV'' ''RightShift value'' RSV AtLiteral AtRegister AtRegister,
    opc ''WDOG'' ''Watch Dod'' WDOG AtAddress AtNothing AtNothing,
    opc ''JMP'' ''Jump'' JMP AtAddress AtNothing AtNothing,
    opc ''BEQ'' ''Branch Equal'' BEQ AtAddress AtNothing AtNothing,
    opc ''BNE'' ''Branch NotEqual'' BNE AtAddress AtNothing AtNothing,
    opc ''BLT'' ''Branch LessThan'' BLT AtAddress AtNothing AtNothing,
    opc ''BGT'' ''Branch GreaterThan'' BGT AtAddress AtNothing AtNothing,
    opc ''BLE'' ''Branch LessThanEqual'' BLE AtAddress AtNothing AtNothing,
    opc ''BGE'' ''Branch GreaterThanEqual'' BGE AtAddress AtNothing AtNothing,
    opc ''BCR'' ''Branch Carry'' BCR AtAddress AtNothing AtNothing]"

definition OPCODES :: nat where "OPCODES = 36"

section \<open>The register table\<close>

definition regd :: "string \<Rightarrow> string \<Rightarrow> nat \<Rightarrow> nat \<Rightarrow> nat \<Rightarrow> nat \<Rightarrow> RegisterDsc" where
  "regd n c s e f g =
     \<lparr>Reg_Name = n, Reg_Comment = c, Reg_Start = s, Reg_End = e, Reg_Offset = f, Reg_LorG = g\<rparr>"

definition Regs :: "RegisterDsc list" where
  "Regs =
   [regd ''GR'' ''Global'' 0 211 1 GLOBAL_REG,
    regd ''OUTPUTS'' ''Control of outputs'' 212 212 0 GLOBAL_REG,
    regd ''EVIN'' ''Event input'' 213 213 0 GLOBAL_REG,
    regd ''EVINCNT'' ''Event input counter'' 214 214 0 GLOBAL_REG,
    regd ''EVOUTCNT'' ''Event output counter'' 215 215 0 GLOBAL_REG,
    regd ''EVOUTFB'' ''Event output feed back'' 216 216 0 GLOBAL_REG,
    regd ''EVOUTL'' ''Event output low priority'' 217 217 0 GLOBAL_REG,
    regd ''MSMR'' ''MilliSecond modulo'' 218 218 0 GLOBAL_REG,
    regd ''TSYNC'' ''Time from sync'' 219 219 0 GLOBAL_REG,
    regd ''VMEP2'' ''VME P2 input'' 220 220 0 GLOBAL_REG,
    regd ''EVOUTH'' ''Event output high priority'' 221 221 0 GLOBAL_REG,
    regd ''MSFR'' ''Free running milliSecond'' 222 222 0 GLOBAL_REG,
    regd ''SYNCFR'' ''Free running Sync time'' 223 223 0 GLOBAL_REG,
    regd ''INDEX'' ''Index address'' 224 224 0 LOCAL_REG,
    regd ''LR'' ''Local'' 225 255 1 LOCAL_REG]"

definition REGNAMES :: nat where "REGNAMES = 15"

section \<open>Decoding\<close>

text \<open>
  The \<^verbatim>\<open>switch (inst->Number)\<close> of the emulator: the label whose number it is. No label has
  the number of \<open>None\<close>.
\<close>

definition all_ids :: "IdNumber list" where
  "all_ids = [HALT, NOOP, INT_op, WEQV, WEQR, WRLV, WRLR, WORV, WORR, MOVV, MOVR, MOVIR, MOVRI,
     ADDV, ADDR, SUBV, SUBR, LORV, LORR, ANDV, ANDR, XORV, XORR, LSV, LSR, RSV, RSR,
     WDOG, JMP, BEQ, BNE, BLT, BGT, BLE, BGE, BCR]"

definition decode_op :: "u8 \<Rightarrow> IdNumber option" where
  "decode_op n = find (\<lambda>i. op_number i = n) all_ids"

text \<open>
  The linear search over the instruction table by number, as the disassembler, the emulator
  and \<^verbatim>\<open>InstToStr\<close> do it.
\<close>

definition find_opcode :: "u8 \<Rightarrow> OpCode option" where
  "find_opcode n = find (\<lambda>o'. Op_Number o' = n) InstructionSet"

lemma in_all_ids: "i \<in> set all_ids"
  by (cases i) (simp_all add: all_ids_def)

lemma decode_op_number [simp]: "decode_op (op_number i) = Some i"
  by (cases i) (simp_all add: decode_op_def all_ids_def)

lemma op_number_inj: "op_number i = op_number j \<Longrightarrow> i = j"
  by (metis decode_op_number option.inject)

lemma decode_op_SomeD: "decode_op n = Some i \<Longrightarrow> n = op_number i"
  by (auto simp: decode_op_def dest: find_SomeD)

lemma decode_op_iff: "decode_op n = Some i \<longleftrightarrow> n = op_number i"
  by (auto dest: decode_op_SomeD)

lemma InstructionSet_length [simp]: "length InstructionSet = OPCODES"
  by (simp add: InstructionSet_def OPCODES_def)

lemma Regs_length [simp]: "length Regs = REGNAMES"
  by (simp add: Regs_def REGNAMES_def)

lemma distinct_mnemonics: "distinct (map Op_Name InstructionSet)"
  by (simp add: InstructionSet_def opc_def)

lemma distinct_op_numbers: "distinct (map Op_Number InstructionSet)"
  by (simp add: InstructionSet_def opc_def)

lemma set_InstructionSet_ids: "Op_Number ` set InstructionSet = range op_number"
proof -
  have "range op_number = op_number ` set all_ids"
    using in_all_ids by blast
  moreover have "Op_Number ` set InstructionSet \<subseteq> op_number ` set all_ids"
    by (simp add: all_ids_def InstructionSet_def opc_def)
  moreover have "op_number ` set all_ids \<subseteq> Op_Number ` set InstructionSet"
    by (simp add: all_ids_def InstructionSet_def opc_def)
  ultimately show ?thesis by simp
qed

lemma find_opcode_row: "o' \<in> set InstructionSet \<Longrightarrow> find_opcode (Op_Number o') = Some o'"
  unfolding find_opcode_def by (rule find_key [OF distinct_op_numbers])

lemma find_opcode_None_iff: "find_opcode n = None \<longleftrightarrow> decode_op n = None"
proof -
  have "find_opcode n = None \<longleftrightarrow> n \<notin> Op_Number ` set InstructionSet"
    by (auto simp: find_opcode_def find_None_iff)
  also have "\<dots> \<longleftrightarrow> n \<notin> op_number ` set all_ids"
    using in_all_ids by (simp add: set_InstructionSet_ids) blast
  also have "\<dots> \<longleftrightarrow> decode_op n = None"
    by (auto simp: decode_op_def find_None_iff)
  finally show ?thesis .
qed

text \<open>Which descriptor holds a register number: exactly one for every number below 256.\<close>

definition reg_row :: "nat \<Rightarrow> RegisterDsc option" where
  "reg_row r = find (\<lambda>d. Reg_Start d \<le> r \<and> r \<le> Reg_End d) Regs"

lemma reg_row_cases:
  assumes "r < 256"
  obtains d where "reg_row r = Some d" "d \<in> set Regs" "Reg_Start d \<le> r" "r \<le> Reg_End d"
proof -
  have "reg_row r \<noteq> None"
    using assms by (simp add: reg_row_def find_None_iff Regs_def regd_def)
  then obtain d where "reg_row r = Some d" by auto
  with that show ?thesis by (auto simp: reg_row_def dest: find_SomeD)
qed

lemma reg_row_None: "256 \<le> r \<Longrightarrow> reg_row r = None"
  by (simp add: reg_row_def find_None_iff Regs_def regd_def)

text \<open>Opcode numbers stay symbolic: an instruction is decoded by \<open>decode_op_number\<close>.\<close>

declare op_number.simps [simp del]

end
