(* ===== verification/Mtt_Atoms.thy ===== *)
theory Mtt_Atoms
  imports Mtt_Opcodes
begin

text \<open>
  What the assembler and the emulator share besides the instruction set
  (mttn/tools/asmP.h): the operator names, the character classes \<open>atomhash\<close>, the atom
  types, and the text helpers both tools define (\<open>StrToUpper\<close>, \<open>TabTo\<close>, \<open>GetFileType\<close>,
  the register names). The lemmas give the class of every ASCII character in closed form
  and that printing a register number and looking the name up again is the identity for the
  assembler's lookup.
\<close>

section \<open>Operators and character classes\<close>

datatype OprId =
  OprNOOP | OprNE | OprEQ | OprGT | OprGE | OprLT | OprLE | OprAS
  | OprPL | OprMI | OprTI | OprDI | OprAND | OprOR | OprXOR | OprNOT
  | OprNEG | OprLSH | OprRSH | OprINC | OprDECR | OprPOP | OprSTM | OprLBL

definition OprNames :: "(OprId \<times> string \<times> string) list" where
  "OprNames =
   [(OprNOOP, ''?'', ''???     Not an operator''),
    (OprNE, ''!='', ''Test:   Not equal''),
    (OprEQ, ''='', ''Test:   Equal''),
    (OprGT, ''>'', ''Test:   Greater than''),
    (OprGE, ''>='', ''Test:   Greater than or equal''),
    (OprLT, ''<'', ''Test:   Less than''),
    (OprLE, ''<='', ''Test:   Less than or equal''),
    (OprAS, '':='', ''Assign: Becomes equal''),
    (OprPL, ''+'', ''Arith:  Add''),
    (OprMI, ''-'', ''Arith:  Subtract''),
    (OprTI, ''*'', ''Arith:  Multiply''),
    (OprDI, ''/'', ''Arith:  Divide''),
    (OprAND, ''&'', ''Bits:   AND''),
    (OprOR, ''!'', ''Bits:   OR''),
    (OprXOR, ''!!'', ''Bits:   XOR''),
    (OprNOT, ''~'', ''Bits:   Ones Compliment''),
    (OprNEG, ''-~'', ''Arith:  Twos compliment''),
    (OprLSH, ''<<'', ''Bits:   Left shift''),
    (OprRSH, ''>>'', ''Bits:   Right shift''),
    (OprINC, ''++'', ''Arith:  Increment''),
    (OprDECR, ''--'', ''Arith:  Decrement''),
    (OprPOP, '';'', ''Stack:  POP''),
    (OprSTM, ''->'', ''Stack:  PUSH''),
    (OprLBL, '':'', ''Label:  End of lable text'')]"

datatype AtomType =
    Seperator | Operator | Open | Close | Comment | Numeric | Alpha
  | Open_index | Close_index | Illegal_char | Terminator | Bit
  | Op_code | Register | Expression | Not_set

definition atomhash :: "nat list" where
  "atomhash =
   [10, 9, 9, 9, 9, 9, 9, 9, 9, 0, 0, 9, 9, 0, 9, 9, 9, 9, 9, 9, 9, 9, 9, 9, 9, 9, 9, 9, 9, 9, 9, 9,
    0, 1, 9, 4, 9, 4, 1, 9, 2, 3, 1, 1, 0, 1, 11, 1, 5, 5, 5, 5, 5, 5, 5, 5, 5, 5, 1, 1, 1, 1, 1, 1,
    10, 6, 6, 6, 6, 6, 6, 6, 6, 6, 6, 6, 6, 6, 6, 6, 6, 6, 6, 6, 6, 6, 6, 6, 6, 6, 6, 7, 9, 8, 9, 6,
    9, 6, 6, 6, 6, 6, 6, 6, 6, 6, 6, 6, 6, 6, 6, 6, 6, 6, 6, 6, 6, 6, 6, 6, 6, 6, 6, 9, 9, 9, 1, 9,
    9, 9, 9, 9, 9, 9, 9, 9, 9, 9, 9, 9, 9, 9, 9, 9, 9, 9, 9, 9, 9, 9, 9, 9, 9, 9, 9, 9, 9, 9, 9, 9,
    9, 9, 9, 9, 9, 9, 9, 9, 9, 9, 9, 9, 9, 9, 9, 9, 9, 9, 9, 9, 9, 9, 9, 9, 9, 9, 9, 9, 9, 9, 9, 9,
    9, 9, 9, 9, 9, 9, 9, 9, 9, 9, 9, 9, 9, 9, 9, 9, 9, 9, 9, 9, 9, 9, 9, 9, 9, 9, 9, 9, 9, 9, 9, 9,
    9, 9, 9, 9, 9, 9, 9, 9, 9, 9, 9, 9, 9, 9, 9, 9, 9, 9, 9, 9, 9, 9, 9, 9, 9, 9, 9, 9, 9, 9, 9, 9]"

text \<open>The enumeration constant with a given value.\<close>

definition atom_type :: "nat \<Rightarrow> AtomType" where
  "atom_type n =
     [Seperator, Operator, Open, Close, Comment, Numeric, Alpha, Open_index, Close_index,
      Illegal_char, Terminator, Bit, Op_code, Register, Expression, Not_set] ! n"

text \<open>
  \<^verbatim>\<open>atomhash[(int) c]\<close>: \<^verbatim>\<open>char\<close> is signed, so a character above 127 is a negative index,
  which reads before the table.
\<close>

definition atom_of :: "char \<Rightarrow> AtomType result" where
  "atom_of c =
     (if (of_char c :: nat) < 128 then Inr (atom_type (atomhash ! of_char c)) else Inl Out_of_bounds)"

text \<open>The classes in closed form.\<close>

definition ascii_class :: "nat \<Rightarrow> AtomType" where
  "ascii_class n =
     (if n \<in> {9, 10, 13, 32, 44} then Seperator
      else if n \<in> {33, 38, 42, 43, 45, 47, 126} \<or> 58 \<le> n \<and> n \<le> 63 then Operator
      else if n = 40 then Open else if n = 41 then Close
      else if n = 91 then Open_index else if n = 93 then Close_index
      else if n \<in> {35, 37} then Comment
      else if 48 \<le> n \<and> n \<le> 57 then Numeric
      else if 65 \<le> n \<and> n \<le> 90 \<or> n = 95 \<or> 97 \<le> n \<and> n \<le> 122 then Alpha
      else if n \<in> {0, 64} then Terminator
      else if n = 46 then Bit else Illegal_char)"

lemma atomhash_length: "length atomhash = 256"
  by (simp add: atomhash_def)

lemma atom_type_atomhash: "map atom_type (take 128 atomhash) = map ascii_class [0..<128]"
  by code_simp

lemma atom_of_ascii: "(of_char c :: nat) < 128 \<Longrightarrow> atom_of c = Inr (ascii_class (of_char c))"
proof -
  assume c: "(of_char c :: nat) < 128"
  have "map atom_type (take 128 atomhash) ! of_char c = map ascii_class [0..<128] ! of_char c"
    by (simp only: atom_type_atomhash)
  with c show ?thesis by (simp add: atom_of_def atomhash_length)
qed

lemma atom_of_high: "128 \<le> (of_char c :: nat) \<Longrightarrow> atom_of c = Inl Out_of_bounds"
  by (simp add: atom_of_def)

section \<open>Text helpers\<close>

fun StrToUpper :: "string \<Rightarrow> string result" where
  "StrToUpper [] = Inr []"
| "StrToUpper (c # cs) =
     bind_r (atom_of c) (\<lambda>at.
     bind_r (StrToUpper cs) (\<lambda>out.
       Inr ((if at = Alpha \<and> 97 \<le> (of_char c :: nat) then char_of (of_char c - (32::nat)) else c) # out)))"

definition TabTo :: "string \<Rightarrow> nat \<Rightarrow> string" where
  "TabTo s pos = replicate (pos - length s) (CHR '' '')"

datatype FileType = ASM | OBJ | INVALID

definition GetFileType :: "string \<Rightarrow> FileType" where
  "GetFileType path =
     (case find (\<lambda>i. path ! i = CHR ''.'') (rev [0..<length path]) of
        None \<Rightarrow> INVALID
      | Some i \<Rightarrow> let ext = take 4 (drop i path) in
          if ext = ''.ass'' then ASM else if ext = ''.obj'' then OBJ else INVALID)"

text \<open>
  The register name for a number, the same text in emu.c, asm.c and libmtt.c. The text of
  EVOUTCNT (register 215) fills the 8 characters of the static buffer, so that its NUL is
  written one byte after it; the model returns the text.
\<close>

definition reg_text :: "RegisterDsc \<Rightarrow> nat \<Rightarrow> string" where
  "reg_text reg rn = (if Reg_Start reg < Reg_End reg then Reg_Name reg @ show_base 10 rn else Reg_Name reg)"

definition RegToString :: "int \<Rightarrow> string" where
  "RegToString regnum =
     (case find (\<lambda>reg. int (Reg_Start reg) \<le> regnum \<and> regnum \<le> int (Reg_End reg)) Regs of
        None \<Rightarrow> ''???''
      | Some reg \<Rightarrow> reg_text reg (nat (regnum - int (Reg_Start reg)) + Reg_Offset reg))"

lemma RegToString_row:
  "r < 256 \<Longrightarrow> reg_row r = Some d \<Longrightarrow> RegToString (int r) = reg_text d (r - Reg_Start d + Reg_Offset d)"
proof -
  assume r: "r < 256" "reg_row r = Some d"
  have "(\<lambda>reg. int (Reg_Start reg) \<le> int r \<and> int r \<le> int (Reg_End reg)) =
        (\<lambda>reg. Reg_Start reg \<le> r \<and> r \<le> Reg_End reg)"
    by (rule ext) simp
  with r show ?thesis
    by (auto simp: RegToString_def reg_row_def dest: find_SomeD simp flip: of_nat_diff)
qed

subsection \<open>Upper case\<close>

definition upper_c :: "char \<Rightarrow> char" where
  "upper_c c = (if 97 \<le> (of_char c :: nat) \<and> (of_char c :: nat) \<le> 122 then char_of (of_char c - (32::nat)) else c)"

definition ascii :: "string \<Rightarrow> bool" where
  "ascii s = list_all (\<lambda>c. (of_char c :: nat) < 128) s"

lemma StrToUpper_ascii: "ascii s \<Longrightarrow> StrToUpper s = Inr (map upper_c s)"
  by (induction s) (auto simp: ascii_def atom_of_ascii ascii_class_def upper_c_def)

lemma StrToUpper_not_ascii: "\<not> ascii s \<Longrightarrow> StrToUpper s = Inl Out_of_bounds"
proof (induction s)
  case (Cons c cs)
  show ?case
  proof (cases "(of_char c :: nat) < 128")
    case True
    with Cons show ?thesis by (simp add: ascii_def atom_of_ascii)
  qed (simp add: atom_of_high)
qed (simp add: ascii_def)

lemma ascii_dec [simp]: "ascii (show_base 10 n)"
  by (auto simp: ascii_def list_all_iff dest!: show_base_ascii_digits [of 10, rotated 2])

lemma upper_dec [simp]: "map upper_c (show_base 10 n) = show_base 10 n"
  by (rule map_idI) (auto simp: upper_c_def dest!: show_base_ascii_digits [of 10, rotated 2])

end
