(* ===== verification/Mtt_Emu.thy ===== *)
theory Mtt_Emu
  imports Mtt_Atoms
begin

text \<open>
  The MTT emulator (mttn/tools/emu.c): the register file and processor status of one task,
  \<open>Execute\<close> with every instruction of the set, the register editor and the command loop
  \<open>Emulate\<close>. The model keeps the emulator's static variables in the record \<open>cpu\<close>; console
  output is the text each operation prints. Signed additions wrap as the compiled code's do;
  a shift count outside 0..31 and an array index outside its array are faults.
\<close>

section \<open>Registers and status\<close>

definition GREGS :: nat where "GREGS = 224"
definition LREGS :: nat where "LREGS = 32"
definition REGS :: nat where "REGS = GREGS + LREGS"

definition PsEQ :: i32 where "PsEQ = 0x1"
definition PsLT :: i32 where "PsLT = 0x2"
definition PsGT :: i32 where "PsGT = 0x4"
definition PsCR :: i32 where "PsCR = 0x8"

record cpu =
  Regm :: "i32 list"
  PSwd :: i32
  Pc :: i32
  waiting :: bool
  waitr :: i32
  regwa :: i32
  Dfs :: string
  regm :: "i32 list"

text \<open>The static variables as the loader initialises them.\<close>

definition cpu_init :: cpu where
  "cpu_init = \<lparr>Regm = replicate REGS 0, PSwd = 0, Pc = 0, waiting = False, waitr = 0, regwa = 0,
     Dfs = [], regm = replicate REGS 0\<rparr>"

definition ShowDiffs :: "cpu \<Rightarrow> cpu" where
  "ShowDiffs s =
     (let dif = (case find (\<lambda>i. regm s ! i \<noteq> Regm s ! i) [0..<REGS] of
                   None \<Rightarrow> []
                 | Some i \<Rightarrow> RegToString (int i) @ '':0x'' @ fmt_X (regm s ! i) @ ''=>0x'' @ fmt_X (Regm s ! i));
          txt = (if waiting s then ''Wait['' @ RegToString (sint (regwa s)) @ ''/0x'' @ fmt_X (waitr s) @ '']''
                 else [])
      in s\<lparr>Dfs := dif @ txt, regm := Regm s\<rparr>)"

definition SetPSwd :: "i32 \<Rightarrow> cpu \<Rightarrow> cpu" where
  "SetPSwd val s =
     s\<lparr>PSwd := (if val = 0 then PsEQ else 0) OR (if sint val > 0 then PsGT else 0)
               OR (if sint val < 0 then PsLT else 0)\<rparr>"

definition PsToString :: "i32 \<Rightarrow> string" where
  "PsToString ps =
     (if PsEQ AND ps \<noteq> 0 then ''EQ.'' else ''eq.'') @ (if PsLT AND ps \<noteq> 0 then ''LT.'' else ''lt.'') @
     (if PsGT AND ps \<noteq> 0 then ''GT.'' else ''gt.'') @ (if PsCR AND ps \<noteq> 0 then ''CR'' else ''cr'')"

section \<open>Instruction text\<close>

definition arg_text :: "ArgType \<Rightarrow> i32 \<Rightarrow> string" where
  "arg_text a v =
     (case a of AtNothing \<Rightarrow> [] | AtLiteral \<Rightarrow> ''0x'' @ fmt_X v | AtAddress \<Rightarrow> ''0x'' @ fmt_X v
      | AtRegister \<Rightarrow> RegToString (sint v))"

definition InstToStr :: "Instruction \<Rightarrow> string" where
  "InstToStr inst =
     (case find_opcode (I_Number inst) of
        None \<Rightarrow> []
      | Some opcd \<Rightarrow>
          (let l0 = Op_Name opcd; l1 = l0 @ TabTo l0 8;
               l2 = l1 @ arg_text (Op_Src1 opcd) (I_Src1 inst); l3 = l2 @ TabTo l2 16;
               l4 = l3 @ arg_text (Op_Src2 opcd) (ucast (I_Src2 inst)); l5 = l4 @ TabTo l4 24;
               l6 = l5 @ arg_text (Op_Dest opcd) (ucast (I_Dest inst))
           in l6 @ TabTo l6 32))"

section \<open>Execute\<close>

text \<open>\<^verbatim>\<open>Regm[i]\<close> at a signed index and at a byte index, and the common tail of the register writers.\<close>

definition get_reg :: "cpu \<Rightarrow> i32 \<Rightarrow> i32 result" where
  "get_reg s i = arr_get (Regm s) (sint i)"

definition get_reg8 :: "cpu \<Rightarrow> u8 \<Rightarrow> i32 result" where
  "get_reg8 s i = arr_get (Regm s) (uint i)"

definition next_pc :: "cpu \<Rightarrow> cpu" where
  "next_pc s = s\<lparr>Pc := Pc s + 1\<rparr>"

definition write_reg :: "cpu \<Rightarrow> int \<Rightarrow> i32 \<Rightarrow> cpu result" where
  "write_reg s i v =
     bind_r (arr_set (Regm s) i v) (\<lambda>rs. Inr (ShowDiffs (SetPSwd v (s\<lparr>Regm := rs\<rparr>))))"

definition c_shl :: "i32 \<Rightarrow> i32 \<Rightarrow> i32 result" where
  "c_shl x n = (if 0 \<le> sint n \<and> sint n < 32 then Inr (push_bit (nat (sint n)) x) else Inl Bad_arith)"

definition c_shr :: "i32 \<Rightarrow> i32 \<Rightarrow> i32 result" where
  "c_shr x n = (if 0 \<le> sint n \<and> sint n < 32 then Inr (signed_drop_bit (nat (sint n)) x) else Inl Bad_arith)"

text \<open>
  The wait instructions: latch the awaited value and register on the first execution, go on
  when the condition holds, refresh the differences. The first operand is a literal (WEQV,
  WRLV, WORV) or a register; WRLR reads that register only to latch. WRLV and WRLR latch the
  sum with the watched register and compare with the latched value, the others latch their
  operand and compare with the operand.
\<close>

definition wait_lit :: "IdNumber \<Rightarrow> bool" where
  "wait_lit i = (i \<in> set [WEQV, WRLV, WORV])"

definition wait_rel :: "IdNumber \<Rightarrow> bool" where
  "wait_rel i = (i \<in> set [WRLV, WRLR])"

definition wait_src :: "IdNumber \<Rightarrow> Instruction \<Rightarrow> cpu \<Rightarrow> i32 result" where
  "wait_src i inst s =
     (if wait_lit i then Inr (I_Src1 inst)
      else if i = WRLR \<and> waiting s then Inr 0
      else get_reg s (I_Src1 inst))"

definition wait_latch :: "IdNumber \<Rightarrow> i32 \<Rightarrow> i32 \<Rightarrow> i32" where
  "wait_latch i r v = (if wait_rel i then r + v else v)"

definition wait_met :: "IdNumber \<Rightarrow> i32 \<Rightarrow> i32 \<Rightarrow> i32 \<Rightarrow> bool" where
  "wait_met i r v w =
     (if wait_rel i then sint w \<le> sint r
      else if i = WEQV \<or> i = WEQR then r = v
      else r AND v \<noteq> 0)"

definition exec_wait :: "IdNumber \<Rightarrow> Instruction \<Rightarrow> cpu \<Rightarrow> cpu result" where
  "exec_wait i inst s =
     bind_r (wait_src i inst s) (\<lambda>v.
     bind_r (get_reg8 s (I_Src2 inst)) (\<lambda>r.
       let s1 = (if waiting s then s
                 else s\<lparr>waiting := True, waitr := wait_latch i r v, regwa := ucast (I_Src2 inst)\<rparr>);
           s2 = (if wait_met i r v (waitr s1) then next_pc (s1\<lparr>waiting := False\<rparr>) else s1)
       in Inr (ShowDiffs s2)))"

text \<open>
  The moves. MOVIR and MOVRI go through the index register \<^verbatim>\<open>Regm[GREGS]\<close> and do nothing
  when it does not hold a register number.
\<close>

definition exec_moves :: "IdNumber \<Rightarrow> Instruction \<Rightarrow> cpu \<Rightarrow> cpu result" where
  "exec_moves i inst s =
     (case i of
        MOVV \<Rightarrow>
          bind_r (write_reg s (uint (I_Dest inst)) (I_Src1 inst)) (\<lambda>s'. Inr (next_pc s'))
      | MOVR \<Rightarrow>
          bind_r (get_reg s (I_Src1 inst)) (\<lambda>v.
         bind_r (write_reg s (uint (I_Dest inst)) v) (\<lambda>s'. Inr (next_pc s')))
      | MOVIR \<Rightarrow>
          bind_r (arr_get (Regm s) (int GREGS)) (\<lambda>irg.
           if 0 \<le> sint irg \<and> sint irg < int REGS
           then bind_r (get_reg s irg) (\<lambda>v.
                bind_r (write_reg s (uint (I_Dest inst)) v) (\<lambda>s'. Inr (next_pc s')))
           else Inr (next_pc s))
      | MOVRI \<Rightarrow>
          bind_r (arr_get (Regm s) (int GREGS)) (\<lambda>irg.
           if 0 \<le> sint irg \<and> sint irg < int REGS
           then bind_r (get_reg8 s (I_Dest inst)) (\<lambda>v.
                bind_r (write_reg s (sint irg) v) (\<lambda>s'. Inr (next_pc s')))
           else Inr (next_pc s))
      | _ \<Rightarrow>
          Inr s)"

text \<open>The value of an arithmetic instruction from \<open>a = Src1\<close> and \<open>b = Src2\<close>.\<close>

definition alu :: "IdNumber \<Rightarrow> i32 \<Rightarrow> i32 \<Rightarrow> i32 result" where
  "alu i a b =
     (case i of
        ADDR \<Rightarrow> Inr (a + b)
      | ADDV \<Rightarrow> Inr (b + a)
      | SUBR \<Rightarrow> Inr (b - a)
      | SUBV \<Rightarrow> Inr (b - a)
      | LORR \<Rightarrow> Inr (b OR a)
      | LORV \<Rightarrow> Inr (b OR a)
      | ANDR \<Rightarrow> Inr (b AND a)
      | ANDV \<Rightarrow> Inr (b AND a)
      | XORR \<Rightarrow> Inr (b XOR a)
      | XORV \<Rightarrow> Inr (b XOR a)
      | LSR \<Rightarrow> c_shl b a
      | LSV \<Rightarrow> c_shl b a
      | RSR \<Rightarrow> c_shr b a
      | RSV \<Rightarrow> c_shr b a
      | _ \<Rightarrow> Inr 0)"

definition is_alu_r :: "IdNumber \<Rightarrow> bool" where
  "is_alu_r i = (i \<in> set [ADDR, SUBR, LORR, ANDR, XORR, LSR, RSR])"

definition is_alu_v :: "IdNumber \<Rightarrow> bool" where
  "is_alu_v i = (i \<in> set [ADDV, SUBV, LORV, ANDV, XORV, LSV, RSV])"

definition exec_alu :: "IdNumber \<Rightarrow> Instruction \<Rightarrow> cpu \<Rightarrow> cpu result" where
  "exec_alu i inst s =
     bind_r (if is_alu_r i then get_reg s (I_Src1 inst) else Inr (I_Src1 inst)) (\<lambda>a.
     bind_r (get_reg8 s (I_Src2 inst)) (\<lambda>b.
     bind_r (alu i a b) (\<lambda>v.
     bind_r (write_reg s (uint (I_Dest inst)) v) (\<lambda>s'. Inr (next_pc s')))))"

definition branch_taken :: "IdNumber \<Rightarrow> i32 \<Rightarrow> bool" where
  "branch_taken i ps =
     (case i of
        JMP \<Rightarrow> True
      | BEQ \<Rightarrow> (ps AND PsEQ \<noteq> 0)
      | BNE \<Rightarrow> (ps AND PsEQ = 0)
      | BLT \<Rightarrow> (ps AND PsLT \<noteq> 0)
      | BGT \<Rightarrow> (ps AND PsGT \<noteq> 0)
      | BLE \<Rightarrow> (ps AND PsEQ \<noteq> 0 \<or> ps AND PsLT \<noteq> 0)
      | BGE \<Rightarrow> (ps AND PsEQ \<noteq> 0 \<or> ps AND PsGT \<noteq> 0)
      | BCR \<Rightarrow> (ps AND PsCR \<noteq> 0)
      | _ \<Rightarrow> False)"

definition exec_branch :: "IdNumber \<Rightarrow> Instruction \<Rightarrow> cpu \<Rightarrow> cpu" where
  "exec_branch i inst s = (if branch_taken i (PSwd s) then s\<lparr>Pc := I_Src1 inst\<rparr> else next_pc s)"

definition is_wait :: "IdNumber \<Rightarrow> bool" where
  "is_wait i = (i \<in> set [WEQV, WEQR, WRLV, WRLR, WORV, WORR])"

definition is_move :: "IdNumber \<Rightarrow> bool" where
  "is_move i = (i \<in> set [MOVV, MOVR, MOVIR, MOVRI])"

definition is_branch :: "IdNumber \<Rightarrow> bool" where
  "is_branch i = (i \<in> set [JMP, BEQ, BNE, BLT, BGT, BLE, BGE, BCR])"

text \<open>
  \<^verbatim>\<open>Execute (inst)\<close>: the new machine state and the instruction, which WDOG changes in place.
  A number that is no opcode falls through the \<^verbatim>\<open>switch\<close> and changes nothing.
\<close>

definition Execute :: "Instruction \<Rightarrow> cpu \<Rightarrow> (cpu \<times> Instruction) result" where
  "Execute inst s =
     (case decode_op (I_Number inst) of
        None \<Rightarrow> Inr (s, inst)
      | Some i \<Rightarrow>
          if i = HALT then Inr (s, inst)
          else if i = NOOP \<or> i = INT_op then Inr (next_pc s, inst)
          else if i = WDOG then Inr (next_pc s, inst\<lparr>I_Number := I_Number inst + 1\<rparr>)
          else if is_branch i then Inr (exec_branch i inst s, inst)
          else bind_r (if is_wait i then exec_wait i inst s
                       else if is_move i then exec_moves i inst s
                       else exec_alu i inst s) (\<lambda>s'. Inr (s', inst)))"

section \<open>Well-formed machine states\<close>

text \<open>
  The register file and its shadow have 256 entries, and the status word is clear or has
  exactly one of EQ, LT and GT: no instruction ever sets the carry bit.
\<close>

definition cpu_wf :: "cpu \<Rightarrow> bool" where
  "cpu_wf s \<longleftrightarrow> length (Regm s) = REGS \<and> length (regm s) = REGS \<and> PSwd s \<in> {0, PsEQ, PsLT, PsGT}"

lemmas ps_defs = PsEQ_def PsLT_def PsGT_def PsCR_def

lemma REGS_256: "REGS = 256"
  by (simp add: REGS_def GREGS_def LREGS_def)

definition waited :: "IdNumber \<Rightarrow> Instruction \<Rightarrow> i32 \<Rightarrow> cpu \<Rightarrow> i32" where
  "waited i inst v s = (if waiting s then waitr s else wait_latch i (Regm s ! unat (I_Src2 inst)) v)"

definition wait_result :: "IdNumber \<Rightarrow> Instruction \<Rightarrow> i32 \<Rightarrow> cpu \<Rightarrow> cpu" where
  "wait_result i inst v s =
     (let r = Regm s ! unat (I_Src2 inst);
          s1 = (if waiting s then s
                 else s\<lparr>waiting := True, waitr := wait_latch i r v, regwa := ucast (I_Src2 inst)\<rparr>)
      in ShowDiffs (if wait_met i r v (waitr s1) then next_pc (s1\<lparr>waiting := False\<rparr>) else s1))"

lemma cpu_wf_init: "cpu_wf cpu_init"
  by (simp add: cpu_wf_def cpu_init_def)

lemma ShowDiffs_frame [simp]:
  "Regm (ShowDiffs s) = Regm s" "PSwd (ShowDiffs s) = PSwd s" "Pc (ShowDiffs s) = Pc s"
  "waiting (ShowDiffs s) = waiting s" "waitr (ShowDiffs s) = waitr s" "regwa (ShowDiffs s) = regwa s"
  "regm (ShowDiffs s) = Regm s"
  by (simp_all add: ShowDiffs_def Let_def)

lemma next_pc_frame [simp]:
  "Regm (next_pc s) = Regm s" "PSwd (next_pc s) = PSwd s" "Pc (next_pc s) = Pc s + 1"
  "waiting (next_pc s) = waiting s" "waitr (next_pc s) = waitr s" "regm (next_pc s) = regm s"
  by (simp_all add: next_pc_def)

lemma SetPSwd_frame [simp]:
  "Regm (SetPSwd v s) = Regm s" "Pc (SetPSwd v s) = Pc s"
  "waiting (SetPSwd v s) = waiting s" "waitr (SetPSwd v s) = waitr s" "regm (SetPSwd v s) = regm s"
  by (simp_all add: SetPSwd_def)

lemma PSwd_SetPSwd:
  "PSwd (SetPSwd v s) = (if v = 0 then PsEQ else if 0 < sint v then PsGT else PsLT)"
proof -
  have "sint v < 0" if "v \<noteq> 0" "\<not> 0 < sint v"
    using that by (metis linorder_neqE_linordered_idom signed_eq_0_iff)
  then show ?thesis by (auto simp: SetPSwd_def)
qed

definition reg_written :: "cpu \<Rightarrow> nat \<Rightarrow> i32 \<Rightarrow> cpu" where
  "reg_written s n v = ShowDiffs (SetPSwd v (s\<lparr>Regm := (Regm s)[n := v]\<rparr>))"

lemma reg_written_sel [simp]:
  "Regm (reg_written s n v) = (Regm s)[n := v]" "Pc (reg_written s n v) = Pc s"
  "waiting (reg_written s n v) = waiting s" "waitr (reg_written s n v) = waitr s"
  "regm (reg_written s n v) = (Regm s)[n := v]"
  by (simp_all add: reg_written_def)

lemma PSwd_reg_written:
  "PSwd (reg_written s n v) = (if v = 0 then PsEQ else if 0 < sint v then PsGT else PsLT)"
  by (simp add: reg_written_def PSwd_SetPSwd)

lemma reg_written_wf: "cpu_wf s \<Longrightarrow> cpu_wf (reg_written s n v)"
  by (simp add: cpu_wf_def PSwd_reg_written)

lemma next_pc_wf: "cpu_wf s \<Longrightarrow> cpu_wf (next_pc s)"
  by (simp add: cpu_wf_def)

lemma write_reg_ok: "cpu_wf s \<Longrightarrow> 0 \<le> i \<Longrightarrow> i < 256 \<Longrightarrow> write_reg s i v = Inr (reg_written s (nat i) v)"
  by (simp add: write_reg_def cpu_wf_def REGS_256 reg_written_def)

lemma uint_u8_bound: "0 \<le> uint (x :: u8)" "uint (x :: u8) < 256"
  using uint_bounded [of x] by simp_all
lemma get_reg8_ok [simp]: "cpu_wf s \<Longrightarrow> get_reg8 s i = Inr (Regm s ! unat i)"
  using uint_u8_bound [of i] by (simp add: get_reg8_def cpu_wf_def REGS_256)
  
lemma write_reg8_ok [simp]: "cpu_wf s \<Longrightarrow> write_reg s (uint (d :: u8)) v = Inr (reg_written s (unat d) v)"
  using uint_u8_bound [of d] by (simp add: write_reg_ok)

definition reg_index :: "i32 \<Rightarrow> bool" where
  "reg_index i \<longleftrightarrow> 0 \<le> sint i \<and> sint i < 256"

lemma get_reg_cases: "cpu_wf s \<Longrightarrow>
  get_reg s i = (if reg_index i then Inr (Regm s ! nat (sint i)) else Inl Out_of_bounds)"
  by (simp add: get_reg_def arr_get_def cpu_wf_def REGS_256 reg_index_def)

definition shift_index :: "i32 \<Rightarrow> bool" where
  "shift_index n \<longleftrightarrow> 0 \<le> sint n \<and> sint n < 32"

text \<open>The first operand of an arithmetic or wait instruction, and the index register.\<close>

definition operand1 :: "IdNumber \<Rightarrow> Instruction \<Rightarrow> cpu \<Rightarrow> i32" where
  "operand1 i inst s = (if is_alu_v i then I_Src1 inst else Regm s ! nat (sint (I_Src1 inst)))"

lemma exec_alu_cases:
  assumes "cpu_wf s" "is_alu_r i \<or> is_alu_v i"
  shows "exec_alu i inst s =
    (if is_alu_r i \<and> \<not> reg_index (I_Src1 inst) then Inl Out_of_bounds
     else bind_r (alu i (operand1 i inst s) (Regm s ! unat (I_Src2 inst)))
            (\<lambda>v. Inr (next_pc (reg_written s (unat (I_Dest inst)) v))))"
proof -
  have "is_alu_r i \<Longrightarrow> \<not> is_alu_v i" by (auto simp: is_alu_r_def is_alu_v_def)
  with assms show ?thesis
    by (auto simp: exec_alu_def get_reg_cases operand1_def)
qed


lemma exec_wait_cases:
  assumes "cpu_wf s"
  shows "exec_wait i inst s =
    bind_r (wait_src i inst s) (\<lambda>v. Inr (wait_result i inst v s))"
  using assms by (simp add: exec_wait_def wait_result_def Let_def)

lemma wait_result_sel [simp]:
  "Regm (wait_result i inst v s) = Regm s" "PSwd (wait_result i inst v s) = PSwd s"
  "waitr (wait_result i inst v s) = waited i inst v s"
  "waiting (wait_result i inst v s) = (\<not> wait_met i (Regm s ! unat (I_Src2 inst)) v (waited i inst v s))"
  "Pc (wait_result i inst v s) =
     (if wait_met i (Regm s ! unat (I_Src2 inst)) v (waited i inst v s) then Pc s + 1 else Pc s)"
  "regm (wait_result i inst v s) = Regm s"
  by (simp_all add: wait_result_def waited_def Let_def)

lemma wait_result_wf: "cpu_wf s \<Longrightarrow> cpu_wf (wait_result i inst v s)"
  by (simp add: cpu_wf_def)

lemma exec_branch_wf: "cpu_wf s \<Longrightarrow> cpu_wf (exec_branch i inst s)"
  by (simp add: cpu_wf_def exec_branch_def)

lemma exec_moves_wf: "cpu_wf s \<Longrightarrow> exec_moves i inst s = Inr s' \<Longrightarrow> cpu_wf s'"
  unfolding exec_moves_def
  by (auto simp: bind_r_eq_Inr get_reg_cases write_reg_ok REGS_256 reg_index_def
     intro!: next_pc_wf reg_written_wf split: if_splits IdNumber.splits)

lemma exec_alu_wf: "cpu_wf s \<Longrightarrow> exec_alu i inst s = Inr s' \<Longrightarrow> cpu_wf s'"
  by (auto simp: exec_alu_def bind_r_eq_Inr intro!: next_pc_wf reg_written_wf)

lemma exec_wait_wf: "cpu_wf s \<Longrightarrow> exec_wait i inst s = Inr s' \<Longrightarrow> cpu_wf s'"
  by (auto simp: exec_wait_cases bind_r_eq_Inr intro!: wait_result_wf)

lemma Execute_wf: "cpu_wf s \<Longrightarrow> Execute inst s = Inr (s', inst') \<Longrightarrow> cpu_wf s'"
  by (auto simp: Execute_def bind_r_eq_Inr next_pc_wf exec_branch_wf
     dest: exec_moves_wf exec_alu_wf exec_wait_wf split: option.splits if_splits)

text \<open>Which instructions can fault, and how.\<close>

definition inst_safe :: "Instruction \<Rightarrow> cpu \<Rightarrow> bool" where
  "inst_safe inst s =
     (case decode_op (I_Number inst) of None \<Rightarrow> True
      | Some i \<Rightarrow> (i = MOVR \<or> is_alu_r i \<or> is_wait i \<and> \<not> wait_lit i \<and> \<not> (i = WRLR \<and> waiting s)
                     \<longrightarrow> reg_index (I_Src1 inst)))"

definition shift_safe :: "Instruction \<Rightarrow> cpu \<Rightarrow> bool" where
  "shift_safe inst s =
     (case decode_op (I_Number inst) of None \<Rightarrow> True
      | Some i \<Rightarrow> (i = LSV \<or> i = RSV \<longrightarrow> shift_index (I_Src1 inst)) \<and>
           (i = LSR \<or> i = RSR \<longrightarrow> shift_index (Regm s ! nat (sint (I_Src1 inst)))))"

lemma alu_cases: "alu i a b =
  (if i \<in> {LSR, LSV, RSR, RSV} \<and> \<not> shift_index a then Inl Bad_arith else Inr (projr (alu i a b)))"
  by (cases i) (simp_all add: alu_def c_shl_def c_shr_def shift_index_def)

section \<open>Faults\<close>

lemma exec_alu_fault: "cpu_wf s \<Longrightarrow> is_alu_r i \<or> is_alu_v i \<Longrightarrow>
  exec_alu i inst s = Inl e \<longleftrightarrow>
    is_alu_r i \<and> \<not> reg_index (I_Src1 inst) \<and> e = Out_of_bounds \<or>
    \<not> (is_alu_r i \<and> \<not> reg_index (I_Src1 inst)) \<and> i \<in> {LSR, LSV, RSR, RSV} \<and>
      \<not> shift_index (operand1 i inst s) \<and> e = Bad_arith"
  by (subst exec_alu_cases, assumption+, subst alu_cases) (auto simp: bind_r_eq_Inl)

lemma exec_moves_fault: "cpu_wf s \<Longrightarrow> is_move i \<Longrightarrow>
  exec_moves i inst s = Inl e \<longleftrightarrow> i = MOVR \<and> \<not> reg_index (I_Src1 inst) \<and> e = Out_of_bounds"
proof -
  assume wf: "cpu_wf s" and "is_move i"
  then consider "i = MOVV" | "i = MOVR" | "i = MOVIR" | "i = MOVRI"
    by (auto simp: is_move_def)
  moreover have idx: "arr_get (Regm s) (int GREGS) = Inr (Regm s ! GREGS)"
    using wf by (simp add: cpu_wf_def REGS_def LREGS_def)
  ultimately show ?thesis
    using wf by cases (auto simp: exec_moves_def bind_r_eq_Inl get_reg_cases write_reg_ok REGS_256 reg_index_def)
qed

lemma exec_wait_fault: "cpu_wf s \<Longrightarrow>
  exec_wait i inst s = Inl e \<longleftrightarrow>
    \<not> wait_lit i \<and> \<not> (i = WRLR \<and> waiting s) \<and> \<not> reg_index (I_Src1 inst) \<and> e = Out_of_bounds"
  by (auto simp: exec_wait_cases wait_src_def get_reg_cases)

lemmas class_defs = is_branch_def is_wait_def is_move_def is_alu_r_def is_alu_v_def

lemma decoded_class:
  "i = HALT \<or> i = NOOP \<or> i = INT_op \<or> i = WDOG \<or> is_branch i \<or> is_wait i \<or> is_move i \<or> is_alu_r i \<or> is_alu_v i"
  by (cases i) (simp_all add: is_branch_def is_wait_def is_move_def is_alu_r_def is_alu_v_def)

lemma Execute_fault_cases:
  assumes "cpu_wf s"
  shows "Execute inst s = Inl e \<longleftrightarrow>
    e = Out_of_bounds \<and> \<not> inst_safe inst s \<or> e = Bad_arith \<and> inst_safe inst s \<and> \<not> shift_safe inst s"
proof (cases "decode_op (I_Number inst)")
  case None
  then show ?thesis by (simp add: Execute_def inst_safe_def shift_safe_def)
next
  case (Some i)
  consider (plain) "i \<in> {HALT, NOOP, INT_op, WDOG} \<or> is_branch i" | (wait) "is_wait i"
    | (move) "is_move i" | (alu) "is_alu_r i \<or> is_alu_v i"
    using decoded_class [of i] by blast
  then show ?thesis
  proof cases
    case plain
    then have "\<not> is_wait i" "\<not> is_alu_r i" "i \<notin> {MOVR, LSV, RSV, LSR, RSR}"
      by (auto simp: class_defs)
    with plain Some show ?thesis
      by (auto simp: Execute_def inst_safe_def shift_safe_def)
  next
    case wait
    then have "\<not> is_branch i" "\<not> is_alu_r i" "i \<notin> {HALT, NOOP, INT_op, WDOG, MOVR, LSV, RSV, LSR, RSR}"
      by (auto simp: class_defs)
    with Some wait exec_wait_fault [OF assms, of i inst e] show ?thesis
      by (auto simp: Execute_def bind_r_eq_Inl inst_safe_def shift_safe_def)
  next
    case move
    then have "\<not> is_branch i" "\<not> is_wait i" "\<not> is_alu_r i" "i \<notin> {HALT, NOOP, INT_op, WDOG, LSV, RSV, LSR, RSR}"
      by (auto simp: class_defs)
    with Some move exec_moves_fault [OF assms, of i inst e] show ?thesis
      by (auto simp: Execute_def bind_r_eq_Inl inst_safe_def shift_safe_def)
  next
    case alu
    then have no: "\<not> is_branch i" "\<not> is_wait i" "\<not> is_move i" "i \<notin> {HALT, NOOP, INT_op, WDOG, MOVR}"
      and v: "is_alu_v i = (\<not> is_alu_r i)" "i \<in> {LSR, RSR} \<Longrightarrow> is_alu_r i" "i \<in> {LSV, RSV} \<Longrightarrow> \<not> is_alu_r i"
      by (auto simp: class_defs)
    from no Some exec_alu_fault [OF assms alu, of inst e] have
      "Execute inst s = Inl e \<longleftrightarrow> is_alu_r i \<and> \<not> reg_index (I_Src1 inst) \<and> e = Out_of_bounds \<or>
        \<not> (is_alu_r i \<and> \<not> reg_index (I_Src1 inst)) \<and> i \<in> {LSR, LSV, RSR, RSV} \<and>
        \<not> shift_index (operand1 i inst s) \<and> e = Bad_arith"
      by (auto simp: Execute_def bind_r_eq_Inl)
    with Some no v show ?thesis
      by (auto simp: inst_safe_def shift_safe_def operand1_def)
  qed
qed

section \<open>The program counter\<close>

lemma Execute_pc:
  assumes wf: "cpu_wf s" and run: "Execute inst s = Inr (s', inst')"
  shows "case decode_op (I_Number inst) of
      None \<Rightarrow> Pc s' = Pc s \<and> inst' = inst
    | Some i \<Rightarrow> (Pc s' = Pc s + 1 \<and> i \<noteq> HALT \<and> i \<noteq> JMP \<or> Pc s' = Pc s \<or> Pc s' = I_Src1 inst \<and> is_branch i) \<and>
        inst' = (if i = WDOG then inst\<lparr>I_Number := I_Number inst + 1\<rparr> else inst)"
proof (cases "decode_op (I_Number inst)")
  case None
  with run show ?thesis by (simp add: Execute_def)
next
  case (Some i)
  consider (plain) "i \<in> {HALT, NOOP, INT_op, WDOG}" | (branch) "is_branch i" | (wait) "is_wait i"
    | (move) "is_move i" | (alu) "is_alu_r i \<or> is_alu_v i"
    using decoded_class [of i] by blast
  then show ?thesis
  proof cases
    case plain
    with run Some show ?thesis by (auto simp: Execute_def class_defs)
  next
    case branch
    then have "i \<notin> {HALT, NOOP, INT_op, WDOG}" by (auto simp: class_defs)
    with run Some branch show ?thesis
      by (auto simp: Execute_def exec_branch_def branch_taken_def split: if_splits)
  next
    case wait
    then have "\<not> is_branch i" "i \<notin> {HALT, NOOP, INT_op, WDOG, JMP}" by (auto simp: class_defs)
    with run Some wait show ?thesis
      by (auto simp: Execute_def exec_wait_cases [OF wf] bind_r_eq_Inr split: if_splits)
  next
    case move
    then have no: "\<not> is_branch i" "\<not> is_wait i" "i \<notin> {HALT, NOOP, INT_op, WDOG, JMP}" by (auto simp: class_defs)
    have "Pc s' = Pc s + 1 \<and> inst' = inst"
      using run Some move no wf
      by (auto simp: Execute_def exec_moves_def bind_r_eq_Inr write_reg_ok get_reg_cases REGS_256
          split: if_splits IdNumber.splits) (auto simp: is_move_def)
    with Some no show ?thesis by auto
  next
    case alu
    then have "\<not> is_branch i" "\<not> is_wait i" "\<not> is_move i" "i \<notin> {HALT, NOOP, INT_op, WDOG, JMP}" by (auto simp: class_defs)
    with run Some alu show ?thesis
      by (auto simp: Execute_def exec_alu_cases [OF wf alu] bind_r_eq_Inr split: if_splits)
  qed
qed

end
