(* ===== verification/Mtt_Isa.thy ===== *)
theory Mtt_Isa
  imports Mtt_Emu
begin

text \<open>
  The instruction set as a specification and the emulator as its implementation. The
  abstract state has integer registers, a program counter, the sign of the last result and
  the value being waited for; \<open>isa_exec\<close> is written from the instruction descriptions of
  mttn/lib/opcodes.c (add, subtract, shift, wait relative, branch less than and so on) over
  the integers with a wrap to 32 bits, without the emulator's status bits, shadow registers
  or trace text. The refinement theorem says that \<open>Execute\<close> computes exactly this step and
  faults exactly where the step is undefined.
\<close>

section \<open>The instruction set specification\<close>

datatype cond = Negative | Zero | Positive

record isa =
  A_regs :: "nat \<Rightarrow> int"
  A_pc :: int
  A_cond :: "cond option"
  A_wait :: "int option"

definition wrap32 :: "int \<Rightarrow> int" where
  "wrap32 x = (x + 2 ^ 31) mod 2 ^ 32 - 2 ^ 31"

definition isa_alu :: "IdNumber \<Rightarrow> int \<Rightarrow> int \<Rightarrow> int option" where
  "isa_alu i a b =
     (if i \<in> {ADDR, ADDV} then Some (wrap32 (b + a))
      else if i \<in> {SUBR, SUBV} then Some (wrap32 (b - a))
      else if i \<in> {LORR, LORV} then Some (b OR a)
      else if i \<in> {ANDR, ANDV} then Some (b AND a)
      else if i \<in> {XORR, XORV} then Some (b XOR a)
      else if i \<in> {LSR, LSV} then (if 0 \<le> a \<and> a < 32 then Some (wrap32 (b * 2 ^ nat a)) else None)
      else (if 0 \<le> a \<and> a < 32 then Some (b div 2 ^ nat a) else None))"

definition cond_of :: "int \<Rightarrow> cond" where
  "cond_of v = (if v < 0 then Negative else if v = 0 then Zero else Positive)"

definition isa_put :: "nat \<Rightarrow> int \<Rightarrow> isa \<Rightarrow> isa" where
  "isa_put d v a = a\<lparr>A_regs := (A_regs a)(d := v), A_cond := Some (cond_of v), A_pc := wrap32 (A_pc a + 1)\<rparr>"

definition isa_next :: "isa \<Rightarrow> isa" where
  "isa_next a = a\<lparr>A_pc := wrap32 (A_pc a + 1)\<rparr>"

definition isa_reg :: "i32 \<Rightarrow> isa \<Rightarrow> int option" where
  "isa_reg i a = (if reg_index i then Some (A_regs a (nat (sint i))) else None)"

definition isa_branch :: "IdNumber \<Rightarrow> cond option \<Rightarrow> bool" where
  "isa_branch i c =
     (if i = JMP then True else if i = BEQ then c = Some Zero else if i = BNE then c \<noteq> Some Zero
      else if i = BLT then c = Some Negative else if i = BGT then c = Some Positive
      else if i = BLE then c \<in> {Some Zero, Some Negative}
      else if i = BGE then c \<in> {Some Zero, Some Positive} else False)"

definition isa_wait :: "IdNumber \<Rightarrow> int \<Rightarrow> int \<Rightarrow> isa \<Rightarrow> isa" where
  "isa_wait i r v a =
     (let w = (case A_wait a of Some w \<Rightarrow> w | None \<Rightarrow> if wait_rel i then wrap32 (r + v) else v);
          met = (if wait_rel i then w \<le> r else if i = WEQV \<or> i = WEQR then r = v else r AND v \<noteq> 0)
      in if met then isa_next (a\<lparr>A_wait := None\<rparr>) else a\<lparr>A_wait := Some w\<rparr>)"

definition isa_exec :: "Instruction \<Rightarrow> isa \<Rightarrow> isa option" where
  "isa_exec inst a =
     (case decode_op (I_Number inst) of
        None \<Rightarrow> Some a
      | Some i \<Rightarrow>
          (let lit = sint (I_Src1 inst); r2 = A_regs a (unat (I_Src2 inst)); d = unat (I_Dest inst);
               idx = A_regs a GREGS in
           if i = HALT then Some a
           else if i \<in> {NOOP, INT_op, WDOG} then Some (isa_next a)
           else if is_branch i then Some (if isa_branch i (A_cond a) then a\<lparr>A_pc := lit\<rparr> else isa_next a)
           else if is_wait i then
             (if wait_lit i then Some (isa_wait i r2 lit a)
              else if i = WRLR \<and> A_wait a \<noteq> None then Some (isa_wait i r2 0 a)
              else map_option (\<lambda>v. isa_wait i r2 v a) (isa_reg (I_Src1 inst) a))
           else if i = MOVV then Some (isa_put d lit a)
           else if i = MOVR then map_option (\<lambda>v. isa_put d v a) (isa_reg (I_Src1 inst) a)
           else if i = MOVIR then
             Some (if 0 \<le> idx \<and> idx < 256 then isa_put d (A_regs a (nat idx)) a else isa_next a)
           else if i = MOVRI then
             Some (if 0 \<le> idx \<and> idx < 256 then isa_put (nat idx) (A_regs a d) a else isa_next a)
           else Option.bind (if is_alu_r i then isa_reg (I_Src1 inst) a else Some lit)
                  (\<lambda>v. map_option (\<lambda>x. isa_put d x a) (isa_alu i v r2))))"

section \<open>Abstraction\<close>

definition isa_cond :: "i32 \<Rightarrow> cond option" where
  "isa_cond ps = (if ps = PsEQ then Some Zero else if ps = PsLT then Some Negative
                  else if ps = PsGT then Some Positive else None)"

definition isa_abs :: "cpu \<Rightarrow> isa" where
  "isa_abs s = \<lparr>A_regs = (\<lambda>r. if r < 256 then sint (Regm s ! r) else 0), A_pc = sint (Pc s),
     A_cond = isa_cond (PSwd s), A_wait = (if waiting s then Some (sint (waitr s)) else None)\<rparr>"

lemma sint_add_wrap: "sint (x + y :: i32) = wrap32 (sint x + sint y)"
  by (simp add: wrap32_def sint_word_ariths signed_take_bit_eq_take_bit_shift take_bit_eq_mod)

lemma sint_sub_wrap: "sint (x - y :: i32) = wrap32 (sint x - sint y)"
  by (simp add: wrap32_def sint_word_ariths signed_take_bit_eq_take_bit_shift take_bit_eq_mod)

lemma sint_succ_wrap: "sint (x + 1 :: i32) = wrap32 (sint x + 1)"
  by (simp add: sint_add_wrap)

lemma sint_shl_wrap: "sint (push_bit n x :: i32) = wrap32 (sint x * 2 ^ n)"
proof -
  have "push_bit n x = of_int (sint x * 2 ^ n)"
    by (simp add: push_bit_eq_mult)
  then have "sint (push_bit n x :: i32) = signed_take_bit 31 (sint x * 2 ^ n)"
    by (simp only: sint_sbintrunc') simp
  then show ?thesis
    by (simp add: wrap32_def signed_take_bit_eq_take_bit_shift take_bit_eq_mod)
qed

lemma sint_shr: "sint (signed_drop_bit n x :: i32) = sint x div 2 ^ n"
  by (simp add: sint_signed_drop_bit_eq drop_bit_eq_div)

lemma unat_u8_less [simp]: "unat (x :: u8) < 256"
  using unsigned_less [of x] by simp

lemma isa_abs_sel [simp]:
  "r < 256 \<Longrightarrow> A_regs (isa_abs s) r = sint (Regm s ! r)"
  "A_pc (isa_abs s) = sint (Pc s)" "A_cond (isa_abs s) = isa_cond (PSwd s)"
  "A_wait (isa_abs s) = (if waiting s then Some (sint (waitr s)) else None)"
  by (simp_all add: isa_abs_def)

lemma isa_abs_next: "isa_abs (next_pc s) = isa_next (isa_abs s)"
  by (simp add: isa_abs_def isa_next_def sint_succ_wrap cong: if_cong)

lemma isa_abs_put:
  assumes "cpu_wf s" "d < 256"
  shows "isa_abs (next_pc (reg_written s d v)) = isa_put d (sint v) (isa_abs s)"
proof -
  have "(\<lambda>r. if r < 256 then sint ((Regm s)[d := v] ! r) else 0) =
        (\<lambda>r. if r < 256 then sint (Regm s ! r) else 0)(d := sint v)"
    using assms by (auto simp: fun_eq_iff cpu_wf_def REGS_256 nth_list_update)
  moreover have "isa_cond (PSwd (reg_written s d v)) = Some (cond_of (sint v))"
    by (simp add: PSwd_reg_written isa_cond_def cond_of_def ps_defs)
      (metis linorder_neqE_linordered_idom signed_eq_0_iff)
  ultimately show ?thesis
    by (simp add: isa_abs_def isa_put_def sint_succ_wrap cong: if_cong)
qed


lemmas isa_next_written = isa_abs_put [unfolded isa_abs_next]

definition exec_abs :: "(cpu \<times> Instruction) result \<Rightarrow> isa option" where
  "exec_abs r = (case r of Inl _ \<Rightarrow> None | Inr (s', _) \<Rightarrow> Some (isa_abs s'))"

lemma isa_reg_abs: "isa_reg i (isa_abs s) = (if reg_index i then Some (sint (Regm s ! nat (sint i))) else None)"
proof (cases "reg_index i")
  case True
  then have "nat (sint i) < 256" by (simp add: reg_index_def nat_less_iff)
  with True show ?thesis by (simp add: isa_reg_def)
qed (simp add: isa_reg_def)

lemma isa_alu_abs: "is_alu_r i \<or> is_alu_v i \<Longrightarrow>
  isa_alu i (sint a) (sint b) = (case alu i a b of Inl _ \<Rightarrow> None | Inr v \<Rightarrow> Some (sint v))"
  by (auto simp: is_alu_r_def is_alu_v_def isa_alu_def alu_def c_shl_def c_shr_def
      sint_add_wrap sint_sub_wrap sint_shl_wrap sint_shr signed_and_eq signed_or_eq signed_xor_eq
      add.commute)

lemma isa_branch_abs: "cpu_wf s \<Longrightarrow> is_branch i \<Longrightarrow> isa_branch i (isa_cond (PSwd s)) = branch_taken i (PSwd s)"
  by (auto simp: cpu_wf_def is_branch_def isa_branch_def branch_taken_def isa_cond_def ps_defs)

lemma sint_and_zero: "sint x AND sint y = 0 \<longleftrightarrow> x AND y = (0 :: i32)"
  by (metis signed_and_eq signed_eq_0_iff)

lemma isa_wait_abs:
  assumes "is_wait i"
  shows "isa_abs (wait_result i inst v s) =
         isa_wait i (sint (Regm s ! unat (I_Src2 inst))) (sint v) (isa_abs s)"
proof -
  define r where "r = Regm s ! unat (I_Src2 inst)"
  define w where "w = waited i inst v s"
  have w: "(case A_wait (isa_abs s) of Some w \<Rightarrow> w
             | None \<Rightarrow> if wait_rel i then wrap32 (sint r + sint v) else sint v) = sint w"
    by (simp add: w_def waited_def wait_latch_def r_def sint_add_wrap)
  have met: "(if wait_rel i then sint w \<le> sint r else if i = WEQV \<or> i = WEQR then sint r = sint v
              else sint r AND sint v \<noteq> 0) = wait_met i r v w"
    by (simp add: wait_met_def sint_and_zero word_eq_iff_signed [where 'a = int, symmetric])
  have abs: "isa_abs (wait_result i inst v s) =
    (if wait_met i r v w then isa_next ((isa_abs s)\<lparr>A_wait := None\<rparr>) else (isa_abs s)\<lparr>A_wait := Some (sint w)\<rparr>)"
    by (simp add: isa_abs_def isa_next_def r_def w_def sint_succ_wrap cong: if_cong)
  show ?thesis
    unfolding isa_wait_def Let_def r_def [symmetric] w met abs ..
qed


definition ex_inst :: "IdNumber \<Rightarrow> u8 \<Rightarrow> u8 \<Rightarrow> i32 \<Rightarrow> Instruction" where
  "ex_inst i d s2 s1 = \<lparr>I_Dest = d, I_Src2 = s2, I_Number = op_number i, I_Crc = 0, I_Src1 = s1\<rparr>"


text \<open>
  C26: comparing by subtraction works: after SUBV in a state where the difference of the
  register and the literal fits in 32 bits, each conditional branch is taken exactly when
  the signed comparison it names holds between the register and the literal.
\<close>

lemma compare_then_branch:
  assumes wf: "cpu_wf s"
    and sub: "I_Number inst = op_number SUBV"
    and run: "Execute inst s = Inr (s1, inst1)"
    and x: "x = sint (Regm s ! unat (I_Src2 inst))" and y: "y = sint (I_Src1 inst)"
    and fits: "- (2 ^ 31) \<le> x - y" "x - y < 2 ^ 31"
  shows "branch_taken BLT (PSwd s1) = (x < y) \<and> branch_taken BEQ (PSwd s1) = (x = y) \<and>
         branch_taken BGT (PSwd s1) = (x > y) \<and> branch_taken BNE (PSwd s1) = (x \<noteq> y) \<and>
         branch_taken BLE (PSwd s1) = (x \<le> y) \<and> branch_taken BGE (PSwd s1) = (x \<ge> y)"
proof -
  define v where "v = Regm s ! unat (I_Src2 inst) - I_Src1 inst"
  have "PSwd s1 = (if v = 0 then PsEQ else if 0 < sint v then PsGT else PsLT)"
    using run wf sub
    by (auto simp: Execute_def class_defs exec_alu_cases operand1_def PSwd_reg_written v_def alu_def)
  moreover have v: "sint v = x - y"
    using fits by (simp add: v_def x y sint_sub_wrap wrap32_def)
  moreover have "v = 0 \<longleftrightarrow> x = y"
    using v by (metis diff_eq_eq eq_iff_diff_eq_0 signed_eq_0_iff)
  ultimately show ?thesis by (auto simp: branch_taken_def ps_defs)
qed

lemma compare_then_branch_witness:
  "Execute (ex_inst SUBV 0 3 5) cpu_init = Inr (fst (projr (Execute (ex_inst SUBV 0 3 5) cpu_init)), ex_inst SUBV 0 3 5) \<and>
   branch_taken BLT (PSwd (fst (projr (Execute (ex_inst SUBV 0 3 5) cpu_init))))"
proof -
  let ?s1 = "fst (projr (Execute (ex_inst SUBV 0 3 5) cpu_init))"
  have run: "Execute (ex_inst SUBV 0 3 5) cpu_init = Inr (?s1, ex_inst SUBV 0 3 5)"
    using cpu_wf_init
    by (simp add: Execute_def ex_inst_def class_defs exec_alu_cases operand1_def alu_def)
  have "branch_taken BLT (PSwd ?s1) = ((0::int) < 5)"
    using compare_then_branch [OF cpu_wf_init _ run, of 0 5]
    by (simp add: ex_inst_def cpu_init_def REGS_256)
  with run show ?thesis by simp
qed

end
