(* ===== verification/Mtt_Emulate.thy ===== *)
theory Mtt_Emulate
  imports Mtt_Isa
begin

text \<open>
  The emulator's user interface (mttn/tools/emu.c): looking a register up by name, the
  register editor and the command loop \<open>Emulate\<close>, which lists, executes and moves around in
  a loaded program. The input is the list of the texts successive \<^verbatim>\<open>fgets\<close> calls store; a
  call with no line left blocks. Then the execution of a program as a step relation, its
  reachable states, and what holds in them: the machine stays well formed, the carry branch
  is never taken, and a closed program never leaves its memory.
\<close>

section \<open>Register names\<close>

fun StringToReg_rows :: "string \<Rightarrow> string \<Rightarrow> RegisterDsc list \<Rightarrow> u32" where
  "StringToReg_rows name upr [] = 0"
| "StringToReg_rows name upr (d # ds) =
     (if starts_with upr (Reg_Name d)
      then (if Reg_Start d < Reg_End d
            then (if length (Reg_Name d) < length name
                  then (let cp = drop (length (Reg_Name d)) name; (rn, ep) = strtoul cp;
                            st = of_nat (Reg_Start d); en = of_nat (Reg_End d); off = of_nat (Reg_Offset d)
                        in if cp \<noteq> ep \<and> off \<le> rn \<and> rn \<le> en - st + off then st + rn - off
                           else StringToReg_rows name upr ds)
                  else StringToReg_rows name upr ds)
            else of_nat (Reg_Start d))
      else StringToReg_rows name upr ds)"

definition StringToReg :: "string option \<Rightarrow> u32 result" where
  "StringToReg name =
     (case name of
        None \<Rightarrow> Inr 0
      | Some cp \<Rightarrow>
          if length cp \<le> MAX_REGISTER_STRING_LENGTH
          then bind_r (StrToUpper cp) (\<lambda>upr. Inr (StringToReg_rows cp upr Regs))
          else Inr 0)"

section \<open>Editing registers\<close>

definition first_char :: "string \<Rightarrow> char" where
  "first_char ln = (case ln of [] \<Rightarrow> CHR 0x00 | c # _ \<Rightarrow> c)"

definition edit_goto :: "u32 \<Rightarrow> nat \<Rightarrow> nat \<Rightarrow> i32 \<Rightarrow> i32" where
  "edit_goto trv mn mx reg = (if trv < of_nat mx \<and> of_nat mn \<le> trv then trv else reg)"

fun EditRegs :: "i32 \<Rightarrow> nat \<Rightarrow> nat \<Rightarrow> cpu \<Rightarrow> string list \<Rightarrow> (cpu \<times> string list \<times> string) result" where
  "EditRegs reg mn mx s [] = bind_r (arr_get (Regm s) (sint reg)) (\<lambda>_. Inl Blocked)"
| "EditRegs reg mn mx s (ln # rest) =
     bind_r (arr_get (Regm s) (sint reg)) (\<lambda>v.
       let prompt = fmt_0d 3 reg @ '':'' @ RegToString (sint reg) @ '' 0x'' @ fmt_x v @ '': '';
           c = first_char ln in
       if c = CHR ''.'' then Inr (s, rest, prompt)
       else if c = CHR ''/'' \<and> tl ln \<noteq> [] then
         (let cp = tl ln; (u, ep) = strtoul cp in
          if cp \<noteq> ep
          then bind_r (EditRegs (edit_goto (u + of_nat mn) mn mx reg) mn mx s rest)
                 (\<lambda>(s', r, out). Inr (s', r, prompt @ out))
          else bind_r (StringToReg (Some cp)) (\<lambda>trv.
               bind_r (EditRegs (edit_goto trv mn mx reg) mn mx s rest)
                 (\<lambda>(s', r, out). Inr (s', r, prompt @ out))))
       else if c = CHR 0x0A then
         (if int mx \<le> sint (reg + 1)
          then bind_r (EditRegs (of_nat mn) mn mx s rest) (\<lambda>(s', r, out). Inr (s', r, prompt @ nl @ out))
          else bind_r (EditRegs (reg + 1) mn mx s rest) (\<lambda>(s', r, out). Inr (s', r, prompt @ out)))
       else
         (let (val, ep) = strtoul ln in
          if ln \<noteq> ep \<and> c \<noteq> CHR ''/''
          then bind_r (EditRegs reg mn mx
                 (s\<lparr>regm := (regm s)[nat (sint reg) := val], Regm := (Regm s)[nat (sint reg) := val]\<rparr>) rest)
                 (\<lambda>(s', r, out). Inr (s', r, prompt @ out))
          else bind_r (EditRegs reg mn mx s rest) (\<lambda>(s', r, out). Inr (s', r, prompt @ out))))"

definition EditGlobalReg :: "i32 \<Rightarrow> cpu \<Rightarrow> string list \<Rightarrow> (cpu \<times> string list \<times> string) result" where
  "EditGlobalReg reg s lines =
     (if int GREGS \<le> sint reg then Inr (s, lines, []) else EditRegs reg 0 GREGS s lines)"

definition EditLocalReg :: "i32 \<Rightarrow> cpu \<Rightarrow> string list \<Rightarrow> (cpu \<times> string list \<times> string) result" where
  "EditLocalReg reg s lines =
     (if int REGS \<le> sint reg \<or> sint reg < int GREGS then Inr (s, lines, []) else EditRegs reg GREGS REGS s lines)"

section \<open>The command loop\<close>

record emu =
  E_cpu :: cpu
  E_code :: ProgramBuf
  E_i :: i32
  E_exc :: bool

text \<open>Executing the instruction the program counter points at, and printing it.\<close>

definition exec_pc :: "emu \<Rightarrow> (emu \<times> string) result" where
  "exec_pc e =
     (let pc = sint (Pc (E_cpu e) - LoadAddress (E_code e)) in
      bind_r (arr_get (Program (E_code e)) pc) (\<lambda>inst.
      bind_r (Execute inst (E_cpu e)) (\<lambda>(s', inst').
        Inr (e\<lparr>E_cpu := s'\<lparr>Dfs := []\<rparr>,
               E_code := (E_code e)\<lparr>Program := (Program (E_code e))[nat pc := inst']\<rparr>\<rparr>,
             ''ExPc:'' @ fmt_0X 4 (Pc (E_cpu e)) @ '':'' @ InstToStr inst' @ '' '' @
             PsToString (PSwd s') @ '' '' @ Dfs s' @ '' ''))))"

fun exec_count :: "nat \<Rightarrow> emu \<Rightarrow> (emu \<times> string) result" where
  "exec_count 0 e = Inr (e, [])"
| "exec_count (Suc n) e =
     bind_r (exec_pc e) (\<lambda>(e1, o1).
     bind_r (exec_count n e1) (\<lambda>(e2, o2). Inr (e2, o1 @ (if n = 0 then [] else nl) @ o2)))"

definition in_program :: "u32 \<Rightarrow> ProgramBuf \<Rightarrow> bool" where
  "in_program pc code \<longleftrightarrow> LoadAddress code \<le> pc \<and> pc < LoadAddress code + InstructionCount code"

definition emu_help :: string where
  "emu_help =
     ''<crtn>           Next Address/Instruction/Register'' @ nl @
     ''x[<count>]<crtn> Goto Execute PC Mode; Run count instructions (Default = 1)'' @ nl @
     ''/<address><crtn> Goto program instruction at address'' @ nl @
     ''p[<PC>]<crtn>    Change PC'' @ nl @
     ''g[<reg>]<crtn>   Open global reg (Default = Last)'' @ nl @
     ''l[<reg>]<crtn>   Open local reg  (Default = Last)'' @ nl @
     ''<value><crtn>    Change register contents to value'' @ nl @
     ''.<crtn>          Back to List Address Mode / Exit command'' @ nl @
     ''?                Help'' @ nl"

text \<open>The \<^verbatim>\<open>case Alpha\<close> commands: x, p, g and l.\<close>

definition emu_alpha :: "emu \<Rightarrow> string \<Rightarrow> string list \<Rightarrow> (emu \<times> string list \<times> string) result" where
  "emu_alpha e ln rest =
     (let c = first_char ln; (u, ep) = strtoul (tl ln) in
      if c = CHR ''x'' then
        (let cnt = (if sint u \<le> 0 then 1 else nat (sint u)) in
         bind_r (exec_count cnt (e\<lparr>E_exc := True\<rparr>)) (\<lambda>(e', out).
           Inr (e', rest, (if E_exc e then [] else ''MODE:ExPc (Execute PC mode)'') @ nl @ out)))
      else if c = CHR ''p'' then
        (if in_program u (E_code e)
         then bind_r (arr_get (Program (E_code e)) (sint (u - LoadAddress (E_code e)))) (\<lambda>inst.
           Inr (e\<lparr>E_cpu := (E_cpu e)\<lparr>waitr := 0, Pc := u\<rparr>\<rparr>, rest,
                nl @ ''PC:'' @ fmt_0X 6 u @ '': '' @ InstToStr inst @ nl @ nl))
         else Inr (e, rest, nl @ nl))
      else if c = CHR ''g'' then
        bind_r (EditGlobalReg u (E_cpu e) rest) (\<lambda>(s', r, out). Inr (e\<lparr>E_cpu := s'\<rparr>, r, out))
      else if c = CHR ''l'' then
        bind_r (EditLocalReg (u + of_nat GREGS) (E_cpu e) rest) (\<lambda>(s', r, out). Inr (e\<lparr>E_cpu := s'\<rparr>, r, out))
      else Inr (e, rest, []))"

text \<open>One command: whether the loop ends, the state, the lines left and the text printed.\<close>

definition emu_cmd :: "emu \<Rightarrow> AtomType \<Rightarrow> string \<Rightarrow> string list \<Rightarrow> (bool \<times> emu \<times> string list \<times> string) result" where
  "emu_cmd e at ln rest =
     (let c = first_char ln in
      if at = Bit then
        (if E_exc e then Inr (False, e\<lparr>E_exc := False\<rparr>, rest, ''MODE:LsAd (List Address mode)'' @ nl)
         else Inr (True, e, rest, ''Exit emulator'' @ nl))
      else if at = Seperator then
        (if c = CHR 0x0A then
           (if E_exc e then bind_r (exec_pc e) (\<lambda>(e', out). Inr (False, e', rest, out))
            else (let i = E_i e + 1 in
                  if InstructionCount (E_code e) \<le> i then Inr (False, e\<lparr>E_i := 0\<rparr>, rest, nl)
                  else Inr (False, e\<lparr>E_i := i\<rparr>, rest, [])))
         else Inr (False, e, rest, []))
      else if at = Alpha then
        bind_r (emu_alpha e ln rest) (\<lambda>(e', r, out). Inr (False, e', r, out))
      else if at = Operator then
        (if c = CHR ''/'' then
           (let cp = tl ln; (u, ep) = strtoul cp in
            if cp \<noteq> ep \<and> in_program u (E_code e)
            then Inr (False, e\<lparr>E_i := u - LoadAddress (E_code e)\<rparr>, rest, [])
            else Inr (False, e, rest, []))
         else if c = CHR ''?'' then Inr (False, e, rest, emu_help)
         else Inr (False, e, rest, []))
      else Inr (False, e, rest, []))"

lemma EditRegs_rest:
  "EditRegs reg mn mx s lines = Inr (s', r, out) \<Longrightarrow> length r \<le> length lines"
proof (induction lines arbitrary: reg s s' r out)
  case (Cons ln rest)
  then show ?case
    by (fastforce simp: bind_r_eq_Inr Let_def split: if_splits prod.splits dest: Cons.IH)
qed (simp add: bind_r_eq_Inr)

lemma emu_cmd_rest:
  "emu_cmd e at ln rest = Inr (b, e', r, out) \<Longrightarrow> length r \<le> length rest"
  by (auto simp: emu_cmd_def emu_alpha_def EditGlobalReg_def EditLocalReg_def bind_r_eq_Inr Let_def
      split: if_splits prod.splits dest: EditRegs_rest)

definition emu_prompt :: "emu \<Rightarrow> Instruction \<Rightarrow> string" where
  "emu_prompt e inst =
     (if E_exc e then [] else ''LsAd:'' @ fmt_0X 4 (E_i e + LoadAddress (E_code e)) @ '': '' @ InstToStr inst @ '' '')"

function emulate_loop :: "emu \<Rightarrow> string list \<Rightarrow> (emu \<times> string) result" where
  "emulate_loop e [] = bind_r (arr_get (Program (E_code e)) (sint (E_i e))) (\<lambda>_. Inl Blocked)"
| "emulate_loop e (ln # rest) =
     bind_r (arr_get (Program (E_code e)) (sint (E_i e))) (\<lambda>inst.
     bind_r (atom_of (first_char ln)) (\<lambda>at.
     bind_r (emu_cmd e at ln rest) (\<lambda>(stop, e', r, out).
       if stop then Inr (e', emu_prompt e inst @ out)
       else bind_r (emulate_loop e' r) (\<lambda>(e2, o2). Inr (e2, emu_prompt e inst @ out @ o2)))))"
  by pat_completeness auto
termination
  by (relation "measure (\<lambda>(e, lines). length lines)") (auto dest!: emu_cmd_rest)

definition Emulate :: "ProgramBuf \<Rightarrow> cpu \<Rightarrow> string list \<Rightarrow> (emu \<times> string) result" where
  "Emulate code s lines =
     emulate_loop \<lparr>E_cpu = s\<lparr>Pc := LoadAddress code\<rparr>, E_code = code, E_i = 0, E_exc = False\<rparr> lines"

lemma StringToReg_ascii: "ascii cp \<Longrightarrow> length cp \<le> 8 \<Longrightarrow>
  StringToReg (Some cp) = Inr (StringToReg_rows cp (map upper_c cp) Regs)"
  by (simp add: StringToReg_def StrToUpper_ascii MAX_REGISTER_STRING_LENGTH_def)

lemma StringToReg_GR:
  assumes "1 \<le> n" "n \<le> 212" shows "StringToReg (Some (''GR'' @ show_base 10 n)) = Inr (of_nat n - 1)"
proof -
  have len: "length (show_base 10 n) \<le> 3" using show_base_length [of 10 n 2] assms by simp
  have "strtoul (show_base 10 n) = (of_nat n, [])"
    using strtoul_dec [of n "[]"] assms by (simp add: starts_digit_def)
  moreover have "(1::u32) \<le> of_nat n" "of_nat n \<le> (212 :: u32)"
    using word_range [OF assms] by simp_all
  ultimately show ?thesis
    using len ascii_dec [of n]
    by (simp add: StringToReg_ascii ascii_def Regs_def regd_def starts_with_def upper_c_def)
qed

lemma StringToReg_LR:
  assumes "1 \<le> n" "n \<le> 31" shows "StringToReg (Some (''LR'' @ show_base 10 n)) = Inr (224 + of_nat n)"
proof -
  have len: "length (show_base 10 n) \<le> 3" using show_base_length [of 10 n 2] assms by simp
  have "strtoul (show_base 10 n) = (of_nat n, [])"
    using strtoul_dec [of n "[]"] assms by (simp add: starts_digit_def)
  moreover have "(1::u32) \<le> of_nat n" "of_nat n \<le> (31 :: u32)"
    using word_range [OF assms] by simp_all
  ultimately show ?thesis
    using len ascii_dec [of n]
    by (simp add: StringToReg_ascii ascii_def Regs_def regd_def starts_with_def upper_c_def)
qed



section \<open>Executing a program\<close>

text \<open>
  The steps between two prompts: executing at the program counter, changing a register with
  the editor, moving the program counter inside the program with the p command, and moving
  the listing cursor or changing mode.
\<close>

inductive emu_step :: "emu \<Rightarrow> emu \<Rightarrow> bool" where
  exec: "exec_pc e = Inr (e', out) \<Longrightarrow> emu_step e e'"
| edit: "r < REGS \<Longrightarrow>
    emu_step e (e\<lparr>E_cpu := (E_cpu e)\<lparr>regm := (regm (E_cpu e))[r := v], Regm := (Regm (E_cpu e))[r := v]\<rparr>\<rparr>)"
| goto: "in_program u (E_code e) \<Longrightarrow> emu_step e (e\<lparr>E_cpu := (E_cpu e)\<lparr>waitr := 0, Pc := u\<rparr>\<rparr>)"
| mode: "emu_step e (e\<lparr>E_i := i, E_exc := b\<rparr>)"

inductive_cases emu_stepE: "emu_step e e'"

definition emu_start :: "ProgramBuf \<Rightarrow> emu" where
  "emu_start code = \<lparr>E_cpu = cpu_init\<lparr>Pc := LoadAddress code\<rparr>, E_code = code, E_i = 0, E_exc = False\<rparr>"

inductive emu_reachable :: "ProgramBuf \<Rightarrow> emu \<Rightarrow> bool" for code where
  start: "emu_reachable code (emu_start code)"
| step: "emu_reachable code e \<Longrightarrow> emu_step e e' \<Longrightarrow> emu_reachable code e'"

lemma exec_pc_Inr:
  "exec_pc e = Inr (e', out) \<longleftrightarrow>
    (\<exists>inst s' inst'. let pc = sint (Pc (E_cpu e) - LoadAddress (E_code e)) in
      0 \<le> pc \<and> pc < int (length (Program (E_code e))) \<and> inst = Program (E_code e) ! nat pc \<and>
      Execute inst (E_cpu e) = Inr (s', inst') \<and>
      e' = e\<lparr>E_cpu := s'\<lparr>Dfs := []\<rparr>,
               E_code := (E_code e)\<lparr>Program := (Program (E_code e))[nat pc := inst']\<rparr>\<rparr> \<and>
      out = ''ExPc:'' @ fmt_0X 4 (Pc (E_cpu e)) @ '':'' @ InstToStr inst' @ '' '' @
             PsToString (PSwd s') @ '' '' @ Dfs s' @ '' '')"
  by (auto simp: exec_pc_def Let_def bind_r_eq_Inr arr_get_Inr)

lemma cpu_wf_Dfs [simp]: "cpu_wf (s\<lparr>Dfs := d\<rparr>) = cpu_wf s"
  by (simp add: cpu_wf_def)

lemma emu_step_wf: "emu_step e e' \<Longrightarrow> cpu_wf (E_cpu e) \<Longrightarrow> cpu_wf (E_cpu e')"
  by (erule emu_stepE) (auto simp: exec_pc_Inr Let_def dest: Execute_wf, auto simp: cpu_wf_def)

lemma emu_reachable_wf: "emu_reachable code e \<Longrightarrow> cpu_wf (E_cpu e)"
  by (induction rule: emu_reachable.induct)
    (use cpu_wf_init in \<open>auto simp: emu_start_def cpu_wf_def [of "cpu_init\<lparr>Pc := _\<rparr>"] cpu_wf_def [of cpu_init] emu_step_wf\<close>)

subsection \<open>Closed programs\<close>

definition needs_reg :: "IdNumber \<Rightarrow> bool" where
  "needs_reg i \<longleftrightarrow> i = MOVR \<or> is_alu_r i \<or> is_wait i \<and> \<not> wait_lit i"

definition pc_ok :: "ProgramBuf \<Rightarrow> int \<Rightarrow> bool" where
  "pc_ok code p \<longleftrightarrow> sint (LoadAddress code) \<le> p \<and> p < sint (LoadAddress code) + int (length (Program code))"

definition inst_closed :: "ProgramBuf \<Rightarrow> nat \<Rightarrow> Instruction \<Rightarrow> bool" where
  "inst_closed code k inst =
     (case decode_op (I_Number inst) of None \<Rightarrow> True
      | Some i \<Rightarrow> (i \<noteq> HALT \<and> i \<noteq> JMP \<longrightarrow> Suc k < length (Program code)) \<and>
                  (is_branch i \<longrightarrow> pc_ok code (sint (I_Src1 inst))) \<and>
                  (needs_reg i \<longrightarrow> reg_index (I_Src1 inst)))"

definition closed_prog :: "ProgramBuf \<Rightarrow> bool" where
  "closed_prog code \<longleftrightarrow>
     Program code \<noteq> [] \<and> InstructionCount code = of_nat (length (Program code)) \<and>
     0 \<le> sint (LoadAddress code) \<and> sint (LoadAddress code) + int (length (Program code)) < 2 ^ 31 \<and>
     (\<forall>k < length (Program code). inst_closed code k (Program code ! k))"


text \<open>The loaded program stays closed (WDOG overwrites its opcode with no opcode), and so does the counter.\<close>

definition emu_inv :: "emu \<Rightarrow> bool" where
  "emu_inv e \<longleftrightarrow> cpu_wf (E_cpu e) \<and> closed_prog (E_code e) \<and> pc_ok (E_code e) (sint (Pc (E_cpu e)))"

lemma pc_index:
  assumes "closed_prog code" "pc_ok code (sint pc)"
  shows "sint (pc - LoadAddress code) = sint pc - sint (LoadAddress code)"
  using assms by (simp add: sint_sub_wrap wrap32_def closed_prog_def pc_ok_def)

lemma WDOG_next_not_opcode: "decode_op (op_number WDOG + 1) = None"
  by (simp add: decode_op_def all_ids_def op_number.simps)

lemma inst_closed_cong: "LoadAddress c = LoadAddress c' \<Longrightarrow> length (Program c) = length (Program c') \<Longrightarrow>
  inst_closed c k i = inst_closed c' k i"
  by (simp add: inst_closed_def pc_ok_def split: option.splits)

lemma pc_ok_next: "closed_prog code \<Longrightarrow> pc_ok code (sint pc) \<Longrightarrow>
  Suc (nat (sint (pc - LoadAddress code))) < length (Program code) \<Longrightarrow> pc_ok code (sint (pc + 1))"
  by (frule (1) pc_index) (auto simp: sint_succ_wrap wrap32_def closed_prog_def pc_ok_def)

lemma Execute_safe:
  assumes "cpu_wf s" "inst_closed code k inst"
  shows "Execute inst s \<noteq> Inl Out_of_bounds"
  using assms Execute_fault_cases [OF assms(1), of inst Out_of_bounds]
  by (auto simp: inst_closed_def inst_safe_def needs_reg_def split: option.splits)

lemma exec_pc_inv:
  assumes inv: "emu_inv e" and run: "exec_pc e = Inr (e', out)"
  shows "emu_inv e'"
proof -
  let ?code = "E_code e" and ?s = "E_cpu e"
  define k where "k = nat (sint (Pc ?s - LoadAddress ?code))"
  from run obtain s' inst' where k: "k < length (Program ?code)"
    and ex: "Execute (Program ?code ! k) ?s = Inr (s', inst')"
    and e': "e' = e\<lparr>E_cpu := s'\<lparr>Dfs := []\<rparr>, E_code := ?code\<lparr>Program := (Program ?code)[k := inst']\<rparr>\<rparr>"
    by (auto simp: exec_pc_Inr Let_def k_def)
  from inv have wf: "cpu_wf ?s" and cl: "closed_prog ?code" and pc: "pc_ok ?code (sint (Pc ?s))"
    by (auto simp: emu_inv_def)
  let ?inst = "Program ?code ! k"
  from cl k have ic: "inst_closed ?code k ?inst" by (simp add: closed_prog_def)
  have ic': "inst_closed ?code k inst'"
  proof (cases "decode_op (I_Number ?inst) = Some WDOG")
    case True
    then have "I_Number inst' = op_number WDOG + 1"
      using Execute_pc [OF wf ex] by (simp add: decode_op_SomeD [OF True])
    then show ?thesis by (simp add: inst_closed_def WDOG_next_not_opcode)
  next
    case False
    with Execute_pc [OF wf ex] have "inst' = ?inst" by (auto split: option.splits if_splits)
    with ic show ?thesis by simp
  qed
  have pc': "pc_ok ?code (sint (Pc s'))"
    using Execute_pc [OF wf ex] ic pc pc_ok_next [OF cl pc]
    by (auto simp: inst_closed_def k_def split: option.splits)
  have "closed_prog (?code\<lparr>Program := (Program ?code)[k := inst']\<rparr>)"
    using cl ic' k
    by (auto simp: closed_prog_def nth_list_update inst_closed_cong [of "?code\<lparr>Program := _\<rparr>" ?code])
  with pc' Execute_wf [OF wf ex] show ?thesis
    by (simp add: emu_inv_def e' pc_ok_def)
qed

lemma sint_wrap_uint: "sint (x :: i32) = wrap32 (uint x)"
  by (simp add: sint_uint wrap32_def signed_take_bit_eq_take_bit_shift take_bit_eq_mod)

lemma uint_sint_pos:
  assumes "0 \<le> sint (x :: i32)" shows "uint x = sint x"
proof -
  have "uint x < 2 ^ 32" "0 \<le> uint x" using uint_lt2p [of x] by simp_all
  then show ?thesis using assms minus_mod_self2 [of "uint x + 2 ^ 31" "2 ^ 32"]
    by (cases "uint x < 2 ^ 31") (simp_all add: sint_wrap_uint wrap32_def)
qed

lemma in_program_pc_ok:
  assumes "closed_prog code" "in_program u code"
  shows "pc_ok code (sint u)"
proof -
  let ?l = "LoadAddress code" and ?n = "length (Program code)"
  have l: "0 \<le> sint ?l" "sint ?l + int ?n < 2 ^ 31" "InstructionCount code = of_nat ?n"
    using assms(1) by (auto simp: closed_prog_def)
  then have ul: "uint ?l = sint ?l" by (intro uint_sint_pos)
  have "uint (?l + of_nat ?n) = sint ?l + int ?n"
    using l by (simp add: uint_word_ariths ul unsigned_of_nat take_bit_eq_mod mod_simps)
  with assms(2) l ul have "sint ?l \<le> uint u" "uint u < sint ?l + int ?n"
    by (auto simp: in_program_def word_le_def word_less_def)
  moreover from this l(2) have "sint u = uint u"
    by (simp add: sint_wrap_uint wrap32_def)
  ultimately show ?thesis by (simp add: pc_ok_def)
qed

lemma emu_step_inv: "emu_step e e' \<Longrightarrow> emu_inv e \<Longrightarrow> emu_inv e'"
proof (erule emu_stepE)
  fix out assume "emu_inv e" "exec_pc e = Inr (e', out)"
  then show ?thesis by (rule exec_pc_inv)
qed (auto simp: emu_inv_def cpu_wf_def in_program_pc_ok)

lemma emu_start_inv: "closed_prog code \<Longrightarrow> emu_inv (emu_start code)"
  using cpu_wf_init by (auto simp: emu_inv_def emu_start_def cpu_wf_def closed_prog_def pc_ok_def)

lemma emu_reachable_inv: "emu_reachable code e \<Longrightarrow> closed_prog code \<Longrightarrow> emu_inv e"
  by (induction rule: emu_reachable.induct) (auto simp: emu_start_inv dest: emu_step_inv)


subsection \<open>The command loop only takes steps\<close>

lemma EditRegs_steps:
  "EditRegs reg mn mx (E_cpu e) lines = Inr (s', r, out) \<Longrightarrow> cpu_wf (E_cpu e) \<Longrightarrow>
   emu_step\<^sup>*\<^sup>* e (e\<lparr>E_cpu := s'\<rparr>)"
proof (induction lines arbitrary: e reg s' r out)
  case (Cons ln rest)
  have upd: "emu_step\<^sup>*\<^sup>* e (e\<lparr>E_cpu := s2\<rparr>)"
    if "EditRegs reg mn mx ((E_cpu e)\<lparr>regm := (regm (E_cpu e))[nat (sint reg) := v],
          Regm := (Regm (E_cpu e))[nat (sint reg) := v]\<rparr>) rest = Inr (s2, r2, out2)"
      and "0 \<le> sint reg" "sint reg < int (length (Regm (E_cpu e)))" for v s2 r2 out2
  proof -
    let ?e = "e\<lparr>E_cpu := (E_cpu e)\<lparr>regm := (regm (E_cpu e))[nat (sint reg) := v],
                Regm := (Regm (E_cpu e))[nat (sint reg) := v]\<rparr>\<rparr>"
    have st: "emu_step e ?e"
      using that(2,3) Cons.prems(2) by (intro emu_step.edit) (simp add: cpu_wf_def)
    with Cons.prems(2) have "cpu_wf (E_cpu ?e)" by (rule emu_step_wf [rotated])
    with Cons.IH [of reg ?e] that(1) have "emu_step\<^sup>*\<^sup>* ?e (?e\<lparr>E_cpu := s2\<rparr>)" by simp
    with st show ?thesis by (simp add: converse_rtranclp_into_rtranclp)
  qed
  show ?case
    using Cons.prems
    by (auto simp: bind_r_eq_Inr arr_get_Inr Let_def split: if_splits prod.splits
        dest: Cons.IH upd)
qed (simp add: bind_r_eq_Inr)

lemma exec_count_steps: "exec_count n e = Inr (e', out) \<Longrightarrow> emu_step\<^sup>*\<^sup>* e e'"
  by (induction n arbitrary: e e' out)
    (auto simp: bind_r_eq_Inr intro: converse_rtranclp_into_rtranclp emu_step.exec)

lemma emu_mode_steps: "emu_step\<^sup>*\<^sup>* e (e\<lparr>E_i := i\<rparr>)" "emu_step\<^sup>*\<^sup>* e (e\<lparr>E_exc := b\<rparr>)"
  using emu_step.mode [where e = e and i = i and b = "E_exc e"] emu_step.mode [where e = e and i = "E_i e" and b = b] by (auto intro!: r_into_rtranclp)

lemma emu_alpha_steps:
  "emu_alpha e ln rest = Inr (e', r, out) \<Longrightarrow> cpu_wf (E_cpu e) \<Longrightarrow> emu_step\<^sup>*\<^sup>* e e'"
  by (auto simp: emu_alpha_def EditGlobalReg_def EditLocalReg_def bind_r_eq_Inr Let_def
      split: if_splits prod.splits dest!: exec_count_steps EditRegs_steps
      intro: rtranclp_trans [OF emu_mode_steps(2)] emu_step.goto
        rtranclp.rtrancl_into_rtrancl [OF emu_mode_steps(2) emu_step.exec])

lemma emu_cmd_steps:
  "emu_cmd e at ln rest = Inr (stop, e', r, out) \<Longrightarrow> cpu_wf (E_cpu e) \<Longrightarrow> emu_step\<^sup>*\<^sup>* e e'"
  by (auto simp: emu_cmd_def bind_r_eq_Inr Let_def split: if_splits prod.splits
      intro: emu_mode_steps emu_alpha_steps emu_step.exec)

lemma emu_steps_wf: "emu_step\<^sup>*\<^sup>* e e' \<Longrightarrow> cpu_wf (E_cpu e) \<Longrightarrow> cpu_wf (E_cpu e')"
  by (induction rule: rtranclp_induct) (auto dest: emu_step_wf)

lemma emulate_loop_steps:
  "emulate_loop e lines = Inr (e', out) \<Longrightarrow> cpu_wf (E_cpu e) \<Longrightarrow> emu_step\<^sup>*\<^sup>* e e'"
proof (induction e lines arbitrary: e' out rule: emulate_loop.induct)
  case (2 e ln rest)
  from "2.prems" obtain inst at stop e1 r out1 where
    g: "arr_get (Program (E_code e)) (sint (E_i e)) = Inr inst" and a: "atom_of (first_char ln) = Inr at"
    and c: "emu_cmd e at ln rest = Inr (stop, e1, r, out1)"
    and rest: "stop \<and> e' = e1 \<or> \<not> stop \<and> (\<exists>o2. emulate_loop e1 r = Inr (e', o2))"
    by (auto simp: bind_r_eq_Inr split: if_splits)
  have s1: "emu_step\<^sup>*\<^sup>* e e1" using c "2.prems" by (blast intro: emu_cmd_steps)
  with rest "2.IH" [OF g a c refl refl refl] "2.prems"(2) emu_steps_wf [OF s1] show ?case
    by (auto intro: rtranclp_trans)
qed (simp add: bind_r_eq_Inr)

lemma emu_reachable_steps: "emu_step\<^sup>*\<^sup>* e e' \<Longrightarrow> emu_reachable code e \<Longrightarrow> emu_reachable code e'"
  by (induction rule: rtranclp_induct) (auto intro: emu_reachable.step)

section \<open>Properties\<close>



text \<open>
  The watchdog instruction overwrites its own opcode with a number that is no opcode, so
  a program gets past it once: executing the same word again changes nothing, for ever.
\<close>

lemma WDOG_runs_once:
  assumes "I_Number inst = op_number WDOG" "Execute inst s = Inr (s1, inst1)"
  shows "Pc s1 = Pc s + 1 \<and> (\<forall>s2. Execute inst1 s2 = Inr (s2, inst1))"
  using assms by (auto simp: Execute_def WDOG_next_not_opcode)

lemma WDOG_runs_once_witness:
  "Execute (ex_inst WDOG 0 0 0) cpu_init = Inr (next_pc cpu_init, (ex_inst WDOG 0 0 0)\<lparr>I_Number := op_number WDOG + 1\<rparr>) \<and>
   Execute ((ex_inst WDOG 0 0 0)\<lparr>I_Number := op_number WDOG + 1\<rparr>) (next_pc cpu_init) =
     Inr (next_pc cpu_init, (ex_inst WDOG 0 0 0)\<lparr>I_Number := op_number WDOG + 1\<rparr>)"
proof -
  have run: "Execute (ex_inst WDOG 0 0 0) cpu_init =
      Inr (next_pc cpu_init, (ex_inst WDOG 0 0 0)\<lparr>I_Number := op_number WDOG + 1\<rparr>)"
    by (simp add: Execute_def ex_inst_def)
  with WDOG_runs_once [OF _ run] show ?thesis by (simp add: ex_inst_def)
qed

text \<open>
  A register's printed name read back by \<open>StringToReg\<close> is the register again, for all 256
  registers but one: the name EVINCNT (214) is read as its prefix EVIN (213).
\<close>

lemma StringToReg_RegToString:
  assumes "r < 256"
  shows "StringToReg (Some (RegToString (int r))) = Inr (if r = 214 then 213 else of_nat r)"
proof -
  obtain d where d: "reg_row r = Some d" "d \<in> set Regs" "Reg_Start d \<le> r" "r \<le> Reg_End d"
    using reg_row_cases [OF assms] by blast
  consider (gr) "r < 212" | (lr) "225 \<le> r" | (one) "r \<in> {212..224}" by fastforce
  then show ?thesis
  proof cases
    case gr
    then have "RegToString (int r) = ''GR'' @ show_base 10 (r + 1)"
      by (simp add: RegToString_def Regs_def regd_def reg_text_def)
    with gr show ?thesis using StringToReg_GR [of "r + 1"] by simp
  next
    case lr
    then have "RegToString (int r) = ''LR'' @ show_base 10 (r - 224)"
      using assms Suc_diff_le [of 225 r, symmetric]
      by (simp add: RegToString_def Regs_def regd_def reg_text_def nat_diff_distrib')
    with lr assms show ?thesis using StringToReg_LR [of "r - 224"] by (simp add: of_nat_diff)
  next
    case one
    then have "r \<in> set [212..<225]" by (simp only: set_upt) simp
    then show ?thesis
      by (auto simp: upt_rec_numeral RegToString_def Regs_def regd_def reg_text_def StringToReg_ascii ascii_def
        starts_with_def upper_c_def)
  qed
qed

lemma StringToReg_RegToString_witness:
  "StringToReg (Some (RegToString 214)) = Inr 213 \<and> StringToReg (Some (RegToString 7)) = Inr 7"
  using StringToReg_RegToString [of 214] StringToReg_RegToString [of 7] by simp


definition ex_loop :: ProgramBuf where
  "ex_loop = \<lparr>LoadAddress = 16, InstructionCount = 3,
     Program = [ex_inst MOVV 2 0 5, ex_inst SUBV 2 2 1, ex_inst JMP 0 0 17]\<rparr>"

lemma ex_loop_closed: "closed_prog ex_loop"
  by (auto simp: closed_prog_def ex_loop_def ex_inst_def inst_closed_def less_Suc_eq pc_ok_def class_defs
      needs_reg_def wait_lit_def)


text \<open>
  whatever lines are typed, when the command loop ends it ends in a state that is
  reachable by execution, register edits, moves of the program counter into the program and
  listing steps.
\<close>

lemma Emulate_reachable:
  assumes "Emulate code cpu_init lines = Inr (e, out)"
  shows "emu_reachable code e"
proof -
  have "emulate_loop (emu_start code) lines = Inr (e, out)"
    using assms by (simp add: Emulate_def emu_start_def)
  moreover have "cpu_wf (E_cpu (emu_start code))"
    by (rule emu_reachable_wf) (rule emu_reachable.start)
  ultimately show ?thesis
    by (blast intro: emu_reachable_steps emulate_loop_steps emu_reachable.start)
qed

lemma Emulate_reachable_witness:
  "Emulate ex_loop cpu_init [''.'' @ nl] = Inr (emu_start ex_loop, snd (projr (Emulate ex_loop cpu_init [''.'' @ nl]))) \<and>
   emu_reachable ex_loop (emu_start ex_loop)"
proof -
  have "Emulate ex_loop cpu_init [''.'' @ nl] =
     Inr (emu_start ex_loop, snd (projr (Emulate ex_loop cpu_init [''.'' @ nl])))"
    by (simp add: Emulate_def emu_start_def ex_loop_def first_char_def atom_of_ascii ascii_class_def emu_cmd_def)
  with Emulate_reachable [OF this] show ?thesis by blast
qed

text \<open>
  In every reachable state the carry bit of the status word is clear, so the branch on
  carry is never taken.
\<close>

lemma carry_never_set:
  assumes "emu_reachable code e"
  shows "PSwd (E_cpu e) AND PsCR = 0 \<and> \<not> branch_taken BCR (PSwd (E_cpu e))"
  using emu_reachable_wf [OF assms] by (auto simp: cpu_wf_def ps_defs branch_taken_def)

lemma carry_never_set_witness:
  "emu_reachable ex_loop (emu_start ex_loop) \<and> \<not> branch_taken BCR (PSwd (E_cpu (emu_start ex_loop)))"
  using carry_never_set [OF emu_reachable.start] emu_reachable.start by blast

end
