(* ===== verification/Mtt_Object.thy ===== *)
theory Mtt_Object
  imports Mtt_Emulate
begin

text \<open>
  Object files: \<open>WriteObject\<close> and \<open>ReadObject\<close> (mttn/tools/asm.c, and the same \<open>ReadObject\<close> in
  mttn/tools/emu.c) and the hexadecimal dump for the hardware simulator. A file is its text;
  \<open>malloc\<close> is a parameter that gives, for a size in bytes, the contents of the block it
  returns, or None when there is no memory. The locale \<open>number_format\<close> states what the
  reader relies on when it scans numbers one after the other, and its interpretation is the
  hexadecimal format of the writer with \<^verbatim>\<open>strtoul\<close>.
\<close>

section \<open>Reading lines\<close>

fun fgets_take :: "nat \<Rightarrow> string \<Rightarrow> string \<times> string" where
  "fgets_take 0 s = ([], s)"
| "fgets_take (Suc n) [] = ([], [])"
| "fgets_take (Suc n) (c # cs) =
     (if c = CHR 0x0A then ([c], cs) else let (l, r) = fgets_take n cs in (c # l, r))"

text \<open>\<^verbatim>\<open>fgets (ln, n, file)\<close>: the text stored and the rest of the file; None at the end of the file.\<close>

definition fgets :: "nat \<Rightarrow> string \<Rightarrow> (string \<times> string) option" where
  "fgets n s = (if s = [] then None else Some (fgets_take (n - 1) s))"

definition c_string :: "string \<Rightarrow> string" where
  "c_string s = takeWhile (\<lambda>c. c \<noteq> CHR 0x00) s"

section \<open>Operations\<close>

definition write_inst :: "Instruction \<Rightarrow> string" where
  "write_inst inst =
     ''0x'' @ fmt_X (ucast (I_Number inst)) @ '' 0x'' @ fmt_X (I_Src1 inst) @
     '' 0x'' @ fmt_X (ucast (I_Src2 inst)) @ '' 0x'' @ fmt_X (ucast (I_Dest inst)) @
     '' 0x'' @ fmt_X (ucast (I_Crc inst)) @ nl"

fun write_insts :: "nat \<Rightarrow> Instruction list \<Rightarrow> string result" where
  "write_insts 0 prog = Inr []"
| "write_insts (Suc n) [] = Inl Out_of_bounds"
| "write_insts (Suc n) (inst # prog) = bind_r (write_insts n prog) (\<lambda>out. Inr (write_inst inst @ out))"

definition WriteObject :: "ProgramBuf \<Rightarrow> string result" where
  "WriteObject code =
     bind_r (write_insts (unat (InstructionCount code)) (Program code)) (\<lambda>out.
       Inr (''0x'' @ fmt_X (LoadAddress code) @ '' 0x'' @ fmt_X (InstructionCount code) @ nl @ out))"

definition read_inst :: "string \<Rightarrow> Instruction" where
  "read_inst ln =
     (let (n, p1) = strtoul (c_string ln); (s1, p2) = strtoul p1; (s2, p3) = strtoul p2;
          (d, p4) = strtoul p3; (crc, p5) = strtoul p4
      in \<lparr>I_Dest = ucast d, I_Src2 = ucast s2, I_Number = ucast n, I_Crc = ucast crc, I_Src1 = s1\<rparr>)"

fun read_insts :: "(nat \<Rightarrow> Instruction) \<Rightarrow> nat \<Rightarrow> nat \<Rightarrow> string \<Rightarrow> Instruction list" where
  "read_insts mem i 0 file = []"
| "read_insts mem i (Suc n) file =
     (case fgets 128 file of
        None \<Rightarrow> mem i # read_insts mem (Suc i) n file
      | Some (ln, rest) \<Rightarrow> read_inst ln # read_insts mem (Suc i) n rest)"

definition read_header :: "string \<Rightarrow> ProgramBuf \<Rightarrow> ProgramBuf \<times> string" where
  "read_header file code =
     (case fgets 128 file of
        None \<Rightarrow> (code, file)
      | Some (ln, rest) \<Rightarrow>
          (let (la, p) = strtoul (c_string ln); (ic, q) = strtoul p
           in (code\<lparr>LoadAddress := la, InstructionCount := ic\<rparr>, rest)))"

text \<open>
  The block has \<^verbatim>\<open>sizeof (Instruction) * InstructionCount\<close> bytes, a product of 32 bits: from
  $2^{29}$ instructions on it is too small for the loop that follows. The result of
  \<^verbatim>\<open>malloc\<close> is not checked.
\<close>

definition ReadObject :: "(nat \<Rightarrow> (nat \<Rightarrow> Instruction) option) \<Rightarrow> string \<Rightarrow> ProgramBuf \<Rightarrow> ProgramBuf result" where
  "ReadObject malloc file code =
     (let (code1, rest) = read_header file code; n = unat (InstructionCount code1) in
      case malloc (8 * n mod 2 ^ 32) of
        None \<Rightarrow> if n = 0 then Inr (code1\<lparr>Program := []\<rparr>) else Inl Out_of_bounds
      | Some mem \<Rightarrow>
          if 2 ^ 29 \<le> n then Inl Out_of_bounds else Inr (code1\<lparr>Program := read_insts mem 0 n rest\<rparr>))"

definition hex_word :: "Instruction \<Rightarrow> u32" where
  "hex_word inst =
     push_bit 24 (ucast (I_Dest inst)) OR push_bit 16 (ucast (I_Src2 inst)) OR
     push_bit 8 (ucast (I_Number inst)) OR ucast (I_Crc inst)"

definition hex_lines :: "Instruction \<Rightarrow> string" where
  "hex_lines inst =
     ''X'' @ [CHR 0x22] @ fmt_0X 8 (hex_word inst) @ [CHR 0x22] @ nl @
     ''X'' @ [CHR 0x22] @ fmt_0X 8 (I_Src1 inst) @ [CHR 0x22] @ nl"

fun hex_insts :: "nat \<Rightarrow> Instruction list \<Rightarrow> string result" where
  "hex_insts 0 prog = Inr []"
| "hex_insts (Suc n) [] = Inl Out_of_bounds"
| "hex_insts (Suc n) (inst # prog) = bind_r (hex_insts n prog) (\<lambda>out. Inr (hex_lines inst @ out))"

text \<open>The dump: the file written, when it could be opened, and the console text.\<close>

definition HexDump :: "bool \<Rightarrow> ProgramBuf \<Rightarrow> string \<Rightarrow> (string option \<times> string) result" where
  "HexDump opened code out_name =
     (let bPath = out_name @ ''.hex'' in
      if 128 \<le> length bPath then Inl Out_of_bounds
      else if opened
      then bind_r (hex_insts (unat (InstructionCount code)) (Program code)) (\<lambda>txt.
             Inr (Some txt, ''Written hex dump: '' @ bPath @ '' OK'' @ nl))
      else Inr (None, ''Can't open: '' @ bPath @ '' for write'' @ nl))"

section \<open>Number formats\<close>

text \<open>
  What a reader needs of a printer and a scanner: a printed number is scanned back in front
  of a blank, a newline or the end, after any white space. Then a blank-separated record of
  numbers is scanned back field by field.
\<close>

definition field_end :: "string \<Rightarrow> bool" where
  "field_end r \<longleftrightarrow> r = [] \<or> hd r = CHR '' '' \<or> hd r = CHR 0x0A"

fun scan_fields :: "(string \<Rightarrow> 'a \<times> string) \<Rightarrow> nat \<Rightarrow> string \<Rightarrow> 'a list \<times> string" where
  "scan_fields parse 0 s = ([], s)"
| "scan_fields parse (Suc n) s = (let (v, r) = parse s; (vs, r') = scan_fields parse n r in (v # vs, r'))"

fun print_fields :: "('a \<Rightarrow> string) \<Rightarrow> 'a list \<Rightarrow> string" where
  "print_fields pr [] = []"
| "print_fields pr (v # vs) = '' '' @ pr v @ print_fields pr vs"

locale number_format =
  fixes pr :: "'a \<Rightarrow> string" and parse :: "string \<Rightarrow> 'a \<times> string"
  assumes parse_print: "field_end r \<Longrightarrow> \<forall>c \<in> set sp. isspace_c c \<Longrightarrow> parse (sp @ pr v @ r) = (v, r)"
    and no_newline: "CHR 0x0A \<notin> set (pr v)"
begin

lemma field_end_fields: "field_end r \<Longrightarrow> field_end (print_fields pr vs @ r)"
  by (cases vs) (auto simp: field_end_def)

lemma scan_print_fields:
  "field_end r \<Longrightarrow> scan_fields parse (length vs) (print_fields pr vs @ r) = (vs, r)"
proof (induction vs)
  case (Cons v vs)
  have "parse ('' '' @ pr v @ (print_fields pr vs @ r)) = (v, print_fields pr vs @ r)"
    using Cons.prems by (intro parse_print) (auto simp: field_end_fields isspace_c_def)
  with Cons show ?case by simp
qed simp

lemma scan_print_record:
  "field_end r \<Longrightarrow> scan_fields parse (Suc (length vs)) (pr v @ print_fields pr vs @ r) = (v # vs, r)"
  using parse_print [of "print_fields pr vs @ r" "[]" v] scan_print_fields [of r vs]
  by (simp add: field_end_fields)

lemma fields_no_newline: "CHR 0x0A \<notin> set (print_fields pr vs)"
  by (induction vs) (use no_newline in auto)

end

definition print_hex :: "u32 \<Rightarrow> string" where
  "print_hex w = ''0x'' @ fmt_X w"

lemma show_base_chars:
  assumes "2 \<le> b" "b \<le> 16" "c \<in> set (show_base b n)"
  shows "\<exists>d < 16. c = digit_char d"
  using assms
proof (induction b n rule: show_base.induct)
  case (1 b n)
  show ?case
  proof (cases "n < b")
    case True
    with 1 have "c = digit_char n" "n < 16" by (simp_all add: show_base.simps [of b n])
    then show ?thesis by blast
  next
    case False
    have "n mod b < b" using 1(2) by simp
    with 1(3) have "n mod b < 16" by linarith
    with 1 False show ?thesis by (auto simp: show_base.simps [of b n])
  qed
qed

lemma digit_char_plain: "d < 16 \<Longrightarrow> digit_char d \<noteq> CHR 0x0A \<and> digit_char d \<noteq> CHR 0x00"
  by (auto simp: digit_char_def dest!: arg_cong [of _ _ "of_char :: char \<Rightarrow> nat"])

lemma fmt_X_plain: "c \<in> set (fmt_X w) \<Longrightarrow> c \<noteq> CHR 0x0A \<and> c \<noteq> CHR 0x00"
  using show_base_chars [of 16 c "unat w"] digit_char_plain unfolding fmt_X_def by fastforce

interpretation hex: number_format print_hex strtoul
proof
  fix r sp :: string and v :: u32
  assume "field_end r" "\<forall>c \<in> set sp. isspace_c c"
  moreover from this have "\<not> starts_digit 16 r"
    by (cases r) (auto simp: field_end_def starts_digit_def is_digit_in_def digit_val_def)
  ultimately show "strtoul (sp @ print_hex v @ r) = (v, r)"
    using strtoul_hex [of r sp v] by (simp add: print_hex_def)
next
  fix v :: u32 show "CHR 0x0A \<notin> set (print_hex v)"
    using fmt_X_plain by (auto simp: print_hex_def)
qed

section \<open>Round trips\<close>

lemma fgets_take_line:
  "CHR 0x0A \<notin> set l \<Longrightarrow> length l < n \<Longrightarrow> fgets_take n (l @ nl @ rest) = (l @ nl, rest)"
proof (induction l arbitrary: n)
  case Nil then show ?case by (cases n) auto
next
  case (Cons c l) then show ?case by (cases n) auto
qed

lemma fgets_line:
  "CHR 0x0A \<notin> set l \<Longrightarrow> length l < 127 \<Longrightarrow> fgets 128 (l @ nl @ rest) = Some (l @ nl, rest)"
  using fgets_take_line [of l 127 rest] by (simp add: fgets_def)

lemma print_hex_length: "length (print_hex w) \<le> 10"
proof -
  have "unat w < 16 ^ Suc 7" using unsigned_less [of w] by simp
  then have "length (show_base 16 (unat w)) \<le> Suc 7" by (intro show_base_length) auto
  then show ?thesis by (simp add: print_hex_def fmt_X_def)
qed

lemma record_length: "length (print_hex v @ print_fields print_hex vs) \<le> 11 * Suc (length vs)"
proof -
  have "length (print_fields print_hex vs) \<le> 11 * length vs"
    by (induction vs) (use print_hex_length in \<open>auto simp: add_mono\<close>)
  with print_hex_length [of v] show ?thesis by simp
qed

lemma record_c_string:
  "c_string (print_hex v @ print_fields print_hex vs @ nl) = print_hex v @ print_fields print_hex vs @ nl"
proof -
  have "CHR 0x00 \<notin> set (print_hex w)" for w using fmt_X_plain by (auto simp: print_hex_def)
  moreover from this have "CHR 0x00 \<notin> set (print_fields print_hex vs)"
    by (induction vs) auto
  ultimately show ?thesis unfolding c_string_def by (intro takeWhile_eq_all_conv [THEN iffD2]) auto
qed

lemma record_line:
  assumes "length vs \<le> 10"
  shows "fgets 128 (print_hex v @ print_fields print_hex vs @ nl @ rest) =
         Some (print_hex v @ print_fields print_hex vs @ nl, rest)"
  using fgets_line [of "print_hex v @ print_fields print_hex vs" rest] record_length [of v vs] assms
    hex.no_newline [of v] hex.fields_no_newline [of vs]
  by simp

lemma write_inst_fields:
  "write_inst inst = print_hex (ucast (I_Number inst)) @ print_fields print_hex
     [I_Src1 inst, ucast (I_Src2 inst), ucast (I_Dest inst), ucast (I_Crc inst)] @ nl"
  by (simp add: write_inst_def print_hex_def)

lemma read_inst_fields:
  "read_inst ln = (let vs = fst (scan_fields strtoul 5 (c_string ln)) in
     \<lparr>I_Dest = ucast (vs ! 3), I_Src2 = ucast (vs ! 2), I_Number = ucast (vs ! 0),
      I_Crc = ucast (vs ! 4), I_Src1 = vs ! 1\<rparr>)"
  by (simp add: read_inst_def numeral_eq_Suc Let_def split: prod.splits)

lemma ucast_byte [simp]: "ucast (ucast (x :: u8) :: u32) = x"
  by (rule bit_word_eqI) (auto simp: bit_simps)

lemma read_write_inst: "read_inst (write_inst inst) = inst"
  using hex.scan_print_record [of nl "[I_Src1 inst, ucast (I_Src2 inst), ucast (I_Dest inst), ucast (I_Crc inst)]"
      "ucast (I_Number inst)"]
  by (simp add: read_inst_fields write_inst_fields record_c_string field_end_def Let_def eval_nat_numeral
      del: print_fields.simps scan_fields.simps)

lemma fgets_write_inst: "fgets 128 (write_inst inst @ rest) = Some (write_inst inst, rest)"
  using record_line [of "[I_Src1 inst, ucast (I_Src2 inst), ucast (I_Dest inst), ucast (I_Crc inst)]"
      "ucast (I_Number inst)" rest]
  by (simp add: write_inst_fields del: print_fields.simps)

lemma read_write_insts:
  "write_insts n prog = Inr out \<Longrightarrow> read_insts mem i n (out @ rest) = take n prog"
proof (induction n prog arbitrary: out i rule: write_insts.induct)
  case (3 n inst prog)
  then obtain o1 where "write_insts n prog = Inr o1" "out = write_inst inst @ o1"
    by (auto simp: bind_r_eq_Inr)
  with 3 show ?case by (simp add: fgets_write_inst read_write_inst)
qed auto

lemma read_header_line:
  "read_header (''0x'' @ fmt_X la @ '' 0x'' @ fmt_X ic @ nl @ rest) code =
     (code\<lparr>LoadAddress := la, InstructionCount := ic\<rparr>, rest)"
proof -
  have "scan_fields strtoul 2 (c_string (print_hex la @ print_fields print_hex [ic] @ nl)) = ([la, ic], nl)"
    using hex.scan_print_record [of nl "[ic]" la] record_c_string [of la "[ic]"]
    by (simp add: field_end_def eval_nat_numeral del: print_fields.simps scan_fields.simps)
  with record_line [of "[ic]" la rest] show ?thesis
    by (auto simp: read_header_def print_hex_def numeral_2_eq_2 Let_def split: prod.splits)
qed

lemma write_insts_total: "n \<le> length prog \<Longrightarrow> \<exists>out. write_insts n prog = Inr out"
  by (induction n prog rule: write_insts.induct) auto


lemma read_write_object:
  assumes "InstructionCount code = of_nat (length (Program code))" "length (Program code) < 2 ^ 29"
    and "malloc (8 * length (Program code)) = Some mem"
  shows "\<exists>file. WriteObject code = Inr file \<and> ReadObject malloc file buf = Inr code"
proof -
  let ?n = "length (Program code)"
  have n: "unat (InstructionCount code) = ?n" and m: "8 * ?n mod 2 ^ 32 = 8 * ?n"
    using assms(1,2) by (simp_all add: unat_of_nat)
  obtain out where out: "write_insts ?n (Program code) = Inr out"
    using write_insts_total by blast
  let ?file = "''0x'' @ fmt_X (LoadAddress code) @ '' 0x'' @ fmt_X (InstructionCount code) @ nl @ out"
  have w: "WriteObject code = Inr ?file" by (simp add: WriteObject_def n out)
  have "read_insts mem 0 ?n out = Program code"
    using read_write_insts [OF out, of mem 0 "[]"] by simp
  then have "ReadObject malloc ?file buf = Inr code"
    unfolding ReadObject_def read_header_line
    using assms(2,3) m by (simp add: n)
  with w show ?thesis by blast
qed

text \<open>
  C30: the object file written for a program is read back as the same program, whatever the
  reader's buffer and fresh memory held before, for every program whose count is the number
  of its instructions.
\<close>

lemma ReadObject_WriteObject:
  assumes "InstructionCount code = of_nat (length (Program code))" "length (Program code) < 2 ^ 29"
    and "malloc (8 * length (Program code)) = Some mem"
  shows "\<exists>file. WriteObject code = Inr file \<and> ReadObject malloc file buf = Inr code"
  using assms by (rule read_write_object)

definition junk_inst :: Instruction where
  "junk_inst = \<lparr>I_Dest = 0xAA, I_Src2 = 0xAA, I_Number = 0xAA, I_Crc = 0xAA, I_Src1 = 0xAAAAAAAA\<rparr>"

lemma ReadObject_WriteObject_witness:
  "\<exists>file. WriteObject ex_loop = Inr file \<and>
     ReadObject (\<lambda>n. Some (\<lambda>i. junk_inst)) file \<lparr>LoadAddress = 1, InstructionCount = 2, Program = []\<rparr> = Inr ex_loop"
  by (rule ReadObject_WriteObject) (simp_all add: ex_loop_def)

text \<open>
  A count that does not match the program shows: writing an object whose count exceeds
  the instructions leaves the array, and reading an empty file keeps the caller's header and
  takes the instructions from uninitialised memory.
\<close>

lemma object_count_errors:
  "(WriteObject code = Inl Out_of_bounds \<longleftrightarrow> length (Program code) < unat (InstructionCount code)) \<and>
   (unat (InstructionCount code) < 2 ^ 29 \<longrightarrow>
      ReadObject (\<lambda>n. Some mem) [] code =
        Inr (code\<lparr>Program := map mem [0..<unat (InstructionCount code)]\<rparr>))"
proof -
  have w: "write_insts n prog = Inl Out_of_bounds \<longleftrightarrow> length prog < n" for n prog
    by (induction n prog rule: write_insts.induct) (auto simp: bind_r_eq_Inl)
  have r: "read_insts mem i n [] = map mem [i..<i + n]" for i n
    by (induction n arbitrary: i) (auto simp: fgets_def upt_rec)
  show ?thesis
    by (auto simp: WriteObject_def bind_r_eq_Inl w ReadObject_def read_header_def fgets_def r Let_def)
qed

lemma object_count_errors_witness:
  "WriteObject (ex_loop\<lparr>InstructionCount := 4\<rparr>) = Inl Out_of_bounds \<and>
   ReadObject (\<lambda>n. Some (\<lambda>i. junk_inst)) [] ex_loop =
     Inr (ex_loop\<lparr>Program := map (\<lambda>i. junk_inst) [0..<3]\<rparr>)"
  using object_count_errors [of "ex_loop\<lparr>InstructionCount := 4\<rparr>" "\<lambda>i. junk_inst"]
    object_count_errors [of ex_loop "\<lambda>i. junk_inst"]
  by (simp add: ex_loop_def)

text \<open>
  The simulator's hexadecimal word packs the four byte fields of an instruction without
  loss: each is its own byte of the word, Dest in the most significant one.
\<close>

lemma hex_word_fields:
  "ucast (drop_bit 24 (hex_word inst)) = I_Dest inst \<and> ucast (drop_bit 16 (hex_word inst)) = I_Src2 inst \<and>
   ucast (drop_bit 8 (hex_word inst)) = I_Number inst \<and> ucast (hex_word inst) = I_Crc inst"
proof -
  have hi: "\<not> bit (x :: u8) n" if "8 \<le> n" for x n
    using that by (simp add: impossible_bit)
  show ?thesis
    unfolding hex_word_def
    by (intro conjI bit_word_eqI) (auto simp: bit_simps hi)
qed

end
