(* ===== verification/Mtt_Lex.thy ===== *)
theory Mtt_Lex
  imports Mtt_Object
begin

text \<open>
  The lexical analyser of the assembler (mttn/tools/asm.c): atoms, error reporting, the
  look-up of opcodes, registers and operators, and \<open>GetAtoms\<close>. The linked list of atoms is a
  list; \<open>NewAtom\<close> always leaves one zeroed atom at its end. The source buffer is a list of
  characters that includes the NULs behind the text, and reading past its end is a fault.
  Then the shape of the atoms of a line of blank-separated tokens.
\<close>

section \<open>Error reporting\<close>

datatype ErrorType = FATAL_RUN_TIME | RUN_TIME | FATAL_SYNTAX | SYNTAX

definition MAX_ERROR_COUNT :: nat where "MAX_ERROR_COUNT = 10"

record Atom =
  A_Type :: AtomType
  A_Text :: "string option"
  A_pbFilePos :: "string option"
  A_Value :: i32
  A_Position :: nat
  A_LineNumber :: nat

text \<open>A zeroed atom, as \<open>NewAtom\<close> returns it: its type, zero, is \<open>Seperator\<close>.\<close>

definition NewAtom :: Atom where
  "NewAtom = \<lparr>A_Type = Seperator, A_Text = None, A_pbFilePos = None, A_Value = 0, A_Position = 0, A_LineNumber = 0\<rparr>"

record errs =
  error_count :: nat
  stderr_text :: string

definition error_prefix :: "ErrorType \<Rightarrow> string" where
  "error_prefix et =
     (case et of RUN_TIME \<Rightarrow> ''Run time error:'' | SYNTAX \<Rightarrow> ''Syntax error:''
      | FATAL_RUN_TIME \<Rightarrow> ''Fatal: Run time error:'' | FATAL_SYNTAX \<Rightarrow> ''Fatal: Syntax Error:'')"

definition error_place :: "Atom \<Rightarrow> string" where
  "error_place atom =
     '': at Line '' @ show_base 10 (A_LineNumber atom) @ ''.'' @ show_base 10 (A_Position atom) @ nl @
     [CHR 0x09, CHR 0x09] @ replicate (A_Position atom) (CHR ''.'') @ ''v'' @
     (case A_pbFilePos atom of None \<Rightarrow> []
      | Some p \<Rightarrow> nl @ [CHR 0x09, CHR 0x09] @
          map (\<lambda>c. if c = CHR 0x09 then CHR '' '' else c) (takeWhile (\<lambda>c. c \<noteq> CHR 0x00 \<and> c \<noteq> CHR 0x0A) p) @ nl)"

definition Error :: "ErrorType \<Rightarrow> Atom option \<Rightarrow> string \<Rightarrow> 'a errs_scheme \<Rightarrow> 'a errs_scheme result" where
  "Error et atom text s =
     (if MAX_ERROR_COUNT \<le> error_count s then Inl Exited
      else if et = FATAL_RUN_TIME \<or> et = FATAL_SYNTAX then Inl Exited
      else Inr (s\<lparr>error_count := error_count s + 1,
                  stderr_text := stderr_text s @ error_prefix et @ text @
                    (case atom of None \<Rightarrow> [] | Some a \<Rightarrow> error_place a) @ nl\<rparr>))"

section \<open>Looking names up\<close>

fun WhiteSpace :: "string \<Rightarrow> (char \<times> string) result" where
  "WhiteSpace [] = Inl Out_of_bounds"
| "WhiteSpace (c # cs) =
     (if c = CHR 0x00 then Inr (c, c # cs)
      else bind_r (atom_of c) (\<lambda>at. if at \<noteq> Seperator then Inr (c, c # cs) else WhiteSpace cs))"

definition index_of :: "('a \<Rightarrow> bool) \<Rightarrow> 'a list \<Rightarrow> nat option" where
  "index_of P xs = find (\<lambda>i. P (xs ! i)) [0..<length xs]"

definition LookUpOpCode :: "Atom \<Rightarrow> (Atom \<times> bool) result" where
  "LookUpOpCode atom =
     (case A_Text atom of
        None \<Rightarrow> Inr (atom, False)
      | Some cp \<Rightarrow>
          if length cp \<le> MAX_OP_CODE_STRING_LENGTH
          then bind_r (StrToUpper cp) (\<lambda>upr.
            case index_of (\<lambda>o'. Op_Name o' = upr) InstructionSet of
              None \<Rightarrow> Inr (atom, False)
            | Some i \<Rightarrow> Inr (atom\<lparr>A_Type := Op_code, A_Value := of_nat i\<rparr>, True))
          else Inr (atom, False))"

text \<open>The second loop of \<open>LookUpRegister\<close>: a single register by prefix, or a register of a range.\<close>

fun LookUpRegister_rows :: "string \<Rightarrow> string \<Rightarrow> RegisterDsc list \<Rightarrow> u32 option" where
  "LookUpRegister_rows name upr [] = None"
| "LookUpRegister_rows name upr (d # ds) =
     (if starts_with upr (Reg_Name d)
      then (if Reg_Start d < Reg_End d
            then (if length (Reg_Name d) < length name
                  then (let cp = drop (length (Reg_Name d)) name; (rn, ep) = strtoul cp;
                            st = of_nat (Reg_Start d); en = of_nat (Reg_End d); off = of_nat (Reg_Offset d)
                        in if cp \<noteq> ep \<and> off \<le> rn \<and> rn \<le> en - st + off then Some (st + rn - off)
                           else LookUpRegister_rows name upr ds)
                  else LookUpRegister_rows name upr ds)
            else Some (of_nat (Reg_Start d)))
      else LookUpRegister_rows name upr ds)"

definition LookUpRegister :: "Atom \<Rightarrow> (Atom \<times> bool) result" where
  "LookUpRegister atom =
     (case A_Text atom of
        None \<Rightarrow> Inr (atom, False)
      | Some cp \<Rightarrow>
          if length cp \<le> MAX_REGISTER_STRING_LENGTH
          then bind_r (StrToUpper cp) (\<lambda>upr.
            case find (\<lambda>d. Reg_Name d = upr) Regs of
              Some d \<Rightarrow> Inr (atom\<lparr>A_Type := Register, A_Value := of_nat (Reg_Start d)\<rparr>, True)
            | None \<Rightarrow>
                (case LookUpRegister_rows cp upr Regs of
                   None \<Rightarrow> Inr (atom, False)
                 | Some v \<Rightarrow> Inr (atom\<lparr>A_Type := Register, A_Value := v\<rparr>, True)))
          else Inr (atom, False))"

definition GetRegisterName :: "int \<Rightarrow> string" where
  "GetRegisterName regnum = RegToString regnum"

definition LookUpOperator :: "string \<Rightarrow> Atom \<Rightarrow> Atom \<times> bool" where
  "LookUpOperator text atom =
     (case index_of (\<lambda>(i, name, help). name = text) OprNames of
        None \<Rightarrow> (atom, False)
      | Some i \<Rightarrow> (atom\<lparr>A_Type := Operator, A_Value := of_nat i\<rparr>, True))"

section \<open>GetAtoms\<close>

definition TEXT :: nat where "TEXT = 128"

text \<open>
  Copying characters of a class into the text buffer. A full buffer has no NUL, so that
  \<^verbatim>\<open>strlen (text)\<close> would leave it.
\<close>

fun scan_text :: "(AtomType \<Rightarrow> bool) \<Rightarrow> nat \<Rightarrow> string \<Rightarrow> (string \<times> string) result" where
  "scan_text P n [] = Inl Out_of_bounds"
| "scan_text P n (c # cs) =
     bind_r (atom_of c) (\<lambda>at.
       if P at \<and> 0 < n then bind_r (scan_text P (n - 1) cs) (\<lambda>(w, r). Inr (c # w, r))
       else Inr ([], c # cs))"

definition text_of :: "string \<Rightarrow> string result" where
  "text_of w = (if length w < TEXT then Inr w else Inl Out_of_bounds)"

text \<open>
  The loop variables: the rest of the buffer at \<^verbatim>\<open>cp\<close>, the start of the current line at
  \<^verbatim>\<open>pbFilePos\<close>, the position and line, the variable \<^verbatim>\<open>newline\<close> (None before its first
  assignment) and the finished atoms, the current one being a \<open>NewAtom\<close> behind them.
\<close>

record lex =
  L_cp :: string
  L_filepos :: string
  L_pos :: nat
  L_line :: nat
  L_newline :: "nat option"
  L_atoms :: "Atom list"

definition placed :: "lex \<Rightarrow> AtomType \<Rightarrow> string option \<Rightarrow> i32 \<Rightarrow> Atom" where
  "placed l ty text v =
     \<lparr>A_Type = ty, A_Text = text, A_pbFilePos = Some (L_filepos l), A_Value = v,
      A_Position = L_pos l, A_LineNumber = L_line l\<rparr>"

definition lex_numeric :: "lex \<Rightarrow> lex" where
  "lex_numeric l =
     (let (v, ep) = strtoul (L_cp l); nb = length (L_cp l) - length ep in
      l\<lparr>L_cp := ep, L_pos := L_pos l + nb, L_atoms := L_atoms l @ [placed l Numeric None v]\<rparr>)"

definition lex_alpha :: "lex \<Rightarrow> lex result" where
  "lex_alpha l =
     bind_r (scan_text (\<lambda>at. at = Alpha \<or> at = Numeric) TEXT (L_cp l)) (\<lambda>(w, r).
     bind_r (text_of w) (\<lambda>text.
     bind_r (LookUpOpCode (placed l Alpha (Some text) 0)) (\<lambda>(a1, isop).
     bind_r (if isop then Inr (a1, True) else LookUpRegister a1) (\<lambda>(a2, isreg).
       Inr (l\<lparr>L_cp := r, L_pos := L_pos l + length w, L_atoms := L_atoms l @ [a2]\<rparr>)))))"

fun lex_seperator :: "lex \<Rightarrow> string \<Rightarrow> lex result" where
  "lex_seperator l [] = Inl Out_of_bounds"
| "lex_seperator l (c # cs) =
     bind_r (atom_of c) (\<lambda>at.
       if at \<noteq> Seperator then Inr (l\<lparr>L_cp := c # cs, L_newline := Some 0\<rparr>)
       else if c = CHR 0x0A
       then Inr (l\<lparr>L_cp := cs, L_filepos := cs, L_pos := 0, L_newline := Some 1, L_line := L_line l + 1,
                   L_atoms := L_atoms l @ [NewAtom\<lparr>A_Position := L_pos l, A_LineNumber := L_line l\<rparr>]\<rparr>)
       else lex_seperator (l\<lparr>L_pos := L_pos l + 1\<rparr>) cs)"

text \<open>
  A comment after its mark: the text, whether a newline or a NUL ended it, and the rest. The
  closing mark is not consumed.
\<close>

fun comment_text :: "nat \<Rightarrow> string \<Rightarrow> (string \<times> bool \<times> string) result" where
  "comment_text n [] = Inl Out_of_bounds"
| "comment_text n (c # cs) =
     bind_r (atom_of c) (\<lambda>at.
       if at = Comment then Inr ([], False, c # cs)
       else if c = CHR 0x0A \<or> c = CHR 0x00 then Inr ([], True, cs)
       else if n = 0 then Inl Out_of_bounds
       else bind_r (comment_text (n - 1) cs) (\<lambda>(w, b, r). Inr (c # w, b, r)))"

definition lex_comment :: "lex \<Rightarrow> lex result" where
  "lex_comment l =
     bind_r (comment_text TEXT (tl (L_cp l))) (\<lambda>(w, nlend, r).
     bind_r (text_of w) (\<lambda>text.
     bind_r (if nlend then Inr 1 else case L_newline l of None \<Rightarrow> Inl Uninitialised | Some k \<Rightarrow> Inr k) (\<lambda>k.
       Inr (l\<lparr>L_cp := r, L_newline := Some k, L_pos := L_pos l + length w, L_line := L_line l + k,
              L_atoms := L_atoms l @ [placed l (if nlend then Seperator else Comment) (Some text) 0]\<rparr>))))"

definition lex_operator :: "lex \<Rightarrow> lex result" where
  "lex_operator l =
     bind_r (scan_text (\<lambda>at. at = Operator) TEXT (L_cp l)) (\<lambda>(w, r).
     bind_r (text_of w) (\<lambda>text.
       Inr (l\<lparr>L_cp := r, L_pos := L_pos l + length w,
              L_atoms := L_atoms l @ [fst (LookUpOperator text (placed l Operator (Some text) 0))]\<rparr>)))"

definition lex_single :: "AtomType \<Rightarrow> lex \<Rightarrow> lex" where
  "lex_single at l =
     l\<lparr>L_cp := tl (L_cp l), L_pos := L_pos l + 1, L_atoms := L_atoms l @ [placed l at None 0]\<rparr>"

text \<open>One turn of the loop; False when it returns.\<close>

definition lex_step :: "lex \<Rightarrow> 'a errs_scheme \<Rightarrow> (bool \<times> lex \<times> 'a errs_scheme) result" where
  "lex_step l s =
     (case L_cp l of
        [] \<Rightarrow> Inl Out_of_bounds
      | c # cs \<Rightarrow>
          bind_r (atom_of c) (\<lambda>at.
            if at = Numeric then Inr (True, lex_numeric l, s)
            else if at = Alpha then bind_r (lex_alpha l) (\<lambda>l'. Inr (True, l', s))
            else if at = Seperator then bind_r (lex_seperator l (c # cs)) (\<lambda>l'. Inr (True, l', s))
            else if at = Comment then bind_r (lex_comment l) (\<lambda>l'. Inr (True, l', s))
            else if at = Operator then bind_r (lex_operator l) (\<lambda>l'. Inr (True, l', s))
            else if at \<in> set [Open, Close, Open_index, Close_index, Bit] then Inr (True, lex_single at l, s)
            else if at = Illegal_char
            then bind_r (Error SYNTAX (Some NewAtom) ''Illegal character'' s) (\<lambda>s'. Inr (False, l, s'))
            else Inr (False, l, s)))"

section \<open>Every turn consumes text\<close>

lemma dropWhile_hd_not: "xs \<noteq> [] \<Longrightarrow> \<not> P (hd xs) \<Longrightarrow> dropWhile P xs = xs"
  by (cases xs) auto

lemma scan_digits_length: "length (snd (scan_digits b acc s)) \<le> length s"
  by (induction b acc s rule: scan_digits.induct) auto

lemma scan_digits_shrinks: "starts_digit b s \<Longrightarrow> length (snd (scan_digits b acc s)) < length s"
  using scan_digits_length by (cases s) (auto simp: starts_digit_def less_Suc_eq_le)

lemma atom_of_Numeric: "atom_of c = Inr Numeric \<Longrightarrow> 48 \<le> (of_char c :: nat) \<and> (of_char c :: nat) \<le> 57"
  by (cases "(of_char c :: nat) < 128") (auto simp: atom_of_ascii atom_of_high ascii_class_def split: if_splits)

lemma strtoul_shrinks:
  assumes "atom_of c = Inr Numeric"
  shows "length (snd (strtoul (c # cs))) < length (c # cs)"
proof -
  have c: "48 \<le> (of_char c :: nat)" "(of_char c :: nat) \<le> 57" using atom_of_Numeric [OF assms] by auto
  then have "\<not> isspace_c c" "c \<noteq> CHR ''-''" "c \<noteq> CHR ''+''" by (auto simp: isspace_c_def)
  then have s: "strtoul_sign (dropWhile isspace_c (c # cs)) = (False, c # cs)"
    by (simp add: strtoul_sign_def)
  obtain b s2 where b: "strtoul_base (c # cs) = (b, s2)" by fastforce
  then have len: "length s2 \<le> length (c # cs)"
    by (auto simp: strtoul_base_def split: if_splits)
  have dig: "starts_digit b s2"
  proof (cases "c = CHR ''0''")
    case True
    with b show ?thesis by (auto simp: strtoul_base_def starts_digit_def is_digit_in_def digit_val_def split: if_splits)
  next
    case False
    with b c show ?thesis by (auto simp: strtoul_base_def starts_digit_def is_digit_in_def digit_val_def)
  qed
  have "snd (strtoul (c # cs)) = snd (scan_digits b 0 s2)"
    unfolding strtoul_def s by (simp add: b dig split: prod.splits)
  with scan_digits_shrinks [OF dig, of 0] len show ?thesis by simp
qed

lemma scan_text_length: "scan_text P n s = Inr (w, r) \<Longrightarrow> s = w @ r"
  by (induction s arbitrary: n w r) (auto simp: bind_r_eq_Inr split: if_splits)

lemma scan_text_shrinks:
  "scan_text P n (c # cs) = Inr (w, r) \<Longrightarrow> atom_of c = Inr at \<Longrightarrow> P at \<Longrightarrow> 0 < n \<Longrightarrow> length r < length (c # cs)"
  by (auto simp: bind_r_eq_Inr dest!: scan_text_length)

lemma lex_seperator_shrinks:
  "lex_seperator l s = Inr l' \<Longrightarrow> length (L_cp l') \<le> length s"
  by (induction l s rule: lex_seperator.induct) (fastforce simp: bind_r_eq_Inr split: if_splits)+

lemma comment_text_length: "comment_text n s = Inr (w, b, r) \<Longrightarrow> length r \<le> length s"
  by (induction n s arbitrary: w b r rule: comment_text.induct)
    (fastforce simp: bind_r_eq_Inr split: if_splits)+

lemma lex_step_shrinks:
  assumes "lex_step l s = Inr (True, l', s')"
  shows "length (L_cp l') < length (L_cp l)"
proof -
  obtain c cs at where cp: "L_cp l = c # cs" and at: "atom_of c = Inr at"
    using assms by (cases "L_cp l") (auto simp: lex_step_def bind_r_eq_Inr)
  consider "at = Numeric" "l' = lex_numeric l" | "at = Alpha" "lex_alpha l = Inr l'"
    | "at = Seperator" "lex_seperator l (c # cs) = Inr l'" | "at = Comment" "lex_comment l = Inr l'"
    | "at = Operator" "lex_operator l = Inr l'" | "l' = lex_single at l"
    using assms by (auto simp: lex_step_def cp at bind_r_eq_Inr split: if_splits)
  then show ?thesis
  proof cases
    case 1
    then show ?thesis using strtoul_shrinks [of c cs] at by (auto simp: lex_numeric_def cp Let_def split: prod.splits)
  next
    case 2
    then show ?thesis using at
      by (auto simp: lex_alpha_def cp bind_r_eq_Inr TEXT_def dest!: scan_text_length)
  next
    case 3
    then show ?thesis using at lex_seperator_shrinks
      by (fastforce simp: cp bind_r_eq_Inr less_Suc_eq_le split: if_splits)
  next
    case 4
    then show ?thesis by (auto simp: lex_comment_def cp bind_r_eq_Inr less_Suc_eq_le dest!: comment_text_length)
  next
    case 5
    then show ?thesis using at
      by (auto simp: lex_operator_def cp bind_r_eq_Inr TEXT_def dest!: scan_text_length)
  next
    case 6
    then show ?thesis by (simp add: lex_single_def cp)
  qed
qed

text \<open>The loop, \<open>st_size\<close> being \<^verbatim>\<open>assStat.st_size\<close>; the list it returns ends with the zeroed atom.\<close>

function lex_loop :: "nat \<Rightarrow> lex \<Rightarrow> 'a errs_scheme \<Rightarrow> (Atom list \<times> 'a errs_scheme) result" where
  "lex_loop st_size l s =
     (if L_pos l \<le> st_size
      then bind_r (lex_step l s) (\<lambda>(more, l', s').
             if more then lex_loop st_size l' s' else Inr (L_atoms l' @ [NewAtom], s'))
      else Inr (L_atoms l @ [NewAtom], s))"
  by pat_completeness auto
termination
  by (relation "measure (\<lambda>(st_size, l, s). length (L_cp l))") (auto dest: lex_step_shrinks)

declare lex_loop.simps [simp del]

definition lex_start :: "string \<Rightarrow> lex" where
  "lex_start buf = \<lparr>L_cp = buf, L_filepos = buf, L_pos = 1, L_line = 1, L_newline = None, L_atoms = []\<rparr>"

definition GetAtoms :: "nat \<Rightarrow> string \<Rightarrow> 'a errs_scheme \<Rightarrow> (Atom list option \<times> 'a errs_scheme) result" where
  "GetAtoms st_size buf s =
     (if buf = [] then Inl Out_of_bounds
      else if hd buf = CHR ''.'' then Inr (None, s)
      else bind_r (lex_loop st_size (lex_start buf) s) (\<lambda>(atoms, s'). Inr (Some atoms, s')))"

definition list_atom :: "Atom \<Rightarrow> string" where
  "list_atom a =
     (let n = (\<lambda>k. show_base 10 k) in
      ''Typ:'' @ n (case A_Type a of Seperator \<Rightarrow> 0 | Operator \<Rightarrow> 1 | Open \<Rightarrow> 2 | Close \<Rightarrow> 3 | Comment \<Rightarrow> 4
        | Numeric \<Rightarrow> 5 | Alpha \<Rightarrow> 6 | Open_index \<Rightarrow> 7 | Close_index \<Rightarrow> 8 | Illegal_char \<Rightarrow> 9 | Terminator \<Rightarrow> 10
        | Bit \<Rightarrow> 11 | Op_code \<Rightarrow> 12 | Register \<Rightarrow> 13 | Expression \<Rightarrow> 14 | Not_set \<Rightarrow> 15) @
      '' Txt:'' @ (case A_Text a of None \<Rightarrow> ''NULL'' | Some t \<Rightarrow> t) @
      '' Val:'' @ fmt_d (A_Value a) @ '' Pos:'' @ n (A_Position a) @ '' Lin:'' @ n (A_LineNumber a) @ nl)"

definition ListAtoms :: "Atom list \<Rightarrow> string" where
  "ListAtoms atoms = concat (map list_atom atoms)"

end
