(* ===== verification/Mtt_Expr.thy ===== *)
theory Mtt_Expr
  imports Mtt_Lex
begin

text \<open>
  The assembler's symbol table and expression evaluator (mttn/tools/asm.c): \<open>GetSymbol\<close>, the
  operand and operator stacks and \<open>DoExpression\<close>. The stacks are arrays with a size, whose
  slots above the size keep their old contents: \<open>DoExpression\<close> reads one of them. The locale
  \<open>bounded_stack\<close> states what both stacks promise; it is interpreted on each of them.
\<close>

section \<open>State\<close>

record Symbol =
  S_Name :: string
  S_Index :: nat
  S_Value :: i32
  S_Defined :: bool

record Operand =
  O_SymbolRef :: "nat option"
  O_LiteralValue :: i32

definition SYMBOLS :: nat where "SYMBOLS = 1024"
definition OPERAND_STACK :: nat where "OPERAND_STACK = 64"
definition OPERATOR_STACK :: nat where "OPERATOR_STACK = 32"

text \<open>The static variables; the used part of the symbol table is the list, references are indices.\<close>

record asmst = errs +
  symbolTable :: "Symbol list"
  operandStack :: "Operand list"
  operandStackSize :: nat
  operatorStack :: "OprId list"
  operatorStackSize :: nat

definition lit_operand :: "i32 \<Rightarrow> Operand" where
  "lit_operand v = \<lparr>O_SymbolRef = None, O_LiteralValue = v\<rparr>"

definition true_operand :: Operand where "true_operand = lit_operand 0xFFFFFFFF"
definition false_operand :: Operand where "false_operand = lit_operand 0"

section \<open>Symbols\<close>

definition GetSymbol :: "string \<Rightarrow> 'a asmst_scheme \<Rightarrow> (nat \<times> 'a asmst_scheme) result" where
  "GetSymbol name s =
     (case index_of (\<lambda>y. S_Name y = name) (symbolTable s) of
        Some i \<Rightarrow> Inr (i, s)
      | None \<Rightarrow>
          let i = length (symbolTable s) in
          if SYMBOLS \<le> i
          then bind_r (Error FATAL_RUN_TIME None ''Symbol table overflow'' s) (\<lambda>s'. Inr (i, s'))
          else Inr (i, s\<lparr>symbolTable := symbolTable s @
                 [\<lparr>S_Name = name, S_Index = i, S_Value = 0, S_Defined = False\<rparr>]\<rparr>))"

definition sym_value :: "nat \<Rightarrow> 'a asmst_scheme \<Rightarrow> i32" where
  "sym_value i s = S_Value (symbolTable s ! i)"

definition set_sym :: "nat \<Rightarrow> i32 \<Rightarrow> bool \<Rightarrow> 'a asmst_scheme \<Rightarrow> 'a asmst_scheme" where
  "set_sym i v def s =
     s\<lparr>symbolTable := (symbolTable s)[i := (symbolTable s ! i)\<lparr>S_Value := v, S_Defined := def\<rparr>]\<rparr>"

section \<open>Stacks\<close>

definition PushOperand :: "Operand \<Rightarrow> 'a asmst_scheme \<Rightarrow> (bool \<times> 'a asmst_scheme) result" where
  "PushOperand operand s =
     (if operandStackSize s < OPERAND_STACK
      then Inr (True, s\<lparr>operandStack := (operandStack s)[operandStackSize s := operand],
                        operandStackSize := operandStackSize s + 1\<rparr>)
      else bind_r (Error FATAL_RUN_TIME None ''Operand stack overflow'' s) (\<lambda>s'. Inr (False, s')))"

definition PushOperator :: "OprId \<Rightarrow> 'a asmst_scheme \<Rightarrow> (bool \<times> 'a asmst_scheme) result" where
  "PushOperator oprId s =
     (if operatorStackSize s < OPERATOR_STACK
      then Inr (True, s\<lparr>operatorStack := (operatorStack s)[operatorStackSize s := oprId],
                        operatorStackSize := operatorStackSize s + 1\<rparr>)
      else bind_r (Error FATAL_RUN_TIME None ''Operator stack overflow'' s) (\<lambda>s'. Inr (False, s')))"

definition PopOperand :: "'a asmst_scheme \<Rightarrow> (Operand option \<times> 'a asmst_scheme) result" where
  "PopOperand s =
     (if 0 < operandStackSize s
      then Inr (Some (operandStack s ! (operandStackSize s - 1)),
                s\<lparr>operandStackSize := operandStackSize s - 1\<rparr>)
      else bind_r (Error RUN_TIME None ''Operand stack underflow'' s) (\<lambda>s'. Inr (None, s')))"

definition PopOperator :: "'a asmst_scheme \<Rightarrow> (OprId option \<times> 'a asmst_scheme) result" where
  "PopOperator s =
     (if 0 < operatorStackSize s
      then Inr (Some (operatorStack s ! (operatorStackSize s - 1)),
                s\<lparr>operatorStackSize := operatorStackSize s - 1\<rparr>)
      else bind_r (Error RUN_TIME None ''Operator stack underflow'' s) (\<lambda>s'. Inr (None, s')))"

definition ResetStacks :: "'a asmst_scheme \<Rightarrow> 'a asmst_scheme" where
  "ResetStacks s = s\<lparr>operandStackSize := 0, operatorStackSize := 0\<rparr>"

definition GetValue :: "Operand \<Rightarrow> 'a asmst_scheme \<Rightarrow> i32" where
  "GetValue operand s =
     (case O_SymbolRef operand of Some i \<Rightarrow> sym_value i s | None \<Rightarrow> O_LiteralValue operand)"

section \<open>DoExpression\<close>

text \<open>\<^verbatim>\<open>long\<close> division truncates; by zero, and of the least value by -1, it traps.\<close>

definition c_div :: "i32 \<Rightarrow> i32 \<Rightarrow> i32 result" where
  "c_div a b =
     (if b = 0 \<or> sint a = - (2 ^ 31) \<and> sint b = - 1 then Inl Bad_arith
      else Inr (of_int (sgn (sint a) * sgn (sint b) * (\<bar>sint a\<bar> div \<bar>sint b\<bar>))))"

definition opr_test :: "OprId \<Rightarrow> int \<Rightarrow> int \<Rightarrow> bool option" where
  "opr_test opr l r =
     (case opr of OprNE \<Rightarrow> Some (l \<noteq> r) | OprEQ \<Rightarrow> Some (l = r) | OprGT \<Rightarrow> Some (l > r)
      | OprGE \<Rightarrow> Some (l \<ge> r) | OprLT \<Rightarrow> Some (l < r) | OprLE \<Rightarrow> Some (l \<le> r) | _ \<Rightarrow> None)"

definition opr_arith :: "OprId \<Rightarrow> i32 \<Rightarrow> i32 \<Rightarrow> i32 result option" where
  "opr_arith opr l r =
     (case opr of OprPL \<Rightarrow> Some (Inr (l + r)) | OprMI \<Rightarrow> Some (Inr (l - r)) | OprTI \<Rightarrow> Some (Inr (l * r))
      | OprDI \<Rightarrow> Some (c_div l r) | OprAND \<Rightarrow> Some (Inr (l AND r)) | OprOR \<Rightarrow> Some (Inr (l OR r))
      | OprXOR \<Rightarrow> Some (Inr (l XOR r)) | OprLSH \<Rightarrow> Some (c_shl l r) | OprRSH \<Rightarrow> Some (c_shr l r) | _ \<Rightarrow> None)"

definition opr_unary :: "OprId \<Rightarrow> i32 \<Rightarrow> i32 option" where
  "opr_unary opr l = (case opr of OprNOT \<Rightarrow> Some (NOT l) | OprNEG \<Rightarrow> Some (- l) | _ \<Rightarrow> None)"

text \<open>
  What one operator does: \<open>Inl v\<close> when \<open>DoExpression\<close> returns \<open>v\<close>, \<open>Inr ()\<close> when its loop
  goes on. The cases share their first steps: popping the operands, from the right.
\<close>

type_synonym 'a expr_result = "((i32 + unit) \<times> 'a asmst_scheme) result"

definition expr_binary :: "(Operand \<Rightarrow> Operand \<Rightarrow> 'a asmst_scheme \<Rightarrow> 'a expr_result) \<Rightarrow> 'a asmst_scheme \<Rightarrow> 'a expr_result" where
  "expr_binary f s =
     bind_r (PopOperand s) (\<lambda>(right, s1).
       case right of None \<Rightarrow> Inr (Inl 0, s1)
       | Some r \<Rightarrow> bind_r (PopOperand s1) (\<lambda>(left, s2).
           case left of None \<Rightarrow> Inr (Inl 0, s2) | Some l \<Rightarrow> f l r s2))"

definition expr_unary :: "(Operand \<Rightarrow> 'a asmst_scheme \<Rightarrow> 'a expr_result) \<Rightarrow> 'a asmst_scheme \<Rightarrow> 'a expr_result" where
  "expr_unary f s =
     bind_r (PopOperand s) (\<lambda>(left, s1). case left of None \<Rightarrow> Inr (Inl 0, s1) | Some l \<Rightarrow> f l s1)"

definition expr_push :: "Operand \<Rightarrow> 'a asmst_scheme \<Rightarrow> 'a expr_result" where
  "expr_push v s = bind_r (PushOperand v s) (\<lambda>(ok, s'). Inr (Inr (), s'))"

definition expr_assign :: "Operand \<Rightarrow> Operand \<Rightarrow> 'a asmst_scheme \<Rightarrow> 'a expr_result" where
  "expr_assign l r s =
     (case O_SymbolRef l of
        Some i \<Rightarrow> expr_push r (set_sym i (GetValue r s) True s)
      | None \<Rightarrow>
          bind_r (Error RUN_TIME None ''Becomes Equal: Attempt to write to a literal'' s) (\<lambda>s'. Inr (Inr (), s')))"

definition expr_count :: "string \<Rightarrow> i32 \<Rightarrow> Operand \<Rightarrow> 'a asmst_scheme \<Rightarrow> 'a expr_result" where
  "expr_count name d l s =
     (let v = GetValue l s + d in
      case O_SymbolRef l of
        Some i \<Rightarrow> expr_push (lit_operand v) (set_sym i v (S_Defined (symbolTable s ! i)) s)
      | None \<Rightarrow>
          bind_r (Error RUN_TIME None (name @ '': Attempt to write to a literal'') s) (\<lambda>s'. Inr (Inr (), s')))"

definition expr_step :: "OprId \<Rightarrow> 'a asmst_scheme \<Rightarrow> 'a expr_result" where
  "expr_step opr s =
     (if opr_test opr 0 0 \<noteq> None
      then expr_binary (\<lambda>l r s2. expr_push
             (if opr_test opr (sint (GetValue l s2)) (sint (GetValue r s2)) = Some True
              then true_operand else false_operand) s2) s
      else if opr_arith opr 0 1 \<noteq> None
      then expr_binary (\<lambda>l r s2. bind_r (the (opr_arith opr (GetValue l s2) (GetValue r s2))) (\<lambda>v.
             expr_push (lit_operand v) s2)) s
      else if opr_unary opr 0 \<noteq> None
      then expr_unary (\<lambda>l s1. expr_push (lit_operand (the (opr_unary opr (GetValue l s1)))) s1) s
      else if opr = OprINC then expr_unary (expr_count ''Increment'' 1) s
      else if opr = OprDECR then expr_unary (expr_count ''Decrement'' (- 1)) s
      else if opr = OprPOP then expr_unary (\<lambda>r s1. Inr (Inl (O_LiteralValue r), s1)) s
      else if opr = OprAS then expr_binary expr_assign s
      else if opr = OprSTM
      then bind_r (arr_get (operandStack s) (int (operandStackSize s))) (\<lambda>v. Inr (Inl (O_LiteralValue v), s))
      else Inr (Inl 0, s))"

lemma Error_more: "Error et a t s = Inr s' \<Longrightarrow>
  s' = s\<lparr>error_count := error_count s', stderr_text := stderr_text s'\<rparr> \<and> error_count s' = error_count s + 1"
  by (auto simp: Error_def split: if_splits)

lemma Error_asm [simp]:
  assumes "Error et a t s = Inr s'"
  shows "symbolTable s' = symbolTable s" "operandStack s' = operandStack s" "operandStackSize s' = operandStackSize s"
    "operatorStack s' = operatorStack s" "operatorStackSize s' = operatorStackSize s"
  using assms by (auto simp: Error_def split: if_splits)

lemma PopOperand_frame: "PopOperand s = Inr (v, s') \<Longrightarrow>
  operatorStack s' = operatorStack s \<and> operatorStackSize s' = operatorStackSize s \<and> symbolTable s' = symbolTable s \<and>
  operandStack s' = operandStack s"
  by (auto simp: PopOperand_def bind_r_eq_Inr split: if_splits)

lemma PushOperand_frame: "PushOperand v s = Inr (b, s') \<Longrightarrow>
  operatorStack s' = operatorStack s \<and> operatorStackSize s' = operatorStackSize s \<and> symbolTable s' = symbolTable s"
  by (auto simp: PushOperand_def bind_r_eq_Inr split: if_splits)

lemma expr_push_frame: "expr_push v s = Inr (r, s') \<Longrightarrow>
  operatorStack s' = operatorStack s \<and> operatorStackSize s' = operatorStackSize s"
  by (auto simp: expr_push_def bind_r_eq_Inr dest: PushOperand_frame)

lemma expr_unary_frame:
  assumes "expr_unary f s = Inr (r, s')"
    and "\<And>l s1 r s2. f l s1 = Inr (r, s2) \<Longrightarrow> operatorStackSize s2 = operatorStackSize s1"
  shows "operatorStackSize s' = operatorStackSize s"
  using assms by (fastforce simp: expr_unary_def bind_r_eq_Inr dest: PopOperand_frame split: option.splits)

lemma expr_binary_frame:
  assumes "expr_binary f s = Inr (r, s')"
    and "\<And>l r s1 q s2. f l r s1 = Inr (q, s2) \<Longrightarrow> operatorStackSize s2 = operatorStackSize s1"
  shows "operatorStackSize s' = operatorStackSize s"
  using assms by (fastforce simp: expr_binary_def bind_r_eq_Inr dest: PopOperand_frame split: option.splits)

lemma set_sym_frame [simp]: "operatorStackSize (set_sym i v b s) = operatorStackSize s"
  by (simp add: set_sym_def)

lemma expr_count_frame: "expr_count n d l s = Inr (r, s') \<Longrightarrow> operatorStackSize s' = operatorStackSize s"
  by (auto simp: expr_count_def Let_def bind_r_eq_Inr split: option.splits dest: expr_push_frame)

lemma expr_assign_frame: "expr_assign l r s = Inr (q, s') \<Longrightarrow> operatorStackSize s' = operatorStackSize s"
  by (auto simp: expr_assign_def bind_r_eq_Inr split: option.splits dest: expr_push_frame)

lemma expr_step_frame: "expr_step opr s = Inr (r, s') \<Longrightarrow> operatorStackSize s' = operatorStackSize s"
  unfolding expr_step_def
  by (auto simp: bind_r_eq_Inr dest: expr_push_frame elim!: expr_unary_frame expr_binary_frame
      intro: expr_count_frame expr_assign_frame split: if_splits)

function DoExpression :: "'a asmst_scheme \<Rightarrow> (i32 \<times> 'a asmst_scheme) result" where
  "DoExpression s =
     bind_r (PopOperator s) (\<lambda>(opr, s1).
       case opr of
         None \<Rightarrow> Inr (0, s1)
       | Some opr' \<Rightarrow>
           bind_r (expr_step opr' s1) (\<lambda>(r, s2).
             case r of Inl v \<Rightarrow> Inr (v, s2) | Inr u \<Rightarrow> DoExpression s2))"
  by pat_completeness auto
termination
  by (relation "measure operatorStackSize")
    (auto simp: PopOperator_def bind_r_eq_Inr dest!: expr_step_frame split: if_splits)

declare DoExpression.simps [simp del]

section \<open>Well-formed states\<close>

definition opnd_ok :: "nat \<Rightarrow> Operand \<Rightarrow> bool" where
  "opnd_ok n v = (case O_SymbolRef v of None \<Rightarrow> True | Some i \<Rightarrow> i < n)"

definition sym_wf :: "Symbol list \<Rightarrow> bool" where
  "sym_wf t \<longleftrightarrow> length t \<le> SYMBOLS \<and> distinct (map S_Name t) \<and> (\<forall>i < length t. S_Index (t ! i) = i)"

definition asm_wf :: "'a asmst_scheme \<Rightarrow> bool" where
  "asm_wf s \<longleftrightarrow> sym_wf (symbolTable s) \<and>
     length (operandStack s) = OPERAND_STACK \<and> operandStackSize s \<le> OPERAND_STACK \<and>
     length (operatorStack s) = OPERATOR_STACK \<and> operatorStackSize s \<le> OPERATOR_STACK \<and>
     (\<forall>v \<in> set (operandStack s). opnd_ok (length (symbolTable s)) v)"

lemma Error_wf: "Error et a t s = Inr s' \<Longrightarrow> asm_wf s' = asm_wf s"
  by (simp add: asm_wf_def)

lemma index_of_SomeD: "index_of P xs = Some i \<Longrightarrow> i < length xs \<and> P (xs ! i)"
  by (auto simp: index_of_def dest: find_SomeD)

lemma index_of_None: "index_of P xs = None \<longleftrightarrow> (\<forall>x \<in> set xs. \<not> P x)"
  by (force simp: index_of_def find_None_iff in_set_conv_nth)

lemma Error_fatal [simp]: "Error FATAL_RUN_TIME a t s = Inl Exited" "Error FATAL_SYNTAX a t s = Inl Exited"
  by (simp_all add: Error_def)

lemma opnd_ok_mono: "opnd_ok n v \<Longrightarrow> n \<le> m \<Longrightarrow> opnd_ok m v"
  by (auto simp: opnd_ok_def split: option.splits)

lemma opnd_ok_Suc: "\<forall>v \<in> S. opnd_ok n v \<Longrightarrow> v \<in> S \<Longrightarrow> opnd_ok (Suc n) v"
  by (rule opnd_ok_mono [of n]) auto

lemma GetSymbol_wf:
  assumes "asm_wf s" "GetSymbol name s = Inr (i, s')"
  shows "asm_wf s' \<and> i < length (symbolTable s') \<and> S_Name (symbolTable s' ! i) = name \<and>
         length (symbolTable s) \<le> length (symbolTable s')"
proof (cases "index_of (\<lambda>y. S_Name y = name) (symbolTable s)")
  case (Some k)
  with assms show ?thesis by (auto simp: GetSymbol_def dest: index_of_SomeD)
next
  case None
  then have new: "name \<notin> S_Name ` set (symbolTable s)" by (auto simp: index_of_None)
  show ?thesis
  proof (cases "SYMBOLS \<le> length (symbolTable s)")
    case True
    with assms None show ?thesis by (simp add: GetSymbol_def Let_def)
  next
    case False
    have "\<forall>v \<in> set (operandStack s). opnd_ok (Suc (length (symbolTable s))) v"
      using assms(1) opnd_ok_Suc by (auto simp: asm_wf_def)
    with False assms None new show ?thesis
      by (auto simp: GetSymbol_def Let_def asm_wf_def sym_wf_def nth_append less_Suc_eq)
  qed
qed

lemma set_sym_wf:
  assumes "asm_wf s" "i < length (symbolTable s)"
  shows "asm_wf (set_sym i v b s)"
proof -
  have "(map S_Name (symbolTable s))[i := S_Name (symbolTable s ! i)] = map S_Name (symbolTable s)"
    using assms(2) by (simp add: list_update_same_conv)
  with assms show ?thesis
    by (auto simp: asm_wf_def set_sym_def sym_wf_def map_update nth_list_update)
qed

lemma PushOperand_wf: "asm_wf s \<Longrightarrow> opnd_ok (length (symbolTable s)) v \<Longrightarrow> PushOperand v s = Inr (b, s') \<Longrightarrow> asm_wf s'"
  by (auto simp: PushOperand_def asm_wf_def split: if_splits dest!: set_update_subset_insert [THEN subsetD])

lemma PushOperator_wf: "asm_wf s \<Longrightarrow> PushOperator v s = Inr (b, s') \<Longrightarrow> asm_wf s'"
  by (auto simp: PushOperator_def asm_wf_def split: if_splits)

lemma PopOperand_wf: "asm_wf s \<Longrightarrow> PopOperand s = Inr (v, s') \<Longrightarrow>
  asm_wf s' \<and> symbolTable s' = symbolTable s \<and> (\<forall>x. v = Some x \<longrightarrow> opnd_ok (length (symbolTable s)) x)"
  by (auto simp: PopOperand_def bind_r_eq_Inr Error_wf split: if_splits)
     (auto simp: asm_wf_def)

lemma PopOperator_wf: "asm_wf s \<Longrightarrow> PopOperator s = Inr (v, s') \<Longrightarrow> asm_wf s'"
  by (auto simp: PopOperator_def bind_r_eq_Inr Error_wf split: if_splits) (auto simp: asm_wf_def)

lemma ResetStacks_wf: "asm_wf s \<Longrightarrow> asm_wf (ResetStacks s)"
  by (simp add: ResetStacks_def asm_wf_def)

lemma lit_operand_ok [simp]: "opnd_ok n (lit_operand v)" "opnd_ok n true_operand" "opnd_ok n false_operand"
  by (simp_all add: opnd_ok_def lit_operand_def true_operand_def false_operand_def)

lemma expr_push_wf: "asm_wf s \<Longrightarrow> opnd_ok (length (symbolTable s)) v \<Longrightarrow> expr_push v s = Inr (r, s') \<Longrightarrow> asm_wf s'"
  by (auto simp: expr_push_def bind_r_eq_Inr dest: PushOperand_wf)

lemma expr_push_lit_wf:
  "expr_push (lit_operand v) s = Inr (r, s') \<Longrightarrow> asm_wf s \<Longrightarrow> asm_wf s'"
  "expr_push true_operand s = Inr (r, s') \<Longrightarrow> asm_wf s \<Longrightarrow> asm_wf s'"
  "expr_push false_operand s = Inr (r, s') \<Longrightarrow> asm_wf s \<Longrightarrow> asm_wf s'"
  by (auto elim!: expr_push_wf [rotated 2])

lemma expr_unary_wf:
  assumes "expr_unary f s = Inr (r, s')" "asm_wf s"
    and "\<And>l s1 r s2. asm_wf s1 \<Longrightarrow> opnd_ok (length (symbolTable s1)) l \<Longrightarrow> f l s1 = Inr (r, s2) \<Longrightarrow> asm_wf s2"
  shows "asm_wf s'"
proof -
  obtain l s1 where p: "PopOperand s = Inr (l, s1)"
    and k: "(case l of None \<Rightarrow> Inr (Inl 0, s1) | Some l \<Rightarrow> f l s1) = Inr (r, s')"
    using assms(1) by (auto simp: expr_unary_def bind_r_eq_Inr)
  note w = PopOperand_wf [OF assms(2) p]
  show ?thesis
  proof (cases l)
    case None with k w show ?thesis by simp
  next
    case (Some x) with k w show ?thesis by (intro assms(3) [of s1 x r s']) auto
  qed
qed

lemma expr_binary_wf:
  assumes "expr_binary f s = Inr (r, s')" "asm_wf s"
    and "\<And>l r s1 q s2. asm_wf s1 \<Longrightarrow> opnd_ok (length (symbolTable s1)) l \<Longrightarrow> opnd_ok (length (symbolTable s1)) r \<Longrightarrow>
           f l r s1 = Inr (q, s2) \<Longrightarrow> asm_wf s2"
  shows "asm_wf s'"
proof -
  let ?g = "\<lambda>x s1. expr_unary (\<lambda>l s2. f l x s2) s1"
  have "expr_unary ?g s = Inr (r, s')"
    using assms(1) by (simp add: expr_binary_def expr_unary_def)
  then show ?thesis
  proof (rule expr_unary_wf [OF _ assms(2)])
    fix x s1 q s2 assume s1: "asm_wf s1" "opnd_ok (length (symbolTable s1)) x" "?g x s1 = Inr (q, s2)"
    obtain l s3 where p: "PopOperand s1 = Inr (l, s3)"
      and k: "(case l of None \<Rightarrow> Inr (Inl 0, s3) | Some l \<Rightarrow> f l x s3) = Inr (q, s2)"
      using s1(3) by (auto simp: expr_unary_def bind_r_eq_Inr)
    note w = PopOperand_wf [OF s1(1) p]
    show "asm_wf s2"
    proof (cases l)
      case None with k w show ?thesis by simp
    next
      case (Some y) with k w s1(2) show ?thesis by (intro assms(3) [of s3 y x q s2]) auto
    qed
  qed
qed

lemma length_set_sym [simp]: "length (symbolTable (set_sym i v b s)) = length (symbolTable s)"
  by (simp add: set_sym_def)

lemma expr_count_wf: "asm_wf s \<Longrightarrow> opnd_ok (length (symbolTable s)) l \<Longrightarrow> expr_count n d l s = Inr (r, s') \<Longrightarrow> asm_wf s'"
  by (cases "O_SymbolRef l")
    (auto simp: expr_count_def Let_def bind_r_eq_Inr opnd_ok_def Error_wf set_sym_wf elim!: expr_push_lit_wf)

lemma expr_assign_wf: "asm_wf s \<Longrightarrow> opnd_ok (length (symbolTable s)) l \<Longrightarrow> opnd_ok (length (symbolTable s)) r \<Longrightarrow>
  expr_assign l r s = Inr (q, s') \<Longrightarrow> asm_wf s'"
  by (cases "O_SymbolRef l")
    (auto simp: expr_assign_def bind_r_eq_Inr opnd_ok_def [of _ l] Error_wf set_sym_wf elim!: expr_push_wf [rotated 2])

lemma expr_step_wf:
  assumes wf: "asm_wf s" and run: "expr_step opr s = Inr (r, s')"
  shows "asm_wf s'"
proof -
  have un: "asm_wf s'" if "expr_unary f s = Inr (r, s')"
    "\<And>l s1 q s2. asm_wf s1 \<Longrightarrow> opnd_ok (length (symbolTable s1)) l \<Longrightarrow> f l s1 = Inr (q, s2) \<Longrightarrow> asm_wf s2" for f
    using expr_unary_wf [OF that(1) wf that(2)] .
  have bi: "asm_wf s'" if "expr_binary f s = Inr (r, s')"
    "\<And>l x s1 q s2. asm_wf s1 \<Longrightarrow> opnd_ok (length (symbolTable s1)) l \<Longrightarrow> opnd_ok (length (symbolTable s1)) x \<Longrightarrow>
       f l x s1 = Inr (q, s2) \<Longrightarrow> asm_wf s2" for f
    using expr_binary_wf [OF that(1) wf that(2)] .
  show ?thesis
    using run unfolding expr_step_def
    by (simp add: bind_r_eq_Inr split: if_splits)
      ((erule un bi; auto simp: bind_r_eq_Inr elim: expr_push_lit_wf expr_count_wf expr_assign_wf split: if_splits)+,
       use wf in auto)
qed

lemma DoExpression_wf: "asm_wf s \<Longrightarrow> DoExpression s = Inr (v, s') \<Longrightarrow> asm_wf s'"
proof (induction s arbitrary: v s' rule: DoExpression.induct)
  case (1 s)
  from 1(3) [unfolded DoExpression.simps [of s]] obtain opr s1 where p: "PopOperator s = Inr (opr, s1)"
    and rest: "(case opr of None \<Rightarrow> Inr (0, s1) | Some opr' \<Rightarrow> bind_r (expr_step opr' s1) (\<lambda>(r, s2).
      case r of Inl v \<Rightarrow> Inr (v, s2) | Inr u \<Rightarrow> DoExpression s2)) = Inr (v, s')"
    by (auto simp: bind_r_eq_Inr)
  have wf1: "asm_wf s1" using PopOperator_wf [OF 1(2) p] .
  show ?case
  proof (cases opr)
    case None
    with rest wf1 show ?thesis by simp
  next
    case (Some o')
    with rest obtain r s2 where st: "expr_step o' s1 = Inr (r, s2)"
      and r: "(case r of Inl v \<Rightarrow> Inr (v, s2) | Inr u \<Rightarrow> DoExpression s2) = Inr (v, s')"
      by (auto simp: bind_r_eq_Inr)
    have wf2: "asm_wf s2" using expr_step_wf [OF wf1 st] .
    show ?thesis
    proof (cases r)
      case (Inl x) with r wf2 show ?thesis by simp
    next
      case (Inr u)
      with r 1(1) [OF p refl Some st refl Inr wf2] show ?thesis by simp
    qed
  qed
qed


section \<open>The stack interface\<close>

text \<open>
  What both stacks promise, seen as lists with the top at the end: a push below the capacity
  appends, at the capacity it ends the program, a pop takes the last element, and on an
  empty stack it reports an error and leaves the stack empty.
\<close>

locale bounded_stack =
  fixes stk :: "'s \<Rightarrow> 'x list" and cap :: nat and ok :: "'s \<Rightarrow> bool"
    and push :: "'x \<Rightarrow> 's \<Rightarrow> (bool \<times> 's) result" and pop :: "'s \<Rightarrow> ('x option \<times> 's) result"
  assumes bounded: "ok s \<Longrightarrow> length (stk s) \<le> cap"
    and push_room: "ok s \<Longrightarrow> length (stk s) < cap \<Longrightarrow> \<exists>s'. push x s = Inr (True, s') \<and> stk s' = stk s @ [x] \<and> ok s'"
    and push_full: "ok s \<Longrightarrow> length (stk s) = cap \<Longrightarrow> push x s = Inl Exited"
    and pop_top: "ok s \<Longrightarrow> stk s = xs @ [x] \<Longrightarrow> \<exists>s'. pop s = Inr (Some x, s') \<and> stk s' = xs \<and> ok s'"
    and pop_empty: "ok s \<Longrightarrow> stk s = [] \<Longrightarrow> pop s = Inr (y, s') \<Longrightarrow> y = None \<and> stk s' = [] \<and> ok s'"
begin

fun push_all :: "'x list \<Rightarrow> 's \<Rightarrow> 's result" where
  "push_all [] s = Inr s"
| "push_all (x # xs) s = bind_r (push x s) (\<lambda>(b, s'). push_all xs s')"

fun pop_all :: "nat \<Rightarrow> 's \<Rightarrow> ('x list \<times> 's) result" where
  "pop_all 0 s = Inr ([], s)"
| "pop_all (Suc n) s = bind_r (pop s) (\<lambda>(y, s1).
     case y of None \<Rightarrow> Inr ([], s1) | Some x \<Rightarrow> bind_r (pop_all n s1) (\<lambda>(xs, s2). Inr (x # xs, s2)))"

lemma push_all_room:
  "ok s \<Longrightarrow> length (stk s) + length xs \<le> cap \<Longrightarrow> \<exists>s'. push_all xs s = Inr s' \<and> stk s' = stk s @ xs \<and> ok s'"
proof (induction xs arbitrary: s)
  case (Cons x xs)
  then obtain s1 where s1: "push x s = Inr (True, s1)" "stk s1 = stk s @ [x]" "ok s1"
    using push_room [of s x] by auto
  with Cons.IH [of s1] Cons.prems show ?case by auto
qed auto

lemma push_all_overflow:
  "ok s \<Longrightarrow> cap < length (stk s) + length xs \<Longrightarrow> push_all xs s = Inl Exited"
proof (induction xs arbitrary: s)
  case Nil
  then show ?case using bounded [of s] by simp
next
  case (Cons x xs)
  show ?case
  proof (cases "length (stk s) = cap")
    case True with Cons.prems show ?thesis by (simp add: push_full)
  next
    case False
    with Cons.prems bounded [of s] obtain s1 where "push x s = Inr (True, s1)" "stk s1 = stk s @ [x]" "ok s1"
      using push_room [of s x] by auto
    with Cons.IH [of s1] Cons.prems show ?thesis by simp
  qed
qed

lemma pop_all_top:
  "ok s \<Longrightarrow> stk s = ys @ xs \<Longrightarrow> \<exists>s'. pop_all (length xs) s = Inr (rev xs, s') \<and> stk s' = ys \<and> ok s'"
proof (induction xs arbitrary: s rule: rev_induct)
  case (snoc x xs)
  then obtain s1 where "pop s = Inr (Some x, s1)" "stk s1 = ys @ xs" "ok s1"
    using pop_top [of s "ys @ xs" x] by auto
  with snoc.IH [of s1] show ?case by auto
qed auto

lemma lifo:
  assumes "ok s" "length (stk s) + length xs \<le> cap"
  shows "\<exists>s1 s2. push_all xs s = Inr s1 \<and> pop_all (length xs) s1 = Inr (rev xs, s2) \<and> stk s2 = stk s \<and> ok s2"
  using push_all_room [OF assms] pop_all_top by blast

end

definition operands :: "'a asmst_scheme \<Rightarrow> Operand list" where
  "operands s = take (operandStackSize s) (operandStack s)"

definition operators :: "'a asmst_scheme \<Rightarrow> OprId list" where
  "operators s = take (operatorStackSize s) (operatorStack s)"

lemma take_push: "n < length xs \<Longrightarrow> take (Suc n) (xs[n := x]) = take n xs @ [x]"
  by (simp add: take_Suc_conv_app_nth)

lemma take_pop: "take n xs = ys @ [y] \<Longrightarrow> n \<le> length xs \<Longrightarrow> 0 < n \<and> y = xs ! (n - 1) \<and> take (n - 1) xs = ys"
proof -
  assume a: "take n xs = ys @ [y]" "n \<le> length xs"
  then obtain m where m: "n = Suc m" by (cases n) auto
  with a have "take m xs @ [xs ! m] = ys @ [y]" by (simp add: take_Suc_conv_app_nth)
  with m show ?thesis by auto
qed

definition stacks_ok :: "'a asmst_scheme \<Rightarrow> bool" where
  "stacks_ok s \<longleftrightarrow> length (operandStack s) = OPERAND_STACK \<and> operandStackSize s \<le> OPERAND_STACK \<and>
     length (operatorStack s) = OPERATOR_STACK \<and> operatorStackSize s \<le> OPERATOR_STACK"

lemma PushOperand_room: "stacks_ok s \<Longrightarrow> length (operands s) < OPERAND_STACK \<Longrightarrow>
  \<exists>s'. PushOperand x s = Inr (True, s') \<and> operands s' = operands s @ [x] \<and> operators s' = operators s \<and>
       symbolTable s' = symbolTable s \<and> stacks_ok s'"
  by (auto simp: PushOperand_def stacks_ok_def operands_def operators_def take_push)

lemma PopOperand_top: "stacks_ok s \<Longrightarrow> operands s = xs @ [x] \<Longrightarrow>
  \<exists>s'. PopOperand s = Inr (Some x, s') \<and> operands s' = xs \<and> operators s' = operators s \<and>
       symbolTable s' = symbolTable s \<and> stacks_ok s'"
  using take_pop [of "operandStackSize s" "operandStack s" xs x]
  by (auto simp: PopOperand_def stacks_ok_def operands_def operators_def)

lemma PopOperator_top: "stacks_ok s \<Longrightarrow> operators s = xs @ [x] \<Longrightarrow>
  \<exists>s'. PopOperator s = Inr (Some x, s') \<and> operators s' = xs \<and> operands s' = operands s \<and>
       symbolTable s' = symbolTable s \<and> stacks_ok s' \<and> operandStack s' = operandStack s \<and>
       operandStackSize s' = operandStackSize s"
  using take_pop [of "operatorStackSize s" "operatorStack s" xs x]
  by (auto simp: PopOperator_def stacks_ok_def operands_def operators_def)

interpretation opnd: bounded_stack operands OPERAND_STACK stacks_ok PushOperand PopOperand
proof
  fix s :: "'a asmst_scheme" and x :: Operand and xs
  show "stacks_ok s \<Longrightarrow> length (operands s) \<le> OPERAND_STACK" by (simp add: stacks_ok_def operands_def)
  show "stacks_ok s \<Longrightarrow> length (operands s) = OPERAND_STACK \<Longrightarrow> PushOperand x s = Inl Exited"
    by (simp add: PushOperand_def stacks_ok_def operands_def)
  show "stacks_ok s \<Longrightarrow> length (operands s) < OPERAND_STACK \<Longrightarrow>
    \<exists>s'. PushOperand x s = Inr (True, s') \<and> operands s' = operands s @ [x] \<and> stacks_ok s'"
    using PushOperand_room [of s x] by blast
  show "stacks_ok s \<Longrightarrow> operands s = xs @ [x] \<Longrightarrow>
    \<exists>s'. PopOperand s = Inr (Some x, s') \<and> operands s' = xs \<and> stacks_ok s'"
    using PopOperand_top [of s xs x] by blast
next
  fix s s' :: "'a asmst_scheme" and y
  show "stacks_ok s \<Longrightarrow> operands s = [] \<Longrightarrow> PopOperand s = Inr (y, s') \<Longrightarrow> y = None \<and> operands s' = [] \<and> stacks_ok s'"
    by (auto simp: PopOperand_def stacks_ok_def operands_def bind_r_eq_Inr OPERAND_STACK_def split: if_splits)
qed

interpretation oprs: bounded_stack operators OPERATOR_STACK stacks_ok PushOperator PopOperator
proof
  fix s :: "'a asmst_scheme" and x :: OprId and xs
  show "stacks_ok s \<Longrightarrow> length (operators s) \<le> OPERATOR_STACK" by (simp add: stacks_ok_def operators_def)
  show "stacks_ok s \<Longrightarrow> length (operators s) = OPERATOR_STACK \<Longrightarrow> PushOperator x s = Inl Exited"
    by (simp add: PushOperator_def stacks_ok_def operators_def)
  show "stacks_ok s \<Longrightarrow> length (operators s) < OPERATOR_STACK \<Longrightarrow>
    \<exists>s'. PushOperator x s = Inr (True, s') \<and> operators s' = operators s @ [x] \<and> stacks_ok s'"
    by (auto simp: PushOperator_def stacks_ok_def operators_def take_push)
  show "stacks_ok s \<Longrightarrow> operators s = xs @ [x] \<Longrightarrow>
    \<exists>s'. PopOperator s = Inr (Some x, s') \<and> operators s' = xs \<and> stacks_ok s'"
    using PopOperator_top [of s xs x] by blast
next
  fix s s' :: "'a asmst_scheme" and y
  show "stacks_ok s \<Longrightarrow> operators s = [] \<Longrightarrow> PopOperator s = Inr (y, s') \<Longrightarrow> y = None \<and> operators s' = [] \<and> stacks_ok s'"
    by (auto simp: PopOperator_def stacks_ok_def operators_def bind_r_eq_Inr OPERATOR_STACK_def split: if_splits)
qed


section \<open>Evaluation\<close>

text \<open>
  A chain of operators without precedence, evaluated from the right, as the stacks do it.
\<close>

fun eval_right :: "i32 \<Rightarrow> (OprId \<times> i32) list \<Rightarrow> i32 result" where
  "eval_right a [] = Inr a"
| "eval_right a ((opr, b) # xs) = bind_r (eval_right b xs) (\<lambda>v. the (opr_arith opr a v))"

definition arith_opr :: "OprId \<Rightarrow> bool" where
  "arith_opr opr \<longleftrightarrow> opr \<in> set [OprPL, OprMI, OprTI, OprDI, OprAND, OprOR, OprXOR, OprLSH, OprRSH]"

lemma arith_oprD: "arith_opr opr \<Longrightarrow> opr_test opr l r = None \<and> opr_arith opr x y \<noteq> None"
  by (auto simp: arith_opr_def opr_test_def opr_arith_def)

lemma expr_step_arith:
  assumes "stacks_ok s" "operands s = os @ [lit_operand l, lit_operand r]" "arith_opr opr"
  shows "case the (opr_arith opr l r) of
      Inl e \<Rightarrow> expr_step opr s = Inl e
    | Inr v \<Rightarrow> \<exists>s'. expr_step opr s = Inr (Inr (), s') \<and> stacks_ok s' \<and> operands s' = os @ [lit_operand v] \<and>
        operators s' = operators s"
proof -
  obtain s1 where s1: "PopOperand s = Inr (Some (lit_operand r), s1)" "operands s1 = os @ [lit_operand l]"
      "operators s1 = operators s" "stacks_ok s1"
    using PopOperand_top [OF assms(1), of "os @ [lit_operand l]" "lit_operand r"] assms(2) by auto
  obtain s2 where s2: "PopOperand s1 = Inr (Some (lit_operand l), s2)" "operands s2 = os"
      "operators s2 = operators s" "stacks_ok s2"
    using PopOperand_top [OF s1(4,2)] s1(3) by auto
  have room: "length (operands s2) < OPERAND_STACK"
    using opnd.bounded [OF assms(1)] assms(2) s2(2) by simp
  have val: "GetValue (lit_operand x) s2 = x" for x by (simp add: GetValue_def lit_operand_def)
  have "expr_step opr s = bind_r (the (opr_arith opr l r)) (\<lambda>v. expr_push (lit_operand v) s2)"
    using arith_oprD [OF assms(3)] by (simp add: expr_step_def expr_binary_def s1(1) s2(1) val)
  with PushOperand_room [OF s2(4) room] s2(2,3) show ?thesis
    by (auto simp: expr_push_def split: sum.splits) (metis bind_r_simps(2) case_prod_conv)
qed

lemma eval_right_snoc:
  "eval_right a (xs @ [(o1, b), (o2, c)]) =
     bind_r (the (opr_arith o2 b c)) (\<lambda>v. eval_right a (xs @ [(o1, v)]))"
proof (induction xs arbitrary: a)
  case (Cons x xs)
  then show ?case by (cases x, cases "the (opr_arith o2 b c)") auto
qed auto

text \<open>The operands of a chain and its value when the last step is done first.\<close>

lemma chain_step:
  assumes "xs = ys @ [(opr, c)]"
  shows "\<exists>os l zs. map lit_operand (a # map snd xs) = os @ [lit_operand l, lit_operand c] \<and>
     eval_right a xs = bind_r (the (opr_arith opr l c)) (\<lambda>v. eval_right (fst (zs v)) (snd (zs v))) \<and>
     (\<forall>v. os @ [lit_operand v] = map lit_operand (fst (zs v) # map snd (snd (zs v))) \<and> map fst (snd (zs v)) = map fst ys)"
proof (cases ys rule: rev_cases)
  case Nil
  with assms show ?thesis
    by (intro exI [of _ "[]"] exI [of _ a] exI [of _ "\<lambda>v. (v, [])"]) (auto split: sum.splits simp: bind_r_def)
next
  case (snoc ws w)
  obtain o1 b where w: "w = (o1, b)" by fastforce
  show ?thesis
    using assms snoc w eval_right_snoc [of a ws o1 b opr c]
    by (intro exI [of _ "map lit_operand (a # map snd ws)"] exI [of _ b] exI [of _ "\<lambda>v. (a, ws @ [(o1, v)])"]) auto
qed

lemma DoExpression_chain:
  assumes "stacks_ok s" "operators s = ps @ OprPOP # map fst xs"
    and "operands s = map lit_operand (a # map snd xs)" "\<forall>opr \<in> set (map fst xs). arith_opr opr"
  shows "case eval_right a xs of Inl e \<Rightarrow> DoExpression s = Inl e
    | Inr v \<Rightarrow> \<exists>s'. DoExpression s = Inr (v, s') \<and> operands s' = [] \<and> operators s' = ps \<and> stacks_ok s'"
  using assms
proof (induction "length xs" arbitrary: xs a s)
  case 0
  obtain s1 where s1: "PopOperator s = Inr (Some OprPOP, s1)" "operators s1 = ps" "operands s1 = [] @ [lit_operand a]"
      "stacks_ok s1"
    using PopOperator_top [of s ps OprPOP] 0 by auto
  obtain s2 where "PopOperand s1 = Inr (Some (lit_operand a), s2)" "operands s2 = []" "operators s2 = ps" "stacks_ok s2"
    using PopOperand_top [OF s1(4,3)] s1(2) by auto
  with s1 0 show ?case
    by (simp add: DoExpression.simps [of s] expr_step_def opr_test_def opr_arith_def opr_unary_def expr_unary_def lit_operand_def)
next
  case (Suc n)
  then obtain ys opr c where xs: "xs = ys @ [(opr, c)]" by (cases xs rule: rev_cases) auto
  obtain os l zs where ch: "map lit_operand (a # map snd xs) = os @ [lit_operand l, lit_operand c]"
     "eval_right a xs = bind_r (the (opr_arith opr l c)) (\<lambda>v. eval_right (fst (zs v)) (snd (zs v)))"
     "\<And>v. os @ [lit_operand v] = map lit_operand (fst (zs v) # map snd (snd (zs v)))" "\<And>v. map fst (snd (zs v)) = map fst ys"
    using chain_step [OF xs, of a] by blast
  obtain s1 where s1: "PopOperator s = Inr (Some opr, s1)" "operators s1 = ps @ OprPOP # map fst ys"
      "operands s1 = os @ [lit_operand l, lit_operand c]" "stacks_ok s1"
    using PopOperator_top [of s "ps @ OprPOP # map fst ys" opr] Suc.prems ch(1) xs by auto
  have ar: "arith_opr opr" using Suc.prems(4) xs by simp
  note st = expr_step_arith [OF s1(4,3) ar]
  show ?case
  proof (cases "the (opr_arith opr l c)")
    case (Inl e)
    with st show ?thesis by (simp add: ch(2) DoExpression.simps [of s] s1(1))
  next
    case (Inr v)
    with st obtain s2 where s2: "expr_step opr s1 = Inr (Inr (), s2)" "stacks_ok s2"
        "operands s2 = os @ [lit_operand v]" "operators s2 = operators s1" by auto
    have len: "n = length (snd (zs v))"
      using arg_cong [OF ch(4) [of v], of length] Suc.hyps(2) xs by simp
    have D: "DoExpression s = DoExpression s2" by (simp add: DoExpression.simps [of s] s1(1) s2(1))
    show ?thesis
      unfolding ch(2) Inr bind_r_simps D
      using Suc.prems(4) xs
      by (intro Suc.hyps(1) [OF len s2(2)]) (auto simp: s2 s1(2) ch(3,4) [of v])
  qed
qed

lemma expr_step_STM:
  "operandStackSize s < length (operandStack s) \<Longrightarrow>
   expr_step OprSTM s = Inr (Inl (O_LiteralValue (operandStack s ! operandStackSize s)), s)"
  by (simp add: expr_step_def opr_test_def opr_arith_def opr_unary_def)

lemma DoExpression_stale:
  assumes "stacks_ok s" "operators s = ps @ [OprSTM, opr]" "operands s = [lit_operand l, lit_operand r]"
    and "arith_opr opr" "opr_arith opr l r = Some (Inr v)"
  shows "\<exists>s'. DoExpression s = Inr (r, s')"
proof -
  obtain s1 where s1: "PopOperator s = Inr (Some opr, s1)" "operators s1 = ps @ [OprSTM]"
      "operandStack s1 = operandStack s" "operandStackSize s1 = operandStackSize s" "stacks_ok s1"
    using PopOperator_top [OF assms(1), of "ps @ [OprSTM]" opr] assms(2) by auto
  have size: "operandStackSize s = 2"
    using arg_cong [OF assms(3), of length] assms(1) by (simp add: operands_def stacks_ok_def)
  have len: "length (operandStack s) = 64" using assms(1) by (simp add: stacks_ok_def OPERAND_STACK_def)
  have slot: "operandStack s ! 0 = lit_operand l" "operandStack s ! 1 = lit_operand r"
    using assms(3) nth_take [of 0 2 "operandStack s"] nth_take [of 1 2 "operandStack s"]
    by (simp_all add: operands_def size)
  define s2 where "s2 = s1\<lparr>operandStack := (operandStack s)[0 := lit_operand v], operandStackSize := 1\<rparr>"
  have st: "expr_step opr s1 = Inr (Inr (), s2)"
    using arith_oprD [OF assms(4)] assms(5) slot
    by (simp add: expr_step_def expr_binary_def PopOperand_def s1(3,4) size expr_push_def PushOperand_def
        OPERAND_STACK_def GetValue_def lit_operand_def s2_def)
  have "stacks_ok s2" "operators s2 = ps @ [OprSTM]"
    using s1(2,5) by (simp_all add: s2_def stacks_ok_def operators_def len OPERAND_STACK_def)
  then obtain s3 where s3: "PopOperator s2 = Inr (Some OprSTM, s3)" "operandStack s3 = operandStack s2"
      "operandStackSize s3 = operandStackSize s2"
    using PopOperator_top [of s2 ps OprSTM] by auto
  have "operandStack s3 ! operandStackSize s3 = lit_operand r" "operandStackSize s3 < length (operandStack s3)"
    using slot len by (simp_all add: s3(2,3) s2_def)
  then have "expr_step OprSTM s3 = Inr (Inl r, s3)" by (simp add: expr_step_STM lit_operand_def)
  then have "DoExpression s2 = Inr (r, s3)" by (simp add: DoExpression.simps [of s2] s3(1))
  moreover have "DoExpression s = DoExpression s2" by (simp add: DoExpression.simps [of s] s1(1) st)
  ultimately show ?thesis by simp
qed

section \<open>Properties\<close>

definition asm0 :: asmst where
  "asm0 = \<lparr>error_count = 0, stderr_text = [], symbolTable = [],
     operandStack = replicate OPERAND_STACK (lit_operand 0), operandStackSize = 0,
     operatorStack = replicate OPERATOR_STACK OprNOOP, operatorStackSize = 0\<rparr>"

definition ex_expr :: "OprId \<Rightarrow> OprId \<Rightarrow> i32 \<Rightarrow> i32 \<Rightarrow> asmst" where
  "ex_expr first opr l r =
     asm0\<lparr>operandStack := (operandStack asm0)[0 := lit_operand l, 1 := lit_operand r], operandStackSize := 2,
          operatorStack := (operatorStack asm0)[0 := first, 1 := opr], operatorStackSize := 2\<rparr>"

lemma ex_expr_stacks: "stacks_ok (ex_expr first opr l r)" "operators (ex_expr first opr l r) = [first, opr]"
  "operands (ex_expr first opr l r) = [lit_operand l, lit_operand r]"
  by (simp_all add: ex_expr_def asm0_def stacks_ok_def operators_def operands_def OPERAND_STACK_def OPERATOR_STACK_def
      numeral_eq_Suc)

text \<open>
  with the operator ; at the bottom of a chain of arithmetic operators over literals,
  the expression evaluator returns the value of the chain evaluated from the right, and
  faults exactly when that evaluation does (division by zero, shift out of range); both
  stacks end as they were before the chain.
\<close>

lemma DoExpression_evaluates:
  assumes "stacks_ok s" "operators s = ps @ OprPOP # map fst xs"
    and "operands s = map lit_operand (a # map snd xs)" "\<forall>opr \<in> set (map fst xs). arith_opr opr"
  shows "case eval_right a xs of Inl e \<Rightarrow> DoExpression s = Inl e
    | Inr v \<Rightarrow> \<exists>s'. DoExpression s = Inr (v, s') \<and> operands s' = [] \<and> operators s' = ps \<and> stacks_ok s'"
  using assms by (rule DoExpression_chain)

lemma DoExpression_evaluates_witness:
  "(\<exists>s'. DoExpression (ex_expr OprPOP OprMI 7 3) = Inr (4, s')) \<and>
   DoExpression (ex_expr OprPOP OprDI 7 0) = Inl Bad_arith"
  using DoExpression_evaluates [of "ex_expr OprPOP OprMI 7 3" "[]" "[(OprMI, 3)]" 7]
    DoExpression_evaluates [of "ex_expr OprPOP OprDI 7 0" "[]" "[(OprDI, 0)]" 7]
  by (auto simp: ex_expr_stacks arith_opr_def opr_arith_def c_div_def)

text \<open>
  A parenthesised operation does not return its result. The opening parenthesis stacks
  the operator -> , and evaluating that reads the slot above the top of the operand stack,
  where the right operand was: (l op r) yields r.
\<close>

lemma DoExpression_paren_returns_right:
  assumes "stacks_ok s" "operators s = ps @ [OprSTM, opr]" "operands s = [lit_operand l, lit_operand r]"
    and "arith_opr opr" "opr_arith opr l r = Some (Inr v)"
  shows "\<exists>s'. DoExpression s = Inr (r, s')"
  using assms by (rule DoExpression_stale)

lemma DoExpression_paren_returns_right_witness:
  "\<exists>s'. DoExpression (ex_expr OprSTM OprPL 2 3) = Inr (3, s')"
  by (rule DoExpression_paren_returns_right [of _ "[]" OprPL 2 3 5])
    (simp_all add: ex_expr_stacks arith_opr_def opr_arith_def)

text \<open>
  both expression stacks are bounded and last-in first-out: below the capacity a pop
  gives back what was pushed and the stack below it, at the capacity a push ends the
  program.
\<close>

lemma stacks_lifo:
  assumes "stacks_ok s"
  shows "(if length (operands s) < OPERAND_STACK
          then \<exists>s1 s2. PushOperand x s = Inr (True, s1) \<and> PopOperand s1 = Inr (Some x, s2) \<and> operands s2 = operands s
          else PushOperand x s = Inl Exited) \<and>
         (if length (operators s) < OPERATOR_STACK
          then \<exists>s1 s2. PushOperator y s = Inr (True, s1) \<and> PopOperator s1 = Inr (Some y, s2) \<and> operators s2 = operators s
          else PushOperator y s = Inl Exited)"
proof -
  have "\<exists>s1 s2. PushOperand x s = Inr (True, s1) \<and> PopOperand s1 = Inr (Some x, s2) \<and> operands s2 = operands s"
    if "length (operands s) < OPERAND_STACK"
    using opnd.push_room [OF assms that, of x] opnd.pop_top by blast
  moreover have "\<exists>s1 s2. PushOperator y s = Inr (True, s1) \<and> PopOperator s1 = Inr (Some y, s2) \<and> operators s2 = operators s"
    if "length (operators s) < OPERATOR_STACK"
    using oprs.push_room [OF assms that, of y] oprs.pop_top by blast
  ultimately show ?thesis
    using opnd.push_full [OF assms, of x] opnd.bounded [OF assms] oprs.push_full [OF assms, of y] oprs.bounded [OF assms]
    by auto
qed

lemma stacks_lifo_witness:
  "stacks_ok asm0 \<and> (\<exists>s1 s2. PushOperand (lit_operand 5) asm0 = Inr (True, s1) \<and>
     PopOperand s1 = Inr (Some (lit_operand 5), s2) \<and> operands s2 = [])"
proof -
  have ok: "stacks_ok asm0" "operands asm0 = []" by (simp_all add: asm0_def stacks_ok_def operands_def)
  with stacks_lifo [OF ok(1), of "lit_operand 5" OprPL] show ?thesis by (simp add: OPERAND_STACK_def)
qed

end
