(* ===== verification/Mtt_Asm.thy ===== *)
theory Mtt_Asm
  imports Mtt_Expr
begin

text \<open>
  The assembler (mttn/tools/asm.c): the syntax check \<open>GetConfirm\<close>, \<open>Assemble\<close> with one
  definition per atom type, the second pass over forward references, the assembling part of
  \<open>main\<close> from source text to object file, and \<open>DisAssemble\<close>. The program is the array that
  \<open>main\<close> allocates with one instruction per source line; \<open>inst\<close> is an index into it. Then
  well-formedness of the assembler's tables and what a line assembles to.
\<close>

section \<open>State\<close>

definition FORWARD_REFS :: nat where "FORWARD_REFS = 100"

record asmrun = asmst +
  stdout_text :: string
  forward :: "(nat \<times> nat) list"
  X_code :: ProgramBuf
  X_pc :: i32
  X_index :: nat
  X_inst :: nat
  X_patom :: "Atom option"
  expect_lit :: bool
  expect_sr1 :: bool
  expect_sr2 :: bool
  expect_dst :: bool

definition zero_inst :: Instruction where
  "zero_inst = \<lparr>I_Dest = 0, I_Src2 = 0, I_Number = 0, I_Crc = 0, I_Src1 = 0\<rparr>"

definition get_inst :: "asmrun \<Rightarrow> Instruction result" where
  "get_inst s = arr_get (Program (X_code s)) (int (X_inst s))"

definition set_inst :: "(Instruction \<Rightarrow> Instruction) \<Rightarrow> asmrun \<Rightarrow> asmrun result" where
  "set_inst f s =
     bind_r (get_inst s) (\<lambda>inst.
       Inr (s\<lparr>X_code := (X_code s)\<lparr>Program := (Program (X_code s))[X_inst s := f inst]\<rparr>\<rparr>))"

definition out_if :: "bool \<Rightarrow> string \<Rightarrow> asmrun \<Rightarrow> asmrun" where
  "out_if b t s = (if b then s\<lparr>stdout_text := stdout_text s @ t\<rparr> else s)"

section \<open>Syntax check\<close>

definition CompareAtomTypes :: "AtomType \<Rightarrow> AtomType \<Rightarrow> bool" where
  "CompareAtomTypes x y \<longleftrightarrow>
     x = y \<or> x = Not_set \<or> y = Not_set \<or>
     x = Expression \<and> (y = Numeric \<or> y = Alpha) \<or> y = Expression \<and> (x = Numeric \<or> x = Alpha) \<or>
     x = Seperator \<and> y = Comment \<or> y = Seperator \<and> x = Comment"

text \<open>
  The atom pointer of \<open>GetConfirm\<close> is the list from that atom on. It stays on the last atom
  when there is no next one.
\<close>

fun skip_seps :: "Atom list \<Rightarrow> Atom list" where
  "skip_seps [] = []"
| "skip_seps (a # r) = (if CompareAtomTypes (A_Type a) Seperator \<and> r \<noteq> [] then skip_seps r else a # r)"

fun next_arg :: "Atom list \<Rightarrow> Atom list" where
  "next_arg (a # b # r) = (if CompareAtomTypes (A_Type b) Seperator then next_arg (b # r) else b # r)"
| "next_arg l = l"

definition confirm_arg :: "bool \<Rightarrow> AtomType \<Rightarrow> string \<Rightarrow> bool \<times> Atom list \<Rightarrow> 'a errs_scheme \<Rightarrow>
    ((bool \<times> Atom list) \<times> 'a errs_scheme) result" where
  "confirm_arg expect a text p s =
     (if fst p \<and> expect
      then (if CompareAtomTypes (A_Type (hd (snd p))) a then Inr ((True, next_arg (snd p)), s)
            else bind_r (Error SYNTAX (Some (hd (snd p))) text s) (\<lambda>s'. Inr ((False, snd p), s')))
      else Inr (p, s))"

text \<open>\<open>GetConfirm\<close> on the atoms from the opcode on; its result is the first component.\<close>

definition GetConfirm :: "Atom list \<Rightarrow> OpCode \<Rightarrow> asmrun \<Rightarrow> (bool \<times> asmrun) result" where
  "GetConfirm atoms opcd s =
     (let s0 = s\<lparr>expect_sr1 := (Op_Src1 opcd = AtRegister), expect_sr2 := (Op_Src2 opcd = AtRegister),
                 expect_lit := (Op_Src1 opcd = AtLiteral \<or> Op_Src1 opcd = AtAddress),
                 expect_dst := (Op_Dest opcd = AtRegister)\<rparr>;
          l = skip_seps (if tl atoms = [] then atoms else tl atoms)
      in bind_r (confirm_arg (expect_lit s0) Expression ''Expected: Symbol or literal value'' (True, l) s0) (\<lambda>(p1, s1).
         bind_r (confirm_arg (expect_sr1 s0) Register ''Expected: Register'' p1 s1) (\<lambda>(p2, s2).
         bind_r (confirm_arg (expect_sr2 s0) Register ''Expected: Register'' p2 s2) (\<lambda>(p3, s3).
         bind_r (confirm_arg (expect_dst s0) Register ''Expected: Register'' p3 s3) (\<lambda>(p4, s4).
           Inr (fst p4, s4))))))"

section \<open>Assemble\<close>

text \<open>Each case: False when \<open>Assemble\<close> returns at once, and the new state.\<close>

type_synonym asm_step = "(bool \<times> asmrun) result"

definition asm_numeric :: "bool \<Rightarrow> Atom \<Rightarrow> asmrun \<Rightarrow> asm_step" where
  "asm_numeric listing atom s =
     bind_r (if expect_lit s
             then bind_r (set_inst (\<lambda>i. i\<lparr>I_Src1 := A_Value atom\<rparr>) s) (\<lambda>s'. Inr (True, s'\<lparr>expect_lit := False\<rparr>))
             else PushOperand (lit_operand (A_Value atom)) s) (\<lambda>(go, s1).
       Inr (go, if go then out_if listing ('' 0x'' @ fmt_x (A_Value atom)) s1 else s1))"

definition add_forward :: "Atom \<Rightarrow> nat \<Rightarrow> asmrun \<Rightarrow> asmrun result" where
  "add_forward atom symb s =
     (let s' = s\<lparr>forward := forward s @ [(X_inst s, symb)]\<rparr> in
      if FORWARD_REFS \<le> length (forward s') then Error FATAL_RUN_TIME (Some atom) (''Too many forward references'' @ nl) s'
      else Inr s')"

definition asm_alpha :: "bool \<Rightarrow> Atom \<Rightarrow> asmrun \<Rightarrow> asm_step" where
  "asm_alpha listing atom s =
     (case A_Text atom of
        None \<Rightarrow> Inl Out_of_bounds
      | Some name \<Rightarrow>
          bind_r (GetSymbol name s) (\<lambda>(symb, s1).
          bind_r (if expect_lit s1
                  then bind_r (set_inst (\<lambda>i. i\<lparr>I_Src1 := sym_value symb s1\<rparr>) s1) (\<lambda>s2.
                       bind_r (if sym_value symb s1 = 0 then add_forward atom symb (s2\<lparr>expect_lit := False\<rparr>)
                               else Inr (s2\<lparr>expect_lit := False\<rparr>)) (\<lambda>s3. Inr (True, s3)))
                  else PushOperand \<lparr>O_SymbolRef = Some symb, O_LiteralValue = 0\<rparr> s1) (\<lambda>(go, s4).
            Inr (go, if go then out_if listing ('' '' @ name) s4 else s4))))"

definition asm_label :: "Atom \<Rightarrow> asmrun \<Rightarrow> asmrun result" where
  "asm_label atom s =
     (case X_patom s of
        None \<Rightarrow> Inl Uninitialised
      | Some patom \<Rightarrow>
          if A_Type patom = Alpha
          then (case A_Text patom of
                  None \<Rightarrow> Inl Out_of_bounds
                | Some name \<Rightarrow>
                    bind_r (GetSymbol name s) (\<lambda>(symb, s1).
                    bind_r (if sym_value symb s1 \<noteq> 0
                            then Error SYNTAX (Some (atom\<lparr>A_Text := A_Text patom\<rparr>)) ''Label: double definition'' s1
                            else Inr s1) (\<lambda>s2. Inr (set_sym symb (X_pc s2) True s2))))
          else if A_Type patom = Numeric
          then (if X_pc s = 0
                then Inr (s\<lparr>X_pc := A_Value patom, X_code := (X_code s)\<lparr>LoadAddress := A_Value patom\<rparr>\<rparr>)
                else Error SYNTAX (Some atom) ''Code block must be contiguous, one start address only'' s)
          else Inr s)"

definition opr_row :: "i32 \<Rightarrow> (OprId \<times> string) result" where
  "opr_row v = bind_r (arr_get OprNames (sint v)) (\<lambda>(i, name, help). Inr (i, name))"

definition asm_operator :: "bool \<Rightarrow> Atom \<Rightarrow> asmrun \<Rightarrow> asm_step" where
  "asm_operator listing atom s =
     bind_r (opr_row (A_Value atom)) (\<lambda>(oprId, name).
     bind_r (if oprId = OprLBL then bind_r (asm_label atom s) (\<lambda>s'. Inr (True, s')) else PushOperator oprId s) (\<lambda>(go, s1).
       Inr (go, if go
                then out_if (listing \<and> oprId = OprLBL) (nl @ ''         Pc:'' @ fmt_0X 4 (X_pc s1) @ [CHR 0x09])
                       (out_if listing ('' '' @ name) s1)
                else s1)))"

definition asm_opcode :: "bool \<Rightarrow> Atom list \<Rightarrow> asmrun \<Rightarrow> asm_step" where
  "asm_opcode listing atoms s =
     bind_r (set_inst (\<lambda>i. zero_inst) (s\<lparr>X_inst := X_index s\<rparr>)) (\<lambda>s1.
     bind_r (arr_get InstructionSet (sint (A_Value (hd atoms)))) (\<lambda>opcd.
     bind_r (GetConfirm atoms opcd s1) (\<lambda>(ok, s2).
     bind_r (set_inst (\<lambda>i. i\<lparr>I_Number := Op_Number opcd\<rparr>) s2) (\<lambda>s3.
       Inr (True, (out_if listing ([CHR 0x09, CHR 0x09] @ Op_Name opcd) s3)
         \<lparr>X_pc := X_pc s3 + 1, X_index := X_index s3 + 1,
          X_code := (X_code s3)\<lparr>InstructionCount := of_nat (X_index s3 + 1)\<rparr>\<rparr>)))))"

definition asm_register :: "bool \<Rightarrow> Atom \<Rightarrow> asmrun \<Rightarrow> asm_step" where
  "asm_register listing atom s =
     bind_r (if expect_sr1 s
             then bind_r (set_inst (\<lambda>i. i\<lparr>I_Src1 := A_Value atom\<rparr>) s) (\<lambda>s'. Inr (s'\<lparr>expect_sr1 := False\<rparr>))
             else if expect_sr2 s
             then bind_r (set_inst (\<lambda>i. i\<lparr>I_Src2 := ucast (A_Value atom)\<rparr>) s) (\<lambda>s'. Inr (s'\<lparr>expect_sr2 := False\<rparr>))
             else if expect_dst s
             then bind_r (set_inst (\<lambda>i. i\<lparr>I_Dest := ucast (A_Value atom)\<rparr>) s) (\<lambda>s'. Inr (s'\<lparr>expect_dst := False\<rparr>))
             else Inr s) (\<lambda>s1.
       Inr (True, out_if listing ('' '' @ GetRegisterName (sint (A_Value atom))) s1))"

definition asm_open :: "bool \<Rightarrow> asmrun \<Rightarrow> asm_step" where
  "asm_open listing s =
     bind_r (PushOperator OprSTM s) (\<lambda>(go, s1).
       Inr (go, if go then out_if listing ''('' (s1\<lparr>expect_lit := False\<rparr>) else s1))"

definition asm_close :: "bool \<Rightarrow> asmrun \<Rightarrow> asm_step" where
  "asm_close listing s =
     bind_r (DoExpression s) (\<lambda>(v, s1).
     bind_r (set_inst (\<lambda>i. i\<lparr>I_Src1 := v\<rparr>) s1) (\<lambda>s2.
       Inr (True, out_if listing '' )'' (s2\<lparr>expect_lit := False\<rparr>))))"

definition asm_seperator :: "bool \<Rightarrow> Atom \<Rightarrow> asmrun \<Rightarrow> asm_step" where
  "asm_seperator listing atom s =
     (let s0 = ResetStacks s in
      bind_r (if expect_lit s0
              then bind_r (Error SYNTAX (Some atom) ''Unexpected seperator'' s0) (\<lambda>s'. Inr (s'\<lparr>expect_lit := False\<rparr>))
              else Inr s0) (\<lambda>s1.
        let t = (case A_Text atom of None \<Rightarrow> [] | Some t \<Rightarrow> if t = [] then [] else [CHR 0x09] @ '' % '' @ t @ '' %'');
            ln = ''Ln:'' @ fmt_0d 3 (of_nat (A_LineNumber atom) + 1);
            l = (if A_LineNumber atom = 0 then []
                 else if X_pc s1 \<noteq> 0 then nl @ ln @ '' - Pc:'' @ fmt_0X 4 (X_pc s1) @ [CHR 0x09]
                 else nl @ ln @ [CHR 0x09, CHR 0x09])
        in Inr (True, out_if listing (t @ l) s1)))"

definition asm_comment :: "bool \<Rightarrow> Atom \<Rightarrow> asmrun \<Rightarrow> asm_step" where
  "asm_comment listing atom s =
     Inr (True, case A_Text atom of None \<Rightarrow> s | Some t \<Rightarrow> out_if listing ([CHR 0x09] @ ''% '' @ t @ '' %'') s)"

definition asm_atom :: "bool \<Rightarrow> Atom list \<Rightarrow> asmrun \<Rightarrow> asm_step" where
  "asm_atom listing atoms s =
     (let atom = hd atoms in
      case A_Type atom of
        Numeric \<Rightarrow> asm_numeric listing atom s
      | Alpha \<Rightarrow> asm_alpha listing atom s
      | Operator \<Rightarrow> asm_operator listing atom s
      | Op_code \<Rightarrow> asm_opcode listing atoms s
      | Register \<Rightarrow> asm_register listing atom s
      | Open \<Rightarrow> asm_open listing s
      | Open_index \<Rightarrow> asm_open listing s
      | Close \<Rightarrow> asm_close listing s
      | Close_index \<Rightarrow> asm_close listing s
      | Seperator \<Rightarrow> asm_seperator listing atom s
      | Comment \<Rightarrow> asm_comment listing atom s
      | _ \<Rightarrow> Inr (True, s))"

fun asm_loop :: "bool \<Rightarrow> Atom list \<Rightarrow> asmrun \<Rightarrow> (bool \<times> asmrun) result" where
  "asm_loop listing [] s = Inr (True, s)"
| "asm_loop listing (a # rest) s =
     bind_r (asm_atom listing (a # rest) s) (\<lambda>(go, s1).
       if go then asm_loop listing rest (s1\<lparr>X_patom := Some a\<rparr>) else Inr (False, s1))"

definition symbol_line :: "Symbol \<Rightarrow> string" where
  "symbol_line y =
     (if S_Defined y
      then S_Name y @ [CHR 0x09] @ ''= '' @ fmt_d (S_Value y) @ '' '' @ [CHR 0x09] @ ''[0x'' @ fmt_x (S_Value y) @ '']'' @ nl
      else S_Name y @ [CHR 0x09] @ ''*** UNDEFINED SYMBOL ***'' @ nl)"

definition asm_symbols :: "asmrun \<Rightarrow> string" where
  "asm_symbols s =
     nl @ [CHR 0x09, CHR 0x09] @ ''---Symbol Table---'' @ nl @ nl @ concat (map symbol_line (symbolTable s)) @
     nl @ [CHR 0x09, CHR 0x09] @ ''---Symbol Table Size: '' @ fmt_d (of_nat (length (symbolTable s))) @ '' total---'' @ nl @ nl"

text \<open>\<open>Assemble\<close> returns the error count, which is in the state.\<close>

definition Assemble :: "nat \<Rightarrow> string \<Rightarrow> bool \<Rightarrow> asmrun \<Rightarrow> asmrun result" where
  "Assemble st_size text listing s =
     bind_r (GetAtoms st_size text s) (\<lambda>(atoms, s0).
       case atoms of
         None \<Rightarrow> Error FATAL_SYNTAX None ''Null buffer, or garbage source code'' s0
       | Some l \<Rightarrow>
           bind_r (set_inst (\<lambda>i. zero_inst) (s0\<lparr>X_pc := 0, X_index := 0, X_inst := 0, X_patom := None,
               expect_lit := False, expect_sr1 := False, expect_sr2 := False, expect_dst := False\<rparr>)) (\<lambda>s1.
           bind_r (asm_loop listing l (out_if True (nl @ ''Ln:'' @ fmt_0d 3 (of_nat (A_LineNumber (hd l))) @
               [CHR 0x09, CHR 0x09]) s1)) (\<lambda>(fin, s2).
             Inr (out_if (listing \<and> fin) (asm_symbols s2) s2))))"

section \<open>From source to object file\<close>

definition asm_start :: "ProgramBuf \<Rightarrow> asmrun" where
  "asm_start prog =
     \<lparr>error_count = 0, stderr_text = [], symbolTable = [],
      operandStack = replicate OPERAND_STACK (lit_operand 0), operandStackSize = 0,
      operatorStack = replicate OPERATOR_STACK OprNOOP, operatorStackSize = 0,
      stdout_text = [], forward = [], X_code = prog, X_pc = 0, X_index = 0, X_inst = 0, X_patom = None,
      expect_lit = False, expect_sr1 = False, expect_sr2 = False, expect_dst = False\<rparr>"

text \<open>The source buffer, 16 bytes longer than the file and zeroed, and the line count.\<close>

definition source_text :: "string \<Rightarrow> string" where
  "source_text file = takeWhile (\<lambda>c. c \<noteq> CHR 0xFF \<and> c \<noteq> CHR 0x00) file"

definition source_buffer :: "string \<Rightarrow> string" where
  "source_buffer file =
     source_text file @ replicate (length file + 16 - length (source_text file)) (CHR 0x00)"

definition source_lines :: "string \<Rightarrow> nat" where
  "source_lines file = length (filter (\<lambda>c. c = CHR 0x0A) (source_text file))"

fun pass2 :: "(nat \<times> nat) list \<Rightarrow> Symbol list \<Rightarrow> Instruction list \<Rightarrow> Instruction list" where
  "pass2 [] syms prog = prog"
| "pass2 ((i, y) # fs) syms prog = pass2 fs syms (prog[i := (prog ! i)\<lparr>I_Src1 := S_Value (syms ! y)\<rparr>])"

text \<open>
  The assembling branch of \<open>main\<close>: the state at the end and the object file. \<open>malloc\<close> gives the
  contents of the program array; its result is not checked (the test repeats the one for the
  source), the second pass is skipped when there were errors, the object is written anyway.
\<close>

definition assemble_file :: "(nat \<Rightarrow> (nat \<Rightarrow> Instruction) option) \<Rightarrow> string \<Rightarrow> (asmrun \<times> string) result" where
  "assemble_file malloc file =
     (if length file < 2 then Inl Exited
      else let n = source_lines file;
               mem = (case malloc (8 * n) of None \<Rightarrow> [] | Some m \<Rightarrow> map m [0..<n]) in
           bind_r (Assemble (length file) (source_buffer file) False
                     (asm_start \<lparr>LoadAddress = 0, InstructionCount = 0, Program = mem\<rparr>)) (\<lambda>s.
             let s' = (if error_count s = 0
                       then s\<lparr>X_code := (X_code s)\<lparr>Program := pass2 (forward s) (symbolTable s) (Program (X_code s))\<rparr>\<rparr>
                       else s)
             in bind_r (WriteObject (X_code s')) (\<lambda>obj. Inr (s', obj))))"

section \<open>DisAssemble\<close>

definition dis_head :: string where
  "dis_head =
     (let l1 = ''       %''; l2 = l1 @ TabTo l1 16 @ ''Src-1''; l3 = l2 @ TabTo l2 28 @ ''Src-2'';
          l4 = l3 @ TabTo l3 36 @ ''Dest'' in l4 @ nl)"

definition dis_line :: "OpCode \<Rightarrow> Instruction \<Rightarrow> i32 \<Rightarrow> i32 \<Rightarrow> string" where
  "dis_line opcd inst adr pc =
     (let l0 = fmt_0X 4 adr @ '':'' @ fmt_0X 3 pc @ '' '' @ Op_Name opcd; l1 = l0 @ TabTo l0 16;
          l2 = l1 @ arg_text (Op_Src1 opcd) (I_Src1 inst); l3 = l2 @ TabTo l2 28;
          l4 = l3 @ arg_text (Op_Src2 opcd) (ucast (I_Src2 inst)); l5 = l4 @ TabTo l4 36;
          l6 = l5 @ arg_text (Op_Dest opcd) (ucast (I_Dest inst))
      in l6 @ TabTo l6 44 @ ''% '' @ Op_Comment opcd @ nl)"

fun dis_insts :: "nat \<Rightarrow> Instruction list \<Rightarrow> i32 \<Rightarrow> i32 \<Rightarrow> string result" where
  "dis_insts 0 prog adr pc = Inr []"
| "dis_insts (Suc n) [] adr pc = Inl Out_of_bounds"
| "dis_insts (Suc n) (inst # prog) adr pc =
     (case find_opcode (I_Number inst) of
        None \<Rightarrow> bind_r (dis_insts n prog adr pc) (\<lambda>out. Inr (''Garbage object file'' @ nl @ out))
      | Some opcd \<Rightarrow> bind_r (dis_insts n prog (adr + 1) (pc + 1)) (\<lambda>out. Inr (dis_line opcd inst adr pc @ out)))"

definition DisAssemble :: "ProgramBuf \<Rightarrow> string result" where
  "DisAssemble code =
     bind_r (dis_insts (unat (InstructionCount code)) (Program code) (LoadAddress code) 0) (\<lambda>out. Inr (dis_head @ out))"

section \<open>The assembler's tables stay well formed\<close>

text \<open>What the shared operations leave alone: the caller's part of the state and the size of the symbol table.\<close>

definition kept :: "'a asmst_scheme \<Rightarrow> 'a asmst_scheme \<Rightarrow> bool" where
  "kept s s' \<longleftrightarrow> asmst.more s' = asmst.more s \<and> length (symbolTable s') = length (symbolTable s)"

lemma kept_refl [simp]: "kept s s"
  by (simp add: kept_def)

lemma kept_trans: "kept s s1 \<Longrightarrow> kept s1 s2 \<Longrightarrow> kept s s2"
  by (simp add: kept_def)

lemma Error_kept: "Error et a t s = Inr s' \<Longrightarrow> kept s s'"
  by (auto simp: Error_def kept_def split: if_splits)

lemma PushOperand_kept: "PushOperand v s = Inr (b, s') \<Longrightarrow> kept s s'"
  by (auto simp: PushOperand_def kept_def split: if_splits)

lemma PushOperator_kept: "PushOperator v s = Inr (b, s') \<Longrightarrow> kept s s'"
  by (auto simp: PushOperator_def kept_def split: if_splits)

lemma PopOperand_kept: "PopOperand s = Inr (v, s') \<Longrightarrow> kept s s'"
  by (auto simp: PopOperand_def bind_r_eq_Inr Error_kept split: if_splits) (simp add: kept_def)

lemma PopOperator_kept: "PopOperator s = Inr (v, s') \<Longrightarrow> kept s s'"
  by (auto simp: PopOperator_def bind_r_eq_Inr Error_kept split: if_splits) (simp add: kept_def)

lemma expr_push_kept: "expr_push v s = Inr (r, s') \<Longrightarrow> kept s s'"
  by (auto simp: expr_push_def bind_r_eq_Inr dest: PushOperand_kept)

lemma set_sym_kept [simp]: "kept s (set_sym i v b s)"
  by (simp add: kept_def set_sym_def)

lemma expr_unary_kept:
  assumes "expr_unary f s = Inr (r, s')" "\<And>l s1 q s2. f l s1 = Inr (q, s2) \<Longrightarrow> kept s1 s2"
  shows "kept s s'"
proof -
  obtain l s1 where p: "PopOperand s = Inr (l, s1)"
    and k: "(case l of None \<Rightarrow> Inr (Inl 0, s1) | Some l \<Rightarrow> f l s1) = Inr (r, s')"
    using assms(1) by (auto simp: expr_unary_def bind_r_eq_Inr)
  have "kept s1 s'" using k assms(2) by (cases l) auto
  with PopOperand_kept [OF p] show ?thesis by (rule kept_trans)
qed

lemma expr_binary_kept:
  assumes "expr_binary f s = Inr (r, s')" "\<And>l x s1 q s2. f l x s1 = Inr (q, s2) \<Longrightarrow> kept s1 s2"
  shows "kept s s'"
proof (rule expr_unary_kept)
  show "expr_unary (\<lambda>x s1. expr_unary (\<lambda>l. f l x) s1) s = Inr (r, s')"
    using assms(1) by (simp add: expr_binary_def expr_unary_def)
  show "kept s1 s2" if "expr_unary (\<lambda>l. f l x) s1 = Inr (q, s2)" for x s1 q s2
    using that assms(2) by (rule expr_unary_kept)
qed

lemma expr_count_kept: "expr_count n d l s = Inr (r, s') \<Longrightarrow> kept s s'"
  by (cases "O_SymbolRef l")
    (auto simp: expr_count_def Let_def bind_r_eq_Inr dest: Error_kept intro: kept_trans [OF set_sym_kept expr_push_kept])

lemma expr_assign_kept: "expr_assign l x s = Inr (r, s') \<Longrightarrow> kept s s'"
  by (cases "O_SymbolRef l")
    (auto simp: expr_assign_def bind_r_eq_Inr dest: Error_kept intro: kept_trans [OF set_sym_kept expr_push_kept])

lemma expr_step_kept:
  assumes "expr_step opr s = Inr (r, s')"
  shows "kept s s'"
  using assms unfolding expr_step_def
  by (simp add: bind_r_eq_Inr split: if_splits)
    ((erule expr_unary_kept expr_binary_kept;
       auto simp: bind_r_eq_Inr elim: expr_push_kept expr_count_kept expr_assign_kept split: if_splits)+, auto)

lemma DoExpression_kept: "DoExpression s = Inr (v, s') \<Longrightarrow> kept s s'"
proof (induction s arbitrary: v s' rule: DoExpression.induct)
  case (1 s)
  from 1(2) [unfolded DoExpression.simps [of s]] obtain opr s1 where p: "PopOperator s = Inr (opr, s1)"
    and rest: "(case opr of None \<Rightarrow> Inr (0, s1) | Some opr' \<Rightarrow> bind_r (expr_step opr' s1) (\<lambda>(r, s2).
      case r of Inl v \<Rightarrow> Inr (v, s2) | Inr u \<Rightarrow> DoExpression s2)) = Inr (v, s')"
    by (auto simp: bind_r_eq_Inr)
  note k1 = PopOperator_kept [OF p]
  show ?case
  proof (cases opr)
    case None
    with rest k1 show ?thesis by simp
  next
    case (Some o')
    with rest obtain r s2 where st: "expr_step o' s1 = Inr (r, s2)"
      and r: "(case r of Inl v \<Rightarrow> Inr (v, s2) | Inr u \<Rightarrow> DoExpression s2) = Inr (v, s')"
      by (auto simp: bind_r_eq_Inr)
    have "kept s2 s'"
      using r 1(1) [OF p refl Some st refl] by (cases r) auto
    with k1 expr_step_kept [OF st] show ?thesis by (blast intro: kept_trans)
  qed
qed

lemma GetSymbol_more: "GetSymbol name s = Inr (i, s') \<Longrightarrow> asmst.more s' = asmst.more s"
  by (auto simp: GetSymbol_def Let_def split: option.splits if_splits)

definition asm_inv :: "asmrun \<Rightarrow> bool" where
  "asm_inv s \<longleftrightarrow> asm_wf s \<and> length (forward s) < FORWARD_REFS \<and>
     (\<forall>(i, y) \<in> set (forward s). i < length (Program (X_code s)) \<and> y < length (symbolTable s))"

definition same_size :: "asmrun \<Rightarrow> asmrun \<Rightarrow> bool" where
  "same_size s s' \<longleftrightarrow> length (Program (X_code s')) = length (Program (X_code s))"

lemma more_run: "asmst.more s' = asmst.more (s :: asmrun) \<Longrightarrow>
  forward s' = forward s \<and> X_code s' = X_code s \<and> X_inst s' = X_inst s \<and> X_index s' = X_index s \<and> X_patom s' = X_patom s"
  by (cases s; cases s') simp

lemma kept_inv: "asm_inv s \<Longrightarrow> kept s s' \<Longrightarrow> asm_wf s' \<Longrightarrow> asm_inv s' \<and> same_size s s'"
  using more_run [of s' s] by (auto simp: asm_inv_def kept_def same_size_def)

lemma inv_updates [simp]:
  "asm_inv (s\<lparr>expect_lit := b\<rparr>) = asm_inv s" "asm_inv (s\<lparr>expect_sr1 := b\<rparr>) = asm_inv s"
  "asm_inv (s\<lparr>expect_sr2 := b\<rparr>) = asm_inv s" "asm_inv (s\<lparr>expect_dst := b\<rparr>) = asm_inv s"
  "asm_inv (s\<lparr>X_patom := p\<rparr>) = asm_inv s" "asm_inv (s\<lparr>stdout_text := t\<rparr>) = asm_inv s"
  "asm_inv (s\<lparr>X_pc := w\<rparr>) = asm_inv s" "asm_inv (s\<lparr>X_index := n\<rparr>) = asm_inv s" "asm_inv (s\<lparr>X_inst := n\<rparr>) = asm_inv s"
  "same_size s (s'\<lparr>expect_lit := b\<rparr>) = same_size s s'" "same_size s (s'\<lparr>expect_sr1 := b\<rparr>) = same_size s s'"
  "same_size s (s'\<lparr>expect_sr2 := b\<rparr>) = same_size s s'" "same_size s (s'\<lparr>expect_dst := b\<rparr>) = same_size s s'"
  "same_size s (s'\<lparr>X_patom := p\<rparr>) = same_size s s'" "same_size s (s'\<lparr>stdout_text := t\<rparr>) = same_size s s'"
  by (simp_all add: asm_inv_def asm_wf_def same_size_def)

lemma out_if_inv [simp]: "asm_inv (out_if b t s) = asm_inv s" "same_size s0 (out_if b t s) = same_size s0 s"
  by (simp_all add: out_if_def)

lemma same_size_refl [simp]: "same_size s s"
  by (simp add: same_size_def)

lemma same_size_trans: "same_size s s1 \<Longrightarrow> same_size s1 s2 \<Longrightarrow> same_size s s2"
  by (simp add: same_size_def)

lemma set_inst_inv: "asm_inv s \<Longrightarrow> set_inst f s = Inr s' \<Longrightarrow>
  asm_inv s' \<and> same_size s s' \<and> symbolTable s' = symbolTable s \<and> X_inst s' = X_inst s \<and> X_inst s < length (Program (X_code s)) \<and>
  forward s' = forward s \<and> expect_lit s' = expect_lit s"
  by (auto simp: set_inst_def get_inst_def bind_r_eq_Inr arr_get_Inr asm_inv_def asm_wf_def same_size_def)

lemma Error_inv: "asm_inv s \<Longrightarrow> Error et a t s = Inr s' \<Longrightarrow> asm_inv s' \<and> same_size s s'"
  using kept_inv [of s s'] Error_kept [of et a t s s'] Error_wf [of et a t s s'] by (simp add: asm_inv_def)

lemma PushOperand_inv: "asm_inv s \<Longrightarrow> opnd_ok (length (symbolTable s)) v \<Longrightarrow> PushOperand v s = Inr (b, s') \<Longrightarrow>
  asm_inv s' \<and> same_size s s'"
  using kept_inv [of s s'] PushOperand_kept [of v s b s'] PushOperand_wf [of s v b s'] by (simp add: asm_inv_def)

lemma PushOperator_inv: "asm_inv s \<Longrightarrow> PushOperator v s = Inr (b, s') \<Longrightarrow> asm_inv s' \<and> same_size s s'"
  using kept_inv [of s s'] PushOperator_kept [of v s b s'] PushOperator_wf [of s v b s'] by (simp add: asm_inv_def)

lemma DoExpression_inv: "asm_inv s \<Longrightarrow> DoExpression s = Inr (v, s') \<Longrightarrow> asm_inv s' \<and> same_size s s'"
  using kept_inv [of s s'] DoExpression_kept [of s v s'] DoExpression_wf [of s v s'] by (simp add: asm_inv_def)

lemma GetSymbol_inv: "asm_inv s \<Longrightarrow> GetSymbol name s = Inr (i, s') \<Longrightarrow>
  asm_inv s' \<and> same_size s s' \<and> i < length (symbolTable s')"
  using GetSymbol_wf [of s name i s'] more_run [OF GetSymbol_more, of name s i s']
  by (auto simp: asm_inv_def same_size_def)

lemma set_sym_inv: "asm_inv s \<Longrightarrow> i < length (symbolTable s) \<Longrightarrow> asm_inv (set_sym i v b s) \<and> same_size s (set_sym i v b s)"
  using kept_inv [of s "set_sym i v b s"] set_sym_wf [of s i v b] by (simp add: asm_inv_def)


lemma confirm_inv:
  assumes "asm_inv s" "confirm_arg e a t p s = Inr (q, s')"
  shows "asm_inv s' \<and> same_size s s'"
proof -
  have "s' = s \<or> (\<exists>a t. Error SYNTAX a t s = Inr s')"
    using assms(2) by (auto simp: confirm_arg_def bind_r_eq_Inr split: if_splits)
  with assms(1) Error_inv [OF assms(1)] show ?thesis by auto
qed

lemma confirm_frame:
  assumes "confirm_arg e a t p s = Inr (q, s')"
  shows "X_inst s' = X_inst (s :: asmrun) \<and> X_index s' = X_index s"
proof -
  have "kept s s'" using assms by (auto simp: confirm_arg_def bind_r_eq_Inr Error_kept split: if_splits)
  with more_run [of s' s] show ?thesis by (simp add: kept_def)
qed

lemma GetConfirm_inv:
  assumes "asm_inv s" "GetConfirm atoms opcd s = Inr (b, s')"
  shows "asm_inv s' \<and> same_size s s'"
proof -
  define s0 where "s0 = s\<lparr>expect_sr1 := (Op_Src1 opcd = AtRegister), expect_sr2 := (Op_Src2 opcd = AtRegister),
                 expect_lit := (Op_Src1 opcd = AtLiteral \<or> Op_Src1 opcd = AtAddress),
                 expect_dst := (Op_Dest opcd = AtRegister)\<rparr>"
  have i0: "asm_inv s0" "same_size s s0" using assms(1) by (simp_all add: s0_def)
  obtain p1 s1 p2 s2 p3 s3 p4 where
    c: "confirm_arg (expect_lit s0) Expression ''Expected: Symbol or literal value''
         (True, skip_seps (if tl atoms = [] then atoms else tl atoms)) s0 = Inr (p1, s1)"
    "confirm_arg (expect_sr1 s0) Register ''Expected: Register'' p1 s1 = Inr (p2, s2)"
    "confirm_arg (expect_sr2 s0) Register ''Expected: Register'' p2 s2 = Inr (p3, s3)"
    "confirm_arg (expect_dst s0) Register ''Expected: Register'' p3 s3 = Inr (p4, s')"
    using assms(2) unfolding GetConfirm_def Let_def s0_def [symmetric] by (auto simp: bind_r_eq_Inr)
  note i1 = confirm_inv [OF i0(1) c(1)]
  note i2 = confirm_inv [OF i1 [THEN conjunct1] c(2)]
  note i3 = confirm_inv [OF i2 [THEN conjunct1] c(3)]
  note i4 = confirm_inv [OF i3 [THEN conjunct1] c(4)]
  show ?thesis using i0 i1 i2 i3 i4 by (simp add: same_size_def)
qed

lemma asm_numeric_inv: "asm_inv s \<Longrightarrow> asm_numeric listing a s = Inr (go, s') \<Longrightarrow> asm_inv s' \<and> same_size s s'"
  by (auto simp: asm_numeric_def bind_r_eq_Inr split: if_splits dest!: set_inst_inv [rotated] PushOperand_inv [rotated 2])

lemma add_forward_inv:
  "asm_inv s \<Longrightarrow> y < length (symbolTable s) \<Longrightarrow> X_inst s < length (Program (X_code s)) \<Longrightarrow> add_forward a y s = Inr s' \<Longrightarrow>
   asm_inv s' \<and> same_size s s'"
  by (auto simp: add_forward_def Let_def asm_inv_def asm_wf_def same_size_def split: if_splits)

lemma asm_alpha_inv:
  assumes "asm_inv s" "asm_alpha listing a s = Inr (go, s')"
  shows "asm_inv s' \<and> same_size s s'"
proof -
  obtain name y s1 s4 where g: "GetSymbol name s = Inr (y, s1)"
    and st: "(if expect_lit s1
                  then bind_r (set_inst (\<lambda>i. i\<lparr>I_Src1 := sym_value y s1\<rparr>) s1) (\<lambda>s2.
                       bind_r (if sym_value y s1 = 0 then add_forward a y (s2\<lparr>expect_lit := False\<rparr>)
                               else Inr (s2\<lparr>expect_lit := False\<rparr>)) (\<lambda>s3. Inr (True, s3)))
                  else PushOperand \<lparr>O_SymbolRef = Some y, O_LiteralValue = 0\<rparr> s1) = Inr (go, s4)"
    and s': "s' = (if go then out_if listing ('' '' @ name) s4 else s4)"
    using assms(2) by (auto simp: asm_alpha_def bind_r_eq_Inr split: option.splits)
  note g1 = GetSymbol_inv [OF assms(1) g]
  have "asm_inv s4 \<and> same_size s1 s4"
  proof (cases "expect_lit s1")
    case True
    then obtain s2 where s2: "set_inst (\<lambda>i. i\<lparr>I_Src1 := sym_value y s1\<rparr>) s1 = Inr s2"
      "(if sym_value y s1 = 0 then add_forward a y (s2\<lparr>expect_lit := False\<rparr>) else Inr (s2\<lparr>expect_lit := False\<rparr>)) = Inr s4"
      using st by (auto simp: bind_r_eq_Inr)
    note i2 = set_inst_inv [OF _ s2(1)]
    show ?thesis
    proof (cases "sym_value y s1 = 0")
      case True
      with s2(2) i2 g1 add_forward_inv [of "s2\<lparr>expect_lit := False\<rparr>" y a s4] show ?thesis
        by (simp add: same_size_def)
    next
      case False
      with s2(2) i2 g1 show ?thesis by (auto simp: same_size_def)
    qed
  next
    case False
    with st g1 PushOperand_inv [of s1 "\<lparr>O_SymbolRef = Some y, O_LiteralValue = 0\<rparr>" go s4] show ?thesis
      by (simp add: opnd_ok_def)
  qed
  with g1 s' same_size_trans show ?thesis by (auto split: if_splits)
qed

lemma asm_label_inv:
  assumes "asm_inv s" "asm_label a s = Inr s'"
  shows "asm_inv s' \<and> same_size s s'"
proof -
  obtain pa where pa: "X_patom s = Some pa" using assms(2) by (auto simp: asm_label_def split: option.splits)
  consider (alpha) "A_Type pa = Alpha" | (num) "A_Type pa = Numeric" | (other) "A_Type pa \<noteq> Alpha" "A_Type pa \<noteq> Numeric"
    by blast
  then show ?thesis
  proof cases
    case alpha
    then obtain name y s1 s2 where g: "GetSymbol name s = Inr (y, s1)"
      and e: "s2 = s1 \<or> Error SYNTAX (Some (a\<lparr>A_Text := A_Text pa\<rparr>)) ''Label: double definition'' s1 = Inr s2" and s': "s' = set_sym y (X_pc s2) True s2"
      using assms(2) pa by (auto simp: asm_label_def bind_r_eq_Inr split: option.splits if_splits)
    note g1 = GetSymbol_inv [OF assms(1) g]
    have i2: "asm_inv s2 \<and> same_size s1 s2" using e g1 Error_inv by auto
    moreover have "y < length (symbolTable s2)" using e g1 by auto
    ultimately show ?thesis using g1 s' set_sym_inv same_size_trans by blast
  next
    case num
    with assms pa show ?thesis
      by (auto simp: asm_label_def split: if_splits dest: Error_inv) (auto simp: asm_inv_def asm_wf_def same_size_def)
  next
    case other
    with assms pa show ?thesis by (auto simp: asm_label_def)
  qed
qed

lemma asm_operator_inv:
  assumes "asm_inv s" "asm_operator listing a s = Inr (go, s')"
  shows "asm_inv s' \<and> same_size s s'"
proof -
  obtain opr name s1 where
    st: "(if opr = OprLBL then bind_r (asm_label a s) (\<lambda>s'. Inr (True, s')) else PushOperator opr s) = Inr (go, s1)"
    and s': "s' = (if go
                then out_if (listing \<and> opr = OprLBL) (nl @ ''         Pc:'' @ fmt_0X 4 (X_pc s1) @ [CHR 0x09])
                       (out_if listing ('' '' @ name) s1)
                else s1)"
    using assms(2) unfolding asm_operator_def bind_r_eq_Inr by (clarsimp simp: bind_r_eq_Inr simp del: append.simps)
  have "asm_inv s1 \<and> same_size s s1"
    using st asm_label_inv [OF assms(1)] PushOperator_inv [OF assms(1)] by (auto simp: bind_r_eq_Inr split: if_splits)
  with s' show ?thesis by simp
qed

lemma asm_opcode_inv:
  assumes "asm_inv s" "asm_opcode listing atoms s = Inr (go, s')"
  shows "asm_inv s' \<and> same_size s s'"
proof -
  obtain s1 opcd b s2 s3 where s1: "set_inst (\<lambda>i. zero_inst) (s\<lparr>X_inst := X_index s\<rparr>) = Inr s1"
    and s2: "GetConfirm atoms opcd s1 = Inr (b, s2)"
    and s3: "set_inst (\<lambda>i. i\<lparr>I_Number := Op_Number opcd\<rparr>) s2 = Inr s3"
    and s': "s' = (out_if listing ([CHR 0x09, CHR 0x09] @ Op_Name opcd) s3)
         \<lparr>X_pc := X_pc s3 + 1, X_index := X_index s3 + 1,
          X_code := (X_code s3)\<lparr>InstructionCount := of_nat (X_index s3 + 1)\<rparr>\<rparr>"
    using assms(2) by (auto simp: asm_opcode_def bind_r_eq_Inr)
  have "asm_inv s1 \<and> same_size s s1" using set_inst_inv [OF _ s1] assms(1) by (simp add: same_size_def)
  with GetConfirm_inv [OF _ s2] set_inst_inv [OF _ s3] have "asm_inv s3 \<and> same_size s s3" by (simp add: same_size_def)
  moreover have "asm_inv s' = asm_inv s3" "same_size s s' = same_size s s3"
    unfolding s' by (simp_all add: asm_inv_def asm_wf_def same_size_def out_if_def)
  ultimately show ?thesis by simp
qed

lemma asm_register_inv: "asm_inv s \<Longrightarrow> asm_register listing a s = Inr (go, s') \<Longrightarrow> asm_inv s' \<and> same_size s s'"
  by (auto simp: asm_register_def bind_r_eq_Inr split: if_splits dest!: set_inst_inv [rotated])

lemma asm_open_inv: "asm_inv s \<Longrightarrow> asm_open listing s = Inr (go, s') \<Longrightarrow> asm_inv s' \<and> same_size s s'"
  by (auto simp: asm_open_def bind_r_eq_Inr split: if_splits dest!: PushOperator_inv [rotated])

lemma asm_close_inv:
  assumes "asm_inv s" "asm_close listing s = Inr (go, s')"
  shows "asm_inv s' \<and> same_size s s'"
proof -
  obtain v s1 s2 where d: "DoExpression s = Inr (v, s1)" and i: "set_inst (\<lambda>i. i\<lparr>I_Src1 := v\<rparr>) s1 = Inr s2"
    and s': "s' = out_if listing '' )'' (s2\<lparr>expect_lit := False\<rparr>)"
    using assms(2) by (auto simp: asm_close_def bind_r_eq_Inr)
  from DoExpression_inv [OF assms(1) d] set_inst_inv [OF _ i] show ?thesis
    unfolding s' using same_size_trans by auto
qed

lemma ResetStacks_inv: "asm_inv s \<Longrightarrow> asm_inv (ResetStacks s) \<and> same_size s (ResetStacks s)"
  using kept_inv [of s "ResetStacks s"] ResetStacks_wf [of s] by (simp add: asm_inv_def) (simp add: kept_def ResetStacks_def)

lemma asm_seperator_inv:
  assumes "asm_inv s" "asm_seperator listing a s = Inr (go, s')"
  shows "asm_inv s' \<and> same_size s s'"
proof -
  note r = ResetStacks_inv [OF assms(1)]
  obtain s1 t where e: "(if expect_lit (ResetStacks s)
       then bind_r (Error SYNTAX (Some a) ''Unexpected seperator'' (ResetStacks s)) (\<lambda>s'. Inr (s'\<lparr>expect_lit := False\<rparr>))
       else Inr (ResetStacks s)) = Inr s1" and s': "s' = out_if listing t s1"
    using assms(2) unfolding asm_seperator_def Let_def by (clarsimp simp: bind_r_eq_Inr simp del: append.simps)
  have "asm_inv s1 \<and> same_size (ResetStacks s) s1"
  proof (cases "expect_lit (ResetStacks s)")
    case True
    with e obtain s2 where s2: "Error SYNTAX (Some a) ''Unexpected seperator'' (ResetStacks s) = Inr s2"
      "s1 = s2\<lparr>expect_lit := False\<rparr>" by (auto simp: bind_r_eq_Inr)
    with Error_inv [OF _ s2(1)] r show ?thesis by simp
  next
    case False
    with e r show ?thesis by simp
  qed
  with r s' show ?thesis by (simp add: same_size_def [of s] same_size_def [of "ResetStacks s"])
qed

lemma asm_comment_inv: "asm_inv s \<Longrightarrow> asm_comment listing a s = Inr (go, s') \<Longrightarrow> asm_inv s' \<and> same_size s s'"
  by (auto simp: asm_comment_def split: option.splits)

lemmas asm_case_inv = asm_numeric_inv asm_alpha_inv asm_operator_inv asm_opcode_inv asm_register_inv
  asm_open_inv asm_close_inv asm_seperator_inv asm_comment_inv

lemma asm_atom_inv: "asm_inv s \<Longrightarrow> asm_atom listing atoms s = Inr (go, s') \<Longrightarrow> asm_inv s' \<and> same_size s s'"
  by (cases "A_Type (hd atoms)"; simp add: asm_atom_def Let_def; (erule (1) asm_case_inv)?)

lemma asm_loop_inv: "asm_inv s \<Longrightarrow> asm_loop listing atoms s = Inr (go, s') \<Longrightarrow> asm_inv s' \<and> same_size s s'"
proof (induction atoms arbitrary: s)
  case (Cons a atoms)
  then obtain b s1 where st: "asm_atom listing (a # atoms) s = Inr (b, s1)"
    and r: "(if b then asm_loop listing atoms (s1\<lparr>X_patom := Some a\<rparr>) else Inr (False, s1)) = Inr (go, s')"
    by (auto simp: bind_r_eq_Inr)
  note i1 = asm_atom_inv [OF Cons.prems(1) st]
  show ?case
  proof (cases b)
    case True
    with r i1 Cons.IH [of "s1\<lparr>X_patom := Some a\<rparr>"] show ?thesis by (auto simp: same_size_def)
  next
    case False
    with r i1 show ?thesis by simp
  qed
qed simp


lemma lex_step_kept:
  assumes "lex_step l s = Inr (b, l', s')"
  shows "s' = s \<or> (\<exists>a t. Error SYNTAX a t s = Inr s')"
  using assms unfolding lex_step_def
  by (auto simp: bind_r_eq_Inr split: list.splits if_splits)

lemma lex_loop_inv: "lex_loop st l s = Inr (as, s') \<Longrightarrow> asm_inv s \<Longrightarrow> asm_inv s' \<and> same_size s s'"
proof (induction st l s arbitrary: as s' rule: lex_loop.induct)
  case (1 st l s)
  show ?case
  proof (cases "L_pos l \<le> st")
    case True
    with 1(2) obtain b l1 s1 where st: "lex_step l s = Inr (b, l1, s1)"
      and r: "(if b then lex_loop st l1 s1 else Inr (L_atoms l1 @ [NewAtom], s1)) = Inr (as, s')"
      by (subst (asm) lex_loop.simps) (auto simp: bind_r_eq_Inr)
    have i1: "asm_inv s1 \<and> same_size s s1"
      using lex_step_kept [OF st] 1(3) Error_inv [OF 1(3)] by auto
    show ?thesis
    proof (cases b)
      case True
      with r 1(1) [OF \<open>L_pos l \<le> st\<close> st refl refl True] i1 show ?thesis by (auto simp: same_size_def)
    next
      case False
      with r i1 show ?thesis by simp
    qed
  next
    case False
    with 1(2,3) show ?thesis by (simp add: lex_loop.simps [of st l])
  qed
qed

lemma Assemble_inv:
  assumes "asm_inv s" "Assemble n text listing s = Inr s'"
  shows "asm_inv s' \<and> same_size s s'"
proof -
  obtain l s0 where g: "GetAtoms n text s = Inr (l, s0)" "l \<noteq> None"
    using assms(2) by (auto simp: Assemble_def bind_r_eq_Inr split: option.splits)
  then have i0: "asm_inv s0 \<and> same_size s s0"
    using assms(1) lex_loop_inv by (auto simp: GetAtoms_def bind_r_eq_Inr split: if_splits)
  define s00 where "s00 = s0\<lparr>X_pc := 0, X_index := 0, X_inst := 0, X_patom := None,
               expect_lit := False, expect_sr1 := False, expect_sr2 := False, expect_dst := False\<rparr>"
  have i00: "asm_inv s00 \<and> same_size s s00" using i0 by (simp add: s00_def same_size_def)
  obtain l' s1 t fin s2 where st: "set_inst (\<lambda>i. zero_inst) s00 = Inr s1"
    "asm_loop listing l' (out_if True t s1) = Inr (fin, s2)" "s' = out_if (listing \<and> fin) (asm_symbols s2) s2"
    using assms(2) g unfolding Assemble_def s00_def
    by (clarsimp simp: bind_r_eq_Inr simp del: append.simps split: option.splits)
  have "asm_inv s1 \<and> same_size s00 s1" using set_inst_inv [OF _ st(1)] i00 by simp
  then have "asm_inv s2 \<and> same_size s00 s2" using asm_loop_inv [OF _ st(2)] by (simp add: same_size_def out_if_def)
  with i00 st(3) show ?thesis by (simp add: same_size_def out_if_def)
qed

end
