(* ===== verification/Mtt_Roundtrip.thy ===== *)
theory Mtt_Roundtrip
  imports Mtt_Asm
begin

text \<open>
  The tool chain from source text to object file and back (mttn/tools/asm.c): canonical
  source text for a program, its atoms, what each line assembles to, and the theorem that
  assembling the text and reading the object file gives the program. Register names are
  looked up as the registers they were printed for. The definitions here are the canonical
  printer and the vocabulary of the proofs.
\<close>

section \<open>Names\<close>

lemma index_of_key:
  assumes "distinct (map f xs)" "k < length xs"
  shows "index_of (\<lambda>x. f x = f (xs ! k)) xs = Some k"
proof -
  have "f (xs ! i) = f (xs ! k) \<longleftrightarrow> i = k" if "i < length xs" for i
    using assms that nth_eq_iff_index_eq [of "map f xs" i k] by simp
  then have "find (\<lambda>i. f (xs ! i) = f (xs ! k)) [0..<length xs] = find (\<lambda>i. i = k) [0..<length xs]"
    by (intro find_cong) auto
  also have "\<dots> = Some k" using find_key [of id "[0..<length xs]" k] assms(2) by simp
  finally show ?thesis by (simp add: index_of_def)
qed

lemma distinct_op_names: "distinct (map Op_Name InstructionSet)"
  by (simp add: InstructionSet_def opc_def)

definition letter :: "char \<Rightarrow> bool" where
  "letter c \<longleftrightarrow> 65 \<le> (of_char c :: nat) \<and> (of_char c :: nat) \<le> 90"

lemma op_names_plain: "o' \<in> set InstructionSet \<Longrightarrow>
  list_all letter (Op_Name o') \<and> length (Op_Name o') \<le> 8 \<and> Op_Name o' \<noteq> []"
  by (auto simp: InstructionSet_def opc_def letter_def)

lemma ascii_letters: "list_all letter w \<Longrightarrow> ascii w"
  by (auto simp: ascii_def list_all_iff letter_def)

lemma upper_letters: "list_all letter w \<Longrightarrow> map upper_c w = w"
  by (rule map_idI) (auto simp: list_all_iff letter_def upper_c_def)

lemma LookUpOpCode_name:
  assumes "k < length InstructionSet" "A_Text a = Some (Op_Name (InstructionSet ! k))"
  shows "LookUpOpCode a = Inr (a\<lparr>A_Type := Op_code, A_Value := of_nat k\<rparr>, True)"
proof -
  note p = op_names_plain [OF nth_mem [OF assms(1)]]
  then show ?thesis
    using assms index_of_key [OF distinct_op_names assms(1)]
    by (simp add: LookUpOpCode_def StrToUpper_ascii ascii_letters upper_letters MAX_OP_CODE_STRING_LENGTH_def)
qed

definition not_op_name :: "string \<Rightarrow> bool" where
  "not_op_name w \<longleftrightarrow> w \<notin> Op_Name ` set InstructionSet"

lemma LookUpOpCode_other:
  assumes "ascii w" "not_op_name (map upper_c w)" "A_Text a = Some w"
  shows "LookUpOpCode a = Inr (a, False)"
proof -
  have "index_of (\<lambda>o'. Op_Name o' = map upper_c w) InstructionSet = None"
    using assms(2) by (force simp: index_of_None not_op_name_def)
  with assms show ?thesis by (simp add: LookUpOpCode_def StrToUpper_ascii)
qed

lemma dec_not_letters: "\<not> list_all letter (w @ show_base 10 n)"
proof -
  obtain c cs where c: "show_base 10 n = c # cs" by (cases "show_base 10 n") auto
  then have "48 \<le> (of_char c :: nat) \<and> (of_char c :: nat) \<le> 57" using show_base_ascii_digits [of 10 c n] by simp
  with c show ?thesis by (auto simp: letter_def)
qed

lemma LookUpRegister_ascii:
  assumes "A_Text a = Some w" "ascii w" "length w \<le> 8"
  shows "LookUpRegister a =
    (case find (\<lambda>d. Reg_Name d = map upper_c w) Regs of
       Some d \<Rightarrow> Inr (a\<lparr>A_Type := Register, A_Value := of_nat (Reg_Start d)\<rparr>, True)
     | None \<Rightarrow> (case LookUpRegister_rows w (map upper_c w) Regs of None \<Rightarrow> Inr (a, False)
                | Some v \<Rightarrow> Inr (a\<lparr>A_Type := Register, A_Value := v\<rparr>, True)))"
  using assms by (simp add: LookUpRegister_def StrToUpper_ascii MAX_REGISTER_STRING_LENGTH_def)

lemma dec_range_facts:
  assumes "1 \<le> n" "n \<le> k" "k \<le> 999"
  shows "strtoul (show_base 10 n) = (of_nat n, [])" "(1::u32) \<le> of_nat n" "of_nat n \<le> (of_nat k :: u32)"
    "length (show_base 10 n) \<le> 3"
  using strtoul_dec [of n "[]"] word_range [OF assms(1,2)] show_base_length [of 10 n 2] assms
  by (simp_all add: starts_digit_def)

lemma LookUpRegister_GR:
  assumes "1 \<le> n" "n \<le> 212" "A_Text a = Some (''GR'' @ show_base 10 n)"
  shows "LookUpRegister a = Inr (a\<lparr>A_Type := Register, A_Value := of_nat n - 1\<rparr>, True)"
  using dec_range_facts [OF assms(1,2)] ascii_dec [of n] assms(3)
  by (simp add: LookUpRegister_ascii ascii_def Regs_def regd_def starts_with_def upper_c_def
      show_base_Nil [symmetric])

lemma LookUpRegister_LR:
  assumes "1 \<le> n" "n \<le> 31" "A_Text a = Some (''LR'' @ show_base 10 n)"
  shows "LookUpRegister a = Inr (a\<lparr>A_Type := Register, A_Value := 224 + of_nat n\<rparr>, True)"
  using dec_range_facts [OF assms(1,2)] ascii_dec [of n] assms(3)
  by (simp add: LookUpRegister_ascii ascii_def Regs_def regd_def starts_with_def upper_c_def
      show_base_Nil [symmetric])

text \<open>The three shapes of a register name.\<close>

lemma register_name_cases:
  assumes "r < 256"
  obtains (gr) "r < 212" "RegToString (int r) = ''GR'' @ show_base 10 (r + 1)"
    | (lr) "225 \<le> r" "RegToString (int r) = ''LR'' @ show_base 10 (r - 224)"
    | (one) d where "d \<in> set Regs" "Reg_Start d = r" "Reg_End d = r" "RegToString (int r) = Reg_Name d"
proof -
  obtain d where d: "reg_row r = Some d" "d \<in> set Regs" "Reg_Start d \<le> r" "r \<le> Reg_End d"
    using reg_row_cases [OF assms] by blast
  note t = RegToString_row [OF assms d(1)]
  consider "r < 212" | "225 \<le> r" | "212 \<le> r" "r \<le> 224" by linarith
  then show ?thesis
  proof cases
    case 1
    then show ?thesis by (intro gr) (auto simp: RegToString_def Regs_def regd_def reg_text_def)
  next
    case 2
    then show ?thesis
      using assms Suc_diff_le [of 225 r, symmetric]
      by (intro lr) (auto simp: RegToString_def Regs_def regd_def reg_text_def nat_diff_distrib')
  next
    case 3
    with d have "Reg_Start d = r \<and> Reg_End d = r" by (auto simp: Regs_def regd_def)
    with t d(2) show ?thesis by (intro one [of d]) (auto simp: reg_text_def)
  qed
qed

lemma LookUpRegister_one:
  assumes "d \<in> set Regs" "Reg_Start d = Reg_End d" "A_Text a = Some (Reg_Name d)"
  shows "LookUpRegister a = Inr (a\<lparr>A_Type := Register, A_Value := of_nat (Reg_Start d)\<rparr>, True)"
proof -
  have p: "list_all letter (Reg_Name d) \<or> Reg_Name d = ''VMEP2''" "length (Reg_Name d) \<le> 8"
    using assms(1,2) by (auto simp: Regs_def regd_def letter_def)
  then have a: "ascii (Reg_Name d)" "map upper_c (Reg_Name d) = Reg_Name d"
    by (auto simp: ascii_letters upper_letters) (simp_all add: ascii_def upper_c_def)
  have "distinct (map Reg_Name Regs)" by (simp add: Regs_def regd_def)
  from find_key [OF this assms(1)] assms(3) p(2) a show ?thesis
    by (simp add: LookUpRegister_ascii)
qed


text \<open>A register's name is looked up as that register, and is no opcode.\<close>

definition alnum :: "char \<Rightarrow> bool" where
  "alnum c \<longleftrightarrow> letter c \<or> 48 \<le> (of_char c :: nat) \<and> (of_char c :: nat) \<le> 57"

lemma not_op_name_dec: "not_op_name (w @ show_base 10 n)"
  using op_names_plain dec_not_letters [of w n] unfolding not_op_name_def image_iff by metis

lemma dec_alnum: "list_all alnum (show_base 10 n)"
  using show_base_ascii_digits [of 10] by (auto simp: list_all_iff alnum_def)

lemma upper_alnum: "list_all alnum w \<Longrightarrow> map upper_c w = w"
  by (rule map_idI) (auto simp: list_all_iff letter_def alnum_def upper_c_def)

lemma ascii_alnum: "list_all alnum w \<Longrightarrow> ascii w"
  by (auto simp: ascii_def list_all_iff letter_def alnum_def)

lemma reg_names_plain:
  assumes "d \<in> set Regs"
  shows "list_all alnum (Reg_Name d) \<and> Reg_Name d \<noteq> [] \<and> letter (hd (Reg_Name d)) \<and> length (Reg_Name d) \<le> 8 \<and>
    not_op_name (Reg_Name d)"
proof -
  have "list_all (\<lambda>d. list_all alnum (Reg_Name d) \<and> Reg_Name d \<noteq> [] \<and> letter (hd (Reg_Name d)) \<and> length (Reg_Name d) \<le> 8) Regs"
    by (simp add: Regs_def regd_def alnum_def letter_def)
  moreover have "list_all (\<lambda>d. Reg_Name d \<notin> set (map Op_Name InstructionSet)) Regs"
    by (simp add: Regs_def regd_def InstructionSet_def opc_def)
  ultimately show ?thesis using assms by (auto simp: list_all_iff not_op_name_def)
qed

lemma register_name:
  assumes "r < 256"
  shows "list_all alnum (RegToString (int r))" "RegToString (int r) \<noteq> []" "letter (hd (RegToString (int r)))"
    "length (RegToString (int r)) \<le> 8" "not_op_name (RegToString (int r))"
    "A_Text a = Some (RegToString (int r)) \<Longrightarrow>
       LookUpRegister a = Inr (a\<lparr>A_Type := Register, A_Value := of_nat r\<rparr>, True)"
proof -
  let ?n = "RegToString (int r)"
  have "list_all alnum ?n \<and> ?n \<noteq> [] \<and> letter (hd ?n) \<and> length ?n \<le> 8 \<and> not_op_name ?n \<and>
    (A_Text a = Some ?n \<longrightarrow> LookUpRegister a = Inr (a\<lparr>A_Type := Register, A_Value := of_nat r\<rparr>, True))"
    using assms
  proof (cases rule: register_name_cases)
    case gr
    then show ?thesis
      using dec_alnum [of "r + 1"] not_op_name_dec [of "''GR''" "r + 1"] LookUpRegister_GR [of "r + 1" a]
        dec_range_facts [of "r + 1" 212]
      by (simp add: alnum_def letter_def)
  next
    case lr
    obtain m where m: "r = 224 + m" "1 \<le> m" "m \<le> 31"
      using lr(1) assms by (intro that [of "r - 224"]) auto
    with lr(2) show ?thesis
      using dec_alnum [of m] not_op_name_dec [of "''LR''" m] LookUpRegister_LR [of m a] dec_range_facts [of m 31]
      by (simp add: alnum_def letter_def)
  next
    case (one d)
    with reg_names_plain [OF one(1)] LookUpRegister_one [of d a] show ?thesis by simp
  qed
  then show "list_all alnum ?n" "?n \<noteq> []" "letter (hd ?n)" "length ?n \<le> 8" "not_op_name ?n"
    "A_Text a = Some ?n \<Longrightarrow> LookUpRegister a = Inr (a\<lparr>A_Type := Register, A_Value := of_nat r\<rparr>, True)"
    by blast+
qed

section \<open>Tokens\<close>

lemma class_letter: "letter c \<Longrightarrow> atom_of c = Inr Alpha"
  by (auto simp: letter_def atom_of_ascii ascii_class_def)

lemma class_alnum: "alnum c \<Longrightarrow> atom_of c = Inr Alpha \<or> atom_of c = Inr Numeric"
  by (auto simp: alnum_def letter_def atom_of_ascii ascii_class_def)

lemma class_digit: "48 \<le> (of_char c :: nat) \<Longrightarrow> (of_char c :: nat) \<le> 57 \<Longrightarrow> atom_of c = Inr Numeric"
  by (auto simp: atom_of_ascii ascii_class_def)

lemma class_sep: "atom_of (CHR '' '') = Inr Seperator" "atom_of (CHR 0x0A) = Inr Seperator"
  "atom_of (CHR '':'') = Inr Operator" "atom_of (CHR 0x00) = Inr Terminator"
  by (simp_all add: atom_of_ascii ascii_class_def)

lemma scan_word:
  "list_all alnum w \<Longrightarrow> length w < n \<Longrightarrow> atom_of c = Inr at \<Longrightarrow> at \<noteq> Alpha \<Longrightarrow> at \<noteq> Numeric \<Longrightarrow>
   scan_text (\<lambda>at. at = Alpha \<or> at = Numeric) n (w @ c # r) = Inr (w, c # r)"
proof (induction w arbitrary: n)
  case (Cons x w)
  then show ?case using class_alnum [of x] Cons.IH [of "n - 1"] by auto
qed auto

definition core :: "Atom \<Rightarrow> AtomType \<times> i32" where
  "core a = (A_Type a, A_Value a)"

text \<open>What a turn of the lexer does to the loop variables when it reads one token.\<close>

definition lexes :: "nat \<Rightarrow> lex \<Rightarrow> (AtomType \<times> i32) list \<Rightarrow> string \<Rightarrow> nat \<Rightarrow> lex \<Rightarrow> bool" where
  "lexes b l cores rest pos l' \<longleftrightarrow> L_cp l' = rest \<and> L_pos l' = pos \<and>
     (\<exists>as. L_atoms l' = L_atoms l @ as \<and> map core as = cores) \<and>
     (\<forall>st s. b \<le> st \<longrightarrow> lex_loop st l (s :: asmrun) = lex_loop st l' s)"

lemma lexes_step:
  assumes "\<And>s. lex_step l (s :: asmrun) = Inr (True, l', s)" "L_cp l' = rest" "L_pos l' = pos"
    "L_atoms l' = L_atoms l @ as" "map core as = cores" "L_pos l \<le> b"
  shows "lexes b l cores rest pos l'"
  using assms by (auto simp: lexes_def lex_loop.simps [of _ l])

lemma lex_opcode:
  assumes "L_cp l = Op_Name (InstructionSet ! k) @ c # r" "k < length InstructionSet"
    "atom_of c = Inr Seperator" "L_pos l \<le> b"
  shows "\<exists>l'. lexes b l [(Op_code, of_nat k)] (c # r) (L_pos l + length (Op_Name (InstructionSet ! k))) l'"
proof -
  let ?w = "Op_Name (InstructionSet ! k)"
  have p: "list_all letter ?w" "length ?w \<le> 8" "?w \<noteq> []" using op_names_plain [OF nth_mem [OF assms(2)]] by auto
  then have al: "list_all alnum ?w" by (auto simp: list_all_iff alnum_def)
  have hd: "\<exists>cs. L_cp l = hd ?w # cs" using assms(1) p(3) by (cases ?w) auto
  have "letter (hd ?w)" using p(1,3) by (cases ?w) auto
  note a = class_letter [OF this]
  have sc: "scan_text (\<lambda>at. at = Alpha \<or> at = Numeric) TEXT (L_cp l) = Inr (?w, c # r)"
    unfolding assms(1) using scan_word [OF al, of TEXT c Seperator] p(2) assms(3) by (simp add: TEXT_def)
  define a1 where "a1 = placed l Alpha (Some ?w) 0"
  have lk: "LookUpOpCode a1 = Inr (a1\<lparr>A_Type := Op_code, A_Value := of_nat k\<rparr>, True)"
    by (rule LookUpOpCode_name [OF assms(2)]) (simp add: a1_def placed_def)
  have tx: "text_of ?w = Inr ?w" using p(2) by (simp add: text_of_def TEXT_def)
  have "lex_alpha l = Inr (l\<lparr>L_cp := c # r, L_pos := L_pos l + length ?w,
      L_atoms := L_atoms l @ [a1\<lparr>A_Type := Op_code, A_Value := of_nat k\<rparr>]\<rparr>)"
    using lk tx by (simp add: lex_alpha_def sc a1_def)
  with hd a have "lex_step l s = Inr (True, l\<lparr>L_cp := c # r, L_pos := L_pos l + length ?w,
      L_atoms := L_atoms l @ [a1\<lparr>A_Type := Op_code, A_Value := of_nat k\<rparr>]\<rparr>, s)" for s :: asmrun
    by (auto simp: lex_step_def)
  then show ?thesis using assms(4) by (intro exI lexes_step) (auto simp: core_def)
qed

lemma lex_register:
  assumes "L_cp l = RegToString (int n) @ c # r" "n < 256" "atom_of c = Inr Seperator" "L_pos l \<le> b"
  shows "\<exists>l'. lexes b l [(Register, of_nat n)] (c # r) (L_pos l + length (RegToString (int n))) l'"
proof -
  let ?w = "RegToString (int n)"
  note p = register_name [OF assms(2)]
  have hd: "\<exists>cs. L_cp l = hd ?w # cs" using assms(1) p(2) by (cases ?w) auto
  note a = class_letter [OF p(3)]
  have sc: "scan_text (\<lambda>at. at = Alpha \<or> at = Numeric) TEXT (L_cp l) = Inr (?w, c # r)"
    unfolding assms(1) using scan_word [OF p(1), of TEXT c Seperator] p(4) assms(3) by (simp add: TEXT_def)
  define a1 where "a1 = placed l Alpha (Some ?w) 0"
  have lk: "LookUpOpCode a1 = Inr (a1, False)"
    using p(1,5) by (intro LookUpOpCode_other [of ?w]) (auto simp: a1_def placed_def upper_alnum ascii_alnum)
  have lr: "LookUpRegister a1 = Inr (a1\<lparr>A_Type := Register, A_Value := of_nat n\<rparr>, True)"
    by (rule p(6)) (simp add: a1_def placed_def)
  have tx: "text_of ?w = Inr ?w" using p(4) by (simp add: text_of_def TEXT_def)
  have "lex_alpha l = Inr (l\<lparr>L_cp := c # r, L_pos := L_pos l + length ?w,
      L_atoms := L_atoms l @ [a1\<lparr>A_Type := Register, A_Value := of_nat n\<rparr>]\<rparr>)"
    using lk lr tx by (simp add: lex_alpha_def sc a1_def)
  with hd a have "lex_step l s = Inr (True, l\<lparr>L_cp := c # r, L_pos := L_pos l + length ?w,
      L_atoms := L_atoms l @ [a1\<lparr>A_Type := Register, A_Value := of_nat n\<rparr>]\<rparr>, s)" for s :: asmrun
    by (auto simp: lex_step_def)
  then show ?thesis using assms(4) by (intro exI lexes_step) (auto simp: core_def)
qed

lemma lex_hex:
  assumes "L_cp l = print_hex v @ r" "\<not> starts_digit 16 r" "L_pos l \<le> b"
  shows "\<exists>l'. lexes b l [(Numeric, v)] r (L_pos l + length (print_hex v)) l'"
proof -
  have st: "strtoul (L_cp l) = (v, r)"
    using strtoul_hex [OF assms(2), of "[]" v] assms(1) by (simp add: print_hex_def)
  have num: "lex_numeric l = l\<lparr>L_cp := r, L_pos := L_pos l + length (print_hex v),
      L_atoms := L_atoms l @ [placed l Numeric None v]\<rparr>"
    unfolding lex_numeric_def st using assms(1) by simp
  have st: "lex_step l s = Inr (True, lex_numeric l, s)" for s :: asmrun
    using class_digit [of "CHR ''0''"] assms(1) by (simp add: lex_step_def print_hex_def)
  show ?thesis
    by (intro exI, rule lexes_step [OF st [unfolded num], where as = "[placed l Numeric None v]"]) (use assms(3) in \<open>simp_all add: core_def placed_def\<close>)
qed

lemma lex_blank:
  assumes "L_cp l = CHR '' '' # c # r" "atom_of c = Inr at" "at \<noteq> Seperator" "L_pos l \<le> b"
  shows "\<exists>l'. lexes b l [] (c # r) (L_pos l + 1) l'"
proof -
  have st: "lex_step l s = Inr (True, l\<lparr>L_pos := L_pos l + 1, L_cp := c # r, L_newline := Some 0\<rparr>, s)" for s :: asmrun
    using assms by (simp add: lex_step_def class_sep)
  show ?thesis
    by (intro exI, rule lexes_step [OF st, where as = "[]"]) (use assms(4) in \<open>simp_all\<close>)
qed

lemma lex_newline:
  assumes "L_cp l = CHR 0x0A # r" "L_pos l \<le> b"
  shows "\<exists>l'. lexes b l [(Seperator, 0)] r 0 l'"
proof -
  define a where "a = NewAtom\<lparr>A_Position := L_pos l, A_LineNumber := L_line l\<rparr>"
  have st: "lex_step l s = Inr (True, l\<lparr>L_cp := r, L_filepos := r, L_pos := 0, L_newline := Some 1,
      L_line := L_line l + 1, L_atoms := L_atoms l @ [a]\<rparr>, s)" for s :: asmrun
    using assms by (simp add: lex_step_def class_sep a_def)
  show ?thesis
    by (intro exI, rule lexes_step [OF st, where as = "[a]"]) (use assms(2) in \<open>simp_all add: core_def a_def NewAtom_def\<close>)
qed

lemma distinct_opr_names: "distinct (map (\<lambda>x. fst (snd x)) OprNames)"
  by (simp add: OprNames_def)

lemma LookUpOperator_colon: "LookUpOperator '':'' a = (a\<lparr>A_Type := Operator, A_Value := 23\<rparr>, True)"
  using index_of_key [OF distinct_opr_names, of 23]
  by (simp add: LookUpOperator_def case_prod_unfold) (simp add: OprNames_def)

lemma lex_colon:
  assumes "L_cp l = CHR '':'' # CHR 0x0A # r" "L_pos l \<le> b"
  shows "\<exists>l'. lexes b l [(Operator, 23)] (CHR 0x0A # r) (L_pos l + 1) l'"
proof -
  define a where "a = (placed l Operator (Some '':'') 0)\<lparr>A_Type := Operator, A_Value := 23\<rparr>"
  have st: "lex_step l s = Inr (True, l\<lparr>L_cp := CHR 0x0A # r, L_pos := L_pos l + 1, L_atoms := L_atoms l @ [a]\<rparr>, s)"
    for s :: asmrun
    using assms by (simp add: lex_step_def class_sep lex_operator_def text_of_def TEXT_def LookUpOperator_colon a_def)
  show ?thesis
    by (intro exI, rule lexes_step [OF st, where as = "[a]"]) (use assms(2) in \<open>simp_all add: core_def a_def\<close>)
qed


lemma lexes_trans:
  assumes "lexes b l c1 r1 p1 l1" "lexes b l1 c2 r2 p2 l2"
  shows "lexes b l (c1 @ c2) r2 p2 l2"
proof -
  obtain as bs where "L_atoms l1 = L_atoms l @ as" "map core as = c1" "L_atoms l2 = L_atoms l1 @ bs" "map core bs = c2"
    using assms by (auto simp: lexes_def)
  then have "L_atoms l2 = L_atoms l @ as @ bs \<and> map core (as @ bs) = c1 @ c2" by simp
  with assms show ?thesis unfolding lexes_def by metis
qed

lemma lexesD: "lexes b l c r p l' \<Longrightarrow> L_cp l' = r \<and> L_pos l' = p"
  by (simp add: lexes_def)

section \<open>Canonical source text\<close>

text \<open>The source line of an instruction: the name and the operands of its row, blanks between.\<close>

definition src_arg :: "ArgType \<times> i32 \<Rightarrow> string" where
  "src_arg p = (if fst p = AtNothing then [] else '' '' @ arg_text (fst p) (snd p))"

definition inst_args :: "OpCode \<Rightarrow> Instruction \<Rightarrow> (ArgType \<times> i32) list" where
  "inst_args opcd inst = [(Op_Src1 opcd, I_Src1 inst), (Op_Src2 opcd, ucast (I_Src2 inst)), (Op_Dest opcd, ucast (I_Dest inst))]"

definition src_line :: "OpCode \<Rightarrow> Instruction \<Rightarrow> string" where
  "src_line opcd inst = Op_Name opcd @ concat (map src_arg (inst_args opcd inst)) @ nl"

definition arg_core :: "ArgType \<times> i32 \<Rightarrow> (AtomType \<times> i32) list" where
  "arg_core p = (case fst p of AtNothing \<Rightarrow> [] | AtRegister \<Rightarrow> [(Register, snd p)] | _ \<Rightarrow> [(Numeric, snd p)])"

definition arg_fits :: "ArgType \<times> i32 \<Rightarrow> bool" where
  "arg_fits p \<longleftrightarrow> (fst p = AtRegister \<longrightarrow> reg_index (snd p))"

lemma field_ends: "field_end (concat (map src_arg ps) @ nl @ r)"
proof (induction ps)
  case (Cons p ps)
  then show ?case by (cases "fst p = AtNothing") (auto simp: src_arg_def field_end_def)
qed (simp add: field_end_def)

lemma field_end_not_digit: "field_end r \<Longrightarrow> \<not> starts_digit 16 r"
  by (cases r) (auto simp: field_end_def starts_digit_def is_digit_in_def digit_val_def)

lemma field_end_class: "field_end (c # r) \<Longrightarrow> atom_of c = Inr Seperator"
  by (auto simp: field_end_def class_sep)

lemma reg_index_nat: "reg_index v \<Longrightarrow> \<exists>n < 256. v = of_nat n \<and> sint v = int n"
proof -
  assume v: "reg_index v"
  define n where "n = nat (sint v)"
  have "n < 256" "sint v = int n" using v by (auto simp: n_def reg_index_def)
  moreover from this have "v = of_nat n" by (metis of_int_of_nat_eq of_int_sint scast_id)
  ultimately show ?thesis by blast
qed

lemma lex_arg:
  assumes "L_cp l = src_arg p @ c # r" "field_end (c # r)" "arg_fits p" "L_pos l + length (src_arg p) \<le> b"
  shows "\<exists>l'. lexes b l (arg_core p) (c # r) (L_pos l + length (src_arg p)) l'"
proof (cases "fst p = AtNothing")
  case True
  then have "lexes b l (arg_core p) (c # r) (L_pos l + length (src_arg p)) l"
    using assms(1) by (simp add: lexes_def src_arg_def arg_core_def)
  then show ?thesis by blast
next
  case False
  let ?t = "arg_text (fst p) (snd p)"
  have sa: "src_arg p = '' '' @ ?t" using False by (simp add: src_arg_def)
  show ?thesis
  proof (cases "fst p = AtRegister")
    case True
    then obtain n where n: "n < 256" "snd p = of_nat n" "sint (snd p) = int n"
      using assms(3) reg_index_nat [of "snd p"] by (auto simp: arg_fits_def simp del: of_nat_eq_iff)
    then have t: "?t = RegToString (int n)" by (simp add: True arg_text_def)
    obtain x xs where x: "?t = x # xs" "letter x" using register_name(2,3) [OF n(1)] by (cases ?t) (auto simp: t)
    obtain l1 where l1: "lexes b l [] (?t @ c # r) (L_pos l + 1) l1"
      using lex_blank [of l x "xs @ c # r" Alpha b] assms(1,4) sa x class_letter [OF x(2)] by auto
    obtain l2 where "lexes b l1 [(Register, of_nat n)] (c # r) (L_pos l1 + length ?t) l2"
      using lex_register [of l1 n c r b] lexesD [OF l1] t n(1) field_end_class [OF assms(2)] assms(4) sa by auto
    with lexes_trans [OF l1 this] show ?thesis
      using lexesD [OF l1] True n(2) sa by (auto simp: arg_core_def)
  next
    case reg: False
    then have t: "?t = print_hex (snd p)" and co: "arg_core p = [(Numeric, snd p)]"
      using False by (cases "fst p"; simp add: arg_text_def print_hex_def arg_core_def)+
    obtain l1 where l1: "lexes b l [] (?t @ c # r) (L_pos l + 1) l1"
      using lex_blank [of l "CHR ''0''" "tl ?t @ c # r" Numeric b] assms(1,4) sa class_digit [of "CHR ''0''"]
      by (auto simp: t print_hex_def)
    obtain l2 where "lexes b l1 [(Numeric, snd p)] (c # r) (L_pos l1 + length ?t) l2"
      using lex_hex [of l1 "snd p" "c # r" b] lexesD [OF l1] t field_end_not_digit [OF assms(2)] assms(4) sa by auto
    with lexes_trans [OF l1 this] show ?thesis
      using lexesD [OF l1] sa co by auto
  qed
qed

lemma lex_args:
  assumes "L_cp l = concat (map src_arg ps) @ nl @ r" "\<forall>p \<in> set ps. arg_fits p"
    "L_pos l + length (concat (map src_arg ps)) \<le> b"
  shows "\<exists>l'. lexes b l (concat (map arg_core ps)) (nl @ r) (L_pos l + length (concat (map src_arg ps))) l'"
  using assms
proof (induction ps arbitrary: l)
  case Nil
  then have "lexes b l [] (nl @ r) (L_pos l) l" by (simp add: lexes_def)
  then show ?case by auto
next
  case (Cons p ps)
  let ?rest = "concat (map src_arg ps) @ nl @ r"
  obtain c cs where c: "?rest = c # cs" by (cases ?rest) auto
  obtain l1 where l1: "lexes b l (arg_core p) ?rest (L_pos l + length (src_arg p)) l1"
    using lex_arg [of l p c cs b] Cons.prems c field_ends [of ps r] by auto
  obtain l2 where "lexes b l1 (concat (map arg_core ps)) (nl @ r) (L_pos l1 + length (concat (map src_arg ps))) l2"
    using Cons.IH [of l1] Cons.prems lexesD [OF l1] by auto
  with lexes_trans [OF l1 this] lexesD [OF l1] show ?case by (auto simp: add.assoc)
qed

definition line_core :: "nat \<Rightarrow> Instruction \<Rightarrow> (AtomType \<times> i32) list" where
  "line_core k inst = (Op_code, of_nat k) # concat (map arg_core (inst_args (InstructionSet ! k) inst)) @ [(Seperator, 0)]"

lemma lex_line:
  assumes "L_cp l = src_line (InstructionSet ! k) inst @ r" "k < length InstructionSet"
    "\<forall>p \<in> set (inst_args (InstructionSet ! k) inst). arg_fits p"
    "L_pos l + length (src_line (InstructionSet ! k) inst) \<le> Suc b"
  shows "\<exists>l'. lexes b l (line_core k inst) r 0 l'"
proof -
  let ?o = "InstructionSet ! k" and ?as = "inst_args (InstructionSet ! k) inst"
  let ?rest = "concat (map src_arg ?as) @ nl @ r"
  have cp: "L_cp l = Op_Name ?o @ ?rest" using assms(1) by (simp add: src_line_def)
  obtain c cs where c: "?rest = c # cs" by (cases ?rest) auto
  have len: "L_pos l + length (Op_Name ?o) + length (concat (map src_arg ?as)) \<le> b"
    using assms(4) by (simp add: src_line_def)
  obtain l1 where l1: "lexes b l [(Op_code, of_nat k)] ?rest (L_pos l + length (Op_Name ?o)) l1"
    using lex_opcode [of l k c cs b] cp c assms(2) field_end_class [of c cs] field_ends [of ?as r] len by auto
  obtain l2 where l2: "lexes b l1 (concat (map arg_core ?as)) (nl @ r) (L_pos l1 + length (concat (map src_arg ?as))) l2"
    using lex_args [of l1 ?as r b] assms(3) len lexesD [OF l1] by auto
  obtain l3 where l3: "lexes b l2 [(Seperator, 0)] r 0 l3"
    using lex_newline [of l2 r b] lexesD [OF l2] lexesD [OF l1] len by auto
  show ?thesis
    using lexes_trans [OF lexes_trans [OF l1 l2] l3] by (auto simp: line_core_def)
qed

section \<open>Assembling a line\<close>

definition no_expect :: "asmrun \<Rightarrow> bool" where
  "no_expect s \<longleftrightarrow> \<not> expect_lit s \<and> \<not> expect_sr1 s \<and> \<not> expect_sr2 s \<and> \<not> expect_dst s"

definition arg_types_ok :: "OpCode \<Rightarrow> bool" where
  "arg_types_ok opcd \<longleftrightarrow> Op_Src2 opcd \<in> {AtNothing, AtRegister} \<and> Op_Dest opcd \<in> {AtNothing, AtRegister}"

lemma arg_types_table: "opcd \<in> set InstructionSet \<Longrightarrow> arg_types_ok opcd"
  by (auto simp: InstructionSet_def opc_def arg_types_ok_def)

definition expecting :: "OpCode \<Rightarrow> asmrun \<Rightarrow> asmrun" where
  "expecting opcd s = s\<lparr>expect_sr1 := (Op_Src1 opcd = AtRegister), expect_sr2 := (Op_Src2 opcd = AtRegister),
     expect_lit := (Op_Src1 opcd = AtLiteral \<or> Op_Src1 opcd = AtAddress), expect_dst := (Op_Dest opcd = AtRegister)\<rparr>"

lemma compare_types [simp]:
  "CompareAtomTypes Numeric Expression" "CompareAtomTypes Register Register"
  "\<not> CompareAtomTypes Numeric Seperator" "\<not> CompareAtomTypes Register Seperator"
  by (simp_all add: CompareAtomTypes_def)

lemma next_arg_plain [simp]:
  "A_Type b = Numeric \<or> A_Type b = Register \<Longrightarrow> next_arg (a # b # r) = b # r"
  by auto

lemma confirm_Nothing [simp]: "confirm_arg False a t p s = Inr (p, s)"
  by (simp add: confirm_arg_def)

lemma confirm_match [simp]:
  "CompareAtomTypes (A_Type b) a \<Longrightarrow> confirm_arg True a t (True, b # r) s = Inr ((True, next_arg (b # r)), s)"
  by (simp add: confirm_arg_def)

lemma GetConfirm_ok:
  assumes "map core as = concat (map arg_core (inst_args opcd inst))" "arg_types_ok opcd" "rest \<noteq> []"
  shows "\<exists>b. GetConfirm (a # as @ rest) opcd s = Inr (b, expecting opcd s)"
proof -
  obtain r rs where r: "rest = r # rs" using assms(3) by (cases rest) auto
  show ?thesis
    using assms(1,2) r
    by (cases "Op_Src1 opcd"; cases "Op_Src2 opcd"; cases "Op_Dest opcd")
      (auto simp: arg_types_ok_def inst_args_def arg_core_def core_def GetConfirm_def expecting_def map_eq_Cons_conv Let_def
        simp del: next_arg.simps)
qed


definition apply_args :: "OpCode \<Rightarrow> Instruction \<Rightarrow> Instruction \<Rightarrow> Instruction" where
  "apply_args opcd inst i =
     i\<lparr>I_Src1 := (if Op_Src1 opcd = AtNothing then I_Src1 i else I_Src1 inst),
       I_Src2 := (if Op_Src2 opcd = AtNothing then I_Src2 i else I_Src2 inst),
       I_Dest := (if Op_Dest opcd = AtNothing then I_Dest i else I_Dest inst)\<rparr>"

definition with_inst :: "Instruction \<Rightarrow> asmrun \<Rightarrow> asmrun" where
  "with_inst i s = s\<lparr>X_code := (X_code s)\<lparr>Program := (Program (X_code s))[X_inst s := i]\<rparr>\<rparr>"

definition cur_inst :: "asmrun \<Rightarrow> Instruction" where
  "cur_inst s = Program (X_code s) ! X_inst s"

definition inst_in :: "asmrun \<Rightarrow> bool" where
  "inst_in s \<longleftrightarrow> X_inst s < length (Program (X_code s))"

lemma set_inst_in [simp]: "inst_in s \<Longrightarrow> set_inst f s = Inr (with_inst (f (cur_inst s)) s)"
  by (simp add: set_inst_def get_inst_def inst_in_def with_inst_def cur_inst_def)

lemma with_inst_simps [simp]:
  "inst_in (with_inst i s) = inst_in s" "inst_in s \<Longrightarrow> cur_inst (with_inst i s) = i"
  "with_inst i (with_inst j s) = with_inst i s" "inst_in s \<Longrightarrow> with_inst (cur_inst s) s = s"
  "inst_in (s\<lparr>expect_lit := b1\<rparr>) = inst_in s" "inst_in (s\<lparr>expect_sr1 := b1\<rparr>) = inst_in s"
  "inst_in (s\<lparr>expect_sr2 := b1\<rparr>) = inst_in s" "inst_in (s\<lparr>expect_dst := b1\<rparr>) = inst_in s"
  "inst_in (s\<lparr>X_patom := pa\<rparr>) = inst_in s"
  "cur_inst (s\<lparr>expect_lit := b1\<rparr>) = cur_inst s" "cur_inst (s\<lparr>expect_sr1 := b1\<rparr>) = cur_inst s"
  "cur_inst (s\<lparr>expect_sr2 := b1\<rparr>) = cur_inst s" "cur_inst (s\<lparr>expect_dst := b1\<rparr>) = cur_inst s"
  "cur_inst (s\<lparr>X_patom := pa\<rparr>) = cur_inst s"
  by (simp_all add: inst_in_def cur_inst_def with_inst_def)

lemma with_inst_out [simp]:
  "with_inst i (s\<lparr>expect_lit := b1\<rparr>) = (with_inst i s)\<lparr>expect_lit := b1\<rparr>"
  "with_inst i (s\<lparr>expect_sr1 := b1\<rparr>) = (with_inst i s)\<lparr>expect_sr1 := b1\<rparr>"
  "with_inst i (s\<lparr>expect_sr2 := b1\<rparr>) = (with_inst i s)\<lparr>expect_sr2 := b1\<rparr>"
  "with_inst i (s\<lparr>expect_dst := b1\<rparr>) = (with_inst i s)\<lparr>expect_dst := b1\<rparr>"
  "with_inst i (s\<lparr>X_patom := pa\<rparr>) = (with_inst i s)\<lparr>X_patom := pa\<rparr>"
  "expect_lit (with_inst i s) = expect_lit s" "expect_sr1 (with_inst i s) = expect_sr1 s"
  "expect_sr2 (with_inst i s) = expect_sr2 s" "expect_dst (with_inst i s) = expect_dst s"
  by (simp_all add: with_inst_def)

lemma out_if_False [simp]: "out_if False t s = s"
  by (simp add: out_if_def)

lemma asm_numeric_lit:
  "inst_in s \<Longrightarrow> expect_lit s \<Longrightarrow> asm_numeric False a s =
     Inr (True, (with_inst ((cur_inst s)\<lparr>I_Src1 := A_Value a\<rparr>) s)\<lparr>expect_lit := False\<rparr>)"
  by (simp add: asm_numeric_def)

lemma asm_register_cases:
  "inst_in s \<Longrightarrow> asm_register False a s = Inr (True,
     if expect_sr1 s then (with_inst ((cur_inst s)\<lparr>I_Src1 := A_Value a\<rparr>) s)\<lparr>expect_sr1 := False\<rparr>
     else if expect_sr2 s then (with_inst ((cur_inst s)\<lparr>I_Src2 := ucast (A_Value a)\<rparr>) s)\<lparr>expect_sr2 := False\<rparr>
     else if expect_dst s then (with_inst ((cur_inst s)\<lparr>I_Dest := ucast (A_Value a)\<rparr>) s)\<lparr>expect_dst := False\<rparr>
     else s)"
  by (simp add: asm_register_def)

lemma args_assemble:
  assumes "map core as = concat (map arg_core (inst_args opcd inst))" "arg_types_ok opcd" "inst_in s"
  shows "asm_loop False (as @ rest) (expecting opcd s) = asm_loop False rest
    ((with_inst (apply_args opcd inst (cur_inst s)) s)\<lparr>X_patom := (if as = [] then X_patom s else Some (last as)),
       expect_lit := False, expect_sr1 := False, expect_sr2 := False, expect_dst := False\<rparr>)"
  using assms
  by (cases "Op_Src1 opcd"; cases "Op_Src2 opcd"; cases "Op_Dest opcd")
    (auto simp: arg_types_ok_def inst_args_def arg_core_def core_def expecting_def map_eq_Cons_conv asm_atom_def
      asm_numeric_lit asm_register_cases apply_args_def intro!: arg_cong [of _ _ "asm_loop False rest"])


text \<open>
  An instruction that source text can denote: a row of the table, operands of its kinds,
  and zero in the fields the row does not use.
\<close>

definition denotable :: "nat \<Rightarrow> Instruction \<Rightarrow> bool" where
  "denotable k inst \<longleftrightarrow>
     k < length InstructionSet \<and>
     (let opcd = InstructionSet ! k in
      apply_args opcd inst (zero_inst\<lparr>I_Number := Op_Number opcd\<rparr>) = inst \<and>
      (\<forall>p \<in> set (inst_args opcd inst). arg_fits p))"

lemma row_at:
  assumes "k < length InstructionSet"
  shows "arr_get InstructionSet (sint (of_nat k :: i32)) = Inr (InstructionSet ! k)"
proof -
  have "length InstructionSet = 36" by (simp add: InstructionSet_def)
  with assms have "sint (of_nat k :: i32) = int k" by (simp add: sint_wrap_uint wrap32_def unsigned_of_nat take_bit_eq_mod)
  with assms show ?thesis by simp
qed

lemma expecting_simps [simp]:
  "inst_in (expecting opcd s) = inst_in s" "cur_inst (expecting opcd s) = cur_inst s"
  "with_inst i (expecting opcd s) = expecting opcd (with_inst i s)"
  by (simp_all add: expecting_def)

text \<open>What assembling did to the state, apart from the program.\<close>

definition quiet :: "asmrun \<Rightarrow> asmrun \<Rightarrow> bool" where
  "quiet s s' \<longleftrightarrow> error_count s' = error_count s \<and> stderr_text s' = stderr_text s \<and> forward s' = forward s \<and>
     symbolTable s' = symbolTable s"

lemma quiet_trans: "quiet s s' \<Longrightarrow> quiet s' s'' \<Longrightarrow> quiet s s''"
  by (simp add: quiet_def)

lemma opcode_assemble:
  assumes "core a = (Op_code, of_nat k)" "k < length InstructionSet" "X_index s < length (Program (X_code s))"
    and "map core as = concat (map arg_core (inst_args (InstructionSet ! k) inst))" "rest \<noteq> []"
  shows "\<exists>s1. asm_loop False (a # as @ rest) s = asm_loop False (as @ rest) (expecting (InstructionSet ! k) s1) \<and>
     inst_in s1 \<and> cur_inst s1 = zero_inst\<lparr>I_Number := Op_Number (InstructionSet ! k)\<rparr> \<and> quiet s s1 \<and>
     X_inst s1 = X_index s \<and> X_index s1 = X_index s + 1 \<and> X_pc s1 = X_pc s + 1 \<and>
     length (Program (X_code s1)) = length (Program (X_code s)) \<and>
     X_code (with_inst inst s1) = (X_code s)\<lparr>Program := (Program (X_code s))[X_index s := inst],
       InstructionCount := of_nat (X_index s + 1)\<rparr>"
proof -
  let ?o = "InstructionSet ! k"
  define s0 where "s0 = s\<lparr>X_inst := X_index s\<rparr>"
  have in0: "inst_in s0" using assms(3) by (simp add: s0_def inst_in_def)
  have ty: "arg_types_ok ?o" using arg_types_table assms(2) by simp
  obtain b where gc: "GetConfirm (a # as @ rest) ?o (with_inst zero_inst s0) = Inr (b, expecting ?o (with_inst zero_inst s0))"
    using GetConfirm_ok [OF assms(4) ty assms(5)] by blast
  define s2 where "s2 = with_inst (zero_inst\<lparr>I_Number := Op_Number ?o\<rparr>) s0"
  define s1 where "s1 = s2\<lparr>X_pc := X_pc s + 1, X_index := X_index s + 1,
    X_code := (X_code s2)\<lparr>InstructionCount := of_nat (X_index s + 1)\<rparr>, X_patom := Some a\<rparr>"
  have "asm_opcode False (a # as @ rest) s = Inr (True, (expecting ?o s2)\<lparr>X_pc := X_pc (expecting ?o s2) + 1,
      X_index := X_index (expecting ?o s2) + 1,
      X_code := (X_code (expecting ?o s2))\<lparr>InstructionCount := of_nat (X_index (expecting ?o s2) + 1)\<rparr>\<rparr>)"
    using in0 gc row_at [OF assms(2)] assms(1)
    by (simp add: asm_opcode_def s0_def [symmetric] core_def s2_def)
  moreover have "(expecting ?o s2)\<lparr>X_pc := X_pc (expecting ?o s2) + 1,
      X_index := X_index (expecting ?o s2) + 1,
      X_code := (X_code (expecting ?o s2))\<lparr>InstructionCount := of_nat (X_index (expecting ?o s2) + 1)\<rparr>,
      X_patom := Some a\<rparr> = expecting ?o s1"
    by (simp add: s1_def s2_def s0_def expecting_def with_inst_def)
  ultimately have "asm_loop False (a # as @ rest) s = asm_loop False (as @ rest) (expecting ?o s1)"
    using assms(1) by (simp add: asm_atom_def core_def)
  moreover have "inst_in s1 \<and> cur_inst s1 = zero_inst\<lparr>I_Number := Op_Number ?o\<rparr> \<and> quiet s s1 \<and>
     X_inst s1 = X_index s \<and> X_index s1 = X_index s + 1 \<and> X_pc s1 = X_pc s + 1 \<and>
     length (Program (X_code s1)) = length (Program (X_code s)) \<and>
     X_code (with_inst inst s1) = (X_code s)\<lparr>Program := (Program (X_code s))[X_index s := inst],
       InstructionCount := of_nat (X_index s + 1)\<rparr>"
    using assms(3) by (simp add: s1_def s2_def s0_def inst_in_def cur_inst_def quiet_def with_inst_def)
  ultimately show ?thesis by blast
qed

lemma line_assemble:
  assumes "map core ats = line_core k inst" "denotable k inst" "X_index s < length (Program (X_code s))"
  shows "\<exists>s'. asm_loop False (ats @ rest) s = asm_loop False rest s' \<and> no_expect s' \<and> quiet s s' \<and>
     X_index s' = X_index s + 1 \<and>
     X_code s' = (X_code s)\<lparr>Program := (Program (X_code s))[X_index s := inst], InstructionCount := of_nat (X_index s + 1)\<rparr>"
proof -
  let ?o = "InstructionSet ! k"
  have k: "k < length InstructionSet" and ap: "apply_args ?o inst (zero_inst\<lparr>I_Number := Op_Number ?o\<rparr>) = inst"
    using assms(2) by (auto simp: denotable_def Let_def)
  obtain a as z where ats: "ats = a # as @ [z]" "core a = (Op_code, of_nat k)" "core z = (Seperator, 0)"
     "map core as = concat (map arg_core (inst_args ?o inst))"
    using assms(1) by (auto simp: line_core_def map_eq_Cons_conv map_eq_append_conv)
  obtain s1 where s1: "asm_loop False (a # as @ z # rest) s = asm_loop False (as @ z # rest) (expecting ?o s1)"
     "inst_in s1" "cur_inst s1 = zero_inst\<lparr>I_Number := Op_Number ?o\<rparr>" "quiet s s1" "X_index s1 = X_index s + 1"
     "X_code (with_inst inst s1) = (X_code s)\<lparr>Program := (Program (X_code s))[X_index s := inst],
       InstructionCount := of_nat (X_index s + 1)\<rparr>"
    using opcode_assemble [OF ats(2) k assms(3) ats(4), of "z # rest"] by auto
  define s2 where "s2 = (with_inst inst s1)\<lparr>X_patom := (if as = [] then X_patom s1 else Some (last as)),
       expect_lit := False, expect_sr1 := False, expect_sr2 := False, expect_dst := False\<rparr>"
  have "asm_loop False (as @ z # rest) (expecting ?o s1) = asm_loop False (z # rest) s2"
    using args_assemble [OF ats(4) _ s1(2), of "z # rest"] arg_types_table k ap s1(3) by (simp add: s2_def)
  moreover have "asm_loop False (z # rest) s2 = asm_loop False rest ((ResetStacks s2)\<lparr>X_patom := Some z\<rparr>)"
    using ats(3) by (simp add: asm_atom_def core_def asm_seperator_def Let_def s2_def ResetStacks_def)
  ultimately have "asm_loop False (ats @ rest) s = asm_loop False rest ((ResetStacks s2)\<lparr>X_patom := Some z\<rparr>)"
    using s1(1) ats(1) by simp
  with s1(4-6) show ?thesis
    by (intro exI [of _ "(ResetStacks s2)\<lparr>X_patom := Some z\<rparr>"])
      (simp add: s2_def ResetStacks_def no_expect_def quiet_def with_inst_def)
qed


section \<open>Assembling a program\<close>

definition header_line :: "u32 \<Rightarrow> string" where
  "header_line la = print_hex la @ '':'' @ nl"

fun src_lines :: "nat list \<Rightarrow> Instruction list \<Rightarrow> string" where
  "src_lines (k # ks) (i # is) = src_line (InstructionSet ! k) i @ src_lines ks is"
| "src_lines ks is = []"

text \<open>The source text of a program: its load address as a label, then its instructions.\<close>

definition print_source :: "nat list \<Rightarrow> ProgramBuf \<Rightarrow> string" where
  "print_source ks code = header_line (LoadAddress code) @ src_lines ks (Program code)"

fun prog_core :: "nat list \<Rightarrow> Instruction list \<Rightarrow> (AtomType \<times> i32) list" where
  "prog_core (k # ks) (i # is) = line_core k i @ prog_core ks is"
| "prog_core ks is = []"

lemma lex_lines:
  assumes "list_all2 denotable ks is" "L_cp l = src_lines ks is @ CHR 0x00 # r" "L_pos l = 0"
    "length (src_lines ks is) \<le> b"
  shows "\<exists>l'. lexes b l (prog_core ks is) (CHR 0x00 # r) 0 l'"
  using assms
proof (induction ks "is" arbitrary: l rule: list_all2_induct)
  case Nil
  then have "lexes b l [] (CHR 0x00 # r) 0 l" by (simp add: lexes_def)
  then show ?case by auto
next
  case (Cons k ks i "is")
  obtain l1 where l1: "lexes b l (line_core k i) (src_lines ks is @ CHR 0x00 # r) 0 l1"
    using lex_line [of l k i "src_lines ks is @ CHR 0x00 # r" b] Cons by (auto simp: denotable_def Let_def)
  with Cons obtain l2 where l2: "lexes b l1 (prog_core ks is) (CHR 0x00 # r) 0 l2"
    using lexesD [OF l1] by auto
  show ?case using lexes_trans [OF l1 l2] by auto
qed

lemma lex_header:
  assumes "L_cp l = header_line la @ r" "L_pos l = 1" "length (header_line la) \<le> b"
  shows "\<exists>l'. lexes b l [(Numeric, la), (Operator, 23), (Seperator, 0)] r 0 l'"
proof -
  have d: "\<not> starts_digit 16 ('':'' @ nl @ r)" by (simp add: starts_digit_def is_digit_in_def digit_val_def)
  obtain l1 where l1: "lexes b l [(Numeric, la)] ('':'' @ nl @ r) (1 + length (print_hex la)) l1"
    using lex_hex [of l la "'':'' @ nl @ r" b] d assms by (auto simp: header_line_def)
  obtain l2 where l2: "lexes b l1 [(Operator, 23)] (nl @ r) (2 + length (print_hex la)) l2"
    using lex_colon [of l1 r b] lexesD [OF l1] assms(3) by (auto simp: header_line_def)
  obtain l3 where l3: "lexes b l2 [(Seperator, 0)] r 0 l3"
    using lex_newline [of l2 r b] lexesD [OF l2] assms(3) by (auto simp: header_line_def)
  show ?thesis using lexes_trans [OF lexes_trans [OF l1 l2] l3] by auto
qed

lemma lex_stop: "L_cp l = CHR 0x00 # r \<Longrightarrow> L_pos l \<le> st \<Longrightarrow> lex_loop st l s = Inr (L_atoms l @ [NewAtom], s)"
  by (simp add: lex_loop.simps [of st l] lex_step_def class_sep)

lemma GetAtoms_source:
  assumes "list_all2 denotable ks (Program code)" "n = length (print_source ks code)"
  shows "\<exists>as. GetAtoms n (print_source ks code @ CHR 0x00 # r) (s :: asmrun) = Inr (Some (as @ [NewAtom]), s) \<and>
    map core as = [(Numeric, LoadAddress code), (Operator, 23), (Seperator, 0)] @ prog_core ks (Program code)"
proof -
  let ?buf = "print_source ks code @ CHR 0x00 # r"
  obtain l1 where l1: "lexes n (lex_start ?buf) [(Numeric, LoadAddress code), (Operator, 23), (Seperator, 0)]
      (src_lines ks (Program code) @ CHR 0x00 # r) 0 l1"
    using lex_header [of "lex_start ?buf" "LoadAddress code" _ n] assms(2)
    by (auto simp: lex_start_def print_source_def)
  obtain l2 where l2: "lexes n l1 (prog_core ks (Program code)) (CHR 0x00 # r) 0 l2"
    using lex_lines [OF assms(1), of l1 r n] lexesD [OF l1] assms(2) by (auto simp: print_source_def)
  note l12 = lexes_trans [OF l1 l2]
  then obtain as where as: "L_atoms l2 = as"
    "map core as = [(Numeric, LoadAddress code), (Operator, 23), (Seperator, 0)] @ prog_core ks (Program code)"
    by (auto simp: lexes_def lex_start_def)
  have "lex_loop n (lex_start ?buf) s = lex_loop n l2 s" using l12 by (auto simp: lexes_def)
  also have "\<dots> = Inr (as @ [NewAtom], s)" using lex_stop [of l2 r n s] lexesD [OF l2] as by simp
  finally have "lex_loop n (lex_start ?buf) s = Inr (as @ [NewAtom], s)" .
  moreover have "?buf \<noteq> []" "hd ?buf \<noteq> CHR ''.''" by (simp_all add: print_source_def header_line_def print_hex_def)
  ultimately show ?thesis using as(2) by (intro exI [of _ as]) (simp add: GetAtoms_def)
qed

lemma prog_assemble:
  assumes "list_all2 denotable ks is" "map core ats = prog_core ks is"
    "X_index s + length is \<le> length (Program (X_code s))" "no_expect s"
  shows "\<exists>s'. asm_loop False (ats @ rest) s = asm_loop False rest s' \<and> no_expect s' \<and> quiet s s' \<and>
     X_code s' = (X_code s)\<lparr>Program := take (X_index s) (Program (X_code s)) @ is @
         drop (X_index s + length is) (Program (X_code s)),
       InstructionCount := (if is = [] then InstructionCount (X_code s) else of_nat (X_index s + length is))\<rparr>"
  using assms
proof (induction ks "is" arbitrary: ats s rule: list_all2_induct)
  case Nil
  then show ?case by (auto simp: quiet_def)
next
  case (Cons k ks i "is")
  obtain as bs where ats: "ats = as @ bs" "map core as = line_core k i" "map core bs = prog_core ks is"
    using Cons.prems(1) by (auto simp: map_eq_append_conv)
  let ?P = "Program (X_code s)" and ?n = "X_index s"
  obtain s1 where s1: "asm_loop False (as @ bs @ rest) s = asm_loop False (bs @ rest) s1" "no_expect s1" "quiet s s1"
     "X_index s1 = ?n + 1"
     "X_code s1 = (X_code s)\<lparr>Program := ?P[?n := i], InstructionCount := of_nat (?n + 1)\<rparr>"
    using line_assemble [OF ats(2) Cons.hyps(1), of s "bs @ rest"] Cons.prems(2) by auto
  obtain s2 where s2: "asm_loop False (bs @ rest) s1 = asm_loop False rest s2" "no_expect s2" "quiet s1 s2"
     "X_code s2 = (X_code s1)\<lparr>Program := take (X_index s1) (Program (X_code s1)) @ is @
         drop (X_index s1 + length is) (Program (X_code s1)),
       InstructionCount := (if is = [] then InstructionCount (X_code s1) else of_nat (X_index s1 + length is))\<rparr>"
    using Cons.IH [OF ats(3), of s1] Cons.prems(2) s1(2,4,5) by auto
  have "take (?n + 1) (?P[?n := i]) = take ?n ?P @ [i]"
    using Cons.prems(2) by (simp add: take_push)
  with s1(4,5) s2(4) have "X_code s2 = (X_code s)\<lparr>Program := take ?n ?P @ (i # is) @ drop (?n + length (i # is)) ?P,
       InstructionCount := of_nat (?n + length (i # is))\<rparr>" by simp
  with s1(1,3) s2 ats(1) quiet_trans show ?case by (intro exI [of _ s2]) auto
qed

lemma header_assemble:
  assumes "map core as = [(Numeric, la), (Operator, 23), (Seperator, 0)]" "no_expect s" "X_pc s = 0"
    "operandStackSize s < OPERAND_STACK"
  shows "\<exists>s'. asm_loop False (as @ rest) s = asm_loop False rest s' \<and> no_expect s' \<and> quiet s s' \<and>
    X_index s' = X_index s \<and> X_code s' = (X_code s)\<lparr>LoadAddress := la\<rparr>"
proof -
  obtain a b c where abc: "as = [a, b, c]" "A_Type a = Numeric" "A_Value a = la" "A_Type b = Operator" "A_Value b = 23"
      "A_Type c = Seperator"
    using assms(1) by (auto simp: map_eq_Cons_conv core_def)
  have row: "opr_row 23 = Inr (OprLBL, '':'')"
    by (simp add: opr_row_def arr_get_def OprNames_def)
  define s1 where "s1 = s\<lparr>operandStack := (operandStack s)[operandStackSize s := lit_operand la],
      operandStackSize := operandStackSize s + 1, X_patom := Some a\<rparr>"
  define s2 where "s2 = s1\<lparr>X_pc := la, X_code := (X_code s)\<lparr>LoadAddress := la\<rparr>, X_patom := Some b\<rparr>"
  have "asm_loop False ([a, b, c] @ rest) s = asm_loop False ([b, c] @ rest) s1"
    using assms(2,4) abc by (simp add: asm_atom_def asm_numeric_def no_expect_def PushOperand_def s1_def)
  also have "\<dots> = asm_loop False ([c] @ rest) s2"
    using assms(3) abc by (simp add: asm_atom_def asm_operator_def row asm_label_def s1_def s2_def)
  also have "\<dots> = asm_loop False rest ((ResetStacks s2)\<lparr>X_patom := Some c\<rparr>)"
    using assms(2) abc by (simp add: asm_atom_def asm_seperator_def ResetStacks_def s1_def s2_def no_expect_def Let_def)
  finally show ?thesis
    using assms(2) abc(1)
    by (intro exI [of _ "(ResetStacks s2)\<lparr>X_patom := Some c\<rparr>"])
      (auto simp: s1_def s2_def ResetStacks_def no_expect_def quiet_def)
qed

text \<open>The source text is plain text with one newline per line.\<close>

definition plain :: "char \<Rightarrow> bool" where
  "plain c \<longleftrightarrow> c \<noteq> CHR 0x0A \<and> c \<noteq> CHR 0x00 \<and> c \<noteq> CHR 0xFF"

lemma plain_alnum: "list_all alnum w \<Longrightarrow> list_all plain w"
  by (auto simp: list_all_iff alnum_def letter_def plain_def)

lemma plain_hex: "list_all plain (print_hex v)"
proof -
  have "plain c" if c: "c \<in> set (fmt_X v)" for c
  proof -
    obtain d where "d < 16" "c = digit_char d"
      using show_base_chars [of 16 c "unat v"] c by (auto simp: fmt_X_def)
    then show ?thesis by (auto simp: plain_def digit_char_def dest!: arg_cong [of _ _ "of_char :: char \<Rightarrow> nat"])
  qed
  then show ?thesis by (auto simp: list_all_iff print_hex_def) (simp_all add: plain_def)
qed

lemma plain_arg: "arg_fits p \<Longrightarrow> list_all plain (src_arg p)"
proof (cases "fst p = AtRegister")
  case True
  assume "arg_fits p"
  with True obtain n where n: "n < 256" "sint (snd p) = int n"
    using reg_index_nat [of "snd p"] by (auto simp: arg_fits_def)
  then show ?thesis
    using True plain_alnum [OF register_name(1) [OF n(1)]] by (simp add: src_arg_def arg_text_def plain_def)
next
  case False
  then show ?thesis
    using plain_hex [of "snd p"] by (cases "fst p") (auto simp: src_arg_def arg_text_def print_hex_def plain_def)
qed

definition count_nl :: "string \<Rightarrow> nat" where
  "count_nl s = length (filter (\<lambda>c. c = CHR 0x0A) s)"

lemma plain_count: "list_all plain w \<Longrightarrow> count_nl (w @ nl @ r) = Suc (count_nl r)"
proof -
  assume "list_all plain w"
  then have "filter (\<lambda>c. c = CHR 0x0A) w = []" by (auto simp: list_all_iff plain_def filter_empty_conv)
  then show ?thesis by (simp add: count_nl_def)
qed

lemma plain_line: "denotable k i \<Longrightarrow> \<exists>w. src_line (InstructionSet ! k) i = w @ nl \<and> list_all plain w"
proof -
  assume d: "denotable k i"
  have "list_all plain (Op_Name (InstructionSet ! k))"
    using op_names_plain [of "InstructionSet ! k"] d
    by (intro plain_alnum) (auto simp: denotable_def Let_def list_all_iff alnum_def)
  moreover have "list_all plain (concat (map src_arg (inst_args (InstructionSet ! k) i)))"
    using d plain_arg by (auto simp: denotable_def Let_def list_all_iff)
  ultimately show ?thesis
    by (intro exI [of _ "Op_Name (InstructionSet ! k) @ concat (map src_arg (inst_args (InstructionSet ! k) i))"])
      (simp add: src_line_def)
qed

definition text_char :: "char \<Rightarrow> bool" where
  "text_char c \<longleftrightarrow> c \<noteq> CHR 0xFF \<and> c \<noteq> CHR 0x00"

lemma plain_text: "list_all plain w \<Longrightarrow> list_all text_char w"
  by (auto simp: list_all_iff plain_def text_char_def)

lemma text_nl [simp]: "text_char (CHR 0x0A)" by (simp add: text_char_def)

lemma src_lines_text:
  "list_all2 denotable ks is \<Longrightarrow> list_all text_char (src_lines ks is) \<and> count_nl (src_lines ks is) = length is"
proof (induction ks "is" rule: list_all2_induct)
  case (Cons k ks i "is")
  obtain w where w: "src_line (InstructionSet ! k) i = w @ nl" "list_all plain w"
    using plain_line [OF Cons.hyps(1)] by blast
  with Cons.IH plain_count [OF w(2), of "src_lines ks is"] plain_text show ?case by simp
qed (simp add: count_nl_def)

lemma print_source_text:
  assumes "list_all2 denotable ks (Program code)"
  shows "list_all text_char (print_source ks code)" "count_nl (print_source ks code) = Suc (length (Program code))"
proof -
  have h: "list_all plain (print_hex (LoadAddress code) @ '':'')" using plain_hex by (simp add: plain_def)
  have p: "print_source ks code = (print_hex (LoadAddress code) @ '':'') @ nl @ src_lines ks (Program code)"
    by (simp add: print_source_def header_line_def)
  show "list_all text_char (print_source ks code)"
    unfolding p using plain_text [OF h] src_lines_text [OF assms] by (simp add: text_char_def)
  show "count_nl (print_source ks code) = Suc (length (Program code))"
    unfolding p plain_count [OF h] using src_lines_text [OF assms] by simp
qed

lemma source_text_plain: "list_all text_char file \<Longrightarrow> source_text file = file"
  by (simp add: source_text_def takeWhile_eq_all_conv list_all_iff text_char_def)

lemma Assemble_source:
  assumes "list_all2 denotable ks (Program code)" "n = length (print_source ks code)"
    and "Program p = x # xs" "length xs = length (Program code)"
  shows "\<exists>s'. Assemble n (print_source ks code @ CHR 0x00 # r) False (asm_start p) = Inr s' \<and>
    quiet (asm_start p) s' \<and> LoadAddress (X_code s') = LoadAddress code \<and>
    InstructionCount (X_code s') = (if Program code = [] then InstructionCount p else of_nat (length (Program code))) \<and>
    take (length (Program code)) (Program (X_code s')) = Program code \<and>
    length (Program (X_code s')) = Suc (length (Program code))"
proof -
  let ?N = "length (Program code)"
  obtain as where as: "GetAtoms n (print_source ks code @ CHR 0x00 # r) (asm_start p) = Inr (Some (as @ [NewAtom]), asm_start p)"
    "map core as = [(Numeric, LoadAddress code), (Operator, 23), (Seperator, 0)] @ prog_core ks (Program code)"
    using GetAtoms_source [OF assms(1,2)] by blast
  obtain hs bs where hb: "as = hs @ bs" "map core hs = [(Numeric, LoadAddress code), (Operator, 23), (Seperator, 0)]"
      "map core bs = prog_core ks (Program code)"
    using map_eq_append_conv [THEN iffD1, OF as(2)] by metis
  define s1 where "s1 = out_if True (nl @ ''Ln:'' @ fmt_0d 3 (of_nat (A_LineNumber (hd (as @ [NewAtom])))) @
    [CHR 0x09, CHR 0x09]) (with_inst zero_inst (asm_start p))"
  have s1: "no_expect s1" "X_pc s1 = 0" "operandStackSize s1 < OPERAND_STACK" "X_index s1 = 0" "quiet (asm_start p) s1"
     "X_code s1 = p\<lparr>Program := zero_inst # xs\<rparr>"
    by (simp_all add: s1_def out_if_def with_inst_def asm_start_def no_expect_def OPERAND_STACK_def quiet_def assms(3))
  obtain s2 where s2: "asm_loop False (hs @ bs @ [NewAtom]) s1 = asm_loop False (bs @ [NewAtom]) s2" "no_expect s2"
     "quiet s1 s2" "X_index s2 = 0" "X_code s2 = p\<lparr>Program := zero_inst # xs, LoadAddress := LoadAddress code\<rparr>"
    using header_assemble [OF hb(2) s1(1,2,3)] s1(4,6) by auto
  obtain s3 where s3: "asm_loop False (bs @ [NewAtom]) s2 = asm_loop False [NewAtom] s3" "no_expect s3" "quiet s2 s3"
     "X_code s3 = (X_code s2)\<lparr>Program := Program code @ drop ?N (zero_inst # xs),
       InstructionCount := (if Program code = [] then InstructionCount p else of_nat ?N)\<rparr>"
    using prog_assemble [OF assms(1) hb(3), of s2 "[NewAtom]"] s2(2,4,5) assms(4) by auto
  have last: "asm_loop False [NewAtom] s3 = Inr (True, (ResetStacks s3)\<lparr>X_patom := Some NewAtom\<rparr>)"
    using s3(2) by (simp add: asm_atom_def asm_seperator_def NewAtom_def no_expect_def ResetStacks_def Let_def)
  have st: "(asm_start p)\<lparr>X_pc := 0, X_index := 0, X_inst := 0, X_patom := None,
               expect_lit := False, expect_sr1 := False, expect_sr2 := False, expect_dst := False\<rparr> = asm_start p"
    by (simp add: asm_start_def)
  have inn: "inst_in (asm_start p)" by (simp add: inst_in_def asm_start_def assms(3))
  have loop: "asm_loop False (as @ [NewAtom]) s1 = Inr (True, (ResetStacks s3)\<lparr>X_patom := Some NewAtom\<rparr>)"
    using s2(1) s3(1) last hb(1) by (simp del: asm_loop.simps)
  have "Assemble n (print_source ks code @ CHR 0x00 # r) False (asm_start p) =
      Inr ((ResetStacks s3)\<lparr>X_patom := Some NewAtom\<rparr>)"
    using loop inn by (simp add: Assemble_def as(1) st s1_def)
  moreover have "quiet (asm_start p) s3" using s1(5) s2(3) s3(3) quiet_trans by blast
  ultimately show ?thesis
    using s3(4) s2(5) assms(4)
    by (intro exI [of _ "(ResetStacks s3)\<lparr>X_patom := Some NewAtom\<rparr>"]) (simp add: ResetStacks_def quiet_def)
qed


lemma write_insts_take: "write_insts n prog = write_insts n (take n prog)"
  by (induction n prog rule: write_insts.induct) auto

lemma WriteObject_prefix:
  assumes "LoadAddress c = LoadAddress c'" "InstructionCount c = InstructionCount c'"
    "take (unat (InstructionCount c)) (Program c) = take (unat (InstructionCount c)) (Program c')"
  shows "WriteObject c = WriteObject c'"
  using assms by (simp add: WriteObject_def write_insts_take [of _ "Program c"] write_insts_take [of _ "Program c'"])

lemma assemble_print:
  assumes "list_all2 denotable ks (Program code)" "InstructionCount code = of_nat (length (Program code))"
    and "length (Program code) < 2 ^ 29" "\<forall>k. malloc k \<noteq> None"
  shows "\<exists>s obj. assemble_file malloc (print_source ks code) = Inr (s, obj) \<and> error_count s = 0 \<and>
    WriteObject code = Inr obj"
proof -
  let ?f = "print_source ks code" and ?N = "length (Program code)"
  have st: "source_text ?f = ?f" using source_text_plain print_source_text(1) [OF assms(1)] by blast
  have lines: "source_lines ?f = Suc ?N"
    using print_source_text(2) [OF assms(1)] by (simp add: source_lines_def st count_nl_def)
  have buf: "source_buffer ?f = ?f @ CHR 0x00 # replicate 15 (CHR 0x00)"
    by (simp add: source_buffer_def st numeral_eq_Suc)
  have len: "\<not> length ?f < 2" by (simp add: print_source_def header_line_def)
  obtain m where m: "malloc (8 * Suc ?N) = Some m" using assms(4) by auto
  define p where "p = \<lparr>LoadAddress = 0, InstructionCount = 0, Program = map m [0..<Suc ?N]\<rparr>"
  have P: "Program p = m 0 # map m [1..<Suc ?N]" by (simp add: p_def upt_rec)
  have L: "length (map m [1..<Suc ?N]) = ?N" by (simp del: upt_Suc)
  obtain s' where s': "Assemble (length ?f) (?f @ CHR 0x00 # replicate 15 (CHR 0x00)) False (asm_start p) = Inr s'"
     "quiet (asm_start p) s'" "LoadAddress (X_code s') = LoadAddress code"
     "InstructionCount (X_code s') = (if Program code = [] then InstructionCount p else of_nat ?N)"
     "take ?N (Program (X_code s')) = Program code" "length (Program (X_code s')) = Suc ?N"
    using Assemble_source [OF assms(1) refl P L, of "replicate 15 (CHR 0x00)"] by auto
  have e: "error_count s' = 0" "forward s' = []" using s'(2) by (simp_all add: quiet_def asm_start_def)
  have ic: "InstructionCount (X_code s') = InstructionCount code"
    using s'(4) assms(2) by (auto simp: p_def)
  have "unat (InstructionCount code) = ?N" using assms(2,3) by (simp add: unat_of_nat)
  then have w: "WriteObject (X_code s') = WriteObject code"
    using s'(3,5) ic by (intro WriteObject_prefix) auto
  obtain obj where obj: "WriteObject code = Inr obj"
    using write_insts_total [of ?N "Program code"] \<open>unat (InstructionCount code) = ?N\<close> by (auto simp: WriteObject_def)
  have "assemble_file malloc ?f = Inr (s', obj)"
    using s'(1) e w obj m
    by (simp add: assemble_file_def len lines buf p_def [symmetric] del: upt_Suc mult_Suc_right)
  with e obj show ?thesis by blast
qed

section \<open>Properties\<close>

text \<open>
  C6: assembling the canonical source text of a program (its load address, then one line per
  instruction) reports no error and writes an object file that is read back as exactly that
  program: every opcode of the table, literal and register operand, over the whole chain of
  lexical analysis, syntax check, assembly, object writer and object reader.
\<close>

lemma assemble_then_read:
  assumes "list_all2 denotable ks (Program code)" "InstructionCount code = of_nat (length (Program code))"
    and "length (Program code) < 2 ^ 29" "\<forall>k. malloc k \<noteq> None"
  shows "\<exists>s obj. assemble_file malloc (print_source ks code) = Inr (s, obj) \<and> error_count s = 0 \<and>
    ReadObject malloc obj buf = Inr code"
proof -
  obtain s obj where s: "assemble_file malloc (print_source ks code) = Inr (s, obj)" "error_count s = 0"
      "WriteObject code = Inr obj"
    using assemble_print [OF assms] by blast
  obtain mem where "malloc (8 * length (Program code)) = Some mem" using assms(4) by blast
  with read_write_object [OF assms(2,3)] s show ?thesis by force
qed

definition ex_rows :: "nat list" where
  "ex_rows = [9, 21, 28]"

lemma ex_rows_denotable: "list_all2 denotable ex_rows (Program ex_loop)"
  by (simp add: ex_rows_def ex_loop_def ex_inst_def denotable_def Let_def InstructionSet_def opc_def apply_args_def
      zero_inst_def inst_args_def arg_fits_def reg_index_def)

lemma assemble_then_read_witness:
  "\<exists>s obj. assemble_file (\<lambda>k. Some (\<lambda>i. junk_inst)) (print_source ex_rows ex_loop) = Inr (s, obj) \<and> error_count s = 0 \<and>
     ReadObject (\<lambda>k. Some (\<lambda>i. junk_inst)) obj \<lparr>LoadAddress = 0, InstructionCount = 0, Program = []\<rparr> = Inr ex_loop"
  by (rule assemble_then_read [OF ex_rows_denotable]) (simp_all add: ex_loop_def)

text \<open>
  the lexical analyser reads the canonical source text as its tokens: the load address,
  the label operator and a separator, then for every instruction the index of its row in the
  instruction set, its operands as numbers and register numbers, and a separator. It returns
  at the NUL behind the text without an error.
\<close>

lemma GetAtoms_tokens:
  assumes "list_all2 denotable ks (Program code)" "n = length (print_source ks code)"
  shows "\<exists>as. GetAtoms n (print_source ks code @ CHR 0x00 # r) (s :: asmrun) = Inr (Some (as @ [NewAtom]), s) \<and>
    map core as = [(Numeric, LoadAddress code), (Operator, 23), (Seperator, 0)] @ prog_core ks (Program code)"
  using assms by (rule GetAtoms_source)

lemma GetAtoms_tokens_witness:
  "\<exists>as. GetAtoms (length (print_source ex_rows ex_loop)) (print_source ex_rows ex_loop @ CHR 0x00 # [])
      (asm_start ex_loop) = Inr (Some (as @ [NewAtom]), asm_start ex_loop) \<and>
    map core as = [(Numeric, 16), (Operator, 23), (Seperator, 0)] @ prog_core ex_rows (Program ex_loop)"
  using GetAtoms_tokens [OF ex_rows_denotable refl, of "[]" "asm_start ex_loop"] by (simp add: ex_loop_def)

text \<open>
  The assembler looks every register's printed name up as that register; no register
  name is an opcode. (The emulator's lookup misreads one of them.)
\<close>

lemma register_lookup:
  assumes "r < 256" "A_Text a = Some (GetRegisterName (int r))"
  shows "LookUpOpCode a = Inr (a, False) \<and>
    LookUpRegister a = Inr (a\<lparr>A_Type := Register, A_Value := of_nat r\<rparr>, True)"
  using assms register_name [OF assms(1)] LookUpOpCode_other [of "RegToString (int r)" a]
  by (simp add: GetRegisterName_def upper_alnum ascii_alnum)

lemma register_lookup_witness:
  "LookUpRegister (NewAtom\<lparr>A_Text := Some (GetRegisterName 214)\<rparr>) =
     Inr (NewAtom\<lparr>A_Text := Some (GetRegisterName 214), A_Type := Register, A_Value := 214\<rparr>, True)"
  using register_lookup [of 214 "NewAtom\<lparr>A_Text := Some (GetRegisterName 214)\<rparr>"] by simp

text \<open>
  C29: whatever the source text, when \<open>Assemble\<close> returns, the assembler's tables are well
  formed: the symbol table within its 1024 entries with distinct names, both stacks within
  their arrays, every operand's symbol in the table, at most 99 forward references, each to
  an instruction of the program array and a symbol of the table (so the second pass stays
  inside them), and the program array has kept its size.
\<close>

lemma Assemble_tables:
  assumes "asm_inv s" "Assemble n text listing s = Inr s'"
  shows "asm_inv s' \<and> length (Program (X_code s')) = length (Program (X_code s))"
  using Assemble_inv [OF assms] by (simp add: same_size_def)

lemma asm_start_inv: "asm_inv (asm_start p)"
  by (simp add: asm_inv_def asm_wf_def sym_wf_def asm_start_def FORWARD_REFS_def)

lemma Assemble_tables_witness:
  "\<exists>s'. Assemble (length (print_source ex_rows ex_loop)) (print_source ex_rows ex_loop @ [CHR 0x00]) False
      (asm_start (ex_loop\<lparr>Program := replicate 4 junk_inst\<rparr>)) = Inr s' \<and> asm_inv s'"
proof -
  let ?p = "ex_loop\<lparr>Program := replicate 4 junk_inst\<rparr>"
  have "Program ?p = junk_inst # replicate 3 junk_inst" by (simp add: numeral_eq_Suc)
  moreover have "length (replicate 3 junk_inst) = length (Program ex_loop)" by (simp add: ex_loop_def)
  ultimately obtain s' where s': "Assemble (length (print_source ex_rows ex_loop))
      (print_source ex_rows ex_loop @ [CHR 0x00]) False (asm_start ?p) = Inr s'"
    using Assemble_source [OF ex_rows_denotable refl, of ?p junk_inst "replicate 3 junk_inst" "[]"] by blast
  with Assemble_tables [OF asm_start_inv s'] show ?thesis by blast
qed

end
