(* ===== verification/Mtt_Driver.thy ===== *)
theory Mtt_Driver
  imports Mtt_Object
begin

text \<open>
  The MTT driver (mttn/driver/mtt-skel.c): the module's private data \<open>udata\<close>, the ioctl
  handlers and the callbacks of the driver skeleton. The memory map of the board is an array
  of 32-bit words at the offsets of \<^verbatim>\<open>MttDrvrMap\<close> (mttn/include/mtthard.h); every access is
  also recorded, in order and together with the lock operations, in a trace. The board's own
  reaction to a write is not part of the driver: between two calls any word may change.
  Words of the program memory are as the board sees them, Dest in the most significant byte.
  Whether memory can be allocated, a user buffer copied and the bus answers are inputs.
\<close>

section \<open>The board\<close>

definition MTT_INTSR :: nat where "MTT_INTSR = 0x000"
definition MTT_INTEN :: nat where "MTT_INTEN = 0x004"
definition MTT_INTR :: nat where "MTT_INTR = 0x008"
definition MTT_VHDL :: nat where "MTT_VHDL = 0x00c"
definition MTT_STATUS :: nat where "MTT_STATUS = 0x010"
definition MTT_COMMAND :: nat where "MTT_COMMAND = 0x014"
definition MTT_COMMAND_VAL :: nat where "MTT_COMMAND_VAL = 0x018"
definition MTT_SEC :: nat where "MTT_SEC = 0x01c"
definition MTT_MSEC :: nat where "MTT_MSEC = 0x020"
definition MTT_TASKS_START :: nat where "MTT_TASKS_START = 0x024"
definition MTT_TASKS_STOP :: nat where "MTT_TASKS_STOP = 0x028"
definition MTT_TASKS_CURR :: nat where "MTT_TASKS_CURR = 0x02c"
definition MTT_TASKS :: nat where "MTT_TASKS = 0x030"
definition MTT_REV_PRIO :: u32 where "MTT_REV_PRIO = 1251465263"

definition MttDrvrGRAM_SIZE :: nat where "MttDrvrGRAM_SIZE = 224"
definition MttDrvrLRAM_SIZE :: nat where "MttDrvrLRAM_SIZE = 32"
definition MttDrvrTASKS :: nat where "MttDrvrTASKS = 16"
definition MttDrvrTASK_MASK :: u32 where "MttDrvrTASK_MASK = 0xFFFF"
definition MttDrvrINSTRUCTIONS :: nat where "MttDrvrINSTRUCTIONS = 4096"
definition MttDrvrIntMASK :: u32 where "MttDrvrIntMASK = 0x03FFFFFF"
definition MttDrvrStatusBUS_FAULT :: u32 where "MttDrvrStatusBUS_FAULT = 0x100"
definition MttDrvrStatusFLASH_OPEN :: u32 where "MttDrvrStatusFLASH_OPEN = 0x200"

datatype MttDrvrCommand =
  MttDrvrCommandRESET | MttDrvrCommandENABLE | MttDrvrCommandEXTERNAL_1KHZ | MttDrvrCommandUTC_SENDING_ON
  | MttDrvrCommandSET_UTC | MttDrvrCommandSET_OUT_DELAY | MttDrvrCommandSET_SYNC_PERIOD
  | MttDrvrCommandSEND_EVENT | MttDrvrCommandB1RATE | MttDrvrCommandSEND_EVENT_LOW

definition cmd_code :: "MttDrvrCommand \<Rightarrow> u32" where
  "cmd_code c =
     (case c of MttDrvrCommandRESET \<Rightarrow> 0 | MttDrvrCommandENABLE \<Rightarrow> 1 | MttDrvrCommandEXTERNAL_1KHZ \<Rightarrow> 2
      | MttDrvrCommandUTC_SENDING_ON \<Rightarrow> 3 | MttDrvrCommandSET_UTC \<Rightarrow> 4 | MttDrvrCommandSET_OUT_DELAY \<Rightarrow> 5
      | MttDrvrCommandSET_SYNC_PERIOD \<Rightarrow> 6 | MttDrvrCommandSEND_EVENT \<Rightarrow> 7 | MttDrvrCommandB1RATE \<Rightarrow> 8
      | MttDrvrCommandSEND_EVENT_LOW \<Rightarrow> 9)"

text \<open>Word indices of the arrays in \<^verbatim>\<open>MttDrvrMap\<close>.\<close>

definition task_word :: "nat \<Rightarrow> nat" where "task_word i = 12 + 4 * i"
definition glob_word :: "int \<Rightarrow> int" where "glob_word r = 76 + r"
definition loc_word :: "nat \<Rightarrow> nat \<Rightarrow> nat" where "loc_word t r = 300 + 32 * t + r"
definition prog_word :: "nat \<Rightarrow> nat" where "prog_word k = 812 + 2 * k"
definition MAP_WORDS :: nat where "MAP_WORDS = 9004"

section \<open>State\<close>

definition MttDrvrNameSIZE :: nat where "MttDrvrNameSIZE = 32"

record mtt_task =
  T_LoadAddress :: u32
  T_InstructionCount :: u32
  T_PcStart :: u32
  T_PcOffset :: u32
  T_Pc :: u32
  T_Name :: string

datatype lockid = ModLock | TaskLock nat | IoLock

datatype io_event = Lock lockid | Unlock lockid | Wr int u32 | Rd int | JtagWr u32 | JtagRd

datatype SkelUserReturn = SkelUserReturnOK | SkelUserReturnFAILED | SkelUserReturnNOT_IMPLEMENTED

record udata =
  EnabledOutput :: u32
  CableId :: u32
  External1KHZ :: u32
  UtcSending :: u32
  OutputDelay :: u32
  SyncPeriod :: u32
  BusError :: bool
  FlashOpen :: bool
  U_Tasks :: "mtt_task list"
  iomap :: "u32 list"
  jtag :: u32
  trace :: "io_event list"
  errno :: "errno option"

text \<open>What the kernel answers during one call.\<close>

record kenv =
  bus_ok :: bool
  alloc_ok :: bool
  copy_ok :: bool

definition pseterr :: "errno \<Rightarrow> udata \<Rightarrow> udata" where
  "pseterr e u = u\<lparr>errno := Some e\<rparr>"

section \<open>Accesses\<close>

definition log_event :: "io_event \<Rightarrow> udata \<Rightarrow> udata" where
  "log_event e u = u\<lparr>trace := trace u @ [e]\<rparr>"

definition io_write :: "int \<Rightarrow> u32 \<Rightarrow> udata \<Rightarrow> udata result" where
  "io_write w v u = bind_r (arr_set (iomap u) w v) (\<lambda>m. Inr (log_event (Wr w v) (u\<lparr>iomap := m\<rparr>)))"

definition io_read :: "int \<Rightarrow> udata \<Rightarrow> (u32 \<times> udata) result" where
  "io_read w u = bind_r (arr_get (iomap u) w) (\<lambda>v. Inr (v, log_event (Rd w) u))"

definition mtt_writew :: "nat \<Rightarrow> u32 \<Rightarrow> udata \<Rightarrow> udata result" where
  "mtt_writew offset v u = io_write (int (offset div 4)) v u"

definition mtt_readw :: "nat \<Rightarrow> udata \<Rightarrow> (u32 \<times> udata) result" where
  "mtt_readw offs u = io_read (int (offs div 4)) u"

definition mtt_writes :: "u32 \<Rightarrow> udata \<Rightarrow> udata" where
  "mtt_writes v u = log_event (JtagWr v) (u\<lparr>jtag := v AND 0xFFFF\<rparr>)"

definition mtt_reads :: "udata \<Rightarrow> u32 \<times> udata" where
  "mtt_reads u = (jtag u, log_event JtagRd u)"

definition with_lock :: "lockid \<Rightarrow> (udata \<Rightarrow> ('r \<times> udata) result) \<Rightarrow> udata \<Rightarrow> ('r \<times> udata) result" where
  "with_lock l f u =
     bind_r (f (log_event (Lock l) u)) (\<lambda>(r, u'). Inr (r, log_event (Unlock l) u'))"

definition unit_r :: "(udata \<Rightarrow> udata result) \<Rightarrow> udata \<Rightarrow> (unit \<times> udata) result" where
  "unit_r f u = bind_r (f u) (\<lambda>u'. Inr ((), u'))"

definition run_locked :: "lockid \<Rightarrow> (udata \<Rightarrow> udata result) \<Rightarrow> udata \<Rightarrow> udata result" where
  "run_locked l f u = bind_r (with_lock l (unit_r f) u) (\<lambda>(r, u'). Inr u')"

definition mtt_orw :: "nat \<Rightarrow> u32 \<Rightarrow> udata \<Rightarrow> udata result" where
  "mtt_orw offset v =
     run_locked IoLock (\<lambda>u. bind_r (mtt_readw offset u) (\<lambda>(r, u1). mtt_writew offset (r OR v) u1))"

fun mtt_iowritew_r :: "int \<Rightarrow> u32 list \<Rightarrow> udata \<Rightarrow> udata result" where
  "mtt_iowritew_r w [] u = Inr u"
| "mtt_iowritew_r w (v # vs) u = bind_r (io_write w v u) (mtt_iowritew_r (w + 1) vs)"

fun mtt_ioreadw_r :: "int \<Rightarrow> nat \<Rightarrow> udata \<Rightarrow> (u32 list \<times> udata) result" where
  "mtt_ioreadw_r w 0 u = Inr ([], u)"
| "mtt_ioreadw_r w (Suc n) u =
     bind_r (io_read w u) (\<lambda>(v, u1). bind_r (mtt_ioreadw_r (w + 1) n u1) (\<lambda>(vs, u2). Inr (v # vs, u2)))"

definition mtt_get_status :: "udata \<Rightarrow> (u32 \<times> udata) result" where
  "mtt_get_status u =
     bind_r (mtt_readw MTT_STATUS u) (\<lambda>(r, u1).
       Inr (r OR (if FlashOpen u1 then MttDrvrStatusFLASH_OPEN else 0)
              OR (if BusError u1 then MttDrvrStatusBUS_FAULT else 0), u1\<lparr>BusError := False\<rparr>))"

text \<open>True when the module answers.\<close>

definition mtt_ping :: "kenv \<Rightarrow> udata \<Rightarrow> (bool \<times> udata) result" where
  "mtt_ping e u =
     (if bus_ok e then bind_r (mtt_readw MTT_VHDL u) (\<lambda>(v, u1). Inr (True, u1))
      else Inr (False, pseterr ENXIO (u\<lparr>BusError := True\<rparr>)))"

definition mtt_cmd_locked :: "MttDrvrCommand \<Rightarrow> u32 \<Rightarrow> udata \<Rightarrow> udata result" where
  "mtt_cmd_locked c v u = bind_r (mtt_writew MTT_COMMAND_VAL v u) (mtt_writew MTT_COMMAND (cmd_code c))"

definition mtt_cmd :: "MttDrvrCommand \<Rightarrow> u32 \<Rightarrow> udata \<Rightarrow> udata result" where
  "mtt_cmd c v = run_locked IoLock (mtt_cmd_locked c v)"

section \<open>Callbacks of the skeleton\<close>

definition SkelUserGetModuleVersion :: "kenv \<Rightarrow> udata \<Rightarrow> (SkelUserReturn \<times> string \<times> udata) result" where
  "SkelUserGetModuleVersion e u =
     bind_r (mtt_ping e u) (\<lambda>(up, u1).
       if \<not> up then Inr (SkelUserReturnFAILED, [], u1)
       else bind_r (mtt_readw MTT_VHDL u1) (\<lambda>(v, u2). Inr (SkelUserReturnOK, fmt_d v, u2)))"

definition mtt_set_utc :: "u32 \<Rightarrow> udata \<Rightarrow> udata result" where
  "mtt_set_utc sec = run_locked IoLock (mtt_cmd_locked MttDrvrCommandSET_UTC sec)"

text \<open>Reading the milliseconds first latches the seconds.\<close>

definition mtt_get_utc :: "udata \<Rightarrow> ((u32 \<times> u32) \<times> udata) result" where
  "mtt_get_utc =
     with_lock IoLock (\<lambda>u. bind_r (mtt_readw MTT_MSEC u) (\<lambda>(ms, u1).
       bind_r (mtt_readw MTT_SEC u1) (\<lambda>(sec, u2). Inr ((sec, ms), u2))))"

definition mtt_get_utc_skel :: "udata \<Rightarrow> ((u32 \<times> u32) \<times> udata) result" where
  "mtt_get_utc_skel u = bind_r (mtt_get_utc u) (\<lambda>((sec, ms), u1). Inr ((sec, ms * 1000), u1))"

definition mtt_quiesce :: "udata \<Rightarrow> udata result" where
  "mtt_quiesce u =
     bind_r (mtt_writew MTT_INTEN 0 u) (\<lambda>u1. bind_r (mtt_readw MTT_INTSR u1) (\<lambda>(v, u2). Inr u2))"

definition mtt_shift_intr_level :: "u32 \<Rightarrow> u32" where
  "mtt_shift_intr_level level = (if level = 3 then 0x300 else 0x200)"

text \<open>\<open>isr\<close> is the interrupt description of the module, when it has one: vector and level.\<close>

definition mtt_reset :: "(u32 \<times> u32) option \<Rightarrow> udata \<Rightarrow> udata result" where
  "mtt_reset isr u =
     bind_r (run_locked IoLock (\<lambda>u.
       bind_r (mtt_quiesce u) (\<lambda>u1.
       bind_r (mtt_cmd_locked MttDrvrCommandRESET 1 u1) (\<lambda>u2.
       bind_r (mtt_cmd_locked MttDrvrCommandENABLE 1 u2) (\<lambda>u3. Inr (u3\<lparr>EnabledOutput := 1\<rparr>))))) u) (\<lambda>u4.
     case isr of None \<Rightarrow> Inr u4
     | Some (vec, lev) \<Rightarrow> mtt_writew MTT_INTR (vec OR mtt_shift_intr_level lev) u4)"

definition cmd_if :: "u32 \<Rightarrow> MttDrvrCommand \<Rightarrow> u32 \<Rightarrow> udata \<Rightarrow> udata result" where
  "cmd_if cond c v u = (if cond \<noteq> 0 then mtt_cmd c v u else Inr u)"

definition udata_set_defaults :: "udata \<Rightarrow> udata result" where
  "udata_set_defaults u =
     (let u0 = u\<lparr>FlashOpen := False, UtcSending := 0, BusError := False\<rparr> in
      bind_r (cmd_if (EnabledOutput u0) MttDrvrCommandENABLE 1 u0) (\<lambda>u1.
      bind_r (cmd_if (External1KHZ u1) MttDrvrCommandEXTERNAL_1KHZ 1 u1) (\<lambda>u2.
      bind_r (cmd_if (SyncPeriod u2) MttDrvrCommandSET_SYNC_PERIOD (SyncPeriod u2) u2) (\<lambda>u3.
        cmd_if (OutputDelay u3) MttDrvrCommandSET_OUT_DELAY (OutputDelay u3) u3))))"

definition SkelUserHardwareReset :: "(u32 \<times> u32) option \<Rightarrow> udata \<Rightarrow> udata result" where
  "SkelUserHardwareReset isr u = bind_r (mtt_reset isr u) udata_set_defaults"

definition SkelUserGetInterruptSource :: "udata \<Rightarrow> ((u32 \<times> u32 \<times> u32) \<times> udata) result" where
  "SkelUserGetInterruptSource u =
     bind_r (mtt_readw MTT_INTSR u) (\<lambda>(src, u1). bind_r (mtt_get_utc_skel u1) (\<lambda>((sec, ns), u2). Inr ((src, sec, ns), u2)))"

definition SkelUserEnableInterrupts :: "u32 \<Rightarrow> udata \<Rightarrow> udata result" where
  "SkelUserEnableInterrupts msk u = mtt_orw MTT_INTEN (msk AND MttDrvrIntMASK) u"

definition SkelUserJtagReadByte :: "udata \<Rightarrow> u32 \<times> udata" where
  "SkelUserJtagReadByte u = mtt_reads u"

definition SkelUserJtagWriteByte :: "u32 \<Rightarrow> udata \<Rightarrow> udata" where
  "SkelUserJtagWriteByte v u = mtt_writes v u"

definition zero_task :: mtt_task where
  "zero_task = \<lparr>T_LoadAddress = 0, T_InstructionCount = 0, T_PcStart = 0, T_PcOffset = 0, T_Pc = 0,
     T_Name = replicate MttDrvrNameSIZE (CHR 0x00)\<rparr>"

definition zero_udata :: "u32 list \<Rightarrow> udata" where
  "zero_udata io = \<lparr>EnabledOutput = 0, CableId = 0, External1KHZ = 0, UtcSending = 0, OutputDelay = 0, SyncPeriod = 0,
     BusError = False, FlashOpen = False, U_Tasks = replicate MttDrvrTASKS zero_task, iomap = io, jtag = 0,
     trace = [], errno = None\<rparr>"

text \<open>
  The two mappings are found or not; without one the private data are freed again. The second
  component is the error number set, the third the private data when the module is usable.
\<close>

definition SkelUserModuleInit ::
  "kenv \<Rightarrow> (u32 \<times> u32) option \<Rightarrow> u32 list option \<Rightarrow> bool \<Rightarrow> (SkelUserReturn \<times> errno option \<times> udata option) result" where
  "SkelUserModuleInit e isr vme jtag_found =
     (if \<not> alloc_ok e then Inr (SkelUserReturnFAILED, Some ENOMEM, None)
      else case vme of
        None \<Rightarrow> Inr (SkelUserReturnFAILED, None, None)
      | Some io \<Rightarrow>
          if \<not> jtag_found then Inr (SkelUserReturnFAILED, None, None)
          else bind_r (SkelUserHardwareReset isr (zero_udata io)) (\<lambda>u. Inr (SkelUserReturnOK, None, Some u)))"

definition SkelUserModuleRelease :: "udata \<Rightarrow> udata result" where
  "SkelUserModuleRelease u = mtt_quiesce u"

section \<open>Requests\<close>

record MttDrvrTaskBlock =
  B_Pc :: u32
  B_PcOffset :: u32
  B_TaskStatus :: u32
  B_ProcessorStatus :: u32

text \<open>\<open>TB_Name\<close> and \<open>T_Name\<close> are the 32 characters of the array.\<close>

record MttDrvrTaskBuf =
  TB_Task :: u32
  TB_Fields :: u32
  TB_LoadAddress :: u32
  TB_InstructionCount :: u32
  TB_PcStart :: u32
  TB_ControlBlock :: MttDrvrTaskBlock
  TB_Name :: string

record MttDrvrTaskRegBuf =
  TR_Task :: u32
  TR_RegMask :: u32
  TR_RegVals :: "u32 list"

datatype reply =
    R_none | R_val u32 | R_time u32 u32 | R_tcb MttDrvrTaskBuf | R_treg MttDrvrTaskRegBuf
  | R_prog "Instruction list" | R_raw "u32 list" | R_version u32 u32

type_synonym handler = "udata \<Rightarrow> (SkelUserReturn \<times> reply \<times> udata) result"

text \<open>An operation that cannot fail, a failure with an error number, and the end of a reader.\<close>

definition ret_ok :: "udata result \<Rightarrow> (SkelUserReturn \<times> reply \<times> udata) result" where
  "ret_ok m = bind_r m (\<lambda>u. Inr (SkelUserReturnOK, R_none, u))"

definition ret_fail :: "errno \<Rightarrow> handler" where
  "ret_fail e u = Inr (SkelUserReturnFAILED, R_none, pseterr e u)"

definition ret_val :: "('a \<Rightarrow> reply) \<Rightarrow> ('a \<times> udata) result \<Rightarrow> (SkelUserReturn \<times> reply \<times> udata) result" where
  "ret_val k m = bind_r m (\<lambda>(v, u). Inr (SkelUserReturnOK, k v, u))"

definition truth :: "u32 \<Rightarrow> u32" where
  "truth v = (if v = 0 then 0 else 1)"

definition mtt_set_cableid :: "u32 \<Rightarrow> handler" where
  "mtt_set_cableid v u = Inr (SkelUserReturnOK, R_none, u\<lparr>CableId := v\<rparr>)"

definition mtt_get_cableid :: handler where
  "mtt_get_cableid u = Inr (SkelUserReturnOK, R_val (CableId u), u)"

definition mtt_utc_sending_ioctl :: "u32 \<Rightarrow> handler" where
  "mtt_utc_sending_ioctl v u = ret_ok (mtt_cmd MttDrvrCommandUTC_SENDING_ON (truth v) (u\<lparr>UtcSending := truth v\<rparr>))"

definition mtt_ext_1khz_ioctl :: "u32 \<Rightarrow> handler" where
  "mtt_ext_1khz_ioctl v u = ret_ok (mtt_cmd MttDrvrCommandEXTERNAL_1KHZ (truth v) (u\<lparr>External1KHZ := truth v\<rparr>))"

definition mtt_set_out_delay :: "u32 \<Rightarrow> handler" where
  "mtt_set_out_delay v u = ret_ok (mtt_cmd MttDrvrCommandSET_OUT_DELAY v (u\<lparr>OutputDelay := v\<rparr>))"

definition mtt_get_out_delay :: handler where
  "mtt_get_out_delay u = Inr (SkelUserReturnOK, R_val (OutputDelay u), u)"

definition mtt_out_enable_ioctl :: "u32 \<Rightarrow> handler" where
  "mtt_out_enable_ioctl v u = ret_ok (mtt_cmd MttDrvrCommandENABLE (truth v) (u\<lparr>EnabledOutput := truth v\<rparr>))"

definition mtt_set_sync_period :: "u32 \<Rightarrow> handler" where
  "mtt_set_sync_period v u = ret_ok (mtt_cmd MttDrvrCommandSET_SYNC_PERIOD v (u\<lparr>SyncPeriod := v\<rparr>))"

definition mtt_get_sync_period :: handler where
  "mtt_get_sync_period u = Inr (SkelUserReturnOK, R_val (SyncPeriod u), u)"

definition mtt_set_utc_ioctl :: "u32 \<Rightarrow> handler" where
  "mtt_set_utc_ioctl sec u = ret_ok (mtt_set_utc sec u)"

definition mtt_get_utc_ioctl :: handler where
  "mtt_get_utc_ioctl u = ret_val (\<lambda>(sec, ms). R_time sec ms) (mtt_get_utc u)"

definition mtt_supports_prio :: "udata \<Rightarrow> (bool \<times> udata) result" where
  "mtt_supports_prio u = bind_r (mtt_readw MTT_VHDL u) (\<lambda>(v, u1). Inr (MTT_REV_PRIO \<le> v, u1))"

definition mtt_send_event_ioctl :: "i32 \<Rightarrow> i32 \<Rightarrow> handler" where
  "mtt_send_event_ioctl frame prio u =
     (if \<not> (0 \<le> sint prio \<and> sint prio \<le> 1) then ret_fail EINVAL u
      else bind_r (if prio \<noteq> 0 then mtt_supports_prio u else Inr (False, u)) (\<lambda>(low, u1).
        ret_ok (mtt_cmd (if low then MttDrvrCommandSEND_EVENT_LOW else MttDrvrCommandSEND_EVENT) frame u1)))"

section \<open>Tasks\<close>

definition task_bit :: "nat \<Rightarrow> u32" where
  "task_bit i = push_bit i 1"

definition start_task :: "nat \<Rightarrow> udata \<Rightarrow> udata result" where
  "start_task i u =
     run_locked ModLock (\<lambda>u.
       bind_r (mtt_writew MTT_TASKS_STOP (task_bit i) u) (\<lambda>u1.
       bind_r (run_locked (TaskLock i) (\<lambda>u. io_write (int (task_word i)) (T_PcStart (U_Tasks u ! i)) u) u1) (\<lambda>u2.
         mtt_writew MTT_TASKS_START (task_bit i) u2))) u"

definition start_if :: "u32 \<Rightarrow> nat \<Rightarrow> udata \<Rightarrow> udata result" where
  "start_if v i u = (if v AND task_bit i = 0 then Inr u else start_task i u)"

definition mtt_tasks_start_ioctl :: "u32 \<Rightarrow> handler" where
  "mtt_tasks_start_ioctl v u =
     (if v AND MttDrvrTASK_MASK = 0 then ret_fail EINVAL u
      else ret_ok (fold_r (start_if v) [0 ..< MttDrvrTASKS] u))"

definition mtt_set_tasks :: "nat \<Rightarrow> u32 \<Rightarrow> handler" where
  "mtt_set_tasks reg v u =
     (if v AND MttDrvrTASK_MASK = 0 then ret_fail EINVAL u
      else ret_ok (run_locked ModLock (mtt_writew reg (v AND MttDrvrTASK_MASK)) u))"

definition mtt_get_tasks :: "nat \<Rightarrow> handler" where
  "mtt_get_tasks reg u = ret_val (\<lambda>v. R_val (v AND MttDrvrTASK_MASK)) (with_lock ModLock (mtt_readw reg) u)"

text \<open>\<^verbatim>\<open>strncpy (dst, src, 32)\<close>: the characters up to a NUL, padded with NUL.\<close>

definition strncpy_32 :: "string \<Rightarrow> string" where
  "strncpy_32 s = take MttDrvrNameSIZE (c_string s @ replicate MttDrvrNameSIZE (CHR 0x00))"

definition upd_task :: "nat \<Rightarrow> (mtt_task \<Rightarrow> mtt_task) \<Rightarrow> udata \<Rightarrow> udata" where
  "upd_task i f u = u\<lparr>U_Tasks := (U_Tasks u)[i := f (U_Tasks u ! i)]\<rparr>"

text \<open>One field of the mask; \<open>i\<close> is the task index from 0, \<open>b\<close> the bit.\<close>

definition mtt_set_tcb :: "nat \<Rightarrow> MttDrvrTaskBuf \<Rightarrow> nat \<Rightarrow> udata \<Rightarrow> udata result" where
  "mtt_set_tcb i tb b u =
     (if b = 0 then Inr (upd_task i (\<lambda>t. t\<lparr>T_LoadAddress := TB_LoadAddress tb\<rparr>) u)
      else if b = 1 then Inr (upd_task i (\<lambda>t. t\<lparr>T_InstructionCount := TB_InstructionCount tb\<rparr>) u)
      else if b = 2 then Inr (upd_task i (\<lambda>t. t\<lparr>T_PcStart := TB_PcStart tb\<rparr>) u)
      else if b = 3 then io_write (int (task_word i) + 1) (B_PcOffset (TB_ControlBlock tb))
                           (upd_task i (\<lambda>t. t\<lparr>T_PcOffset := B_PcOffset (TB_ControlBlock tb)\<rparr>) u)
      else if b = 4 then io_write (int (task_word i)) (B_Pc (TB_ControlBlock tb))
                           (upd_task i (\<lambda>t. t\<lparr>T_Pc := B_Pc (TB_ControlBlock tb)\<rparr>) u)
      else if b = 5 then Inr (upd_task i (\<lambda>t. t\<lparr>T_Name := strncpy_32 (TB_Name tb)\<rparr>) u)
      else Inr u)"

definition set_tcb_if :: "nat \<Rightarrow> MttDrvrTaskBuf \<Rightarrow> nat \<Rightarrow> udata \<Rightarrow> udata result" where
  "set_tcb_if i tb b u = (if task_bit b AND TB_Fields tb = 0 then Inr u else mtt_set_tcb i tb b u)"

definition mtt_get_tcb :: "nat \<Rightarrow> MttDrvrTaskBuf \<Rightarrow> udata \<Rightarrow> (MttDrvrTaskBuf \<times> udata) result" where
  "mtt_get_tcb i tb u =
     bind_r (mtt_ioreadw_r (int (task_word i)) 4 u) (\<lambda>(vs, u1).
       Inr (tb\<lparr>TB_LoadAddress := T_LoadAddress (U_Tasks u ! i),
               TB_InstructionCount := T_InstructionCount (U_Tasks u ! i),
               TB_PcStart := T_PcStart (U_Tasks u ! i), TB_Fields := 0x3F,
               TB_Name := strncpy_32 (T_Name (U_Tasks u ! i)),
               TB_ControlBlock := \<lparr>B_Pc = vs ! 0, B_PcOffset = vs ! 1, B_TaskStatus = vs ! 2, B_ProcessorStatus = vs ! 3\<rparr>\<rparr>, u1))"

definition task_ok :: "u32 \<Rightarrow> bool" where
  "task_ok t \<longleftrightarrow> 1 \<le> t \<and> t \<le> of_nat MttDrvrTASKS"

definition mtt_set_tcb_ioctl :: "MttDrvrTaskBuf \<Rightarrow> handler" where
  "mtt_set_tcb_ioctl tb u =
     (if \<not> task_ok (TB_Task tb) then ret_fail EINVAL u
      else let i = unat (TB_Task tb) - 1 in
        ret_ok (run_locked (TaskLock i) (fold_r (set_tcb_if i tb) [0 ..< 6]) u))"

definition mtt_get_tcb_ioctl :: "MttDrvrTaskBuf \<Rightarrow> handler" where
  "mtt_get_tcb_ioctl tb u =
     (if \<not> task_ok (TB_Task tb) then ret_fail EINVAL u
      else let i = unat (TB_Task tb) - 1 in ret_val R_tcb (with_lock (TaskLock i) (mtt_get_tcb i tb) u))"

section \<open>Registers\<close>

text \<open>The register number is a signed variable and only its upper bound is checked.\<close>

definition mtt_set_grval :: "u32 \<Rightarrow> u32 \<Rightarrow> handler" where
  "mtt_set_grval regnum v u =
     (if int MttDrvrGRAM_SIZE \<le> sint regnum then ret_fail EINVAL u
      else ret_ok (run_locked ModLock (io_write (glob_word (sint regnum)) v) u))"

definition mtt_get_grval :: "u32 \<Rightarrow> handler" where
  "mtt_get_grval regnum u =
     (if int MttDrvrGRAM_SIZE \<le> sint regnum then ret_fail EINVAL u
      else ret_val R_val (with_lock ModLock (io_read (glob_word (sint regnum))) u))"

text \<open>Setting looks for the first register of the mask, writes it and returns.\<close>

definition mtt_set_trval :: "MttDrvrTaskRegBuf \<Rightarrow> handler" where
  "mtt_set_trval tr u =
     (if \<not> task_ok (TR_Task tr) then ret_fail EINVAL u
      else case find (\<lambda>i. task_bit i AND TR_RegMask tr \<noteq> 0) [0 ..< MttDrvrLRAM_SIZE] of
        None \<Rightarrow> ret_fail EINVAL u
      | Some i \<Rightarrow> ret_ok (run_locked ModLock (\<lambda>u.
            bind_r (arr_get (TR_RegVals tr) (int i)) (\<lambda>v.
              io_write (int (loc_word (unat (TR_Task tr) - 1) i)) v u)) u))"

definition mtt_get_trval :: "MttDrvrTaskRegBuf \<Rightarrow> handler" where
  "mtt_get_trval tr u =
     (if \<not> task_ok (TR_Task tr) then ret_fail EINVAL u
      else ret_val (\<lambda>vs. R_treg (tr\<lparr>TR_RegVals := vs, TR_RegMask := 0xffffffff\<rparr>))
             (with_lock ModLock (mtt_ioreadw_r (int (loc_word (unat (TR_Task tr) - 1) 0)) MttDrvrLRAM_SIZE) u))"

section \<open>Block transfers\<close>

text \<open>
  The user's array is a list; a copy of more elements than it has fails as the copy from or
  to user space does. A transfer of \<open>n\<close> words has \<open>4 * n\<close> bytes, computed with 32 bits.
\<close>

definition mtt_io_write :: "kenv \<Rightarrow> u32 list \<Rightarrow> int \<Rightarrow> u32 \<Rightarrow> handler" where
  "mtt_io_write e ubuf ioaddr sz u =
     (let n = unat (sz * 4) div 4 in
      if \<not> alloc_ok e then ret_fail ENOMEM u
      else if \<not> (copy_ok e \<and> n \<le> length ubuf) then ret_fail EFAULT u
      else ret_ok (run_locked ModLock (mtt_iowritew_r ioaddr (take n ubuf)) u))"

definition mtt_io_read :: "kenv \<Rightarrow> u32 list \<Rightarrow> int \<Rightarrow> u32 \<Rightarrow> handler" where
  "mtt_io_read e ubuf ioaddr sz u =
     (let n = unat (sz * 4) div 4 in
      if \<not> alloc_ok e then ret_fail ENOMEM u
      else bind_r (with_lock ModLock (mtt_ioreadw_r ioaddr n) u) (\<lambda>(vs, u1).
        if \<not> (copy_ok e \<and> n \<le> length ubuf) then ret_fail EFAULT u1
        else Inr (SkelUserReturnOK, R_raw (vs @ drop n ubuf), u1)))"

text \<open>
  The first word of an instruction is four bytes that are not swapped: the board sees them
  in the order Dest, Src2, Number, Crc from the most significant byte, which is the value
  that the hexadecimal dump prints.
\<close>

fun mtt_set_program :: "int \<Rightarrow> nat \<Rightarrow> Instruction list \<Rightarrow> udata \<Rightarrow> udata result" where
  "mtt_set_program w 0 from u = Inr u"
| "mtt_set_program w (Suc n) [] u = Inl Out_of_bounds"
| "mtt_set_program w (Suc n) (x # xs) u =
     bind_r (io_write w (hex_word x) u) (\<lambda>u1.
     bind_r (io_write (w + 1) (I_Src1 x) u1) (mtt_set_program (w + 2) n xs))"

definition dec_inst :: "u32 \<Rightarrow> u32 \<Rightarrow> Instruction" where
  "dec_inst f s = \<lparr>I_Dest = ucast (drop_bit 24 f), I_Src2 = ucast (drop_bit 16 f), I_Number = ucast (drop_bit 8 f),
     I_Crc = ucast f, I_Src1 = s\<rparr>"

fun mtt_get_program :: "int \<Rightarrow> nat \<Rightarrow> udata \<Rightarrow> (Instruction list \<times> udata) result" where
  "mtt_get_program w 0 u = Inr ([], u)"
| "mtt_get_program w (Suc n) u =
     bind_r (io_read w u) (\<lambda>(f, u1). bind_r (io_read (w + 1) u1) (\<lambda>(s, u2).
     bind_r (mtt_get_program (w + 2) n u2) (\<lambda>(xs, u3). Inr (dec_inst f s # xs, u3))))"

text \<open>
  The bounce buffer has \<^verbatim>\<open>elems * 8\<close> bytes modulo $2^{32}$. The load address is not compared with
  the size of the program memory.
\<close>

definition bounce_elems :: "u32 \<Rightarrow> nat" where
  "bounce_elems elems = unat (elems * 8) div 8"

definition mtt_set_program_ioctl :: "kenv \<Rightarrow> ProgramBuf \<Rightarrow> handler" where
  "mtt_set_program_ioctl e p u =
     (let n = bounce_elems (InstructionCount p) in
      if \<not> alloc_ok e then ret_fail ENOMEM u
      else if \<not> (copy_ok e \<and> n \<le> length (Program p)) then ret_fail EFAULT u
      else ret_ok (run_locked ModLock
             (mtt_set_program (int (prog_word (unat (LoadAddress p)))) (unat (InstructionCount p)) (take n (Program p))) u))"

definition mtt_get_program_ioctl :: "kenv \<Rightarrow> ProgramBuf \<Rightarrow> handler" where
  "mtt_get_program_ioctl e p u =
     (let n = bounce_elems (InstructionCount p) in
      if \<not> alloc_ok e then ret_fail ENOMEM u
      else bind_r (with_lock ModLock (mtt_get_program (int (prog_word (unat (LoadAddress p)))) (unat (InstructionCount p))) u)
        (\<lambda>(xs, u1). if n < length xs then Inl Out_of_bounds
          else if \<not> (copy_ok e \<and> n \<le> length (Program p)) then ret_fail EFAULT u1
          else Inr (SkelUserReturnOK, R_prog (xs @ drop n (Program p)), u1)))"

section \<open>Status, version and dispatch\<close>

definition mtt_status_ioctl :: "kenv \<Rightarrow> handler" where
  "mtt_status_ioctl e u =
     bind_r (mtt_ping e u) (\<lambda>(up, u1).
       if \<not> up then Inr (SkelUserReturnFAILED, R_none, u1) else ret_val R_val (mtt_get_status u1))"

definition mtt_version_ioctl :: "kenv \<Rightarrow> u32 \<Rightarrow> handler" where
  "mtt_version_ioctl e compile_time u =
     bind_r (mtt_ping e u) (\<lambda>(up, u1).
       if \<not> up then Inr (SkelUserReturnFAILED, R_none, u1)
       else ret_val (\<lambda>v. R_version v compile_time) (mtt_readw MTT_VHDL u1))"

datatype ioctl =
    MTT_IOCSCABLEID u32 | MTT_IOCGCABLEID | MTT_IOCSUTC_SENDING u32 | MTT_IOCSEXT_1KHZ u32 | MTT_IOCSOUT_DELAY u32
  | MTT_IOCGOUT_DELAY | MTT_IOCSOUT_ENABLE u32 | MTT_IOCSSYNC_PERIOD u32 | MTT_IOCGSYNC_PERIOD | MTT_IOCSUTC u32
  | MTT_IOCGUTC | MTT_IOCSSEND_EVENT i32 i32 | MTT_IOCSTASKS_START u32 | MTT_IOCSTASKS_STOP u32 | MTT_IOCSTASKS_CONT u32
  | MTT_IOCGTASKS_CURR | MTT_IOCSTCB MttDrvrTaskBuf | MTT_IOCGTCB MttDrvrTaskBuf | MTT_IOCSGRVAL u32 u32
  | MTT_IOCGGRVAL u32 | MTT_IOCSTRVAL MttDrvrTaskRegBuf | MTT_IOCGTRVAL MttDrvrTaskRegBuf | MTT_IOCSPROGRAM ProgramBuf
  | MTT_IOCGPROGRAM ProgramBuf | MTT_IOCGSTATUS | MTT_IOCRAW_WRITE u32 u32 "u32 list" | MTT_IOCRAW_READ u32 u32 "u32 list"
  | MTT_IOCGVERSION | MTT_IOC_other

fun SkelUserIoctls :: "kenv \<Rightarrow> u32 \<Rightarrow> ioctl \<Rightarrow> handler" where
  "SkelUserIoctls e ct (MTT_IOCSCABLEID v) = mtt_set_cableid v"
| "SkelUserIoctls e ct MTT_IOCGCABLEID = mtt_get_cableid"
| "SkelUserIoctls e ct (MTT_IOCSUTC_SENDING v) = mtt_utc_sending_ioctl v"
| "SkelUserIoctls e ct (MTT_IOCSEXT_1KHZ v) = mtt_ext_1khz_ioctl v"
| "SkelUserIoctls e ct (MTT_IOCSOUT_DELAY v) = mtt_set_out_delay v"
| "SkelUserIoctls e ct MTT_IOCGOUT_DELAY = mtt_get_out_delay"
| "SkelUserIoctls e ct (MTT_IOCSOUT_ENABLE v) = mtt_out_enable_ioctl v"
| "SkelUserIoctls e ct (MTT_IOCSSYNC_PERIOD v) = mtt_set_sync_period v"
| "SkelUserIoctls e ct MTT_IOCGSYNC_PERIOD = mtt_get_sync_period"
| "SkelUserIoctls e ct (MTT_IOCSUTC sec) = mtt_set_utc_ioctl sec"
| "SkelUserIoctls e ct MTT_IOCGUTC = mtt_get_utc_ioctl"
| "SkelUserIoctls e ct (MTT_IOCSSEND_EVENT frame prio) = mtt_send_event_ioctl frame prio"
| "SkelUserIoctls e ct (MTT_IOCSTASKS_START v) = mtt_tasks_start_ioctl v"
| "SkelUserIoctls e ct (MTT_IOCSTASKS_STOP v) = mtt_set_tasks MTT_TASKS_STOP v"
| "SkelUserIoctls e ct (MTT_IOCSTASKS_CONT v) = mtt_set_tasks MTT_TASKS_START v"
| "SkelUserIoctls e ct MTT_IOCGTASKS_CURR = mtt_get_tasks MTT_TASKS_CURR"
| "SkelUserIoctls e ct (MTT_IOCSTCB tb) = mtt_set_tcb_ioctl tb"
| "SkelUserIoctls e ct (MTT_IOCGTCB tb) = mtt_get_tcb_ioctl tb"
| "SkelUserIoctls e ct (MTT_IOCSGRVAL r v) = mtt_set_grval r v"
| "SkelUserIoctls e ct (MTT_IOCGGRVAL r) = mtt_get_grval r"
| "SkelUserIoctls e ct (MTT_IOCSTRVAL tr) = mtt_set_trval tr"
| "SkelUserIoctls e ct (MTT_IOCGTRVAL tr) = mtt_get_trval tr"
| "SkelUserIoctls e ct (MTT_IOCSPROGRAM p) = mtt_set_program_ioctl e p"
| "SkelUserIoctls e ct (MTT_IOCGPROGRAM p) = mtt_get_program_ioctl e p"
| "SkelUserIoctls e ct MTT_IOCGSTATUS = mtt_status_ioctl e"
| "SkelUserIoctls e ct (MTT_IOCRAW_WRITE sz offs arr) = mtt_io_write e arr (int (unat offs)) sz"
| "SkelUserIoctls e ct (MTT_IOCRAW_READ sz offs arr) = mtt_io_read e arr (int (unat offs)) sz"
| "SkelUserIoctls e ct MTT_IOCGVERSION = mtt_version_ioctl e ct"
| "SkelUserIoctls e ct MTT_IOC_other = (\<lambda>u. Inr (SkelUserReturnNOT_IMPLEMENTED, R_none, u))"

end
