(* ===== verification/Mtt_Locking.thy ===== *)
theory Mtt_Locking
  imports Mtt_Driver
begin

text \<open>
  The locking discipline of the MTT driver and the shape of its private data. \<open>monitor\<close> runs
  over a trace with the stack of locks held: a lock is taken only above the ones held (the
  comment in mtt-skel.c: the module's lock is always acquired before a task's lock), released
  in the reverse order, and a word of the board is accessed only under the lock that protects
  it. The locale \<open>io_contract\<close> collects what a relation between two states needs so that every
  request and every callback keeps it: it is reflexive and transitive and holds for one access,
  one locked section and one change of the private data. Its two interpretations give the lock
  discipline and the well-formedness of the private data.
\<close>

section \<open>Lock order\<close>

definition lock_rank :: "lockid \<Rightarrow> nat" where
  "lock_rank l = (case l of ModLock \<Rightarrow> 0 | TaskLock _ \<Rightarrow> 1 | IoLock \<Rightarrow> 2)"

definition can_take :: "lockid \<Rightarrow> lockid list \<Rightarrow> bool" where
  "can_take l held \<longleftrightarrow> (\<forall>k \<in> set held. lock_rank k < lock_rank l)"

definition may_access :: "lockid list \<Rightarrow> int \<Rightarrow> bool" where
  "may_access held w \<longleftrightarrow>
     (5 \<le> w \<and> w \<le> 8 \<longrightarrow> IoLock \<in> set held) \<and> (9 \<le> w \<and> w \<le> 11 \<longrightarrow> ModLock \<in> set held) \<and>
     (12 \<le> w \<and> w \<le> 75 \<longrightarrow> TaskLock (nat ((w - 12) div 4)) \<in> set held) \<and> (76 \<le> w \<longrightarrow> ModLock \<in> set held)"

lemma may_task:
  assumes "i < MttDrvrTASKS" "TaskLock i \<in> set h" "0 \<le> k" "k < 4"
  shows "may_access h (int (task_word i) + k)"
proof -
  have "nat ((int (task_word i) + k - 12) div 4) = i"
    using assms by (simp add: task_word_def)
  moreover have "int (task_word i) + k \<le> 75"
    using assms by (simp add: task_word_def MttDrvrTASKS_def)
  ultimately show ?thesis
    using assms by (auto simp: may_access_def task_word_def)
qed

lemma task_ok_index: "task_ok t \<Longrightarrow> unat t - 1 < MttDrvrTASKS"
  by (auto simp: task_ok_def MttDrvrTASKS_def word_le_nat_alt)

fun monitor :: "lockid list \<Rightarrow> io_event list \<Rightarrow> lockid list option" where
  "monitor held [] = Some held"
| "monitor held (Lock l # es) = (if can_take l held then monitor (l # held) es else None)"
| "monitor held (Unlock l # es) = (if held \<noteq> [] \<and> hd held = l then monitor (tl held) es else None)"
| "monitor held (Wr w v # es) = (if may_access held w then monitor held es else None)"
| "monitor held (Rd w # es) = (if may_access held w then monitor held es else None)"
| "monitor held (e # es) = monitor held es"

lemma monitor_append: "monitor h (es @ fs) = Option.bind (monitor h es) (\<lambda>k. monitor k fs)"
  by (induction h es rule: monitor.induct) simp_all

definition tasks_wf :: "mtt_task list \<Rightarrow> bool" where
  "tasks_wf ts \<longleftrightarrow> length ts = MttDrvrTASKS \<and> (\<forall>t \<in> set ts. length (T_Name t) = MttDrvrNameSIZE)"

lemma tasks_wf_upd:
  assumes "tasks_wf ts" "\<And>t. length (T_Name t) = MttDrvrNameSIZE \<Longrightarrow> length (T_Name (f t)) = MttDrvrNameSIZE"
  shows "tasks_wf (ts[i := f (ts ! i)])"
proof (cases "i < length ts")
  case True
  then have "length (T_Name (f (ts ! i))) = MttDrvrNameSIZE"
    using assms by (simp add: tasks_wf_def)
  then show ?thesis
    using assms(1) by (auto simp: tasks_wf_def dest!: subsetD [OF set_update_subset_insert])
qed (use assms(1) in \<open>simp add: list_update_beyond\<close>)

definition udata_wf :: "udata \<Rightarrow> bool" where
  "udata_wf u \<longleftrightarrow> length (iomap u) = MAP_WORDS \<and> tasks_wf (U_Tasks u)"

definition soft_step :: "udata \<Rightarrow> udata \<Rightarrow> bool" where
  "soft_step u u' \<longleftrightarrow> trace u' = trace u \<and> iomap u' = iomap u \<and> (tasks_wf (U_Tasks u) \<longrightarrow> tasks_wf (U_Tasks u'))"

fun locked_request :: "ioctl \<Rightarrow> bool" where
  "locked_request (MTT_IOCSGRVAL g x) \<longleftrightarrow> 0 \<le> sint g"
| "locked_request (MTT_IOCGGRVAL g) \<longleftrightarrow> 0 \<le> sint g"
| "locked_request (MTT_IOCRAW_WRITE sz offs arr) \<longleftrightarrow> False"
| "locked_request (MTT_IOCRAW_READ sz offs arr) \<longleftrightarrow> False"
| "locked_request req \<longleftrightarrow> True"

locale io_contract =
  fixes R :: "lockid list \<Rightarrow> udata \<Rightarrow> udata \<Rightarrow> bool"
    and may :: "lockid list \<Rightarrow> int \<Rightarrow> bool"
  assumes R_refl: "R h u u"
    and R_trans: "R h u v \<Longrightarrow> R h v w \<Longrightarrow> R h u w"
    and R_write: "io_write a x u = Inr u' \<Longrightarrow> may h a \<Longrightarrow> R h u u'"
    and R_read: "io_read a u = Inr (x, u') \<Longrightarrow> may h a \<Longrightarrow> R h u u'"
    and R_locked: "can_take l h \<Longrightarrow> R (l # h) (log_event (Lock l) u) u' \<Longrightarrow> R h u (log_event (Unlock l) u')"
    and R_soft: "soft_step u u' \<Longrightarrow> R h u u'"
    and may_access: "may_access h a \<Longrightarrow> may h a"
begin

lemma with_lock_R:
  assumes "with_lock l f u = Inr (r, u')" "can_take l h" "\<And>v r v'. f v = Inr (r, v') \<Longrightarrow> R (l # h) v v'"
  shows "R h u u'"
  using assms R_locked by (fastforce simp: with_lock_def bind_r_eq_Inr)

lemma run_locked_R:
  assumes "run_locked l f u = Inr u'" "can_take l h" "\<And>v v'. f v = Inr v' \<Longrightarrow> R (l # h) v v'"
  shows "R h u u'"
  using assms
  by (auto simp: run_locked_def bind_r_eq_Inr unit_r_def intro!: with_lock_R [of l "unit_r f" u "()" u' h])

lemma mtt_writew_R: "mtt_writew offs x u = Inr u' \<Longrightarrow> may h (int (offs div 4)) \<Longrightarrow> R h u u'"
  by (auto simp: mtt_writew_def intro: R_write)

lemma mtt_readw_R: "mtt_readw offs u = Inr (x, u') \<Longrightarrow> may h (int (offs div 4)) \<Longrightarrow> R h u u'"
  by (auto simp: mtt_readw_def intro: R_read)

lemma iowritew_R:
  assumes "mtt_iowritew_r a xs u = Inr u'" "\<And>b. a \<le> b \<Longrightarrow> b < a + int (length xs) \<Longrightarrow> may h b"
  shows "R h u u'"
  using assms
proof (induction a xs u rule: mtt_iowritew_r.induct)
  case (2 a x xs u)
  then obtain u1 where u1: "io_write a x u = Inr u1" "mtt_iowritew_r (a + 1) xs u1 = Inr u'"
    by (auto simp: bind_r_eq_Inr)
  have "R h u u1" using u1(1) 2(3) [of a] by (intro R_write) auto
  with 2(1) [OF u1] 2(3) show ?case by (auto intro: R_trans)
qed (simp add: R_refl)

lemma ioreadw_R:
  assumes "mtt_ioreadw_r a n u = Inr (xs, u')" "\<And>b. a \<le> b \<Longrightarrow> b < a + int n \<Longrightarrow> may h b"
  shows "R h u u'"
  using assms
proof (induction a n u arbitrary: xs rule: mtt_ioreadw_r.induct)
  case (2 a n u)
  then obtain x u1 ys where u1: "io_read a u = Inr (x, u1)" "mtt_ioreadw_r (a + 1) n u1 = Inr (ys, u')"
    by (auto simp: bind_r_eq_Inr)
  have "R h u u1" using u1(1) 2(3) [of a] by (intro R_read) auto
  with 2(1) [OF u1(1) refl, of ys] u1(2) 2(3) show ?case by (auto intro: R_trans)
qed (simp add: R_refl)

lemma set_program_R:
  assumes "mtt_set_program a n xs u = Inr u'" "\<And>b. a \<le> b \<Longrightarrow> may h b"
  shows "R h u u'"
  using assms
proof (induction a n xs u rule: mtt_set_program.induct)
  case (3 a n x xs u)
  then obtain u1 u2 where u1: "io_write a (hex_word x) u = Inr u1" "io_write (a + 1) (I_Src1 x) u1 = Inr u2"
      "mtt_set_program (a + 2) n xs u2 = Inr u'"
    by (auto simp: bind_r_eq_Inr)
  have "R h u u2" using R_write [OF u1(1), of h] R_write [OF u1(2), of h] 3(3) by (auto intro: R_trans)
  with 3(1) [OF u1(1,2,3)] 3(3) show ?case by (auto intro: R_trans)
qed (simp_all add: R_refl)

lemma get_program_R:
  assumes "mtt_get_program a n u = Inr (xs, u')" "\<And>b. a \<le> b \<Longrightarrow> may h b"
  shows "R h u u'"
  using assms
proof (induction a n u arbitrary: xs rule: mtt_get_program.induct)
  case (2 a n u)
  then obtain f u1 s u2 ys where u1: "io_read a u = Inr (f, u1)" "io_read (a + 1) u1 = Inr (s, u2)"
      "mtt_get_program (a + 2) n u2 = Inr (ys, u')"
    by (auto simp: bind_r_eq_Inr)
  have "R h u u2" using R_read [OF u1(1), of h] R_read [OF u1(2), of h] 2(3) by (auto intro: R_trans)
  with 2(1) [OF u1(1) refl u1(2) refl u1(3)] 2(3) show ?case by (auto intro: R_trans)
qed (simp add: R_refl)

lemma fold_R:
  assumes "fold_r f xs u = Inr u'" "\<And>x v v'. x \<in> set xs \<Longrightarrow> f x v = Inr v' \<Longrightarrow> R h v v'"
  shows "R h u u'"
  using fold_r_invariant [OF assms(1), of "R h u"] assms(2) R_refl R_trans by blast


lemma ret_ok_R: "ret_ok m = Inr (r, rep, u') \<Longrightarrow> m = Inr u'"
  by (auto simp: ret_ok_def bind_r_eq_Inr)

lemma writew_R:
  assumes "mtt_writew offs x u = Inr u'" "may_access h (int (offs div 4))"
  shows "R h u u'"
  using assms may_access mtt_writew_R by blast

lemma readw_R:
  assumes "mtt_readw offs u = Inr (x, u')" "may_access h (int (offs div 4))"
  shows "R h u u'"
  using assms may_access mtt_readw_R by blast

lemma cmd_locked_R:
  assumes "mtt_cmd_locked c x u = Inr u'"
  shows "R (IoLock # h) u u'"
proof -
  obtain u1 where u1: "mtt_writew MTT_COMMAND_VAL x u = Inr u1" "mtt_writew MTT_COMMAND (cmd_code c) u1 = Inr u'"
    using assms by (auto simp: mtt_cmd_locked_def bind_r_eq_Inr)
  show ?thesis
    by (rule R_trans [OF writew_R [OF u1(1)] writew_R [OF u1(2)]])
      (simp_all add: MTT_COMMAND_VAL_def MTT_COMMAND_def may_access_def)
qed

lemma cmd_R: "mtt_cmd c x u = Inr u' \<Longrightarrow> R [] u u'"
  unfolding mtt_cmd_def by (erule run_locked_R) (auto simp: can_take_def intro: cmd_locked_R)

lemma soft_cmd_R: "mtt_cmd c x v = Inr u' \<Longrightarrow> soft_step u v \<Longrightarrow> R [] u u'"
  using cmd_R R_soft R_trans by blast

lemma set_utc_R: "mtt_set_utc sec u = Inr u' \<Longrightarrow> R [] u u'"
  unfolding mtt_set_utc_def by (erule run_locked_R) (auto simp: can_take_def intro: cmd_locked_R)

lemma get_utc_R: "mtt_get_utc u = Inr (t, u') \<Longrightarrow> R [] u u'"
  unfolding mtt_get_utc_def
proof (erule with_lock_R)
  fix v r v'
  assume "bind_r (mtt_readw MTT_MSEC v) (\<lambda>(ms, u1). bind_r (mtt_readw MTT_SEC u1) (\<lambda>(sec, u2). Inr ((sec, ms), u2))) = Inr (r, v')"
  then obtain ms v1 sec where v1: "mtt_readw MTT_MSEC v = Inr (ms, v1)" "mtt_readw MTT_SEC v1 = Inr (sec, v')"
    by (auto simp: bind_r_eq_Inr)
  show "R [IoLock] v v'"
    by (rule R_trans [OF readw_R [OF v1(1)] readw_R [OF v1(2)]]) (simp_all add: MTT_MSEC_def MTT_SEC_def may_access_def)
qed (simp add: can_take_def)

lemma vhdl_R: "mtt_readw MTT_VHDL u = Inr (x, u') \<Longrightarrow> R h u u'"
  by (erule mtt_readw_R) (auto simp: MTT_VHDL_def may_access_def intro: may_access)

lemma start_task_R: "start_task i u = Inr u' \<Longrightarrow> R [] u u'"
  unfolding start_task_def
proof (erule run_locked_R)
  fix v v'
  assume "bind_r (mtt_writew MTT_TASKS_STOP (task_bit i) v) (\<lambda>u1.
       bind_r (run_locked (TaskLock i) (\<lambda>u. io_write (int (task_word i)) (T_PcStart (U_Tasks u ! i)) u) u1) (\<lambda>u2.
         mtt_writew MTT_TASKS_START (task_bit i) u2)) = Inr v'"
  then obtain v1 v2 where v: "mtt_writew MTT_TASKS_STOP (task_bit i) v = Inr v1"
      "run_locked (TaskLock i) (\<lambda>u. io_write (int (task_word i)) (T_PcStart (U_Tasks u ! i)) u) v1 = Inr v2"
      "mtt_writew MTT_TASKS_START (task_bit i) v2 = Inr v'"
    by (auto simp: bind_r_eq_Inr)
  have "R [ModLock] v v1" "R [ModLock] v2 v'"
    by (rule writew_R [OF v(1)] writew_R [OF v(3)], simp add: MTT_TASKS_STOP_def MTT_TASKS_START_def may_access_def)+
  moreover have "R [ModLock] v1 v2"
  proof (rule run_locked_R [OF v(2)])
    show "can_take (TaskLock i) [ModLock]" by (simp add: can_take_def lock_rank_def)
    show "R [TaskLock i, ModLock] w w'" if "io_write (int (task_word i)) (T_PcStart (U_Tasks w ! i)) w = Inr w'" for w w'
      using that by (rule R_write) (auto simp: task_word_def may_access_def intro!: may_access)
  qed
  ultimately show "R [ModLock] v v'" by (blast intro: R_trans)
qed (simp add: can_take_def)

lemma set_tcb_R:
  assumes "mtt_set_tcb i tb b u = Inr u'" "i < MttDrvrTASKS"
  shows "R [TaskLock i] u u'"
proof -
  have soft: "R [TaskLock i] u (upd_task i f u)" if "\<And>t. length (T_Name t) = MttDrvrNameSIZE \<Longrightarrow> length (T_Name (f t)) = MttDrvrNameSIZE" for f
    using that by (intro R_soft) (auto simp: soft_step_def upd_task_def intro: tasks_wf_upd)
  have wr: "R [TaskLock i] u u'"
    if w: "io_write (int (task_word i) + k) x (upd_task i f u) = Inr u'" and k: "0 \<le> k" "k < 4" and f: "\<And>t. T_Name (f t) = T_Name t" for k x f
    by (rule R_trans [OF soft R_write [OF w]]) (use k f assms(2) in \<open>auto intro!: may_access may_task\<close>)
  show ?thesis
    using assms(1) wr [of 0] wr [of 1]
    by (auto simp: mtt_set_tcb_def strncpy_32_def R_refl split: if_splits intro!: soft)
qed

lemma start_if_R: "start_if v i u = Inr u' \<Longrightarrow> R [] u u'"
  by (auto simp: start_if_def R_refl start_task_R split: if_splits)

lemma set_tcb_if_R: "set_tcb_if i tb b u = Inr u' \<Longrightarrow> i < MttDrvrTASKS \<Longrightarrow> R [TaskLock i] u u'"
  by (auto simp: set_tcb_if_def R_refl set_tcb_R split: if_splits)

lemma ret_fail_R: "ret_fail e u = Inr (r, rep, u') \<Longrightarrow> R h u u'"
  by (auto simp: ret_fail_def pseterr_def soft_step_def intro!: R_soft)

lemma ret_val_R:
  assumes "ret_val k m = Inr (r, rep, u')" "\<And>x. m = Inr (x, u') \<Longrightarrow> R h u u'"
  shows "R h u u'"
  using assms by (auto simp: ret_val_def bind_r_eq_Inr)

lemma can_take_Nil [simp]: "can_take l []"
  by (simp add: can_take_def)

lemma ping_R: "mtt_ping e u = Inr (up, u') \<Longrightarrow> R h u u'"
  by (auto simp: mtt_ping_def bind_r_eq_Inr pseterr_def soft_step_def split: if_splits intro: R_soft vhdl_R)

lemma status_R: "mtt_get_status u = Inr (x, u') \<Longrightarrow> R [] u u'"
  unfolding mtt_get_status_def
  by (auto simp: bind_r_eq_Inr soft_step_def MTT_STATUS_def may_access_def intro!: R_trans [OF readw_R R_soft])

lemma mod_word_R: "may_access [ModLock] a \<Longrightarrow> run_locked ModLock (io_write a x) u = Inr u' \<Longrightarrow> R [] u u'"
  by (erule run_locked_R) (auto intro: R_write may_access)

lemma mod_read_R: "may_access [ModLock] a \<Longrightarrow> with_lock ModLock (io_read a) u = Inr (x, u') \<Longrightarrow> R [] u u'"
  by (erule with_lock_R) (auto intro: R_read may_access)

lemma tasks_start_R: "mtt_tasks_start_ioctl v u = Inr (r, rep, u') \<Longrightarrow> R [] u u'"
  by (auto simp: mtt_tasks_start_ioctl_def start_if_R split: if_splits dest!: ret_ok_R intro: ret_fail_R fold_R)

lemma set_tasks_R: "may_access [ModLock] (int (reg div 4)) \<Longrightarrow> mtt_set_tasks reg v u = Inr (r, rep, u') \<Longrightarrow> R [] u u'"
  by (auto simp: mtt_set_tasks_def mtt_writew_def [abs_def] split: if_splits dest!: ret_ok_R intro: ret_fail_R mod_word_R)

lemma get_tasks_R: "may_access [ModLock] (int (reg div 4)) \<Longrightarrow> mtt_get_tasks reg u = Inr (r, rep, u') \<Longrightarrow> R [] u u'"
  unfolding mtt_get_tasks_def mtt_readw_def [abs_def] by (erule ret_val_R) (rule mod_read_R)

lemma set_tcb_ioctl_R:
  assumes "mtt_set_tcb_ioctl tb u = Inr (r, rep, u')"
  shows "R [] u u'"
proof (cases "task_ok (TB_Task tb)")
  case True
  then have run: "run_locked (TaskLock (unat (TB_Task tb) - 1)) (fold_r (set_tcb_if (unat (TB_Task tb) - 1) tb) [0 ..< 6]) u = Inr u'"
    using assms by (auto simp: mtt_set_tcb_ioctl_def Let_def dest: ret_ok_R)
  show ?thesis
    by (rule run_locked_R [OF run can_take_Nil], erule fold_R)
      (erule set_tcb_if_R, rule task_ok_index [OF True])
qed (use assms in \<open>auto simp: mtt_set_tcb_ioctl_def intro: ret_fail_R\<close>)

lemma get_tcb_R:
  assumes "mtt_get_tcb i tb u = Inr (tb', u')" "i < MttDrvrTASKS"
  shows "R [TaskLock i] u u'"
proof -
  obtain vs where vs: "mtt_ioreadw_r (int (task_word i)) 4 u = Inr (vs, u')"
    using assms(1) by (auto simp: mtt_get_tcb_def bind_r_eq_Inr)
  show ?thesis
    by (rule ioreadw_R [OF vs], rule may_access)
      (use may_task [OF assms(2), of "[TaskLock i]" "_ - int (task_word i)"] in simp)
qed

lemma get_tcb_ioctl_R:
  assumes "mtt_get_tcb_ioctl tb u = Inr (r, rep, u')"
  shows "R [] u u'"
proof (cases "task_ok (TB_Task tb)")
  case True
  then have run: "ret_val R_tcb (with_lock (TaskLock (unat (TB_Task tb) - 1)) (mtt_get_tcb (unat (TB_Task tb) - 1) tb) u) = Inr (r, rep, u')"
    using assms by (auto simp: mtt_get_tcb_ioctl_def Let_def)
  show ?thesis
    by (rule ret_val_R [OF run], erule with_lock_R [OF _ can_take_Nil])
      (erule get_tcb_R, rule task_ok_index [OF True])
qed (use assms in \<open>auto simp: mtt_get_tcb_ioctl_def intro: ret_fail_R\<close>)


lemma set_grval_R:
  assumes "mtt_set_grval g x u = Inr (r, rep, u')" "0 \<le> sint g \<or> (\<forall>h a. may h a)"
  shows "R [] u u'"
proof (cases "int MttDrvrGRAM_SIZE \<le> sint g")
  case False
  then have run: "run_locked ModLock (io_write (glob_word (sint g)) x) u = Inr u'"
    using assms(1) by (auto simp: mtt_set_grval_def dest: ret_ok_R)
  have "may [ModLock] (glob_word (sint g))"
    using assms(2) by (auto simp: glob_word_def may_access_def intro: may_access)
  then show ?thesis
    by (intro run_locked_R [OF run can_take_Nil]) (rule R_write)
qed (use assms in \<open>auto simp: mtt_set_grval_def intro: ret_fail_R\<close>)

lemma get_grval_R:
  assumes "mtt_get_grval g u = Inr (r, rep, u')" "0 \<le> sint g \<or> (\<forall>h a. may h a)"
  shows "R [] u u'"
proof (cases "int MttDrvrGRAM_SIZE \<le> sint g")
  case False
  then obtain x where run: "with_lock ModLock (io_read (glob_word (sint g))) u = Inr (x, u')"
    using assms(1) by (auto simp: mtt_get_grval_def ret_val_def bind_r_eq_Inr)
  have "may [ModLock] (glob_word (sint g))"
    using assms(2) by (auto simp: glob_word_def may_access_def intro: may_access)
  then show ?thesis
    by (intro with_lock_R [OF run can_take_Nil]) (rule R_read)
qed (use assms in \<open>auto simp: mtt_get_grval_def intro: ret_fail_R\<close>)

lemma set_trval_R:
  assumes "mtt_set_trval tr u = Inr (r, rep, u')"
  shows "R [] u u'"
proof -
  have wr: "R [ModLock] v v'" if "bind_r (arr_get xs i) (\<lambda>x. io_write (int (loc_word t j)) x v) = Inr v'" for xs i t j v v'
    using that by (auto simp: bind_r_eq_Inr loc_word_def may_access_def intro!: may_access elim!: R_write)
  show ?thesis
    using assms
    by (auto simp: mtt_set_trval_def split: if_splits option.splits dest!: ret_ok_R
        intro: ret_fail_R run_locked_R [OF _ can_take_Nil wr])
qed

lemma get_trval_R:
  assumes "mtt_get_trval tr u = Inr (r, rep, u')"
  shows "R [] u u'"
proof (cases "task_ok (TR_Task tr)")
  case True
  then obtain xs where xs: "with_lock ModLock (mtt_ioreadw_r (int (loc_word (unat (TR_Task tr) - 1) 0)) MttDrvrLRAM_SIZE) u = Inr (xs, u')"
    using assms by (auto simp: mtt_get_trval_def ret_val_def bind_r_eq_Inr)
  show ?thesis
    by (rule with_lock_R [OF xs can_take_Nil], erule ioreadw_R)
      (auto simp: loc_word_def may_access_def intro!: may_access)
qed (use assms in \<open>auto simp: mtt_get_trval_def intro: ret_fail_R\<close>)

lemma prog_word_R: "may_access [ModLock] (int (prog_word k))" "int (prog_word k) \<le> b \<Longrightarrow> may_access [ModLock] b"
  by (auto simp: prog_word_def may_access_def)

lemma set_program_ioctl_R: "mtt_set_program_ioctl e p u = Inr (r, rep, u') \<Longrightarrow> R [] u u'"
  by (auto simp: mtt_set_program_ioctl_def Let_def split: if_splits dest!: ret_ok_R
      intro: ret_fail_R prog_word_R elim!: run_locked_R [OF _ can_take_Nil] set_program_R intro!: may_access)

lemma get_program_ioctl_R:
  assumes "mtt_get_program_ioctl e p u = Inr (r, rep, u')"
  shows "R [] u u'"
proof (cases "alloc_ok e")
  case True
  then obtain xs u1 where u1: "with_lock ModLock (mtt_get_program (int (prog_word (unat (LoadAddress p)))) (unat (InstructionCount p))) u = Inr (xs, u1)"
      "u' = u1 \<or> ret_fail EFAULT u1 = Inr (r, rep, u')"
    using assms by (auto simp: mtt_get_program_ioctl_def Let_def bind_r_eq_Inr split: if_splits)
  have "R [] u u1"
    by (rule with_lock_R [OF u1(1) can_take_Nil]) (erule get_program_R, blast intro: may_access prog_word_R)
  with u1(2) show ?thesis by (auto intro: R_trans ret_fail_R)
qed (use assms in \<open>auto simp: mtt_get_program_ioctl_def Let_def intro: ret_fail_R\<close>)

lemma io_write_R:
  assumes "mtt_io_write e ubuf a sz u = Inr (r, rep, u')" "\<forall>h a. may h a"
  shows "R [] u u'"
  using assms
  by (auto simp: mtt_io_write_def Let_def split: if_splits dest!: ret_ok_R
      intro: ret_fail_R elim!: run_locked_R [OF _ can_take_Nil] iowritew_R)

lemma io_read_R:
  assumes "mtt_io_read e ubuf a sz u = Inr (r, rep, u')" "\<forall>h a. may h a"
  shows "R [] u u'"
proof (cases "alloc_ok e")
  case True
  then obtain xs u1 where u1: "with_lock ModLock (mtt_ioreadw_r a (unat (sz * 4) div 4)) u = Inr (xs, u1)"
      "u' = u1 \<or> ret_fail EFAULT u1 = Inr (r, rep, u')"
    using assms by (auto simp: mtt_io_read_def Let_def bind_r_eq_Inr split: if_splits)
  have "R [] u u1"
    by (rule with_lock_R [OF u1(1) can_take_Nil]) (erule ioreadw_R, use assms(2) in blast)
  with u1(2) show ?thesis by (auto intro: R_trans ret_fail_R)
qed (use assms in \<open>auto simp: mtt_io_read_def Let_def intro: ret_fail_R\<close>)

lemma send_event_R:
  assumes "mtt_send_event_ioctl f p u = Inr (r, rep, u')"
  shows "R [] u u'"
proof (cases "0 \<le> sint p \<and> sint p \<le> 1")
  case True
  then obtain low u1 where u1: "(if p \<noteq> 0 then mtt_supports_prio u else Inr (False, u)) = Inr (low, u1)"
      "mtt_cmd (if low then MttDrvrCommandSEND_EVENT_LOW else MttDrvrCommandSEND_EVENT) f u1 = Inr u'"
    using assms by (auto simp: mtt_send_event_ioctl_def bind_r_eq_Inr dest!: ret_ok_R)
  have "R [] u u1"
    using u1(1) by (auto simp: mtt_supports_prio_def bind_r_eq_Inr R_refl intro: vhdl_R split: if_splits)
  with cmd_R [OF u1(2)] show ?thesis by (rule R_trans [rotated])
qed (use assms in \<open>auto simp: mtt_send_event_ioctl_def intro: ret_fail_R\<close>)

lemma status_ioctl_R: "mtt_status_ioctl e u = Inr (r, rep, u') \<Longrightarrow> R [] u u'"
  by (auto simp: mtt_status_ioctl_def bind_r_eq_Inr split: if_splits dest!: ping_R [of _ _ _ _ "[]"]
      elim!: ret_val_R intro: R_trans status_R)

lemma version_ioctl_R: "mtt_version_ioctl e ct u = Inr (r, rep, u') \<Longrightarrow> R [] u u'"
  by (auto simp: mtt_version_ioctl_def bind_r_eq_Inr split: if_splits dest!: ping_R [of _ _ _ _ "[]"]
      elim!: ret_val_R intro: R_trans vhdl_R)


lemmas ioctl_R = tasks_start_R set_tasks_R get_tasks_R set_tcb_ioctl_R get_tcb_ioctl_R set_grval_R get_grval_R
  set_trval_R get_trval_R set_program_ioctl_R get_program_ioctl_R io_write_R io_read_R send_event_R status_ioctl_R version_ioctl_R

lemma setting_R: 
  "mtt_utc_sending_ioctl x u = Inr (r, rep, u') \<Longrightarrow> R [] u u'"
  "mtt_ext_1khz_ioctl x u = Inr (r, rep, u') \<Longrightarrow> R [] u u'"
  "mtt_set_out_delay x u = Inr (r, rep, u') \<Longrightarrow> R [] u u'"
  "mtt_out_enable_ioctl x u = Inr (r, rep, u') \<Longrightarrow> R [] u u'"
  "mtt_set_sync_period x u = Inr (r, rep, u') \<Longrightarrow> R [] u u'"
  by (auto simp: mtt_utc_sending_ioctl_def mtt_ext_1khz_ioctl_def mtt_set_out_delay_def mtt_out_enable_ioctl_def
      mtt_set_sync_period_def soft_step_def dest!: ret_ok_R elim!: soft_cmd_R)

lemma getting_R:
  "mtt_set_cableid x u = Inr (r, rep, u') \<Longrightarrow> R [] u u'"
  "mtt_get_cableid u = Inr (r, rep, u') \<Longrightarrow> R [] u u'"
  "mtt_get_out_delay u = Inr (r, rep, u') \<Longrightarrow> R [] u u'"
  "mtt_get_sync_period u = Inr (r, rep, u') \<Longrightarrow> R [] u u'"
  by (auto simp: mtt_set_cableid_def mtt_get_cableid_def mtt_get_out_delay_def mtt_get_sync_period_def soft_step_def
      intro!: R_soft)

lemma utc_ioctl_R:
  "mtt_set_utc_ioctl x u = Inr (r, rep, u') \<Longrightarrow> R [] u u'"
  "mtt_get_utc_ioctl u = Inr (r, rep, u') \<Longrightarrow> R [] u u'"
  by (auto simp: mtt_set_utc_ioctl_def mtt_get_utc_ioctl_def ret_val_def bind_r_eq_Inr dest!: ret_ok_R
      intro: set_utc_R get_utc_R)

lemma task_reg_may: "may_access [ModLock] (int (MTT_TASKS_STOP div 4))" "may_access [ModLock] (int (MTT_TASKS_START div 4))"
  "may_access [ModLock] (int (MTT_TASKS_CURR div 4))"
  by (simp_all add: MTT_TASKS_STOP_def MTT_TASKS_START_def MTT_TASKS_CURR_def may_access_def)

theorem ioctls_R:
  assumes "SkelUserIoctls e ct req u = Inr (r, rep, u')" "locked_request req \<or> (\<forall>h a. may h a)"
  shows "R [] u u'"
  using assms
  by (cases req) (auto simp: R_refl dest: ioctl_R setting_R getting_R utc_ioctl_R set_tasks_R [OF task_reg_may(1)]
     set_tasks_R [OF task_reg_may(2)] get_tasks_R [OF task_reg_may(3)])

lemma quiesce_R:
  assumes "mtt_quiesce u = Inr u'"
  shows "R h u u'"
proof -
  obtain u1 x where u1: "mtt_writew MTT_INTEN 0 u = Inr u1" "mtt_readw MTT_INTSR u1 = Inr (x, u')"
    using assms by (auto simp: mtt_quiesce_def bind_r_eq_Inr)
  show ?thesis
    by (rule R_trans [OF writew_R [OF u1(1)] readw_R [OF u1(2)]]) (simp_all add: MTT_INTEN_def MTT_INTSR_def may_access_def)
qed

lemma reset_R:
  assumes "mtt_reset isr u = Inr u'"
  shows "R [] u u'"
proof -
  let ?body = "\<lambda>u. bind_r (mtt_quiesce u) (\<lambda>u1.
       bind_r (mtt_cmd_locked MttDrvrCommandRESET 1 u1) (\<lambda>u2.
       bind_r (mtt_cmd_locked MttDrvrCommandENABLE 1 u2) (\<lambda>u3. Inr (u3\<lparr>EnabledOutput := 1\<rparr>))))"
  have body: "R [IoLock] v v'" if v: "?body v = Inr v'" for v v'
  proof -
    obtain v1 v2 v3 where v3: "mtt_quiesce v = Inr v1" "mtt_cmd_locked MttDrvrCommandRESET 1 v1 = Inr v2"
        "mtt_cmd_locked MttDrvrCommandENABLE 1 v2 = Inr v3" "v' = v3\<lparr>EnabledOutput := 1\<rparr>"
      using v by (auto simp: bind_r_eq_Inr)
    have "R [IoLock] v3 v'" by (rule R_soft) (simp add: v3(4) soft_step_def)
    then show ?thesis
      using quiesce_R [OF v3(1), of "[IoLock]"] cmd_locked_R [OF v3(2), of "[]"] cmd_locked_R [OF v3(3), of "[]"]
      by (blast intro: R_trans)
  qed
  obtain u1 where u1: "run_locked IoLock ?body u = Inr u1"
      "(case isr of None \<Rightarrow> Inr u1 | Some (vec, lev) \<Rightarrow> mtt_writew MTT_INTR (vec OR mtt_shift_intr_level lev) u1) = Inr u'"
    using assms by (auto simp: mtt_reset_def bind_r_eq_Inr)
  have "R [] u u1" by (rule run_locked_R [OF u1(1) can_take_Nil body])
  moreover have "R [] u1 u'"
    using u1(2) writew_R [of MTT_INTR _ u1 u' "[]"]
    by (auto simp: R_refl MTT_INTR_def may_access_def split: option.splits)
  ultimately show ?thesis by (rule R_trans)
qed

lemma cmd_if_R: "cmd_if b c x u = Inr u' \<Longrightarrow> R [] u u'"
  by (auto simp: cmd_if_def R_refl cmd_R split: if_splits)

lemma defaults_R:
  assumes "udata_set_defaults u = Inr u'"
  shows "R [] u u'"
proof -
  let ?u0 = "u\<lparr>FlashOpen := False, UtcSending := 0, BusError := False\<rparr>"
  obtain u1 u2 u3 where u3: "cmd_if (EnabledOutput ?u0) MttDrvrCommandENABLE 1 ?u0 = Inr u1"
      "cmd_if (External1KHZ u1) MttDrvrCommandEXTERNAL_1KHZ 1 u1 = Inr u2"
      "cmd_if (SyncPeriod u2) MttDrvrCommandSET_SYNC_PERIOD (SyncPeriod u2) u2 = Inr u3"
      "cmd_if (OutputDelay u3) MttDrvrCommandSET_OUT_DELAY (OutputDelay u3) u3 = Inr u'"
    using assms by (auto simp: udata_set_defaults_def Let_def bind_r_eq_Inr)
  have "R [] u ?u0" by (rule R_soft) (simp add: soft_step_def)
  with u3 show ?thesis by (blast intro: R_trans cmd_if_R)
qed

lemma hardware_reset_R: "SkelUserHardwareReset isr u = Inr u' \<Longrightarrow> R [] u u'"
  by (auto simp: SkelUserHardwareReset_def bind_r_eq_Inr intro: R_trans reset_R defaults_R)

end

interpretation lockd: io_contract "\<lambda>h u u'. \<exists>es. trace u' = trace u @ es \<and> monitor h es = Some h" may_access
proof (unfold_locales, goal_cases)
  case (1 h u)
  show ?case by (rule exI [of _ "[]"]) simp
next
  case (2 h u v w)
  then obtain es fs where "trace v = trace u @ es" "monitor h es = Some h" "trace w = trace v @ fs" "monitor h fs = Some h"
    by blast
  then show ?case by (intro exI [of _ "es @ fs"]) (simp add: monitor_append)
next
  case (3 a x u u' h)
  then show ?case by (auto simp: io_write_def bind_r_eq_Inr log_event_def)
next
  case (4 a u x u' h)
  then show ?case by (auto simp: io_read_def bind_r_eq_Inr log_event_def)
next
  case (5 l h u u')
  then obtain es where "trace u' = trace u @ [Lock l] @ es" "monitor (l # h) es = Some (l # h)"
    by (auto simp: log_event_def)
  then show ?case
    using 5(1) by (intro exI [of _ "[Lock l] @ es @ [Unlock l]"]) (simp add: monitor_append log_event_def)
next
  case (6 u u' h)
  then show ?case by (intro exI [of _ "[]"]) (simp add: soft_step_def)
qed

interpretation shape: io_contract "\<lambda>h u u'. udata_wf u \<longrightarrow> udata_wf u'" "\<lambda>h a. True"
  by unfold_locales
    (auto simp: udata_wf_def io_write_def io_read_def bind_r_eq_Inr log_event_def arr_set_Inr soft_step_def)






end
