(* ===== verification/Mtt_Board.thy ===== *)
theory Mtt_Board
  imports Mtt_Locking
begin

text \<open>
  What the requests of the MTT driver do to the board and to the private data: one lemma per
  request gives the words it changes and what it returns, and that it returns at all when its
  addresses lie inside the memory map. \<open>blit\<close> is the block copy both directions of a transfer
  are described by; \<open>tcb_after\<close>, \<open>tcb_view\<close>, \<open>prog_image\<close> and \<open>started\<close> are the abstract
  views of a task control block, of a stretch of program memory and of a set of started tasks.
\<close>

section \<open>Accesses that succeed\<close>

lemma io_write_ok:
  assumes "0 \<le> w" "w < int (length (iomap u))"
  shows "io_write w v u = Inr (u\<lparr>iomap := (iomap u)[nat w := v], trace := trace u @ [Wr w v]\<rparr>)"
  using assms by (simp add: io_write_def log_event_def)

lemma io_read_ok:
  assumes "0 \<le> w" "w < int (length (iomap u))"
  shows "io_read w u = Inr (iomap u ! nat w, u\<lparr>trace := trace u @ [Rd w]\<rparr>)"
  using assms by (simp add: io_read_def log_event_def)

lemma run_locked_eq:
  "run_locked l f u = bind_r (f (u\<lparr>trace := trace u @ [Lock l]\<rparr>)) (\<lambda>u'. Inr (u'\<lparr>trace := trace u' @ [Unlock l]\<rparr>))"
  by (cases "f (u\<lparr>trace := trace u @ [Lock l]\<rparr>)")
    (simp_all add: run_locked_def with_lock_def unit_r_def log_event_def)

lemma with_lock_eq:
  "with_lock l f u = bind_r (f (u\<lparr>trace := trace u @ [Lock l]\<rparr>)) (\<lambda>(r, u'). Inr (r, u'\<lparr>trace := trace u' @ [Unlock l]\<rparr>))"
  by (simp add: with_lock_def log_event_def)

lemma wf_length [simp]: "udata_wf u \<Longrightarrow> length (iomap u) = 9004" "udata_wf u \<Longrightarrow> length (U_Tasks u) = 16"
  by (simp_all add: udata_wf_def MAP_WORDS_def tasks_wf_def MttDrvrTASKS_def)

lemma wf_trace [simp]: "udata_wf (u\<lparr>trace := t\<rparr>) = udata_wf u"
  by (simp add: udata_wf_def)

lemma run_locked_good:
  "good P (f (u\<lparr>trace := trace u @ [Lock l]\<rparr>)) \<Longrightarrow> (\<And>v. P v \<Longrightarrow> Q (v\<lparr>trace := trace v @ [Unlock l]\<rparr>)) \<Longrightarrow> good Q (run_locked l f u)"
  unfolding run_locked_eq by (erule good_bind) simp

lemma with_lock_good:
  "good P (f (u\<lparr>trace := trace u @ [Lock l]\<rparr>)) \<Longrightarrow> (\<And>r v. P (r, v) \<Longrightarrow> Q (r, v\<lparr>trace := trace v @ [Unlock l]\<rparr>)) \<Longrightarrow>
   good Q (with_lock l f u)"
  unfolding with_lock_eq by (erule good_bind) auto

lemma run_locked_keep:
  "good P (f (u\<lparr>trace := trace u @ [Lock l]\<rparr>)) \<Longrightarrow> (\<And>v t. P v \<Longrightarrow> P (v\<lparr>trace := t\<rparr>)) \<Longrightarrow> good P (run_locked l f u)"
  by (rule run_locked_good)

lemma with_lock_keep:
  "good P (f (u\<lparr>trace := trace u @ [Lock l]\<rparr>)) \<Longrightarrow> (\<And>r v t. P (r, v) \<Longrightarrow> P (r, v\<lparr>trace := t\<rparr>)) \<Longrightarrow> good P (with_lock l f u)"
  by (rule with_lock_good)

lemma ret_ok_good: "good P m \<Longrightarrow> (\<And>v. P v \<Longrightarrow> Q (SkelUserReturnOK, R_none, v)) \<Longrightarrow> good Q (ret_ok m)"
  unfolding ret_ok_def by (erule good_bind) simp

lemma ret_val_good: "good P m \<Longrightarrow> (\<And>x v. P (x, v) \<Longrightarrow> Q (SkelUserReturnOK, k x, v)) \<Longrightarrow> good Q (ret_val k m)"
  unfolding ret_val_def by (erule good_bind) auto

section \<open>Starting tasks\<close>

lemma task_word_simps [simp]:
  "task_word i = task_word j \<longleftrightarrow> i = j" "task_word i \<noteq> 9" "task_word i \<noteq> 10" "9 \<noteq> task_word i" "10 \<noteq> task_word i"
  "i < 16 \<Longrightarrow> task_word i < 9004"
  by (auto simp: task_word_def)

definition start_events :: "mtt_task list \<Rightarrow> nat \<Rightarrow> io_event list" where
  "start_events ts i =
     [Lock ModLock, Wr 10 (task_bit i), Lock (TaskLock i), Wr (int (task_word i)) (T_PcStart (ts ! i)),
      Unlock (TaskLock i), Wr 9 (task_bit i), Unlock ModLock]"

lemma start_task_eq:
  assumes "udata_wf u" "i < 16"
  shows "start_task i u = Inr (u\<lparr>
     iomap := (iomap u)[10 := task_bit i, task_word i := T_PcStart (U_Tasks u ! i), 9 := task_bit i],
     trace := trace u @ start_events (U_Tasks u) i\<rparr>)"
  using assms
  by (simp add: start_task_def run_locked_eq mtt_writew_def MTT_TASKS_STOP_def MTT_TASKS_START_def
      io_write_ok start_events_def)

definition started :: "u32 \<Rightarrow> nat list \<Rightarrow> udata \<Rightarrow> udata \<Rightarrow> bool" where
  "started v ks u u' \<longleftrightarrow>
     udata_wf u' \<and> U_Tasks u' = U_Tasks u \<and>
     trace u' = trace u @ concat (map (start_events (U_Tasks u)) (filter (\<lambda>i. v AND task_bit i \<noteq> 0) ks)) \<and>
     (\<forall>j. j \<noteq> 9 \<and> j \<noteq> 10 \<and> (\<forall>i < 16. j \<noteq> task_word i) \<longrightarrow> iomap u' ! j = iomap u ! j) \<and>
     (\<forall>i < 16. iomap u' ! task_word i =
        (if i \<in> set ks \<and> v AND task_bit i \<noteq> 0 then T_PcStart (U_Tasks u ! i) else iomap u ! task_word i))"

lemma start_loop:
  assumes "udata_wf u" "set ks \<subseteq> {..<16}" 
  shows "good (started v ks u) (fold_r (start_if v) ks u)"
  using assms
proof (induction ks arbitrary: u)
  case (Cons i ks)
  show ?case
  proof (cases "v AND task_bit i = 0")
    case True
    then have "good (started v (i # ks) u) (fold_r (start_if v) ks u)"
      by (intro good_mono [OF Cons.IH]) (use Cons.prems True in \<open>auto simp: started_def\<close>)
    moreover have "start_if v i u = Inr u" using True by (simp add: start_if_def)
    ultimately show ?thesis by simp
  next
    case False
    let ?u1 = "u\<lparr>iomap := (iomap u)[10 := task_bit i, task_word i := T_PcStart (U_Tasks u ! i), 9 := task_bit i],
       trace := trace u @ start_events (U_Tasks u) i\<rparr>"
    have eq: "start_if v i u = Inr ?u1"
      using Cons.prems False by (simp add: start_if_def start_task_eq)
    have wf: "udata_wf ?u1"
      using Cons.prems(1) by (simp add: udata_wf_def)
    have "good (started v ks ?u1) (fold_r (start_if v) ks ?u1)"
      using Cons.IH [OF wf] Cons.prems(2) by simp
    then have "good (started v (i # ks) u) (fold_r (start_if v) ks ?u1)"
      by (rule good_mono) (use Cons.prems False in \<open>auto simp: started_def nth_list_update\<close>)
    then show ?thesis by (simp add: eq)
  qed
qed (simp add: started_def)


section \<open>Program memory\<close>

lemma hex_word_bytes: "dec_inst (hex_word x) (I_Src1 x) = x"
proof -
  have "dec_inst (hex_word x) s = \<lparr>I_Dest = I_Dest x, I_Src2 = I_Src2 x, I_Number = I_Number x, I_Crc = I_Crc x, I_Src1 = s\<rparr>" for s
    unfolding dec_inst_def hex_word_def
    by (simp, intro conjI; rule bit_word_eqI) (auto simp: bit_simps dest: bit_imp_le_length)
  then show ?thesis by simp
qed

fun inst_words :: "Instruction list \<Rightarrow> u32 list" where
  "inst_words [] = []"
| "inst_words (x # xs) = hex_word x # I_Src1 x # inst_words xs"

lemma length_inst_words [simp]: "length (inst_words xs) = 2 * length xs"
  by (induction xs) simp_all

definition blit :: "nat \<Rightarrow> 'a list \<Rightarrow> 'a list \<Rightarrow> 'a list" where
  "blit k ys xs = take k xs @ ys @ drop (k + length ys) xs"

lemma length_blit [simp]: "k + length ys \<le> length xs \<Longrightarrow> length (blit k ys xs) = length xs"
  by (simp add: blit_def)

lemma nth_blit:
  "k + length ys \<le> length xs \<Longrightarrow> j < length xs \<Longrightarrow>
   blit k ys xs ! j = (if k \<le> j \<and> j < k + length ys then ys ! (j - k) else xs ! j)"
  by (auto simp: blit_def nth_append min_def)

lemma blit_Nil [simp]: "blit k [] xs = xs"
  by (simp add: blit_def)

lemma blit_Cons: "k < length xs \<Longrightarrow> blit k (y # ys) xs = blit (Suc k) ys (xs[k := y])"
  by (simp add: blit_def take_Suc_conv_app_nth)

lemma set_program_ok:
  assumes "k + 2 * n \<le> length (iomap u)" "n \<le> length xs"
  shows "good (\<lambda>u'. iomap u' = blit k (inst_words (take n xs)) (iomap u) \<and> U_Tasks u' = U_Tasks u)
     (mtt_set_program (int k) n xs u)"
  using assms
proof (induction n arbitrary: k xs u)
  case (Suc n)
  then obtain x ys where xs: "xs = x # ys" by (cases xs) auto
  let ?u2 = "u\<lparr>iomap := (iomap u)[k := hex_word x, Suc k := I_Src1 x],
     trace := trace u @ [Wr (int k) (hex_word x), Wr (int k + 1) (I_Src1 x)]\<rparr>"
  have step: "mtt_set_program (int k) (Suc n) xs u = mtt_set_program (int (k + 2)) n ys ?u2"
    using Suc.prems by (simp add: xs io_write_ok nat_add_distrib add.commute [of 2])
  have "blit (k + 2) ws ((iomap u)[k := a, Suc k := b]) = blit k (a # b # ws) (iomap u)" for a b ws
    using Suc.prems by (simp add: blit_Cons)
  then show ?case
    using Suc.IH [of "k + 2" ?u2 ys] Suc.prems unfolding step by (auto simp: xs intro: good_mono)
qed simp

lemma get_program_ok:
  assumes "k + 2 * n \<le> length (iomap u)"
  shows "good (\<lambda>(xs, u'). xs = map (\<lambda>i. dec_inst (iomap u ! (k + 2 * i)) (iomap u ! (k + 2 * i + 1))) [0 ..< n] \<and>
       iomap u' = iomap u \<and> U_Tasks u' = U_Tasks u) (mtt_get_program (int k) n u)"
  using assms
proof (induction n arbitrary: k u)
  case (Suc n)
  let ?u2 = "u\<lparr>trace := trace u @ [Rd (int k), Rd (int k + 1)]\<rparr>"
  have step: "mtt_get_program (int k) (Suc n) u =
      bind_r (mtt_get_program (int (k + 2)) n ?u2) (\<lambda>(xs, u3). Inr (dec_inst (iomap u ! k) (iomap u ! (k + 1)) # xs, u3))"
    using Suc.prems by (simp add: io_read_ok nat_add_distrib add.commute [of 2])
  have map: "map f [0 ..< Suc n] = f 0 # map (\<lambda>i. f (Suc i)) [0 ..< n]" for f :: "nat \<Rightarrow> Instruction"
    by (simp add: upt_conv_Cons map_Suc_upt [symmetric] del: upt_Suc)
  show ?case
    unfolding step map
    by (rule good_bind [OF Suc.IH]) (use Suc.prems in \<open>auto simp: algebra_simps\<close>)
qed simp

lemma inst_words_nth:
  "i < length xs \<Longrightarrow> inst_words xs ! (2 * i) = hex_word (xs ! i)"
  "i < length xs \<Longrightarrow> inst_words xs ! Suc (2 * i) = I_Src1 (xs ! i)"
  by (induction xs arbitrary: i) (auto simp: nth_Cons' less_Suc_eq_0_disj)


lemma bounce_elems_small: "unat n \<le> MttDrvrINSTRUCTIONS \<Longrightarrow> bounce_elems n = unat n"
  by (simp add: bounce_elems_def MttDrvrINSTRUCTIONS_def unat_word_ariths)

definition prog_image :: "nat \<Rightarrow> nat \<Rightarrow> udata \<Rightarrow> Instruction list" where
  "prog_image la n u = map (\<lambda>i. dec_inst (iomap u ! prog_word (la + i)) (iomap u ! Suc (prog_word (la + i)))) [0 ..< n]"

lemma prog_word_bound: "la + n \<le> MttDrvrINSTRUCTIONS \<Longrightarrow> prog_word la + 2 * n \<le> 9004"
  by (simp add: prog_word_def MttDrvrINSTRUCTIONS_def)

lemma set_program_ioctl_ok:
  assumes "udata_wf u" "alloc_ok e" "copy_ok e" "unat (InstructionCount p) \<le> length (Program p)"
    "unat (LoadAddress p) + unat (InstructionCount p) \<le> MttDrvrINSTRUCTIONS"
  shows "good (\<lambda>(r, rep, u'). r = SkelUserReturnOK \<and> rep = R_none \<and> udata_wf u' \<and> U_Tasks u' = U_Tasks u \<and>
       iomap u' = blit (prog_word (unat (LoadAddress p))) (inst_words (take (unat (InstructionCount p)) (Program p))) (iomap u))
     (SkelUserIoctls e ct (MTT_IOCSPROGRAM p) u)"
proof -
  let ?n = "unat (InstructionCount p)" and ?k = "prog_word (unat (LoadAddress p))"
  have n: "bounce_elems (InstructionCount p) = ?n"
    using assms(5) by (intro bounce_elems_small) simp
  have k: "?k + 2 * ?n \<le> length (iomap u)"
    using prog_word_bound [OF assms(5)] assms(1) by simp
  have wf: "udata_wf v" if "iomap v = blit ?k (inst_words (take ?n (Program p))) (iomap u)" "U_Tasks v = U_Tasks u" for v
    using that assms(1,4) k by (simp add: udata_wf_def)
  have "SkelUserIoctls e ct (MTT_IOCSPROGRAM p) u = ret_ok (run_locked ModLock (mtt_set_program (int ?k) ?n (take ?n (Program p))) u)"
    using assms(2,3,4) by (simp add: mtt_set_program_ioctl_def Let_def n)
  then show ?thesis
    by simp (rule ret_ok_good [OF run_locked_good [OF set_program_ok]], use assms(4) k wf in auto)
qed

lemma get_program_ioctl_ok:
  assumes "udata_wf u" "alloc_ok e" "copy_ok e" "unat (InstructionCount p) = length (Program p)"
    "unat (LoadAddress p) + unat (InstructionCount p) \<le> MttDrvrINSTRUCTIONS"
  shows "good (\<lambda>(r, rep, u'). r = SkelUserReturnOK \<and> U_Tasks u' = U_Tasks u \<and> iomap u' = iomap u \<and>
       rep = R_prog (prog_image (unat (LoadAddress p)) (unat (InstructionCount p)) u))
     (SkelUserIoctls e ct (MTT_IOCGPROGRAM p) u)"
proof -
  let ?n = "unat (InstructionCount p)" and ?k = "prog_word (unat (LoadAddress p))"
  have n: "bounce_elems (InstructionCount p) = ?n"
    using assms(5) by (intro bounce_elems_small) simp
  have k: "?k + 2 * ?n \<le> length (iomap u)"
    using prog_word_bound [OF assms(5)] assms(1) by simp
  have img: "map (\<lambda>i. dec_inst (iomap u ! (?k + 2 * i)) (iomap u ! Suc (?k + 2 * i))) [0 ..< ?n] = prog_image (unat (LoadAddress p)) ?n u"
    by (simp add: prog_image_def prog_word_def algebra_simps)
  show ?thesis
    unfolding SkelUserIoctls.simps mtt_get_program_ioctl_def Let_def n
    by (simp add: assms(2), rule good_bind [OF with_lock_good [OF get_program_ok]])
      (use assms(3,4) k img in \<open>auto simp: prog_image_def\<close>)
qed

lemma prog_image_blit:
  assumes "prog_word la + 2 * length xs \<le> length (iomap u)" "iomap u' = blit (prog_word la) (inst_words xs) (iomap u)"
  shows "prog_image la (length xs) u' = xs"
proof (rule nth_equalityI)
  fix i assume "i < length (prog_image la (length xs) u')"
  then have i: "i < length xs" by (simp add: prog_image_def)
  have "prog_word (la + i) = prog_word la + 2 * i" by (simp add: prog_word_def)
  then have "iomap u' ! prog_word (la + i) = hex_word (xs ! i)" "iomap u' ! Suc (prog_word (la + i)) = I_Src1 (xs ! i)"
    using assms i by (simp_all add: nth_blit inst_words_nth)
  with i show "prog_image la (length xs) u' ! i = xs ! i"
    by (simp add: prog_image_def hex_word_bytes)
qed (simp add: prog_image_def)

section \<open>Task control blocks\<close>

definition has_field :: "MttDrvrTaskBuf \<Rightarrow> nat \<Rightarrow> bool" where
  "has_field tb b \<longleftrightarrow> task_bit b AND TB_Fields tb \<noteq> 0"

definition upd_if :: "bool \<Rightarrow> 'a \<Rightarrow> 'a \<Rightarrow> 'a" where
  "upd_if b new old = (if b then new else old)"

text \<open>The task after the fields \<open>bs\<close> of the buffer have been considered.\<close>

definition tcb_after :: "MttDrvrTaskBuf \<Rightarrow> nat set \<Rightarrow> mtt_task \<Rightarrow> mtt_task" where
  "tcb_after tb bs t =
     (let f = (\<lambda>b. b \<in> bs \<and> has_field tb b) in
      t\<lparr>T_LoadAddress := upd_if (f 0) (TB_LoadAddress tb) (T_LoadAddress t),
       T_InstructionCount := upd_if (f 1) (TB_InstructionCount tb) (T_InstructionCount t),
       T_PcStart := upd_if (f 2) (TB_PcStart tb) (T_PcStart t),
       T_PcOffset := upd_if (f 3) (B_PcOffset (TB_ControlBlock tb)) (T_PcOffset t),
       T_Pc := upd_if (f 4) (B_Pc (TB_ControlBlock tb)) (T_Pc t),
       T_Name := upd_if (f 5) (strncpy_32 (TB_Name tb)) (T_Name t)\<rparr>)"

definition block_after :: "MttDrvrTaskBuf \<Rightarrow> nat set \<Rightarrow> nat \<Rightarrow> u32 list \<Rightarrow> u32 list" where
  "block_after tb bs i m =
     m[Suc (task_word i) := upd_if (3 \<in> bs \<and> has_field tb 3) (B_PcOffset (TB_ControlBlock tb)) (m ! Suc (task_word i)),
       task_word i := upd_if (4 \<in> bs \<and> has_field tb 4) (B_Pc (TB_ControlBlock tb)) (m ! task_word i)]"

lemma length_block_after [simp]: "length (block_after tb bs i m) = length m"
  by (simp add: block_after_def)

lemma block_after_nth:
  "Suc (task_word i) < length m \<Longrightarrow> j < length m \<Longrightarrow> block_after tb bs i m ! j =
     (if j = task_word i then upd_if (4 \<in> bs \<and> has_field tb 4) (B_Pc (TB_ControlBlock tb)) (m ! j)
      else if j = Suc (task_word i) then upd_if (3 \<in> bs \<and> has_field tb 3) (B_PcOffset (TB_ControlBlock tb)) (m ! j)
      else m ! j)"
  by (auto simp: block_after_def nth_list_update)

lemma set_tcb_if_eq: "set_tcb_if i tb b u = (if has_field tb b then mtt_set_tcb i tb b u else Inr u)"
  by (simp add: set_tcb_if_def has_field_def)

lemma set_tcb_step:
  assumes "length (iomap u) = 9004" "length (U_Tasks u) = 16" "i < 16" "b < 6"
  shows "good (\<lambda>u'. iomap u' = block_after tb {b} i (iomap u) \<and> U_Tasks u' = (U_Tasks u)[i := tcb_after tb {b} (U_Tasks u ! i)])
     (set_tcb_if i tb b u)"
proof -
  have w: "Suc (task_word i) < 9004" "nat (int (task_word i) + 1) = Suc (task_word i)"
    using assms(3) by (simp_all add: task_word_def)
  have sw: "m[Suc a := x, a := m ! a] = m[Suc a := x]" for m :: "u32 list" and a x
    by (metis list_update_id list_update_swap n_not_Suc_n)
  have "b = 0 \<or> b = 1 \<or> b = 2 \<or> b = 3 \<or> b = 4 \<or> b = 5" using assms(4) by auto
  then show ?thesis
    using assms w
    by (elim disjE; cases "has_field tb b")
      (simp_all add: sw set_tcb_if_eq mtt_set_tcb_def upd_task_def io_write_ok nth_list_update
         block_after_def tcb_after_def upd_if_def)
qed

lemma block_after_compose:
  assumes "Suc (task_word i) < length m"
  shows "block_after tb bs i (block_after tb {b} i m) = block_after tb (insert b bs) i m"
  using assms by (intro nth_equalityI) (auto simp: block_after_nth upd_if_def)

lemma tcb_after_compose: "tcb_after tb bs (tcb_after tb {b} t) = tcb_after tb (insert b bs) t"
  by (rule mtt_task.equality) (auto simp: tcb_after_def upd_if_def)

lemma set_tcb_fields:
  assumes "length (iomap u) = 9004" "length (U_Tasks u) = 16" "i < 16" "set bs \<subseteq> {..<6}"
  shows "good (\<lambda>u'. iomap u' = block_after tb (set bs) i (iomap u) \<and> U_Tasks u' = (U_Tasks u)[i := tcb_after tb (set bs) (U_Tasks u ! i)])
     (fold_r (set_tcb_if i tb) bs u)"
  using assms
proof (induction bs arbitrary: u)
  case Nil
  then show ?case by (simp add: block_after_def tcb_after_def upd_if_def)
next
  case (Cons b bs)
  have "good (\<lambda>u'. iomap u' = block_after tb {b} i (iomap u) \<and> U_Tasks u' = (U_Tasks u)[i := tcb_after tb {b} (U_Tasks u ! i)])
     (set_tcb_if i tb b u)"
    using Cons.prems by (intro set_tcb_step) auto
  then show ?case
    unfolding fold_r.simps
  proof (rule good_bind)
    fix v :: udata
    assume v: "iomap v = block_after tb {b} i (iomap u) \<and> U_Tasks v = (U_Tasks u)[i := tcb_after tb {b} (U_Tasks u ! i)]"
    have len: "length (iomap v) = 9004" "length (U_Tasks v) = 16"
      using v Cons.prems by (simp_all add: block_after_def)
    show "good (\<lambda>u'. iomap u' = block_after tb (set (b # bs)) i (iomap u) \<and>
        U_Tasks u' = (U_Tasks u)[i := tcb_after tb (set (b # bs)) (U_Tasks u ! i)]) (fold_r (set_tcb_if i tb) bs v)"
      by (rule good_mono [OF Cons.IH [OF len Cons.prems(3)]])
        (use v Cons.prems in \<open>auto simp: block_after_compose tcb_after_compose task_word_def\<close>)
  qed
qed


lemma c_string_take: "c_string (take n s) = take n (c_string s)"
  unfolding c_string_def
  by (induction s arbitrary: n) (auto simp: take_Cons' split: if_splits)

lemma c_string_idem [simp]: "c_string (c_string s @ replicate n (CHR 0x00)) = c_string s"
  unfolding c_string_def by (induction s) (auto simp: takeWhile_replicate)

lemma strncpy_32_idem: "strncpy_32 (strncpy_32 s) = strncpy_32 s"
proof -
  have c: "c_string (strncpy_32 s) = take MttDrvrNameSIZE (c_string s)"
    unfolding strncpy_32_def c_string_take by simp
  show ?thesis
    unfolding strncpy_32_def [of "strncpy_32 s"] c unfolding strncpy_32_def by (simp add: min_def)
qed

lemma set_tcb_ok:
  assumes "udata_wf u" "task_ok (TB_Task tb)"
  defines "i \<equiv> unat (TB_Task tb) - 1"
  shows "good (\<lambda>(r, rep, u'). r = SkelUserReturnOK \<and> rep = R_none \<and> iomap u' = block_after tb {0 ..< 6} i (iomap u) \<and>
       U_Tasks u' = (U_Tasks u)[i := tcb_after tb {0 ..< 6} (U_Tasks u ! i)])
     (SkelUserIoctls e ct (MTT_IOCSTCB tb) u)"
proof -
  have "i < 16" using task_ok_index [OF assms(2)] by (simp add: i_def MttDrvrTASKS_def)
  then have loop: "good (\<lambda>u'. iomap u' = block_after tb {0 ..< 6} i (iomap u) \<and> U_Tasks u' = (U_Tasks u)[i := tcb_after tb {0 ..< 6} (U_Tasks u ! i)])
     (fold_r (set_tcb_if i tb) [0 ..< 6] (u\<lparr>trace := trace u @ [Lock (TaskLock i)]\<rparr>))"
    using set_tcb_fields [of "u\<lparr>trace := trace u @ [Lock (TaskLock i)]\<rparr>" i "[0 ..< 6]" tb] assms(1) by (simp add: subset_iff)
  have "SkelUserIoctls e ct (MTT_IOCSTCB tb) u = ret_ok (run_locked (TaskLock i) (fold_r (set_tcb_if i tb) [0 ..< 6]) u)"
    using assms(2) by (simp add: mtt_set_tcb_ioctl_def Let_def i_def)
  then show ?thesis
    by (simp only:) (rule ret_ok_good [OF run_locked_keep], rule loop, simp_all)
qed

lemma ioreadw_ok:
  assumes "k + n \<le> length (iomap u)"
  shows "good (\<lambda>(xs, u'). xs = take n (drop k (iomap u)) \<and> iomap u' = iomap u \<and> U_Tasks u' = U_Tasks u)
     (mtt_ioreadw_r (int k) n u)"
  using assms
proof (induction n arbitrary: k u)
  case (Suc n)
  have step: "mtt_ioreadw_r (int k) (Suc n) u = bind_r (mtt_ioreadw_r (int (Suc k)) n (u\<lparr>trace := trace u @ [Rd (int k)]\<rparr>))
      (\<lambda>(xs, u2). Inr (iomap u ! k # xs, u2))"
    using Suc.prems by (simp add: io_read_ok add.commute)
  have "take (Suc n) (drop k (iomap u)) = iomap u ! k # take n (drop (Suc k) (iomap u))"
    using Suc.prems by (simp add: Cons_nth_drop_Suc [symmetric])
  then show ?case
    unfolding step by (intro good_bind [OF Suc.IH]) (use Suc.prems in auto)
qed simp

definition tcb_view :: "nat \<Rightarrow> udata \<Rightarrow> MttDrvrTaskBuf" where
  "tcb_view i u =
     \<lparr>TB_Task = of_nat (Suc i), TB_Fields = 0x3F, TB_LoadAddress = T_LoadAddress (U_Tasks u ! i),
      TB_InstructionCount = T_InstructionCount (U_Tasks u ! i), TB_PcStart = T_PcStart (U_Tasks u ! i),
      TB_ControlBlock = \<lparr>B_Pc = iomap u ! task_word i, B_PcOffset = iomap u ! (task_word i + 1),
        B_TaskStatus = iomap u ! (task_word i + 2), B_ProcessorStatus = iomap u ! (task_word i + 3)\<rparr>,
      TB_Name = strncpy_32 (T_Name (U_Tasks u ! i))\<rparr>"

lemma get_tcb_ok:
  assumes "udata_wf u" "task_ok (TB_Task tb)"
  defines "i \<equiv> unat (TB_Task tb) - 1"
  shows "good (\<lambda>(r, rep, u'). r = SkelUserReturnOK \<and> rep = R_tcb (tcb_view i u) \<and> iomap u' = iomap u \<and> U_Tasks u' = U_Tasks u)
     (SkelUserIoctls e ct (MTT_IOCGTCB tb) u)"
proof -
  have i: "i < 16" using task_ok_index [OF assms(2)] by (simp add: i_def MttDrvrTASKS_def)
  have "1 \<le> unat (TB_Task tb)" using assms(2) by (simp add: task_ok_def word_le_nat_alt)
  then have t: "TB_Task tb = of_nat (Suc i)" by (simp add: i_def)
  let ?u = "u\<lparr>trace := trace u @ [Lock (TaskLock i)]\<rparr>"
  have rd: "good (\<lambda>(xs, u'). xs = take 4 (drop (task_word i) (iomap ?u)) \<and> iomap u' = iomap ?u \<and> U_Tasks u' = U_Tasks ?u)
     (mtt_ioreadw_r (int (task_word i)) 4 ?u)"
    by (rule ioreadw_ok) (use assms(1) i in \<open>simp add: task_word_def\<close>)
  have get: "good (\<lambda>(tb', u'). tb' = tcb_view i u \<and> iomap u' = iomap u \<and> U_Tasks u' = U_Tasks u) (mtt_get_tcb i tb ?u)"
    unfolding mtt_get_tcb_def
    by (rule good_bind [OF rd])
      (use assms(1) i t in \<open>auto simp: tcb_view_def task_word_def intro!: MttDrvrTaskBuf.equality\<close>)
  have "SkelUserIoctls e ct (MTT_IOCGTCB tb) u = ret_val R_tcb (with_lock (TaskLock i) (mtt_get_tcb i tb) u)"
    using assms(2) by (simp add: mtt_get_tcb_ioctl_def Let_def i_def)
  then show ?thesis
    by (simp only:) (rule ret_val_good [OF with_lock_keep], rule get, auto)
qed

section \<open>Registers and raw transfers\<close>

lemma iowritew_ok:
  assumes "k + length vs \<le> length (iomap u)"
  shows "good (\<lambda>u'. iomap u' = blit k vs (iomap u) \<and> U_Tasks u' = U_Tasks u) (mtt_iowritew_r (int k) vs u)"
  using assms
proof (induction vs arbitrary: k u)
  case (Cons v vs)
  let ?u1 = "u\<lparr>iomap := (iomap u)[k := v], trace := trace u @ [Wr (int k) v]\<rparr>"
  have step: "mtt_iowritew_r (int k) (v # vs) u = mtt_iowritew_r (int (Suc k)) vs ?u1"
    using Cons.prems by (simp add: io_write_ok add.commute)
  show ?case
    unfolding step using Cons.IH [of "Suc k" ?u1] Cons.prems by (simp add: blit_Cons)
qed simp

lemma cmd_eq:
  assumes "udata_wf u"
  shows "mtt_cmd c v u = Inr (u\<lparr>iomap := (iomap u)[6 := v, 5 := cmd_code c],
     trace := trace u @ [Lock IoLock, Wr 6 v, Wr 5 (cmd_code c), Unlock IoLock]\<rparr>)"
  using assms
  by (simp add: mtt_cmd_def run_locked_eq mtt_cmd_locked_def mtt_writew_def MTT_COMMAND_VAL_def MTT_COMMAND_def io_write_ok)

lemma readw_eq:
  assumes "udata_wf u" "offs < 36016"
  shows "mtt_readw offs u = Inr (iomap u ! (offs div 4), u\<lparr>trace := trace u @ [Rd (int (offs div 4))]\<rparr>)"
proof -
  have "offs div 4 < 9004" using assms(2) by (simp add: div_less_iff_less_mult)
  then show ?thesis using assms by (simp add: mtt_readw_def io_read_ok)
qed

lemma wf_cmd [simp]: "udata_wf u \<Longrightarrow> udata_wf (u\<lparr>iomap := (iomap u)[i := x]\<rparr>)"
  by (simp add: udata_wf_def)

fun request_in_range :: "ioctl \<Rightarrow> bool" where
  "request_in_range (MTT_IOCSGRVAL g x) \<longleftrightarrow> - 76 \<le> sint g"
| "request_in_range (MTT_IOCGGRVAL g) \<longleftrightarrow> - 76 \<le> sint g"
| "request_in_range (MTT_IOCSTRVAL tr) \<longleftrightarrow> length (TR_RegVals tr) = MttDrvrLRAM_SIZE"
| "request_in_range (MTT_IOCSPROGRAM p) \<longleftrightarrow> unat (LoadAddress p) + unat (InstructionCount p) \<le> MttDrvrINSTRUCTIONS"
| "request_in_range (MTT_IOCGPROGRAM p) \<longleftrightarrow> unat (LoadAddress p) + unat (InstructionCount p) \<le> MttDrvrINSTRUCTIONS"
| "request_in_range (MTT_IOCRAW_WRITE sz offs arr) \<longleftrightarrow> unat offs + unat sz \<le> MAP_WORDS"
| "request_in_range (MTT_IOCRAW_READ sz offs arr) \<longleftrightarrow> unat offs + unat sz \<le> MAP_WORDS"
| "request_in_range req \<longleftrightarrow> True"

abbreviation returns :: "'a result \<Rightarrow> bool" where
  "returns m \<equiv> good (\<lambda>_. True) m"

lemma ret_fail_returns [simp]: "returns (ret_fail e u)"
  by (simp add: ret_fail_def)

lemma returnsI: "good P m \<Longrightarrow> returns m"
  by (rule good_mono) simp_all

lemma returns_ret_ok: "returns m \<Longrightarrow> returns (ret_ok m)"
  by (rule ret_ok_good)

lemma cmd_returns: "udata_wf u \<Longrightarrow> returns (ret_ok (mtt_cmd c x u))"
  by (simp add: cmd_eq ret_ok_def)

lemma setting_returns:
  assumes "udata_wf u"
  shows "returns (mtt_utc_sending_ioctl x u)" "returns (mtt_ext_1khz_ioctl x u)" "returns (mtt_set_out_delay x u)"
    "returns (mtt_out_enable_ioctl x u)" "returns (mtt_set_sync_period x u)"
  unfolding mtt_utc_sending_ioctl_def mtt_ext_1khz_ioctl_def mtt_set_out_delay_def mtt_out_enable_ioctl_def
    mtt_set_sync_period_def
  by (rule cmd_returns, use assms in \<open>simp add: udata_wf_def\<close>)+

lemma trval_index: "task_ok t \<Longrightarrow> i < 32 \<Longrightarrow> loc_word (unat t - 1) i < 812"
  using task_ok_index [of t] by (simp add: loc_word_def MttDrvrTASKS_def)

lemma set_trval_eq:
  assumes "udata_wf u" "task_ok (TR_Task tr)" "length (TR_RegVals tr) = MttDrvrLRAM_SIZE"
    "find (\<lambda>i. task_bit i AND TR_RegMask tr \<noteq> 0) [0 ..< MttDrvrLRAM_SIZE] = Some i"
  defines "w \<equiv> loc_word (unat (TR_Task tr) - 1) i"
  shows "mtt_set_trval tr u = Inr (SkelUserReturnOK, R_none, u\<lparr>iomap := (iomap u)[w := TR_RegVals tr ! i],
     trace := trace u @ [Lock ModLock, Wr (int w) (TR_RegVals tr ! i), Unlock ModLock]\<rparr>)"
proof -
  have "i < 32" using find_SomeD [OF assms(4)] by (simp add: MttDrvrLRAM_SIZE_def)
  then have "w < 812" "int i < int (length (TR_RegVals tr))"
    using trval_index [OF assms(2)] assms(3) by (simp_all add: w_def MttDrvrLRAM_SIZE_def)
  then show ?thesis
    using assms by (simp add: mtt_set_trval_def ret_ok_def run_locked_eq io_write_ok)
qed

lemma get_trval_ok:
  assumes "udata_wf u" "task_ok (TR_Task tr)"
  shows "good (\<lambda>(r, rep, u'). r = SkelUserReturnOK \<and> iomap u' = iomap u \<and> U_Tasks u' = U_Tasks u \<and>
      rep = R_treg (tr\<lparr>TR_RegVals := take 32 (drop (loc_word (unat (TR_Task tr) - 1) 0) (iomap u)), TR_RegMask := 0xffffffff\<rparr>))
     (mtt_get_trval tr u)"
proof -
  let ?k = "loc_word (unat (TR_Task tr) - 1) 0"
  have "?k + 32 \<le> 9004" using trval_index [OF assms(2), of 0] by simp
  then have rd: "good (\<lambda>(xs, u'). xs = take 32 (drop ?k (iomap u)) \<and> iomap u' = iomap u \<and> U_Tasks u' = U_Tasks u)
     (mtt_ioreadw_r (int ?k) MttDrvrLRAM_SIZE (u\<lparr>trace := trace u @ [Lock ModLock]\<rparr>))"
    using ioreadw_ok [of ?k 32 "u\<lparr>trace := trace u @ [Lock ModLock]\<rparr>"] assms(1) by (simp add: MttDrvrLRAM_SIZE_def)
  show ?thesis
    unfolding mtt_get_trval_def using assms(2) rd
    by (auto intro!: ret_val_good [OF with_lock_keep])
qed

lemma grval_returns:
  assumes "udata_wf u" "- 76 \<le> sint g"
  shows "returns (mtt_set_grval g x u)" "returns (mtt_get_grval g u)"
proof -
  have w: "0 \<le> glob_word (sint g)" "sint g < 224 \<Longrightarrow> glob_word (sint g) < 9004"
    using assms(2) by (simp_all add: glob_word_def)
  show "returns (mtt_set_grval g x u)" "returns (mtt_get_grval g u)"
    using assms(1) w by (simp_all add: mtt_set_grval_def mtt_get_grval_def MttDrvrGRAM_SIZE_def ret_ok_def ret_val_def
      run_locked_eq with_lock_eq io_write_ok io_read_ok)
qed

lemma send_event_returns:
  assumes "udata_wf u"
  shows "returns (mtt_send_event_ioctl f p u)"
  using assms
  by (simp add: mtt_send_event_ioctl_def mtt_supports_prio_def readw_eq MTT_VHDL_def cmd_returns)

lemma tasks_start_returns: "udata_wf u \<Longrightarrow> returns (mtt_tasks_start_ioctl v u)"
  unfolding mtt_tasks_start_ioctl_def
  by (auto simp: MttDrvrTASKS_def intro!: returns_ret_ok returnsI [OF start_loop])

lemma raw_returns:
  assumes "udata_wf u" "unat offs + unat sz \<le> MAP_WORDS"
  shows "returns (mtt_io_write e arr (int (unat offs)) sz u)" "returns (mtt_io_read e arr (int (unat offs)) sz u)"
proof -
  have n: "unat (sz * 4) div 4 \<le> unat sz" by (simp add: unat_word_ariths)
  have b: "unat offs + unat (sz * 4) div 4 \<le> 9004" using n assms(2) by (simp add: MAP_WORDS_def)
  show "returns (mtt_io_write e arr (int (unat offs)) sz u)"
    unfolding mtt_io_write_def Let_def
    using b assms(1) by (auto simp del: of_nat_unat intro!: returns_ret_ok run_locked_keep returnsI [OF iowritew_ok])
  show "returns (mtt_io_read e arr (int (unat offs)) sz u)"
    unfolding mtt_io_read_def Let_def
    using b assms(1) by (auto simp del: of_nat_unat intro!: good_bind [OF with_lock_keep [OF returnsI [OF ioreadw_ok]]])
qed

lemma program_returns:
  assumes "udata_wf u" "unat (LoadAddress p) + unat (InstructionCount p) \<le> MttDrvrINSTRUCTIONS"
  shows "returns (mtt_set_program_ioctl e p u)" "returns (mtt_get_program_ioctl e p u)"
proof -
  have k: "prog_word (unat (LoadAddress p)) + 2 * unat (InstructionCount p) \<le> 9004"
    using assms(2) by (rule prog_word_bound)
  have n: "bounce_elems (InstructionCount p) = unat (InstructionCount p)"
    using assms(2) by (intro bounce_elems_small) simp
  show "returns (mtt_set_program_ioctl e p u)"
    unfolding mtt_set_program_ioctl_def Let_def n
    using k assms(1) by (auto intro!: returns_ret_ok run_locked_keep returnsI [OF set_program_ok])
  show "returns (mtt_get_program_ioctl e p u)"
    unfolding mtt_get_program_ioctl_def Let_def n
    using k assms(1) by (auto intro!: good_bind [OF with_lock_keep [OF get_program_ok]])
qed

lemma task_mask_returns:
  assumes "udata_wf u" "reg < 36016"
  shows "returns (mtt_set_tasks reg v u)" "returns (mtt_get_tasks reg u)"
proof -
  have "reg div 4 < 9004" using assms(2) by (simp add: div_less_iff_less_mult)
  then show "returns (mtt_set_tasks reg v u)" "returns (mtt_get_tasks reg u)"
    using assms by (simp_all add: mtt_set_tasks_def mtt_get_tasks_def ret_ok_def ret_val_def run_locked_eq with_lock_eq
      mtt_writew_def io_write_ok readw_eq)
qed

lemma status_returns:
  assumes "udata_wf u"
  shows "returns (mtt_status_ioctl e u)" "returns (mtt_version_ioctl e ct u)"
  using assms
  by (auto simp: mtt_status_ioctl_def mtt_version_ioctl_def mtt_ping_def readw_eq MTT_VHDL_def MTT_STATUS_def
      mtt_get_status_def ret_val_def)

lemma utc_returns:
  assumes "udata_wf u"
  shows "returns (mtt_set_utc_ioctl x u)" "returns (mtt_get_utc_ioctl u)"
  using assms
  by (simp_all add: mtt_set_utc_ioctl_def mtt_set_utc_def mtt_cmd_def [symmetric] cmd_returns
     mtt_get_utc_ioctl_def mtt_get_utc_def with_lock_eq readw_eq MTT_MSEC_def MTT_SEC_def ret_val_def)

lemma set_trval_returns:
  assumes "udata_wf u" "length (TR_RegVals tr) = MttDrvrLRAM_SIZE"
  shows "returns (mtt_set_trval tr u)"
proof (cases "find (\<lambda>i. task_bit i AND TR_RegMask tr \<noteq> 0) [0 ..< MttDrvrLRAM_SIZE]")
  case None
  then show ?thesis by (simp add: mtt_set_trval_def)
next
  case (Some i)
  show ?thesis
  proof (cases "task_ok (TR_Task tr)")
    case True
    then show ?thesis using set_trval_eq [OF assms(1) True assms(2) Some] by simp
  qed (simp add: mtt_set_trval_def)
qed

lemma ioctls_return:
  assumes "udata_wf u" "request_in_range req"
  shows "returns (SkelUserIoctls e ct req u)"
proof (cases req)
  case (MTT_IOCSTCB tb)
  then show ?thesis
    using returnsI [OF set_tcb_ok [OF assms(1)]] by (cases "task_ok (TB_Task tb)") (simp_all add: mtt_set_tcb_ioctl_def)
next
  case (MTT_IOCGTCB tb)
  then show ?thesis
    using returnsI [OF get_tcb_ok [OF assms(1)]] by (cases "task_ok (TB_Task tb)") (simp_all add: mtt_get_tcb_ioctl_def)
next
  case (MTT_IOCGTRVAL tr)
  then show ?thesis
    using returnsI [OF get_trval_ok [OF assms(1)]] by (cases "task_ok (TR_Task tr)") (simp_all add: mtt_get_trval_def)
qed (use assms in \<open>simp_all add: setting_returns grval_returns send_event_returns tasks_start_returns raw_returns [simplified] program_returns
   task_mask_returns status_returns utc_returns set_trval_returns MTT_TASKS_STOP_def MTT_TASKS_START_def MTT_TASKS_CURR_def
   mtt_set_cableid_def mtt_get_cableid_def mtt_get_out_delay_def mtt_get_sync_period_def\<close>)


section \<open>Properties\<close>

text \<open>
  C32: On well-formed private data every request whose addresses lie inside the memory map
  returns: no access leaves the map or a buffer, whatever the words on the board, whether the
  bus answers, memory is free and user space can be copied. The only requests with a bound to
  respect are the register, program and raw transfers.
\<close>

theorem ioctl_no_fault:
  assumes "udata_wf u" "request_in_range req"
  shows "\<exists>r rep u'. SkelUserIoctls e ct req u = Inr (r, rep, u') \<and> udata_wf u'"
proof -
  obtain r rep u' where run: "SkelUserIoctls e ct req u = Inr (r, rep, u')"
    using ioctls_return [OF assms, of e ct] by (auto simp: good_iff)
  then show ?thesis using shape.ioctls_R [OF run] assms(1) by auto
qed

definition board0 :: udata where
  "board0 = zero_udata (replicate MAP_WORDS 0)"

lemma board0_wf: "udata_wf board0"
  by (simp add: board0_def udata_wf_def zero_udata_def tasks_wf_def zero_task_def)

definition kenv_up :: kenv where
  "kenv_up = \<lparr>bus_ok = True, alloc_ok = True, copy_ok = True\<rparr>"

lemma kenv_up_simps [simp]: "bus_ok kenv_up" "alloc_ok kenv_up" "copy_ok kenv_up"
  by (simp_all add: kenv_up_def)

theorem ioctl_no_fault_witness:
  "\<exists>r rep u'. SkelUserIoctls kenv_up 0 (MTT_IOCRAW_READ 9000 4 []) board0 = Inr (r, rep, u') \<and> udata_wf u'"
  by (rule ioctl_no_fault [OF board0_wf]) (simp add: MAP_WORDS_def)

text \<open>
  C33: A program written at a load address inside the program memory is read back unchanged,
  every byte of every instruction, and nothing else on the board nor in the private data is
  touched: a program in any other part of the memory keeps its image.
\<close>

theorem program_write_read:
  assumes "udata_wf u" "alloc_ok e" "copy_ok e" "length (Program p) = unat (InstructionCount p)"
    "unat (LoadAddress p) + unat (InstructionCount p) \<le> MttDrvrINSTRUCTIONS" "length ys = length (Program p)"
  shows "\<exists>u1 u2. SkelUserIoctls e ct (MTT_IOCSPROGRAM p) u = Inr (SkelUserReturnOK, R_none, u1) \<and>
     SkelUserIoctls e ct (MTT_IOCGPROGRAM (p\<lparr>Program := ys\<rparr>)) u1 = Inr (SkelUserReturnOK, R_prog (Program p), u2) \<and>
     U_Tasks u1 = U_Tasks u \<and>
     (\<forall>j < MAP_WORDS. j < prog_word (unat (LoadAddress p)) \<or>
        prog_word (unat (LoadAddress p) + unat (InstructionCount p)) \<le> j \<longrightarrow> iomap u1 ! j = iomap u ! j)"
proof -
  let ?la = "unat (LoadAddress p)" and ?n = "unat (InstructionCount p)"
  have bound: "prog_word ?la + 2 * length (Program p) \<le> length (iomap u)"
    using prog_word_bound [OF assms(5)] assms(1,4) by simp
  obtain u1 where u1: "SkelUserIoctls e ct (MTT_IOCSPROGRAM p) u = Inr (SkelUserReturnOK, R_none, u1)"
      "udata_wf u1" "U_Tasks u1 = U_Tasks u" "iomap u1 = blit (prog_word ?la) (inst_words (Program p)) (iomap u)"
    using set_program_ioctl_ok [OF assms(1,2,3) _ assms(5), of ct] assms(4) by (auto simp: good_iff)
  obtain u2 where u2: "SkelUserIoctls e ct (MTT_IOCGPROGRAM (p\<lparr>Program := ys\<rparr>)) u1 =
      Inr (SkelUserReturnOK, R_prog (prog_image ?la ?n u1), u2)"
    using get_program_ioctl_ok [OF u1(2) assms(2,3), of "p\<lparr>Program := ys\<rparr>" ct] assms(4,5,6) by (auto simp: good_iff)
  have "prog_image ?la ?n u1 = Program p"
    using prog_image_blit [OF bound u1(4)] assms(4) by simp
  moreover have "iomap u1 ! j = iomap u ! j" if "j < MAP_WORDS" "j < prog_word ?la \<or> prog_word (?la + ?n) \<le> j" for j
    using that bound u1(4) assms(1,4) by (auto simp: nth_blit MAP_WORDS_def prog_word_def)
  ultimately show ?thesis using u1 u2 by auto
qed

definition prog2 :: "Instruction list" where
  "prog2 = [\<lparr>I_Dest = 1, I_Src2 = 2, I_Number = 0xe6, I_Crc = 9, I_Src1 = 7\<rparr>, \<lparr>I_Dest = 0, I_Src2 = 0, I_Number = 0, I_Crc = 0, I_Src1 = 0\<rparr>]"

theorem program_write_read_witness:
  "\<exists>u1 u2. SkelUserIoctls kenv_up 0 (MTT_IOCSPROGRAM \<lparr>LoadAddress = 4094, InstructionCount = 2, Program = prog2\<rparr>) board0 =
        Inr (SkelUserReturnOK, R_none, u1) \<and>
     SkelUserIoctls kenv_up 0 (MTT_IOCGPROGRAM \<lparr>LoadAddress = 4094, InstructionCount = 2, Program = prog2\<rparr>) u1 =
        Inr (SkelUserReturnOK, R_prog prog2, u2)"
  using program_write_read [OF board0_wf, of kenv_up "\<lparr>LoadAddress = 4094, InstructionCount = 2, Program = prog2\<rparr>" prog2 0]
  by (auto simp: prog2_def MttDrvrINSTRUCTIONS_def)

text \<open>
  Setting the task control block with any mask of fields changes exactly the fields in the
  mask, of that task only, in the driver and on the board; reading it back returns them, with
  the program counter and the offset as the board has them and the name cut at its NUL.
\<close>

theorem tcb_write_read:
  assumes "udata_wf u" "task_ok (TB_Task tb)"
  defines "i \<equiv> unat (TB_Task tb) - 1"
  shows "\<exists>u1 u2. SkelUserIoctls e ct (MTT_IOCSTCB tb) u = Inr (SkelUserReturnOK, R_none, u1) \<and>
     SkelUserIoctls e ct (MTT_IOCGTCB tb) u1 = Inr (SkelUserReturnOK, R_tcb (tcb_view i u1), u2) \<and>
     U_Tasks u1 = (U_Tasks u)[i := tcb_after tb {0 ..< 6} (U_Tasks u ! i)] \<and>
     (\<forall>j < MAP_WORDS. iomap u1 ! j =
        (if j = task_word i \<and> has_field tb 4 then B_Pc (TB_ControlBlock tb)
         else if j = Suc (task_word i) \<and> has_field tb 3 then B_PcOffset (TB_ControlBlock tb) else iomap u ! j))"
proof -
  have i: "i < 16" using task_ok_index [OF assms(2)] by (simp add: i_def MttDrvrTASKS_def)
  obtain u1 where u1: "SkelUserIoctls e ct (MTT_IOCSTCB tb) u = Inr (SkelUserReturnOK, R_none, u1)"
      "iomap u1 = block_after tb {0 ..< 6} i (iomap u)" "U_Tasks u1 = (U_Tasks u)[i := tcb_after tb {0 ..< 6} (U_Tasks u ! i)]"
    using set_tcb_ok [OF assms(1,2), of e ct] by (auto simp: good_iff i_def)
  have wf: "udata_wf u1" using shape.ioctls_R [OF u1(1)] assms(1) by auto
  obtain u2 where u2: "SkelUserIoctls e ct (MTT_IOCGTCB tb) u1 = Inr (SkelUserReturnOK, R_tcb (tcb_view i u1), u2)"
    using get_tcb_ok [OF wf assms(2), of e ct] by (auto simp: good_iff i_def)
  have "Suc (task_word i) < length (iomap u)" using i assms(1) by (simp add: task_word_def)
  then have "iomap u1 ! j =
        (if j = task_word i \<and> has_field tb 4 then B_Pc (TB_ControlBlock tb)
         else if j = Suc (task_word i) \<and> has_field tb 3 then B_PcOffset (TB_ControlBlock tb) else iomap u ! j)"
    if "j < MAP_WORDS" for j
    using that assms(1) by (auto simp: u1(2) block_after_nth upd_if_def udata_wf_def)
  with u1 u2 show ?thesis by auto
qed

definition tb3 :: MttDrvrTaskBuf where
  "tb3 = \<lparr>TB_Task = 3, TB_Fields = 0x3F, TB_LoadAddress = 512, TB_InstructionCount = 5, TB_PcStart = 1,
     TB_ControlBlock = \<lparr>B_Pc = 1, B_PcOffset = 512, B_TaskStatus = 0, B_ProcessorStatus = 0\<rparr>, TB_Name = ''Pulse''\<rparr>"

theorem tcb_write_read_witness:
  "\<exists>u1 u2. SkelUserIoctls kenv_up 0 (MTT_IOCSTCB tb3) board0 = Inr (SkelUserReturnOK, R_none, u1) \<and>
     SkelUserIoctls kenv_up 0 (MTT_IOCGTCB tb3) u1 = Inr (SkelUserReturnOK, R_tcb (tcb_view 2 u1), u2)"
proof -
  have ok: "task_ok (TB_Task tb3)" and i: "unat (TB_Task tb3) - 1 = 2" by code_simp+
  show ?thesis using tcb_write_read [OF board0_wf ok, of kenv_up 0] unfolding i by blast
qed

text \<open>
  Starting tasks by mask: for each task of the mask in ascending order, under the module's
  lock, the task is stopped, its program counter on the board is set to its start address under
  the task's lock, and it is started; nothing else happens. The program counters of the other
  tasks and every other word but the start and stop registers keep their values.
\<close>

theorem tasks_start_spec:
  assumes "udata_wf u" "v AND MttDrvrTASK_MASK \<noteq> 0"
  shows "\<exists>u'. SkelUserIoctls e ct (MTT_IOCSTASKS_START v) u = Inr (SkelUserReturnOK, R_none, u') \<and>
     started v [0 ..< MttDrvrTASKS] u u'"
proof -
  have "set [0 ..< MttDrvrTASKS] \<subseteq> {..<16}" by (auto simp: MttDrvrTASKS_def)
  then obtain u' where "fold_r (start_if v) [0 ..< MttDrvrTASKS] u = Inr u'" "started v [0 ..< MttDrvrTASKS] u u'"
    using start_loop [OF assms(1), of "[0 ..< MttDrvrTASKS]" v] by (auto simp: good_iff)
  then show ?thesis using assms(2) by (simp add: mtt_tasks_start_ioctl_def ret_ok_def)
qed

theorem tasks_start_spec_witness:
  "\<exists>u'. SkelUserIoctls kenv_up 0 (MTT_IOCSTASKS_START 5) board0 = Inr (SkelUserReturnOK, R_none, u') \<and>
     started 5 [0 ..< MttDrvrTASKS] board0 u'"
  by (rule tasks_start_spec [OF board0_wf]) (simp add: MttDrvrTASK_MASK_def)

text \<open>
  Setting task registers by mask writes only the lowest register of the mask: the request
  reports success, one word of the board changes, and the values given for the other registers
  of the mask are ignored.
\<close>

theorem set_trval_lowest:
  assumes "udata_wf u" "task_ok (TR_Task tr)" "length (TR_RegVals tr) = MttDrvrLRAM_SIZE"
    "k < MttDrvrLRAM_SIZE" "task_bit k AND TR_RegMask tr \<noteq> 0" "\<And>j. j < k \<Longrightarrow> task_bit j AND TR_RegMask tr = 0"
  shows "\<exists>u'. SkelUserIoctls e ct (MTT_IOCSTRVAL tr) u = Inr (SkelUserReturnOK, R_none, u') \<and> U_Tasks u' = U_Tasks u \<and>
     iomap u' = (iomap u)[loc_word (unat (TR_Task tr) - 1) k := TR_RegVals tr ! k]"
proof -
  have "find (\<lambda>i. task_bit i AND TR_RegMask tr \<noteq> 0) [0 ..< MttDrvrLRAM_SIZE] = Some k"
    using assms(4,5,6) by (auto simp: find_Some_iff)
  then show ?thesis using set_trval_eq [OF assms(1,2,3)] by auto
qed

theorem set_trval_lowest_witness:
  "\<exists>u'. SkelUserIoctls kenv_up 0 (MTT_IOCSTRVAL \<lparr>TR_Task = 1, TR_RegMask = 6, TR_RegVals = replicate 32 9\<rparr>) board0 =
       Inr (SkelUserReturnOK, R_none, u') \<and> U_Tasks u' = U_Tasks board0 \<and> iomap u' = (iomap board0)[301 := 9]"
proof -
  let ?tr = "\<lparr>TR_Task = 1, TR_RegMask = 6, TR_RegVals = replicate 32 9\<rparr>"
  have "task_ok (TR_Task ?tr)" "task_bit 1 AND TR_RegMask ?tr \<noteq> 0" "task_bit 0 AND TR_RegMask ?tr = 0" by code_simp+
  moreover have "loc_word (unat (TR_Task ?tr) - 1) 1 = 301" "replicate 32 (9 :: u32) ! 1 = 9" by code_simp+
  ultimately show ?thesis
    using set_trval_lowest [OF board0_wf, of ?tr 1 kenv_up 0] by (simp add: MttDrvrLRAM_SIZE_def)
qed

text \<open>
  The check on a global register number has no lower bound: a number that is negative as
  a signed value passes it, and the request writes, with success, to a word in front of the
  global registers: for -1 the processor status of task 16, for -71 the command register.
\<close>

theorem grval_negative:
  assumes "udata_wf u" "- 76 \<le> sint g" "sint g < 0"
  shows "\<exists>u'. SkelUserIoctls e ct (MTT_IOCSGRVAL g x) u = Inr (SkelUserReturnOK, R_none, u') \<and>
     iomap u' = (iomap u)[nat (76 + sint g) := x]"
  using assms
  by (simp add: mtt_set_grval_def MttDrvrGRAM_SIZE_def glob_word_def run_locked_eq io_write_ok ret_ok_def)

theorem grval_negative_witness:
  "\<exists>u'. SkelUserIoctls kenv_up 0 (MTT_IOCSGRVAL (- 71) 0) board0 = Inr (SkelUserReturnOK, R_none, u') \<and>
     iomap u' = (iomap board0)[5 := 0]"
  using grval_negative [OF board0_wf, of "- 71" kenv_up 0 0] by simp

end
