(* ===== verification/Mtt_Lib.thy ===== *)
theory Mtt_Lib
  imports Mtt_Board
begin

text \<open>
  The MTT library (mttn/lib/libmtt.c) over the driver: its static variables as a record, the
  driver's private data inside it, and one definition per routine. Each \<^verbatim>\<open>ioctl\<close> goes to
  \<open>SkelUserIoctls\<close>. What lies outside the program is a parameter: the kernel's answers to each
  call and what the board does to its words between two calls (\<open>world\<close>), the contents of a
  file, the memory \<^verbatim>\<open>malloc\<close> returns, the clock, and the results of the skeleton's own requests.
  Names are C strings; a task name in a buffer is the array of 32 characters.
\<close>

section \<open>Errors\<close>

datatype MttLibError =
    MttLibErrorNONE | MttLibErrorINIT | MttLibErrorOPEN | MttLibErrorIO | MttLibErrorSYS | MttLibErrorPATH
  | MttLibErrorFILE | MttLibErrorREAD | MttLibErrorNOMEM | MttLibErrorNORELO | MttLibErrorTOOBIG | MttLibErrorEMPTY
  | MttLibErrorFULL | MttLibErrorNOLOAD | MttLibErrorISLOAD | MttLibErrorNAME | MttLibErrorLREG | MttLibErrorGREG

definition all_errors :: "MttLibError list" where
  "all_errors = [MttLibErrorNONE, MttLibErrorINIT, MttLibErrorOPEN, MttLibErrorIO, MttLibErrorSYS, MttLibErrorPATH,
     MttLibErrorFILE, MttLibErrorREAD, MttLibErrorNOMEM, MttLibErrorNORELO, MttLibErrorTOOBIG, MttLibErrorEMPTY,
     MttLibErrorFULL, MttLibErrorNOLOAD, MttLibErrorISLOAD, MttLibErrorNAME, MttLibErrorLREG, MttLibErrorGREG]"

definition errstrings :: "string list" where
  "errstrings = [''No error, all OK'', ''The MTT library has not been initialized'', ''Unable to open the MTT driver'',
     ''IO error, see errno'', ''Operating system error, see errno'', ''Bad path name syntax'',
     ''Could not find file, see errno'', ''Can not read file, or file empty'', ''Not enough memory'',
     ''Task object binary is not relocatable'', ''Task size is too big'', ''Object file is empty'',
     ''No more tasks can be loaded, full up'', ''No such task is loaded'', ''Task is already loaded'',
     ''Illegal task name'', ''No such local register'', ''No such global register'']"

definition err_code :: "MttLibError \<Rightarrow> u32" where
  "err_code e = of_nat (length (takeWhile (\<lambda>d. d \<noteq> e) all_errors))"

definition MttLibErrorToString :: "u32 \<Rightarrow> string" where
  "MttLibErrorToString err =
     (if of_nat (length all_errors) \<le> err then ''No such error code'' else errstrings ! unat err)"

section \<open>State\<close>

definition MttLibMIN_NAME_SIZE :: nat where "MttLibMIN_NAME_SIZE = 3"
definition MttLibMAX_NAME_SIZE :: nat where "MttLibMAX_NAME_SIZE = 32"
definition MttLibTASKS :: nat where "MttLibTASKS = 16"
definition MttLibTASK_SIZE :: nat where "MttLibTASK_SIZE = 4096 div MttLibTASKS"
definition LN :: nat where "LN = 128"

record mttlib =
  L_mtt :: bool
  L_objdir :: string
  L_connected :: u32
  L_noqueueflag :: i32
  L_timeout :: i32
  L_first_task :: nat
  L_last_task :: nat
  L_max_size :: u32
  L_calls :: nat
  L_drv :: udata

definition lib_start :: "udata \<Rightarrow> mttlib" where
  "lib_start u = \<lparr>L_mtt = False, L_objdir = [], L_connected = 0, L_noqueueflag = 0, L_timeout = 200,
     L_first_task = 1, L_last_task = MttLibTASKS, L_max_size = of_nat MttLibTASK_SIZE, L_calls = 0, L_drv = u\<rparr>"

record world =
  W_kenv :: "nat \<Rightarrow> kenv"
  W_board :: "nat \<Rightarrow> u32 list \<Rightarrow> u32 list"
  W_compile_time :: u32

text \<open>One request: whether it succeeded, and what it stored in the caller's structure.\<close>

definition ioctl_call :: "world \<Rightarrow> ioctl \<Rightarrow> mttlib \<Rightarrow> ((bool \<times> reply) \<times> mttlib) result" where
  "ioctl_call w req l =
     (let n = L_calls l; u = (L_drv l)\<lparr>iomap := W_board w n (iomap (L_drv l))\<rparr> in
      bind_r (SkelUserIoctls (W_kenv w n) (W_compile_time w) req u) (\<lambda>(r, rep, u').
        Inr ((r = SkelUserReturnOK, rep), l\<lparr>L_drv := u', L_calls := Suc n\<rparr>)))"

section \<open>Strings\<close>

definition isalpha_c :: "char \<Rightarrow> bool" where
  "isalpha_c c = (let n = of_char c :: nat in 65 \<le> n \<and> n \<le> 90 \<or> 97 \<le> n \<and> n \<le> 122)"

definition isalnum_c :: "char \<Rightarrow> bool" where
  "isalnum_c c = (let n = of_char c :: nat in isalpha_c c \<or> 48 \<le> n \<and> n \<le> 57)"

definition name_ok :: "string option \<Rightarrow> bool" where
  "name_ok name =
     (case name of None \<Rightarrow> False
      | Some s \<Rightarrow> MttLibMIN_NAME_SIZE \<le> length s \<and> length s < MttLibMAX_NAME_SIZE \<and> s \<noteq> ''ALL'' \<and> isalpha_c (hd s) \<and>
          list_all (\<lambda>c. c = CHR ''_'' \<or> c = CHR ''.'' \<or> isalnum_c c) (tl s))"

definition strncmp_32 :: "string \<Rightarrow> string \<Rightarrow> bool" where
  "strncmp_32 buf s = (take MttLibMAX_NAME_SIZE (c_string buf) = take MttLibMAX_NAME_SIZE (c_string s))"

text \<open>Length and comparison of an array of characters that may lack its final NUL.\<close>

definition strlen_buf :: "string \<Rightarrow> nat result" where
  "strlen_buf buf = (if CHR 0x00 \<in> set buf then Inr (length (c_string buf)) else Inl Out_of_bounds)"

definition strcmp_buf :: "string \<Rightarrow> string \<Rightarrow> bool result" where
  "strcmp_buf s buf =
     (if CHR 0x00 \<in> set buf then Inr (c_string s = c_string buf)
      else if take (length buf) (c_string s) = buf then Inl Out_of_bounds else Inr False)"

section \<open>Object files and register names\<close>

definition MttLibReadObject ::
  "(nat \<Rightarrow> (nat \<Rightarrow> Instruction) option) \<Rightarrow> string \<Rightarrow> ProgramBuf \<Rightarrow> (MttLibError \<times> ProgramBuf) result" where
  "MttLibReadObject malloc file code =
     (case fgets LN file of
        None \<Rightarrow> Inr (MttLibErrorREAD, code)
      | Some (ln, rest) \<Rightarrow>
          (let (la, p) = strtoul (c_string ln); (ic, q) = strtoul p; n = unat ic;
               code1 = code\<lparr>LoadAddress := la, InstructionCount := ic\<rparr> in
           case malloc (8 * n mod 2 ^ 32) of
             None \<Rightarrow> Inr (MttLibErrorNOMEM, code1)
           | Some mem \<Rightarrow>
               if 2 ^ 29 \<le> n then Inl Out_of_bounds
               else Inr (MttLibErrorNONE, code1\<lparr>Program := read_insts mem 0 n rest\<rparr>)))"

text \<open>
  The text in upper case up to a blank. The routine writes the result into an array of nine
  characters and also changes its input up to the same place.
\<close>

definition upper_word :: "string \<Rightarrow> string" where
  "upper_word s = map upper_c (takeWhile (\<lambda>c. c \<noteq> CHR '' '') s)"

definition lib_StrToUpper :: "string \<Rightarrow> (string \<times> string) result" where
  "lib_StrToUpper s =
     (if MAX_REGISTER_STRING_LENGTH < length (upper_word s) then Inl Out_of_bounds
      else Inr (upper_word s @ dropWhile (\<lambda>c. c \<noteq> CHR '' '') s, upper_word s))"

datatype MttLibRegType = MttLibRegTypeNONE | MttLibRegTypeGLOBAL | MttLibRegTypeLOCAL

definition reg_type :: "nat \<Rightarrow> MttLibRegType" where
  "reg_type lg = (if lg = LOCAL_REG then MttLibRegTypeLOCAL else if lg = GLOBAL_REG then MttLibRegTypeGLOBAL else MttLibRegTypeNONE)"

fun lib_reg_rows :: "string \<Rightarrow> string \<Rightarrow> MttLibRegType \<Rightarrow> RegisterDsc list \<Rightarrow> u32 \<times> MttLibRegType" where
  "lib_reg_rows name upr lorg [] = (0, lorg)"
| "lib_reg_rows name upr lorg (d # ds) =
     (if starts_with upr (Reg_Name d)
      then (if Reg_Start d < Reg_End d
            then (if length (Reg_Name d) < length name
                  then (let cp = drop (length (Reg_Name d)) name; (rn, ep) = strtoul cp;
                            st = of_nat (Reg_Start d); en = of_nat (Reg_End d); off = of_nat (Reg_Offset d)
                        in if cp \<noteq> ep \<and> off \<le> rn \<and> rn \<le> en - st + off
                           then (st + rn - off - (if Reg_LorG d = LOCAL_REG then of_nat GLOBALS else 0), reg_type (Reg_LorG d))
                           else lib_reg_rows name upr lorg ds)
                  else lib_reg_rows name upr lorg ds)
            else (of_nat (Reg_Start d), lorg))
      else lib_reg_rows name upr lorg ds)"

text \<open>\<open>lorg\<close> is the value of the caller's variable; it is set for numbered registers only.\<close>

definition MttLibStringToReg :: "string option \<Rightarrow> MttLibRegType \<Rightarrow> (u32 \<times> MttLibRegType) result" where
  "MttLibStringToReg name lorg =
     (case name of
        None \<Rightarrow> Inr (0, lorg)
      | Some cp \<Rightarrow> bind_r (lib_StrToUpper cp) (\<lambda>(cp', upr). Inr (lib_reg_rows cp' upr lorg Regs)))"

definition MttLibRegToString :: "int \<Rightarrow> MttLibRegType \<Rightarrow> string result" where
  "MttLibRegToString regnum lorg =
     (let r = (if lorg = MttLibRegTypeLOCAL then regnum + int GLOBALS else regnum) in
      case (if 0 \<le> r then reg_row (nat r) else None) of
        None \<Rightarrow> Inr ''???''
      | Some d \<Rightarrow>
          (let txt = (if Reg_Start d < Reg_End d then Reg_Name d @ show_base 10 (nat r - Reg_Start d + Reg_Offset d) else Reg_Name d)
           in if MAX_REGISTER_STRING_LENGTH \<le> length txt then Inl Out_of_bounds else Inr txt))"

section \<open>Waiting and initialising\<close>

text \<open>Results of the skeleton's requests; \<open>None\<close> in the list of reads is a read that fails.\<close>

record skel_env =
  SE_connect :: bool
  SE_queue :: bool
  SE_timeout :: bool
  SE_reads :: "u32 option list"

fun wait_reads :: "u32 \<Rightarrow> u32 option list \<Rightarrow> u32 result" where
  "wait_reads msk [] = Inl Blocked"
| "wait_reads msk (None # rs) = Inr 0"
| "wait_reads msk (Some m # rs) = (if msk = 0 \<or> msk AND m \<noteq> 0 then Inr m else wait_reads msk rs)"

definition MttLibWait :: "skel_env \<Rightarrow> u32 \<Rightarrow> i32 \<Rightarrow> i32 \<Rightarrow> mttlib \<Rightarrow> (u32 \<times> mttlib) result" where
  "MttLibWait se msk noqueue tmo l =
     (if \<not> L_mtt l then Inr (0, l)
      else if msk AND L_connected l \<noteq> msk \<and> \<not> SE_connect se then Inr (0, l)
      else let l1 = l\<lparr>L_connected := L_connected l OR msk\<rparr> in
        if noqueue \<noteq> L_noqueueflag l1 \<and> \<not> SE_queue se then Inr (err_code MttLibErrorIO, l1)
        else let l2 = l1\<lparr>L_noqueueflag := noqueue\<rparr> in
          if tmo \<noteq> L_timeout l2 \<and> \<not> SE_timeout se then Inr (err_code MttLibErrorIO, l2)
          else let l3 = l2\<lparr>L_timeout := tmo\<rparr> in bind_r (wait_reads msk (SE_reads se)) (\<lambda>m. Inr (m, l3)))"

definition MttLibDEFAULT_OBJECT_PATH :: string where
  "MttLibDEFAULT_OBJECT_PATH = ''/tmp/''"

text \<open>The directory of the object files: None when the path is empty.\<close>

definition set_objdir :: "string option \<Rightarrow> string option result" where
  "set_objdir path =
     (case path of
        None \<Rightarrow> Inr (Some MttLibDEFAULT_OBJECT_PATH)
      | Some p \<Rightarrow>
          if p = [] then Inr None
          else if LN \<le> length p then Inl Out_of_bounds
          else if last p = CHR ''/'' then Inr (Some p)
          else if LN \<le> length p + 1 then Inl Out_of_bounds
          else Inr (Some (p @ ''/'')))"

definition then_lib ::
  "(MttLibError \<times> mttlib) result \<Rightarrow> (mttlib \<Rightarrow> (MttLibError \<times> mttlib) result) \<Rightarrow> (MttLibError \<times> mttlib) result" where
  "then_lib m f = bind_r m (\<lambda>(e, l). if e = MttLibErrorNONE then f l else Inr (e, l))"

text \<open>A request whose failure closes the device.\<close>

definition init_request :: "world \<Rightarrow> ioctl \<Rightarrow> mttlib \<Rightarrow> (MttLibError \<times> mttlib) result" where
  "init_request w req l =
     bind_r (ioctl_call w req l) (\<lambda>((ok, rep), l1).
       Inr (if ok then (MttLibErrorNONE, l1) else (MttLibErrorIO, l1\<lparr>L_mtt := False\<rparr>)))"

definition MttDrvrIntPPS :: u32 where "MttDrvrIntPPS = 0x1000000"
definition MttDrvrStatusENABLED :: u32 where "MttDrvrStatusENABLED = 0x01"
definition MttDrvrStatusUTC_SET :: u32 where "MttDrvrStatusUTC_SET = 0x02"
definition MttDrvrStatusUTC_SENDING_ON :: u32 where "MttDrvrStatusUTC_SENDING_ON = 0x04"

definition init_utc :: "world \<Rightarrow> skel_env \<Rightarrow> i32 \<Rightarrow> mttlib \<Rightarrow> (MttLibError \<times> mttlib) result" where
  "init_utc w se tim l =
     bind_r (MttLibWait se MttDrvrIntPPS 0 200 l) (\<lambda>(msk, l1).
       if msk AND MttDrvrIntPPS = 0 then Inr (MttLibErrorIO, l1\<lparr>L_mtt := False\<rparr>)
       else if sint tim \<le> 0 then Inr (MttLibErrorSYS, l1\<lparr>L_mtt := False\<rparr>)
       else init_request w (MTT_IOCSUTC (tim + 1)) l1)"

definition MttLibInit ::
  "world \<Rightarrow> skel_env \<Rightarrow> bool \<Rightarrow> bool \<Rightarrow> i32 \<Rightarrow> string option \<Rightarrow> mttlib \<Rightarrow> (MttLibError \<times> mttlib) result" where
  "MttLibInit w se opened sysldr tim path l =
     bind_r (set_objdir path) (\<lambda>dir.
       case dir of
         None \<Rightarrow> Inr (MttLibErrorPATH, l)
       | Some d \<Rightarrow>
           (let l0 = l\<lparr>L_objdir := d, L_mtt := opened\<rparr> in
            if \<not> opened then Inr (MttLibErrorOPEN, l0)
            else bind_r (ioctl_call w MTT_IOCGSTATUS l0) (\<lambda>((ok, rep), l1).
              let stat = (case rep of R_val v \<Rightarrow> v | _ \<Rightarrow> 0) in
              if \<not> ok then Inr (MttLibErrorIO, l1\<lparr>L_mtt := False\<rparr>)
              else then_lib (if sysldr \<or> stat AND MttDrvrStatusENABLED = 0
                             then init_request w (MTT_IOCSOUT_ENABLE 1) l1 else Inr (MttLibErrorNONE, l1)) (\<lambda>l2.
                   then_lib (if sysldr \<or> stat AND MttDrvrStatusUTC_SET = 0
                             then init_utc w se tim l2 else Inr (MttLibErrorNONE, l2)) (\<lambda>l3.
                   if sysldr \<or> stat AND MttDrvrStatusUTC_SENDING_ON = 0
                   then init_request w (MTT_IOCSUTC_SENDING 1) l3 else Inr (MttLibErrorNONE, l3))))))"

section \<open>Looking for a task\<close>

definition task_buf :: "u32 \<Rightarrow> MttDrvrTaskBuf" where
  "task_buf t = \<lparr>TB_Task = t, TB_Fields = 0, TB_LoadAddress = 0, TB_InstructionCount = 0, TB_PcStart = 0,
     TB_ControlBlock = \<lparr>B_Pc = 0, B_PcOffset = 0, B_TaskStatus = 0, B_ProcessorStatus = 0\<rparr>, TB_Name = []\<rparr>"

text \<open>The control block of the task with index \<open>i\<close>; None when the request fails.\<close>

definition get_tcb :: "world \<Rightarrow> nat \<Rightarrow> mttlib \<Rightarrow> (MttDrvrTaskBuf option \<times> mttlib) result" where
  "get_tcb w i l =
     bind_r (ioctl_call w (MTT_IOCGTCB (task_buf (of_nat (Suc i)))) l) (\<lambda>((ok, rep), l1).
       Inr (if ok then (case rep of R_tcb tb \<Rightarrow> Some tb | _ \<Rightarrow> None) else None, l1))"

definition task_range :: "mttlib \<Rightarrow> nat list" where
  "task_range l = [L_first_task l - 1 ..< L_last_task l]"

datatype 'e scan = Found nat 'e | Not_found | Io_failed

text \<open>
  The loop over the task range that every routine with a task name starts with: look an entry
  up, give up when that fails, stop at the first one that matches.
\<close>

fun scan_dir :: "(nat \<Rightarrow> 's \<Rightarrow> ('e option \<times> 's) result) \<Rightarrow> ('e \<Rightarrow> bool result) \<Rightarrow> nat list \<Rightarrow> 's \<Rightarrow> ('e scan \<times> 's) result" where
  "scan_dir look match [] s = Inr (Not_found, s)"
| "scan_dir look match (i # ks) s =
     bind_r (look i s) (\<lambda>(r, s1).
       case r of
         None \<Rightarrow> Inr (Io_failed, s1)
       | Some e \<Rightarrow> bind_r (match e) (\<lambda>b. if b then Inr (Found i e, s1) else scan_dir look match ks s1))"

definition scan_tasks :: "world \<Rightarrow> (MttDrvrTaskBuf \<Rightarrow> bool result) \<Rightarrow> nat list \<Rightarrow> mttlib \<Rightarrow> (MttDrvrTaskBuf scan \<times> mttlib) result" where
  "scan_tasks w match ks l = scan_dir (get_tcb w) match ks l"

definition find_task :: "world \<Rightarrow> string \<Rightarrow> mttlib \<Rightarrow> (MttDrvrTaskBuf scan \<times> mttlib) result" where
  "find_task w name l = scan_tasks w (\<lambda>tb. strcmp_buf name (TB_Name tb)) (task_range l) l"

text \<open>A routine that acts on the task with the given name.\<close>

definition on_task :: "world \<Rightarrow> string \<Rightarrow> (nat \<Rightarrow> MttDrvrTaskBuf \<Rightarrow> mttlib \<Rightarrow> (MttLibError \<times> mttlib) result) \<Rightarrow> mttlib \<Rightarrow> (MttLibError \<times> mttlib) result" where
  "on_task w name act l =
     (if \<not> L_mtt l then Inr (MttLibErrorINIT, l)
      else bind_r (find_task w name l) (\<lambda>(r, l1).
        case r of Found i tb \<Rightarrow> act i tb l1 | Not_found \<Rightarrow> Inr (MttLibErrorNOLOAD, l1) | Io_failed \<Rightarrow> Inr (MttLibErrorIO, l1)))"

definition request :: "world \<Rightarrow> ioctl \<Rightarrow> mttlib \<Rightarrow> (MttLibError \<times> mttlib) result" where
  "request w req l =
     bind_r (ioctl_call w req l) (\<lambda>((ok, rep), l1). Inr (if ok then MttLibErrorNONE else MttLibErrorIO, l1))"

section \<open>Loading tasks\<close>

definition MttLibReadTaskObject ::
  "world \<Rightarrow> (nat \<Rightarrow> (nat \<Rightarrow> Instruction) option) \<Rightarrow> string option \<Rightarrow> ProgramBuf \<Rightarrow> mttlib \<Rightarrow> ((MttLibError \<times> ProgramBuf) \<times> mttlib) result" where
  "MttLibReadTaskObject w malloc name pbf l =
     (if \<not> L_mtt l then Inr ((MttLibErrorINIT, pbf), l)
      else if \<not> name_ok name then Inr ((MttLibErrorNAME, pbf), l)
      else bind_r (scan_tasks w (\<lambda>tb. Inr (strncmp_32 (TB_Name tb) (the name))) (task_range l) l) (\<lambda>(r, l1).
        case r of
          Io_failed \<Rightarrow> Inr ((MttLibErrorIO, pbf), l1)
        | Not_found \<Rightarrow> Inr ((MttLibErrorNOLOAD, pbf), l1)
        | Found i tb \<Rightarrow>
            if TB_InstructionCount tb = 0 then Inr ((MttLibErrorEMPTY, pbf), l1)
            else let p1 = pbf\<lparr>InstructionCount := TB_InstructionCount tb, LoadAddress := TB_LoadAddress tb\<rparr> in
              case malloc (unat (TB_InstructionCount tb * 8)) of
                None \<Rightarrow> Inr ((MttLibErrorNOMEM, p1), l1)
              | Some mem \<Rightarrow>
                  let p2 = p1\<lparr>Program := map mem [0 ..< unat (TB_InstructionCount tb * 8) div 8]\<rparr> in
                  bind_r (ioctl_call w (MTT_IOCGPROGRAM p2) l1) (\<lambda>((ok, rep), l2).
                    if \<not> ok then Inr ((MttLibErrorIO, p2), l2)
                    else Inr ((MttLibErrorNONE, p2\<lparr>Program := (case rep of R_prog xs \<Rightarrow> xs | _ \<Rightarrow> Program p2)\<rparr>), l2))))"

text \<open>
  The loop that looks for enough consecutive free slots and stops the tasks in them: the number
  of the last slot looked at, of the first free one, how many are free, and the last control
  block read. It ends early when there are \<open>tcnt\<close>; None when a request fails.
\<close>

fun free_slots :: "world \<Rightarrow> u32 \<Rightarrow> nat list \<Rightarrow> nat \<times> nat \<times> u32 \<times> MttDrvrTaskBuf \<Rightarrow> mttlib \<Rightarrow> ((nat \<times> nat \<times> u32 \<times> MttDrvrTaskBuf) option \<times> mttlib) result" where
  "free_slots w tcnt [] s l = Inr (Some s, l)"
| "free_slots w tcnt (i # ks) (tn, ftn, tval, tb) l =
     bind_r (get_tcb w i l) (\<lambda>(r, l1).
       case r of
         None \<Rightarrow> Inr (None, l1)
       | Some tb1 \<Rightarrow>
           bind_r (strlen_buf (TB_Name tb1)) (\<lambda>len.
             if len = 0
             then bind_r (ioctl_call w (MTT_IOCSTASKS_STOP (task_bit i)) l1) (\<lambda>(_, l2).
               let s = (Suc i, if tval = 0 then Suc i else ftn, tval + 1, tb1) in
               if tcnt \<le> tval + 1 then Inr (Some s, l2) else free_slots w tcnt ks s l2)
             else free_slots w tcnt ks (Suc i, ftn, 0, tb1) l1))"

definition load_tcb :: "string \<Rightarrow> ProgramBuf \<Rightarrow> nat \<Rightarrow> MttDrvrTaskBuf \<Rightarrow> MttDrvrTaskBuf" where
  "load_tcb name pbf t tb =
     tb\<lparr>TB_Task := of_nat t, TB_Fields := 0x3F, TB_LoadAddress := LoadAddress pbf,
        TB_InstructionCount := InstructionCount pbf, TB_PcStart := 0,
        TB_ControlBlock := (TB_ControlBlock tb)\<lparr>B_Pc := 0, B_PcOffset := LoadAddress pbf\<rparr>,
        TB_Name := strncpy_32 name\<rparr>"

fun set_tcbs :: "world \<Rightarrow> string \<Rightarrow> ProgramBuf \<Rightarrow> MttDrvrTaskBuf \<Rightarrow> nat list \<Rightarrow> mttlib \<Rightarrow> (MttLibError \<times> mttlib) result" where
  "set_tcbs w name pbf tb [] l = Inr (MttLibErrorNONE, l)"
| "set_tcbs w name pbf tb (t # ts) l =
     then_lib (request w (MTT_IOCSTCB (load_tcb name pbf t tb)) l) (set_tcbs w name pbf tb ts)"

definition MttLibLoadTaskObject ::
  "world \<Rightarrow> string option \<Rightarrow> ProgramBuf \<Rightarrow> mttlib \<Rightarrow> ((MttLibError \<times> ProgramBuf) \<times> mttlib) result" where
  "MttLibLoadTaskObject w name pbf l =
     (if \<not> L_mtt l then Inr ((MttLibErrorINIT, pbf), l)
      else if \<not> name_ok name then Inr ((MttLibErrorNAME, pbf), l)
      else if LoadAddress pbf \<noteq> 0 then Inr ((MttLibErrorNORELO, pbf), l)
      else if InstructionCount pbf = 0 then Inr ((MttLibErrorEMPTY, pbf), l)
      else if L_max_size l + 1 = 0 then Inl Bad_arith
      else let tcnt = InstructionCount pbf div (L_max_size l + 1) + 1 in
        bind_r (scan_tasks w (\<lambda>tb. Inr (strncmp_32 (TB_Name tb) (the name))) (task_range l) l) (\<lambda>(r, l1).
          case r of
            Io_failed \<Rightarrow> Inr ((MttLibErrorIO, pbf), l1)
          | Found i tb \<Rightarrow> Inr ((MttLibErrorISLOAD, pbf), l1)
          | Not_found \<Rightarrow>
              bind_r (free_slots w tcnt (task_range l) (0, 0, 0, task_buf 0) l1) (\<lambda>(s, l2).
                case s of
                  None \<Rightarrow> Inr ((MttLibErrorIO, pbf), l2)
                | Some (tn, ftn, tval, tb) \<Rightarrow>
                    if tval = 0 then Inr ((MttLibErrorNOMEM, pbf), l2)
                    else let p1 = pbf\<lparr>LoadAddress := L_max_size l * of_nat (tn - 1)\<rparr> in
                      bind_r (then_lib (request w (MTT_IOCSPROGRAM p1) l2)
                                (set_tcbs w (the name) p1 tb [ftn ..< ftn + unat tval]))
                        (\<lambda>(e, l3). Inr ((e, p1), l3)))))"

text \<open>\<open>files\<close> gives the text of the file with the given name when it can be opened.\<close>

definition MttLibLoadTask ::
  "world \<Rightarrow> (string \<Rightarrow> string option) \<Rightarrow> (nat \<Rightarrow> (nat \<Rightarrow> Instruction) option) \<Rightarrow> ProgramBuf \<Rightarrow> string option \<Rightarrow> mttlib \<Rightarrow> (MttLibError \<times> mttlib) result" where
  "MttLibLoadTask w files malloc pbf0 name l =
     (if \<not> L_mtt l then Inr (MttLibErrorINIT, l)
      else if \<not> name_ok name then Inr (MttLibErrorNAME, l)
      else let fname = L_objdir l @ the name in
        if LN \<le> length fname then Inl Out_of_bounds
        else case files fname of
          None \<Rightarrow> Inr (MttLibErrorFILE, l)
        | Some txt \<Rightarrow>
            bind_r (MttLibReadObject malloc txt pbf0) (\<lambda>(e, pbf).
              if e \<noteq> MttLibErrorNONE then Inr (e, l)
              else bind_r (MttLibLoadTaskObject w name pbf l) (\<lambda>((e', _), l1). Inr (e', l1))))"

text \<open>
  Unloading clears the name of every task that matches; \<open>failed\<close> counts the requests that
  failed, each of which returns -1.
\<close>

fun unload_tasks :: "world \<Rightarrow> bool \<Rightarrow> string \<Rightarrow> nat list \<Rightarrow> nat \<Rightarrow> mttlib \<Rightarrow> (nat option \<times> mttlib) result" where
  "unload_tasks w alls name [] failed l = Inr (Some failed, l)"
| "unload_tasks w alls name (i # ks) failed l =
     bind_r (get_tcb w i l) (\<lambda>(r, l1).
       case r of
         None \<Rightarrow> Inr (None, l1)
       | Some tb \<Rightarrow>
           bind_r (if alls then Inr True else strcmp_buf name (TB_Name tb)) (\<lambda>b.
             if \<not> b then unload_tasks w alls name ks failed l1
             else bind_r (ioctl_call w (MTT_IOCSTASKS_STOP (task_bit i)) l1) (\<lambda>((ok1, _), l2).
                  bind_r (ioctl_call w (MTT_IOCSTCB (tb\<lparr>TB_Name := replicate MttLibMAX_NAME_SIZE (CHR 0x00)\<rparr>)) l2) (\<lambda>((ok2, _), l3).
                    unload_tasks w alls name ks (failed + (if ok1 then 0 else 1) + (if ok2 then 0 else 1)) l3))))"

definition MttLibUnloadTask :: "world \<Rightarrow> string \<Rightarrow> mttlib \<Rightarrow> (MttLibError \<times> mttlib) result" where
  "MttLibUnloadTask w name l =
     (if \<not> L_mtt l then Inr (MttLibErrorINIT, l)
      else bind_r (unload_tasks w (name = ''ALL'') name (task_range l) 0 l) (\<lambda>(r, l1).
        case r of
          None \<Rightarrow> Inr (MttLibErrorIO, l1)
        | Some failed \<Rightarrow> Inr (if 0 < failed \<and> name \<noteq> ''ALL'' then MttLibErrorNOLOAD else MttLibErrorNONE, l1)))"

definition MttLibUnloadTasks :: "world \<Rightarrow> mttlib \<Rightarrow> (MttLibError \<times> mttlib) result" where
  "MttLibUnloadTasks w l = MttLibUnloadTask w ''ALL'' l"

section \<open>Task lists\<close>

text \<open>\<open>names\<close> are the caller's sixteen arrays; an empty name only clears the first character.\<close>

definition put_name :: "bool \<Rightarrow> nat \<Rightarrow> MttDrvrTaskBuf \<Rightarrow> string list \<Rightarrow> string list result" where
  "put_name show i tb names =
     bind_r (arr_get names (int i)) (\<lambda>old.
       arr_set names (int i) (if show then strncpy_32 (TB_Name tb) else CHR 0x00 # tl old))"

fun list_tasks :: "world \<Rightarrow> (MttDrvrTaskBuf \<Rightarrow> bool) \<Rightarrow> nat list \<Rightarrow> string list \<Rightarrow> mttlib \<Rightarrow> ((MttLibError \<times> string list) \<times> mttlib) result" where
  "list_tasks w cond [] names l = Inr ((MttLibErrorNONE, names), l)"
| "list_tasks w cond (i # ks) names l =
     bind_r (get_tcb w i l) (\<lambda>(r, l1).
       case r of
         None \<Rightarrow> Inr ((MttLibErrorIO, names), l1)
       | Some tb \<Rightarrow>
           bind_r (strlen_buf (TB_Name tb)) (\<lambda>len.
           bind_r (put_name (len \<noteq> 0 \<and> cond tb) i tb names) (\<lambda>names1. list_tasks w cond ks names1 l1)))"

definition MttDrvrTaskStatusRUNNING :: u32 where "MttDrvrTaskStatusRUNNING = 0x20"

definition MttLibGetLoadedTasks :: "world \<Rightarrow> string list \<Rightarrow> mttlib \<Rightarrow> ((MttLibError \<times> string list) \<times> mttlib) result" where
  "MttLibGetLoadedTasks w names l =
     (if \<not> L_mtt l then Inr ((MttLibErrorINIT, names), l) else list_tasks w (\<lambda>tb. True) (task_range l) names l)"

definition MttLibGetRunningTasks :: "world \<Rightarrow> string list \<Rightarrow> mttlib \<Rightarrow> ((MttLibError \<times> string list) \<times> mttlib) result" where
  "MttLibGetRunningTasks w names l =
     (if \<not> L_mtt l then Inr ((MttLibErrorINIT, names), l)
      else list_tasks w (\<lambda>tb. B_TaskStatus (TB_ControlBlock tb) AND MttDrvrTaskStatusRUNNING \<noteq> 0) (task_range l) names l)"

section \<open>Registers\<close>

definition MttLibLocalREGISTERS :: nat where "MttLibLocalREGISTERS = 32"
definition MttLibGlobalREGISTERS :: nat where "MttLibGlobalREGISTERS = 224"

text \<open>\<open>junk\<close> are the values of the caller's register array before the assignment.\<close>

definition MttLibSetTaskRegister :: "world \<Rightarrow> u32 list \<Rightarrow> string \<Rightarrow> u32 \<Rightarrow> u32 \<Rightarrow> mttlib \<Rightarrow> (MttLibError \<times> mttlib) result" where
  "MttLibSetTaskRegister w junk name treg val l =
     (if \<not> L_mtt l then Inr (MttLibErrorINIT, l)
      else if of_nat MttLibLocalREGISTERS \<le> treg then Inr (MttLibErrorLREG, l)
      else on_task w name (\<lambda>i tb. request w (MTT_IOCSTRVAL
             \<lparr>TR_Task = of_nat (Suc i), TR_RegMask = task_bit (unat treg), TR_RegVals = junk[unat treg := val]\<rparr>)) l)"

text \<open>Reading registers: the register buffer the driver filled.\<close>

definition read_registers :: "world \<Rightarrow> u32 list \<Rightarrow> string \<Rightarrow> u32 \<Rightarrow> mttlib \<Rightarrow> ((MttLibError \<times> MttDrvrTaskRegBuf option) \<times> mttlib) result" where
  "read_registers w junk name msk l =
     bind_r (find_task w name l) (\<lambda>(r, l1).
       case r of
         Not_found \<Rightarrow> Inr ((MttLibErrorNOLOAD, None), l1)
       | Io_failed \<Rightarrow> Inr ((MttLibErrorIO, None), l1)
       | Found i tb \<Rightarrow>
           bind_r (ioctl_call w (MTT_IOCGTRVAL \<lparr>TR_Task = of_nat (Suc i), TR_RegMask = msk, TR_RegVals = junk\<rparr>) l1)
             (\<lambda>((ok, rep), l2).
               if \<not> ok then Inr ((MttLibErrorIO, None), l2)
               else Inr ((MttLibErrorNONE, case rep of R_treg tr \<Rightarrow> Some tr | _ \<Rightarrow> None), l2)))"

definition MttLibGetTaskRegister :: "world \<Rightarrow> u32 list \<Rightarrow> string \<Rightarrow> u32 \<Rightarrow> mttlib \<Rightarrow> ((MttLibError \<times> u32 option) \<times> mttlib) result" where
  "MttLibGetTaskRegister w junk name treg l =
     (if \<not> L_mtt l then Inr ((MttLibErrorINIT, None), l)
      else if of_nat MttLibLocalREGISTERS \<le> treg then Inr ((MttLibErrorLREG, None), l)
      else bind_r (read_registers w junk name (task_bit (unat treg)) l) (\<lambda>((e, tr), l1).
        Inr ((e, map_option (\<lambda>t. TR_RegVals t ! unat treg) tr), l1)))"

definition MttLibGetTaskRegisters :: "world \<Rightarrow> u32 list \<Rightarrow> string \<Rightarrow> mttlib \<Rightarrow> ((MttLibError \<times> MttDrvrTaskRegBuf option) \<times> mttlib) result" where
  "MttLibGetTaskRegisters w junk name l =
     (if \<not> L_mtt l then Inr ((MttLibErrorINIT, None), l) else read_registers w junk name (- 1) l)"

definition MttSetGlobalRegister :: "world \<Rightarrow> u32 \<Rightarrow> u32 \<Rightarrow> mttlib \<Rightarrow> (MttLibError \<times> mttlib) result" where
  "MttSetGlobalRegister w greg val l =
     (if \<not> L_mtt l then Inr (MttLibErrorINIT, l)
      else if of_nat MttLibGlobalREGISTERS \<le> greg then Inr (MttLibErrorGREG, l)
      else request w (MTT_IOCSGRVAL greg val) l)"

definition MttGetGlobalRegister :: "world \<Rightarrow> u32 \<Rightarrow> mttlib \<Rightarrow> ((MttLibError \<times> u32 option) \<times> mttlib) result" where
  "MttGetGlobalRegister w greg l =
     (if \<not> L_mtt l then Inr ((MttLibErrorINIT, None), l)
      else if of_nat MttLibGlobalREGISTERS \<le> greg then Inr ((MttLibErrorGREG, None), l)
      else bind_r (ioctl_call w (MTT_IOCGGRVAL greg) l) (\<lambda>((ok, rep), l1).
        if ok then Inr ((MttLibErrorNONE, case rep of R_val v \<Rightarrow> Some v | _ \<Rightarrow> None), l1)
        else Inr ((MttLibErrorIO, None), l1)))"

section \<open>Running tasks\<close>

definition MttLibStartTask :: "world \<Rightarrow> string \<Rightarrow> mttlib \<Rightarrow> (MttLibError \<times> mttlib) result" where
  "MttLibStartTask w name = on_task w name (\<lambda>i tb. request w (MTT_IOCSTASKS_START (task_bit i)))"

definition MttLibStopTask :: "world \<Rightarrow> string \<Rightarrow> mttlib \<Rightarrow> (MttLibError \<times> mttlib) result" where
  "MttLibStopTask w name = on_task w name (\<lambda>i tb. request w (MTT_IOCSTASKS_STOP (task_bit i)))"

definition MttLibContinueTask :: "world \<Rightarrow> string \<Rightarrow> mttlib \<Rightarrow> (MttLibError \<times> mttlib) result" where
  "MttLibContinueTask w name = on_task w name (\<lambda>i tb. request w (MTT_IOCSTASKS_CONT (task_bit i)))"

text \<open>These two return an error code in place of the status or number.\<close>

definition MttLibGetTaskStatus :: "world \<Rightarrow> string \<Rightarrow> mttlib \<Rightarrow> (u32 \<times> mttlib) result" where
  "MttLibGetTaskStatus w name l =
     (if \<not> L_mtt l then Inr (0, l)
      else bind_r (find_task w name l) (\<lambda>(r, l1).
        Inr (case r of Found i tb \<Rightarrow> B_TaskStatus (TB_ControlBlock tb) | Not_found \<Rightarrow> 0 | Io_failed \<Rightarrow> err_code MttLibErrorIO, l1)))"

definition MttLibGetTcbNum :: "world \<Rightarrow> string \<Rightarrow> mttlib \<Rightarrow> (u32 \<times> mttlib) result" where
  "MttLibGetTcbNum w name l =
     (if \<not> L_mtt l then Inr (0, l)
      else bind_r (find_task w name l) (\<lambda>(r, l1).
        Inr (case r of Found i tb \<Rightarrow> of_nat (Suc i) | Not_found \<Rightarrow> 0 | Io_failed \<Rightarrow> err_code MttLibErrorIO, l1)))"

section \<open>Events, status and settings\<close>

definition send_event :: "world \<Rightarrow> i32 \<Rightarrow> i32 \<Rightarrow> mttlib \<Rightarrow> (MttLibError \<times> mttlib) result" where
  "send_event w frame prio l =
     (if \<not> L_mtt l then Inr (MttLibErrorINIT, l) else request w (MTT_IOCSSEND_EVENT frame prio) l)"

definition MttLibSendEvent :: "world \<Rightarrow> u32 \<Rightarrow> mttlib \<Rightarrow> (MttLibError \<times> mttlib) result" where
  "MttLibSendEvent w frame = send_event w frame 0"

definition MttLibSendEventPrio :: "world \<Rightarrow> u32 \<Rightarrow> i32 \<Rightarrow> mttlib \<Rightarrow> (MttLibError \<times> mttlib) result" where
  "MttLibSendEventPrio w frame prio = send_event w frame prio"

definition MttLibGetStatus :: "world \<Rightarrow> mttlib \<Rightarrow> (u32 \<times> mttlib) result" where
  "MttLibGetStatus w l =
     (if \<not> L_mtt l then Inr (0, l)
      else bind_r (ioctl_call w MTT_IOCGSTATUS l) (\<lambda>((ok, rep), l1).
        Inr (if ok then (case rep of R_val v \<Rightarrow> v | _ \<Rightarrow> 0) else 0, l1)))"

text \<open>\<open>set_ok\<close> and \<open>got\<close> are the results of the skeleton's requests for the working module.\<close>

definition MttLibGetSetModule :: "bool \<Rightarrow> u32 option \<Rightarrow> u32 option \<Rightarrow> mttlib \<Rightarrow> MttLibError \<times> u32 option" where
  "MttLibGetSetModule set_ok got modnum l =
     (case modnum of
        None \<Rightarrow> (MttLibErrorOPEN, None)
      | Some m \<Rightarrow>
          if \<not> L_mtt l then (MttLibErrorOPEN, Some m)
          else if m \<noteq> 0 \<and> \<not> set_ok then (MttLibErrorIO, Some m)
          else case got of None \<Rightarrow> (MttLibErrorIO, Some m) | Some c \<Rightarrow> (MttLibErrorNONE, Some c))"

definition MttLibSetTaskRange :: "u32 \<Rightarrow> u32 \<Rightarrow> u32 \<Rightarrow> mttlib \<Rightarrow> MttLibError \<times> mttlib" where
  "MttLibSetTaskRange first lst isize l =
     (if first < 1 \<or> of_nat MttDrvrTASKS < first \<or> lst \<le> first \<or> of_nat MttDrvrTASKS < lst then (MttLibErrorNOLOAD, l)
      else (MttLibErrorNONE, l\<lparr>L_first_task := unat first, L_last_task := unat lst, L_max_size := isize\<rparr>))"

definition MttLibGetTaskRange :: "mttlib \<Rightarrow> u32 \<times> u32 \<times> u32" where
  "MttLibGetTaskRange l = (of_nat (L_first_task l), of_nat (L_last_task l), L_max_size l)"

end
