(* ===== verification/Mtt_Tasks.thy ===== *)
theory Mtt_Tasks
  imports Mtt_Lib
begin

text \<open>
  What the MTT library does with tasks, over the driver: the search by name, loading an object
  into a free slot and reading it back, unloading, task registers, starting. The locale
  \<open>task_directory\<close> states what the search relies on when it looks entries up one after the other
  (each look-up succeeds, shows the entry and changes no key); it is interpreted on the
  driver's task table with the two string comparisons the library uses. The board may change
  its words between two calls: \<open>world_wf w a\<close> says it keeps those from the index \<open>a\<close> on.
\<close>

section \<open>A directory that is searched\<close>

locale task_directory =
  fixes look :: "nat \<Rightarrow> 's \<Rightarrow> ('e option \<times> 's) result"
    and key :: "'s \<Rightarrow> nat \<Rightarrow> 'k"
    and size_d :: nat
    and ok :: "'s \<Rightarrow> bool"
    and matches :: "'k \<Rightarrow> 'e \<Rightarrow> bool result"
    and view :: "nat \<Rightarrow> 'e \<Rightarrow> 's \<Rightarrow> bool"
    and rest :: "'s \<Rightarrow> 'r"
    and legal :: "'k \<Rightarrow> bool"
  assumes look_ok: "ok s \<Longrightarrow> i < size_d \<Longrightarrow>
      \<exists>e s'. look i s = Inr (Some e, s') \<and> ok s' \<and> key s' = key s \<and> rest s' = rest s \<and> view i e s' \<and>
        (\<forall>k. legal k \<longrightarrow> matches k e = Inr (key s i = k))"
begin

lemma scan_total:
  assumes "ok s" "set ks \<subseteq> {..<size_d}" "legal k"
  shows "\<exists>r s'. scan_dir look (matches k) ks s = Inr (r, s') \<and> ok s' \<and> key s' = key s \<and> rest s' = rest s \<and>
     (case r of
        Found i e \<Rightarrow> \<exists>xs ys. ks = xs @ i # ys \<and> (\<forall>j \<in> set xs. key s j \<noteq> k) \<and> key s i = k \<and> view i e s'
      | Not_found \<Rightarrow> \<forall>j \<in> set ks. key s j \<noteq> k
      | Io_failed \<Rightarrow> False)"
  using assms
proof (induction ks arbitrary: s)
  case (Cons i ks)
  obtain e s1 where e: "look i s = Inr (Some e, s1)" "ok s1" "key s1 = key s" "rest s1 = rest s" "view i e s1" "matches k e = Inr (key s i = k)"
    using look_ok [OF Cons.prems(1), of i] Cons.prems(2,3) by auto
  show ?case
  proof (cases "key s i = k")
    case True
    then have "scan_dir look (matches k) (i # ks) s = Inr (Found i e, s1)" using e by simp
    moreover have "\<exists>xs ys. i # ks = xs @ i # ys \<and> (\<forall>j \<in> set xs. key s j \<noteq> k)"
      by (rule exI [of _ "[]"]) simp
    ultimately show ?thesis using True e by auto
  next
    case False
    then have step: "scan_dir look (matches k) (i # ks) s = scan_dir look (matches k) ks s1" using e by simp
    obtain r s' where r: "scan_dir look (matches k) ks s1 = Inr (r, s')" "ok s'" "key s' = key s1" "rest s' = rest s1"
       "case r of
          Found i e \<Rightarrow> \<exists>xs ys. ks = xs @ i # ys \<and> (\<forall>j \<in> set xs. key s1 j \<noteq> k) \<and> key s1 i = k \<and> view i e s'
        | Not_found \<Rightarrow> \<forall>j \<in> set ks. key s1 j \<noteq> k
        | Io_failed \<Rightarrow> False"
      using Cons.IH [OF e(2)] Cons.prems(2,3) by auto
    have "case r of
          Found m e \<Rightarrow> \<exists>xs ys. i # ks = xs @ m # ys \<and> (\<forall>j \<in> set xs. key s j \<noteq> k) \<and> key s m = k \<and> view m e s'
        | Not_found \<Rightarrow> \<forall>j \<in> set (i # ks). key s j \<noteq> k
        | Io_failed \<Rightarrow> False"
    proof (cases r)
      case (Found m f)
      then obtain xs ys where "ks = xs @ m # ys" "\<forall>j \<in> set xs. key s j \<noteq> k" "key s m = k" "view m f s'"
        using r(5) e(3) by auto
      then have "i # ks = (i # xs) @ m # ys \<and> (\<forall>j \<in> set (i # xs). key s j \<noteq> k)" using False by simp
      then show ?thesis using Found \<open>key s m = k\<close> \<open>view m f s'\<close> by (simp, blast)
    qed (use r(5) e(3) False in auto)
    with r e(3,4) show ?thesis unfolding step by auto
  qed
qed simp

end

text \<open>Between two calls the board keeps the size of its map and the words from \<open>a\<close> on.\<close>

definition world_wf :: "world \<Rightarrow> nat \<Rightarrow> bool" where
  "world_wf w a \<longleftrightarrow> (\<forall>n m. length (W_board w n m) = length m \<and> drop a (W_board w n m) = drop a m)"

definition terminated :: "string \<Rightarrow> bool" where
  "terminated s \<longleftrightarrow> CHR 0x00 \<in> set s"

definition named :: "udata \<Rightarrow> bool" where
  "named u \<longleftrightarrow> (\<forall>t \<in> set (U_Tasks u). terminated (T_Name t))"

definition lib_wf :: "mttlib \<Rightarrow> bool" where
  "lib_wf l \<longleftrightarrow> udata_wf (L_drv l) \<and> named (L_drv l) \<and> 1 \<le> L_first_task l \<and> L_first_task l \<le> L_last_task l \<and> L_last_task l \<le> MttDrvrTASKS"

definition task_name :: "mttlib \<Rightarrow> nat \<Rightarrow> string" where
  "task_name l i = c_string (T_Name (U_Tasks (L_drv l) ! i))"

definition moved :: "world \<Rightarrow> mttlib \<Rightarrow> udata" where
  "moved w l = (L_drv l)\<lparr>iomap := W_board w (L_calls l) (iomap (L_drv l))\<rparr>"

lemma moved_simps [simp]: "U_Tasks (moved w l) = U_Tasks (L_drv l)" "iomap (moved w l) = W_board w (L_calls l) (iomap (L_drv l))"
  by (simp_all add: moved_def)

lemma moved_wf: "world_wf w a \<Longrightarrow> udata_wf (L_drv l) \<Longrightarrow> udata_wf (moved w l)"
  by (simp add: udata_wf_def world_wf_def)

lemma ioctl_call_eq:
  assumes "SkelUserIoctls (W_kenv w (L_calls l)) (W_compile_time w) req (moved w l) = Inr (r, rep, u')"
  shows "ioctl_call w req l = Inr ((r = SkelUserReturnOK, rep), l\<lparr>L_drv := u', L_calls := Suc (L_calls l)\<rparr>)"
  using assms by (simp add: ioctl_call_def moved_def)

lemma c_string_short:
  assumes "terminated s"
  shows "length (c_string s) < length s"
  using assms unfolding c_string_def terminated_def by (induction s) auto

lemma c_string_strncpy: "length s = MttDrvrNameSIZE \<Longrightarrow> c_string (strncpy_32 s) = c_string s"
proof -
  assume "length s = MttDrvrNameSIZE"
  then have "length (c_string s) \<le> MttDrvrNameSIZE"
    using length_takeWhile_le [of "\<lambda>c. c \<noteq> CHR 0x00" s] by (simp add: c_string_def)
  then show ?thesis unfolding strncpy_32_def c_string_take by simp
qed

lemma set_strncpy: "terminated s \<Longrightarrow> length s = MttDrvrNameSIZE \<Longrightarrow> terminated (strncpy_32 s)"
  using c_string_short [of s] by (simp add: strncpy_32_def terminated_def)

lemma task_ok_of_nat: "i < MttDrvrTASKS \<Longrightarrow> task_ok (of_nat (Suc i)) \<and> unat (of_nat (Suc i) :: u32) - 1 = i"
  by (simp add: task_ok_def MttDrvrTASKS_def word_le_nat_alt unat_word_ariths unat_of_nat)

lemma get_tcb_eq:
  assumes "world_wf w a" "udata_wf (L_drv l)" "i < MttDrvrTASKS"
  shows "\<exists>u'. get_tcb w i l = Inr (Some (tcb_view i (moved w l)), l\<lparr>L_drv := u', L_calls := Suc (L_calls l)\<rparr>) \<and>
     iomap u' = iomap (moved w l) \<and> U_Tasks u' = U_Tasks (L_drv l)"
proof -
  let ?t = "task_buf (of_nat (Suc i))"
  have t: "task_ok (TB_Task ?t)" "unat (TB_Task ?t) - 1 = i"
    using task_ok_of_nat [OF assms(3)] by (simp_all add: task_buf_def)
  obtain u' where u': "SkelUserIoctls (W_kenv w (L_calls l)) (W_compile_time w) (MTT_IOCGTCB ?t) (moved w l) =
      Inr (SkelUserReturnOK, R_tcb (tcb_view i (moved w l)), u')" "iomap u' = iomap (moved w l)" "U_Tasks u' = U_Tasks (moved w l)"
    using get_tcb_ok [OF moved_wf [OF assms(1,2)] t(1), of "W_kenv w (L_calls l)" "W_compile_time w"] unfolding t(2) good_iff by auto
  show ?thesis
    unfolding get_tcb_def ioctl_call_eq [OF u'(1)] using u'(2,3) by auto
qed

definition lib_static :: "nat \<Rightarrow> mttlib \<Rightarrow> bool \<times> string \<times> nat \<times> nat \<times> u32 \<times> mtt_task list \<times> u32 list" where
  "lib_static a l = (L_mtt l, L_objdir l, L_first_task l, L_last_task l, L_max_size l, U_Tasks (L_drv l), drop a (iomap (L_drv l)))"

lemma tcb_view_cong: "iomap u = iomap v \<Longrightarrow> U_Tasks u = U_Tasks v \<Longrightarrow> tcb_view i u = tcb_view i v"
  by (simp add: tcb_view_def)

lemma named_task:
  assumes "udata_wf u" "named u" "i < MttDrvrTASKS"
  shows "length (T_Name (U_Tasks u ! i)) = MttDrvrNameSIZE" "terminated (T_Name (U_Tasks u ! i))"
proof -
  have t: "U_Tasks u ! i \<in> set (U_Tasks u)" using assms(1,3) by (intro nth_mem) (simp add: MttDrvrTASKS_def)
  show "length (T_Name (U_Tasks u ! i)) = MttDrvrNameSIZE" using t assms(1) unfolding udata_wf_def tasks_wf_def by metis
  show "terminated (T_Name (U_Tasks u ! i))" using t assms(2) unfolding named_def by metis
qed

lemma task_name_view:
  assumes "udata_wf u" "named u" "i < MttDrvrTASKS"
  shows "c_string (TB_Name (tcb_view i u)) = c_string (T_Name (U_Tasks u ! i))" "terminated (TB_Name (tcb_view i u))"
  using named_task [OF assms] by (simp_all add: tcb_view_def c_string_strncpy set_strncpy)

lemma look_tcb:
  assumes "world_wf w a" "lib_wf l" "i < MttDrvrTASKS"
  shows "\<exists>tb l'. get_tcb w i l = Inr (Some tb, l') \<and> lib_wf l' \<and> lib_static a l' = lib_static a l \<and> tb = tcb_view i (L_drv l') \<and>
     c_string (TB_Name tb) = task_name l i \<and> terminated (TB_Name tb)"
proof -
  have wf: "udata_wf (L_drv l)" "named (L_drv l)" using assms(2) by (simp_all add: lib_wf_def)
  obtain u' where u': "get_tcb w i l = Inr (Some (tcb_view i (moved w l)), l\<lparr>L_drv := u', L_calls := Suc (L_calls l)\<rparr>)"
      "iomap u' = iomap (moved w l)" "U_Tasks u' = U_Tasks (L_drv l)"
    using get_tcb_eq [OF assms(1) wf(1) assms(3)] by blast
  have view: "tcb_view i (moved w l) = tcb_view i u'" using u' by (intro tcb_view_cong) simp_all
  have u'_wf: "udata_wf u'" "named u'"
    using wf assms(1) u' by (simp_all add: udata_wf_def named_def world_wf_def)
  have "lib_wf (l\<lparr>L_drv := u', L_calls := Suc (L_calls l)\<rparr>)"
    using assms(2) u'_wf by (simp add: lib_wf_def)
  moreover have "drop a (iomap u') = drop a (iomap (L_drv l))"
    using assms(1) u' by (simp add: world_wf_def)
  ultimately show ?thesis
    using u' task_name_view [OF u'_wf assms(3)] by (simp add: view lib_static_def task_name_def)
qed

definition c_name :: "string \<Rightarrow> bool" where
  "c_name k \<longleftrightarrow> CHR 0x00 \<notin> set k"

lemma c_string_name [simp]: "c_name k \<Longrightarrow> c_string k = k"
  unfolding c_name_def c_string_def by (induction k) auto

lemma strcmp_buf_terminated: "terminated buf \<Longrightarrow> c_name k \<Longrightarrow> strcmp_buf k buf = Inr (c_string buf = k)"
  by (auto simp: strcmp_buf_def terminated_def)

lemma task_name_short:
  assumes "udata_wf u" "named u" "i < MttDrvrTASKS"
  shows "length (c_string (T_Name (U_Tasks u ! i))) < 32"
  using named_task [OF assms] c_string_short [of "T_Name (U_Tasks u ! i)"] by (simp add: MttDrvrNameSIZE_def)

interpretation by_strcmp: task_directory "get_tcb w" task_name MttDrvrTASKS "\<lambda>l. world_wf w a \<and> lib_wf l"
    "\<lambda>k tb. strcmp_buf k (TB_Name tb)" "\<lambda>i tb l. tb = tcb_view i (L_drv l)" "lib_static a" c_name for w a
proof
  fix l i
  assume l: "world_wf w a \<and> lib_wf l" "i < MttDrvrTASKS"
  obtain tb l' where "get_tcb w i l = Inr (Some tb, l')" "lib_wf l'" "lib_static a l' = lib_static a l" "tb = tcb_view i (L_drv l')"
     "c_string (TB_Name tb) = task_name l i" "terminated (TB_Name tb)"
    using look_tcb [of w a l i] l by blast
  then show "\<exists>e s'. get_tcb w i l = Inr (Some e, s') \<and> (world_wf w a \<and> lib_wf s') \<and> task_name s' = task_name l \<and>
     lib_static a s' = lib_static a l \<and> e = tcb_view i (L_drv s') \<and> (\<forall>k. c_name k \<longrightarrow> strcmp_buf k (TB_Name e) = Inr (task_name l i = k))"
    using l(1) by (auto simp: strcmp_buf_terminated lib_static_def task_name_def fun_eq_iff)
qed

interpretation by_strncmp: task_directory "get_tcb w" task_name MttDrvrTASKS "\<lambda>l. world_wf w a \<and> lib_wf l"
    "\<lambda>k tb. Inr (strncmp_32 (TB_Name tb) k)" "\<lambda>i tb l. tb = tcb_view i (L_drv l)" "lib_static a"
    "\<lambda>k. c_name k \<and> length k < MttLibMAX_NAME_SIZE" for w a
proof
  fix l i
  assume l: "world_wf w a \<and> lib_wf l" "i < MttDrvrTASKS"
  obtain tb l' where tb: "get_tcb w i l = Inr (Some tb, l')" "lib_wf l'" "lib_static a l' = lib_static a l" "tb = tcb_view i (L_drv l')"
     "c_string (TB_Name tb) = task_name l i" "terminated (TB_Name tb)"
    using look_tcb [of w a l i] l by blast
  have "length (task_name l i) < 32"
    using task_name_short [of "L_drv l" i] l by (simp add: task_name_def lib_wf_def)
  then have "strncmp_32 (TB_Name tb) k \<longleftrightarrow> task_name l i = k" if "c_name k" "length k < MttLibMAX_NAME_SIZE" for k
    using that tb(5) by (simp add: strncmp_32_def MttLibMAX_NAME_SIZE_def)
  then show "\<exists>e s'. get_tcb w i l = Inr (Some e, s') \<and> (world_wf w a \<and> lib_wf s') \<and> task_name s' = task_name l \<and>
     lib_static a s' = lib_static a l \<and> e = tcb_view i (L_drv s') \<and>
     (\<forall>k. c_name k \<and> length k < MttLibMAX_NAME_SIZE \<longrightarrow> Inr (strncmp_32 (TB_Name e) k) = Inr (task_name l i = k))"
    using l(1) tb by (auto simp: lib_static_def task_name_def fun_eq_iff)
qed


lemma task_range_bound: "lib_wf l \<Longrightarrow> set (task_range l) \<subseteq> {..<MttDrvrTASKS}"
  by (auto simp: task_range_def lib_wf_def)

lemma split_upt:
  assumes "[a ..< b] = xs @ i # ys"
  shows "set xs = {j. a \<le> j \<and> j < i} \<and> a \<le> i \<and> i < b"
proof -
  have len: "length xs < b - a" using arg_cong [OF assms, of length] by simp
  have i: "i = a + length xs" using arg_cong [OF assms, of "\<lambda>zs. zs ! length xs"] len by (simp add: nth_append)
  have "xs = take (length xs) [a ..< b]" using assms by simp
  then have "xs = [a ..< a + length xs]" using len by (simp add: take_upt)
  then show ?thesis using i len by (metis (no_types, lifting) Collect_cong atLeastLessThan_iff atLeastLessThan_def set_upt add_leE le_add1 less_diff_conv add.commute Collect_mem_eq)
qed

definition first_named :: "mttlib \<Rightarrow> string \<Rightarrow> nat \<Rightarrow> bool" where
  "first_named l name i \<longleftrightarrow> i \<in> set (task_range l) \<and> task_name l i = name \<and>
     (\<forall>j \<in> set (task_range l). j < i \<longrightarrow> task_name l j \<noteq> name)"

lemma first_split:
  assumes "task_range l = xs @ i # ys" "\<forall>j \<in> set xs. task_name l j \<noteq> name" "task_name l i = name"
  shows "first_named l name i"
proof -
  have s: "set xs = {j. L_first_task l - 1 \<le> j \<and> j < i} \<and> L_first_task l - 1 \<le> i \<and> i < L_last_task l"
    by (rule split_upt) (use assms(1) in \<open>simp add: task_range_def\<close>)
  show ?thesis unfolding first_named_def task_range_def set_upt using s assms(2,3) by auto
qed

definition scan_result :: "mttlib \<Rightarrow> string \<Rightarrow> MttDrvrTaskBuf scan \<Rightarrow> mttlib \<Rightarrow> bool" where
  "scan_result l name r l' \<longleftrightarrow>
     (case r of
        Found i tb \<Rightarrow> first_named l name i \<and> tb = tcb_view i (L_drv l')
      | Not_found \<Rightarrow> \<forall>j \<in> set (task_range l). task_name l j \<noteq> name
      | Io_failed \<Rightarrow> False)"

lemma find_task_ok:
  assumes "world_wf w a" "lib_wf l" "c_name name"
  shows "\<exists>r l'. find_task w name l = Inr (r, l') \<and> lib_wf l' \<and> lib_static a l' = lib_static a l \<and> scan_result l name r l'"
  using by_strcmp.scan_total [of w a l "task_range l" name] assms task_range_bound [OF assms(2)] first_split [of l]
  by (fastforce simp: find_task_def scan_tasks_def scan_result_def split: scan.splits)

lemma find_task_32_ok:
  assumes "world_wf w a" "lib_wf l" "c_name name" "length name < MttLibMAX_NAME_SIZE"
  shows "\<exists>r l'. scan_tasks w (\<lambda>tb. Inr (strncmp_32 (TB_Name tb) name)) (task_range l) l = Inr (r, l') \<and>
     lib_wf l' \<and> lib_static a l' = lib_static a l \<and> scan_result l name r l'"
  using by_strncmp.scan_total [of w a l "task_range l" name] assms task_range_bound [OF assms(2)] first_split [of l]
  by (fastforce simp: scan_tasks_def scan_result_def split: scan.splits)

text \<open>
  A task is found by its name: the number returned is that of the first task of the range
  with this name, and 0 exactly when no task of the range has it. The search changes neither
  the task table nor the library's settings, whatever the board does meanwhile.
\<close>

theorem GetTcbNum_first:
  assumes "world_wf w a" "lib_wf l" "L_mtt l" "c_name name"
  shows "\<exists>n l'. MttLibGetTcbNum w name l = Inr (n, l') \<and> lib_wf l' \<and> lib_static a l' = lib_static a l \<and>
     (if \<exists>j \<in> set (task_range l). task_name l j = name then n \<noteq> 0 \<and> first_named l name (unat n - 1) else n = 0)"
proof -
  obtain r l' where r: "find_task w name l = Inr (r, l')" "lib_wf l'" "lib_static a l' = lib_static a l" "scan_result l name r l'"
    using find_task_ok [OF assms(1,2,4)] by blast
  have n: "MttLibGetTcbNum w name l = Inr (case r of Found i tb \<Rightarrow> of_nat (Suc i) | Not_found \<Rightarrow> 0 | Io_failed \<Rightarrow> err_code MttLibErrorIO, l')"
    using assms(3) r(1) by (simp add: MttLibGetTcbNum_def)
  show ?thesis
  proof (cases r)
    case (Found i tb)
    then have i: "first_named l name i" using r(4) by (simp add: scan_result_def)
    then have "i < MttDrvrTASKS" using task_range_bound [OF assms(2)] by (auto simp: first_named_def)
    then have "unat (of_nat (Suc i) :: u32) - 1 = i" "(of_nat (Suc i) :: u32) \<noteq> 0"
      using task_ok_of_nat [of i] by (auto simp: task_ok_def)
    with Found i r(2,3) n show ?thesis by (auto simp: first_named_def)
  qed (use r n in \<open>auto simp: scan_result_def\<close>)
qed

section \<open>Calls of the driver\<close>

lemma lib_static_word:
  "lib_static a l = lib_static a l' \<Longrightarrow> lib_wf l \<Longrightarrow> lib_wf l' \<Longrightarrow> a \<le> j \<Longrightarrow> j < 9004 \<Longrightarrow> iomap (L_drv l) ! j = iomap (L_drv l') ! j"
  by (auto simp: lib_static_def lib_wf_def dest!: arg_cong [of _ _ "\<lambda>xs. xs ! (j - a)"])

lemma lib_wf_upd:
  assumes "lib_wf l" "udata_wf u'" "named u'"
  shows "lib_wf (l\<lparr>L_drv := u', L_calls := n\<rparr>)"
  using assms by (simp add: lib_wf_def)

lemma task_bit_mask: "i < MttDrvrTASKS \<Longrightarrow> task_bit i AND MttDrvrTASK_MASK = task_bit i \<and> task_bit i \<noteq> 0"
proof -
  assume "i < MttDrvrTASKS"
  then have "i \<in> set [0 ..< 16]" by (simp add: MttDrvrTASKS_def)
  moreover have "\<forall>i \<in> set [0 ..< 16]. task_bit i AND MttDrvrTASK_MASK = task_bit i \<and> task_bit i \<noteq> 0" by code_simp
  ultimately show ?thesis by blast
qed

lemma set_tasks_eq:
  assumes "udata_wf u" "v AND MttDrvrTASK_MASK \<noteq> 0" "reg < 36016"
  shows "mtt_set_tasks reg v u = Inr (SkelUserReturnOK, R_none, u\<lparr>iomap := (iomap u)[reg div 4 := v AND MttDrvrTASK_MASK],
     trace := trace u @ [Lock ModLock, Wr (int (reg div 4)) (v AND MttDrvrTASK_MASK), Unlock ModLock]\<rparr>)"
proof -
  have "reg div 4 < 9004" using assms(3) by (simp add: div_less_iff_less_mult)
  then show ?thesis using assms(1,2) by (simp add: mtt_set_tasks_def run_locked_eq mtt_writew_def io_write_ok ret_ok_def)
qed

lemma call_stop:
  assumes "world_wf w a" "lib_wf l" "i < MttDrvrTASKS" "11 \<le> a"
  shows "\<exists>l'. ioctl_call w (MTT_IOCSTASKS_STOP (task_bit i)) l = Inr ((True, R_none), l') \<and> lib_wf l' \<and> lib_static a l' = lib_static a l"
proof -
  have wf: "udata_wf (moved w l)" using moved_wf [OF assms(1)] assms(2) by (simp add: lib_wf_def)
  let ?u = "(moved w l)\<lparr>iomap := (iomap (moved w l))[10 := task_bit i], trace := trace (moved w l) @ [Lock ModLock, Wr 10 (task_bit i), Unlock ModLock]\<rparr>"
  have "SkelUserIoctls e ct (MTT_IOCSTASKS_STOP (task_bit i)) (moved w l) = Inr (SkelUserReturnOK, R_none, ?u)" for e ct
    using set_tasks_eq [OF wf, of "task_bit i" MTT_TASKS_STOP] task_bit_mask [OF assms(3)] by (simp add: MTT_TASKS_STOP_def)
  then have "ioctl_call w (MTT_IOCSTASKS_STOP (task_bit i)) l = Inr ((True, R_none), l\<lparr>L_drv := ?u, L_calls := Suc (L_calls l)\<rparr>)"
    by (simp add: ioctl_call_eq)
  moreover have "lib_wf (l\<lparr>L_drv := ?u, L_calls := Suc (L_calls l)\<rparr>)"
    by (rule lib_wf_upd [OF assms(2)]) (use wf assms(2) in \<open>simp_all add: udata_wf_def lib_wf_def named_def\<close>)
  moreover have "lib_static a (l\<lparr>L_drv := ?u, L_calls := Suc (L_calls l)\<rparr>) = lib_static a l"
    using assms(1,4) by (simp add: lib_static_def world_wf_def)
  ultimately show ?thesis by blast
qed

definition retask :: "mttlib \<Rightarrow> nat \<Rightarrow> mtt_task \<Rightarrow> mtt_task list" where
  "retask l i t = (U_Tasks (L_drv l))[i := t]"

lemma call_set_tcb:
  assumes "world_wf w a" "lib_wf l" "i < MttDrvrTASKS" "76 \<le> a" "TB_Task tb = of_nat (Suc i)"
    "terminated (T_Name (tcb_after tb {0 ..< 6} (U_Tasks (L_drv l) ! i)))"
  shows "\<exists>l'. ioctl_call w (MTT_IOCSTCB tb) l = Inr ((True, R_none), l') \<and> lib_wf l' \<and>
     lib_static a l' = lib_static a (l\<lparr>L_drv := (L_drv l)\<lparr>U_Tasks := retask l i (tcb_after tb {0 ..< 6} (U_Tasks (L_drv l) ! i))\<rparr>\<rparr>)"
proof -
  have wf: "udata_wf (moved w l)" using moved_wf [OF assms(1)] assms(2) by (simp add: lib_wf_def)
  have t: "task_ok (TB_Task tb)" "unat (TB_Task tb) - 1 = i" using task_ok_of_nat [OF assms(3)] assms(5) by simp_all
  obtain u' where u': "SkelUserIoctls (W_kenv w (L_calls l)) (W_compile_time w) (MTT_IOCSTCB tb) (moved w l) = Inr (SkelUserReturnOK, R_none, u')"
      "iomap u' = block_after tb {0 ..< 6} i (iomap (moved w l))" "U_Tasks u' = retask l i (tcb_after tb {0 ..< 6} (U_Tasks (L_drv l) ! i))"
    using set_tcb_ok [OF wf t(1), of "W_kenv w (L_calls l)" "W_compile_time w"] unfolding t(2) good_iff by (auto simp: retask_def)
  have u'_wf: "udata_wf u'" using shape.ioctls_R [OF u'(1)] wf by simp
  have "named u'"
    unfolding named_def u'(3) retask_def
  proof
    fix x assume "x \<in> set ((U_Tasks (L_drv l))[i := tcb_after tb {0 ..< 6} (U_Tasks (L_drv l) ! i)])"
    from subsetD [OF set_update_subset_insert this]
    have "x = tcb_after tb {0 ..< 6} (U_Tasks (L_drv l) ! i) \<or> x \<in> set (U_Tasks (L_drv l))" by simp
    then show "terminated (T_Name x)" using assms(2,6) unfolding lib_wf_def named_def by blast
  qed
  then have "lib_wf (l\<lparr>L_drv := u', L_calls := Suc (L_calls l)\<rparr>)" by (rule lib_wf_upd [OF assms(2) u'_wf])
  moreover have "drop a (iomap u') = drop a (iomap (L_drv l))"
    using assms(1,3,4) by (simp add: u'(2) block_after_def task_word_def world_wf_def MttDrvrTASKS_def)
  ultimately show ?thesis
    using ioctl_call_eq [OF u'(1)] u'(3) by (auto simp: lib_static_def)
qed

lemma prog_image_drop:
  assumes "drop 812 (iomap u) = drop 812 (iomap v)" "length (iomap u) = 9004" "length (iomap v) = 9004" "la + n \<le> MttDrvrINSTRUCTIONS"
  shows "prog_image la n u = prog_image la n v"
proof -
  have eq: "iomap u ! j = iomap v ! j" if "812 \<le> j" "j < 9004" for j
    using arg_cong [OF assms(1), of "\<lambda>xs. xs ! (j - 812)"] that assms(2,3) by simp
  show ?thesis
    unfolding prog_image_def using assms(4) by (auto simp: prog_word_def MttDrvrINSTRUCTIONS_def intro!: eq arg_cong2 [of _ _ _ _ dec_inst])
qed

definition kernel_ok :: "world \<Rightarrow> bool" where
  "kernel_ok w \<longleftrightarrow> (\<forall>n. alloc_ok (W_kenv w n) \<and> copy_ok (W_kenv w n))"

lemma drop_blit: "prog_word k \<le> length m \<Longrightarrow> drop 812 (blit (prog_word k) ys m) = blit (prog_word k - 812) ys (drop 812 m)"
  by (simp add: blit_def prog_word_def drop_take ac_simps)

lemma call_set_program:
  assumes "world_wf w a" "lib_wf l" "kernel_ok w" "unat (InstructionCount p) = length (Program p)"
    "unat (LoadAddress p) + unat (InstructionCount p) \<le> MttDrvrINSTRUCTIONS" "a \<le> 812"
  shows "\<exists>l'. ioctl_call w (MTT_IOCSPROGRAM p) l = Inr ((True, R_none), l') \<and> lib_wf l' \<and>
     lib_static 812 l' = lib_static 812 (l\<lparr>L_drv := (L_drv l)\<lparr>iomap := blit (prog_word (unat (LoadAddress p))) (inst_words (Program p)) (iomap (L_drv l))\<rparr>\<rparr>) \<and>
     prog_image (unat (LoadAddress p)) (unat (InstructionCount p)) (L_drv l') = Program p"
proof -
  have wf: "udata_wf (moved w l)" using moved_wf [OF assms(1)] assms(2) by (simp add: lib_wf_def)
  let ?k = "prog_word (unat (LoadAddress p))"
  have k: "?k + 2 * length (Program p) \<le> 9004" using prog_word_bound [OF assms(5)] assms(4) by simp
  obtain u' where u': "SkelUserIoctls (W_kenv w (L_calls l)) (W_compile_time w) (MTT_IOCSPROGRAM p) (moved w l) = Inr (SkelUserReturnOK, R_none, u')"
      "udata_wf u'" "iomap u' = blit ?k (inst_words (Program p)) (iomap (moved w l))" "U_Tasks u' = U_Tasks (moved w l)"
    using set_program_ioctl_ok [OF wf _ _ _ assms(5), of "W_kenv w (L_calls l)" "W_compile_time w"] assms(3,4)
    by (auto simp: kernel_ok_def good_iff)
  have len: "length (iomap (L_drv l)) = 9004" "length (iomap (moved w l)) = 9004"
    using wf_length(1) [OF wf] assms(2) by (simp_all add: lib_wf_def)
  have dr: "drop 812 (iomap (moved w l)) = drop 812 (iomap (L_drv l))"
    using assms(1,6) by (metis world_wf_def moved_simps(2) drop_drop le_add_diff_inverse2)
  have "drop 812 (iomap u') = drop 812 (blit ?k (inst_words (Program p)) (iomap (L_drv l)))"
    using k len unfolding u'(3) by (simp add: drop_blit dr del: moved_simps)
  moreover have "lib_wf (l\<lparr>L_drv := u', L_calls := Suc (L_calls l)\<rparr>)"
    by (rule lib_wf_upd [OF assms(2) u'(2)]) (use assms(2) u'(4) in \<open>simp add: lib_wf_def named_def\<close>)
  moreover have "prog_image (unat (LoadAddress p)) (length (Program p)) u' = Program p"
    by (rule prog_image_blit [of _ _ "moved w l", OF _ u'(3)]) (use k len in simp)
  ultimately show ?thesis
    using ioctl_call_eq [OF u'(1)] u'(4) assms(4) by (auto simp: lib_static_def)
qed

section \<open>Loading\<close>

lemma strlen_buf_terminated: "terminated buf \<Longrightarrow> strlen_buf buf = Inr (length (c_string buf))"
  by (simp add: strlen_buf_def terminated_def)

lemma free_run:
  assumes "world_wf w a" "11 \<le> a" "lib_wf l" "set ys \<subseteq> {..<MttDrvrTASKS}" "\<forall>j \<in> set ys. task_name l j = []" "ys \<noteq> []"
    "m + length ys \<le> MttDrvrTASKS"
  shows "\<exists>tb' l'. free_slots w (of_nat (m + length ys)) (ys @ zs) (tn, ftn, of_nat m, tb) l =
      Inr (Some (Suc (last ys), if m = 0 then Suc (hd ys) else ftn, of_nat (m + length ys), tb'), l') \<and> lib_wf l' \<and>
      lib_static a l' = lib_static a l"
  using assms
proof (induction ys arbitrary: m tn ftn tb l)
  case (Cons i ys)
  have i: "i < MttDrvrTASKS" using Cons.prems(4) by simp
  obtain tb1 l1 where l1: "get_tcb w i l = Inr (Some tb1, l1)" "lib_wf l1" "lib_static a l1 = lib_static a l"
      "c_string (TB_Name tb1) = task_name l i" "terminated (TB_Name tb1)"
    using look_tcb [OF Cons.prems(1,3) i] by blast
  obtain l2 where l2: "ioctl_call w (MTT_IOCSTASKS_STOP (task_bit i)) l1 = Inr ((True, R_none), l2)" "lib_wf l2" "lib_static a l2 = lib_static a l1"
    using call_stop [OF Cons.prems(1) l1(2) i Cons.prems(2)] by blast
  have len: "strlen_buf (TB_Name tb1) = Inr 0"
    using strlen_buf_terminated [OF l1(5)] l1(4) Cons.prems(5) by simp
  have small: "m + Suc (length ys) < 2 ^ 32" using Cons.prems(7) by (simp add: MttDrvrTASKS_def)
  have m0: "(of_nat m :: u32) = 0 \<longleftrightarrow> m = 0" using small by (auto simp: unat_of_nat dest!: arg_cong [of _ _ unat])
  have le: "(of_nat (m + length (i # ys)) :: u32) \<le> of_nat m + 1 \<longleftrightarrow> ys = []"
    using small by (auto simp: word_le_nat_alt unat_of_nat unat_word_ariths)
  let ?s = "(Suc i, if m = 0 then Suc i else ftn, of_nat (Suc m) :: u32, tb1)"
  have step: "free_slots w (of_nat (m + length (i # ys))) ((i # ys) @ zs) (tn, ftn, of_nat m, tb) l =
     (if ys = [] then Inr (Some ?s, l2) else free_slots w (of_nat (Suc m + length ys)) (ys @ zs) ?s l2)"
    using l1(1) l2(1) len le by (simp add: m0 add.commute)
  show ?case
  proof (cases "ys = []")
    case True
    then show ?thesis using step l1 l2 by auto
  next
    case False
    have names: "\<forall>j \<in> set ys. task_name l2 j = []"
      using Cons.prems(5) l1(3) l2(3) by (auto simp: lib_static_def task_name_def)
    show ?thesis
      using Cons.IH [OF Cons.prems(1,2) l2(2) _ names False, of "Suc m" "Suc i" "if m = 0 then Suc i else ftn" tb1]
        Cons.prems(4,7) step False l1(3) l2(3) by auto
  qed
qed simp

lemma free_slots_ok:
  assumes "world_wf w a" "11 \<le> a" "lib_wf l" "set (xs @ ys) \<subseteq> {..<MttDrvrTASKS}" "\<forall>j \<in> set xs. task_name l j \<noteq> []"
    "\<forall>j \<in> set ys. task_name l j = []" "ys \<noteq> []" "length ys \<le> MttDrvrTASKS"
  shows "\<exists>tb' l'. free_slots w (of_nat (length ys)) (xs @ ys @ zs) (tn, ftn, 0, tb) l =
      Inr (Some (Suc (last ys), Suc (hd ys), of_nat (length ys), tb'), l') \<and> lib_wf l' \<and> lib_static a l' = lib_static a l"
  using assms
proof (induction xs arbitrary: tn ftn tb l)
  case Nil
  then show ?case using free_run [OF Nil.prems(1,2,3) _ Nil.prems(6,7), of 0] by simp
next
  case (Cons i xs)
  have i: "i < MttDrvrTASKS" using Cons.prems(4) by simp
  obtain tb1 l1 where l1: "get_tcb w i l = Inr (Some tb1, l1)" "lib_wf l1" "lib_static a l1 = lib_static a l"
      "c_string (TB_Name tb1) = task_name l i" "terminated (TB_Name tb1)"
    using look_tcb [OF Cons.prems(1,3) i] by blast
  have len: "strlen_buf (TB_Name tb1) = Inr (length (task_name l i))" "length (task_name l i) \<noteq> 0"
    using strlen_buf_terminated [OF l1(5)] l1(4) Cons.prems(5) by simp_all
  have names: "\<forall>j \<in> set xs. task_name l1 j \<noteq> []" "\<forall>j \<in> set ys. task_name l1 j = []"
    using Cons.prems(5,6) l1(3) by (auto simp: lib_static_def task_name_def)
  show ?case
    using Cons.IH [OF Cons.prems(1,2) l1(2) _ names Cons.prems(7,8), of "Suc i" ftn tb1] Cons.prems(4) l1(1,3) len by simp
qed

definition loaded_task :: "string \<Rightarrow> ProgramBuf \<Rightarrow> mtt_task" where
  "loaded_task name p = \<lparr>T_LoadAddress = LoadAddress p, T_InstructionCount = InstructionCount p, T_PcStart = 0,
     T_PcOffset = LoadAddress p, T_Pc = 0, T_Name = strncpy_32 name\<rparr>"

definition load_all :: "mtt_task \<Rightarrow> nat list \<Rightarrow> mtt_task list \<Rightarrow> mtt_task list" where
  "load_all t ks ts = foldl (\<lambda>ts k. ts[k - 1 := t]) ts ks"

lemma load_all_Cons [simp]: "load_all t (k # ks) ts = load_all t ks (ts[k - 1 := t])" "load_all t [] ts = ts"
  by (simp_all add: load_all_def)

lemma length_load_all [simp]: "length (load_all t ks ts) = length ts"
  by (induction ks arbitrary: ts) simp_all

lemma load_all_nth:
  "j < length ts \<Longrightarrow> 0 \<notin> set ks \<Longrightarrow> load_all t ks ts ! j = (if Suc j \<in> set ks then t else ts ! j)"
proof (induction ks arbitrary: ts)
  case (Cons k ks)
  then obtain k' where "k = Suc k'" by (cases k) auto
  with Cons show ?case by (auto simp: nth_list_update)
qed simp

lemma has_all_fields: "b < 6 \<Longrightarrow> TB_Fields tb = 0x3F \<Longrightarrow> has_field tb b"
proof -
  assume b: "b < 6" and f: "TB_Fields tb = 0x3F"
  have "\<forall>b \<in> set [0 ..< 6]. task_bit b AND (0x3F :: u32) \<noteq> 0" by code_simp
  with b f show ?thesis by (simp add: has_field_def)
qed

lemma tcb_after_load: "tcb_after (load_tcb name p t tb) {0 ..< 6} old = loaded_task name p"
proof -
  have f: "has_field (load_tcb name p t tb) b" if "b < 6" for b
    using that by (intro has_all_fields) (simp_all add: load_tcb_def)
  have "tcb_after b {0 ..< 6} old = loaded_task name p" if "\<And>k. k < 6 \<Longrightarrow> has_field b k" "TB_LoadAddress b = LoadAddress p"
      "TB_InstructionCount b = InstructionCount p" "TB_PcStart b = 0" "B_Pc (TB_ControlBlock b) = 0"
      "B_PcOffset (TB_ControlBlock b) = LoadAddress p" "strncpy_32 (TB_Name b) = strncpy_32 name" for b
    using that by (intro mtt_task.equality) (simp_all add: tcb_after_def upd_if_def loaded_task_def)
  then show ?thesis using f by (simp add: load_tcb_def strncpy_32_idem)
qed

lemma terminated_strncpy: "c_name name \<Longrightarrow> length name < MttLibMAX_NAME_SIZE \<Longrightarrow> terminated (strncpy_32 name)"
  by (simp add: terminated_def strncpy_32_def MttLibMAX_NAME_SIZE_def MttDrvrNameSIZE_def)

lemma set_tcbs_ok:
  assumes "world_wf w a" "76 \<le> a" "lib_wf l" "\<forall>t \<in> set ts. 1 \<le> t \<and> t \<le> MttDrvrTASKS" "c_name name" "length name < MttLibMAX_NAME_SIZE"
  shows "\<exists>l'. set_tcbs w name p tb ts l = Inr (MttLibErrorNONE, l') \<and> lib_wf l' \<and>
     lib_static a l' = lib_static a (l\<lparr>L_drv := (L_drv l)\<lparr>U_Tasks := load_all (loaded_task name p) ts (U_Tasks (L_drv l))\<rparr>\<rparr>)"
  using assms(3,4)
proof (induction ts arbitrary: l)
  case (Cons t ts)
  let ?i = "t - 1" and ?tb = "load_tcb name p t tb"
  have t: "?i < MttDrvrTASKS" "TB_Task ?tb = of_nat (Suc ?i)" using Cons.prems(2) by (auto simp: load_tcb_def)
  obtain l1 where l1: "ioctl_call w (MTT_IOCSTCB ?tb) l = Inr ((True, R_none), l1)" "lib_wf l1"
      "lib_static a l1 = lib_static a (l\<lparr>L_drv := (L_drv l)\<lparr>U_Tasks := retask l ?i (loaded_task name p)\<rparr>\<rparr>)"
    using call_set_tcb [OF assms(1) Cons.prems(1) t(1) assms(2) t(2)] terminated_strncpy [OF assms(5,6)]
    by (auto simp: tcb_after_load loaded_task_def)
  have req: "request w (MTT_IOCSTCB ?tb) l = Inr (MttLibErrorNONE, l1)" using l1(1) by (simp add: request_def)
  obtain l' where l': "set_tcbs w name p tb ts l1 = Inr (MttLibErrorNONE, l')" "lib_wf l'"
      "lib_static a l' = lib_static a (l1\<lparr>L_drv := (L_drv l1)\<lparr>U_Tasks := load_all (loaded_task name p) ts (U_Tasks (L_drv l1))\<rparr>\<rparr>)"
    using Cons.IH [OF l1(2)] Cons.prems(2) by auto
  have tasks: "U_Tasks (L_drv l1) = retask l ?i (loaded_task name p)" using l1(3) by (simp add: lib_static_def)
  have "set_tcbs w name p tb (t # ts) l = Inr (MttLibErrorNONE, l')" using req l'(1) by (simp add: then_lib_def)
  with l' l1(3) tasks show ?case by (auto simp: lib_static_def retask_def)
qed simp

definition lib_settings :: "mttlib \<Rightarrow> bool \<times> string \<times> nat \<times> nat \<times> u32" where
  "lib_settings l = (L_mtt l, L_objdir l, L_first_task l, L_last_task l, L_max_size l)"

definition load_state :: "mttlib \<Rightarrow> string \<Rightarrow> ProgramBuf \<Rightarrow> nat list \<Rightarrow> mttlib \<Rightarrow> bool" where
  "load_state l name p slots l' \<longleftrightarrow>
     lib_settings l' = lib_settings l \<and> U_Tasks (L_drv l') = load_all (loaded_task name p) slots (U_Tasks (L_drv l)) \<and>
     drop 812 (iomap (L_drv l')) = drop 812 (blit (prog_word (unat (LoadAddress p))) (inst_words (Program p)) (iomap (L_drv l))) \<and>
     prog_image (unat (LoadAddress p)) (unat (InstructionCount p)) (L_drv l') = Program p"

lemma name_ok_c_name:
  assumes "name_ok (Some name)"
  shows "c_name name" "length name < MttLibMAX_NAME_SIZE" "name \<noteq> []"
proof -
  show n: "length name < MttLibMAX_NAME_SIZE" "name \<noteq> []" using assms by (auto simp: name_ok_def MttLibMIN_NAME_SIZE_def)
  have alpha: "isalpha_c (hd name)" and rest: "\<forall>c \<in> set (tl name). c = CHR ''_'' \<or> c = CHR ''.'' \<or> isalnum_c c"
    using assms by (simp_all add: name_ok_def list_all_iff)
  have nul: "\<not> isalpha_c (CHR 0x00)" "\<not> (CHR 0x00 = CHR ''_'' \<or> CHR 0x00 = CHR ''.'' \<or> isalnum_c (CHR 0x00))" by code_simp+
  have "hd name \<noteq> CHR 0x00" using alpha nul(1) by metis
  moreover have "CHR 0x00 \<notin> set (tl name)" using rest nul(2) by metis
  ultimately show "c_name name" using n(2) unfolding c_name_def by (cases name) auto
qed

lemma c_string_strncpy_name: "c_name s \<Longrightarrow> length s < MttLibMAX_NAME_SIZE \<Longrightarrow> c_string (strncpy_32 s) = s"
  using c_string_idem [of s MttDrvrNameSIZE] unfolding strncpy_32_def c_string_take by (simp add: MttLibMAX_NAME_SIZE_def MttDrvrNameSIZE_def)

lemma upt_run:
  assumes "[a ..< b] = xs @ ys @ zs" "ys \<noteq> []"
  shows "[Suc (hd ys) ..< Suc (hd ys) + length ys] = map Suc ys" "last ys = hd ys + length ys - 1"
proof -
  have len: "length xs + length ys \<le> b - a" using arg_cong [OF assms(1), of length] by simp
  then have bound: "a + length xs + length ys \<le> b" using assms(2) by (cases ys) auto
  have "ys = take (length ys) (drop (length xs) [a ..< b])" using assms(1) by simp
  also have "\<dots> = [a + length xs ..< a + length xs + length ys]" using bound by (simp add: take_upt)
  finally have ys: "ys = [a + length xs ..< a + length xs + length ys]" .
  have hd: "hd ys = a + length xs" using ys assms(2) by (metis hd_upt length_greater_0_conv less_add_same_cancel1)
  then show "[Suc (hd ys) ..< Suc (hd ys) + length ys] = map Suc ys" using ys by (metis add_Suc map_Suc_upt)
  show "last ys = hd ys + length ys - 1" using ys hd assms(2) by (metis last_upt length_greater_0_conv less_add_same_cancel1)
qed

lemma load_ok:
  assumes "world_wf w 812" "lib_wf l" "L_mtt l" "kernel_ok w" "name_ok (Some name)"
    "LoadAddress pbf = 0" "InstructionCount pbf \<noteq> 0" "length (Program pbf) = unat (InstructionCount pbf)" "L_max_size l + 1 \<noteq> 0"
    "task_range l = xs @ ys @ zs" "\<forall>j \<in> set xs. task_name l j \<noteq> []" "\<forall>j \<in> set ys. task_name l j = []"
    "of_nat (length ys) = InstructionCount pbf div (L_max_size l + 1) + 1" "ys \<noteq> []"
    "\<forall>j \<in> set (task_range l). task_name l j \<noteq> name"
    "p = pbf\<lparr>LoadAddress := L_max_size l * of_nat (last ys)\<rparr>"
    "unat (LoadAddress p) + unat (InstructionCount p) \<le> MttDrvrINSTRUCTIONS"
  shows "\<exists>l'. MttLibLoadTaskObject w (Some name) pbf l = Inr ((MttLibErrorNONE, p), l') \<and> lib_wf l' \<and>
     load_state l name p [Suc (hd ys) ..< Suc (hd ys) + length ys] l'"
proof -
  note nm = name_ok_c_name [OF assms(5)]
  have range: "set (task_range l) \<subseteq> {..<MttDrvrTASKS}" by (rule task_range_bound [OF assms(2)])
  have dist: "distinct (task_range l)" by (simp add: task_range_def)
  have ys16: "length ys \<le> MttDrvrTASKS"
  proof -
    have "length ys = card (set ys)" using dist assms(10) by (simp add: distinct_card)
    also have "\<dots> \<le> card {..<MttDrvrTASKS}" by (rule card_mono) (use range assms(10) in auto)
    finally show ?thesis by simp
  qed
  have upt: "[Suc (hd ys) ..< Suc (hd ys) + length ys] = map Suc ys"
    by (rule upt_run(1) [OF _ assms(14)]) (use assms(10) in \<open>simp add: task_range_def\<close>)
  obtain l1 where l1: "scan_tasks w (\<lambda>tb. Inr (strncmp_32 (TB_Name tb) name)) (task_range l) l = Inr (Not_found, l1)"
      "lib_wf l1" "lib_static 812 l1 = lib_static 812 l"
    using find_task_32_ok [OF assms(1,2) nm(1,2)] assms(15)
    by (fastforce simp: scan_result_def first_named_def split: scan.splits)
  have names1: "\<forall>j \<in> set xs. task_name l1 j \<noteq> []" "\<forall>j \<in> set ys. task_name l1 j = []"
    using assms(11,12) l1(3) by (auto simp: lib_static_def task_name_def)
  obtain tb l2 where l2: "free_slots w (of_nat (length ys)) (xs @ ys @ zs) (0, 0, 0, task_buf 0) l1 =
      Inr (Some (Suc (last ys), Suc (hd ys), of_nat (length ys), tb), l2)" "lib_wf l2" "lib_static 812 l2 = lib_static 812 l1"
    using free_slots_ok [OF assms(1) _ l1(2) _ names1 assms(14) ys16] range assms(10) by force
  obtain l3 where l3: "ioctl_call w (MTT_IOCSPROGRAM p) l2 = Inr ((True, R_none), l3)" "lib_wf l3"
      "lib_static 812 l3 = lib_static 812 (l2\<lparr>L_drv := (L_drv l2)\<lparr>iomap := blit (prog_word (unat (LoadAddress p))) (inst_words (Program p)) (iomap (L_drv l2))\<rparr>\<rparr>)"
      "prog_image (unat (LoadAddress p)) (unat (InstructionCount p)) (L_drv l3) = Program p"
    using call_set_program [OF assms(1) l2(2) assms(4) _ assms(17)] assms(8,16) by auto
  obtain l4 where l4: "set_tcbs w name p tb (map Suc ys) l3 = Inr (MttLibErrorNONE, l4)" "lib_wf l4"
     "lib_static 812 l4 = lib_static 812 (l3\<lparr>L_drv := (L_drv l3)\<lparr>U_Tasks := load_all (loaded_task name p) (map Suc ys) (U_Tasks (L_drv l3))\<rparr>\<rparr>)"
    using set_tcbs_ok [OF assms(1) _ l3(2) _ nm(1,2), of "map Suc ys" p tb] range assms(10) by (auto simp: Suc_le_eq)
  have run: "MttLibLoadTaskObject w (Some name) pbf l = Inr ((MttLibErrorNONE, p), l4)"
  proof -
    have "unat (of_nat (length ys) :: u32) = length ys" "(of_nat (length ys) :: u32) \<noteq> 0"
      using ys16 assms(14) by (auto simp: unat_of_nat MttDrvrTASKS_def dest!: arg_cong [of _ _ unat])
    then show ?thesis
      using assms(3,5,6,7,9) l1(1) l2(1) l3(1) l4(1) upt
      by (simp add: MttLibLoadTaskObject_def Let_def assms(10,13,16) request_def then_lib_def)
  qed
  have img: "prog_image (unat (LoadAddress p)) (unat (InstructionCount p)) (L_drv l4) = Program p"
    using prog_image_drop [OF _ _ _ assms(17), of "L_drv l4" "L_drv l3"] l3(2,4) l4(2,3)
    by (simp add: lib_static_def lib_wf_def)
  have d: "drop 812 (iomap (L_drv l2)) = drop 812 (iomap (L_drv l))" using l1(3) l2(3) by (simp add: lib_static_def)
  have len: "length (iomap (L_drv l2)) = 9004" "length (iomap (L_drv l)) = 9004" using l2(2) assms(2) by (simp_all add: lib_wf_def)
  have "drop 812 (iomap (L_drv l4)) = drop 812 (blit (prog_word (unat (LoadAddress p))) (inst_words (Program p)) (iomap (L_drv l2)))"
    using l3(3) l4(3) by (simp add: lib_static_def)
  also have "\<dots> = drop 812 (blit (prog_word (unat (LoadAddress p))) (inst_words (Program p)) (iomap (L_drv l)))"
    using prog_word_bound [OF assms(17)] len by (simp add: drop_blit d)
  finally have "drop 812 (iomap (L_drv l4)) = drop 812 (blit (prog_word (unat (LoadAddress p))) (inst_words (Program p)) (iomap (L_drv l)))" .
  then have "load_state l name p (map Suc ys) l4"
    using img l1(3) l2(3) l3(3) l4(3) by (simp add: load_state_def lib_static_def lib_settings_def)
  then show ?thesis using run l4(2) upt by auto
qed

lemma range_split: "i \<in> set (task_range l) \<Longrightarrow> task_range l = [L_first_task l - 1 ..< i] @ [i] @ [Suc i ..< L_last_task l]"
  using upt_add_eq_append [of "L_first_task l - 1" i "L_last_task l - i"] by (simp add: task_range_def upt_conv_Cons)

lemma call_get_program:
  assumes "world_wf w a" "lib_wf l" "kernel_ok w" "unat (InstructionCount p) = length (Program p)"
    "unat (LoadAddress p) + unat (InstructionCount p) \<le> MttDrvrINSTRUCTIONS" "a \<le> 812"
  shows "\<exists>l'. ioctl_call w (MTT_IOCGPROGRAM p) l =
     Inr ((True, R_prog (prog_image (unat (LoadAddress p)) (unat (InstructionCount p)) (L_drv l))), l')"
proof -
  have wf: "udata_wf (moved w l)" using moved_wf [OF assms(1)] assms(2) by (simp add: lib_wf_def)
  obtain u' where u': "SkelUserIoctls (W_kenv w (L_calls l)) (W_compile_time w) (MTT_IOCGPROGRAM p) (moved w l) =
      Inr (SkelUserReturnOK, R_prog (prog_image (unat (LoadAddress p)) (unat (InstructionCount p)) (moved w l)), u')"
    using get_program_ioctl_ok [OF wf _ _ _ assms(5), of "W_kenv w (L_calls l)" "W_compile_time w"] assms(3,4)
    by (auto simp: kernel_ok_def good_iff)
  have "drop 812 (iomap (moved w l)) = drop 812 (iomap (L_drv l))"
    using assms(1,6) by (metis world_wf_def moved_simps(2) drop_drop le_add_diff_inverse2)
  then have "prog_image (unat (LoadAddress p)) (unat (InstructionCount p)) (moved w l) = prog_image (unat (LoadAddress p)) (unat (InstructionCount p)) (L_drv l)"
    by (rule prog_image_drop [OF _ _ _ assms(5)]) (use wf_length(1) [OF wf] assms(2) in \<open>simp_all add: lib_wf_def\<close>)
  then show ?thesis using ioctl_call_eq [OF u'] by auto
qed

definition task_holds :: "mttlib \<Rightarrow> nat \<Rightarrow> string \<Rightarrow> ProgramBuf \<Rightarrow> bool" where
  "task_holds l i name p \<longleftrightarrow> first_named l name i \<and> T_InstructionCount (U_Tasks (L_drv l) ! i) = InstructionCount p \<and>
     T_LoadAddress (U_Tasks (L_drv l) ! i) = LoadAddress p \<and>
     prog_image (unat (LoadAddress p)) (unat (InstructionCount p)) (L_drv l) = Program p"

lemma first_named_unique: "first_named l name i \<Longrightarrow> first_named l name j \<Longrightarrow> i = j"
  unfolding first_named_def by (cases i j rule: linorder_cases) auto

lemma scan_found: "scan_result l name r l' \<Longrightarrow> first_named l name i \<Longrightarrow> r = Found i (tcb_view i (L_drv l'))"
proof (cases r)
  case (Found j tb)
  assume "scan_result l name r l'" "first_named l name i"
  with Found have "first_named l name j" "tb = tcb_view j (L_drv l')" by (simp_all add: scan_result_def)
  with Found \<open>first_named l name i\<close> show ?thesis using first_named_unique by blast
next
  case Not_found
  assume "scan_result l name r l'" "first_named l name i"
  with Not_found show ?thesis unfolding scan_result_def first_named_def by simp blast
qed (simp add: scan_result_def)

lemma read_task_ok:
  assumes "world_wf w 812" "lib_wf l" "L_mtt l" "kernel_ok w" "name_ok (Some name)" "task_holds l i name p"
    "InstructionCount p \<noteq> 0" "unat (LoadAddress p) + unat (InstructionCount p) \<le> MttDrvrINSTRUCTIONS"
    "malloc (8 * unat (InstructionCount p)) = Some mem"
  shows "\<exists>l'. MttLibReadTaskObject w malloc (Some name) p0 l =
     Inr ((MttLibErrorNONE, p0\<lparr>InstructionCount := InstructionCount p, LoadAddress := LoadAddress p, Program := Program p\<rparr>), l')"
proof -
  note nm = name_ok_c_name [OF assms(5)]
  have first: "first_named l name i" using assms(6) by (simp add: task_holds_def)
  then obtain l1 where l1: "scan_tasks w (\<lambda>tb. Inr (strncmp_32 (TB_Name tb) name)) (task_range l) l = Inr (Found i (tcb_view i (L_drv l1)), l1)"
      "lib_wf l1" "lib_static 812 l1 = lib_static 812 l"
    using find_task_32_ok [OF assms(1,2) nm(1,2)] scan_found [OF _ first] by blast
  let ?n = "unat (InstructionCount p)"
  let ?p = "p0\<lparr>InstructionCount := InstructionCount p, LoadAddress := LoadAddress p, Program := map mem [0 ..< ?n]\<rparr>"
  have n: "unat (InstructionCount p * 8) = 8 * ?n"
    using assms(8) by (simp add: unat_word_ariths MttDrvrINSTRUCTIONS_def)
  have tb: "TB_InstructionCount (tcb_view i (L_drv l1)) = InstructionCount p" "TB_LoadAddress (tcb_view i (L_drv l1)) = LoadAddress p"
    using assms(6) l1(3) by (simp_all add: tcb_view_def lib_static_def task_holds_def)
  have img: "prog_image (unat (LoadAddress p)) ?n (L_drv l1) = Program p"
    using prog_image_drop [OF _ _ _ assms(8), of "L_drv l1" "L_drv l"] assms(2,6) l1(2,3)
    by (simp add: lib_static_def lib_wf_def task_holds_def)
  obtain l2 where l2: "ioctl_call w (MTT_IOCGPROGRAM ?p) l1 = Inr ((True, R_prog (Program p)), l2)"
    using call_get_program [OF assms(1) l1(2) assms(4), of ?p] assms(8) img by auto
  have "unat (InstructionCount p * 8) div 8 = ?n" by (simp add: n)
  then show ?thesis
    using assms(3,5,7,9) l1(1) l2 by (simp add: MttLibReadTaskObject_def Let_def tb n)
qed

lemma load_single:
  assumes "world_wf w 812" "lib_wf l" "L_mtt l" "kernel_ok w" "name_ok (Some name)"
    "LoadAddress pbf = 0" "InstructionCount pbf \<noteq> 0" "length (Program pbf) = unat (InstructionCount pbf)"
    "InstructionCount pbf \<le> L_max_size l" "unat (L_max_size l) \<le> MttLibTASK_SIZE"
    "\<forall>j \<in> set (task_range l). task_name l j \<noteq> name"
    "i \<in> set (task_range l)" "task_name l i = []" "\<forall>j \<in> set (task_range l). j < i \<longrightarrow> task_name l j \<noteq> []"
    "malloc (8 * unat (InstructionCount pbf)) = Some mem"
  shows "\<exists>p l1 l2. MttLibLoadTaskObject w (Some name) pbf l = Inr ((MttLibErrorNONE, p), l1) \<and> lib_wf l1 \<and>
     p = pbf\<lparr>LoadAddress := L_max_size l * of_nat i\<rparr> \<and> load_state l name p [Suc i] l1 \<and> first_named l1 name i \<and>
     MttLibReadTaskObject w malloc (Some name) p0 l1 =
       Inr ((MttLibErrorNONE, p0\<lparr>InstructionCount := InstructionCount pbf, LoadAddress := LoadAddress p, Program := Program pbf\<rparr>), l2)"
proof -
  let ?p = "pbf\<lparr>LoadAddress := L_max_size l * of_nat i\<rparr>"
  have i: "i < 16" using task_range_bound [OF assms(2)] assms(12) by (auto simp: MttDrvrTASKS_def)
  have max: "unat (L_max_size l) \<le> 256" using assms(10) by (simp add: MttLibTASK_SIZE_def MttLibTASKS_def)
  have prod: "unat (L_max_size l) * i < 2 ^ 32"
    using mult_mono [OF max, of i 16] i by simp
  then have la: "unat (L_max_size l * of_nat i) = unat (L_max_size l) * i"
    using i by (simp add: unat_word_ariths unat_of_nat)
  have bound: "unat (LoadAddress ?p) + unat (InstructionCount ?p) \<le> MttDrvrINSTRUCTIONS"
  proof -
    have "unat (InstructionCount pbf) \<le> unat (L_max_size l)" using assms(9) by (simp add: word_le_nat_alt)
    then have "unat (L_max_size l) * i + unat (InstructionCount pbf) \<le> unat (L_max_size l) * Suc i" by simp
    also have "\<dots> \<le> 256 * 16" by (rule mult_mono [OF max]) (use i in simp_all)
    finally show ?thesis by (simp add: la MttDrvrINSTRUCTIONS_def)
  qed
  have one: "of_nat (length [i]) = InstructionCount pbf div (L_max_size l + 1) + 1"
  proof -
    have "unat (InstructionCount pbf) < unat (L_max_size l + 1)"
      using max assms(9) by (simp add: word_le_nat_alt unat_word_ariths)
    then show ?thesis by (simp add: word_arith_nat_div)
  qed
  have mx: "L_max_size l + 1 \<noteq> 0"
    using max by (auto simp: unat_word_ariths dest!: arg_cong [of _ _ unat])
  have before: "\<forall>j \<in> set [L_first_task l - 1 ..< i]. task_name l j \<noteq> []"
    using assms(12,14) by (auto simp: task_range_def)
  obtain l1 where l1: "MttLibLoadTaskObject w (Some name) pbf l = Inr ((MttLibErrorNONE, ?p), l1)" "lib_wf l1" "load_state l name ?p [Suc i] l1"
    using load_ok [OF assms(1-8) mx range_split [OF assms(12)] before _ one _ assms(11) _ bound] assms(13) by auto
  have tasks: "U_Tasks (L_drv l1) = (U_Tasks (L_drv l))[i := loaded_task name ?p]"
    using l1(3) by (simp add: load_state_def)
  have range1: "task_range l1 = task_range l" using l1(3) by (simp add: load_state_def lib_settings_def task_range_def)
  have i': "i < length (U_Tasks (L_drv l))" using i assms(2) by (simp add: lib_wf_def)
  have nm: "c_string (strncpy_32 name) = name"
    by (rule c_string_strncpy_name) (rule name_ok_c_name [OF assms(5)])+
  have first: "first_named l1 name i"
    using assms(11,12) i' by (auto simp: first_named_def range1 task_name_def tasks nth_list_update loaded_task_def nm)
  then have holds: "task_holds l1 i name ?p"
    using l1(3) i' by (simp add: task_holds_def tasks loaded_task_def load_state_def)
  have open1: "L_mtt l1" using l1(3) assms(3) by (simp add: load_state_def lib_settings_def)
  have "InstructionCount ?p \<noteq> 0" "malloc (8 * unat (InstructionCount ?p)) = Some mem" using assms(7,15) by simp_all
  from read_task_ok [of w l1 name i ?p malloc mem p0, OF assms(1) l1(2) open1 assms(4,5) holds this(1) bound this(2)] l1 first
  show ?thesis by auto
qed

text \<open>
  C34: Loading a task and reading it back. An object that fits into one slot is put into the
  first free slot of the range: its program is written at the slot's address, byte for byte as
  given, the slot gets the name, the size and the offset, no other task changes, and no word of
  program memory outside the program's own. Afterwards the name leads to this slot, and reading
  the task object back returns the program that was loaded.
\<close>

theorem load_then_read:
  assumes "world_wf w 812" "lib_wf l" "L_mtt l" "kernel_ok w" "name_ok (Some name)"
    "LoadAddress pbf = 0" "InstructionCount pbf \<noteq> 0" "length (Program pbf) = unat (InstructionCount pbf)"
    "InstructionCount pbf \<le> L_max_size l" "unat (L_max_size l) \<le> MttLibTASK_SIZE"
    "\<forall>j \<in> set (task_range l). task_name l j \<noteq> name"
    "i \<in> set (task_range l)" "task_name l i = []" "\<forall>j \<in> set (task_range l). j < i \<longrightarrow> task_name l j \<noteq> []"
    "malloc (8 * unat (InstructionCount pbf)) = Some mem"
  shows "\<exists>p l1 l2. MttLibLoadTaskObject w (Some name) pbf l = Inr ((MttLibErrorNONE, p), l1) \<and> lib_wf l1 \<and>
     p = pbf\<lparr>LoadAddress := L_max_size l * of_nat i\<rparr> \<and> load_state l name p [Suc i] l1 \<and> first_named l1 name i \<and>
     MttLibReadTaskObject w malloc (Some name) p0 l1 =
       Inr ((MttLibErrorNONE, p0\<lparr>InstructionCount := InstructionCount pbf, LoadAddress := LoadAddress p, Program := Program pbf\<rparr>), l2)"
  using assms by (rule load_single)

definition world0 :: world where
  "world0 = \<lparr>W_kenv = (\<lambda>n. kenv_up), W_board = (\<lambda>n m. m), W_compile_time = 0\<rparr>"

definition lib0 :: mttlib where
  "lib0 = (lib_start board0)\<lparr>L_mtt := True\<rparr>"

lemma world0_wf: "world_wf world0 a" "kernel_ok world0"
  by (simp_all add: world0_def world_wf_def kernel_ok_def)

lemma lib0_names: "i < 16 \<Longrightarrow> task_name lib0 i = []"
  by (simp add: task_name_def lib0_def lib_start_def board0_def zero_udata_def MttDrvrTASKS_def zero_task_def
      MttDrvrNameSIZE_def c_string_def)

lemma lib0_wf: "lib_wf lib0"
proof -
  have "named board0"
    by (simp add: named_def terminated_def board0_def zero_udata_def zero_task_def MttDrvrNameSIZE_def MttDrvrTASKS_def)
  then show ?thesis using board0_wf by (simp add: lib_wf_def lib0_def lib_start_def MttLibTASKS_def MttDrvrTASKS_def)
qed

lemma lib0_simps: "L_mtt lib0" "L_max_size lib0 = 256" "task_range lib0 = [0 ..< 16]"
  by (simp_all add: lib0_def lib_start_def MttLibTASK_SIZE_def MttLibTASKS_def task_range_def)

theorem load_then_read_witness:
  "\<exists>l1 l2. MttLibLoadTaskObject world0 (Some ''Pulse'') \<lparr>LoadAddress = 0, InstructionCount = 2, Program = prog2\<rparr> lib0 =
       Inr ((MttLibErrorNONE, \<lparr>LoadAddress = 0, InstructionCount = 2, Program = prog2\<rparr>), l1) \<and>
     MttLibReadTaskObject world0 (\<lambda>n. Some (\<lambda>k. hd prog2)) (Some ''Pulse'') \<lparr>LoadAddress = 9, InstructionCount = 9, Program = []\<rparr> l1 =
       Inr ((MttLibErrorNONE, \<lparr>LoadAddress = 0, InstructionCount = 2, Program = prog2\<rparr>), l2)"
proof -
  let ?p = "\<lparr>LoadAddress = 0, InstructionCount = 2, Program = prog2\<rparr>"
  have name: "name_ok (Some ''Pulse'')" by code_simp
  have "length (Program ?p) = unat (InstructionCount ?p)" "InstructionCount ?p \<le> L_max_size lib0"
    by (simp_all add: prog2_def lib0_simps)
  from load_then_read [of world0 lib0 "''Pulse''" ?p 0 "\<lambda>n. Some (\<lambda>k. hd prog2)" "\<lambda>k. hd prog2" "\<lparr>LoadAddress = 9, InstructionCount = 9, Program = []\<rparr>",
      OF world0_wf(1) lib0_wf lib0_simps(1) world0_wf(2) name _ _ this]
  show ?thesis by (auto simp: lib0_simps lib0_names MttLibTASK_SIZE_def MttLibTASKS_def)
qed

text \<open>
  An object larger than one slot. The routine reserves as many consecutive free slots as
  the object needs and marks them all as loaded, but the load address is that of the last of
  them: the program runs past the end of the reserved slots, into the memory of the slots that
  follow, whose words it overwrites.
\<close>

theorem load_multi_slot_overrun:
  assumes "world_wf w 812" "lib_wf l" "L_mtt l" "kernel_ok w" "name_ok (Some name)"
    "LoadAddress pbf = 0" "InstructionCount pbf \<noteq> 0" "length (Program pbf) = unat (InstructionCount pbf)" "L_max_size l + 1 \<noteq> 0"
    "task_range l = xs @ ys @ zs" "\<forall>j \<in> set xs. task_name l j \<noteq> []" "\<forall>j \<in> set ys. task_name l j = []"
    "of_nat (length ys) = InstructionCount pbf div (L_max_size l + 1) + 1" "2 \<le> length ys"
    "\<forall>j \<in> set (task_range l). task_name l j \<noteq> name"
    "unat (L_max_size l) * last ys + unat (InstructionCount pbf) \<le> MttDrvrINSTRUCTIONS"
  shows "\<exists>p l'. MttLibLoadTaskObject w (Some name) pbf l = Inr ((MttLibErrorNONE, p), l') \<and>
     unat (LoadAddress p) = unat (L_max_size l) * last ys \<and>
     (\<forall>j \<in> set ys. U_Tasks (L_drv l') ! j = loaded_task name p) \<and>
     unat (L_max_size l) * Suc (last ys) < unat (LoadAddress p) + unat (InstructionCount p) \<and>
     prog_image (unat (LoadAddress p)) (unat (InstructionCount p)) (L_drv l') = Program pbf"
proof -
  let ?p = "pbf\<lparr>LoadAddress := L_max_size l * of_nat (last ys)\<rparr>"
  have ne: "ys \<noteq> []" using assms(14) by auto
  have last: "last ys \<in> set (task_range l)" using ne assms(10) by simp
  then have last16: "last ys < 16" using task_range_bound [OF assms(2)] by (auto simp: MttDrvrTASKS_def)
  have la: "unat (LoadAddress ?p) = unat (L_max_size l) * last ys"
    using assms(16) last16 by (simp add: unat_word_ariths unat_of_nat MttDrvrINSTRUCTIONS_def)
  have bound: "unat (LoadAddress ?p) + unat (InstructionCount ?p) \<le> MttDrvrINSTRUCTIONS" using assms(16) la by simp
  obtain l' where l': "MttLibLoadTaskObject w (Some name) pbf l = Inr ((MttLibErrorNONE, ?p), l')" "lib_wf l'"
      "load_state l name ?p [Suc (hd ys) ..< Suc (hd ys) + length ys] l'"
    using load_ok [OF assms(1-13) ne assms(15) refl bound] by blast
  have upt: "[Suc (hd ys) ..< Suc (hd ys) + length ys] = map Suc ys"
    by (rule upt_run(1) [OF _ ne]) (use assms(10) in \<open>simp add: task_range_def\<close>)
  have tasks: "U_Tasks (L_drv l') ! j = loaded_task name ?p" if "j \<in> set ys" for j
  proof -
    have "j < length (U_Tasks (L_drv l))"
      using that task_range_bound [OF assms(2)] assms(2,10) by (auto simp: lib_wf_def MttDrvrTASKS_def)
    then show ?thesis using l'(3) that unfolding upt by (simp add: load_state_def load_all_nth)
  qed
  have big: "unat (L_max_size l) < unat (InstructionCount pbf)"
  proof (rule ccontr)
    assume "\<not> unat (L_max_size l) < unat (InstructionCount pbf)"
    then have "unat (InstructionCount pbf) < unat (L_max_size l + 1)"
      using unatSuc [of "L_max_size l"] assms(9) by (simp add: add.commute)
    then have "InstructionCount pbf div (L_max_size l + 1) = 0" by (simp add: word_arith_nat_div)
    then have "(of_nat (length ys) :: u32) = 1" using assms(13) by simp
    moreover have "length ys \<le> 16"
    proof -
      have "length ys \<le> length (task_range l)" using assms(10) by simp
      also have "\<dots> \<le> 16" using assms(2) by (auto simp: task_range_def lib_wf_def MttDrvrTASKS_def)
      finally show ?thesis .
    qed
    ultimately show False using assms(14) by (auto simp: unat_of_nat dest!: arg_cong [of _ _ unat])
  qed
  then have "unat (L_max_size l) * Suc (last ys) < unat (LoadAddress ?p) + unat (InstructionCount ?p)" using la by simp
  moreover have "prog_image (unat (LoadAddress ?p)) (unat (InstructionCount ?p)) (L_drv l') = Program pbf"
    using l'(3) by (simp add: load_state_def)
  ultimately show ?thesis using l'(1) la tasks by blast
qed

theorem load_multi_slot_overrun_witness:
  "\<exists>p l'. MttLibLoadTaskObject world0 (Some ''Pulse'') \<lparr>LoadAddress = 0, InstructionCount = 300, Program = replicate 300 (hd prog2)\<rparr> lib0 =
       Inr ((MttLibErrorNONE, p), l') \<and> unat (LoadAddress p) = 256 \<and> 512 < unat (LoadAddress p) + unat (InstructionCount p)"
proof -
  let ?p = "\<lparr>LoadAddress = 0, InstructionCount = 300, Program = replicate 300 (hd prog2)\<rparr>"
  have name: "name_ok (Some ''Pulse'')" by code_simp
  have range: "task_range lib0 = [] @ [0, 1] @ [2 ..< 16]" by (simp add: lib0_simps upt_conv_Cons)
  have div: "of_nat (length [0, 1 :: nat]) = InstructionCount ?p div (L_max_size lib0 + 1) + 1" by (simp add: lib0_simps)
  from load_multi_slot_overrun [of world0 lib0 "''Pulse''" ?p "[]" "[0, 1]" "[2 ..< 16]",
      OF world0_wf(1) lib0_wf lib0_simps(1) world0_wf(2) name _ _ _ _ range _ _ div]
  show ?thesis by (auto simp: lib0_simps lib0_names MttDrvrINSTRUCTIONS_def)
qed

section \<open>Unloading\<close>

definition cleared :: "bool \<Rightarrow> string \<Rightarrow> nat list \<Rightarrow> mttlib \<Rightarrow> mttlib \<Rightarrow> bool" where
  "cleared alls name ks l l' \<longleftrightarrow> lib_settings l' = lib_settings l \<and>
     (\<forall>j < MttDrvrTASKS. task_name l' j = (if j \<in> set ks \<and> (alls \<or> task_name l j = name) then [] else task_name l j) \<and>
        T_LoadAddress (U_Tasks (L_drv l') ! j) = T_LoadAddress (U_Tasks (L_drv l) ! j) \<and>
        T_InstructionCount (U_Tasks (L_drv l') ! j) = T_InstructionCount (U_Tasks (L_drv l) ! j))"

lemma cleared_static: "lib_static a l1 = lib_static a l \<Longrightarrow> cleared alls name ks l1 l' \<Longrightarrow> cleared alls name ks l l'"
proof -
  assume st: "lib_static a l1 = lib_static a l" and cl: "cleared alls name ks l1 l'"
  have tasks: "U_Tasks (L_drv l1) = U_Tasks (L_drv l)" "lib_settings l1 = lib_settings l" using st by (simp_all add: lib_static_def lib_settings_def)
  then have names: "task_name l1 = task_name l" by (simp add: task_name_def fun_eq_iff)
  show ?thesis using cl unfolding cleared_def tasks names .
qed

lemma tcb_after_clear:
  assumes "tb = tcb_view i u" "z = tb\<lparr>TB_Name := replicate MttLibMAX_NAME_SIZE (CHR 0x00)\<rparr>"
  shows "T_LoadAddress (tcb_after z {0 ..< 6} (U_Tasks u ! i)) = T_LoadAddress (U_Tasks u ! i)"
    "T_InstructionCount (tcb_after z {0 ..< 6} (U_Tasks u ! i)) = T_InstructionCount (U_Tasks u ! i)"
    "T_Name (tcb_after z {0 ..< 6} (U_Tasks u ! i)) = replicate MttDrvrNameSIZE (CHR 0x00)"
proof -
  have f: "has_field z b" if "b < 6" for b
    using that by (intro has_all_fields) (simp_all add: assms tcb_view_def)
  have z: "TB_LoadAddress z = T_LoadAddress (U_Tasks u ! i)" "TB_InstructionCount z = T_InstructionCount (U_Tasks u ! i)"
    "TB_Name z = replicate 32 (CHR 0x00)"
    by (simp_all add: assms tcb_view_def MttLibMAX_NAME_SIZE_def)
  have nul: "strncpy_32 (replicate 32 (CHR 0x00)) = replicate MttDrvrNameSIZE (CHR 0x00)" by code_simp
  show "T_LoadAddress (tcb_after z {0 ..< 6} (U_Tasks u ! i)) = T_LoadAddress (U_Tasks u ! i)"
    "T_InstructionCount (tcb_after z {0 ..< 6} (U_Tasks u ! i)) = T_InstructionCount (U_Tasks u ! i)"
    "T_Name (tcb_after z {0 ..< 6} (U_Tasks u ! i)) = replicate MttDrvrNameSIZE (CHR 0x00)"
    using f z nul by (simp_all add: tcb_after_def upd_if_def)
qed

lemma c_string_nul: "c_string (replicate MttDrvrNameSIZE (CHR 0x00)) = []" "terminated (replicate MttDrvrNameSIZE (CHR 0x00))"
  by (simp_all add: c_string_def terminated_def MttDrvrNameSIZE_def)

lemma unload_ok:
  assumes "world_wf w a" "76 \<le> a" "lib_wf l" "set ks \<subseteq> {..<MttDrvrTASKS}" "c_name name" "distinct ks"
  shows "\<exists>l'. unload_tasks w alls name ks n l = Inr (Some n, l') \<and> lib_wf l' \<and> cleared alls name ks l l'"
  using assms(3,4,6)
proof (induction ks arbitrary: l)
  case Nil
  then show ?case by (simp add: cleared_def)
next
  case (Cons i ks)
  have i: "i < MttDrvrTASKS" using Cons.prems(2) by simp
  obtain tb l1 where l1: "get_tcb w i l = Inr (Some tb, l1)" "lib_wf l1" "lib_static a l1 = lib_static a l"
      "tb = tcb_view i (L_drv l1)" "c_string (TB_Name tb) = task_name l i" "terminated (TB_Name tb)"
    using look_tcb [OF assms(1) Cons.prems(1) i] by blast
  have cmp: "strcmp_buf name (TB_Name tb) = Inr (task_name l i = name)"
    using strcmp_buf_terminated [OF l1(6) assms(5)] l1(5) by simp
  show ?case
  proof (cases "alls \<or> task_name l i = name")
    case False
    obtain l' where l': "unload_tasks w alls name ks n l1 = Inr (Some n, l')" "lib_wf l'" "cleared alls name ks l1 l'"
      using Cons.IH [OF l1(2)] Cons.prems(2,3) by auto
    have "cleared alls name ks l l'" by (rule cleared_static [OF l1(3) l'(3)])
    then have "cleared alls name (i # ks) l l'" using False by (auto simp: cleared_def)
    with l' l1(1) cmp False show ?thesis by auto
  next
    case True
    let ?z = "tb\<lparr>TB_Name := replicate MttLibMAX_NAME_SIZE (CHR 0x00)\<rparr>"
    obtain l2 where l2: "ioctl_call w (MTT_IOCSTASKS_STOP (task_bit i)) l1 = Inr ((True, R_none), l2)" "lib_wf l2" "lib_static a l2 = lib_static a l1"
      using call_stop [OF assms(1) l1(2) i] assms(2) by auto
    have same: "U_Tasks (L_drv l2) = U_Tasks (L_drv l1)" "U_Tasks (L_drv l1) = U_Tasks (L_drv l)" using l1(3) l2(3) by (simp_all add: lib_static_def)
    note clr = tcb_after_clear [OF l1(4) refl, folded same(1)]
    have t: "TB_Task ?z = of_nat (Suc i)" using l1(4) by (simp add: tcb_view_def)
    have trm: "terminated (T_Name (tcb_after ?z {0 ..< 6} (U_Tasks (L_drv l2) ! i)))" by (simp only: clr c_string_nul)
    obtain l3 where l3: "ioctl_call w (MTT_IOCSTCB ?z) l2 = Inr ((True, R_none), l3)" "lib_wf l3"
       "lib_static a l3 = lib_static a (l2\<lparr>L_drv := (L_drv l2)\<lparr>U_Tasks := retask l2 i (tcb_after ?z {0 ..< 6} (U_Tasks (L_drv l2) ! i))\<rparr>\<rparr>)"
      using call_set_tcb [OF assms(1) l2(2) i assms(2) t trm] by blast
    obtain l' where l': "unload_tasks w alls name ks n l3 = Inr (Some n, l')" "lib_wf l'" "cleared alls name ks l3 l'"
      using Cons.IH [OF l3(2)] Cons.prems(2,3) by auto
    have tasks: "U_Tasks (L_drv l3) = (U_Tasks (L_drv l))[i := tcb_after ?z {0 ..< 6} (U_Tasks (L_drv l2) ! i)]"
      using l3(3) same by (simp add: lib_static_def retask_def)
    have i16: "i < length (U_Tasks (L_drv l))" using i Cons.prems(1) by (simp add: lib_wf_def MttDrvrTASKS_def)
    have old: "T_LoadAddress (U_Tasks (L_drv l3) ! j) = T_LoadAddress (U_Tasks (L_drv l) ! j)"
        "T_InstructionCount (U_Tasks (L_drv l3) ! j) = T_InstructionCount (U_Tasks (L_drv l) ! j)"
        "task_name l3 j = (if j = i then [] else task_name l j)" for j
      using i16 clr same c_string_nul by (cases "j = i"; simp add: tasks task_name_def)+
    have "lib_settings l3 = lib_settings l" using l1(3) l2(3) l3(3) by (simp add: lib_static_def lib_settings_def)
    then have "cleared alls name (i # ks) l l'"
      using l'(3) True Cons.prems(3) unfolding cleared_def old by auto
    moreover have "unload_tasks w alls name (i # ks) n l = Inr (Some n, l')"
      using l1(1) cmp True l2(1) l3(1) l'(1) by auto
    ultimately show ?thesis using l'(2) by blast
  qed
qed

text \<open>
  Unloading by name clears the name of every task of the range that has it, and of no
  other; with the name \<^verbatim>\<open>ALL\<close> it clears every task of the range. Sizes and load addresses stay,
  and the result is success, also when no task has the name.
\<close>

theorem UnloadTask_clears:
  assumes "world_wf w a" "76 \<le> a" "lib_wf l" "L_mtt l" "c_name name"
  shows "\<exists>l'. MttLibUnloadTask w name l = Inr (MttLibErrorNONE, l') \<and> lib_wf l' \<and>
     cleared (name = ''ALL'') name (task_range l) l l'"
proof -
  have "distinct (task_range l)" by (simp add: task_range_def)
  then obtain l' where "unload_tasks w (name = ''ALL'') name (task_range l) 0 l = Inr (Some 0, l')" "lib_wf l'"
      "cleared (name = ''ALL'') name (task_range l) l l'"
    using unload_ok [OF assms(1,2,3) task_range_bound [OF assms(3)] assms(5)] by blast
  then show ?thesis using assms(4) by (simp add: MttLibUnloadTask_def)
qed

theorem UnloadTask_clears_witness:
  "\<exists>l'. MttLibUnloadTask world0 ''Pulse'' lib0 = Inr (MttLibErrorNONE, l') \<and> lib_wf l'"
proof -
  have "c_name ''Pulse''" by (simp add: c_name_def)
  then show ?thesis using UnloadTask_clears [OF world0_wf(1) _ lib0_wf lib0_simps(1), of 76] by blast
qed

section \<open>Registers of a task\<close>

lemma task_bit_and: "task_bit j AND task_bit k = (if j = k then task_bit k else 0)"
  by (rule bit_word_eqI) (auto simp: task_bit_def bit_simps)

lemma task_bit_nonzero: "k < 32 \<Longrightarrow> task_bit k \<noteq> 0"
proof
  assume "k < 32" "task_bit k = 0"
  then have "bit (task_bit k) k" "\<not> bit (task_bit k) k" by (auto simp: task_bit_def bit_simps)
  then show False by blast
qed

lemma find_task_bit: "k < 32 \<Longrightarrow> find (\<lambda>i. task_bit i AND task_bit k \<noteq> 0) [0 ..< MttDrvrLRAM_SIZE] = Some k"
  unfolding find_Some_iff
  by (rule exI [of _ k]) (auto simp: task_bit_and task_bit_nonzero MttDrvrLRAM_SIZE_def)

lemma call_set_register:
  assumes "world_wf w a" "lib_wf l" "i < MttDrvrTASKS" "k < 32" "length vs = MttDrvrLRAM_SIZE" "a \<le> 300"
  shows "\<exists>l'. ioctl_call w (MTT_IOCSTRVAL \<lparr>TR_Task = of_nat (Suc i), TR_RegMask = task_bit k, TR_RegVals = vs\<rparr>) l = Inr ((True, R_none), l') \<and>
     lib_wf l' \<and> lib_static 9004 l' = lib_static 9004 l \<and>
     drop 300 (iomap (L_drv l')) = drop 300 ((iomap (L_drv l))[loc_word i k := vs ! k])"
proof -
  let ?tr = "\<lparr>TR_Task = of_nat (Suc i), TR_RegMask = task_bit k, TR_RegVals = vs\<rparr>"
  have wf: "udata_wf (moved w l)" using moved_wf [OF assms(1)] assms(2) by (simp add: lib_wf_def)
  have t: "task_ok (TR_Task ?tr)" "unat (TR_Task ?tr) - 1 = i" using task_ok_of_nat [OF assms(3)] by simp_all
  obtain u' where u': "SkelUserIoctls (W_kenv w (L_calls l)) (W_compile_time w) (MTT_IOCSTRVAL ?tr) (moved w l) = Inr (SkelUserReturnOK, R_none, u')"
      "iomap u' = (iomap (moved w l))[loc_word i k := vs ! k]" "U_Tasks u' = U_Tasks (L_drv l)"
    using set_trval_eq [OF wf t(1), of k] find_task_bit [OF assms(4)] assms(5) t(2) by simp
  have u'_wf: "udata_wf u'" using shape.ioctls_R [OF u'(1)] wf by simp
  have "lib_wf (l\<lparr>L_drv := u', L_calls := Suc (L_calls l)\<rparr>)"
    by (rule lib_wf_upd [OF assms(2) u'_wf]) (use assms(2) u'(3) in \<open>simp add: lib_wf_def named_def\<close>)
  moreover have "drop 300 (iomap (moved w l)) = drop 300 (iomap (L_drv l))"
    using assms(1,6) by (metis world_wf_def moved_simps(2) drop_drop le_add_diff_inverse2)
  then have "drop 300 (iomap u') = drop 300 ((iomap (L_drv l))[loc_word i k := vs ! k])"
    unfolding u'(2) by (simp add: drop_update_swap loc_word_def)
  ultimately show ?thesis
    using ioctl_call_eq [OF u'(1)] u'(3) assms(2) wf_length(1) [OF u'_wf] by (auto simp: lib_static_def lib_wf_def)
qed

lemma call_get_registers:
  assumes "world_wf w a" "lib_wf l" "i < MttDrvrTASKS" "a \<le> 300"
  shows "\<exists>l'. ioctl_call w (MTT_IOCGTRVAL \<lparr>TR_Task = of_nat (Suc i), TR_RegMask = msk, TR_RegVals = vs\<rparr>) l =
     Inr ((True, R_treg \<lparr>TR_Task = of_nat (Suc i), TR_RegMask = 0xffffffff, TR_RegVals = take 32 (drop (loc_word i 0) (iomap (L_drv l)))\<rparr>), l')"
proof -
  let ?tr = "\<lparr>TR_Task = of_nat (Suc i), TR_RegMask = msk, TR_RegVals = vs\<rparr>"
  have wf: "udata_wf (moved w l)" using moved_wf [OF assms(1)] assms(2) by (simp add: lib_wf_def)
  have t: "task_ok (TR_Task ?tr)" "unat (TR_Task ?tr) - 1 = i" using task_ok_of_nat [OF assms(3)] by simp_all
  obtain u' where u': "SkelUserIoctls (W_kenv w (L_calls l)) (W_compile_time w) (MTT_IOCGTRVAL ?tr) (moved w l) =
      Inr (SkelUserReturnOK, R_treg (?tr\<lparr>TR_RegVals := take 32 (drop (loc_word i 0) (iomap (moved w l))), TR_RegMask := 0xffffffff\<rparr>), u')"
    using get_trval_ok [OF wf t(1)] unfolding t(2) good_iff by auto
  have "drop (loc_word i 0) (iomap (moved w l)) = drop (loc_word i 0) (iomap (L_drv l))"
    using assms(1,4) by (metis world_wf_def moved_simps(2) drop_drop le_add_diff_inverse2 loc_word_def trans_le_add1)
  then show ?thesis using ioctl_call_eq [OF u'] by simp
qed

lemma first_named_static:
  assumes "lib_static a l' = lib_static a l"
  shows "first_named l' name i = first_named l name i"
proof -
  have "task_name l' = task_name l" "task_range l' = task_range l"
    using assms by (simp_all add: lib_static_def task_name_def task_range_def fun_eq_iff)
  then show ?thesis by (simp add: first_named_def)
qed

lemma first_named_bound: "lib_wf l \<Longrightarrow> first_named l name i \<Longrightarrow> i < MttDrvrTASKS"
  using task_range_bound by (auto simp: first_named_def)

text \<open>
  A task register set through the library is read back with the value that was set, as
  long as the board does not change it in between: the one register of that task is written,
  which the driver's habit of writing only the lowest register of a mask does not affect.
\<close>

theorem task_register_write_read:
  assumes "world_wf w 300" "lib_wf l" "L_mtt l" "c_name name" "first_named l name i" "treg < 32"
    "length junk = MttDrvrLRAM_SIZE"
  shows "\<exists>l1 l2. MttLibSetTaskRegister w junk name treg val l = Inr (MttLibErrorNONE, l1) \<and>
     MttLibGetTaskRegister w junk name treg l1 = Inr ((MttLibErrorNONE, Some val), l2) \<and>
     drop 300 (iomap (L_drv l1)) = drop 300 ((iomap (L_drv l))[loc_word i (unat treg) := val])"
proof -
  let ?k = "unat treg" and ?vs = "junk[unat treg := val]"
  have k: "?k < 32" using assms(6) by (simp add: word_less_nat_alt)
  have le: "\<not> of_nat MttLibLocalREGISTERS \<le> treg" using assms(6) by (simp add: MttLibLocalREGISTERS_def)
  have i: "i < MttDrvrTASKS" by (rule first_named_bound [OF assms(2,5)])
  obtain m1 where m1: "find_task w name l = Inr (Found i (tcb_view i (L_drv m1)), m1)" "lib_wf m1" "lib_static 300 m1 = lib_static 300 l"
    using find_task_ok [OF assms(1,2,4)] scan_found [OF _ assms(5)] by blast
  obtain l1 where l1: "ioctl_call w (MTT_IOCSTRVAL \<lparr>TR_Task = of_nat (Suc i), TR_RegMask = task_bit ?k, TR_RegVals = ?vs\<rparr>) m1 = Inr ((True, R_none), l1)"
      "lib_wf l1" "lib_static 9004 l1 = lib_static 9004 m1" "drop 300 (iomap (L_drv l1)) = drop 300 ((iomap (L_drv m1))[loc_word i ?k := ?vs ! ?k])"
    using call_set_register [OF assms(1) m1(2) i k, of ?vs] assms(7) by auto
  have set: "MttLibSetTaskRegister w junk name treg val l = Inr (MttLibErrorNONE, l1)"
    using assms(3) le m1(1) l1(1) by (simp add: MttLibSetTaskRegister_def on_task_def request_def)
  have open1: "L_mtt l1" using l1(3) m1(3) assms(3) by (simp add: lib_static_def)
  have "first_named m1 name i" using first_named_static [OF m1(3)] assms(5) by simp
  then have first1: "first_named l1 name i" using first_named_static [OF l1(3)] by simp
  obtain m2 where m2: "find_task w name l1 = Inr (Found i (tcb_view i (L_drv m2)), m2)" "lib_wf m2" "lib_static 300 m2 = lib_static 300 l1"
    using find_task_ok [OF assms(1) l1(2) assms(4)] scan_found [OF _ first1] by blast
  let ?r = "take 32 (drop (loc_word i 0) (iomap (L_drv m2)))"
  obtain l2 where l2: "ioctl_call w (MTT_IOCGTRVAL \<lparr>TR_Task = of_nat (Suc i), TR_RegMask = task_bit ?k, TR_RegVals = junk\<rparr>) m2 =
      Inr ((True, R_treg \<lparr>TR_Task = of_nat (Suc i), TR_RegMask = 0xffffffff, TR_RegVals = ?r\<rparr>), l2)"
    using call_get_registers [OF assms(1) m2(2) i, of "task_bit ?k" junk] by auto
  have mem: "drop 300 (iomap (L_drv m2)) = drop 300 ((iomap (L_drv m1))[loc_word i ?k := val])"
    using m2(3) l1(4) k assms(7) by (simp add: lib_static_def MttDrvrLRAM_SIZE_def)
  have len: "length (iomap (L_drv m1)) = 9004" "length (iomap (L_drv m2)) = 9004" using m1(2) m2(2) by (simp_all add: lib_wf_def)
  have w: "loc_word i 0 + ?k = loc_word i ?k" "loc_word i ?k < 9004" "300 \<le> loc_word i ?k"
    using i k by (simp_all add: loc_word_def MttDrvrTASKS_def)
  have "?r ! ?k = iomap (L_drv m2) ! loc_word i ?k" using k len w by simp
  also have "\<dots> = val" using arg_cong [OF mem, of "\<lambda>xs. xs ! (loc_word i ?k - 300)"] len w by simp
  finally have "MttLibGetTaskRegister w junk name treg l1 = Inr ((MttLibErrorNONE, Some val), l2)"
    using open1 le m2(1) l2 by (simp add: MttLibGetTaskRegister_def read_registers_def)
  moreover have "drop 300 (iomap (L_drv m1)) = drop 300 (iomap (L_drv l))" using m1(3) by (simp add: lib_static_def)
  then have "drop 300 (iomap (L_drv l1)) = drop 300 ((iomap (L_drv l))[loc_word i ?k := val])"
    using l1(4) k assms(7) w(3) by (simp add: drop_update_swap MttDrvrLRAM_SIZE_def)
  ultimately show ?thesis using set by blast
qed

section \<open>Starting a task by name\<close>

text \<open>
  C35: Starting a task by its name starts exactly that task: after the search, the driver stops
  it, loads its program counter with its start address and starts it, in this order and under
  the locks, and leaves the program counter of every other task as the board has it.
\<close>

theorem StartTask_starts_one:
  assumes "world_wf w a" "lib_wf l" "L_mtt l" "c_name name" "first_named l name i"
  shows "\<exists>m l'. MttLibStartTask w name l = Inr (MttLibErrorNONE, l') \<and> lib_static a m = lib_static a l \<and>
     U_Tasks (L_drv l') = U_Tasks (L_drv l) \<and> iomap (L_drv l') ! task_word i = T_PcStart (U_Tasks (L_drv l) ! i) \<and>
     (\<forall>j < 16. j \<noteq> i \<longrightarrow> iomap (L_drv l') ! task_word j = iomap (moved w m) ! task_word j) \<and>
     trace (L_drv l') = trace (L_drv m) @ start_events (U_Tasks (L_drv l)) i"
proof -
  have i: "i < MttDrvrTASKS" by (rule first_named_bound [OF assms(2,5)])
  obtain m where m: "find_task w name l = Inr (Found i (tcb_view i (L_drv m)), m)" "lib_wf m" "lib_static a m = lib_static a l"
    using find_task_ok [OF assms(1,2,4)] scan_found [OF _ assms(5)] by blast
  have wf: "udata_wf (moved w m)" using moved_wf [OF assms(1)] m(2) by (simp add: lib_wf_def)
  have mask: "task_bit i AND MttDrvrTASK_MASK \<noteq> 0" using task_bit_mask [OF i] by simp
  have "set [0 ..< MttDrvrTASKS] \<subseteq> {..<16}" by (auto simp: MttDrvrTASKS_def)
  then obtain u' where u': "fold_r (start_if (task_bit i)) [0 ..< MttDrvrTASKS] (moved w m) = Inr u'" "started (task_bit i) [0 ..< MttDrvrTASKS] (moved w m) u'"
    using start_loop [OF wf, of "[0 ..< MttDrvrTASKS]" "task_bit i"] by (auto simp: good_iff)
  have run: "SkelUserIoctls e ct (MTT_IOCSTASKS_START (task_bit i)) (moved w m) = Inr (SkelUserReturnOK, R_none, u')" for e ct
    using u'(1) mask by (simp add: mtt_tasks_start_ioctl_def ret_ok_def)
  have start: "MttLibStartTask w name l = Inr (MttLibErrorNONE, m\<lparr>L_drv := u', L_calls := Suc (L_calls m)\<rparr>)"
    using assms(3) m(1) ioctl_call_eq [OF run] by (simp add: MttLibStartTask_def on_task_def request_def)
  have bits: "task_bit i AND task_bit j \<noteq> 0 \<longleftrightarrow> j = i" for j
    using task_bit_nonzero [of i] i by (auto simp: task_bit_and MttDrvrTASKS_def)
  have "filter (\<lambda>j. j = i) [0 ..< n] = (if i < n then [i] else [])" for n by (induction n) auto
  then have only: "filter (\<lambda>j. task_bit i AND task_bit j \<noteq> 0) [0 ..< MttDrvrTASKS] = [i]" using i by (simp add: bits)
  have tasks: "U_Tasks (L_drv m) = U_Tasks (L_drv l)" using m(3) by (simp add: lib_static_def)
  have "trace (moved w m) = trace (L_drv m)" by (simp add: moved_def)
  then have "trace u' = trace (L_drv m) @ start_events (U_Tasks (L_drv l)) i" "U_Tasks u' = U_Tasks (L_drv l)"
    using u'(2) tasks unfolding started_def only by simp_all
  moreover have "iomap u' ! task_word j = (if j = i then T_PcStart (U_Tasks (L_drv l) ! i) else iomap (moved w m) ! task_word j)" if "j < 16" for j
    using u'(2) that tasks i unfolding started_def by (simp add: bits MttDrvrTASKS_def del: moved_simps(2)) 
  ultimately show ?thesis
    using start m(3) i by (intro exI [of _ m] exI [of _ "m\<lparr>L_drv := u', L_calls := Suc (L_calls m)\<rparr>"]) (simp add: MttDrvrTASKS_def)
qed

section \<open>Examples\<close>

definition lib1 :: mttlib where
  "lib1 = lib0\<lparr>L_drv := board0\<lparr>U_Tasks := (U_Tasks board0)[2 := zero_task\<lparr>T_Name := strncpy_32 ''Pulse''\<rparr>]\<rparr>\<rparr>"

lemma lib1_tasks: "U_Tasks (L_drv lib1) = (replicate 16 zero_task)[2 := zero_task\<lparr>T_Name := strncpy_32 ''Pulse''\<rparr>]"
  by (simp add: lib1_def board0_def zero_udata_def MttDrvrTASKS_def)

lemma pulse_name: "c_name ''Pulse''" "c_string (strncpy_32 ''Pulse'') = ''Pulse''" "terminated (strncpy_32 ''Pulse'')"
  "length (strncpy_32 ''Pulse'') = MttDrvrNameSIZE"
proof -
  show n: "c_name ''Pulse''" by (simp add: c_name_def)
  show "c_string (strncpy_32 ''Pulse'') = ''Pulse''" by (rule c_string_strncpy_name [OF n]) (simp add: MttLibMAX_NAME_SIZE_def)
  show "terminated (strncpy_32 ''Pulse'')" by (rule terminated_strncpy [OF n]) (simp add: MttLibMAX_NAME_SIZE_def)
  show "length (strncpy_32 ''Pulse'') = MttDrvrNameSIZE" by (simp add: strncpy_32_def)
qed

lemma lib1_wf: "lib_wf lib1"
proof -
  let ?t = "zero_task\<lparr>T_Name := strncpy_32 ''Pulse''\<rparr>"
  have sub: "x = ?t \<or> x = zero_task" if "x \<in> set (U_Tasks (L_drv lib1))" for x
    using subsetD [OF set_update_subset_insert that [unfolded lib1_tasks]] by auto
  have z: "length (T_Name zero_task) = MttDrvrNameSIZE" "terminated (T_Name zero_task)"
    using c_string_nul(2) by (simp_all add: zero_task_def)
  have "named (L_drv lib1)" unfolding named_def using sub z pulse_name by fastforce
  moreover have "udata_wf (L_drv lib1)"
  proof -
    have "length (T_Name x) = MttDrvrNameSIZE" if "x \<in> set (U_Tasks (L_drv lib1))" for x
      using sub [OF that] z pulse_name(4) by auto
    moreover have "length (iomap (L_drv lib1)) = MAP_WORDS" by (simp add: lib1_def board0_def zero_udata_def)
    ultimately show ?thesis unfolding udata_wf_def tasks_wf_def by (simp add: lib1_tasks MttDrvrTASKS_def)
  qed
  ultimately show ?thesis using lib0_wf by (simp add: lib_wf_def lib1_def)
qed

lemma lib1_named: "first_named lib1 ''Pulse'' 2"
proof -
  have range: "task_range lib1 = [0 ..< 16]" using lib0_simps(3) by (simp add: lib1_def task_range_def)
  have "task_name lib1 2 = ''Pulse''" "task_name lib1 0 = []" "task_name lib1 1 = []"
    using pulse_name(2) c_string_nul(1) by (simp_all add: task_name_def lib1_tasks zero_task_def)
  moreover from this have "task_name lib1 j \<noteq> ''Pulse''" if "j < 2" for j using that by (cases j) auto
  ultimately show ?thesis unfolding first_named_def range by auto
qed

lemma lib1_open: "L_mtt lib1"
  using lib0_simps(1) by (simp add: lib1_def)

theorem GetTcbNum_first_witness:
  "\<exists>n l'. MttLibGetTcbNum world0 ''Pulse'' lib1 = Inr (n, l') \<and> n \<noteq> 0 \<and> first_named lib1 ''Pulse'' (unat n - 1)"
proof -
  have "\<exists>j \<in> set (task_range lib1). task_name lib1 j = ''Pulse''" using lib1_named unfolding first_named_def by blast
  then obtain n l' where "MttLibGetTcbNum world0 ''Pulse'' lib1 = Inr (n, l')" "n \<noteq> 0" "first_named lib1 ''Pulse'' (unat n - 1)"
    using GetTcbNum_first [OF world0_wf(1) [of 9004] lib1_wf lib1_open pulse_name(1)] by auto
  then show ?thesis by blast
qed

theorem task_register_write_read_witness:
  "\<exists>l1 l2. MttLibSetTaskRegister world0 (replicate 32 5) ''Pulse'' 3 77 lib1 = Inr (MttLibErrorNONE, l1) \<and>
     MttLibGetTaskRegister world0 (replicate 32 5) ''Pulse'' 3 l1 = Inr ((MttLibErrorNONE, Some 77), l2)"
  using task_register_write_read [OF world0_wf(1) lib1_wf lib1_open pulse_name(1) lib1_named, of 3 "replicate 32 5" 77]
  by (auto simp: MttDrvrLRAM_SIZE_def)

theorem StartTask_starts_one_witness:
  "\<exists>l'. MttLibStartTask world0 ''Pulse'' lib1 = Inr (MttLibErrorNONE, l') \<and> iomap (L_drv l') ! task_word 2 = 0"
  using StartTask_starts_one [OF world0_wf(1) lib1_wf lib1_open pulse_name(1) lib1_named]
  by (auto simp: lib1_tasks zero_task_def)

section \<open>Object files\<close>

lemma lib_reader_eq:
  assumes "file \<noteq> []" "\<And>n. malloc n \<noteq> None"
  shows "MttLibReadObject malloc file code = bind_r (ReadObject malloc file code) (\<lambda>c. Inr (MttLibErrorNONE, c))"
proof -
  obtain ln rest where ln: "fgets 128 file = Some (ln, rest)" using assms(1) by (cases "fgets 128 file") (auto simp: fgets_def)
  have m: "\<exists>mem. malloc k = Some mem" for k using assms(2) [of k] by auto
  show ?thesis
    using m [of "8 * unat (fst (strtoul (snd (strtoul (c_string ln))))) mod 2 ^ 32"]
    by (auto simp: MttLibReadObject_def ReadObject_def read_header_def LN_def ln Let_def split: prod.splits)
qed



end
