(* ===== verification/Vme_Tsi148.thy ===== *)
theory Vme_Tsi148
  imports Prelude
begin

text \<open>
  The outbound windows of the TSI148 PCI-VME bridge (vmebridge/driver/tsi148.c and tsi148.h):
  the mapping descriptor of vmebus.h, the translation between VME address modifiers and the
  chip's attributes, and the routines that program, read back and wipe the registers of a
  window. Every register write is recorded in a trace, in the order of the code.
\<close>

section \<open>Descriptors\<close>

definition VME_D16 :: u32 where "VME_D16 = 16"
definition VME_D32 :: u32 where "VME_D32 = 32"

definition VME_SST160 :: u32 where "VME_SST160 = 0"
definition VME_SST267 :: u32 where "VME_SST267 = 1"
definition VME_SST320 :: u32 where "VME_SST320 = 2"

definition VME_A64_MBLT :: u32 where "VME_A64_MBLT = 0x00"
definition VME_A64_SCT :: u32 where "VME_A64_SCT = 0x01"
definition VME_A64_BLT :: u32 where "VME_A64_BLT = 0x03"
definition VME_A64_LCK :: u32 where "VME_A64_LCK = 0x04"
definition VME_A32_LCK :: u32 where "VME_A32_LCK = 0x05"
definition VME_A32_USER_MBLT :: u32 where "VME_A32_USER_MBLT = 0x08"
definition VME_A32_USER_DATA_SCT :: u32 where "VME_A32_USER_DATA_SCT = 0x09"
definition VME_A32_USER_PRG_SCT :: u32 where "VME_A32_USER_PRG_SCT = 0x0a"
definition VME_A32_USER_BLT :: u32 where "VME_A32_USER_BLT = 0x0b"
definition VME_A32_SUP_MBLT :: u32 where "VME_A32_SUP_MBLT = 0x0c"
definition VME_A32_SUP_DATA_SCT :: u32 where "VME_A32_SUP_DATA_SCT = 0x0d"
definition VME_A32_SUP_PRG_SCT :: u32 where "VME_A32_SUP_PRG_SCT = 0x0e"
definition VME_A32_SUP_BLT :: u32 where "VME_A32_SUP_BLT = 0x0f"
definition VME_2e6U :: u32 where "VME_2e6U = 0x20"
definition VME_A16_USER :: u32 where "VME_A16_USER = 0x29"
definition VME_A16_LCK :: u32 where "VME_A16_LCK = 0x2c"
definition VME_A16_SUP :: u32 where "VME_A16_SUP = 0x2d"
definition VME_CR_CSR :: u32 where "VME_CR_CSR = 0x2f"
definition VME_A40_SCT :: u32 where "VME_A40_SCT = 0x34"
definition VME_A40_LCK :: u32 where "VME_A40_LCK = 0x35"
definition VME_A40_BLT :: u32 where "VME_A40_BLT = 0x37"
definition VME_A24_USER_MBLT :: u32 where "VME_A24_USER_MBLT = 0x38"
definition VME_A24_USER_DATA_SCT :: u32 where "VME_A24_USER_DATA_SCT = 0x39"
definition VME_A24_USER_PRG_SCT :: u32 where "VME_A24_USER_PRG_SCT = 0x3a"
definition VME_A24_USER_BLT :: u32 where "VME_A24_USER_BLT = 0x3b"
definition VME_A24_SUP_MBLT :: u32 where "VME_A24_SUP_MBLT = 0x3c"
definition VME_A24_SUP_DATA_SCT :: u32 where "VME_A24_SUP_DATA_SCT = 0x3d"
definition VME_A24_SUP_PRG_SCT :: u32 where "VME_A24_SUP_PRG_SCT = 0x3e"
definition VME_A24_SUP_BLT :: u32 where "VME_A24_SUP_BLT = 0x3f"

text \<open>Enumerated members hold whatever word the user passed, so they are words.\<close>

record vme_mapping =
  window_num :: i32
  kernel_va :: u32
  user_va :: u32
  D_fd :: i32
  window_enabled :: i32
  data_width :: u32
  D_am :: u32
  read_prefetch_enabled :: i32
  read_prefetch_size :: u32
  v2esst_mode :: u32
  bcast_select :: i32
  pci_addru :: u32
  pci_addrl :: u32
  sizeu :: u32
  sizel :: u32
  vme_addru :: u32
  vme_addrl :: u32

definition zero_mapping :: vme_mapping where
  "zero_mapping =
     \<lparr>window_num = 0, kernel_va = 0, user_va = 0, D_fd = 0, window_enabled = 0, data_width = 0, D_am = 0,
      read_prefetch_enabled = 0, read_prefetch_size = 0, v2esst_mode = 0, bcast_select = 0, pci_addru = 0,
      pci_addrl = 0, sizeu = 0, sizel = 0, vme_addru = 0, vme_addrl = 0\<rparr>"

section \<open>The chip\<close>

definition TSI148_NUM_OUT_WINDOWS :: nat where "TSI148_NUM_OUT_WINDOWS = 8"

definition TSI148_A16 :: u32 where "TSI148_A16 = 0"
definition TSI148_A24 :: u32 where "TSI148_A24 = 1"
definition TSI148_A32 :: u32 where "TSI148_A32 = 2"
definition TSI148_A64 :: u32 where "TSI148_A64 = 4"
definition TSI148_CRCSR :: u32 where "TSI148_CRCSR = 5"
definition TSI148_USER :: u32 where "TSI148_USER = 0"
definition TSI148_SUPER :: u32 where "TSI148_SUPER = 1"
definition TSI148_DATA :: u32 where "TSI148_DATA = 0"
definition TSI148_PROG :: u32 where "TSI148_PROG = 1"
definition TSI148_SCT :: u32 where "TSI148_SCT = 0"
definition TSI148_BLT :: u32 where "TSI148_BLT = 1"
definition TSI148_MBLT :: u32 where "TSI148_MBLT = 2"
definition TSI148_DW_16 :: u32 where "TSI148_DW_16 = 0"
definition TSI148_DW_32 :: u32 where "TSI148_DW_32 = 1"

definition TSI148_LCSR_OTSAL_M :: u32 where "TSI148_LCSR_OTSAL_M = 0xFFFF0000"
definition TSI148_LCSR_OTBS_M :: u32 where "TSI148_LCSR_OTBS_M = 0xFFFFF"
definition TSI148_LCSR_OTAT_EN :: u32 where "TSI148_LCSR_OTAT_EN = 0x80000000"
definition TSI148_LCSR_OTAT_MRPFD :: u32 where "TSI148_LCSR_OTAT_MRPFD = 0x40000"
definition TSI148_LCSR_OTAT_PFS_SHIFT :: nat where "TSI148_LCSR_OTAT_PFS_SHIFT = 16"
definition TSI148_LCSR_OTAT_PFS_M :: u32 where "TSI148_LCSR_OTAT_PFS_M = 0x30000"
definition TSI148_LCSR_OTAT_2eSSTM_SHIFT :: nat where "TSI148_LCSR_OTAT_2eSSTM_SHIFT = 11"
definition TSI148_LCSR_OTAT_2eSSTM_M :: u32 where "TSI148_LCSR_OTAT_2eSSTM_M = 0x3800"
definition TSI148_LCSR_OTAT_TM_SHIFT :: nat where "TSI148_LCSR_OTAT_TM_SHIFT = 8"
definition TSI148_LCSR_OTAT_TM_M :: u32 where "TSI148_LCSR_OTAT_TM_M = 0x700"
definition TSI148_LCSR_OTAT_DBW_SHIFT :: nat where "TSI148_LCSR_OTAT_DBW_SHIFT = 6"
definition TSI148_LCSR_OTAT_DBW_M :: u32 where "TSI148_LCSR_OTAT_DBW_M = 0xC0"
definition TSI148_LCSR_OTAT_DBW_16 :: u32 where "TSI148_LCSR_OTAT_DBW_16 = 0"
definition TSI148_LCSR_OTAT_DBW_32 :: u32 where "TSI148_LCSR_OTAT_DBW_32 = 0x40"
definition TSI148_LCSR_OTAT_SUP :: u32 where "TSI148_LCSR_OTAT_SUP = 0x20"
definition TSI148_LCSR_OTAT_PGM :: u32 where "TSI148_LCSR_OTAT_PGM = 0x10"
definition TSI148_LCSR_OTAT_AMODE_SHIFT :: nat where "TSI148_LCSR_OTAT_AMODE_SHIFT = 0"
definition TSI148_LCSR_OTAT_AMODE_M :: u32 where "TSI148_LCSR_OTAT_AMODE_M = 0xF"
definition TSI148_LCSR_VEAT_VES :: u32 where "TSI148_LCSR_VEAT_VES = 0x80000000"
definition TSI148_LCSR_VEAT_VESCL :: u32 where "TSI148_LCSR_VEAT_VESCL = 0x20000000"

record tsi148_otrans =
  otsau :: u32
  otsal :: u32
  oteau :: u32
  oteal :: u32
  otofu :: u32
  otofl :: u32
  otbs :: u32
  otat :: u32

datatype otreg = OTSAU | OTSAL | OTEAU | OTEAL | OTOFU | OTOFL | OTBS | OTAT

definition zero_otrans :: tsi148_otrans where
  "zero_otrans = \<lparr>otsau = 0, otsal = 0, oteau = 0, oteal = 0, otofu = 0, otofl = 0, otbs = 0, otat = 0\<rparr>"

text \<open>The registers of all windows, and the writes made to them.\<close>

record tsi148_chip =
  otrans :: "tsi148_otrans list"
  ot_trace :: "(nat \<times> otreg \<times> u32) list"

definition put_reg :: "otreg \<Rightarrow> u32 \<Rightarrow> tsi148_otrans \<Rightarrow> tsi148_otrans" where
  "put_reg r v t =
     (case r of OTSAU \<Rightarrow> t\<lparr>otsau := v\<rparr> | OTSAL \<Rightarrow> t\<lparr>otsal := v\<rparr> | OTEAU \<Rightarrow> t\<lparr>oteau := v\<rparr> | OTEAL \<Rightarrow> t\<lparr>oteal := v\<rparr>
      | OTOFU \<Rightarrow> t\<lparr>otofu := v\<rparr> | OTOFL \<Rightarrow> t\<lparr>otofl := v\<rparr> | OTBS \<Rightarrow> t\<lparr>otbs := v\<rparr> | OTAT \<Rightarrow> t\<lparr>otat := v\<rparr>)"

definition ot_write :: "i32 \<Rightarrow> otreg \<Rightarrow> u32 \<Rightarrow> tsi148_chip \<Rightarrow> tsi148_chip result" where
  "ot_write w r v c =
     bind_r (arr_get (otrans c) (sint w)) (\<lambda>t.
     bind_r (arr_set (otrans c) (sint w) (put_reg r v t)) (\<lambda>ts.
       Inr (c\<lparr>otrans := ts, ot_trace := ot_trace c @ [(nat (sint w), r, v)]\<rparr>)))"

fun ot_writes :: "i32 \<Rightarrow> (otreg \<times> u32) list \<Rightarrow> tsi148_chip \<Rightarrow> tsi148_chip result" where
  "ot_writes w [] c = Inr c"
| "ot_writes w ((r, v) # rs) c = bind_r (ot_write w r v c) (ot_writes w rs)"

section \<open>Address modifiers\<close>

text \<open>
  The cases of \<^verbatim>\<open>am_to_attr\<close>: address size, transfer mode, user access, data access.
\<close>

definition am_attrs :: "(u32 \<times> u32 \<times> u32 \<times> u32 \<times> u32) list" where
  "am_attrs =
    [(VME_A16_USER, TSI148_A16, TSI148_SCT, TSI148_USER, TSI148_DATA),
     (VME_A16_SUP, TSI148_A16, TSI148_SCT, TSI148_SUPER, TSI148_DATA),
     (VME_A24_USER_MBLT, TSI148_A24, TSI148_MBLT, TSI148_USER, TSI148_DATA),
     (VME_A24_USER_DATA_SCT, TSI148_A24, TSI148_SCT, TSI148_USER, TSI148_DATA),
     (VME_A24_USER_PRG_SCT, TSI148_A24, TSI148_SCT, TSI148_USER, TSI148_PROG),
     (VME_A24_USER_BLT, TSI148_A24, TSI148_BLT, TSI148_USER, TSI148_DATA),
     (VME_A24_SUP_MBLT, TSI148_A24, TSI148_MBLT, TSI148_SUPER, TSI148_DATA),
     (VME_A24_SUP_DATA_SCT, TSI148_A24, TSI148_SCT, TSI148_SUPER, TSI148_DATA),
     (VME_A24_SUP_PRG_SCT, TSI148_A24, TSI148_SCT, TSI148_SUPER, TSI148_PROG),
     (VME_A24_SUP_BLT, TSI148_A24, TSI148_BLT, TSI148_SUPER, TSI148_DATA),
     (VME_A32_USER_MBLT, TSI148_A32, TSI148_MBLT, TSI148_USER, TSI148_DATA),
     (VME_A32_USER_DATA_SCT, TSI148_A32, TSI148_SCT, TSI148_USER, TSI148_DATA),
     (VME_A32_USER_PRG_SCT, TSI148_A32, TSI148_SCT, TSI148_USER, TSI148_PROG),
     (VME_A32_USER_BLT, TSI148_A32, TSI148_BLT, TSI148_USER, TSI148_DATA),
     (VME_A32_SUP_MBLT, TSI148_A32, TSI148_MBLT, TSI148_SUPER, TSI148_DATA),
     (VME_A32_SUP_DATA_SCT, TSI148_A32, TSI148_SCT, TSI148_SUPER, TSI148_DATA),
     (VME_A32_SUP_PRG_SCT, TSI148_A32, TSI148_SCT, TSI148_SUPER, TSI148_PROG),
     (VME_A32_SUP_BLT, TSI148_A32, TSI148_BLT, TSI148_SUPER, TSI148_DATA),
     (VME_A64_SCT, TSI148_A64, TSI148_SCT, TSI148_SUPER, TSI148_DATA),
     (VME_A64_BLT, TSI148_A64, TSI148_BLT, TSI148_SUPER, TSI148_DATA),
     (VME_A64_MBLT, TSI148_A64, TSI148_MBLT, TSI148_SUPER, TSI148_DATA),
     (VME_CR_CSR, TSI148_CRCSR, TSI148_SCT, TSI148_USER, TSI148_DATA)]"

definition am_to_attr :: "u32 \<Rightarrow> (u32 \<times> u32 \<times> u32 \<times> u32) option" where
  "am_to_attr m = map_of am_attrs m"

text \<open>The last argument is the value the variable has before the call; it stays when no case applies.\<close>

definition attr_to_am :: "u32 \<Rightarrow> u32 \<Rightarrow> u32 \<Rightarrow> u32 \<Rightarrow> u32 \<Rightarrow> u32" where
  "attr_to_am addr_size transfer_mode user_access data_access old =
     (if addr_size = TSI148_A16 then (if user_access = TSI148_USER then VME_A16_USER else VME_A16_SUP)
      else if addr_size = TSI148_A24 then
        (if user_access = TSI148_USER then
           (if transfer_mode = TSI148_SCT
            then (if data_access = TSI148_DATA then VME_A24_USER_DATA_SCT else VME_A24_USER_PRG_SCT)
            else if transfer_mode = TSI148_BLT then VME_A24_USER_BLT
            else if transfer_mode = TSI148_MBLT then VME_A24_USER_MBLT else old)
         else if user_access = TSI148_SUPER then
           (if transfer_mode = TSI148_SCT
            then (if data_access = TSI148_DATA then VME_A24_SUP_DATA_SCT else VME_A24_SUP_PRG_SCT)
            else if transfer_mode = TSI148_BLT then VME_A24_SUP_BLT
            else if transfer_mode = TSI148_MBLT then VME_A24_SUP_MBLT else old)
         else old)
      else if addr_size = TSI148_A32 then
        (if user_access = TSI148_USER then
           (if transfer_mode = TSI148_SCT
            then (if data_access = TSI148_DATA then VME_A32_USER_DATA_SCT else VME_A32_USER_PRG_SCT)
            else if transfer_mode = TSI148_BLT then VME_A32_USER_BLT
            else if transfer_mode = TSI148_MBLT then VME_A32_USER_MBLT else old)
         else if user_access = TSI148_SUPER then
           (if transfer_mode = TSI148_SCT
            then (if data_access = TSI148_DATA then VME_A32_SUP_DATA_SCT else VME_A32_SUP_PRG_SCT)
            else if transfer_mode = TSI148_BLT then VME_A32_SUP_BLT
            else if transfer_mode = TSI148_MBLT then VME_A32_SUP_MBLT else old)
         else old)
      else if addr_size = TSI148_A64 then
        (if transfer_mode = TSI148_SCT then VME_A64_SCT
         else if transfer_mode = TSI148_BLT then VME_A64_BLT
         else if transfer_mode = TSI148_MBLT then VME_A64_MBLT else old)
      else if addr_size = TSI148_CRCSR then VME_CR_CSR
      else old)"

section \<open>64-bit arithmetic on halves\<close>

definition sub64hi :: "u32 \<Rightarrow> u32 \<Rightarrow> u32 \<Rightarrow> u32 \<Rightarrow> u32" where
  "sub64hi lo0 hi0 lo1 hi1 = (if lo0 < lo1 then hi0 - hi1 - 1 else hi0 - hi1)"

definition add64hi :: "u32 \<Rightarrow> u32 \<Rightarrow> u32 \<Rightarrow> u32 \<Rightarrow> u32" where
  "add64hi lo0 hi0 lo1 hi1 = (if lo0 + lo1 < lo1 then hi0 + hi1 + 1 else hi0 + hi1)"

section \<open>Windows\<close>

text \<open>\<^verbatim>\<open>None\<close> stands for the error return \<^verbatim>\<open>-EINVAL\<close>.\<close>

definition tsi148_setup_window_attributes :: "u32 \<Rightarrow> u32 \<Rightarrow> u32 \<Rightarrow> u32 option" where
  "tsi148_setup_window_attributes sst dw m =
     (if sst \<noteq> VME_SST160 \<and> sst \<noteq> VME_SST267 \<and> sst \<noteq> VME_SST320 then None
      else let a1 = push_bit TSI148_LCSR_OTAT_2eSSTM_SHIFT sst AND TSI148_LCSR_OTAT_2eSSTM_M in
      if dw \<noteq> VME_D16 \<and> dw \<noteq> VME_D32 then None
      else let a2 = a1 OR (push_bit TSI148_LCSR_OTAT_DBW_SHIFT (if dw = VME_D16 then TSI148_DW_16 else TSI148_DW_32)
                             AND TSI148_LCSR_OTAT_DBW_M) in
      case am_to_attr m of
        None \<Rightarrow> None
      | Some (addr_size, transfer_mode, user_access, data_access) \<Rightarrow>
          if 5 < transfer_mode then None
          else let a3 = a2 OR (push_bit TSI148_LCSR_OTAT_TM_SHIFT transfer_mode AND TSI148_LCSR_OTAT_TM_M) in
          if user_access \<noteq> TSI148_SUPER \<and> user_access \<noteq> TSI148_USER then None
          else let a4 = (if user_access = TSI148_SUPER then a3 OR TSI148_LCSR_OTAT_SUP else a3) in
          if data_access \<noteq> TSI148_PROG \<and> data_access \<noteq> TSI148_DATA then None
          else let a5 = (if data_access = TSI148_PROG then a4 OR TSI148_LCSR_OTAT_PGM else a4) in
          if addr_size \<in> set [0, 1, 2, 4, 5, 8, 9, 10, 11]
          then Some (a5 OR (push_bit TSI148_LCSR_OTAT_AMODE_SHIFT addr_size AND TSI148_LCSR_OTAT_AMODE_M))
          else None)"

definition tsi148_get_window_attr :: "vme_mapping \<Rightarrow> tsi148_chip \<Rightarrow> vme_mapping result" where
  "tsi148_get_window_attr d c =
     bind_r (arr_get (otrans c) (sint (window_num d))) (\<lambda>t.
       let d1 = (if otat t AND TSI148_LCSR_OTAT_EN \<noteq> 0 then d\<lparr>window_enabled := 1\<rparr> else d);
           d2 = (if otat t AND TSI148_LCSR_OTAT_MRPFD = 0 then d1\<lparr>read_prefetch_enabled := 1\<rparr> else d1);
           d3 = d2\<lparr>read_prefetch_size := drop_bit TSI148_LCSR_OTAT_PFS_SHIFT (otat t AND TSI148_LCSR_OTAT_PFS_M),
                   v2esst_mode := drop_bit TSI148_LCSR_OTAT_2eSSTM_SHIFT (otat t AND TSI148_LCSR_OTAT_2eSSTM_M)\<rparr>;
           dbw = drop_bit TSI148_LCSR_OTAT_DBW_SHIFT (otat t AND TSI148_LCSR_OTAT_DBW_M);
           d4 = (if dbw = TSI148_LCSR_OTAT_DBW_16 then d3\<lparr>data_width := VME_D16\<rparr>
                 else if dbw = TSI148_LCSR_OTAT_DBW_32 then d3\<lparr>data_width := VME_D32\<rparr> else d3);
           addr_size = drop_bit TSI148_LCSR_OTAT_AMODE_SHIFT (otat t AND TSI148_LCSR_OTAT_AMODE_M);
           transfer_mode = drop_bit TSI148_LCSR_OTAT_TM_SHIFT (otat t AND TSI148_LCSR_OTAT_TM_M);
           user_access = (if otat t AND TSI148_LCSR_OTAT_SUP \<noteq> 0 then TSI148_SUPER else TSI148_USER);
           data_access = (if otat t AND TSI148_LCSR_OTAT_PGM \<noteq> 0 then TSI148_PROG else TSI148_DATA)
       in Inr (d4\<lparr>bcast_select := otbs t,
                  D_am := attr_to_am addr_size transfer_mode user_access data_access (- 1),
                  pci_addrl := otsal t, pci_addru := otsau t,
                  sizel := oteal t - otsal t,
                  sizeu := sub64hi (oteal t) (oteau t) (otsal t) (otsau t),
                  vme_addrl := otofl t + otsal t,
                  vme_addru := (if addr_size = TSI148_A64 then add64hi (otofl t) (otofu t) (otsal t) (otsau t) else 0)\<rparr>))"

text \<open>The descriptor is returned as the code leaves it, on an error too.\<close>

definition align_window :: "vme_mapping \<Rightarrow> vme_mapping" where
  "align_window d =
     d\<lparr>vme_addrl := (if vme_addrl d AND 0xffff \<noteq> 0 then vme_addrl d AND NOT 0xffff else vme_addrl d),
       sizel := (if sizel d AND 0xffff \<noteq> 0 then (vme_addrl d + sizel d + 0x10000) AND NOT 0xffff else sizel d)\<rparr>"

definition window_otat :: "vme_mapping \<Rightarrow> u32 \<Rightarrow> u32" where
  "window_otat d attrs =
     (let a = attrs OR TSI148_LCSR_OTAT_EN in
      if read_prefetch_enabled d \<noteq> 0
      then (a AND NOT TSI148_LCSR_OTAT_MRPFD)
             OR (push_bit TSI148_LCSR_OTAT_PFS_SHIFT (read_prefetch_size d) AND TSI148_LCSR_OTAT_PFS_M)
      else a OR TSI148_LCSR_OTAT_MRPFD)"

definition window_regs :: "vme_mapping \<Rightarrow> u32 \<Rightarrow> (otreg \<times> u32) list" where
  "window_regs d attrs =
     [(OTBS, bcast_select d AND TSI148_LCSR_OTBS_M),
      (OTSAL, pci_addrl d AND TSI148_LCSR_OTSAL_M),
      (OTSAU, pci_addru d),
      (OTEAL, (pci_addrl d + sizel d - 1) AND NOT 0xffff),
      (OTEAU, add64hi (pci_addrl d) (pci_addru d) (sizel d) (sizeu d)),
      (OTOFL, vme_addrl d - pci_addrl d),
      (OTOFU, sub64hi (vme_addrl d) (vme_addru d) (pci_addrl d) (pci_addru d)),
      (OTAT, window_otat d attrs)]"

definition tsi148_create_window :: "vme_mapping \<Rightarrow> tsi148_chip \<Rightarrow> (errno option \<times> vme_mapping \<times> tsi148_chip) result" where
  "tsi148_create_window d c =
     (let d1 = align_window d in
      if pci_addrl d1 AND 0xffff \<noteq> 0 then Inr (Some EINVAL, d1, c)
      else case tsi148_setup_window_attributes (v2esst_mode d1) (data_width d1) (D_am d1) of
        None \<Rightarrow> Inr (Some EINVAL, d1, c)
      | Some attrs \<Rightarrow>
          bind_r (ot_writes (window_num d1) (window_regs d1 attrs) c) (\<lambda>c1.
            Inr (None, d1\<lparr>window_enabled := 1\<rparr>, c1)))"

definition wipe_regs :: "(otreg \<times> u32) list" where
  "wipe_regs = [(OTAT, 0), (OTSAL, 0), (OTSAU, 0), (OTEAL, 0), (OTEAU, 0), (OTOFL, 0), (OTOFU, 0), (OTBS, 0)]"

definition tsi148_remove_window :: "vme_mapping \<Rightarrow> tsi148_chip \<Rightarrow> (vme_mapping \<times> tsi148_chip) result" where
  "tsi148_remove_window d c =
     bind_r (ot_writes (window_num d) wipe_regs c) (\<lambda>c1. Inr (d\<lparr>window_enabled := 0\<rparr>, c1))"

end
