(* ===== verification/Vme_Chip.thy ===== *)
theory Vme_Chip
  imports Vme_Tsi148
begin

text \<open>
  Facts about the window registers of the bridge: 64K alignment, the fields of the attribute
  word, the order of the register writes, the translation of addresses by a programmed window,
  and what reading a window back returns. The locale states what the window manager relies on.
\<close>

section \<open>64K blocks\<close>

lemma low16: "unat ((x::u32) AND 0xffff) = unat x mod 65536"
proof -
  have "x AND 0xffff = take_bit 16 x" by (simp only: take_bit_eq_mask) (simp add: mask_eq_exp_minus_1)
  then show ?thesis by (simp only: unsigned_take_bit_eq) (simp add: take_bit_eq_mod)
qed

lemma high16: "unat ((x::u32) AND NOT 0xffff) = unat x - unat x mod 65536"
proof -
  have s: "(x AND NOT 0xffff) + (x AND 0xffff) = x"
    by (subst disjunctive_add) (auto simp: bit_simps intro!: bit_word_eqI)
  have "x AND 0xffff \<le> x" by (simp add: word_and_le2)
  then have "unat (x - (x AND 0xffff)) = unat x - unat (x AND 0xffff)" by (simp add: unat_sub)
  moreover have "x - (x AND 0xffff) = x AND NOT 0xffff" using s by (simp add: algebra_simps)
  ultimately show ?thesis by (simp add: low16)
qed

lemmas high16_neg = high16 [simplified]

lemma aligned_iff: "(x::u32) AND 0xffff = 0 \<longleftrightarrow> 65536 dvd unat x"
  using low16 [of x] by (metis unat_0 unat_eq_zero dvd_eq_mod_eq_0)

lemma high16_aligned: "((x::u32) AND NOT 0xffff) AND 0xffff = 0"
  by (auto simp: bit_simps intro!: bit_word_eqI)

lemma aligned_add: "(x::u32) AND 0xffff = 0 \<Longrightarrow> y AND 0xffff = 0 \<Longrightarrow> (x + y) AND 0xffff = 0"
  unfolding aligned_iff unat_word_ariths by (simp add: dvd_mod_iff)

lemma unat_eqI: "unat (x::u32) = unat y \<Longrightarrow> x = y" by (rule unsigned_word_eqI)

lemma high16_id: "(x::u32) AND 0xffff = 0 \<Longrightarrow> x AND NOT 0xffff = x"
  by (rule unat_eqI) (simp only: high16, simp add: aligned_iff dvd_eq_mod_eq_0)

lemma last64: "(x::u32) AND 0xffff = 0 \<Longrightarrow> (x - 1) AND NOT 0xffff = x - 0x10000"
proof -
  assume a: "x AND 0xffff = 0"
  show ?thesis
  proof (cases "x = 0")
    case True then show ?thesis by simp
  next
    case False
    obtain q where q: "unat x = 65536 * q" using a by (auto simp: aligned_iff elim: dvdE)
    have "0 < unat x" using False by (simp add: unat_gt_0)
    with q have g: "0 < q" by simp
    have "unat (x - 1) = unat x - 1" using False by (simp add: unat_minus_one)
    moreover have "unat (x - 0x10000) = unat x - 65536" using g q by (simp add: unat_sub word_le_nat_alt)
    moreover have "(unat x - 1) mod 65536 = 65535"
    proof -
      have "unat x - 1 = 65535 + 65536 * (q - 1)" using q g by (simp add: algebra_simps)
      then show ?thesis by simp
    qed
    ultimately have "unat ((x - 1) AND NOT 0xffff) = unat (x - 0x10000)" using q g by (simp add: high16_neg algebra_simps)
    then show ?thesis by (rule unat_eqI)
  qed
qed

section \<open>The attribute word\<close>

lemma am_round: "am_to_attr m = Some (a, t, u, d) \<Longrightarrow> attr_to_am a t u d x = m"
proof -
  assume "am_to_attr m = Some (a, t, u, d)"
  then have "(m, a, t, u, d) \<in> set am_attrs" by (simp add: am_to_attr_def map_of_SomeD)
  moreover have "list_all (\<lambda>(m, a, t, u, d). attr_to_am a t u d x = m) am_attrs"
    by (simp add: am_attrs_def attr_to_am_def TSI148_A16_def TSI148_A24_def TSI148_A32_def TSI148_A64_def TSI148_CRCSR_def
      TSI148_USER_def TSI148_SUPER_def TSI148_SCT_def TSI148_BLT_def TSI148_MBLT_def TSI148_DATA_def TSI148_PROG_def)
  ultimately show ?thesis by (auto simp: list_all_iff)
qed

lemmas tsi_consts = TSI148_A16_def TSI148_A24_def TSI148_A32_def TSI148_A64_def TSI148_CRCSR_def
  TSI148_USER_def TSI148_SUPER_def TSI148_SCT_def TSI148_BLT_def TSI148_MBLT_def TSI148_DATA_def TSI148_PROG_def
  TSI148_DW_16_def TSI148_DW_32_def VME_D16_def VME_D32_def VME_SST160_def VME_SST267_def VME_SST320_def

lemmas otat_consts = TSI148_LCSR_OTSAL_M_def TSI148_LCSR_OTBS_M_def TSI148_LCSR_OTAT_EN_def TSI148_LCSR_OTAT_MRPFD_def
  TSI148_LCSR_OTAT_PFS_SHIFT_def TSI148_LCSR_OTAT_PFS_M_def TSI148_LCSR_OTAT_2eSSTM_SHIFT_def TSI148_LCSR_OTAT_2eSSTM_M_def
  TSI148_LCSR_OTAT_TM_SHIFT_def TSI148_LCSR_OTAT_TM_M_def TSI148_LCSR_OTAT_DBW_SHIFT_def TSI148_LCSR_OTAT_DBW_M_def
  TSI148_LCSR_OTAT_DBW_16_def TSI148_LCSR_OTAT_DBW_32_def TSI148_LCSR_OTAT_SUP_def TSI148_LCSR_OTAT_PGM_def
  TSI148_LCSR_OTAT_AMODE_SHIFT_def TSI148_LCSR_OTAT_AMODE_M_def

definition otat_am :: "u32 \<Rightarrow> u32" where
  "otat_am a =
     attr_to_am (drop_bit TSI148_LCSR_OTAT_AMODE_SHIFT (a AND TSI148_LCSR_OTAT_AMODE_M))
       (drop_bit TSI148_LCSR_OTAT_TM_SHIFT (a AND TSI148_LCSR_OTAT_TM_M))
       (if a AND TSI148_LCSR_OTAT_SUP \<noteq> 0 then TSI148_SUPER else TSI148_USER)
       (if a AND TSI148_LCSR_OTAT_PGM \<noteq> 0 then TSI148_PROG else TSI148_DATA) (- 1)"

lemma window_otat_fields:
  "window_otat d a AND TSI148_LCSR_OTAT_AMODE_M = a AND TSI148_LCSR_OTAT_AMODE_M"
  "window_otat d a AND TSI148_LCSR_OTAT_TM_M = a AND TSI148_LCSR_OTAT_TM_M"
  "window_otat d a AND TSI148_LCSR_OTAT_SUP = a AND TSI148_LCSR_OTAT_SUP"
  "window_otat d a AND TSI148_LCSR_OTAT_PGM = a AND TSI148_LCSR_OTAT_PGM"
  "window_otat d a AND TSI148_LCSR_OTAT_2eSSTM_M = a AND TSI148_LCSR_OTAT_2eSSTM_M"
  "window_otat d a AND TSI148_LCSR_OTAT_DBW_M = a AND TSI148_LCSR_OTAT_DBW_M"
  by (simp_all add: window_otat_def otat_consts Let_def and.assoc bit.conj_disj_distrib2)

lemma window_otat_prefetch:
  "window_otat d a AND TSI148_LCSR_OTAT_MRPFD = (if read_prefetch_enabled d \<noteq> 0 then 0 else TSI148_LCSR_OTAT_MRPFD)"
  "a AND TSI148_LCSR_OTAT_PFS_M = 0 \<Longrightarrow>
     drop_bit TSI148_LCSR_OTAT_PFS_SHIFT (window_otat d a AND TSI148_LCSR_OTAT_PFS_M) =
       (if read_prefetch_enabled d \<noteq> 0 then read_prefetch_size d AND 3 else 0)"
proof -
  show "window_otat d a AND TSI148_LCSR_OTAT_MRPFD = (if read_prefetch_enabled d \<noteq> 0 then 0 else TSI148_LCSR_OTAT_MRPFD)"
    by (simp add: window_otat_def otat_consts Let_def and.assoc bit.conj_disj_distrib2)
  assume "a AND TSI148_LCSR_OTAT_PFS_M = 0"
  then have "drop_bit 16 (a AND 0x30000) = 0" by (simp only: TSI148_LCSR_OTAT_PFS_M_def drop_bit_of_0)
  then have z: "drop_bit 16 a AND 3 = 0" by simp
  have m: "drop_bit 16 (push_bit 16 x) AND 3 = x AND 3" for x :: u32
  proof -
    have three: "(3::u32) = mask 2" by (simp add: mask_eq_exp_minus_1)
    show ?thesis unfolding three
      by (rule bit_word_eqI) (auto simp only: bit_and_iff bit_mask_iff bit_drop_bit_eq bit_push_bit_iff o_def len_of_numeral_defs possible_bit_word, auto)
  qed
  show "drop_bit TSI148_LCSR_OTAT_PFS_SHIFT (window_otat d a AND TSI148_LCSR_OTAT_PFS_M) =
      (if read_prefetch_enabled d \<noteq> 0 then read_prefetch_size d AND 3 else 0)"
    using z m by (simp add: window_otat_def otat_consts Let_def and.assoc bit.conj_disj_distrib2)
qed

lemma window_otat_enabled: "window_otat d a AND TSI148_LCSR_OTAT_EN = TSI148_LCSR_OTAT_EN"
  by (simp add: window_otat_def otat_consts Let_def and.assoc bit.conj_disj_distrib2 or.assoc)

lemma am_attr_ranges:
  assumes "am_to_attr m = Some (as, t, u, d)"
  shows "as \<in> {TSI148_A16, TSI148_A24, TSI148_A32, TSI148_A64, TSI148_CRCSR}" "t \<in> {TSI148_SCT, TSI148_BLT, TSI148_MBLT}"
    "u \<in> {TSI148_USER, TSI148_SUPER}" "d \<in> {TSI148_DATA, TSI148_PROG}"
proof -
  have "list_all (\<lambda>(m, as, t, u, d). as \<in> {TSI148_A16, TSI148_A24, TSI148_A32, TSI148_A64, TSI148_CRCSR} \<and>
      t \<in> {TSI148_SCT, TSI148_BLT, TSI148_MBLT} \<and> u \<in> {TSI148_USER, TSI148_SUPER} \<and> d \<in> {TSI148_DATA, TSI148_PROG}) am_attrs"
    by (simp add: am_attrs_def)
  moreover have "(m, as, t, u, d) \<in> set am_attrs" using assms by (simp add: am_to_attr_def map_of_SomeD)
  ultimately show "as \<in> {TSI148_A16, TSI148_A24, TSI148_A32, TSI148_A64, TSI148_CRCSR}" "t \<in> {TSI148_SCT, TSI148_BLT, TSI148_MBLT}"
    "u \<in> {TSI148_USER, TSI148_SUPER}" "d \<in> {TSI148_DATA, TSI148_PROG}"
    by (auto simp: list_all_iff)
qed

lemma setup_fields:
  assumes "tsi148_setup_window_attributes sst dw m = Some a"
  obtains as t u d where "am_to_attr m = Some (as, t, u, d)"
    "a AND TSI148_LCSR_OTAT_AMODE_M = as" "drop_bit TSI148_LCSR_OTAT_TM_SHIFT (a AND TSI148_LCSR_OTAT_TM_M) = t"
    "a AND TSI148_LCSR_OTAT_SUP = (if u = TSI148_SUPER then TSI148_LCSR_OTAT_SUP else 0)"
    "a AND TSI148_LCSR_OTAT_PGM = (if d = TSI148_PROG then TSI148_LCSR_OTAT_PGM else 0)"
    "drop_bit TSI148_LCSR_OTAT_2eSSTM_SHIFT (a AND TSI148_LCSR_OTAT_2eSSTM_M) = sst"
    "drop_bit TSI148_LCSR_OTAT_DBW_SHIFT (a AND TSI148_LCSR_OTAT_DBW_M) = (if dw = VME_D16 then TSI148_DW_16 else TSI148_DW_32)"
    "dw = VME_D16 \<or> dw = VME_D32" "a AND TSI148_LCSR_OTAT_PFS_M = 0"
proof -
  obtain as t u d where r: "am_to_attr m = Some (as, t, u, d)"
    using assms by (auto simp: tsi148_setup_window_attributes_def Let_def split: if_splits option.splits)
  define e where "e = ((((push_bit TSI148_LCSR_OTAT_2eSSTM_SHIFT sst AND TSI148_LCSR_OTAT_2eSSTM_M)
      OR (push_bit TSI148_LCSR_OTAT_DBW_SHIFT (if dw = VME_D16 then TSI148_DW_16 else TSI148_DW_32) AND TSI148_LCSR_OTAT_DBW_M))
      OR (push_bit TSI148_LCSR_OTAT_TM_SHIFT t AND TSI148_LCSR_OTAT_TM_M))
      OR (if u = TSI148_SUPER then TSI148_LCSR_OTAT_SUP else 0)) OR (if d = TSI148_PROG then TSI148_LCSR_OTAT_PGM else 0)"
  have sst: "sst \<in> {VME_SST160, VME_SST267, VME_SST320}" and dw: "dw = VME_D16 \<or> dw = VME_D32"
    using assms by (auto simp: tsi148_setup_window_attributes_def Let_def split: if_splits)
  have a: "a = e OR (push_bit TSI148_LCSR_OTAT_AMODE_SHIFT as AND TSI148_LCSR_OTAT_AMODE_M)"
    using assms r by (auto simp: e_def tsi148_setup_window_attributes_def Let_def split: if_splits)
  note rr = am_attr_ranges [OF r]
  show ?thesis
  proof (rule that [OF r])
    show "a AND TSI148_LCSR_OTAT_AMODE_M = as"
      using rr(1) by (auto simp: a e_def otat_consts tsi_consts and.assoc bit.conj_disj_distrib2)
    show "drop_bit TSI148_LCSR_OTAT_TM_SHIFT (a AND TSI148_LCSR_OTAT_TM_M) = t"
      using rr(2) by (auto simp: a e_def otat_consts tsi_consts and.assoc bit.conj_disj_distrib2)
    show "a AND TSI148_LCSR_OTAT_SUP = (if u = TSI148_SUPER then TSI148_LCSR_OTAT_SUP else 0)"
      by (simp add: a e_def otat_consts tsi_consts and.assoc bit.conj_disj_distrib2)
    show "a AND TSI148_LCSR_OTAT_PGM = (if d = TSI148_PROG then TSI148_LCSR_OTAT_PGM else 0)"
      by (simp add: a e_def otat_consts tsi_consts and.assoc bit.conj_disj_distrib2)
    show "drop_bit TSI148_LCSR_OTAT_2eSSTM_SHIFT (a AND TSI148_LCSR_OTAT_2eSSTM_M) = sst"
      using sst by (auto simp: a e_def otat_consts tsi_consts and.assoc bit.conj_disj_distrib2)
    show "drop_bit TSI148_LCSR_OTAT_DBW_SHIFT (a AND TSI148_LCSR_OTAT_DBW_M) = (if dw = VME_D16 then TSI148_DW_16 else TSI148_DW_32)"
      by (simp add: a e_def otat_consts tsi_consts and.assoc bit.conj_disj_distrib2)
    show "dw = VME_D16 \<or> dw = VME_D32" by (rule dw)
    show "a AND TSI148_LCSR_OTAT_PFS_M = 0"
      by (simp add: a e_def otat_consts tsi_consts and.assoc bit.conj_disj_distrib2)
  qed
qed

lemma otat_am_setup:
  assumes "tsi148_setup_window_attributes sst dw m = Some a"
  shows "otat_am (window_otat d a) = m"
proof -
  obtain as t u dd where r: "am_to_attr m = Some (as, t, u, dd)"
    "a AND TSI148_LCSR_OTAT_AMODE_M = as" "drop_bit TSI148_LCSR_OTAT_TM_SHIFT (a AND TSI148_LCSR_OTAT_TM_M) = t"
    "a AND TSI148_LCSR_OTAT_SUP = (if u = TSI148_SUPER then TSI148_LCSR_OTAT_SUP else 0)"
    "a AND TSI148_LCSR_OTAT_PGM = (if dd = TSI148_PROG then TSI148_LCSR_OTAT_PGM else 0)"
    using assms by (rule setup_fields)
  have "attr_to_am as t (if u = TSI148_SUPER then TSI148_SUPER else TSI148_USER) (if dd = TSI148_PROG then TSI148_PROG else TSI148_DATA) (- 1) = m"
    using am_round [OF r(1)] am_attr_ranges(3,4) [OF r(1)] by (auto simp: tsi_consts)
  then show ?thesis
    using r(2-5) by (simp add: otat_am_def window_otat_fields) (auto simp: otat_consts)
qed

section \<open>Register writes\<close>

lemma ot_writes_eq:
  assumes "0 \<le> sint w" "sint w < int (length (otrans c))"
  shows "ot_writes w rs c = Inr (c\<lparr>otrans := (otrans c)[nat (sint w) := fold (\<lambda>(r, v). put_reg r v) rs (otrans c ! nat (sint w))],
           ot_trace := ot_trace c @ map (\<lambda>(r, v). (nat (sint w), r, v)) rs\<rparr>)"
  using assms
proof (induction rs arbitrary: c)
  case Nil
  then show ?case by simp
next
  case (Cons x rs)
  then show ?case by (cases x) (simp add: ot_write_def nat_less_iff)
qed

text \<open>The registers of a window after its creation.\<close>

definition window_trans :: "vme_mapping \<Rightarrow> u32 \<Rightarrow> tsi148_otrans" where
  "window_trans d a =
     \<lparr>otsau = pci_addru d, otsal = pci_addrl d AND TSI148_LCSR_OTSAL_M,
      oteau = add64hi (pci_addrl d) (pci_addru d) (sizel d) (sizeu d), oteal = (pci_addrl d + sizel d - 1) AND NOT 0xffff,
      otofu = sub64hi (vme_addrl d) (vme_addru d) (pci_addrl d) (pci_addru d), otofl = vme_addrl d - pci_addrl d,
      otbs = bcast_select d AND TSI148_LCSR_OTBS_M, otat = window_otat d a\<rparr>"

lemma window_regs_trans: "fold (\<lambda>(r, v). put_reg r v) (window_regs d a) t = window_trans d a"
  by (simp add: window_regs_def window_trans_def put_reg_def)

lemma wipe_regs_zero: "fold (\<lambda>(r, v). put_reg r v) wipe_regs t = zero_otrans"
  by (simp add: wipe_regs_def zero_otrans_def put_reg_def)

text \<open>
  The address registers of a window are written only while the window is disabled: \<open>en\<close> says
  which windows are enabled before the writes.
\<close>

fun safe_writes :: "(nat \<Rightarrow> bool) \<Rightarrow> (nat \<times> otreg \<times> u32) list \<Rightarrow> bool" where
  "safe_writes en [] = True"
| "safe_writes en ((w, r, v) # tr) =
     ((r = OTAT \<or> \<not> en w) \<and> safe_writes (if r = OTAT then en(w := v AND TSI148_LCSR_OTAT_EN \<noteq> 0) else en) tr)"

fun enabled_after :: "(nat \<Rightarrow> bool) \<Rightarrow> (nat \<times> otreg \<times> u32) list \<Rightarrow> nat \<Rightarrow> bool" where
  "enabled_after en [] = en"
| "enabled_after en ((w, r, v) # tr) =
     enabled_after (if r = OTAT then en(w := v AND TSI148_LCSR_OTAT_EN \<noteq> 0) else en) tr"

lemma safe_writes_append: "safe_writes en (xs @ ys) \<longleftrightarrow> safe_writes en xs \<and> safe_writes (enabled_after en xs) ys"
  by (induction en xs rule: safe_writes.induct) auto

lemma enabled_after_append: "enabled_after en (xs @ ys) = enabled_after (enabled_after en xs) ys"
  by (induction en xs rule: enabled_after.induct) auto

definition window_on :: "tsi148_chip \<Rightarrow> nat \<Rightarrow> bool" where
  "window_on c i \<longleftrightarrow> i < length (otrans c) \<and> otat (otrans c ! i) AND TSI148_LCSR_OTAT_EN \<noteq> 0"

definition chip_ok :: "tsi148_chip \<Rightarrow> bool" where
  "chip_ok c \<longleftrightarrow> length (otrans c) = TSI148_NUM_OUT_WINDOWS \<and> safe_writes (\<lambda>_. False) (ot_trace c) \<and>
     enabled_after (\<lambda>_. False) (ot_trace c) = window_on c"

definition window_at :: "i32 \<Rightarrow> nat \<Rightarrow> bool" where
  "window_at n i \<longleftrightarrow> i < TSI148_NUM_OUT_WINDOWS \<and> sint n = int i"

lemma window_otat_on [simp]: "window_otat d a AND TSI148_LCSR_OTAT_EN \<noteq> 0"
  by (subst window_otat_enabled) (simp add: TSI148_LCSR_OTAT_EN_def)

lemma create_writes:
  assumes "chip_ok c" "window_at (window_num d) i" "\<not> window_on c i"
  obtains c' where "ot_writes (window_num d) (window_regs d a) c = Inr c'" "chip_ok c'"
    "otrans c' = (otrans c)[i := window_trans d a]" "window_on c' = (window_on c)(i := True)"
proof -
  define c' where "c' = c\<lparr>otrans := (otrans c)[i := window_trans d a],
      ot_trace := ot_trace c @ map (\<lambda>(r, v). (i, r, v)) (window_regs d a)\<rparr>"
  have n: "0 \<le> sint (window_num d)" "sint (window_num d) < int (length (otrans c))" "nat (sint (window_num d)) = i"
    and i: "i < length (otrans c)"
    using assms(1,2) by (auto simp: chip_ok_def window_at_def)
  have w: "ot_writes (window_num d) (window_regs d a) c = Inr c'"
    using ot_writes_eq [OF n(1,2), of "window_regs d a"] by (simp add: n(3) window_regs_trans c'_def)
  have on: "window_on c' = (window_on c)(i := True)"
    using i by (auto simp: fun_eq_iff window_on_def c'_def nth_list_update window_trans_def)
  have "safe_writes (window_on c) (map (\<lambda>(r, v). (i, r, v)) (window_regs d a))"
    "enabled_after (window_on c) (map (\<lambda>(r, v). (i, r, v)) (window_regs d a)) = (window_on c)(i := True)"
    using assms(3) by (simp_all add: window_regs_def)
  then have "chip_ok c'"
    using assms(1) on by (simp add: chip_ok_def c'_def safe_writes_append enabled_after_append)
  then show ?thesis using that [OF w] on by (simp add: c'_def)
qed

lemma wipe_writes:
  assumes "chip_ok c" "window_at n i"
  obtains c' where "ot_writes n wipe_regs c = Inr c'" "chip_ok c'"
    "otrans c' = (otrans c)[i := zero_otrans]" "window_on c' = (window_on c)(i := False)"
proof -
  define c' where "c' = c\<lparr>otrans := (otrans c)[i := zero_otrans],
      ot_trace := ot_trace c @ map (\<lambda>(r, v). (i, r, v)) wipe_regs\<rparr>"
  have n: "0 \<le> sint n" "sint n < int (length (otrans c))" "nat (sint n) = i" and i: "i < length (otrans c)"
    using assms by (auto simp: chip_ok_def window_at_def)
  have w: "ot_writes n wipe_regs c = Inr c'"
    using ot_writes_eq [OF n(1,2), of wipe_regs] by (simp add: n(3) wipe_regs_zero c'_def)
  have on: "window_on c' = (window_on c)(i := False)"
    using i by (auto simp: fun_eq_iff window_on_def c'_def nth_list_update zero_otrans_def)
  have "safe_writes (window_on c) (map (\<lambda>(r, v). (i, r, v)) wipe_regs)"
    "enabled_after (window_on c) (map (\<lambda>(r, v). (i, r, v)) wipe_regs) = (window_on c)(i := False)"
    by (simp_all add: wipe_regs_def)
  then have "chip_ok c'"
    using assms(1) on by (simp add: chip_ok_def c'_def safe_writes_append enabled_after_append)
  then show ?thesis using that [OF w] on by (simp add: c'_def)
qed

section \<open>The contract of the chip routines\<close>

text \<open>
  What the window manager relies on: creating a window that is off either fails and leaves the
  chip as it was, or turns exactly this window on; removing a window turns exactly it off.
\<close>

locale outbound_windows =
  fixes ok :: "'c \<Rightarrow> bool"
    and on :: "'c \<Rightarrow> nat \<Rightarrow> bool"
    and create :: "vme_mapping \<Rightarrow> 'c \<Rightarrow> (errno option \<times> vme_mapping \<times> 'c) result"
    and remove :: "vme_mapping \<Rightarrow> 'c \<Rightarrow> (vme_mapping \<times> 'c) result"
  assumes create_good: "ok c \<Longrightarrow> window_at (window_num d) i \<Longrightarrow> \<not> on c i \<Longrightarrow>
      good (\<lambda>(rc, d', c'). ok c' \<and> window_num d' = window_num d \<and> kernel_va d' = kernel_va d \<and>
        (if rc = None then on c' = (on c)(i := True) else c' = c)) (create d c)"
    and remove_good: "ok c \<Longrightarrow> window_at (window_num d) i \<Longrightarrow>
      good (\<lambda>(d', c'). ok c' \<and> d' = d\<lparr>window_enabled := 0\<rparr> \<and> on c' = (on c)(i := False)) (remove d c)"
begin

lemma create_remove:
  assumes "ok c" "window_at (window_num d) i" "\<not> on c i"
  shows "good (\<lambda>(rc, d', c'). good (\<lambda>(d'', c''). ok c'' \<and> on c'' = on c) (if rc = None then remove d' c' else Inr (d', c'))) (create d c)"
proof (rule good_mono [OF create_good [OF assms]])
  fix x :: "errno option \<times> vme_mapping \<times> 'c"
  assume x: "case x of (rc, d', c') \<Rightarrow> ok c' \<and> window_num d' = window_num d \<and> kernel_va d' = kernel_va d \<and>
      (if rc = None then on c' = (on c)(i := True) else c' = c)"
  obtain rc d' c' where e: "x = (rc, d', c')" by (cases x)
  have off: "(on c)(i := True, i := False) = on c" using assms(3) by (simp add: fun_eq_iff)
  show "case x of (rc, d', c') \<Rightarrow> good (\<lambda>(d'', c''). ok c'' \<and> on c'' = on c) (if rc = None then remove d' c' else Inr (d', c'))"
  proof (cases "rc = None")
    case True
    then have "good (\<lambda>(d'', c''). ok c'' \<and> d'' = d'\<lparr>window_enabled := 0\<rparr> \<and> on c'' = (on c')(i := False)) (remove d' c')"
      using x e assms(2) by (intro remove_good) auto
    then show ?thesis using True x e off by (auto elim!: good_mono)
  next
    case False
    with x e have "ok c'" "c' = c" by auto
    with False e show ?thesis by auto
  qed
qed

end

lemma align_window_frame [simp]:
  "window_num (align_window d) = window_num d" "kernel_va (align_window d) = kernel_va d" "pci_addrl (align_window d) = pci_addrl d"
  by (simp_all add: align_window_def)

lemma tsi148_create_good:
  assumes "chip_ok c" "window_at (window_num d) i" "\<not> window_on c i"
  shows "good (\<lambda>(rc, d', c'). chip_ok c' \<and>
     (if rc = None then d' = (align_window d)\<lparr>window_enabled := 1\<rparr> \<and> pci_addrl d AND 0xffff = 0 \<and>
         window_on c' = (window_on c)(i := True) \<and>
         (\<exists>a. tsi148_setup_window_attributes (v2esst_mode d) (data_width d) (D_am d) = Some a \<and>
              otrans c' = (otrans c)[i := window_trans (align_window d) a])
      else c' = c \<and> d' = align_window d)) (tsi148_create_window d c)"
proof -
  have same: "v2esst_mode (align_window d) = v2esst_mode d" "data_width (align_window d) = data_width d" "D_am (align_window d) = D_am d"
    by (simp_all add: align_window_def)
  show ?thesis
  proof (cases "pci_addrl d AND 0xffff = 0")
    case True
    show ?thesis
    proof (cases "tsi148_setup_window_attributes (v2esst_mode d) (data_width d) (D_am d)")
      case (Some a)
      have at: "window_at (window_num (align_window d)) i" using assms(2) by simp
      obtain c' where "ot_writes (window_num d) (window_regs (align_window d) a) c = Inr c'" "chip_ok c'"
        "otrans c' = (otrans c)[i := window_trans (align_window d) a]" "window_on c' = (window_on c)(i := True)"
        using create_writes [OF assms(1) at assms(3), of a] by auto
      then show ?thesis using True Some by (simp add: tsi148_create_window_def same)
    qed (simp add: tsi148_create_window_def same True assms(1))
  qed (simp add: tsi148_create_window_def assms(1))
qed

lemma tsi148_remove_good:
  assumes "chip_ok c" "window_at (window_num d) i"
  shows "good (\<lambda>(d', c'). chip_ok c' \<and> d' = d\<lparr>window_enabled := 0\<rparr> \<and> window_on c' = (window_on c)(i := False) \<and>
     otrans c' = (otrans c)[i := zero_otrans]) (tsi148_remove_window d c)"
  using wipe_writes [OF assms] by (fastforce simp: tsi148_remove_window_def)

interpretation tsi148: outbound_windows chip_ok window_on tsi148_create_window tsi148_remove_window
proof
  show "good (\<lambda>(rc, d', c'). chip_ok c' \<and> window_num d' = window_num d \<and> kernel_va d' = kernel_va d \<and>
      (if rc = None then window_on c' = (window_on c)(i := True) else c' = c)) (tsi148_create_window d c)"
    if "chip_ok c" "window_at (window_num d) i" "\<not> window_on c i" for c d i
    using tsi148_create_good [OF that] by (auto elim!: good_mono split: if_splits)
  show "good (\<lambda>(d', c'). chip_ok c' \<and> d' = d\<lparr>window_enabled := 0\<rparr> \<and> window_on c' = (window_on c)(i := False)) (tsi148_remove_window d c)"
    if "chip_ok c" "window_at (window_num d) i" for c d i
    using tsi148_remove_good [OF that] by (auto elim!: good_mono)
qed

section \<open>Reading back\<close>

text \<open>
  A window as the chip translates it: when it is enabled, an address whose 64K block lies
  between the start and the end block of the window goes to the VME bus at the offset, with the
  address modifier of the attributes.
\<close>

definition bus_cycle :: "tsi148_otrans \<Rightarrow> u32 \<Rightarrow> (u32 \<times> u32) option" where
  "bus_cycle t a =
     (if otat t AND TSI148_LCSR_OTAT_EN \<noteq> 0 \<and> otsal t \<le> a AND NOT 0xffff \<and> a AND NOT 0xffff \<le> oteal t
      then Some (a + otofl t, otat_am (otat t)) else None)"

lemma window_ends:
  assumes "pci_addrl d AND 0xffff = 0" "sizel d AND 0xffff = 0" "unat (pci_addrl d) + unat (sizel d) \<le> 2 ^ 32"
    "unat (pci_addrl d) = 65536 * p" "unat (sizel d) = 65536 * q" "0 < q"
  shows "otsal (window_trans d a) = pci_addrl d" "unat (oteal (window_trans d a)) = 65536 * (p + (q - 1))"
proof -
  have s: "TSI148_LCSR_OTSAL_M = NOT 0xffff" by (simp add: TSI148_LCSR_OTSAL_M_def)
  show "otsal (window_trans d a) = pci_addrl d" using high16_id [OF assms(1)] by (simp add: window_trans_def s)
  have "unat (sizel d - 0x10000) = 65536 * (q - 1)" 
  proof -
    have "0x10000 \<le> sizel d" using assms(5,6) by (simp add: word_le_nat_alt)
    then have "unat (sizel d - 0x10000) = unat (sizel d) - 65536" by (simp add: unat_sub)
    then show ?thesis using assms(5,6) by (simp add: algebra_simps)
  qed
  note last64k = this
  have "unat (pci_addrl d) + unat (sizel d - 0x10000) < 2 ^ LENGTH(32)"
    using assms(3,5,6) last64k by simp
  then have "unat (pci_addrl d + (sizel d - 0x10000)) = unat (pci_addrl d) + unat (sizel d - 0x10000)"
    by (rule unat_add_lem [THEN iffD1])
  then have "unat (pci_addrl d + (sizel d - 0x10000)) = 65536 * (p + (q - 1))"
    using assms(4) last64k by (simp only: distrib_left)
  moreover have "oteal (window_trans d a) = pci_addrl d + (sizel d - 0x10000)"
    using last64 [OF aligned_add [OF assms(1,2)]] by (simp add: window_trans_def)
  ultimately show "unat (oteal (window_trans d a)) = 65536 * (p + (q - 1))" by simp
qed

lemma bus_cycle_inside:
  assumes "tsi148_setup_window_attributes sst dw m = Some a" "pci_addrl d AND 0xffff = 0" "sizel d AND 0xffff = 0"
    "unat (pci_addrl d) + unat (sizel d) \<le> 2 ^ 32" "unat j < unat (sizel d)"
  shows "bus_cycle (window_trans d a) (pci_addrl d + j) = Some (vme_addrl d + j, m)"
proof -
  obtain p where p: "unat (pci_addrl d) = 65536 * p" using assms(2) by (auto simp: aligned_iff elim: dvdE)
  obtain q where q: "unat (sizel d) = 65536 * q" using assms(3) by (auto simp: aligned_iff elim: dvdE)
  have n0: "0 < q" using assms(5) q by auto
  define x where "x = pci_addrl d + j"
  have x: "unat x = 65536 * p + unat j" using assms(4,5) p unfolding x_def by (subst unat_add_lem [THEN iffD1]) auto
  have h: "unat (x AND NOT 0xffff) = 65536 * p + (unat j - unat j mod 65536)"
    unfolding high16 x by (simp add: mod_mult_self4 add.commute) 
  note ends = window_ends [OF assms(2-4) p q n0, of a]
  have "unat j div 65536 < q" using assms(5) q by (simp add: less_mult_imp_div_less mult.commute)
  then have "unat j - unat j mod 65536 \<le> 65536 * (q - 1)"
    using n0 by (simp add: minus_mod_eq_mult_div)
  then have "x AND NOT 0xffff \<le> oteal (window_trans d a)" using h ends(2) by (simp add: word_le_nat_alt algebra_simps)
  moreover have "pci_addrl d \<le> x AND NOT 0xffff" using h p by (simp add: word_le_nat_alt)
  ultimately show ?thesis
    using ends(1) otat_am_setup [OF assms(1), of d] by (simp add: bus_cycle_def x_def) (simp add: window_trans_def)
qed

text \<open>The first block after the window is not translated, even when it wraps around.\<close>

lemma bus_cycle_beyond:
  assumes "pci_addrl d AND 0xffff = 0" "sizel d AND 0xffff = 0" "sizel d \<noteq> 0"
    "unat (pci_addrl d) + unat (sizel d) \<le> 2 ^ 32" "unat (sizel d) \<le> unat j" "unat j < unat (sizel d) + 65536"
  shows "bus_cycle (window_trans d a) (pci_addrl d + j) = None"
proof -
  obtain p where p: "unat (pci_addrl d) = 65536 * p" using assms(1) by (auto simp: aligned_iff elim: dvdE)
  obtain q where q: "unat (sizel d) = 65536 * q" using assms(2) by (auto simp: aligned_iff elim: dvdE)
  have n0: "0 < q" using assms(3) q by (metis gr0I mult_0_right unat_eq_zero)
  note ends = window_ends [OF assms(1,2,4) p q n0, of a]
  define x where "x = pci_addrl d + j"
  have jj: "65536 * q \<le> unat j" "unat j < 65536 * q + 65536" using assms(5,6) q by auto
  have "\<not> (pci_addrl d \<le> x AND NOT 0xffff \<and> x AND NOT 0xffff \<le> oteal (window_trans d a))"
  proof (cases "unat (pci_addrl d) + unat j < 2 ^ 32")
    case True
    then have x: "unat x = 65536 * p + unat j" using p unfolding x_def by (subst unat_add_lem [THEN iffD1]) auto
    have "unat (x AND NOT 0xffff) = 65536 * p + (unat j - unat j mod 65536)"
      unfolding high16 x by (simp add: mod_mult_self4 add.commute)
    moreover have "unat j div 65536 = q" using jj by (intro div_nat_eqI) (auto simp: mult.commute)
    ultimately have "unat (x AND NOT 0xffff) = 65536 * (p + q)" by (simp add: minus_mod_eq_mult_div algebra_simps)
    moreover have "65536 * (p + (q - 1)) < 65536 * (p + q)" using n0 by simp
    ultimately have "\<not> x AND NOT 0xffff \<le> oteal (window_trans d a)" using ends(2) by (simp only: word_le_nat_alt not_le)
    then show ?thesis by blast
  next
    case False
    moreover have "unat (pci_addrl d) + unat j < 2 ^ 32 + 65536" using assms(4,6) by simp
    moreover have "unat x = (unat (pci_addrl d) + unat j) mod 2 ^ 32" by (simp add: x_def unat_word_ariths)
    ultimately have "unat x < 65536" using False by (auto simp: mod_if split: if_splits)
    then have "x AND NOT 0xffff = 0" by (intro unat_eqI) (simp only: high16, simp)
    moreover have "pci_addrl d \<noteq> 0"
    proof
      assume "pci_addrl d = 0"
      then show False using False unsigned_less [of j, where ?'a = nat] by simp
    qed
    ultimately show ?thesis by (simp add: word_le_nat_alt unat_eq_zero)
  qed
  then show ?thesis using ends(1) by (auto simp: bus_cycle_def x_def)
qed

text \<open>What \<^verbatim>\<open>tsi148_get_window_attr\<close> reads of a window that was created with the descriptor \<open>d\<close>.\<close>

definition attr_read :: "vme_mapping \<Rightarrow> vme_mapping \<Rightarrow> vme_mapping" where
  "attr_read d x =
     x\<lparr>window_enabled := 1, read_prefetch_enabled := (if read_prefetch_enabled d \<noteq> 0 then 1 else read_prefetch_enabled x),
       read_prefetch_size := (if read_prefetch_enabled d \<noteq> 0 then read_prefetch_size d AND 3 else 0),
       v2esst_mode := v2esst_mode d, data_width := (if data_width d = VME_D16 then VME_D16 else data_width x),
       bcast_select := bcast_select d AND TSI148_LCSR_OTBS_M, D_am := D_am d, pci_addrl := pci_addrl d, pci_addru := pci_addru d,
       sizel := sizel d - 0x10000,
       sizeu := sub64hi (pci_addrl d + sizel d - 0x10000) (add64hi (pci_addrl d) (pci_addru d) (sizel d) (sizeu d)) (pci_addrl d) (pci_addru d),
       vme_addrl := vme_addrl d,
       vme_addru := (if D_am d \<in> {VME_A64_SCT, VME_A64_BLT, VME_A64_MBLT} then vme_addru d else 0)\<rparr>"

lemma add_sub64: "add64hi (a - b) (sub64hi a c b e) b e = c"
  by (auto simp: add64hi_def sub64hi_def word_less_nat_alt)

lemma A64_rows:
  assumes "am_to_attr m = Some (as, t, u, d)"
  shows "as = TSI148_A64 \<longleftrightarrow> m \<in> {VME_A64_SCT, VME_A64_BLT, VME_A64_MBLT}"
proof -
  have "list_all (\<lambda>(m, as, t, u, d). as = TSI148_A64 \<longleftrightarrow> m \<in> {VME_A64_SCT, VME_A64_BLT, VME_A64_MBLT}) am_attrs"
    by code_simp
  moreover have "(m, as, t, u, d) \<in> set am_attrs" using assms by (simp add: am_to_attr_def map_of_SomeD)
  ultimately show ?thesis by (auto simp: list_all_iff)
qed

lemma get_window_attr_read:
  assumes "tsi148_setup_window_attributes (v2esst_mode d) (data_width d) (D_am d) = Some a"
    "pci_addrl d AND 0xffff = 0" "sizel d AND 0xffff = 0" "window_at (window_num x) i" "chip_ok c" "otrans c ! i = window_trans d a"
  shows "tsi148_get_window_attr x c = Inr (attr_read d x)"
proof -
  have g: "arr_get (otrans c) (sint (window_num x)) = Inr (window_trans d a)"
    using assms(4-6) by (simp add: window_at_def chip_ok_def)
  obtain as t u dd where r: "am_to_attr (D_am d) = Some (as, t, u, dd)"
    "a AND TSI148_LCSR_OTAT_AMODE_M = as" 
    "drop_bit TSI148_LCSR_OTAT_2eSSTM_SHIFT (a AND TSI148_LCSR_OTAT_2eSSTM_M) = v2esst_mode d"
    "drop_bit TSI148_LCSR_OTAT_DBW_SHIFT (a AND TSI148_LCSR_OTAT_DBW_M) = (if data_width d = VME_D16 then TSI148_DW_16 else TSI148_DW_32)"
    "a AND TSI148_LCSR_OTAT_PFS_M = 0"
    using assms(1) by (rule setup_fields)
  have s: "TSI148_LCSR_OTSAL_M = NOT 0xffff" by (simp add: TSI148_LCSR_OTSAL_M_def)
  have f: "otat (window_trans d a) = window_otat d a" "otsal (window_trans d a) = pci_addrl d" 
    "oteal (window_trans d a) = pci_addrl d + sizel d - 0x10000" "otofl (window_trans d a) = vme_addrl d - pci_addrl d"
    "otbs (window_trans d a) = bcast_select d AND TSI148_LCSR_OTBS_M" "otsau (window_trans d a) = pci_addru d"
    "oteau (window_trans d a) = add64hi (pci_addrl d) (pci_addru d) (sizel d) (sizeu d)"
    "otofu (window_trans d a) = sub64hi (vme_addrl d) (vme_addru d) (pci_addrl d) (pci_addru d)"
    using high16_id [OF assms(2)] last64 [OF aligned_add [OF assms(2,3)]] by (simp_all add: window_trans_def s)
  have am: "attr_to_am (drop_bit TSI148_LCSR_OTAT_AMODE_SHIFT (window_otat d a AND TSI148_LCSR_OTAT_AMODE_M))
       (drop_bit TSI148_LCSR_OTAT_TM_SHIFT (window_otat d a AND TSI148_LCSR_OTAT_TM_M))
       (if window_otat d a AND TSI148_LCSR_OTAT_SUP \<noteq> 0 then TSI148_SUPER else TSI148_USER)
       (if window_otat d a AND TSI148_LCSR_OTAT_PGM \<noteq> 0 then TSI148_PROG else TSI148_DATA) (- 1) = D_am d"
    using otat_am_setup [OF assms(1), of d] by (simp only: otat_am_def)
  have as: "drop_bit TSI148_LCSR_OTAT_AMODE_SHIFT (window_otat d a AND TSI148_LCSR_OTAT_AMODE_M) = as"
    using r(2) by (simp add: window_otat_fields TSI148_LCSR_OTAT_AMODE_SHIFT_def)
  have dw: "TSI148_DW_16 = TSI148_LCSR_OTAT_DBW_16" "TSI148_DW_32 \<noteq> TSI148_LCSR_OTAT_DBW_16" "TSI148_DW_32 \<noteq> TSI148_LCSR_OTAT_DBW_32"
    by (simp_all add: tsi_consts otat_consts)
  have mr: "TSI148_LCSR_OTAT_MRPFD \<noteq> 0" by (simp add: otat_consts)
  show ?thesis
    unfolding tsi148_get_window_attr_def g bind_r_simps Let_def f am
    using window_otat_prefetch(2) [OF r(5), of d] r(3,4) as A64_rows [OF r(1)] dw mr add_sub64
    by (simp add: attr_read_def window_otat_prefetch(1) window_otat_fields algebra_simps del: insert_iff)
qed

end
