(* ===== verification/Vme_Window.thy ===== *)
theory Vme_Window
  imports Vme_Chip
begin

text \<open>
  The window manager of the VME bridge driver (vmebridge/driver/vme_window.c) and the CES
  emulation on top of it (vme_cesif.c): the table of hardware windows with their logical
  mappings, every entry point that changes it, the file operations, and the bus error check of
  vme_misc.c that two ioctls call. What the kernel answers during a call (signals while waiting
  for a mutex, allocations, copies from and to the user) is an input. Locks held, live I/O
  mappings, claimed bus regions and the pages given to user space are part of the state, so that
  their balance can be stated. A C pointer is a 32-bit address with NULL as 0, an open file is
  numbered, and NULL, the kernel itself, is \<open>None\<close>.
\<close>

section \<open>State\<close>

type_synonym fileptr = "nat option"

record mapping =
  Mp_desc :: vme_mapping
  Mp_pid :: i32
  Mp_name :: string
  Mp_file :: fileptr

record resource =
  rsrc_name :: "string option"
  rsrc_start :: u32
  rsrc_end :: u32
  rsrc_mem :: bool

definition zero_resource :: resource where
  "zero_resource = \<lparr>rsrc_name = None, rsrc_start = 0, rsrc_end = 0, rsrc_mem = False\<rparr>"

record window =
  W_active :: bool
  W_rsrc :: resource
  W_desc :: vme_mapping
  W_mappings :: "mapping list"
  W_users :: int

definition zero_window :: window where
  "zero_window = \<lparr>W_active = False, W_rsrc = zero_resource, W_desc = zero_mapping, W_mappings = [], W_users = 0\<rparr>"

record vme_bus_error =
  err_address :: "64 word"
  err_am :: u32

record vme_state =
  window_table :: "window list"
  vme_create_on_find_fail :: u32
  vme_destroy_on_remove :: u32
  V_chip :: tsi148_chip
  V_veat :: u32
  verr_valid :: bool
  verr_error :: vme_bus_error
  held :: "nat list"                 \<comment> \<open>windows whose mutex the caller holds\<close>
  waits :: nat                       \<comment> \<open>interruptible waits so far\<close>
  unlocked :: "nat list"             \<comment> \<open>windows whose mappings were changed without their mutex\<close>
  iomaps :: "u32 list"               \<comment> \<open>addresses mapped by \<^verbatim>\<open>ioremap\<close> and not unmapped\<close>
  regions :: "u32 list"              \<comment> \<open>bus regions allocated and not released\<close>
  user_maps :: "(fileptr \<times> u32 \<times> u32) list" \<comment> \<open>pages mapped to user space: file, address, size\<close>

record vkernel =
  signalled :: "nat \<Rightarrow> bool"
  kzalloc_ok :: bool
  desc_alloc_ok :: bool
  kmalloc_ok :: bool
  bus_alloc :: "u32 \<Rightarrow> errno + u32"
  ioremap :: "u32 \<Rightarrow> u32 \<Rightarrow> u32"
  cur_pid :: i32
  cur_comm :: string
  copy_in :: bool
  copy_out :: bool
  remap_rc :: "errno option"

type_synonym 'a vop = "vme_state \<Rightarrow> ('a \<times> vme_state) result"

definition in_table :: "i32 \<Rightarrow> bool" where
  "in_table n \<longleftrightarrow> 0 \<le> sint n \<and> sint n < int TSI148_NUM_OUT_WINDOWS"

definition window_index :: "i32 \<Rightarrow> nat" where
  "window_index n = nat (sint n)"

definition the_window :: "nat \<Rightarrow> vme_state \<Rightarrow> window" where
  "the_window i s = window_table s ! i"

definition upd_window :: "nat \<Rightarrow> (window \<Rightarrow> window) \<Rightarrow> vme_state \<Rightarrow> vme_state" where
  "upd_window i f s = s\<lparr>window_table := (window_table s)[i := f (window_table s ! i)]\<rparr>"

section \<open>Mutexes\<close>

definition mutex_lock_interruptible :: "vkernel \<Rightarrow> nat \<Rightarrow> bool vop" where
  "mutex_lock_interruptible k i s =
     (if i \<in> set (held s) then Inl Bad_lock
      else if signalled k (waits s) then Inr (False, s\<lparr>waits := Suc (waits s)\<rparr>)
      else Inr (True, s\<lparr>waits := Suc (waits s), held := i # held s\<rparr>))"

definition mutex_unlock :: "nat \<Rightarrow> vme_state \<Rightarrow> vme_state result" where
  "mutex_unlock i s = (if i \<in> set (held s) then Inr (s\<lparr>held := remove1 i (held s)\<rparr>) else Inl Bad_lock)"

text \<open>The body of a function between its lock and its \<^verbatim>\<open>out_unlock\<close>; \<open>r\<close> is returned on a signal.\<close>

definition with_mutex :: "vkernel \<Rightarrow> nat \<Rightarrow> 'a \<Rightarrow> 'a vop \<Rightarrow> 'a vop" where
  "with_mutex k i r f s =
     bind_r (mutex_lock_interruptible k i s) (\<lambda>(ok, s1).
       if \<not> ok then Inr (r, s1)
       else bind_r (f s1) (\<lambda>(x, s2). bind_r (mutex_unlock i s2) (\<lambda>s3. Inr (x, s3))))"

section \<open>Mappings of a window\<close>

fun drop_owned :: "fileptr \<Rightarrow> mapping list \<Rightarrow> int \<Rightarrow> mapping list \<times> int" where
  "drop_owned fp [] u = ([], u)"
| "drop_owned fp (m # ms) u =
     (if Mp_file m = fp then drop_owned fp ms (u - 1)
      else (let (r, u') = drop_owned fp ms u in (m # r, u')))"

definition release_in :: "fileptr \<Rightarrow> nat \<Rightarrow> vme_state \<Rightarrow> vme_state" where
  "release_in fp i s =
     (let w = the_window i s in
      if \<not> W_active w \<or> W_mappings w = [] then s
      else let (ms, u) = drop_owned fp (W_mappings w) (W_users w)
           in upd_window i (\<lambda>w. w\<lparr>W_mappings := ms, W_users := u\<rparr>) s)"

fun release_loop :: "vkernel \<Rightarrow> fileptr \<Rightarrow> nat list \<Rightarrow> errno option vop" where
  "release_loop k fp [] s = Inr (None, s)"
| "release_loop k fp (i # ks) s =
     bind_r (mutex_lock_interruptible k i s) (\<lambda>(ok, s1).
       if \<not> ok then Inr (Some ERESTARTSYS, s1)
       else bind_r (mutex_unlock i (release_in fp i s1)) (release_loop k fp ks))"

definition vme_window_release :: "vkernel \<Rightarrow> fileptr \<Rightarrow> errno option vop" where
  "vme_window_release k fp = release_loop k fp [0 ..< TSI148_NUM_OUT_WINDOWS]"

definition new_mapping :: "vkernel \<Rightarrow> vme_mapping \<Rightarrow> fileptr \<Rightarrow> mapping" where
  "new_mapping k d fp =
     (if fp \<noteq> None then \<lparr>Mp_desc = d, Mp_pid = cur_pid k, Mp_name = cur_comm k, Mp_file = fp\<rparr>
      else \<lparr>Mp_desc = d, Mp_pid = 0, Mp_name = ''kernel'', Mp_file = None\<rparr>)"

definition note_access :: "nat \<Rightarrow> vme_state \<Rightarrow> vme_state" where
  "note_access i s = (if i \<in> set (held s) then s else s\<lparr>unlocked := unlocked s @ [i]\<rparr>)"

definition add_mapping :: "vkernel \<Rightarrow> nat \<Rightarrow> vme_mapping \<Rightarrow> fileptr \<Rightarrow> vme_state \<Rightarrow> errno option \<times> vme_state" where
  "add_mapping k i d fp s =
     (if \<not> kzalloc_ok k then (Some ENOMEM, s)
      else (None, upd_window i (\<lambda>w. w\<lparr>W_mappings := W_mappings w @ [new_mapping k d fp], W_users := W_users w + 1\<rparr>)
                    (note_access i s)))"

definition same_mapping :: "vme_mapping \<Rightarrow> fileptr \<Rightarrow> mapping \<Rightarrow> bool" where
  "same_mapping d fp m \<longleftrightarrow>
     vme_addru (Mp_desc m) = vme_addru d \<and> vme_addrl (Mp_desc m) = vme_addrl d \<and>
     sizeu (Mp_desc m) = sizeu d \<and> sizel (Mp_desc m) = sizel d \<and> kernel_va (Mp_desc m) = kernel_va d \<and>
     (fp = None \<or> Mp_file m = fp)"

fun drop_first :: "('a \<Rightarrow> bool) \<Rightarrow> 'a list \<Rightarrow> 'a list option" where
  "drop_first P [] = None"
| "drop_first P (x # xs) = (if P x then Some xs else map_option ((#) x) (drop_first P xs))"

definition remove_mapping :: "nat \<Rightarrow> vme_mapping \<Rightarrow> fileptr \<Rightarrow> vme_state \<Rightarrow> errno option \<times> vme_state" where
  "remove_mapping i d fp s =
     (case drop_first (same_mapping d fp) (W_mappings (the_window i s)) of
        None \<Rightarrow> (Some EINVAL, s)
      | Some ms \<Rightarrow> (None, upd_window i (\<lambda>w. w\<lparr>W_mappings := ms, W_users := W_users w - 1\<rparr>) (note_access i s)))"

fun addr_loop :: "vkernel \<Rightarrow> u32 \<Rightarrow> nat list \<Rightarrow> vme_mapping option vop" where
  "addr_loop k logaddr [] s = Inr (None, s)"
| "addr_loop k logaddr (i # ks) s =
     bind_r (mutex_lock_interruptible k i s) (\<lambda>(ok, s1).
       if \<not> ok then Inr (None, s1)
       else bind_r (mutex_unlock i s1) (\<lambda>s2.
         case find (\<lambda>m. kernel_va (Mp_desc m) = logaddr) (W_mappings (the_window i s1)) of
           Some m \<Rightarrow> Inr (Some (Mp_desc m), s2)
         | None \<Rightarrow> addr_loop k logaddr ks s2))"

definition find_vme_mapping_from_addr :: "vkernel \<Rightarrow> u32 \<Rightarrow> vme_mapping option vop" where
  "find_vme_mapping_from_addr k logaddr = addr_loop k logaddr [0 ..< TSI148_NUM_OUT_WINDOWS]"

section \<open>Windows\<close>

definition vme_get_window_attr :: "vkernel \<Rightarrow> vme_mapping \<Rightarrow> (errno option \<times> vme_mapping) vop" where
  "vme_get_window_attr k d s =
     (if \<not> in_table (window_num d) then Inr ((Some EINVAL, d), s)
      else let i = window_index (window_num d) in
        with_mutex k i (Some ERESTARTSYS, d) (\<lambda>s1.
          bind_r (tsi148_get_window_attr (W_desc (the_window i s1)) (V_chip s1)) (\<lambda>d1.
            Inr ((None, d1), s1))) s)"

text \<open>Rounding of the requested window to 64K, as the code computes it.\<close>

definition round_window :: "vme_mapping \<Rightarrow> vme_mapping" where
  "round_window d =
     (let d1 = (if vme_addrl d AND 0xffff \<noteq> 0
                then (let lowaddr = vme_addrl d AND NOT 0xffff; d' = d\<lparr>vme_addrl := lowaddr\<rparr>
                      in d'\<lparr>sizel := sizel d' + (vme_addrl d' - lowaddr)\<rparr>)
                else d)
      in if sizel d1 AND 0xffff \<noteq> 0 then d1\<lparr>sizel := (sizel d1 + 0x10000) AND NOT 0xffff\<rparr> else d1)"

definition release_resource :: "u32 \<Rightarrow> vme_state \<Rightarrow> vme_state" where
  "release_resource start s = s\<lparr>regions := remove1 start (regions s)\<rparr>"

definition iounmap :: "u32 \<Rightarrow> vme_state \<Rightarrow> vme_state" where
  "iounmap va s = s\<lparr>iomaps := remove1 va (iomaps s)\<rparr>"

definition clear_rsrc :: "nat \<Rightarrow> vme_state \<Rightarrow> vme_state" where
  "clear_rsrc i = upd_window i (\<lambda>w. w\<lparr>W_rsrc := zero_resource\<rparr>)"

definition window_resource :: "vkernel \<Rightarrow> nat \<Rightarrow> u32 \<Rightarrow> u32 \<Rightarrow> resource" where
  "window_resource k i start end_addr =
     \<lparr>rsrc_name = (if kmalloc_ok k then Some (''VME Window '' @ fmt_d (of_nat i)) else None),
      rsrc_start = start, rsrc_end = end_addr, rsrc_mem = True\<rparr>"

text \<open>The code after the checks, with the window's mutex held.\<close>

definition create_locked :: "vkernel \<Rightarrow> nat \<Rightarrow> vme_mapping \<Rightarrow> (errno option \<times> vme_mapping) vop" where
  "create_locked k i d s =
     (if W_active (the_window i s) then Inr ((Some EBUSY, d), s)
      else let s1 = upd_window i (\<lambda>w. w\<lparr>W_rsrc := window_resource k i 0 (sizel d)\<rparr>) s in
      case bus_alloc k (sizel d) of
        Inl e \<Rightarrow> Inr ((Some e, d), clear_rsrc i s1)
      | Inr start \<Rightarrow>
          (let s2 = (upd_window i (\<lambda>w. w\<lparr>W_rsrc := window_resource k i start (start + sizel d - 1)\<rparr>) s1)
                      \<lparr>regions := start # regions s\<rparr>;
               va = ioremap k start (sizel d);
               d1 = d\<lparr>kernel_va := va\<rparr>
           in if va = 0 then Inr ((Some ENOMEM, d1), clear_rsrc i (release_resource start s2))
           else let s3 = s2\<lparr>iomaps := va # iomaps s\<rparr> in
             bind_r (tsi148_create_window (d1\<lparr>pci_addrl := start\<rparr>) (V_chip s3)) (\<lambda>(rc, d2, c).
               if rc \<noteq> None
               then Inr ((rc, d2), clear_rsrc i (release_resource start (iounmap (kernel_va d2) (s3\<lparr>V_chip := c\<rparr>))))
               else Inr ((None, d2), upd_window i (\<lambda>w. w\<lparr>W_desc := d2, W_active := True\<rparr>) (s3\<lparr>V_chip := c\<rparr>)))))"

definition vme_create_window :: "vkernel \<Rightarrow> vme_mapping \<Rightarrow> (errno option \<times> vme_mapping) vop" where
  "vme_create_window k d s =
     (if \<not> in_table (window_num d) then Inr ((Some EINVAL, d), s)
      else if sizel d = 0 then Inr ((Some EINVAL, d), s)
      else let d1 = round_window d; i = window_index (window_num d)
           in with_mutex k i (Some ERESTARTSYS, d1) (create_locked k i d1) s)"

definition destroy_locked :: "nat \<Rightarrow> errno option vop" where
  "destroy_locked i s =
     (let w = the_window i s in
      if \<not> W_active w then Inr (Some EINVAL, s)
      else let w1 = (if W_users w > 0
                     then w\<lparr>W_mappings := [], W_users := W_users w - int (length (W_mappings w))\<rparr> else w);
               s1 = iounmap (kernel_va (W_desc w)) (upd_window i (\<lambda>_. w1\<lparr>W_active := False\<rparr>) s)
           in bind_r (tsi148_remove_window ((W_desc w)\<lparr>kernel_va := 0\<rparr>) (V_chip s1)) (\<lambda>(d, c).
                Inr (None, clear_rsrc i (release_resource (rsrc_start (W_rsrc w))
                             (upd_window i (\<lambda>w. w\<lparr>W_desc := d\<rparr>) (s1\<lparr>V_chip := c\<rparr>))))))"

definition vme_destroy_window :: "vkernel \<Rightarrow> i32 \<Rightarrow> errno option vop" where
  "vme_destroy_window k n s =
     (if \<not> in_table n then Inr (Some EINVAL, s)
      else with_mutex k (window_index n) (Some ERESTARTSYS) (destroy_locked (window_index n)) s)"

section \<open>Finding and releasing mappings\<close>

definition A16_modifiers :: "u32 list" where
  "A16_modifiers = [VME_A16_USER, VME_A16_LCK, VME_A16_SUP]"

definition A24_modifiers :: "u32 list" where
  "A24_modifiers =
     [VME_A24_USER_MBLT, VME_A24_USER_DATA_SCT, VME_A24_USER_PRG_SCT, VME_A24_USER_BLT,
      VME_A24_SUP_MBLT, VME_A24_SUP_DATA_SCT, VME_A24_SUP_PRG_SCT, VME_A24_SUP_BLT]"

definition A32_modifiers :: "u32 list" where
  "A32_modifiers =
     [VME_A32_LCK, VME_A32_USER_MBLT, VME_A32_USER_DATA_SCT, VME_A32_USER_PRG_SCT, VME_A32_USER_BLT,
      VME_A32_SUP_MBLT, VME_A32_SUP_DATA_SCT, VME_A32_SUP_PRG_SCT, VME_A32_SUP_BLT]"

definition A40_modifiers :: "u32 list" where
  "A40_modifiers = [VME_A40_SCT, VME_A40_LCK, VME_A40_BLT]"

definition vme_optimize_window_size :: "vme_mapping \<Rightarrow> vme_mapping" where
  "vme_optimize_window_size d =
     (let resize = (if D_am d \<in> set A24_modifiers then 0x1000000
                    else if D_am d \<in> set A16_modifiers then 0x10000 else 0)
      in if resize = 0 then d else d\<lparr>sizeu := 0, sizel := resize, vme_addru := 0, vme_addrl := 0\<rparr>)"

text \<open>True when the address is in the range of its address modifier.\<close>

definition vme_mapping_sanity_check :: "vme_mapping \<Rightarrow> bool" where
  "vme_mapping_sanity_check d =
     (if D_am d \<in> set A16_modifiers then vme_addru d = 0 \<and> vme_addrl d AND NOT 0xffff = 0
      else if D_am d \<in> set A24_modifiers then vme_addru d = 0 \<and> vme_addrl d AND NOT 0xffffff = 0
      else if D_am d \<in> set A32_modifiers then vme_addru d = 0
      else if D_am d \<in> set A40_modifiers then vme_addru d AND NOT 0xff = 0
      else True)"

definition window_matches :: "window \<Rightarrow> vme_mapping \<Rightarrow> bool" where
  "window_matches w m \<longleftrightarrow>
     W_active w \<and> window_enabled (W_desc w) \<noteq> 0 \<and>
     vme_addru (W_desc w) = 0 \<and> sizeu (W_desc w) = 0 \<and>
     D_am (W_desc w) = D_am m \<and> data_width (W_desc w) = data_width m \<and>
     \<not> (vme_addrl m < vme_addrl (W_desc w) \<or>
        vme_addrl (W_desc w) + sizel (W_desc w) < vme_addrl m + sizel m) \<and>
     \<not> (D_am (W_desc w) = VME_2e6U \<and> v2esst_mode (W_desc w) \<noteq> v2esst_mode m)"

text \<open>The request is given its addresses in the window and added to its mappings.\<close>

definition place_mapping :: "nat \<Rightarrow> vme_mapping \<Rightarrow> vme_mapping \<Rightarrow> vme_mapping" where
  "place_mapping i wd m =
     (let offset = vme_addrl m - vme_addrl wd
      in m\<lparr>kernel_va := kernel_va wd + offset, pci_addrl := pci_addrl wd + offset, window_num := of_nat i\<rparr>)"

definition attach_mapping :: "vkernel \<Rightarrow> nat \<Rightarrow> vme_mapping \<Rightarrow> fileptr \<Rightarrow> vme_state \<Rightarrow> (errno option \<times> vme_mapping) \<times> vme_state" where
  "attach_mapping k i m fp s =
     (let m' = place_mapping i (W_desc (the_window i s)) m; (rc, s1) = add_mapping k i m' fp s
      in ((rc, m'), s1))"

fun find_loop :: "vkernel \<Rightarrow> vme_mapping \<Rightarrow> fileptr \<Rightarrow> nat list \<Rightarrow> (errno option \<times> vme_mapping) option vop" where
  "find_loop k m fp [] s = Inr (None, s)"
| "find_loop k m fp (i # ks) s =
     bind_r (mutex_lock_interruptible k i s) (\<lambda>(ok, s1).
       if \<not> ok then Inr (Some (Some ERESTARTSYS, m), s1)
       else if window_matches (the_window i s1) m
       then (let (r, s2) = attach_mapping k i m fp s1
             in bind_r (mutex_unlock i s2) (\<lambda>s3. Inr (Some r, s3)))
       else bind_r (mutex_unlock i s1) (find_loop k m fp ks))"

definition unused_window :: "vme_state \<Rightarrow> nat option" where
  "unused_window s = find (\<lambda>i. \<not> W_active (the_window i s)) [0 ..< TSI148_NUM_OUT_WINDOWS]"

definition do_vme_find_mapping :: "vkernel \<Rightarrow> vme_mapping \<Rightarrow> u32 \<Rightarrow> fileptr \<Rightarrow> (errno option \<times> vme_mapping) vop" where
  "do_vme_find_mapping k m force fp s =
     (if \<not> vme_mapping_sanity_check m then Inr ((Some EINVAL, m), s)
      else bind_r (find_loop k m fp [0 ..< TSI148_NUM_OUT_WINDOWS] s) (\<lambda>(r, s1).
        case r of
          Some x \<Rightarrow> Inr (x, s1)
        | None \<Rightarrow>
            if force = 0 then Inr ((Some EBUSY, m), s1)
            else case unused_window s1 of
              None \<Rightarrow> Inr ((Some EBUSY, m), s1)
            | Some i \<Rightarrow>
                bind_r (vme_create_window k (vme_optimize_window_size (m\<lparr>window_num := of_nat i\<rparr>)) s1) (\<lambda>((rc, wnd), s2).
                  if rc \<noteq> None then Inr ((rc, m), s2)
                  else Inr (attach_mapping k (window_index (window_num wnd)) m fp s2))))"

definition release_locked :: "nat \<Rightarrow> vme_mapping \<Rightarrow> u32 \<Rightarrow> fileptr \<Rightarrow> (errno option \<times> bool) vop" where
  "release_locked i d force fp s =
     (if \<not> W_active (the_window i s) then Inr ((Some EINVAL, False), s)
      else let (rc, s1) = remove_mapping i d fp s
           in Inr ((rc, rc = None \<and> W_users (the_window i s1) = 0 \<and> force \<noteq> 0), s1))"

text \<open>The mutex is given up before the last mapping's window is destroyed.\<close>

definition do_vme_release_mapping :: "vkernel \<Rightarrow> vme_mapping \<Rightarrow> u32 \<Rightarrow> fileptr \<Rightarrow> errno option vop" where
  "do_vme_release_mapping k d force fp s =
     (if \<not> in_table (window_num d) then Inr (Some EINVAL, s)
      else bind_r (with_mutex k (window_index (window_num d)) (Some ERESTARTSYS, False)
                     (release_locked (window_index (window_num d)) d force fp) s) (\<lambda>((rc, gone), s1).
        if gone then vme_destroy_window k (window_num d) s1 else Inr (rc, s1)))"

definition vme_find_mapping :: "vkernel \<Rightarrow> vme_mapping \<Rightarrow> u32 \<Rightarrow> (errno option \<times> vme_mapping) vop" where
  "vme_find_mapping k m force = do_vme_find_mapping k m force None"

definition vme_release_mapping :: "vkernel \<Rightarrow> vme_mapping \<Rightarrow> u32 \<Rightarrow> errno option vop" where
  "vme_release_mapping k d force = do_vme_release_mapping k d force None"

section \<open>Bus errors\<close>

definition tsi148_bus_error_chk :: "bool \<Rightarrow> vme_state \<Rightarrow> u32 \<times> vme_state" where
  "tsi148_bus_error_chk clear s =
     (if V_veat s AND TSI148_LCSR_VEAT_VES \<noteq> 0
      then (1, if clear then s\<lparr>V_veat := V_veat s AND NOT TSI148_LCSR_VEAT_VES\<rparr> else s)
      else (0, s))"

definition vme_bus_error_check_clear :: "vme_bus_error \<Rightarrow> vme_state \<Rightarrow> bool \<times> vme_state" where
  "vme_bus_error_check_clear err s =
     (if verr_valid s \<and> err_am (verr_error s) = err_am err \<and> err_address (verr_error s) = err_address err
      then (True, s\<lparr>verr_valid := False\<rparr>) else (False, s))"

section \<open>File operations\<close>

datatype vme_ioctl =
    VME_IOCTL_GET_WINDOW_ATTR vme_mapping
  | VME_IOCTL_CREATE_WINDOW vme_mapping
  | VME_IOCTL_DESTROY_WINDOW i32
  | VME_IOCTL_FIND_MAPPING vme_mapping
  | VME_IOCTL_RELEASE_MAPPING vme_mapping
  | VME_IOCTL_GET_CREATE_ON_FIND_FAIL
  | VME_IOCTL_SET_CREATE_ON_FIND_FAIL u32
  | VME_IOCTL_GET_DESTROY_ON_REMOVE
  | VME_IOCTL_SET_DESTROY_ON_REMOVE u32
  | VME_IOCTL_GET_BUS_ERROR
  | VME_IOCTL_CHECK_CLEAR_BUS_ERROR vme_bus_error
  | VME_IOCTL_unknown

text \<open>What the call leaves in the user's buffer.\<close>

datatype vme_reply = No_reply | Desc_reply vme_mapping | Word_reply u32 | Berr_reply vme_bus_error bool

definition reply_desc :: "vkernel \<Rightarrow> (errno option \<times> vme_mapping) \<times> vme_state \<Rightarrow> ((errno option \<times> vme_reply) \<times> vme_state) result" where
  "reply_desc k r =
     (case r of ((rc, d), s) \<Rightarrow>
        if rc \<noteq> None then Inr ((rc, No_reply), s)
        else if copy_out k then Inr ((None, Desc_reply d), s) else Inr ((Some EFAULT, No_reply), s))"

definition put_user :: "vkernel \<Rightarrow> u32 \<Rightarrow> (errno option \<times> vme_reply) vop" where
  "put_user k v s = (if copy_out k then Inr ((None, Word_reply v), s) else Inr ((Some EFAULT, No_reply), s))"

text \<open>A failing \<^verbatim>\<open>get_user\<close> sets its variable to zero.\<close>

definition get_user :: "vkernel \<Rightarrow> u32 \<Rightarrow> (u32 \<Rightarrow> vme_state \<Rightarrow> vme_state) \<Rightarrow> (errno option \<times> vme_reply) vop" where
  "get_user k v set_v s =
     (if copy_in k then Inr ((None, No_reply), set_v v s) else Inr ((Some EFAULT, No_reply), set_v 0 s))"

definition from_user :: "vkernel \<Rightarrow> (errno option \<times> vme_reply) vop \<Rightarrow> (errno option \<times> vme_reply) vop" where
  "from_user k f s = (if copy_in k then f s else Inr ((Some EFAULT, No_reply), s))"

definition with_rc :: "errno option \<times> vme_state \<Rightarrow> ((errno option \<times> vme_reply) \<times> vme_state) result" where
  "with_rc r = (case r of (rc, s) \<Rightarrow> Inr ((rc, No_reply), s))"

fun vme_window_ioctl :: "vkernel \<Rightarrow> fileptr \<Rightarrow> vme_ioctl \<Rightarrow> (errno option \<times> vme_reply) vop" where
  "vme_window_ioctl k fp (VME_IOCTL_GET_WINDOW_ATTR d) s =
     from_user k (\<lambda>s. bind_r (vme_get_window_attr k d s) (reply_desc k)) s"
| "vme_window_ioctl k fp (VME_IOCTL_CREATE_WINDOW d) s =
     from_user k (\<lambda>s. bind_r (vme_create_window k d s) (reply_desc k)) s"
| "vme_window_ioctl k fp (VME_IOCTL_DESTROY_WINDOW n) s =
     from_user k (\<lambda>s. bind_r (vme_destroy_window k n s) with_rc) s"
| "vme_window_ioctl k fp (VME_IOCTL_FIND_MAPPING d) s =
     from_user k (\<lambda>s. bind_r (do_vme_find_mapping k d (vme_create_on_find_fail s) fp s) (reply_desc k)) s"
| "vme_window_ioctl k fp (VME_IOCTL_RELEASE_MAPPING d) s =
     from_user k (\<lambda>s. bind_r (do_vme_release_mapping k d (vme_destroy_on_remove s) fp s) with_rc) s"
| "vme_window_ioctl k fp VME_IOCTL_GET_CREATE_ON_FIND_FAIL s = put_user k (vme_create_on_find_fail s) s"
| "vme_window_ioctl k fp (VME_IOCTL_SET_CREATE_ON_FIND_FAIL v) s =
     get_user k v (\<lambda>v s. s\<lparr>vme_create_on_find_fail := v\<rparr>) s"
| "vme_window_ioctl k fp VME_IOCTL_GET_DESTROY_ON_REMOVE s = put_user k (vme_destroy_on_remove s) s"
| "vme_window_ioctl k fp (VME_IOCTL_SET_DESTROY_ON_REMOVE v) s =
     get_user k v (\<lambda>v s. s\<lparr>vme_destroy_on_remove := v\<rparr>) s"
| "vme_window_ioctl k fp VME_IOCTL_GET_BUS_ERROR s =
     (let (v, s1) = tsi148_bus_error_chk True s in put_user k v s1)"
| "vme_window_ioctl k fp (VME_IOCTL_CHECK_CLEAR_BUS_ERROR e) s =
     from_user k (\<lambda>s. let (v, s1) = vme_bus_error_check_clear e s in
       if copy_out k then Inr ((None, Berr_reply e v), s1) else Inr ((Some EFAULT, No_reply), s1)) s"
| "vme_window_ioctl k fp VME_IOCTL_unknown s = Inr ((Some ENOIOCTLCMD, No_reply), s)"

definition PAGE_SHIFT :: nat where "PAGE_SHIFT = 12"
definition PAGE_SIZE :: u32 where "PAGE_SIZE = 0x1000"
definition PAGE_MASK :: u32 where "PAGE_MASK = NOT 0xfff"

record vm_area =
  vm_start :: u32
  vm_end :: u32
  vm_pgoff :: u32

definition vme_check_mmap_region :: "vme_mapping \<Rightarrow> vme_mapping \<Rightarrow> u32 \<Rightarrow> u32 \<Rightarrow> bool" where
  "vme_check_mmap_region wd md addr sz =
     (if addr < pci_addrl wd \<or> pci_addrl wd + sizel wd < addr + sz then False
      else let aligned_start = pci_addrl md AND PAGE_MASK;
               end_addr = pci_addrl md + sizel md;
               aligned_end = (if end_addr AND NOT PAGE_MASK \<noteq> 0 then (end_addr AND PAGE_MASK) + PAGE_SIZE else end_addr)
           in aligned_start = addr \<and> aligned_end = addr + sz)"

definition vma_addr :: "vm_area \<Rightarrow> u32" where "vma_addr v = push_bit PAGE_SHIFT (vm_pgoff v)"
definition vma_size :: "vm_area \<Rightarrow> u32" where "vma_size v = vm_end v - vm_start v"

definition mmap_allowed :: "fileptr \<Rightarrow> vm_area \<Rightarrow> window \<Rightarrow> bool" where
  "mmap_allowed fp v w \<longleftrightarrow>
     W_active w \<and> (\<exists>m \<in> set (W_mappings w). Mp_file m = fp \<and> vme_check_mmap_region (W_desc w) (Mp_desc m) (vma_addr v) (vma_size v))"

definition vme_remap_pfn_range :: "vkernel \<Rightarrow> fileptr \<Rightarrow> vm_area \<Rightarrow> vme_state \<Rightarrow> errno option \<times> vme_state" where
  "vme_remap_pfn_range k fp v s =
     (case remap_rc k of Some e \<Rightarrow> (Some e, s) | None \<Rightarrow> (None, s\<lparr>user_maps := user_maps s @ [(fp, vma_addr v, vma_size v)]\<rparr>))"

fun mmap_loop :: "vkernel \<Rightarrow> fileptr \<Rightarrow> vm_area \<Rightarrow> nat list \<Rightarrow> errno option vop" where
  "mmap_loop k fp v [] s = Inr (Some EINVAL, s)"
| "mmap_loop k fp v (i # ks) s =
     bind_r (mutex_lock_interruptible k i s) (\<lambda>(ok, s1).
       if \<not> ok then Inr (Some ERESTARTSYS, s1)
       else if mmap_allowed fp v (the_window i s1)
       then (let (rc, s2) = vme_remap_pfn_range k fp v s1 in bind_r (mutex_unlock i s2) (\<lambda>s3. Inr (rc, s3)))
       else bind_r (mutex_unlock i s1) (mmap_loop k fp v ks))"

definition vme_window_mmap :: "vkernel \<Rightarrow> fileptr \<Rightarrow> vm_area \<Rightarrow> errno option vop" where
  "vme_window_mmap k fp v = mmap_loop k fp v [0 ..< TSI148_NUM_OUT_WINDOWS]"

section \<open>Start and end of the module\<close>

definition vme_window_init :: "vme_state \<Rightarrow> vme_state" where
  "vme_window_init s =
     s\<lparr>window_table := map (\<lambda>w. w\<lparr>W_mappings := [], W_active := False\<rparr>) (window_table s), held := []\<rparr>"

fun exit_loop :: "vkernel \<Rightarrow> nat list \<Rightarrow> vme_state \<Rightarrow> vme_state result" where
  "exit_loop k [] s = Inr s"
| "exit_loop k (i # ks) s =
     (if W_active (the_window i s)
      then bind_r (vme_destroy_window k (of_nat i) s) (\<lambda>(rc, s1). exit_loop k ks s1)
      else exit_loop k ks s)"

definition vme_window_exit :: "vkernel \<Rightarrow> vme_state \<Rightarrow> vme_state result" where
  "vme_window_exit k = exit_loop k [0 ..< TSI148_NUM_OUT_WINDOWS]"

section \<open>CES emulation\<close>

text \<open>The result is the address, or all ones on failure.\<close>

definition find_controller :: "vkernel \<Rightarrow> u32 \<Rightarrow> u32 \<Rightarrow> u32 \<Rightarrow> u32 \<Rightarrow> bool \<Rightarrow> u32 vop" where
  "find_controller k vmeaddr len m sz rdpref s =
     (if \<not> desc_alloc_ok k then Inr (- 1, s)
      else let d = (if rdpref then zero_mapping\<lparr>read_prefetch_enabled := 1, read_prefetch_size := 0\<rparr> else zero_mapping) in
      if sz \<noteq> 2 \<and> sz \<noteq> 4 then Inr (- 1, s)
      else bind_r (vme_find_mapping k
               (d\<lparr>data_width := (if sz = 2 then VME_D16 else VME_D32), D_am := m, bcast_select := 0,
                  sizel := len, sizeu := 0, vme_addrl := vmeaddr, vme_addru := 0\<rparr>) 1 s) (\<lambda>((rc, d1), s1).
             if rc \<noteq> None then Inr (- 1, s1) else Inr (kernel_va d1, s1)))"

definition return_controller :: "vkernel \<Rightarrow> u32 \<Rightarrow> u32 vop" where
  "return_controller k logaddr s =
     bind_r (find_vme_mapping_from_addr k logaddr s) (\<lambda>(r, s1).
       case r of
         None \<Rightarrow> Inr (- 1, s1)
       | Some d \<Rightarrow> bind_r (vme_release_mapping k d 1 s1) (\<lambda>(err, s2). Inr (if err = None then 0 else - 1, s2)))"

end
