(* ===== verification/Vme_Windows.thy ===== *)
theory Vme_Windows
  imports Vme_Window "HOL-Library.Multiset"
begin

text \<open>
  The invariant of the window manager and the contract of its entry points. The invariant ties
  the table to the chip: the reference count of a window is the number of its mappings, an
  active window's descriptor is the one its registers were programmed with, a window that is not
  active is disabled in the chip and has no mappings, and the I/O mappings and bus regions that
  are live are exactly those of the active windows. Each operation is shown to return, whatever
  the kernel answers, with what it did to the table.
\<close>

section \<open>The invariant\<close>

definition mapping_in :: "nat \<Rightarrow> vme_mapping \<Rightarrow> mapping \<Rightarrow> bool" where
  "mapping_in i wd m \<longleftrightarrow> window_num (Mp_desc m) = of_nat i \<and>
     pci_addrl (Mp_desc m) - pci_addrl wd = vme_addrl (Mp_desc m) - vme_addrl wd \<and>
     kernel_va (Mp_desc m) - kernel_va wd = vme_addrl (Mp_desc m) - vme_addrl wd"

definition desc_set :: "nat \<Rightarrow> vme_mapping \<Rightarrow> tsi148_otrans \<Rightarrow> bool" where
  "desc_set i d t \<longleftrightarrow> window_num d = of_nat i \<and> window_enabled d = 1 \<and> kernel_va d \<noteq> 0 \<and>
     pci_addrl d AND 0xffff = 0 \<and> sizel d AND 0xffff = 0 \<and> vme_addrl d AND 0xffff = 0 \<and>
     unat (pci_addrl d) + unat (sizel d) \<le> 2 ^ 32 \<and>
     (\<exists>a. tsi148_setup_window_attributes (v2esst_mode d) (data_width d) (D_am d) = Some a \<and> t = window_trans d a)"

definition window_ok :: "tsi148_chip \<Rightarrow> nat \<Rightarrow> window \<Rightarrow> bool" where
  "window_ok c i w \<longleftrightarrow> W_users w = int (length (W_mappings w)) \<and> window_on c i = W_active w \<and>
     (if W_active w
      then desc_set i (W_desc w) (otrans c ! i) \<and> rsrc_start (W_rsrc w) = pci_addrl (W_desc w) \<and>
        (\<forall>m \<in> set (W_mappings w). mapping_in i (W_desc w) m)
      else W_mappings w = [] \<and> in_table (window_num (W_desc w)))"

definition live :: "(vme_mapping \<Rightarrow> u32) \<Rightarrow> window list \<Rightarrow> u32 multiset" where
  "live f ws = mset (map (f \<circ> W_desc) (filter W_active ws))"

definition vme_ok :: "vme_state \<Rightarrow> bool" where
  "vme_ok s \<longleftrightarrow> length (window_table s) = TSI148_NUM_OUT_WINDOWS \<and> chip_ok (V_chip s) \<and>
     (\<forall>i < TSI148_NUM_OUT_WINDOWS. window_ok (V_chip s) i (the_window i s)) \<and>
     mset (iomaps s) = live kernel_va (window_table s) \<and> mset (regions s) = live pci_addrl (window_table s)"

definition bus_ok :: "vkernel \<Rightarrow> bool" where
  "bus_ok k \<longleftrightarrow> (\<forall>sz start. bus_alloc k sz = Inr start \<longrightarrow> unat start + unat sz \<le> 2 ^ 32)"

section \<open>Frames\<close>

lemma the_window_upd:
  "the_window j (upd_window i f s) = (if j = i \<and> i < length (window_table s) then f (the_window i s) else the_window j s)"
  by (cases "i < length (window_table s)") (auto simp: the_window_def upd_window_def nth_list_update list_update_beyond)

lemma the_window_frame [simp]:
  "the_window i (s\<lparr>held := h\<rparr>) = the_window i s" "the_window i (s\<lparr>waits := n\<rparr>) = the_window i s"
  "the_window i (s\<lparr>unlocked := u\<rparr>) = the_window i s" "the_window i (s\<lparr>V_chip := c\<rparr>) = the_window i s"
  "the_window i (s\<lparr>iomaps := im\<rparr>) = the_window i s" "the_window i (s\<lparr>regions := rg\<rparr>) = the_window i s"
  "the_window i (s\<lparr>user_maps := um\<rparr>) = the_window i s" "the_window i (s\<lparr>V_veat := v\<rparr>) = the_window i s"
  "the_window i (s\<lparr>verr_valid := b\<rparr>) = the_window i s" "the_window i (s\<lparr>verr_error := e\<rparr>) = the_window i s"
  "the_window i (s\<lparr>vme_create_on_find_fail := v\<rparr>) = the_window i s" "the_window i (s\<lparr>vme_destroy_on_remove := v\<rparr>) = the_window i s"
  "the_window i (note_access j s) = the_window i s"
  by (simp_all add: the_window_def note_access_def)

lemma vme_ok_frame [simp]:
  "vme_ok (s\<lparr>held := h\<rparr>) = vme_ok s" "vme_ok (s\<lparr>waits := n\<rparr>) = vme_ok s"
  "vme_ok (s\<lparr>unlocked := u\<rparr>) = vme_ok s" "vme_ok (s\<lparr>user_maps := um\<rparr>) = vme_ok s" "vme_ok (s\<lparr>V_veat := v\<rparr>) = vme_ok s"
  "vme_ok (s\<lparr>verr_valid := b\<rparr>) = vme_ok s" "vme_ok (s\<lparr>verr_error := e\<rparr>) = vme_ok s"
  "vme_ok (s\<lparr>vme_create_on_find_fail := v\<rparr>) = vme_ok s" "vme_ok (s\<lparr>vme_destroy_on_remove := v\<rparr>) = vme_ok s"
  "vme_ok (note_access j s) = vme_ok s"
  by (simp_all add: vme_ok_def the_window_def note_access_def)

lemma upd_window_sel [simp]:
  "held (upd_window i f s) = held s" "waits (upd_window i f s) = waits s" "unlocked (upd_window i f s) = unlocked s"
  "V_chip (upd_window i f s) = V_chip s" "iomaps (upd_window i f s) = iomaps s" "regions (upd_window i f s) = regions s"
  "user_maps (upd_window i f s) = user_maps s" "length (window_table (upd_window i f s)) = length (window_table s)"
  by (simp_all add: upd_window_def)

lemma note_access_sel [simp]:
  "held (note_access i s) = held s" "V_chip (note_access i s) = V_chip s" "iomaps (note_access i s) = iomaps s"
  "regions (note_access i s) = regions s" "user_maps (note_access i s) = user_maps s"
  "window_table (note_access i s) = window_table s"
  "unlocked (note_access i s) = (if i \<in> set (held s) then unlocked s else unlocked s @ [i])"
  by (simp_all add: note_access_def)

lemma upd_window_twice: "upd_window i f (upd_window i g s) = upd_window i (\<lambda>w. f (g w)) s"
  by (cases "i < length (window_table s)") (simp_all add: upd_window_def list_update_beyond)

lemma upd_window_id: "f (the_window i s) = the_window i s \<Longrightarrow> upd_window i f s = s"
  by (simp add: upd_window_def the_window_def list_update_id)

lemma upd_window_cong: "f (the_window i s) = g (the_window i s) \<Longrightarrow> upd_window i f s = upd_window i g s"
  by (simp add: upd_window_def the_window_def)

section \<open>Live windows\<close>

lemma live_same:
  assumes "i < length ws" "W_active w = W_active (ws ! i)" "W_active w \<Longrightarrow> W_desc w = W_desc (ws ! i)"
  shows "live f (ws[i := w]) = live f ws"
  using assms
proof (induction ws arbitrary: i)
  case (Cons x ws)
  then show ?case by (cases i) (auto simp: live_def)
qed simp

lemma live_add:
  assumes "i < length ws" "\<not> W_active (ws ! i)" "W_active w"
  shows "live f (ws[i := w]) = add_mset (f (W_desc w)) (live f ws)"
  using assms
proof (induction ws arbitrary: i)
  case (Cons x ws)
  then show ?case by (cases i) (auto simp: live_def)
qed simp

lemma live_remove:
  assumes "i < length ws" "W_active (ws ! i)" "\<not> W_active w"
  shows "live f ws = add_mset (f (W_desc (ws ! i))) (live f (ws[i := w]))"
  using assms
proof (induction ws arbitrary: i)
  case (Cons x ws)
  then show ?case by (cases i) (auto simp: live_def)
qed simp

text \<open>Replacing the mappings of an active window.\<close>

lemma vme_ok_mappings:
  assumes "vme_ok s" "i < TSI148_NUM_OUT_WINDOWS" "W_active (the_window i s)"
    "\<forall>m \<in> set ms. mapping_in i (W_desc (the_window i s)) m" "u = int (length ms)"
  shows "vme_ok (upd_window i (\<lambda>w. w\<lparr>W_mappings := ms, W_users := u\<rparr>) s)"
proof -
  have i: "i < length (window_table s)" using assms(1,2) by (simp add: vme_ok_def)
  have w: "window_ok (V_chip s) i ((the_window i s)\<lparr>W_mappings := ms, W_users := u\<rparr>)"
    using assms by (auto simp: vme_ok_def window_ok_def)
  show ?thesis
    using assms(1) i w live_same [of i "window_table s" "(window_table s ! i)\<lparr>W_mappings := ms, W_users := u\<rparr>"]
    by (simp add: vme_ok_def the_window_upd) (simp add: upd_window_def)
qed

lemma drop_owned_eq:
  "drop_owned fp ms u = (filter (\<lambda>m. Mp_file m \<noteq> fp) ms, u - int (length (filter (\<lambda>m. Mp_file m = fp) ms)))"
  by (induction ms arbitrary: u) auto

lemma release_in_eq:
  assumes "vme_ok s" "i < TSI148_NUM_OUT_WINDOWS"
  shows "release_in fp i s = upd_window i (\<lambda>w. w\<lparr>W_mappings := filter (\<lambda>m. Mp_file m \<noteq> fp) (W_mappings w),
      W_users := int (length (filter (\<lambda>m. Mp_file m \<noteq> fp) (W_mappings w)))\<rparr>) s"
proof -
  have w: "window_ok (V_chip s) i (the_window i s)" using assms by (simp add: vme_ok_def)
  have len: "int (length ms) - int (length (filter (\<lambda>m. Mp_file m = fp) ms)) = int (length (filter (\<lambda>m. Mp_file m \<noteq> fp) ms))" for ms
    using sum_length_filter_compl [of "\<lambda>m. Mp_file m = fp" ms] by simp
  show ?thesis
  proof (cases "W_mappings (the_window i s) = []")
    case True
    with w show ?thesis by (simp add: release_in_def upd_window_id window_ok_def)
  next
    case False
    with w have "W_active (the_window i s)" by (auto simp: window_ok_def split: if_splits)
    with False w show ?thesis
      by (simp add: release_in_def drop_owned_eq window_ok_def Let_def) (rule upd_window_cong, simp add: len)
  qed
qed

lemma release_in_ok:
  assumes "vme_ok s" "i < TSI148_NUM_OUT_WINDOWS"
  shows "vme_ok (release_in fp i s)"
proof (cases "W_active (the_window i s)")
  case True
  have w: "window_ok (V_chip s) i (the_window i s)" using assms by (simp add: vme_ok_def)
  let ?ms = "filter (\<lambda>m. Mp_file m \<noteq> fp) (W_mappings (the_window i s))"
  have "release_in fp i s = upd_window i (\<lambda>w. w\<lparr>W_mappings := ?ms, W_users := int (length ?ms)\<rparr>) s"
    unfolding release_in_eq [OF assms] by (rule upd_window_cong) simp
  moreover have "\<forall>m \<in> set ?ms. mapping_in i (W_desc (the_window i s)) m" using w True by (simp add: window_ok_def)
  ultimately show ?thesis using vme_ok_mappings [OF assms True, of ?ms] by simp
qed (simp add: release_in_def assms(1))

section \<open>Creating and destroying windows\<close>

lemma vme_ok_step:
  assumes "vme_ok s" "i < TSI148_NUM_OUT_WINDOWS" "window_table s' = (window_table s)[i := w]" "chip_ok (V_chip s')"
    "\<forall>j. j \<noteq> i \<longrightarrow> otrans (V_chip s') ! j = otrans (V_chip s) ! j"
    "window_on (V_chip s') = (window_on (V_chip s))(i := W_active w)" "window_ok (V_chip s') i w"
    "mset (iomaps s') = live kernel_va (window_table s')" "mset (regions s') = live pci_addrl (window_table s')"
  shows "vme_ok s'"
proof -
  have "window_ok (V_chip s') j (the_window j s')" if "j < TSI148_NUM_OUT_WINDOWS" for j
  proof (cases "j = i")
    case True
    then show ?thesis using assms(1-3,7) by (simp add: the_window_def vme_ok_def)
  next
    case False
    then show ?thesis using assms(1,3,5,6) that by (auto simp: the_window_def vme_ok_def window_ok_def)
  qed
  then show ?thesis using assms by (simp add: vme_ok_def)
qed

lemma vme_ok_inactive:
  assumes "vme_ok s" "i < TSI148_NUM_OUT_WINDOWS" "\<not> W_active (the_window i s)" "window_table s' = (window_table s)[i := w]"
    "w = (the_window i s)\<lparr>W_rsrc := r\<rparr>" "V_chip s' = V_chip s" "iomaps s' = iomaps s" "regions s' = regions s"
  shows "vme_ok s'"
proof (rule vme_ok_step [OF assms(1,2,4)])
  have i: "i < length (window_table s)" using assms(1,2) by (simp add: vme_ok_def)
  have w: "window_ok (V_chip s) i (the_window i s)" using assms(1,2) by (simp add: vme_ok_def)
  show "window_on (V_chip s') = (window_on (V_chip s))(i := W_active w)"
    using w assms(3,5,6) by (auto simp: fun_eq_iff window_ok_def)
  show "window_ok (V_chip s') i w" using w assms(3,5,6) by (simp add: window_ok_def)
  show "mset (iomaps s') = live kernel_va (window_table s')"
    using assms i by (simp add: vme_ok_def live_same the_window_def)
  show "mset (regions s') = live pci_addrl (window_table s')"
    using assms i by (simp add: vme_ok_def live_same the_window_def)
qed (use assms in \<open>simp_all add: vme_ok_def\<close>)

lemma rsrc_start_resource: "rsrc_start (window_resource k i a b) = a"
  by (simp add: window_resource_def)

lemma align_window_id: "vme_addrl d AND 0xffff = 0 \<Longrightarrow> sizel d AND 0xffff = 0 \<Longrightarrow> align_window d = d"
  by (simp add: align_window_def)

text \<open>What stays the same outside the window and the allocations.\<close>

definition same_rest :: "vme_state \<Rightarrow> vme_state \<Rightarrow> bool" where
  "same_rest s s' \<longleftrightarrow> held s' = held s \<and> unlocked s' = unlocked s \<and> user_maps s' = user_maps s"

definition others_same :: "nat \<Rightarrow> vme_state \<Rightarrow> vme_state \<Rightarrow> bool" where
  "others_same i s s' \<longleftrightarrow> (\<forall>j. j \<noteq> i \<longrightarrow> the_window j s' = the_window j s)"

definition created :: "nat \<Rightarrow> vme_mapping \<Rightarrow> vme_state \<Rightarrow> vme_mapping \<Rightarrow> vme_state \<Rightarrow> bool" where
  "created i d s d' s' \<longleftrightarrow> \<not> W_active (the_window i s) \<and> W_active (the_window i s') \<and> W_desc (the_window i s') = d' \<and>
     W_mappings (the_window i s') = [] \<and>
     (\<exists>va start. d' = d\<lparr>kernel_va := va, pci_addrl := start, window_enabled := 1\<rparr> \<and>
        iomaps s' = va # iomaps s \<and> regions s' = start # regions s)"

definition not_created :: "nat \<Rightarrow> vme_state \<Rightarrow> vme_state \<Rightarrow> bool" where
  "not_created i s s' \<longleftrightarrow> V_chip s' = V_chip s \<and> iomaps s' = iomaps s \<and> regions s' = regions s \<and>
     (\<exists>r. the_window i s' = (the_window i s)\<lparr>W_rsrc := r\<rparr>)"

lemma window_at_of_nat: "i < TSI148_NUM_OUT_WINDOWS \<Longrightarrow> window_at (of_nat i) i"
  by (simp add: window_at_def TSI148_NUM_OUT_WINDOWS_def signed_of_nat signed_take_bit_int_eq_self)

lemma in_tableE:
  assumes "in_table n"
  obtains i where "i < TSI148_NUM_OUT_WINDOWS" "window_index n = i" "n = of_nat i"
proof (rule that [of "nat (sint n)"])
  show "n = of_nat (nat (sint n))" using assms by (simp add: in_table_def)
qed (use assms in \<open>auto simp: in_table_def window_index_def\<close>)

lemma in_table_of_nat: "i < TSI148_NUM_OUT_WINDOWS \<Longrightarrow> in_table (of_nat i)" "i < TSI148_NUM_OUT_WINDOWS \<Longrightarrow> window_index (of_nat i) = i"
  using window_at_of_nat [of i] by (auto simp: in_table_def window_index_def window_at_def)

text \<open>A window that was off is programmed for the descriptor and made active.\<close>

lemma activate_ok:
  assumes ok: "vme_ok s" and i: "i < TSI148_NUM_OUT_WINDOWS" and off: "\<not> W_active (the_window i s)"
    and d: "window_num d = of_nat i" "vme_addrl d AND 0xffff = 0" "sizel d AND 0xffff = 0" "pci_addrl d AND 0xffff = 0"
      "kernel_va d \<noteq> 0" "unat (pci_addrl d) + unat (sizel d) \<le> 2 ^ 32"
    and a: "tsi148_setup_window_attributes (v2esst_mode d) (data_width d) (D_am d) = Some a"
    and c: "chip_ok (V_chip t)" "window_on (V_chip t) = (window_on (V_chip s))(i := True)"
      "otrans (V_chip t) = (otrans (V_chip s))[i := window_trans d a]"
    and t: "window_table t = (window_table s)[i := w]" "iomaps t = kernel_va d # iomaps s" "regions t = pci_addrl d # regions s"
    and w: "w = (the_window i s)\<lparr>W_rsrc := r, W_desc := d\<lparr>window_enabled := 1\<rparr>, W_active := True\<rparr>" "rsrc_start r = pci_addrl d"
  shows "vme_ok t"
proof (rule vme_ok_step [OF ok i t(1)])
  have len: "i < length (window_table s)" "i < length (otrans (V_chip s))" using ok i by (simp_all add: vme_ok_def chip_ok_def)
  have m0: "W_mappings (the_window i s) = []" "W_users (the_window i s) = 0"
    using ok i off by (simp_all add: vme_ok_def window_ok_def)
  have "window_trans (d\<lparr>window_enabled := 1\<rparr>) a = window_trans d a" by (simp add: window_trans_def window_otat_def Let_def)
  then have "desc_set i (d\<lparr>window_enabled := 1\<rparr>) (otrans (V_chip t) ! i)"
    using len a d c(3) by (simp add: desc_set_def)
  then show "window_ok (V_chip t) i w" using c(2) m0 w by (simp add: window_ok_def)
  show "\<forall>j. j \<noteq> i \<longrightarrow> otrans (V_chip t) ! j = otrans (V_chip s) ! j" using c(3) by simp
  show "window_on (V_chip t) = (window_on (V_chip s))(i := W_active w)" using c(2) w by simp
  show "mset (iomaps t) = live kernel_va (window_table t)" "mset (regions t) = live pci_addrl (window_table t)"
    using ok len off w live_add [of i "window_table s" w] by (simp_all add: t vme_ok_def the_window_def)
qed (rule c)

lemma create_locked_good:
  assumes ok: "vme_ok s" and i: "i < TSI148_NUM_OUT_WINDOWS" and k: "bus_ok k" and d: "window_num d = of_nat i"
    and al: "vme_addrl d AND 0xffff = 0" "sizel d AND 0xffff = 0"
  shows "good (\<lambda>((rc, d'), s'). vme_ok s' \<and> same_rest s s' \<and> others_same i s s' \<and>
     (if rc = None then created i d s d' s' else not_created i s s')) (create_locked k i d s)"
proof (cases "W_active (the_window i s)")
  case True
  show ?thesis using True ok
    by (simp add: create_locked_def same_rest_def others_same_def not_created_def)
      (rule exI [of _ "W_rsrc (the_window i s)"], simp)
next
  case False
  have len: "i < length (window_table s)" using ok i by (simp add: vme_ok_def)
  have at: "window_at (window_num d) i" using i by (simp add: d window_at_of_nat)
  have off: "\<not> window_on (V_chip s) i" using ok i False by (simp add: vme_ok_def window_ok_def)
  have fail: "vme_ok t \<and> same_rest s t \<and> others_same i s t \<and> not_created i s t"
    if "window_table t = (window_table s)[i := (the_window i s)\<lparr>W_rsrc := r\<rparr>]" "V_chip t = V_chip s" "iomaps t = iomaps s"
      "regions t = regions s" "held t = held s" "unlocked t = unlocked s" "user_maps t = user_maps s" for t r
    using that len vme_ok_inactive [OF ok i False that(1) refl that(2-4)]
    by (auto simp: same_rest_def others_same_def not_created_def the_window_def nth_list_update)
  show ?thesis
  proof (cases "bus_alloc k (sizel d)")
    case (Inl e)
    let ?t = "clear_rsrc i (upd_window i (\<lambda>w. w\<lparr>W_rsrc := window_resource k i 0 (sizel d)\<rparr>) s)"
    have "vme_ok ?t \<and> same_rest s ?t \<and> others_same i s ?t \<and> not_created i s ?t"
      by (rule fail [where r = zero_resource]) (simp_all add: clear_rsrc_def upd_window_def len the_window_def)
    then show ?thesis using False Inl by (simp add: create_locked_def)
  next
    case (Inr start)
    define va where "va = ioremap k start (sizel d)"
    define d1 where "d1 = d\<lparr>kernel_va := va, pci_addrl := start\<rparr>"
    define s3 where "s3 = (upd_window i (\<lambda>w. w\<lparr>W_rsrc := window_resource k i start (start + sizel d - 1)\<rparr>) s)
      \<lparr>regions := start # regions s, iomaps := va # iomaps s\<rparr>"
    have sel: "window_table s3 = (window_table s)[i := (the_window i s)\<lparr>W_rsrc := window_resource k i start (start + sizel d - 1)\<rparr>]"
      "V_chip s3 = V_chip s" "iomaps s3 = va # iomaps s" "regions s3 = start # regions s" "held s3 = held s"
      "unlocked s3 = unlocked s" "user_maps s3 = user_maps s" "the_window i s3 = (the_window i s)\<lparr>W_rsrc := window_resource k i start (start + sizel d - 1)\<rparr>"
      using len by (simp_all add: s3_def the_window_def upd_window_def)
    have unfold: "create_locked k i d s = (if va = 0 then Inr ((Some ENOMEM, d\<lparr>kernel_va := va\<rparr>),
          clear_rsrc i (release_resource start (s3\<lparr>iomaps := iomaps s\<rparr>)))
        else bind_r (tsi148_create_window d1 (V_chip s3)) (\<lambda>(rc, d2, c).
               if rc \<noteq> None
               then Inr ((rc, d2), clear_rsrc i (release_resource start (iounmap (kernel_va d2) (s3\<lparr>V_chip := c\<rparr>))))
               else Inr ((None, d2), upd_window i (\<lambda>w. w\<lparr>W_desc := d2, W_active := True\<rparr>) (s3\<lparr>V_chip := c\<rparr>))))"
      unfolding create_locked_def Let_def Inr sum.case upd_window_twice va_def [symmetric] s3_def d1_def
      using False by (simp add: upd_window_def cong: if_cong)
    have fit: "unat start + unat (sizel d) \<le> 2 ^ 32" using k Inr by (simp add: bus_ok_def)
    have al1: "align_window d1 = d1" using al by (simp add: align_window_id d1_def)
    have at1: "window_at (window_num d1) i" using at by (simp add: d1_def)
    show ?thesis
    proof (cases "va = 0")
      case True
      let ?t = "clear_rsrc i (release_resource start (s3\<lparr>iomaps := iomaps s\<rparr>))"
      have "vme_ok ?t \<and> same_rest s ?t \<and> others_same i s ?t \<and> not_created i s ?t"
        by (rule fail [where r = zero_resource])
          (simp_all add: clear_rsrc_def release_resource_def upd_window_def len sel the_window_def)
      then show ?thesis unfolding unfold using True by simp
    next
      case va: False
      have c: "chip_ok (V_chip s)" using ok by (simp add: vme_ok_def)
      show ?thesis unfolding unfold sel(2) if_not_P [OF va]
      proof (rule good_bind [OF tsi148_create_good [OF c at1 off]])
        fix x :: "errno option \<times> vme_mapping \<times> tsi148_chip"
        obtain rc d2 c' where x: "x = (rc, d2, c')" by (cases x)
        assume h: "case x of (rc, d', c') \<Rightarrow> chip_ok c' \<and>
          (if rc = None then d' = (align_window d1)\<lparr>window_enabled := 1\<rparr> \<and> pci_addrl d1 AND 0xffff = 0 \<and>
              window_on c' = (window_on (V_chip s))(i := True) \<and>
              (\<exists>a. tsi148_setup_window_attributes (v2esst_mode d1) (data_width d1) (D_am d1) = Some a \<and>
                   otrans c' = (otrans (V_chip s))[i := window_trans (align_window d1) a])
           else c' = V_chip s \<and> d' = align_window d1)"
        show "good (\<lambda>((rc, d'), s'). vme_ok s' \<and> same_rest s s' \<and> others_same i s s' \<and>
            (if rc = None then created i d s d' s' else not_created i s s'))
          (case x of (rc, d2, c) \<Rightarrow>
             if rc \<noteq> None
             then Inr ((rc, d2), clear_rsrc i (release_resource start (iounmap (kernel_va d2) (s3\<lparr>V_chip := c\<rparr>))))
             else Inr ((None, d2), upd_window i (\<lambda>w. w\<lparr>W_desc := d2, W_active := True\<rparr>) (s3\<lparr>V_chip := c\<rparr>)))"
        proof (cases "rc = None")
          case False
          with h x al1 have e: "c' = V_chip s" "d2 = d1" by auto
          let ?t = "clear_rsrc i (release_resource start (iounmap va (s3\<lparr>V_chip := V_chip s\<rparr>)))"
          have "vme_ok ?t \<and> same_rest s ?t \<and> others_same i s ?t \<and> not_created i s ?t"
            by (rule fail [where r = zero_resource])
              (simp_all add: clear_rsrc_def release_resource_def iounmap_def upd_window_def len sel the_window_def)
          then show ?thesis using False x e by (auto simp: d1_def)
        next
          case True
          define w where "w = (the_window i s3)\<lparr>W_desc := d2, W_active := True\<rparr>"
          define t where "t = upd_window i (\<lambda>w. w\<lparr>W_desc := d2, W_active := True\<rparr>) (s3\<lparr>V_chip := c'\<rparr>)"
          obtain a where a: "chip_ok c'" "d2 = d1\<lparr>window_enabled := 1\<rparr>" "pci_addrl d1 AND 0xffff = 0"
              "window_on c' = (window_on (V_chip s))(i := True)"
              "tsi148_setup_window_attributes (v2esst_mode d1) (data_width d1) (D_am d1) = Some a"
              "otrans c' = (otrans (V_chip s))[i := window_trans d1 a]"
            using h x True al1 by auto
          have tt: "window_table t = (window_table s)[i := w]" "V_chip t = c'" "iomaps t = va # iomaps s" "regions t = start # regions s"
            "the_window i t = w" "held t = held s" "unlocked t = unlocked s" "user_maps t = user_maps s"
            using len by (simp_all add: t_def w_def upd_window_def the_window_def sel)
          have "vme_ok t"
            by (rule activate_ok [OF ok i \<open>\<not> W_active (the_window i s)\<close> _ _ _ _ _ _ a(5), where t = t and w = w and r = "window_resource k i start (start + sizel d - 1)"])
              (use va al fit d a in \<open>simp_all add: tt w_def sel d1_def rsrc_start_resource\<close>)
          moreover have m0: "W_mappings (the_window i s) = []"
            using ok i \<open>\<not> W_active (the_window i s)\<close> by (simp add: vme_ok_def window_ok_def)
          moreover have "others_same i s t" using len by (simp add: others_same_def the_window_def tt)
          moreover have "created i d s d2 t"
            using \<open>\<not> W_active (the_window i s)\<close> m0 a(2) by (auto simp: created_def tt w_def sel d1_def)
          moreover have "same_rest s t" by (simp add: same_rest_def tt)
          ultimately show ?thesis using x True by (simp add: t_def)
        qed
      qed
    qed
  qed
qed

definition destroyed :: "nat \<Rightarrow> vme_state \<Rightarrow> vme_state \<Rightarrow> bool" where
  "destroyed i s s' \<longleftrightarrow> \<not> W_active (the_window i s') \<and> W_mappings (the_window i s') = [] \<and>
     iomaps s' = remove1 (kernel_va (W_desc (the_window i s))) (iomaps s) \<and>
     regions s' = remove1 (pci_addrl (W_desc (the_window i s))) (regions s)"

lemma destroy_locked_good:
  assumes ok: "vme_ok s" and i: "i < TSI148_NUM_OUT_WINDOWS"
  shows "good (\<lambda>(rc, s'). vme_ok s' \<and> same_rest s s' \<and> others_same i s s' \<and>
     (if W_active (the_window i s) then rc = None \<and> destroyed i s s' else rc = Some EINVAL \<and> s' = s)) (destroy_locked i s)"
proof (cases "W_active (the_window i s)")
  case False
  then show ?thesis using ok by (simp add: destroy_locked_def same_rest_def others_same_def)
next
  case True
  define w where "w = the_window i s"
  have len: "i < length (window_table s)" and c: "chip_ok (V_chip s)" and w_ok: "window_ok (V_chip s) i w"
    using ok i by (simp_all add: vme_ok_def w_def)
  have act: "W_active w" using True by (simp add: w_def)
  define w1 where "w1 = w\<lparr>W_mappings := [], W_users := 0, W_active := False\<rparr>"
  have w1: "(if W_users w > 0 then w\<lparr>W_mappings := [], W_users := W_users w - int (length (W_mappings w))\<rparr> else w)
      \<lparr>W_active := False\<rparr> = w1"
    using w_ok by (auto simp: window_ok_def w1_def)
  have at: "window_at (window_num ((W_desc w)\<lparr>kernel_va := 0\<rparr>)) i"
    using w_ok act i by (simp add: window_ok_def desc_set_def window_at_of_nat)
  have rs: "rsrc_start (W_rsrc w) = pci_addrl (W_desc w)" using w_ok act by (simp add: window_ok_def)
  have unfold: "destroy_locked i s = bind_r (tsi148_remove_window ((W_desc w)\<lparr>kernel_va := 0\<rparr>) (V_chip s)) (\<lambda>(d, c).
      Inr (None, clear_rsrc i (release_resource (rsrc_start (W_rsrc w))
                   (upd_window i (\<lambda>w. w\<lparr>W_desc := d\<rparr>)
                      (iounmap (kernel_va (W_desc w)) (upd_window i (\<lambda>_. w1) s)\<lparr>V_chip := c\<rparr>)))))"
    using act unfolding destroy_locked_def Let_def w_def [symmetric] w1 by (simp add: iounmap_def)
  show ?thesis unfolding unfold
  proof (rule good_bind [OF tsi148_remove_good [OF c at]])
    fix x :: "vme_mapping \<times> tsi148_chip"
    obtain d c' where x: "x = (d, c')" by (cases x)
    assume "case x of (d', c') \<Rightarrow> chip_ok c' \<and> d' = (W_desc w)\<lparr>kernel_va := 0\<rparr>\<lparr>window_enabled := 0\<rparr> \<and>
        window_on c' = (window_on (V_chip s))(i := False) \<and> otrans c' = (otrans (V_chip s))[i := zero_otrans]"
    then have h: "chip_ok c'" "window_on c' = (window_on (V_chip s))(i := False)" "otrans c' = (otrans (V_chip s))[i := zero_otrans]"
      "window_num d = of_nat i"
      using x w_ok act by (auto simp: window_ok_def desc_set_def)
    define w2 where "w2 = w1\<lparr>W_desc := d, W_rsrc := zero_resource\<rparr>"
    define t where "t = clear_rsrc i (release_resource (rsrc_start (W_rsrc w)) (upd_window i (\<lambda>w. w\<lparr>W_desc := d\<rparr>)
                      (iounmap (kernel_va (W_desc w)) (upd_window i (\<lambda>_. w1) s)\<lparr>V_chip := c'\<rparr>)))"
    have tt: "window_table t = (window_table s)[i := w2]" "V_chip t = c'" "the_window i t = w2"
      "iomaps t = remove1 (kernel_va (W_desc w)) (iomaps s)" "regions t = remove1 (pci_addrl (W_desc w)) (regions s)"
      "held t = held s" "unlocked t = unlocked s" "user_maps t = user_maps s"
      using len rs by (simp_all add: t_def clear_rsrc_def release_resource_def iounmap_def upd_window_def w2_def the_window_def)
    have inact: "\<not> W_active w2" "W_mappings w2 = []" by (simp_all add: w2_def w1_def)
    have act': "W_active (window_table s ! i)" using True by (simp add: the_window_def)
    have "vme_ok t"
    proof (rule vme_ok_step [OF ok i tt(1)])
      show "window_ok (V_chip t) i w2" using h(2,4) i by (simp add: window_ok_def tt w2_def w1_def in_table_of_nat)
      show "mset (iomaps t) = live kernel_va (window_table t)"
        using ok live_remove [OF len act' inact(1), of kernel_va] by (simp add: vme_ok_def tt w_def the_window_def)
      show "mset (regions t) = live pci_addrl (window_table t)"
        using ok live_remove [OF len act' inact(1), of pci_addrl] by (simp add: vme_ok_def tt w_def the_window_def)
    qed (use h inact in \<open>simp_all add: tt\<close>)
    moreover have "same_rest s t" "others_same i s t" by (simp_all add: same_rest_def others_same_def tt the_window_def)
    moreover have "destroyed i s t" using inact by (simp add: destroyed_def tt w_def)
    ultimately show "good (\<lambda>(rc, s'). vme_ok s' \<and> same_rest s s' \<and> others_same i s s' \<and>
        (if W_active (the_window i s) then rc = None \<and> destroyed i s s' else rc = Some EINVAL \<and> s' = s))
      (case x of (d, c) \<Rightarrow> Inr (None, clear_rsrc i (release_resource (rsrc_start (W_rsrc w))
                   (upd_window i (\<lambda>w. w\<lparr>W_desc := d\<rparr>)
                      (iounmap (kernel_va (W_desc w)) (upd_window i (\<lambda>_. w1) s)\<lparr>V_chip := c\<rparr>)))))"
      using x True by (simp add: t_def)
  qed
qed

section \<open>Under a mutex\<close>

text \<open>The caller holds no mutex; while a function body runs it holds that of window \<open>i\<close>.\<close>

definition lock_taken :: "nat \<Rightarrow> vme_state \<Rightarrow> vme_state" where
  "lock_taken i s = s\<lparr>waits := Suc (waits s), held := [i]\<rparr>"

definition lock_given :: "vme_state \<Rightarrow> vme_state" where
  "lock_given s = s\<lparr>held := []\<rparr>"

lemma lock_simps [simp]:
  "the_window j (lock_taken i s) = the_window j s" "the_window j (lock_given s) = the_window j s"
  "vme_ok (lock_taken i s) = vme_ok s" "vme_ok (lock_given s) = vme_ok s"
  "held (lock_taken i s) = [i]" "held (lock_given s) = []" "V_chip (lock_taken i s) = V_chip s" "V_chip (lock_given s) = V_chip s"
  "iomaps (lock_taken i s) = iomaps s" "iomaps (lock_given s) = iomaps s"
  "regions (lock_taken i s) = regions s" "regions (lock_given s) = regions s"
  "unlocked (lock_taken i s) = unlocked s" "unlocked (lock_given s) = unlocked s"
  "user_maps (lock_taken i s) = user_maps s" "user_maps (lock_given s) = user_maps s"
  "window_table (lock_taken i s) = window_table s" "window_table (lock_given s) = window_table s"
  by (simp_all add: lock_taken_def lock_given_def)

lemma lock_eq:
  "held s = [] \<Longrightarrow> mutex_lock_interruptible k i s =
     Inr (if signalled k (waits s) then (False, s\<lparr>waits := Suc (waits s)\<rparr>) else (True, lock_taken i s))"
  by (simp add: mutex_lock_interruptible_def lock_taken_def)

lemma unlock_eq: "held s = [i] \<Longrightarrow> mutex_unlock i s = Inr (lock_given s)"
  by (simp add: mutex_unlock_def lock_given_def)

lemma with_mutex_good:
  assumes "held s = []" "\<not> signalled k (waits s) \<Longrightarrow> good (\<lambda>(x, s'). held s' = [i] \<and> Q x (lock_given s')) (f (lock_taken i s))"
    "signalled k (waits s) \<Longrightarrow> Q r (s\<lparr>waits := Suc (waits s)\<rparr>)"
  shows "good (\<lambda>(x, s'). held s' = [] \<and> Q x s') (with_mutex k i r f s)"
proof (cases "signalled k (waits s)")
  case True
  then show ?thesis using assms(1,3) by (simp add: with_mutex_def lock_eq)
next
  case False
  have "good (\<lambda>(x, s'). held s' = [] \<and> Q x s') (bind_r (f (lock_taken i s)) (\<lambda>(x, s2). bind_r (mutex_unlock i s2) (\<lambda>s3. Inr (x, s3))))"
    by (rule good_bind [OF assms(2) [OF False]]) (auto simp: unlock_eq split: prod.splits)
  then show ?thesis using False assms(1) by (simp add: with_mutex_def lock_eq)
qed

definition calm :: "vkernel \<Rightarrow> bool" where
  "calm k \<longleftrightarrow> (\<forall>n. \<not> signalled k n)"

text \<open>The outcome of the entry points that create and destroy windows.\<close>

lemma round_window_aligned:
  "vme_addrl (round_window d) AND 0xffff = 0" "sizel (round_window d) AND 0xffff = 0"
  using high16_aligned [of "vme_addrl d"] high16_aligned [of "sizel d + 0x10000"]
  by (simp_all add: round_window_def Let_def)

lemma round_window_num [simp]: "window_num (round_window d) = window_num d"
  by (simp add: round_window_def Let_def)

definition rsrc_only :: "vme_state \<Rightarrow> vme_state \<Rightarrow> bool" where
  "rsrc_only s s' \<longleftrightarrow> V_chip s' = V_chip s \<and> iomaps s' = iomaps s \<and> regions s' = regions s \<and>
     (\<forall>j. \<exists>r. the_window j s' = (the_window j s)\<lparr>W_rsrc := r\<rparr>)"

lemma same_rsrc: "\<exists>r. w = w\<lparr>W_rsrc := r\<rparr>"
  by (rule exI [of _ "W_rsrc w"]) simp

lemma rsrc_only_same: "rsrc_only s (s\<lparr>waits := n\<rparr>)" "rsrc_only s s"
  by (simp_all add: rsrc_only_def same_rsrc)

lemma not_created_rsrc: "others_same i s s' \<Longrightarrow> not_created i s s' \<Longrightarrow> rsrc_only s s'"
  unfolding rsrc_only_def others_same_def not_created_def by (metis same_rsrc)

text \<open>What every entry point keeps.\<close>

definition entry_ok :: "vme_state \<Rightarrow> vme_state \<Rightarrow> bool" where
  "entry_ok s s' \<longleftrightarrow> held s' = [] \<and> vme_ok s' \<and> user_maps s' = user_maps s"

lemma vme_create_window_good:
  assumes "vme_ok s" "held s = []" "bus_ok k"
  shows "good (\<lambda>((rc, d'), s'). entry_ok s s' \<and> unlocked s' = unlocked s \<and>
     (if rc = None then \<exists>i < TSI148_NUM_OUT_WINDOWS. window_num d = of_nat i \<and> others_same i s s' \<and> created i (round_window d) s d' s'
      else rsrc_only s s')) (vme_create_window k d s)"
proof (cases "in_table (window_num d) \<and> sizel d \<noteq> 0")
  case False
  then show ?thesis using assms by (auto simp: vme_create_window_def entry_ok_def rsrc_only_same)
next
  case True
  then obtain i where i: "i < TSI148_NUM_OUT_WINDOWS" "window_index (window_num d) = i" "window_num d = of_nat i"
    using in_tableE [of "window_num d"] by blast
  have n: "window_num (round_window d) = of_nat i" using i(3) by simp
  let ?Q = "\<lambda>(x :: errno option \<times> vme_mapping) s'. case x of (rc, d') \<Rightarrow> vme_ok s' \<and> unlocked s' = unlocked s \<and> user_maps s' = user_maps s \<and>
     (if rc = None then others_same i s s' \<and> created i (round_window d) s d' s' else rsrc_only s s')"
  have "good (\<lambda>(x, s'). held s' = [] \<and> ?Q x s') (with_mutex k i (Some ERESTARTSYS, round_window d) (create_locked k i (round_window d)) s)"
  proof (rule with_mutex_good [OF assms(2)])
    have ok: "vme_ok (lock_taken i s)" using assms(1) by simp
    show "good (\<lambda>(x, s'). held s' = [i] \<and> ?Q x (lock_given s')) (create_locked k i (round_window d) (lock_taken i s))"
      by (rule good_mono [OF create_locked_good [OF ok i(1) assms(3) n round_window_aligned]])
        (auto simp: same_rest_def others_same_def created_def not_created_def rsrc_only_def same_rsrc split: if_splits)
    show "?Q (Some ERESTARTSYS, round_window d) (s\<lparr>waits := Suc (waits s)\<rparr>)" using assms(1) by (simp add: rsrc_only_same)
  qed
  then have "good (\<lambda>(x, s'). held s' = [] \<and> ?Q x s') (vme_create_window k d s)"
    using True i(2) by (simp add: vme_create_window_def Let_def)
  then show ?thesis by (rule good_mono) (use i in \<open>auto simp: entry_ok_def split: if_splits\<close>)
qed

lemma vme_destroy_window_good:
  assumes "vme_ok s" "held s = []"
  shows "good (\<lambda>(rc, s'). entry_ok s s' \<and> unlocked s' = unlocked s \<and>
     (calm k \<and> in_table n \<and> W_active (the_window (window_index n) s) \<longrightarrow> rc = None) \<and>
     (if rc = None then \<exists>i < TSI148_NUM_OUT_WINDOWS. n = of_nat i \<and> W_active (the_window i s) \<and> others_same i s s' \<and> destroyed i s s'
      else rsrc_only s s')) (vme_destroy_window k n s)"
proof (cases "in_table n")
  case False
  then show ?thesis using assms by (simp add: vme_destroy_window_def entry_ok_def rsrc_only_same)
next
  case True
  then obtain i where i: "i < TSI148_NUM_OUT_WINDOWS" "window_index n = i" "n = of_nat i"
    using in_tableE [of n] by blast
  let ?Q = "\<lambda>rc s'. vme_ok s' \<and> unlocked s' = unlocked s \<and> user_maps s' = user_maps s \<and> (calm k \<and> W_active (the_window i s) \<longrightarrow> rc = None) \<and>
     (if rc = None then W_active (the_window i s) \<and> others_same i s s' \<and> destroyed i s s' else rsrc_only s s')"
  have "good (\<lambda>(x, s'). held s' = [] \<and> ?Q x s') (with_mutex k i (Some ERESTARTSYS) (destroy_locked i) s)"
  proof (rule with_mutex_good [OF assms(2)])
    have ok: "vme_ok (lock_taken i s)" using assms(1) by simp
    show "good (\<lambda>(x, s'). held s' = [i] \<and> ?Q x (lock_given s')) (destroy_locked i (lock_taken i s))"
      by (rule good_mono [OF destroy_locked_good [OF ok i(1)]])
        (auto simp: same_rest_def others_same_def destroyed_def rsrc_only_def same_rsrc split: if_splits)
    show "?Q (Some ERESTARTSYS) (s\<lparr>waits := Suc (waits s)\<rparr>)" if "signalled k (waits s)"
      using assms(1) that by (auto simp: rsrc_only_same calm_def)
  qed
  then have "good (\<lambda>(x, s'). held s' = [] \<and> ?Q x s') (vme_destroy_window k n s)"
    using True i(2) by (simp add: vme_destroy_window_def)
  then show ?thesis by (rule good_mono) (use i in \<open>auto simp: entry_ok_def split: if_splits\<close>)
qed

section \<open>Finding a mapping\<close>

text \<open>The request \<open>m\<close> was placed in window \<open>i\<close> and appended to its mappings.\<close>

definition mapped :: "vkernel \<Rightarrow> nat \<Rightarrow> vme_mapping \<Rightarrow> vme_mapping \<Rightarrow> fileptr \<Rightarrow> vme_state \<Rightarrow> vme_state \<Rightarrow> bool" where
  "mapped k i m m' fp s s' \<longleftrightarrow> m' = place_mapping i (W_desc (the_window i s)) m \<and>
     the_window i s' = (the_window i s)\<lparr>W_mappings := W_mappings (the_window i s) @ [new_mapping k m' fp],
                                         W_users := W_users (the_window i s) + 1\<rparr> \<and>
     others_same i s s' \<and> V_chip s' = V_chip s \<and> iomaps s' = iomaps s \<and> regions s' = regions s"

definition same_world :: "vme_state \<Rightarrow> vme_state \<Rightarrow> bool" where
  "same_world s s' \<longleftrightarrow> (\<exists>n. s' = s\<lparr>waits := n\<rparr>)"

lemma same_world_refl: "same_world s s" "same_world s (s\<lparr>waits := n\<rparr>)"
  unfolding same_world_def by (rule exI [of _ "waits s"], simp, blast)

lemma same_world_trans: "same_world s1 s2 \<Longrightarrow> same_world s2 s3 \<Longrightarrow> same_world s1 s3"
  by (auto simp: same_world_def)

lemma same_worldD:
  "same_world s s' \<Longrightarrow> vme_ok s' = vme_ok s" "same_world s s' \<Longrightarrow> the_window j s' = the_window j s"
  "same_world s s' \<Longrightarrow> held s' = held s" "same_world s s' \<Longrightarrow> unlocked s' = unlocked s" "same_world s s' \<Longrightarrow> user_maps s' = user_maps s"
  "same_world s s' \<Longrightarrow> V_chip s' = V_chip s" "same_world s s' \<Longrightarrow> iomaps s' = iomaps s" "same_world s s' \<Longrightarrow> regions s' = regions s"
  by (auto simp: same_world_def)

lemma lock_pair: "held s = [] \<Longrightarrow> lock_given (lock_taken i s) = s\<lparr>waits := Suc (waits s)\<rparr>"
  by (simp add: lock_given_def lock_taken_def)

lemma mapping_in_place:
  "mapping_in i wd (new_mapping k (place_mapping i wd m) fp)"
  by (simp add: mapping_in_def new_mapping_def place_mapping_def Let_def)

lemma attach_mapping_good:
  assumes "vme_ok s" "i < TSI148_NUM_OUT_WINDOWS" "W_active (the_window i s)"
  shows "case attach_mapping k i m fp s of ((rc, m'), s') \<Rightarrow> vme_ok s' \<and> held s' = held s \<and> user_maps s' = user_maps s \<and>
     (if rc = None then mapped k i m m' fp s s' \<and> unlocked s' = (if i \<in> set (held s) then unlocked s else unlocked s @ [i])
      else rc = Some ENOMEM \<and> s' = s)"
proof (cases "kzalloc_ok k")
  case False
  then show ?thesis using assms by (simp add: attach_mapping_def add_mapping_def)
next
  case True
  let ?wd = "W_desc (the_window i s)"
  let ?m = "new_mapping k (place_mapping i ?wd m) fp"
  let ?ms = "W_mappings (the_window i s) @ [?m]"
  have w: "window_ok (V_chip s) i (the_window i s)" and len: "i < length (window_table s)" using assms by (simp_all add: vme_ok_def)
  have eq: "upd_window i (\<lambda>w. w\<lparr>W_mappings := W_mappings w @ [?m], W_users := W_users w + 1\<rparr>) (note_access i s)
      = upd_window i (\<lambda>w. w\<lparr>W_mappings := ?ms, W_users := int (length ?ms)\<rparr>) (note_access i s)"
    using w by (intro upd_window_cong) (simp add: window_ok_def)
  have "vme_ok (upd_window i (\<lambda>w. w\<lparr>W_mappings := ?ms, W_users := int (length ?ms)\<rparr>) (note_access i s))"
    using w assms by (intro vme_ok_mappings) (auto simp: window_ok_def mapping_in_place)
  then show ?thesis
    using True len w unfolding attach_mapping_def add_mapping_def Let_def
    by (simp add: eq) (simp add: mapped_def the_window_upd others_same_def window_ok_def)
qed

lemma find_loop_good:
  assumes "vme_ok s" "held s = []" "set ks \<subseteq> {..< TSI148_NUM_OUT_WINDOWS}"
  shows "good (\<lambda>(r, s'). vme_ok s' \<and> held s' = [] \<and> user_maps s' = user_maps s \<and> unlocked s' = unlocked s \<and>
     (case r of
        None \<Rightarrow> same_world s s' \<and> (\<forall>i \<in> set ks. \<not> window_matches (the_window i s) m)
      | Some (rc, m') \<Rightarrow> if rc = None then \<exists>i \<in> set ks. window_matches (the_window i s) m \<and> mapped k i m m' fp s s'
                         else same_world s s')) (find_loop k m fp ks s)"
  using assms
proof (induction ks arbitrary: s)
  case Nil
  then show ?case by (simp add: same_world_refl)
next
  case (Cons i ks)
  have i: "i < TSI148_NUM_OUT_WINDOWS" using Cons.prems(3) by simp
  show ?case
  proof (cases "signalled k (waits s)")
    case True
    then show ?thesis using Cons.prems by (simp add: lock_eq same_world_refl)
  next
    case go: False
    show ?thesis
    proof (cases "window_matches (the_window i s) m")
      case True
      obtain rc m' s2 where a: "attach_mapping k i m fp (lock_taken i s) = ((rc, m'), s2)" by (metis prod.exhaust)
      have "W_active (the_window i (lock_taken i s))" using True by (simp add: window_matches_def)
      then have h: "vme_ok s2 \<and> held s2 = [i] \<and> user_maps s2 = user_maps s \<and>
          (if rc = None then mapped k i m m' fp (lock_taken i s) s2 \<and> unlocked s2 = unlocked s else rc = Some ENOMEM \<and> s2 = lock_taken i s)"
        using attach_mapping_good [of "lock_taken i s" i k m fp] Cons.prems(1) i a by simp
      have "mapped k i m m' fp (lock_taken i s) s2 \<Longrightarrow> mapped k i m m' fp s (lock_given s2)"
        by (simp add: mapped_def others_same_def)
      then show ?thesis
        using h True go Cons.prems(2) by (auto simp: lock_eq a unlock_eq lock_pair same_world_refl)
    next
      case False
      let ?s = "s\<lparr>waits := Suc (waits s)\<rparr>"
      have m: "mapped k j m m' fp ?s s' = mapped k j m m' fp s s'" for j m' s'
        by (simp add: mapped_def others_same_def)
      have IH: "good (\<lambda>(r, s'). vme_ok s' \<and> held s' = [] \<and> user_maps s' = user_maps s \<and> unlocked s' = unlocked s \<and>
          (case r of
             None \<Rightarrow> same_world ?s s' \<and> (\<forall>i \<in> set ks. \<not> window_matches (the_window i s) m)
           | Some (rc, m') \<Rightarrow> if rc = None then \<exists>i \<in> set ks. window_matches (the_window i s) m \<and> mapped k i m m' fp s s'
                              else same_world ?s s')) (find_loop k m fp ks ?s)"
        by (rule good_mono [OF Cons.IH [of ?s]]) (use Cons.prems in \<open>auto simp: m split: option.splits if_splits\<close>)
      have "find_loop k m fp (i # ks) s = find_loop k m fp ks ?s"
        using go False Cons.prems(2) by (simp add: lock_eq unlock_eq lock_pair)
      then show ?thesis
        using IH False same_world_trans [OF same_world_refl(2) [of s "Suc (waits s)"]]
        by (auto elim!: good_mono split: option.splits if_splits)
    qed
  qed
qed

lemma unused_window_Some:
  "unused_window s = Some i \<Longrightarrow> i < TSI148_NUM_OUT_WINDOWS \<and> \<not> W_active (the_window i s)"
  unfolding unused_window_def by (auto simp: find_Some_iff)

text \<open>Where a found mapping lies: in a window that matched, or in a new one.\<close>

definition found_old :: "vkernel \<Rightarrow> nat \<Rightarrow> vme_mapping \<Rightarrow> vme_mapping \<Rightarrow> fileptr \<Rightarrow> vme_state \<Rightarrow> vme_state \<Rightarrow> bool" where
  "found_old k i m m' fp s s' \<longleftrightarrow> window_matches (the_window i s) m \<and> mapped k i m m' fp s s' \<and> unlocked s' = unlocked s"

definition wanted_window :: "nat \<Rightarrow> vme_mapping \<Rightarrow> vme_mapping" where
  "wanted_window i m = round_window (vme_optimize_window_size (m\<lparr>window_num := of_nat i\<rparr>))"

definition found_new :: "vkernel \<Rightarrow> nat \<Rightarrow> vme_mapping \<Rightarrow> vme_mapping \<Rightarrow> fileptr \<Rightarrow> vme_state \<Rightarrow> vme_state \<Rightarrow> bool" where
  "found_new k i m m' fp s s' \<longleftrightarrow> (\<forall>j < TSI148_NUM_OUT_WINDOWS. \<not> window_matches (the_window j s) m) \<and>
     (\<exists>s1 d. vme_ok s1 \<and> others_same i s s1 \<and> created i (wanted_window i m) s d s1 \<and> mapped k i m m' fp s1 s' \<and>
        unlocked s' = unlocked s @ [i])"

lemma word_of_nat_window:
  "(of_nat i :: i32) = of_nat j \<Longrightarrow> i < TSI148_NUM_OUT_WINDOWS \<Longrightarrow> j < TSI148_NUM_OUT_WINDOWS \<Longrightarrow> i = j"
  by (metis in_table_of_nat(2))

lemma optimize_num [simp]: "window_num (vme_optimize_window_size d) = window_num d"
  by (simp add: vme_optimize_window_size_def Let_def)

lemma find_good:
  assumes "vme_ok s" "held s = []" "bus_ok k"
  shows "good (\<lambda>((rc, m'), s'). entry_ok s s' \<and>
     (rc = None \<longrightarrow> vme_mapping_sanity_check m \<and>
        (\<exists>i < TSI148_NUM_OUT_WINDOWS. found_old k i m m' fp s s' \<or> found_new k i m m' fp s s')))
   (do_vme_find_mapping k m force fp s)"
proof (cases "vme_mapping_sanity_check m")
  case False
  then show ?thesis using assms by (simp add: do_vme_find_mapping_def entry_ok_def)
next
  case sane: True
  let ?P = "\<lambda>((rc, m'), s'). entry_ok s s' \<and> (rc = None \<longrightarrow> vme_mapping_sanity_check m \<and>
        (\<exists>i < TSI148_NUM_OUT_WINDOWS. found_old k i m m' fp s s' \<or> found_new k i m m' fp s s'))"
  have new: "good ?P (bind_r (vme_create_window k (vme_optimize_window_size (m\<lparr>window_num := of_nat i\<rparr>)) s1) (\<lambda>((rc, wnd), s2).
                  if rc \<noteq> None then Inr ((rc, m), s2) else Inr (attach_mapping k (window_index (window_num wnd)) m fp s2)))"
    if s1: "same_world s s1" "\<forall>j < TSI148_NUM_OUT_WINDOWS. \<not> window_matches (the_window j s) m" and i: "i < TSI148_NUM_OUT_WINDOWS" for i s1
  proof -
    let ?d = "vme_optimize_window_size (m\<lparr>window_num := of_nat i\<rparr>)"
    have cr: "good (\<lambda>((rc, d'), s2). entry_ok s s2 \<and> unlocked s2 = unlocked s \<and>
        (rc = None \<longrightarrow> others_same i s s2 \<and> created i (wanted_window i m) s d' s2)) (vme_create_window k ?d s1)"
      by (rule good_mono [OF vme_create_window_good [of s1 k ?d]])
        (use assms s1 i in \<open>auto simp: same_worldD entry_ok_def wanted_window_def others_same_def created_def split: if_splits
           dest: word_of_nat_window\<close>)
    show ?thesis
    proof (rule good_bind [OF cr])
    fix x :: "(errno option \<times> vme_mapping) \<times> vme_state"
    obtain rc d' s2 where x: "x = ((rc, d'), s2)" by (metis prod.exhaust)
    assume h: "(\<lambda>((rc, d'), s2). entry_ok s s2 \<and> unlocked s2 = unlocked s \<and>
        (rc = None \<longrightarrow> others_same i s s2 \<and> created i (wanted_window i m) s d' s2)) x"
    show "good ?P ((\<lambda>((rc, wnd), s2).
        if rc \<noteq> None then Inr ((rc, m), s2) else Inr (attach_mapping k (window_index (window_num wnd)) m fp s2)) x)"
    proof (cases "rc = None")
      case False
      then show ?thesis using h x by auto
    next
      case True
      then have c: "entry_ok s s2" "others_same i s s2" "created i (wanted_window i m) s d' s2" "unlocked s2 = unlocked s" using h x by auto
      have num: "window_index (window_num d') = i"
        using c(3) i by (auto simp: created_def wanted_window_def in_table_of_nat)
      obtain rc m' s3 where a: "attach_mapping k i m fp s2 = ((rc, m'), s3)" by (metis prod.exhaust)
      have "vme_ok s3 \<and> held s3 = held s2 \<and> user_maps s3 = user_maps s2 \<and>
          (if rc = None then mapped k i m m' fp s2 s3 \<and> unlocked s3 = (if i \<in> set (held s2) then unlocked s2 else unlocked s2 @ [i])
           else rc = Some ENOMEM \<and> s3 = s2)"
        using attach_mapping_good [of s2 i k m fp] c(1,3) i a by (simp add: entry_ok_def created_def)
      then have "entry_ok s s3" "rc = None \<longrightarrow> mapped k i m m' fp s2 s3 \<and> unlocked s3 = unlocked s @ [i]"
        using c(1,4) by (auto simp: entry_ok_def)
      moreover have "vme_ok s2" using c(1) by (simp add: entry_ok_def)
      ultimately show ?thesis
        using True x a num i sane c(2,3) s1(2) by (auto simp: found_new_def)
    qed
    qed
  qed
  have unf: "do_vme_find_mapping k m force fp s = bind_r (find_loop k m fp [0 ..< TSI148_NUM_OUT_WINDOWS] s) (\<lambda>(r, s1).
        case r of
          Some x \<Rightarrow> Inr (x, s1)
        | None \<Rightarrow> if force = 0 then Inr ((Some EBUSY, m), s1)
            else case unused_window s1 of
              None \<Rightarrow> Inr ((Some EBUSY, m), s1)
            | Some i \<Rightarrow> bind_r (vme_create_window k (vme_optimize_window_size (m\<lparr>window_num := of_nat i\<rparr>)) s1) (\<lambda>((rc, wnd), s2).
                  if rc \<noteq> None then Inr ((rc, m), s2)
                  else Inr (attach_mapping k (window_index (window_num wnd)) m fp s2)))"
    using sane by (simp add: do_vme_find_mapping_def)
  have range: "set [0 ..< TSI148_NUM_OUT_WINDOWS] \<subseteq> {..< TSI148_NUM_OUT_WINDOWS}" by auto
  show ?thesis unfolding unf
  proof (rule good_bind [OF find_loop_good [OF assms(1,2) range, where k = k and m = m and fp = fp]])
    fix x :: "(errno option \<times> vme_mapping) option \<times> vme_state"
    obtain r s1 where x: "x = (r, s1)" by (cases x)
    assume h: "case x of (r, s') \<Rightarrow> vme_ok s' \<and> held s' = [] \<and> user_maps s' = user_maps s \<and> unlocked s' = unlocked s \<and>
     (case r of
        None \<Rightarrow> same_world s s' \<and> (\<forall>i \<in> set [0 ..< TSI148_NUM_OUT_WINDOWS]. \<not> window_matches (the_window i s) m)
      | Some (rc, m') \<Rightarrow> if rc = None then \<exists>i \<in> set [0 ..< TSI148_NUM_OUT_WINDOWS]. window_matches (the_window i s) m \<and> mapped k i m m' fp s s'
                         else same_world s s')"
    show "good ?P (case x of (r, s1) \<Rightarrow> case r of
          Some x \<Rightarrow> Inr (x, s1)
        | None \<Rightarrow> if force = 0 then Inr ((Some EBUSY, m), s1)
            else case unused_window s1 of
              None \<Rightarrow> Inr ((Some EBUSY, m), s1)
            | Some i \<Rightarrow> bind_r (vme_create_window k (vme_optimize_window_size (m\<lparr>window_num := of_nat i\<rparr>)) s1) (\<lambda>((rc, wnd), s2).
                  if rc \<noteq> None then Inr ((rc, m), s2)
                  else Inr (attach_mapping k (window_index (window_num wnd)) m fp s2)))"
    proof (cases r)
      case None
      then have "good ?P (Inr ((Some EBUSY, m), s1))" "same_world s s1" "\<forall>j < TSI148_NUM_OUT_WINDOWS. \<not> window_matches (the_window j s) m"
        using h x by (simp_all add: entry_ok_def)
      then show ?thesis using None x new [of s1] unused_window_Some [of s1] by (auto split: option.splits)
    next
      case (Some y)
      obtain rc m' where "y = (rc, m')" by (cases y)
      then show ?thesis using h x Some sane by (auto simp: entry_ok_def found_old_def split: if_splits)
    qed
  qed
qed

section \<open>Releasing a mapping\<close>

definition unmapped :: "nat \<Rightarrow> mapping list \<Rightarrow> vme_state \<Rightarrow> vme_state \<Rightarrow> bool" where
  "unmapped i ms s s' \<longleftrightarrow> the_window i s' = (the_window i s)\<lparr>W_mappings := ms, W_users := int (length ms)\<rparr> \<and>
     others_same i s s' \<and> V_chip s' = V_chip s \<and> iomaps s' = iomaps s \<and> regions s' = regions s"

lemma drop_first_Some:
  "drop_first P xs = Some ys \<Longrightarrow> \<exists>us x vs. xs = us @ x # vs \<and> P x \<and> (\<forall>u \<in> set us. \<not> P u) \<and> ys = us @ vs"
proof (induction xs arbitrary: ys)
  case (Cons a xs)
  show ?case
  proof (cases "P a")
    case True
    then show ?thesis using Cons.prems by (intro exI [of _ "[]"]) auto
  next
    case False
    then obtain zs where z: "drop_first P xs = Some zs" "ys = a # zs" using Cons.prems by auto
    then obtain us x vs where "xs = us @ x # vs \<and> P x \<and> (\<forall>u \<in> set us. \<not> P u) \<and> zs = us @ vs" using Cons.IH by blast
    then show ?thesis using z False by (intro exI [of _ "a # us"]) auto
  qed
qed simp

lemma drop_first_None: "drop_first P xs = None \<longleftrightarrow> (\<forall>x \<in> set xs. \<not> P x)"
  by (induction xs) auto

lemma remove_mapping_good:
  assumes "vme_ok s" "i < TSI148_NUM_OUT_WINDOWS" "W_active (the_window i s)" "i \<in> set (held s)"
  shows "case remove_mapping i d fp s of (rc, s') \<Rightarrow> vme_ok s' \<and> same_rest s s' \<and>
     (case drop_first (same_mapping d fp) (W_mappings (the_window i s)) of
        None \<Rightarrow> rc = Some EINVAL \<and> s' = s
      | Some ms \<Rightarrow> rc = None \<and> unmapped i ms s s')"
proof (cases "drop_first (same_mapping d fp) (W_mappings (the_window i s))")
  case None
  then show ?thesis using assms(1) by (simp add: remove_mapping_def same_rest_def)
next
  case (Some ms)
  have w: "window_ok (V_chip s) i (the_window i s)" and len: "i < length (window_table s)" using assms(1,2) by (simp_all add: vme_ok_def)
  obtain us x vs where split: "W_mappings (the_window i s) = us @ x # vs" "ms = us @ vs" using drop_first_Some [OF Some] by blast
  have eq: "upd_window i (\<lambda>w. w\<lparr>W_mappings := ms, W_users := W_users w - 1\<rparr>) (note_access i s)
      = upd_window i (\<lambda>w. w\<lparr>W_mappings := ms, W_users := int (length ms)\<rparr>) (note_access i s)"
    using w split by (intro upd_window_cong) (simp add: window_ok_def)
  have "vme_ok (upd_window i (\<lambda>w. w\<lparr>W_mappings := ms, W_users := int (length ms)\<rparr>) (note_access i s))"
    using w split assms by (intro vme_ok_mappings) (auto simp: window_ok_def)
  then show ?thesis using Some assms(4) len
    by (simp add: remove_mapping_def eq) (simp add: unmapped_def same_rest_def the_window_upd others_same_def)
qed

definition release_done :: "vme_mapping \<Rightarrow> u32 \<Rightarrow> fileptr \<Rightarrow> nat \<Rightarrow> vme_state \<Rightarrow> vme_state \<Rightarrow> bool" where
  "release_done d force fp i s s' \<longleftrightarrow>
     (\<exists>ms. drop_first (same_mapping d fp) (W_mappings (the_window i s)) = Some ms \<and>
        (if ms = [] \<and> force \<noteq> 0 then others_same i s s' \<and> destroyed i s s' else unmapped i ms s s'))"

lemma release_good:
  assumes "vme_ok s" "held s = []"
  shows "good (\<lambda>(rc, s'). entry_ok s s' \<and> unlocked s' = unlocked s \<and>
     (rc = None \<longrightarrow> (\<exists>i < TSI148_NUM_OUT_WINDOWS. window_num d = of_nat i \<and> release_done d force fp i s s')) \<and>
     (calm k \<and> in_table (window_num d) \<and> (\<exists>m \<in> set (W_mappings (the_window (window_index (window_num d)) s)). same_mapping d fp m)
        \<longrightarrow> rc = None)) (do_vme_release_mapping k d force fp s)"
proof (cases "in_table (window_num d)")
  case False
  then show ?thesis using assms by (simp add: do_vme_release_mapping_def entry_ok_def)
next
  case True
  then obtain i where i: "i < TSI148_NUM_OUT_WINDOWS" "window_index (window_num d) = i" "window_num d = of_nat i"
    using in_tableE [of "window_num d"] by blast
  have w: "window_ok (V_chip s) i (the_window i s)" using assms(1) i(1) by (simp add: vme_ok_def)
  let ?drop = "drop_first (same_mapping d fp) (W_mappings (the_window i s))"
  let ?Q = "\<lambda>(x :: errno option \<times> bool) s'. case x of (rc, gone) \<Rightarrow> vme_ok s' \<and> unlocked s' = unlocked s \<and> user_maps s' = user_maps s \<and>
     (calm k \<and> ?drop \<noteq> None \<longrightarrow> rc = None) \<and>
     (rc = None \<longrightarrow> (\<exists>ms. ?drop = Some ms \<and> W_active (the_window i s) \<and> unmapped i ms s s' \<and> (gone \<longleftrightarrow> ms = [] \<and> force \<noteq> 0))) \<and>
     (rc \<noteq> None \<longrightarrow> \<not> gone)"
  have locked: "good (\<lambda>(x, s'). held s' = [] \<and> ?Q x s') (with_mutex k i (Some ERESTARTSYS, False) (release_locked i d force fp) s)"
  proof (rule with_mutex_good [OF assms(2)])
    show "?Q (Some ERESTARTSYS, False) (s\<lparr>waits := Suc (waits s)\<rparr>)" if "signalled k (waits s)"
      using assms(1) that by (auto simp: calm_def)
    show "good (\<lambda>(x, s'). held s' = [i] \<and> ?Q x (lock_given s')) (release_locked i d force fp (lock_taken i s))"
    proof (cases "W_active (the_window i s)")
      case False
      then have "W_mappings (the_window i s) = []" using w by (simp add: window_ok_def)
      then show ?thesis using False assms(1) by (simp add: release_locked_def)
    next
      case act: True
      obtain rc s2 where r: "remove_mapping i d fp (lock_taken i s) = (rc, s2)" by (cases "remove_mapping i d fp (lock_taken i s)")
      have h: "vme_ok s2 \<and> same_rest (lock_taken i s) s2 \<and>
         (case ?drop of None \<Rightarrow> rc = Some EINVAL \<and> s2 = lock_taken i s | Some ms \<Rightarrow> rc = None \<and> unmapped i ms (lock_taken i s) s2)"
        using remove_mapping_good [of "lock_taken i s" i d fp] assms(1) i(1) act r by simp
      have um: "unmapped i ms (lock_taken i s) s2 \<Longrightarrow> unmapped i ms s (lock_given s2) \<and> W_users (the_window i s2) = int (length ms)" for ms
        by (simp add: unmapped_def others_same_def)
      show ?thesis
        using h act r um by (auto simp: release_locked_def same_rest_def split: option.splits)
    qed
  qed
  have rel: "do_vme_release_mapping k d force fp s = bind_r (with_mutex k i (Some ERESTARTSYS, False) (release_locked i d force fp) s)
      (\<lambda>((rc, gone), s1). if gone then vme_destroy_window k (window_num d) s1 else Inr (rc, s1))"
    using True i(2) by (simp add: do_vme_release_mapping_def)
  show ?thesis unfolding rel
  proof (rule good_bind [OF locked])
    fix x :: "(errno option \<times> bool) \<times> vme_state"
    obtain rc gone s1 where x: "x = ((rc, gone), s1)" by (metis prod.exhaust)
    assume "(\<lambda>(x, s'). held s' = [] \<and> ?Q x s') x"
    then have h: "held s1 = []" "vme_ok s1" "unlocked s1 = unlocked s" "user_maps s1 = user_maps s" "calm k \<and> ?drop \<noteq> None \<longrightarrow> rc = None"
      "rc = None \<longrightarrow> (\<exists>ms. ?drop = Some ms \<and> W_active (the_window i s) \<and> unmapped i ms s s1 \<and> (gone \<longleftrightarrow> ms = [] \<and> force \<noteq> 0))"
      "rc \<noteq> None \<longrightarrow> \<not> gone"
      using x by auto
    have drop: "(\<exists>m \<in> set (W_mappings (the_window i s)). same_mapping d fp m) \<longleftrightarrow> ?drop \<noteq> None"
      by (simp add: drop_first_None)
    show "good (\<lambda>(rc, s'). entry_ok s s' \<and> unlocked s' = unlocked s \<and>
     (rc = None \<longrightarrow> (\<exists>i < TSI148_NUM_OUT_WINDOWS. window_num d = of_nat i \<and> release_done d force fp i s s')) \<and>
     (calm k \<and> in_table (window_num d) \<and> (\<exists>m \<in> set (W_mappings (the_window (window_index (window_num d)) s)). same_mapping d fp m)
        \<longrightarrow> rc = None)) ((\<lambda>((rc, gone), s1). if gone then vme_destroy_window k (window_num d) s1 else Inr (rc, s1)) x)"
    proof (cases gone)
      case False
      then show ?thesis using x h i drop by (auto simp: entry_ok_def release_done_def)
    next
      case True
      then obtain ms where ms: "?drop = Some ms" "W_active (the_window i s)" "unmapped i ms s s1" "ms = []" "force \<noteq> 0" using h(6,7) by auto
      have act: "W_active (the_window i s1)" "W_desc (the_window i s1) = W_desc (the_window i s)"
        using ms(2,3) by (simp_all add: unmapped_def)
      have tab: "in_table (window_num d)" by (rule \<open>in_table (window_num d)\<close>)
      have "good (\<lambda>(rc, s'). entry_ok s1 s' \<and> unlocked s' = unlocked s1 \<and> (calm k \<longrightarrow> rc = None) \<and>
          (rc = None \<longrightarrow> others_same i s1 s' \<and> destroyed i s1 s')) (vme_destroy_window k (window_num d) s1)"
        by (rule good_mono [OF vme_destroy_window_good [OF h(2,1), of k "window_num d"]])
          (use act i tab in \<open>auto split: if_splits dest: word_of_nat_window\<close>)
      then show ?thesis
        using True x i ms(1,4,5) h(3,4) ms(3) act
        by (auto elim!: good_mono simp: entry_ok_def release_done_def unmapped_def destroyed_def others_same_def)
    qed
  qed
qed

section \<open>Entry points\<close>

definition vme_inv :: "vme_state \<Rightarrow> bool" where
  "vme_inv s \<longleftrightarrow> vme_ok s \<and> held s = []"

text \<open>
  The contract of an entry point of the driver: called with the invariant and no mutex held, it
  returns with both, whatever the kernel answers.
\<close>

locale entry_point =
  fixes op :: "vkernel \<Rightarrow> 'a \<Rightarrow> vme_state \<Rightarrow> ('r \<times> vme_state) result"
  assumes op_good: "vme_inv s \<Longrightarrow> bus_ok k \<Longrightarrow> good (\<lambda>(r, s'). vme_inv s') (op k x s)"
begin

lemma returns: "vme_inv s \<Longrightarrow> bus_ok k \<Longrightarrow> \<exists>r s'. op k x s = Inr (r, s') \<and> vme_inv s'"
  using op_good [of s k x] by (auto simp: good_iff)

lemma keeps: "vme_inv s \<Longrightarrow> bus_ok k \<Longrightarrow> op k x s = Inr (r, s') \<Longrightarrow> vme_inv s'"
  using op_good [of s k x] by simp

lemma calls:
  "vme_inv s \<Longrightarrow> \<forall>(k, x) \<in> set cs. bus_ok k \<Longrightarrow>
     good vme_inv (fold_r (\<lambda>(k, x) s. bind_r (op k x s) (\<lambda>(r, s'). Inr s')) cs s)"
  by (rule good_fold) (auto intro!: good_bind [OF op_good])

end

lemma entry_inv: "entry_ok s s' \<Longrightarrow> vme_inv s'"
  by (simp add: entry_ok_def vme_inv_def)

interpretation create: entry_point vme_create_window
  by unfold_locales (auto simp: vme_inv_def intro!: good_mono [OF vme_create_window_good] dest: entry_inv)

interpretation destroy: entry_point vme_destroy_window
  by unfold_locales (auto simp: vme_inv_def intro!: good_mono [OF vme_destroy_window_good] dest: entry_inv)

interpretation find: entry_point "\<lambda>k (m, force, fp). do_vme_find_mapping k m force fp"
  by unfold_locales (auto simp: vme_inv_def split: prod.splits intro!: good_mono [OF find_good] dest: entry_inv)

interpretation release: entry_point "\<lambda>k (d, force, fp). do_vme_release_mapping k d force fp"
  by unfold_locales (auto simp: vme_inv_def split: prod.splits intro!: good_mono [OF release_good] dest: entry_inv)

lemma get_window_attr_total:
  "in_table (window_num d) \<Longrightarrow> chip_ok c \<Longrightarrow> \<exists>d'. tsi148_get_window_attr d c = Inr d'"
  by (simp add: tsi148_get_window_attr_def Let_def in_table_def chip_ok_def)

lemma vme_get_window_attr_good:
  assumes "vme_inv s"
  shows "good (\<lambda>(r, s'). vme_inv s' \<and> same_world s s' \<and>
     (calm k \<and> in_table (window_num d) \<longrightarrow> fst r = None \<and>
        tsi148_get_window_attr (W_desc (the_window (window_index (window_num d)) s)) (V_chip s) = Inr (snd r)))
   (vme_get_window_attr k d s)"
proof (cases "in_table (window_num d)")
  case False
  then show ?thesis using assms by (simp add: vme_get_window_attr_def same_world_refl)
next
  case True
  then obtain i where i: "i < TSI148_NUM_OUT_WINDOWS" "window_index (window_num d) = i" using in_tableE [of "window_num d"] by blast
  have "window_ok (V_chip s) i (the_window i s)" "chip_ok (V_chip s)" using assms i(1) by (simp_all add: vme_inv_def vme_ok_def)
  then obtain d' where d': "tsi148_get_window_attr (W_desc (the_window i s)) (V_chip s) = Inr d'"
    using get_window_attr_total [of "W_desc (the_window i s)"] i(1)
    by (auto simp: window_ok_def desc_set_def in_table_of_nat split: if_splits)
  let ?Q = "\<lambda>r s'. vme_ok s' \<and> same_world s s' \<and> (calm k \<longrightarrow> r = (None, d'))"
  have "good (\<lambda>(r, s'). held s' = [] \<and> ?Q r s') (with_mutex k i (Some ERESTARTSYS, d) (\<lambda>s1.
          bind_r (tsi148_get_window_attr (W_desc (the_window i s1)) (V_chip s1)) (\<lambda>d1. Inr ((None, d1), s1))) s)"
    using assms by (intro with_mutex_good) (auto simp: d' lock_pair vme_inv_def same_world_refl calm_def)
  then show ?thesis using True i d' by (auto simp: vme_get_window_attr_def vme_inv_def elim!: good_mono)
qed

interpretation get_attr: entry_point vme_get_window_attr
  by unfold_locales (auto intro!: good_mono [OF vme_get_window_attr_good])

lemma addr_loop_good:
  assumes "vme_inv s"
  shows "good (\<lambda>(r, s'). vme_inv s' \<and> same_world s s' \<and>
     (\<forall>d. r = Some d \<longrightarrow> kernel_va d = a \<and> (\<exists>i \<in> set ks. \<exists>m \<in> set (W_mappings (the_window i s)). d = Mp_desc m)) \<and>
     (calm k \<and> r = None \<longrightarrow> (\<forall>i \<in> set ks. \<forall>m \<in> set (W_mappings (the_window i s)). kernel_va (Mp_desc m) \<noteq> a))) (addr_loop k a ks s)"
  using assms
proof (induction ks arbitrary: s)
  case Nil
  then show ?case by (simp add: same_world_refl)
next
  case (Cons i ks)
  let ?s = "s\<lparr>waits := Suc (waits s)\<rparr>"
  have inv: "vme_inv ?s" and h: "held s = []" using Cons.prems by (simp_all add: vme_inv_def)
  show ?case
  proof (cases "signalled k (waits s)")
    case True
    then show ?thesis using inv h by (auto simp: lock_eq same_world_refl calm_def)
  next
    case False
    show ?thesis
    proof (cases "find (\<lambda>m. kernel_va (Mp_desc m) = a) (W_mappings (the_window i s))")
      case (Some m)
      then show ?thesis using False h inv by (auto simp: lock_eq unlock_eq lock_pair same_world_refl dest!: find_SomeD)
    next
      case None
      then show ?thesis using False h
        by (simp add: lock_eq unlock_eq lock_pair)
          (rule good_mono [OF Cons.IH [OF inv]], auto simp: find_None_iff intro: same_world_trans same_world_refl)
    qed
  qed
qed

interpretation addr: entry_point find_vme_mapping_from_addr
  by unfold_locales (auto simp: find_vme_mapping_from_addr_def intro!: good_mono [OF addr_loop_good])

lemma mmap_loop_good:
  assumes "vme_inv s"
  shows "good (\<lambda>(rc, s'). vme_inv s' \<and> (if rc = None then \<exists>i \<in> set ks. mmap_allowed fp v (the_window i s) \<and>
        (\<exists>n. s' = s\<lparr>waits := n, user_maps := user_maps s @ [(fp, vma_addr v, vma_size v)]\<rparr>)
     else same_world s s') \<and>
     (calm k \<and> remap_rc k = None \<and> (\<exists>i \<in> set ks. mmap_allowed fp v (the_window i s)) \<longrightarrow> rc = None)) (mmap_loop k fp v ks s)"
  using assms
proof (induction ks arbitrary: s)
  case Nil
  then show ?case by (simp add: same_world_refl)
next
  case (Cons i ks)
  let ?s = "s\<lparr>waits := Suc (waits s)\<rparr>"
  have inv: "vme_inv ?s" and h: "held s = []" and ok: "vme_ok s" using Cons.prems by (simp_all add: vme_inv_def)
  show ?case
  proof (cases "signalled k (waits s)")
    case True
    then show ?thesis using inv h by (auto simp: lock_eq same_world_refl calm_def)
  next
    case go: False
    show ?thesis
    proof (cases "mmap_allowed fp v (the_window i s)")
      case True
      have h2: "held (lock_taken i s\<lparr>user_maps := um\<rparr>) = [i]" for um by simp
      show ?thesis using go h ok True
        by (auto simp: lock_eq vme_remap_pfn_range_def unlock_eq [OF h2] unlock_eq lock_pair same_world_refl vme_inv_def
            split: option.splits)
          (simp add: lock_given_def lock_taken_def, rule exI [of _ "Suc (waits s)"], cases s, simp)
    next
      case False
      then show ?thesis using go h
        by (simp add: lock_eq unlock_eq lock_pair)
          (rule good_mono [OF Cons.IH [OF inv]], auto intro: same_world_trans same_world_refl split: if_splits)
    qed
  qed
qed

interpretation mmap: entry_point "\<lambda>k (fp, v). vme_window_mmap k fp v"
  by unfold_locales (auto simp: vme_window_mmap_def intro!: good_mono [OF mmap_loop_good])

definition without_file :: "fileptr \<Rightarrow> window \<Rightarrow> window" where
  "without_file fp w = w\<lparr>W_mappings := filter (\<lambda>m. Mp_file m \<noteq> fp) (W_mappings w),
     W_users := int (length (filter (\<lambda>m. Mp_file m \<noteq> fp) (W_mappings w)))\<rparr>"

lemma release_in_window:
  assumes "vme_ok s" "i < TSI148_NUM_OUT_WINDOWS"
  shows "the_window j (release_in fp i s) = (if j = i then without_file fp (the_window i s) else the_window j s)"
    "V_chip (release_in fp i s) = V_chip s" "held (release_in fp i s) = held s" "waits (release_in fp i s) = waits s"
    "iomaps (release_in fp i s) = iomaps s" "regions (release_in fp i s) = regions s"
  using assms unfolding release_in_eq [OF assms] by (simp_all add: the_window_upd without_file_def vme_ok_def)

lemma release_loop_good:
  assumes "vme_inv s" "set ks \<subseteq> {..< TSI148_NUM_OUT_WINDOWS}" "distinct ks"
  shows "good (\<lambda>(rc, s'). vme_inv s' \<and> V_chip s' = V_chip s \<and> iomaps s' = iomaps s \<and> regions s' = regions s \<and>
     (calm k \<longrightarrow> rc = None) \<and>
     (rc = None \<longrightarrow> (\<forall>j. the_window j s' = (if j \<in> set ks then without_file fp (the_window j s) else the_window j s)))) (release_loop k fp ks s)"
  using assms
proof (induction ks arbitrary: s)
  case (Cons i ks)
  have i: "i < TSI148_NUM_OUT_WINDOWS" and ok: "vme_ok s" and h: "held s = []" using Cons.prems by (auto simp: vme_inv_def)
  show ?case
  proof (cases "signalled k (waits s)")
    case True
    then show ?thesis using ok h by (auto simp: lock_eq vme_inv_def calm_def)
  next
    case False
    have okt: "vme_ok (lock_taken i s)" using ok by simp
    let ?s = "lock_given (release_in fp i (lock_taken i s))"
    have un: "mutex_unlock i (release_in fp i (lock_taken i s)) = Inr ?s"
      by (rule unlock_eq) (simp add: release_in_window [OF okt i])
    have inv: "vme_inv ?s" using release_in_ok [OF okt i] by (simp add: vme_inv_def)
    have "good (\<lambda>(rc, s'). vme_inv s' \<and> V_chip s' = V_chip ?s \<and> iomaps s' = iomaps ?s \<and> regions s' = regions ?s \<and>
       (calm k \<longrightarrow> rc = None) \<and>
       (rc = None \<longrightarrow> (\<forall>j. the_window j s' = (if j \<in> set ks then without_file fp (the_window j ?s) else the_window j ?s)))) (release_loop k fp ks ?s)"
      using Cons.prems inv by (intro Cons.IH) auto
    then show ?thesis using False h Cons.prems(3)
      by (auto simp: lock_eq un release_in_window [OF okt i] elim!: good_mono)
  qed
qed simp

interpretation file_release: entry_point vme_window_release
  by unfold_locales (auto simp: vme_window_release_def intro!: good_mono [OF release_loop_good])

lemma reply_desc_good: "vme_inv (snd r) \<Longrightarrow> good (\<lambda>(r, s'). vme_inv s') (reply_desc k r)"
  by (auto simp: reply_desc_def split: prod.splits)

lemma with_rc_good: "vme_inv (snd r) \<Longrightarrow> good (\<lambda>(r, s'). vme_inv s') (with_rc r)"
  by (auto simp: with_rc_def split: prod.splits)

lemma vme_inv_frame [simp]:
  "vme_inv (s\<lparr>waits := n\<rparr>) = vme_inv s" "vme_inv (s\<lparr>V_veat := v\<rparr>) = vme_inv s"
  "vme_inv (s\<lparr>verr_valid := b\<rparr>) = vme_inv s" "vme_inv (s\<lparr>verr_error := e\<rparr>) = vme_inv s"
  "vme_inv (s\<lparr>vme_create_on_find_fail := v\<rparr>) = vme_inv s" "vme_inv (s\<lparr>vme_destroy_on_remove := v\<rparr>) = vme_inv s"
  by (simp_all add: vme_inv_def)

lemma ioctl_good:
  assumes "vme_inv s" "bus_ok k"
  shows "good (\<lambda>(r, s'). vme_inv s') (vme_window_ioctl k fp cmd s)"
proof (cases cmd)
  case (VME_IOCTL_GET_WINDOW_ATTR d)
  then show ?thesis using assms
    by (auto simp: from_user_def intro!: good_bind [OF get_attr.op_good] reply_desc_good)
next
  case (VME_IOCTL_CREATE_WINDOW d)
  then show ?thesis using assms
    by (auto simp: from_user_def intro!: good_bind [OF create.op_good] reply_desc_good)
next
  case (VME_IOCTL_DESTROY_WINDOW n)
  then show ?thesis using assms
    by (auto simp: from_user_def intro!: good_bind [OF destroy.op_good] with_rc_good)
next
  case (VME_IOCTL_FIND_MAPPING d)
  then show ?thesis
    using assms find.op_good [of s k "(d, vme_create_on_find_fail s, fp)"]
    by (auto simp: from_user_def intro!: good_bind reply_desc_good)
next
  case (VME_IOCTL_RELEASE_MAPPING d)
  then show ?thesis
    using assms release.op_good [of s k "(d, vme_destroy_on_remove s, fp)"]
    by (auto simp: from_user_def intro!: good_bind with_rc_good)
qed (use assms in \<open>auto simp: from_user_def put_user_def get_user_def tsi148_bus_error_chk_def vme_bus_error_check_clear_def Let_def\<close>)

interpretation ioctl: entry_point "\<lambda>k (fp, cmd). vme_window_ioctl k fp cmd"
  by unfold_locales (auto intro!: good_mono [OF ioctl_good])

lemma exit_loop_good:
  "vme_inv s \<Longrightarrow> bus_ok k \<Longrightarrow> good vme_inv (exit_loop k ks s)"
proof (induction ks arbitrary: s)
  case (Cons i ks)
  show ?case
  proof (cases "W_active (the_window i s)")
    case True
    have "good vme_inv (bind_r (vme_destroy_window k (of_nat i) s) (\<lambda>(rc, s1). exit_loop k ks s1))"
      by (rule good_bind [OF destroy.op_good [OF Cons.prems]]) (use Cons.IH Cons.prems(2) in auto)
    then show ?thesis using True by simp
  qed (use Cons in simp)
qed simp

interpretation module_exit: entry_point "\<lambda>k (u :: unit) s. bind_r (vme_window_exit k s) (\<lambda>s'. Inr (u, s'))"
  by unfold_locales (auto simp: vme_window_exit_def intro!: good_bind [OF exit_loop_good])

interpretation ces_find: entry_point "\<lambda>k (a, len, m, sz, rd). find_controller k a len m sz rd"
proof unfold_locales
  fix s k and x :: "u32 \<times> u32 \<times> u32 \<times> u32 \<times> bool"
  assume "vme_inv s" "bus_ok k"
  note f = find.op_good [OF this, of "(d, 1, None)" for d, simplified]
  show "good (\<lambda>(r, s'). vme_inv s') ((case x of (a, len, m, sz, rd) \<Rightarrow> find_controller k a len m sz rd) s)"
    using \<open>vme_inv s\<close> by (auto simp: find_controller_def vme_find_mapping_def Let_def intro!: good_bind [OF f] split: prod.splits)
qed

interpretation ces_return: entry_point return_controller
proof unfold_locales
  fix s k and x :: u32
  assume a: "vme_inv s" "bus_ok k"
  show "good (\<lambda>(r, s'). vme_inv s') (return_controller k x s)"
    unfolding return_controller_def
  proof (rule good_bind [OF addr.op_good [OF a]])
    fix y :: "vme_mapping option \<times> vme_state"
    assume y: "case y of (r, s') \<Rightarrow> vme_inv s'"
    obtain r s1 where r: "y = (r, s1)" by (cases y)
    show "good (\<lambda>(r, s'). vme_inv s') (case y of (r, s1) \<Rightarrow> case r of None \<Rightarrow> Inr (- 1, s1)
       | Some d \<Rightarrow> bind_r (vme_release_mapping k d 1 s1) (\<lambda>(err, s2). Inr (if err = None then 0 else - 1, s2)))"
      using y r release.op_good [of s1 k "(d, 1, None)" for d] a(2)
      by (auto simp: vme_release_mapping_def split: option.splits intro!: good_bind)
  qed
qed

end
