(* ===== verification/Vme_Service.thy ===== *)
theory Vme_Service
  imports Vme_Windows
begin

text \<open>
  What the window manager gives its callers: the reachable states and their invariant, the
  translation of a found mapping by the chip, giving mappings back, closing the device, reading
  window attributes, and mapping pages to user space; and two cases in which the code does less
  than it means to: a request that is not aligned, and sizes that wrap around.
\<close>

section \<open>Reachable states\<close>

definition vme_start :: vme_state where
  "vme_start =
     \<lparr>window_table = replicate TSI148_NUM_OUT_WINDOWS zero_window, vme_create_on_find_fail = 0, vme_destroy_on_remove = 0,
      V_chip = \<lparr>otrans = replicate TSI148_NUM_OUT_WINDOWS zero_otrans, ot_trace = []\<rparr>, V_veat = 0, verr_valid = False,
      verr_error = \<lparr>err_address = 0, err_am = 0\<rparr>, held = [], waits = 0, unlocked = [], iomaps = [], regions = [], user_maps = []\<rparr>"

text \<open>One call of the driver, from user space or from another driver, or an interrupt.\<close>

inductive vme_step :: "vme_state \<Rightarrow> vme_state \<Rightarrow> bool" where
  step_ioctl: "bus_ok k \<Longrightarrow> vme_window_ioctl k fp cmd s = Inr (r, s') \<Longrightarrow> vme_step s s'"
| step_mmap: "bus_ok k \<Longrightarrow> vme_window_mmap k fp v s = Inr (rc, s') \<Longrightarrow> vme_step s s'"
| step_close: "bus_ok k \<Longrightarrow> vme_window_release k fp s = Inr (rc, s') \<Longrightarrow> vme_step s s'"
| step_create: "bus_ok k \<Longrightarrow> vme_create_window k d s = Inr (x, s') \<Longrightarrow> vme_step s s'"
| step_destroy: "bus_ok k \<Longrightarrow> vme_destroy_window k n s = Inr (rc, s') \<Longrightarrow> vme_step s s'"
| step_attr: "bus_ok k \<Longrightarrow> vme_get_window_attr k d s = Inr (x, s') \<Longrightarrow> vme_step s s'"
| step_find: "bus_ok k \<Longrightarrow> vme_find_mapping k m force s = Inr (x, s') \<Longrightarrow> vme_step s s'"
| step_release: "bus_ok k \<Longrightarrow> vme_release_mapping k d force s = Inr (rc, s') \<Longrightarrow> vme_step s s'"
| step_addr: "bus_ok k \<Longrightarrow> find_vme_mapping_from_addr k a s = Inr (y, s') \<Longrightarrow> vme_step s s'"
| step_ces_find: "bus_ok k \<Longrightarrow> find_controller k a len m sz rd s = Inr (v, s') \<Longrightarrow> vme_step s s'"
| step_ces_return: "bus_ok k \<Longrightarrow> return_controller k a s = Inr (v, s') \<Longrightarrow> vme_step s s'"
| step_exit: "bus_ok k \<Longrightarrow> vme_window_exit k s = Inr s' \<Longrightarrow> vme_step s s'"
| step_interrupt: "vme_step s (s\<lparr>V_veat := v, verr_valid := b, verr_error := e\<rparr>)"

inductive vme_reach :: "vme_state \<Rightarrow> bool" where
  reach_init: "vme_reach (vme_window_init vme_start)"
| reach_step: "vme_reach s \<Longrightarrow> vme_step s s' \<Longrightarrow> vme_reach s'"

lemma vme_start_inv: "vme_inv (vme_window_init vme_start)"
proof -
  have nth: "(replicate TSI148_NUM_OUT_WINDOWS x) ! i = x" if "i < TSI148_NUM_OUT_WINDOWS" for i and x :: 'a
    using that by simp
  have "window_on (V_chip vme_start) = (\<lambda>_. False)"
    by (auto simp: fun_eq_iff window_on_def vme_start_def zero_otrans_def)
  then show ?thesis
    by (auto simp: vme_inv_def vme_ok_def vme_window_init_def chip_ok_def the_window_def window_ok_def live_def)
      (simp_all add: vme_start_def zero_window_def zero_mapping_def in_table_def TSI148_NUM_OUT_WINDOWS_def)
qed

lemma vme_step_inv:
  assumes "vme_step s s'" "vme_inv s"
  shows "vme_inv s'"
  using assms
proof (induction rule: vme_step.induct)
  case (step_find k m force s x s')
  then show ?case using find.keeps [of s k "(m, force, None)" x s'] by (simp add: vme_find_mapping_def)
next
  case (step_release k d force s rc s')
  then show ?case using release.keeps [of s k "(d, force, None)" rc s'] by (simp add: vme_release_mapping_def)
next
  case (step_ioctl k fp cmd s r s')
  then show ?case using ioctl.keeps [of s k "(fp, cmd)" r s'] by simp
next
  case (step_mmap k fp v s rc s')
  then show ?case using mmap.keeps [of s k "(fp, v)" rc s'] by simp
next
  case (step_ces_find k a len m sz rd s v s')
  then show ?case using ces_find.keeps [of s k "(a, len, m, sz, rd)" v s'] by simp
next
  case (step_exit k s s')
  then show ?case using module_exit.keeps [of s k "()" "()" s'] by simp
qed (auto dest: file_release.keeps create.keeps destroy.keeps get_attr.keeps addr.keeps ces_return.keeps)

lemma vme_reach_inv: "vme_reach s \<Longrightarrow> vme_inv s"
  by (induction rule: vme_reach.induct) (auto intro: vme_start_inv vme_step_inv)

definition kern0 :: vkernel where
  "kern0 = \<lparr>signalled = (\<lambda>_. False), kzalloc_ok = True, desc_alloc_ok = True, kmalloc_ok = True, bus_alloc = (\<lambda>sz. if sz \<le> 0x10000000 then Inr 0x80000000 else Inl ENOMEM),
     ioremap = (\<lambda>start sz. start + 0x40000000), cur_pid = 42, cur_comm = ''scope'', copy_in = True, copy_out = True, remap_rc = None\<rparr>"

definition req0 :: vme_mapping where
  "req0 = zero_mapping\<lparr>data_width := VME_D32, D_am := VME_A24_USER_DATA_SCT, vme_addrl := 0x123400, sizel := 0x200\<rparr>"

definition vme0 :: vme_state where "vme0 = (vme_window_init vme_start)\<lparr>vme_create_on_find_fail := 1\<rparr>"

definition found_result :: "vme_mapping \<times> vme_state" where
  "found_result = (case do_vme_find_mapping kern0 req0 1 (Some 1) vme0 of Inr ((rc, m), s) \<Rightarrow> (m, s))"

definition map0 :: vme_mapping where "map0 = fst found_result"
definition vme1 :: vme_state where "vme1 = snd found_result"

lemma kern0_ok: "bus_ok kern0" "calm kern0"
  by (auto simp: bus_ok_def kern0_def calm_def word_le_nat_alt split: if_splits)

lemma vme0_inv: "vme_inv vme0"
  using vme_start_inv by (simp add: vme0_def)

lemma found0: "do_vme_find_mapping kern0 req0 1 (Some 1) vme0 = Inr ((None, map0), vme1)"
proof -
  have "case do_vme_find_mapping kern0 req0 1 (Some 1) vme0 of Inl e \<Rightarrow> False | Inr ((rc, m), s) \<Rightarrow> rc = None" by code_simp
  then show ?thesis by (auto simp: map0_def vme1_def found_result_def split: sum.splits prod.splits)
qed

section \<open>Translation\<close>

text \<open>
  A request that lies in the address space of its modifier; outside the small spaces its address
  is aligned to 64K and rounding its size up does not wrap.
\<close>

definition request_fits :: "vme_mapping \<Rightarrow> bool" where
  "request_fits m \<longleftrightarrow> vme_addru m = 0 \<and>
     (if D_am m \<in> set A24_modifiers then unat (vme_addrl m) + unat (sizel m) \<le> 2 ^ 24
      else if D_am m \<in> set A16_modifiers then unat (vme_addrl m) + unat (sizel m) \<le> 2 ^ 16
      else vme_addrl m AND 0xffff = 0 \<and> unat (vme_addrl m) + unat (sizel m) \<le> 2 ^ 32 - 2 ^ 16)"

lemma request_no_wrap: "request_fits m \<Longrightarrow> unat (vme_addrl m) + unat (sizel m) < 2 ^ 32"
  by (auto simp: request_fits_def split: if_splits)

text \<open>An offset in the request is an offset in a window that holds the request.\<close>

lemma offset_inside:
  assumes "unat (a :: u32) \<le> unat v" "unat v + unat (z :: u32) \<le> unat a + unat b" "unat j < unat z" "unat v + unat z < 2 ^ 32"
  shows "unat (v - a + j) < unat b"
proof -
  have d: "unat (v - a) = unat v - unat a" using assms(1) by (simp add: unat_sub word_le_nat_alt)
  then have "unat (v - a) + unat j < 2 ^ LENGTH(32)" using assms by simp
  then have "unat (v - a + j) = unat (v - a) + unat j" by (rule unat_add_lem [THEN iffD1])
  then show ?thesis using assms d by simp
qed

lemma check_inside:
  assumes "\<not> v < (a :: u32)" "\<not> a + b < v + z" "unat v + unat z < 2 ^ 32"
  shows "unat a \<le> unat v" "unat v + unat z \<le> unat a + unat b"
proof -
  show a: "unat a \<le> unat v" using assms(1) by (simp add: word_less_nat_alt)
  have vz: "unat (v + z) = unat v + unat z"
    by (rule unat_add_lem [THEN iffD1]) (use assms(3) in simp)
  have "unat (a + b) \<le> unat a + unat b" by (simp add: unat_word_ariths)
  then show "unat v + unat z \<le> unat a + unat b" using assms(2) vz by (simp add: word_less_nat_alt)
qed

lemma placed_cycle:
  assumes "desc_set i d t" "D_am d = D_am m" "unat (vme_addrl d) \<le> unat (vme_addrl m)"
    "unat (vme_addrl m) + unat (sizel m) \<le> unat (vme_addrl d) + unat (sizel d)"
    "unat (vme_addrl m) + unat (sizel m) < 2 ^ 32" "unat j < unat (sizel m)"
  shows "bus_cycle t (pci_addrl (place_mapping i d m) + j) = Some (vme_addrl m + j, D_am m)"
proof -
  obtain a where a: "tsi148_setup_window_attributes (v2esst_mode d) (data_width d) (D_am d) = Some a" "t = window_trans d a"
    using assms(1) by (auto simp: desc_set_def)
  have "unat (vme_addrl m - vme_addrl d + j) < unat (sizel d)" by (rule offset_inside [OF assms(3,4,6,5)])
  then have "bus_cycle t (pci_addrl d + (vme_addrl m - vme_addrl d + j)) = Some (vme_addrl d + (vme_addrl m - vme_addrl d + j), D_am d)"
    using assms(1) a by (simp add: desc_set_def bus_cycle_inside)
  then show ?thesis by (simp add: place_mapping_def Let_def add.assoc assms(2))
qed

text \<open>The window made for a request holds the request.\<close>

lemma wanted_fields [simp]: "D_am (wanted_window i m) = D_am m" "window_num (wanted_window i m) = of_nat i"
  by (simp_all add: wanted_window_def round_window_def vme_optimize_window_size_def Let_def)

lemma round_up:
  assumes "unat (z :: u32) \<le> 2 ^ 32 - 2 ^ 16"
  shows "unat z \<le> unat (if z AND 0xffff \<noteq> 0 then (z + 0x10000) AND NOT 0xffff else z)"
proof (cases "z AND 0xffff = 0")
  case False
  then have n: "unat z mod 65536 \<noteq> 0" by (simp add: aligned_iff dvd_eq_mod_eq_0)
  then have "unat z \<noteq> 2 ^ 32 - 2 ^ 16" by auto
  then have s: "unat z + unat (0x10000 :: u32) < 2 ^ LENGTH(32)" using assms by simp
  have "unat (z + 0x10000) = unat z + 65536" using unat_add_lem [THEN iffD1, OF s] by simp
  then have "unat ((z + 0x10000) AND NOT 0xffff) = unat z + 65536 - unat z mod 65536" unfolding high16 by simp
  moreover have "unat z mod 65536 < 65536" by simp
  ultimately show ?thesis using False by simp
qed simp

lemma wanted_holds:
  assumes "request_fits m" "vme_mapping_sanity_check m"
  shows "unat (vme_addrl (wanted_window i m)) \<le> unat (vme_addrl m)"
    "unat (vme_addrl m) + unat (sizel m) \<le> unat (vme_addrl (wanted_window i m)) + unat (sizel (wanted_window i m))"
proof -
  show "unat (vme_addrl (wanted_window i m)) \<le> unat (vme_addrl m)"
    using word_and_le2 [of "vme_addrl m" "NOT 0xffff"]
    by (simp add: wanted_window_def round_window_def vme_optimize_window_size_def Let_def word_le_nat_alt)
  have "unat (sizel m) \<le> 2 ^ 32 - 2 ^ 16" if "D_am m \<notin> set A24_modifiers" "D_am m \<notin> set A16_modifiers"
    using assms(1) that by (simp add: request_fits_def)
  then show "unat (vme_addrl m) + unat (sizel m) \<le> unat (vme_addrl (wanted_window i m)) + unat (sizel (wanted_window i m))"
    using assms(1) round_up [of "sizel m"]
    by (auto simp: wanted_window_def round_window_def vme_optimize_window_size_def Let_def request_fits_def split: if_splits)
qed

lemma found_window:
  assumes "vme_inv s" "bus_ok k" "do_vme_find_mapping k m force fp s = Inr ((None, m'), s')"
  obtains i d where "i < TSI148_NUM_OUT_WINDOWS" "window_num m' = of_nat i" "vme_mapping_sanity_check m"
    "m' = place_mapping i d m" "desc_set i d (otrans (V_chip s') ! i)"
    "new_mapping k m' fp \<in> set (W_mappings (the_window i s'))"
    "if W_active (the_window i s) then found_old k i m m' fp s s' \<and> d = W_desc (the_window i s)
     else found_new k i m m' fp s s' \<and> (\<exists>va start. d = (wanted_window i m)\<lparr>kernel_va := va, pci_addrl := start, window_enabled := 1\<rparr>)"
proof -
  obtain i where i: "i < TSI148_NUM_OUT_WINDOWS" "vme_mapping_sanity_check m" "found_old k i m m' fp s s' \<or> found_new k i m m' fp s s'"
    using find_good [of s k m fp force] assms by (auto simp: vme_inv_def)
  show ?thesis
  proof (cases "found_old k i m m' fp s s'")
    case True
    then have act: "W_active (the_window i s)" and mp: "mapped k i m m' fp s s'"
      by (simp_all add: found_old_def window_matches_def)
    have "window_ok (V_chip s) i (the_window i s)" using assms(1) i(1) by (simp add: vme_inv_def vme_ok_def)
    then have "desc_set i (W_desc (the_window i s)) (otrans (V_chip s') ! i)" using act mp by (simp add: window_ok_def mapped_def)
    then show ?thesis
      using that [OF i(1) _ i(2), of "W_desc (the_window i s)"] mp True act by (simp add: mapped_def place_mapping_def Let_def)
  next
    case False
    with i(3) obtain s1 d where n: "found_new k i m m' fp s s'" "vme_ok s1" "created i (wanted_window i m) s d s1" "mapped k i m m' fp s1 s'"
      by (auto simp: found_new_def)
    have "window_ok (V_chip s1) i (the_window i s1)" using n(2) i(1) by (simp add: vme_ok_def)
    then have "desc_set i d (otrans (V_chip s') ! i)" using n(3,4) by (auto simp: window_ok_def mapped_def created_def)
    moreover have "W_desc (the_window i s1) = d" using n(3) by (simp add: created_def)
    ultimately show ?thesis
      using that [OF i(1) _ i(2), of d] n by (auto simp: mapped_def place_mapping_def Let_def created_def)
  qed
qed



text \<open>
  A request that is not aligned to 64K and for which a new window has to be made gets a
  window that ends before it: the code meant to add the distance to the aligned address to the
  size, but adds zero. The request succeeds and the last byte of the mapping is not translated.
\<close>

theorem unaligned_request_cut:
  assumes "vme_inv s" "bus_ok k" "do_vme_find_mapping k m force fp s = Inr ((None, m'), s')"
    "\<forall>i < TSI148_NUM_OUT_WINDOWS. \<not> window_matches (the_window i s) m"
    "D_am m \<notin> set A24_modifiers" "D_am m \<notin> set A16_modifiers"
    "vme_addrl m AND 0xffff \<noteq> 0" "sizel m AND 0xffff = 0" "sizel m \<noteq> 0"
  shows "\<exists>i < TSI148_NUM_OUT_WINDOWS. window_num m' = of_nat i \<and>
     bus_cycle (otrans (V_chip s') ! i) (pci_addrl m' + (sizel m - 1)) = None"
proof -
  obtain i d where f: "i < TSI148_NUM_OUT_WINDOWS" "window_num m' = of_nat i"
    "m' = place_mapping i d m" "desc_set i d (otrans (V_chip s') ! i)"
    "if W_active (the_window i s) then found_old k i m m' fp s s' \<and> d = W_desc (the_window i s)
     else found_new k i m m' fp s s' \<and> (\<exists>va start. d = (wanted_window i m)\<lparr>kernel_va := va, pci_addrl := start, window_enabled := 1\<rparr>)"
    using found_window [OF assms(1-3)] by blast
  have d: "vme_addrl d = vme_addrl m AND NOT 0xffff" "sizel d = sizel m"
    using f(1,5) assms(4-8)
    by (auto simp: found_old_def wanted_window_def round_window_def vme_optimize_window_size_def Let_def split: if_splits)
  obtain a where a: "otrans (V_chip s') ! i = window_trans d a" using f(4) by (auto simp: desc_set_def)
  define off where "off = vme_addrl m - vme_addrl d"
  have "unat off = unat (vme_addrl m) - unat (vme_addrl d)"
    using word_and_le2 [of "vme_addrl m" "NOT 0xffff"] by (simp add: off_def d(1) unat_sub)
  then have "unat off = unat (vme_addrl m) mod 65536" unfolding d(1) high16 by (simp add: mod_less_eq_dividend)
  moreover have "unat (vme_addrl m) mod 65536 \<noteq> 0" using assms(7) by (simp add: aligned_iff dvd_eq_mod_eq_0)
  ultimately have off: "0 < unat off" "unat off < 65536" by auto
  obtain q where q: "unat (sizel m) = 65536 * q" using assms(8) by (auto simp: aligned_iff elim: dvdE)
  have q0: "0 < q" using assms(9) q by (metis gr0I mult_0_right unat_eq_zero)
  have "65536 * q < 2 ^ 32" using unsigned_less [of "sizel m", where ?'a = nat] q by simp
  then have top: "65536 * q + 65536 \<le> 2 ^ 32" by simp
  have "unat (sizel m - 1) = 65536 * q - 1" using assms(9) q by (simp add: unat_minus_one)
  then have "unat off + unat (sizel m - 1) < 2 ^ LENGTH(32)" using off top q0 by simp
  then have j: "unat (off + (sizel m - 1)) = unat off + (65536 * q - 1)"
    using unat_add_lem [THEN iffD1] \<open>unat (sizel m - 1) = 65536 * q - 1\<close> by metis
  have "bus_cycle (window_trans d a) (pci_addrl d + (off + (sizel m - 1))) = None"
    by (rule bus_cycle_beyond) (use f(4) d(2) assms(8,9) j q q0 off in \<open>simp_all add: desc_set_def\<close>)
  then show ?thesis
    using f(1,2) by (intro exI [of _ i]) (simp add: f(3) a place_mapping_def Let_def off_def add.assoc)
qed

definition req1 :: vme_mapping where
  "req1 = zero_mapping\<lparr>data_width := VME_D32, D_am := VME_A32_USER_DATA_SCT, vme_addrl := 0x12348000, sizel := 0x20000\<rparr>"

theorem unaligned_request_cut_witness:
  "\<exists>m' s'. do_vme_find_mapping kern0 req1 1 (Some 1) vme0 = Inr ((None, m'), s') \<and>
     (\<exists>i < TSI148_NUM_OUT_WINDOWS. bus_cycle (otrans (V_chip s') ! i) (pci_addrl m' + (sizel req1 - 1)) = None)"
proof -
  have "case do_vme_find_mapping kern0 req1 1 (Some 1) vme0 of Inl e \<Rightarrow> False | Inr ((rc, m), s) \<Rightarrow> rc = None" by code_simp
  then obtain m' s' where f: "do_vme_find_mapping kern0 req1 1 (Some 1) vme0 = Inr ((None, m'), s')"
    by (auto split: sum.splits prod.splits)
  have off: "\<forall>i < TSI148_NUM_OUT_WINDOWS. \<not> window_matches (the_window i vme0) req1"
    by (simp add: vme0_def vme_window_init_def vme_start_def the_window_def zero_window_def window_matches_def)
  have "\<exists>i < TSI148_NUM_OUT_WINDOWS. window_num m' = of_nat i \<and>
      bus_cycle (otrans (V_chip s') ! i) (pci_addrl m' + (sizel req1 - 1)) = None"
    by (rule unaligned_request_cut [OF vme0_inv kern0_ok(1) f off])
      (simp_all add: req1_def zero_mapping_def A24_modifiers_def A16_modifiers_def VME_A32_USER_DATA_SCT_def
        VME_A24_USER_MBLT_def VME_A24_USER_DATA_SCT_def VME_A24_USER_PRG_SCT_def VME_A24_USER_BLT_def VME_A24_SUP_MBLT_def
        VME_A24_SUP_DATA_SCT_def VME_A24_SUP_PRG_SCT_def VME_A24_SUP_BLT_def VME_A16_USER_def VME_A16_LCK_def VME_A16_SUP_def)
  then show ?thesis using f by blast
qed

section \<open>Giving a mapping back\<close>

text \<open>What the driver compares when it looks for the mapping to release.\<close>

definition mapping_key :: "fileptr \<Rightarrow> mapping \<Rightarrow> u32 \<times> u32 \<times> u32 \<times> u32 \<times> u32 \<times> fileptr" where
  "mapping_key fp x = (vme_addru (Mp_desc x), vme_addrl (Mp_desc x), sizeu (Mp_desc x), sizel (Mp_desc x), kernel_va (Mp_desc x),
     if fp = None then None else Mp_file x)"

lemma same_mapping_key: "same_mapping d fp x \<Longrightarrow> mapping_key fp x = mapping_key fp (new_mapping k d fp)"
  by (auto simp: same_mapping_def mapping_key_def new_mapping_def)

lemma same_mapping_new: "same_mapping d fp (new_mapping k d fp)"
  by (simp add: same_mapping_def new_mapping_def)

lemma drop_first_keys:
  assumes "drop_first P xs = Some ys" "\<And>x. P x \<Longrightarrow> f x = v"
  shows "mset (map f xs) = add_mset v (mset (map f ys))" "length xs = Suc (length ys)"
  using drop_first_Some [OF assms(1)] assms(2) by auto

lemma found_before:
  assumes "if W_active (the_window i s) then found_old k i m m' fp s s' \<and> d = W_desc (the_window i s)
     else found_new k i m m' fp s s' \<and> (\<exists>va start. d = (wanted_window i m)\<lparr>kernel_va := va, pci_addrl := start, window_enabled := 1\<rparr>)"
    "vme_inv s" "i < TSI148_NUM_OUT_WINDOWS"
  shows "W_mappings (the_window i s') = W_mappings (the_window i s) @ [new_mapping k m' fp]" "W_active (the_window i s')"
    "others_same i s s'"
    "if W_active (the_window i s) then iomaps s' = iomaps s \<and> regions s' = regions s
     else iomaps s' = kernel_va (W_desc (the_window i s')) # iomaps s \<and> regions s' = pci_addrl (W_desc (the_window i s')) # regions s"
proof -
  have "W_mappings (the_window i s) = []" if "\<not> W_active (the_window i s)"
    using assms(2,3) that by (simp add: vme_inv_def vme_ok_def window_ok_def)
  then show "W_mappings (the_window i s') = W_mappings (the_window i s) @ [new_mapping k m' fp]" "W_active (the_window i s')"
    "others_same i s s'"
    "if W_active (the_window i s) then iomaps s' = iomaps s \<and> regions s' = regions s
     else iomaps s' = kernel_va (W_desc (the_window i s')) # iomaps s \<and> regions s' = pci_addrl (W_desc (the_window i s')) # regions s"
    using assms(1) by (auto simp: found_old_def found_new_def mapped_def created_def others_same_def split: if_splits)
qed



section \<open>Closing the device\<close>

text \<open>
  C24: When no signal interrupts it, closing a file takes exactly the mappings of that file off
  every window and leaves all others in their order; reference counts follow, and the chip, the
  I/O mappings and the bus regions are not touched.
\<close>

theorem close_releases_own:
  assumes "vme_inv s" "calm k"
  shows "\<exists>s'. vme_window_release k fp s = Inr (None, s') \<and> vme_inv s' \<and> V_chip s' = V_chip s \<and> iomaps s' = iomaps s \<and>
     (\<forall>i < TSI148_NUM_OUT_WINDOWS. the_window i s' = (the_window i s)
        \<lparr>W_mappings := filter (\<lambda>m. Mp_file m \<noteq> fp) (W_mappings (the_window i s)),
         W_users := int (length (filter (\<lambda>m. Mp_file m \<noteq> fp) (W_mappings (the_window i s))))\<rparr>)"
proof -
  have "good (\<lambda>(rc, s'). rc = None \<and> vme_inv s' \<and> V_chip s' = V_chip s \<and> iomaps s' = iomaps s \<and>
      (\<forall>i < TSI148_NUM_OUT_WINDOWS. the_window i s' = without_file fp (the_window i s))) (vme_window_release k fp s)"
    unfolding vme_window_release_def
    by (rule good_mono [OF release_loop_good [OF assms(1)]]) (use assms(2) in auto)
  then show ?thesis by (auto simp: good_iff without_file_def)
qed

lemma vme1_inv: "vme_inv vme1"
  using find.keeps [of vme0 kern0 "(req0, 1, Some 1)" "(None, map0)" vme1] vme0_inv kern0_ok(1) found0 by simp

theorem close_releases_own_witness:
  "\<exists>s'. vme_window_release kern0 (Some 1) vme1 = Inr (None, s') \<and> V_chip s' = V_chip vme1 \<and>
     (\<forall>i < TSI148_NUM_OUT_WINDOWS. W_mappings (the_window i s') = filter (\<lambda>m. Mp_file m \<noteq> Some 1) (W_mappings (the_window i vme1)))"
  using close_releases_own [OF vme1_inv kern0_ok(2), of "Some 1"] by auto

section \<open>Reading attributes\<close>

text \<open>
  The attributes read for window \<open>n\<close> are those of the window whose number is in its stored
  descriptor: the address modifier, the transfer rate, the PCI and the VME address, with a size
  that is 64K too small, since the end register holds the start of the last block. For a window
  that was created this is the window itself; for one that never was, its descriptor is zero and
  the attributes of window 0 are returned.
\<close>

theorem attributes_read:
  assumes "vme_inv s" "calm k" "in_table (window_num d)" "i < TSI148_NUM_OUT_WINDOWS" "W_active (the_window i s)"
    "window_num (W_desc (the_window (window_index (window_num d)) s)) = of_nat i"
  shows "\<exists>d' s'. vme_get_window_attr k d s = Inr ((None, d'), s') \<and> vme_inv s' \<and> window_enabled d' = 1 \<and>
     D_am d' = D_am (W_desc (the_window i s)) \<and> v2esst_mode d' = v2esst_mode (W_desc (the_window i s)) \<and>
     pci_addrl d' = pci_addrl (W_desc (the_window i s)) \<and> vme_addrl d' = vme_addrl (W_desc (the_window i s)) \<and>
     sizel d' = sizel (W_desc (the_window i s)) - 0x10000"
proof -
  have w: "window_ok (V_chip s) i (the_window i s)" "chip_ok (V_chip s)" using assms(1,4) by (simp_all add: vme_inv_def vme_ok_def)
  let ?wd = "W_desc (the_window i s)"
  let ?x = "W_desc (the_window (window_index (window_num d)) s)"
  obtain a where a: "tsi148_setup_window_attributes (v2esst_mode ?wd) (data_width ?wd) (D_am ?wd) = Some a"
    "otrans (V_chip s) ! i = window_trans ?wd a" "pci_addrl ?wd AND 0xffff = 0" "sizel ?wd AND 0xffff = 0"
    using w(1) assms(5) by (auto simp: window_ok_def desc_set_def)
  have at: "window_at (window_num ?x) i" using assms(4,6) by (simp add: window_at_of_nat)
  have "tsi148_get_window_attr ?x (V_chip s) = Inr (attr_read ?wd ?x)"
    by (rule get_window_attr_read [OF a(1,3,4) at w(2) a(2)])
  then have "good (\<lambda>(r, s'). r = (None, attr_read ?wd ?x) \<and> vme_inv s') (vme_get_window_attr k d s)"
    by (intro good_mono [OF vme_get_window_attr_good [OF assms(1)]]) (use assms(2,3) in auto)
  then show ?thesis by (auto simp: good_iff attr_read_def)
qed

lemma vme1_windows:
  "W_active (the_window 0 vme1)" "window_num (W_desc (the_window 0 vme1)) = of_nat 0" "window_num (W_desc (the_window 3 vme1)) = of_nat 0"
  by (code_simp)+

theorem attributes_read_witness:
  "\<exists>d' s'. vme_get_window_attr kern0 (zero_mapping\<lparr>window_num := 3\<rparr>) vme1 = Inr ((None, d'), s') \<and> window_enabled d' = 1 \<and>
     sizel d' = sizel (W_desc (the_window 0 vme1)) - 0x10000"
proof -
  have n: "in_table (window_num (zero_mapping\<lparr>window_num := 3\<rparr>))" "window_index (window_num (zero_mapping\<lparr>window_num := 3\<rparr>)) = 3"
    by (simp_all add: in_table_def window_index_def zero_mapping_def TSI148_NUM_OUT_WINDOWS_def)
  show ?thesis
    using attributes_read [OF vme1_inv kern0_ok(2) n(1), of 0] vme1_windows n(2) by (auto simp: TSI148_NUM_OUT_WINDOWS_def)
qed

section \<open>Mapping to user space\<close>

lemma page_low: "(x :: u32) AND NOT PAGE_MASK = take_bit 12 x"
  by (simp only: PAGE_MASK_def bit.double_compl take_bit_eq_mask) (simp add: mask_eq_exp_minus_1)

lemma block_low: "(x :: u32) AND 0xffff = 0 \<Longrightarrow> take_bit 12 x = 0"
proof -
  assume "x AND 0xffff = 0"
  then have "take_bit 16 x = 0" by (simp only: take_bit_eq_mask) (simp add: mask_eq_exp_minus_1)
  then have "take_bit 12 (take_bit 16 x) = 0" by simp
  then show ?thesis by (simp only: take_bit_take_bit) simp
qed

lemma page_of_block: "(x :: u32) AND 0xffff = 0 \<Longrightarrow> x AND PAGE_MASK = x"
proof -
  assume "x AND 0xffff = 0"
  then have "x AND NOT PAGE_MASK = 0" by (simp only: page_low block_low)
  moreover have "x = (x AND PAGE_MASK) OR (x AND NOT PAGE_MASK)" by (rule bit_word_eqI) (auto simp: bit_and_iff bit_or_iff bit_not_iff)
  ultimately show ?thesis by simp
qed

lemma page_dvd: "take_bit 12 (x :: u32) = 0 \<longleftrightarrow> 4096 dvd unat x"
proof -
  have "unat (take_bit 12 x) = unat x mod 4096" by (simp only: unsigned_take_bit_eq) (simp add: take_bit_eq_mod)
  then show ?thesis by (metis unat_0 unat_eq_zero dvd_eq_mod_eq_0)
qed

lemma page_add: "(x :: u32) AND 0xffff = 0 \<Longrightarrow> y AND NOT PAGE_MASK = 0 \<Longrightarrow> (x + y) AND NOT PAGE_MASK = 0"
  using block_low [of x] unfolding page_low page_dvd unat_word_ariths by (simp add: dvd_mod_iff)

text \<open>
  C25: Pages are given to user space only for a mapping that the calling file holds in an active
  window: they start at the page of the mapping's first byte, and when the area does not wrap
  around the address space all of its bytes are translated by that window. Otherwise nothing is
  mapped.
\<close>

theorem mmap_own_mapping:
  assumes "vme_inv s" "bus_ok k" "vme_window_mmap k fp v s = Inr (rc, s')"
  shows "if rc = None
     then user_maps s' = user_maps s @ [(fp, vma_addr v, vma_size v)] \<and>
       (\<exists>i < TSI148_NUM_OUT_WINDOWS. \<exists>x \<in> set (W_mappings (the_window i s)). W_active (the_window i s) \<and> Mp_file x = fp \<and>
          vma_addr v = pci_addrl (Mp_desc x) AND PAGE_MASK \<and>
          (unat (vma_addr v) + unat (vma_size v) < 2 ^ 32 \<longrightarrow>
             (\<forall>j. unat j < unat (vma_size v) \<longrightarrow> bus_cycle (otrans (V_chip s) ! i) (vma_addr v + j) \<noteq> None)))
     else user_maps s' = user_maps s"
proof (cases "rc = None")
  case False
  then show ?thesis
    using mmap_loop_good [OF assms(1), where k = k and fp = fp and v = v and ks = "[0 ..< TSI148_NUM_OUT_WINDOWS]"] assms(3)
    by (auto simp: vme_window_mmap_def same_world_def)
next
  case True
  obtain i where i: "i < TSI148_NUM_OUT_WINDOWS" "mmap_allowed fp v (the_window i s)" "user_maps s' = user_maps s @ [(fp, vma_addr v, vma_size v)]"
    using mmap_loop_good [OF assms(1), where k = k and fp = fp and v = v and ks = "[0 ..< TSI148_NUM_OUT_WINDOWS]"] assms(3) True
    by (auto simp: vme_window_mmap_def)
  let ?d = "W_desc (the_window i s)"
  obtain x where x: "x \<in> set (W_mappings (the_window i s))" "Mp_file x = fp" "W_active (the_window i s)"
    "vme_check_mmap_region ?d (Mp_desc x) (vma_addr v) (vma_size v)"
    using i(2) by (auto simp: mmap_allowed_def)
  have chk: "\<not> vma_addr v < pci_addrl ?d" "\<not> pci_addrl ?d + sizel ?d < vma_addr v + vma_size v"
    "vma_addr v = pci_addrl (Mp_desc x) AND PAGE_MASK"
    using x(4) by (auto simp: vme_check_mmap_region_def Let_def split: if_splits)
  have "desc_set i ?d (otrans (V_chip s) ! i)"
    using assms(1) i(1) x(3) by (simp add: vme_inv_def vme_ok_def window_ok_def)
  then obtain a where a: "tsi148_setup_window_attributes (v2esst_mode ?d) (data_width ?d) (D_am ?d) = Some a"
    "otrans (V_chip s) ! i = window_trans ?d a" "pci_addrl ?d AND 0xffff = 0" "sizel ?d AND 0xffff = 0"
    "unat (pci_addrl ?d) + unat (sizel ?d) \<le> 2 ^ 32"
    by (auto simp: desc_set_def)
  have cyc: "bus_cycle (otrans (V_chip s) ! i) (vma_addr v + j) \<noteq> None"
    if nw: "unat (vma_addr v) + unat (vma_size v) < 2 ^ 32" and j: "unat j < unat (vma_size v)" for j
  proof -
    have "unat (vma_addr v - pci_addrl ?d + j) < unat (sizel ?d)"
      by (rule offset_inside [OF check_inside [OF chk(1,2) nw] j nw])
    from bus_cycle_inside [OF a(1,3-5) this] show ?thesis by (simp add: a(2))
  qed
  then show ?thesis unfolding if_P [OF True]
    by (intro conjI i(3) exI [of _ i] bexI [OF _ x(1)] i(1) x(2,3) chk(3)) blast
qed

definition area0 :: vm_area where
  "area0 = \<lparr>vm_start = 0x40000000, vm_end = 0x40001000, vm_pgoff = 0x80123\<rparr>"

theorem mmap_own_mapping_witness:
  "\<exists>s'. vme_window_mmap kern0 (Some 1) area0 vme1 = Inr (None, s') \<and>
     user_maps s' = user_maps vme1 @ [(Some 1, 0x80123000, 0x1000)]"
proof -
  have "case vme_window_mmap kern0 (Some 1) area0 vme1 of Inl e \<Rightarrow> False | Inr (rc, s) \<Rightarrow> rc = None" by code_simp
  then obtain s' where s': "vme_window_mmap kern0 (Some 1) area0 vme1 = Inr (None, s')" by (auto split: sum.splits)
  have "vma_addr area0 = 0x80123000" "vma_size area0 = 0x1000"
    by (simp_all add: area0_def vma_addr_def vma_size_def PAGE_SHIFT_def)
  then show ?thesis using mmap_own_mapping [OF vme1_inv kern0_ok(1) s'] s' by simp
qed

text \<open>
  The checks compute with wrap-around. When a file holds a mapping whose end wraps past the
  end of the address space, which finding a mapping does not exclude, mapping it to user space
  succeeds for all its pages, and the pages go on past the end of the window.
\<close>

theorem mmap_past_window:
  assumes "vme_inv s" "calm k" "bus_ok k" "remap_rc k = None" "i < TSI148_NUM_OUT_WINDOWS" "W_active (the_window i s)"
    "x \<in> set (W_mappings (the_window i s))" "Mp_file x = fp" "d = W_desc (the_window i s)" "sizel d \<noteq> 0"
    "pci_addrl (Mp_desc x) = pci_addrl d" "sizel (Mp_desc x) AND NOT PAGE_MASK = 0"
    "unat (sizel d) < unat (sizel (Mp_desc x))" "pci_addrl d + sizel (Mp_desc x) \<le> pci_addrl d + sizel d"
    "vma_addr v = pci_addrl d" "vma_size v = sizel (Mp_desc x)"
  shows "\<exists>s'. vme_window_mmap k fp v s = Inr (None, s') \<and> user_maps s' = user_maps s @ [(fp, pci_addrl d, sizel (Mp_desc x))] \<and>
     bus_cycle (otrans (V_chip s) ! i) (pci_addrl d + sizel d) = None"
proof -
  have "desc_set i d (otrans (V_chip s) ! i)"
    using assms(1,5,6,9) by (simp add: vme_inv_def vme_ok_def window_ok_def)
  then obtain a where a: "otrans (V_chip s) ! i = window_trans d a" "pci_addrl d AND 0xffff = 0" "sizel d AND 0xffff = 0"
    "unat (pci_addrl d) + unat (sizel d) \<le> 2 ^ 32"
    by (auto simp: desc_set_def)
  have page: "pci_addrl d AND PAGE_MASK = pci_addrl d"
    by (rule page_of_block [OF a(2)])
  have "(pci_addrl d + sizel (Mp_desc x)) AND NOT PAGE_MASK = 0"
    by (rule page_add [OF a(2) assms(12)])
  then have "vme_check_mmap_region d (Mp_desc x) (vma_addr v) (vma_size v)"
    using page assms(11,14-16) by (simp add: vme_check_mmap_region_def Let_def not_less)
  then have al: "mmap_allowed fp v (the_window i s)" using assms(6-9) by (auto simp: mmap_allowed_def)
  have "good (\<lambda>(rc, s'). rc = None \<and> user_maps s' = user_maps s @ [(fp, pci_addrl d, sizel (Mp_desc x))]) (vme_window_mmap k fp v s)"
    unfolding vme_window_mmap_def
    by (rule good_mono [OF mmap_loop_good [OF assms(1)]])
      (use al assms(2,4,5,15,16) in \<open>auto split: if_splits\<close>)
  moreover have "bus_cycle (window_trans d a) (pci_addrl d + sizel d) = None"
    by (rule bus_cycle_beyond [OF a(2,3) assms(10) a(4)]) simp_all
  ultimately show ?thesis by (auto simp: good_iff a(1))
qed

definition req2 :: vme_mapping where
  "req2 = zero_mapping\<lparr>data_width := VME_D32, D_am := VME_A32_USER_DATA_SCT, vme_addrl := 0xC0000000, sizel := 0x10000000\<rparr>"

definition req3 :: vme_mapping where
  "req3 = req2\<lparr>sizel := 0x80001000\<rparr>"

definition wrapped_result :: "vme_mapping \<times> vme_state" where
  "wrapped_result =
     (case bind_r (do_vme_find_mapping kern0 req2 1 (Some 1) vme0) (\<lambda>(r, s). do_vme_find_mapping kern0 req3 0 (Some 1) s) of
        Inr ((rc, m), s) \<Rightarrow> (m, s))"

definition map3 :: vme_mapping where "map3 = fst wrapped_result"
definition vme3 :: vme_state where "vme3 = snd wrapped_result"

definition area3 :: vm_area where
  "area3 = \<lparr>vm_start = 0, vm_end = 0x80001000, vm_pgoff = 0x80000\<rparr>"

lemma vme3_inv: "vme_inv vme3"
proof -
  have "good (\<lambda>(r, s). vme_inv s) (bind_r (do_vme_find_mapping kern0 req2 1 (Some 1) vme0) (\<lambda>(r, s). do_vme_find_mapping kern0 req3 0 (Some 1) s))"
    using find.op_good [OF vme0_inv kern0_ok(1), of "(req2, 1, Some 1)"] find.op_good [of _ kern0 "(req3, 0, Some 1)"] kern0_ok(1)
    by (auto intro!: good_bind)
  then show ?thesis by (auto simp: vme3_def wrapped_result_def good_iff)
qed

lemma vme3_window: "W_active (the_window 0 vme3)" "sizel (W_desc (the_window 0 vme3)) = 0x10000000"
  "pci_addrl (W_desc (the_window 0 vme3)) = 0x80000000" "map Mp_desc (W_mappings (the_window 0 vme3)) ! 1 = map3"
  "map Mp_file (W_mappings (the_window 0 vme3)) = [Some 1, Some 1]" "pci_addrl map3 = 0x80000000" "sizel map3 = 0x80001000"
  by (code_simp)+

theorem mmap_past_window_witness:
  "\<exists>s'. vme_window_mmap kern0 (Some 1) area3 vme3 = Inr (None, s') \<and>
     user_maps s' = user_maps vme3 @ [(Some 1, 0x80000000, 0x80001000)] \<and>
     bus_cycle (otrans (V_chip vme3) ! 0) 0x90000000 = None"
proof -
  let ?x = "W_mappings (the_window 0 vme3) ! 1"
  have two: "length (W_mappings (the_window 0 vme3)) = 2" using arg_cong [OF vme3_window(5), of length] by simp
  then have x: "?x \<in> set (W_mappings (the_window 0 vme3))" "Mp_desc ?x = map3" "Mp_file ?x = Some 1"
    using vme3_window(4) arg_cong [OF vme3_window(5), of "\<lambda>l. l ! 1"] by simp_all
  have area: "vma_addr area3 = 0x80000000" "vma_size area3 = 0x80001000"
    by (simp_all add: area3_def vma_addr_def vma_size_def PAGE_SHIFT_def)
  have n: "(0 :: nat) < TSI148_NUM_OUT_WINDOWS" and r: "remap_rc kern0 = None" by (simp_all add: TSI148_NUM_OUT_WINDOWS_def kern0_def)
  show ?thesis
    using mmap_past_window [OF vme3_inv kern0_ok(2,1) r n vme3_window(1) x(1) x(3) refl, of area3] x(2) vme3_window area
    by (simp add: PAGE_MASK_def word_le_nat_alt)
qed

section \<open>The invariant of every reachable state\<close>

text \<open>
  C2: After any sequence of calls of the driver, by programs, by other drivers and at the end of
  the module, and of interrupts, whatever the kernel answered, the invariant holds: no mutex is
  held, reference counts and mappings agree, the chip is programmed for the active windows only
  and no address register was written while its window was enabled, and nothing is leaked. In
  such a state every request returns.
\<close>

theorem vme_windows_invariant:
  assumes "vme_reach s" "bus_ok k"
  shows "vme_inv s \<and> (\<exists>r s'. vme_window_ioctl k fp cmd s = Inr (r, s') \<and> vme_reach s')"
proof -
  have inv: "vme_inv s" by (rule vme_reach_inv [OF assms(1)])
  then obtain r s' where "vme_window_ioctl k fp cmd s = Inr (r, s')"
    using ioctl.returns [of s k "(fp, cmd)"] assms(2) by auto
  then show ?thesis using inv reach_step [OF assms(1) step_ioctl [OF assms(2)]] by blast
qed

lemma reach_vme0: "vme_reach vme0"
proof -
  have "vme_window_ioctl kern0 (Some 1) (VME_IOCTL_SET_CREATE_ON_FIND_FAIL 1) (vme_window_init vme_start) = Inr ((None, No_reply), vme0)"
    by (simp add: get_user_def vme0_def kern0_def)
  then show ?thesis using reach_step [OF reach_init step_ioctl [OF kern0_ok(1)]] by blast
qed

lemma copy0: "copy_in kern0" "copy_out kern0"
  by (simp_all add: kern0_def)

lemma reach_vme1: "vme_reach vme1"
proof -
  have "vme_create_on_find_fail vme0 = 1" by (simp add: vme0_def)
  then have "vme_window_ioctl kern0 (Some 1) (VME_IOCTL_FIND_MAPPING req0) vme0 = Inr ((None, Desc_reply map0), vme1)"
    by (simp only: vme_window_ioctl.simps from_user_def copy0 if_True found0 bind_r_simps) (simp add: reply_desc_def copy0)
  then show ?thesis using reach_step [OF reach_vme0 step_ioctl [OF kern0_ok(1)]] by blast
qed

theorem vme_windows_invariant_witness:
  "vme_inv vme1 \<and> W_active (the_window 0 vme1) \<and>
     (\<exists>r s'. vme_window_ioctl kern0 (Some 1) (VME_IOCTL_RELEASE_MAPPING map0) vme1 = Inr (r, s'))"
  using vme_windows_invariant [OF reach_vme1 kern0_ok(1)] vme1_windows(1) by blast

end
