(* ===== verification/Vme_Dma.thy ===== *)
theory Vme_Dma
  imports Vme_Window
begin

text \<open>
  DMA transfers of the VME bridge (vmebridge/driver/vme_dma.c and the DMA part of tsi148.c): the
  attribute words, the chain of hardware descriptors built from a scatter list, the pinning and
  mapping of the buffer's pages, the two channels behind a semaphore, and \<^verbatim>\<open>vme_do_dma\<close> in its two
  halves: up to the start of the transfer, and from its end. Between the halves the process waits
  and other processes run. Descriptor memory is a function from bus addresses, whose values are
  those the chip reads (big endian). Kernel services (page pinning, bus mapping, the descriptor
  pool) are inputs; what the driver holds of them is part of the state.
\<close>

section \<open>Transfer descriptors\<close>

definition VME_DMA_TO_DEVICE :: u32 where "VME_DMA_TO_DEVICE = 1"
definition VME_DMA_FROM_DEVICE :: u32 where "VME_DMA_FROM_DEVICE = 2"
definition VME_DMA_BSIZE_4096 :: u32 where "VME_DMA_BSIZE_4096 = 7"
definition VME_DMA_BACKOFF_64 :: u32 where "VME_DMA_BACKOFF_64 = 7"

record vme_dma_attr =
  at_width :: u32
  at_am :: u32
  at_sst :: u32
  at_bcast :: u32
  at_addru :: u32
  at_addrl :: u32

record vme_dma_ctrl =
  vme_block_size :: u32
  vme_backoff_time :: u32
  pci_block_size :: u32
  pci_backoff_time :: u32

record vme_dma =
  dm_status :: u32
  dm_length :: u32
  dm_novmeinc :: u32
  dm_dir :: u32
  dm_src :: vme_dma_attr
  dm_dst :: vme_dma_attr
  dm_ctrl :: vme_dma_ctrl

section \<open>Registers and descriptors of the chip\<close>

definition TSI148_NUM_DMA_CHANNELS :: nat where "TSI148_NUM_DMA_CHANNELS = 2"
definition TSI148_LCSR_DCTL_ABT :: u32 where "TSI148_LCSR_DCTL_ABT = 0x8000000"
definition TSI148_LCSR_DCTL_DGO :: u32 where "TSI148_LCSR_DCTL_DGO = 0x2000000"
definition TSI148_LCSR_DCTL_MOD :: u32 where "TSI148_LCSR_DCTL_MOD = 0x800000"
definition TSI148_LCSR_DCTL_VBKS_SHIFT :: nat where "TSI148_LCSR_DCTL_VBKS_SHIFT = 12"
definition TSI148_LCSR_DCTL_VBKS_M :: u32 where "TSI148_LCSR_DCTL_VBKS_M = 0x7000"
definition TSI148_LCSR_DCTL_VBOT_SHIFT :: nat where "TSI148_LCSR_DCTL_VBOT_SHIFT = 8"
definition TSI148_LCSR_DCTL_VBOT_M :: u32 where "TSI148_LCSR_DCTL_VBOT_M = 0x700"
definition TSI148_LCSR_DCTL_PBKS_SHIFT :: nat where "TSI148_LCSR_DCTL_PBKS_SHIFT = 4"
definition TSI148_LCSR_DCTL_PBKS_M :: u32 where "TSI148_LCSR_DCTL_PBKS_M = 0x70"
definition TSI148_LCSR_DCTL_PBOT_SHIFT :: nat where "TSI148_LCSR_DCTL_PBOT_SHIFT = 0"
definition TSI148_LCSR_DCTL_PBOT_M :: u32 where "TSI148_LCSR_DCTL_PBOT_M = 7"
definition TSI148_LCSR_DSTA_BSY :: u32 where "TSI148_LCSR_DSTA_BSY = 0x1000000"
definition TSI148_LCSR_DSTA_DON :: u32 where "TSI148_LCSR_DSTA_DON = 0x2000000"
definition TSI148_LCSR_DSAT_TYP_PCI :: u32 where "TSI148_LCSR_DSAT_TYP_PCI = 0"
definition TSI148_LCSR_DSAT_TYP_VME :: u32 where "TSI148_LCSR_DSAT_TYP_VME = 0x10000000"
definition TSI148_LCSR_DSAT_2eSSTM_SHIFT :: nat where "TSI148_LCSR_DSAT_2eSSTM_SHIFT = 11"
definition TSI148_LCSR_DSAT_2eSSTM_M :: u32 where "TSI148_LCSR_DSAT_2eSSTM_M = 0x1800"
definition TSI148_LCSR_DSAT_TM_SHIFT :: nat where "TSI148_LCSR_DSAT_TM_SHIFT = 8"
definition TSI148_LCSR_DSAT_TM_M :: u32 where "TSI148_LCSR_DSAT_TM_M = 0x700"
definition TSI148_LCSR_DSAT_DBW_SHIFT :: nat where "TSI148_LCSR_DSAT_DBW_SHIFT = 6"
definition TSI148_LCSR_DSAT_DBW_M :: u32 where "TSI148_LCSR_DSAT_DBW_M = 0xC0"
definition TSI148_LCSR_DSAT_SUP :: u32 where "TSI148_LCSR_DSAT_SUP = 0x20"
definition TSI148_LCSR_DSAT_PGM :: u32 where "TSI148_LCSR_DSAT_PGM = 0x10"
definition TSI148_LCSR_DSAT_AMODE_SHIFT :: nat where "TSI148_LCSR_DSAT_AMODE_SHIFT = 0"
definition TSI148_LCSR_DSAT_AMODE_M :: u32 where "TSI148_LCSR_DSAT_AMODE_M = 0xF"
definition TSI148_LCSR_DDAT_TYP_PCI :: u32 where "TSI148_LCSR_DDAT_TYP_PCI = 0"
definition TSI148_LCSR_DDAT_TYP_VME :: u32 where "TSI148_LCSR_DDAT_TYP_VME = 0x10000000"
definition TSI148_LCSR_DNLAL_DNLAL_M :: u32 where "TSI148_LCSR_DNLAL_DNLAL_M = 0xFFFFFFF8"
definition TSI148_LCSR_DNLAL_LLA :: u32 where "TSI148_LCSR_DNLAL_LLA = 1"

record tsi148_dma_desc =
  dsau :: u32
  dsal :: u32
  ddau :: u32
  ddal :: u32
  dsat :: u32
  ddat :: u32
  dnlau :: u32
  dnlal :: u32
  dcnt :: u32
  ddbs :: u32

text \<open>The registers of a channel that the driver uses, and the writes made to them.\<close>

record tsi148_dma =
  R_dctl :: u32
  R_dsta :: u32
  R_dnlau :: u32
  R_dnlal :: u32

datatype dreg = DCTL | DNLAU | DNLAL

section \<open>State\<close>

record sg_entry =
  sg_page :: u32
  sg_length :: u32
  sg_offset :: u32

text \<open>
  The scatter list is \<open>None\<close> while its memory is uninitialised; of the mapped entries the bus
  address and length are kept, and their number is \<^verbatim>\<open>sg_mapped\<close>.
\<close>

record dma_channel =
  C_busy :: u32
  C_desc :: vme_dma
  C_chained :: i32
  C_sgl :: "sg_entry list option"
  C_sg_pages :: nat
  C_sg_mapped :: "(u32 \<times> u32) list"
  hw_desc_list :: "u32 list"

record dma_state =
  channels :: "dma_channel list"
  dma_semaphore :: nat
  dma_lock :: bool
  dma_disable :: bool
  dma_regs :: "tsi148_dma list"
  dma_trace :: "(nat \<times> dreg \<times> u32) list"
  pool_mem :: "u32 \<Rightarrow> tsi148_dma_desc"
  pool_live :: "u32 list"            \<comment> \<open>descriptors taken from the pool\<close>
  pool_destroyed :: bool
  pinned :: "u32 list"               \<comment> \<open>user pages pinned\<close>
  sgl_blocks :: nat                  \<comment> \<open>scatter lists allocated and not freed\<close>
  sg_maps :: nat                     \<comment> \<open>scatter lists mapped onto the bus\<close>

record dkernel =
  sgl_ok :: bool
  pages_ok :: bool
  get_user_pages :: "u32 \<Rightarrow> nat \<Rightarrow> bool \<Rightarrow> errno + u32 list"
  virt_addr_valid :: "u32 \<Rightarrow> bool"
  virt_to_page :: "u32 \<Rightarrow> u32"
  map_sg :: "sg_entry list \<Rightarrow> (u32 \<times> u32) list"
  pool_alloc :: "u32 list \<Rightarrow> u32 option"
  entry_ok :: "u32 list \<Rightarrow> bool"
  sem_signal :: bool
  exit_meanwhile :: bool
  wait_signal :: bool
  aborted_status :: u32
  dma_copy_in :: bool
  dma_copy_out :: bool

definition channel_at :: "nat \<Rightarrow> dma_state \<Rightarrow> dma_channel" where
  "channel_at c s = channels s ! c"

definition upd_channel :: "nat \<Rightarrow> (dma_channel \<Rightarrow> dma_channel) \<Rightarrow> dma_state \<Rightarrow> dma_state" where
  "upd_channel c f s = s\<lparr>channels := (channels s)[c := f (channels s ! c)]\<rparr>"

definition put_dreg :: "dreg \<Rightarrow> u32 \<Rightarrow> tsi148_dma \<Rightarrow> tsi148_dma" where
  "put_dreg r v t = (case r of DCTL \<Rightarrow> t\<lparr>R_dctl := v\<rparr> | DNLAU \<Rightarrow> t\<lparr>R_dnlau := v\<rparr> | DNLAL \<Rightarrow> t\<lparr>R_dnlal := v\<rparr>)"

definition dma_write :: "nat \<Rightarrow> dreg \<Rightarrow> u32 \<Rightarrow> dma_state \<Rightarrow> dma_state" where
  "dma_write c r v s =
     s\<lparr>dma_regs := (dma_regs s)[c := put_dreg r v (dma_regs s ! c)], dma_trace := dma_trace s @ [(c, r, v)]\<rparr>"

section \<open>Attribute and control words\<close>

text \<open>\<^verbatim>\<open>None\<close> stands for the error return \<^verbatim>\<open>-EINVAL\<close>.\<close>

definition tsi148_setup_dma_attributes :: "u32 \<Rightarrow> u32 \<Rightarrow> u32 \<Rightarrow> u32 option" where
  "tsi148_setup_dma_attributes sst dw m =
     (if sst \<noteq> VME_SST160 \<and> sst \<noteq> VME_SST267 \<and> sst \<noteq> VME_SST320 then None
      else let a1 = push_bit TSI148_LCSR_DSAT_2eSSTM_SHIFT sst AND TSI148_LCSR_DSAT_2eSSTM_M in
      if dw \<noteq> VME_D16 \<and> dw \<noteq> VME_D32 then None
      else let a2 = a1 OR (push_bit TSI148_LCSR_DSAT_DBW_SHIFT (if dw = VME_D16 then TSI148_DW_16 else TSI148_DW_32)
                             AND TSI148_LCSR_DSAT_DBW_M) in
      case am_to_attr m of
        None \<Rightarrow> None
      | Some (addr_size, transfer_mode, user_access, data_access) \<Rightarrow>
          if 5 < transfer_mode then None
          else let a3 = a2 OR (push_bit TSI148_LCSR_DSAT_TM_SHIFT transfer_mode AND TSI148_LCSR_DSAT_TM_M) in
          if user_access \<noteq> TSI148_SUPER \<and> user_access \<noteq> TSI148_USER then None
          else let a4 = (if user_access = TSI148_SUPER then a3 OR TSI148_LCSR_DSAT_SUP else a3) in
          if data_access \<noteq> TSI148_PROG \<and> data_access \<noteq> TSI148_DATA then None
          else let a5 = (if data_access = TSI148_PROG then a4 OR TSI148_LCSR_DSAT_PGM else a4) in
          if addr_size \<in> set [0, 1, 2, 4, 5, 8, 9, 10, 11]
          then Some (a5 OR (push_bit TSI148_LCSR_DSAT_AMODE_SHIFT addr_size AND TSI148_LCSR_DSAT_AMODE_M))
          else None)"

definition tsi148_dma_setup_src :: "vme_dma \<Rightarrow> u32 option" where
  "tsi148_dma_setup_src d =
     (if dm_dir d = VME_DMA_TO_DEVICE then Some TSI148_LCSR_DSAT_TYP_PCI
      else if dm_dir d = VME_DMA_FROM_DEVICE
      then map_option (\<lambda>a. a OR TSI148_LCSR_DSAT_TYP_VME)
             (tsi148_setup_dma_attributes (at_sst (dm_src d)) (at_width (dm_src d)) (at_am (dm_src d)))
      else None)"

definition tsi148_dma_setup_dst :: "vme_dma \<Rightarrow> u32 option" where
  "tsi148_dma_setup_dst d =
     (if dm_dir d = VME_DMA_TO_DEVICE
      then map_option (\<lambda>a. a OR TSI148_LCSR_DDAT_TYP_VME)
             (tsi148_setup_dma_attributes (at_sst (dm_dst d)) (at_width (dm_dst d)) (at_am (dm_dst d)))
      else if dm_dir d = VME_DMA_FROM_DEVICE then Some TSI148_LCSR_DDAT_TYP_PCI
      else None)"

text \<open>The enumerations are unsigned, so the tests against their first member never fail.\<close>

definition tsi148_dma_setup_ctl :: "vme_dma \<Rightarrow> u32 option" where
  "tsi148_dma_setup_ctl d =
     (let c = dm_ctrl d in
      if VME_DMA_BSIZE_4096 < vme_block_size c \<or> VME_DMA_BACKOFF_64 < vme_backoff_time c \<or>
         VME_DMA_BSIZE_4096 < pci_block_size c \<or> VME_DMA_BACKOFF_64 < pci_backoff_time c
      then None
      else Some ((push_bit TSI148_LCSR_DCTL_VBKS_SHIFT (vme_block_size c) AND TSI148_LCSR_DCTL_VBKS_M) OR
                 (push_bit TSI148_LCSR_DCTL_VBOT_SHIFT (vme_backoff_time c) AND TSI148_LCSR_DCTL_VBOT_M) OR
                 (push_bit TSI148_LCSR_DCTL_PBKS_SHIFT (pci_block_size c) AND TSI148_LCSR_DCTL_PBKS_M) OR
                 (push_bit TSI148_LCSR_DCTL_PBOT_SHIFT (pci_backoff_time c) AND TSI148_LCSR_DCTL_PBOT_M)))"

section \<open>The chain of hardware descriptors\<close>

definition tsi148_dma_free_chain :: "nat \<Rightarrow> dma_state \<Rightarrow> dma_state" where
  "tsi148_dma_free_chain c s =
     upd_channel c (\<lambda>h. h\<lparr>hw_desc_list := []\<rparr>)
       (s\<lparr>pool_live := fold remove1 (hw_desc_list (channel_at c s)) (pool_live s)\<rparr>)"

definition get_vmeaddr :: "vme_dma \<Rightarrow> u32 option" where
  "get_vmeaddr d =
     (if dm_dir d = VME_DMA_TO_DEVICE then Some (at_addrl (dm_dst d))
      else if dm_dir d = VME_DMA_FROM_DEVICE then Some (at_addrl (dm_src d)) else None)"

text \<open>\<open>None\<close> is the error \<^verbatim>\<open>-ENOMEM\<close>: the descriptor is given back when its list entry cannot be had.\<close>

definition hwdesc_init :: "dkernel \<Rightarrow> nat \<Rightarrow> dma_state \<Rightarrow> u32 option \<times> dma_state" where
  "hwdesc_init k c s =
     (case pool_alloc k (pool_live s) of
        None \<Rightarrow> (None, s)
      | Some phys \<Rightarrow>
          if \<not> entry_ok k (pool_live s) then (None, s)
          else (Some phys, upd_channel c (\<lambda>h. h\<lparr>hw_desc_list := hw_desc_list h @ [phys]\<rparr>) (s\<lparr>pool_live := phys # pool_live s\<rparr>)))"

definition tsi148_fill_dma_desc :: "vme_dma \<Rightarrow> u32 \<Rightarrow> u32 \<Rightarrow> u32 \<Rightarrow> u32 \<Rightarrow> u32 \<Rightarrow> tsi148_dma_desc \<Rightarrow> tsi148_dma_desc" where
  "tsi148_fill_dma_desc d vme_addr dma_addr len sat dat t =
     (let t1 = t\<lparr>dsau := 0, ddau := 0\<rparr>; ending = (\<lambda>t. t\<lparr>dcnt := len, dsat := sat, ddat := dat, dnlau := 0, dnlal := TSI148_LCSR_DNLAL_LLA\<rparr>) in
      if dm_dir d = VME_DMA_TO_DEVICE
      then ending (t1\<lparr>dsal := dma_addr, ddal := vme_addr, ddbs := at_bcast (dm_dst d)\<rparr>)
      else if dm_dir d = VME_DMA_FROM_DEVICE
      then ending (t1\<lparr>dsal := vme_addr, ddal := dma_addr, ddbs := 0\<rparr>)
      else t1)"

definition bshift_of_am :: "u32 \<Rightarrow> nat" where
  "bshift_of_am m =
     (if m \<in> set [VME_A64_MBLT, VME_A32_USER_MBLT, VME_A32_SUP_MBLT, VME_A24_USER_MBLT, VME_A24_SUP_MBLT] then 11
      else if m \<in> set [VME_A64_BLT, VME_A32_USER_BLT, VME_A32_SUP_BLT, VME_A40_BLT, VME_A24_USER_BLT, VME_A24_SUP_BLT] then 8
      else 0)"

definition tsi148_get_bshift :: "vme_dma \<Rightarrow> nat" where
  "tsi148_get_bshift d = bshift_of_am (if dm_dir d = VME_DMA_FROM_DEVICE then at_am (dm_src d) else at_am (dm_dst d))"

definition tsi148_get_bsize :: "nat \<Rightarrow> u32" where "tsi148_get_bsize bshift = push_bit bshift 1"
definition tsi148_get_bmask :: "u32 \<Rightarrow> u32" where "tsi148_get_bmask bsize = bsize - 1"

text \<open>
  The local variables of \<^verbatim>\<open>tsi148_dma_link_add\<close> that its loop changes, and what stays the same.
  A pointer to a descriptor is its bus address, NULL is \<open>None\<close>.
\<close>

record link_vars =
  lk_vme :: u32
  lk_dma :: u32
  lk_len :: u32
  lk_curr :: "u32 option"
  lk_next :: "u32 option"

record link_args =
  la_vme_end :: u32
  la_dma_end :: u32
  la_more :: bool                    \<comment> \<open>\<^verbatim>\<open>index < numpages - 1\<close>\<close>
  la_bshift :: nat
  la_dsat :: u32
  la_ddat :: u32

definition link_len :: "link_args \<Rightarrow> link_vars \<Rightarrow> u32" where
  "link_len a l =
     (let len = (if la_bshift a \<noteq> 0
                 then tsi148_get_bsize (la_bshift a) - (lk_vme l AND tsi148_get_bmask (tsi148_get_bsize (la_bshift a)))
                 else lk_len l)
      in if la_dma_end a < lk_dma l + len then la_dma_end a - lk_dma l else len)"

definition link_step :: "dkernel \<Rightarrow> nat \<Rightarrow> link_args \<Rightarrow> link_vars \<Rightarrow> dma_state \<Rightarrow> (errno option \<times> link_vars \<times> dma_state) result" where
  "link_step k c a l s =
     (case lk_curr l of
        None \<Rightarrow> Inl Bug_on
      | Some cur \<Rightarrow>
          let d = C_desc (channel_at c s); len = link_len a l;
              s1 = s\<lparr>pool_mem := (pool_mem s)(cur := tsi148_fill_dma_desc d (lk_vme l) (lk_dma l) len (la_dsat a) (la_ddat a) (pool_mem s cur))\<rparr>;
              l1 = l\<lparr>lk_len := len, lk_vme := (if dm_novmeinc d = 0 then lk_vme l + len else lk_vme l), lk_dma := lk_dma l + len\<rparr>
          in if la_more a \<or> lk_dma l1 < la_dma_end a
             then (case hwdesc_init k c s1 of
                     (None, s2) \<Rightarrow> Inr (Some ENOMEM, l1, s2)
                   | (Some phys_next, s2) \<Rightarrow>
                       Inr (None, l1\<lparr>lk_next := Some phys_next, lk_curr := Some phys_next\<rparr>,
                            s2\<lparr>pool_mem := (pool_mem s2)(cur := (pool_mem s2 cur)
                                 \<lparr>dnlau := 0, dnlal := phys_next AND TSI148_LCSR_DNLAL_DNLAL_M\<rparr>)\<rparr>))
             else Inr (None, l1\<lparr>lk_curr := lk_next l1\<rparr>, s1))"

partial_function (option) link_loop :: "dkernel \<Rightarrow> nat \<Rightarrow> link_args \<Rightarrow> link_vars \<Rightarrow> dma_state \<Rightarrow> (errno option \<times> link_vars \<times> dma_state) result option" where [code]:
  "link_loop k c a l s =
     (if \<not> (lk_vme l < la_vme_end a \<and> lk_dma l < la_dma_end a) then Some (Inr (None, l, s))
      else case link_step k c a l s of
             Inl e \<Rightarrow> Some (Inl e)
           | Inr (Some e, l1, s1) \<Rightarrow> Some (Inr (Some e, l1, s1))
           | Inr (None, l1, s1) \<Rightarrow> link_loop k c a l1 s1)"

text \<open>The pointer \<open>virt\<close> is set to the next link only on success.\<close>

definition tsi148_dma_link_add :: "dkernel \<Rightarrow> nat \<Rightarrow> u32 option \<Rightarrow> u32 \<Rightarrow> u32 \<Rightarrow> u32 \<Rightarrow> bool \<Rightarrow> nat \<Rightarrow> u32 \<Rightarrow> u32 \<Rightarrow>
    dma_state \<Rightarrow> (errno option \<times> u32 option \<times> dma_state) result" where
  "tsi148_dma_link_add k c virt vme_addr dma_addr sz follows bshift sat dat s =
     (if virt = None then Inl Bug_on
      else case link_loop k c
             \<lparr>la_vme_end = vme_addr + sz, la_dma_end = dma_addr + sz, la_more = follows, la_bshift = bshift, la_dsat = sat, la_ddat = dat\<rparr>
             \<lparr>lk_vme = vme_addr, lk_dma = dma_addr, lk_len = sz, lk_curr = virt, lk_next = None\<rparr> s of
             None \<Rightarrow> Inl Endless
           | Some r \<Rightarrow> bind_r r (\<lambda>(rc, l, s1). Inr (rc, if rc = None then lk_next l else virt, s1)))"

text \<open>The loop over the mapped entries of the scatter list.\<close>

fun chain_loop :: "dkernel \<Rightarrow> nat \<Rightarrow> nat \<Rightarrow> u32 \<Rightarrow> u32 \<Rightarrow> (u32 \<times> u32) list \<Rightarrow> u32 option \<Rightarrow> u32 \<Rightarrow> dma_state \<Rightarrow> (errno option \<times> dma_state) result" where
  "chain_loop k c bshift sat dat [] cur vme_addr s = Inr (None, s)"
| "chain_loop k c bshift sat dat ((dma_addr, len) # segs) cur vme_addr s =
     bind_r (tsi148_dma_link_add k c cur vme_addr dma_addr len (segs \<noteq> []) bshift sat dat s) (\<lambda>(rc, cur1, s1).
       if rc \<noteq> None then Inr (rc, s1)
       else chain_loop k c bshift sat dat segs cur1
              (if dm_novmeinc (C_desc (channel_at c s1)) = 0 then vme_addr + len else vme_addr) s1)"

definition tsi148_dma_setup_chain :: "dkernel \<Rightarrow> nat \<Rightarrow> u32 \<Rightarrow> u32 \<Rightarrow> dma_state \<Rightarrow> (errno option \<times> dma_state) result" where
  "tsi148_dma_setup_chain k c sat dat s =
     (let d = C_desc (channel_at c s) in
      case hwdesc_init k c s of
        (None, s1) \<Rightarrow> Inr (Some ENOMEM, s1)
      | (Some phys_start, s1) \<Rightarrow>
          (case get_vmeaddr d of
             None \<Rightarrow> Inr (Some EINVAL, tsi148_dma_free_chain c s1)
           | Some vme_addr \<Rightarrow>
               bind_r (chain_loop k c (tsi148_get_bshift d) sat dat (C_sg_mapped (channel_at c s1)) (Some phys_start) vme_addr s1) (\<lambda>(rc, s2).
                 if rc \<noteq> None then Inr (rc, tsi148_dma_free_chain c s2)
                 else Inr (None, dma_write c DNLAL (phys_start AND TSI148_LCSR_DNLAL_DNLAL_M) (dma_write c DNLAU 0 s2)))))"

definition tsi148_dma_setup :: "dkernel \<Rightarrow> nat \<Rightarrow> dma_state \<Rightarrow> (errno option \<times> dma_state) result" where
  "tsi148_dma_setup k c s =
     (let d = C_desc (channel_at c s) in
      case tsi148_dma_setup_src d of
        None \<Rightarrow> Inr (Some EINVAL, s)
      | Some sat \<Rightarrow>
          (case tsi148_dma_setup_dst d of
             None \<Rightarrow> Inr (Some EINVAL, s)
           | Some dat \<Rightarrow>
               (case tsi148_dma_setup_ctl d of
                  None \<Rightarrow> Inr (Some EINVAL, s)
                | Some ctl \<Rightarrow>
                    tsi148_dma_setup_chain k c sat dat
                      (dma_write c DCTL (ctl AND NOT TSI148_LCSR_DCTL_MOD) (upd_channel c (\<lambda>h. h\<lparr>C_chained := 1\<rparr>) s)))))"

definition tsi148_dma_get_status :: "nat \<Rightarrow> dma_state \<Rightarrow> u32" where
  "tsi148_dma_get_status c s = R_dsta (dma_regs s ! c)"

definition tsi148_dma_busy :: "nat \<Rightarrow> dma_state \<Rightarrow> bool" where
  "tsi148_dma_busy c s \<longleftrightarrow> tsi148_dma_get_status c s AND TSI148_LCSR_DSTA_BSY \<noteq> 0"

text \<open>The chip changes the status register; after an abort the driver reads it 10us later.\<close>

definition set_status :: "nat \<Rightarrow> u32 \<Rightarrow> dma_state \<Rightarrow> dma_state" where
  "set_status c v s = s\<lparr>dma_regs := (dma_regs s)[c := (dma_regs s ! c)\<lparr>R_dsta := v\<rparr>]\<rparr>"

definition tsi148_dma_start :: "nat \<Rightarrow> dma_state \<Rightarrow> dma_state" where
  "tsi148_dma_start c s = dma_write c DCTL (R_dctl (dma_regs s ! c) OR TSI148_LCSR_DCTL_DGO) s"

definition tsi148_dma_abort :: "nat \<Rightarrow> dma_state \<Rightarrow> dma_state" where
  "tsi148_dma_abort c s = dma_write c DCTL (R_dctl (dma_regs s ! c) OR TSI148_LCSR_DCTL_ABT) s"

definition tsi148_dma_release :: "nat \<Rightarrow> dma_state \<Rightarrow> dma_state" where
  "tsi148_dma_release c s = (if C_chained (channel_at c s) \<noteq> 0 then tsi148_dma_free_chain c s else s)"

section \<open>Pinning and mapping the buffer\<close>

text \<open>The pages found, or the error; pages pinned by a call that got too few are released.\<close>

definition get_pages :: "dkernel \<Rightarrow> nat \<Rightarrow> u32 \<Rightarrow> bool \<Rightarrow> bool \<Rightarrow> dma_state \<Rightarrow> u32 list option \<times> dma_state" where
  "get_pages k nr uaddr rw to_user s =
     (if to_user
      then (case get_user_pages k uaddr nr rw of
              Inl e \<Rightarrow> (None, s)
            | Inr ps \<Rightarrow> if length ps < nr then (None, s) else (Some ps, s\<lparr>pinned := ps @ pinned s\<rparr>))
      else if \<not> virt_addr_valid k uaddr then (None, s)
      else (Some (map (\<lambda>i. virt_to_page k (uaddr + PAGE_SIZE * of_nat i)) [0 ..< nr]), s))"

text \<open>The entries after the first; \<open>len\<close> is what is left of the buffer.\<close>

fun sg_rest :: "u32 list \<Rightarrow> u32 \<Rightarrow> sg_entry list" where
  "sg_rest [] len = []"
| "sg_rest (p # ps) len =
     \<lparr>sg_page = p, sg_length = (if len < PAGE_SIZE then len else PAGE_SIZE), sg_offset = 0\<rparr> # sg_rest ps (len - PAGE_SIZE)"

definition sg_fill :: "u32 list \<Rightarrow> u32 \<Rightarrow> u32 \<Rightarrow> sg_entry list" where
  "sg_fill pages uaddr len =
     (let off = uaddr AND NOT PAGE_MASK in
      case pages of
        [] \<Rightarrow> []
      | p # ps \<Rightarrow>
          if ps \<noteq> []
          then \<lparr>sg_page = p, sg_length = PAGE_SIZE - off, sg_offset = off\<rparr> # sg_rest ps (len - (PAGE_SIZE - off))
          else [\<lparr>sg_page = p, sg_length = len, sg_offset = off\<rparr>])"

text \<open>
  The result is the number of pages, also when the pages could not be had: the error is lost, and
  the scatter list stays as it was allocated.
\<close>

definition sgl_map_user_pages :: "dkernel \<Rightarrow> nat \<Rightarrow> u32 \<Rightarrow> u32 \<Rightarrow> bool \<Rightarrow> bool \<Rightarrow> dma_state \<Rightarrow> (errno + nat \<times> sg_entry list option) \<times> dma_state" where
  "sgl_map_user_pages k nr uaddr len rw to_user s =
     (if \<not> pages_ok k then (Inl ENOMEM, s)
      else case get_pages k nr uaddr rw to_user s of
             (None, s1) \<Rightarrow> (Inr (nr, None), s1)
           | (Some pages, s1) \<Rightarrow> (Inr (nr, Some (sg_fill pages uaddr len)), s1))"

definition sgl_unmap_user_pages :: "sg_entry list \<Rightarrow> bool \<Rightarrow> dma_state \<Rightarrow> dma_state" where
  "sgl_unmap_user_pages sgl to_user s =
     (if \<not> to_user then s else s\<lparr>pinned := fold remove1 (map sg_page sgl) (pinned s)\<rparr>)"

definition kfree_sgl :: "dma_state \<Rightarrow> dma_state" where
  "kfree_sgl s = s\<lparr>sgl_blocks := sgl_blocks s - 1\<rparr>"

text \<open>What undoes the mapping: \<^verbatim>\<open>pci_unmap_sg\<close>, the pages, the list.\<close>

definition drop_buffer :: "nat \<Rightarrow> bool \<Rightarrow> dma_state \<Rightarrow> dma_state result" where
  "drop_buffer c to_user s =
     (case C_sgl (channel_at c s) of
        None \<Rightarrow> Inl Uninitialised
      | Some sgl \<Rightarrow> Inr (kfree_sgl (sgl_unmap_user_pages sgl to_user (s\<lparr>sg_maps := sg_maps s - 1\<rparr>))))"

definition dma_uaddr :: "vme_dma \<Rightarrow> 64 word" where
  "dma_uaddr d =
     (let e = (if dm_dir d = VME_DMA_TO_DEVICE then dm_src d else dm_dst d)
      in push_bit 32 (ucast (at_addru e)) OR ucast (at_addrl e))"

definition dma_nr_pages :: "vme_dma \<Rightarrow> nat" where
  "dma_nr_pages d = unat (drop_bit PAGE_SHIFT ((dma_uaddr d AND 0xfff) + ucast (dm_length d) + 0xfff))"

definition vme_dma_setup :: "dkernel \<Rightarrow> nat \<Rightarrow> bool \<Rightarrow> dma_state \<Rightarrow> (errno option \<times> dma_state) result" where
  "vme_dma_setup k c to_user s =
     (let d = C_desc (channel_at c s); uaddr = dma_uaddr d; nr_pages = dma_nr_pages d in
      if uaddr + ucast (dm_length d) < uaddr then Inr (Some EINVAL, s)
      else if \<not> sgl_ok k then Inr (Some ENOMEM, s)
      else case sgl_map_user_pages k nr_pages (ucast uaddr) (dm_length d) (dm_dir d = VME_DMA_FROM_DEVICE) to_user
                  (s\<lparr>sgl_blocks := sgl_blocks s + 1\<rparr>) of
             (Inl e, s1) \<Rightarrow> Inr (Some e, kfree_sgl s1)
           | (Inr (n, sgl), s1) \<Rightarrow>
               let s2 = upd_channel c (\<lambda>h. h\<lparr>C_sgl := sgl, C_sg_pages := n\<rparr>) s1 in
               if n = 0 then Inr (None, kfree_sgl s2)
               else (case sgl of
                       None \<Rightarrow> Inl Uninitialised
                     | Some es \<Rightarrow>
                         bind_r (tsi148_dma_setup k c (upd_channel c (\<lambda>h. h\<lparr>C_sg_mapped := map_sg k es\<rparr>) (s2\<lparr>sg_maps := sg_maps s2 + 1\<rparr>))) (\<lambda>(rc, s3).
                           if rc \<noteq> None then bind_r (drop_buffer c to_user s3) (\<lambda>s4. Inr (rc, s4)) else Inr (None, s3))))"

section \<open>Channels\<close>

definition mutex_lock_dma :: "dma_state \<Rightarrow> dma_state result" where
  "mutex_lock_dma s = (if dma_lock s then Inl Bad_lock else Inr (s\<lparr>dma_lock := True\<rparr>))"

definition mutex_unlock_dma :: "dma_state \<Rightarrow> dma_state result" where
  "mutex_unlock_dma s = (if dma_lock s then Inr (s\<lparr>dma_lock := False\<rparr>) else Inl Bad_lock)"

definition lock_avail_channel :: "dma_state \<Rightarrow> (errno + nat) \<times> dma_state" where
  "lock_avail_channel s =
     (case find (\<lambda>c. C_busy (channel_at c s) = 0) [0 ..< TSI148_NUM_DMA_CHANNELS] of
        None \<Rightarrow> (Inl EDEADLK, s)
      | Some c \<Rightarrow> (Inr c, upd_channel c (\<lambda>h. h\<lparr>C_busy := 1\<rparr>) s))"

text \<open>
  Waiting for the semaphore ends with a signal or when it is up; in between another process may
  have begun to remove the module.
\<close>

definition vme_dma_channel_acquire :: "dkernel \<Rightarrow> dma_state \<Rightarrow> ((errno + nat) \<times> dma_state) result" where
  "vme_dma_channel_acquire k s =
     (if dma_disable s then Inr (Inl EBUSY, s)
      else if sem_signal k then Inr (Inl EINTR, s)
      else if dma_semaphore s = 0 then Inl Blocked
      else let s1 = s\<lparr>dma_semaphore := dma_semaphore s - 1, dma_disable := exit_meanwhile k\<rparr> in
      if dma_disable s1 then Inr (Inl EBUSY, s1\<lparr>dma_semaphore := dma_semaphore s1 + 1\<rparr>)
      else bind_r (mutex_lock_dma s1) (\<lambda>s2.
        let (r, s3) = lock_avail_channel s2 in bind_r (mutex_unlock_dma s3) (\<lambda>s4. Inr (r, s4))))"

definition vme_dma_channel_release :: "nat \<Rightarrow> dma_state \<Rightarrow> dma_state result" where
  "vme_dma_channel_release c s =
     bind_r (mutex_lock_dma s) (\<lambda>s1.
     bind_r (mutex_unlock_dma (upd_channel c (\<lambda>h. h\<lparr>C_busy := 0\<rparr>) s1)) (\<lambda>s2.
       Inr (s2\<lparr>dma_semaphore := dma_semaphore s2 + 1\<rparr>)))"

section \<open>A transfer\<close>

definition dma_check :: "vme_dma \<Rightarrow> bool" where
  "dma_check d \<longleftrightarrow> dm_length d \<noteq> 0 \<and> (dm_dir d = VME_DMA_FROM_DEVICE \<or> dm_dir d = VME_DMA_TO_DEVICE) \<and>
     at_addru (dm_src d) = 0 \<and> at_addru (dm_dst d) = 0"

text \<open>Up to the start of the transfer: an error, or the channel it runs on.\<close>

definition do_dma_begin :: "dkernel \<Rightarrow> vme_dma \<Rightarrow> bool \<Rightarrow> dma_state \<Rightarrow> ((errno + nat) \<times> dma_state) result" where
  "do_dma_begin k d to_user s =
     (if \<not> dma_check d then Inr (Inl EINVAL, s)
      else bind_r (vme_dma_channel_acquire k s) (\<lambda>(r, s1).
        case r of
          Inl e \<Rightarrow> Inr (Inl e, s1)
        | Inr c \<Rightarrow>
            bind_r (vme_dma_setup k c to_user (upd_channel c (\<lambda>h. h\<lparr>C_desc := d\<rparr>) s1)) (\<lambda>(rc, s2).
              case rc of
                Some e \<Rightarrow> bind_r (vme_dma_channel_release c s2) (\<lambda>s3. Inr (Inl e, s3))
              | None \<Rightarrow> Inr (Inr c, tsi148_dma_start c s2))))"

text \<open>From the end of the wait: the transfer is done, or a signal makes the driver abort it.\<close>

definition do_dma_end :: "dkernel \<Rightarrow> vme_dma \<Rightarrow> bool \<Rightarrow> nat \<Rightarrow> dma_state \<Rightarrow> ((errno option \<times> vme_dma) \<times> dma_state) result" where
  "do_dma_end k d to_user c s =
     (if tsi148_dma_busy c s \<and> \<not> wait_signal k then Inl Blocked
      else let rc = (if tsi148_dma_busy c s then Some ERESTARTSYS else None);
               s1 = (if rc \<noteq> None then set_status c (aborted_status k) (tsi148_dma_abort c s) else s);
               d1 = d\<lparr>dm_status := tsi148_dma_get_status c s1\<rparr>
           in bind_r (drop_buffer c to_user (tsi148_dma_release c s1)) (\<lambda>s2.
              bind_r (vme_dma_channel_release c s2) (\<lambda>s3. Inr ((rc, d1), s3))))"

text \<open>The whole call, with what the chip does while the process waits.\<close>

definition vme_do_dma_with :: "dkernel \<Rightarrow> (dma_state \<Rightarrow> dma_state) \<Rightarrow> vme_dma \<Rightarrow> bool \<Rightarrow> dma_state \<Rightarrow> ((errno option \<times> vme_dma) \<times> dma_state) result" where
  "vme_do_dma_with k chip d to_user s =
     bind_r (do_dma_begin k d to_user s) (\<lambda>(r, s1).
       case r of Inl e \<Rightarrow> Inr ((Some e, d), s1) | Inr c \<Rightarrow> do_dma_end k d to_user c (chip s1))"

definition vme_do_dma :: "dkernel \<Rightarrow> (dma_state \<Rightarrow> dma_state) \<Rightarrow> vme_dma \<Rightarrow> dma_state \<Rightarrow> ((errno option \<times> vme_dma) \<times> dma_state) result" where
  "vme_do_dma k chip d = vme_do_dma_with k chip d True"

definition vme_do_dma_kernel :: "dkernel \<Rightarrow> (dma_state \<Rightarrow> dma_state) \<Rightarrow> vme_dma \<Rightarrow> dma_state \<Rightarrow> ((errno option \<times> vme_dma) \<times> dma_state) result" where
  "vme_do_dma_kernel k chip d = vme_do_dma_with k chip d False"

text \<open>What \<^verbatim>\<open>VME_IOCTL_START_DMA\<close> returns and leaves in the user's buffer; other requests are unknown.\<close>

definition vme_dma_ioctl :: "dkernel \<Rightarrow> (dma_state \<Rightarrow> dma_state) \<Rightarrow> vme_dma option \<Rightarrow> dma_state \<Rightarrow> ((errno option \<times> vme_dma option) \<times> dma_state) result" where
  "vme_dma_ioctl k chip arg s =
     (case arg of
        None \<Rightarrow> Inr ((Some ENOIOCTLCMD, None), s)
      | Some d \<Rightarrow>
          if \<not> dma_copy_in k then Inr ((Some EFAULT, None), s)
          else bind_r (vme_do_dma k chip d s) (\<lambda>((rc, d1), s1).
            if rc \<noteq> None then Inr ((rc, None), s1)
            else if \<not> dma_copy_out k then Inr ((Some EFAULT, None), s1)
            else Inr ((None, Some d1), s1)))"

section \<open>Start and end of the module\<close>

text \<open>\<^verbatim>\<open>down\<close> followed by \<^verbatim>\<open>up\<close>: it waits while the semaphore is zero.\<close>

definition down_up :: "dma_state \<Rightarrow> dma_state result" where
  "down_up s = (if dma_semaphore s = 0 then Inl Blocked else Inr s)"

definition vme_dma_exit :: "dma_state \<Rightarrow> dma_state result" where
  "vme_dma_exit s =
     bind_r (fold_r (\<lambda>_. down_up) [0 ..< TSI148_NUM_DMA_CHANNELS]
       (fold tsi148_dma_abort [0 ..< TSI148_NUM_DMA_CHANNELS] (s\<lparr>dma_disable := True\<rparr>))) (\<lambda>s1.
       Inr (s1\<lparr>pool_destroyed := True\<rparr>))"

definition vme_dma_init :: "bool \<Rightarrow> dma_state \<Rightarrow> errno option \<times> dma_state" where
  "vme_dma_init pool_ok s =
     (let s1 = s\<lparr>channels := map (\<lambda>h. h\<lparr>hw_desc_list := []\<rparr>) (channels s), dma_semaphore := TSI148_NUM_DMA_CHANNELS,
                 dma_lock := False, dma_disable := False\<rparr>
      in if pool_ok then (None, s1\<lparr>pool_destroyed := False\<rparr>) else (Some ENOMEM, s1))"

end
