(* ===== verification/Vme_Chain.thy ===== *)
theory Vme_Chain
  imports Vme_Dma
begin

text \<open>
  The chain of hardware descriptors that tsi148.c builds for a transfer. The reference definition
  \<open>list_blocks\<close> cuts the entries of a scatter list at the block boundaries of the VME bus, over the
  natural numbers; the lemmas say that the blocks cover the bytes of both buses in order. Then the
  loop of \<^verbatim>\<open>tsi148_dma_link_add\<close>: it ends when nothing wraps around, and the chain it leaves in
  memory, read as the chip reads it, holds exactly these blocks; and whatever the request, it
  writes only to descriptors that its channel has taken from the pool.
\<close>

section \<open>Blocks\<close>

fun blocks :: "nat \<Rightarrow> bool \<Rightarrow> nat \<Rightarrow> nat \<Rightarrow> nat \<Rightarrow> (nat \<times> nat \<times> nat) list" where
  "blocks sh inc v p n =
     (if n = 0 then []
      else let m = min n (if sh = 0 then n else 2 ^ sh - v mod 2 ^ sh)
           in (v, p, m) # blocks sh inc (if inc then v + m else v) (p + m) (n - m))"

declare blocks.simps [simp del]

definition bytes :: "nat \<Rightarrow> nat \<Rightarrow> nat list" where
  "bytes a n = [a ..< a + n]"

lemma bytes_append: "bytes a m @ bytes (a + m) n = bytes a (m + n)"
  using upt_add_eq_append [of a "a + m" n] by (simp add: bytes_def add.assoc)

lemma block_len: "0 < n \<Longrightarrow> 0 < min n (if sh = 0 then n else 2 ^ sh - v mod 2 ^ sh)" for n v :: nat
  by (simp add: min_def)

lemma blocks_pci: "concat (map (\<lambda>(v, p, m). bytes p m) (blocks sh inc v p n)) = bytes p n"
proof (induction sh inc v p n rule: blocks.induct)
  case (1 sh inc v p n)
  show ?case
  proof (cases "n = 0")
    case False
    let ?m = "min n (if sh = 0 then n else 2 ^ sh - v mod 2 ^ sh)"
    have "concat (map (\<lambda>(v, p, m). bytes p m) (blocks sh inc v p n)) = bytes p ?m @ bytes (p + ?m) (n - ?m)"
      using "1.IH" [OF False refl] False by (subst blocks.simps) (simp add: Let_def)
    also have "\<dots> = bytes p n" unfolding bytes_append by simp
    finally show ?thesis .
  qed (simp add: blocks.simps bytes_def)
qed

lemma blocks_vme: "concat (map (\<lambda>(v, p, m). bytes v m) (blocks sh True v p n)) = bytes v n"
proof (induction sh True v p n rule: blocks.induct)
  case (1 sh v p n)
  show ?case
  proof (cases "n = 0")
    case False
    let ?m = "min n (if sh = 0 then n else 2 ^ sh - v mod 2 ^ sh)"
    have "concat (map (\<lambda>(v, p, m). bytes v m) (blocks sh True v p n)) = bytes v ?m @ bytes (v + ?m) (n - ?m)"
      using "1.hyps" [OF False refl] False by (subst blocks.simps) (simp add: Let_def)
    also have "\<dots> = bytes v n" unfolding bytes_append by simp
    finally show ?thesis .
  qed (simp add: blocks.simps bytes_def)
qed

lemma blocks_fixed: "(v', p', m) \<in> set (blocks sh False v p n) \<Longrightarrow> v' = v"
proof (induction sh False v p n rule: blocks.induct)
  case (1 sh v p n)
  then show ?case by (subst (asm) (2) blocks.simps) (auto simp: Let_def split: if_splits)
qed

lemma blocks_bound: "(v', p', m) \<in> set (blocks sh inc v p n) \<Longrightarrow> 0 < m \<and> (sh \<noteq> 0 \<longrightarrow> v' mod 2 ^ sh + m \<le> 2 ^ sh)"
proof (induction sh inc v p n rule: blocks.induct)
  case (1 sh inc v p n)
  let ?m = "min n (if sh = 0 then n else 2 ^ sh - v mod 2 ^ sh)"
  have n: "n \<noteq> 0" using "1.prems" by (auto simp: blocks.simps split: if_splits)
  have e: "blocks sh inc v p n = (v, p, ?m) # blocks sh inc (if inc then v + ?m else v) (p + ?m) (n - ?m)"
    using n by (subst blocks.simps) (simp add: Let_def)
  have lt: "v mod 2 ^ sh < 2 ^ sh" by simp
  have b: "0 < ?m \<and> (sh \<noteq> 0 \<longrightarrow> v mod 2 ^ sh + ?m \<le> 2 ^ sh)"
    using n block_len [of n sh v] lt by (auto simp: min_def)
  from "1.prems" e consider "v' = v" "m = ?m" | "(v', p', m) \<in> set (blocks sh inc (if inc then v + ?m else v) (p + ?m) (n - ?m))" by auto
  then show ?case
    using "1.IH" [OF n refl] b by cases blast+
qed

text \<open>The blocks of a whole scatter list.\<close>

fun list_blocks :: "nat \<Rightarrow> bool \<Rightarrow> nat \<Rightarrow> (nat \<times> nat) list \<Rightarrow> (nat \<times> nat \<times> nat) list" where
  "list_blocks sh inc v [] = []"
| "list_blocks sh inc v ((p, n) # segs) = blocks sh inc v p n @ list_blocks sh inc (if inc then v + n else v) segs"

lemma list_blocks_pci: "concat (map (\<lambda>(v, p, m). bytes p m) (list_blocks sh inc v segs)) = concat (map (\<lambda>(p, n). bytes p n) segs)"
  by (induction sh inc v segs rule: list_blocks.induct) (simp_all add: blocks_pci)

lemma list_blocks_vme: "concat (map (\<lambda>(v, p, m). bytes v m) (list_blocks sh True v segs)) = bytes v (sum_list (map snd segs))"
  by (induction sh True v segs rule: list_blocks.induct) (simp_all add: blocks_vme bytes_append [symmetric], simp add: bytes_def)

lemma list_blocks_fixed: "(v', p', m) \<in> set (list_blocks sh False v segs) \<Longrightarrow> v' = v"
  by (induction sh False v segs rule: list_blocks.induct) (auto dest: blocks_fixed)

lemma list_blocks_bound: "(v', p', m) \<in> set (list_blocks sh inc v segs) \<Longrightarrow> 0 < m \<and> (sh \<noteq> 0 \<longrightarrow> v' mod 2 ^ sh + m \<le> 2 ^ sh)"
  by (induction sh inc v segs rule: list_blocks.induct) (use blocks_bound in fastforce)+

section \<open>The length of a link\<close>

lemma bsize_nat: "sh < 32 \<Longrightarrow> unat (tsi148_get_bsize sh) = 2 ^ sh"
proof -
  assume sh: "sh < 32"
  have "tsi148_get_bsize sh = of_nat (2 ^ sh)" by (simp add: tsi148_get_bsize_def push_bit_eq_mult)
  moreover have "(2 :: nat) ^ sh < 2 ^ 32" using sh by (simp only: power_strict_increasing_iff)
  ultimately show ?thesis by (simp only: unat_of_nat) simp
qed

lemma bmask_and: "sh < 32 \<Longrightarrow> unat ((x :: u32) AND tsi148_get_bmask (tsi148_get_bsize sh)) = unat x mod 2 ^ sh"
proof -
  assume "sh < 32"
  have "tsi148_get_bmask (tsi148_get_bsize sh) = (mask sh :: u32)"
    by (simp add: tsi148_get_bmask_def tsi148_get_bsize_def push_bit_eq_mult mask_eq_exp_minus_1)
  then have "x AND tsi148_get_bmask (tsi148_get_bsize sh) = take_bit sh x" by (simp add: take_bit_eq_mask)
  then show ?thesis by (simp only: unsigned_take_bit_eq) (simp add: take_bit_eq_mod)
qed

lemma unat_diff: "unat (a :: u32) \<le> unat b \<Longrightarrow> unat (b - a) = unat b - unat a"
  by (simp add: unat_sub word_le_nat_alt)

lemma link_len_nat:
  assumes "la_bshift a < 32" "lk_dma l < la_dma_end a" "unat (la_dma_end a) + 2 ^ la_bshift a \<le> 2 ^ 32"
    "la_bshift a = 0 \<longrightarrow> lk_len l = la_dma_end a - lk_dma l"
  shows "unat (link_len a l) =
    (let r = unat (la_dma_end a) - unat (lk_dma l) in min r (if la_bshift a = 0 then r else 2 ^ la_bshift a - unat (lk_vme l) mod 2 ^ la_bshift a))"
proof (cases "la_bshift a = 0")
  case True
  have "lk_dma l + (la_dma_end a - lk_dma l) = la_dma_end a" by simp
  then show ?thesis using True assms(2,4) by (simp add: link_len_def unat_diff Let_def word_less_nat_alt)
next
  case False
  let ?sh = "la_bshift a"
  let ?len = "tsi148_get_bsize ?sh - (lk_vme l AND tsi148_get_bmask (tsi148_get_bsize ?sh))"
  have lt: "unat (lk_vme l) mod 2 ^ ?sh < 2 ^ ?sh" by simp
  have "lk_vme l AND tsi148_get_bmask (tsi148_get_bsize ?sh) \<le> tsi148_get_bsize ?sh"
    unfolding word_le_nat_alt bmask_and [OF assms(1)] bsize_nat [OF assms(1)] using lt by simp
  then have len: "unat ?len = 2 ^ ?sh - unat (lk_vme l) mod 2 ^ ?sh"
    by (simp add: unat_diff bmask_and bsize_nat assms(1))
  have d: "unat (lk_dma l) < unat (la_dma_end a)" using assms(2) by (simp add: word_less_nat_alt)
  have "unat (lk_dma l) + unat ?len < 2 ^ LENGTH(32)" using d assms(3) len by simp
  then have s: "unat (lk_dma l + ?len) = unat (lk_dma l) + unat ?len" by (rule unat_add_lem [THEN iffD1])
  show ?thesis
    using False assms(2) d s len by (auto simp: link_len_def Let_def word_less_nat_alt unat_diff min_def)
qed

section \<open>Taking descriptors from the pool\<close>

text \<open>What the pool promises: a descriptor that is not in use, at a multiple of 8.\<close>

definition pool_ok :: "dkernel \<Rightarrow> bool" where
  "pool_ok k \<longleftrightarrow> (\<forall>live a. pool_alloc k live = Some a \<longrightarrow> a \<notin> set live \<and> a AND 7 = 0)"

lemma upd_channel_sel [simp]:
  "dma_semaphore (upd_channel c f s) = dma_semaphore s" "dma_lock (upd_channel c f s) = dma_lock s"
  "dma_disable (upd_channel c f s) = dma_disable s" "dma_regs (upd_channel c f s) = dma_regs s"
  "dma_trace (upd_channel c f s) = dma_trace s" "pool_mem (upd_channel c f s) = pool_mem s"
  "pool_live (upd_channel c f s) = pool_live s" "pool_destroyed (upd_channel c f s) = pool_destroyed s"
  "pinned (upd_channel c f s) = pinned s" "sgl_blocks (upd_channel c f s) = sgl_blocks s"
  "sg_maps (upd_channel c f s) = sg_maps s" "length (channels (upd_channel c f s)) = length (channels s)"
  by (simp_all add: upd_channel_def)

lemma channel_upd [simp]: "c < length (channels s) \<Longrightarrow> channel_at c (upd_channel c f s) = f (channel_at c s)"
  "c \<noteq> b \<Longrightarrow> channel_at b (upd_channel c f s) = channel_at b s"
  by (simp_all add: upd_channel_def channel_at_def)

lemma upd_channel_twice: "upd_channel c f (upd_channel c g s) = upd_channel c (\<lambda>h. f (g h)) s"
  by (cases "c < length (channels s)") (simp_all add: upd_channel_def list_update_beyond)

text \<open>
  From \<open>s\<close> to \<open>s'\<close> channel \<open>c\<close> took the descriptors \<open>new\<close>, and wrote only to them and to \<open>x\<close>.
\<close>

definition grown :: "nat \<Rightarrow> u32 \<Rightarrow> u32 list \<Rightarrow> dma_state \<Rightarrow> dma_state \<Rightarrow> bool" where
  "grown c x new s s' \<longleftrightarrow> distinct new \<and> set new \<inter> set (pool_live s) = {} \<and> (\<forall>y \<in> set new. y AND 7 = 0) \<and>
     (\<forall>y. y \<notin> set (x # new) \<longrightarrow> pool_mem s' y = pool_mem s y) \<and>
     s' = upd_channel c (\<lambda>h. h\<lparr>hw_desc_list := hw_desc_list h @ new\<rparr>) (s\<lparr>pool_live := rev new @ pool_live s, pool_mem := pool_mem s'\<rparr>)"

lemma upd_channel_pool: "(upd_channel c f s)\<lparr>pool_live := l, pool_mem := m\<rparr> = upd_channel c f (s\<lparr>pool_live := l, pool_mem := m\<rparr>)"
  by (simp add: upd_channel_def)

lemma grownD:
  assumes "grown c x new s s'"
  shows "pool_live s' = rev new @ pool_live s" "length (channels s') = length (channels s)"
    "b \<noteq> c \<Longrightarrow> channel_at b s' = channel_at b s"
    "c < length (channels s) \<Longrightarrow> channel_at c s' = (channel_at c s)\<lparr>hw_desc_list := hw_desc_list (channel_at c s) @ new\<rparr>"
    "y \<notin> set (x # new) \<Longrightarrow> pool_mem s' y = pool_mem s y"
proof -
  have e: "s' = upd_channel c (\<lambda>h. h\<lparr>hw_desc_list := hw_desc_list h @ new\<rparr>) (s\<lparr>pool_live := rev new @ pool_live s, pool_mem := pool_mem s'\<rparr>)"
    and m: "\<forall>y. y \<notin> set (x # new) \<longrightarrow> pool_mem s' y = pool_mem s y"
    using assms by (auto simp: grown_def)
  show "pool_live s' = rev new @ pool_live s" "length (channels s') = length (channels s)"
    by (subst e, simp)+
  show "b \<noteq> c \<Longrightarrow> channel_at b s' = channel_at b s" by (subst e) (simp add: channel_at_def upd_channel_def)
  show "c < length (channels s) \<Longrightarrow> channel_at c s' = (channel_at c s)\<lparr>hw_desc_list := hw_desc_list (channel_at c s) @ new\<rparr>"
    by (subst e) (simp add: channel_at_def upd_channel_def)
  show "y \<notin> set (x # new) \<Longrightarrow> pool_mem s' y = pool_mem s y" using m by blast
qed

lemma grown_trans:
  assumes "grown c x m s s1" "grown c y n s1 s2" "y \<in> set (x # m)"
  shows "grown c x (m @ n) s s2"
proof -
  note g1 = assms(1) [unfolded grown_def] and g2 = assms(2) [unfolded grown_def]
  note l1 = grownD(1) [OF assms(1)]
  have e1: "s1 = upd_channel c (\<lambda>h. h\<lparr>hw_desc_list := hw_desc_list h @ m\<rparr>) (s\<lparr>pool_live := rev m @ pool_live s, pool_mem := pool_mem s1\<rparr>)"
    and e2: "s2 = upd_channel c (\<lambda>h. h\<lparr>hw_desc_list := hw_desc_list h @ n\<rparr>) (s1\<lparr>pool_live := rev n @ pool_live s1, pool_mem := pool_mem s2\<rparr>)"
    using g1 g2 by blast+
  have "s1\<lparr>pool_live := rev n @ pool_live s1, pool_mem := pool_mem s2\<rparr> =
      upd_channel c (\<lambda>h. h\<lparr>hw_desc_list := hw_desc_list h @ m\<rparr>) (s\<lparr>pool_live := rev (m @ n) @ pool_live s, pool_mem := pool_mem s2\<rparr>)"
    unfolding l1 by (subst (1) e1) (simp add: upd_channel_def)
  then have e: "s2 = upd_channel c (\<lambda>h. h\<lparr>hw_desc_list := hw_desc_list h @ (m @ n)\<rparr>)
      (s\<lparr>pool_live := rev (m @ n) @ pool_live s, pool_mem := pool_mem s2\<rparr>)"
    by (subst e2) (simp add: upd_channel_twice)
  have d: "distinct (m @ n)" "set (m @ n) \<inter> set (pool_live s) = {}" "\<forall>y \<in> set (m @ n). y AND 7 = 0"
    using g1 g2 l1 by auto
  have w: "\<forall>z. z \<notin> set (x # m @ n) \<longrightarrow> pool_mem s2 z = pool_mem s z"
    using g1 g2 assms(3) by auto
  show ?thesis unfolding grown_def using d w e by blast
qed

lemma grown_write: "grown c x [] s (s\<lparr>pool_mem := (pool_mem s)(x := v)\<rparr>)"
  by (simp add: grown_def upd_channel_def)

lemma grown_fail: "grown c x [] s s"
  by (simp add: grown_def upd_channel_def)

lemma grown_alloc:
  assumes "pool_ok k" "hwdesc_init k c s = (Some y, s1)"
  shows "grown c x [y] s s1" "pool_mem s1 = pool_mem s" "y AND 7 = 0" "y \<notin> set (pool_live s)"
  using assms by (auto simp: hwdesc_init_def pool_ok_def grown_def split: option.splits if_splits)

lemma alloc_fail: "hwdesc_init k c s = (None, s1) \<Longrightarrow> s1 = s"
  by (auto simp: hwdesc_init_def split: option.splits if_splits)

lemma aligned8:
  assumes "(a :: u32) AND 7 = 0"
  shows "a AND TSI148_LCSR_DNLAL_DNLAL_M = a" "a AND TSI148_LCSR_DNLAL_LLA = 0"
proof -
  have b: "\<not> bit a i" if "i < 3" for i
  proof -
    have "bit (7 :: u32) i" using that by (auto simp: numeral_eq_Suc bit_simps less_Suc_eq_0_disj)
    then show ?thesis using assms by (metis bit_and_iff bit_0_eq bot_apply bot_bool_def)
  qed
  have m: "TSI148_LCSR_DNLAL_DNLAL_M = NOT (mask 3 :: u32)" by (simp add: TSI148_LCSR_DNLAL_DNLAL_M_def mask_eq_exp_minus_1)
  show "a AND TSI148_LCSR_DNLAL_DNLAL_M = a"
    unfolding m by (rule bit_word_eqI) (use b in \<open>auto simp: bit_simps\<close>)
  have "\<not> bit a 0" using b [of 0] by simp
  then show "a AND TSI148_LCSR_DNLAL_LLA = 0"
    by (simp add: TSI148_LCSR_DNLAL_LLA_def and_one_eq even_iff_mod_2_eq_zero bit_0)
qed
section \<open>The chain as the chip reads it\<close>

text \<open>
  The chip follows the link addresses until the bit of the last link. What a descriptor tells it
  to move is the VME address, the PCI address and the number of bytes.
\<close>

definition desc_next :: "tsi148_dma_desc \<Rightarrow> u32 option" where
  "desc_next t = (if dnlal t AND TSI148_LCSR_DNLAL_LLA \<noteq> 0 then None else Some (dnlal t AND TSI148_LCSR_DNLAL_DNLAL_M))"

fun chip_walk :: "nat \<Rightarrow> (u32 \<Rightarrow> tsi148_dma_desc) \<Rightarrow> u32 \<Rightarrow> tsi148_dma_desc list option" where
  "chip_walk 0 mem a = None"
| "chip_walk (Suc n) mem a =
     (case desc_next (mem a) of None \<Rightarrow> Some [mem a] | Some b \<Rightarrow> map_option ((#) (mem a)) (chip_walk n mem b))"

definition desc_burst :: "vme_dma \<Rightarrow> tsi148_dma_desc \<Rightarrow> nat \<times> nat \<times> nat" where
  "desc_burst d t =
     (if dm_dir d = VME_DMA_TO_DEVICE then (unat (ddal t), unat (dsal t), unat (dcnt t))
      else (unat (dsal t), unat (ddal t), unat (dcnt t)))"

definition desc_holds :: "vme_dma \<Rightarrow> u32 \<Rightarrow> u32 \<Rightarrow> tsi148_dma_desc \<Rightarrow> nat \<times> nat \<times> nat \<Rightarrow> bool" where
  "desc_holds d sat dat t b \<longleftrightarrow> desc_burst d t = b \<and> dsau t = 0 \<and> ddau t = 0 \<and> dsat t = sat \<and> ddat t = dat \<and>
     ddbs t = (if dm_dir d = VME_DMA_TO_DEVICE then at_bcast (dm_dst d) else 0) \<and> dnlau t = 0"

text \<open>The descriptors at the addresses \<open>as\<close> hold \<open>bs\<close>, one links to the next, the last to \<open>z\<close>.\<close>

fun chain_at :: "(tsi148_dma_desc \<Rightarrow> 'b \<Rightarrow> bool) \<Rightarrow> (u32 \<Rightarrow> tsi148_dma_desc) \<Rightarrow> u32 list \<Rightarrow> 'b list \<Rightarrow> u32 option \<Rightarrow> bool" where
  "chain_at P mem [] [] z \<longleftrightarrow> True"
| "chain_at P mem (a # as) (b # bs) z \<longleftrightarrow>
     P (mem a) b \<and> desc_next (mem a) = (case as of [] \<Rightarrow> z | y # _ \<Rightarrow> Some y) \<and> chain_at P mem as bs z"
| "chain_at P mem as bs z \<longleftrightarrow> False"

lemma chain_at_length: "chain_at P mem as bs z \<Longrightarrow> length as = length bs"
  by (induction P mem as bs z rule: chain_at.induct) auto

lemma chain_at_cong: "\<forall>a \<in> set as. mem' a = mem a \<Longrightarrow> chain_at P mem' as bs z = chain_at P mem as bs z"
  by (induction P mem as bs z rule: chain_at.induct) auto

lemma chain_at_append:
  assumes "chain_at P mem as bs (Some y)" "chain_at P mem (y # cs) ds z"
  shows "chain_at P mem (as @ y # cs) (bs @ ds) z"
  using assms
proof (induction P mem as bs "Some y" rule: chain_at.induct)
  case (2 P mem a as b bs)
  then show ?case by (cases as) auto
qed auto

lemma chip_walk_chain: "chain_at P mem (a # as) bs None \<Longrightarrow> length as < n \<Longrightarrow> chip_walk n mem a = Some (map mem (a # as))"
proof (induction as arbitrary: a bs n)
  case Nil
  then show ?case by (cases n; cases bs) auto
next
  case (Cons y as)
  obtain b bs' where bs: "bs = b # bs'" using Cons.prems(1) by (cases bs) auto
  obtain m where m: "n = Suc m" using Cons.prems(2) by (cases n) auto
  show ?case using Cons.IH [of y bs' m] Cons.prems by (simp add: bs m)
qed

lemma chain_holds: "chain_at P mem as bs z \<Longrightarrow> list_all2 P (map mem as) bs"
  by (induction P mem as bs z rule: chain_at.induct) auto

section \<open>One link\<close>

lemma fill_holds:
  assumes "dm_dir d = VME_DMA_TO_DEVICE \<or> dm_dir d = VME_DMA_FROM_DEVICE"
  shows "desc_holds d sat dat (tsi148_fill_dma_desc d v p n sat dat t) (unat v, unat p, unat n)"
    "desc_next (tsi148_fill_dma_desc d v p n sat dat t) = None"
    "desc_holds d sat dat ((tsi148_fill_dma_desc d v p n sat dat t)\<lparr>dnlau := 0, dnlal := l\<rparr>) (unat v, unat p, unat n)"
  using assms by (auto simp: desc_holds_def desc_burst_def desc_next_def tsi148_fill_dma_desc_def Let_def
      VME_DMA_TO_DEVICE_def VME_DMA_FROM_DEVICE_def TSI148_LCSR_DNLAL_LLA_def)

lemma link_next:
  assumes "(y :: u32) AND 7 = 0"
  shows "desc_next (t\<lparr>dnlau := 0, dnlal := y AND TSI148_LCSR_DNLAL_DNLAL_M\<rparr>) = Some y"
  by (simp add: desc_next_def aligned8 [OF assms])

definition advance :: "link_args \<Rightarrow> vme_dma \<Rightarrow> link_vars \<Rightarrow> link_vars" where
  "advance a d l = l\<lparr>lk_len := link_len a l, lk_vme := (if dm_novmeinc d = 0 then lk_vme l + link_len a l else lk_vme l),
     lk_dma := lk_dma l + link_len a l\<rparr>"

lemma advance_sel [simp]: "lk_curr (advance a d l) = lk_curr l" "lk_next (advance a d l) = lk_next l"
  "lk_len (advance a d l) = link_len a l" "lk_dma (advance a d l) = lk_dma l + link_len a l"
  by (simp_all add: advance_def)

text \<open>One iteration of the loop: the last link, no memory for the next one, or a link to the next one.\<close>

lemma link_step_cases:
  fixes a :: link_args and l :: link_vars
  assumes "pool_ok k" "c < length (channels s)" "lk_curr l = Some x" "C_desc (channel_at c s) = d"
    "dm_dir d = VME_DMA_TO_DEVICE \<or> dm_dir d = VME_DMA_FROM_DEVICE"
  defines "l1 \<equiv> advance a d l" and "b \<equiv> (unat (lk_vme l), unat (lk_dma l), unat (link_len a l))"
  obtains
    (last) s1 where "\<not> (la_more a \<or> lk_dma l1 < la_dma_end a)" "link_step k c a l s = Inr (None, l1\<lparr>lk_curr := lk_next l\<rparr>, s1)"
      "grown c x [] s s1" "desc_holds d (la_dsat a) (la_ddat a) (pool_mem s1 x) b" "desc_next (pool_mem s1 x) = None"
  | (no_memory) s1 where "link_step k c a l s = Inr (Some ENOMEM, l1, s1)" "grown c x [] s s1"
  | (next_link) s1 y where "la_more a \<or> lk_dma l1 < la_dma_end a"
      "link_step k c a l s = Inr (None, l1\<lparr>lk_next := Some y, lk_curr := Some y\<rparr>, s1)"
      "grown c x [y] s s1" "desc_holds d (la_dsat a) (la_ddat a) (pool_mem s1 x) b" "desc_next (pool_mem s1 x) = Some y"
proof -
  let ?t = "tsi148_fill_dma_desc d (lk_vme l) (lk_dma l) (link_len a l) (la_dsat a) (la_ddat a) (pool_mem s x)"
  let ?s1 = "s\<lparr>pool_mem := (pool_mem s)(x := ?t)\<rparr>"
  have w: "grown c x [] s ?s1" by (rule grown_write)
  show thesis
  proof (cases "la_more a \<or> lk_dma l1 < la_dma_end a")
    case False
    have "link_step k c a l s = Inr (None, l1\<lparr>lk_curr := lk_next l\<rparr>, ?s1)"
      using False assms(3,4) by (simp add: link_step_def Let_def l1_def advance_def)
    then show thesis by (rule last [OF False _ w]) (simp_all add: b_def fill_holds [OF assms(5)])
  next
    case more: True
    obtain r s2 where r: "hwdesc_init k c ?s1 = (r, s2)" by fastforce
    show thesis
    proof (cases r)
      case None
      have "s2 = ?s1" using alloc_fail r None by simp
      moreover have "link_step k c a l s = Inr (Some ENOMEM, l1, s2)"
        using more r None assms(3,4) by (simp add: link_step_def Let_def l1_def advance_def)
      ultimately show thesis using no_memory w by simp
    next
      case (Some y)
      note al = grown_alloc [OF assms(1) r [unfolded Some]]
      let ?u = "?t\<lparr>dnlau := 0, dnlal := y AND TSI148_LCSR_DNLAL_DNLAL_M\<rparr>"
      let ?s3 = "s2\<lparr>pool_mem := (pool_mem s2)(x := ?u)\<rparr>"
      have st: "link_step k c a l s = Inr (None, l1\<lparr>lk_next := Some y, lk_curr := Some y\<rparr>, ?s3)"
        using more r Some assms(3,4) al(2) by (simp add: link_step_def Let_def l1_def advance_def)
      have "grown c x [y] s s2" using grown_trans [OF w al(1)] by simp
      then have g: "grown c x [y] s ?s3" using grown_trans [OF _ grown_write, of c x "[y]" s s2 x ?u] by simp
      show thesis
        by (rule next_link [OF more st g]) (simp_all add: b_def fill_holds [OF assms(5)] link_next [OF al(3)])
    qed
  qed
qed

section \<open>The loop over one entry of the scatter list\<close>

definition dma_dir_ok :: "vme_dma \<Rightarrow> bool" where
  "dma_dir_ok d \<longleftrightarrow> dm_dir d = VME_DMA_TO_DEVICE \<or> dm_dir d = VME_DMA_FROM_DEVICE"

definition dma_inc :: "vme_dma \<Rightarrow> bool" where
  "dma_inc d \<longleftrightarrow> dm_novmeinc d = 0"

text \<open>What is left to link does not wrap around, on either bus.\<close>

definition link_room :: "link_args \<Rightarrow> vme_dma \<Rightarrow> link_vars \<Rightarrow> bool" where
  "link_room a d l \<longleftrightarrow> la_bshift a < 32 \<and> lk_dma l < la_dma_end a \<and> unat (la_dma_end a) + 2 ^ la_bshift a \<le> 2 ^ 32 \<and>
     (la_bshift a = 0 \<longrightarrow> lk_len l = la_dma_end a - lk_dma l) \<and>
     (if dma_inc d then unat (la_vme_end a) = unat (lk_vme l) + (unat (la_dma_end a) - unat (lk_dma l))
      else lk_vme l < la_vme_end a)"

abbreviation link_left :: "link_args \<Rightarrow> link_vars \<Rightarrow> nat" where
  "link_left a l \<equiv> unat (la_dma_end a) - unat (lk_dma l)"

lemma unat_bound: "unat (x :: u32) < 2 ^ 32"
  using unsigned_less [of x] by simp

lemma link_advance:
  assumes "link_room a d l"
  obtains m where "m = min (link_left a l) (if la_bshift a = 0 then link_left a l else 2 ^ la_bshift a - unat (lk_vme l) mod 2 ^ la_bshift a)"
    "unat (link_len a l) = m" "0 < m" "m \<le> link_left a l" "unat (lk_dma l + link_len a l) = unat (lk_dma l) + m"
    "unat (lk_vme (advance a d l)) = (if dma_inc d then unat (lk_vme l) + m else unat (lk_vme l))"
    "lk_vme l < la_vme_end a" "link_left a (advance a d l) = link_left a l - m"
    "la_bshift a = 0 \<longrightarrow> m = link_left a l"
proof -
  note r = assms(1) [unfolded link_room_def]
  define m where "m = min (link_left a l) (if la_bshift a = 0 then link_left a l else 2 ^ la_bshift a - unat (lk_vme l) mod 2 ^ la_bshift a)"
  have lt: "unat (lk_dma l) < unat (la_dma_end a)" using r by (simp add: word_less_nat_alt)
  have len: "unat (link_len a l) = m" unfolding m_def using link_len_nat [of a l] r by (simp add: Let_def)
  have pos: "0 < m" unfolding m_def using lt by (intro block_len) simp
  have le: "m \<le> link_left a l" by (simp add: m_def)
  have z: "la_bshift a = 0 \<longrightarrow> m = link_left a l" by (simp add: m_def)
  have "unat (lk_dma l) + unat (link_len a l) < 2 ^ LENGTH(32)"
    using le lt len unat_bound [of "la_dma_end a"] by simp
  then have dma: "unat (lk_dma l + link_len a l) = unat (lk_dma l) + m"
    using len by (simp add: unat_add_lem [THEN iffD1])
  have vme: "unat (lk_vme (advance a d l)) = (if dma_inc d then unat (lk_vme l) + m else unat (lk_vme l))"
  proof (cases "dma_inc d")
    case True
    have "unat (lk_vme l) + unat (link_len a l) < 2 ^ LENGTH(32)"
      using r True le len unat_bound [of "la_vme_end a"] by simp
    then show ?thesis using True len by (simp add: advance_def dma_inc_def unat_add_lem [THEN iffD1])
  qed (simp add: advance_def dma_inc_def)
  have go: "lk_vme l < la_vme_end a" using r lt by (auto simp: word_less_nat_alt split: if_splits)
  have left: "link_left a (advance a d l) = link_left a l - m" using dma by simp
  show thesis by (rule that [OF m_def len pos le dma vme go left z])
qed

lemma advance_room:
  assumes "link_room a d l" "lk_dma (advance a d l) < la_dma_end a"
  shows "link_room a d (advance a d l)"
proof -
  note r = assms(1) [unfolded link_room_def]
  obtain m where m: "m \<le> link_left a l" "unat (lk_dma l + link_len a l) = unat (lk_dma l) + m"
    "unat (lk_vme (advance a d l)) = (if dma_inc d then unat (lk_vme l) + m else unat (lk_vme l))"
    "link_left a (advance a d l) = link_left a l - m" "la_bshift a = 0 \<longrightarrow> m = link_left a l"
    by (rule link_advance [OF assms(1)])
  have lt: "unat (lk_dma l + link_len a l) < unat (la_dma_end a)" using assms(2) by (simp add: word_less_nat_alt)
  then have sh: "la_bshift a \<noteq> 0" using m(1,2,5) by auto
  show ?thesis unfolding link_room_def
  proof (intro conjI)
    show "if dma_inc d then unat (la_vme_end a) = unat (lk_vme (advance a d l)) + link_left a (advance a d l)
        else lk_vme (advance a d l) < la_vme_end a"
      using r m(1,3,4) by (auto simp: advance_def dma_inc_def split: if_splits)
  qed (use r assms(2) sh in auto)
qed

text \<open>
  What the loop leaves for the entry: the descriptors taken, and, unless memory ran out, a chain
  over the blocks of the entry that ends at the next descriptor when another entry follows.
\<close>

definition linked :: "nat \<Rightarrow> link_args \<Rightarrow> vme_dma \<Rightarrow> link_vars \<Rightarrow> u32 \<Rightarrow> dma_state \<Rightarrow> errno option \<times> link_vars \<times> dma_state \<Rightarrow> bool" where
  "linked c a d l x s r \<longleftrightarrow>
     (case r of (rc, l', s') \<Rightarrow> \<exists>new. grown c x new s s' \<and>
        (case rc of
           Some e \<Rightarrow> e = ENOMEM
         | None \<Rightarrow> \<exists>as. x # new = as @ (case (if la_more a then lk_next l' else None) of None \<Rightarrow> [] | Some y \<Rightarrow> [y]) \<and>
             (la_more a \<longrightarrow> lk_next l' \<noteq> None) \<and>
             chain_at (desc_holds d (la_dsat a) (la_ddat a)) (pool_mem s') as
               (blocks (la_bshift a) (dma_inc d) (unat (lk_vme l)) (unat (lk_dma l)) (link_left a l))
               (if la_more a then lk_next l' else None)))"

lemma linkedI:
  assumes "grown c x new s s'" "x # new = as @ (case (if la_more a then lk_next l' else None) of None \<Rightarrow> [] | Some y \<Rightarrow> [y])"
    "la_more a \<longrightarrow> lk_next l' \<noteq> None"
    "chain_at (desc_holds d (la_dsat a) (la_ddat a)) (pool_mem s') as
       (blocks (la_bshift a) (dma_inc d) (unat (lk_vme l)) (unat (lk_dma l)) (link_left a l)) (if la_more a then lk_next l' else None)"
  shows "linked c a d l x s (None, l', s')"
  unfolding linked_def using assms by auto

lemma blocks_step:
  assumes "link_room a d l"
  shows "blocks (la_bshift a) (dma_inc d) (unat (lk_vme l)) (unat (lk_dma l)) (link_left a l) =
    (unat (lk_vme l), unat (lk_dma l), unat (link_len a l)) #
      blocks (la_bshift a) (dma_inc d) (unat (lk_vme (advance a d l))) (unat (lk_dma (advance a d l))) (link_left a (advance a d l))"
proof -
  obtain m where m: "m = min (link_left a l) (if la_bshift a = 0 then link_left a l else 2 ^ la_bshift a - unat (lk_vme l) mod 2 ^ la_bshift a)"
    "unat (link_len a l) = m" "0 < m" "m \<le> link_left a l" "unat (lk_dma l + link_len a l) = unat (lk_dma l) + m"
    "unat (lk_vme (advance a d l)) = (if dma_inc d then unat (lk_vme l) + m else unat (lk_vme l))"
    "link_left a (advance a d l) = link_left a l - m"
    by (rule link_advance [OF assms])
  have "link_left a l \<noteq> 0" using m(3,4) by linarith
  then show ?thesis
    unfolding m(2,6,7) advance_sel m(5) by (subst blocks.simps) (simp add: m(1) [symmetric] Let_def)
qed

lemma link_loop_stop: "\<not> lk_dma l < la_dma_end a \<Longrightarrow> link_loop k c a l s = Some (Inr (None, l, s))"
  by (subst link_loop.simps) simp

lemma link_loop_ok:
  assumes "pool_ok k" "c < length (channels s)" "lk_curr l = Some x" "C_desc (channel_at c s) = d" "dma_dir_ok d"
    "link_room a d l" "x \<in> set (pool_live s)"
  shows "\<exists>r. link_loop k c a l s = Some (Inr r) \<and> linked c a d l x s r"
  using assms(2-4,6,7)
proof (induction "link_left a l" arbitrary: l s x rule: less_induct)
  case less
  obtain m where m: "0 < m" "m \<le> link_left a l" "lk_vme l < la_vme_end a" "link_left a (advance a d l) = link_left a l - m"
    by (rule link_advance [OF less.prems(4)])
  have go: "lk_vme l < la_vme_end a \<and> lk_dma l < la_dma_end a" using m(3) less.prems(4) by (simp add: link_room_def)
  note bs = blocks_step [OF less.prems(4)]
  have zero: "link_left a (advance a d l) = 0" if "\<not> lk_dma (advance a d l) < la_dma_end a"
    using that by (simp add: word_less_nat_alt)
  show ?case
  proof (rule link_step_cases [OF assms(1) less.prems(1-3) assms(5) [unfolded dma_dir_ok_def], of a])
    fix s1 assume e: "\<not> (la_more a \<or> lk_dma (advance a d l) < la_dma_end a)"
      "link_step k c a l s = Inr (None, advance a d l\<lparr>lk_curr := lk_next l\<rparr>, s1)" "grown c x [] s s1"
      "desc_holds d (la_dsat a) (la_ddat a) (pool_mem s1 x) (unat (lk_vme l), unat (lk_dma l), unat (link_len a l))"
      "desc_next (pool_mem s1 x) = None"
    have "link_loop k c a l s = Some (Inr (None, advance a d l\<lparr>lk_curr := lk_next l\<rparr>, s1))"
      using go e(1,2) by (subst link_loop.simps) (simp add: link_loop_stop)
    moreover have "linked c a d l x s (None, advance a d l\<lparr>lk_curr := lk_next l\<rparr>, s1)"
      by (rule linkedI [OF e(3), of "[x]"]) (use e zero in \<open>simp_all add: bs blocks.simps [of _ _ _ _ 0]\<close>)
    ultimately show ?thesis by blast
  next
    fix s1 assume "link_step k c a l s = Inr (Some ENOMEM, advance a d l, s1)" "grown c x [] s s1"
    then show ?thesis using go by (subst link_loop.simps) (auto simp: linked_def)
  next
    fix s1 y assume e: "la_more a \<or> lk_dma (advance a d l) < la_dma_end a"
      "link_step k c a l s = Inr (None, advance a d l\<lparr>lk_next := Some y, lk_curr := Some y\<rparr>, s1)" "grown c x [y] s s1"
      "desc_holds d (la_dsat a) (la_ddat a) (pool_mem s1 x) (unat (lk_vme l), unat (lk_dma l), unat (link_len a l))"
      "desc_next (pool_mem s1 x) = Some y"
    let ?l1 = "advance a d l\<lparr>lk_next := Some y, lk_curr := Some y\<rparr>"
    have st: "link_loop k c a l s = link_loop k c a ?l1 s1"
      using go e(2) by (subst link_loop.simps) simp
    show ?thesis
    proof (cases "lk_dma (advance a d l) < la_dma_end a")
      case False
      then have "link_loop k c a l s = Some (Inr (None, ?l1, s1))" unfolding st by (simp add: link_loop_stop)
      moreover have "linked c a d l x s (None, ?l1, s1)"
        by (rule linkedI [OF e(3), of "[x]"]) (use e zero [OF False] False in \<open>simp_all add: bs blocks.simps [of _ _ _ _ 0]\<close>)
      ultimately show ?thesis by blast
    next
      case True
      have room: "link_room a d ?l1" using advance_room [OF less.prems(4) True] by (simp add: link_room_def)
      have ch: "c < length (channels s1)" "C_desc (channel_at c s1) = d" "y \<in> set (pool_live s1)"
        using grownD [OF e(3)] less.prems(1,3) by simp_all
      have "link_left a ?l1 < link_left a l" using m(1,2,4) by simp
      from less.hyps [OF this ch(1) _ ch(2) room ch(3)] obtain rc l' s' where
        r: "link_loop k c a ?l1 s1 = Some (Inr (rc, l', s'))" "linked c a d ?l1 y s1 (rc, l', s')"
        by auto
      then obtain new where g: "grown c y new s1 s'"
        and post: "case rc of Some e \<Rightarrow> e = ENOMEM
         | None \<Rightarrow> \<exists>as. y # new = as @ (case (if la_more a then lk_next l' else None) of None \<Rightarrow> [] | Some y \<Rightarrow> [y]) \<and>
             (la_more a \<longrightarrow> lk_next l' \<noteq> None) \<and>
             chain_at (desc_holds d (la_dsat a) (la_ddat a)) (pool_mem s') as
               (blocks (la_bshift a) (dma_inc d) (unat (lk_vme ?l1)) (unat (lk_dma ?l1)) (link_left a ?l1))
               (if la_more a then lk_next l' else None)"
        by (auto simp: linked_def)
      have g': "grown c x (y # new) s s'" using grown_trans [OF e(3) g] by simp
      have "x \<notin> set (y # new)"
        using e(3) g less.prems(5) grownD(1) [OF e(3)] by (auto simp: grown_def)
      then have same: "pool_mem s' x = pool_mem s1 x" using grownD(5) [OF g] by simp
      have "linked c a d l x s (rc, l', s')"
      proof (cases rc)
        case None
        then obtain as where as: "y # new = as @ (case (if la_more a then lk_next l' else None) of None \<Rightarrow> [] | Some y \<Rightarrow> [y])"
          "la_more a \<longrightarrow> lk_next l' \<noteq> None"
          "chain_at (desc_holds d (la_dsat a) (la_ddat a)) (pool_mem s') as
               (blocks (la_bshift a) (dma_inc d) (unat (lk_vme (advance a d l))) (unat (lk_dma (advance a d l))) (link_left a (advance a d l)))
               (if la_more a then lk_next l' else None)"
          using post by (auto simp: Let_def)
        have "link_left a (advance a d l) \<noteq> 0" using True by (simp add: word_less_nat_alt)
        then have "as \<noteq> []" using chain_at_length [OF as(3)] by (subst (asm) blocks.simps) (auto simp: Let_def)
        then obtain as' where as': "as = y # as'" using as(1) by (cases as) auto
        have "chain_at (desc_holds d (la_dsat a) (la_ddat a)) (pool_mem s') (x # as)
            (blocks (la_bshift a) (dma_inc d) (unat (lk_vme l)) (unat (lk_dma l)) (link_left a l)) (if la_more a then lk_next l' else None)"
          using as(3) e(4,5) by (simp add: bs as' same)
        then show ?thesis unfolding None by (intro linkedI [OF g']) (use as(1,2) in simp_all)
      next
        case (Some e)
        then show ?thesis using g' post by (auto simp: linked_def)
      qed
      then show ?thesis using st r(1) by auto
    qed
  qed
qed

section \<open>What is written, whatever the request\<close>

definition loop_post :: "nat \<Rightarrow> link_vars \<Rightarrow> dma_state \<Rightarrow> errno option \<Rightarrow> link_vars \<Rightarrow> dma_state \<Rightarrow> bool" where
  "loop_post c l s rc l' s' \<longleftrightarrow>
     (case lk_curr l of
        None \<Rightarrow> s' = s \<and> l' = l \<and> rc = None
      | Some x \<Rightarrow> \<exists>new. grown c x new s s' \<and> (lk_next l' = lk_next l \<or> (\<exists>y \<in> set new. lk_next l' = Some y)) \<and> (rc = None \<or> rc = Some ENOMEM))"

definition loop_pre :: "dkernel \<Rightarrow> nat \<Rightarrow> link_vars \<Rightarrow> dma_state \<Rightarrow> bool" where
  "loop_pre k c l s \<longleftrightarrow> pool_ok k \<and> c < length (channels s) \<and> dma_dir_ok (C_desc (channel_at c s)) \<and>
     (lk_next l = None \<or> lk_next l = lk_curr l)"

lemma loop_pre_grown: "loop_pre k c l s \<Longrightarrow> grown c x new s s1 \<Longrightarrow> lk_next l1 = None \<or> lk_next l1 = lk_curr l1 \<Longrightarrow> loop_pre k c l1 s1"
  using grownD(2,4) [of c x new s s1] by (auto simp: loop_pre_def)

lemma link_loop_post:
  assumes "link_loop k c a l s = Some (Inr (rc, l', s'))" "loop_pre k c l s"
  shows "loop_post c l s rc l' s'"
proof -
  define P where "P = (\<lambda>k c (a :: link_args) l s (r :: (errno option \<times> link_vars \<times> dma_state) result). \<forall>rc l' s'. r = Inr (rc, l', s') \<longrightarrow> loop_pre k c l s \<longrightarrow> loop_post c l s rc l' s')"
  have "P k c a l s (Inr (rc, l', s'))"
  proof (rule link_loop.raw_induct [where P = P, OF _ assms(1)])
    fix f k c a l s r
    assume IH: "\<And>k c a l s r. f k c a l s = Some r \<Longrightarrow> P k c a l s r"
      and eq: "(if \<not> (lk_vme l < la_vme_end a \<and> lk_dma l < la_dma_end a) then Some (Inr (None, l, s))
        else case link_step k c a l s of Inl e \<Rightarrow> Some (Inl e)
             | Inr (Some e, l1, s1) \<Rightarrow> Some (Inr (Some e, l1, s1)) | Inr (None, l1, s1) \<Rightarrow> f k c a l1 s1) = Some r"
    show "P k c a l s r" unfolding P_def
    proof (intro allI impI)
      fix rc l' s'
      assume r: "r = Inr (rc, l', s')" and pre: "loop_pre k c l s"
      let ?d = "C_desc (channel_at c s)"
      show "loop_post c l s rc l' s'"
      proof (cases "lk_vme l < la_vme_end a \<and> lk_dma l < la_dma_end a")
        case False
        then show ?thesis using eq r grown_fail by (auto simp: loop_post_def split: option.splits)
      next
        case go: True
        obtain x where x: "lk_curr l = Some x" using eq go r by (auto simp: link_step_def split: option.splits)
        have pre': "pool_ok k" "c < length (channels s)" "dm_dir ?d = VME_DMA_TO_DEVICE \<or> dm_dir ?d = VME_DMA_FROM_DEVICE"
          using pre by (auto simp: loop_pre_def dma_dir_ok_def)
        have rec: "loop_post c l s rc l' s'"
          if "link_step k c a l s = Inr (None, l1, s1)" "grown c x new s s1" "lk_next l1 = None \<or> lk_next l1 = lk_curr l1"
            "case lk_curr l1 of None \<Rightarrow> True | Some y \<Rightarrow> y \<in> set (x # new)" "lk_next l1 = lk_next l \<or> (\<exists>y \<in> set new. lk_next l1 = Some y)" for l1 s1 new
        proof -
          have "P k c a l1 s1 r" by (rule IH) (use eq go that(1) in simp)
          then have post: "loop_post c l1 s1 rc l' s'"
            using r loop_pre_grown [OF pre that(2,3)] by (simp add: P_def)
          show ?thesis
          proof (cases "lk_curr l1")
            case None
            then show ?thesis using post that(2,5) by (auto simp: loop_post_def x)
          next
            case (Some y)
            then obtain m where m: "grown c y m s1 s'" "lk_next l' = lk_next l1 \<or> (\<exists>y \<in> set m. lk_next l' = Some y)" "rc = None \<or> rc = Some ENOMEM"
              using post by (auto simp: loop_post_def)
            have "grown c x (new @ m) s s'" using grown_trans [OF that(2) m(1)] that(4) Some by simp
            then show ?thesis using m(2,3) that(5) by (auto simp: loop_post_def x)
          qed
        qed
        show ?thesis
        proof (rule link_step_cases [OF pre'(1,2) x refl pre'(3), of a])
          fix s1 assume "link_step k c a l s = Inr (None, advance a ?d l\<lparr>lk_curr := lk_next l\<rparr>, s1)" "grown c x [] s s1"
          then show ?thesis by (rule rec) (use pre x in \<open>auto simp: loop_pre_def split: option.splits\<close>)
        next
          fix s1 assume "link_step k c a l s = Inr (Some ENOMEM, advance a ?d l, s1)" "grown c x [] s s1"
          then show ?thesis using eq go r by (auto simp: loop_post_def x)
        next
          fix s1 y assume "link_step k c a l s = Inr (None, advance a ?d l\<lparr>lk_next := Some y, lk_curr := Some y\<rparr>, s1)" "grown c x [y] s s1"
          then show ?thesis by (rule rec) auto
        qed
      qed
    qed
  qed
  then show ?thesis using assms(2) unfolding P_def by blast
qed

section \<open>The loop over the scatter list\<close>

lemma link_add_grown:
  assumes "tsi148_dma_link_add k c virt v p n follows sh sat dat s = Inr (rc, virt', s')" "pool_ok k" "c < length (channels s)"
    "dma_dir_ok (C_desc (channel_at c s))"
  shows "\<exists>x new. virt = Some x \<and> grown c x new s s' \<and> (rc = None \<or> rc = Some ENOMEM) \<and> (virt' = None \<or> virt' = virt \<or> (\<exists>y \<in> set new. virt' = Some y))"
proof -
  obtain x where x: "virt = Some x" using assms(1) by (cases virt) (auto simp: tsi148_dma_link_add_def)
  let ?a = "\<lparr>la_vme_end = v + n, la_dma_end = p + n, la_more = follows, la_bshift = sh, la_dsat = sat, la_ddat = dat\<rparr>"
  let ?l = "\<lparr>lk_vme = v, lk_dma = p, lk_len = n, lk_curr = Some x, lk_next = None\<rparr>"
  obtain l' where l': "link_loop k c ?a ?l s = Some (Inr (rc, l', s'))" "virt' = (if rc = None then lk_next l' else virt)"
    using assms(1) x by (auto simp: tsi148_dma_link_add_def bind_r_eq_Inr split: option.splits)
  have "loop_pre k c ?l s" using assms(2-4) by (simp add: loop_pre_def)
  from link_loop_post [OF l'(1) this] show ?thesis using x l'(2) by (auto simp: loop_post_def)
qed

lemma chain_loop_grown:
  assumes "chain_loop k c sh sat dat segs virt v s = Inr (rc, s')" "pool_ok k" "c < length (channels s)" "dma_dir_ok (C_desc (channel_at c s))"
  shows "(rc = None \<or> rc = Some ENOMEM) \<and> (case virt of None \<Rightarrow> s' = s | Some x \<Rightarrow> \<exists>new. grown c x new s s')"
  using assms
proof (induction segs arbitrary: virt v s)
  case Nil
  then show ?case using grown_fail by (auto split: option.splits)
next
  case (Cons pn segs)
  obtain p n where pn: "pn = (p, n)" by fastforce
  obtain rc1 virt1 s1 where st: "tsi148_dma_link_add k c virt v p n (segs \<noteq> []) sh sat dat s = Inr (rc1, virt1, s1)"
    "rc1 \<noteq> None \<longrightarrow> rc = rc1 \<and> s' = s1"
    "rc1 = None \<longrightarrow> chain_loop k c sh sat dat segs virt1 (if dm_novmeinc (C_desc (channel_at c s1)) = 0 then v + n else v) s1 = Inr (rc, s')"
    using Cons.prems(1) by (auto simp: pn bind_r_eq_Inr split: if_splits)
  obtain x new where x: "virt = Some x" "grown c x new s s1" "rc1 = None \<or> rc1 = Some ENOMEM"
    "virt1 = None \<or> virt1 = virt \<or> (\<exists>y \<in> set new. virt1 = Some y)"
    using link_add_grown [OF st(1) Cons.prems(2-4)] by blast
  show ?case
  proof (cases "rc1 = None")
    case False
    then show ?thesis using st(2) x by auto
  next
    case True
    have "c < length (channels s1)" "dma_dir_ok (C_desc (channel_at c s1))" using grownD [OF x(2)] Cons.prems(3,4) by simp_all
    from Cons.IH [OF st(3) [rule_format, OF True] Cons.prems(2) this]
    have "(rc = None \<or> rc = Some ENOMEM) \<and> (case virt1 of None \<Rightarrow> s' = s1 | Some y \<Rightarrow> \<exists>m. grown c y m s1 s')" .
    then show ?thesis using x grown_trans [OF x(2)] by (fastforce split: option.splits)
  qed
qed

text \<open>The entries lie below the end of the address space on both buses.\<close>

fun segs_fit :: "nat \<Rightarrow> bool \<Rightarrow> u32 \<Rightarrow> (u32 \<times> u32) list \<Rightarrow> bool" where
  "segs_fit sh inc v [] \<longleftrightarrow> True"
| "segs_fit sh inc v ((p, n) # segs) \<longleftrightarrow>
     0 < unat n \<and> unat p + unat n + 2 ^ sh \<le> 2 ^ 32 \<and> unat v + unat n < 2 ^ 32 \<and> segs_fit sh inc (if inc then v + n else v) segs"

definition nat_segs :: "(u32 \<times> u32) list \<Rightarrow> (nat \<times> nat) list" where
  "nat_segs = map (\<lambda>(p, n). (unat p, unat n))"

lemma nat_segs_simps [simp]: "nat_segs [] = []" "nat_segs ((p, n) # segs) = (unat p, unat n) # nat_segs segs"
  by (simp_all add: nat_segs_def)

lemma add_no_wrap: "unat (a :: u32) + unat b < 2 ^ 32 \<Longrightarrow> unat (a + b) = unat a + unat b"
  by (rule unat_add_lem [THEN iffD1]) simp

lemma link_add_ok:
  assumes "pool_ok k" "c < length (channels s)" "C_desc (channel_at c s) = d" "dma_dir_ok d" "x \<in> set (pool_live s)" "sh < 32"
    "0 < unat n" "unat p + unat n + 2 ^ sh \<le> 2 ^ 32" "unat v + unat n < 2 ^ 32"
  shows "\<exists>rc virt' s' new. tsi148_dma_link_add k c (Some x) v p n follows sh sat dat s = Inr (rc, virt', s') \<and> grown c x new s s' \<and>
     (case rc of Some e \<Rightarrow> e = ENOMEM
      | None \<Rightarrow> \<exists>as z. x # new = as @ (case z of None \<Rightarrow> [] | Some y \<Rightarrow> [y]) \<and> (if follows then virt' = z \<and> z \<noteq> None else z = None) \<and>
           chain_at (desc_holds d sat dat) (pool_mem s') as (blocks sh (dma_inc d) (unat v) (unat p) (unat n)) z)"
proof -
  let ?a = "\<lparr>la_vme_end = v + n, la_dma_end = p + n, la_more = follows, la_bshift = sh, la_dsat = sat, la_ddat = dat\<rparr>"
  let ?l = "\<lparr>lk_vme = v, lk_dma = p, lk_len = n, lk_curr = Some x, lk_next = None\<rparr>"
  have "0 < (2 :: nat) ^ sh" by simp
  then have pn: "unat (p + n) = unat p + unat n" using assms(8) by (intro add_no_wrap) linarith
  have vn: "unat (v + n) = unat v + unat n" by (rule add_no_wrap [OF assms(9)])
  have room: "link_room ?a d ?l"
    using assms(6-9) by (auto simp: link_room_def word_less_nat_alt pn vn)
  obtain r where r: "link_loop k c ?a ?l s = Some (Inr r)" "linked c ?a d ?l x s r"
    using link_loop_ok [OF assms(1,2) _ assms(3,4) room assms(5)] by auto
  obtain rc l' s' where rr: "r = (rc, l', s')" by (cases r)
  show ?thesis using r unfolding rr
    by (cases rc) (auto simp: tsi148_dma_link_add_def linked_def pn split: if_splits option.splits)
qed

lemma blocks_Nil: "blocks sh inc v p n = [] \<longleftrightarrow> n = 0"
  by (subst blocks.simps) (simp add: Let_def)

lemma chain_loop_ok:
  assumes "pool_ok k" "sh < 32" "dma_dir_ok d" "segs \<noteq> []" "segs_fit sh (dma_inc d) v segs"
    "c < length (channels s)" "C_desc (channel_at c s) = d" "x \<in> set (pool_live s)"
  shows "\<exists>rc s' new. chain_loop k c sh sat dat segs (Some x) v s = Inr (rc, s') \<and> grown c x new s s' \<and>
     (case rc of Some e \<Rightarrow> e = ENOMEM
      | None \<Rightarrow> chain_at (desc_holds d sat dat) (pool_mem s') (x # new) (list_blocks sh (dma_inc d) (unat v) (nat_segs segs)) None)"
  using assms(4-8)
proof (induction segs arbitrary: v s x)
  case (Cons pn segs)
  obtain p n where pn: "pn = (p, n)" by fastforce
  have fit: "0 < unat n" "unat p + unat n + 2 ^ sh \<le> 2 ^ 32" "unat v + unat n < 2 ^ 32"
    "segs_fit sh (dma_inc d) (if dma_inc d then v + n else v) segs"
    using Cons.prems(2) by (simp_all add: pn)
  obtain rc virt' s1 new where l: "tsi148_dma_link_add k c (Some x) v p n (segs \<noteq> []) sh sat dat s = Inr (rc, virt', s1)" "grown c x new s s1"
    "case rc of Some e \<Rightarrow> e = ENOMEM
      | None \<Rightarrow> \<exists>as z. x # new = as @ (case z of None \<Rightarrow> [] | Some y \<Rightarrow> [y]) \<and> (if segs \<noteq> [] then virt' = z \<and> z \<noteq> None else z = None) \<and>
           chain_at (desc_holds d sat dat) (pool_mem s1) as (blocks sh (dma_inc d) (unat v) (unat p) (unat n)) z"
    using link_add_ok [OF assms(1) Cons.prems(3,4) assms(3) Cons.prems(5) assms(2) fit(1-3), of "segs \<noteq> []" sat dat] by blast
  have ch: "c < length (channels s1)" "C_desc (channel_at c s1) = d" using grownD [OF l(2)] Cons.prems(3,4) by simp_all
  show ?case
  proof (cases rc)
    case (Some e)
    then show ?thesis using l by (auto simp: pn)
  next
    case None
    then obtain as z where as: "x # new = as @ (case z of None \<Rightarrow> [] | Some y \<Rightarrow> [y])" "if segs \<noteq> [] then virt' = z \<and> z \<noteq> None else z = None"
      "chain_at (desc_holds d sat dat) (pool_mem s1) as (blocks sh (dma_inc d) (unat v) (unat p) (unat n)) z"
      using l(3) by auto
    show ?thesis
    proof (cases "segs = []")
      case True
      then show ?thesis using l as None by (auto simp: pn)
    next
      case False
      then obtain y where y: "z = Some y" "virt' = Some y" using as(2) by auto
      have xy: "x # new = as @ [y]" using as(1) y by simp
      have g: "distinct new" "set new \<inter> set (pool_live s) = {}" using l(2) by (auto simp: grown_def)
      have dist: "distinct (as @ [y])" unfolding xy [symmetric] using g Cons.prems(5) by auto
      have live: "set (as @ [y]) \<subseteq> set (pool_live s1)"
        unfolding xy [symmetric] using grownD(1) [OF l(2)] Cons.prems(5) by auto
      let ?v = "if dma_inc d then v + n else v"
      have uv: "unat ?v = (if dma_inc d then unat v + unat n else unat v)" using add_no_wrap [OF fit(3)] by simp
      have st: "chain_loop k c sh sat dat ((p, n) # segs) (Some x) v s = chain_loop k c sh sat dat segs (Some y) ?v s1"
        using l(1) None y ch by (simp add: dma_inc_def)
      obtain rc2 s2 m where r: "chain_loop k c sh sat dat segs (Some y) ?v s1 = Inr (rc2, s2)" "grown c y m s1 s2"
        "case rc2 of Some e \<Rightarrow> e = ENOMEM
          | None \<Rightarrow> chain_at (desc_holds d sat dat) (pool_mem s2) (y # m) (list_blocks sh (dma_inc d) (unat ?v) (nat_segs segs)) None"
        using Cons.IH [OF False fit(4) ch, of y] live by auto
      have "set m \<inter> set (pool_live s1) = {}" using r(2) by (simp add: grown_def)
      then have "a \<notin> set (y # m)" if "a \<in> set as" for a using that dist live by auto
      then have "\<forall>a \<in> set as. pool_mem s2 a = pool_mem s1 a" using grownD(5) [OF r(2)] by blast
      then have keep: "chain_at (desc_holds d sat dat) (pool_mem s2) as (blocks sh (dma_inc d) (unat v) (unat p) (unat n)) (Some y)"
        using as(3) y chain_at_cong by blast
      have "y \<in> set (x # new)" unfolding xy by simp
      then have g2: "grown c x (new @ m) s s2" by (rule grown_trans [OF l(2) r(2)])
      have eq: "x # new @ m = as @ y # m" using xy by (metis append.assoc append_Cons append_Nil)
      show ?thesis
      proof (intro exI conjI)
        show "chain_loop k c sh sat dat (pn # segs) (Some x) v s = Inr (rc2, s2)" unfolding pn st by (rule r(1))
        show "grown c x (new @ m) s s2" by (rule g2)
        show "case rc2 of Some e \<Rightarrow> e = ENOMEM
          | None \<Rightarrow> chain_at (desc_holds d sat dat) (pool_mem s2) (x # new @ m) (list_blocks sh (dma_inc d) (unat v) (nat_segs (pn # segs))) None"
          using r(3) chain_at_append [OF keep] by (auto simp: eq pn uv split: option.splits)
      qed
    qed
  qed
qed simp

section \<open>Setting a channel up\<close>

lemma remove_new: "distinct new \<Longrightarrow> fold remove1 new (rev new @ l) = l"
proof (induction new arbitrary: l)
  case (Cons a new)
  have "remove1 a (rev (a # new) @ l) = rev new @ l" using Cons.prems by (simp add: remove1_append)
  then show ?case using Cons by simp
qed simp

text \<open>Channel \<open>c\<close> holds the descriptors \<open>new\<close>, written in memory \<open>m\<close>; the rest of the state is that of \<open>s\<close>.\<close>

definition with_chain :: "nat \<Rightarrow> u32 list \<Rightarrow> (u32 \<Rightarrow> tsi148_dma_desc) \<Rightarrow> dma_state \<Rightarrow> dma_state" where
  "with_chain c new m s = upd_channel c (\<lambda>h. h\<lparr>hw_desc_list := new\<rparr>) (s\<lparr>pool_live := rev new @ pool_live s, pool_mem := m\<rparr>)"

definition fresh_chain :: "u32 list \<Rightarrow> (u32 \<Rightarrow> tsi148_dma_desc) \<Rightarrow> dma_state \<Rightarrow> bool" where
  "fresh_chain new m s \<longleftrightarrow> distinct new \<and> set new \<inter> set (pool_live s) = {} \<and> (\<forall>y \<in> set new. y AND 7 = 0) \<and>
     (\<forall>y \<in> set (pool_live s). m y = pool_mem s y)"

lemma with_chain_sel:
  "pool_mem (with_chain c new m s) = m" "pool_live (with_chain c new m s) = rev new @ pool_live s"
  "length (channels (with_chain c new m s)) = length (channels s)" "dma_regs (with_chain c new m s) = dma_regs s"
  "c < length (channels s) \<Longrightarrow> channel_at c (with_chain c new m s) = (channel_at c s)\<lparr>hw_desc_list := new\<rparr>"
  "b \<noteq> c \<Longrightarrow> channel_at b (with_chain c new m s) = channel_at b s"
  by (simp_all add: with_chain_def) (simp_all add: upd_channel_def channel_at_def)

lemma grown_chain:
  assumes "grown c x new s s1" "hw_desc_list (channel_at c s) = []" "x \<in> set new"
  shows "s1 = with_chain c new (pool_mem s1) s" "fresh_chain new (pool_mem s1) s"
proof -
  have "s1 = upd_channel c (\<lambda>h. h\<lparr>hw_desc_list := hw_desc_list h @ new\<rparr>) (s\<lparr>pool_live := rev new @ pool_live s, pool_mem := pool_mem s1\<rparr>)"
    using assms(1) by (simp add: grown_def)
  then show "s1 = with_chain c new (pool_mem s1) s"
    using assms(2) by (simp add: with_chain_def upd_channel_def channel_at_def)
  show "fresh_chain new (pool_mem s1) s" using assms(1,3) by (auto simp: grown_def fresh_chain_def)
qed

lemma free_with_chain:
  assumes "c < length (channels s)" "hw_desc_list (channel_at c s) = []" "distinct new"
  shows "tsi148_dma_free_chain c (with_chain c new m s) = s\<lparr>pool_mem := m\<rparr>"
proof -
  have h: "hw_desc_list (channel_at c (with_chain c new m s)) = new" using assms(1) by (simp add: with_chain_sel)
  have e: "(channels s)[c := (channels s ! c)\<lparr>hw_desc_list := []\<rparr>] = channels s"
    using assms(2) by (metis channel_at_def list_update_id dma_channel.surjective dma_channel.update_convs(7) dma_channel.select_convs(7))
  show ?thesis
    unfolding tsi148_dma_free_chain_def h with_chain_sel remove_new [OF assms(3)]
    using assms(1) by (simp add: with_chain_def upd_channel_def e)
qed

definition chain_regs :: "nat \<Rightarrow> u32 \<Rightarrow> dma_state \<Rightarrow> dma_state" where
  "chain_regs c a s = dma_write c DNLAL a (dma_write c DNLAU 0 s)"

lemma vmeaddr_Some: "dma_dir_ok d \<Longrightarrow> \<exists>v. get_vmeaddr d = Some v"
  by (cases "dm_dir d = VME_DMA_TO_DEVICE") (auto simp: get_vmeaddr_def dma_dir_ok_def)

lemma setup_chain_cases:
  assumes "tsi148_dma_setup_chain k c sat dat s = Inr (rc, s')" "pool_ok k" "c < length (channels s)" "hw_desc_list (channel_at c s) = []"
    "dma_dir_ok (C_desc (channel_at c s))"
  shows "case rc of
      None \<Rightarrow> \<exists>new m. new \<noteq> [] \<and> fresh_chain new m s \<and> s' = chain_regs c (hd new) (with_chain c new m s)
    | Some e \<Rightarrow> e = ENOMEM \<and> (\<exists>m. (\<forall>y \<in> set (pool_live s). m y = pool_mem s y) \<and> s' = s\<lparr>pool_mem := m\<rparr>)"
proof -
  obtain r s1 where h: "hwdesc_init k c s = (r, s1)" by fastforce
  show ?thesis
  proof (cases r)
    case None
    then have "rc = Some ENOMEM" "s' = s\<lparr>pool_mem := pool_mem s\<rparr>"
      using assms(1) h alloc_fail by (auto simp: tsi148_dma_setup_chain_def Let_def)
    then show ?thesis by auto
  next
    case (Some x)
    note al = grown_alloc [OF assms(2) h [unfolded Some]]
    let ?d = "C_desc (channel_at c s)"
    obtain v where v: "get_vmeaddr ?d = Some v" using vmeaddr_Some [OF assms(5)] by blast
    have ch: "c < length (channels s1)" "channel_at c s1 = (channel_at c s)\<lparr>hw_desc_list := [x]\<rparr>"
      using grownD(2,4) [OF al(1)] assms(3,4) by simp_all
    obtain rc2 s2 where r2: "chain_loop k c (tsi148_get_bshift ?d) sat dat (C_sg_mapped (channel_at c s1)) (Some x) v s1 = Inr (rc2, s2)"
      and out: "if rc2 \<noteq> None then rc = rc2 \<and> s' = tsi148_dma_free_chain c s2
        else rc = None \<and> s' = dma_write c DNLAL (x AND TSI148_LCSR_DNLAL_DNLAL_M) (dma_write c DNLAU 0 s2)"
      using assms(1) h Some v by (auto simp: tsi148_dma_setup_chain_def Let_def bind_r_eq_Inr split: if_splits)
    have "dma_dir_ok (C_desc (channel_at c s1))" using ch assms(5) by simp
    from chain_loop_grown [OF r2 assms(2) ch(1) this] obtain n where n: "rc2 = None \<or> rc2 = Some ENOMEM" "grown c x n s1 s2" by auto
    have g: "grown c x ([x] @ n) s s2" by (rule grown_trans [OF al(1) n(2)]) simp
    then have w: "s2 = with_chain c (x # n) (pool_mem s2) s" "fresh_chain (x # n) (pool_mem s2) s"
      using grown_chain [OF g assms(4)] by simp_all
    show ?thesis
    proof (cases rc2)
      case None
      have "s' = chain_regs c (hd (x # n)) (with_chain c (x # n) (pool_mem s2) s)"
        using out None aligned8(1) [OF al(3)] w(1) by (simp add: chain_regs_def)
      then show ?thesis using out None w(2) by (auto intro!: exI [of _ "x # n"])
    next
      case (Some e)
      have "distinct (x # n)" using w(2) by (simp only: fresh_chain_def)
      then have "tsi148_dma_free_chain c s2 = s\<lparr>pool_mem := pool_mem s2\<rparr>"
        using free_with_chain [OF assms(3,4), of "x # n" "pool_mem s2"] w(1) by simp
      then have "s' = s\<lparr>pool_mem := pool_mem s2\<rparr>" using out Some by simp
      then show ?thesis using out Some n(1) w(2) by (auto simp: fresh_chain_def)
    qed
  qed
qed

text \<open>A request whose entries fit: setting up returns, and what it leaves is the chain of its blocks.\<close>

definition dma_fits :: "vme_dma \<Rightarrow> (u32 \<times> u32) list \<Rightarrow> bool" where
  "dma_fits d segs \<longleftrightarrow> segs \<noteq> [] \<and> segs_fit (tsi148_get_bshift d) (dma_inc d) (the (get_vmeaddr d)) segs"

definition dma_blocks :: "vme_dma \<Rightarrow> (u32 \<times> u32) list \<Rightarrow> (nat \<times> nat \<times> nat) list" where
  "dma_blocks d segs = list_blocks (tsi148_get_bshift d) (dma_inc d) (unat (the (get_vmeaddr d))) (nat_segs segs)"

lemma bshift_small: "tsi148_get_bshift d < 32"
  by (simp add: tsi148_get_bshift_def bshift_of_am_def)

lemma setup_chain_ok:
  assumes "pool_ok k" "c < length (channels s)" "hw_desc_list (channel_at c s) = []" "C_desc (channel_at c s) = d" "dma_dir_ok d"
    "dma_fits d (C_sg_mapped (channel_at c s))"
  shows "\<exists>rc s'. tsi148_dma_setup_chain k c sat dat s = Inr (rc, s') \<and>
     (rc = None \<longrightarrow> chain_at (desc_holds d sat dat) (pool_mem s') (hw_desc_list (channel_at c s')) (dma_blocks d (C_sg_mapped (channel_at c s))) None)"
proof -
  obtain r s1 where h: "hwdesc_init k c s = (r, s1)" by fastforce
  obtain v where v: "get_vmeaddr d = Some v" using vmeaddr_Some [OF assms(5)] by blast
  show ?thesis
  proof (cases r)
    case None
    then show ?thesis using h by (auto simp: tsi148_dma_setup_chain_def Let_def)
  next
    case (Some x)
    note al = grown_alloc [OF assms(1) h [unfolded Some]]
    have ch: "c < length (channels s1)" "channel_at c s1 = (channel_at c s)\<lparr>hw_desc_list := [x]\<rparr>"
      using grownD(2,4) [OF al(1)] assms(2,3) by simp_all
    have x: "x \<in> set (pool_live s1)" using grownD(1) [OF al(1)] by simp
    have fit: "C_sg_mapped (channel_at c s1) \<noteq> []" "segs_fit (tsi148_get_bshift d) (dma_inc d) v (C_sg_mapped (channel_at c s1))"
      using assms(6) v ch by (simp_all add: dma_fits_def)
    obtain rc s2 n where l: "chain_loop k c (tsi148_get_bshift d) sat dat (C_sg_mapped (channel_at c s1)) (Some x) v s1 = Inr (rc, s2)" "grown c x n s1 s2"
      "case rc of Some e \<Rightarrow> e = ENOMEM
        | None \<Rightarrow> chain_at (desc_holds d sat dat) (pool_mem s2) (x # n)
            (list_blocks (tsi148_get_bshift d) (dma_inc d) (unat v) (nat_segs (C_sg_mapped (channel_at c s1)))) None"
      using chain_loop_ok [OF assms(1) bshift_small assms(5) fit ch(1) _ x] ch(2) assms(4) by fastforce
    have hw: "hw_desc_list (channel_at c s2) = x # n" using grownD(4) [OF l(2) ch(1)] ch(2) by simp
    show ?thesis
      using h Some v assms(4) l hw ch(2)
      by (cases rc) (auto simp: tsi148_dma_setup_chain_def Let_def dma_write_def channel_at_def dma_blocks_def)
  qed
qed

end
