(* ===== verification/Vme_Transfer.thy ===== *)
theory Vme_Transfer
  imports Vme_Chain "HOL-Library.Multiset"
begin

text \<open>
  A transfer from its request to its end: the scatter list covers the buffer byte by byte, a set-up
  that fails undoes what it did, and one that succeeds leaves a chain in memory and its first
  address in the channel's register.
\<close>

section \<open>The scatter list\<close>

text \<open>
  The bytes of a buffer that starts at offset \<open>off\<close> of the first of its pages: physical addresses
  in the order of the buffer. A page is named by its frame number.
\<close>

definition buf_bytes :: "u32 list \<Rightarrow> nat \<Rightarrow> nat \<Rightarrow> nat list" where
  "buf_bytes ps off n = map (\<lambda>j. unat (ps ! (j div 4096)) * 4096 + j mod 4096) [off ..< off + n]"

definition entry_bytes :: "sg_entry \<Rightarrow> nat list" where
  "entry_bytes e = bytes (unat (sg_page e) * 4096 + unat (sg_offset e)) (unat (sg_length e))"

lemma entry_bytes_simp [simp]:
  "entry_bytes \<lparr>sg_page = p, sg_length = n, sg_offset = f\<rparr> = bytes (unat p * 4096 + unat f) (unat n)"
  by (simp add: entry_bytes_def)

lemma buf_bytes_split: "buf_bytes ps off (m + n) = buf_bytes ps off m @ buf_bytes ps (off + m) n"
  using upt_add_eq_append [of off "off + m" n] by (simp add: buf_bytes_def add.assoc)

lemma buf_bytes_tail: "buf_bytes (p # ps) 4096 n = buf_bytes ps 0 n"
proof -
  have "[4096 ..< 4096 + n] = map (\<lambda>j. j + 4096) [0 ..< n]" using map_add_upt [of 4096 n] by (simp add: add.commute)
  moreover have "(x + 4096) div 4096 = Suc (x div 4096)" for x :: nat by simp
  ultimately show ?thesis by (simp add: buf_bytes_def comp_def)
qed

lemma buf_bytes_head: "off + n \<le> 4096 \<Longrightarrow> buf_bytes (p # ps) off n = bytes (unat p * 4096 + off) n"
proof -
  assume le: "off + n \<le> 4096"
  have "buf_bytes (p # ps) off n = map (\<lambda>j. unat p * 4096 + j) [off ..< off + n]"
    unfolding buf_bytes_def by (rule map_cong) (use le in auto)
  also have "\<dots> = bytes (unat p * 4096 + off) n"
    by (rule nth_equalityI) (auto simp: bytes_def)
  finally show ?thesis .
qed

lemma page_size_nat: "unat PAGE_SIZE = 4096"
  by (simp add: PAGE_SIZE_def)

lemma sg_rest_bytes:
  assumes "0 < unat len" "length ps = (unat len + 4095) div 4096"
  shows "concat (map entry_bytes (sg_rest ps len)) = buf_bytes ps 0 (unat len)"
  using assms
proof (induction ps len rule: sg_rest.induct)
  case (2 p ps len)
  show ?case
  proof (cases "unat len \<le> 4096")
    case True
    then have "(unat len + 4095) div 4096 < 2" by (intro less_mult_imp_div_less) simp
    then have "length (p # ps) < 2" unfolding 2(3) .
    then have "ps = []" by simp
    moreover have "unat (if len < PAGE_SIZE then len else PAGE_SIZE) = unat len"
      using True by (auto simp: word_less_nat_alt page_size_nat)
    ultimately show ?thesis using True buf_bytes_head [of 0 "unat len" p] by simp
  next
    case False
    then have l: "\<not> len < PAGE_SIZE" "unat (len - PAGE_SIZE) = unat len - 4096"
      by (simp_all add: word_less_nat_alt page_size_nat unat_diff)
    have "(unat len + 4095) div 4096 = Suc ((unat len - 4096 + 4095) div 4096)" using False by simp
    then have "concat (map entry_bytes (sg_rest ps (len - PAGE_SIZE))) = buf_bytes ps 0 (unat len - 4096)"
      using 2(1) 2(3) False l(2) by simp
    then show ?thesis
      using l(1) False buf_bytes_split [of "p # ps" 0 4096 "unat len - 4096"] buf_bytes_head [of 0 4096 p ps] buf_bytes_tail [of p ps]
      by (simp add: page_size_nat)
  qed
qed (simp add: buf_bytes_def)

lemma page_offset: "unat ((u :: u32) AND NOT PAGE_MASK) = unat u mod 4096"
proof -
  have "u AND NOT PAGE_MASK = take_bit 12 u"
    by (simp only: PAGE_MASK_def bit.double_compl take_bit_eq_mask) (simp add: mask_eq_exp_minus_1)
  then show ?thesis by (simp only: unsigned_take_bit_eq) (simp add: take_bit_eq_mod)
qed

lemma sg_fill_bytes:
  assumes "0 < unat len" "length ps = (unat u mod 4096 + unat len + 4095) div 4096"
  shows "concat (map entry_bytes (sg_fill ps u len)) = buf_bytes ps (unat u mod 4096) (unat len)"
proof -
  define off where "off = unat u mod 4096"
  have off: "off < 4096" by (simp add: off_def)
  note pages = assms(2) [folded off_def] and ofs = page_offset [of u, folded off_def]
  have "4096 \<le> off + unat len + 4095" using assms(1) by linarith
  then have "0 < length ps" unfolding pages by (simp only: div_greater_zero_iff) simp
  then obtain p qs where ps: "ps = p # qs" by (cases ps) auto
  show ?thesis
  proof (cases "qs = []")
    case True
    have "(off + unat len + 4095) div 4096 < 2" unfolding pages [symmetric] ps using True by simp
    then have "off + unat len + 4095 < 2 * 4096" by (simp only: div_less_iff_less_mult)
    then have "off + unat len \<le> 4096" by simp
    with True show ?thesis using buf_bytes_head [of off "unat len" p] by (simp add: off_def [symmetric] ps sg_fill_def ofs)
  next
    case False
    then have "2 \<le> length ps" by (cases qs) (auto simp: ps)
    then have two: "4096 < off + unat len" using pages by linarith
    let ?n = "PAGE_SIZE - (u AND NOT PAGE_MASK)"
    have n: "unat ?n = 4096 - off" using off by (simp add: unat_diff page_size_nat ofs)
    have r: "unat (len - ?n) = unat len - (4096 - off)" using two n by (simp add: unat_diff)
    have "length qs = (unat (len - ?n) + 4095) div 4096"
    proof -
      have "off + unat len + 4095 = unat (len - ?n) + 4095 + 4096" using two off r by linarith
      then show ?thesis using pages ps by simp
    qed
    then have "concat (map entry_bytes (sg_rest qs (len - ?n))) = buf_bytes qs 0 (unat (len - ?n))"
      using two r off by (intro sg_rest_bytes) auto
    moreover have "buf_bytes ps off (unat len) = buf_bytes ps off (4096 - off) @ buf_bytes ps 4096 (unat (len - ?n))"
      using buf_bytes_split [of ps off "4096 - off" "unat (len - ?n)"] two off r by simp
    ultimately show ?thesis
      using False off n buf_bytes_head [of off "4096 - off" p qs] buf_bytes_tail [of p qs]
      by (simp add: off_def [symmetric] ps sg_fill_def Let_def ofs)
  qed
qed

lemma sg_rest_pages: "map sg_page (sg_rest ps len) = ps"
  by (induction ps len rule: sg_rest.induct) simp_all

lemma sg_fill_pages: "map sg_page (sg_fill ps u len) = ps"
  by (auto simp: sg_fill_def sg_rest_pages Let_def split: list.splits)

text \<open>The number of pages \<^verbatim>\<open>vme_dma_setup\<close> computes is the number of pages the buffer touches.\<close>

lemma uaddr_low:
  assumes "at_addru (dm_src d) = 0" "at_addru (dm_dst d) = 0"
  shows "dma_uaddr d = ucast (if dm_dir d = VME_DMA_TO_DEVICE then at_addrl (dm_src d) else at_addrl (dm_dst d))"
  using assms by (simp add: dma_uaddr_def Let_def)

lemma nr_pages_nat:
  assumes "dma_uaddr d = ucast (u :: u32)"
  shows "dma_nr_pages d = (unat u mod 4096 + unat (dm_length d) + 4095) div 4096"
proof -
  have u: "unat (ucast u :: 64 word) = unat u"
    using unat_bound [of u] by (simp add: unsigned_ucast_eq take_bit_nat_eq_self_iff)
  have "(ucast u :: 64 word) AND 0xfff = take_bit 12 (ucast u)" by (simp only: take_bit_eq_mask) (simp add: mask_eq_exp_minus_1)
  then have a: "unat ((ucast u :: 64 word) AND 0xfff) = unat u mod 4096"
    by (simp only: unsigned_take_bit_eq u) (simp add: take_bit_eq_mod)
  have l: "unat (ucast (dm_length d) :: 64 word) = unat (dm_length d)"
    using unat_bound [of "dm_length d"] by (simp add: unsigned_ucast_eq take_bit_nat_eq_self_iff)
  have "unat (((ucast u :: 64 word) AND 0xfff) + ucast (dm_length d) + 0xfff) = unat u mod 4096 + unat (dm_length d) + 4095"
    using unat_bound [of "dm_length d"] a l by (simp add: unat_word_ariths)
  then show ?thesis using assms by (simp add: dma_nr_pages_def PAGE_SHIFT_def unat_drop_bit_eq drop_bit_eq_div unat_div)
qed

section \<open>The buffer of a transfer\<close>

lemma drop_pins: "fold remove1 ps (ps @ l) = l"
  by (induction ps) simp_all

text \<open>
  What a failed set-up leaves: the accounts of the kernel's services as before, and memory changed
  only where no descriptor was in use.
\<close>

definition same_accounts :: "nat \<Rightarrow> dma_state \<Rightarrow> dma_state \<Rightarrow> bool" where
  "same_accounts c s s' \<longleftrightarrow>
     length (channels s') = length (channels s) \<and> length (dma_regs s') = length (dma_regs s) \<and>
     (\<forall>b. b \<noteq> c \<longrightarrow> channel_at b s' = channel_at b s \<and> dma_regs s' ! b = dma_regs s ! b) \<and>
     C_busy (channel_at c s') = C_busy (channel_at c s) \<and>
     dma_semaphore s' = dma_semaphore s \<and> dma_lock s' = dma_lock s \<and> dma_disable s' = dma_disable s \<and>
     (\<forall>y \<in> set (pool_live s). pool_mem s' y = pool_mem s y) \<and> pool_destroyed s' = pool_destroyed s"

lemma same_accounts_trans:
  assumes "same_accounts c s s1" "same_accounts c s1 s2" "set (pool_live s) \<subseteq> set (pool_live s1)"
  shows "same_accounts c s s2"
  using assms by (auto simp: same_accounts_def)

definition undone :: "nat \<Rightarrow> dma_state \<Rightarrow> dma_state \<Rightarrow> bool" where
  "undone c s s' \<longleftrightarrow> same_accounts c s s' \<and> pool_live s' = pool_live s \<and> hw_desc_list (channel_at c s') = [] \<and>
     pinned s' = pinned s \<and> sgl_blocks s' = sgl_blocks s \<and> sg_maps s' = sg_maps s"

text \<open>
  What a successful one leaves: the buffer pinned and mapped, and a chain whose first address is in
  the channel's register.
\<close>

definition prepared :: "nat \<Rightarrow> bool \<Rightarrow> dma_state \<Rightarrow> dma_state \<Rightarrow> bool" where
  "prepared c u s s' \<longleftrightarrow> same_accounts c s s' \<and>
     (\<exists>new sgl. new \<noteq> [] \<and> distinct new \<and> set new \<inter> set (pool_live s) = {} \<and> pool_live s' = rev new @ pool_live s \<and>
        hw_desc_list (channel_at c s') = new \<and> C_sgl (channel_at c s') = Some sgl \<and> C_chained (channel_at c s') = 1 \<and>
        C_desc (channel_at c s') = C_desc (channel_at c s) \<and>
        pinned s' = (if u then map sg_page sgl else []) @ pinned s \<and>
        sgl_blocks s' = sgl_blocks s + 1 \<and> sg_maps s' = sg_maps s + 1 \<and>
        (c < length (dma_regs s) \<longrightarrow> R_dnlau (dma_regs s' ! c) = 0 \<and> R_dnlal (dma_regs s' ! c) = hd new))"

lemma dma_write_sel [simp]:
  "channels (dma_write c r v s) = channels s" "dma_semaphore (dma_write c r v s) = dma_semaphore s"
  "dma_lock (dma_write c r v s) = dma_lock s" "dma_disable (dma_write c r v s) = dma_disable s"
  "pool_mem (dma_write c r v s) = pool_mem s" "pool_live (dma_write c r v s) = pool_live s"
  "pool_destroyed (dma_write c r v s) = pool_destroyed s" "pinned (dma_write c r v s) = pinned s"
  "sgl_blocks (dma_write c r v s) = sgl_blocks s" "sg_maps (dma_write c r v s) = sg_maps s"
  "channel_at b (dma_write c r v s) = channel_at b s" "length (dma_regs (dma_write c r v s)) = length (dma_regs s)"
  "b \<noteq> c \<Longrightarrow> dma_regs (dma_write c r v s) ! b = dma_regs s ! b"
  "c < length (dma_regs s) \<Longrightarrow> dma_regs (dma_write c r v s) ! c = put_dreg r v (dma_regs s ! c)"
  by (simp_all add: dma_write_def channel_at_def)

lemma setup_inner_cases:
  assumes "tsi148_dma_setup k c s = Inr (rc, s')" "pool_ok k" "c < length (channels s)" "hw_desc_list (channel_at c s) = []"
    "dma_dir_ok (C_desc (channel_at c s))"
  shows "case rc of
      Some e \<Rightarrow> (e = EINVAL \<or> e = ENOMEM) \<and> same_accounts c s s' \<and> pool_live s' = pool_live s \<and> pinned s' = pinned s \<and>
        sgl_blocks s' = sgl_blocks s \<and> sg_maps s' = sg_maps s \<and> (\<exists>v. channel_at c s' = (channel_at c s)\<lparr>C_chained := v\<rparr>)
    | None \<Rightarrow> \<exists>new m s1. new \<noteq> [] \<and> fresh_chain new m s \<and>
        s1 = dma_write c DCTL (the (tsi148_dma_setup_ctl (C_desc (channel_at c s))) AND NOT TSI148_LCSR_DCTL_MOD) (upd_channel c (\<lambda>h. h\<lparr>C_chained := 1\<rparr>) s) \<and>
        s' = chain_regs c (hd new) (with_chain c new m s1)"
proof -
  let ?d = "C_desc (channel_at c s)"
  consider (bad) "rc = Some EINVAL" "s' = s"
    | (go) sat dat ctl where "tsi148_dma_setup_ctl ?d = Some ctl" "tsi148_dma_setup_chain k c sat dat
        (dma_write c DCTL (ctl AND NOT TSI148_LCSR_DCTL_MOD) (upd_channel c (\<lambda>h. h\<lparr>C_chained := 1\<rparr>) s)) = Inr (rc, s')"
    using assms(1) by (auto simp: tsi148_dma_setup_def Let_def split: option.splits)
  then show ?thesis
  proof cases
    case bad
    then show ?thesis by (auto simp: same_accounts_def intro!: exI [of _ "C_chained (channel_at c s)"])
  next
    case go
    let ?s1 = "dma_write c DCTL (ctl AND NOT TSI148_LCSR_DCTL_MOD) (upd_channel c (\<lambda>h. h\<lparr>C_chained := 1\<rparr>) s)"
    have pre: "c < length (channels ?s1)" "hw_desc_list (channel_at c ?s1) = []" "dma_dir_ok (C_desc (channel_at c ?s1))"
      using assms(3-5) by simp_all
    from setup_chain_cases [OF go(2) assms(2) pre]
    have post: "case rc of
      None \<Rightarrow> \<exists>new m. new \<noteq> [] \<and> fresh_chain new m ?s1 \<and> s' = chain_regs c (hd new) (with_chain c new m ?s1)
    | Some e \<Rightarrow> e = ENOMEM \<and> (\<exists>m. (\<forall>y \<in> set (pool_live ?s1). m y = pool_mem ?s1 y) \<and> s' = ?s1\<lparr>pool_mem := m\<rparr>)" .
    show ?thesis
    proof (cases rc)
      case None
      then obtain new m where "new \<noteq> []" "fresh_chain new m ?s1" "s' = chain_regs c (hd new) (with_chain c new m ?s1)" using post by auto
      then show ?thesis using None go(1) by (auto simp: fresh_chain_def intro!: exI [of _ new] exI [of _ m])
    next
      case (Some e)
      then obtain m where m: "e = ENOMEM" "\<forall>y \<in> set (pool_live s). m y = pool_mem s y" "s' = ?s1\<lparr>pool_mem := m\<rparr>" using post by auto
      have "channel_at b (t\<lparr>pool_mem := m\<rparr>) = channel_at b t" for b t by (simp add: channel_at_def)
      then show ?thesis using Some m assms(3) by (auto simp: same_accounts_def)
    qed
  qed
qed

lemma setup_inner_prepared:
  assumes "new \<noteq> []" "fresh_chain new m s" "c < length (channels s)"
    "s1 = dma_write c DCTL v (upd_channel c (\<lambda>h. h\<lparr>C_chained := 1\<rparr>) s)" "s' = chain_regs c (hd new) (with_chain c new m s1)"
  shows "same_accounts c s s'" "pool_live s' = rev new @ pool_live s" "distinct new" "set new \<inter> set (pool_live s) = {}"
    "channel_at c s' = (channel_at c s)\<lparr>C_chained := 1, hw_desc_list := new\<rparr>" "pinned s' = pinned s" "sgl_blocks s' = sgl_blocks s" "sg_maps s' = sg_maps s"
    "c < length (dma_regs s) \<Longrightarrow> R_dnlau (dma_regs s' ! c) = 0 \<and> R_dnlal (dma_regs s' ! c) = hd new"
proof -
  have w: "dma_semaphore (with_chain c new m t) = dma_semaphore t" "dma_lock (with_chain c new m t) = dma_lock t"
    "dma_disable (with_chain c new m t) = dma_disable t" "pool_destroyed (with_chain c new m t) = pool_destroyed t"
    "pinned (with_chain c new m t) = pinned t" "sgl_blocks (with_chain c new m t) = sgl_blocks t" "sg_maps (with_chain c new m t) = sg_maps t" for t
    by (simp_all add: with_chain_def)
  show "same_accounts c s s'" "pool_live s' = rev new @ pool_live s" "distinct new" "set new \<inter> set (pool_live s) = {}"
    "channel_at c s' = (channel_at c s)\<lparr>C_chained := 1, hw_desc_list := new\<rparr>" "pinned s' = pinned s" "sgl_blocks s' = sgl_blocks s" "sg_maps s' = sg_maps s"
    using assms(2,3) by (auto simp: assms(4,5) same_accounts_def chain_regs_def with_chain_sel fresh_chain_def w)
  show "c < length (dma_regs s) \<Longrightarrow> R_dnlau (dma_regs s' ! c) = 0 \<and> R_dnlal (dma_regs s' ! c) = hd new"
    by (simp add: assms(4,5) chain_regs_def with_chain_sel put_dreg_def)
qed

lemma channel_at_frame [simp]:
  "channel_at c (s\<lparr>sgl_blocks := n\<rparr>) = channel_at c s" "channel_at c (s\<lparr>sg_maps := n\<rparr>) = channel_at c s"
  "channel_at c (s\<lparr>pinned := l\<rparr>) = channel_at c s" "channel_at c (s\<lparr>dma_semaphore := n\<rparr>) = channel_at c s"
  "channel_at c (s\<lparr>dma_lock := b\<rparr>) = channel_at c s" "channel_at c (s\<lparr>dma_disable := b\<rparr>) = channel_at c s"
  "channel_at c (s\<lparr>pool_live := l\<rparr>) = channel_at c s" "channel_at c (s\<lparr>dma_regs := g\<rparr>) = channel_at c s"
  "channel_at c (s\<lparr>pool_destroyed := b\<rparr>) = channel_at c s"
  by (simp_all add: channel_at_def)

lemma user_pages_cases:
  assumes "sgl_map_user_pages k nr ua len rw u s = (r, s1)"
  shows "case r of
      Inl e \<Rightarrow> e = ENOMEM \<and> s1 = s
    | Inr (n, sgl) \<Rightarrow> n = nr \<and> s1 = (case sgl of None \<Rightarrow> s | Some es \<Rightarrow> s\<lparr>pinned := (if u then map sg_page es else []) @ pinned s\<rparr>)"
  using assms by (auto simp: sgl_map_user_pages_def get_pages_def sg_fill_pages split: if_splits sum.splits)

lemma drop_buffer_pinned:
  assumes "drop_buffer c u s = Inr s'" "C_sgl (channel_at c s) = Some sgl" "pinned s = (if u then map sg_page sgl else []) @ l"
  shows "s' = s\<lparr>sg_maps := sg_maps s - 1, pinned := l, sgl_blocks := sgl_blocks s - 1\<rparr>"
  using assms by (cases u) (auto simp: drop_buffer_def kfree_sgl_def sgl_unmap_user_pages_def drop_pins)

lemma dma_setup_cases:
  assumes "vme_dma_setup k c u s = Inr (rc, s')" "pool_ok k" "c < length (channels s)" "hw_desc_list (channel_at c s) = []"
    "dma_dir_ok (C_desc (channel_at c s))" "dma_nr_pages (C_desc (channel_at c s)) \<noteq> 0"
  shows "case rc of Some e \<Rightarrow> (e = EINVAL \<or> e = ENOMEM) \<and> undone c s s' | None \<Rightarrow> prepared c u s s'"
proof -
  let ?d = "C_desc (channel_at c s)"
  let ?add = "\<lambda>es h. h\<lparr>C_sgl := Some es, C_sg_pages := dma_nr_pages ?d, C_sg_mapped := map_sg k es\<rparr>"
  let ?t = "\<lambda>es. upd_channel c (?add es) (s\<lparr>sgl_blocks := sgl_blocks s + 1, pinned := (if u then map sg_page es else []) @ pinned s, sg_maps := sg_maps s + 1\<rparr>)"
  have undone_refl: "undone c s s" using assms(4) by (simp add: undone_def same_accounts_def)
  obtain r s1 where m: "sgl_map_user_pages k (dma_nr_pages ?d) (ucast (dma_uaddr ?d)) (dm_length ?d) (dm_dir ?d = VME_DMA_FROM_DEVICE) u
      (s\<lparr>sgl_blocks := sgl_blocks s + 1\<rparr>) = (r, s1)" by fastforce
  note cases = user_pages_cases [OF m]
  consider (early) e where "rc = Some e" "e = EINVAL \<or> e = ENOMEM" "s' = s"
    | (go) es rc3 s3 where "tsi148_dma_setup k c (?t es) = Inr (rc3, s3)"
        "if rc3 \<noteq> None then rc = rc3 \<and> drop_buffer c u s3 = Inr s' else rc = None \<and> s' = s3"
  proof (cases "dma_uaddr ?d + ucast (dm_length ?d) < dma_uaddr ?d \<or> \<not> sgl_ok k")
    case True
    then show ?thesis using assms(1) early by (auto simp: vme_dma_setup_def Let_def split: if_splits)
  next
    case nf: False
    show ?thesis
    proof (cases r)
      case (Inl e)
      then have "rc = Some ENOMEM" "s' = s" using nf assms(1) cases m by (auto simp: vme_dma_setup_def Let_def kfree_sgl_def)
      then show ?thesis using early by blast
    next
      case (Inr q)
      then obtain sgl where q: "r = Inr (dma_nr_pages ?d, sgl)" using cases by (cases q) auto
      then obtain es where es: "sgl = Some es" using nf assms(1,6) m by (cases sgl) (auto simp: vme_dma_setup_def Let_def)
      have s1: "s1 = s\<lparr>sgl_blocks := sgl_blocks s + 1, pinned := (if u then map sg_page es else []) @ pinned s\<rparr>" using cases q es by simp
      have t: "upd_channel c (\<lambda>h. h\<lparr>C_sg_mapped := map_sg k es\<rparr>) ((upd_channel c (\<lambda>h. h\<lparr>C_sgl := Some es, C_sg_pages := dma_nr_pages ?d\<rparr>) s1)\<lparr>sg_maps := sg_maps s + 1\<rparr>) = ?t es"
        using assms(3) by (simp add: s1 upd_channel_def)
      have "bind_r (tsi148_dma_setup k c (?t es)) (\<lambda>(rc, s3).
          if rc \<noteq> None then bind_r (drop_buffer c u s3) (\<lambda>s4. Inr (rc, s4)) else Inr (None, s3)) = Inr (rc, s')"
        using assms(1,6) nf m q es arg_cong [OF s1, of sg_maps] unfolding t [symmetric] by (auto simp: vme_dma_setup_def Let_def)
      then show ?thesis using go by (auto simp: bind_r_eq_Inr split: if_splits)
    qed
  qed
  then show ?thesis
  proof cases
    case early
    then show ?thesis using undone_refl by simp
  next
    case go
    let ?s = "?t es"
    have ch: "c < length (channels ?s)" "channel_at c ?s = ?add es (channel_at c s)" "hw_desc_list (channel_at c ?s) = []" "dma_dir_ok (C_desc (channel_at c ?s))"
      using assms(3-5) by simp_all
    have frame: "same_accounts c s ?s" using assms(3) by (simp add: same_accounts_def)
    from setup_inner_cases [OF go(1) assms(2) ch(1,3,4)]
    show ?thesis
    proof (cases rc3)
      case (Some e)
      have i: "e = EINVAL \<or> e = ENOMEM" "same_accounts c ?s s3" "pool_live s3 = pool_live s" "pinned s3 = (if u then map sg_page es else []) @ pinned s"
        "sgl_blocks s3 = sgl_blocks s + 1" "sg_maps s3 = sg_maps s + 1" "\<exists>v. channel_at c s3 = (channel_at c ?s)\<lparr>C_chained := v\<rparr>"
        using setup_inner_cases [OF go(1) assms(2) ch(1,3,4)] unfolding Some by simp_all
      have sg: "C_sgl (channel_at c s3) = Some es" "hw_desc_list (channel_at c s3) = []" using i(7) ch(2) assms(4) by auto
      have r: "rc = Some e" "drop_buffer c u s3 = Inr s'" using go(2) Some by simp_all
      have e: "s' = s3\<lparr>sg_maps := sg_maps s, pinned := pinned s, sgl_blocks := sgl_blocks s\<rparr>"
        using drop_buffer_pinned [OF r(2) sg(1) i(4)] i(5,6) by simp
      have "same_accounts c s s3" by (rule same_accounts_trans [OF frame i(2)]) simp
      then show ?thesis using i(1,3) r sg by (simp add: e undone_def same_accounts_def)
    next
      case None
      obtain new m s1 where n: "new \<noteq> []" "fresh_chain new m ?s" "s1 = dma_write c DCTL (the (tsi148_dma_setup_ctl (C_desc (channel_at c ?s))) AND NOT TSI148_LCSR_DCTL_MOD) (upd_channel c (\<lambda>h. h\<lparr>C_chained := 1\<rparr>) ?s)"
        "s3 = chain_regs c (hd new) (with_chain c new m s1)"
        using setup_inner_cases [OF go(1) assms(2) ch(1,3,4)] unfolding None option.case by blast
      note p = setup_inner_prepared [OF n(1,2) ch(1) n(3,4)]
      have r: "rc = None" "s' = s3" using go(2) None by simp_all
      have "same_accounts c s s3" by (rule same_accounts_trans [OF frame p(1)]) simp
      then show ?thesis using p n(1) ch(2) by (simp add: r prepared_def)
    qed
  qed
qed

section \<open>Faults of the set-up\<close>

lemma link_loop_fault: "link_loop k c a l s = Some (Inl e) \<Longrightarrow> e = Bug_on"
proof -
  assume as: "link_loop k c a l s = Some (Inl e)"
  define P where "P = (\<lambda>(k :: dkernel) (c :: nat) (a :: link_args) (l :: link_vars) (s :: dma_state)
    (r :: (errno option \<times> link_vars \<times> dma_state) result). \<forall>e. r = Inl e \<longrightarrow> e = Bug_on)"
  have "P k c a l s (Inl e)"
  proof (rule link_loop.raw_induct [where P = P, OF _ as])
    fix f k c a l s r
    assume IH: "\<And>k c a l s r. f k c a l s = Some r \<Longrightarrow> P k c a l s r"
      and eq: "(if \<not> (lk_vme l < la_vme_end a \<and> lk_dma l < la_dma_end a) then Some (Inr (None, l, s))
        else case link_step k c a l s of Inl e \<Rightarrow> Some (Inl e)
             | Inr (Some e, l1, s1) \<Rightarrow> Some (Inr (Some e, l1, s1)) | Inr (None, l1, s1) \<Rightarrow> f k c a l1 s1) = Some r"
    have bug: "link_step k c a l s = Inl e \<Longrightarrow> e = Bug_on" for e
      by (auto simp: link_step_def Let_def split: option.splits if_splits prod.splits)
    show "P k c a l s r"
    proof (cases "lk_vme l < la_vme_end a \<and> lk_dma l < la_dma_end a")
      case True
      then show ?thesis using eq bug IH by (auto simp: P_def split: sum.splits option.splits prod.splits)
    qed (use eq in \<open>auto simp: P_def\<close>)
  qed
  then show "e = Bug_on" by (simp add: P_def)
qed

lemma chain_loop_fault: "chain_loop k c sh sat dat segs cur v s = Inl e \<Longrightarrow> e = Bug_on \<or> e = Endless"
proof (induction segs arbitrary: cur v s)
  case (Cons pn segs)
  obtain p n where pn: "pn = (p, n)" by fastforce
  have "tsi148_dma_link_add k c cur v p n f sh sat dat s = Inl e \<Longrightarrow> e = Bug_on \<or> e = Endless" for f
    by (auto simp: tsi148_dma_link_add_def bind_r_eq_Inl dest: link_loop_fault split: if_splits option.splits)
  then show ?case using Cons by (auto simp: pn bind_r_eq_Inl split: if_splits)
qed simp

lemma dma_setup_fault:
  assumes "vme_dma_setup k c u s = Inl e"
  shows "e = Bug_on \<or> e = Endless \<or> e = Uninitialised"
proof -
  have chain: "tsi148_dma_setup k c s = Inl e \<Longrightarrow> e = Bug_on \<or> e = Endless" for s
    by (auto simp: tsi148_dma_setup_def tsi148_dma_setup_chain_def Let_def bind_r_eq_Inl
        dest: chain_loop_fault split: option.splits if_splits prod.splits)
  have drop: "drop_buffer c u s = Inl e \<Longrightarrow> e = Uninitialised" for s
    by (auto simp: drop_buffer_def split: option.splits)
  show ?thesis
    using assms by (auto simp: vme_dma_setup_def Let_def bind_r_eq_Inl dest: chain drop split: if_splits sum.splits option.splits prod.splits)
qed

end
