(* ===== verification/Vme_Sharing.thy ===== *)
theory Vme_Sharing
  imports Vme_Transfer
begin

text \<open>
  The two DMA channels shared by several processes: what holds of the driver's state whatever the
  order in which transfers begin and end, which failures a new one may meet, and that when the chip
  is done every transfer ends and gives back what it held. The two halves of a transfer are single
  steps: between them the processes share only the semaphore, the channel table and the accounts of
  the kernel's services.
\<close>

section \<open>Several transfers at once\<close>

text \<open>
  A transfer under way is the channel it was given, its request and whether the buffer is a user's.
  \<open>run_ok\<close> says that the channel is really its own and \<open>run_descs\<close>, \<open>run_pins\<close> what it holds.
\<close>

type_synonym dma_run = "nat \<times> vme_dma \<times> bool"

definition run_ok :: "dma_state \<Rightarrow> dma_run \<Rightarrow> bool" where
  "run_ok s r = (case r of (c, d, u) \<Rightarrow>
     c < 2 \<and> C_busy (channel_at c s) \<noteq> 0 \<and> C_chained (channel_at c s) = 1 \<and> C_desc (channel_at c s) = d \<and>
     hw_desc_list (channel_at c s) \<noteq> [] \<and> C_sgl (channel_at c s) \<noteq> None)"

definition run_descs :: "dma_state \<Rightarrow> dma_run \<Rightarrow> u32 multiset" where
  "run_descs s r = (case r of (c, d, u) \<Rightarrow> mset (hw_desc_list (channel_at c s)))"

definition run_pins :: "dma_state \<Rightarrow> dma_run \<Rightarrow> u32 multiset" where
  "run_pins s r = (case r of (c, d, u) \<Rightarrow> if u then mset (map sg_page (the (C_sgl (channel_at c s)))) else {#})"

definition dma_inv :: "dma_run list \<Rightarrow> dma_state \<Rightarrow> bool" where
  "dma_inv run s \<longleftrightarrow> length (channels s) = 2 \<and> length (dma_regs s) = 2 \<and> \<not> dma_lock s \<and>
     distinct (map fst run) \<and> (\<forall>r \<in> set run. run_ok s r) \<and>
     (\<forall>c<2. c \<notin> fst ` set run \<longrightarrow> C_busy (channel_at c s) = 0 \<and> hw_desc_list (channel_at c s) = []) \<and>
     dma_semaphore s + length run = 2 \<and> distinct (pool_live s) \<and>
     mset (pool_live s) = sum_list (map (run_descs s) run) \<and> mset (pinned s) = sum_list (map (run_pins s) run) \<and>
     sgl_blocks s = length run \<and> sg_maps s = length run"

lemma run_cong:
  "channel_at (fst r) s' = channel_at (fst r) s \<Longrightarrow> run_ok s' r = run_ok s r \<and> run_descs s' r = run_descs s r \<and> run_pins s' r = run_pins s r"
  by (cases r) (simp add: run_ok_def run_descs_def run_pins_def)

text \<open>The same state for every channel of \<open>run\<close> and the same accounts: the invariant goes over.\<close>

lemma dma_inv_same:
  assumes "dma_inv run s" "length (channels s') = length (channels s)" "length (dma_regs s') = length (dma_regs s)"
    "\<forall>c \<in> fst ` set run. channel_at c s' = channel_at c s"
    "\<forall>c<2. c \<notin> fst ` set run \<longrightarrow> C_busy (channel_at c s') = 0 \<and> hw_desc_list (channel_at c s') = []"
    "dma_lock s' = dma_lock s" "dma_semaphore s' = dma_semaphore s" "pool_live s' = pool_live s" "pinned s' = pinned s"
    "sgl_blocks s' = sgl_blocks s" "sg_maps s' = sg_maps s"
  shows "dma_inv run s'"
proof -
  have c: "run_ok s' r = run_ok s r \<and> run_descs s' r = run_descs s r \<and> run_pins s' r = run_pins s r" if "r \<in> set run" for r
    using assms(4) that run_cong by blast
  have m: "map (run_descs s') run = map (run_descs s) run" "map (run_pins s') run = map (run_pins s) run" using c by auto
  have ok: "(\<forall>r \<in> set run. run_ok s' r) = (\<forall>r \<in> set run. run_ok s r)" using c by blast
  show ?thesis using assms unfolding dma_inv_def m ok by simp
qed

lemma channel_range: "c < TSI148_NUM_DMA_CHANNELS \<longleftrightarrow> c = 0 \<or> c = 1"
  by (auto simp: TSI148_NUM_DMA_CHANNELS_def)

text \<open>When a channel is left over, waiting for the semaphore leads to it.\<close>

lemma acquire_cases:
  assumes "dma_inv run s" "vme_dma_channel_acquire k s = r"
  obtains (blocked) "r = Inl Blocked" "length run = 2"
  | (error) e v where "r = Inr (Inl e, s\<lparr>dma_disable := v\<rparr>)" "e = EBUSY \<or> e = EINTR"
  | (got) c where "r = Inr (Inr c, upd_channel c (\<lambda>h. h\<lparr>C_busy := 1\<rparr>) (s\<lparr>dma_semaphore := dma_semaphore s - 1, dma_disable := False\<rparr>))"
      "c < 2" "c \<notin> fst ` set run" "0 < dma_semaphore s"
proof -
  note inv = assms(1) [unfolded dma_inv_def]
  show thesis
  proof (cases "dma_disable s \<or> sem_signal k")
    case True
    then have "r = Inr (Inl (if dma_disable s then EBUSY else EINTR), s\<lparr>dma_disable := dma_disable s\<rparr>)"
      using assms(2) by (auto simp: vme_dma_channel_acquire_def)
    then show thesis by (rule error) (simp split: if_splits)
  next
    case nd: False
    show thesis
    proof (cases "dma_semaphore s")
      case 0
      then show thesis using nd assms(2) inv blocked by (auto simp: vme_dma_channel_acquire_def)
    next
      case (Suc n)
      show thesis
      proof (cases "exit_meanwhile k")
        case True
        have e: "s\<lparr>dma_disable := True, dma_semaphore := Suc n\<rparr> = s\<lparr>dma_disable := True\<rparr>" using Suc by (cases s) simp
        have "r = Inr (Inl EBUSY, s\<lparr>dma_disable := True, dma_semaphore := Suc n\<rparr>)"
          using nd Suc True assms(2) by (simp add: vme_dma_channel_acquire_def Let_def)
        then have "r = Inr (Inl EBUSY, s\<lparr>dma_disable := True\<rparr>)" unfolding e .
        then show thesis using error by blast
      next
        case go: False
        let ?s1 = "s\<lparr>dma_semaphore := dma_semaphore s - 1, dma_disable := False, dma_lock := True\<rparr>"
        have free: "\<exists>c<2. c \<notin> fst ` set run"
        proof (rule ccontr)
          assume "\<not> ?thesis"
          then have "{..<2} \<subseteq> fst ` set run" by auto
          then have "card {..<2 :: nat} \<le> card (fst ` set run)" by (intro card_mono) auto
          also have "\<dots> \<le> length run" by (metis card_length image_set length_map)
          finally show False using inv Suc by simp
        qed
        have idle: "C_busy (channel_at c s) = 0 \<longleftrightarrow> c \<notin> fst ` set run" if "c < 2" for c
          using inv that by (auto simp: run_ok_def)
        obtain c where c: "find (\<lambda>c. C_busy (channel_at c s) = 0) [0 ..< TSI148_NUM_DMA_CHANNELS] = Some c"
          using free idle by (cases "find (\<lambda>c. C_busy (channel_at c s) = 0) [0 ..< TSI148_NUM_DMA_CHANNELS]")
            (auto simp: find_None_iff TSI148_NUM_DMA_CHANNELS_def)
        then have "c < 2" "C_busy (channel_at c s) = 0" by (auto simp: find_Some_iff TSI148_NUM_DMA_CHANNELS_def)
        then have c2: "c < 2" "c \<notin> fst ` set run" using idle by simp_all
        have "(upd_channel c (\<lambda>h. h\<lparr>C_busy := 1\<rparr>) ?s1)\<lparr>dma_lock := False\<rparr> =
            upd_channel c (\<lambda>h. h\<lparr>C_busy := 1\<rparr>) (s\<lparr>dma_semaphore := dma_semaphore s - 1, dma_disable := False\<rparr>)"
          using inv by (simp add: upd_channel_def)
        then have "r = Inr (Inr c, upd_channel c (\<lambda>h. h\<lparr>C_busy := 1\<rparr>) (s\<lparr>dma_semaphore := dma_semaphore s - 1, dma_disable := False\<rparr>))"
          using nd Suc go assms(2) inv c by (auto simp: vme_dma_channel_acquire_def Let_def mutex_lock_dma_def mutex_unlock_dma_def lock_avail_channel_def)
        then show thesis using got c2 Suc by simp
      qed
    qed
  qed
qed

text \<open>Nothing that a transfer of \<open>run\<close> relies on changes.\<close>

definition dma_kept :: "dma_run list \<Rightarrow> dma_state \<Rightarrow> dma_state \<Rightarrow> bool" where
  "dma_kept run s s' \<longleftrightarrow>
     (\<forall>c \<in> fst ` set run. channel_at c s' = channel_at c s \<and> dma_regs s' ! c = dma_regs s ! c) \<and>
     (\<forall>y \<in> set (pool_live s). pool_mem s' y = pool_mem s y)"

lemma release_ok: "\<not> dma_lock s \<Longrightarrow>
    vme_dma_channel_release c s = Inr (upd_channel c (\<lambda>h. h\<lparr>C_busy := 0\<rparr>) (s\<lparr>dma_semaphore := dma_semaphore s + 1\<rparr>))"
  by (simp add: vme_dma_channel_release_def mutex_lock_dma_def mutex_unlock_dma_def upd_channel_def)

lemma dma_pages_pos: "dma_check d \<Longrightarrow> dma_nr_pages d \<noteq> 0"
proof -
  assume d: "dma_check d"
  then have "0 < unat (dm_length d)" by (simp add: dma_check_def unat_gt_0)
  then have "4096 \<le> unat u mod 4096 + unat (dm_length d) + 4095" for u :: u32 by linarith
  then have "0 < (unat u mod 4096 + unat (dm_length d) + 4095) div 4096" for u :: u32 by (metis div_greater_zero_iff zero_less_numeral)
  moreover obtain u :: u32 where "dma_uaddr d = ucast u" using uaddr_low d by (auto simp: dma_check_def)
  ultimately show ?thesis using nr_pages_nat by (metis less_numeral_extra(3))
qed

text \<open>A new transfer on a free channel: what it holds is added to the accounts.\<close>

lemma dma_inv_add:
  assumes "dma_inv run s" "c < 2" "c \<notin> fst ` set run" "0 < dma_semaphore s"
    "prepared c u s2 s3" "s2 = upd_channel c (\<lambda>h. h\<lparr>C_busy := 1, C_desc := d\<rparr>) (s\<lparr>dma_semaphore := dma_semaphore s - 1, dma_disable := v\<rparr>)"
  shows "dma_inv ((c, d, u) # run) (tsi148_dma_start c s3)" "dma_kept run s (tsi148_dma_start c s3)"
proof -
  note inv = assms(1) [unfolded dma_inv_def]
  let ?s = "tsi148_dma_start c s3"
  have lc: "c < length (channels s)" "c < length (channels s2)" using inv assms(2) by (simp_all add: assms(6))
  obtain new sgl where p: "same_accounts c s2 s3" "new \<noteq> []" "distinct new" "set new \<inter> set (pool_live s2) = {}" "pool_live s3 = rev new @ pool_live s2"
    "hw_desc_list (channel_at c s3) = new" "C_sgl (channel_at c s3) = Some sgl" "C_chained (channel_at c s3) = 1"
    "C_desc (channel_at c s3) = C_desc (channel_at c s2)" "pinned s3 = (if u then map sg_page sgl else []) @ pinned s2"
    "sgl_blocks s3 = sgl_blocks s2 + 1" "sg_maps s3 = sg_maps s2 + 1"
    using assms(5) unfolding prepared_def by blast
  note a = p(1) [unfolded same_accounts_def]
  have s2: "pool_live s2 = pool_live s" "pinned s2 = pinned s" "sgl_blocks s2 = sgl_blocks s" "sg_maps s2 = sg_maps s" "dma_regs s2 = dma_regs s"
    "dma_lock s2 = dma_lock s" "dma_semaphore s2 = dma_semaphore s - 1" "length (channels s2) = length (channels s)" "pool_mem s2 = pool_mem s"
    "channel_at c s2 = (channel_at c s)\<lparr>C_busy := 1, C_desc := d\<rparr>"
    using lc(1) by (simp_all add: assms(6))
  have oth: "channel_at b ?s = channel_at b s" "dma_regs ?s ! b = dma_regs s ! b" if "b \<noteq> c" for b
    using a that s2(5) by (simp_all add: tsi148_dma_start_def assms(6))
  have run: "fst r \<noteq> c" if "r \<in> set run" for r using assms(3) that by blast
  have cong: "run_ok ?s r = run_ok s r \<and> run_descs ?s r = run_descs s r \<and> run_pins ?s r = run_pins s r" if "r \<in> set run" for r
    by (rule run_cong) (rule oth(1) [OF run [OF that]])
  have m: "map (run_descs ?s) run = map (run_descs s) run" "map (run_pins ?s) run = map (run_pins s) run" using cong by auto
  have new: "run_ok ?s (c, d, u)" "run_descs ?s (c, d, u) = mset new" "run_pins ?s (c, d, u) = (if u then mset (map sg_page sgl) else {#})"
    using p a s2 assms(2) by (auto simp: run_ok_def run_descs_def run_pins_def tsi148_dma_start_def)
  have old: "\<forall>r \<in> set run. run_ok ?s r" using cong inv by blast
  have idle: "\<forall>b<2. b \<notin> fst ` set ((c, d, u) # run) \<longrightarrow> C_busy (channel_at b ?s) = 0 \<and> hw_desc_list (channel_at b ?s) = []"
    using inv oth(1) by auto
  have "length (channels ?s) = 2 \<and> length (dma_regs ?s) = 2 \<and> \<not> dma_lock ?s"
    "dma_semaphore ?s + length ((c, d, u) # run) = 2" "distinct (pool_live ?s)"
    "sgl_blocks ?s = length ((c, d, u) # run) \<and> sg_maps ?s = length ((c, d, u) # run)"
    using inv a p s2 assms(4) by (simp_all add: tsi148_dma_start_def Int_commute)
  moreover have "mset (pool_live ?s) = sum_list (map (run_descs ?s) ((c, d, u) # run))"
    using inv p(5) s2(1) unfolding list.map sum_list.Cons m new(2) by (simp add: tsi148_dma_start_def)
  moreover have "mset (pinned ?s) = sum_list (map (run_pins ?s) ((c, d, u) # run))"
    using inv p(10) s2(2) unfolding list.map sum_list.Cons m new(3) by (simp add: tsi148_dma_start_def)
  ultimately show "dma_inv ((c, d, u) # run) ?s"
    using inv new(1) old idle assms(3) by (simp add: dma_inv_def)
  show "dma_kept run s ?s"
    using oth run a s2(1,9) by (auto simp: dma_kept_def tsi148_dma_start_def)
qed

lemma dma_inv_undo:
  assumes "dma_inv run s" "c < 2" "c \<notin> fst ` set run" "0 < dma_semaphore s"
    "undone c s2 s3" "s2 = upd_channel c (\<lambda>h. h\<lparr>C_busy := 1, C_desc := d\<rparr>) (s\<lparr>dma_semaphore := dma_semaphore s - 1, dma_disable := v\<rparr>)"
    "vme_dma_channel_release c s3 = r"
  obtains s4 where "r = Inr s4" "dma_inv run s4" "dma_kept run s s4"
proof -
  note inv = assms(1) [unfolded dma_inv_def]
  have lc: "c < length (channels s)" using inv assms(2) by simp
  note u = assms(5) [unfolded undone_def same_accounts_def]
  let ?s4 = "upd_channel c (\<lambda>h. h\<lparr>C_busy := 0\<rparr>) (s3\<lparr>dma_semaphore := dma_semaphore s3 + 1\<rparr>)"
  have "\<not> dma_lock s3" using inv u by (simp add: assms(6))
  then have r: "r = Inr ?s4" using release_ok assms(7) by simp
  have oth: "channel_at b ?s4 = channel_at b s" "dma_regs ?s4 ! b = dma_regs s ! b" if "b \<noteq> c" for b
    using u that by (simp_all add: assms(6))
  have own: "C_busy (channel_at c ?s4) = 0" "hw_desc_list (channel_at c ?s4) = []"
    using u lc by (simp_all add: assms(6))
  have run: "\<forall>b \<in> fst ` set run. b \<noteq> c" using assms(3) by blast
  have "dma_inv run ?s4"
  proof (rule dma_inv_same [OF assms(1)])
    show "\<forall>b \<in> fst ` set run. channel_at b ?s4 = channel_at b s" using run oth(1) by blast
    show "\<forall>b<2. b \<notin> fst ` set run \<longrightarrow> C_busy (channel_at b ?s4) = 0 \<and> hw_desc_list (channel_at b ?s4) = []"
    proof (intro allI impI)
      fix b :: nat assume "b < 2" "b \<notin> fst ` set run"
      then show "C_busy (channel_at b ?s4) = 0 \<and> hw_desc_list (channel_at b ?s4) = []" using own oth(1) inv by (cases "b = c") auto
    qed
  qed (use u assms(4) in \<open>simp_all add: assms(6)\<close>)
  moreover have "dma_kept run s ?s4" using run oth u by (auto simp: dma_kept_def assms(6))
  ultimately show thesis using that r by blast
qed

lemma mset_fold_remove1: "mset (fold remove1 xs l) = mset l - mset xs"
  by (induction xs arbitrary: l) simp_all

lemma distinct_fold_remove1: "distinct l \<Longrightarrow> distinct (fold remove1 xs l)"
  by (induction xs arbitrary: l) (simp_all add: distinct_remove1)

lemma run_unique: "distinct (map fst run) \<Longrightarrow> (c, d, u) \<in> set run \<Longrightarrow> r \<in> set (remove1 (c, d, u) run) \<Longrightarrow> fst r \<noteq> c"
proof
  assume d: "distinct (map fst run)" and c: "(c, d, u) \<in> set run" and r: "r \<in> set (remove1 (c, d, u) run)" and eq: "fst r = c"
  have "inj_on fst (set run)" "distinct run" using d by (simp_all add: distinct_map)
  moreover from this r have "r \<in> set run" "r \<noteq> (c, d, u)" by simp_all
  ultimately show False using inj_onD [of fst "set run" r "(c, d, u)"] c eq by simp
qed

text \<open>A transfer that is over: what it held is taken off the accounts.\<close>

lemma dma_inv_drop:
  assumes "dma_inv run s" "(c, d, u) \<in> set run" "C_sgl (channel_at c s) = Some sgl"
    "length (channels s') = length (channels s)" "length (dma_regs s') = length (dma_regs s)"
    "\<And>b. b \<noteq> c \<Longrightarrow> channel_at b s' = channel_at b s" "C_busy (channel_at c s') = 0" "hw_desc_list (channel_at c s') = []"
    "dma_lock s' = dma_lock s" "dma_semaphore s' = dma_semaphore s + 1" "pool_live s' = fold remove1 (hw_desc_list (channel_at c s)) (pool_live s)"
    "pinned s' = (if u then fold remove1 (map sg_page sgl) (pinned s) else pinned s)" "sgl_blocks s' = sgl_blocks s - 1" "sg_maps s' = sg_maps s - 1"
  shows "dma_inv (remove1 (c, d, u) run) s'"
proof -
  note inv = assms(1) [unfolded dma_inv_def]
  let ?run = "remove1 (c, d, u) run"
  have dist: "distinct run" "distinct (map fst ?run)"
    using inv by (auto simp: distinct_map distinct_remove1 inj_on_def dest: in_set_remove1 [THEN iffD1])
  have set_run: "set ?run = set run - {(c, d, u)}" using dist(1) by simp
  have other: "fst r \<noteq> c" if "r \<in> set ?run" for r
    using run_unique [OF _ assms(2) that] inv by blast
  have fst_run: "fst ` set run = insert c (fst ` set ?run)" unfolding set_run using assms(2) by force
  have cong: "run_ok s' r = run_ok s r \<and> run_descs s' r = run_descs s r \<and> run_pins s' r = run_pins s r" if "r \<in> set ?run" for r
    by (rule run_cong) (rule assms(6) [OF other [OF that]])
  have m: "map (run_descs s') ?run = map (run_descs s) ?run" "map (run_pins s') ?run = map (run_pins s) ?run" using cong by auto
  have len: "length run = Suc (length ?run)" using assms(2) length_pos_if_in_set [OF assms(2)] by (simp add: length_remove1)
  have "mset (pool_live s) = run_descs s (c, d, u) + sum_list (map (run_descs s) ?run)"
    using inv sum_list_map_remove1 [OF assms(2), of "run_descs s"] by simp
  then have live: "mset (pool_live s') = sum_list (map (run_descs s') ?run)"
    unfolding assms(11) mset_fold_remove1 m by (simp add: run_descs_def)
  have "mset (pinned s) = run_pins s (c, d, u) + sum_list (map (run_pins s) ?run)"
    using inv sum_list_map_remove1 [OF assms(2), of "run_pins s"] by simp
  then have pins: "mset (pinned s') = sum_list (map (run_pins s') ?run)"
    unfolding assms(12) m using assms(3) by (simp add: run_pins_def mset_fold_remove1)
  have idle: "\<forall>b<2. b \<notin> fst ` set ?run \<longrightarrow> C_busy (channel_at b s') = 0 \<and> hw_desc_list (channel_at b s') = []"
  proof (intro allI impI)
    fix b :: nat assume b: "b < 2" "b \<notin> fst ` set ?run"
    show "C_busy (channel_at b s') = 0 \<and> hw_desc_list (channel_at b s') = []"
    proof (cases "b = c")
      case False
      then have "b \<notin> fst ` set run" using b(2) unfolding fst_run by simp
      then show ?thesis using inv b(1) assms(6) [OF False] by simp
    qed (simp add: assms(7,8))
  qed
  have ok: "\<forall>r \<in> set ?run. run_ok s' r" using cong inv unfolding set_run by blast
  have dl: "distinct (pool_live s')" unfolding assms(11) by (rule distinct_fold_remove1) (use inv in simp)
  have "dma_semaphore s' + length ?run = 2" "sgl_blocks s' = length ?run" "sg_maps s' = length ?run"
    using inv len assms(10,13,14) by simp_all
  then show ?thesis
    using inv assms(4,5,9) dist(2) live pins idle ok dl unfolding dma_inv_def by simp
qed

lemma begin_cases:
  assumes "dma_inv run s" "pool_ok k" "do_dma_begin k d u s = r"
  obtains (blocked) "r = Inl Blocked" "length run = 2"
  | (fault) e where "r = Inl e" "e = Bug_on \<or> e = Endless \<or> e = Uninitialised"
  | (error) e s' where "r = Inr (Inl e, s')" "e \<in> {EINVAL, EBUSY, EINTR, ENOMEM}" "dma_inv run s'" "dma_kept run s s'"
  | (start) c s' where "r = Inr (Inr c, s')" "c \<notin> fst ` set run" "dma_inv ((c, d, u) # run) s'" "dma_kept run s s'"
proof -
  have quiet: "dma_inv run (s\<lparr>dma_disable := v\<rparr>)" "dma_kept run s (s\<lparr>dma_disable := v\<rparr>)" for v
    using assms(1) by (auto intro!: dma_inv_same [OF assms(1)] simp: dma_kept_def) (simp add: dma_inv_def)+
  show thesis
  proof (cases "dma_check d")
    case False
    have "s = s\<lparr>dma_disable := dma_disable s\<rparr>" by simp
    then show thesis using False assms(3) error [of EINVAL s] quiet [of "dma_disable s"] by (simp add: do_dma_begin_def)
  next
    case chk: True
    show thesis
    proof (rule acquire_cases [OF assms(1) refl, of k])
      assume "vme_dma_channel_acquire k s = Inl Blocked" "length run = 2"
      then show thesis using blocked chk assms(3) by (simp add: do_dma_begin_def)
    next
      fix e v assume "vme_dma_channel_acquire k s = Inr (Inl e, s\<lparr>dma_disable := v\<rparr>)" "e = EBUSY \<or> e = EINTR"
      then show thesis using error [of e "s\<lparr>dma_disable := v\<rparr>"] chk assms(3) quiet by (auto simp: do_dma_begin_def)
    next
      fix c
      let ?s1 = "s\<lparr>dma_semaphore := dma_semaphore s - 1, dma_disable := False\<rparr>"
      let ?s2 = "upd_channel c (\<lambda>h. h\<lparr>C_busy := 1, C_desc := d\<rparr>) ?s1"
      assume got: "vme_dma_channel_acquire k s = Inr (Inr c, upd_channel c (\<lambda>h. h\<lparr>C_busy := 1\<rparr>) ?s1)"
        "c < 2" "c \<notin> fst ` set run" "0 < dma_semaphore s"
      have lc: "c < length (channels s)" using assms(1) got(2) by (simp add: dma_inv_def)
      have ch: "c < length (channels ?s2)" "hw_desc_list (channel_at c ?s2) = []" "C_desc (channel_at c ?s2) = d"
        using lc assms(1) got(2,3) by (simp_all add: dma_inv_def)
      have d: "dma_dir_ok (C_desc (channel_at c ?s2))" "dma_nr_pages (C_desc (channel_at c ?s2)) \<noteq> 0"
        using chk dma_pages_pos ch(3) by (auto simp: dma_check_def dma_dir_ok_def)
      have st: "r = bind_r (vme_dma_setup k c u ?s2) (\<lambda>(rc, s2).
          case rc of Some e \<Rightarrow> bind_r (vme_dma_channel_release c s2) (\<lambda>s3. Inr (Inl e, s3)) | None \<Rightarrow> Inr (Inr c, tsi148_dma_start c s2))"
        using assms(3) chk got(1) by (simp add: do_dma_begin_def upd_channel_twice)
      show thesis
      proof (cases "vme_dma_setup k c u ?s2")
        case (Inl e)
        then show thesis using fault dma_setup_fault [OF Inl] st by simp
      next
        case (Inr q)
        obtain rc s3 where q: "q = (rc, s3)" by fastforce
        note post = dma_setup_cases [OF Inr [unfolded q] assms(2) ch(1,2) d]
        show thesis
        proof (cases rc)
          case None
          then have "prepared c u ?s2 s3" using post by simp
          from dma_inv_add [OF assms(1) got(2-4) this refl] show thesis using start [OF _ got(3)] st Inr q None by simp
        next
          case (Some e)
          then have u: "undone c ?s2 s3" "e = EINVAL \<or> e = ENOMEM" using post by simp_all
          obtain s4 where s4: "vme_dma_channel_release c s3 = Inr s4" "dma_inv run s4" "dma_kept run s s4"
            by (rule dma_inv_undo [OF assms(1) got(2-4) u(1) refl refl])
          have "r = Inr (Inl e, s4)" using st Inr q Some s4(1) by simp
          then show thesis by (rule error) (use s4 u(2) in auto)
        qed
      qed
    qed
  qed
qed

lemma release_chain: "C_chained (channel_at c s) = 1 \<Longrightarrow> tsi148_dma_release c s = tsi148_dma_free_chain c s"
  by (simp add: tsi148_dma_release_def)

text \<open>A transfer under way can end: all it held is given back.\<close>

lemma end_cases:
  assumes "dma_inv run s" "(c, d, u) \<in> set run" "do_dma_end k d u c s = r"
  obtains (blocked) "r = Inl Blocked" "tsi148_dma_busy c s" "\<not> wait_signal k"
  | (over) rc st s' where "r = Inr ((rc, d\<lparr>dm_status := st\<rparr>), s')" "rc = (if tsi148_dma_busy c s then Some ERESTARTSYS else None)"
      "st = (if tsi148_dma_busy c s then aborted_status k else tsi148_dma_get_status c s)"
      "dma_inv (remove1 (c, d, u) run) s'" "dma_kept (remove1 (c, d, u) run) s s'" "pool_mem s' = pool_mem s" "dma_disable s' = dma_disable s"
      "\<forall>b. b \<noteq> c \<longrightarrow> tsi148_dma_get_status b s' = tsi148_dma_get_status b s"
proof (cases "tsi148_dma_busy c s \<and> \<not> wait_signal k")
  case True
  then show thesis using blocked assms(3) by (simp add: do_dma_end_def)
next
  case nb: False
  note inv = assms(1) [unfolded dma_inv_def]
  have ok: "c < 2" "C_chained (channel_at c s) = 1" "C_sgl (channel_at c s) \<noteq> None" "run_ok s (c, d, u)"
    using inv assms(2) by (auto simp: run_ok_def)
  obtain sgl where sgl: "C_sgl (channel_at c s) = Some sgl" using ok(3) by blast
  have lc: "c < length (channels s)" "c < length (dma_regs s)" using inv ok(1) by simp_all
  let ?run = "remove1 (c, d, u) run"
  let ?busy = "tsi148_dma_busy c s"
  let ?s1 = "if ?busy then set_status c (aborted_status k) (tsi148_dma_abort c s) else s"
  let ?hw = "hw_desc_list (channel_at c s)"
  let ?st = "if ?busy then aborted_status k else tsi148_dma_get_status c s"
  have s1: "channel_at b ?s1 = channel_at b s" "pool_live ?s1 = pool_live s" "pinned ?s1 = pinned s" "sg_maps ?s1 = sg_maps s" "sgl_blocks ?s1 = sgl_blocks s"
    "dma_semaphore ?s1 = dma_semaphore s" "dma_lock ?s1 = dma_lock s" "channels ?s1 = channels s" "pool_mem ?s1 = pool_mem s" "dma_disable ?s1 = dma_disable s"
    "length (dma_regs ?s1) = length (dma_regs s)" "b \<noteq> c \<Longrightarrow> dma_regs ?s1 ! b = dma_regs s ! b" "tsi148_dma_get_status c ?s1 = ?st" for b
    using lc by (simp_all add: set_status_def tsi148_dma_abort_def tsi148_dma_get_status_def)
  define s1 where "s1 = ?s1"
  note s1 = s1 [folded s1_def]
  have free: "tsi148_dma_release c s1 = upd_channel c (\<lambda>h. h\<lparr>hw_desc_list := []\<rparr>) (s1\<lparr>pool_live := fold remove1 ?hw (pool_live s)\<rparr>)" (is "_ = ?s2")
    using ok(2) s1(1,2) by (simp add: release_chain tsi148_dma_free_chain_def)
  have "C_sgl (channel_at c ?s2) = Some sgl" using sgl s1(1) lc s1(8) by simp
  then have drop: "drop_buffer c u ?s2 = Inr (?s2\<lparr>sg_maps := sg_maps s - 1,
      pinned := (if u then fold remove1 (map sg_page sgl) (pinned s) else pinned s), sgl_blocks := sgl_blocks s - 1\<rparr>)" (is "_ = Inr ?s3")
    using s1(3,4,5) by (simp add: drop_buffer_def sgl_unmap_user_pages_def kfree_sgl_def upd_channel_def)
  have rel: "vme_dma_channel_release c ?s3 = Inr (upd_channel c (\<lambda>h. h\<lparr>C_busy := 0\<rparr>) (?s3\<lparr>dma_semaphore := dma_semaphore s + 1\<rparr>))"
    using release_ok [of ?s3 c] inv s1(6,7) by simp
  have end_state: "upd_channel c (\<lambda>h. h\<lparr>C_busy := 0\<rparr>) (?s3\<lparr>dma_semaphore := dma_semaphore s + 1\<rparr>) = upd_channel c (\<lambda>h. h\<lparr>hw_desc_list := [], C_busy := 0\<rparr>)
      (s1\<lparr>pool_live := fold remove1 ?hw (pool_live s), sg_maps := sg_maps s - 1, pinned := (if u then fold remove1 (map sg_page sgl) (pinned s) else pinned s),
         sgl_blocks := sgl_blocks s - 1, dma_semaphore := dma_semaphore s + 1\<rparr>)" (is "_ = ?s'")
    using lc(1) s1(8) by (simp add: upd_channel_def)
  have r: "r = Inr ((if ?busy then Some ERESTARTSYS else None, d\<lparr>dm_status := ?st\<rparr>), ?s')"
  proof -
    have "r = bind_r (drop_buffer c u (tsi148_dma_release c s1)) (\<lambda>s2. bind_r (vme_dma_channel_release c s2) (\<lambda>s3.
        Inr ((if ?busy then Some ERESTARTSYS else None, d\<lparr>dm_status := ?st\<rparr>), s3)))"
      using assms(3) nb s1(13) by (auto simp: do_dma_end_def Let_def s1_def)
    then show ?thesis unfolding free drop bind_r_simps rel end_state .
  qed
  have rest: "channel_at b ?s' = channel_at b s" "b \<noteq> c \<Longrightarrow> dma_regs ?s' ! b = dma_regs s ! b" if "b \<noteq> c" for b
    using s1(1,12) that by simp_all
  have inv': "dma_inv ?run ?s'"
  proof (rule dma_inv_drop [OF assms(1,2) sgl])
    show "length (channels ?s') = length (channels s)" "length (dma_regs ?s') = length (dma_regs s)" using s1(8,11) by simp_all
    show "C_busy (channel_at c ?s') = 0" "hw_desc_list (channel_at c ?s') = []" using lc(1) s1(8) by simp_all
    show "channel_at b ?s' = channel_at b s" if "b \<noteq> c" for b by (rule rest(1) [OF that])
  qed (simp_all add: s1(7))
  have other: "b \<noteq> c" if "b \<in> fst ` set ?run" for b
    using run_unique [OF _ assms(2)] inv that by blast
  have mem: "pool_mem ?s' = pool_mem s" by (simp add: s1(9))
  have "dma_kept ?run s ?s'" unfolding dma_kept_def mem using other rest by blast
  then show thesis
    using over [OF r refl refl inv'] s1(9,10) rest(2) by (simp add: tsi148_dma_get_status_def)
qed

section \<open>Reachable states\<close>

text \<open>
  The steps: a process begins a transfer or is refused, one ends (done or interrupted), the chip
  changes a status register, and the module is unloaded.
\<close>

inductive dma_step :: "dma_run list \<times> dma_state \<Rightarrow> dma_run list \<times> dma_state \<Rightarrow> bool" where
  begins: "pool_ok k \<Longrightarrow> do_dma_begin k d u s = Inr (Inr c, s') \<Longrightarrow> dma_step (run, s) ((c, d, u) # run, s')"
| refused: "pool_ok k \<Longrightarrow> do_dma_begin k d u s = Inr (Inl e, s') \<Longrightarrow> dma_step (run, s) (run, s')"
| ends: "(c, d, u) \<in> set run \<Longrightarrow> do_dma_end k d u c s = Inr (r, s') \<Longrightarrow> dma_step (run, s) (remove1 (c, d, u) run, s')"
| status: "dma_step (run, s) (run, set_status c v s)"
| unloads: "vme_dma_exit s = Inr s' \<Longrightarrow> dma_step (run, s) (run, s')"

inductive_cases dma_stepE: "dma_step (run, s) (run', s')"

lemmas dma_step_cases [consumes 1, case_names begins refused ends status unloads] = dma_stepE

text \<open>The module's memory before it is loaded: two channels, nothing held.\<close>

definition fresh_dma :: "dma_state \<Rightarrow> bool" where
  "fresh_dma s \<longleftrightarrow> length (channels s) = TSI148_NUM_DMA_CHANNELS \<and> length (dma_regs s) = TSI148_NUM_DMA_CHANNELS \<and>
     list_all (\<lambda>h. C_busy h = 0) (channels s) \<and> pool_live s = [] \<and> pinned s = [] \<and> sgl_blocks s = 0 \<and> sg_maps s = 0"

inductive dma_reach :: "dma_run list \<Rightarrow> dma_state \<Rightarrow> bool" where
  loaded: "fresh_dma s \<Longrightarrow> vme_dma_init True s = (None, s') \<Longrightarrow> dma_reach [] s'"
| stepped: "dma_reach run s \<Longrightarrow> dma_step (run, s) (run', s') \<Longrightarrow> dma_reach run' s'"

lemma init_inv: "fresh_dma s \<Longrightarrow> vme_dma_init True s = (None, s') \<Longrightarrow> dma_inv [] s'"
  by (auto simp: fresh_dma_def vme_dma_init_def dma_inv_def channel_at_def list_all_length TSI148_NUM_DMA_CHANNELS_def)

lemma status_sel [simp]:
  "channels (set_status c v s) = channels s" "channel_at b (set_status c v s) = channel_at b s"
  "dma_semaphore (set_status c v s) = dma_semaphore s" "dma_lock (set_status c v s) = dma_lock s"
  "pool_live (set_status c v s) = pool_live s" "pool_mem (set_status c v s) = pool_mem s" "pinned (set_status c v s) = pinned s"
  "sgl_blocks (set_status c v s) = sgl_blocks s" "sg_maps (set_status c v s) = sg_maps s"
  "length (dma_regs (set_status c v s)) = length (dma_regs s)"
  by (simp_all add: set_status_def channel_at_def)

lemma status_dnlal [simp]: "R_dnlal (dma_regs (set_status c v s) ! b) = R_dnlal (dma_regs s ! b)"
  by (cases "b = c"; cases "c < length (dma_regs s)") (simp_all add: set_status_def list_update_beyond)

lemma write_dctl_dnlal [simp]: "R_dnlal (dma_regs (dma_write c DCTL v s) ! b) = R_dnlal (dma_regs s ! b)"
  by (cases "b = c"; cases "c < length (dma_regs s)") (simp_all add: dma_write_def put_dreg_def list_update_beyond)

text \<open>Unloading touches the control registers and a flag; it waits only while both channels are taken.\<close>

definition exit_state :: "dma_state \<Rightarrow> dma_state" where
  "exit_state s = (fold tsi148_dma_abort [0 ..< TSI148_NUM_DMA_CHANNELS] (s\<lparr>dma_disable := True\<rparr>))\<lparr>pool_destroyed := True\<rparr>"

lemma exit_cases: "vme_dma_exit s = (if dma_semaphore s = 0 then Inl Blocked else Inr (exit_state s))"
  by (simp add: vme_dma_exit_def exit_state_def TSI148_NUM_DMA_CHANNELS_def numeral_2_eq_2 down_up_def tsi148_dma_abort_def)

lemma exit_sel:
  "channels (exit_state s) = channels s" "channel_at b (exit_state s) = channel_at b s" "dma_semaphore (exit_state s) = dma_semaphore s"
  "dma_lock (exit_state s) = dma_lock s" "pool_live (exit_state s) = pool_live s" "pool_mem (exit_state s) = pool_mem s"
  "pinned (exit_state s) = pinned s" "sgl_blocks (exit_state s) = sgl_blocks s" "sg_maps (exit_state s) = sg_maps s"
  "length (dma_regs (exit_state s)) = length (dma_regs s)" "pool_destroyed (exit_state s)" "dma_disable (exit_state s)"
  "R_dnlal (dma_regs (exit_state s) ! b) = R_dnlal (dma_regs s ! b)"
  by (simp_all add: exit_state_def TSI148_NUM_DMA_CHANNELS_def numeral_2_eq_2 tsi148_dma_abort_def channel_at_def)

lemma dma_inv_frame:
  assumes "dma_inv run s" "channels s' = channels s" "length (dma_regs s') = length (dma_regs s)"
    "dma_lock s' = dma_lock s" "dma_semaphore s' = dma_semaphore s" "pool_live s' = pool_live s" "pinned s' = pinned s"
    "sgl_blocks s' = sgl_blocks s" "sg_maps s' = sg_maps s"
  shows "dma_inv run s'"
proof -
  have "channel_at b s' = channel_at b s" for b by (simp add: channel_at_def assms(2))
  then show ?thesis using assms by (intro dma_inv_same [OF assms(1)]) (auto simp: dma_inv_def)
qed

lemma step_inv:
  assumes "dma_inv run s" "dma_step (run, s) (run', s')"
  shows "dma_inv run' s'"
  using assms(2)
proof (cases rule: dma_step_cases)
  case (begins k d u c)
  then show ?thesis using begin_cases [OF assms(1) begins(2,3)] by auto
next
  case (refused k d u e)
  then show ?thesis using begin_cases [OF assms(1) refused(2,3)] by auto
next
  case (ends c d u k r)
  then show ?thesis using end_cases [OF assms(1) ends(2,3)] by auto
next
  case (status c v)
  then have "dma_inv run s'" by (intro dma_inv_frame [OF assms(1)]) simp_all
  then show ?thesis using status by simp
next
  case unloads
  then have e: "s' = exit_state s" "run' = run" by (auto simp: exit_cases split: if_splits)
  show ?thesis unfolding e by (intro dma_inv_frame [OF assms(1)]) (simp_all add: exit_sel)
qed

lemma reach_inv: "dma_reach run s \<Longrightarrow> dma_inv run s"
  by (induction rule: dma_reach.induct) (blast intro: init_inv step_inv)+

text \<open>A step leaves the transfers that go on as they were: their channels and their chains.\<close>

definition undisturbed :: "dma_run \<Rightarrow> dma_state \<Rightarrow> dma_state \<Rightarrow> bool" where
  "undisturbed r s s' \<longleftrightarrow> (let c = fst r in
     channel_at c s' = channel_at c s \<and> R_dnlal (dma_regs s' ! c) = R_dnlal (dma_regs s ! c) \<and>
     (\<forall>y \<in> set (hw_desc_list (channel_at c s)). pool_mem s' y = pool_mem s y))"

lemma run_live:
  assumes "dma_inv run s" "r \<in> set run"
  shows "set (hw_desc_list (channel_at (fst r) s)) \<subseteq> set (pool_live s)"
proof -
  have "run_descs s r \<subseteq># sum_list (map (run_descs s) run)"
    using sum_list_map_remove1 [OF assms(2), of "run_descs s"] by simp
  then have "mset (hw_desc_list (channel_at (fst r) s)) \<subseteq># mset (pool_live s)"
    using assms(1) by (cases r) (simp add: dma_inv_def run_descs_def)
  then show ?thesis by (metis set_mset_mono set_mset_mset)
qed

lemma kept_undisturbed: "dma_inv run s \<Longrightarrow> r \<in> set run \<Longrightarrow> dma_kept run' s s' \<Longrightarrow> r \<in> set run' \<Longrightarrow> undisturbed r s s'"
  using run_live [of run s r] by (fastforce simp: dma_kept_def undisturbed_def)

lemma step_undisturbed:
  assumes "dma_inv run s" "dma_step (run, s) (run', s')" "r \<in> set run" "r \<in> set run'"
  shows "undisturbed r s s'"
  using assms(2)
proof (cases rule: dma_step_cases)
  case (begins k d u c)
  then have "dma_kept run s s'" using begin_cases [OF assms(1) begins(2,3)] by auto
  then show ?thesis using kept_undisturbed assms(1,3) by blast
next
  case (refused k d u e)
  then have "dma_kept run s s'" using begin_cases [OF assms(1) refused(2,3)] by auto
  then show ?thesis using kept_undisturbed assms(1,3) by blast
next
  case (ends c d u k r')
  then have "dma_kept run' s s'" using end_cases [OF assms(1) ends(2,3)] by auto
  then show ?thesis using kept_undisturbed [OF assms(1,3)] assms(4) by blast
next
  case (status c v)
  then show ?thesis by (simp add: undisturbed_def Let_def)
next
  case unloads
  then have "s' = exit_state s" by (simp add: exit_cases split: if_splits)
  then show ?thesis by (simp add: undisturbed_def Let_def exit_sel)
qed

section \<open>Every transfer ends\<close>

text \<open>The ends of several transfers, one after the other.\<close>

definition end_all :: "dkernel \<Rightarrow> dma_run list \<Rightarrow> dma_state \<Rightarrow> dma_state result" where
  "end_all k = fold_r (\<lambda>(c, d, u) s. bind_r (do_dma_end k d u c s) (\<lambda>(_, s'). Inr s'))"

lemma end_all_ok:
  assumes "dma_inv run s" "mset order = mset run" "wait_signal k \<or> (\<forall>r \<in> set run. \<not> tsi148_dma_busy (fst r) s)"
  shows "\<exists>s'. end_all k order s = Inr s' \<and> dma_inv [] s'"
  using assms
proof (induction order arbitrary: run s)
  case Nil
  then show ?case by (simp add: end_all_def)
next
  case (Cons r order)
  obtain c d u where r: "r = (c, d, u)" by (cases r)
  have mem: "(c, d, u) \<in> set run" using Cons.prems(2) by (metis list.set_intros(1) mset_eq_setD r)
  have rest: "mset order = mset (remove1 (c, d, u) run)" using Cons.prems(2) by (simp add: r flip: Cons.prems(2))
  show ?case
  proof (rule end_cases [OF Cons.prems(1) mem refl, of k])
    assume "tsi148_dma_busy c s" "\<not> wait_signal k"
    then show ?thesis using Cons.prems(3) mem by fastforce
  next
    fix rc st s1
    assume e: "do_dma_end k d u c s = Inr ((rc, d\<lparr>dm_status := st\<rparr>), s1)" "dma_inv (remove1 (c, d, u) run) s1"
      "rc = (if tsi148_dma_busy c s then Some ERESTARTSYS else None)"
      "st = (if tsi148_dma_busy c s then aborted_status k else tsi148_dma_get_status c s)"
      "\<forall>b. b \<noteq> c \<longrightarrow> tsi148_dma_get_status b s1 = tsi148_dma_get_status b s"
    have "\<not> tsi148_dma_busy (fst q) s1" if "\<not> wait_signal k" "q \<in> set (remove1 (c, d, u) run)" for q
    proof -
      have "fst q \<noteq> c" using run_unique [OF _ mem that(2)] Cons.prems(1) by (simp add: dma_inv_def)
      moreover have "q \<in> set run" using that(2) notin_set_remove1 by metis
      ultimately show ?thesis using e(5) Cons.prems(3) that(1) by (simp add: tsi148_dma_busy_def)
    qed
    then show ?thesis using Cons.IH [OF e(2) rest] e(1) by (simp add: end_all_def r) blast
  qed
qed

section \<open>A machine to try the model on\<close>

text \<open>
  Pages follow one another in physical memory, the bus sees physical addresses, and the pool has
  sixteen descriptors.
\<close>

definition try_pool :: "u32 list" where
  "try_pool = map (\<lambda>i. 0x1000 + 64 * of_nat i) [0 ..< 16]"

definition try_kernel :: dkernel where
  "try_kernel = \<lparr>sgl_ok = True, pages_ok = True,
     get_user_pages = (\<lambda>a n w. Inr (map (\<lambda>i. drop_bit 12 a + of_nat i) [0 ..< n])), virt_addr_valid = (\<lambda>a. True),
     virt_to_page = (\<lambda>a. drop_bit 12 a), map_sg = map (\<lambda>e. (sg_page e * 0x1000 + sg_offset e, sg_length e)),
     pool_alloc = (\<lambda>l. find (\<lambda>a. a \<notin> set l) try_pool), entry_ok = (\<lambda>l. True), sem_signal = False, exit_meanwhile = False,
     wait_signal = False, aborted_status = 0x8000000, dma_copy_in = True, dma_copy_out = True\<rparr>"

definition no_attr :: vme_dma_attr where
  "no_attr = \<lparr>at_width = 0, at_am = 0, at_sst = 0, at_bcast = 0, at_addru = 0, at_addrl = 0\<rparr>"

text \<open>0x1200 bytes from VME address 0x10000100 (MBLT, 32 bits) to the buffer at 0x20000f00.\<close>

definition try_dma :: vme_dma where
  "try_dma = \<lparr>dm_status = 0, dm_length = 0x1200, dm_novmeinc = 0, dm_dir = VME_DMA_FROM_DEVICE,
     dm_src = \<lparr>at_width = VME_D32, at_am = VME_A32_USER_MBLT, at_sst = VME_SST160, at_bcast = 0, at_addru = 0, at_addrl = 0x10000100\<rparr>,
     dm_dst = no_attr\<lparr>at_addrl := 0x20000f00\<rparr>,
     dm_ctrl = \<lparr>vme_block_size = 7, vme_backoff_time = 0, pci_block_size = 7, pci_backoff_time = 0\<rparr>\<rparr>"

definition no_desc :: tsi148_dma_desc where
  "no_desc = \<lparr>dsau = 0, dsal = 0, ddau = 0, ddal = 0, dsat = 0, ddat = 0, dnlau = 0, dnlal = 0, dcnt = 0, ddbs = 0\<rparr>"

definition try_start :: dma_state where
  "try_start = \<lparr>channels = replicate 2 \<lparr>C_busy = 0, C_desc = try_dma, C_chained = 0, C_sgl = None, C_sg_pages = 0, C_sg_mapped = [], hw_desc_list = []\<rparr>,
     dma_semaphore = 2, dma_lock = False, dma_disable = False, dma_regs = replicate 2 \<lparr>R_dctl = 0, R_dsta = 0, R_dnlau = 0, R_dnlal = 0\<rparr>,
     dma_trace = [], pool_mem = (\<lambda>a. no_desc), pool_live = [], pool_destroyed = False, pinned = [], sgl_blocks = 0, sg_maps = 0\<rparr>"

definition after_begin :: "dma_state \<Rightarrow> dma_state" where
  "after_begin s = (case do_dma_begin try_kernel try_dma True s of Inl e \<Rightarrow> s | Inr (r, s') \<Rightarrow> s')"

lemma try_pool_ok: "pool_ok try_kernel"
proof -
  have "\<forall>a \<in> set try_pool. a AND 7 = 0" by code_simp
  then show ?thesis by (auto simp: pool_ok_def try_kernel_def find_Some_iff)
qed

lemma try_reach: "dma_reach [] try_start"
proof -
  have "fresh_dma try_start" by (simp add: fresh_dma_def try_start_def TSI148_NUM_DMA_CHANNELS_def numeral_2_eq_2)
  then show ?thesis by (rule dma_reach.loaded) (simp add: vme_dma_init_def try_start_def TSI148_NUM_DMA_CHANNELS_def numeral_2_eq_2)
qed

lemma try_begins: "do_dma_begin try_kernel try_dma True try_start = Inr (Inr 0, after_begin try_start)"
proof -
  have "map_sum id fst (do_dma_begin try_kernel try_dma True try_start) = Inr (Inr 0)" by code_simp
  then show ?thesis by (auto simp: after_begin_def split: sum.splits prod.splits)
qed

lemma try_reach1: "dma_reach [(0, try_dma, True)] (after_begin try_start)"
  by (rule dma_reach.stepped [OF try_reach]) (rule dma_step.begins [OF try_pool_ok try_begins])

section \<open>Properties\<close>

text \<open>
  C4: Whatever transfers begin, fail, end or are interrupted, in whatever order, and whatever the
  chip reports: the semaphore counts the free channels, a channel is marked busy exactly while a
  transfer runs on it, no descriptor is in two chains, the descriptors taken from the pool and the
  pages pinned are exactly those of the transfers under way, and there is one scatter list and one
  bus mapping for each of them.
\<close>

theorem dma_accounts: "dma_reach run s \<Longrightarrow> dma_inv run s"
  by (rule reach_inv)

theorem dma_accounts_witness:
  "dma_inv [(0, try_dma, True)] (after_begin try_start) \<and> pool_live (after_begin try_start) \<noteq> []"
proof -
  have "pool_live (after_begin try_start) \<noteq> []" by code_simp
  then show ?thesis using dma_accounts [OF try_reach1] by blast
qed

lemma kept_sums:
  assumes "dma_kept run s s'"
  shows "map (run_descs s') run = map (run_descs s) run" "map (run_pins s') run = map (run_pins s) run"
proof -
  have "run_descs s' r = run_descs s r \<and> run_pins s' r = run_pins s r" if "r \<in> set run" for r
    using assms that run_cong [of r s' s] by (simp add: dma_kept_def)
  then show "map (run_descs s') run = map (run_descs s) run" "map (run_pins s') run = map (run_pins s) run" by auto
qed







text \<open>
  Unloading waits only while both channels are taken. With one transfer under way it goes
  through: the pool of descriptors is destroyed while the chip still walks through a chain in it,
  because the semaphore is taken and given back once per channel instead of being held.
\<close>

theorem exit_does_not_wait:
  assumes "dma_reach run s"
  shows "if length run = 2 then vme_dma_exit s = Inl Blocked
    else \<exists>s'. vme_dma_exit s = Inr s' \<and> pool_destroyed s' \<and> dma_inv run s' \<and> (\<forall>(c, d, u) \<in> set run. hw_desc_list (channel_at c s') \<noteq> [])"
proof -
  note inv = reach_inv [OF assms]
  show ?thesis
  proof (cases "length run = 2")
    case False
    then have s': "vme_dma_exit s = Inr (exit_state s)" using inv by (auto simp: exit_cases dma_inv_def)
    then have "dma_inv run (exit_state s)" using step_inv [OF inv dma_step.unloads] by blast
    then have "\<forall>(c, d, u) \<in> set run. hw_desc_list (channel_at c (exit_state s)) \<noteq> []" by (auto simp: dma_inv_def run_ok_def)
    then show ?thesis using False s' \<open>dma_inv run (exit_state s)\<close> exit_sel(11) by auto
  qed (use inv in \<open>auto simp: exit_cases dma_inv_def\<close>)
qed

theorem exit_does_not_wait_witness:
  "\<exists>s'. vme_dma_exit (after_begin try_start) = Inr s' \<and> pool_destroyed s' \<and> hw_desc_list (channel_at 0 s') \<noteq> []"
  using exit_does_not_wait [OF try_reach1] by auto

end
