(* ===== verification/Vme_Request.thy ===== *)
theory Vme_Request
  imports Vme_Sharing
begin

text \<open>
  A user's DMA request seen from the chip: the descriptors it reads after the driver's set-up are
  the reference cut of the buffer, and carrying them out exchanges the bytes of the buffer with
  those of the bus, in order. The requests that go wrong (the end of the address space, pages that
  cannot be pinned) are here too.
\<close>

section \<open>What a request leaves for the chip\<close>

lemma inner_setup_ok:
  assumes "pool_ok k" "c < length (channels s)" "hw_desc_list (channel_at c s) = []" "C_desc (channel_at c s) = d" "dma_dir_ok d"
    "dma_fits d (C_sg_mapped (channel_at c s))" "c < length (dma_regs s)"
  shows "\<exists>rc s'. tsi148_dma_setup k c s = Inr (rc, s') \<and>
     (rc = None \<longrightarrow> (\<exists>sat dat ctl. tsi148_dma_setup_src d = Some sat \<and> tsi148_dma_setup_dst d = Some dat \<and> tsi148_dma_setup_ctl d = Some ctl \<and>
        chain_at (desc_holds d sat dat) (pool_mem s') (hw_desc_list (channel_at c s')) (dma_blocks d (C_sg_mapped (channel_at c s))) None \<and>
        R_dctl (dma_regs s' ! c) = ctl AND NOT TSI148_LCSR_DCTL_MOD))"
proof (cases "tsi148_dma_setup_src d = None \<or> tsi148_dma_setup_dst d = None \<or> tsi148_dma_setup_ctl d = None")
  case True
  then show ?thesis by (auto simp: tsi148_dma_setup_def assms(4) split: option.splits)
next
  case False
  then obtain sat dat ctl where a: "tsi148_dma_setup_src d = Some sat" "tsi148_dma_setup_dst d = Some dat" "tsi148_dma_setup_ctl d = Some ctl" by auto
  let ?s1 = "dma_write c DCTL (ctl AND NOT TSI148_LCSR_DCTL_MOD) (upd_channel c (\<lambda>h. h\<lparr>C_chained := 1\<rparr>) s)"
  have eq: "tsi148_dma_setup k c s = tsi148_dma_setup_chain k c sat dat ?s1" by (simp add: tsi148_dma_setup_def a assms(4))
  have pre: "c < length (channels ?s1)" "hw_desc_list (channel_at c ?s1) = []" "C_desc (channel_at c ?s1) = d" "dma_fits d (C_sg_mapped (channel_at c ?s1))"
    using assms(2-4,6) by simp_all
  obtain rc s' where r: "tsi148_dma_setup_chain k c sat dat ?s1 = Inr (rc, s')"
    "rc = None \<longrightarrow> chain_at (desc_holds d sat dat) (pool_mem s') (hw_desc_list (channel_at c s')) (dma_blocks d (C_sg_mapped (channel_at c ?s1))) None"
    using setup_chain_ok [OF assms(1) pre(1-3) assms(5) pre(4), of sat dat] by blast
  have "R_dctl (dma_regs s' ! c) = ctl AND NOT TSI148_LCSR_DCTL_MOD" if none: "rc = None"
  proof -
    have dd: "dma_dir_ok (C_desc (channel_at c ?s1))" using assms(5) pre(3) by simp
    obtain new m where "s' = chain_regs c (hd new) (with_chain c new m ?s1)"
      using setup_chain_cases [OF r(1) assms(1) pre(1,2) dd] none by auto
    then show ?thesis using assms(7) by (simp add: chain_regs_def with_chain_sel put_dreg_def)
  qed
  then show ?thesis using r a eq assms(2) by auto
qed

text \<open>
  The chip has been told to start, in linked-list mode, and following the links it reads \<open>ds\<close>.
\<close>

definition programmed :: "nat \<Rightarrow> dma_state \<Rightarrow> tsi148_dma_desc list \<Rightarrow> bool" where
  "programmed c s ds \<longleftrightarrow> (let r = dma_regs s ! c in
     chip_walk (length ds) (pool_mem s) (R_dnlal r) = Some ds \<and> R_dnlau r = 0 \<and>
     R_dctl r AND TSI148_LCSR_DCTL_DGO \<noteq> 0 \<and> R_dctl r AND TSI148_LCSR_DCTL_MOD = 0)"

lemma dctl_bits:
  "((x AND NOT TSI148_LCSR_DCTL_MOD) OR TSI148_LCSR_DCTL_DGO) AND TSI148_LCSR_DCTL_DGO \<noteq> 0"
  "((x AND NOT TSI148_LCSR_DCTL_MOD) OR TSI148_LCSR_DCTL_DGO) AND TSI148_LCSR_DCTL_MOD = 0"
proof -
  have "TSI148_LCSR_DCTL_DGO AND TSI148_LCSR_DCTL_MOD = 0" "TSI148_LCSR_DCTL_DGO \<noteq> 0"
    by (simp_all add: TSI148_LCSR_DCTL_DGO_def TSI148_LCSR_DCTL_MOD_def)
  moreover have "(y OR g) AND g = g" "((y AND NOT m) OR g) AND m = g AND m" for y m g :: u32
    by (rule bit_word_eqI, auto simp: bit_simps)+
  ultimately show "((x AND NOT TSI148_LCSR_DCTL_MOD) OR TSI148_LCSR_DCTL_DGO) AND TSI148_LCSR_DCTL_DGO \<noteq> 0"
    "((x AND NOT TSI148_LCSR_DCTL_MOD) OR TSI148_LCSR_DCTL_DGO) AND TSI148_LCSR_DCTL_MOD = 0" by simp_all
qed

text \<open>The scatter list the bus sees for a user's buffer whose pages are \<open>ps\<close>.\<close>

definition dma_list :: "dkernel \<Rightarrow> vme_dma \<Rightarrow> u32 list \<Rightarrow> (u32 \<times> u32) list" where
  "dma_list k d ps = map_sg k (sg_fill ps (ucast (dma_uaddr d)) (dm_length d))"

definition gets_pages :: "dkernel \<Rightarrow> vme_dma \<Rightarrow> u32 list \<Rightarrow> bool" where
  "gets_pages k d ps \<longleftrightarrow> length ps = dma_nr_pages d \<and>
     get_user_pages k (ucast (dma_uaddr d)) (dma_nr_pages d) (dm_dir d = VME_DMA_FROM_DEVICE) = Inr ps"

lemma user_setup_ok:
  assumes "pool_ok k" "c < length (channels s)" "c < length (dma_regs s)" "hw_desc_list (channel_at c s) = []" "C_desc (channel_at c s) = d"
    "dma_check d" "gets_pages k d ps" "dma_fits d (dma_list k d ps)"
  shows "\<exists>rc s'. vme_dma_setup k c True s = Inr (rc, s') \<and>
     (rc = None \<longrightarrow> (\<exists>sat dat ctl. tsi148_dma_setup_src d = Some sat \<and> tsi148_dma_setup_dst d = Some dat \<and> tsi148_dma_setup_ctl d = Some ctl \<and>
        chain_at (desc_holds d sat dat) (pool_mem s') (hw_desc_list (channel_at c s')) (dma_blocks d (dma_list k d ps)) None \<and>
        R_dctl (dma_regs s' ! c) = ctl AND NOT TSI148_LCSR_DCTL_MOD))"
proof -
  let ?es = "sg_fill ps (ucast (dma_uaddr d)) (dm_length d)"
  let ?s1 = "s\<lparr>sgl_blocks := sgl_blocks s + 1, pinned := ps @ pinned s\<rparr>"
  let ?s2 = "upd_channel c (\<lambda>h. h\<lparr>C_sgl := Some ?es, C_sg_pages := dma_nr_pages d\<rparr>) ?s1"
  let ?t = "upd_channel c (\<lambda>h. h\<lparr>C_sg_mapped := map_sg k ?es\<rparr>) (?s2\<lparr>sg_maps := sg_maps ?s2 + 1\<rparr>)"
  have n: "dma_nr_pages d \<noteq> 0" by (rule dma_pages_pos [OF assms(6)])
  have dir: "dma_dir_ok d" using assms(6) by (auto simp: dma_check_def dma_dir_ok_def)
  have g: "sgl_map_user_pages k (dma_nr_pages d) (ucast (dma_uaddr d)) (dm_length d) (dm_dir d = VME_DMA_FROM_DEVICE) True (s\<lparr>sgl_blocks := sgl_blocks s + 1\<rparr>) =
      (if pages_ok k then (Inr (dma_nr_pages d, Some ?es), ?s1) else (Inl ENOMEM, s\<lparr>sgl_blocks := sgl_blocks s + 1\<rparr>))"
    using assms(7) by (simp add: sgl_map_user_pages_def get_pages_def gets_pages_def)
  have pre: "c < length (channels ?t)" "hw_desc_list (channel_at c ?t) = []" "C_desc (channel_at c ?t) = d" "C_sg_mapped (channel_at c ?t) = dma_list k d ps"
    "c < length (dma_regs ?t)" "C_sgl (channel_at c ?t) = Some ?es" "dma_dir_ok (C_desc (channel_at c ?t))"
    using assms(2-5) dir by (simp_all add: dma_list_def)
  obtain rc s3 where r: "tsi148_dma_setup k c ?t = Inr (rc, s3)"
    "rc = None \<longrightarrow> (\<exists>sat dat ctl. tsi148_dma_setup_src d = Some sat \<and> tsi148_dma_setup_dst d = Some dat \<and> tsi148_dma_setup_ctl d = Some ctl \<and>
        chain_at (desc_holds d sat dat) (pool_mem s3) (hw_desc_list (channel_at c s3)) (dma_blocks d (dma_list k d ps)) None \<and>
        R_dctl (dma_regs s3 ! c) = ctl AND NOT TSI148_LCSR_DCTL_MOD)"
    using inner_setup_ok [OF assms(1) pre(1-3) dir _ pre(5)] pre(4) assms(8) by auto
  have drop: "\<exists>s4. drop_buffer c True s3 = Inr s4" if "rc = Some e" for e
    using setup_inner_cases [OF r(1) assms(1) pre(1,2,7)] pre(6) that by (auto simp: drop_buffer_def)
  show ?thesis
  proof (cases "dma_uaddr d + ucast (dm_length d) < dma_uaddr d \<or> \<not> sgl_ok k \<or> \<not> pages_ok k")
    case True
    then show ?thesis using g by (auto simp: vme_dma_setup_def Let_def assms(5))
  next
    case False
    then have "vme_dma_setup k c True s = bind_r (tsi148_dma_setup k c ?t) (\<lambda>(rc, s3).
        if rc \<noteq> None then bind_r (drop_buffer c True s3) (\<lambda>s4. Inr (rc, s4)) else Inr (None, s3))"
      using g n by (simp add: vme_dma_setup_def Let_def assms(5))
    then show ?thesis using r drop by (cases rc) auto
  qed
qed

lemma holds_bursts: "list_all2 (desc_holds d sat dat) ds bs \<Longrightarrow> map (desc_burst d) ds = bs"
  by (induction ds bs rule: list_all2_induct) (simp_all add: desc_holds_def)

lemma blocks_nonempty: "dma_fits d segs \<Longrightarrow> dma_blocks d segs \<noteq> []"
  by (cases segs) (auto simp: dma_fits_def dma_blocks_def blocks_Nil)

lemma request_cases:
  assumes "dma_inv run s" "pool_ok k" "gets_pages k d ps" "dma_fits d (dma_list k d ps)" "do_dma_begin k d True s = r"
  shows "case r of
      Inl e \<Rightarrow> e = Blocked \<and> length run = 2
    | Inr (Inl e, s') \<Rightarrow> e \<in> {EINVAL, EBUSY, EINTR, ENOMEM}
    | Inr (Inr c, s') \<Rightarrow> (\<exists>ds sat dat. programmed c s' ds \<and> tsi148_dma_setup_src d = Some sat \<and> tsi148_dma_setup_dst d = Some dat \<and>
        list_all2 (desc_holds d sat dat) ds (dma_blocks d (dma_list k d ps)))"
proof (cases "dma_check d")
  case False
  then show ?thesis using assms(5) by (auto simp: do_dma_begin_def)
next
  case chk: True
  show ?thesis
  proof (rule acquire_cases [OF assms(1) refl, of k])
    fix c
    let ?s1 = "s\<lparr>dma_semaphore := dma_semaphore s - 1, dma_disable := False\<rparr>"
    let ?s2 = "upd_channel c (\<lambda>h. h\<lparr>C_busy := 1, C_desc := d\<rparr>) ?s1"
    assume got: "vme_dma_channel_acquire k s = Inr (Inr c, upd_channel c (\<lambda>h. h\<lparr>C_busy := 1\<rparr>) ?s1)"
      "c < 2" "c \<notin> fst ` set run" "0 < dma_semaphore s"
    have lc: "c < length (channels s)" "c < length (dma_regs s)" using assms(1) got(2) by (simp_all add: dma_inv_def)
    have ch: "c < length (channels ?s2)" "c < length (dma_regs ?s2)" "hw_desc_list (channel_at c ?s2) = []" "C_desc (channel_at c ?s2) = d"
      using lc assms(1) got(2,3) by (simp_all add: dma_inv_def)
    have d: "dma_dir_ok (C_desc (channel_at c ?s2))" "dma_nr_pages (C_desc (channel_at c ?s2)) \<noteq> 0"
      using chk dma_pages_pos ch(4) by (auto simp: dma_check_def dma_dir_ok_def)
    have st: "r = bind_r (vme_dma_setup k c True ?s2) (\<lambda>(rc, s2).
        case rc of Some e \<Rightarrow> bind_r (vme_dma_channel_release c s2) (\<lambda>s3. Inr (Inl e, s3)) | None \<Rightarrow> Inr (Inr c, tsi148_dma_start c s2))"
      using assms(5) chk got(1) by (simp add: do_dma_begin_def upd_channel_twice)
    obtain rc s3 where su: "vme_dma_setup k c True ?s2 = Inr (rc, s3)"
      "rc = None \<longrightarrow> (\<exists>sat dat ctl. tsi148_dma_setup_src d = Some sat \<and> tsi148_dma_setup_dst d = Some dat \<and> tsi148_dma_setup_ctl d = Some ctl \<and>
        chain_at (desc_holds d sat dat) (pool_mem s3) (hw_desc_list (channel_at c s3)) (dma_blocks d (dma_list k d ps)) None \<and>
        R_dctl (dma_regs s3 ! c) = ctl AND NOT TSI148_LCSR_DCTL_MOD)"
      using user_setup_ok [OF assms(2) ch(1-4) chk assms(3,4)] by blast
    note post = dma_setup_cases [OF su(1) assms(2) ch(1,3) d]
    show ?thesis
    proof (cases rc)
      case (Some e)
      then have u: "undone c ?s2 s3" "e = EINVAL \<or> e = ENOMEM" using post by simp_all
      obtain s4 where "vme_dma_channel_release c s3 = Inr s4"
        by (rule dma_inv_undo [OF assms(1) got(2-4) u(1) refl refl])
      then show ?thesis using st su(1) Some u(2) by auto
    next
      case None
      obtain sat dat ctl where a: "tsi148_dma_setup_src d = Some sat" "tsi148_dma_setup_dst d = Some dat"
        "chain_at (desc_holds d sat dat) (pool_mem s3) (hw_desc_list (channel_at c s3)) (dma_blocks d (dma_list k d ps)) None"
        "R_dctl (dma_regs s3 ! c) = ctl AND NOT TSI148_LCSR_DCTL_MOD" using su(2) None by blast
      have "prepared c True ?s2 s3" using post None by simp
      then obtain new where p: "new \<noteq> []" "hw_desc_list (channel_at c s3) = new" "R_dnlau (dma_regs s3 ! c) = 0" "R_dnlal (dma_regs s3 ! c) = hd new"
        "length (dma_regs s3) = length (dma_regs ?s2)"
        using ch(2) unfolding prepared_def same_accounts_def by blast
      obtain x xs where new: "new = x # xs" using p(1) by (cases new) auto
      let ?ds = "map (pool_mem s3) new"
      have "chip_walk (length ?ds) (pool_mem s3) x = Some ?ds"
        using chip_walk_chain a(3) p(2) new by (metis length_map length_Cons lessI)
      then have "programmed c (tsi148_dma_start c s3) ?ds"
        using p(2-5) a(4) ch(2) new dctl_bits by (simp add: programmed_def tsi148_dma_start_def put_dreg_def Let_def del: chip_walk.simps)
      moreover have "list_all2 (desc_holds d sat dat) ?ds (dma_blocks d (dma_list k d ps))" using chain_holds [OF a(3)] p(2) by simp
      ultimately show ?thesis using st su(1) None a(1,2) by auto
    qed
  next
    assume "vme_dma_channel_acquire k s = Inl Blocked" "length run = 2"
    then show ?thesis using chk by (auto simp: assms(5) [symmetric] do_dma_begin_def)
  next
    fix e v assume "vme_dma_channel_acquire k s = Inr (Inl e, s\<lparr>dma_disable := v\<rparr>)" "e = EBUSY \<or> e = EINTR"
    then show ?thesis using chk by (auto simp: assms(5) [symmetric] do_dma_begin_def)
  qed
qed

section \<open>The bytes a transfer moves\<close>

text \<open>
  The pairs of a VME address and a memory address whose bytes the chip exchanges, in order, when it
  carries out the descriptors \<open>ds\<close> (with the VME address counting up).
\<close>

definition bytes_moved :: "vme_dma \<Rightarrow> tsi148_dma_desc list \<Rightarrow> (nat \<times> nat) list" where
  "bytes_moved d ds = concat (map (\<lambda>t. case desc_burst d t of (v, p, m) \<Rightarrow> zip (bytes v m) (bytes p m)) ds)"

lemma bytes_length [simp]: "length (bytes a n) = n"
  by (simp add: bytes_def)

lemma zip_blocks:
  "concat (map (\<lambda>(v, p, m). zip (bytes v m) (bytes p m)) bs) =
   zip (concat (map (\<lambda>(v, p, m). bytes v m) bs)) (concat (map (\<lambda>(v, p, m). bytes p m) bs))"
  by (induction bs) (auto simp: zip_append)

text \<open>What is asked of the bus mapping: it may merge entries, but the bytes are those of the list.\<close>

definition map_sg_ok :: "dkernel \<Rightarrow> sg_entry list \<Rightarrow> bool" where
  "map_sg_ok k es \<longleftrightarrow> concat (map (\<lambda>(p, n). bytes p n) (nat_segs (map_sg k es))) = concat (map entry_bytes es)"

lemma moved_blocks:
  assumes "list_all2 (desc_holds d sat dat) ds (dma_blocks d segs)" "dma_inc d"
  shows "bytes_moved d ds = zip (bytes (unat (the (get_vmeaddr d))) (sum_list (map snd (nat_segs segs)))) (concat (map (\<lambda>(p, n). bytes p n) (nat_segs segs)))"
proof -
  have "bytes_moved d ds = concat (map (\<lambda>(v, p, m). zip (bytes v m) (bytes p m)) (map (desc_burst d) ds))"
    by (simp add: bytes_moved_def comp_def)
  also have "\<dots> = concat (map (\<lambda>(v, p, m). zip (bytes v m) (bytes p m)) (dma_blocks d segs))"
    unfolding holds_bursts [OF assms(1)] ..
  also have "\<dots> = zip (bytes (unat (the (get_vmeaddr d))) (sum_list (map snd (nat_segs segs)))) (concat (map (\<lambda>(p, n). bytes p n) (nat_segs segs)))"
    using assms(2) by (simp add: zip_blocks dma_blocks_def list_blocks_pci list_blocks_vme)
  finally show ?thesis .
qed

lemma sum_bytes: "sum_list (map snd xs) = length (concat (map (\<lambda>(p, n). bytes p n) xs))"
  by (induction xs) auto

lemma buf_bytes_length: "length (buf_bytes ps off n) = n"
  by (simp add: buf_bytes_def)

text \<open>The memory address of the buffer: its first byte's offset in the first page.\<close>

definition buf_addr :: "vme_dma \<Rightarrow> u32" where
  "buf_addr d = (if dm_dir d = VME_DMA_TO_DEVICE then at_addrl (dm_src d) else at_addrl (dm_dst d))"

lemma list_bytes:
  assumes "dma_check d" "gets_pages k d ps" "map_sg_ok k (sg_fill ps (buf_addr d) (dm_length d))"
  shows "concat (map (\<lambda>(p, n). bytes p n) (nat_segs (dma_list k d ps))) = buf_bytes ps (unat (buf_addr d) mod 4096) (unat (dm_length d))"
proof -
  have u: "dma_uaddr d = ucast (buf_addr d)" using uaddr_low [of d] assms(1) by (simp add: dma_check_def buf_addr_def)
  have c: "(ucast (ucast (buf_addr d) :: 64 word) :: u32) = buf_addr d" by (rule bit_word_eqI) (simp add: bit_simps)
  have "length ps = (unat (buf_addr d) mod 4096 + unat (dm_length d) + 4095) div 4096"
    using assms(2) nr_pages_nat [OF u] by (simp add: gets_pages_def)
  moreover have "0 < unat (dm_length d)" using assms(1) by (simp add: dma_check_def unat_gt_0)
  ultimately show ?thesis
    using assms(3) sg_fill_bytes [of "dm_length d" ps "buf_addr d"] by (simp add: map_sg_ok_def dma_list_def u c)
qed

section \<open>Properties\<close>


definition try_pages :: "u32 list" where
  "try_pages = [0x20000, 0x20001, 0x20002]"

lemma try_request: "gets_pages try_kernel try_dma try_pages" "dma_fits try_dma (dma_list try_kernel try_dma try_pages)"
proof -
  have "dma_nr_pages try_dma = 3" "dma_uaddr try_dma = 0x20000f00" by code_simp+
  then show "gets_pages try_kernel try_dma try_pages"
    by (simp add: gets_pages_def try_kernel_def try_pages_def numeral_3_eq_3 drop_bit_eq_div)
  have "dma_list try_kernel try_dma try_pages = [(0x20000f00, 0x100), (0x20001000, 0x1000), (0x20002000, 0x100)]"
    "get_vmeaddr try_dma = Some 0x10000100" "tsi148_get_bshift try_dma = 11" "dma_inc try_dma" by code_simp+
  then show "dma_fits try_dma (dma_list try_kernel try_dma try_pages)" by (simp add: dma_fits_def)
qed


text \<open>
  C3: From the buffer to the bus: when the bus mapping keeps the bytes in order (whether or not it
  merges entries), a transfer whose VME address counts up exchanges byte \<open>i\<close> of the user's buffer
  with VME address \<open>v + i\<close>, for every \<open>i\<close> below the length, in order, once each and nothing else,
  although the buffer lies in scattered pages and the transfer is cut at page and block boundaries.
\<close>

theorem transfer_moves_buffer:
  assumes "dma_reach run s" "pool_ok k" "gets_pages k d ps" "dma_fits d (dma_list k d ps)" "map_sg_ok k (sg_fill ps (buf_addr d) (dm_length d))" "dma_inc d"
    "do_dma_begin k d True s = Inr (Inr c, s')"
  shows "\<exists>ds. programmed c s' ds \<and>
    bytes_moved d ds = zip (bytes (unat (the (get_vmeaddr d))) (unat (dm_length d))) (buf_bytes ps (unat (buf_addr d) mod 4096) (unat (dm_length d)))"
proof -
  obtain ds sat dat where ds: "programmed c s' ds" "list_all2 (desc_holds d sat dat) ds (dma_blocks d (dma_list k d ps))"
    using request_cases [OF reach_inv [OF assms(1)] assms(2-4,7)] by auto
  have "dma_check d" using assms(7) by (auto simp: do_dma_begin_def split: if_splits)
  note b = list_bytes [OF this assms(3,5)]
  show ?thesis using moved_blocks [OF ds(2) assms(6)] ds(1) unfolding sum_bytes b buf_bytes_length by blast
qed

lemma try_map: "map_sg_ok try_kernel (sg_fill try_pages (buf_addr try_dma) (dm_length try_dma))"
proof -
  have "sg_fill try_pages (buf_addr try_dma) (dm_length try_dma) =
      [\<lparr>sg_page = 0x20000, sg_length = 0x100, sg_offset = 0xf00\<rparr>, \<lparr>sg_page = 0x20001, sg_length = 0x1000, sg_offset = 0\<rparr>,
       \<lparr>sg_page = 0x20002, sg_length = 0x100, sg_offset = 0\<rparr>]" by code_simp
  then show ?thesis by (simp add: map_sg_ok_def try_kernel_def)
qed

theorem transfer_moves_buffer_witness:
  "\<exists>ds. programmed 0 (after_begin try_start) ds \<and> bytes_moved try_dma ds = zip (bytes 0x10000100 0x1200) (buf_bytes try_pages 0xf00 0x1200)"
proof -
  have "get_vmeaddr try_dma = Some 0x10000100" "buf_addr try_dma = 0x20000f00" "dm_length try_dma = 0x1200" "dma_inc try_dma" by code_simp+
  then show ?thesis using transfer_moves_buffer [OF try_reach try_pool_ok try_request try_map _ try_begins] by simp
qed

lemma dma_blocks_bound:
  assumes "(v, p, m) \<in> set (dma_blocks d segs)"
  shows "0 < m \<and> (tsi148_get_bshift d \<noteq> 0 \<longrightarrow> v mod 2 ^ tsi148_get_bshift d + m \<le> 2 ^ tsi148_get_bshift d) \<and>
    (dm_novmeinc d \<noteq> 0 \<longrightarrow> v = unat (the (get_vmeaddr d)))"
  using assms list_blocks_bound list_blocks_fixed by (cases "dma_inc d") (auto simp: dma_blocks_def dma_inc_def)

text \<open>
  C37: No descriptor that the chip reads for a transfer crosses a block boundary of the bus (256 bytes
  for BLT, 2048 for MBLT), each moves at least a byte, and when the VME address must not count up
  each is at the device's one address.
\<close>

theorem blocks_within_boundary:
  assumes "dma_reach run s" "pool_ok k" "gets_pages k d ps" "dma_fits d (dma_list k d ps)" "do_dma_begin k d True s = Inr (Inr c, s')"
  shows "\<exists>ds. programmed c s' ds \<and> ds \<noteq> [] \<and> (\<forall>t \<in> set ds. case desc_burst d t of (v, p, m) \<Rightarrow>
    0 < m \<and> (tsi148_get_bshift d \<noteq> 0 \<longrightarrow> v mod 2 ^ tsi148_get_bshift d + m \<le> 2 ^ tsi148_get_bshift d) \<and>
    (dm_novmeinc d \<noteq> 0 \<longrightarrow> v = unat (the (get_vmeaddr d))))"
proof -
  obtain ds sat dat where ds: "programmed c s' ds" "list_all2 (desc_holds d sat dat) ds (dma_blocks d (dma_list k d ps))"
    using request_cases [OF reach_inv [OF assms(1)] assms(2-5)] by auto
  note b = holds_bursts [OF ds(2)]
  have "desc_burst d t \<in> set (dma_blocks d (dma_list k d ps))" if "t \<in> set ds" for t
    unfolding b [symmetric] using that by simp
  moreover have "ds \<noteq> []" using b blocks_nonempty [OF assms(4)] by auto
  ultimately show ?thesis using ds(1) dma_blocks_bound by fastforce
qed

theorem blocks_within_boundary_witness:
  "\<exists>ds. programmed 0 (after_begin try_start) ds \<and> ds \<noteq> [] \<and> (\<forall>t \<in> set ds. case desc_burst try_dma t of (v, p, m) \<Rightarrow> 0 < m \<and> v mod 2 ^ 11 + m \<le> 2 ^ 11)"
proof -
  have "tsi148_get_bshift try_dma = 11" by code_simp
  then show ?thesis using blocks_within_boundary [OF try_reach try_pool_ok try_request try_begins] by fastforce
qed

text \<open>
  A request whose VME range ends at the top of the address space (its end wraps to zero) is not
  refused and moves nothing: the loop is left at once, setting up reports success, and the chip is
  pointed at a descriptor that was never filled in.
\<close>

theorem wrapping_end_not_filled:
  assumes "get_vmeaddr (C_desc (channel_at c s)) = Some v" "C_sg_mapped (channel_at c s) = [(p, n)]" "v + n \<le> v"
    "tsi148_dma_setup_chain k c sat dat s = Inr (None, s')" "c < length (channels s)" "c < length (dma_regs s)" "pool_ok k"
  shows "\<exists>x. hw_desc_list (channel_at c s') = hw_desc_list (channel_at c s) @ [x] \<and> x \<notin> set (pool_live s) \<and>
    R_dnlal (dma_regs s' ! c) = x \<and> pool_mem s' = pool_mem s"
proof -
  obtain r s1 where h: "hwdesc_init k c s = (r, s1)" by fastforce
  then obtain x where x: "r = Some x" using assms(4) by (cases r) (auto simp: tsi148_dma_setup_chain_def Let_def)
  note al = grown_alloc [OF assms(7) h [unfolded x]]
  have ch: "c < length (channels s1)" "channel_at c s1 = (channel_at c s)\<lparr>hw_desc_list := hw_desc_list (channel_at c s) @ [x]\<rparr>"
    using grownD(2,4) [OF al(1)] assms(5) by simp_all
  have "dma_regs s1 = dma_regs s" using h by (auto simp: hwdesc_init_def split: option.splits if_splits)
  have l: "chain_loop k c sh sat dat [(p, n)] (Some x) v s1 = Inr (None, s1)" for sh
    using assms(3) by (simp add: tsi148_dma_link_add_def link_loop.simps linorder_not_less)
  have "s' = dma_write c DNLAL x (dma_write c DNLAU 0 s1)"
    using assms(1,2,4) h x ch(2) l aligned8(1) [OF al(3)] by (simp add: tsi148_dma_setup_chain_def Let_def)
  with \<open>dma_regs s1 = dma_regs s\<close> show ?thesis using ch assms(6) al(2,4) by (simp add: put_dreg_def)
qed

definition wrap_start :: dma_state where
  "wrap_start = upd_channel 0 (\<lambda>h. h\<lparr>C_desc := try_dma\<lparr>dm_src := (dm_src try_dma)\<lparr>at_addrl := 0xfffff000\<rparr>\<rparr>,
     C_sg_mapped := [(0x20000000, 0x1000)]\<rparr>) try_start"

theorem wrapping_end_not_filled_witness:
  "\<exists>s' x. tsi148_dma_setup_chain try_kernel 0 0 0 wrap_start = Inr (None, s') \<and> hw_desc_list (channel_at 0 s') = [x] \<and> pool_mem s' = pool_mem wrap_start"
proof -
  have "map_sum id fst (tsi148_dma_setup_chain try_kernel 0 0 0 wrap_start) = Inr None" by code_simp
  then obtain s' where s': "tsi148_dma_setup_chain try_kernel 0 0 0 wrap_start = Inr (None, s')"
    by (cases "tsi148_dma_setup_chain try_kernel 0 0 0 wrap_start") auto
  have w: "get_vmeaddr (C_desc (channel_at 0 wrap_start)) = Some 0xfffff000" "C_sg_mapped (channel_at 0 wrap_start) = [(0x20000000, 0x1000)]"
    "0xfffff000 + 0x1000 \<le> (0xfffff000 :: u32)" "0 < length (channels wrap_start)" "0 < length (dma_regs wrap_start)"
    "hw_desc_list (channel_at 0 wrap_start) = []" by code_simp+
  from wrapping_end_not_filled [OF w(1-3) s' w(4,5) try_pool_ok] s' w(6) show ?thesis by auto
qed

text \<open>
  When the pages of a user's buffer cannot be pinned (the call fails, or pins too few), the
  error is lost: the transfer goes on with a scatter list that was never written.
\<close>

theorem pin_failure_is_lost:
  assumes "dma_check d" "vme_dma_channel_acquire k s = Inr (Inr c, s1)" "c < length (channels s1)" "sgl_ok k" "pages_ok k"
    "case get_user_pages k (ucast (dma_uaddr d)) (dma_nr_pages d) (dm_dir d = VME_DMA_FROM_DEVICE) of Inl e \<Rightarrow> True | Inr ps \<Rightarrow> length ps < dma_nr_pages d"
  shows "do_dma_begin k d True s = Inl Uninitialised"
proof -
  let ?s2 = "upd_channel c (\<lambda>h. h\<lparr>C_desc := d\<rparr>) s1"
  have d: "C_desc (channel_at c ?s2) = d" using assms(3) by simp
  obtain u :: u32 where u: "dma_uaddr d = ucast u" using uaddr_low assms(1) by (auto simp: dma_check_def)
  have u64: "unat (ucast x :: 64 word) = unat x" for x :: u32
    using unat_bound [of x] by (simp add: unsigned_ucast_eq take_bit_nat_eq_self_iff)
  have "unat (ucast u :: 64 word) + unat (ucast (dm_length d) :: 64 word) < 2 ^ LENGTH(64)"
    using unat_bound [of u] unat_bound [of "dm_length d"] by (simp add: u64)
  then have w: "\<not> dma_uaddr d + ucast (dm_length d) < dma_uaddr d"
    unfolding u by (simp add: word_less_nat_alt unat_add_lem [THEN iffD1] linorder_not_less)
  have "get_pages k (dma_nr_pages d) (ucast (dma_uaddr d)) (dm_dir d = VME_DMA_FROM_DEVICE) True t = (None, t)" for t
    using assms(6) by (auto simp: get_pages_def split: sum.splits)
  then have "vme_dma_setup k c True ?s2 = Inl Uninitialised"
    using w assms(4,5) dma_pages_pos [OF assms(1)] by (simp add: vme_dma_setup_def d sgl_map_user_pages_def Let_def)
  then show ?thesis using assms(1,2) by (simp add: do_dma_begin_def)
qed

theorem pin_failure_is_lost_witness:
  "do_dma_begin (try_kernel\<lparr>get_user_pages := \<lambda>a n w. Inl EFAULT\<rparr>) try_dma True try_start = Inl Uninitialised"
proof -
  let ?k = "try_kernel\<lparr>get_user_pages := \<lambda>a n w. Inl EFAULT\<rparr>"
  have q: "vme_dma_channel_acquire ?k try_start = vme_dma_channel_acquire try_kernel try_start" by (simp add: vme_dma_channel_acquire_def)
  have "map_sum id fst (vme_dma_channel_acquire try_kernel try_start) = Inr (Inr 0)"
    "map_sum id (length \<circ> channels \<circ> snd) (vme_dma_channel_acquire try_kernel try_start) = Inr 2" "dma_check try_dma" by code_simp+
  then obtain s1 where "vme_dma_channel_acquire ?k try_start = Inr (Inr 0, s1)" "length (channels s1) = 2"
    unfolding q by (cases "vme_dma_channel_acquire try_kernel try_start") auto
  then show ?thesis using pin_failure_is_lost [of try_dma ?k try_start 0 s1] \<open>dma_check try_dma\<close> by (simp add: try_kernel_def)
qed

end
