(* ===== verification/Vme_Irq.thy ===== *)
theory Vme_Irq
  imports Vme_Window
begin

text \<open>
  Interrupts and bus errors of the VME bridge (vmebridge/driver/vme_irq.c, vme_misc.c, and what
  tsi148.c and tsi148.h have for them): the table of vectors with the handlers of other drivers, the
  handler of the bridge's own interrupt, the list of bus error handlers, generating an interrupt
  on the bus, and the registers of the chip's start and shutdown. A handler is a number; calling one
  is recorded. What the chip reports in one round of the interrupt handler is an input.
\<close>

section \<open>Registers\<close>

definition TSI148_LCSR_VEAT_AM :: u32 where "TSI148_LCSR_VEAT_AM = 0x3F00"
definition TSI148_LCSR_VEAT_AM_SHIFT :: nat where "TSI148_LCSR_VEAT_AM_SHIFT = 8"
definition TSI148_LCSR_EDPAT_EDPCL :: u32 where "TSI148_LCSR_EDPAT_EDPCL = 0x20000000"
definition TSI148_LCSR_VICR_IRQC :: u32 where "TSI148_LCSR_VICR_IRQC = 0x8000"
definition TSI148_LCSR_VICR_IRQS :: u32 where "TSI148_LCSR_VICR_IRQS = 0x800"
definition TSI148_LCSR_VICR_IRQL_M :: u32 where "TSI148_LCSR_VICR_IRQL_M = 0x700"
definition TSI148_LCSR_VICR_STID_M :: u32 where "TSI148_LCSR_VICR_STID_M = 0xFF"
definition TSI148_LCSR_INT_DMA_SHIFT :: nat where "TSI148_LCSR_INT_DMA_SHIFT = 24"
definition TSI148_LCSR_INT_DMA_M :: u32 where "TSI148_LCSR_INT_DMA_M = 0x3000000"
definition TSI148_LCSR_INT_LM_SHIFT :: nat where "TSI148_LCSR_INT_LM_SHIFT = 20"
definition TSI148_LCSR_INT_LM_M :: u32 where "TSI148_LCSR_INT_LM_M = 0xF00000"
definition TSI148_LCSR_INT_MB_SHIFT :: nat where "TSI148_LCSR_INT_MB_SHIFT = 16"
definition TSI148_LCSR_INT_MB_M :: u32 where "TSI148_LCSR_INT_MB_M = 0xF0000"
definition TSI148_LCSR_INT_PERR :: u32 where "TSI148_LCSR_INT_PERR = 0x2000"
definition TSI148_LCSR_INT_VERR :: u32 where "TSI148_LCSR_INT_VERR = 0x1000"
definition TSI148_LCSR_INT_IRQM :: u32 where "TSI148_LCSR_INT_IRQM = 0xFE"
definition TSI148_LCSR_VMCTRL_VTON_M :: u32 where "TSI148_LCSR_VMCTRL_VTON_M = 0x700"
definition TSI148_LCSR_VMCTRL_VTON_512 :: u32 where "TSI148_LCSR_VMCTRL_VTON_512 = 0x700"
definition TSI148_LCSR_VMCTRL_VREL_M :: u32 where "TSI148_LCSR_VMCTRL_VREL_M = 0x18"
definition TSI148_LCSR_VMCTRL_VREL_T_D_R :: u32 where "TSI148_LCSR_VMCTRL_VREL_T_D_R = 0x18"
definition TSI148_LCSR_VSTAT_CPURST :: u32 where "TSI148_LCSR_VSTAT_CPURST = 0x8000"
definition TSI148_LCSR_VSTAT_BDFAIL :: u32 where "TSI148_LCSR_VSTAT_BDFAIL = 0x4000"
definition TSI148_LCSR_PCSR_SRTO :: u32 where "TSI148_LCSR_PCSR_SRTO = 0x7000000"
definition TSI148_LCSR_PCSR_SRTE :: u32 where "TSI148_LCSR_PCSR_SRTE = 0x400"
definition TSI148_LCSR_PCSR_DTTE :: u32 where "TSI148_LCSR_PCSR_DTTE = 0x200"
definition TSI148_LCSR_PCSR_MRCE :: u32 where "TSI148_LCSR_PCSR_MRCE = 0x100"
definition TSI148_LCSR_CRGAT_EN :: u32 where "TSI148_LCSR_CRGAT_EN = 0x80"
definition TSI148_LCSR_CRGAT_AS_16 :: u32 where "TSI148_LCSR_CRGAT_AS_16 = 0"
definition TSI148_LCSR_CRGAT_AS_24 :: u32 where "TSI148_LCSR_CRGAT_AS_24 = 0x10"
definition TSI148_LCSR_CRGAT_AS_32 :: u32 where "TSI148_LCSR_CRGAT_AS_32 = 0x20"
definition TSI148_LCSR_CRGAT_AS_64 :: u32 where "TSI148_LCSR_CRGAT_AS_64 = 0x40"
definition TSI148_LCSR_CRGAT_SUPR :: u32 where "TSI148_LCSR_CRGAT_SUPR = 8"
definition TSI148_LCSR_CRGAT_NPRIV :: u32 where "TSI148_LCSR_CRGAT_NPRIV = 4"
definition TSI148_LCSR_CRGAT_PGM :: u32 where "TSI148_LCSR_CRGAT_PGM = 2"
definition TSI148_LCSR_CRGAT_DATA :: u32 where "TSI148_LCSR_CRGAT_DATA = 1"

datatype lreg =
    L_EDPAT | L_VICR | L_INTEO | L_INTEN | L_INTC | L_INTM1 | L_INTM2 | L_CBAU | L_CBAL | L_CRGAT
  | L_LMAT | L_VEAT | L_PSTAT | L_VSTAT | L_VMCTRL | L_ITAT nat | L_OTAT nat
  | L_DNLAU nat | L_DNLAL nat | L_DCNT nat

section \<open>State\<close>

definition VME_NUM_VECTORS :: nat where "VME_NUM_VECTORS = 256"

text \<open>A handler that is NULL is \<open>None\<close>.\<close>

record virq =
  v_handler :: "nat option"
  v_arg :: u32
  v_count :: u32
  v_name :: "string option"

definition free_virq :: virq where
  "free_virq = \<lparr>v_handler = None, v_arg = 0, v_count = 0, v_name = None\<rparr>"

record vme_berr_handler =
  bh_addr :: nat                     \<comment> \<open>the address of the structure, which names it\<close>
  bh_error :: vme_bus_error
  bh_size :: u32
  bh_func :: nat

datatype irq_call = Irq_handler nat u32 | Berr_handler nat vme_bus_error | Wake_dma nat

definition INT_DMA0 :: nat where "INT_DMA0 = 0"
definition INT_DMA1 :: nat where "INT_DMA1 = 1"
definition INT_MB0 :: nat where "INT_MB0 = 2"
definition INT_LM0 :: nat where "INT_LM0 = 6"
definition INT_IRQ1 :: nat where "INT_IRQ1 = 10"
definition INT_PERR :: nat where "INT_PERR = 17"
definition INT_VERR :: nat where "INT_VERR = 18"
definition INT_SPURIOUS :: nat where "INT_SPURIOUS = 19"

record irq_state =
  vme_irq_table :: "virq list"
  irq_table_lock :: bool
  int_stats :: "u32 list"
  vme_interrupts_enabled :: u32
  lregs :: "lreg \<Rightarrow> u32"
  ltrace :: "(lreg \<times> u32) list"
  I_bridge :: vme_state              \<comment> \<open>the last bus error is kept there\<close>
  h_list :: "vme_berr_handler list"
  irq_calls :: "irq_call list"

definition lwrite :: "lreg \<Rightarrow> u32 \<Rightarrow> irq_state \<Rightarrow> irq_state" where
  "lwrite r v s = s\<lparr>lregs := (lregs s)(r := v), ltrace := ltrace s @ [(r, v)]\<rparr>"

definition call_handler :: "irq_call \<Rightarrow> irq_state \<Rightarrow> irq_state" where
  "call_handler c s = s\<lparr>irq_calls := irq_calls s @ [c]\<rparr>"

definition count_int :: "nat \<Rightarrow> irq_state \<Rightarrow> irq_state result" where
  "count_int i s =
     bind_r (arr_get (int_stats s) (int i)) (\<lambda>n.
     bind_r (arr_set (int_stats s) (int i) (n + 1)) (\<lambda>st. Inr (s\<lparr>int_stats := st\<rparr>)))"

text \<open>What the chip reports in one round: its status, the vector of each level, and a bus error.\<close>

record int_round =
  ir_ints :: u32
  ir_iack :: "nat \<Rightarrow> 8 word"
  ir_veau :: u32
  ir_veal :: u32
  ir_veat :: u32

section \<open>Handling an interrupt\<close>

text \<open>One counter for each bit of \<open>m\<close> below \<open>n\<close>.\<close>

definition count_bits :: "nat \<Rightarrow> nat \<Rightarrow> u32 \<Rightarrow> irq_state \<Rightarrow> irq_state result" where
  "count_bits n base m = fold_r (\<lambda>i s. if m AND push_bit i 1 \<noteq> 0 then count_int (base + i) s else Inr s) [0 ..< n]"

definition account_dma_interrupt :: "u32 \<Rightarrow> irq_state \<Rightarrow> irq_state result" where
  "account_dma_interrupt m s =
     bind_r (if m AND 1 \<noteq> 0 then count_int INT_DMA0 s else Inr s) (\<lambda>s1.
       if m AND 2 \<noteq> 0 then count_int INT_DMA1 s1 else Inr s1)"

definition handle_dma_interrupt :: "u32 \<Rightarrow> irq_state \<Rightarrow> irq_state result" where
  "handle_dma_interrupt m s =
     (let s1 = (if m AND 1 \<noteq> 0 then call_handler (Wake_dma 0) s else s);
          s2 = (if m AND 2 \<noteq> 0 then call_handler (Wake_dma 1) s1 else s1)
      in account_dma_interrupt m s2)"

definition tsi148_handle_pci_error :: "irq_state \<Rightarrow> irq_state" where
  "tsi148_handle_pci_error s = lwrite L_EDPAT TSI148_LCSR_EDPAT_EDPCL s"

definition handle_pci_error :: "irq_state \<Rightarrow> irq_state result" where
  "handle_pci_error s = count_int INT_PERR (tsi148_handle_pci_error s)"

definition reg_join :: "u32 \<Rightarrow> u32 \<Rightarrow> 64 word" where
  "reg_join high low = push_bit 32 (ucast high) OR ucast low"

text \<open>The error is read and then cleared in the chip.\<close>

definition tsi148_handle_vme_error :: "int_round \<Rightarrow> irq_state \<Rightarrow> vme_bus_error \<times> irq_state" where
  "tsi148_handle_vme_error r s =
     (let err = \<lparr>err_address = reg_join (ir_veau r) (ir_veal r),
                 err_am = drop_bit TSI148_LCSR_VEAT_AM_SHIFT (ir_veat r AND TSI148_LCSR_VEAT_AM)\<rparr>
      in (err, (lwrite L_VEAT TSI148_LCSR_VEAT_VESCL s)\<lparr>I_bridge := (I_bridge s)\<lparr>V_veat := ir_veat r AND NOT TSI148_LCSR_VEAT_VES\<rparr>\<rparr>))"

definition vme_berr_match :: "vme_bus_error \<Rightarrow> vme_berr_handler \<Rightarrow> bool" where
  "vme_berr_match err h \<longleftrightarrow> err_am err = err_am (bh_error h) \<and> err_address (bh_error h) \<le> err_address err \<and>
     err_address err < err_address (bh_error h) + ucast (bh_size h)"

definition vme_dispatch_berr :: "vme_bus_error \<Rightarrow> irq_state \<Rightarrow> irq_state" where
  "vme_dispatch_berr err s =
     fold (\<lambda>h s. if vme_berr_match err h then call_handler (Berr_handler (bh_func h) err) s else s) (h_list s) s"

definition handle_vme_error :: "int_round \<Rightarrow> irq_state \<Rightarrow> irq_state result" where
  "handle_vme_error r s =
     (let (err, s1) = tsi148_handle_vme_error r s;
          s2 = s1\<lparr>I_bridge := (I_bridge s1)\<lparr>verr_error := err, verr_valid := True\<rparr>\<rparr>
      in count_int INT_VERR (vme_dispatch_berr err s2))"

definition handle_mbox_interrupt :: "u32 \<Rightarrow> irq_state \<Rightarrow> irq_state result" where
  "handle_mbox_interrupt = count_bits 4 INT_MB0"

definition handle_lm_interrupt :: "u32 \<Rightarrow> irq_state \<Rightarrow> irq_state result" where
  "handle_lm_interrupt = count_bits 4 INT_LM0"

definition tsi148_iack8 :: "int_round \<Rightarrow> nat \<Rightarrow> i32" where
  "tsi148_iack8 r irq = ucast (ir_iack r irq) AND 0xff"

text \<open>One level: the vector is fetched from the bus, its handler called when there is one.\<close>

definition vme_interrupt_level :: "int_round \<Rightarrow> u32 \<Rightarrow> nat \<Rightarrow> irq_state \<Rightarrow> irq_state result" where
  "vme_interrupt_level r m i s =
     (if m AND push_bit i 1 = 0 then Inr s
      else let vec = sint (tsi148_iack8 r i) in
      bind_r (arr_get (vme_irq_table s) vec) (\<lambda>v.
      bind_r (case v_handler v of
                None \<Rightarrow> Inr s
              | Some h \<Rightarrow> bind_r (arr_set (vme_irq_table s) vec (v\<lparr>v_count := v_count v + 1\<rparr>)) (\<lambda>t.
                  Inr (call_handler (Irq_handler h (v_arg v)) (s\<lparr>vme_irq_table := t\<rparr>)))) (\<lambda>s1.
      count_int (INT_IRQ1 + i - 1) s1)))"

definition handle_vme_interrupt :: "int_round \<Rightarrow> u32 \<Rightarrow> irq_state \<Rightarrow> irq_state result" where
  "handle_vme_interrupt r m = fold_r (vme_interrupt_level r m) (rev [1 ..< 8])"

text \<open>The enabled interrupts of one round, in the order of the code.\<close>

definition handle_raised :: "int_round \<Rightarrow> u32 \<Rightarrow> irq_state \<Rightarrow> irq_state result" where
  "handle_raised r m s =
     bind_r (if m AND TSI148_LCSR_INT_DMA_M \<noteq> 0
             then handle_dma_interrupt (drop_bit TSI148_LCSR_INT_DMA_SHIFT (m AND TSI148_LCSR_INT_DMA_M)) s else Inr s) (\<lambda>s1.
     bind_r (if m AND TSI148_LCSR_INT_PERR \<noteq> 0 then handle_pci_error s1 else Inr s1) (\<lambda>s2.
     bind_r (if m AND TSI148_LCSR_INT_VERR \<noteq> 0 then handle_vme_error r s2 else Inr s2) (\<lambda>s3.
     bind_r (if m AND TSI148_LCSR_INT_MB_M \<noteq> 0
             then handle_mbox_interrupt (drop_bit TSI148_LCSR_INT_MB_SHIFT (m AND TSI148_LCSR_INT_MB_M)) s3 else Inr s3) (\<lambda>s4.
     bind_r (if m AND TSI148_LCSR_INT_LM_M \<noteq> 0
             then handle_lm_interrupt (drop_bit TSI148_LCSR_INT_LM_SHIFT (m AND TSI148_LCSR_INT_LM_M)) s4 else Inr s4) (\<lambda>s5.
     if m AND TSI148_LCSR_INT_IRQM \<noteq> 0 then handle_vme_interrupt r (m AND TSI148_LCSR_INT_IRQM) s5 else Inr s5)))))"

datatype irqreturn_t = IRQ_NONE | IRQ_HANDLED

text \<open>The rounds end when the status reads zero.\<close>

fun vme_bridge_interrupt :: "int_round list \<Rightarrow> irq_state \<Rightarrow> (irqreturn_t \<times> irq_state) result" where
  "vme_bridge_interrupt [] s = Inr (IRQ_HANDLED, s)"
| "vme_bridge_interrupt (r # rs) s =
     (if ir_ints r = 0 then Inr (IRQ_HANDLED, s)
      else let s1 = lwrite L_INTC (ir_ints r) s; m = ir_ints r AND vme_interrupts_enabled s1 in
      if m = 0 then bind_r (count_int INT_SPURIOUS s1) (\<lambda>s2. Inr (IRQ_NONE, s2))
      else bind_r (handle_raised r m s1) (vme_bridge_interrupt rs))"

section \<open>Enabling and disabling\<close>

text \<open>What a register reads after \<open>v\<close> was written to it: some bits may not be implemented.\<close>

type_synonym read_back = "lreg \<Rightarrow> u32 \<Rightarrow> u32"

definition tsi148_get_int_enabled :: "read_back \<Rightarrow> irq_state \<Rightarrow> u32" where
  "tsi148_get_int_enabled rd s = rd L_INTEO (lregs s L_INTEO)"

definition tsi148_set_interrupts :: "read_back \<Rightarrow> u32 \<Rightarrow> irq_state \<Rightarrow> bool \<times> irq_state" where
  "tsi148_set_interrupts rd m s =
     (let s1 = lwrite L_INTEN m (lwrite L_INTEO m s)
      in (rd L_INTEO (lregs s1 L_INTEO) = m \<and> rd L_INTEN (lregs s1 L_INTEN) = m, s1))"

definition vme_enable_interrupts :: "read_back \<Rightarrow> u32 \<Rightarrow> irq_state \<Rightarrow> bool \<times> irq_state" where
  "vme_enable_interrupts rd m s =
     (let new = tsi148_get_int_enabled rd s OR m
      in tsi148_set_interrupts rd new (s\<lparr>vme_interrupts_enabled := new\<rparr>))"

definition vme_disable_interrupts :: "read_back \<Rightarrow> u32 \<Rightarrow> irq_state \<Rightarrow> bool \<times> irq_state" where
  "vme_disable_interrupts rd m s =
     (let new = tsi148_get_int_enabled rd s AND NOT m
      in tsi148_set_interrupts rd new (s\<lparr>vme_interrupts_enabled := new\<rparr>))"

section \<open>Handlers of other drivers\<close>

definition upd_virq :: "nat \<Rightarrow> virq \<Rightarrow> irq_state \<Rightarrow> irq_state" where
  "upd_virq i v s = s\<lparr>vme_irq_table := (vme_irq_table s)[i := v]\<rparr>"

text \<open>\<open>sig\<close> says that a signal ends the wait for the table's mutex.\<close>

definition with_irq_lock :: "bool \<Rightarrow> (irq_state \<Rightarrow> errno option \<times> irq_state) \<Rightarrow> irq_state \<Rightarrow> (errno option \<times> irq_state) result" where
  "with_irq_lock sig f s =
     (if sig then Inr (Some EINTR, s)
      else if irq_table_lock s then Inl Bad_lock
      else let (rc, s1) = f (s\<lparr>irq_table_lock := True\<rparr>) in Inr (rc, s1\<lparr>irq_table_lock := False\<rparr>))"

definition vme_request_irq :: "bool \<Rightarrow> u32 \<Rightarrow> nat option \<Rightarrow> u32 \<Rightarrow> string option \<Rightarrow> irq_state \<Rightarrow> (errno option \<times> irq_state) result" where
  "vme_request_irq sig vec handler arg name s =
     (if VME_NUM_VECTORS \<le> unat vec then Inr (Some EINVAL, s)
      else with_irq_lock sig (\<lambda>s.
        let v = vme_irq_table s ! unat vec in
        if v_handler v \<noteq> None then (Some EBUSY, s)
        else (None, upd_virq (unat vec) \<lparr>v_handler = handler, v_arg = arg, v_count = 0,
               v_name = (if name \<noteq> None then name else Some ''Unknown'')\<rparr> s)) s)"

definition vme_free_irq :: "bool \<Rightarrow> u32 \<Rightarrow> irq_state \<Rightarrow> (errno option \<times> irq_state) result" where
  "vme_free_irq sig vec s =
     (if VME_NUM_VECTORS \<le> unat vec then Inr (Some EINVAL, s)
      else with_irq_lock sig (\<lambda>s.
        let v = vme_irq_table s ! unat vec in
        if v_handler v = None then (Some EINVAL, s)
        else (None, upd_virq (unat vec) free_virq s)) s)"

definition vme_intset :: "bool \<Rightarrow> i32 \<Rightarrow> nat option \<Rightarrow> u32 \<Rightarrow> irq_state \<Rightarrow> (errno option \<times> irq_state) result" where
  "vme_intset sig vec handler arg = vme_request_irq sig vec handler arg None"

definition vme_intclr :: "bool \<Rightarrow> i32 \<Rightarrow> irq_state \<Rightarrow> (errno option \<times> irq_state) result" where
  "vme_intclr sig vec = vme_free_irq sig vec"

text \<open>\<open>mem\<close> is the address of the structure allocated for the handler.\<close>

definition vme_register_berr_handler :: "nat option \<Rightarrow> vme_bus_error \<Rightarrow> u32 \<Rightarrow> nat \<Rightarrow> irq_state \<Rightarrow> (errno + nat) \<times> irq_state" where
  "vme_register_berr_handler mem err sz func s =
     (if sz = 0 then (Inl EINVAL, s)
      else case mem of
        None \<Rightarrow> (Inl ENOMEM, s)
      | Some a \<Rightarrow> (Inr a, s\<lparr>h_list := h_list s @ [\<lparr>bh_addr = a, bh_error = err, bh_size = sz, bh_func = func\<rparr>]\<rparr>))"

fun del_berr :: "nat \<Rightarrow> vme_berr_handler list \<Rightarrow> vme_berr_handler list" where
  "del_berr a [] = []"
| "del_berr a (h # hs) = (if bh_addr h = a then hs else h # del_berr a hs)"

definition vme_unregister_berr_handler :: "nat \<Rightarrow> irq_state \<Rightarrow> irq_state" where
  "vme_unregister_berr_handler a s = s\<lparr>h_list := del_berr a (h_list s)\<rparr>"

section \<open>Generating an interrupt\<close>

text \<open>
  Each wake-up of the wait for the acknowledge cycle: what the register reads then, and the time left.
\<close>

fun iack_wait :: "(u32 \<times> nat) list \<Rightarrow> irq_state \<Rightarrow> irq_state result" where
  "iack_wait ws s =
     (if lregs s L_VICR AND TSI148_LCSR_VICR_IRQS = 0 then Inr s
      else case ws of
        [] \<Rightarrow> Inl Blocked
      | (v, left) # ws' \<Rightarrow>
          let s1 = s\<lparr>lregs := (lregs s)(L_VICR := v)\<rparr> in if left = 0 then Inr s1 else iack_wait ws' s1)"

declare iack_wait.simps [simp del]

text \<open>\<open>after\<close> is what the register reads once the request is written.\<close>

definition tsi148_generate_interrupt :: "(u32 \<Rightarrow> u32) \<Rightarrow> (u32 \<times> nat) list \<Rightarrow> i32 \<Rightarrow> i32 \<Rightarrow> irq_state \<Rightarrow> (errno option \<times> irq_state) result" where
  "tsi148_generate_interrupt after ws level vector s =
     (if level <s 1 \<or> 7 <s level then Inr (Some EINVAL, s)
      else if vector <s 0 \<or> 255 <s vector then Inr (Some EINVAL, s)
      else let val = (lregs s L_VICR AND NOT TSI148_LCSR_VICR_STID_M) OR (push_bit 8 level OR vector);
               s1 = lwrite L_VICR val s; s2 = s1\<lparr>lregs := (lregs s1)(L_VICR := after val)\<rparr> in
      bind_r (iack_wait ws s2) (\<lambda>s3.
        if lregs s3 L_VICR AND TSI148_LCSR_VICR_IRQS \<noteq> 0
        then Inr (Some ETIME, lwrite L_VICR ((lregs s3 L_VICR AND NOT (TSI148_LCSR_VICR_IRQL_M OR TSI148_LCSR_VICR_STID_M))
                                OR TSI148_LCSR_VICR_IRQC) s3)
        else Inr (None, s3)))"

definition vme_generate_interrupt :: "(u32 \<Rightarrow> u32) \<Rightarrow> (u32 \<times> nat) list \<Rightarrow> i32 \<Rightarrow> i32 \<Rightarrow> irq_state \<Rightarrow> (errno option \<times> irq_state) result" where
  "vme_generate_interrupt = tsi148_generate_interrupt"

section \<open>Start and shutdown of the chip\<close>

text \<open>Only the address sizes A16, A24, A32 and A64 can be used for the register window.\<close>

definition am_to_crgattrs :: "u32 \<Rightarrow> u32 option" where
  "am_to_crgattrs am =
     (case am_to_attr am of
        None \<Rightarrow> None
      | Some (addr_size, transfer_mode, user_access, data_access) \<Rightarrow>
          if addr_size \<notin> set [0, 1, 2, 4] then None
          else let a1 = (if addr_size = 0 then TSI148_LCSR_CRGAT_AS_16 else if addr_size = 1 then TSI148_LCSR_CRGAT_AS_24
                         else if addr_size = 2 then TSI148_LCSR_CRGAT_AS_32 else TSI148_LCSR_CRGAT_AS_64) in
          if data_access \<noteq> TSI148_PROG \<and> data_access \<noteq> TSI148_DATA then None
          else let a2 = a1 OR (if data_access = TSI148_PROG then TSI148_LCSR_CRGAT_PGM else TSI148_LCSR_CRGAT_DATA) in
          if user_access \<noteq> TSI148_SUPER \<and> user_access \<noteq> TSI148_USER then None
          else Some (a2 OR (if user_access = TSI148_SUPER then TSI148_LCSR_CRGAT_SUPR else TSI148_LCSR_CRGAT_NPRIV)))"

definition tsi148_setup_crg :: "u32 \<Rightarrow> u32 \<Rightarrow> irq_state \<Rightarrow> bool \<times> irq_state" where
  "tsi148_setup_crg vme_base am s =
     (let s1 = lwrite L_CBAL vme_base (lwrite L_CBAU 0 s) in
      case am_to_crgattrs am of
        None \<Rightarrow> (False, lwrite L_CBAL 0 s1)
      | Some a \<Rightarrow> (True, lwrite L_CRGAT (a OR TSI148_LCSR_CRGAT_EN) s1))"

definition tsi148_disable_crg :: "irq_state \<Rightarrow> irq_state" where
  "tsi148_disable_crg s = lwrite L_CBAL 0 (lwrite L_CBAU 0 (lwrite L_CRGAT 0 s))"

text \<open>The attribute registers of the outbound windows are those of the window manager's chip.\<close>

definition zero_otat :: "nat \<Rightarrow> irq_state \<Rightarrow> irq_state" where
  "zero_otat i s = (lwrite (L_OTAT i) 0 (lwrite (L_ITAT i) 0 s))
     \<lparr>I_bridge := (I_bridge s)\<lparr>V_chip := (V_chip (I_bridge s))\<lparr>otrans := (otrans (V_chip (I_bridge s)))[i := (otrans (V_chip (I_bridge s)) ! i)\<lparr>otat := 0\<rparr>]\<rparr>\<rparr>\<rparr>"

definition zero_dma :: "nat \<Rightarrow> irq_state \<Rightarrow> irq_state" where
  "zero_dma i s = lwrite (L_DCNT i) 0 (lwrite (L_DNLAL i) 0 (lwrite (L_DNLAU i) 0 s))"

definition tsi148_quiesce :: "irq_state \<Rightarrow> irq_state" where
  "tsi148_quiesce s =
     (let s1 = tsi148_disable_crg (lwrite L_LMAT 0 (fold zero_dma [0 ..< 2] (fold zero_otat [0 ..< TSI148_NUM_OUT_WINDOWS] s)));
          s2 = lwrite L_PSTAT (TSI148_LCSR_PCSR_SRTO OR TSI148_LCSR_PCSR_SRTE OR TSI148_LCSR_PCSR_DTTE OR TSI148_LCSR_PCSR_MRCE)
                 (lwrite L_VEAT TSI148_LCSR_VEAT_VESCL (lwrite L_EDPAT TSI148_LCSR_EDPAT_EDPCL s1));
          s3 = lwrite L_VICR TSI148_LCSR_VICR_IRQC s2;
          s4 = lwrite L_INTEN 0xFFFFFFFF (lwrite L_INTC 0xFFFFFFFF (lwrite L_INTEO 0 s3));
          s5 = lwrite L_INTM2 0 (lwrite L_INTM1 0 s4);
          val = (lregs s5 L_VMCTRL AND NOT (TSI148_LCSR_VMCTRL_VTON_M OR TSI148_LCSR_VMCTRL_VREL_M))
                  OR (TSI148_LCSR_VMCTRL_VTON_512 OR TSI148_LCSR_VMCTRL_VREL_T_D_R)
      in lwrite L_VMCTRL val s5)"

definition tsi148_init :: "irq_state \<Rightarrow> irq_state" where
  "tsi148_init s = lwrite L_VSTAT ((lregs s L_VSTAT AND NOT TSI148_LCSR_VSTAT_BDFAIL) OR TSI148_LCSR_VSTAT_CPURST) s"

definition tsi148_get_slotnum :: "irq_state \<Rightarrow> u32" where
  "tsi148_get_slotnum s = lregs s L_VSTAT AND 0x1f"

definition tsi148_get_syscon :: "irq_state \<Rightarrow> u32" where
  "tsi148_get_syscon s = (if lregs s L_VSTAT AND 0x100 \<noteq> 0 then 1 else 0)"

end
