(* ===== verification/Vme_Events.thy ===== *)
theory Vme_Events
  imports Vme_Irq Vme_Chip
begin

text \<open>
  What callers of the interrupt code may rely on: the table of vectors, the list of bus error
  handlers and the dispatch of the bridge's interrupts together implement a machine that keeps
  a partial map from vectors to handlers and a list of address ranges, whatever the sequence of
  requests and interrupts. Then the report of a bus error, and the shutdown of the chip.
\<close>

section \<open>Simulation\<close>

text \<open>Events one after the other, with their results.\<close>

fun run_events :: "('e \<Rightarrow> 'c \<Rightarrow> ('o \<times> 'c) result) \<Rightarrow> 'e list \<Rightarrow> 'c \<Rightarrow> ('o list \<times> 'c) result" where
  "run_events step [] c = Inr ([], c)"
| "run_events step (e # es) c = bind_r (step e c) (\<lambda>(x, c1). bind_r (run_events step es c1) (\<lambda>(xs, c2). Inr (x # xs, c2)))"

fun run_spec :: "('e \<Rightarrow> 'a \<Rightarrow> 'o \<times> 'a) \<Rightarrow> 'e list \<Rightarrow> 'a \<Rightarrow> 'o list \<times> 'a" where
  "run_spec spec [] a = ([], a)"
| "run_spec spec (e # es) a = (let (x, a1) = spec e a; (xs, a2) = run_spec spec es a1 in (x # xs, a2))"

locale simulation =
  fixes inv :: "'c \<Rightarrow> bool" and view :: "'c \<Rightarrow> 'a" and legal :: "'e \<Rightarrow> bool"
    and step :: "'e \<Rightarrow> 'c \<Rightarrow> ('o \<times> 'c) result" and spec :: "'e \<Rightarrow> 'a \<Rightarrow> 'o \<times> 'a"
  assumes sim: "inv c \<Longrightarrow> legal e \<Longrightarrow> \<exists>c'. step e c = Inr (fst (spec e (view c)), c') \<and> inv c' \<and> view c' = snd (spec e (view c))"
begin

lemma runs:
  assumes "inv c" "\<forall>e \<in> set es. legal e"
  shows "\<exists>c'. run_events step es c = Inr (fst (run_spec spec es (view c)), c') \<and> inv c' \<and> view c' = snd (run_spec spec es (view c))"
  using assms
proof (induction es arbitrary: c)
  case (Cons e es)
  obtain c1 where c1: "step e c = Inr (fst (spec e (view c)), c1)" "inv c1" "view c1 = snd (spec e (view c))"
    using sim [OF Cons.prems(1), of e] Cons.prems(2) by auto
  obtain c2 where "run_events step es c1 = Inr (fst (run_spec spec es (view c1)), c2)" "inv c2" "view c2 = snd (run_spec spec es (view c1))"
    using Cons.IH [OF c1(2)] Cons.prems(2) by auto
  then show ?case using c1 by (auto simp: Let_def split: prod.splits)
qed simp

end

section \<open>Dispatch\<close>

definition irq_wf :: "irq_state \<Rightarrow> bool" where
  "irq_wf s \<longleftrightarrow> length (vme_irq_table s) = VME_NUM_VECTORS \<and> length (int_stats s) = 20 \<and> \<not> irq_table_lock s"

text \<open>What the handlers see of the table: the handler and its argument.\<close>

definition slot :: "virq \<Rightarrow> (nat \<times> u32) option" where
  "slot v = (case v_handler v of None \<Rightarrow> None | Some h \<Rightarrow> Some (h, v_arg v))"

lemma slot_count [simp]: "slot (v\<lparr>v_count := n\<rparr>) = slot v"
  by (simp add: slot_def split: option.splits)

definition slots :: "irq_state \<Rightarrow> (nat \<times> u32) option list" where
  "slots s = map slot (vme_irq_table s)"

text \<open>From \<open>s\<close> to \<open>s'\<close> the handlers \<open>cs\<close> were called and nothing that dispatch depends on changed.\<close>

definition emits :: "irq_call list \<Rightarrow> irq_state \<Rightarrow> irq_state \<Rightarrow> bool" where
  "emits cs s s' \<longleftrightarrow> irq_calls s' = irq_calls s @ cs \<and> slots s' = slots s \<and> h_list s' = h_list s \<and>
     vme_interrupts_enabled s' = vme_interrupts_enabled s \<and> irq_table_lock s' = irq_table_lock s \<and> length (int_stats s') = length (int_stats s) \<and>
     lregs s' L_INTEO = lregs s L_INTEO"

lemma emits_refl: "emits [] s s"
  by (simp add: emits_def)

lemma emits_trans: "emits cs s s1 \<Longrightarrow> emits ds s1 s2 \<Longrightarrow> emits (cs @ ds) s s2"
  by (simp add: emits_def)

lemma slots_length: "slots s' = slots s \<Longrightarrow> length (vme_irq_table s') = length (vme_irq_table s)"
  unfolding slots_def by (rule map_eq_imp_length_eq)

lemma emits_wf: "emits cs s s' \<Longrightarrow> irq_wf s \<Longrightarrow> irq_wf s'"
  using slots_length [of s' s] by (simp add: emits_def irq_wf_def)

lemma emits_call: "emits [c] s (call_handler c s)"
  by (simp add: emits_def call_handler_def slots_def)

lemma emits_write: "r \<noteq> L_INTEO \<Longrightarrow> emits [] s (lwrite r v s)"
  by (simp add: emits_def lwrite_def slots_def)

text \<open>A piece of the handler that returns, having called \<open>cs\<close>.\<close>

definition calls :: "irq_call list \<Rightarrow> irq_state \<Rightarrow> irq_state result \<Rightarrow> bool" where
  "calls cs s r \<longleftrightarrow> good (\<lambda>s'. emits cs s s') r"

lemma calls_Inr: "calls cs s (Inr s') = emits cs s s'"
  by (simp add: calls_def)

lemma calls_bind:
  assumes "calls cs s m" "\<And>s1. emits cs s s1 \<Longrightarrow> calls ds s1 (f s1)"
  shows "calls (cs @ ds) s (bind_r m f)"
  using assms emits_trans unfolding calls_def by (fastforce simp: good_iff)

lemma calls_count: "irq_wf s \<Longrightarrow> i < 20 \<Longrightarrow> calls [] s (count_int i s)"
  by (auto simp: calls_def irq_wf_def count_int_def arr_get_def arr_set_def emits_def slots_def)

lemma calls_fold:
  assumes "irq_wf s" "\<And>i s1 cs. i \<in> set is' \<Longrightarrow> irq_wf s1 \<Longrightarrow> emits cs s s1 \<Longrightarrow> calls (g i) s1 (f i s1)"
  shows "calls (concat (map g is')) s (fold_r f is' s)"
  using assms
proof (induction is' arbitrary: s)
  case Nil
  then show ?case by (simp add: calls_Inr emits_refl)
next
  case (Cons i js)
  have "calls (g i) s (f i s)" using Cons.prems(2) [of i s "[]"] Cons.prems(1) emits_refl by simp
  then show ?case
    unfolding fold_r.simps list.map concat.simps
  proof (rule calls_bind)
    fix s1 assume e: "emits (g i) s s1"
    show "calls (concat (map g js)) s1 (fold_r f js s1)"
    proof (rule Cons.IH)
      show "irq_wf s1" using emits_wf [OF e Cons.prems(1)] .
      show "calls (g j) s2 (f j s2)" if "j \<in> set js" "irq_wf s2" "emits ds s1 s2" for j s2 ds
        using Cons.prems(2) [of j s2 "g i @ ds"] that emits_trans [OF e] by simp
    qed
  qed
qed

lemma calls_if: "(b \<Longrightarrow> calls cs s m) \<Longrightarrow> calls (if b then cs else []) s (if b then m else Inr s)"
  by (simp add: calls_Inr emits_refl)

lemma calls_bits: "irq_wf s \<Longrightarrow> base + n \<le> 20 \<Longrightarrow> calls [] s (count_bits n base m s)"
proof -
  assume "irq_wf s" "base + n \<le> 20"
  then have "calls (concat (map (\<lambda>_. []) [0 ..< n])) s (count_bits n base m s)"
    unfolding count_bits_def by (intro calls_fold) (auto intro: calls_count simp: calls_Inr emits_refl)
  moreover have "concat (map (\<lambda>_. []) [0 ..< n]) = ([] :: irq_call list)" by simp
  ultimately show ?thesis by simp
qed

lemma calls_dma: "irq_wf s \<Longrightarrow>
    calls ((if m AND 1 \<noteq> 0 then [Wake_dma 0] else []) @ (if m AND 2 \<noteq> 0 then [Wake_dma 1] else [])) s (handle_dma_interrupt m s)"
proof -
  assume wf: "irq_wf s"
  let ?s1 = "if m AND 1 \<noteq> 0 then call_handler (Wake_dma 0) s else s"
  let ?s2 = "if m AND 2 \<noteq> 0 then call_handler (Wake_dma 1) ?s1 else ?s1"
  let ?cs = "(if m AND 1 \<noteq> 0 then [Wake_dma 0] else []) @ (if m AND 2 \<noteq> 0 then [Wake_dma 1] else [])"
  have e: "emits ?cs s ?s2" by (auto simp: emits_def call_handler_def slots_def)
  have "calls ([] @ []) ?s2 (account_dma_interrupt m ?s2)"
    unfolding account_dma_interrupt_def
  proof (rule calls_bind)
    show "calls [] ?s2 (if m AND 1 \<noteq> 0 then count_int INT_DMA0 ?s2 else Inr ?s2)"
      using emits_wf [OF e wf] calls_count [of ?s2 INT_DMA0] by (simp add: calls_Inr emits_refl INT_DMA0_def)
    fix s3 assume "emits [] ?s2 s3"
    then have "irq_wf s3" using emits_wf [OF e wf] emits_wf by blast
    then show "calls [] s3 (if m AND 2 \<noteq> 0 then count_int INT_DMA1 s3 else Inr s3)"
      using calls_count [of s3 INT_DMA1] by (simp add: calls_Inr emits_refl INT_DMA1_def)
  qed
  then have "good (\<lambda>s'. emits [] ?s2 s') (account_dma_interrupt m ?s2)" by (simp add: calls_def)
  then have "good (\<lambda>s'. emits ?cs s s') (account_dma_interrupt m ?s2)"
    by (rule good_mono) (use emits_trans [OF e] in fastforce)
  then show ?thesis by (simp add: calls_def handle_dma_interrupt_def Let_def)
qed

definition berr_of :: "int_round \<Rightarrow> vme_bus_error" where
  "berr_of r = \<lparr>err_address = reg_join (ir_veau r) (ir_veal r), err_am = drop_bit TSI148_LCSR_VEAT_AM_SHIFT (ir_veat r AND TSI148_LCSR_VEAT_AM)\<rparr>"

definition berr_calls :: "vme_berr_handler list \<Rightarrow> vme_bus_error \<Rightarrow> irq_call list" where
  "berr_calls hs err = map (\<lambda>h. Berr_handler (bh_func h) err) (filter (vme_berr_match err) hs)"

lemma dispatch_calls: "vme_dispatch_berr err s = s\<lparr>irq_calls := irq_calls s @ berr_calls (h_list s) err\<rparr>"
proof -
  have "fold (\<lambda>h s. if vme_berr_match err h then call_handler (Berr_handler (bh_func h) err) s else s) hs s =
      s\<lparr>irq_calls := irq_calls s @ berr_calls hs err\<rparr>" for hs s
    by (induction hs arbitrary: s) (simp_all add: berr_calls_def call_handler_def)
  then show ?thesis by (simp add: vme_dispatch_berr_def)
qed

lemma calls_verr: "irq_wf s \<Longrightarrow> calls (berr_calls (h_list s) (berr_of r)) s (handle_vme_error r s)"
proof -
  assume wf: "irq_wf s"
  let ?s1 = "vme_dispatch_berr (berr_of r) ((lwrite L_VEAT TSI148_LCSR_VEAT_VESCL s)
    \<lparr>I_bridge := (I_bridge s)\<lparr>V_veat := ir_veat r AND NOT TSI148_LCSR_VEAT_VES, verr_error := berr_of r, verr_valid := True\<rparr>\<rparr>)"
  have e: "emits (berr_calls (h_list s) (berr_of r)) s ?s1" by (simp add: dispatch_calls emits_def lwrite_def slots_def)
  have c: "calls [] ?s1 (count_int INT_VERR ?s1)" by (rule calls_count [OF emits_wf [OF e wf]]) (simp add: INT_VERR_def)
  have "handle_vme_error r s = count_int INT_VERR ?s1"
    by (simp add: handle_vme_error_def tsi148_handle_vme_error_def Let_def berr_of_def)
  moreover have "good (\<lambda>s'. emits (berr_calls (h_list s) (berr_of r)) s s') (count_int INT_VERR ?s1)"
    using c unfolding calls_def by (rule good_mono) (use emits_trans [OF e] in fastforce)
  ultimately show ?thesis by (simp add: calls_def)
qed

text \<open>The calls for the levels of \<open>m\<close>, from 7 down to 1, with the vectors the bus delivers.\<close>

definition level_calls :: "(nat \<times> u32) option list \<Rightarrow> int_round \<Rightarrow> u32 \<Rightarrow> nat \<Rightarrow> irq_call list" where
  "level_calls sl r m i =
     (if m AND push_bit i 1 = 0 then []
      else case sl ! unat (ir_iack r i) of None \<Rightarrow> [] | Some (h, a) \<Rightarrow> [Irq_handler h a])"

lemma iack_nat: "sint (tsi148_iack8 r i) = int (unat (ir_iack r i))"
proof -
  have b: "unat (ir_iack r i) < 2 ^ 8" using unsigned_less [of "ir_iack r i"] by simp
  have "unat (tsi148_iack8 r i) = unat (ir_iack r i)"
  proof -
    have "tsi148_iack8 r i = take_bit 8 (ucast (ir_iack r i))"
      by (simp add: tsi148_iack8_def take_bit_eq_mask mask_eq_exp_minus_1)
    also have "\<dots> = ucast (ir_iack r i)" by (rule bit_word_eqI) (auto simp: bit_simps dest: bit_imp_le_length)
    finally show ?thesis using b by (simp add: unsigned_ucast_eq take_bit_nat_eq_self_iff)
  qed
  then have "int (unat (tsi148_iack8 r i)) = int (unat (ir_iack r i))" by (rule arg_cong)
  then have u: "uint (tsi148_iack8 r i) = uint (ir_iack r i)" by simp
  have "0 \<le> uint (ir_iack r i)" "uint (ir_iack r i) < 2 ^ 8" using unsigned_less [of "ir_iack r i"] by simp_all
  moreover have "- (2 ^ 31) \<le> (0 :: int)" by simp
  ultimately have "- (2 ^ 31) \<le> uint (ir_iack r i)" "uint (ir_iack r i) < 2 ^ 31" by (blast intro: order_trans, simp)
  then have "signed_take_bit 31 (uint (ir_iack r i)) = uint (ir_iack r i)" by (rule signed_take_bit_int_eq_self)
  then show ?thesis by (simp add: sint_uint u)
qed

lemma calls_level:
  assumes "irq_wf s" "1 \<le> i" "i < 8"
  shows "calls (level_calls (slots s) r m i) s (vme_interrupt_level r m i s)"
proof (cases "m AND push_bit i 1 = 0")
  case True
  then show ?thesis by (simp add: vme_interrupt_level_def level_calls_def calls_Inr emits_refl)
next
  case False
  define n where "n = unat (ir_iack r i)"
  have b: "n < length (vme_irq_table s)"
    unfolding n_def using unsigned_less [of "ir_iack r i"] assms(1) by (simp add: irq_wf_def VME_NUM_VECTORS_def)
  let ?v = "vme_irq_table s ! n"
  let ?one = "case v_handler ?v of None \<Rightarrow> Inr s
      | Some h \<Rightarrow> bind_r (arr_set (vme_irq_table s) (int n) (?v\<lparr>v_count := v_count ?v + 1\<rparr>)) (\<lambda>t.
          Inr (call_handler (Irq_handler h (v_arg ?v)) (s\<lparr>vme_irq_table := t\<rparr>)))"
  have st: "vme_interrupt_level r m i s = bind_r ?one (count_int (INT_IRQ1 + i - 1))"
    using False b by (simp add: vme_interrupt_level_def iack_nat Let_def arr_get_def flip: n_def)
  have lc: "level_calls (slots s) r m i = (case v_handler ?v of None \<Rightarrow> [] | Some h \<Rightarrow> [Irq_handler h (v_arg ?v)])"
    using False b by (simp add: level_calls_def slots_def slot_def n_def [symmetric] split: option.splits)
  have "calls (level_calls (slots s) r m i) s ?one"
  proof (cases "v_handler ?v")
    case None
    then show ?thesis by (simp add: lc calls_Inr emits_refl)
  next
    case (Some h)
    have "slots (s\<lparr>vme_irq_table := (vme_irq_table s)[n := ?v\<lparr>v_count := v_count ?v + 1\<rparr>]\<rparr>) = slots s"
      using b by (simp add: slots_def map_update list_update_same_conv)
    then have "emits [] s (s\<lparr>vme_irq_table := (vme_irq_table s)[n := (vme_irq_table s ! n)\<lparr>v_count := v_count (vme_irq_table s ! n) + 1\<rparr>]\<rparr>)"
      by (simp add: emits_def)
    from emits_trans [OF this emits_call] show ?thesis using b Some by (simp add: lc calls_Inr arr_set_def)
  qed
  then have "calls (level_calls (slots s) r m i @ []) s (bind_r ?one (count_int (INT_IRQ1 + i - 1)))"
    by (rule calls_bind) (use emits_wf [OF _ assms(1)] assms(3) in \<open>auto intro!: calls_count simp: INT_IRQ1_def\<close>)
  then show ?thesis unfolding st by simp
qed

text \<open>All calls of a round whose enabled interrupts are \<open>m\<close>: DMA channels, bus errors, vectors.\<close>

definition round_calls :: "(nat \<times> u32) option list \<Rightarrow> vme_berr_handler list \<Rightarrow> int_round \<Rightarrow> u32 \<Rightarrow> irq_call list" where
  "round_calls sl hs r m =
     (if m AND 0x1000000 \<noteq> 0 then [Wake_dma 0] else []) @ (if m AND 0x2000000 \<noteq> 0 then [Wake_dma 1] else []) @
     (if m AND TSI148_LCSR_INT_VERR \<noteq> 0 then berr_calls hs (berr_of r) else []) @
     concat (map (level_calls sl r m) (rev [1 ..< 8]))"

lemma dma_bits:
  fixes m :: u32
  shows "drop_bit 24 (m AND 0x3000000) AND 1 = 0 \<longleftrightarrow> m AND 0x1000000 = 0"
    "drop_bit 24 (m AND 0x3000000) AND 2 = 0 \<longleftrightarrow> m AND 0x2000000 = 0"
    "m AND 0x3000000 = 0 \<longleftrightarrow> m AND 0x1000000 = 0 \<and> m AND 0x2000000 = 0"
proof -
  have b: "x AND 1 = 0 \<longleftrightarrow> \<not> bit x 0" "x AND 2 = 0 \<longleftrightarrow> \<not> bit x 1" "x AND 0x1000000 = 0 \<longleftrightarrow> \<not> bit x 24"
    "x AND 0x2000000 = 0 \<longleftrightarrow> \<not> bit x 25" for x :: u32
    using and_exp_eq_0_iff_not_bit [of x 0] and_exp_eq_0_iff_not_bit [of x 1] and_exp_eq_0_iff_not_bit [of x 24]
      and_exp_eq_0_iff_not_bit [of x 25] by simp_all
  have k: "bit (0x3000000 :: u32) 24" "bit (0x3000000 :: u32) 25" by code_simp+
  show "drop_bit 24 (m AND 0x3000000) AND 1 = 0 \<longleftrightarrow> m AND 0x1000000 = 0"
    "drop_bit 24 (m AND 0x3000000) AND 2 = 0 \<longleftrightarrow> m AND 0x2000000 = 0"
    unfolding b bit_drop_bit_eq comp_def bit_and_iff using k by simp_all
  have "(0x3000000 :: u32) = 0x1000000 OR 0x2000000" by simp
  then show "m AND 0x3000000 = 0 \<longleftrightarrow> m AND 0x1000000 = 0 \<and> m AND 0x2000000 = 0"
    by (simp only: bit.conj_disj_distrib or_eq_0_iff)
qed

lemma irqm_bits: "1 \<le> i \<Longrightarrow> i < 8 \<Longrightarrow> (m AND TSI148_LCSR_INT_IRQM) AND push_bit i 1 = m AND push_bit i 1"
proof -
  assume "1 \<le> i" "i < 8"
  moreover have "\<forall>i \<in> set [1 ..< 8]. TSI148_LCSR_INT_IRQM AND push_bit i 1 = push_bit i 1" by code_simp
  ultimately show ?thesis by (simp add: and.assoc)
qed

lemma calls_raised:
  assumes wf: "irq_wf s"
  shows "calls (round_calls (slots s) (h_list s) r m) s (handle_raised r m s)"
proof -
  let ?dm = "drop_bit TSI148_LCSR_INT_DMA_SHIFT (m AND TSI148_LCSR_INT_DMA_M)"
  let ?dma = "(if ?dm AND 1 \<noteq> 0 then [Wake_dma 0] else []) @ (if ?dm AND 2 \<noteq> 0 then [Wake_dma 1] else [])"
  let ?levels = "concat (map (level_calls (slots s) r (m AND TSI148_LCSR_INT_IRQM)) (rev [1 ..< 8]))"
  let ?cs1 = "if m AND TSI148_LCSR_INT_DMA_M \<noteq> 0 then ?dma else []"
  let ?cs3 = "if m AND TSI148_LCSR_INT_VERR \<noteq> 0 then berr_calls (h_list s) (berr_of r) else []"
  let ?cs6 = "if m AND TSI148_LCSR_INT_IRQM \<noteq> 0 then ?levels else []"
  have "calls (?cs1 @ [] @ ?cs3 @ [] @ [] @ ?cs6) s (handle_raised r m s)"
    unfolding handle_raised_def
  proof (rule calls_bind)
    show "calls ?cs1 s (if m AND TSI148_LCSR_INT_DMA_M \<noteq> 0 then handle_dma_interrupt ?dm s else Inr s)"
      by (rule calls_if) (rule calls_dma [OF wf])
    fix s1 assume 1: "emits ?cs1 s s1"
    let ?m3 = "\<lambda>s2. if m AND TSI148_LCSR_INT_VERR \<noteq> 0 then handle_vme_error r s2 else Inr s2"
    let ?m4 = "\<lambda>s3. if m AND TSI148_LCSR_INT_MB_M \<noteq> 0 then handle_mbox_interrupt (drop_bit TSI148_LCSR_INT_MB_SHIFT (m AND TSI148_LCSR_INT_MB_M)) s3 else Inr s3"
    let ?m5 = "\<lambda>s4. if m AND TSI148_LCSR_INT_LM_M \<noteq> 0 then handle_lm_interrupt (drop_bit TSI148_LCSR_INT_LM_SHIFT (m AND TSI148_LCSR_INT_LM_M)) s4 else Inr s4"
    let ?m6 = "\<lambda>s5. if m AND TSI148_LCSR_INT_IRQM \<noteq> 0 then handle_vme_interrupt r (m AND TSI148_LCSR_INT_IRQM) s5 else Inr s5"
    show "calls ([] @ ?cs3 @ [] @ [] @ ?cs6) s1 (bind_r (if m AND TSI148_LCSR_INT_PERR \<noteq> 0 then handle_pci_error s1 else Inr s1) (\<lambda>s2.
        bind_r (?m3 s2) (\<lambda>s3. bind_r (?m4 s3) (\<lambda>s4. bind_r (?m5 s4) ?m6))))"
    proof (rule calls_bind)
      have "calls [] s1 (handle_pci_error s1)"
        using calls_count [of "lwrite L_EDPAT TSI148_LCSR_EDPAT_EDPCL s1" INT_PERR] emits_wf [OF emits_write emits_wf [OF 1 wf], of L_EDPAT] emits_trans [OF emits_write, of L_EDPAT]
        by (fastforce simp: calls_def good_iff handle_pci_error_def tsi148_handle_pci_error_def INT_PERR_def)
      then show "calls [] s1 (if m AND TSI148_LCSR_INT_PERR \<noteq> 0 then handle_pci_error s1 else Inr s1)" by (simp add: calls_Inr emits_refl)
      fix s2 assume 2: "emits [] s1 s2"
      have e2: "emits ?cs1 s s2" using emits_trans [OF 1 2] by simp
      show "calls (?cs3 @ [] @ [] @ ?cs6) s2 (bind_r (?m3 s2) (\<lambda>s3. bind_r (?m4 s3) (\<lambda>s4. bind_r (?m5 s4) ?m6)))"
      proof (rule calls_bind)
        have "h_list s2 = h_list s" using e2 by (simp add: emits_def)
        then show "calls ?cs3 s2 (?m3 s2)" using calls_verr [OF emits_wf [OF e2 wf], of r] by (simp add: calls_Inr emits_refl)
        fix s3 assume 3: "emits ?cs3 s2 s3"
        note e3 = emits_trans [OF e2 3]
        show "calls ([] @ [] @ ?cs6) s3 (bind_r (?m4 s3) (\<lambda>s4. bind_r (?m5 s4) ?m6))"
        proof (rule calls_bind)
          show "calls [] s3 (?m4 s3)"
            using calls_bits [OF emits_wf [OF e3 wf]] by (simp add: handle_mbox_interrupt_def INT_MB0_def calls_Inr emits_refl)
          fix s4 assume 4: "emits [] s3 s4"
          note e4 = emits_trans [OF e3 4]
          show "calls ([] @ ?cs6) s4 (bind_r (?m5 s4) ?m6)"
          proof (rule calls_bind)
            show "calls [] s4 (?m5 s4)"
              using calls_bits [OF emits_wf [OF e4 wf]] by (simp add: handle_lm_interrupt_def INT_LM0_def calls_Inr emits_refl)
            fix s5 assume 5: "emits [] s4 s5"
            note e5 = emits_trans [OF e4 5]
            have sl: "slots s5 = slots s" using e5 by (simp add: emits_def)
            have "calls ?levels s5 (handle_vme_interrupt r (m AND TSI148_LCSR_INT_IRQM) s5)"
              unfolding handle_vme_interrupt_def
            proof (rule calls_fold [OF emits_wf [OF e5 wf]])
              fix i s6 cs assume "i \<in> set (rev [1 ..< 8])" "irq_wf s6" "emits cs s5 s6"
              moreover from this have "slots s6 = slots s" by (simp add: emits_def sl)
              ultimately show "calls (level_calls (slots s) r (m AND TSI148_LCSR_INT_IRQM) i) s6 (vme_interrupt_level r (m AND TSI148_LCSR_INT_IRQM) i s6)"
                using calls_level [of s6 i r "m AND TSI148_LCSR_INT_IRQM"] by simp
            qed
            then show "calls ?cs6 s5 (?m6 s5)" by (simp add: calls_Inr emits_refl)
          qed
        qed
      qed
    qed
  qed
  moreover have "?cs1 = (if m AND 0x1000000 \<noteq> 0 then [Wake_dma 0] else []) @ (if m AND 0x2000000 \<noteq> 0 then [Wake_dma 1] else [])"
    unfolding TSI148_LCSR_INT_DMA_SHIFT_def TSI148_LCSR_INT_DMA_M_def dma_bits by simp
  moreover have "?cs6 = concat (map (level_calls (slots s) r m) (rev [1 ..< 8]))"
  proof -
    have l: "level_calls (slots s) r (m AND TSI148_LCSR_INT_IRQM) i = level_calls (slots s) r m i" if "i \<in> set (rev [1 ..< 8])" for i
      using irqm_bits [of i m] that by (simp add: level_calls_def)
    then have "?levels = concat (map (level_calls (slots s) r m) (rev [1 ..< 8]))" by (intro arg_cong [of _ _ concat] map_cong) simp_all
    moreover have "?levels = []" if "m AND TSI148_LCSR_INT_IRQM = 0" unfolding that by (simp add: level_calls_def)
    moreover have "(if m AND TSI148_LCSR_INT_IRQM \<noteq> 0 then xs else []) = ys" if "xs = ys" "m AND TSI148_LCSR_INT_IRQM = 0 \<Longrightarrow> xs = []"
      for xs ys :: "irq_call list" using that by auto
    ultimately show ?thesis by blast
  qed
  ultimately show ?thesis by (simp add: round_calls_def)
qed

text \<open>The result and the calls of the whole handler: the rounds go on until one has nothing to handle.\<close>

fun int_calls :: "(int_round \<Rightarrow> u32 \<Rightarrow> irq_call list) \<Rightarrow> u32 \<Rightarrow> int_round list \<Rightarrow> irqreturn_t \<times> irq_call list" where
  "int_calls f en [] = (IRQ_HANDLED, [])"
| "int_calls f en (r # rs) =
     (if ir_ints r = 0 then (IRQ_HANDLED, [])
      else if ir_ints r AND en = 0 then (IRQ_NONE, [])
      else let (x, cs) = int_calls f en rs in (x, f r (ir_ints r AND en) @ cs))"

lemma interrupt_emits:
  assumes "irq_wf s"
  shows "\<exists>s'. vme_bridge_interrupt rs s = Inr (fst (int_calls (round_calls (slots s) (h_list s)) (vme_interrupts_enabled s) rs), s') \<and>
    emits (snd (int_calls (round_calls (slots s) (h_list s)) (vme_interrupts_enabled s) rs)) s s'"
  using assms
proof (induction rs arbitrary: s)
  case Nil
  then show ?case by (simp add: emits_refl)
next
  case (Cons r rs)
  let ?s1 = "lwrite L_INTC (ir_ints r) s"
  let ?m = "ir_ints r AND vme_interrupts_enabled s"
  have w: "emits [] s ?s1" by (simp add: emits_write)
  have en: "vme_interrupts_enabled ?s1 = vme_interrupts_enabled s" "slots ?s1 = slots s" "h_list ?s1 = h_list s" using w by (simp_all add: emits_def)
  note wf1 = emits_wf [OF w Cons.prems]
  consider "ir_ints r = 0" | "ir_ints r \<noteq> 0" "?m = 0" | "ir_ints r \<noteq> 0" "?m \<noteq> 0" by blast
  then show ?case
  proof cases
    case 1
    then show ?thesis by (simp add: emits_refl)
  next
    case 2
    have "calls [] ?s1 (count_int INT_SPURIOUS ?s1)" by (rule calls_count [OF wf1]) (simp add: INT_SPURIOUS_def)
    then obtain s2 where "count_int INT_SPURIOUS ?s1 = Inr s2" "emits [] ?s1 s2" by (auto simp: calls_def good_iff)
    then show ?thesis using 2 en(1) emits_trans [OF w] by (auto simp: Let_def)
  next
    case 3
    have "calls (round_calls (slots s) (h_list s) r ?m) ?s1 (handle_raised r ?m ?s1)"
      using calls_raised [OF wf1, of r ?m] by (simp add: en)
    then obtain s2 where s2: "handle_raised r ?m ?s1 = Inr s2" "emits (round_calls (slots s) (h_list s) r ?m) ?s1 s2"
      by (auto simp: calls_def good_iff)
    have e2: "emits (round_calls (slots s) (h_list s) r ?m) s s2" using emits_trans [OF w s2(2)] by simp
    have same: "slots s2 = slots s" "h_list s2 = h_list s" "vme_interrupts_enabled s2 = vme_interrupts_enabled s" using e2 by (simp_all add: emits_def)
    let ?I = "int_calls (round_calls (slots s) (h_list s)) (vme_interrupts_enabled s) rs"
    obtain s' where "vme_bridge_interrupt rs s2 = Inr (fst ?I, s')" "emits (snd ?I) s2 s'"
      using Cons.IH [OF emits_wf [OF e2 Cons.prems]] same by auto
    then show ?thesis using 3 en(1) s2(1) emits_trans [OF e2] by (auto simp: Let_def split: prod.splits)
  qed
qed

section \<open>The abstract machine\<close>

text \<open>
  A partial map from vectors to handlers with their arguments; the ranges of the bus error handlers,
  over the natural numbers; the enabled interrupts; and the calls made so far.
\<close>

record irq_spec =
  sp_map :: "nat \<Rightarrow> (nat \<times> u32) option"
  sp_ranges :: "(nat \<times> vme_bus_error \<times> nat \<times> nat) list"
  sp_enabled :: u32
  sp_calls :: "irq_call list"

definition in_range :: "vme_bus_error \<Rightarrow> nat \<times> vme_bus_error \<times> nat \<times> nat \<Rightarrow> bool" where
  "in_range err x = (case x of (a, e, n, f) \<Rightarrow> err_am err = err_am e \<and> unat (err_address err) \<in> {unat (err_address e) ..< unat (err_address e) + n})"

definition spec_round :: "irq_spec \<Rightarrow> int_round \<Rightarrow> u32 \<Rightarrow> irq_call list" where
  "spec_round a r m =
     (if m AND 0x1000000 \<noteq> 0 then [Wake_dma 0] else []) @ (if m AND 0x2000000 \<noteq> 0 then [Wake_dma 1] else []) @
     (if m AND TSI148_LCSR_INT_VERR \<noteq> 0 then map (\<lambda>(_, _, _, f). Berr_handler f (berr_of r)) (filter (in_range (berr_of r)) (sp_ranges a)) else []) @
     concat (map (\<lambda>i. if m AND push_bit i 1 = 0 then []
       else case sp_map a (unat (ir_iack r i)) of None \<Rightarrow> [] | Some (h, x) \<Rightarrow> [Irq_handler h x]) (rev [1 ..< 8]))"

datatype irq_event =
    Request bool u32 nat u32 "string option"
  | Free bool u32
  | Register "nat option" vme_bus_error u32 nat
  | Unregister nat
  | Enable u32
  | Disable u32
  | Interrupt "int_round list"

datatype irq_out = Rc "errno option" | Registered "errno + nat" | Accepted bool | Returned irqreturn_t

definition irq_do :: "irq_event \<Rightarrow> irq_state \<Rightarrow> (irq_out \<times> irq_state) result" where
  "irq_do e s = (case e of
     Request sig v h x n \<Rightarrow> bind_r (vme_request_irq sig v (Some h) x n s) (\<lambda>(rc, s1). Inr (Rc rc, s1))
   | Free sig v \<Rightarrow> bind_r (vme_free_irq sig v s) (\<lambda>(rc, s1). Inr (Rc rc, s1))
   | Register mem err n f \<Rightarrow> (let (r, s1) = vme_register_berr_handler mem err n f s in Inr (Registered r, s1))
   | Unregister a \<Rightarrow> Inr (Accepted True, vme_unregister_berr_handler a s)
   | Enable m \<Rightarrow> (let (ok, s1) = vme_enable_interrupts (\<lambda>_ v. v) m s in Inr (Accepted ok, s1))
   | Disable m \<Rightarrow> (let (ok, s1) = vme_disable_interrupts (\<lambda>_ v. v) m s in Inr (Accepted ok, s1))
   | Interrupt rs \<Rightarrow> bind_r (vme_bridge_interrupt rs s) (\<lambda>(x, s1). Inr (Returned x, s1)))"

definition irq_spec_do :: "irq_event \<Rightarrow> irq_spec \<Rightarrow> irq_out \<times> irq_spec" where
  "irq_spec_do e a = (case e of
     Request sig v h x n \<Rightarrow>
       if 256 \<le> unat v then (Rc (Some EINVAL), a) else if sig then (Rc (Some EINTR), a)
       else if sp_map a (unat v) \<noteq> None then (Rc (Some EBUSY), a) else (Rc None, a\<lparr>sp_map := (sp_map a)(unat v \<mapsto> (h, x))\<rparr>)
   | Free sig v \<Rightarrow>
       if 256 \<le> unat v then (Rc (Some EINVAL), a) else if sig then (Rc (Some EINTR), a)
       else if sp_map a (unat v) = None then (Rc (Some EINVAL), a) else (Rc None, a\<lparr>sp_map := (sp_map a)(unat v := None)\<rparr>)
   | Register mem err n f \<Rightarrow>
       if n = 0 then (Registered (Inl EINVAL), a)
       else (case mem of None \<Rightarrow> (Registered (Inl ENOMEM), a)
             | Some p \<Rightarrow> (Registered (Inr p), a\<lparr>sp_ranges := sp_ranges a @ [(p, err, unat n, f)]\<rparr>))
   | Unregister p \<Rightarrow> (Accepted True, a\<lparr>sp_ranges := takeWhile (\<lambda>x. fst x \<noteq> p) (sp_ranges a) @ tl (dropWhile (\<lambda>x. fst x \<noteq> p) (sp_ranges a))\<rparr>)
   | Enable m \<Rightarrow> (Accepted True, a\<lparr>sp_enabled := sp_enabled a OR m\<rparr>)
   | Disable m \<Rightarrow> (Accepted True, a\<lparr>sp_enabled := sp_enabled a AND NOT m\<rparr>)
   | Interrupt rs \<Rightarrow> (let (x, cs) = int_calls (spec_round a) (sp_enabled a) rs in (Returned x, a\<lparr>sp_calls := sp_calls a @ cs\<rparr>)))"

text \<open>A range of addresses must not wrap around.\<close>

definition irq_legal :: "irq_event \<Rightarrow> bool" where
  "irq_legal e = (case e of Register mem err n f \<Rightarrow> unat (err_address err) + unat n < 2 ^ 64 | _ \<Rightarrow> True)"

definition irq_inv :: "irq_state \<Rightarrow> bool" where
  "irq_inv s \<longleftrightarrow> irq_wf s \<and> (\<forall>h \<in> set (h_list s). unat (err_address (bh_error h)) + unat (bh_size h) < 2 ^ 64) \<and>
     lregs s L_INTEO = vme_interrupts_enabled s"

definition slot_at :: "(nat \<times> u32) option list \<Rightarrow> nat \<Rightarrow> (nat \<times> u32) option" where
  "slot_at sl v = (if v < VME_NUM_VECTORS then sl ! v else None)"

definition irq_view :: "irq_state \<Rightarrow> irq_spec" where
  "irq_view s = \<lparr>sp_map = slot_at (slots s),
     sp_ranges = map (\<lambda>h. (bh_addr h, bh_error h, unat (bh_size h), bh_func h)) (h_list s),
     sp_enabled = vme_interrupts_enabled s, sp_calls = irq_calls s\<rparr>"

lemma match_range:
  assumes "unat (err_address (bh_error h)) + unat (bh_size h) < 2 ^ 64"
  shows "vme_berr_match err h = in_range err (bh_addr h, bh_error h, unat (bh_size h), bh_func h)"
proof -
  have u: "unat (ucast (bh_size h) :: 64 word) = unat (bh_size h)"
  proof -
    have "unat (bh_size h) < 2 ^ 32" using unsigned_less [of "bh_size h"] by simp
    then show ?thesis by (simp add: unsigned_ucast_eq take_bit_nat_eq_self_iff)
  qed
  have "unat (err_address (bh_error h) + ucast (bh_size h)) = unat (err_address (bh_error h)) + unat (bh_size h)"
    using assms u by (simp add: unat_word_ariths)
  then show ?thesis by (simp add: vme_berr_match_def in_range_def word_le_nat_alt word_less_nat_alt)
qed

lemma round_spec:
  assumes "irq_inv s"
  shows "round_calls (slots s) (h_list s) r m = spec_round (irq_view s) r m"
proof -
  have h: "berr_calls (h_list s) err = map (\<lambda>(_, _, _, f). Berr_handler f err) (filter (in_range err) (sp_ranges (irq_view s)))" for err
  proof -
    have "filter (vme_berr_match err) (h_list s) = filter (\<lambda>h. in_range err (bh_addr h, bh_error h, unat (bh_size h), bh_func h)) (h_list s)"
      by (rule filter_cong [OF refl]) (use assms match_range in \<open>auto simp: irq_inv_def\<close>)
    then show ?thesis by (simp add: berr_calls_def irq_view_def filter_map comp_def)
  qed
  have l: "level_calls (slots s) r m = (\<lambda>i. if m AND push_bit i 1 = 0 then []
       else case sp_map (irq_view s) (unat (ir_iack r i)) of None \<Rightarrow> [] | Some (h, x) \<Rightarrow> [Irq_handler h x])"
  proof (rule ext)
    fix i
    have "unat (ir_iack r i) < 256" using unsigned_less [of "ir_iack r i"] by simp
    then show "level_calls (slots s) r m i = (if m AND push_bit i 1 = 0 then []
       else case sp_map (irq_view s) (unat (ir_iack r i)) of None \<Rightarrow> [] | Some (h, x) \<Rightarrow> [Irq_handler h x])"
      by (simp add: level_calls_def irq_view_def slot_at_def VME_NUM_VECTORS_def)
  qed
  show ?thesis unfolding round_calls_def spec_round_def h l ..
qed

lemma slots_upd: "slots (upd_virq i v s) = (slots s)[i := slot v]"
  by (simp add: slots_def upd_virq_def map_update)

lemma del_view: "map f (del_berr p hs) = takeWhile (\<lambda>x. fst x \<noteq> p) (map f hs) @ tl (dropWhile (\<lambda>x. fst x \<noteq> p) (map f hs))"
  if "\<And>h. fst (f h) = bh_addr h" for f :: "vme_berr_handler \<Rightarrow> nat \<times> 'b"
  by (induction hs) (auto simp: that)

lemma del_subset: "set (del_berr p hs) \<subseteq> set hs"
  by (induction hs) auto

lemma lock_free: "irq_wf s \<Longrightarrow> irq_table_lock s = False"
  by (simp add: irq_wf_def)

lemma with_lock_run:
  assumes "irq_wf s"
  shows "with_irq_lock sig f s =
    (if sig then Inr (Some EINTR, s) else Inr (fst (f (s\<lparr>irq_table_lock := True\<rparr>)), (snd (f (s\<lparr>irq_table_lock := True\<rparr>)))\<lparr>irq_table_lock := False\<rparr>))"
  using assms by (simp add: with_irq_lock_def lock_free case_prod_beta)

lemma relock: "irq_wf s \<Longrightarrow> s\<lparr>irq_table_lock := False\<rparr> = s"
  by (cases s) (simp add: irq_wf_def)

text \<open>One slot of the table changes.\<close>

lemma set_slot:
  assumes "irq_inv s" "n < 256"
  shows "irq_inv ((upd_virq n v (s\<lparr>irq_table_lock := True\<rparr>))\<lparr>irq_table_lock := False\<rparr>)"
    "irq_view ((upd_virq n v (s\<lparr>irq_table_lock := True\<rparr>))\<lparr>irq_table_lock := False\<rparr>) = (irq_view s)\<lparr>sp_map := (sp_map (irq_view s))(n := slot v)\<rparr>"
proof -
  have len: "length (slots s) = 256" using assms(1) by (simp add: irq_inv_def irq_wf_def slots_def VME_NUM_VECTORS_def)
  show "irq_inv ((upd_virq n v (s\<lparr>irq_table_lock := True\<rparr>))\<lparr>irq_table_lock := False\<rparr>)"
    using assms(1) by (simp add: irq_inv_def irq_wf_def upd_virq_def)
  have "slots ((upd_virq n v (s\<lparr>irq_table_lock := True\<rparr>))\<lparr>irq_table_lock := False\<rparr>) = (slots s)[n := slot v]"
    by (simp add: slots_def upd_virq_def map_update)
  then show "irq_view ((upd_virq n v (s\<lparr>irq_table_lock := True\<rparr>))\<lparr>irq_table_lock := False\<rparr>) = (irq_view s)\<lparr>sp_map := (sp_map (irq_view s))(n := slot v)\<rparr>"
    using len assms(2) by (auto simp: irq_view_def upd_virq_def slot_at_def VME_NUM_VECTORS_def nth_list_update)
qed

lemma slot_view: "irq_inv s \<Longrightarrow> n < 256 \<Longrightarrow> sp_map (irq_view s) n = slot (vme_irq_table s ! n)"
  by (simp add: irq_view_def slots_def slot_at_def irq_inv_def irq_wf_def VME_NUM_VECTORS_def)

lemma slot_None: "slot v = None \<longleftrightarrow> v_handler v = None"
  by (simp add: slot_def split: option.splits)

lemma sim_request:
  assumes "irq_inv s"
  shows "\<exists>c'. irq_do (Request sig v h x n) s = Inr (fst (irq_spec_do (Request sig v h x n) (irq_view s)), c') \<and> irq_inv c' \<and>
    irq_view c' = snd (irq_spec_do (Request sig v h x n) (irq_view s))"
proof -
  have wf: "irq_wf s" using assms by (simp add: irq_inv_def)
  consider (out) "256 \<le> unat v" | (sig) "unat v < 256" "sig" | (busy) "unat v < 256" "\<not> sig" "v_handler (vme_irq_table s ! unat v) \<noteq> None"
    | (free) "unat v < 256" "\<not> sig" "v_handler (vme_irq_table s ! unat v) = None" by linarith
  then show ?thesis
  proof cases
    case busy
    then show ?thesis using assms slot_view [OF assms busy(1)] slot_None relock [OF wf]
      by (simp add: irq_do_def irq_spec_do_def vme_request_irq_def VME_NUM_VECTORS_def with_lock_run [OF wf] Let_def)
  next
    case free
    let ?v = "\<lparr>v_handler = Some h, v_arg = x, v_count = 0, v_name = if n \<noteq> None then n else Some ''Unknown''\<rparr>"
    have "slot ?v = Some (h, x)" by (simp add: slot_def)
    then show ?thesis using free set_slot [OF assms free(1), of ?v] slot_view [OF assms free(1)] slot_None
      by (simp add: irq_do_def irq_spec_do_def vme_request_irq_def VME_NUM_VECTORS_def with_lock_run [OF wf] Let_def)
  qed (use assms in \<open>simp_all add: irq_do_def irq_spec_do_def vme_request_irq_def VME_NUM_VECTORS_def with_lock_run [OF wf]\<close>)
qed

lemma sim_free:
  assumes "irq_inv s"
  shows "\<exists>c'. irq_do (Free sig v) s = Inr (fst (irq_spec_do (Free sig v) (irq_view s)), c') \<and> irq_inv c' \<and>
    irq_view c' = snd (irq_spec_do (Free sig v) (irq_view s))"
proof -
  have wf: "irq_wf s" using assms by (simp add: irq_inv_def)
  consider (out) "256 \<le> unat v" | (sig) "unat v < 256" "sig" | (none) "unat v < 256" "\<not> sig" "v_handler (vme_irq_table s ! unat v) = None"
    | (used) "unat v < 256" "\<not> sig" "v_handler (vme_irq_table s ! unat v) \<noteq> None" by linarith
  then show ?thesis
  proof cases
    case none
    then show ?thesis using assms slot_view [OF assms none(1)] slot_None relock [OF wf]
      by (simp add: irq_do_def irq_spec_do_def vme_free_irq_def VME_NUM_VECTORS_def with_lock_run [OF wf] Let_def)
  next
    case used
    have f: "slot free_virq = None" by (simp add: slot_def free_virq_def)
    show ?thesis using used set_slot [OF assms used(1), of free_virq] slot_view [OF assms used(1)] slot_None [of "vme_irq_table s ! unat v"]
      by (auto simp: irq_do_def irq_spec_do_def vme_free_irq_def VME_NUM_VECTORS_def with_lock_run [OF wf] Let_def f)
  qed (use assms in \<open>simp_all add: irq_do_def irq_spec_do_def vme_free_irq_def VME_NUM_VECTORS_def with_lock_run [OF wf]\<close>)
qed

lemma sim_register:
  assumes "irq_inv s" "irq_legal (Register mem err n f)"
  shows "\<exists>c'. irq_do (Register mem err n f) s = Inr (fst (irq_spec_do (Register mem err n f) (irq_view s)), c') \<and> irq_inv c' \<and>
    irq_view c' = snd (irq_spec_do (Register mem err n f) (irq_view s))"
proof -
  have "slots (s\<lparr>h_list := l\<rparr>) = slots s" for l by (simp add: slots_def)
  then show ?thesis using assms
    by (cases mem) (auto simp: irq_do_def irq_spec_do_def vme_register_berr_handler_def irq_view_def irq_inv_def irq_wf_def irq_legal_def)
qed

lemma sim_unregister:
  assumes "irq_inv s"
  shows "\<exists>c'. irq_do (Unregister p) s = Inr (fst (irq_spec_do (Unregister p) (irq_view s)), c') \<and> irq_inv c' \<and>
    irq_view c' = snd (irq_spec_do (Unregister p) (irq_view s))"
proof -
  have "slots (s\<lparr>h_list := l\<rparr>) = slots s" for l by (simp add: slots_def)
  moreover have "\<forall>h \<in> set (del_berr p (h_list s)). unat (err_address (bh_error h)) + unat (bh_size h) < 2 ^ 64"
    using assms del_subset by (auto simp: irq_inv_def)
  ultimately show ?thesis using assms
    by (auto simp: irq_do_def irq_spec_do_def vme_unregister_berr_handler_def irq_view_def irq_inv_def irq_wf_def del_view)
qed

lemma sim_enable:
  assumes "irq_inv s" "e = Enable m \<or> e = Disable m"
  shows "\<exists>c'. irq_do e s = Inr (fst (irq_spec_do e (irq_view s)), c') \<and> irq_inv c' \<and> irq_view c' = snd (irq_spec_do e (irq_view s))"
  using assms by (auto simp: irq_do_def irq_spec_do_def vme_enable_interrupts_def vme_disable_interrupts_def tsi148_set_interrupts_def
      tsi148_get_int_enabled_def Let_def lwrite_def irq_view_def irq_inv_def irq_wf_def slots_def)

lemma sim_interrupt:
  assumes "irq_inv s"
  shows "\<exists>c'. irq_do (Interrupt rs) s = Inr (fst (irq_spec_do (Interrupt rs) (irq_view s)), c') \<and> irq_inv c' \<and>
    irq_view c' = snd (irq_spec_do (Interrupt rs) (irq_view s))"
proof -
  have wf: "irq_wf s" using assms by (simp add: irq_inv_def)
  have f: "round_calls (slots s) (h_list s) = spec_round (irq_view s)" using round_spec [OF assms] by blast
  let ?I = "int_calls (spec_round (irq_view s)) (vme_interrupts_enabled s) rs"
  obtain s' where s': "vme_bridge_interrupt rs s = Inr (fst ?I, s')" "emits (snd ?I) s s'"
    using interrupt_emits [OF wf, of rs] unfolding f by blast
  have "irq_inv s'" using assms s'(2) emits_wf [OF s'(2) wf] by (simp add: irq_inv_def emits_def)
  moreover have "irq_view s' = (irq_view s)\<lparr>sp_calls := irq_calls s @ snd ?I\<rparr>" using s'(2) by (simp add: irq_view_def emits_def)
  moreover have "sp_enabled (irq_view s) = vme_interrupts_enabled s" "sp_calls (irq_view s) = irq_calls s" by (simp_all add: irq_view_def)
  ultimately show ?thesis using s'(1) by (simp add: irq_do_def irq_spec_do_def split_beta Let_def)
qed

interpretation irq: simulation irq_inv irq_view irq_legal irq_do irq_spec_do
proof
  fix s e assume "irq_inv s" "irq_legal e"
  then show "\<exists>c'. irq_do e s = Inr (fst (irq_spec_do e (irq_view s)), c') \<and> irq_inv c' \<and> irq_view c' = snd (irq_spec_do e (irq_view s))"
  proof (cases e)
    case (Request sig v h x n)
    show ?thesis unfolding Request by (rule sim_request) fact
  next
    case (Free sig v)
    show ?thesis unfolding Free by (rule sim_free) fact
  next
    case (Register mem err n f)
    show ?thesis using \<open>irq_legal e\<close> \<open>irq_inv s\<close> unfolding Register by (intro sim_register)
  next
    case (Unregister p)
    show ?thesis unfolding Unregister by (rule sim_unregister) fact
  next
    case (Enable m)
    then show ?thesis using sim_enable [OF \<open>irq_inv s\<close>, of e m] by blast
  next
    case (Disable m)
    then show ?thesis using sim_enable [OF \<open>irq_inv s\<close>, of e m] by blast
  next
    case (Interrupt rs)
    show ?thesis unfolding Interrupt by (rule sim_interrupt) fact
  qed
qed

section \<open>Properties\<close>

definition some_vme :: vme_state where
  "some_vme = \<lparr>window_table = [], vme_create_on_find_fail = 0, vme_destroy_on_remove = 0,
     V_chip = \<lparr>otrans = replicate TSI148_NUM_OUT_WINDOWS zero_otrans, ot_trace = []\<rparr>, V_veat = 0, verr_valid = False,
     verr_error = \<lparr>err_address = 0, err_am = 0\<rparr>, held = [], waits = 0, unlocked = [], iomaps = [], regions = [], user_maps = []\<rparr>"

definition irq_start :: irq_state where
  "irq_start = \<lparr>vme_irq_table = replicate 256 free_virq, irq_table_lock = False, int_stats = replicate 20 0,
     vme_interrupts_enabled = 0, lregs = (\<lambda>_. 0), ltrace = [], I_bridge = some_vme, h_list = [], irq_calls = []\<rparr>"

lemma irq_start_inv: "irq_inv irq_start"
  by (simp add: irq_inv_def irq_wf_def irq_start_def VME_NUM_VECTORS_def)

text \<open>The module as loaded: all slots free, no ranges.\<close>

lemma irq_start_view: "irq_view irq_start = \<lparr>sp_map = (\<lambda>_. None), sp_ranges = [], sp_enabled = 0, sp_calls = []\<rparr>"
  by (auto simp: irq_view_def irq_start_def slots_def slot_at_def free_virq_def slot_def VME_NUM_VECTORS_def)

text \<open>
  C12: Whatever sequence of requests for vectors, releases, bus error handlers, enabling, disabling and
  interrupts: every call returns, what it returns and the handlers that are called are those of a
  machine that keeps a partial map from vectors to handlers. A vector is given only when it
  is free and released only when it is not; an interrupt calls, in order, the waiting DMA channels, the bus error
  handlers whose range holds the address, and for the levels 7 down to 1 the one handler of the vector
  that the bus delivers, with its own argument; disabled interrupts call nothing; a range handler is
  called once for each error, in the order of registration; no access leaves the table.
\<close>

theorem irq_refines:
  assumes "irq_inv s" "\<forall>e \<in> set es. irq_legal e"
  shows "\<exists>s'. run_events irq_do es s = Inr (fst (run_spec irq_spec_do es (irq_view s)), s') \<and> irq_inv s' \<and>
    irq_view s' = snd (run_spec irq_spec_do es (irq_view s))"
  by (rule irq.runs [OF assms])

definition some_round :: int_round where
  "some_round = \<lparr>ir_ints = 0x8, ir_iack = (\<lambda>_. 0x42), ir_veau = 0, ir_veal = 0, ir_veat = 0\<rparr>"

definition some_events :: "irq_event list" where
  "some_events = [Enable 0xFE, Request False 0x42 7 99 None, Request False 0x42 8 1 None, Interrupt [some_round], Free False 0x42, Interrupt [some_round]]"

theorem irq_refines_witness:
  "\<exists>s'. run_events irq_do some_events irq_start =
      Inr ([Accepted True, Rc None, Rc (Some EBUSY), Returned IRQ_HANDLED, Rc None, Returned IRQ_HANDLED], s') \<and>
    irq_calls s' = [Irq_handler 7 99]"
proof -
  let ?R = "run_spec irq_spec_do some_events \<lparr>sp_map = (\<lambda>_. None), sp_ranges = [], sp_enabled = 0, sp_calls = []\<rparr>"
  have levels: "rev [1 ..< 8] = [7, 6, 5, 4, 3, 2, 1 :: nat]" by code_simp
  have l: "\<forall>e \<in> set some_events. irq_legal e" by (simp add: some_events_def irq_legal_def)
  have r: "fst ?R = [Accepted True, Rc None, Rc (Some EBUSY), Returned IRQ_HANDLED, Rc None, Returned IRQ_HANDLED]"
    "sp_calls (snd ?R) = [Irq_handler 7 99]"
    using levels by (simp_all add: some_events_def irq_spec_do_def spec_round_def some_round_def TSI148_LCSR_INT_VERR_def)
  obtain s' where "run_events irq_do some_events irq_start = Inr (fst ?R, s')" "irq_view s' = snd ?R"
    using irq_refines [OF irq_start_inv l] unfolding irq_start_view by blast
  moreover have "sp_calls (irq_view s') = irq_calls s'" by (simp add: irq_view_def)
  ultimately have "run_events irq_do some_events irq_start = Inr (fst ?R, s')" "irq_calls s' = sp_calls (snd ?R)" by simp_all
  then show ?thesis unfolding r by blast
qed

text \<open>
  A bus error that the interrupt handler saw is reported exactly once: a check with its address and
  modifier finds it and the next one does not, a check for any other error never does; and because the
  handler has cleared the chip's status, the older check without an address finds nothing.
\<close>

theorem bus_error_reported_once:
  assumes "irq_wf s"
  shows "\<exists>s'. handle_vme_error r s = Inr s' \<and> (let b = I_bridge s' in
    fst (vme_bus_error_check_clear (berr_of r) b) \<and>
    \<not> fst (vme_bus_error_check_clear (berr_of r) (snd (vme_bus_error_check_clear (berr_of r) b))) \<and>
    (\<forall>err. err \<noteq> berr_of r \<longrightarrow> vme_bus_error_check_clear err b = (False, b)) \<and>
    fst (tsi148_bus_error_chk c b) = 0)"
proof -
  obtain s' where s': "handle_vme_error r s = Inr s'" using calls_verr [OF assms] by (auto simp: calls_def good_iff)
  then have b: "verr_valid (I_bridge s')" "verr_error (I_bridge s') = berr_of r" "V_veat (I_bridge s') = ir_veat r AND NOT TSI148_LCSR_VEAT_VES"
    by (auto simp: handle_vme_error_def tsi148_handle_vme_error_def Let_def dispatch_calls count_int_def bind_r_eq_Inr berr_of_def lwrite_def)
  have "(ir_veat r AND NOT TSI148_LCSR_VEAT_VES) AND TSI148_LCSR_VEAT_VES = 0" by (rule bit_word_eqI) (auto simp: bit_simps)
  then show ?thesis using s' b by (auto simp: vme_bus_error_check_clear_def tsi148_bus_error_chk_def Let_def)
qed

theorem bus_error_reported_once_witness:
  "\<exists>s'. handle_vme_error some_round irq_start = Inr s' \<and> fst (vme_bus_error_check_clear (berr_of some_round) (I_bridge s'))"
proof -
  have "irq_wf irq_start" using irq_start_inv by (simp add: irq_inv_def)
  from bus_error_reported_once [OF this, of some_round False] show ?thesis by (auto simp: Let_def)
qed

text \<open>
  After the shutdown of the chip no window translates any address, no interrupt is routed to the
  processor and the registers are no longer visible on the bus; all interrupts are left enabled, though.
\<close>

abbreviation window_regs_of :: "irq_state \<Rightarrow> tsi148_otrans list" where
  "window_regs_of s \<equiv> otrans (V_chip (I_bridge s))"

lemma zero_otat_regs: "window_regs_of (zero_otat i s) = (window_regs_of s)[i := (window_regs_of s ! i)\<lparr>otat := 0\<rparr>]"
  by (simp add: zero_otat_def lwrite_def)

lemma fold_otat:
  assumes "\<forall>i \<in> set is'. i < length (window_regs_of s)" "j \<in> set is' \<or> otat (window_regs_of s ! j) = 0"
  shows "otat (window_regs_of (fold zero_otat is' s) ! j) = 0"
  using assms
proof (induction is' arbitrary: s)
  case (Cons i is')
  have "otat (window_regs_of (zero_otat i s) ! j) = 0" if "j = i \<or> otat (window_regs_of s ! j) = 0"
    using that Cons.prems(1) by (cases "j = i") (simp_all add: zero_otat_regs)
  then have "j \<in> set is' \<or> otat (window_regs_of (zero_otat i s) ! j) = 0" using Cons.prems(2) by auto
  moreover have "\<forall>k \<in> set is'. k < length (window_regs_of (zero_otat i s))" using Cons.prems(1) by (simp add: zero_otat_regs)
  ultimately show ?case using Cons.IH [of "zero_otat i s"] by simp
qed simp

lemma write_bridge [simp]: "I_bridge (lwrite r v s) = I_bridge s"
  by (simp add: lwrite_def)

lemma fold_dma_bridge: "I_bridge (fold zero_dma is' s) = I_bridge s"
  by (induction is' arbitrary: s) (simp_all add: zero_dma_def)

lemma quiesce_closes:
  assumes "length (otrans (V_chip (I_bridge s))) = TSI148_NUM_OUT_WINDOWS" "i < TSI148_NUM_OUT_WINDOWS"
  shows "bus_cycle (otrans (V_chip (I_bridge (tsi148_quiesce s))) ! i) a = None"
    "lregs (tsi148_quiesce s) L_INTEO = 0" "lregs (tsi148_quiesce s) L_CRGAT = 0" "lregs (tsi148_quiesce s) L_INTEN = 0xFFFFFFFF"
proof -
  have "I_bridge (tsi148_quiesce s) = I_bridge (fold zero_otat [0 ..< TSI148_NUM_OUT_WINDOWS] s)"
    by (simp add: tsi148_quiesce_def tsi148_disable_crg_def Let_def fold_dma_bridge)
  moreover have "otat (otrans (V_chip (I_bridge (fold zero_otat [0 ..< TSI148_NUM_OUT_WINDOWS] s))) ! i) = 0"
    by (rule fold_otat) (use assms in auto)
  ultimately show "bus_cycle (otrans (V_chip (I_bridge (tsi148_quiesce s))) ! i) a = None" by (simp add: bus_cycle_def)
  show "lregs (tsi148_quiesce s) L_INTEO = 0" "lregs (tsi148_quiesce s) L_CRGAT = 0" "lregs (tsi148_quiesce s) L_INTEN = 0xFFFFFFFF"
    by (simp_all add: tsi148_quiesce_def tsi148_disable_crg_def Let_def lwrite_def)
qed

text \<open>
  Generating an interrupt: a level or vector out of range does nothing; otherwise the call ends as soon
  as the cycle is acknowledged or the time is up, and says which.
\<close>

lemma iack_wait_ends:
  assumes "\<exists>(v, left) \<in> set ws. left = 0 \<or> v AND TSI148_LCSR_VICR_IRQS = 0"
  shows "\<exists>s'. iack_wait ws s = Inr s'"
  using assms
proof (induction ws arbitrary: s)
  case (Cons w ws)
  obtain v n where w: "w = (v, n)" by fastforce
  show ?case
  proof (cases "lregs s L_VICR AND TSI148_LCSR_VICR_IRQS = 0 \<or> n = 0")
    case True
    then show ?thesis by (subst iack_wait.simps) (auto simp: w Let_def)
  next
    case False
    let ?s1 = "s\<lparr>lregs := (lregs s)(L_VICR := v)\<rparr>"
    have "\<exists>s'. iack_wait ws ?s1 = Inr s'"
    proof (cases "v AND TSI148_LCSR_VICR_IRQS = 0")
      case True
      then show ?thesis by (subst iack_wait.simps) simp
    next
      case v: False
      then show ?thesis using Cons.IH Cons.prems False w by auto
    qed
    then show ?thesis using False by (subst iack_wait.simps) (auto simp: w Let_def)
  qed
qed simp

lemma generate_outcome:
  assumes "tsi148_generate_interrupt after ws level vector s = Inr (rc, s')"
  shows "rc = None \<and> lregs s' L_VICR AND TSI148_LCSR_VICR_IRQS = 0 \<or> rc = Some ETIME \<and> bit (lregs s' L_VICR) 15 \<or> rc = Some EINVAL \<and> s' = s"
proof -
  have "bit (x OR TSI148_LCSR_VICR_IRQC) 15" for x
  proof -
    have "bit TSI148_LCSR_VICR_IRQC 15" by code_simp
    then show ?thesis by (simp add: bit_or_iff)
  qed
  then show ?thesis using assms
    by (auto simp: tsi148_generate_interrupt_def Let_def bind_r_eq_Inr lwrite_def split: if_splits)
qed

end
