(* ===== verification/Ctr_Hard.thy ===== *)
theory Ctr_Hard
  imports Prelude
begin

text \<open>
  The data of the timing receiver (CTR): the constants and structures of ctrhard.h and ctrdrvr.h
  and the bit fields of ctrdrvr-vme.c. A trigger and a counter configuration are packed into two
  words each for the tables of the board; \<^verbatim>\<open>AutoShiftLeft\<close> and \<^verbatim>\<open>AutoShiftRight\<close> find the place of a
  field from its mask. Enumerations are words, as in C: the driver stores what a caller passes.
\<close>

section \<open>Constants\<close>

definition CtrDrvrCOUNTERS :: nat where "CtrDrvrCOUNTERS = 9"
definition CtrDrvrInterruptSOURCES :: nat where "CtrDrvrInterruptSOURCES = 14"
definition CtrDrvrRamTableSIZE :: nat where "CtrDrvrRamTableSIZE = 2048"
definition CtrDrvrCLIENT_CONTEXTS :: nat where "CtrDrvrCLIENT_CONTEXTS = 16"
definition CtrDrvrMODULE_CONTEXTS :: nat where "CtrDrvrMODULE_CONTEXTS = 16"
definition CtrDrvrCtimOBJECTS :: nat where "CtrDrvrCtimOBJECTS = 2048"
definition CtrDrvrPtimOBJECTS :: nat where "CtrDrvrPtimOBJECTS = 2048"
definition CtrDrvrCONNECTIONS :: nat where "CtrDrvrCONNECTIONS = 512"
definition CtrDrvrQUEUE_SIZE :: nat where "CtrDrvrQUEUE_SIZE = 64"
definition CtrDrvrDEFAULT_TIMEOUT :: u32 where "CtrDrvrDEFAULT_TIMEOUT = 2000"

definition CtrDrvrConnectionClassHARD :: u32 where "CtrDrvrConnectionClassHARD = 0"
definition CtrDrvrConnectionClassCTIM :: u32 where "CtrDrvrConnectionClassCTIM = 1"
definition CtrDrvrConnectionClassPTIM :: u32 where "CtrDrvrConnectionClassPTIM = 2"

definition CtrDrvrCounter0 :: u32 where "CtrDrvrCounter0 = 0"
definition CtrDrvrCounter1 :: nat where "CtrDrvrCounter1 = 1"
definition CtrDrvrCounter8 :: nat where "CtrDrvrCounter8 = 8"
definition CtrDrvrInterruptMaskCOUNTER_0 :: u32 where "CtrDrvrInterruptMaskCOUNTER_0 = 1"
definition CtrDrvrCounterStartNORMAL :: u32 where "CtrDrvrCounterStartNORMAL = 0"
definition CtrDrvrCounterSTARTS :: u32 where "CtrDrvrCounterSTARTS = 8"
definition CtrDrvrCounterModeNORMAL :: u32 where "CtrDrvrCounterModeNORMAL = 0"
definition CtrDrvrCounterMODES :: u32 where "CtrDrvrCounterMODES = 4"
definition CtrDrvrCounterClock1KHZ :: u32 where "CtrDrvrCounterClock1KHZ = 0"
definition CtrDrvrCounterCLOCKS :: u32 where "CtrDrvrCounterCLOCKS = 6"
definition CtrDrvrCounterOnZeroBUS :: u32 where "CtrDrvrCounterOnZeroBUS = 1"
definition CtrDrvrCounterOnZeroOUT :: u32 where "CtrDrvrCounterOnZeroOUT = 2"
definition CtrDrvrTriggerConditionNO_CHECK :: u32 where "CtrDrvrTriggerConditionNO_CHECK = 0"
definition CtrDrvrMachineNONE :: u32 where "CtrDrvrMachineNONE = 0"
definition CtrDrvrMachineMACHINES :: u32 where "CtrDrvrMachineMACHINES = 7"

definition CtrDrvrCounterConfigON_ZERO_MASK :: u32 where "CtrDrvrCounterConfigON_ZERO_MASK = 0xC0000000"
definition CtrDrvrCounterConfigSTART_MASK :: u32 where "CtrDrvrCounterConfigSTART_MASK = 0x38000000"
definition CtrDrvrCounterConfigMODE_MASK :: u32 where "CtrDrvrCounterConfigMODE_MASK = 0x06000000"
definition CtrDrvrCounterConfigCLOCK_MASK :: u32 where "CtrDrvrCounterConfigCLOCK_MASK = 0x01C00000"
definition CtrDrvrCounterConfigPULSE_WIDTH_MASK :: u32 where "CtrDrvrCounterConfigPULSE_WIDTH_MASK = 0x003FFFFF"
definition CtrDrvrTrigCONDITION_MASK :: u32 where "CtrDrvrTrigCONDITION_MASK = 0xC0000000"
definition CtrDrvrTrigMACHINE_MASK :: u32 where "CtrDrvrTrigMACHINE_MASK = 0x38000000"
definition CtrDrvrTrigCOUNTER_MASK :: u32 where "CtrDrvrTrigCOUNTER_MASK = 0x07800000"
definition CtrDrvrTrigGROUP_NUMBER_MASK :: u32 where "CtrDrvrTrigGROUP_NUMBER_MASK = 0x007F0000"
definition CtrDrvrTrigGROUP_VALUE_MASK :: u32 where "CtrDrvrTrigGROUP_VALUE_MASK = 0x0000FFFF"
definition CtrDrvrCntrCntrlREMOTE_MASK :: u32 where "CtrDrvrCntrCntrlREMOTE_MASK = 0x3F"
definition CtrDrvrCntrCntrlOUT_MASK :: u32 where "CtrDrvrCntrCntrlOUT_MASK = 0x3FFC0"
definition CtrDrvrCntrCntrlTTL_BAR :: u32 where "CtrDrvrCntrCntrlTTL_BAR = 0x80000000"

definition CtrDrvrHwStatusMASK :: u32 where "CtrDrvrHwStatusMASK = 0x3FF"
definition CtrDrvrTypeStatusMask :: u32 where "CtrDrvrTypeStatusMask = 0x380"
definition CtrDrvrStatusCTRI :: u32 where "CtrDrvrStatusCTRI = 0x80"
definition CtrDrvrStatusCTRP :: u32 where "CtrDrvrStatusCTRP = 0x100"
definition CtrDrvrStatusCTRV :: u32 where "CtrDrvrStatusCTRV = 0x200"
definition CtrDrvrStatusNO_LOST_INTERRUPTS :: u32 where "CtrDrvrStatusNO_LOST_INTERRUPTS = 0x400"
definition CtrDrvrStatusNO_BUS_ERROR :: u32 where "CtrDrvrStatusNO_BUS_ERROR = 0x800"

definition CtrDrvrCommandRESET :: u32 where "CtrDrvrCommandRESET = 0x01"
definition CtrDrvrCommandENABLE :: u32 where "CtrDrvrCommandENABLE = 0x02"
definition CtrDrvrCommandDISABLE :: u32 where "CtrDrvrCommandDISABLE = 0x04"
definition CtrDrvrCommandLATCH_UTC :: u32 where "CtrDrvrCommandLATCH_UTC = 0x08"
definition CtrDrvrCommandSET_UTC :: u32 where "CtrDrvrCommandSET_UTC = 0x10"
definition CtrDrvrCommandSET_HPTDC :: u32 where "CtrDrvrCommandSET_HPTDC = 0x20"
definition CtrDrvrCommandDebugHisOn :: u32 where "CtrDrvrCommandDebugHisOn = 0x80"
definition CtrDrvrCommandDebugHisOff :: u32 where "CtrDrvrCommandDebugHisOff = 0x100"
definition CtrDrvrCommandUtcPllOff :: u32 where "CtrDrvrCommandUtcPllOff = 0x200"
definition CtrDrvrCommandUtcPllOn :: u32 where "CtrDrvrCommandUtcPllOn = 0x400"
definition CtrDrvrRemoteEXEC :: u32 where "CtrDrvrRemoteEXEC = 0x20"

definition CtrDrvrHardwareTypeNONE :: u32 where "CtrDrvrHardwareTypeNONE = 0"
definition CtrDrvrHardwareTypeCTRP :: u32 where "CtrDrvrHardwareTypeCTRP = 1"
definition CtrDrvrHardwareTypeCTRI :: u32 where "CtrDrvrHardwareTypeCTRI = 2"
definition CtrDrvrHardwareTypeCTRV :: u32 where "CtrDrvrHardwareTypeCTRV = 3"
definition CtrDrvrPolarityTTL :: u32 where "CtrDrvrPolarityTTL = 0"
definition CtrDrvrPolarityTTL_BAR :: u32 where "CtrDrvrPolarityTTL_BAR = 1"

section \<open>Structures\<close>

record CtrDrvrCTime =
  ct_CTrain :: u32
  ct_Second :: u32
  ct_TicksHPTDC :: u32

text \<open>An event frame is a union of a word and, from its top byte down, Header, Code and Value.\<close>

type_synonym CtrDrvrEventFrame = u32

definition frame_Header :: "CtrDrvrEventFrame \<Rightarrow> u8" where
  "frame_Header f = ucast (drop_bit 24 f)"

definition frame_with_Value :: "CtrDrvrEventFrame \<Rightarrow> u32 \<Rightarrow> CtrDrvrEventFrame" where
  "frame_with_Value f v = (f AND 0xFFFF0000) OR (v AND 0xFFFF)"

record CtrDrvrTgmGroup =
  tg_GroupNumber :: "16 word"
  tg_GroupValue :: "16 word"

record CtrDrvrTrigger =
  tr_Ctim :: u32
  tr_Frame :: CtrDrvrEventFrame
  tr_TriggerCondition :: u32
  tr_Machine :: u32
  tr_Counter :: u32
  tr_Group :: CtrDrvrTgmGroup

record CtrDrvrHwTrigger =
  ht_Frame :: CtrDrvrEventFrame
  ht_Trigger :: u32

record CtrDrvrCounterConfiguration =
  cf_OnZero :: u32
  cf_Start :: u32
  cf_Mode :: u32
  cf_Clock :: u32
  cf_PulsWidth :: u32
  cf_Delay :: u32

record CtrDrvrHwCounterConfiguration =
  hc_Config :: u32
  hc_Delay :: u32

record CtrDrvrConnection =
  cx_Module :: u32
  cx_EqpClass :: u32
  cx_EqpNum :: u32

record CtrDrvrReadBuf =
  rb_Connection :: CtrDrvrConnection
  rb_TriggerNumber :: u32
  rb_InterruptNumber :: u32
  rb_Ctim :: u32
  rb_Frame :: CtrDrvrEventFrame
  rb_TriggerTime :: CtrDrvrCTime
  rb_StartTime :: CtrDrvrCTime
  rb_OnZeroTime :: CtrDrvrCTime

record CtrDrvrWriteBuf =
  wb_TriggerNumber :: u32
  wb_Connection :: CtrDrvrConnection
  wb_Payload :: u32

record CtrDrvrAction =
  ac_TriggerNumber :: u32
  ac_EqpNum :: u32
  ac_EqpClass :: u32
  ac_Trigger :: CtrDrvrTrigger
  ac_Config :: CtrDrvrCounterConfiguration

record CtrDrvrCtimBinding =
  ctb_EqpNum :: u32
  ctb_Frame :: CtrDrvrEventFrame

record CtrDrvrPtimBinding =
  ptb_EqpNum :: u32
  ptb_ModuleIndex :: u8
  ptb_Counter :: u8
  ptb_Size :: "16 word"
  ptb_StartIndex :: "16 word"

text \<open>What \<^verbatim>\<open>bzero\<close> leaves in a structure.\<close>

definition zero_ctime :: CtrDrvrCTime where
  "zero_ctime = \<lparr> ct_CTrain = 0, ct_Second = 0, ct_TicksHPTDC = 0 \<rparr>"

definition zero_trigger :: CtrDrvrTrigger where
  "zero_trigger = \<lparr> tr_Ctim = 0, tr_Frame = 0, tr_TriggerCondition = 0, tr_Machine = 0,
     tr_Counter = 0, tr_Group = \<lparr> tg_GroupNumber = 0, tg_GroupValue = 0 \<rparr> \<rparr>"

definition zero_config :: CtrDrvrCounterConfiguration where
  "zero_config = \<lparr> cf_OnZero = 0, cf_Start = 0, cf_Mode = 0, cf_Clock = 0, cf_PulsWidth = 0, cf_Delay = 0 \<rparr>"

definition zero_conx :: CtrDrvrConnection where
  "zero_conx = \<lparr> cx_Module = 0, cx_EqpClass = 0, cx_EqpNum = 0 \<rparr>"

definition zero_rbuf :: CtrDrvrReadBuf where
  "zero_rbuf = \<lparr> rb_Connection = zero_conx, rb_TriggerNumber = 0, rb_InterruptNumber = 0, rb_Ctim = 0,
     rb_Frame = 0, rb_TriggerTime = zero_ctime, rb_StartTime = zero_ctime, rb_OnZeroTime = zero_ctime \<rparr>"

section \<open>Bit fields\<close>

text \<open>
  The loop of \<^verbatim>\<open>AutoShiftLeft\<close> and \<^verbatim>\<open>AutoShiftRight\<close>: at most \<open>n\<close> rounds, \<open>m\<close> is an \<^verbatim>\<open>int\<close>, so
  \<^verbatim>\<open>m >>= 1\<close> copies its sign bit. The result is the shift count and the shifted mask.
\<close>

fun auto_shift :: "nat \<Rightarrow> i32 \<Rightarrow> nat \<Rightarrow> nat \<times> i32" where
  "auto_shift 0 m i = (i, m)"
| "auto_shift (Suc n) m i =
     (if m AND 1 \<noteq> 0 then (i, m) else auto_shift n (signed_drop_bit 1 m) (i + 1))"

definition AutoShiftLeft :: "u32 \<Rightarrow> u32 \<Rightarrow> u32" where
  "AutoShiftLeft msk v = (let (i, m) = auto_shift 32 msk 0 in push_bit i v AND msk)"

definition AutoShiftRight :: "u32 \<Rightarrow> u32 \<Rightarrow> u32" where
  "AutoShiftRight msk v = (let (i, m) = auto_shift 32 msk 0 in drop_bit i v AND m)"

definition TriggerToHard :: "CtrDrvrTrigger \<Rightarrow> CtrDrvrHwTrigger" where
  "TriggerToHard strg = \<lparr> ht_Frame = tr_Frame strg, ht_Trigger =
       AutoShiftLeft CtrDrvrTrigGROUP_VALUE_MASK (ucast (tg_GroupValue (tr_Group strg)))
    OR AutoShiftLeft CtrDrvrTrigCONDITION_MASK (tr_TriggerCondition strg)
    OR AutoShiftLeft CtrDrvrTrigMACHINE_MASK (tr_Machine strg)
    OR AutoShiftLeft CtrDrvrTrigCOUNTER_MASK (tr_Counter strg)
    OR AutoShiftLeft CtrDrvrTrigGROUP_NUMBER_MASK (ucast (tg_GroupNumber (tr_Group strg))) \<rparr>"

text \<open>The static result of \<^verbatim>\<open>HardToTrigger\<close> is never given a CTIM number: it stays zero.\<close>

definition HardToTrigger :: "CtrDrvrHwTrigger \<Rightarrow> CtrDrvrTrigger" where
  "HardToTrigger htrg = (let trigger = ht_Trigger htrg in
     \<lparr> tr_Ctim = 0, tr_Frame = ht_Frame htrg,
       tr_TriggerCondition = AutoShiftRight CtrDrvrTrigCONDITION_MASK trigger,
       tr_Machine = AutoShiftRight CtrDrvrTrigMACHINE_MASK trigger,
       tr_Counter = AutoShiftRight CtrDrvrTrigCOUNTER_MASK trigger,
       tr_Group = \<lparr> tg_GroupNumber = ucast (AutoShiftRight CtrDrvrTrigGROUP_NUMBER_MASK trigger),
                    tg_GroupValue = ucast (AutoShiftRight CtrDrvrTrigGROUP_VALUE_MASK trigger) \<rparr> \<rparr>)"

definition ConfigToHard :: "CtrDrvrCounterConfiguration \<Rightarrow> CtrDrvrHwCounterConfiguration" where
  "ConfigToHard scnf = \<lparr> hc_Config =
       AutoShiftLeft CtrDrvrCounterConfigPULSE_WIDTH_MASK (cf_PulsWidth scnf)
    OR AutoShiftLeft CtrDrvrCounterConfigCLOCK_MASK (cf_Clock scnf)
    OR AutoShiftLeft CtrDrvrCounterConfigMODE_MASK (cf_Mode scnf)
    OR AutoShiftLeft CtrDrvrCounterConfigSTART_MASK (cf_Start scnf)
    OR AutoShiftLeft CtrDrvrCounterConfigON_ZERO_MASK (cf_OnZero scnf),
    hc_Delay = cf_Delay scnf \<rparr>"

definition HardToConfig :: "CtrDrvrHwCounterConfiguration \<Rightarrow> CtrDrvrCounterConfiguration" where
  "HardToConfig hcnf = (let config = hc_Config hcnf in
     \<lparr> cf_OnZero = AutoShiftRight CtrDrvrCounterConfigON_ZERO_MASK config,
       cf_Start = AutoShiftRight CtrDrvrCounterConfigSTART_MASK config,
       cf_Mode = AutoShiftRight CtrDrvrCounterConfigMODE_MASK config,
       cf_Clock = AutoShiftRight CtrDrvrCounterConfigCLOCK_MASK config,
       cf_PulsWidth = AutoShiftRight CtrDrvrCounterConfigPULSE_WIDTH_MASK config,
       cf_Delay = hc_Delay hcnf \<rparr>)"

text \<open>Telegrams are 16-bit values in 32-bit registers: \<^verbatim>\<open>SwapWords\<close> exchanges the halves.\<close>

definition swap_word :: "u32 \<Rightarrow> u32" where
  "swap_word w = (let lft = drop_bit 16 (w AND 0xFFFF0000); rgt = w AND 0x0000FFFF in push_bit 16 rgt OR lft)"

definition SwapWords :: "u32 list \<Rightarrow> u32 list" where
  "SwapWords dst = map swap_word dst"

section \<open>The fields of a packed word\<close>

text \<open>A field of \<open>n\<close> bits at bit \<open>k\<close>.\<close>

definition field :: "nat \<Rightarrow> nat \<Rightarrow> u32" where
  "field k n = push_bit k (Bit_Operations.mask n)"

lemma and_1_bit: "(m :: u32) AND 1 \<noteq> 0 \<longleftrightarrow> bit m 0"
  by (simp add: and_one_eq bit_0 odd_iff_mod_2_eq_one)

lemma auto_shift_lowest:
  assumes "k < fuel" "k < 32" "bit m k" "\<And>j. j < k \<Longrightarrow> \<not> bit m j"
  shows "auto_shift fuel m i = (i + k, signed_drop_bit k m)"
  using assms
proof (induction k arbitrary: fuel m i)
  case 0
  then show ?case by (cases fuel) (auto simp: and_1_bit signed_drop_bit_0)
next
  case (Suc k)
  from Suc.prems(1) obtain f where f: "fuel = Suc f" "k < f" by (cases fuel) auto
  have b0: "\<not> bit m 0" using Suc.prems(4) [of 0] by simp
  have "auto_shift f (signed_drop_bit 1 m) (i + 1) = (i + 1 + k, signed_drop_bit k (signed_drop_bit 1 m))"
    using Suc.prems(2-4) f(2) by (intro Suc.IH) (auto simp: bit_signed_drop_bit_iff)
  moreover have "signed_drop_bit k (signed_drop_bit 1 m) = signed_drop_bit (Suc k) m"
    using Suc.prems(2) by (auto simp: bit_eq_iff bit_signed_drop_bit_iff)
  ultimately show ?case using b0 by (simp add: f(1) and_1_bit)
qed

lemma auto_shift_field:
  assumes "0 < n" "k + n \<le> 32"
  shows "auto_shift 32 (field k n) 0 = (k, signed_drop_bit k (field k n))"
  using assms by (subst auto_shift_lowest [of k]) (auto simp: field_def bit_push_bit_iff bit_mask_iff)

definition get_field :: "nat \<Rightarrow> nat \<Rightarrow> u32 \<Rightarrow> u32" where
  "get_field k n w = take_bit n (drop_bit k w)"

definition put_field :: "nat \<Rightarrow> nat \<Rightarrow> u32 \<Rightarrow> u32" where
  "put_field k n v = push_bit k (take_bit n v)"

lemma AutoShiftLeft_field:
  assumes "0 < n" "k + n \<le> 32"
  shows "AutoShiftLeft (field k n) v = put_field k n v"
  using assms unfolding AutoShiftLeft_def put_field_def
  by (simp add: auto_shift_field)
     (auto simp: field_def bit_eq_iff bit_push_bit_iff bit_and_iff bit_mask_iff bit_take_bit_iff)

lemma AutoShiftRight_field:
  assumes "0 < n" "k + n \<le> 32"
  shows "AutoShiftRight (field k n) v = get_field k n v"
  using assms unfolding AutoShiftRight_def get_field_def
  by (simp add: auto_shift_field)
     (auto simp: field_def bit_eq_iff bit_push_bit_iff bit_and_iff bit_mask_iff bit_take_bit_iff
        bit_drop_bit_eq bit_signed_drop_bit_iff dest: bit_imp_le_length)

text \<open>The masks of the source are such fields; they do not overlap.\<close>

lemma trigger_fields:
  "CtrDrvrTrigCONDITION_MASK = field 30 2" "CtrDrvrTrigMACHINE_MASK = field 27 3"
  "CtrDrvrTrigCOUNTER_MASK = field 23 4" "CtrDrvrTrigGROUP_NUMBER_MASK = field 16 7"
  "CtrDrvrTrigGROUP_VALUE_MASK = field 0 16"
  by (code_simp)+

lemma config_fields:
  "CtrDrvrCounterConfigON_ZERO_MASK = field 30 2" "CtrDrvrCounterConfigSTART_MASK = field 27 3"
  "CtrDrvrCounterConfigMODE_MASK = field 25 2" "CtrDrvrCounterConfigCLOCK_MASK = field 22 3"
  "CtrDrvrCounterConfigPULSE_WIDTH_MASK = field 0 22" "CtrDrvrCntrCntrlOUT_MASK = field 6 12"
  by (code_simp)+

lemmas field_shifts = AutoShiftLeft_field AutoShiftRight_field

lemma field_in_range: 
  assumes "v < 2 ^ n" "n < 32" shows "take_bit n v = (v :: u32)"
proof -
  have "unat v < 2 ^ n"
    using assms unat_of_nat [of "2 ^ n", where 'a = 32]
    by (simp add: word_less_nat_alt power_strict_increasing)
  then have "unat (take_bit n v) = unat v"
    by (simp add: unsigned_take_bit_eq take_bit_nat_eq_self)
  then show ?thesis by (simp add: word_unat_eq_iff)
qed

text \<open>Reading a field of a packed word gives that field, cut to its width.\<close>

lemma get_put_self: "k + n \<le> 32 \<Longrightarrow> get_field k n (put_field k n v) = take_bit n v"
  by (auto simp: get_field_def put_field_def bit_eq_iff bit_take_bit_iff bit_drop_bit_eq bit_push_bit_iff)

lemma get_put_other: "k' + n' \<le> k \<or> k + n \<le> k' \<Longrightarrow> get_field k n (put_field k' n' v) = 0"
  by (auto simp: get_field_def put_field_def bit_eq_iff bit_take_bit_iff bit_drop_bit_eq bit_push_bit_iff)

lemma get_or: "get_field k n (a OR b) = get_field k n a OR get_field k n b"
  by (auto simp: get_field_def bit_eq_iff bit_take_bit_iff bit_drop_bit_eq bit_or_iff)

lemmas field_reads = get_put_self get_put_other get_or

definition cut_trigger :: "CtrDrvrTrigger \<Rightarrow> CtrDrvrTrigger" where
  "cut_trigger t = t \<lparr> tr_Ctim := 0, tr_TriggerCondition := take_bit 2 (tr_TriggerCondition t),
     tr_Machine := take_bit 3 (tr_Machine t), tr_Counter := take_bit 4 (tr_Counter t),
     tr_Group := (tr_Group t) \<lparr> tg_GroupNumber := take_bit 7 (tg_GroupNumber (tr_Group t)) \<rparr> \<rparr>"

definition cut_config :: "CtrDrvrCounterConfiguration \<Rightarrow> CtrDrvrCounterConfiguration" where
  "cut_config c = c \<lparr> cf_OnZero := take_bit 2 (cf_OnZero c), cf_Start := take_bit 3 (cf_Start c),
     cf_Mode := take_bit 2 (cf_Mode c), cf_Clock := take_bit 3 (cf_Clock c),
     cf_PulsWidth := take_bit 22 (cf_PulsWidth c) \<rparr>"

lemma HardToTrigger_TriggerToHard: "HardToTrigger (TriggerToHard t) = cut_trigger t"
proof -
  have gv: "ucast (take_bit 16 (ucast w :: u32)) = (w :: 16 word)" for w
    by (auto simp: bit_eq_iff bit_take_bit_iff bit_ucast_iff)
  have gn: "ucast (take_bit 7 (ucast w :: u32)) = take_bit 7 (w :: 16 word)" for w
    by (auto simp: bit_eq_iff bit_take_bit_iff bit_ucast_iff)
  have "HardToTrigger (TriggerToHard t) = \<lparr> tr_Ctim = 0, tr_Frame = tr_Frame t,
      tr_TriggerCondition = take_bit 2 (tr_TriggerCondition t), tr_Machine = take_bit 3 (tr_Machine t),
      tr_Counter = take_bit 4 (tr_Counter t), tr_Group = \<lparr> tg_GroupNumber = take_bit 7 (tg_GroupNumber (tr_Group t)),
      tg_GroupValue = tg_GroupValue (tr_Group t) \<rparr> \<rparr>"
    by (simp add: HardToTrigger_def TriggerToHard_def trigger_fields field_shifts field_reads gv gn Let_def)
  then show ?thesis by (cases t) (simp add: cut_trigger_def)
qed

lemma HardToConfig_ConfigToHard: "HardToConfig (ConfigToHard c) = cut_config c"
proof -
  have "HardToConfig (ConfigToHard c) = \<lparr> cf_OnZero = take_bit 2 (cf_OnZero c),
      cf_Start = take_bit 3 (cf_Start c), cf_Mode = take_bit 2 (cf_Mode c), cf_Clock = take_bit 3 (cf_Clock c),
      cf_PulsWidth = take_bit 22 (cf_PulsWidth c), cf_Delay = cf_Delay c \<rparr>"
    by (simp add: HardToConfig_def ConfigToHard_def config_fields field_shifts field_reads Let_def)
  then show ?thesis by (cases c) (simp add: cut_config_def)
qed

lemma swap_word_bits: "bit (swap_word w) j \<longleftrightarrow> (if j < 16 then bit w (16 + j) else j < 32 \<and> bit w (j - 16))"
proof -
  have m: "(0xFFFF0000 :: u32) = push_bit 16 (Bit_Operations.mask 16)" "(0xFFFF :: u32) = Bit_Operations.mask 16"
    by code_simp+
  show ?thesis
    unfolding swap_word_def m Let_def bit_or_iff bit_and_iff bit_drop_bit_eq bit_push_bit_iff bit_mask_iff
    by (auto simp: bit_drop_bit_eq bit_and_iff bit_push_bit_iff simp del: mask_numeral dest: bit_imp_le_length)
qed

lemma swap_word_swap_word: "swap_word (swap_word w) = w"
  by (auto simp: bit_eq_iff swap_word_bits)

lemma SwapWords_SwapWords: "SwapWords (SwapWords ws) = ws"
  by (simp add: SwapWords_def swap_word_swap_word map_idI)

section \<open>Single bits\<close>

lemma and_cmask [simp]: "(w :: u32) AND 2 ^ n = 0 \<longleftrightarrow> \<not> bit w n" "2 ^ n AND (w :: u32) = 0 \<longleftrightarrow> \<not> bit w n"
proof -
  have "bit (w AND 2 ^ n) k \<longleftrightarrow> k = n \<and> bit w n" for k
    by (auto simp: bit_and_iff bit_exp_iff dest: bit_imp_le_length)
  moreover have "w AND 2 ^ n = 0 \<longleftrightarrow> (\<forall>k. \<not> bit (w AND 2 ^ n) k)" by (auto intro: bit_eqI)
  ultimately show "w AND 2 ^ n = 0 \<longleftrightarrow> \<not> bit w n" by simp
  then show "2 ^ n AND w = 0 \<longleftrightarrow> \<not> bit w n" by (simp add: and.commute)
qed

end
