(* ===== verification/Ctr_Queue.thy ===== *)
theory Ctr_Queue
  imports Ctr_Hard
begin

text \<open>
  What a client of the timing receiver waits on: the semaphores of cdcmSem.c, the timers of
  EmulateLynxOs.c, the ring of read buffers of ctrdrvrP.h, and \<^verbatim>\<open>CtrDrvrRead\<close>, which may sleep
  between its two halves. The locale \<open>lossy_fifo\<close> states what a bounded queue that drops its
  oldest element promises; the ring of the driver is an interpretation of it.
\<close>

section \<open>Semaphores (cdcmSem.c)\<close>

text \<open>A counter and the tasks that sleep on it, first come first. A woken task is the result.\<close>

record cdcm_sem =
  sem_count :: nat
  sem_wait_list :: "nat list"

definition sem_new :: cdcm_sem where
  "sem_new = \<lparr> sem_count = 0, sem_wait_list = [] \<rparr>"

definition cdcm_up :: "cdcm_sem \<Rightarrow> nat list \<times> cdcm_sem" where
  "cdcm_up s =
     (if sem_wait_list s = [] then ([], s\<lparr> sem_count := sem_count s + 1 \<rparr>)
      else ([hd (sem_wait_list s)], s\<lparr> sem_wait_list := tl (sem_wait_list s) \<rparr>))"

definition ssignal :: "cdcm_sem \<Rightarrow> nat list \<times> cdcm_sem" where
  "ssignal s = cdcm_up s"

fun ssignaln :: "nat \<Rightarrow> cdcm_sem \<Rightarrow> nat list \<times> cdcm_sem" where
  "ssignaln 0 s = ([], s)"
| "ssignaln (Suc n) s =
     (let (w, s1) = cdcm_up s; (ws, s2) = ssignaln n s1 in (w @ ws, s2))"

text \<open>With a count there is no sleeper and the count is dropped; without, every sleeper is woken.\<close>

definition sreset :: "cdcm_sem \<Rightarrow> nat list \<times> cdcm_sem" where
  "sreset s =
     (if sem_count s = 0 then (sem_wait_list s, s\<lparr> sem_wait_list := [] \<rparr>)
      else ([], s\<lparr> sem_count := 0 \<rparr>))"

definition scount :: "cdcm_sem \<Rightarrow> int" where
  "scount s = (if sem_count s > 0 then int (sem_count s) else - int (length (sem_wait_list s)))"

text \<open>\<^verbatim>\<open>swait\<close>: the task passes, or it joins the sleepers. A signal takes it out again.\<close>

definition cdcm_down :: "nat \<Rightarrow> cdcm_sem \<Rightarrow> bool \<times> cdcm_sem" where
  "cdcm_down t s =
     (if sem_count s > 0 then (True, s\<lparr> sem_count := sem_count s - 1 \<rparr>)
      else (False, s\<lparr> sem_wait_list := sem_wait_list s @ [t] \<rparr>))"

definition cdcm_down_trylock :: "cdcm_sem \<Rightarrow> bool \<times> cdcm_sem" where
  "cdcm_down_trylock s =
     (if sem_count s \<ge> 1 then (False, s\<lparr> sem_count := sem_count s - 1 \<rparr>) else (True, s))"

definition cdcm_down_leave :: "nat \<Rightarrow> cdcm_sem \<Rightarrow> cdcm_sem" where
  "cdcm_down_leave t s = s\<lparr> sem_wait_list := removeAll t (sem_wait_list s) \<rparr>"

section \<open>Timers (EmulateLynxOs.c)\<close>

definition TIMERS :: nat where "TIMERS = 16"

text \<open>What a timer calls: the client's read or the module's reset goes on.\<close>

datatype timer_callback_fn = Call_ReadTimeout nat | Call_ResetTimeout nat

type_synonym lynxos_timers = "timer_callback_fn option list"

definition LynxOsTimersInitialize :: lynxos_timers where
  "LynxOsTimersInitialize = replicate TIMERS None"

fun free_timer :: "nat \<Rightarrow> lynxos_timers \<Rightarrow> nat option" where
  "free_timer i [] = None"
| "free_timer i (t # ts) = (if t = None then Some i else free_timer (i + 1) ts)"

definition timeout :: "timer_callback_fn \<Rightarrow> lynxos_timers \<Rightarrow> i32 \<times> lynxos_timers" where
  "timeout f ts =
     (case free_timer 0 ts of Some i \<Rightarrow> (of_nat (i + 1), ts[i := Some f]) | None \<Rightarrow> (- 1, ts))"

definition cancel_timeout :: "i32 \<Rightarrow> lynxos_timers \<Rightarrow> lynxos_timers" where
  "cancel_timeout n ts =
     (let i = sint n - 1 in if 0 \<le> i \<and> i < int TIMERS then ts[nat i := None] else ts)"

text \<open>\<^verbatim>\<open>CancelTimeout\<close> of the driver: the handle is cleared, then the timer.\<close>

definition CancelTimeout :: "i32 \<Rightarrow> lynxos_timers \<Rightarrow> i32 \<times> lynxos_timers" where
  "CancelTimeout v ts = (if v \<noteq> 0 then (0, cancel_timeout v ts) else (v, ts))"

section \<open>The ring of read buffers\<close>

record CtrDrvrQueue =
  q_QueueOff :: "16 word"
  q_Missed :: "16 word"
  q_Size :: nat
  q_RdPntr :: nat
  q_WrPntr :: nat
  q_Entries :: "CtrDrvrReadBuf list"

definition queue_new :: CtrDrvrQueue where
  "queue_new = \<lparr> q_QueueOff = 0, q_Missed = 0, q_Size = 0, q_RdPntr = 0, q_WrPntr = 0,
     q_Entries = replicate CtrDrvrQUEUE_SIZE zero_rbuf \<rparr>"

text \<open>
  The code between \<^verbatim>\<open>disable\<close> and \<^verbatim>\<open>restore\<close> in \<^verbatim>\<open>IntrHandler\<close> and \<^verbatim>\<open>CtrDrvrWrite\<close>; the first
  component tells whether the semaphore is signalled.
\<close>

definition queue_put :: "CtrDrvrReadBuf \<Rightarrow> CtrDrvrQueue \<Rightarrow> bool \<times> CtrDrvrQueue" where
  "queue_put rbf q =
     (let q1 = q\<lparr> q_Entries := (q_Entries q)[q_WrPntr q := rbf],
                  q_WrPntr := (q_WrPntr q + 1) mod CtrDrvrQUEUE_SIZE \<rparr> in
      if q_Size q < CtrDrvrQUEUE_SIZE then (True, q1\<lparr> q_Size := q_Size q + 1 \<rparr>)
      else (False, q1\<lparr> q_Missed := q_Missed q + 1, q_RdPntr := (q_RdPntr q + 1) mod CtrDrvrQUEUE_SIZE \<rparr>))"

definition queue_get :: "CtrDrvrQueue \<Rightarrow> CtrDrvrReadBuf \<times> CtrDrvrQueue" where
  "queue_get q =
     (q_Entries q ! q_RdPntr q,
      q\<lparr> q_RdPntr := (q_RdPntr q + 1) mod CtrDrvrQUEUE_SIZE, q_Size := q_Size q - 1 \<rparr>)"

definition queue_flush :: "CtrDrvrQueue \<Rightarrow> CtrDrvrQueue" where
  "queue_flush q = q\<lparr> q_Size := 0, q_Missed := 0, q_WrPntr := 0, q_RdPntr := 0 \<rparr>"

subsection \<open>A queue that drops its oldest element when it is full\<close>

locale lossy_fifo =
  fixes inv :: "'q \<Rightarrow> bool"
    and content :: "'q \<Rightarrow> 'a list"
    and lost :: "'q \<Rightarrow> 'n :: comm_ring_1"
    and put :: "'a \<Rightarrow> 'q \<Rightarrow> 'q"
    and get :: "'q \<Rightarrow> 'a \<times> 'q"
    and cap :: nat
  assumes content_fits: "inv q \<Longrightarrow> length (content q) \<le> cap"
    and put_inv: "inv q \<Longrightarrow> inv (put x q)"
    and put_content: "inv q \<Longrightarrow> content (put x q) =
      (if length (content q) < cap then content q @ [x] else tl (content q) @ [x])"
    and put_lost: "inv q \<Longrightarrow> lost (put x q) = lost q + (if length (content q) < cap then 0 else 1)"
    and get_inv: "inv q \<Longrightarrow> content q \<noteq> [] \<Longrightarrow> inv (snd (get q))"
    and get_content: "inv q \<Longrightarrow> content q \<noteq> [] \<Longrightarrow> content q = fst (get q) # content (snd (get q))"
    and cap_pos: "0 < cap"
begin

lemma puts_inv: "inv q \<Longrightarrow> inv (fold put xs q)"
  by (induction xs arbitrary: q) (auto intro: put_inv)

text \<open>After any number of puts the queue holds the last \<open>cap\<close> of everything, in order.\<close>

lemma puts_content:
  assumes "inv q"
  shows "content (fold put xs q) = drop (length (content q) + length xs - cap) (content q @ xs)"
  using assms
proof (induction xs arbitrary: q)
  case Nil then show ?case using content_fits [of q] by simp
next
  case (Cons x xs)
  have IH: "content (fold put xs (put x q)) =
      drop (length (content (put x q)) + length xs - cap) (content (put x q) @ xs)"
    using Cons by (simp add: put_inv)
  show ?case
  proof (cases "length (content q) < cap")
    case True
    then show ?thesis using IH Cons.prems by (simp add: put_content)
  next
    case False
    then have len: "length (content q) = cap" using content_fits [OF Cons.prems] by simp
    then obtain y ys where ys: "content q = y # ys" using cap_pos by (cases "content q") auto
    then have "content (fold put xs (put x q)) = drop (length xs) (ys @ x # xs)"
      using IH Cons.prems len by (simp add: put_content del: drop_append)
    then show ?thesis using len by (simp add: ys del: drop_append)
  qed
qed

text \<open>The loss counter counts exactly what was dropped, in its own arithmetic.\<close>

lemma puts_lost:
  assumes "inv q"
  shows "lost (fold put xs q) = lost q + of_nat (length (content q) + length xs - cap)"
  using assms
proof (induction xs arbitrary: q)
  case Nil then show ?case using content_fits [of q] by simp
next
  case (Cons x xs)
  have IH: "lost (fold put xs (put x q)) =
      lost (put x q) + of_nat (length (content (put x q)) + length xs - cap)"
    using Cons by (simp add: put_inv)
  show ?case
  proof (cases "length (content q) < cap")
    case True
    then show ?thesis using IH Cons.prems by (simp add: put_content put_lost)
  next
    case False
    then have len: "length (content q) = cap" using content_fits [OF Cons.prems] by simp
    then obtain y ys where "content q = y # ys" using cap_pos by (cases "content q") auto
    then show ?thesis using IH Cons.prems len by (simp add: put_content put_lost algebra_simps)
  qed
qed

end

definition queue_ok :: "CtrDrvrQueue \<Rightarrow> bool" where
  "queue_ok q \<longleftrightarrow> length (q_Entries q) = CtrDrvrQUEUE_SIZE \<and> q_RdPntr q < CtrDrvrQUEUE_SIZE \<and>
     q_Size q \<le> CtrDrvrQUEUE_SIZE \<and> q_WrPntr q = (q_RdPntr q + q_Size q) mod CtrDrvrQUEUE_SIZE"

definition pending :: "CtrDrvrQueue \<Rightarrow> CtrDrvrReadBuf list" where
  "pending q = map (\<lambda>k. q_Entries q ! ((q_RdPntr q + k) mod CtrDrvrQUEUE_SIZE)) [0..<q_Size q]"

lemma length_pending [simp]: "length (pending q) = q_Size q"
  by (simp add: pending_def)

lemma QUEUE_SIZE_pos [simp]: "0 < CtrDrvrQUEUE_SIZE"
  by (simp add: CtrDrvrQUEUE_SIZE_def)

text \<open>Two positions of the ring less than a turn apart are different slots.\<close>

lemma ring_slot:
  assumes "r < n" "j < n" "k < n"
  shows "(r + j) mod n = (r + k) mod n \<longleftrightarrow> j = (k :: nat)"
proof -
  have "m mod n = (if m < n then m else m - n)" if "m < 2 * n" for m :: nat
    using that by (simp add: mod_if)
  then show ?thesis using assms by auto
qed

lemma queue_put_ok: "queue_ok q \<Longrightarrow> queue_ok (snd (queue_put x q))"
  by (auto simp: queue_ok_def queue_put_def Let_def mod_Suc_eq mod_add_left_eq)

lemma queue_put_pending:
  assumes "queue_ok q"
  shows "pending (snd (queue_put x q)) =
    (if q_Size q < CtrDrvrQUEUE_SIZE then pending q @ [x] else tl (pending q) @ [x])"
proof -
  let ?N = CtrDrvrQUEUE_SIZE and ?r = "q_RdPntr q" and ?s = "q_Size q" and ?xs = "q_Entries q"
  have q: "length ?xs = ?N" "?r < ?N" "?s \<le> ?N" "q_WrPntr q = (?r + ?s) mod ?N"
    using assms by (auto simp: queue_ok_def)
  show ?thesis
  proof (cases "?s < ?N")
    case True
    have "?xs[(?r + ?s) mod ?N := x] ! ((?r + k) mod ?N) = (if k = ?s then x else ?xs ! ((?r + k) mod ?N))"
      if "k \<le> ?s" for k
      using ring_slot [of ?r ?N ?s k] q(1,2) that True by (auto simp: nth_list_update)
    with True q show ?thesis
      by (simp add: queue_put_def pending_def Let_def)
  next
    case False
    then have s: "?s = ?N" using q by simp
    have "?xs[?r := x] ! (((?r + 1) mod ?N + k) mod ?N) =
        (if k = ?N - 1 then x else ?xs ! ((?r + Suc k) mod ?N))" if "k < ?N" for k
    proof -
      have "((?r + 1) mod ?N + k) mod ?N = (?r + Suc k) mod ?N" by (simp add: mod_add_left_eq)
      moreover have "(?r + Suc k) mod ?N = ?r \<longleftrightarrow> k = ?N - 1"
        using ring_slot [of ?r ?N "Suc k" 0] q(2) that by (cases "Suc k = ?N") auto
      ultimately show ?thesis using q(1,2) by (auto simp: nth_list_update)
    qed
    then show ?thesis using s q
      by (auto simp: queue_put_def pending_def Let_def nth_append nth_tl less_Suc_eq intro!: nth_equalityI)
  qed
qed

lemma queue_get_ok:
  assumes "queue_ok q" "0 < q_Size q"
  shows "queue_ok (snd (queue_get q))"
proof -
  obtain t where "q_Size q = Suc t" using assms(2) by (cases "q_Size q") auto
  with assms(1) show ?thesis by (simp add: queue_ok_def queue_get_def mod_add_left_eq)
qed

lemma queue_get_pending:
  assumes "queue_ok q" "0 < q_Size q"
  shows "pending q = fst (queue_get q) # pending (snd (queue_get q))"
proof -
  obtain t where t: "q_Size q = Suc t" using assms(2) by (cases "q_Size q") auto
  have "(Suc (q_RdPntr q) mod CtrDrvrQUEUE_SIZE + k) mod CtrDrvrQUEUE_SIZE = (q_RdPntr q + Suc k) mod CtrDrvrQUEUE_SIZE" for k
    by (simp add: mod_add_left_eq)
  with assms t show ?thesis
    by (simp add: queue_get_def pending_def queue_ok_def upt_conv_Cons map_Suc_upt [symmetric] del: upt_Suc)
qed

interpretation ring: lossy_fifo queue_ok pending q_Missed "\<lambda>x q. snd (queue_put x q)" queue_get CtrDrvrQUEUE_SIZE
proof
  fix q x assume q: "queue_ok q"
  show "q_Missed (snd (queue_put x q)) = q_Missed q + (if length (pending q) < CtrDrvrQUEUE_SIZE then 0 else 1)"
    by (simp add: queue_put_def Let_def)
  show "length (pending q) \<le> CtrDrvrQUEUE_SIZE" using q by (simp add: queue_ok_def)
next
  fix q assume "queue_ok q" "pending q \<noteq> []"
  moreover from this have "0 < q_Size q" by (metis length_pending length_greater_0_conv)
  ultimately show "queue_ok (snd (queue_get q))" "pending q = fst (queue_get q) # pending (snd (queue_get q))"
    by (auto intro: queue_get_ok queue_get_pending)
qed (simp_all add: queue_put_ok queue_put_pending)

end
