(* ===== verification/Ctr_Client.thy ===== *)
theory Ctr_Client
  imports Ctr_Queue
begin

text \<open>
  A client of the timing receiver: its context (ctrdrvrP.h), the delivery of a read buffer, and
  \<^verbatim>\<open>CtrDrvrRead\<close> of ctrdrvr-vme.c. A read may sleep on the client's semaphore, so it is modelled in
  two halves around \<^verbatim>\<open>swait\<close>; deliveries, the read timer, signals and the ioctls of other threads
  may come in between. The step relation \<open>reader_step\<close> interleaves them, and the lemmas say when
  a read finds what was delivered.
\<close>

record ctr_client =
  cc_InUse :: u32
  cc_DebugOn :: u32
  cc_Pid :: u32
  cc_ClientIndex :: nat
  cc_ModuleIndex :: nat
  cc_Timeout :: u32
  cc_Timer :: i32
  cc_Semaphore :: cdcm_sem
  cc_Queue :: CtrDrvrQueue

text \<open>What \<^verbatim>\<open>sysbrk\<close> leaves for a context, and the first use of its semaphore.\<close>

definition client_zero :: ctr_client where
  "client_zero = \<lparr> cc_InUse = 0, cc_DebugOn = 0, cc_Pid = 0, cc_ClientIndex = 0, cc_ModuleIndex = 0,
     cc_Timeout = 0, cc_Timer = 0, cc_Semaphore = sem_new, cc_Queue = queue_new \<rparr>"

text \<open>
  The initialisation in \<^verbatim>\<open>CtrDrvrOpen\<close>. The real semaphore is not part of the structure that is
  cleared: cdcmSem.c finds it by the address of the field.
\<close>

definition client_open :: "nat \<Rightarrow> u32 \<Rightarrow> ctr_client \<Rightarrow> ctr_client" where
  "client_open cnum pid c = client_zero \<lparr> cc_ClientIndex := cnum, cc_Timeout := CtrDrvrDEFAULT_TIMEOUT,
     cc_InUse := 1, cc_Pid := pid, cc_Semaphore := snd (sreset (cc_Semaphore c)) \<rparr>"

text \<open>A read buffer is put on the client's queue; the result holds the tasks that wake up.\<close>

definition client_put :: "CtrDrvrReadBuf \<Rightarrow> ctr_client \<Rightarrow> nat list \<times> ctr_client" where
  "client_put rbf c =
     (let (sig, q) = queue_put rbf (cc_Queue c); c1 = c\<lparr> cc_Queue := q \<rparr> in
      if sig then (let (ws, s) = ssignal (cc_Semaphore c) in (ws, c1\<lparr> cc_Semaphore := s \<rparr>))
      else ([], c1))"

definition ReadTimeout :: "ctr_client \<Rightarrow> nat list \<times> ctr_client" where
  "ReadTimeout c =
     (let (ws, s) = sreset (cc_Semaphore c) in (ws, c\<lparr> cc_Timer := 0, cc_Semaphore := s \<rparr>))"

text \<open>
  \<^verbatim>\<open>CtrDrvrRead\<close> up to \<^verbatim>\<open>swait\<close>. The handle is unsigned, so \<^verbatim>\<open>ccon->Timer < 0\<close> is never true and
  the branch for exhausted timers is never taken. The first component tells whether the semaphore
  was taken without sleeping.
\<close>

definition read_begin :: "nat \<Rightarrow> ctr_client \<Rightarrow> lynxos_timers \<Rightarrow> bool \<times> ctr_client \<times> lynxos_timers" where
  "read_begin cnum c ts =
     (let c1 = (if q_QueueOff (cc_Queue c) \<noteq> 0
                then c\<lparr> cc_Queue := queue_flush (cc_Queue c), cc_Semaphore := snd (sreset (cc_Semaphore c)) \<rparr>
                else c);
          (tm, ts1) = (if cc_Timeout c \<noteq> 0 then timeout (Call_ReadTimeout cnum) ts else (cc_Timer c, ts));
          (passed, s) = cdcm_down cnum (cc_Semaphore c1) in
      (passed, c1\<lparr> cc_Timer := tm, cc_Semaphore := s \<rparr>, ts1))"

text \<open>A signal ends the sleep: \<^verbatim>\<open>EINTR\<close>.\<close>

definition read_signalled :: "nat \<Rightarrow> ctr_client \<Rightarrow> lynxos_timers \<Rightarrow> ctr_client \<times> lynxos_timers" where
  "read_signalled cnum c ts =
     (let (tm, ts1) = CancelTimeout (cc_Timer c) ts in
      (c\<lparr> cc_Timer := tm, cc_Semaphore := cdcm_down_leave cnum (cc_Semaphore c) \<rparr>, ts1))"

text \<open>\<^verbatim>\<open>CtrDrvrRead\<close> after \<^verbatim>\<open>swait\<close>.\<close>

definition read_take :: "ctr_client \<Rightarrow> (errno + CtrDrvrReadBuf) \<times> ctr_client" where
  "read_take c =
     (if q_Size (cc_Queue c) \<noteq> 0
      then (let (rb, q) = queue_get (cc_Queue c) in (Inr rb, c\<lparr> cc_Queue := q \<rparr>))
      else (Inl EINTR, c))"

definition read_end :: "ctr_client \<Rightarrow> lynxos_timers \<Rightarrow> (errno + CtrDrvrReadBuf) \<times> ctr_client \<times> lynxos_timers" where
  "read_end c ts =
     (if cc_Timeout c \<noteq> 0 then
        (if cc_Timer c \<noteq> 0 then
           (let (tm, ts1) = CancelTimeout (cc_Timer c) ts; (r, c1) = read_take (c\<lparr> cc_Timer := tm \<rparr>) in (r, c1, ts1))
         else (Inl ETIME, c, ts))
      else (let (r, c1) = read_take c in (r, c1, ts)))"

section \<open>Interleavings of a read\<close>

datatype read_phase = Idle | Asleep | Awake

text \<open>
  One reader: its context, the timers, where the read stands, and whether a read timer has ever
  expired (a history variable; no operation reads it).
\<close>

record reader =
  r_client :: ctr_client
  r_timers :: lynxos_timers
  r_phase :: read_phase
  r_expired :: bool

abbreviation wake_up :: "nat \<Rightarrow> nat list \<Rightarrow> read_phase \<Rightarrow> read_phase" where
  "wake_up n ws p \<equiv> (if n \<in> set ws then Awake else p)"

inductive reader_step :: "nat \<Rightarrow> reader \<Rightarrow> reader \<Rightarrow> bool" for n where
  Begin: "r_phase s = Idle \<Longrightarrow> read_begin n (r_client s) (r_timers s) = (passed, c, ts) \<Longrightarrow>
    reader_step n s (s\<lparr> r_client := c, r_timers := ts, r_phase := (if passed then Awake else Asleep) \<rparr>)"
| Put: "client_put x (r_client s) = (ws, c) \<Longrightarrow>
    reader_step n s (s\<lparr> r_client := c, r_phase := wake_up n ws (r_phase s) \<rparr>)"
| Expire: "i < TIMERS \<Longrightarrow> r_timers s ! i = Some (Call_ReadTimeout n) \<Longrightarrow> ReadTimeout (r_client s) = (ws, c) \<Longrightarrow>
    reader_step n s (s\<lparr> r_client := c, r_timers := (r_timers s)[i := None],
      r_phase := wake_up n ws (r_phase s), r_expired := True \<rparr>)"
| Signal: "r_phase s = Asleep \<Longrightarrow> read_signalled n (r_client s) (r_timers s) = (c, ts) \<Longrightarrow>
    reader_step n s (s\<lparr> r_client := c, r_timers := ts, r_phase := Idle \<rparr>)"
| End: "r_phase s = Awake \<Longrightarrow> read_end (r_client s) (r_timers s) = (res, c, ts) \<Longrightarrow>
    reader_step n s (s\<lparr> r_client := c, r_timers := ts, r_phase := Idle \<rparr>)"
| Set_timeout: "r_phase s = Idle \<Longrightarrow>
    reader_step n s (s\<lparr> r_client := (r_client s)\<lparr> cc_Timeout := t \<rparr> \<rparr>)"
| Set_queue_flag: "reader_step n s (s\<lparr> r_client := (r_client s)\<lparr> cc_Queue := (cc_Queue (r_client s))\<lparr> q_QueueOff := f \<rparr> \<rparr> \<rparr>)"
| Get_overflow: "reader_step n s (s\<lparr> r_client := (r_client s)\<lparr> cc_Queue := (cc_Queue (r_client s))\<lparr> q_Missed := 0 \<rparr> \<rparr> \<rparr>)"
| Other_timers: "length ts = TIMERS \<Longrightarrow>
      (\<And>i. i < TIMERS \<Longrightarrow> ts ! i = Some (Call_ReadTimeout n) \<longleftrightarrow> r_timers s ! i = Some (Call_ReadTimeout n)) \<Longrightarrow>
    reader_step n s (s\<lparr> r_timers := ts \<rparr>)"

definition reader_start :: "nat \<Rightarrow> u32 \<Rightarrow> reader" where
  "reader_start n pid = \<lparr> r_client = client_open n pid client_zero, r_timers = LynxOsTimersInitialize,
     r_phase = Idle, r_expired = False \<rparr>"

inductive reader_reach :: "nat \<Rightarrow> reader \<Rightarrow> bool" for n where
  start: "reader_reach n (reader_start n pid)"
| step: "reader_reach n s \<Longrightarrow> reader_step n s s' \<Longrightarrow> reader_reach n s'"

text \<open>The invariant, a fact per part of the state.\<close>

definition sleepers_ok :: "nat \<Rightarrow> reader \<Rightarrow> bool" where
  "sleepers_ok n s \<longleftrightarrow> sem_wait_list (cc_Semaphore (r_client s)) = (if r_phase s = Asleep then [n] else []) \<and>
     (r_phase s = Asleep \<longrightarrow> sem_count (cc_Semaphore (r_client s)) = 0)"

definition timers_ok :: "nat \<Rightarrow> reader \<Rightarrow> bool" where
  "timers_ok n s \<longleftrightarrow> length (r_timers s) = TIMERS \<and>
     (\<forall>i < TIMERS. r_timers s ! i = Some (Call_ReadTimeout n) \<longrightarrow>
        r_phase s \<noteq> Idle \<and> cc_Timeout (r_client s) \<noteq> 0 \<and> cc_Timer (r_client s) = of_nat (i + 1))"

definition counts_ok :: "reader \<Rightarrow> bool" where
  "counts_ok s \<longleftrightarrow> (let c = r_client s; k = sem_count (cc_Semaphore c); sz = q_Size (cc_Queue c) in
     k \<le> sz \<and>
     (r_phase s = Awake \<and> (cc_Timeout c = 0 \<or> cc_Timer c \<noteq> 0) \<longrightarrow> k + 1 \<le> sz) \<and>
     (\<not> r_expired s \<longrightarrow> k + (if r_phase s = Awake then 1 else 0) = sz \<and>
        (r_phase s \<noteq> Idle \<longrightarrow> cc_Timeout c = 0 \<or> cc_Timer c \<noteq> 0)))"

definition reader_ok :: "nat \<Rightarrow> reader \<Rightarrow> bool" where
  "reader_ok n s \<longleftrightarrow> queue_ok (cc_Queue (r_client s)) \<and> sleepers_ok n s \<and> timers_ok n s \<and> counts_ok s"

named_theorems ctr_client_defs

lemmas [ctr_client_defs] = cdcm_down_def cdcm_up_def ssignal_def sreset_def cdcm_down_leave_def
  sleepers_ok_def counts_ok_def

lemma queue_ok_new [simp]: "queue_ok queue_new"
  by (simp add: queue_ok_def queue_new_def)

lemma queue_ok_flush [simp]: "queue_ok q \<Longrightarrow> queue_ok (queue_flush q)"
  by (simp add: queue_ok_def queue_flush_def)

lemma flush_empty [simp]: "q_Size (queue_flush q) = 0"
  by (simp add: queue_flush_def)

lemma queue_ok_fields [simp]:
  "queue_ok (q\<lparr> q_QueueOff := f \<rparr>) = queue_ok q" "queue_ok (q\<lparr> q_Missed := m \<rparr>) = queue_ok q"
  by (simp_all add: queue_ok_def)

lemma pending_fields [simp]:
  "pending (q\<lparr> q_QueueOff := f \<rparr>) = pending q" "pending (q\<lparr> q_Missed := m \<rparr>) = pending q"
  by (simp_all add: pending_def)

subsection \<open>Timers\<close>

lemma free_timer_Some:
  "free_timer k ts = Some i \<Longrightarrow> k \<le> i \<and> i < k + length ts \<and> ts ! (i - k) = None"
proof (induction k ts rule: free_timer.induct)
  case (2 k t ts)
  then show ?case by (auto split: if_splits simp: nth_Cons' Suc_le_eq)
qed simp

text \<open>Arming a timer takes a free entry, or the handle is minus one and nothing is armed.\<close>

lemma timeout_cases:
  assumes "length ts = TIMERS"
  obtains (armed) i where "i < TIMERS" "ts ! i = None" "timeout f ts = (of_nat (i + 1), ts[i := Some f])"
  | (none) "timeout f ts = (- 1, ts)"
  using assms free_timer_Some [of 0 ts] by (cases "free_timer 0 ts") (auto simp: timeout_def)

lemma handle_value:
  assumes "i < TIMERS"
  shows "(of_nat (i + 1) :: i32) \<noteq> 0" "sint (of_nat (i + 1) :: i32) = int i + 1"
proof -
  have "list_all (\<lambda>i. (of_nat (i + 1) :: i32) \<noteq> 0 \<and> sint (of_nat (i + 1) :: i32) = int i + 1) [0..<TIMERS]"
    by code_simp
  with assms show "(of_nat (i + 1) :: i32) \<noteq> 0" "sint (of_nat (i + 1) :: i32) = int i + 1"
    by (auto simp: list_all_iff)
qed

lemma cancel_armed: "i < TIMERS \<Longrightarrow> cancel_timeout (of_nat (i + 1)) ts = ts[i := None]"
  using handle_value [of i] by (simp add: cancel_timeout_def)

lemma cancel_length [simp]: "length (cancel_timeout v ts) = length ts"
  by (simp add: cancel_timeout_def Let_def)

lemma handle_inj: "i < TIMERS \<Longrightarrow> j < TIMERS \<Longrightarrow> (of_nat (i + 1) :: i32) = of_nat (j + 1) \<longleftrightarrow> i = j"
  by (metis handle_value(2) add_right_cancel of_nat_eq_iff)

text \<open>After the handle is cancelled no timer of this reader is left.\<close>

lemma cancel_clears:
  assumes "timers_ok n s" "i < TIMERS"
  shows "cancel_timeout (cc_Timer (r_client s)) (r_timers s) ! i \<noteq> Some (Call_ReadTimeout n)"
proof (cases "r_timers s ! i = Some (Call_ReadTimeout n)")
  case True
  then have "cc_Timer (r_client s) = of_nat (i + 1)" using assms by (simp add: timers_ok_def)
  then show ?thesis using assms cancel_armed [of i] by (simp add: timers_ok_def)
next
  case False
  have drop: "(ts[k := None]) ! i = Some f \<Longrightarrow> ts ! i = Some f" for ts :: lynxos_timers and k f
    by (metis list_update_beyond not_less nth_list_update_eq nth_list_update_neq option.distinct(1))
  from False show ?thesis unfolding cancel_timeout_def Let_def by (auto dest: drop)
qed

subsection \<open>Every step keeps the invariant\<close>

lemma read_take_ok:
  assumes "queue_ok (cc_Queue c)" "read_take c = (r, c')"
  shows "queue_ok (cc_Queue c')" "cc_Timer c' = cc_Timer c" "cc_Timeout c' = cc_Timeout c"
    "cc_Semaphore c' = cc_Semaphore c" "q_Size (cc_Queue c') = q_Size (cc_Queue c) - 1"
  using assms queue_get_ok [of "cc_Queue c"]
  by (auto simp: read_take_def queue_get_def split: if_splits)

text \<open>The semaphore of a well-formed reader holds a count or the reader itself.\<close>

lemma reader_sem:
  assumes "reader_ok n s"
  obtains k where "cc_Semaphore (r_client s) = \<lparr> sem_count = k, sem_wait_list = (if r_phase s = Asleep then [n] else []) \<rparr>"
    "r_phase s = Asleep \<Longrightarrow> k = 0"
  using assms by (cases "cc_Semaphore (r_client s)") (auto simp: reader_ok_def sleepers_ok_def)

lemma begin_timers:
  assumes ok: "reader_ok n s" and idle: "r_phase s = Idle"
    and rb: "read_begin n (r_client s) (r_timers s) = (passed, c, ts)"
  shows "length ts = TIMERS" "cc_Timeout c = cc_Timeout (r_client s)" "cc_Timeout c \<noteq> 0 \<Longrightarrow> cc_Timer c \<noteq> 0"
    "i < TIMERS \<Longrightarrow> ts ! i = Some (Call_ReadTimeout n) \<Longrightarrow> cc_Timeout c \<noteq> 0 \<and> cc_Timer c = of_nat (i + 1)"
proof -
  have len: "length (r_timers s) = TIMERS"
    and unarmed: "\<And>i. i < TIMERS \<Longrightarrow> r_timers s ! i \<noteq> Some (Call_ReadTimeout n)"
    using ok idle by (auto simp: reader_ok_def timers_ok_def)
  have c: "cc_Timeout c = cc_Timeout (r_client s)"
      "(cc_Timer c, ts) = (if cc_Timeout (r_client s) \<noteq> 0 then timeout (Call_ReadTimeout n) (r_timers s)
                           else (cc_Timer (r_client s), r_timers s))"
    using rb by (auto simp: read_begin_def Let_def split: prod.splits if_splits)
  have "length ts = TIMERS \<and> (cc_Timeout c \<noteq> 0 \<longrightarrow> cc_Timer c \<noteq> 0) \<and>
      (i < TIMERS \<longrightarrow> ts ! i = Some (Call_ReadTimeout n) \<longrightarrow> cc_Timeout c \<noteq> 0 \<and> cc_Timer c = of_nat (i + 1))" for i
  proof (cases "cc_Timeout (r_client s) = 0")
    case True with c len unarmed show ?thesis by simp
  next
    case False
    from len show ?thesis
    proof (cases rule: timeout_cases [where f = "Call_ReadTimeout n"])
      case (armed k)
      with c False have "cc_Timer c = of_nat (k + 1)" "ts = (r_timers s)[k := Some (Call_ReadTimeout n)]" by auto
      with armed(1) c(1) False len unarmed handle_value(1) [of k] show ?thesis
        by (cases "i = k") (auto simp del: of_nat_add)
    next
      case none
      with c False have "cc_Timer c = - 1" "ts = r_timers s" by auto
      with len unarmed show ?thesis by auto
    qed
  qed
  with c(1) show "length ts = TIMERS" "cc_Timeout c = cc_Timeout (r_client s)" "cc_Timeout c \<noteq> 0 \<Longrightarrow> cc_Timer c \<noteq> 0"
    "i < TIMERS \<Longrightarrow> ts ! i = Some (Call_ReadTimeout n) \<Longrightarrow> cc_Timeout c \<noteq> 0 \<and> cc_Timer c = of_nat (i + 1)"
    by auto
qed

lemma begin_ok:
  assumes ok: "reader_ok n s" and idle: "r_phase s = Idle"
    and rb: "read_begin n (r_client s) (r_timers s) = (passed, c, ts)"
  shows "reader_ok n (s\<lparr> r_client := c, r_timers := ts, r_phase := (if passed then Awake else Asleep) \<rparr>)"
proof -
  obtain k where sem: "cc_Semaphore (r_client s) = \<lparr> sem_count = k, sem_wait_list = [] \<rparr>"
    using reader_sem [OF ok] idle by auto
  have cnt: "k \<le> q_Size (cc_Queue (r_client s))" "\<not> r_expired s \<longrightarrow> k = q_Size (cc_Queue (r_client s))"
      "queue_ok (cc_Queue (r_client s))"
    using ok idle sem by (simp_all add: reader_ok_def counts_ok_def Let_def)
  define k' where "k' = (if q_QueueOff (cc_Queue (r_client s)) \<noteq> 0 then 0 else k)"
  define q' where "q' = (if q_QueueOff (cc_Queue (r_client s)) \<noteq> 0 then queue_flush (cc_Queue (r_client s))
                         else cc_Queue (r_client s))"
  have c: "cc_Queue c = q'" "passed = (0 < k')"
      "cc_Semaphore c = (if 0 < k' then \<lparr> sem_count = k' - 1, sem_wait_list = [] \<rparr>
                         else \<lparr> sem_count = 0, sem_wait_list = [n] \<rparr>)"
    using rb sem
    by (auto simp: read_begin_def cdcm_down_def sreset_def k'_def q'_def Let_def split: prod.splits if_splits)
  have q: "queue_ok q'" "k' \<le> q_Size q'" "\<not> r_expired s \<longrightarrow> k' = q_Size q'"
    using cnt by (auto simp: k'_def q'_def)
  have "sleepers_ok n (s\<lparr> r_client := c, r_timers := ts, r_phase := (if passed then Awake else Asleep) \<rparr>)"
    using c by (simp add: sleepers_ok_def)
  moreover have "counts_ok (s\<lparr> r_client := c, r_timers := ts, r_phase := (if passed then Awake else Asleep) \<rparr>)"
    using c q begin_timers(3) [OF ok idle rb] by (auto simp: counts_ok_def Let_def)
  ultimately show ?thesis
    using c q begin_timers [OF ok idle rb] by (auto simp: reader_ok_def timers_ok_def simp del: of_nat_add)
qed

lemma put_ok:
  assumes ok: "reader_ok n s" and put: "client_put x (r_client s) = (ws, c)"
  shows "reader_ok n (s\<lparr> r_client := c, r_phase := wake_up n ws (r_phase s) \<rparr>)"
proof -
  let ?q = "cc_Queue (r_client s)" and ?N = CtrDrvrQUEUE_SIZE
  obtain k where sem: "cc_Semaphore (r_client s) = \<lparr> sem_count = k, sem_wait_list = (if r_phase s = Asleep then [n] else []) \<rparr>"
      "r_phase s = Asleep \<Longrightarrow> k = 0"
    using reader_sem [OF ok] by blast
  have qok: "queue_ok ?q" and t: "timers_ok n s" and cnt: "counts_ok s"
    using ok by (simp_all add: reader_ok_def)
  have c: "cc_Queue c = snd (queue_put x ?q)" "cc_Timer c = cc_Timer (r_client s)" "cc_Timeout c = cc_Timeout (r_client s)"
      "ws = (if q_Size ?q < ?N \<and> r_phase s = Asleep then [n] else [])"
      "cc_Semaphore c = (if q_Size ?q < ?N then
          (if r_phase s = Asleep then \<lparr> sem_count = k, sem_wait_list = [] \<rparr> else \<lparr> sem_count = k + 1, sem_wait_list = [] \<rparr>)
        else cc_Semaphore (r_client s))"
    using put sem
    by (auto simp: client_put_def queue_put_def ssignal_def cdcm_up_def Let_def split: if_splits)
  have sz: "q_Size (snd (queue_put x ?q)) = (if q_Size ?q < ?N then q_Size ?q + 1 else q_Size ?q)"
    by (simp add: queue_put_def Let_def)
  have "timers_ok n (s\<lparr> r_client := c, r_phase := wake_up n ws (r_phase s) \<rparr>)"
    using t c by (auto simp: timers_ok_def simp del: of_nat_add)
  moreover have "sleepers_ok n (s\<lparr> r_client := c, r_phase := wake_up n ws (r_phase s) \<rparr>)"
    using c sem by (auto simp: sleepers_ok_def)
  moreover have "counts_ok (s\<lparr> r_client := c, r_phase := wake_up n ws (r_phase s) \<rparr>)"
    using cnt c sem sz t by (cases "r_phase s"; cases "q_Size ?q < ?N") (simp_all add: counts_ok_def Let_def)
  ultimately show ?thesis using queue_put_ok [OF qok] c by (simp add: reader_ok_def)
qed

lemma expire_ok:
  assumes ok: "reader_ok n s" and i: "i < TIMERS" "r_timers s ! i = Some (Call_ReadTimeout n)"
    and rt: "ReadTimeout (r_client s) = (ws, c)"
  shows "reader_ok n (s\<lparr> r_client := c, r_timers := (r_timers s)[i := None],
      r_phase := wake_up n ws (r_phase s), r_expired := True \<rparr>)"
proof -
  obtain k where sem: "cc_Semaphore (r_client s) = \<lparr> sem_count = k, sem_wait_list = (if r_phase s = Asleep then [n] else []) \<rparr>"
      "r_phase s = Asleep \<Longrightarrow> k = 0"
    using reader_sem [OF ok] by blast
  have qok: "queue_ok (cc_Queue (r_client s))" and t: "timers_ok n s" and cnt: "counts_ok s"
    using ok by (simp_all add: reader_ok_def)
  have c: "cc_Queue c = cc_Queue (r_client s)" "cc_Timer c = 0" "cc_Timeout c = cc_Timeout (r_client s)"
      "ws = (if r_phase s = Asleep then [n] else [])" "cc_Semaphore c = \<lparr> sem_count = 0, sem_wait_list = [] \<rparr>"
    using rt sem by (auto simp: ReadTimeout_def sreset_def Let_def split: if_splits)
  have tmo: "r_phase s \<noteq> Idle" "cc_Timeout (r_client s) \<noteq> 0" "cc_Timer (r_client s) = of_nat (i + 1)"
    using t i by (auto simp: timers_ok_def)
  have "(r_timers s)[i := None] ! j \<noteq> Some (Call_ReadTimeout n)" if "j < TIMERS" for j
    using cancel_clears [OF t that] tmo(3) cancel_armed [OF i(1)] by simp
  then have "timers_ok n (s\<lparr> r_client := c, r_timers := (r_timers s)[i := None],
      r_phase := wake_up n ws (r_phase s), r_expired := True \<rparr>)"
    using t by (simp add: timers_ok_def)
  then show ?thesis using c qok cnt tmo(2) by (auto simp: reader_ok_def sleepers_ok_def counts_ok_def Let_def)
qed

lemma signal_ok:
  assumes ok: "reader_ok n s" and asleep: "r_phase s = Asleep"
    and rs: "read_signalled n (r_client s) (r_timers s) = (c, ts)"
  shows "reader_ok n (s\<lparr> r_client := c, r_timers := ts, r_phase := Idle \<rparr>)"
proof -
  have sem: "cc_Semaphore (r_client s) = \<lparr> sem_count = 0, sem_wait_list = [n] \<rparr>"
    using reader_sem [OF ok] asleep by auto
  have qok: "queue_ok (cc_Queue (r_client s))" and t: "timers_ok n s" and cnt: "counts_ok s"
    using ok by (simp_all add: reader_ok_def)
  have c: "cc_Queue c = cc_Queue (r_client s)" "cc_Semaphore c = \<lparr> sem_count = 0, sem_wait_list = [] \<rparr>"
      "ts = cancel_timeout (cc_Timer (r_client s)) (r_timers s)"
    using rs sem
    by (auto simp: read_signalled_def CancelTimeout_def cdcm_down_leave_def cancel_timeout_def Let_def split: if_splits)
  have "timers_ok n (s\<lparr> r_client := c, r_timers := ts, r_phase := Idle \<rparr>)"
    using t cancel_clears [OF t] c(3) by (simp add: timers_ok_def)
  then show ?thesis using c qok cnt asleep sem by (simp add: reader_ok_def sleepers_ok_def counts_ok_def Let_def)
qed

lemma end_ok:
  assumes ok: "reader_ok n s" and awake: "r_phase s = Awake"
    and re: "read_end (r_client s) (r_timers s) = (r, c, ts)"
  shows "reader_ok n (s\<lparr> r_client := c, r_timers := ts, r_phase := Idle \<rparr>)"
proof -
  let ?c = "r_client s"
  obtain k where sem: "cc_Semaphore ?c = \<lparr> sem_count = k, sem_wait_list = [] \<rparr>"
    using reader_sem [OF ok] awake by auto
  have qok: "queue_ok (cc_Queue ?c)" and t: "timers_ok n s" and cnt: "counts_ok s"
    using ok by (simp_all add: reader_ok_def)
  have "queue_ok (cc_Queue c) \<and> cc_Semaphore c = cc_Semaphore ?c \<and>
      ts = (if cc_Timeout ?c \<noteq> 0 then cancel_timeout (cc_Timer ?c) (r_timers s) else r_timers s) \<and>
      q_Size (cc_Queue c) = (if cc_Timeout ?c = 0 \<or> cc_Timer ?c \<noteq> 0 then q_Size (cc_Queue ?c) - 1 else q_Size (cc_Queue ?c))"
    using re qok queue_get_ok [of "cc_Queue ?c"]
    by (auto simp: read_end_def read_take_def CancelTimeout_def queue_get_def cancel_timeout_def Let_def
        split: prod.splits if_splits)
  then have c: "queue_ok (cc_Queue c)" "cc_Semaphore c = \<lparr> sem_count = k, sem_wait_list = [] \<rparr>"
      "ts = (if cc_Timeout ?c \<noteq> 0 then cancel_timeout (cc_Timer ?c) (r_timers s) else r_timers s)"
      "q_Size (cc_Queue c) = (if cc_Timeout ?c = 0 \<or> cc_Timer ?c \<noteq> 0 then q_Size (cc_Queue ?c) - 1 else q_Size (cc_Queue ?c))"
    using sem by auto
  have "timers_ok n (s\<lparr> r_client := c, r_timers := ts, r_phase := Idle \<rparr>)"
    using t cancel_clears [OF t] c(3) by (auto simp: timers_ok_def)
  moreover have "counts_ok (s\<lparr> r_client := c, r_timers := ts, r_phase := Idle \<rparr>)"
    using cnt c(2,4) sem awake by (auto simp: counts_ok_def Let_def)
  ultimately show ?thesis using c by (simp add: reader_ok_def sleepers_ok_def)
qed

lemma reader_step_ok: "reader_step n s s' \<Longrightarrow> reader_ok n s \<Longrightarrow> reader_ok n s'"
proof (induction rule: reader_step.induct)
  case (Begin s passed c ts) then show ?case using begin_ok by blast
next
  case (Put x s ws c) then show ?case using put_ok by blast
next
  case (Expire i s ws c) then show ?case using expire_ok by blast
next
  case (Signal s c ts) then show ?case using signal_ok by blast
next
  case (End s res c ts) then show ?case using end_ok by blast
qed (auto simp: reader_ok_def sleepers_ok_def timers_ok_def counts_ok_def Let_def)

lemma reader_start_ok: "reader_ok n (reader_start n pid)"
  by (simp add: reader_ok_def reader_start_def sleepers_ok_def timers_ok_def counts_ok_def client_open_def
      client_zero_def LynxOsTimersInitialize_def sem_new_def sreset_def Let_def queue_new_def)
     (simp flip: queue_new_def)

lemma reader_reach_ok: "reader_reach n s \<Longrightarrow> reader_ok n s"
  by (induction rule: reader_reach.induct) (auto intro: reader_start_ok reader_step_ok)

subsection \<open>What a read returns\<close>

lemma pending_Nil [simp]: "pending q = [] \<longleftrightarrow> q_Size q = 0"
  by (metis length_pending length_0_conv)

lemma read_take_oldest:
  assumes "queue_ok (cc_Queue c)" "0 < q_Size (cc_Queue c)"
  shows "\<exists>x c'. read_take c = (Inr x, c') \<and> pending (cc_Queue c) = x # pending (cc_Queue c')"
  using queue_get_pending [OF assms] assms(2)
  by (cases "queue_get (cc_Queue c)") (simp add: read_take_def)

lemma reader_sleeps_empty: "reader_ok n s \<Longrightarrow> \<not> r_expired s \<Longrightarrow> r_phase s = Asleep \<Longrightarrow> q_Size (cc_Queue (r_client s)) = 0"
  by (auto simp: reader_ok_def counts_ok_def sleepers_ok_def Let_def)

lemma read_end_oldest:
  assumes "reader_ok n s" "r_phase s = Awake" "cc_Timeout (r_client s) = 0 \<or> cc_Timer (r_client s) \<noteq> 0"
  shows "\<exists>x c ts. read_end (r_client s) (r_timers s) = (Inr x, c, ts) \<and>
    pending (cc_Queue (r_client s)) = x # pending (cc_Queue c)"
proof -
  let ?c = "r_client s"
  have q: "queue_ok (cc_Queue ?c)" "0 < q_Size (cc_Queue ?c)"
    using assms by (auto simp: reader_ok_def counts_ok_def Let_def)
  obtain tm ts where ct: "CancelTimeout (cc_Timer ?c) (r_timers s) = (tm, ts)" by (cases "CancelTimeout (cc_Timer ?c) (r_timers s)")
  show ?thesis
    using assms(3) ct read_take_oldest [of ?c] read_take_oldest [of "?c\<lparr> cc_Timer := tm \<rparr>"] q
    by (cases "cc_Timeout ?c = 0") (auto simp: read_end_def)
qed


definition sample_rbuf :: CtrDrvrReadBuf where
  "sample_rbuf = zero_rbuf \<lparr> rb_TriggerNumber := 5 \<rparr>"

lemma reader_step_run: "reader_reach n s \<Longrightarrow> reader_step n s s' \<Longrightarrow> s'' = s' \<Longrightarrow> reader_reach n s''"
  by (simp add: reader_reach.step)

lemma first_timer [simp]: "free_timer 0 (replicate 16 None) = Some 0" "(replicate 16 None)[0 := None] = replicate 16 None"
  by (simp_all add: eval_nat_numeral)

lemmas reader_eval = reader_start_def client_open_def client_zero_def LynxOsTimersInitialize_def sem_new_def
  sreset_def read_begin_def timeout_def cdcm_down_def cdcm_up_def ssignal_def client_put_def queue_put_def
  queue_new_def ReadTimeout_def read_end_def read_take_def CtrDrvrDEFAULT_TIMEOUT_def TIMERS_def
  CtrDrvrQUEUE_SIZE_def Let_def

text \<open>A client that opens the device, sleeps in a read and is woken by a delivery.\<close>

definition slept :: "nat \<Rightarrow> reader" where
  "slept n = (reader_start n 7)\<lparr> r_client := (client_open n 7 client_zero)\<lparr> cc_Timer := 1,
     cc_Semaphore := \<lparr> sem_count = 0, sem_wait_list = [n] \<rparr> \<rparr>,
     r_timers := (replicate TIMERS None)[0 := Some (Call_ReadTimeout n)], r_phase := Asleep \<rparr>"

definition with_one :: "CtrDrvrReadBuf \<Rightarrow> CtrDrvrQueue" where
  "with_one x = queue_new \<lparr> q_Size := 1, q_WrPntr := 1, q_Entries := (q_Entries queue_new)[0 := x] \<rparr>"

definition woken :: "nat \<Rightarrow> CtrDrvrReadBuf \<Rightarrow> reader" where
  "woken n x = (slept n)\<lparr> r_client := (r_client (slept n))\<lparr> cc_Semaphore := sem_new, cc_Queue := with_one x \<rparr>,
     r_phase := Awake \<rparr>"

lemma slept_reach: "reader_reach n (slept n)"
proof (rule reader_step_run)
  show "reader_reach n (reader_start n 7)" by (rule reader_reach.start)
  show "reader_step n (reader_start n 7) ((reader_start n 7)\<lparr> r_client := r_client (slept n),
      r_timers := r_timers (slept n), r_phase := (if False then Awake else Asleep) \<rparr>)"
    by (rule reader_step.Begin) (simp_all add: reader_eval slept_def)
qed (simp add: slept_def reader_eval)

lemma woken_reach: "reader_reach n (woken n x)"
proof (rule reader_step_run)
  show "reader_reach n (slept n)" by (rule slept_reach)
  show "reader_step n (slept n) ((slept n)\<lparr> r_client := r_client (woken n x),
      r_phase := wake_up n [n] (r_phase (slept n)) \<rparr>)"
    by (rule reader_step.Put [of x]) (simp add: reader_eval slept_def woken_def with_one_def)
qed (simp add: woken_def)


text \<open>
  A read timer that expires between a delivery and the reader's return takes the wake-up of
  the delivery with it: the read reports \<^verbatim>\<open>ETIME\<close>, the buffer stays queued, and the next read
  goes to sleep although its queue is not empty.
\<close>

theorem timeout_strands_entry:
  "\<exists>s. reader_reach n s \<and> r_phase s = Asleep \<and> pending (cc_Queue (r_client s)) = [x]"
proof -
  define s1 where "s1 = (woken n x)\<lparr> r_client := (r_client (woken n x))\<lparr> cc_Timer := 0 \<rparr>,
    r_timers := replicate TIMERS None, r_expired := True \<rparr>"
  define s2 where "s2 = s1\<lparr> r_phase := Idle \<rparr>"
  define s3 where "s3 = s2\<lparr> r_client := (r_client s2)\<lparr> cc_Timer := 1,
     cc_Semaphore := \<lparr> sem_count = 0, sem_wait_list = [n] \<rparr> \<rparr>,
     r_timers := (replicate TIMERS None)[0 := Some (Call_ReadTimeout n)], r_phase := Asleep \<rparr>"
  have "reader_reach n s1"
  proof (rule reader_step_run [OF woken_reach])
    show "reader_step n (woken n x) ((woken n x)\<lparr> r_client := r_client s1,
        r_timers := (r_timers (woken n x))[0 := None], r_phase := wake_up n [] (r_phase (woken n x)), r_expired := True \<rparr>)"
      by (rule reader_step.Expire) (simp_all add: reader_eval slept_def woken_def s1_def)
  qed (simp add: s1_def woken_def slept_def reader_eval)
  then have "reader_reach n s2"
  proof (rule reader_step_run)
    show "reader_step n s1 (s1\<lparr> r_client := r_client s1, r_timers := r_timers s1, r_phase := Idle \<rparr>)"
      by (rule reader_step.End [of _ "Inl ETIME"]) (simp_all add: reader_eval slept_def woken_def s1_def)
  qed (simp add: s2_def)
  then have "reader_reach n s3"
  proof (rule reader_step_run)
    show "reader_step n s2 (s2\<lparr> r_client := r_client s3, r_timers := r_timers s3,
        r_phase := (if False then Awake else Asleep) \<rparr>)"
      by (rule reader_step.Begin)
        (simp_all add: reader_eval slept_def woken_def s1_def s2_def s3_def with_one_def)
  qed (simp add: s3_def)
  moreover have "r_phase s3 = Asleep" "pending (cc_Queue (r_client s3)) = [x]"
    by (simp_all add: s3_def s2_def s1_def woken_def with_one_def pending_def queue_new_def CtrDrvrQUEUE_SIZE_def)
  ultimately show ?thesis by blast
qed

end
