(* ===== verification/Ctr_Board.thy ===== *)
theory Ctr_Board
  imports Ctr_Client
begin

text \<open>
  The board of the timing receiver: the registers of \<^verbatim>\<open>CtrDrvrMemoryMap\<close> (ctrhard.h), the accesses
  \<^verbatim>\<open>HRd\<close>, \<^verbatim>\<open>HWr\<close>, \<^verbatim>\<open>Io32Read\<close>, \<^verbatim>\<open>Io32Write\<close>, the bus error counters of ctrdrvr-vme.c, and the JTAG
  port of the HPTDC chip. The FPGA is not code: a register holds what was last written to it,
  except where the device drives it, which is an argument of the model kept in the board.
\<close>

section \<open>Registers\<close>

datatype ctr_reg =
    R_InterruptSource | R_InterruptEnable | R_HptdcJtag | R_InputDelay | R_CableId | R_VhdlVersion
  | R_OutputByte | R_Status | R_Command | R_Pll nat | R_ReadTime nat | R_SetTime
  | R_LockConfig nat | R_LockHistory nat | R_RemOutMask nat | R_History nat nat
  | R_CounterConfig nat | R_CounterDelay nat | R_Telegram nat nat
  | R_TrigFrame nat | R_TrigWord nat | R_ConfigWord nat | R_ConfigDelay nat | R_EventHistory nat
  | R_Setup | R_LastReset | R_PartityErrs | R_SyncErrs | R_TotalErrs | R_CodeViolErrs | R_QueueErrs
  | R_IoStat | R_IdLSL | R_IdMSL | R_ModStats nat | R_SvnId nat
  | R_Beyond nat  \<comment> \<open>the rest of the VME window\<close>

text \<open>
  The register at a word offset of the window, from the order and the sizes of the structures. A
  counter has three control words, eleven history words and two configuration words.
\<close>

definition counter_reg :: "nat \<Rightarrow> nat \<Rightarrow> ctr_reg" where
  "counter_reg c k = (if k = 0 then R_LockConfig c else if k = 1 then R_LockHistory c
     else if k = 2 then R_RemOutMask c else if k < 14 then R_History c (k - 3)
     else if k = 14 then R_CounterConfig c else R_CounterDelay c)"

definition first_regs :: "ctr_reg list" where
  "first_regs = [R_InterruptSource, R_InterruptEnable, R_HptdcJtag, R_InputDelay, R_CableId,
     R_VhdlVersion, R_OutputByte, R_Status, R_Command] @ map R_Pll [0..<8] @ map R_ReadTime [0..<3] @ [R_SetTime]"

definition last_regs :: "ctr_reg list" where
  "last_regs = [R_Setup, R_LastReset, R_PartityErrs, R_SyncErrs, R_TotalErrs, R_CodeViolErrs,
     R_QueueErrs, R_IoStat, R_IdLSL, R_IdMSL] @ map R_ModStats [0..<22] @ map R_SvnId [0..<32]"

definition reg_at :: "nat \<Rightarrow> ctr_reg" where
  "reg_at j =
    (if j < 21 then first_regs ! j
     else if j < 165 then counter_reg ((j - 21) div 16) ((j - 21) mod 16)
     else if j < 389 then R_Telegram ((j - 165) div 32) ((j - 165) mod 32)
     else if j < 4485 then (if (j - 389) mod 2 = 0 then R_TrigFrame else R_TrigWord) ((j - 389) div 2)
     else if j < 8581 then (if (j - 4485) mod 2 = 0 then R_ConfigWord else R_ConfigDelay) ((j - 4485) div 2)
     else if j < 12678 then R_EventHistory (j - 8581)
     else if j < 12742 then last_regs ! (j - 12678)
     else R_Beyond (j - 12742))"

text \<open>
  The board: memory, the writes so far in order, and what the device shows instead of memory after
  those writes, where it drives a register itself.
\<close>

type_synonym ctr_writes = "(ctr_reg \<times> u32) list"

record ctr_board =
  b_Mem :: "ctr_reg \<Rightarrow> u32"
  b_Log :: ctr_writes
  b_Device :: "ctr_writes \<Rightarrow> ctr_reg \<Rightarrow> u32 option"

definition HWr :: "u32 \<Rightarrow> ctr_reg \<Rightarrow> ctr_board \<Rightarrow> ctr_board" where
  "HWr v r b = b\<lparr> b_Mem := (b_Mem b)(r := v), b_Log := b_Log b @ [(r, v)] \<rparr>"

definition HRd :: "ctr_reg \<Rightarrow> ctr_board \<Rightarrow> u32" where
  "HRd r b = (case b_Device b (b_Log b) r of Some v \<Rightarrow> v | None \<Rightarrow> b_Mem b r)"

text \<open>Two kinds of register are cleared by reading them ("Cleared on read", "CLEAR ON READ").\<close>

definition clears_on_read :: "ctr_reg \<Rightarrow> bool" where
  "clears_on_read r = (case r of R_InterruptSource \<Rightarrow> True | R_LockHistory c \<Rightarrow> True | _ \<Rightarrow> False)"

definition after_read :: "ctr_reg \<Rightarrow> ctr_board \<Rightarrow> ctr_board" where
  "after_read r b = (if clears_on_read r then b\<lparr> b_Mem := (b_Mem b)(r := 0) \<rparr> else b)"

text \<open>Transfers of a structure, word by word: the registers of the structure and its words.\<close>

definition Io32Write :: "ctr_reg list \<Rightarrow> u32 list \<Rightarrow> ctr_board \<Rightarrow> ctr_board" where
  "Io32Write rs ws b = fold (\<lambda>(r, w). HWr w r) (zip rs ws) b"

definition Io32Read :: "ctr_reg list \<Rightarrow> ctr_board \<Rightarrow> u32 list" where
  "Io32Read rs b = map (\<lambda>r. HRd r b) rs"

definition write_trigger :: "nat \<Rightarrow> CtrDrvrHwTrigger \<Rightarrow> ctr_board \<Rightarrow> ctr_board" where
  "write_trigger i h = Io32Write [R_TrigFrame i, R_TrigWord i] [ht_Frame h, ht_Trigger h]"

definition write_config :: "nat \<Rightarrow> CtrDrvrHwCounterConfiguration \<Rightarrow> ctr_board \<Rightarrow> ctr_board" where
  "write_config i h = Io32Write [R_ConfigWord i, R_ConfigDelay i] [hc_Config h, hc_Delay h]"

definition read_trigger :: "nat \<Rightarrow> ctr_board \<Rightarrow> CtrDrvrHwTrigger" where
  "read_trigger i b = \<lparr> ht_Frame = HRd (R_TrigFrame i) b, ht_Trigger = HRd (R_TrigWord i) b \<rparr>"

definition read_config :: "nat \<Rightarrow> ctr_board \<Rightarrow> CtrDrvrHwCounterConfiguration" where
  "read_config i b = \<lparr> hc_Config = HRd (R_ConfigWord i) b, hc_Delay = HRd (R_ConfigDelay i) b \<rparr>"

definition read_ctime :: "(nat \<Rightarrow> ctr_reg) \<Rightarrow> nat \<Rightarrow> ctr_board \<Rightarrow> CtrDrvrCTime" where
  "read_ctime f k b = \<lparr> ct_CTrain = HRd (f k) b, ct_Second = HRd (f (k + 1)) b, ct_TicksHPTDC = HRd (f (k + 2)) b \<rparr>"

section \<open>Bus errors\<close>

text \<open>
  The counters are shared by all modules. A bus error is reported by a call of \<^verbatim>\<open>BusErrorHandler\<close>,
  after the access that caused it.
\<close>

record ctr_bus =
  bus_error_count :: int
  last_bus_error :: int
  isr_bus_error :: bool

definition bus_quiet :: ctr_bus where
  "bus_quiet = \<lparr> bus_error_count = 0, last_bus_error = 0, isr_bus_error = False \<rparr>"

definition BUS_ERR_PRINT_THRESHOLD :: int where "BUS_ERR_PRINT_THRESHOLD = 10"

definition BusErrorHandler :: "ctr_bus \<Rightarrow> ctr_bus" where
  "BusErrorHandler u = u\<lparr> bus_error_count := bus_error_count u + 1 \<rparr>"

definition GetClrBusErrCnt :: "ctr_bus \<Rightarrow> int \<times> ctr_bus" where
  "GetClrBusErrCnt u = (bus_error_count u, bus_quiet)"

text \<open>What a read in the interrupt handler, a read elsewhere and a write do to the counters.\<close>

definition IHRd_bus :: "ctr_bus \<Rightarrow> ctr_bus" where
  "IHRd_bus u = u\<lparr> isr_bus_error := bus_error_count u > last_bus_error u \<rparr>"

definition HRd_bus :: "ctr_bus \<Rightarrow> ctr_bus" where
  "HRd_bus u =
     (if bus_error_count u > last_bus_error u \<and> bus_error_count u \<le> BUS_ERR_PRINT_THRESHOLD
      then u\<lparr> isr_bus_error := False, last_bus_error := bus_error_count u \<rparr> else u)"

definition HWr_bus :: "ctr_bus \<Rightarrow> ctr_bus" where
  "HWr_bus u =
     (if bus_error_count u > last_bus_error u \<and> bus_error_count u \<le> BUS_ERR_PRINT_THRESHOLD
      then u\<lparr> last_bus_error := bus_error_count u \<rparr> else u)"

section \<open>The JTAG port of the HPTDC\<close>

definition HptdcJTAG_TRST :: u32 where "HptdcJTAG_TRST = 0x01"
definition HptdcJTAG_TCK :: u32 where "HptdcJTAG_TCK = 0x02"
definition HptdcJTAG_TDI :: u32 where "HptdcJTAG_TDI = 0x04"
definition HptdcJTAG_TDO :: u32 where "HptdcJTAG_TDO = 0x08"
definition HptdcJTAG_TMS :: u32 where "HptdcJTAG_TMS = 0x10"
definition HptdcCmdBITS :: nat where "HptdcCmdBITS = 4"

record HptdcRegisterVlaue =
  hv_Value :: u32
  hv_EndBit :: "16 word"
  hv_StartBit :: "16 word"

definition HptdcBitTransfer :: "u32 \<Rightarrow> u32 \<Rightarrow> ctr_board \<Rightarrow> bool \<times> ctr_board" where
  "HptdcBitTransfer tdi tms b =
     (let b1 = HWr (HptdcJTAG_TRST OR tdi OR tms) R_HptdcJtag b;
          b2 = HWr (HptdcJTAG_TRST OR HptdcJTAG_TCK OR tdi OR tms) R_HptdcJtag b1;
          tdo = HRd R_HptdcJtag b2;
          b3 = HWr (HptdcJTAG_TRST OR tdi OR tms) R_HptdcJtag b2 in
      (tdo AND HptdcJTAG_TDO \<noteq> 0, b3))"

definition HptdcStateReset :: "ctr_board \<Rightarrow> ctr_board" where
  "HptdcStateReset b =
     snd (HptdcBitTransfer 0 0
       (fold (\<lambda>w. HWr w R_HptdcJtag)
         [HptdcJTAG_TRST, 0, HptdcJTAG_TCK, HptdcJTAG_TRST OR HptdcJTAG_TCK, HptdcJTAG_TRST] b))"

text \<open>
  The bits of a value, lowest first: the number of ones so far, the bits read back and the board.
  In the last round of a value \<open>fin\<close> is given as TMS. The registers have at most 32 bits (hptdc.h).
\<close>

definition tdi_of :: "bool \<Rightarrow> u32" where
  "tdi_of p = (if p then HptdcJTAG_TDI else 0)"

fun shift_value :: "u32 \<Rightarrow> u32 \<Rightarrow> nat \<Rightarrow> nat \<Rightarrow> nat \<Rightarrow> u32 \<Rightarrow> ctr_board \<Rightarrow> nat \<times> u32 \<times> ctr_board" where
  "shift_value v fin i 0 parity rval b = (parity, rval, b)"
| "shift_value v fin i (Suc n) parity rval b =
     (let msk = push_bit i 1; one = (msk AND v \<noteq> 0);
          (tdo, b1) = HptdcBitTransfer (tdi_of one) (if n = 0 then fin else 0) b in
      shift_value v fin (i + 1) n (if one then parity + 1 else parity) (if tdo then rval OR msk else rval) b1)"

definition reg_bits :: "HptdcRegisterVlaue \<Rightarrow> nat" where
  "reg_bits r = unat (ucast (hv_EndBit r) - ucast (hv_StartBit r) + 1 :: u32)"

text \<open>
  Write the registers and read them back: with the parity flag TMS stays low, without it TMS is
  raised at the last bit of every register.
\<close>

fun shift_regs :: "bool \<Rightarrow> HptdcRegisterVlaue list \<Rightarrow> nat \<Rightarrow> ctr_board \<Rightarrow> nat \<times> HptdcRegisterVlaue list \<times> ctr_board" where
  "shift_regs pflg [] parity b = (parity, [], b)"
| "shift_regs pflg (r # rs) parity b =
     (let (p1, rval, b1) = shift_value (hv_Value r) (if pflg then 0 else HptdcJTAG_TMS) 0 (reg_bits r) parity 0 b;
          (p2, out, b2) = shift_regs pflg rs p1 b1 in
      (p2, r\<lparr> hv_Value := rval \<rparr> # out, b2))"

definition tms_steps :: "u32 list \<Rightarrow> ctr_board \<Rightarrow> ctr_board" where
  "tms_steps ts b = fold (\<lambda>t b. snd (HptdcBitTransfer 0 t b)) ts b"

definition HptdcCommand ::
  "u32 \<Rightarrow> HptdcRegisterVlaue list \<Rightarrow> bool \<Rightarrow> bool \<Rightarrow> ctr_board \<Rightarrow> HptdcRegisterVlaue list \<times> ctr_board" where
  "HptdcCommand cmd wreg pflg rflg b =
     (let b1 = (if rflg then HptdcStateReset b else b);
          b2 = tms_steps [HptdcJTAG_TMS, HptdcJTAG_TMS, 0, 0] b1;
          (parity, cval, b3) = shift_value cmd 0 0 HptdcCmdBITS 0 0 b2;
          b4 = snd (HptdcBitTransfer (tdi_of (odd parity)) HptdcJTAG_TMS b3);
          b5 = tms_steps [HptdcJTAG_TMS, HptdcJTAG_TMS, 0, 0] b4;
          (parity, rreg, b6) = shift_regs pflg wreg 0 b5;
          b7 = (if pflg then snd (HptdcBitTransfer (tdi_of (odd parity)) HptdcJTAG_TMS b6) else b6);
          b8 = tms_steps [HptdcJTAG_TMS, 0] b7 in
      (rreg, b8))"

section \<open>Accesses\<close>

lemma HRd_HWr_self: "b_Device b = (\<lambda>l r. None) \<Longrightarrow> HRd r (HWr v r b) = v"
  by (simp add: HRd_def HWr_def)

definition ram :: "ctr_reg \<Rightarrow> bool" where
  "ram r = (case r of R_TrigFrame i \<Rightarrow> True | R_TrigWord i \<Rightarrow> True | R_ConfigWord i \<Rightarrow> True
     | R_ConfigDelay i \<Rightarrow> True | R_InterruptEnable \<Rightarrow> True | _ \<Rightarrow> False)"

text \<open>The device leaves the RAM tables and the interrupt mask to memory ("RAM resident structures").\<close>

definition ram_is_memory :: "ctr_board \<Rightarrow> bool" where
  "ram_is_memory b \<longleftrightarrow> (\<forall>l r. ram r \<longrightarrow> b_Device b l r = None)"

lemma HRd_ram: "ram_is_memory b \<Longrightarrow> ram r \<Longrightarrow> HRd r b = b_Mem b r"
  by (simp add: HRd_def ram_is_memory_def)

lemma ram_is_memory_HWr [simp]: "ram_is_memory (HWr v r b) = ram_is_memory b"
  by (simp add: ram_is_memory_def HWr_def)

lemma b_Mem_HWr [simp]: "b_Mem (HWr v r b) = (b_Mem b)(r := v)"
  by (simp add: HWr_def)

lemma b_Device_HWr [simp]: "b_Device (HWr v r b) = b_Device b"
  by (simp add: HWr_def)

lemma b_Mem_write_trigger [simp]:
  "b_Mem (write_trigger i h b) = (b_Mem b)(R_TrigFrame i := ht_Frame h, R_TrigWord i := ht_Trigger h)"
  by (simp add: write_trigger_def Io32Write_def)

lemma b_Mem_write_config [simp]:
  "b_Mem (write_config i h b) = (b_Mem b)(R_ConfigWord i := hc_Config h, R_ConfigDelay i := hc_Delay h)"
  by (simp add: write_config_def Io32Write_def)

lemma ram_is_memory_write [simp]:
  "ram_is_memory (write_trigger i h b) = ram_is_memory b" "ram_is_memory (write_config i h' b) = ram_is_memory b"
  by (simp_all add: write_trigger_def write_config_def Io32Write_def)

end
