(* ===== verification/Ctr_Driver.thy ===== *)
theory Ctr_Driver
  imports Ctr_Board
begin

text \<open>
  The timing receiver driver (ctrdrvr-vme.c): module contexts, connections of clients to timing
  objects and hardware interrupts, the interrupt handler, open, close and write. Tables of a module
  are functions of the slot; a read of \<^verbatim>\<open>HardClients\<close> at 14 or above, which C makes outside the
  array, gives whatever the function holds there. A shift by 32 or more and a module index outside
  the table are faults.
\<close>

section \<open>State\<close>

record CtrDrvrModuleAddress =
  ma_VMEAddress :: u32
  ma_JTGAddress :: u32
  ma_InterruptVector :: u32
  ma_InterruptLevel :: u32
  ma_CopyAddress :: u32

record ctr_module =
  mc_Address :: CtrDrvrModuleAddress
  mc_OutputByte :: u32
  mc_IrqBalance :: u32
  mc_IVector :: u32
  mc_Map :: ctr_board
  mc_FlashOpen :: u32
  mc_HptdcOpen :: u32
  mc_ModuleIndex :: u32
  mc_Command :: u32
  mc_InterruptEnable :: u32
  mc_PllAsyncPeriodNs :: int  \<comment> \<open>a float that only ever holds 0 or 25, see \<^verbatim>\<open>SET_PLL_ASYNC_PERIOD\<close>\<close>
  mc_InputDelay :: u32
  mc_Pll :: "u32 list"  \<comment> \<open>Error, Integrator, Dac, LastItLen, Phase, NumAverage, KP, KI\<close>
  mc_Status :: u32
  mc_InUse :: u32
  mc_BusErrorCount :: u32
  mc_CableId :: u32
  mc_UpLock :: u32
  mc_Configs :: "nat \<Rightarrow> CtrDrvrCounterConfiguration"
  mc_Clients :: "nat \<Rightarrow> u32"
  mc_Trigs :: "nat \<Rightarrow> CtrDrvrTrigger"
  mc_EqpNum :: "nat \<Rightarrow> u32"
  mc_EqpClass :: "nat \<Rightarrow> u32"
  mc_HardClients :: "nat \<Rightarrow> u32"
  mc_Timer :: i32
  mc_Semaphore :: cdcm_sem

record ctr_wa =
  wa_Ctim :: "CtrDrvrCtimBinding list"
  wa_Ptim :: "CtrDrvrPtimBinding list"
  wa_Modules :: nat
  wa_ModuleContexts :: "nat \<Rightarrow> ctr_module"
  wa_ClientContexts :: "nat \<Rightarrow> ctr_client"
  wa_Bus :: ctr_bus
  wa_debug_isr :: bool
  wa_Timers :: lynxos_timers

abbreviation wa_mod :: "nat \<Rightarrow> ctr_module \<Rightarrow> ctr_wa \<Rightarrow> ctr_wa" where
  "wa_mod i m wa \<equiv> wa\<lparr> wa_ModuleContexts := (wa_ModuleContexts wa)(i := m) \<rparr>"

abbreviation wa_cli :: "nat \<Rightarrow> ctr_client \<Rightarrow> ctr_wa \<Rightarrow> ctr_wa" where
  "wa_cli i c wa \<equiv> wa\<lparr> wa_ClientContexts := (wa_ClientContexts wa)(i := c) \<rparr>"

text \<open>The working area as \<^verbatim>\<open>CtrDrvrInstall\<close> clears it, with boards that hold zeros.\<close>

definition board_blank :: ctr_board where
  "board_blank = \<lparr> b_Mem = (\<lambda>_. 0), b_Log = [], b_Device = (\<lambda>_ _. None) \<rparr>"

definition module_blank :: ctr_module where
  "module_blank = \<lparr> mc_Address = \<lparr> ma_VMEAddress = 0, ma_JTGAddress = 0, ma_InterruptVector = 0,
       ma_InterruptLevel = 0, ma_CopyAddress = 0 \<rparr>,
     mc_OutputByte = 0, mc_IrqBalance = 0, mc_IVector = 0, mc_Map = board_blank, mc_FlashOpen = 0,
     mc_HptdcOpen = 0, mc_ModuleIndex = 0, mc_Command = 0, mc_InterruptEnable = 0,
     mc_PllAsyncPeriodNs = 0, mc_InputDelay = 0, mc_Pll = replicate 8 0, mc_Status = 0, mc_InUse = 0,
     mc_BusErrorCount = 0, mc_CableId = 0, mc_UpLock = 0, mc_Configs = (\<lambda>_. zero_config),
     mc_Clients = (\<lambda>_. 0), mc_Trigs = (\<lambda>_. zero_trigger), mc_EqpNum = (\<lambda>_. 0), mc_EqpClass = (\<lambda>_. 0),
     mc_HardClients = (\<lambda>_. 0), mc_Timer = 0, mc_Semaphore = sem_new \<rparr>"

definition wa_blank :: ctr_wa where
  "wa_blank = \<lparr> wa_Ctim = [], wa_Ptim = [], wa_Modules = 0, wa_ModuleContexts = (\<lambda>_. module_blank),
     wa_ClientContexts = (\<lambda>_. client_zero), wa_Bus = bus_quiet, wa_debug_isr = False,
     wa_Timers = LynxOsTimersInitialize \<rparr>"

text \<open>\<^verbatim>\<open>ModuleContexts[midx]\<close> and \<^verbatim>\<open>1 << n\<close> with the limits of C.\<close>

definition module_index :: "int \<Rightarrow> nat result" where
  "module_index i = (if 0 \<le> i \<and> i < int CtrDrvrMODULE_CONTEXTS then Inr (nat i) else Inl Out_of_bounds)"

definition shl1 :: "nat \<Rightarrow> u32 result" where
  "shl1 n = (if n < 32 then Inr (push_bit n 1) else Inl Bad_arith)"

abbreviation cmask :: "nat \<Rightarrow> u32" where
  "cmask ci \<equiv> push_bit ci 1"

section \<open>Interrupt enables\<close>

definition EnableInterrupts :: "u32 \<Rightarrow> ctr_module \<Rightarrow> ctr_module" where
  "EnableInterrupts msk m =
     (let en = mc_InterruptEnable m OR msk in
      m\<lparr> mc_InterruptEnable := en, mc_Map := HWr en R_InterruptEnable (mc_Map m) \<rparr>)"

definition counter_shared :: "ctr_module \<Rightarrow> u32 \<Rightarrow> u32 \<Rightarrow> bool" where
  "counter_shared m cntr cmsk =
     list_ex (\<lambda>i. tr_Counter (mc_Trigs m i) = cntr \<and> mc_Clients m i AND NOT cmsk \<noteq> 0) [0..<CtrDrvrRamTableSIZE]"

definition mask_interrupt :: "u32 \<Rightarrow> ctr_module \<Rightarrow> ctr_module" where
  "mask_interrupt hmsk m =
     (let en = mc_InterruptEnable m AND NOT hmsk in
      m\<lparr> mc_InterruptEnable := en, mc_Map := HWr en R_InterruptEnable (mc_Map m) \<rparr>)"

definition DisableInterrupts :: "nat \<Rightarrow> u32 \<Rightarrow> nat \<Rightarrow> ctr_module \<Rightarrow> ctr_module result" where
  "DisableInterrupts tndx clss ci m =
     (let cmsk = cmask ci;
          cntr = (if clss \<noteq> CtrDrvrConnectionClassHARD then tr_Counter (mc_Trigs m tndx)
                  else if tndx \<le> CtrDrvrCOUNTERS then of_nat tndx else - 1) in
      if cntr \<noteq> - 1 \<and> mc_HardClients m (unat cntr) AND NOT cmsk \<noteq> 0 then Inr m
      else bind_r (shl1 (if cntr \<noteq> - 1 then unat cntr else tndx)) (\<lambda>hmsk.
        if cntr \<noteq> - 1 \<and> counter_shared m cntr cmsk then Inr m
        else if mc_HardClients m tndx AND NOT cmsk \<noteq> 0 then Inr m
        else Inr (mask_interrupt hmsk m)))"

section \<open>Connecting\<close>

definition GetPtimModule :: "u32 \<Rightarrow> ctr_wa \<Rightarrow> u32" where
  "GetPtimModule eqpnum wa =
     (case find (\<lambda>p. eqpnum = ptb_EqpNum p) (wa_Ptim wa) of
        Some p \<Rightarrow> ucast (ptb_ModuleIndex p) + 1 | None \<Rightarrow> 0)"

definition same_object :: "CtrDrvrConnection \<Rightarrow> ctr_module \<Rightarrow> nat \<Rightarrow> bool" where
  "same_object conx m i \<longleftrightarrow> cx_EqpNum conx = mc_EqpNum m i \<and> cx_EqpClass conx = mc_EqpClass m i"

text \<open>The bus interrupt bit of the configuration word in RAM.\<close>

definition bus_bit :: u32 where
  "bus_bit = AutoShiftLeft CtrDrvrCounterConfigON_ZERO_MASK CtrDrvrCounterOnZeroBUS"

definition set_bus_bit :: "nat \<Rightarrow> ctr_board \<Rightarrow> ctr_board" where
  "set_bus_bit i b = HWr (HRd (R_ConfigWord i) b OR bus_bit) (R_ConfigWord i) b"

definition clear_bus_bit :: "nat \<Rightarrow> ctr_board \<Rightarrow> ctr_board" where
  "clear_bus_bit i b = HWr (HRd (R_ConfigWord i) b AND NOT bus_bit) (R_ConfigWord i) b"

definition add_client :: "nat \<Rightarrow> nat \<Rightarrow> u32 \<Rightarrow> ctr_module \<Rightarrow> ctr_module" where
  "add_client i ci hmsk m =
     m\<lparr> mc_Clients := (mc_Clients m)(i := mc_Clients m i OR cmask ci),
        mc_InterruptEnable := mc_InterruptEnable m OR hmsk \<rparr>"

definition connect_slot :: "nat \<Rightarrow> nat \<Rightarrow> u32 \<Rightarrow> ctr_module \<Rightarrow> ctr_module" where
  "connect_slot i ci hmsk m = (let m1 = add_client i ci hmsk m in m1\<lparr> mc_Map := set_bus_bit i (mc_Map m1) \<rparr>)"

text \<open>The class PTIM: every slot of the object; the result counts them.\<close>

definition connect_ptim :: "CtrDrvrConnection \<Rightarrow> nat \<Rightarrow> ctr_module \<Rightarrow> (nat \<times> ctr_module) result" where
  "connect_ptim conx ci m =
     fold_r (\<lambda>i (count, m).
         if same_object conx m i
         then bind_r (shl1 (unat (tr_Counter (mc_Trigs m i)))) (\<lambda>hmsk. Inr (count + 1, connect_slot i ci hmsk m))
         else Inr (count, m))
       [0..<CtrDrvrRamTableSIZE] (0, m)"

text \<open>The class CTIM: the slot of the object, or a free slot that is given a new trigger.\<close>

definition ctim_trigger :: "u32 \<Rightarrow> CtrDrvrEventFrame \<Rightarrow> CtrDrvrTrigger" where
  "ctim_trigger eqp frme = \<lparr> tr_Ctim = eqp, tr_Frame = frme,
     tr_TriggerCondition = CtrDrvrTriggerConditionNO_CHECK, tr_Machine = CtrDrvrMachineNONE,
     tr_Counter = CtrDrvrCounter0, tr_Group = \<lparr> tg_GroupNumber = 0, tg_GroupValue = 0 \<rparr> \<rparr>"

definition ctim_config :: CtrDrvrCounterConfiguration where
  "ctim_config = \<lparr> cf_OnZero = CtrDrvrCounterOnZeroBUS, cf_Start = CtrDrvrCounterStartNORMAL,
     cf_Mode = CtrDrvrCounterModeNORMAL, cf_Clock = CtrDrvrCounterClock1KHZ, cf_PulsWidth = 0, cf_Delay = 0 \<rparr>"

definition create_slot :: "nat \<Rightarrow> u32 \<Rightarrow> CtrDrvrEventFrame \<Rightarrow> nat \<Rightarrow> ctr_module \<Rightarrow> ctr_module" where
  "create_slot i eqp frme ci m =
     add_client i ci CtrDrvrInterruptMaskCOUNTER_0
       (m\<lparr> mc_EqpNum := (mc_EqpNum m)(i := eqp),
           mc_EqpClass := (mc_EqpClass m)(i := CtrDrvrConnectionClassCTIM),
           mc_Trigs := (mc_Trigs m)(i := ctim_trigger eqp frme),
           mc_Configs := (mc_Configs m)(i := ctim_config),
           mc_Map := write_config i (ConfigToHard ctim_config)
                       (write_trigger i (TriggerToHard (ctim_trigger eqp frme)) (mc_Map m)) \<rparr>)"

definition ctim_frame :: "u32 \<Rightarrow> ctr_wa \<Rightarrow> CtrDrvrEventFrame" where
  "ctim_frame eqp wa = (case find (\<lambda>b. eqp = ctb_EqpNum b) (wa_Ctim wa) of Some b \<Rightarrow> ctb_Frame b | None \<Rightarrow> 0)"

definition connect_ctim :: "CtrDrvrConnection \<Rightarrow> nat \<Rightarrow> ctr_wa \<Rightarrow> ctr_module \<Rightarrow> errno + nat \<times> ctr_module" where
  "connect_ctim conx ci wa m =
     (case find (same_object conx m) [0..<CtrDrvrRamTableSIZE] of
        Some i \<Rightarrow> Inr (1, connect_slot i ci CtrDrvrInterruptMaskCOUNTER_0 m)
      | None \<Rightarrow>
          (let frme = ctim_frame (cx_EqpNum conx) wa in
           if frame_Header frme \<noteq> 0 then
             (case find (\<lambda>i. mc_EqpNum m i = 0) [0..<CtrDrvrRamTableSIZE] of
                Some i \<Rightarrow> Inr (1, create_slot i (cx_EqpNum conx) frme ci m)
              | None \<Rightarrow> Inl ENOMEM)
           else Inr (0, m)))"

text \<open>The class HARD and any other value: every source of the mask.\<close>

definition connect_source :: "nat \<Rightarrow> nat \<Rightarrow> ctr_module \<Rightarrow> ctr_module" where
  "connect_source ci i m =
     m\<lparr> mc_InterruptEnable := mc_InterruptEnable m OR push_bit i 1,
        mc_HardClients := (mc_HardClients m)(i := mc_HardClients m i OR cmask ci) \<rparr>"

definition connect_hard :: "CtrDrvrConnection \<Rightarrow> nat \<Rightarrow> ctr_module \<Rightarrow> nat \<times> ctr_module" where
  "connect_hard conx ci m =
     fold (\<lambda>i (count, m). if cx_EqpNum conx AND push_bit i 1 \<noteq> 0 then (count + 1, connect_source ci i m) else (count, m))
       [0..<CtrDrvrInterruptSOURCES] (0, m)"

text \<open>\<^verbatim>\<open>Connect\<close>: the error, if any, and the state. The client is given by its index.\<close>

definition connect_result :: "nat \<Rightarrow> nat \<times> ctr_module \<Rightarrow> ctr_wa \<Rightarrow> errno option \<times> ctr_wa" where
  "connect_result midx cm wa =
     (if fst cm \<noteq> 0 then (None, wa_mod midx (EnableInterrupts (mc_InterruptEnable (snd cm)) (snd cm)) wa)
      else (Some ENXIO, wa_mod midx (snd cm) wa))"

definition Connect :: "CtrDrvrConnection \<Rightarrow> nat \<Rightarrow> ctr_wa \<Rightarrow> (errno option \<times> ctr_wa) result" where
  "Connect conx cnum wa =
     (let ccon = wa_ClientContexts wa cnum; ci = cc_ClientIndex ccon;
          im = sint (cx_Module conx - 1);
          midx = (if im < 0 \<or> im \<ge> int CtrDrvrMODULE_CONTEXTS then cc_ModuleIndex ccon else nat im) in
      if cx_EqpClass conx = CtrDrvrConnectionClassPTIM then
        (let pm = GetPtimModule (cx_EqpNum conx) wa in
         if pm = 0 then Inr (Some ENXIO, wa)
         else bind_r (module_index (sint (pm - 1))) (\<lambda>midx.
                bind_r (connect_ptim conx ci (wa_ModuleContexts wa midx)) (\<lambda>cm. Inr (connect_result midx cm wa))))
      else if cx_EqpClass conx = CtrDrvrConnectionClassCTIM then
        (case connect_ctim conx ci wa (wa_ModuleContexts wa midx) of
           Inl e \<Rightarrow> Inr (Some e, wa) | Inr cm \<Rightarrow> Inr (connect_result midx cm wa))
      else Inr (connect_result midx (connect_hard conx ci (wa_ModuleContexts wa midx)) wa))"

section \<open>Disconnecting\<close>

definition free_ctim_slot :: "nat \<Rightarrow> ctr_module \<Rightarrow> ctr_module" where
  "free_ctim_slot i m =
     m\<lparr> mc_Map := write_config i (ConfigToHard zero_config) (write_trigger i (TriggerToHard zero_trigger) (mc_Map m)),
        mc_EqpNum := (mc_EqpNum m)(i := 0), mc_EqpClass := (mc_EqpClass m)(i := 0) \<rparr>"

definition disconnect_slot :: "nat \<Rightarrow> u32 \<Rightarrow> nat \<Rightarrow> ctr_module \<Rightarrow> ctr_module result" where
  "disconnect_slot i clss ci m =
     (if cmask ci AND mc_Clients m i = 0 then Inr m
      else (let m1 = m\<lparr> mc_Clients := (mc_Clients m)(i := mc_Clients m i AND NOT (cmask ci)) \<rparr> in
        if mc_Clients m1 i \<noteq> 0 then Inr m1
        else bind_r (DisableInterrupts i clss ci m1) (\<lambda>m2.
          Inr (if mc_EqpClass m2 i = CtrDrvrConnectionClassCTIM then free_ctim_slot i m2
               else m2\<lparr> mc_Map := clear_bus_bit i (mc_Map m2) \<rparr>))))"

definition disconnect_source :: "nat \<Rightarrow> nat \<Rightarrow> ctr_module \<Rightarrow> ctr_module result" where
  "disconnect_source i ci m =
     (if mc_HardClients m i = 0 then Inr m
      else (let m1 = m\<lparr> mc_HardClients := (mc_HardClients m)(i := mc_HardClients m i AND NOT (cmask ci)) \<rparr> in
        if mc_HardClients m1 i \<noteq> 0 then Inr m1
        else DisableInterrupts i CtrDrvrConnectionClassHARD ci m1))"

definition DisConnectOne :: "nat \<Rightarrow> u32 \<Rightarrow> nat \<Rightarrow> ctr_module \<Rightarrow> ctr_module result" where
  "DisConnectOne i clss ci m =
     (if clss = CtrDrvrConnectionClassCTIM \<or> clss = CtrDrvrConnectionClassPTIM then disconnect_slot i clss ci m
      else if clss = CtrDrvrConnectionClassHARD then disconnect_source i ci m
      else Inr m)"

definition disconnect_sources :: "nat \<Rightarrow> ctr_module \<Rightarrow> ctr_module result" where
  "disconnect_sources ci m =
     fold_r (\<lambda>i m. DisConnectOne i CtrDrvrConnectionClassHARD ci m) [0..<CtrDrvrInterruptSOURCES] m"

text \<open>\<^verbatim>\<open>DisConnect\<close> takes the module number as it is; the mask of a HARD connection is not looked at.\<close>

definition DisConnect :: "CtrDrvrConnection \<Rightarrow> nat \<Rightarrow> ctr_wa \<Rightarrow> ctr_wa result" where
  "DisConnect conx cnum wa =
     (let ci = cc_ClientIndex (wa_ClientContexts wa cnum) in
      bind_r (module_index (sint (cx_Module conx - 1))) (\<lambda>midx.
        bind_r (if cx_EqpClass conx \<noteq> CtrDrvrConnectionClassHARD then
                  fold_r (\<lambda>i m. if same_object conx m i then DisConnectOne i (cx_EqpClass conx) ci m else Inr m)
                    [0..<CtrDrvrRamTableSIZE] (wa_ModuleContexts wa midx)
                else disconnect_sources ci (wa_ModuleContexts wa midx))
          (\<lambda>m. Inr (wa_mod midx m wa))))"

definition disconnect_module :: "nat \<Rightarrow> ctr_module \<Rightarrow> ctr_module result" where
  "disconnect_module ci m =
     bind_r (fold_r (\<lambda>i m. if mc_EqpNum m i \<noteq> 0 then DisConnectOne i (mc_EqpClass m i) ci m else Inr m)
               [0..<CtrDrvrRamTableSIZE] m)
       (disconnect_sources ci)"

definition DisConnectAll :: "nat \<Rightarrow> ctr_wa \<Rightarrow> ctr_wa result" where
  "DisConnectAll cnum wa =
     (let ci = cc_ClientIndex (wa_ClientContexts wa cnum) in
      fold_r (\<lambda>midx wa. bind_r (disconnect_module ci (wa_ModuleContexts wa midx)) (\<lambda>m. Inr (wa_mod midx m wa)))
        [0..<wa_Modules wa] wa)"

section \<open>The interrupt handler\<close>

definition GetTime :: "ctr_board \<Rightarrow> CtrDrvrCTime \<times> ctr_board" where
  "GetTime b = (let b1 = HWr CtrDrvrCommandLATCH_UTC R_Command b in (read_ctime R_ReadTime 0 b1, b1))"

text \<open>
  A source that is a counter not under remote control, with clients on the object whose trigger
  loaded it: the clients, the read buffer and the module.
\<close>

definition object_buffer :: "nat \<Rightarrow> nat \<Rightarrow> ctr_module \<Rightarrow> CtrDrvrReadBuf" where
  "object_buffer inum i m =
     \<lparr> rb_Connection = \<lparr> cx_Module = mc_ModuleIndex m + 1, cx_EqpClass = mc_EqpClass m i, cx_EqpNum = mc_EqpNum m i \<rparr>,
       rb_TriggerNumber = of_nat i + 1, rb_InterruptNumber = 0, rb_Ctim = tr_Ctim (mc_Trigs m i),
       rb_Frame = HRd (R_History inum 1) (mc_Map m),
       rb_TriggerTime = read_ctime (R_History inum) 2 (mc_Map m),
       rb_StartTime = read_ctime (R_History inum) 5 (mc_Map m),
       rb_OnZeroTime = read_ctime (R_History inum) 8 (mc_Map m) \<rparr>"

definition unlock_history :: "nat \<Rightarrow> ctr_module \<Rightarrow> ctr_module" where
  "unlock_history inum m =
     (let hlock = HRd (R_LockHistory inum) (mc_Map m) in
      m\<lparr> mc_Map := after_read (R_LockHistory inum) (mc_Map m),
         mc_Status := (if hlock > 1 then mc_Status m AND NOT CtrDrvrStatusNO_LOST_INTERRUPTS else mc_Status m) \<rparr>)"

definition object_clients :: "nat \<Rightarrow> ctr_module \<Rightarrow> u32" where
  "object_clients inum m =
     (if inum < CtrDrvrCOUNTERS \<and> HRd (R_LockConfig inum) (mc_Map m) = 0 then
        (let tndx = HRd (R_History inum 0) (mc_Map m) in
         if unat tndx < CtrDrvrRamTableSIZE then mc_Clients m (unat tndx) else 0)
      else 0)"

definition hard_buffer :: "nat \<Rightarrow> ctr_module \<Rightarrow> CtrDrvrReadBuf \<times> ctr_module" where
  "hard_buffer inum m =
     (let (t, b) = (if inum < CtrDrvrCOUNTERS then (read_ctime (R_History inum) 8 (mc_Map m), mc_Map m)
                    else GetTime (mc_Map m)) in
      (zero_rbuf\<lparr> rb_OnZeroTime := t,
         rb_Connection := \<lparr> cx_Module = mc_ModuleIndex m + 1, cx_EqpClass = CtrDrvrConnectionClassHARD,
                            cx_EqpNum = push_bit inum 1 \<rparr> \<rparr>, m\<lparr> mc_Map := b \<rparr>))"

text \<open>One source: the mask of the clients that get a buffer, the buffer, and the module.\<close>

definition serve_source :: "nat \<Rightarrow> ctr_module \<Rightarrow> u32 \<times> CtrDrvrReadBuf \<times> ctr_module" where
  "serve_source inum m =
     (let clients = object_clients inum m; hard = mc_HardClients m inum;
          (rbf, m1) = (if clients \<noteq> 0 then (object_buffer inum (unat (HRd (R_History inum 0) (mc_Map m))) m, unlock_history inum m)
                       else if hard \<noteq> 0 then hard_buffer inum m
                       else (zero_rbuf, m)) in
      (clients OR hard, rbf\<lparr> rb_InterruptNumber := of_nat inum \<rparr>, m1))"

text \<open>The buffer on the queue of every client of the mask.\<close>

definition put_clients :: "u32 \<Rightarrow> CtrDrvrReadBuf \<Rightarrow> (nat \<Rightarrow> ctr_client) \<Rightarrow> nat \<Rightarrow> ctr_client" where
  "put_clients clients rbf cs =
     fold (\<lambda>i cs. if clients AND cmask i \<noteq> 0 then cs(i := snd (client_put rbf (cs i))) else cs)
       [0..<CtrDrvrCLIENT_CONTEXTS] cs"

definition handle_source :: "nat \<Rightarrow> u32 \<Rightarrow> nat \<Rightarrow> ctr_wa \<Rightarrow> ctr_wa" where
  "handle_source midx isrc inum wa =
     (if push_bit inum 1 AND isrc \<noteq> 0 then
        (let (clients, rbf, m) = serve_source inum (wa_ModuleContexts wa midx) in
         wa\<lparr> wa_ModuleContexts := (wa_ModuleContexts wa)(midx := m),
             wa_ClientContexts := put_clients clients rbf (wa_ClientContexts wa) \<rparr>)
      else wa)"

text \<open>
  \<^verbatim>\<open>IntrHandler\<close>: the sources are read and cleared; with an unreported bus error they are read a
  second time, and then given up. The result tells whether the interrupt was handled.
\<close>

definition IntrHandler :: "nat \<Rightarrow> ctr_wa \<Rightarrow> bool \<times> ctr_wa" where
  "IntrHandler midx wa =
     (let m = wa_ModuleContexts wa midx;
          isrc1 = HRd R_InterruptSource (mc_Map m);
          b1 = after_read R_InterruptSource (mc_Map m); u1 = IHRd_bus (wa_Bus wa);
          (isrc, b, u) =
            (if isr_bus_error u1 then
               (let isrc2 = HRd R_InterruptSource b1; b2 = after_read R_InterruptSource b1; u2 = IHRd_bus u1 in
                (if isr_bus_error u2 then 0 else isrc2, b2, u2))
             else (isrc1, b1, u1));
          wa1 = (wa_mod midx (m\<lparr> mc_Map := b \<rparr>) wa)\<lparr> wa_Bus := u \<rparr> in
      (isrc \<noteq> 0, fold (handle_source midx isrc) [0..<CtrDrvrInterruptSOURCES] wa1))"

section \<open>Open, close and write\<close>

definition CtrDrvrOpen :: "u32 \<Rightarrow> u32 \<Rightarrow> ctr_wa \<Rightarrow> errno option \<times> ctr_wa" where
  "CtrDrvrOpen dev pid wa =
     (let cnum = sint ((dev AND 0xFF) - 1) in
      if cnum < 0 \<or> cnum \<ge> int CtrDrvrCLIENT_CONTEXTS then (Some EFAULT, wa)
      else (let c = wa_ClientContexts wa (nat cnum) in
        if cc_InUse c \<noteq> 0 then (Some EBUSY, wa)
        else (None, wa_cli (nat cnum) (client_open (nat cnum) pid c) wa)))"

definition CtrDrvrClose :: "u32 \<Rightarrow> ctr_wa \<Rightarrow> (errno option \<times> ctr_wa) result" where
  "CtrDrvrClose dev wa =
     (let cnum = sint ((dev AND 0xFF) - 1) in
      if 0 \<le> cnum \<and> cnum < int CtrDrvrCLIENT_CONTEXTS then
        (let c = wa_ClientContexts wa (nat cnum); (tm, ts) = CancelTimeout (cc_Timer c) (wa_Timers wa) in
         bind_r (DisConnectAll (nat cnum) ((wa_cli (nat cnum) (c\<lparr> cc_InUse := 0, cc_Timer := tm \<rparr>) wa)\<lparr> wa_Timers := ts \<rparr>))
           (\<lambda>wa1. Inr (None, wa1)))
      else Inr (Some EFAULT, wa))"

text \<open>\<^verbatim>\<open>CtrDrvrWrite\<close> simulates an event: the clients and the buffer.\<close>

definition write_slot :: "nat \<Rightarrow> ctr_module \<Rightarrow> u32 \<times> CtrDrvrReadBuf" where
  "write_slot i m = (mc_Clients m i,
     zero_rbuf\<lparr> rb_TriggerNumber := of_nat i + 1, rb_Frame := tr_Frame (mc_Trigs m i),
       rb_Ctim := tr_Ctim (mc_Trigs m i), rb_InterruptNumber := tr_Counter (mc_Trigs m i) \<rparr>)"

definition write_target :: "CtrDrvrWriteBuf \<Rightarrow> ctr_module \<Rightarrow> (u32 \<times> CtrDrvrReadBuf) result" where
  "write_target wb m =
     (let conx = wb_Connection wb in
      if cx_EqpClass conx \<noteq> CtrDrvrConnectionClassHARD then
        (if wb_TriggerNumber wb = 0 then
           (case find (same_object conx m) [0..<CtrDrvrRamTableSIZE] of
              Some i \<Rightarrow> (let (clients, rb) = write_slot i m in
                Inr (clients, rb\<lparr> rb_Frame := frame_with_Value (rb_Frame rb) (wb_Payload wb) \<rparr>))
            | None \<Rightarrow> Inr (0, zero_rbuf))
         else (let tndx = sint (wb_TriggerNumber wb - 1) in
           if 0 \<le> tndx \<and> tndx < int CtrDrvrRamTableSIZE then Inr (write_slot (nat tndx) m)
           else Inl Out_of_bounds))
      else Inr (fold (\<lambda>i (clients, rb). if cx_EqpNum conx AND push_bit i 1 \<noteq> 0
                   then (clients OR mc_HardClients m i, rb\<lparr> rb_InterruptNumber := of_nat i + 1 \<rparr>) else (clients, rb))
                 [0..<CtrDrvrInterruptSOURCES] (0, zero_rbuf)))"

definition CtrDrvrWrite :: "CtrDrvrWriteBuf \<Rightarrow> ctr_wa \<Rightarrow> (errno option \<times> ctr_wa) result" where
  "CtrDrvrWrite wb wa =
     (let im = sint (cx_Module (wb_Connection wb) - 1) in
      if im < 0 \<or> im \<ge> int CtrDrvrMODULE_CONTEXTS then Inr (Some EINVAL, wa)
      else (let m = wa_ModuleContexts wa (nat im) in
        bind_r (write_target wb m) (\<lambda>(clients, rb).
          if clients = 0 then Inr (None, wa)
          else (let (t, b) = GetTime (mc_Map m);
                    rb1 = rb\<lparr> rb_Connection := wb_Connection wb, rb_TriggerTime := t, rb_StartTime := t, rb_OnZeroTime := t \<rparr> in
            Inr (None, wa\<lparr> wa_ModuleContexts := (wa_ModuleContexts wa)(nat im := m\<lparr> mc_Map := b \<rparr>),
                           wa_ClientContexts := put_clients clients rb1 (wa_ClientContexts wa),
                           wa_Bus := HRd_bus (HWr_bus (wa_Bus wa)) \<rparr>)))))"

end
