(* ===== verification/Ctr_Tables.thy ===== *)
theory Ctr_Tables
  imports Ctr_Driver
begin

text \<open>
  The tables of a timing receiver module: what connecting and disconnecting keep (a free slot has
  neither number nor class nor clients; a slot with clients has its bus interrupt bit set in the
  RAM of the board; the interrupt mask of the board is that of the context), and what they change.
\<close>

section \<open>Well-formed modules\<close>

definition slot_ok :: "ctr_module \<Rightarrow> nat \<Rightarrow> bool" where
  "slot_ok m i \<longleftrightarrow>
     (mc_EqpNum m i = 0 \<longleftrightarrow> mc_EqpClass m i = CtrDrvrConnectionClassHARD) \<and>
     mc_EqpClass m i \<in> {CtrDrvrConnectionClassHARD, CtrDrvrConnectionClassCTIM, CtrDrvrConnectionClassPTIM} \<and>
     unat (tr_Counter (mc_Trigs m i)) < CtrDrvrCOUNTERS \<and>
     (mc_EqpClass m i = CtrDrvrConnectionClassCTIM \<longrightarrow> tr_Counter (mc_Trigs m i) = CtrDrvrCounter0) \<and>
     (\<forall>c. bit (mc_Clients m i) c \<longrightarrow>
        c < CtrDrvrCLIENT_CONTEXTS \<and> mc_EqpNum m i \<noteq> 0 \<and> bit (b_Mem (mc_Map m) (R_ConfigWord i)) 30)"

definition tables_ok :: "ctr_module \<Rightarrow> bool" where
  "tables_ok m \<longleftrightarrow> (\<forall>i < CtrDrvrRamTableSIZE. slot_ok m i) \<and> ram_is_memory (mc_Map m) \<and>
     (\<forall>i j. i < CtrDrvrRamTableSIZE \<longrightarrow> j < CtrDrvrRamTableSIZE \<longrightarrow> mc_EqpClass m i = CtrDrvrConnectionClassCTIM \<longrightarrow>
        mc_EqpClass m j = CtrDrvrConnectionClassCTIM \<longrightarrow> mc_EqpNum m i = mc_EqpNum m j \<longrightarrow> i = j)"

definition mirrored :: "ctr_module \<Rightarrow> bool" where
  "mirrored m \<longleftrightarrow> b_Mem (mc_Map m) R_InterruptEnable = mc_InterruptEnable m"

definition module_ok :: "ctr_module \<Rightarrow> bool" where
  "module_ok m \<longleftrightarrow> tables_ok m \<and> mirrored m"

named_theorems ctr_classes

lemmas [ctr_classes] = CtrDrvrConnectionClassHARD_def CtrDrvrConnectionClassCTIM_def CtrDrvrConnectionClassPTIM_def

lemma bus_bit_value: "bus_bit = 2 ^ 30"
  by (simp add: bus_bit_def config_fields field_shifts put_field_def CtrDrvrCounterOnZeroBUS_def)

lemma bit_or_cmask: "bit (w OR 2 ^ n :: u32) k \<longleftrightarrow> bit w k \<or> (k = n \<and> n < 32)"
  by (auto simp: bit_or_iff bit_exp_iff)

lemma bit_and_not_cmask: "bit (w AND NOT (2 ^ n) :: u32) k \<longleftrightarrow> bit w k \<and> k \<noteq> n"
  by (auto simp: bit_and_iff bit_not_iff bit_exp_iff dest: bit_imp_le_length)

lemma no_bits: "(w :: u32) = 0 \<longleftrightarrow> (\<forall>k. \<not> bit w k)"
  by (auto intro: bit_eqI)

lemma module_ok_blank [simp]: "module_ok module_blank"
  by (simp add: module_ok_def tables_ok_def mirrored_def slot_ok_def module_blank_def board_blank_def
      zero_trigger_def ram_is_memory_def CtrDrvrCOUNTERS_def ctr_classes)

section \<open>Interrupt enables\<close>

lemma EnableInterrupts_simps [simp]:
  "mc_Clients (EnableInterrupts h m) = mc_Clients m" "mc_EqpNum (EnableInterrupts h m) = mc_EqpNum m"
  "mc_EqpClass (EnableInterrupts h m) = mc_EqpClass m" "mc_Trigs (EnableInterrupts h m) = mc_Trigs m"
  "mc_HardClients (EnableInterrupts h m) = mc_HardClients m"
  "mc_InterruptEnable (EnableInterrupts h m) = mc_InterruptEnable m OR h"
  "mc_UpLock (EnableInterrupts h m) = mc_UpLock m" "mc_ModuleIndex (EnableInterrupts h m) = mc_ModuleIndex m"
  "b_Mem (mc_Map (EnableInterrupts h m)) = (b_Mem (mc_Map m))(R_InterruptEnable := mc_InterruptEnable m OR h)"
  "ram_is_memory (mc_Map (EnableInterrupts h m)) = ram_is_memory (mc_Map m)"
  "b_Device (mc_Map (EnableInterrupts h m)) = b_Device (mc_Map m)"
  by (simp_all add: EnableInterrupts_def Let_def)

lemma mask_interrupt_simps [simp]:
  "mc_Clients (mask_interrupt h m) = mc_Clients m" "mc_EqpNum (mask_interrupt h m) = mc_EqpNum m"
  "mc_EqpClass (mask_interrupt h m) = mc_EqpClass m" "mc_Trigs (mask_interrupt h m) = mc_Trigs m"
  "mc_HardClients (mask_interrupt h m) = mc_HardClients m"
  "mc_InterruptEnable (mask_interrupt h m) = mc_InterruptEnable m AND NOT h"
  "mc_UpLock (mask_interrupt h m) = mc_UpLock m" "mc_ModuleIndex (mask_interrupt h m) = mc_ModuleIndex m"
  "b_Mem (mc_Map (mask_interrupt h m)) = (b_Mem (mc_Map m))(R_InterruptEnable := mc_InterruptEnable m AND NOT h)"
  "ram_is_memory (mc_Map (mask_interrupt h m)) = ram_is_memory (mc_Map m)"
  "b_Device (mc_Map (mask_interrupt h m)) = b_Device (mc_Map m)"
  by (simp_all add: mask_interrupt_def Let_def)

text \<open>Well-formedness depends on the tables, the configuration RAM and the two masks only.\<close>

lemma tables_ok_cong:
  assumes "mc_Clients m' = mc_Clients m" "mc_EqpNum m' = mc_EqpNum m" "mc_EqpClass m' = mc_EqpClass m"
    "mc_Trigs m' = mc_Trigs m" "ram_is_memory (mc_Map m') = ram_is_memory (mc_Map m)"
    "\<And>i. b_Mem (mc_Map m') (R_ConfigWord i) = b_Mem (mc_Map m) (R_ConfigWord i)"
  shows "tables_ok m' = tables_ok m"
  using assms by (simp add: tables_ok_def slot_ok_def)

lemma tables_ok_masks [simp]:
  "tables_ok (EnableInterrupts h m) = tables_ok m" "tables_ok (mask_interrupt h m) = tables_ok m"
  by (rule tables_ok_cong; simp)+

lemma mirrored_masks [simp]: "mirrored (EnableInterrupts h m)" "mirrored (mask_interrupt h m)"
  by (simp_all add: mirrored_def)

lemma DisableInterrupts_cases:
  assumes "clss \<noteq> CtrDrvrConnectionClassHARD \<Longrightarrow> unat (tr_Counter (mc_Trigs m i)) < 32"
    and "clss = CtrDrvrConnectionClassHARD \<Longrightarrow> i < CtrDrvrInterruptSOURCES"
  obtains "DisableInterrupts i clss ci m = Inr m" | h where "DisableInterrupts i clss ci m = Inr (mask_interrupt h m)"
proof -
  define cntr :: u32 where "cntr = (if clss \<noteq> CtrDrvrConnectionClassHARD then tr_Counter (mc_Trigs m i)
      else if i \<le> CtrDrvrCOUNTERS then of_nat i else - 1)"
  have top: "\<not> unat (- 1 :: u32) < 32" by (simp add: unsigned_minus_1_eq_mask mask_eq_exp_minus_1)
  have "(if cntr \<noteq> - 1 then unat cntr else i) < 32"
    using assms top by (auto simp: cntr_def CtrDrvrInterruptSOURCES_def CtrDrvrCOUNTERS_def unat_of_nat)
  then have "DisableInterrupts i clss ci m \<in> {Inr m} \<union> range (\<lambda>h. Inr (mask_interrupt h m))"
    unfolding DisableInterrupts_def Let_def cntr_def [symmetric] by (auto simp: shl1_def)
  then show ?thesis using that by blast
qed

section \<open>Disconnecting\<close>

lemma good_fold_upto:
  assumes "P 0 s" "\<And>k s. k < n \<Longrightarrow> P k s \<Longrightarrow> good (P (Suc k)) (f k s)"
  shows "good (P n) (fold_r f [0..<n] s)"
  using assms(2)
proof (induction n)
  case 0 then show ?case using assms(1) by simp
next
  case (Suc n)
  have "good (P n) (fold_r f [0..<n] s)" by (rule Suc.IH) (simp add: Suc.prems)
  then have "good (P (Suc n)) (bind_r (fold_r f [0..<n] s) (fold_r f [n]))"
    by (rule good_bind) (simp add: good_bind [OF Suc.prems])
  then show ?case by (simp add: fold_r_append)
qed

text \<open>No bit but those of one client changes, and none is set.\<close>

definition only_drops :: "nat \<Rightarrow> (nat \<Rightarrow> u32) \<Rightarrow> (nat \<Rightarrow> u32) \<Rightarrow> bool" where
  "only_drops ci t t' \<longleftrightarrow> (\<forall>i c. bit (t' i) c = bit (t i) c \<or> (c = ci \<and> \<not> bit (t' i) c))"

lemma only_drops_refl [simp]: "only_drops ci t t"
  by (simp add: only_drops_def)

lemma only_drops_upd: "only_drops ci t (t(i := t i AND NOT (cmask ci)))"
  by (auto simp: only_drops_def bit_and_not_cmask)

lemma only_drops_trans: "only_drops ci t t' \<Longrightarrow> only_drops ci t' t'' \<Longrightarrow> only_drops ci t t''"
  unfolding only_drops_def by blast

lemma only_drops_clear: "only_drops ci t t' \<Longrightarrow> \<not> bit (t i) c \<Longrightarrow> \<not> bit (t' i) c"
  unfolding only_drops_def by blast

definition dropped :: "nat \<Rightarrow> ctr_module \<Rightarrow> ctr_module \<Rightarrow> bool" where
  "dropped ci m m' \<longleftrightarrow> module_ok m' \<and> only_drops ci (mc_Clients m) (mc_Clients m') \<and>
     only_drops ci (mc_HardClients m) (mc_HardClients m')"

lemma dropped_refl [simp]: "dropped ci m m = module_ok m"
  by (simp add: dropped_def)

lemma dropped_trans: "dropped ci m m' \<Longrightarrow> dropped ci m' m'' \<Longrightarrow> dropped ci m m''"
  unfolding dropped_def by (blast intro: only_drops_trans)

lemma tables_okD:
  assumes "tables_ok m" "i < CtrDrvrRamTableSIZE"
  shows "slot_ok m i" "unat (tr_Counter (mc_Trigs m i)) < 32"
  using assms by (auto simp: tables_ok_def slot_ok_def CtrDrvrCOUNTERS_def)

lemma DisableInterrupts_ok:
  assumes "tables_ok m" "mirrored m"
    and "if clss = CtrDrvrConnectionClassHARD then i < CtrDrvrInterruptSOURCES else i < CtrDrvrRamTableSIZE"
  obtains m' where "DisableInterrupts i clss ci m = Inr m'" "tables_ok m'" "mirrored m'"
    "mc_Clients m' = mc_Clients m" "mc_HardClients m' = mc_HardClients m" "mc_EqpNum m' = mc_EqpNum m"
    "mc_EqpClass m' = mc_EqpClass m" "mc_Trigs m' = mc_Trigs m"
proof -
  have "clss \<noteq> CtrDrvrConnectionClassHARD \<Longrightarrow> unat (tr_Counter (mc_Trigs m i)) < 32"
    "clss = CtrDrvrConnectionClassHARD \<Longrightarrow> i < CtrDrvrInterruptSOURCES"
    using assms by (auto dest: tables_okD(2))
  then show ?thesis
    by (rule DisableInterrupts_cases) (use that assms in auto)
qed

text \<open>Freeing a slot, or clearing its bus interrupt, once it has no clients.\<close>

lemma slot_ok_HWr_other:
  "r \<noteq> R_ConfigWord i \<Longrightarrow> slot_ok (m\<lparr> mc_Map := HWr v r (mc_Map m) \<rparr>) i = slot_ok m i"
  by (simp add: slot_ok_def)

lemma release_slot:
  assumes "tables_ok m" "mirrored m" "mc_Clients m i = 0"
  defines "m' \<equiv> if mc_EqpClass m i = CtrDrvrConnectionClassCTIM then free_ctim_slot i m
                 else m\<lparr> mc_Map := clear_bus_bit i (mc_Map m) \<rparr>"
  shows "tables_ok m'" "mirrored m'" "mc_Clients m' = mc_Clients m" "mc_HardClients m' = mc_HardClients m"
proof -
  have "slot_ok m' j" if "j < CtrDrvrRamTableSIZE" for j
    using tables_okD(1) [OF assms(1) that] assms(3)
    by (cases "j = i") (auto simp: m'_def slot_ok_def free_ctim_slot_def clear_bus_bit_def ctr_classes)
  then show "tables_ok m'"
    using assms(1) unfolding tables_ok_def
    by (auto simp: m'_def free_ctim_slot_def clear_bus_bit_def ctr_classes)
  show "mirrored m'" "mc_Clients m' = mc_Clients m" "mc_HardClients m' = mc_HardClients m"
    using assms(2) by (simp_all add: m'_def mirrored_def free_ctim_slot_def clear_bus_bit_def)
qed

lemma slot_ok_drop:
  "slot_ok m j \<Longrightarrow> slot_ok (m\<lparr> mc_Clients := (mc_Clients m)(i := mc_Clients m i AND w) \<rparr>) j"
  by (auto simp: slot_ok_def bit_and_iff)

lemma tables_ok_drop [simp]:
  "tables_ok m \<Longrightarrow> tables_ok (m\<lparr> mc_Clients := (mc_Clients m)(i := mc_Clients m i AND w) \<rparr>)"
  unfolding tables_ok_def using slot_ok_drop [of m _ i w] by simp

lemma mirrored_cong [simp]:
  "mirrored (m\<lparr> mc_Clients := t \<rparr>) = mirrored m" "mirrored (m\<lparr> mc_HardClients := t \<rparr>) = mirrored m"
  by (simp_all add: mirrored_def)

lemma tables_ok_HardClients [simp]: "tables_ok (m\<lparr> mc_HardClients := t \<rparr>) = tables_ok m"
  by (rule tables_ok_cong) simp_all

lemma disconnect_slot_drops:
  assumes "module_ok m" "i < CtrDrvrRamTableSIZE" "clss \<noteq> CtrDrvrConnectionClassHARD"
  shows "good (\<lambda>m'. dropped ci m m' \<and> mc_HardClients m' = mc_HardClients m \<and>
      mc_Clients m' = (mc_Clients m)(i := mc_Clients m i AND NOT (cmask ci))) (disconnect_slot i clss ci m)"
proof (cases "bit (mc_Clients m i) ci")
  case False
  then have "mc_Clients m i AND NOT (cmask ci) = mc_Clients m i"
    by (intro bit_eqI) (auto simp: bit_and_not_cmask)
  then have "(mc_Clients m)(i := mc_Clients m i AND NOT (cmask ci)) = mc_Clients m" by (rule fun_upd_idem [OF sym])
  then show ?thesis using False assms(1) by (simp add: disconnect_slot_def)
next
  case True
  define m1 where "m1 = m\<lparr> mc_Clients := (mc_Clients m)(i := mc_Clients m i AND NOT (cmask ci)) \<rparr>"
  have ok: "tables_ok m1" "mirrored m1" using assms(1) by (simp_all add: m1_def module_ok_def)
  have drop: "dropped ci m m'" if "tables_ok m'" "mirrored m'" "mc_Clients m' = mc_Clients m1" "mc_HardClients m' = mc_HardClients m" for m'
    using that only_drops_upd [of ci "mc_Clients m" i] by (simp add: dropped_def module_ok_def m1_def)
  obtain m2 where m2: "DisableInterrupts i clss ci m1 = Inr m2" "tables_ok m2" "mirrored m2"
    "mc_Clients m2 = mc_Clients m1" "mc_HardClients m2 = mc_HardClients m1" "mc_EqpClass m2 = mc_EqpClass m1"
    by (rule DisableInterrupts_ok [OF ok, of clss i]) (use assms in auto)
  have m1_simps: "mc_HardClients m1 = mc_HardClients m"
    "mc_Clients m1 = (mc_Clients m)(i := mc_Clients m i AND NOT (cmask ci))" by (simp_all add: m1_def)
  have e: "disconnect_slot i clss ci m = (if mc_Clients m1 i \<noteq> 0 then Inr m1 else bind_r (DisableInterrupts i clss ci m1) (\<lambda>m2.
      Inr (if mc_EqpClass m2 i = CtrDrvrConnectionClassCTIM then free_ctim_slot i m2 else m2\<lparr> mc_Map := clear_bus_bit i (mc_Map m2) \<rparr>)))"
    unfolding disconnect_slot_def Let_def m1_def [symmetric] using True by simp
  show ?thesis
  proof (cases "mc_Clients m1 i = 0")
    case True
    note r = release_slot [OF m2(2,3), of i, unfolded m2(4), OF True]
    show ?thesis unfolding e m2(1) using True drop [OF r(1,2)] r(3,4) m2(5) m1_simps by simp
  next
    case False
    then show ?thesis unfolding e using drop [OF ok] m1_simps by simp
  qed
qed

lemma disconnect_source_drops:
  assumes "module_ok m" "i < CtrDrvrInterruptSOURCES"
  shows "good (\<lambda>m'. dropped ci m m' \<and> mc_Clients m' = mc_Clients m \<and>
      mc_HardClients m' = (mc_HardClients m)(i := mc_HardClients m i AND NOT (cmask ci))) (disconnect_source i ci m)"
proof (cases "mc_HardClients m i = 0")
  case True
  then have "(mc_HardClients m)(i := mc_HardClients m i AND NOT (cmask ci)) = mc_HardClients m" by (intro fun_upd_idem) simp
  then show ?thesis using True assms(1) by (simp add: disconnect_source_def)
next
  case False
  define m1 where "m1 = m\<lparr> mc_HardClients := (mc_HardClients m)(i := mc_HardClients m i AND NOT (cmask ci)) \<rparr>"
  have ok: "tables_ok m1" "mirrored m1" using assms(1) by (simp_all add: m1_def module_ok_def)
  have drop: "dropped ci m m'" if "tables_ok m'" "mirrored m'" "mc_Clients m' = mc_Clients m" "mc_HardClients m' = mc_HardClients m1" for m'
    using that only_drops_upd [of ci "mc_HardClients m" i] by (simp add: dropped_def module_ok_def m1_def)
  obtain m2 where m2: "DisableInterrupts i CtrDrvrConnectionClassHARD ci m1 = Inr m2" "tables_ok m2" "mirrored m2"
    "mc_Clients m2 = mc_Clients m1" "mc_HardClients m2 = mc_HardClients m1"
    by (rule DisableInterrupts_ok [OF ok, of CtrDrvrConnectionClassHARD i]) (use assms in auto)
  have m1_simps: "mc_Clients m1 = mc_Clients m"
    "mc_HardClients m1 = (mc_HardClients m)(i := mc_HardClients m i AND NOT (cmask ci))" by (simp_all add: m1_def)
  show ?thesis
    unfolding disconnect_source_def Let_def m1_def [symmetric] m2(1)
    using False drop [OF ok] drop [OF m2(2,3)] m2(4,5) m1_simps by simp
qed

lemma bits_upd_drop: "bit ((t(i := t i AND NOT (2 ^ ci :: u32))) j) c \<longleftrightarrow> bit (t j) c \<and> (j = i \<longrightarrow> c \<noteq> ci)"
  by (auto simp: bit_and_not_cmask)

lemma DisConnectOne_slot:
  assumes "module_ok m" "i < CtrDrvrRamTableSIZE" "mc_EqpNum m i \<noteq> 0"
  shows "DisConnectOne i (mc_EqpClass m i) ci m = disconnect_slot i (mc_EqpClass m i) ci m"
    "mc_EqpClass m i \<noteq> CtrDrvrConnectionClassHARD"
  using tables_okD(1) [of m i] assms by (auto simp: module_ok_def slot_ok_def DisConnectOne_def)

lemma disconnect_slots:
  assumes "module_ok m"
  shows "good (\<lambda>m'. dropped ci m m' \<and> (\<forall>i < CtrDrvrRamTableSIZE. \<not> bit (mc_Clients m' i) ci) \<and> mc_HardClients m' = mc_HardClients m)
    (fold_r (\<lambda>i m. if mc_EqpNum m i \<noteq> 0 then DisConnectOne i (mc_EqpClass m i) ci m else Inr m) [0..<CtrDrvrRamTableSIZE] m)"
proof (rule good_fold_upto [where P = "\<lambda>k m'. dropped ci m m' \<and> (\<forall>i < k. \<not> bit (mc_Clients m' i) ci) \<and> mc_HardClients m' = mc_HardClients m"])
  show "dropped ci m m \<and> (\<forall>i < 0. \<not> bit (mc_Clients m i) ci) \<and> mc_HardClients m = mc_HardClients m" using assms by simp
next
  fix k m' assume k: "k < CtrDrvrRamTableSIZE"
    and m': "dropped ci m m' \<and> (\<forall>i < k. \<not> bit (mc_Clients m' i) ci) \<and> mc_HardClients m' = mc_HardClients m"
  then have ok: "module_ok m'" by (simp add: dropped_def)
  show "good (\<lambda>m''. dropped ci m m'' \<and> (\<forall>i < Suc k. \<not> bit (mc_Clients m'' i) ci) \<and> mc_HardClients m'' = mc_HardClients m)
    (if mc_EqpNum m' k \<noteq> 0 then DisConnectOne k (mc_EqpClass m' k) ci m' else Inr m')"
  proof (cases "mc_EqpNum m' k = 0")
    case True
    then have "\<not> bit (mc_Clients m' k) ci" using tables_okD(1) [of m' k] ok k by (auto simp: module_ok_def slot_ok_def)
    then show ?thesis using True m' by (auto simp: less_Suc_eq)
  next
    case False
    note one = DisConnectOne_slot [OF ok k False]
    show ?thesis
      using False m' by (auto simp: one(1) less_Suc_eq bits_upd_drop dest: dropped_trans
          intro!: good_mono [OF disconnect_slot_drops [OF ok k one(2)]] simp del: fun_upd_apply)
  qed
qed

lemma disconnect_sources_drops:
  assumes "module_ok m"
  shows "good (\<lambda>m'. dropped ci m m' \<and> (\<forall>i < CtrDrvrInterruptSOURCES. \<not> bit (mc_HardClients m' i) ci) \<and> mc_Clients m' = mc_Clients m)
    (disconnect_sources ci m)"
  unfolding disconnect_sources_def
proof (rule good_fold_upto [where P = "\<lambda>k m'. dropped ci m m' \<and> (\<forall>i < k. \<not> bit (mc_HardClients m' i) ci) \<and> mc_Clients m' = mc_Clients m"])
  show "dropped ci m m \<and> (\<forall>i < 0. \<not> bit (mc_HardClients m i) ci) \<and> mc_Clients m = mc_Clients m" using assms by simp
next
  fix k m' assume k: "k < CtrDrvrInterruptSOURCES"
    and m': "dropped ci m m' \<and> (\<forall>i < k. \<not> bit (mc_HardClients m' i) ci) \<and> mc_Clients m' = mc_Clients m"
  then have ok: "module_ok m'" by (simp add: dropped_def)
  have "DisConnectOne k CtrDrvrConnectionClassHARD ci m' = disconnect_source k ci m'"
    by (simp add: DisConnectOne_def ctr_classes)
  then show "good (\<lambda>m''. dropped ci m m'' \<and> (\<forall>i < Suc k. \<not> bit (mc_HardClients m'' i) ci) \<and> mc_Clients m'' = mc_Clients m)
    (DisConnectOne k CtrDrvrConnectionClassHARD ci m')"
    using m' by (auto simp: less_Suc_eq bits_upd_drop dest: dropped_trans
        intro!: good_mono [OF disconnect_source_drops [OF ok k]] simp del: fun_upd_apply)
qed

definition unsubscribed :: "nat \<Rightarrow> ctr_module \<Rightarrow> bool" where
  "unsubscribed ci m \<longleftrightarrow> (\<forall>i < CtrDrvrRamTableSIZE. \<not> bit (mc_Clients m i) ci) \<and>
     (\<forall>i < CtrDrvrInterruptSOURCES. \<not> bit (mc_HardClients m i) ci)"

lemma disconnect_module_drops:
  assumes "module_ok m"
  shows "good (\<lambda>m'. dropped ci m m' \<and> unsubscribed ci m') (disconnect_module ci m)"
  unfolding disconnect_module_def
proof (rule good_bind [OF disconnect_slots [OF assms]], elim conjE)
  fix m1 assume m1: "dropped ci m m1" "\<forall>i < CtrDrvrRamTableSIZE. \<not> bit (mc_Clients m1 i) ci"
  then have "module_ok m1" by (simp add: dropped_def)
  show "good (\<lambda>m'. dropped ci m m' \<and> unsubscribed ci m') (disconnect_sources ci m1)"
    by (rule good_mono [OF disconnect_sources_drops [OF \<open>module_ok m1\<close>]])
      (use m1 in \<open>auto simp: unsubscribed_def intro: dropped_trans\<close>)
qed

section \<open>The working area\<close>

definition client_ok :: "nat \<Rightarrow> ctr_client \<Rightarrow> bool" where
  "client_ok k c \<longleftrightarrow> (cc_InUse c \<noteq> 0 \<longrightarrow> cc_ClientIndex c = k) \<and> cc_ModuleIndex c < CtrDrvrMODULE_CONTEXTS \<and>
     queue_ok (cc_Queue c)"

definition wa_ok :: "ctr_wa \<Rightarrow> bool" where
  "wa_ok wa \<longleftrightarrow> wa_Modules wa \<le> CtrDrvrMODULE_CONTEXTS \<and>
     (\<forall>k < CtrDrvrMODULE_CONTEXTS. module_ok (wa_ModuleContexts wa k)) \<and>
     (\<forall>k < CtrDrvrCLIENT_CONTEXTS. client_ok k (wa_ClientContexts wa k)) \<and>
     (\<forall>p \<in> set (wa_Ptim wa). ptb_EqpNum p \<noteq> 0 \<and> unat (ptb_ModuleIndex p) < CtrDrvrMODULE_CONTEXTS) \<and>
     (\<forall>b \<in> set (wa_Ctim wa). ctb_EqpNum b \<noteq> 0)"

lemma wa_ok_blank [simp]: "wa_ok wa_blank"
  by (simp add: wa_ok_def wa_blank_def client_ok_def client_zero_def CtrDrvrMODULE_CONTEXTS_def)

lemma wa_ok_mod: "wa_ok wa \<Longrightarrow> module_ok m \<Longrightarrow> wa_ok (wa_mod k m wa)"
  by (simp add: wa_ok_def)

lemma wa_ok_cli: "wa_ok wa \<Longrightarrow> client_ok k c \<Longrightarrow> wa_ok (wa_cli k c wa)"
  by (simp add: wa_ok_def)

lemma wa_ok_Timers [simp]: "wa_ok (wa\<lparr> wa_Timers := ts \<rparr>) = wa_ok wa"
  by (simp add: wa_ok_def)

lemma wa_ok_Bus [simp]: "wa_ok (wa\<lparr> wa_Bus := u \<rparr>) = wa_ok wa"
  by (simp add: wa_ok_def)

lemma wa_okD:
  "wa_ok wa \<Longrightarrow> k < CtrDrvrMODULE_CONTEXTS \<Longrightarrow> module_ok (wa_ModuleContexts wa k)"
  "wa_ok wa \<Longrightarrow> k < CtrDrvrCLIENT_CONTEXTS \<Longrightarrow> client_ok k (wa_ClientContexts wa k)"
  "wa_ok wa \<Longrightarrow> k < wa_Modules wa \<Longrightarrow> k < CtrDrvrMODULE_CONTEXTS"
  by (auto simp: wa_ok_def)

text \<open>What disconnecting a client everywhere does to the working area.\<close>

definition wa_dropped :: "nat \<Rightarrow> ctr_wa \<Rightarrow> ctr_wa \<Rightarrow> bool" where
  "wa_dropped ci wa wa' \<longleftrightarrow> wa_ok wa' \<and> wa_Modules wa' = wa_Modules wa \<and>
     wa_ClientContexts wa' = wa_ClientContexts wa \<and> wa_Timers wa' = wa_Timers wa \<and>
     wa_Ctim wa' = wa_Ctim wa \<and> wa_Ptim wa' = wa_Ptim wa \<and>
     (\<forall>k. only_drops ci (mc_Clients (wa_ModuleContexts wa k)) (mc_Clients (wa_ModuleContexts wa' k)) \<and>
          only_drops ci (mc_HardClients (wa_ModuleContexts wa k)) (mc_HardClients (wa_ModuleContexts wa' k)))"

lemma wa_dropped_mod:
  assumes "wa_dropped ci wa wa'" "dropped ci (wa_ModuleContexts wa' k) m"
  shows "wa_dropped ci wa (wa_mod k m wa')"
  using assms unfolding wa_dropped_def dropped_def
  by (auto intro: only_drops_trans wa_ok_mod)

lemma DisConnectAll_drops:
  assumes "wa_ok wa" and ci: "ci = cc_ClientIndex (wa_ClientContexts wa cnum)"
  shows "good (\<lambda>wa'. wa_dropped ci wa wa' \<and> (\<forall>k < wa_Modules wa. unsubscribed ci (wa_ModuleContexts wa' k))) (DisConnectAll cnum wa)"
  unfolding DisConnectAll_def Let_def ci [symmetric]
proof (rule good_fold_upto [where P = "\<lambda>n wa'. wa_dropped ci wa wa' \<and> (\<forall>k < n. unsubscribed ci (wa_ModuleContexts wa' k))"])
  show "wa_dropped ci wa wa \<and> (\<forall>k < 0. unsubscribed ci (wa_ModuleContexts wa k))"
    using assms(1) by (simp add: wa_dropped_def)
next
  fix n wa' assume n: "n < wa_Modules wa"
    and wa': "wa_dropped ci wa wa' \<and> (\<forall>k < n. unsubscribed ci (wa_ModuleContexts wa' k))"
  then have ok: "module_ok (wa_ModuleContexts wa' n)"
    using wa_okD(1,3) assms(1) by (auto simp: wa_dropped_def)
  show "good (\<lambda>wa''. wa_dropped ci wa wa'' \<and> (\<forall>k < Suc n. unsubscribed ci (wa_ModuleContexts wa'' k)))
    (bind_r (disconnect_module ci (wa_ModuleContexts wa' n)) (\<lambda>m. Inr (wa_mod n m wa')))"
    by (rule good_bind [OF disconnect_module_drops [OF ok]]) (use wa' in \<open>auto simp: less_Suc_eq intro: wa_dropped_mod\<close>)
qed

lemma wa_dropped_other:
  assumes "wa_dropped ci wa wa'" "c \<noteq> ci"
  shows "bit (mc_Clients (wa_ModuleContexts wa' k) i) c = bit (mc_Clients (wa_ModuleContexts wa k) i) c"
    "bit (mc_HardClients (wa_ModuleContexts wa' k) i) c = bit (mc_HardClients (wa_ModuleContexts wa k) i) c"
  using assms unfolding wa_dropped_def only_drops_def by blast+

lemma sint_large: "2 ^ 31 \<le> unat w \<Longrightarrow> sint (w :: u32) < 0"
proof -
  assume "2 ^ 31 \<le> unat w"
  then have "2 ^ 31 \<le> uint w" by (metis of_nat_le_iff of_nat_numeral of_nat_power uint_nat)
  moreover have "uint w < 2 ^ 32" using uint_lt2p [of w] by simp
  moreover have "sint w = (uint w + 2 ^ 31) mod 2 ^ 32 - 2 ^ 31"
    by (simp add: sint_uint signed_take_bit_eq_take_bit_shift take_bit_eq_mod)
  moreover have "(uint w + 2 ^ 31) mod 2 ^ 32 = (uint w + 2 ^ 31 - 2 ^ 32) mod 2 ^ 32" by (rule minus_mod_self2 [symmetric])
  ultimately show ?thesis by simp
qed

lemma sint_small: "n < 2 ^ 31 \<Longrightarrow> sint (of_nat n :: u32) = int n"
  by (simp add: signed_of_nat signed_take_bit_int_eq_self)

text \<open>The state in which \<^verbatim>\<open>CtrDrvrClose\<close> starts to disconnect.\<close>

definition closing :: "nat \<Rightarrow> ctr_wa \<Rightarrow> ctr_wa" where
  "closing n wa =
     (let (tm, ts) = CancelTimeout (cc_Timer (wa_ClientContexts wa n)) (wa_Timers wa) in
      (wa_cli n ((wa_ClientContexts wa n)\<lparr> cc_InUse := 0, cc_Timer := tm \<rparr>) wa)\<lparr> wa_Timers := ts \<rparr>)"

lemma closing_simps [simp]:
  "wa_ModuleContexts (closing n wa) = wa_ModuleContexts wa" "wa_Modules (closing n wa) = wa_Modules wa"
  "cc_InUse (wa_ClientContexts (closing n wa) n) = 0"
  "cc_ClientIndex (wa_ClientContexts (closing n wa) c) = cc_ClientIndex (wa_ClientContexts wa c)"
  "cc_Timer (wa_ClientContexts (closing n wa) n) = fst (CancelTimeout (cc_Timer (wa_ClientContexts wa n)) (wa_Timers wa))"
  "c \<noteq> n \<Longrightarrow> wa_ClientContexts (closing n wa) c = wa_ClientContexts wa c"
  by (simp_all add: closing_def split: prod.splits)

lemma closing_ok: "wa_ok wa \<Longrightarrow> n < CtrDrvrCLIENT_CONTEXTS \<Longrightarrow> wa_ok (closing n wa)"
  using wa_okD(2) [of wa n] by (auto simp: closing_def client_ok_def split: prod.splits intro!: wa_ok_cli)

lemma minor_of:
  assumes "n < CtrDrvrCLIENT_CONTEXTS" "dev AND 0xFF = of_nat n + 1"
  shows "sint ((dev AND 0xFF :: u32) - 1) = int n"
  using assms by (simp add: CtrDrvrCLIENT_CONTEXTS_def sint_small)

lemma CtrDrvrClose_drops:
  assumes "wa_ok wa" and "n < CtrDrvrCLIENT_CONTEXTS" and "dev AND 0xFF = of_nat n + 1"
    and "cc_InUse (wa_ClientContexts wa n) \<noteq> 0"
  shows "good (\<lambda>(e, wa'). e = None \<and> wa_dropped n (closing n wa) wa' \<and>
      (\<forall>k < wa_Modules wa. unsubscribed n (wa_ModuleContexts wa' k))) (CtrDrvrClose dev wa)"
proof -
  have ci: "n = cc_ClientIndex (wa_ClientContexts (closing n wa) n)"
    using wa_okD(2) [OF assms(1,2)] assms(4) by (simp add: client_ok_def)
  have "CtrDrvrClose dev wa = bind_r (DisConnectAll n (closing n wa)) (\<lambda>wa1. Inr (None, wa1))"
    using assms(2) by (simp add: CtrDrvrClose_def minor_of [OF assms(2,3)] closing_def Let_def split: prod.splits)
  then show ?thesis
    using DisConnectAll_drops [OF closing_ok [OF assms(1,2)] ci] by (auto simp: good_iff)
qed


section \<open>Connecting\<close>

text \<open>While a connection is made the mask of the context runs ahead of that of the board.\<close>

lemma EnableInterrupts_restores:
  "tables_ok m \<Longrightarrow> module_ok (EnableInterrupts h m)"
  by (simp add: module_ok_def)

lemma same_objectD:
  "same_object conx m i \<Longrightarrow> mc_EqpNum m i = cx_EqpNum conx" "same_object conx m i \<Longrightarrow> mc_EqpClass m i = cx_EqpClass conx"
  by (simp_all add: same_object_def)

lemma connect_slot_simps [simp]:
  "mc_Clients (connect_slot i ci h m) = (mc_Clients m)(i := mc_Clients m i OR 2 ^ ci)"
  "mc_HardClients (connect_slot i ci h m) = mc_HardClients m"
  "mc_EqpNum (connect_slot i ci h m) = mc_EqpNum m" "mc_EqpClass (connect_slot i ci h m) = mc_EqpClass m"
  "mc_Trigs (connect_slot i ci h m) = mc_Trigs m" "mc_InterruptEnable (connect_slot i ci h m) = mc_InterruptEnable m OR h"
  "ram_is_memory (mc_Map (connect_slot i ci h m)) = ram_is_memory (mc_Map m)"
  by (simp_all add: connect_slot_def add_client_def set_bus_bit_def Let_def)

lemma connect_slot_Mem:
  "ram_is_memory (mc_Map m) \<Longrightarrow> b_Mem (mc_Map (connect_slot i ci h m)) =
     (b_Mem (mc_Map m))(R_ConfigWord i := b_Mem (mc_Map m) (R_ConfigWord i) OR bus_bit)"
  by (simp add: connect_slot_def add_client_def set_bus_bit_def HRd_ram ram_def Let_def)

lemma bit_or_bus [simp]: "bit (w OR bus_bit) 30"
  unfolding bus_bit_value bit_or_cmask by simp

lemma tables_ok_connect_slot:
  assumes "tables_ok m" "mc_EqpNum m i \<noteq> 0" "ci < CtrDrvrCLIENT_CONTEXTS"
  shows "tables_ok (connect_slot i ci h m)"
proof -
  have mem: "ram_is_memory (mc_Map m)" using assms(1) by (simp add: tables_ok_def)
  have "slot_ok (connect_slot i ci h m) j" if "j < CtrDrvrRamTableSIZE" for j
    using tables_okD(1) [OF assms(1) that] assms(2,3)
    by (auto simp: slot_ok_def connect_slot_Mem [OF mem] bit_or_cmask)
  then show ?thesis using assms(1) by (simp add: tables_ok_def)
qed

text \<open>Where a client is subscribed after connecting: slots and sources.\<close>

definition subscribed :: "nat \<Rightarrow> CtrDrvrConnection \<Rightarrow> ctr_module \<Rightarrow> bool" where
  "subscribed ci conx m \<longleftrightarrow>
    (if cx_EqpClass conx \<in> {CtrDrvrConnectionClassCTIM, CtrDrvrConnectionClassPTIM} then
       (\<exists>i < CtrDrvrRamTableSIZE. same_object conx m i) \<and>
       (\<forall>i < CtrDrvrRamTableSIZE. same_object conx m i \<longrightarrow>
          bit (mc_Clients m i) ci \<and> bit (mc_InterruptEnable m) (unat (tr_Counter (mc_Trigs m i))))
     else (\<exists>i < CtrDrvrInterruptSOURCES. bit (cx_EqpNum conx) i) \<and>
       (\<forall>i < CtrDrvrInterruptSOURCES. bit (cx_EqpNum conx) i \<longrightarrow> bit (mc_HardClients m i) ci \<and> bit (mc_InterruptEnable m) i))"

text \<open>No bit but those of one client changes, and none is cleared.\<close>

definition only_adds :: "nat \<Rightarrow> (nat \<Rightarrow> u32) \<Rightarrow> (nat \<Rightarrow> u32) \<Rightarrow> bool" where
  "only_adds ci t t' \<longleftrightarrow> (\<forall>i c. bit (t' i) c = bit (t i) c \<or> (c = ci \<and> bit (t' i) c))"

lemma only_adds_refl [simp]: "only_adds ci t t"
  by (simp add: only_adds_def)

lemma only_adds_upd [simp]: "only_adds ci t (t(i := t i OR 2 ^ ci))"
  by (auto simp: only_adds_def bit_or_cmask)

lemma only_adds_trans: "only_adds ci t t' \<Longrightarrow> only_adds ci t' t'' \<Longrightarrow> only_adds ci t t''"
  unfolding only_adds_def by blast

definition added :: "nat \<Rightarrow> ctr_module \<Rightarrow> ctr_module \<Rightarrow> bool" where
  "added ci m m' \<longleftrightarrow> tables_ok m' \<and> only_adds ci (mc_Clients m) (mc_Clients m') \<and>
     only_adds ci (mc_HardClients m) (mc_HardClients m') \<and>
     (\<forall>n. bit (mc_InterruptEnable m) n \<longrightarrow> bit (mc_InterruptEnable m') n)"

lemma added_refl [simp]: "added ci m m = tables_ok m"
  by (simp add: added_def)

lemma added_trans: "added ci m m' \<Longrightarrow> added ci m' m'' \<Longrightarrow> added ci m m''"
  unfolding added_def by (blast intro: only_adds_trans)

lemma added_connect_slot:
  "tables_ok m \<Longrightarrow> mc_EqpNum m i \<noteq> 0 \<Longrightarrow> ci < CtrDrvrCLIENT_CONTEXTS \<Longrightarrow> added ci m (connect_slot i ci h m)"
  by (simp add: added_def tables_ok_connect_slot bit_or_iff)

lemma slot_class_pos:
  "tables_ok m \<Longrightarrow> i < CtrDrvrRamTableSIZE \<Longrightarrow> mc_EqpClass m i \<noteq> CtrDrvrConnectionClassHARD \<Longrightarrow> mc_EqpNum m i \<noteq> 0"
  by (auto dest: tables_okD(1) simp: slot_ok_def)

lemma shl1_counter: "n < 32 \<Longrightarrow> shl1 n = Inr (2 ^ n)"
  by (simp add: shl1_def)

definition same_slots :: "ctr_module \<Rightarrow> ctr_module \<Rightarrow> bool" where
  "same_slots m m' \<longleftrightarrow> mc_EqpNum m' = mc_EqpNum m \<and> mc_EqpClass m' = mc_EqpClass m \<and> mc_Trigs m' = mc_Trigs m"

lemma same_slots_simps:
  "same_slots m m' \<Longrightarrow> same_object conx m' i = same_object conx m i"
  by (simp add: same_slots_def same_object_def)

definition ptim_upto :: "CtrDrvrConnection \<Rightarrow> nat \<Rightarrow> ctr_module \<Rightarrow> nat \<Rightarrow> nat \<times> ctr_module \<Rightarrow> bool" where
  "ptim_upto conx ci m k = (\<lambda>(count, m'). added ci m m' \<and> same_slots m m' \<and> (count = 0 \<longrightarrow> m' = m) \<and>
     (count = 0 \<longleftrightarrow> \<not> (\<exists>i < k. same_object conx m i)) \<and>
     (\<forall>i < k. same_object conx m i \<longrightarrow>
        bit (mc_Clients m' i) ci \<and> bit (mc_InterruptEnable m') (unat (tr_Counter (mc_Trigs m i)))))"

lemma ptim_upto_step:
  assumes m': "ptim_upto conx ci m k (count, m')" and k: "k < CtrDrvrRamTableSIZE" "ci < CtrDrvrCLIENT_CONTEXTS"
    and c: "cx_EqpClass conx \<noteq> CtrDrvrConnectionClassHARD"
  shows "good (ptim_upto conx ci m (Suc k))
    (if same_object conx m' k
     then bind_r (shl1 (unat (tr_Counter (mc_Trigs m' k)))) (\<lambda>hmsk. Inr (count + 1, connect_slot k ci hmsk m'))
     else Inr (count, m'))"
proof (cases "same_object conx m k")
  case False
  then show ?thesis
    using m' by (auto simp: ptim_upto_def same_slots_simps less_Suc_eq)
next
  case True
  have ok: "tables_ok m'" and s: "same_slots m m'" using m' by (simp_all add: ptim_upto_def added_def)
  have n: "unat (tr_Counter (mc_Trigs m' k)) < 32" using tables_okD(2) [OF ok k(1)] .
  have e: "mc_EqpNum m' k \<noteq> 0"
    using slot_class_pos [OF ok k(1)] True c s by (auto simp: same_slots_def same_object_def)
  define m'' where "m'' = connect_slot k ci (2 ^ unat (tr_Counter (mc_Trigs m' k))) m'"
  have a: "added ci m m''"
    using m' added_connect_slot [OF ok e k(2)] by (auto simp: ptim_upto_def m''_def intro: added_trans)
  have "same_slots m m''" using s by (simp add: same_slots_def m''_def)
  moreover have "bit (mc_Clients m'' i) ci \<and> bit (mc_InterruptEnable m'') (unat (tr_Counter (mc_Trigs m i)))"
    if "i < Suc k" "same_object conx m i" for i
  proof (cases "i = k")
    case True
    then show ?thesis
      using k(2) n s by (simp add: m''_def bit_or_cmask same_slots_def CtrDrvrCLIENT_CONTEXTS_def)
  next
    case False
    then have "bit (mc_Clients m' i) ci" "bit (mc_InterruptEnable m') (unat (tr_Counter (mc_Trigs m i)))"
      using m' that by (simp_all add: ptim_upto_def)
    then show ?thesis using False by (simp add: m''_def bit_or_iff)
  qed
  ultimately have "ptim_upto conx ci m (Suc k) (count + 1, m'')"
    using a True by (auto simp: ptim_upto_def)
  then show ?thesis
    using True s n by (simp add: same_slots_simps shl1_counter m''_def)
qed

lemma connect_ptim_adds:
  assumes "tables_ok m" "ci < CtrDrvrCLIENT_CONTEXTS" "cx_EqpClass conx \<noteq> CtrDrvrConnectionClassHARD"
  shows "good (ptim_upto conx ci m CtrDrvrRamTableSIZE) (connect_ptim conx ci m)"
  unfolding connect_ptim_def
proof (rule good_fold_upto [where P = "ptim_upto conx ci m"])
  show "ptim_upto conx ci m 0 (0, m)" using assms(1) by (simp add: ptim_upto_def same_slots_def)
next
  fix k s assume "k < CtrDrvrRamTableSIZE" "ptim_upto conx ci m k s"
  then show "good (ptim_upto conx ci m (Suc k)) ((\<lambda>(count, m).
         if same_object conx m k
         then bind_r (shl1 (unat (tr_Counter (mc_Trigs m k)))) (\<lambda>hmsk. Inr (count + 1, connect_slot k ci hmsk m))
         else Inr (count, m)) s)"
    using ptim_upto_step [OF _ _ assms(2,3)] by (cases s) simp
qed

text \<open>The class CTIM.\<close>

lemma create_slot_simps:
  "mc_Clients (create_slot i e f ci m) = (mc_Clients m)(i := mc_Clients m i OR 2 ^ ci)"
  "mc_HardClients (create_slot i e f ci m) = mc_HardClients m"
  "mc_EqpNum (create_slot i e f ci m) = (mc_EqpNum m)(i := e)"
  "mc_EqpClass (create_slot i e f ci m) = (mc_EqpClass m)(i := CtrDrvrConnectionClassCTIM)"
  "mc_Trigs (create_slot i e f ci m) = (mc_Trigs m)(i := ctim_trigger e f)"
  "mc_InterruptEnable (create_slot i e f ci m) = mc_InterruptEnable m OR CtrDrvrInterruptMaskCOUNTER_0"
  "ram_is_memory (mc_Map (create_slot i e f ci m)) = ram_is_memory (mc_Map m)"
  "b_Mem (mc_Map (create_slot i e f ci m)) (R_ConfigWord j) =
     (if j = i then hc_Config (ConfigToHard ctim_config) else b_Mem (mc_Map m) (R_ConfigWord j))"
  by (simp_all add: create_slot_def add_client_def)

lemma ctim_config_bus: "bit (hc_Config (ConfigToHard ctim_config)) 30"
  by code_simp

lemma tables_ok_create_slot:
  assumes "tables_ok m" "mc_EqpNum m i = 0" "e \<noteq> 0" "ci < CtrDrvrCLIENT_CONTEXTS" "i < CtrDrvrRamTableSIZE"
    and new: "\<And>j. j < CtrDrvrRamTableSIZE \<Longrightarrow> mc_EqpNum m j = e \<Longrightarrow> mc_EqpClass m j \<noteq> CtrDrvrConnectionClassCTIM"
  shows "tables_ok (create_slot i e f ci m)"
proof -
  have free: "mc_Clients m i = 0"
    using tables_okD(1) [OF assms(1,5)] assms(2) by (auto simp: slot_ok_def no_bits)
  have "slot_ok (create_slot i e f ci m) j" if "j < CtrDrvrRamTableSIZE" for j
    using tables_okD(1) [OF assms(1) that] assms(3,4) free
    by (auto simp: slot_ok_def create_slot_simps ctim_config_bus bit_exp_iff ctr_classes ctim_trigger_def
        CtrDrvrCOUNTERS_def CtrDrvrCounter0_def)
  moreover have "j = j'" if "j < CtrDrvrRamTableSIZE" "j' < CtrDrvrRamTableSIZE"
    "((mc_EqpClass m)(i := CtrDrvrConnectionClassCTIM)) j = CtrDrvrConnectionClassCTIM"
    "((mc_EqpClass m)(i := CtrDrvrConnectionClassCTIM)) j' = CtrDrvrConnectionClassCTIM"
    "((mc_EqpNum m)(i := e)) j = ((mc_EqpNum m)(i := e)) j'" for j j'
    using that new assms(1) by (auto simp: tables_ok_def split: if_splits)
  moreover have "ram_is_memory (mc_Map m)" using assms(1) by (simp add: tables_ok_def)
  ultimately show ?thesis
    unfolding tables_ok_def create_slot_simps by blast
qed

definition ctim_connected :: "CtrDrvrConnection \<Rightarrow> nat \<Rightarrow> ctr_module \<Rightarrow> nat \<times> ctr_module \<Rightarrow> bool" where
  "ctim_connected conx ci m = (\<lambda>(count, m'). added ci m m' \<and> (count = 0 \<longrightarrow> m' = m) \<and> (count \<noteq> 0 \<longrightarrow> subscribed ci conx m'))"

lemma subscribed_ctimI:
  assumes "cx_EqpClass conx = CtrDrvrConnectionClassCTIM" "i < CtrDrvrRamTableSIZE" "same_object conx m i"
    and "\<And>j. j < CtrDrvrRamTableSIZE \<Longrightarrow> same_object conx m j \<Longrightarrow> j = i"
    and "bit (mc_Clients m i) ci" "tr_Counter (mc_Trigs m i) = CtrDrvrCounter0"
    and "mc_InterruptEnable m = en OR CtrDrvrInterruptMaskCOUNTER_0"
  shows "subscribed ci conx m"
proof -
  have "bit (mc_InterruptEnable m) (unat (tr_Counter (mc_Trigs m i)))"
    using assms(6,7) by (simp add: CtrDrvrCounter0_def CtrDrvrInterruptMaskCOUNTER_0_def bit_or_iff)
  then show ?thesis
    using assms(1-5) unfolding subscribed_def by (metis insert_iff)
qed

lemma connect_ctim_adds:
  assumes ok: "tables_ok m" and ci: "ci < CtrDrvrCLIENT_CONTEXTS" and c: "cx_EqpClass conx = CtrDrvrConnectionClassCTIM"
    and ct: "\<forall>b \<in> set (wa_Ctim wa). ctb_EqpNum b \<noteq> 0"
  shows "case connect_ctim conx ci wa m of Inl e \<Rightarrow> True | Inr cm \<Rightarrow> ctim_connected conx ci m cm"
proof (cases "find (same_object conx m) [0..<CtrDrvrRamTableSIZE]")
  case (Some i)
  then have i: "i < CtrDrvrRamTableSIZE" "same_object conx m i" by (auto simp: find_Some_iff)
  have e: "mc_EqpNum m i \<noteq> 0" using slot_class_pos [OF ok i(1)] i(2) c by (auto simp: same_object_def ctr_classes)
  have only: "j = i" if "j < CtrDrvrRamTableSIZE" "same_object conx m j" for j
    using ok that i c unfolding tables_ok_def same_object_def by metis
  have "tr_Counter (mc_Trigs m i) = CtrDrvrCounter0"
    using tables_okD(1) [OF ok i(1)] i(2) c by (auto simp: slot_ok_def same_object_def)
  then have "subscribed ci conx (connect_slot i ci CtrDrvrInterruptMaskCOUNTER_0 m)"
  proof (intro subscribed_ctimI [OF c i(1)])
    show "j = i" if "j < CtrDrvrRamTableSIZE" "same_object conx (connect_slot i ci CtrDrvrInterruptMaskCOUNTER_0 m) j" for j
      using that by (intro only) (simp_all add: same_object_def)
    show "bit (mc_Clients (connect_slot i ci CtrDrvrInterruptMaskCOUNTER_0 m) i) ci"
      using ci by (simp add: bit_or_cmask CtrDrvrCLIENT_CONTEXTS_def)
  qed (use i(2) in \<open>simp_all add: same_object_def\<close>)
  then show ?thesis
    using added_connect_slot [OF ok e ci] by (simp add: connect_ctim_def Some ctim_connected_def)
next
  case None
  then have new: "\<not> same_object conx m j" if "j < CtrDrvrRamTableSIZE" for j using that by (auto simp: find_None_iff)
  show ?thesis
  proof (cases "frame_Header (ctim_frame (cx_EqpNum conx) wa) = 0 \<or> find (\<lambda>i. mc_EqpNum m i = 0) [0..<CtrDrvrRamTableSIZE] = None")
    case True
    then show ?thesis using ok by (auto simp: connect_ctim_def None ctim_connected_def Let_def)
  next
    case False
    then obtain i where i: "find (\<lambda>i. mc_EqpNum m i = 0) [0..<CtrDrvrRamTableSIZE] = Some i" by auto
    then have free: "i < CtrDrvrRamTableSIZE" "mc_EqpNum m i = 0" by (auto simp: find_Some_iff)
    have "cx_EqpNum conx \<noteq> 0"
      using False ct by (auto simp: ctim_frame_def frame_Header_def find_Some_iff split: option.splits)
    note t = tables_ok_create_slot [OF ok free(2) this ci free(1)]
    define m' where "m' = create_slot i (cx_EqpNum conx) (ctim_frame (cx_EqpNum conx) wa) ci m"
    have "tables_ok m'" unfolding m'_def by (intro t) (use new c in \<open>metis same_object_def\<close>)
    then have "added ci m m'" by (simp add: added_def m'_def create_slot_simps bit_or_iff)
    moreover have "subscribed ci conx m'"
    proof (rule subscribed_ctimI [OF c free(1)])
      show "same_object conx m' i" using c by (simp add: same_object_def m'_def create_slot_simps)
      show "j = i" if "j < CtrDrvrRamTableSIZE" "same_object conx m' j" for j
        using that new [of j] by (auto simp: same_object_def m'_def create_slot_simps split: if_splits)
      show "bit (mc_Clients m' i) ci"
        using ci by (simp add: m'_def create_slot_simps bit_or_cmask CtrDrvrCLIENT_CONTEXTS_def)
    qed (simp_all add: m'_def create_slot_simps ctim_trigger_def)
    ultimately show ?thesis
      using False by (simp add: connect_ctim_def None i ctim_connected_def m'_def Let_def)
  qed
qed

text \<open>The class HARD.\<close>

lemma connect_source_simps [simp]:
  "mc_Clients (connect_source ci i m) = mc_Clients m"
  "mc_HardClients (connect_source ci i m) = (mc_HardClients m)(i := mc_HardClients m i OR 2 ^ ci)"
  "mc_InterruptEnable (connect_source ci i m) = mc_InterruptEnable m OR 2 ^ i"
  "tables_ok (connect_source ci i m) = tables_ok m"
  by (simp_all add: connect_source_def) (rule tables_ok_cong; simp)

definition hard_upto :: "CtrDrvrConnection \<Rightarrow> nat \<Rightarrow> ctr_module \<Rightarrow> nat \<Rightarrow> nat \<times> ctr_module \<Rightarrow> bool" where
  "hard_upto conx ci m k = (\<lambda>(count, m'). added ci m m' \<and> (count = 0 \<longrightarrow> m' = m) \<and>
     (count = 0 \<longleftrightarrow> \<not> (\<exists>i < k. bit (cx_EqpNum conx) i)) \<and>
     (\<forall>i < k. bit (cx_EqpNum conx) i \<longrightarrow> bit (mc_HardClients m' i) ci \<and> bit (mc_InterruptEnable m') i))"

lemma hard_upto_step:
  assumes m': "hard_upto conx ci m k (count, m')" and b: "bit (cx_EqpNum conx) k" and ci: "ci < 32"
  shows "hard_upto conx ci m (Suc k) (count + 1, connect_source ci k m')"
proof -
  have k: "k < 32" using bit_imp_le_length [OF b] by simp
  have "bit (mc_HardClients (connect_source ci k m') i) ci \<and> bit (mc_InterruptEnable (connect_source ci k m')) i"
    if "i < Suc k" "bit (cx_EqpNum conx) i" for i
    using m' that k ci by (cases "i = k") (simp_all add: hard_upto_def bit_or_cmask)
  moreover have "added ci m' (connect_source ci k m')"
    using m' by (simp add: added_def hard_upto_def bit_or_iff)
  ultimately show ?thesis
    using m' b unfolding hard_upto_def by (auto intro: added_trans)
qed

lemma connect_hard_adds:
  assumes "tables_ok m" "ci < 32"
  shows "hard_upto conx ci m CtrDrvrInterruptSOURCES (connect_hard conx ci m)"
proof -
  let ?f = "\<lambda>i (count :: nat, m). if cx_EqpNum conx AND push_bit i 1 \<noteq> 0 then (count + 1, connect_source ci i m) else (count, m)"
  have "hard_upto conx ci m n (fold ?f [0..<n] (0, m))" for n
  proof (induction n)
    case 0 then show ?case using assms(1) by (simp add: hard_upto_def)
  next
    case (Suc n)
    obtain count m' where s: "fold ?f [0..<n] (0, m) = (count, m')" by fastforce
    show ?case
      using Suc hard_upto_step [of conx ci m n count m'] assms(2) s
      by (cases "bit (cx_EqpNum conx) n") (auto simp: hard_upto_def less_Suc_eq)
  qed
  then show ?thesis unfolding connect_hard_def .
qed

text \<open>The module a connection goes to.\<close>

definition connect_target :: "CtrDrvrConnection \<Rightarrow> nat \<Rightarrow> ctr_wa \<Rightarrow> nat" where
  "connect_target conx cnum wa =
     (if cx_EqpClass conx = CtrDrvrConnectionClassPTIM then nat (sint (GetPtimModule (cx_EqpNum conx) wa - 1))
      else if 1 \<le> unat (cx_Module conx) \<and> unat (cx_Module conx) \<le> CtrDrvrMODULE_CONTEXTS then unat (cx_Module conx) - 1
      else cc_ModuleIndex (wa_ClientContexts wa cnum))"

definition connected :: "nat \<Rightarrow> CtrDrvrConnection \<Rightarrow> nat \<Rightarrow> ctr_wa \<Rightarrow> errno option \<times> ctr_wa \<Rightarrow> bool" where
  "connected ci conx k wa = (\<lambda>(e, wa'). wa_ok wa' \<and> (if e = None then \<exists>m. wa' = wa_mod k m wa \<and> subscribed ci conx m \<and>
       only_adds ci (mc_Clients (wa_ModuleContexts wa k)) (mc_Clients m) \<and>
       only_adds ci (mc_HardClients (wa_ModuleContexts wa k)) (mc_HardClients m)
     else wa' = wa))"

lemma same_object_enabled [simp]: "same_object conx (EnableInterrupts h m) i = same_object conx m i"
  by (simp add: same_object_def)

lemma subscribed_enabled: "subscribed ci conx m \<Longrightarrow> subscribed ci conx (EnableInterrupts (mc_InterruptEnable m) m)"
  by (simp add: subscribed_def)

lemma connected_result:
  assumes "wa_ok wa" "added ci (wa_ModuleContexts wa k) m" "count = 0 \<longrightarrow> m = wa_ModuleContexts wa k"
    and "count \<noteq> 0 \<longrightarrow> subscribed ci conx m"
  shows "connected ci conx k wa (connect_result k (count, m) wa)"
  using assms EnableInterrupts_restores [of m]
  by (auto simp: connect_result_def connected_def added_def intro!: wa_ok_mod subscribed_enabled exI)

lemma subscribed_ptim:
  "ptim_upto conx ci m CtrDrvrRamTableSIZE (count, m') \<Longrightarrow> cx_EqpClass conx = CtrDrvrConnectionClassPTIM \<Longrightarrow>
     count \<noteq> 0 \<Longrightarrow> subscribed ci conx m'"
  by (auto simp: ptim_upto_def subscribed_def same_slots_simps) (simp_all add: same_slots_def)

lemma subscribed_hard:
  "hard_upto conx ci m CtrDrvrInterruptSOURCES (count, m') \<Longrightarrow>
     cx_EqpClass conx \<notin> {CtrDrvrConnectionClassCTIM, CtrDrvrConnectionClassPTIM} \<Longrightarrow> count \<noteq> 0 \<Longrightarrow> subscribed ci conx m'"
  by (auto simp: hard_upto_def subscribed_def)

lemma GetPtimModule_index:
  assumes "wa_ok wa" "GetPtimModule n wa \<noteq> 0"
  shows "0 \<le> sint (GetPtimModule n wa - 1)" "sint (GetPtimModule n wa - 1) < int CtrDrvrMODULE_CONTEXTS"
proof -
  obtain p where p: "p \<in> set (wa_Ptim wa)" "GetPtimModule n wa = ucast (ptb_ModuleIndex p) + 1"
    using assms(2) by (auto simp: GetPtimModule_def find_Some_iff in_set_conv_nth split: option.splits)
  have "unat (ptb_ModuleIndex p) < CtrDrvrMODULE_CONTEXTS" using assms(1) p(1) by (simp add: wa_ok_def)
  moreover have e: "GetPtimModule n wa - 1 = (of_nat (unat (ptb_ModuleIndex p)) :: u32)" using p(2) by simp
  moreover have "sint (GetPtimModule n wa - 1) = int (unat (ptb_ModuleIndex p))"
    using calculation(1) unfolding e by (intro sint_small) (simp add: CtrDrvrMODULE_CONTEXTS_def)
  ultimately show "0 \<le> sint (GetPtimModule n wa - 1)" "sint (GetPtimModule n wa - 1) < int CtrDrvrMODULE_CONTEXTS"
    by (simp_all only: of_nat_0_le_iff of_nat_less_iff)
qed

lemma module_of_connection:
  "(if sint (w - 1 :: u32) < 0 \<or> sint (w - 1) \<ge> int CtrDrvrMODULE_CONTEXTS then d else nat (sint (w - 1))) =
   (if 1 \<le> unat w \<and> unat w \<le> CtrDrvrMODULE_CONTEXTS then unat w - 1 else d)"
proof (cases "1 \<le> unat w \<and> unat w \<le> 2 ^ 31")
  case True
  then have "w - 1 = of_nat (unat w - 1)" by (simp add: of_nat_diff)
  moreover have "unat w - 1 < 2 ^ 31" using True by linarith
  ultimately have e: "sint (w - 1) = int (unat w - 1)" by (metis sint_small)
  define n where "n = unat w"
  have "1 \<le> n" using True by (simp add: n_def)
  then show ?thesis unfolding e n_def [symmetric] by (auto simp: CtrDrvrMODULE_CONTEXTS_def)
next
  case False
  have "sint (w - 1) < 0"
  proof (cases "w = 0")
    case False
    then have "unat (w - 1) = unat w - 1" "unat w \<noteq> 0" by (simp_all add: unat_minus_one unat_gt_0)
    then have "2 ^ 31 \<le> unat (w - 1)" using \<open>\<not> (1 \<le> unat w \<and> unat w \<le> 2 ^ 31)\<close> by linarith
    then show ?thesis by (rule sint_large)
  qed simp
  then show ?thesis using False by (auto simp: CtrDrvrMODULE_CONTEXTS_def)
qed

lemma Connect_connected:
  assumes "wa_ok wa" and "cnum < CtrDrvrCLIENT_CONTEXTS" and "cc_InUse (wa_ClientContexts wa cnum) \<noteq> 0"
  shows "good (connected cnum conx (connect_target conx cnum wa) wa) (Connect conx cnum wa)"
proof -
  have ci: "cc_ClientIndex (wa_ClientContexts wa cnum) = cnum" "cc_ModuleIndex (wa_ClientContexts wa cnum) < CtrDrvrMODULE_CONTEXTS"
    using wa_okD(2) [OF assms(1,2)] assms(3) by (auto simp: client_ok_def)
  have c32: "cnum < 32" using assms(2) by (simp add: CtrDrvrCLIENT_CONTEXTS_def)
  have ok: "tables_ok (wa_ModuleContexts wa k)" if "k < CtrDrvrMODULE_CONTEXTS" for k
    using wa_okD(1) [OF assms(1) that] by (simp add: module_ok_def)
  define t where "t = connect_target conx cnum wa"
  have midx: "(if sint (cx_Module conx - 1) < 0 \<or> sint (cx_Module conx - 1) \<ge> int CtrDrvrMODULE_CONTEXTS
      then cc_ModuleIndex (wa_ClientContexts wa cnum) else nat (sint (cx_Module conx - 1))) = t"
    if "cx_EqpClass conx \<noteq> CtrDrvrConnectionClassPTIM"
    using that by (simp add: t_def connect_target_def module_of_connection)
  consider (ptim) "cx_EqpClass conx = CtrDrvrConnectionClassPTIM" | (ctim) "cx_EqpClass conx = CtrDrvrConnectionClassCTIM"
    | (hard) "cx_EqpClass conx \<notin> {CtrDrvrConnectionClassCTIM, CtrDrvrConnectionClassPTIM}" by blast
  then have "good (connected cnum conx t wa) (Connect conx cnum wa)"
  proof cases
    case ptim
    show ?thesis
    proof (cases "GetPtimModule (cx_EqpNum conx) wa = 0")
      case True
      then show ?thesis using ptim assms(1) by (simp add: Connect_def connected_def Let_def)
    next
      case False
      note i = GetPtimModule_index [OF assms(1) False]
      have t: "module_index (sint (GetPtimModule (cx_EqpNum conx) wa - 1)) = Inr t" "t < CtrDrvrMODULE_CONTEXTS"
        using i by (simp_all add: module_index_def t_def connect_target_def ptim)
      have c: "Connect conx cnum wa = bind_r (connect_ptim conx cnum (wa_ModuleContexts wa t)) (\<lambda>cm. Inr (connect_result t cm wa))"
        using ptim False by (simp add: Connect_def t(1) ci(1) Let_def)
      have "good (ptim_upto conx cnum (wa_ModuleContexts wa t) CtrDrvrRamTableSIZE) (connect_ptim conx cnum (wa_ModuleContexts wa t))"
        by (rule connect_ptim_adds [OF ok [OF t(2)] assms(2)]) (simp add: ptim ctr_classes)
      then show ?thesis
        unfolding c
      proof (rule good_bind)
        fix cm assume cm: "ptim_upto conx cnum (wa_ModuleContexts wa t) CtrDrvrRamTableSIZE cm"
        obtain count m where s: "cm = (count, m)" by fastforce
        have "added cnum (wa_ModuleContexts wa t) m" "count = 0 \<longrightarrow> m = wa_ModuleContexts wa t"
          using cm by (auto simp: ptim_upto_def s)
        moreover have "count \<noteq> 0 \<longrightarrow> subscribed cnum conx m"
          using subscribed_ptim [OF cm [unfolded s] ptim] by simp
        ultimately show "good (connected cnum conx t wa) (Inr (connect_result t cm wa))"
          using connected_result [OF assms(1)] by (simp add: s)
      qed
    qed
  next
    case ctim
    have t: "t < CtrDrvrMODULE_CONTEXTS" using ci(2) by (auto simp: t_def connect_target_def ctim ctr_classes)
    have np: "cx_EqpClass conx \<noteq> CtrDrvrConnectionClassPTIM" using ctim by (simp add: ctr_classes)
    have c: "Connect conx cnum wa = (case connect_ctim conx cnum wa (wa_ModuleContexts wa t) of
        Inl e \<Rightarrow> Inr (Some e, wa) | Inr cm \<Rightarrow> Inr (connect_result t cm wa))"
      unfolding Connect_def Let_def ci(1) midx [OF np] using ctim np by simp
    have "\<forall>b \<in> set (wa_Ctim wa). ctb_EqpNum b \<noteq> 0" using assms(1) by (simp add: wa_ok_def)
    note r = connect_ctim_adds [OF ok [OF t] assms(2) ctim this]
    show ?thesis
    proof (cases "connect_ctim conx cnum wa (wa_ModuleContexts wa t)")
      case (Inl e)
      then show ?thesis using assms(1) by (simp add: c connected_def)
    next
      case (Inr cm)
      obtain count m where s: "cm = (count, m)" by fastforce
      show ?thesis using r connected_result [OF assms(1)] by (simp add: c Inr s ctim_connected_def)
    qed
  next
    case hard
    have t: "t < CtrDrvrMODULE_CONTEXTS" using ci(2) hard by (auto simp: t_def connect_target_def)
    have c: "Connect conx cnum wa = Inr (connect_result t (connect_hard conx cnum (wa_ModuleContexts wa t)) wa)"
      using midx hard by (simp add: Connect_def ci(1) Let_def)
    obtain count m where s: "connect_hard conx cnum (wa_ModuleContexts wa t) = (count, m)" by fastforce
    have "hard_upto conx cnum (wa_ModuleContexts wa t) CtrDrvrInterruptSOURCES (count, m)"
      using connect_hard_adds [OF ok [OF t] c32, of conx] by (simp add: s)
    then have "added cnum (wa_ModuleContexts wa t) m" "count = 0 \<longrightarrow> m = wa_ModuleContexts wa t"
      "count \<noteq> 0 \<longrightarrow> subscribed cnum conx m"
      using subscribed_hard [OF _ hard, of cnum "wa_ModuleContexts wa t" count m] by (auto simp: hard_upto_def)
    then show ?thesis
      unfolding c s using connected_result [OF assms(1)] by simp
  qed
  then show ?thesis by (simp add: t_def)
qed


section \<open>Disconnecting one of two objects\<close>

text \<open>
  When a client is connected to two objects on the same counter and nobody else uses that counter,
  disconnecting one of them switches the interrupt of the counter off, in the context and on the
  board, although the client is still connected to the other: it gets no more events from it.
\<close>

theorem disconnect_silences_others:
  assumes "module_ok m" and "i < CtrDrvrRamTableSIZE" "j < CtrDrvrRamTableSIZE" "i \<noteq> j" and "ci < CtrDrvrCLIENT_CONTEXTS"
    and "clss \<in> {CtrDrvrConnectionClassCTIM, CtrDrvrConnectionClassPTIM}"
    and "mc_Clients m i = cmask ci" "bit (mc_Clients m j) ci"
    and counter: "tr_Counter (mc_Trigs m i) = n" "tr_Counter (mc_Trigs m j) = n"
    and alone: "\<And>k c. k < CtrDrvrRamTableSIZE \<Longrightarrow> tr_Counter (mc_Trigs m k) = n \<Longrightarrow> bit (mc_Clients m k) c \<Longrightarrow> c = ci"
    and hard: "mc_HardClients m (unat n) = 0" "mc_HardClients m i = 0"
  shows "good (\<lambda>m'. bit (mc_Clients m' j) ci \<and> \<not> bit (mc_InterruptEnable m') (unat n) \<and>
      b_Mem (mc_Map m') R_InterruptEnable = mc_InterruptEnable m') (disconnect_slot i clss ci m)"
proof -
  define m1 where "m1 = m\<lparr> mc_Clients := (mc_Clients m)(i := mc_Clients m i AND NOT (cmask ci)) \<rparr>"
  have n: "unat n < 32" using assms(1,2) counter(1) tables_okD(2) [of m i] by (simp add: module_ok_def)
  have top: "\<not> unat (- 1 :: u32) < 32" by (simp add: unsigned_minus_1_eq_mask mask_eq_exp_minus_1)
  have "n \<noteq> - 1" using n top by auto
  have free: "mc_Clients m1 i = 0" using assms(7) by (simp add: m1_def)
  have "mc_Clients m1 k AND NOT (cmask ci) = 0" if "k < CtrDrvrRamTableSIZE" "tr_Counter (mc_Trigs m k) = n" for k
    using alone [OF that] by (auto simp: no_bits m1_def bit_and_not_cmask)
  then have "\<not> counter_shared m1 n (cmask ci)"
    by (auto simp: counter_shared_def list_ex_iff m1_def)
  then have d: "DisableInterrupts i clss ci m1 = Inr (mask_interrupt (2 ^ unat n) m1)"
    using hard counter(1) n \<open>n \<noteq> - 1\<close> assms(6) by (auto simp: DisableInterrupts_def shl1_counter m1_def ctr_classes)
  have e: "disconnect_slot i clss ci m = Inr (let m2 = mask_interrupt (2 ^ unat n) m1 in
      if mc_EqpClass m2 i = CtrDrvrConnectionClassCTIM then free_ctim_slot i m2 else m2\<lparr> mc_Map := clear_bus_bit i (mc_Map m2) \<rparr>)"
    unfolding disconnect_slot_def Let_def m1_def [symmetric] d using assms(5,7) free
    by (simp add: bit_exp_iff CtrDrvrCLIENT_CONTEXTS_def)
  show ?thesis
    unfolding e using assms(4,8)
    by (simp add: Let_def free_ctim_slot_def clear_bus_bit_def bit_and_not_cmask m1_def)
qed

section \<open>Examples\<close>

text \<open>One module, whose source 13 the client 0 is connected to, and that client open.\<close>

definition wa_open :: ctr_wa where
  "wa_open = wa_cli 0 (client_open 0 1 client_zero)
     (wa_mod 0 (module_blank\<lparr> mc_HardClients := (\<lambda>_. 0)(13 := 1) \<rparr>) (wa_blank\<lparr> wa_Modules := 1 \<rparr>))"

lemma wa_open_ok: "wa_ok wa_open" "cc_InUse (wa_ClientContexts wa_open 0) \<noteq> 0"
proof -
  have "module_ok (module_blank\<lparr> mc_HardClients := (\<lambda>_. 0)(13 := 1) \<rparr>)"
    using module_ok_blank by (simp add: module_ok_def del: module_ok_blank)
  moreover have "wa_ok (wa_blank\<lparr> wa_Modules := 1 \<rparr>)"
    using wa_ok_blank by (simp add: wa_ok_def CtrDrvrMODULE_CONTEXTS_def del: wa_ok_blank)
  moreover have "client_ok 0 (client_open 0 1 client_zero)"
    by (simp add: client_ok_def client_open_def client_zero_def CtrDrvrMODULE_CONTEXTS_def)
  ultimately show "wa_ok wa_open" unfolding wa_open_def by (intro wa_ok_cli wa_ok_mod)
  show "cc_InUse (wa_ClientContexts wa_open 0) \<noteq> 0" by (simp add: wa_open_def client_open_def)
qed


text \<open>A connection to the sources 12 and 13 of the first module.\<close>

definition conx_two :: CtrDrvrConnection where
  "conx_two = \<lparr> cx_Module = 1, cx_EqpClass = CtrDrvrConnectionClassHARD, cx_EqpNum = 0x3000 \<rparr>"


text \<open>Client 0 connected to the slots 0 and 1, which share the counter 0.\<close>

definition module_two :: ctr_module where
  "module_two = module_blank\<lparr> mc_EqpNum := (\<lambda>_. 0)(0 := 5, 1 := 6),
     mc_EqpClass := (\<lambda>_. 0)(0 := CtrDrvrConnectionClassPTIM, 1 := CtrDrvrConnectionClassPTIM),
     mc_Clients := (\<lambda>_. 0)(0 := 1, 1 := 1), mc_InterruptEnable := 1,
     mc_Map := board_blank\<lparr> b_Mem := (\<lambda>_. 0)(R_ConfigWord 0 := 2 ^ 30, R_ConfigWord 1 := 2 ^ 30, R_InterruptEnable := 1) \<rparr> \<rparr>"

lemma module_two_ok: "module_ok module_two"
proof -
  have "slot_ok module_two i" for i
    by (simp add: slot_ok_def module_two_def module_blank_def zero_trigger_def CtrDrvrCOUNTERS_def
        CtrDrvrCLIENT_CONTEXTS_def ctr_classes bit_1_iff bit_exp_iff del: power_numeral)
  then show ?thesis
    by (simp add: module_ok_def tables_ok_def mirrored_def module_two_def module_blank_def board_blank_def
        ram_is_memory_def ctr_classes)
qed

lemma disconnect_silences_others_witness:
  "bit (mc_InterruptEnable module_two) 0 \<and>
   good (\<lambda>m'. bit (mc_Clients m' 1) 0 \<and> \<not> bit (mc_InterruptEnable m') 0) (disconnect_slot 0 CtrDrvrConnectionClassPTIM 0 module_two)"
proof
  have "tr_Counter (mc_Trigs module_two i) = 0" for i by (simp add: module_two_def module_blank_def zero_trigger_def)
  then show "good (\<lambda>m'. bit (mc_Clients m' 1) 0 \<and> \<not> bit (mc_InterruptEnable m') 0) (disconnect_slot 0 CtrDrvrConnectionClassPTIM 0 module_two)"
    by (intro good_mono [OF disconnect_silences_others [OF module_two_ok, of 0 1 0 CtrDrvrConnectionClassPTIM 0]])
      (auto simp: module_two_def module_blank_def CtrDrvrRamTableSIZE_def CtrDrvrCLIENT_CONTEXTS_def bit_1_iff split: if_splits)
qed (simp add: module_two_def)

end
