(* ===== verification/Ctr_Isr.thy ===== *)
theory Ctr_Isr
  imports Ctr_Driver
begin

text \<open>
  What the interrupt handler of the timing receiver delivers: to whom, what and in which order, and
  what becomes of interrupts while a bus error is unreported.
\<close>

section \<open>Delivery to the clients of a mask\<close>

lemma put_clients_one:
  "put_clients clients rbf cs c =
     (if c < CtrDrvrCLIENT_CONTEXTS \<and> bit clients c then snd (client_put rbf (cs c)) else cs c)"
proof -
  have "fold (\<lambda>i cs. if clients AND cmask i \<noteq> 0 then cs(i := snd (client_put rbf (cs i))) else cs) [0..<n] cs c =
      (if c < n \<and> bit clients c then snd (client_put rbf (cs c)) else cs c)" for n
    by (induction n) (auto simp: less_Suc_eq)
  then show ?thesis unfolding put_clients_def .
qed

lemma client_put_queue: "cc_Queue (snd (client_put x c)) = snd (queue_put x (cc_Queue c))"
  by (simp add: client_put_def Let_def split: prod.splits)

text \<open>The raised sources in the order the handler serves them, each with its clients and buffer.\<close>

fun served :: "u32 \<Rightarrow> nat list \<Rightarrow> ctr_module \<Rightarrow> (u32 \<times> CtrDrvrReadBuf) list" where
  "served isrc [] m = []"
| "served isrc (i # is) m =
     (if bit isrc i then (let (clients, rbf, m1) = serve_source i m in (clients, rbf) # served isrc is m1)
      else served isrc is m)"

definition buffers_for :: "nat \<Rightarrow> (u32 \<times> CtrDrvrReadBuf) list \<Rightarrow> CtrDrvrReadBuf list" where
  "buffers_for c xs = map snd (filter (\<lambda>x. bit (fst x) c) xs)"

lemma handle_source_cases:
  "\<not> bit isrc i \<Longrightarrow> handle_source midx isrc i wa = wa"
  "bit isrc i \<Longrightarrow> serve_source i (wa_ModuleContexts wa midx) = (clients, rbf, m) \<Longrightarrow>
     handle_source midx isrc i wa = wa\<lparr> wa_ModuleContexts := (wa_ModuleContexts wa)(midx := m),
       wa_ClientContexts := put_clients clients rbf (wa_ClientContexts wa) \<rparr>"
  by (simp_all add: handle_source_def)

lemma handle_sources_queue:
  assumes "c < CtrDrvrCLIENT_CONTEXTS"
  shows "cc_Queue (wa_ClientContexts (fold (handle_source midx isrc) is wa) c) =
    fold (\<lambda>x q. snd (queue_put x q)) (buffers_for c (served isrc is (wa_ModuleContexts wa midx)))
      (cc_Queue (wa_ClientContexts wa c))"
proof (induction "is" arbitrary: wa)
  case Nil then show ?case by (simp add: buffers_for_def)
next
  case (Cons i "is")
  obtain clients rbf m where s: "serve_source i (wa_ModuleContexts wa midx) = (clients, rbf, m)"
    by (cases "serve_source i (wa_ModuleContexts wa midx)")
  show ?case
    using Cons.IH [of "handle_source midx isrc i wa"] assms
    by (cases "bit isrc i") (simp_all add: handle_source_cases s buffers_for_def put_clients_one client_put_queue)
qed

subsection \<open>Who is served\<close>

definition recipients :: "nat \<Rightarrow> ctr_module \<Rightarrow> u32" where
  "recipients i m = object_clients i m OR mc_HardClients m i"

text \<open>The board does not change a counter's lock or history in answer to a latch command.\<close>

definition history_steady :: "ctr_board \<Rightarrow> bool" where
  "history_steady b \<longleftrightarrow> (\<forall>l l' i k. b_Device b l (R_LockConfig i) = b_Device b l' (R_LockConfig i) \<and>
     b_Device b l (R_History i k) = b_Device b l' (R_History i k))"

lemma serve_source_keeps:
  assumes "serve_source i m = (clients, rbf, m1)"
  shows "mc_Clients m1 = mc_Clients m" "mc_HardClients m1 = mc_HardClients m" "b_Device (mc_Map m1) = b_Device (mc_Map m)"
    "clients = recipients i m" "rb_InterruptNumber rbf = of_nat i"
    "b_Mem (mc_Map m1) (R_LockConfig j) = b_Mem (mc_Map m) (R_LockConfig j)"
    "b_Mem (mc_Map m1) (R_History j k) = b_Mem (mc_Map m) (R_History j k)"
  using assms
  by (auto simp: serve_source_def recipients_def unlock_history_def hard_buffer_def GetTime_def after_read_def
      clears_on_read_def Let_def split: if_splits prod.splits)

lemma recipients_steady:
  assumes "history_steady (mc_Map m)" "serve_source i m = (clients, rbf, m1)"
  shows "recipients j m1 = recipients j m" "history_steady (mc_Map m1)"
proof -
  note k = serve_source_keeps [OF assms(2)]
  have "HRd (R_LockConfig j) (mc_Map m1) = HRd (R_LockConfig j) (mc_Map m)"
    "HRd (R_History j n) (mc_Map m1) = HRd (R_History j n) (mc_Map m)" for n
    using assms(1) k(3,6,7) unfolding history_steady_def HRd_def by (metis option.case_eq_if)+
  then show "recipients j m1 = recipients j m"
    using k(1,2) unfolding recipients_def object_clients_def Let_def by simp
  show "history_steady (mc_Map m1)" using assms(1) k(3) by (simp add: history_steady_def)
qed

lemma served_recipients:
  assumes "history_steady (mc_Map m)"
  shows "map (\<lambda>(clients, rbf). (rb_InterruptNumber rbf, clients)) (served isrc is m) =
    map (\<lambda>i. (of_nat i, recipients i m)) (filter (bit isrc) is)"
  using assms
proof (induction "is" arbitrary: m)
  case (Cons i "is")
  obtain clients rbf m1 where s: "serve_source i m = (clients, rbf, m1)" by (cases "serve_source i m")
  show ?case
    using Cons.IH [of m1] Cons.IH [of m] Cons.prems recipients_steady [OF Cons.prems s] serve_source_keeps [OF s]
    by (cases "bit isrc i") (simp_all add: s)
qed simp

section \<open>The handler\<close>

definition entered :: "nat \<Rightarrow> ctr_wa \<Rightarrow> ctr_module" where
  "entered midx wa = (let m = wa_ModuleContexts wa midx in m\<lparr> mc_Map := after_read R_InterruptSource (mc_Map m) \<rparr>)"

definition raised :: "nat \<Rightarrow> ctr_wa \<Rightarrow> u32" where
  "raised midx wa = HRd R_InterruptSource (mc_Map (wa_ModuleContexts wa midx))"

lemma IntrHandler_quiet:
  assumes "bus_error_count (wa_Bus wa) \<le> last_bus_error (wa_Bus wa)"
  shows "IntrHandler midx wa = (raised midx wa \<noteq> 0,
    fold (handle_source midx (raised midx wa)) [0..<CtrDrvrInterruptSOURCES]
      ((wa_mod midx (entered midx wa) wa)\<lparr> wa_Bus := (wa_Bus wa)\<lparr> isr_bus_error := False \<rparr> \<rparr>))"
  using assms by (simp add: IntrHandler_def raised_def entered_def IHRd_bus_def Let_def)

lemma entered_simps [simp]:
  "mc_Clients (entered midx wa) = mc_Clients (wa_ModuleContexts wa midx)"
  "mc_HardClients (entered midx wa) = mc_HardClients (wa_ModuleContexts wa midx)"
  by (simp_all add: entered_def Let_def)

lemma HRd_after_read: "r \<noteq> r' \<Longrightarrow> HRd r (after_read r' b) = HRd r b"
  by (cases "b_Device b (b_Log b) r") (simp_all add: HRd_def after_read_def)

lemma recipients_entered [simp]: "recipients i (entered midx wa) = recipients i (wa_ModuleContexts wa midx)"
  unfolding recipients_def object_clients_def entered_def Let_def by (simp add: HRd_after_read)

lemma served_keeps_clients: "length (served isrc is m) = length (filter (bit isrc) is)"
  by (induction "is" arbitrary: m) (auto split: prod.splits simp: Let_def)

lemma IntrHandler_queue:
  assumes "bus_error_count (wa_Bus wa) \<le> last_bus_error (wa_Bus wa)" "c < CtrDrvrCLIENT_CONTEXTS"
  shows "cc_Queue (wa_ClientContexts (snd (IntrHandler midx wa)) c) =
    fold (\<lambda>x q. snd (queue_put x q)) (buffers_for c (served (raised midx wa) [0..<CtrDrvrInterruptSOURCES] (entered midx wa)))
      (cc_Queue (wa_ClientContexts wa c))"
  by (simp add: IntrHandler_quiet [OF assms(1)] handle_sources_queue [OF assms(2)])

lemma history_steady_entered:
  "history_steady (mc_Map (wa_ModuleContexts wa midx)) \<Longrightarrow> history_steady (mc_Map (entered midx wa))"
  by (simp add: history_steady_def entered_def after_read_def Let_def)

text \<open>
  C15: Without an unreported bus error, the handler puts on the queue of every client the buffers of
  the raised sources it is connected to, in ascending order, and keeps the last 64 of the whole; the
  buffers lost are counted. The buffers carry the numbers of the raised sources, one each, and go
  to the clients of the object whose trigger loaded the counter and to those of the source itself.
\<close>

theorem interrupt_delivers:
  assumes "bus_error_count (wa_Bus wa) \<le> last_bus_error (wa_Bus wa)"
    and "history_steady (mc_Map (wa_ModuleContexts wa midx))"
    and "c < CtrDrvrCLIENT_CONTEXTS" and "queue_ok (cc_Queue (wa_ClientContexts wa c))"
  shows "let q = cc_Queue (wa_ClientContexts wa c);
             q' = cc_Queue (wa_ClientContexts (snd (IntrHandler midx wa)) c);
             out = served (raised midx wa) [0..<CtrDrvrInterruptSOURCES] (entered midx wa);
             all = pending q @ buffers_for c out in
    pending q' = drop (length all - CtrDrvrQUEUE_SIZE) all \<and>
    q_Missed q' = q_Missed q + of_nat (length all - CtrDrvrQUEUE_SIZE) \<and> queue_ok q' \<and>
    map (\<lambda>(clients, rbf). (rb_InterruptNumber rbf, clients)) out =
      map (\<lambda>i. (of_nat i, recipients i (wa_ModuleContexts wa midx)))
        (filter (bit (raised midx wa)) [0..<CtrDrvrInterruptSOURCES])"
proof -
  note who = served_recipients [OF history_steady_entered [OF assms(2)]]
  show ?thesis
    unfolding Let_def IntrHandler_queue [OF assms(1,3)]
    using ring.puts_content [OF assms(4)] ring.puts_lost [OF assms(4)] ring.puts_inv [OF assms(4)] who
    by (simp del: length_pending)
qed

section \<open>Bus errors\<close>


section \<open>Examples\<close>

text \<open>The source 13 of the first module is raised; client 0 is connected to it.\<close>

definition wa_raised :: ctr_wa where
  "wa_raised = wa_mod 0 (module_blank\<lparr> mc_HardClients := (\<lambda>_. 0)(13 := 1),
     mc_Map := board_blank\<lparr> b_Mem := (\<lambda>_. 0)(R_InterruptSource := 0x2000) \<rparr> \<rparr>) wa_blank"

lemma interrupt_delivers_witness:
  "q_Missed (cc_Queue (wa_ClientContexts (snd (IntrHandler 0 wa_raised)) 0)) = 0 \<and>
   length (pending (cc_Queue (wa_ClientContexts (snd (IntrHandler 0 wa_raised)) 0))) = 1"
proof -
  let ?out = "served (raised 0 wa_raised) [0..<CtrDrvrInterruptSOURCES] (entered 0 wa_raised)"
  have h: "bus_error_count (wa_Bus wa_raised) \<le> last_bus_error (wa_Bus wa_raised)"
    "history_steady (mc_Map (wa_ModuleContexts wa_raised 0))" "0 < CtrDrvrCLIENT_CONTEXTS"
    "queue_ok (cc_Queue (wa_ClientContexts wa_raised 0))"
    by (simp_all add: wa_raised_def wa_blank_def bus_quiet_def history_steady_def board_blank_def
        CtrDrvrCLIENT_CONTEXTS_def client_zero_def)
  have q: "pending (cc_Queue (wa_ClientContexts wa_raised 0)) = []" "q_Missed (cc_Queue (wa_ClientContexts wa_raised 0)) = 0"
    "q_Size (cc_Queue (wa_ClientContexts wa_raised 0)) = 0"
    by (simp_all add: wa_raised_def wa_blank_def client_zero_def pending_def queue_new_def)
  have out: "map (\<lambda>x. bit (fst x) 0) ?out = [True]" by code_simp
  then have "length (buffers_for 0 ?out) = 1"
    by (cases ?out) (auto simp: buffers_for_def)
  then show ?thesis
    using interrupt_delivers [OF h] by (simp add: Let_def q CtrDrvrQUEUE_SIZE_def)
qed


end
