(* ===== verification/Ctr_Ioctl.thy ===== *)
theory Ctr_Ioctl
  imports Ctr_Driver
begin

text \<open>
  \<^verbatim>\<open>CtrDrvrIoctl\<close> of ctrdrvr-vme.c, in four groups: what a client asks about itself, what it asks of
  the module it has selected, the tables of that module, and the objects of the driver. No bus
  error occurs while a command runs; the counters are fetched and cleared when it starts. A command
  that sleeps, waiting for the board to recover, is run as if nothing else happened meanwhile.
\<close>

section \<open>Replies\<close>

datatype ctr_reply =
    Reply_OK
  | Reply_Long u32
  | Reply_Words "u32 list"
  | Reply_Address CtrDrvrModuleAddress
  | Reply_Time CtrDrvrCTime
  | Reply_Ns int
  | Reply_Version u32 u32 u32
  | Reply_Mask u32 u32
  | Reply_Config CtrDrvrCounterConfiguration
  | Reply_Hptdc "HptdcRegisterVlaue list"
  | Reply_Action CtrDrvrAction
  | Reply_Ctim "CtrDrvrCtimBinding list"
  | Reply_Ptim "CtrDrvrPtimBinding list"
  | Reply_Connections "CtrDrvrConnection list"

type_synonym reply = "errno + ctr_reply"

section \<open>The client itself\<close>

datatype client_cmd =
    SET_SW_DEBUG u32 | GET_SW_DEBUG | SET_TIMEOUT u32 | GET_TIMEOUT
  | SET_QUEUE_FLAG u32 | GET_QUEUE_FLAG | GET_QUEUE_SIZE | GET_QUEUE_OVERFLOW | GET_MODULE

definition CtrDrvrDEBUG_ISR :: u32 where "CtrDrvrDEBUG_ISR = 0xFFFF"

fun client_ioctl :: "client_cmd \<Rightarrow> ctr_client \<Rightarrow> ctr_reply \<times> ctr_client" where
  "client_ioctl (SET_SW_DEBUG v) c = (Reply_OK, c\<lparr> cc_DebugOn := (if v = CtrDrvrDEBUG_ISR then 0 else v) \<rparr>)"
| "client_ioctl GET_SW_DEBUG c = (Reply_Long (cc_DebugOn c), c)"
| "client_ioctl (SET_TIMEOUT v) c = (Reply_OK, c\<lparr> cc_Timeout := v \<rparr>)"
| "client_ioctl GET_TIMEOUT c = (Reply_Long (cc_Timeout c), c)"
| "client_ioctl (SET_QUEUE_FLAG v) c = (Reply_OK, c\<lparr> cc_Queue := (cc_Queue c)\<lparr> q_QueueOff := (if v \<noteq> 0 then 1 else 0) \<rparr> \<rparr>)"
| "client_ioctl GET_QUEUE_FLAG c = (Reply_Long (ucast (q_QueueOff (cc_Queue c))), c)"
| "client_ioctl GET_QUEUE_SIZE c = (Reply_Long (of_nat (q_Size (cc_Queue c))), c)"
| "client_ioctl GET_QUEUE_OVERFLOW c =
     (Reply_Long (ucast (q_Missed (cc_Queue c))), c\<lparr> cc_Queue := (cc_Queue c)\<lparr> q_Missed := 0 \<rparr> \<rparr>)"
| "client_ioctl GET_MODULE c = (Reply_Long (of_nat (cc_ModuleIndex c) + 1), c)"

text \<open>\<^verbatim>\<open>debug_isr\<close>, a variable of the driver, follows the last value set by any client.\<close>

definition debug_isr_after :: "client_cmd \<Rightarrow> bool \<Rightarrow> bool" where
  "debug_isr_after cmd d = (case cmd of SET_SW_DEBUG v \<Rightarrow> v = CtrDrvrDEBUG_ISR | _ \<Rightarrow> d)"

section \<open>The board of the selected module\<close>

datatype board_cmd =
    GET_VERSION | GET_MODULE_DESCRIPTOR | LOCK | UNLOCK u32 | GET_STATUS | SET_UTC u32 | GET_UTC
  | GET_CABLE_ID | SET_CABLE_ID u32 | JTAG_OPEN | JTAG_READ_BYTE "16 word" | JTAG_WRITE_BYTE "16 word"
  | HPTDC_OPEN | HPTDC_CLOSE
  | HPTDC_IO u32 "HptdcRegisterVlaue list" bool bool
  | RAW_READ nat nat | RAW_WRITE nat "u32 list"
  | GET_OUTPUT_BYTE | SET_OUTPUT_BYTE i32 | ENABLE u32 | SET_DEBUG_HISTORY u32 | SET_BRUTAL_PLL u32
  | GET_INPUT_DELAY | SET_INPUT_DELAY u32 | GET_REMOTE nat | SET_REMOTE nat u32 | REMOTE nat u32
  | GET_MODULE_STATS | GET_OUT_MASK nat | SET_OUT_MASK nat u32 u32 | GET_CONFIG nat
  | SET_CONFIG nat CtrDrvrCounterConfiguration | GET_COUNTER_HISTORY nat | GET_PLL | SET_PLL "u32 list"
  | GET_PLL_ASYNC_PERIOD | SET_PLL_ASYNC_PERIOD int | READ_TELEGRAM nat | READ_EVENT_HISTORY
  | GET_RECEPTION_ERRORS | GET_IO_STATUS | GET_IDENTITY

subsection \<open>Version, status, time\<close>

text \<open>
  The date the driver was compiled is a constant of the build. The function always returns OK, so
  the branches of its callers for a module that does not answer are never taken.
\<close>

definition GetVersion :: "u32 \<Rightarrow> ctr_board \<Rightarrow> ctr_reply" where
  "GetVersion compile_time b =
     (let stat = HRd R_Status b AND CtrDrvrTypeStatusMask;
          hw = (if stat = CtrDrvrTypeStatusMask then CtrDrvrHardwareTypeNONE
                else if stat AND CtrDrvrStatusCTRV \<noteq> 0 then CtrDrvrHardwareTypeCTRV
                else if stat AND CtrDrvrStatusCTRP \<noteq> 0 then CtrDrvrHardwareTypeCTRP
                else if stat AND CtrDrvrStatusCTRI \<noteq> 0 then CtrDrvrHardwareTypeCTRI
                else CtrDrvrHardwareTypeNONE) in
      Reply_Version (HRd R_VhdlVersion b) compile_time hw)"

text \<open>The bus errors have been fetched into the context when the command starts.\<close>

definition GetStatus :: "ctr_module \<Rightarrow> u32 \<times> ctr_module" where
  "GetStatus m =
     (let st = (if mc_BusErrorCount m \<noteq> 0 then mc_Status m AND NOT CtrDrvrStatusNO_BUS_ERROR
                else mc_Status m OR CtrDrvrStatusNO_BUS_ERROR) in
      ((HRd R_Status (mc_Map m) AND CtrDrvrHwStatusMASK) OR (st AND NOT CtrDrvrHwStatusMASK),
       m\<lparr> mc_Status := st, mc_BusErrorCount := 0 \<rparr>))"

definition SetTime :: "u32 \<Rightarrow> ctr_board \<Rightarrow> ctr_board" where
  "SetTime tod b = HWr CtrDrvrCommandSET_UTC R_Command (HWr tod R_SetTime b)"

text \<open>The sum of the eight digits of the password.\<close>

definition clr_uplock :: "u32 \<Rightarrow> ctr_module \<Rightarrow> ctr_module" where
  "clr_uplock pw m =
     (let ck = fold (\<lambda>i ck. ck + (drop_bit (4 * i) pw AND 0xF)) [0..<8] 0 in
      if ck = 0x24 then m\<lparr> mc_UpLock := 0 \<rparr> else m)"

subsection \<open>Raw access\<close>

text \<open>The window has \<open>16384\<close> words; C does not check the offset.\<close>

definition reg_word :: "nat \<Rightarrow> ctr_reg result" where
  "reg_word j = (if j < 16384 then Inr (reg_at j) else Inl Out_of_bounds)"

fun raw_read :: "nat \<Rightarrow> nat \<Rightarrow> ctr_board \<Rightarrow> (u32 list \<times> ctr_board) result" where
  "raw_read j 0 b = Inr ([], b)"
| "raw_read j (Suc n) b = bind_r (reg_word j) (\<lambda>r.
     bind_r (raw_read (j + 1) n (after_read r b)) (\<lambda>(ws, b1). Inr (HRd r b # ws, b1)))"

fun raw_write :: "nat \<Rightarrow> u32 list \<Rightarrow> ctr_board \<Rightarrow> ctr_board result" where
  "raw_write j [] b = Inr b"
| "raw_write j (w # ws) b = bind_r (reg_word j) (\<lambda>r. raw_write (j + 1) ws (HWr w r b))"

subsection \<open>Reset\<close>

definition CtrDrvr_PLL_KP :: u32 where "CtrDrvr_PLL_KP = 337326"
definition CtrDrvr_PLL_KI :: u32 where "CtrDrvr_PLL_KI = 901"
definition CtrDrvr_PLL_NumAverage :: u32 where "CtrDrvr_PLL_NumAverage = 100"
definition CtrDrvr_PLL_Phase :: u32 where "CtrDrvr_PLL_Phase = 1950"

definition pll_regs :: "ctr_reg list" where "pll_regs = map R_Pll [0..<8]"

text \<open>The defaults are set when the proportional constant is zero: the words Phase, NumAverage, KP, KI.\<close>

definition pll_defaults :: "u32 list \<Rightarrow> u32 list" where
  "pll_defaults ws =
     (if ws ! 6 = 0 then ws[6 := CtrDrvr_PLL_KP, 7 := CtrDrvr_PLL_KI, 5 := CtrDrvr_PLL_NumAverage, 4 := CtrDrvr_PLL_Phase] else ws)"

definition default_out_mask :: "nat \<Rightarrow> ctr_board \<Rightarrow> ctr_board" where
  "default_out_mask i b =
     (if HRd (R_RemOutMask i) b = 0 then HWr (AutoShiftLeft CtrDrvrCntrCntrlOUT_MASK (push_bit i 1)) (R_RemOutMask i) b else b)"

definition output_byte_word :: "u32 \<Rightarrow> u32" where
  "output_byte_word n = 0x100 OR (if n \<noteq> 0 then push_bit (unat (n - 1)) 1 else 0)"

text \<open>
  The first half, up to the sleep: the handle of the timer is unsigned, so a failed \<^verbatim>\<open>timeout\<close> is taken
  for a handle, and the task would sleep for ever.
\<close>

definition reset_begin :: "nat \<Rightarrow> ctr_module \<Rightarrow> lynxos_timers \<Rightarrow> ctr_module \<times> lynxos_timers" where
  "reset_begin midx m ts =
     (let (tm, ts1) = timeout (Call_ResetTimeout midx) ts in
      (m\<lparr> mc_Map := HWr CtrDrvrCommandRESET R_Command (mc_Map m),
          mc_Status := CtrDrvrStatusNO_LOST_INTERRUPTS OR CtrDrvrStatusNO_BUS_ERROR, mc_BusErrorCount := 0,
          mc_Semaphore := snd (sreset (mc_Semaphore m)), mc_Timer := tm \<rparr>, ts1))"

definition ResetTimeout :: "ctr_module \<Rightarrow> ctr_module" where
  "ResetTimeout m = m\<lparr> mc_Timer := 0, mc_Semaphore := snd (sreset (mc_Semaphore m)) \<rparr>"

definition reset_end :: "ctr_module \<Rightarrow> ctr_module" where
  "reset_end m =
     (let cmd = mc_Command m AND NOT CtrDrvrCommandSET_HPTDC; pll = pll_defaults (mc_Pll m); a = mc_Address m;
          b1 = HWr cmd R_Command (mc_Map m);
          b2 = fold default_out_mask [CtrDrvrCounter1..<CtrDrvrCounter8 + 1] b1;
          b3 = HWr (output_byte_word (mc_OutputByte m)) R_OutputByte b2;
          b4 = HWr (push_bit 8 (ma_InterruptLevel a) OR (ma_InterruptVector a AND 0xFF)) R_Setup b3;
          b5 = Io32Write pll_regs pll b4;
          m1 = EnableInterrupts (mc_InterruptEnable m) (m\<lparr> mc_Command := cmd, mc_Pll := pll, mc_Map := b5 \<rparr>) in
      m1\<lparr> mc_Map := HptdcStateReset (mc_Map m1) \<rparr>)"

text \<open>The whole, when the timer expires during the sleep and gives its slot back.\<close>

definition Reset :: "nat \<Rightarrow> ctr_module \<Rightarrow> lynxos_timers \<Rightarrow> (ctr_module \<times> lynxos_timers) result" where
  "Reset midx m ts =
     (if free_timer 0 ts = None then Inl Blocked
      else let (m1, ts1) = reset_begin midx m ts in
        Inr (reset_end (ResetTimeout m1), cancel_timeout (mc_Timer m1) ts1))"

text \<open>\<^verbatim>\<open>JTAG_CLOSE\<close> sleeps in the same way, and enables the interrupts again.\<close>

definition jtag_close :: "nat \<Rightarrow> ctr_module \<Rightarrow> lynxos_timers \<Rightarrow> (ctr_module \<times> lynxos_timers) result" where
  "jtag_close midx m ts =
     (if free_timer 0 ts = None then Inl Blocked
      else let (tm, ts1) = timeout (Call_ResetTimeout midx) ts;
               m1 = ResetTimeout (m\<lparr> mc_Semaphore := snd (sreset (mc_Semaphore m)), mc_Timer := tm \<rparr>);
               m2 = EnableInterrupts 0 m1 in
        Inr (m2\<lparr> mc_FlashOpen := 0, mc_IrqBalance := (if mc_IrqBalance m2 = 0 then 1 else mc_IrqBalance m2) \<rparr>, cancel_timeout tm ts1))"

subsection \<open>The commands\<close>

text \<open>A bit of the command word that is set and one that is cleared, and the write to the board.\<close>

definition set_command :: "u32 \<Rightarrow> u32 \<Rightarrow> ctr_module \<Rightarrow> ctr_module" where
  "set_command on off m =
     (let cmd = (mc_Command m OR on) AND NOT off in
      m\<lparr> mc_Command := cmd, mc_Map := HWr cmd R_Command (mc_Map m) \<rparr>)"

definition counter_1_8 :: "nat \<Rightarrow> bool" where
  "counter_1_8 c \<longleftrightarrow> CtrDrvrCounter1 \<le> c \<and> c \<le> CtrDrvrCounter8"

text \<open>The configuration of a counter as the board has it, unless a field of it is not a value of the API.\<close>

definition counter_config :: "nat \<Rightarrow> ctr_board \<Rightarrow> reply" where
  "counter_config c b =
     (let f = HardToConfig \<lparr> hc_Config = HRd (R_CounterConfig c) b, hc_Delay = HRd (R_CounterDelay c) b \<rparr> in
      if cf_OnZero f > (CtrDrvrCounterOnZeroBUS OR CtrDrvrCounterOnZeroOUT) \<or> cf_Start f > CtrDrvrCounterSTARTS \<or>
         cf_Mode f > CtrDrvrCounterMODES \<or> cf_Clock f > CtrDrvrCounterCLOCKS
      then Inl EFAULT else Inr (Reply_Config f))"

text \<open>The commands that do nothing but look, at the context or at the board.\<close>

definition out_mask :: "nat \<Rightarrow> ctr_board \<Rightarrow> ctr_reply" where
  "out_mask c b =
     (let msk = HRd (R_RemOutMask c) b in
      Reply_Mask (AutoShiftRight CtrDrvrCntrCntrlOUT_MASK (msk AND NOT CtrDrvrCntrCntrlTTL_BAR))
        (if CtrDrvrCntrCntrlTTL_BAR AND msk \<noteq> 0 then CtrDrvrPolarityTTL_BAR else CtrDrvrPolarityTTL))"

definition out_mask_word :: "nat \<Rightarrow> u32 \<Rightarrow> u32 \<Rightarrow> u32" where
  "out_mask_word c msk pol =
     AutoShiftLeft CtrDrvrCntrCntrlOUT_MASK (if msk = 0 then push_bit c 1 else msk) OR
     (if pol = CtrDrvrPolarityTTL_BAR then CtrDrvrCntrCntrlTTL_BAR else 0)"

fun checks_lock :: "board_cmd \<Rightarrow> bool" where
  "checks_lock (SET_UTC _) = True" | "checks_lock (SET_CABLE_ID _) = True" | "checks_lock JTAG_OPEN = True"
| "checks_lock (JTAG_READ_BYTE _) = True" | "checks_lock (JTAG_WRITE_BYTE _) = True"
| "checks_lock HPTDC_OPEN = True" | "checks_lock HPTDC_CLOSE = True" | "checks_lock (HPTDC_IO _ _ _ _) = True"
| "checks_lock (RAW_READ _ _) = True" | "checks_lock (RAW_WRITE _ _) = True"
| "checks_lock (SET_OUTPUT_BYTE _) = True" | "checks_lock (ENABLE _) = True"
| "checks_lock (SET_DEBUG_HISTORY _) = True" | "checks_lock (SET_BRUTAL_PLL _) = True"
| "checks_lock (SET_INPUT_DELAY _) = True" | "checks_lock (SET_REMOTE _ _) = True" | "checks_lock (REMOTE _ _) = True"
| "checks_lock (SET_OUT_MASK _ _ _) = True" | "checks_lock (SET_CONFIG _ _) = True" | "checks_lock (SET_PLL _) = True"
| "checks_lock (SET_PLL_ASYNC_PERIOD _) = True" | "checks_lock _ = False"

definition telegram_words :: nat where "telegram_words = 32"

text \<open>
  One command. The value that the JTAG port shows comes with \<^verbatim>\<open>JTAG_READ_BYTE\<close>: the port is not part
  of the window. \<^verbatim>\<open>SET_CONFIG\<close> looks at the lock of the counter before it checks its number.
\<close>

fun board_ioctl :: "u32 \<Rightarrow> board_cmd \<Rightarrow> ctr_module \<Rightarrow> (reply \<times> ctr_module) result" where
  "board_ioctl ct GET_VERSION m = Inr (Inr (GetVersion ct (mc_Map m)), m)"
| "board_ioctl ct GET_MODULE_DESCRIPTOR m = Inr (Inr (Reply_Address (mc_Address m)), m)"
| "board_ioctl ct LOCK m = Inr (Inr Reply_OK, m\<lparr> mc_UpLock := 1 \<rparr>)"
| "board_ioctl ct (UNLOCK pw) m = Inr (Inr Reply_OK, clr_uplock pw m)"
| "board_ioctl ct GET_STATUS m = (let (st, m1) = GetStatus m in Inr (if st \<noteq> - 1 then Inr (Reply_Long st) else Inl EINVAL, m1))"
| "board_ioctl ct (SET_UTC v) m = Inr (Inr Reply_OK, m\<lparr> mc_Map := SetTime v (mc_Map m) \<rparr>)"
| "board_ioctl ct GET_UTC m = (let (t, b) = GetTime (mc_Map m) in Inr (Inr (Reply_Time t), m\<lparr> mc_Map := b \<rparr>))"
| "board_ioctl ct GET_CABLE_ID m =
     Inr (Inr (Reply_Long (if mc_CableId m \<noteq> 0 then mc_CableId m else HRd R_CableId (mc_Map m))), m)"
| "board_ioctl ct (SET_CABLE_ID v) m = Inr (Inr Reply_OK, m\<lparr> mc_CableId := v \<rparr>)"
| "board_ioctl ct JTAG_OPEN m =
     (let m1 = m\<lparr> mc_IrqBalance := (if mc_IrqBalance m = 1 then 0 else mc_IrqBalance m) \<rparr> in
      Inr (if ma_JTGAddress (mc_Address m) \<noteq> 0 then (Inr Reply_OK, m1\<lparr> mc_FlashOpen := 1 \<rparr>)
           else (Inl EINVAL, m1\<lparr> mc_FlashOpen := 0 \<rparr>)))"
| "board_ioctl ct (JTAG_READ_BYTE v) m =
     Inr (if mc_FlashOpen m \<noteq> 0 then Inr (Reply_Long (0xFF AND scast v)) else Inl EBUSY, m)"
| "board_ioctl ct (JTAG_WRITE_BYTE v) m = Inr (if mc_FlashOpen m \<noteq> 0 then Inr Reply_OK else Inl EBUSY, m)"
| "board_ioctl ct HPTDC_OPEN m = Inr (Inr Reply_OK, m\<lparr> mc_HptdcOpen := 1 \<rparr>)"
| "board_ioctl ct HPTDC_CLOSE m = Inr (Inr Reply_OK, m\<lparr> mc_HptdcOpen := 0 \<rparr>)"
| "board_ioctl ct (HPTDC_IO cmd wreg pflg rflg) m =
     (if mc_HptdcOpen m = 0 then Inr (Inl EINVAL, m)
      else let (rreg, b) = HptdcCommand cmd wreg pflg rflg (mc_Map m) in Inr (Inr (Reply_Hptdc rreg), m\<lparr> mc_Map := b \<rparr>))"
| "board_ioctl ct (RAW_READ off n) m =
     bind_r (raw_read off n (mc_Map m)) (\<lambda>(ws, b). Inr (Inr (Reply_Words ws), m\<lparr> mc_Map := b \<rparr>))"
| "board_ioctl ct (RAW_WRITE off ws) m =
     bind_r (raw_write off ws (mc_Map m)) (\<lambda>b. Inr (Inr Reply_OK, m\<lparr> mc_Map := b \<rparr>))"
| "board_ioctl ct GET_OUTPUT_BYTE m = Inr (Inr (Reply_Long (HRd R_OutputByte (mc_Map m) AND 0xFF)), m)"
| "board_ioctl ct (SET_OUTPUT_BYTE v) m =
     Inr (if 0 \<le> sint v \<and> sint v \<le> 8
          then (Inr Reply_OK, m\<lparr> mc_OutputByte := v, mc_Map := HWr (output_byte_word v) R_OutputByte (mc_Map m) \<rparr>)
          else (Inl EINVAL, m))"
| "board_ioctl ct (ENABLE v) m =
     Inr (Inr Reply_OK,
       if v = CtrDrvrCommandSET_HPTDC then set_command CtrDrvrCommandSET_HPTDC 0 m
       else if v = NOT CtrDrvrCommandSET_HPTDC then set_command 0 CtrDrvrCommandSET_HPTDC m
       else if v \<noteq> 0 then set_command CtrDrvrCommandENABLE CtrDrvrCommandDISABLE m
       else set_command CtrDrvrCommandDISABLE CtrDrvrCommandENABLE m)"
| "board_ioctl ct (SET_DEBUG_HISTORY v) m =
     Inr (Inr Reply_OK, if v \<noteq> 0 then set_command CtrDrvrCommandDebugHisOn CtrDrvrCommandDebugHisOff m
                        else set_command CtrDrvrCommandDebugHisOff CtrDrvrCommandDebugHisOn m)"
| "board_ioctl ct (SET_BRUTAL_PLL v) m =
     Inr (Inr Reply_OK, if v \<noteq> 0 then set_command CtrDrvrCommandUtcPllOff CtrDrvrCommandUtcPllOn m
                        else set_command CtrDrvrCommandUtcPllOn CtrDrvrCommandUtcPllOff m)"
| "board_ioctl ct GET_INPUT_DELAY m = Inr (Inr (Reply_Long (HRd R_InputDelay (mc_Map m))), m)"
| "board_ioctl ct (SET_INPUT_DELAY v) m =
     Inr (Inr Reply_OK, m\<lparr> mc_Map := HWr v R_InputDelay (mc_Map m), mc_InputDelay := v \<rparr>)"
| "board_ioctl ct (GET_REMOTE c) m =
     Inr (if counter_1_8 c then Inr (Reply_Long (HRd (R_LockConfig c) (mc_Map m))) else Inl EINVAL, m)"
| "board_ioctl ct (SET_REMOTE c v) m =
     Inr (if counter_1_8 c then (Inr Reply_OK, m\<lparr> mc_Map := HWr (if v \<noteq> 0 then 1 else 0) (R_LockConfig c) (mc_Map m) \<rparr>)
          else (Inl EINVAL, m))"
| "board_ioctl ct (REMOTE c v) m =
     Inr (if counter_1_8 c \<and> HRd (R_LockConfig c) (mc_Map m) \<noteq> 0
          then (Inr Reply_OK, m\<lparr> mc_Map := HWr (CtrDrvrRemoteEXEC OR (CtrDrvrCntrCntrlREMOTE_MASK AND v)) (R_RemOutMask c) (mc_Map m) \<rparr>)
          else (Inl EINVAL, m))"
| "board_ioctl ct GET_MODULE_STATS m = Inr (Inr (Reply_Words (Io32Read (map R_ModStats [0..<22]) (mc_Map m))), m)"
| "board_ioctl ct (GET_OUT_MASK c) m = Inr (if counter_1_8 c then Inr (out_mask c (mc_Map m)) else Inl EINVAL, m)"
| "board_ioctl ct (SET_OUT_MASK c msk pol) m =
     Inr (if counter_1_8 c then (Inr Reply_OK, m\<lparr> mc_Map := HWr (out_mask_word c msk pol) (R_RemOutMask c) (mc_Map m) \<rparr>)
          else (Inl EINVAL, m))"
| "board_ioctl ct (GET_CONFIG c) m = Inr (if c \<le> CtrDrvrCounter8 then counter_config c (mc_Map m) else Inl EINVAL, m)"
| "board_ioctl ct (SET_CONFIG c f) m =
     (if c > CtrDrvrCounter8 then Inl Out_of_bounds
      else if HRd (R_LockConfig c) (mc_Map m) = 0 then Inr (Inl EINVAL, m)
      else let h = ConfigToHard f in
        Inr (Inr Reply_OK, m\<lparr> mc_Map := Io32Write [R_CounterConfig c, R_CounterDelay c] [hc_Config h, hc_Delay h] (mc_Map m) \<rparr>))"
| "board_ioctl ct (GET_COUNTER_HISTORY c) m =
     Inr (if counter_1_8 c then Inr (Reply_Words (Io32Read (map (R_History c) [0..<11]) (mc_Map m))) else Inl EINVAL, m)"
| "board_ioctl ct GET_PLL m = Inr (Inr (Reply_Words (Io32Read pll_regs (mc_Map m))), m)"
| "board_ioctl ct (SET_PLL ws) m = Inr (Inr Reply_OK, m\<lparr> mc_Map := Io32Write pll_regs ws (mc_Map m), mc_Pll := ws \<rparr>)"
| "board_ioctl ct GET_PLL_ASYNC_PERIOD m =
     (let p = (if mc_PllAsyncPeriodNs m \<noteq> 0 then mc_PllAsyncPeriodNs m else 25) in
      Inr (Inr (Reply_Ns p), m\<lparr> mc_PllAsyncPeriodNs := p \<rparr>))"
| "board_ioctl ct (SET_PLL_ASYNC_PERIOD v) m = Inr (Inr (Reply_Ns (mc_PllAsyncPeriodNs m)), m)"
| "board_ioctl ct (READ_TELEGRAM n) m =
     Inr (if 0 < n \<and> n \<le> unat CtrDrvrMachineMACHINES
          then Inr (Reply_Words (SwapWords (Io32Read (map (R_Telegram (n - 1)) [0..<telegram_words]) (mc_Map m))))
          else Inl EINVAL, m)"
| "board_ioctl ct READ_EVENT_HISTORY m = Inr (Inr (Reply_Words (Io32Read (map R_EventHistory [0..<4097]) (mc_Map m))), m)"
| "board_ioctl ct GET_RECEPTION_ERRORS m =
     Inr (Inr (Reply_Words (Io32Read [R_LastReset, R_PartityErrs, R_SyncErrs, R_TotalErrs, R_CodeViolErrs, R_QueueErrs] (mc_Map m))), m)"
| "board_ioctl ct GET_IO_STATUS m = Inr (Inr (Reply_Long (HRd R_IoStat (mc_Map m))), m)"
| "board_ioctl ct GET_IDENTITY m = Inr (Inr (Reply_Words (Io32Read [R_IdLSL, R_IdMSL] (mc_Map m))), m)"

section \<open>The tables of a module\<close>

definition get_action :: "nat \<Rightarrow> ctr_module \<Rightarrow> CtrDrvrAction" where
  "get_action i m =
     \<lparr> ac_TriggerNumber = of_nat i + 1, ac_EqpNum = mc_EqpNum m i, ac_EqpClass = mc_EqpClass m i,
       ac_Trigger = (HardToTrigger (read_trigger i (mc_Map m)))\<lparr> tr_Ctim := tr_Ctim (mc_Trigs m i) \<rparr>,
       ac_Config = HardToConfig (read_config i (mc_Map m)) \<rparr>"

text \<open>A slot may be given an action when it has the same object, class and counter, or none.\<close>

definition action_allowed :: "CtrDrvrAction \<Rightarrow> nat \<Rightarrow> ctr_module \<Rightarrow> bool" where
  "action_allowed act i m \<longleftrightarrow> mc_EqpClass m i \<noteq> CtrDrvrConnectionClassHARD \<and>
     (mc_EqpNum m i \<noteq> 0 \<longrightarrow> mc_EqpNum m i = ac_EqpNum act \<and> mc_EqpClass m i = ac_EqpClass act \<and>
        tr_Counter (mc_Trigs m i) = tr_Counter (ac_Trigger act))"

definition config_for_clients :: "u32 \<Rightarrow> CtrDrvrCounterConfiguration \<Rightarrow> CtrDrvrCounterConfiguration" where
  "config_for_clients clients f =
     f\<lparr> cf_OnZero := (if clients \<noteq> 0 then cf_OnZero f OR CtrDrvrCounterOnZeroBUS else cf_OnZero f AND NOT CtrDrvrCounterOnZeroBUS) \<rparr>"

definition set_action :: "CtrDrvrAction \<Rightarrow> nat \<Rightarrow> ctr_module \<Rightarrow> ctr_module" where
  "set_action act i m =
     (let f = config_for_clients (mc_Clients m i) (ac_Config act);
          m1 = (if mc_EqpNum m i \<noteq> 0 then m
                else m\<lparr> mc_EqpNum := (mc_EqpNum m)(i := ac_EqpNum act), mc_EqpClass := (mc_EqpClass m)(i := ac_EqpClass act) \<rparr>) in
      m1\<lparr> mc_Trigs := (mc_Trigs m)(i := ac_Trigger act), mc_Configs := (mc_Configs m)(i := f),
          mc_Map := write_config i (ConfigToHard f) (write_trigger i (TriggerToHard (ac_Trigger act)) (mc_Map m)) \<rparr>)"

definition slot_of_trigger :: "u32 \<Rightarrow> nat option" where
  "slot_of_trigger n = (if 0 < unat n \<and> unat n \<le> CtrDrvrRamTableSIZE then Some (unat n - 1) else None)"

text \<open>\<^verbatim>\<open>Objects[i] = Objects[Size -1]; Size--\<close>.\<close>

definition swap_remove :: "nat \<Rightarrow> 'a list \<Rightarrow> 'a list" where
  "swap_remove i xs = butlast (xs[i := last xs])"

fun first_index :: "('a \<Rightarrow> bool) \<Rightarrow> 'a list \<Rightarrow> nat option" where
  "first_index P [] = None"
| "first_index P (x # xs) = (if P x then Some 0 else map_option Suc (first_index P xs))"

subsection \<open>CTIM objects\<close>

text \<open>An object is in use when a trigger of the selected module is for it; other modules are not looked at.\<close>

definition ctim_in_use :: "u32 \<Rightarrow> ctr_module \<Rightarrow> bool" where
  "ctim_in_use eqp m = list_ex (\<lambda>j. tr_Ctim (mc_Trigs m j) = eqp) [0..<CtrDrvrRamTableSIZE]"

definition create_ctim :: "CtrDrvrCtimBinding \<Rightarrow> CtrDrvrCtimBinding list \<Rightarrow> errno + CtrDrvrCtimBinding list" where
  "create_ctim b bs =
     (if list_ex (\<lambda>x. ctb_EqpNum x = ctb_EqpNum b) bs then Inl EBUSY
      else if length bs < CtrDrvrCtimOBJECTS then Inr (bs @ [b]) else Inl ENOMEM)"

definition destroy_ctim :: "u32 \<Rightarrow> ctr_module \<Rightarrow> CtrDrvrCtimBinding list \<Rightarrow> errno + CtrDrvrCtimBinding list" where
  "destroy_ctim eqp m bs =
     (case first_index (\<lambda>x. ctb_EqpNum x = eqp) bs of None \<Rightarrow> Inl EINVAL
      | Some i \<Rightarrow> if ctim_in_use eqp m then Inl EBUSY else Inr (swap_remove i bs))"

definition change_ctim_frame :: "CtrDrvrCtimBinding \<Rightarrow> ctr_module \<Rightarrow> CtrDrvrCtimBinding list \<Rightarrow> errno + CtrDrvrCtimBinding list" where
  "change_ctim_frame b m bs =
     (case first_index (\<lambda>x. ctb_EqpNum x = ctb_EqpNum b) bs of None \<Rightarrow> Inl EINVAL
      | Some i \<Rightarrow> if ctim_in_use (ctb_EqpNum b) m then Inl EBUSY else Inr (bs[i := (bs ! i)\<lparr> ctb_Frame := ctb_Frame b \<rparr>]))"

subsection \<open>PTIM objects\<close>

text \<open>The first run of free slots that is long enough: \<open>run\<close> and \<open>start\<close> describe the run so far.\<close>

fun find_run :: "(nat \<Rightarrow> bool) \<Rightarrow> nat \<Rightarrow> nat \<Rightarrow> nat \<Rightarrow> nat list \<Rightarrow> nat option" where
  "find_run free need run start [] = None"
| "find_run free need run start (i # is) =
     (if free i then (let start1 = (if run = 0 then i else start) in
        if run + 1 \<ge> need then Some start1 else find_run free need (run + 1) start1 is)
      else find_run free need 0 start is)"

definition bind_slots :: "CtrDrvrPtimBinding \<Rightarrow> nat \<Rightarrow> ctr_module \<Rightarrow> ctr_module" where
  "bind_slots p start m =
     fold (\<lambda>i m. m\<lparr> mc_EqpNum := (mc_EqpNum m)(i := ptb_EqpNum p),
                    mc_EqpClass := (mc_EqpClass m)(i := CtrDrvrConnectionClassPTIM),
                    mc_Trigs := (mc_Trigs m)(i := (mc_Trigs m i)\<lparr> tr_Counter := ucast (ptb_Counter p) \<rparr>) \<rparr>)
       [start..<start + unat (ptb_Size p)] m"

definition create_ptim :: "CtrDrvrPtimBinding \<Rightarrow> ctr_wa \<Rightarrow> reply \<times> ctr_wa" where
  "create_ptim p wa =
     (if list_ex (\<lambda>x. ptb_EqpNum x = ptb_EqpNum p) (wa_Ptim wa) then (Inl EBUSY, wa)
      else if length (wa_Ptim wa) \<ge> CtrDrvrPtimOBJECTS then (Inl ENOMEM, wa)
      else if unat (ptb_ModuleIndex p) < wa_Modules wa then
        (let m = wa_ModuleContexts wa (unat (ptb_ModuleIndex p)) in
         case find_run (\<lambda>i. mc_EqpNum m i = 0) (unat (ptb_Size p)) 0 0 [0..<CtrDrvrRamTableSIZE] of
           Some start \<Rightarrow> (Inr Reply_OK, (wa_mod (unat (ptb_ModuleIndex p)) (bind_slots p start m) wa)
                             \<lparr> wa_Ptim := wa_Ptim wa @ [p\<lparr> ptb_StartIndex := of_nat start \<rparr>] \<rparr>)
         | None \<Rightarrow> (Inl EINVAL, wa))
      else (Inl EINVAL, wa))"

definition ptim_slot :: "u32 \<Rightarrow> ctr_module \<Rightarrow> nat \<Rightarrow> bool" where
  "ptim_slot eqp m i \<longleftrightarrow> mc_EqpNum m i = eqp \<and> mc_EqpClass m i = CtrDrvrConnectionClassPTIM"

definition clear_slot :: "nat \<Rightarrow> ctr_module \<Rightarrow> ctr_module" where
  "clear_slot i m =
     m\<lparr> mc_Map := write_config i (ConfigToHard zero_config) (write_trigger i \<lparr> ht_Frame = 0, ht_Trigger = 0 \<rparr> (mc_Map m)),
        mc_EqpNum := (mc_EqpNum m)(i := 0), mc_EqpClass := (mc_EqpClass m)(i := 0),
        mc_Configs := (mc_Configs m)(i := zero_config), mc_Trigs := (mc_Trigs m)(i := zero_trigger) \<rparr>"

definition destroy_ptim :: "CtrDrvrPtimBinding \<Rightarrow> ctr_wa \<Rightarrow> reply \<times> ctr_wa" where
  "destroy_ptim p wa =
     (let k = unat (ptb_ModuleIndex p); m = wa_ModuleContexts wa k; e = ptb_EqpNum p in
      if k \<ge> wa_Modules wa then (Inl EINVAL, wa)
      else (let slots = filter (ptim_slot e m) [0..<CtrDrvrRamTableSIZE] in
        if list_ex (\<lambda>i. mc_Clients m i \<noteq> 0) slots then (Inl EBUSY, wa)
        else if slots = [] then (Inl EINVAL, wa)
        else (Inr Reply_OK, (wa_mod k (fold (\<lambda>i m. if ptim_slot e m i then clear_slot i m else m) [0..<CtrDrvrRamTableSIZE] m) wa)
               \<lparr> wa_Ptim := (case first_index (\<lambda>x. ptb_EqpNum x = e) (wa_Ptim wa) of
                    Some i \<Rightarrow> swap_remove i (wa_Ptim wa) | None \<Rightarrow> wa_Ptim wa) \<rparr>)))"

subsection \<open>The commands\<close>

datatype table_cmd =
    GET_ACTION u32 | SET_ACTION CtrDrvrAction
  | CREATE_CTIM_OBJECT CtrDrvrCtimBinding | DESTROY_CTIM_OBJECT u32 | CHANGE_CTIM_FRAME CtrDrvrCtimBinding | LIST_CTIM_OBJECTS
  | CREATE_PTIM_OBJECT CtrDrvrPtimBinding | GET_PTIM_BINDING u32 | DESTROY_PTIM_OBJECT CtrDrvrPtimBinding | LIST_PTIM_OBJECTS

definition ctim_result :: "ctr_wa \<Rightarrow> errno + CtrDrvrCtimBinding list \<Rightarrow> reply \<times> ctr_wa" where
  "ctim_result wa r = (case r of Inl e \<Rightarrow> (Inl e, wa) | Inr bs \<Rightarrow> (Inr Reply_OK, wa\<lparr> wa_Ctim := bs \<rparr>))"

fun table_checks_lock :: "table_cmd \<Rightarrow> bool" where
  "table_checks_lock (GET_ACTION _) = False" | "table_checks_lock LIST_CTIM_OBJECTS = False"
| "table_checks_lock (GET_PTIM_BINDING _) = False" | "table_checks_lock LIST_PTIM_OBJECTS = False"
| "table_checks_lock _ = True"

text \<open>The number \<open>k\<close> is that of the selected module.\<close>

fun table_ioctl :: "nat \<Rightarrow> table_cmd \<Rightarrow> ctr_wa \<Rightarrow> reply \<times> ctr_wa" where
  "table_ioctl k (GET_ACTION n) wa =
     (case slot_of_trigger n of Some i \<Rightarrow> (Inr (Reply_Action (get_action i (wa_ModuleContexts wa k))), wa) | None \<Rightarrow> (Inl EINVAL, wa))"
| "table_ioctl k (SET_ACTION act) wa =
     (let m = wa_ModuleContexts wa k in
      case slot_of_trigger (ac_TriggerNumber act) of
        Some i \<Rightarrow> (if action_allowed act i m then (Inr Reply_OK, wa_mod k (set_action act i m) wa) else (Inl EINVAL, wa))
      | None \<Rightarrow> (Inl EINVAL, wa))"
| "table_ioctl k (CREATE_CTIM_OBJECT b) wa = ctim_result wa (create_ctim b (wa_Ctim wa))"
| "table_ioctl k (DESTROY_CTIM_OBJECT e) wa = ctim_result wa (destroy_ctim e (wa_ModuleContexts wa k) (wa_Ctim wa))"
| "table_ioctl k (CHANGE_CTIM_FRAME b) wa = ctim_result wa (change_ctim_frame b (wa_ModuleContexts wa k) (wa_Ctim wa))"
| "table_ioctl k LIST_CTIM_OBJECTS wa = (Inr (Reply_Ctim (wa_Ctim wa)), wa)"
| "table_ioctl k (CREATE_PTIM_OBJECT p) wa = create_ptim p wa"
| "table_ioctl k (GET_PTIM_BINDING e) wa =
     (case find (\<lambda>x. ptb_EqpNum x = e) (wa_Ptim wa) of Some p \<Rightarrow> (Inr (Reply_Ptim [p]), wa) | None \<Rightarrow> (Inl EINVAL, wa))"
| "table_ioctl k (DESTROY_PTIM_OBJECT p) wa = destroy_ptim p wa"
| "table_ioctl k LIST_PTIM_OBJECTS wa = (Inr (Reply_Ptim (wa_Ptim wa)), wa)"

section \<open>The driver\<close>

datatype driver_cmd =
    SET_MODULE i32 | GET_MODULE_COUNT | GET_CLIENT_LIST | GET_CLIENT_CONNECTIONS u32
  | CONNECT CtrDrvrConnection | DISCONNECT CtrDrvrConnection | RESET | JTAG_CLOSE

definition client_pids :: "ctr_wa \<Rightarrow> u32 list" where
  "client_pids wa = map (\<lambda>i. cc_Pid (wa_ClientContexts wa i))
     (filter (\<lambda>i. cc_InUse (wa_ClientContexts wa i) \<noteq> 0) [0..<CtrDrvrCLIENT_CONTEXTS])"

text \<open>
  The size is checked after the entry is written, so a 513th connection is written behind the array.
  A connection is found by its number and class; the module is not compared.
\<close>

definition add_connection :: "CtrDrvrConnection \<Rightarrow> CtrDrvrConnection list \<Rightarrow> CtrDrvrConnection list result" where
  "add_connection c cs = (if length cs < CtrDrvrCONNECTIONS then Inr (cs @ [c]) else Inl Out_of_bounds)"

definition slot_connection :: "nat \<Rightarrow> ctr_module \<Rightarrow> nat \<Rightarrow> CtrDrvrConnection list \<Rightarrow> CtrDrvrConnection list result" where
  "slot_connection ci m k cs =
     (if cmask ci AND mc_Clients m k \<noteq> 0 \<and> \<not> list_ex (\<lambda>c. mc_EqpNum m k = cx_EqpNum c \<and> mc_EqpClass m k = cx_EqpClass c) cs
      then add_connection \<lparr> cx_Module = mc_ModuleIndex m + 1, cx_EqpClass = mc_EqpClass m k, cx_EqpNum = mc_EqpNum m k \<rparr> cs
      else Inr cs)"

definition hard_mask :: "nat \<Rightarrow> ctr_module \<Rightarrow> u32" where
  "hard_mask ci m = fold (\<lambda>k h. if cmask ci AND mc_HardClients m k \<noteq> 0 then h OR push_bit k 1 else h) [0..<CtrDrvrInterruptSOURCES] 0"

definition module_connections :: "nat \<Rightarrow> ctr_module \<Rightarrow> CtrDrvrConnection list \<Rightarrow> CtrDrvrConnection list result" where
  "module_connections ci m cs =
     bind_r (fold_r (slot_connection ci m) [0..<CtrDrvrRamTableSIZE] cs) (\<lambda>cs1.
       if hard_mask ci m \<noteq> 0
       then add_connection \<lparr> cx_Module = mc_ModuleIndex m + 1, cx_EqpClass = CtrDrvrConnectionClassHARD, cx_EqpNum = hard_mask ci m \<rparr> cs1
       else Inr cs1)"

definition client_connections :: "u32 \<Rightarrow> ctr_wa \<Rightarrow> CtrDrvrConnection list result" where
  "client_connections pid wa =
     fold_r (\<lambda>i cs. let c = wa_ClientContexts wa i in
         if cc_InUse c \<noteq> 0 \<and> cc_Pid c = pid
         then fold_r (\<lambda>j. module_connections (cc_ClientIndex c) (wa_ModuleContexts wa j)) [0..<CtrDrvrMODULE_CONTEXTS] cs
         else Inr cs)
       [0..<CtrDrvrCLIENT_CONTEXTS] []"

definition status_reply :: "errno option \<times> ctr_wa \<Rightarrow> reply \<times> ctr_wa" where
  "status_reply r = ((case fst r of None \<Rightarrow> Inr Reply_OK | Some e \<Rightarrow> Inl e), snd r)"

definition sleep_result :: "nat \<Rightarrow> ctr_wa \<Rightarrow> (ctr_module \<times> lynxos_timers) result \<Rightarrow> (reply \<times> ctr_wa) result" where
  "sleep_result k wa r = bind_r r (\<lambda>(m, ts). Inr (Inr Reply_OK, (wa_mod k m wa)\<lparr> wa_Timers := ts \<rparr>))"

fun driver_checks_lock :: "driver_cmd \<Rightarrow> bool" where
  "driver_checks_lock (CONNECT _) = True" | "driver_checks_lock (DISCONNECT _) = True"
| "driver_checks_lock RESET = True" | "driver_checks_lock JTAG_CLOSE = True" | "driver_checks_lock _ = False"

fun driver_ioctl :: "nat \<Rightarrow> driver_cmd \<Rightarrow> ctr_wa \<Rightarrow> (reply \<times> ctr_wa) result" where
  "driver_ioctl n (SET_MODULE v) wa =
     (if 1 \<le> sint v \<and> sint v \<le> int (wa_Modules wa) then
        (let k = nat (sint v - 1) in
         Inr (Inr Reply_OK, wa_mod k ((wa_ModuleContexts wa k)\<lparr> mc_ModuleIndex := of_nat k \<rparr>)
                              (wa_cli n ((wa_ClientContexts wa n)\<lparr> cc_ModuleIndex := k \<rparr>) wa)))
      else Inr (Inl EINVAL, wa))"
| "driver_ioctl n GET_MODULE_COUNT wa = Inr (Inr (Reply_Long (of_nat (wa_Modules wa))), wa)"
| "driver_ioctl n GET_CLIENT_LIST wa = Inr (Inr (Reply_Words (client_pids wa)), wa)"
| "driver_ioctl n (GET_CLIENT_CONNECTIONS pid) wa =
     bind_r (client_connections pid wa) (\<lambda>cs. Inr (Inr (Reply_Connections cs), wa))"
| "driver_ioctl n (CONNECT conx) wa = bind_r (Connect conx n wa) (\<lambda>r. Inr (status_reply r))"
| "driver_ioctl n (DISCONNECT conx) wa =
     bind_r (if cx_EqpNum conx \<noteq> 0 then DisConnect conx n wa else DisConnectAll n wa) (\<lambda>wa1. Inr (Inr Reply_OK, wa1))"
| "driver_ioctl n RESET wa =
     (let k = cc_ModuleIndex (wa_ClientContexts wa n) in sleep_result k wa (Reset k (wa_ModuleContexts wa k) (wa_Timers wa)))"
| "driver_ioctl n JTAG_CLOSE wa =
     (let k = cc_ModuleIndex (wa_ClientContexts wa n) in sleep_result k wa (jtag_close k (wa_ModuleContexts wa k) (wa_Timers wa)))"

section \<open>The entry point\<close>

text \<open>
  What \<^verbatim>\<open>rbounds\<close> and \<^verbatim>\<open>wbounds\<close> say of the argument: none, less than a word, too short for the
  command, or enough. A word that a command takes from a null argument is 0.
\<close>

datatype ctr_arg = Null_arg | Garbage_arg | Short_arg | Full_arg

datatype ctr_ioctl = Client_cmd client_cmd | Board_cmd board_cmd | Table_cmd table_cmd | Driver_cmd driver_cmd | Other_cmd

fun needs_arg :: "ctr_ioctl \<Rightarrow> bool" where
  "needs_arg (Board_cmd LOCK) = False" | "needs_arg (Board_cmd (UNLOCK _)) = False"
| "needs_arg (Board_cmd JTAG_OPEN) = False" | "needs_arg (Board_cmd (JTAG_READ_BYTE _)) = False"
| "needs_arg (Board_cmd (JTAG_WRITE_BYTE _)) = False"
| "needs_arg (Board_cmd HPTDC_OPEN) = False" | "needs_arg (Board_cmd HPTDC_CLOSE) = False"
| "needs_arg (Board_cmd (ENABLE _)) = False" | "needs_arg (Board_cmd (SET_DEBUG_HISTORY _)) = False"
| "needs_arg (Board_cmd (SET_BRUTAL_PLL _)) = False" | "needs_arg (Board_cmd (SET_INPUT_DELAY _)) = False"
| "needs_arg (Driver_cmd RESET) = False" | "needs_arg (Driver_cmd JTAG_CLOSE) = False" | "needs_arg _ = True"

definition locks_out :: "ctr_ioctl \<Rightarrow> bool" where
  "locks_out cmd = (case cmd of Board_cmd c \<Rightarrow> checks_lock c | Table_cmd c \<Rightarrow> table_checks_lock c
     | Driver_cmd c \<Rightarrow> driver_checks_lock c | _ \<Rightarrow> False)"

text \<open>\<^verbatim>\<open>JTAG_READ_BYTE\<close> writes through its argument without looking at it.\<close>

definition null_write :: "ctr_arg \<Rightarrow> ctr_ioctl \<Rightarrow> ctr_module \<Rightarrow> bool" where
  "null_write arg cmd m \<longleftrightarrow> arg = Null_arg \<and> mc_FlashOpen m \<noteq> 0 \<and> (case cmd of Board_cmd (JTAG_READ_BYTE _) \<Rightarrow> True | _ \<Rightarrow> False)"

definition run_ioctl :: "u32 \<Rightarrow> nat \<Rightarrow> ctr_ioctl \<Rightarrow> ctr_wa \<Rightarrow> (reply \<times> ctr_wa) result" where
  "run_ioctl ct n cmd wa =
     (let k = cc_ModuleIndex (wa_ClientContexts wa n) in
      case cmd of
        Client_cmd c \<Rightarrow> (let (r, cl) = client_ioctl c (wa_ClientContexts wa n) in
          Inr (Inr r, (wa_cli n cl wa)\<lparr> wa_debug_isr := debug_isr_after c (wa_debug_isr wa) \<rparr>))
      | Board_cmd c \<Rightarrow> bind_r (board_ioctl ct c (wa_ModuleContexts wa k)) (\<lambda>(r, m). Inr (r, wa_mod k m wa))
      | Table_cmd c \<Rightarrow> Inr (table_ioctl k c wa)
      | Driver_cmd c \<Rightarrow> driver_ioctl n c wa
      | Other_cmd \<Rightarrow> Inr (Inl EINVAL, wa))"

text \<open>The bus errors of all modules are charged to the selected one.\<close>

definition charge_bus_errors :: "nat \<Rightarrow> ctr_wa \<Rightarrow> ctr_wa" where
  "charge_bus_errors k wa =
     (let (n, u) = GetClrBusErrCnt (wa_Bus wa); m = wa_ModuleContexts wa k in
      (wa_mod k (m\<lparr> mc_BusErrorCount := mc_BusErrorCount m + of_int n \<rparr>) wa)\<lparr> wa_Bus := u \<rparr>)"

definition CtrDrvrIoctl :: "u32 \<Rightarrow> u32 \<Rightarrow> ctr_arg \<Rightarrow> ctr_ioctl \<Rightarrow> ctr_wa \<Rightarrow> (reply \<times> ctr_wa) result" where
  "CtrDrvrIoctl ct dev arg cmd wa =
     (let cnum = sint ((dev AND 0xFF) - 1); n = nat cnum; k = cc_ModuleIndex (wa_ClientContexts wa n) in
      if arg = Garbage_arg then Inr (Inl EINVAL, wa)
      else if cnum < 0 \<or> cnum \<ge> int CtrDrvrCLIENT_CONTEXTS then Inr (Inl ENODEV, wa)
      else if cc_InUse (wa_ClientContexts wa n) = 0 then Inr (Inl EBADF, wa)
      else if mc_InUse (wa_ModuleContexts wa k) = 0 then Inr (Inl ENODEV, wa)
      else (let wa1 = charge_bus_errors k wa; m = wa_ModuleContexts wa1 k in
        if locks_out cmd \<and> mc_UpLock m \<noteq> 0 then Inr (Inl EINVAL, wa1)
        else if needs_arg cmd \<and> arg \<noteq> Full_arg then Inr (Inl EINVAL, wa1)
        else if null_write arg cmd m then Inl Out_of_bounds
        else run_ioctl ct n cmd wa1))"

end
