(* ===== verification/Ctr_Install.thy ===== *)
theory Ctr_Install
  imports Ctr_Ioctl
begin

text \<open>
  Installation of the timing receiver driver (ctrdrvr-vme.c): the module parameters, the address
  table, \<^verbatim>\<open>AddModule\<close> and \<^verbatim>\<open>CtrDrvrInstall\<close>. What the kernel answers to a request for a VME window or an
  interrupt vector, and the boards that are found, are an argument.
\<close>

section \<open>Module parameters\<close>

record ctr_params =
  luns :: "int list"
  vme1 :: "u32 list"
  vme2 :: "u32 list"
  vecs :: "u32 list"
  first_module :: int
  modules :: int

definition ilvl :: u32 where "ilvl = 2"
definition MAX_DEVS :: nat where "MAX_DEVS = CtrDrvrMODULE_CONTEXTS"

text \<open>The arrays are static: what was not given is zero.\<close>

definition par :: "u32 list \<Rightarrow> nat \<Rightarrow> u32" where
  "par xs i = (if i < length xs then xs ! i else 0)"

definition check_args :: "ctr_params \<Rightarrow> bool" where
  "check_args p \<longleftrightarrow>
     0 < length (luns p) \<and> length (luns p) \<le> MAX_DEVS \<and>
     (vme1 p = [] \<or> length (vme1 p) = length (luns p)) \<and> (vme2 p = [] \<or> length (vme2 p) = length (luns p)) \<and>
     (vecs p = [] \<or> length (vecs p) = length (luns p)) \<and>
     list_all (\<lambda>lun. 0 < lun \<and> lun \<le> int MAX_DEVS) (luns p)"

definition no_address :: CtrDrvrModuleAddress where
  "no_address = \<lparr> ma_VMEAddress = 0, ma_JTGAddress = 0, ma_InterruptVector = 0, ma_InterruptLevel = 0, ma_CopyAddress = 0 \<rparr>"

text \<open>The table of addresses is indexed by the logical unit, and its size is the number of units.\<close>

record ctr_info =
  ti_Modules :: nat
  ti_Addresses :: "nat \<Rightarrow> CtrDrvrModuleAddress"

definition lun_address :: "ctr_params \<Rightarrow> nat \<Rightarrow> CtrDrvrModuleAddress" where
  "lun_address p i = \<lparr> ma_VMEAddress = par (vme1 p) i, ma_JTGAddress = par (vme2 p) i,
     ma_InterruptVector = par (vecs p) i, ma_InterruptLevel = ilvl, ma_CopyAddress = par (vme1 p) i \<rparr>"

definition BuildInfoObject :: "ctr_params \<Rightarrow> ctr_info option" where
  "BuildInfoObject p =
     (if check_args p
      then Some \<lparr> ti_Modules = length (luns p),
             ti_Addresses = fold (\<lambda>i t. t(nat (luns p ! i - 1) := lun_address p i)) [0..<length (luns p)] (\<lambda>_. no_address) \<rparr>
      else None)"

text \<open>Without parameters: \<^verbatim>\<open>modules\<close> modules from \<^verbatim>\<open>first_module\<close> on, at the usual addresses.\<close>

definition default_address :: "nat \<Rightarrow> CtrDrvrModuleAddress" where
  "default_address i = \<lparr> ma_VMEAddress = 0xC00000 + 0x10000 * of_nat i, ma_JTGAddress = 0x100 + 0x100 * of_nat i,
     ma_InterruptVector = 0xB8 + of_nat i, ma_InterruptLevel = 2, ma_CopyAddress = 0 \<rparr>"

definition default_info :: "ctr_params \<Rightarrow> ctr_info" where
  "default_info p =
     (let fm = (if first_module p \<le> 0 \<or> first_module p > int CtrDrvrMODULE_CONTEXTS then 1 else first_module p);
          n0 = (if modules p \<le> 0 then 1 else modules p);
          n = (if n0 + (fm - 1) > int CtrDrvrMODULE_CONTEXTS then 1 else n0) in
      \<lparr> ti_Modules = nat n,
        ti_Addresses = (\<lambda>j. if j < nat n then default_address (nat (fm - 1) + j) else no_address) \<rparr>)"

definition info :: "ctr_params \<Rightarrow> ctr_info" where
  "info p = (case BuildInfoObject p of Some t \<Rightarrow> t | None \<Rightarrow> default_info p)"

section \<open>Installation\<close>

text \<open>
  The kernel: windows in A16 and A24 for an address (no window is 0 for the first, as the driver
  stores it), whether the vector could be taken, and the board behind a window.
\<close>

record ctr_kernel =
  map_A16 :: "u32 \<Rightarrow> u32"
  map_A24 :: "u32 \<Rightarrow> u32 option"
  take_vector :: "u32 \<Rightarrow> bool"
  board_at :: "u32 \<Rightarrow> ctr_board"

datatype add_result = Added | No_window | Jtag_only | No_vector

definition AddModule :: "ctr_kernel \<Rightarrow> nat \<Rightarrow> ctr_module \<Rightarrow> lynxos_timers \<Rightarrow> (add_result \<times> ctr_module \<times> lynxos_timers) result" where
  "AddModule ker i m ts =
     (let a = mc_Address m; jtag = map_A16 ker (ma_JTGAddress a AND 0xFFFF);
          a1 = a\<lparr> ma_JTGAddress := jtag \<rparr>;
          addr = (if ma_VMEAddress a = 0 then ma_CopyAddress a else ma_VMEAddress a) AND 0xFFFFFF in
      case map_A24 ker addr of
        None \<Rightarrow> Inr (if jtag = 0 then No_window else Jtag_only, m\<lparr> mc_Address := a1 \<rparr>, ts)
      | Some w \<Rightarrow> (let a2 = a1\<lparr> ma_VMEAddress := w \<rparr> in
          if \<not> take_vector ker (ma_InterruptVector a) then Inr (No_vector, m\<lparr> mc_Address := a2 \<rparr>, ts)
          else bind_r (Reset i (m\<lparr> mc_Address := a2, mc_IVector := ma_InterruptVector a, mc_Map := board_at ker w \<rparr>) ts)
                 (\<lambda>(m1, ts1). Inr (Added, m1, ts1))))"

text \<open>Old triggers are wiped out; the configurations stay.\<close>

definition wipe_triggers :: "ctr_board \<Rightarrow> ctr_board" where
  "wipe_triggers b = fold (\<lambda>j b. HWr 0 (R_TrigWord j) (HWr 0 (R_TrigFrame j) b)) [0..<CtrDrvrRamTableSIZE] b"

definition install_result :: "add_result \<times> ctr_module \<Rightarrow> ctr_module" where
  "install_result r =
     (let m = snd r; a = mc_Address m in
      case fst r of
        Added \<Rightarrow> m\<lparr> mc_Map := wipe_triggers (mc_Map m), mc_InUse := 1 \<rparr>
      | Jtag_only \<Rightarrow> m\<lparr> mc_Address := a\<lparr> ma_VMEAddress := 0 \<rparr>, mc_InUse := 1 \<rparr>
      | _ \<Rightarrow> m\<lparr> mc_Address := a\<lparr> ma_VMEAddress := 0, ma_JTGAddress := 0 \<rparr> \<rparr>)"

definition install_module :: "ctr_kernel \<Rightarrow> ctr_info \<Rightarrow> nat \<Rightarrow> ctr_wa \<Rightarrow> ctr_wa result" where
  "install_module ker t i wa =
     bind_r (AddModule ker i ((wa_ModuleContexts wa i)\<lparr> mc_Address := ti_Addresses t i, mc_ModuleIndex := of_nat i \<rparr>) (wa_Timers wa))
       (\<lambda>(r, m, ts). Inr ((wa_mod i (install_result (r, m)) wa)\<lparr> wa_Timers := ts \<rparr>))"

definition CtrDrvrInstall :: "ctr_kernel \<Rightarrow> ctr_params \<Rightarrow> ctr_wa result" where
  "CtrDrvrInstall ker p =
     (let t = info p in
      bind_r (fold_r (install_module ker t) [0..<ti_Modules t] wa_blank) (\<lambda>wa. Inr (wa\<lparr> wa_Modules := ti_Modules t \<rparr>)))"

text \<open>Removal: the interrupts of the modules are switched off, the clients woken and closed.\<close>

definition RemoveModule :: "ctr_module \<Rightarrow> ctr_module" where
  "RemoveModule m = m\<lparr> mc_Map := after_read R_InterruptSource (HWr 0 R_InterruptEnable (mc_Map m)) \<rparr>"

definition uninstall_client :: "nat \<Rightarrow> ctr_wa \<Rightarrow> ctr_wa" where
  "uninstall_client i wa =
     (let c = wa_ClientContexts wa i in
      if cc_InUse c = 0 then wa
      else (let (tm, ts) = CancelTimeout (cc_Timer c) (wa_Timers wa) in
        (wa_cli i (c\<lparr> cc_Timer := tm, cc_Semaphore := snd (ssignal (cc_Semaphore c)), cc_InUse := 0 \<rparr>) wa)\<lparr> wa_Timers := ts \<rparr>))"

definition CtrDrvrUninstall :: "ctr_wa \<Rightarrow> ctr_wa" where
  "CtrDrvrUninstall wa =
     fold uninstall_client [0..<CtrDrvrCLIENT_CONTEXTS]
       (wa\<lparr> wa_ModuleContexts := (\<lambda>k. if k < CtrDrvrMODULE_CONTEXTS \<and> mc_InUse (wa_ModuleContexts wa k) \<noteq> 0
                                     then RemoveModule (wa_ModuleContexts wa k) else wa_ModuleContexts wa k) \<rparr>)"

section \<open>Which addresses are installed\<close>

text \<open>
  The table is filled at the places of the logical units, but the installation goes through its
  first places, as many as there are units. A unit whose number is greater than the number of units
  is therefore never installed, although its parameters were accepted; in its stead a module is
  installed at address zero.
\<close>

theorem gap_in_units_not_installed:
  assumes "check_args p" and "distinct (luns p)" and "i < length (luns p)"
  shows "ti_Modules (info p) = length (luns p) \<and>
    ti_Addresses (info p) (nat (luns p ! i - 1)) = lun_address p i \<and>
    (luns p ! i > int (length (luns p)) \<longrightarrow>
       \<not> nat (luns p ! i - 1) < ti_Modules (info p) \<and>
       (\<exists>j < ti_Modules (info p). ti_Addresses (info p) j = no_address))"
proof -
  let ?n = "length (luns p)" and ?at = "\<lambda>i. nat (luns p ! i - 1)"
  have pos: "0 < luns p ! j" if "j < ?n" for j using assms(1) that by (auto simp: check_args_def list_all_length)
  then have inj: "?at j = ?at k \<longleftrightarrow> j = k" if "j < ?n" "k < ?n" for j k
    using assms(2) that by (auto simp: nat_eq_iff2 nth_eq_iff_index_eq dest: pos)
  let ?T = "\<lambda>m. fold (\<lambda>i t. t(?at i := lun_address p i)) [0..<m] (\<lambda>_. no_address)"
  have T: "?T m (?at j) = lun_address p j" if "m \<le> ?n" "j < m" for m j
    using that by (induction m) (auto simp: less_Suc_eq inj)
  have T0: "?T m x = no_address" if "x \<notin> ?at ` {..<m}" for m x
    using that by (induction m) (auto simp: lessThan_Suc)
  have info: "ti_Modules (info p) = ?n" "ti_Addresses (info p) = ?T ?n"
    using assms(1) by (simp_all add: info_def BuildInfoObject_def)
  have gap: "\<exists>j < ?n. ?T ?n j = no_address" if "luns p ! i > int ?n"
  proof -
    have "inj_on ?at {..<?n}" by (rule inj_onI) (use inj in auto)
    then have c: "card (?at ` {..<?n}) = ?n" by (simp add: card_image)
    have "?at i \<notin> {..<?n}" using that by simp
    moreover have "?at i \<in> ?at ` {..<?n}" using assms(3) by simp
    ultimately have "\<not> {..<?n} \<subseteq> ?at ` {..<?n}"
      using c card_subset_eq [of "?at ` {..<?n}" "{..<?n}"] by auto
    then show ?thesis using T0 by blast
  qed
  show ?thesis using T [of ?n i] assms(3) gap by (auto simp: info)
qed

text \<open>One unit, with the number 2.\<close>

definition unit_two :: ctr_params where
  "unit_two = \<lparr> luns = [2], vme1 = [0xC10000], vme2 = [0x200], vecs = [0xC9], first_module = 1, modules = 1 \<rparr>"

lemma gap_in_units_not_installed_witness:
  "ti_Modules (info unit_two) = 1 \<and> ti_Addresses (info unit_two) 1 = lun_address unit_two 0 \<and>
   ti_Addresses (info unit_two) 0 = no_address"
proof -
  have l: "luns unit_two = [2]" by (simp add: unit_two_def)
  have c: "check_args unit_two" "distinct (luns unit_two)" "0 < length (luns unit_two)"
    by (simp_all add: unit_two_def check_args_def MAX_DEVS_def CtrDrvrMODULE_CONTEXTS_def)
  note r = gap_in_units_not_installed [OF c]
  have "luns unit_two ! 0 > int (length (luns unit_two))" by (simp add: l)
  with r obtain j where j: "j < ti_Modules (info unit_two)" "ti_Addresses (info unit_two) j = no_address" by blast
  have "ti_Modules (info unit_two) = 1" "ti_Addresses (info unit_two) 1 = lun_address unit_two 0" using r by (auto simp: l)
  then show ?thesis using j by simp
qed

end
