(* ===== verification/Ctr_System.thy ===== *)
theory Ctr_System
  imports Ctr_Tables Ctr_Isr Ctr_Install
begin

text \<open>
  The timing receiver driver as a whole: every entry point, the interrupts, the board and the timers
  as steps of one system, the invariant of its reachable states, the absence of faults, and the
  path of an event from the connection to the queue of the client.
\<close>

section \<open>Commands on the board leave the tables alone\<close>

text \<open>What well-formedness looks at.\<close>

definition same_tables :: "ctr_module \<Rightarrow> ctr_module \<Rightarrow> bool" where
  "same_tables m m' \<longleftrightarrow> mc_Clients m' = mc_Clients m \<and> mc_HardClients m' = mc_HardClients m \<and>
     mc_EqpNum m' = mc_EqpNum m \<and> mc_EqpClass m' = mc_EqpClass m \<and> mc_Trigs m' = mc_Trigs m \<and>
     mc_InterruptEnable m' = mc_InterruptEnable m \<and> b_Device (mc_Map m') = b_Device (mc_Map m) \<and>
     (\<forall>r. ram r \<longrightarrow> b_Mem (mc_Map m') r = b_Mem (mc_Map m) r)"

lemma same_tables_refl [simp]: "same_tables m m"
  by (simp add: same_tables_def)

lemma same_tables_tables_ok: "same_tables m m' \<Longrightarrow> tables_ok m' = tables_ok m"
  by (intro tables_ok_cong) (simp_all add: same_tables_def ram_is_memory_def ram_def)

lemma same_tables_module_ok: "same_tables m m' \<Longrightarrow> module_ok m' = module_ok m"
proof -
  assume s: "same_tables m m'"
  then have "tables_ok m' = tables_ok m" by (rule same_tables_tables_ok)
  moreover have "mirrored m' = mirrored m" using s by (simp add: mirrored_def same_tables_def ram_def)
  ultimately show ?thesis by (simp add: module_ok_def)
qed

definition same_ram :: "ctr_board \<Rightarrow> ctr_board \<Rightarrow> bool" where
  "same_ram b b' \<longleftrightarrow> b_Device b' = b_Device b \<and> (\<forall>r. ram r \<longrightarrow> b_Mem b' r = b_Mem b r)"

lemma same_ram_refl [simp]: "same_ram b b"
  by (simp add: same_ram_def)

lemma same_ram_trans: "same_ram b b' \<Longrightarrow> same_ram b' b'' \<Longrightarrow> same_ram b b''"
  by (simp add: same_ram_def)

lemma same_ram_HWr [simp]: "\<not> ram r \<Longrightarrow> same_ram b (HWr v r b') = same_ram b b'"
  by (auto simp: same_ram_def)

lemma same_ram_after_read [simp]: "same_ram b (after_read r b') = same_ram b b'"
  by (auto simp: same_ram_def after_read_def clears_on_read_def ram_def split: ctr_reg.splits)

lemma same_tables_Map: "same_ram (mc_Map m) b \<Longrightarrow> same_tables m (m\<lparr> mc_Map := b \<rparr>)"
  by (simp add: same_tables_def same_ram_def)

lemma same_ram_Io32Write: "list_all (\<lambda>r. \<not> ram r) rs \<Longrightarrow> same_ram b (Io32Write rs ws b') = same_ram b b'"
proof (induction rs arbitrary: ws b')
  case (Cons r rs)
  show ?case
  proof (cases ws)
    case (Cons w ws')
    then show ?thesis using Cons.IH [of ws' "HWr w r b'"] Cons.prems by (simp add: Io32Write_def)
  qed (simp add: Io32Write_def)
qed (simp add: Io32Write_def)

subsection \<open>The JTAG walk\<close>

lemma same_ram_BitTransfer [simp]: "same_ram b (snd (HptdcBitTransfer tdi tms b')) = same_ram b b'"
  by (simp add: HptdcBitTransfer_def Let_def ram_def)

lemma same_ram_StateReset [simp]: "same_ram b (HptdcStateReset b') = same_ram b b'"
  by (simp add: HptdcStateReset_def Let_def ram_def)

lemma same_ram_tms_steps [simp]: "same_ram b (tms_steps ts b') = same_ram b b'"
  unfolding tms_steps_def by (induction ts arbitrary: b') simp_all

lemma same_ram_shift_value [simp]: "same_ram b (snd (snd (shift_value v tms i n p c b'))) = same_ram b b'"
  by (induction n arbitrary: i p c b') (simp_all add: Let_def case_prod_beta)

lemma same_ram_shift_regs [simp]: "same_ram b (snd (snd (shift_regs pflg rs p b'))) = same_ram b b'"
  by (induction rs arbitrary: p b') (simp_all add: Let_def case_prod_beta)

lemma same_ram_HptdcCommand [simp]: "same_ram b (snd (HptdcCommand cmd wreg pflg rflg b')) = same_ram b b'"
  by (simp add: HptdcCommand_def Let_def case_prod_beta)

subsection \<open>Every command\<close>

lemma same_ram_raw_read:
  "raw_read j n b = Inr (ws, b') \<Longrightarrow> same_ram b b'"
proof (induction n arbitrary: j b ws)
  case (Suc n)
  then obtain r ws1 where "raw_read (j + 1) n (after_read r b) = Inr (ws1, b')"
    by (auto simp: bind_r_def split: sum.splits)
  from Suc.IH [OF this] show ?case using same_ram_trans [of b "after_read r b" b'] by simp
qed simp

lemma same_tables_set_command [simp]: "same_tables m (set_command on off m)"
  by (simp add: set_command_def same_tables_def ram_def Let_def)

definition safe_board_cmd :: "board_cmd \<Rightarrow> bool" where
  "safe_board_cmd c = (case c of RAW_WRITE _ _ \<Rightarrow> False | _ \<Rightarrow> True)"

lemma same_tables_fields [simp]:
  "same_tables m (m\<lparr> mc_UpLock := x \<rparr>)" "same_tables m (m\<lparr> mc_CableId := x \<rparr>)"
  "same_tables m (m\<lparr> mc_HptdcOpen := x \<rparr>)" "same_tables m (m\<lparr> mc_PllAsyncPeriodNs := p \<rparr>)"
  "same_tables m (m\<lparr> mc_IrqBalance := x, mc_FlashOpen := y \<rparr>)" "same_tables m (m\<lparr> mc_FlashOpen := y \<rparr>)"
  "\<not> ram r \<Longrightarrow> same_tables m (m\<lparr> mc_OutputByte := x, mc_Map := HWr v r (mc_Map m) \<rparr>)"
  "\<not> ram r \<Longrightarrow> same_tables m (m\<lparr> mc_Map := HWr v r (mc_Map m), mc_InputDelay := x \<rparr>)"
  "same_tables m (m\<lparr> mc_Status := x, mc_BusErrorCount := y \<rparr>)"
  by (simp_all add: same_tables_def)

lemma board_ioctl_keeps:
  assumes "board_ioctl ct c m = Inr (r, m')" "safe_board_cmd c"
  shows "same_tables m m'"
proof (cases c)
  case (HPTDC_IO cmd wreg pflg rflg)
  show ?thesis
    using assms same_ram_HptdcCommand [of "mc_Map m" cmd wreg pflg rflg "mc_Map m"]
    by (cases "HptdcCommand cmd wreg pflg rflg (mc_Map m)")
      (auto simp: HPTDC_IO split: if_splits intro: same_tables_Map)
next
  case (RAW_READ off n)
  then show ?thesis using assms
    by (auto simp: bind_r_def split: sum.splits prod.splits intro!: same_tables_Map same_ram_raw_read)
next
  case (SET_PLL ws)
  have "same_ram (mc_Map m) (Io32Write pll_regs ws (mc_Map m))"
    by (simp add: same_ram_Io32Write pll_regs_def list_all_iff ram_def)
  then show ?thesis using assms by (auto simp: SET_PLL same_tables_def same_ram_def)
next
  case (SET_CONFIG k f)
  have "same_ram (mc_Map m) (Io32Write [R_CounterConfig k, R_CounterDelay k] ws (mc_Map m))" for ws
    by (simp add: same_ram_Io32Write ram_def)
  then show ?thesis using assms by (auto simp: SET_CONFIG Let_def split: if_splits intro: same_tables_Map)
next
  case (RAW_WRITE off ws)
  then show ?thesis using assms(2) by (simp add: safe_board_cmd_def)
qed (use assms in \<open>auto simp: Let_def GetStatus_def SetTime_def GetTime_def clr_uplock_def ram_def split: if_splits prod.splits
      intro!: same_tables_Map\<close>)

section \<open>Commands on the tables\<close>

lemma config_bus: "bit (hc_Config (ConfigToHard f)) 30 \<longleftrightarrow> bit (cf_OnZero f) 0"
  by (simp add: ConfigToHard_def config_fields field_shifts put_field_def bit_or_iff bit_push_bit_iff bit_take_bit_iff)

lemma config_for_clients_bus: "bit (cf_OnZero (config_for_clients w f)) 0 \<longleftrightarrow> w \<noteq> 0"
  by (simp add: config_for_clients_def CtrDrvrCounterOnZeroBUS_def bit_or_iff bit_and_iff bit_not_iff)

lemma set_action_simps:
  assumes "mc_EqpNum m i \<noteq> 0"
  shows "mc_Clients (set_action act i m) = mc_Clients m" "mc_HardClients (set_action act i m) = mc_HardClients m"
    "mc_EqpNum (set_action act i m) = mc_EqpNum m" "mc_EqpClass (set_action act i m) = mc_EqpClass m"
    "mc_Trigs (set_action act i m) = (mc_Trigs m)(i := ac_Trigger act)"
    "mc_InterruptEnable (set_action act i m) = mc_InterruptEnable m"
    "ram_is_memory (mc_Map (set_action act i m)) = ram_is_memory (mc_Map m)"
    "b_Mem (mc_Map (set_action act i m)) = (b_Mem (mc_Map m))
       (R_TrigFrame i := ht_Frame (TriggerToHard (ac_Trigger act)), R_TrigWord i := ht_Trigger (TriggerToHard (ac_Trigger act)),
        R_ConfigWord i := hc_Config (ConfigToHard (config_for_clients (mc_Clients m i) (ac_Config act))),
        R_ConfigDelay i := hc_Delay (ConfigToHard (config_for_clients (mc_Clients m i) (ac_Config act))))"
  using assms by (simp_all add: set_action_def Let_def)

lemma action_allowed_object:
  "tables_ok m \<Longrightarrow> i < CtrDrvrRamTableSIZE \<Longrightarrow> action_allowed act i m \<Longrightarrow>
     mc_EqpNum m i \<noteq> 0 \<and> mc_EqpNum m i = ac_EqpNum act \<and> mc_EqpClass m i = ac_EqpClass act \<and>
     tr_Counter (mc_Trigs m i) = tr_Counter (ac_Trigger act)"
  using slot_class_pos [of m i] by (auto simp: action_allowed_def)

lemma set_action_ok:
  assumes "module_ok m" "i < CtrDrvrRamTableSIZE" "action_allowed act i m"
  shows "module_ok (set_action act i m)"
proof -
  have ok: "tables_ok m" using assms(1) by (simp add: module_ok_def)
  note a = action_allowed_object [OF ok assms(2,3)]
  then have nz: "mc_EqpNum m i \<noteq> 0" by (rule conjunct1)
  note ss = set_action_simps [OF nz, of act]
  have "slot_ok (set_action act i m) j" if "j < CtrDrvrRamTableSIZE" for j
    using tables_okD(1) [OF ok that] a
    by (cases "j = i") (auto simp: slot_ok_def ss config_bus config_for_clients_bus)
  then have "tables_ok (set_action act i m)"
    using ok unfolding tables_ok_def ss by blast
  moreover have "mirrored (set_action act i m)" using assms(1) by (simp add: module_ok_def mirrored_def ss)
  ultimately show ?thesis by (simp add: module_ok_def)
qed

lemma hw_eta [simp]:
  "\<lparr> ht_Frame = ht_Frame h, ht_Trigger = ht_Trigger h \<rparr> = h" "\<lparr> hc_Config = hc_Config c, hc_Delay = hc_Delay c \<rparr> = c"
  by simp_all

lemma get_action_ram:
  "ram_is_memory (mc_Map m) \<Longrightarrow> get_action i m =
     \<lparr> ac_TriggerNumber = of_nat i + 1, ac_EqpNum = mc_EqpNum m i, ac_EqpClass = mc_EqpClass m i,
       ac_Trigger = (HardToTrigger \<lparr> ht_Frame = b_Mem (mc_Map m) (R_TrigFrame i), ht_Trigger = b_Mem (mc_Map m) (R_TrigWord i) \<rparr>)
         \<lparr> tr_Ctim := tr_Ctim (mc_Trigs m i) \<rparr>,
       ac_Config = HardToConfig \<lparr> hc_Config = b_Mem (mc_Map m) (R_ConfigWord i), hc_Delay = b_Mem (mc_Map m) (R_ConfigDelay i) \<rparr> \<rparr>"
  by (simp add: get_action_def read_trigger_def read_config_def HRd_ram ram_def)

text \<open>
  C19: An action that \<^verbatim>\<open>SET_ACTION\<close> accepts is what \<^verbatim>\<open>GET_ACTION\<close> reports afterwards: the same object and
  class, the trigger and the configuration cut to the widths of their fields on the board, except
  that the bus interrupt of the configuration is set exactly when the slot has clients. The other
  slots are reported as before, and the module stays well formed.
\<close>

theorem action_roundtrip:
  assumes "wa_ok wa" "k < CtrDrvrMODULE_CONTEXTS" and set: "table_ioctl k (SET_ACTION act) wa = (Inr Reply_OK, wa')"
  shows "fst (table_ioctl k (GET_ACTION (ac_TriggerNumber act)) wa') = Inr (Reply_Action
      \<lparr> ac_TriggerNumber = ac_TriggerNumber act, ac_EqpNum = ac_EqpNum act, ac_EqpClass = ac_EqpClass act,
        ac_Trigger = (cut_trigger (ac_Trigger act))\<lparr> tr_Ctim := tr_Ctim (ac_Trigger act) \<rparr>,
        ac_Config = cut_config (config_for_clients
          (mc_Clients (wa_ModuleContexts wa k) (unat (ac_TriggerNumber act) - 1)) (ac_Config act)) \<rparr>) \<and>
    (\<forall>n. n \<noteq> ac_TriggerNumber act \<longrightarrow> fst (table_ioctl k (GET_ACTION n) wa') = fst (table_ioctl k (GET_ACTION n) wa)) \<and>
    wa_ok wa'"
proof -
  define m where "m = wa_ModuleContexts wa k"
  obtain i where i: "slot_of_trigger (ac_TriggerNumber act) = Some i" and al: "action_allowed act i m"
    and w: "wa' = wa_mod k (set_action act i m) wa"
    using set by (auto simp: m_def Let_def split: option.splits if_splits)
  have n: "i < CtrDrvrRamTableSIZE" "i = unat (ac_TriggerNumber act) - 1" "0 < unat (ac_TriggerNumber act)"
    using i by (auto simp: slot_of_trigger_def split: if_splits)
  then have "unat (ac_TriggerNumber act) = i + 1" by simp
  then have "(of_nat (unat (ac_TriggerNumber act)) :: u32) = of_nat (i + 1)" by (rule arg_cong)
  then have num: "of_nat i + 1 = ac_TriggerNumber act" by simp
  have ok: "module_ok m" using wa_okD(1) [OF assms(1,2)] by (simp add: m_def)
  then have t: "tables_ok m" by (simp add: module_ok_def)
  note a = action_allowed_object [OF t n(1) al]
  then have nz: "mc_EqpNum m i \<noteq> 0" by (rule conjunct1)
  note ss = set_action_simps [OF nz, of act]
  have mem: "ram_is_memory (mc_Map m)" using t by (simp add: tables_ok_def)
  then have mem': "ram_is_memory (mc_Map (set_action act i m))" by (simp add: ss)
  have other: "get_action j (set_action act i m) = get_action j m" if "j \<noteq> i" for j
    using that by (simp add: get_action_ram [OF mem] get_action_ram [OF mem'] ss)
  have ne: "j \<noteq> i" if "slot_of_trigger x = Some j" "x \<noteq> ac_TriggerNumber act" for x j
    using that n(2,3) by (auto simp: slot_of_trigger_def word_unat_eq_iff split: if_splits)
  then have "\<forall>x. x \<noteq> ac_TriggerNumber act \<longrightarrow> fst (table_ioctl k (GET_ACTION x) wa') = fst (table_ioctl k (GET_ACTION x) wa)"
    by (auto simp: w m_def split: option.splits intro: other [unfolded m_def] dest: ne)
  moreover have "wa_ok wa'" unfolding w by (rule wa_ok_mod [OF assms(1) set_action_ok [OF ok n(1) al]])
  moreover have "get_action i (set_action act i m) = \<lparr> ac_TriggerNumber = ac_TriggerNumber act, ac_EqpNum = ac_EqpNum act,
      ac_EqpClass = ac_EqpClass act, ac_Trigger = (cut_trigger (ac_Trigger act))\<lparr> tr_Ctim := tr_Ctim (ac_Trigger act) \<rparr>,
      ac_Config = cut_config (config_for_clients (mc_Clients m i) (ac_Config act)) \<rparr>"
    using a HardToTrigger_TriggerToHard [of "ac_Trigger act"] HardToConfig_ConfigToHard
    by (simp add: get_action_ram [OF mem'] ss num)
  ultimately show ?thesis
    using i n(2) by (simp add: w m_def)
qed

subsection \<open>The search for free slots\<close>

definition free_run :: "(nat \<Rightarrow> bool) \<Rightarrow> nat \<Rightarrow> nat \<Rightarrow> bool" where
  "free_run free need s \<longleftrightarrow> (\<forall>i. s \<le> i \<longrightarrow> i < s + need \<longrightarrow> free i)"

text \<open>At slot \<open>a\<close>, the run of \<open>run\<close> free slots that ends before it began at \<open>start\<close> and cannot be longer.\<close>

definition run_at :: "(nat \<Rightarrow> bool) \<Rightarrow> nat \<Rightarrow> nat \<Rightarrow> nat \<Rightarrow> bool" where
  "run_at free run start a \<longleftrightarrow>
     (if run = 0 then a = 0 \<or> \<not> free (a - 1) else start + run = a \<and> free_run free run start \<and> (start = 0 \<or> \<not> free (start - 1)))"

lemma run_at_next:
  assumes "run_at free run start a" "free a"
  shows "run_at free (run + 1) (if run = 0 then a else start) (a + 1)"
  using assms by (auto simp: run_at_def free_run_def less_Suc_eq)

lemma run_at_longest:
  assumes "run_at free run start a" "s + need = a + 1" "run + 1 < need" shows "\<not> free_run free need s"
proof
  assume f: "free_run free need s"
  define j where "j = (if run = 0 then a else start)"
  have j: "s < j" "j \<le> a" "0 < j" "\<not> free (j - 1)"
    using assms by (auto simp: run_at_def j_def split: if_splits)
  then show False using f assms(2) by (auto simp: free_run_def)
qed

lemma find_run_spec:
  assumes "run_at free run start a" "run < need" "\<And>s. s + need \<le> a \<Longrightarrow> \<not> free_run free need s"
  shows "case find_run free need run start [a..<n] of
      Some s \<Rightarrow> free_run free need s \<and> s + need \<le> n \<and> (\<forall>s' < s. \<not> free_run free need s')
    | None \<Rightarrow> \<forall>s. s + need \<le> n \<longrightarrow> a < n \<longrightarrow> \<not> free_run free need s"
  using assms
proof (induction "n - a" arbitrary: a run start)
  case 0 then show ?case by simp
next
  case (Suc d)
  then have an: "a < n" by simp
  then have u: "[a..<n] = a # [a + 1..<n]" by (simp add: upt_conv_Cons)
  have d: "d = n - (a + 1)" using Suc.hyps(2) by simp
  let ?start = "if run = 0 then a else start"
  show ?case
  proof (cases "free a")
    case False
    have no: "\<not> free_run free need s" if "s + need \<le> a + 1" for s
    proof (cases "s + need = a + 1")
      case True
      then show ?thesis using False Suc.prems(2) by (auto simp: free_run_def intro!: exI [of _ a])
    qed (use Suc.prems(3) that in auto)
    have "run_at free 0 start (a + 1)" using False by (simp add: run_at_def)
    from Suc.hyps(1) [OF d this _ no] Suc.prems(2)
    show ?thesis
      using False no by (auto simp: u split: option.splits)
  next
    case True
    note nxt = run_at_next [OF Suc.prems(1) True]
    show ?thesis
    proof (cases "need \<le> run + 1")
      case le: True
      have "need = run + 1" using le Suc.prems(2) by simp
      then have st: "free_run free need ?start" "?start + need = a + 1" using nxt by (auto simp: run_at_def split: if_splits)
      have "\<not> free_run free need s'" if "s' < ?start" for s'
        using Suc.prems(3) [of s'] that st(2) by linarith
      then show ?thesis using True le st an by (simp add: u)
    next
      case False
      have no: "\<not> free_run free need s" if "s + need \<le> a + 1" for s
        using run_at_longest [OF Suc.prems(1), of s need] Suc.prems(3) [of s] that False by (cases "s + need = a + 1") auto
      from Suc.hyps(1) [OF d nxt _ no] False
      show ?thesis
        using True no by (auto simp: u Let_def split: option.splits)
    qed
  qed
qed

lemma find_run_free:
  assumes "0 < need"
  shows "case find_run free need 0 0 [0..<n] of
      Some s \<Rightarrow> free_run free need s \<and> s + need \<le> n \<and> (\<forall>s' < s. \<not> free_run free need s')
    | None \<Rightarrow> \<forall>s. s + need \<le> n \<longrightarrow> \<not> free_run free need s"
  using find_run_spec [of free 0 0 0 need n] assms by (auto simp: run_at_def split: option.splits)

lemma find_run_is_free: "find_run free need 0 0 [0..<n] = Some s \<Longrightarrow> free_run free need s"
  using find_run_free [of need n free] by (cases "need = 0") (auto simp: free_run_def)

subsection \<open>PTIM objects\<close>

lemma bind_slots_simps:
  defines "inside p start i \<equiv> start \<le> i \<and> i < start + unat (ptb_Size p)"
  shows "mc_EqpNum (bind_slots p start m) i = (if inside p start i then ptb_EqpNum p else mc_EqpNum m i)"
    "mc_EqpClass (bind_slots p start m) i = (if inside p start i then CtrDrvrConnectionClassPTIM else mc_EqpClass m i)"
    "mc_Trigs (bind_slots p start m) i = (if inside p start i then (mc_Trigs m i)\<lparr> tr_Counter := ucast (ptb_Counter p) \<rparr> else mc_Trigs m i)"
    "mc_Clients (bind_slots p start m) = mc_Clients m" "mc_HardClients (bind_slots p start m) = mc_HardClients m"
    "mc_Map (bind_slots p start m) = mc_Map m" "mc_InterruptEnable (bind_slots p start m) = mc_InterruptEnable m"
proof -
  define step where "step = (\<lambda>i (m :: ctr_module). m\<lparr> mc_EqpNum := (mc_EqpNum m)(i := ptb_EqpNum p),
      mc_EqpClass := (mc_EqpClass m)(i := CtrDrvrConnectionClassPTIM),
      mc_Trigs := (mc_Trigs m)(i := (mc_Trigs m i)\<lparr> tr_Counter := ucast (ptb_Counter p) \<rparr>) \<rparr>)"
  have step: "mc_EqpNum (step j m) = (mc_EqpNum m)(j := ptb_EqpNum p)"
    "mc_EqpClass (step j m) = (mc_EqpClass m)(j := CtrDrvrConnectionClassPTIM)"
    "mc_Trigs (step j m) = (mc_Trigs m)(j := (mc_Trigs m j)\<lparr> tr_Counter := ucast (ptb_Counter p) \<rparr>)"
    "mc_Clients (step j m) = mc_Clients m" "mc_HardClients (step j m) = mc_HardClients m" "mc_Map (step j m) = mc_Map m"
    "mc_InterruptEnable (step j m) = mc_InterruptEnable m" for j m
    by (simp_all add: step_def)
  let ?m = "\<lambda>n. fold step [start..<start + n] m"
  have f: "mc_EqpNum (?m n) i = (if start \<le> i \<and> i < start + n then ptb_EqpNum p else mc_EqpNum m i) \<and>
      mc_EqpClass (?m n) i = (if start \<le> i \<and> i < start + n then CtrDrvrConnectionClassPTIM else mc_EqpClass m i) \<and>
      mc_Trigs (?m n) i = (if start \<le> i \<and> i < start + n then (mc_Trigs m i)\<lparr> tr_Counter := ucast (ptb_Counter p) \<rparr> else mc_Trigs m i) \<and>
      mc_Clients (?m n) = mc_Clients m \<and> mc_HardClients (?m n) = mc_HardClients m \<and> mc_Map (?m n) = mc_Map m \<and>
      mc_InterruptEnable (?m n) = mc_InterruptEnable m" for n i
  proof (induction n arbitrary: i)
    case (Suc n)
    have "mc_Trigs (?m n) (start + n) = mc_Trigs m (start + n)" using Suc [of "start + n"] by simp
    then show ?case using Suc by (cases "i = start + n") (auto simp: step)
  qed auto
  have b: "bind_slots p start m = ?m (unat (ptb_Size p))" by (simp add: bind_slots_def step_def)
  note g = f [of "unat (ptb_Size p)", folded b]
  show "mc_EqpNum (bind_slots p start m) i = (if inside p start i then ptb_EqpNum p else mc_EqpNum m i)"
    "mc_EqpClass (bind_slots p start m) i = (if inside p start i then CtrDrvrConnectionClassPTIM else mc_EqpClass m i)"
    "mc_Trigs (bind_slots p start m) i = (if inside p start i then (mc_Trigs m i)\<lparr> tr_Counter := ucast (ptb_Counter p) \<rparr> else mc_Trigs m i)"
    "mc_Clients (bind_slots p start m) = mc_Clients m" "mc_HardClients (bind_slots p start m) = mc_HardClients m"
    "mc_Map (bind_slots p start m) = mc_Map m" "mc_InterruptEnable (bind_slots p start m) = mc_InterruptEnable m"
    using g by (simp_all add: inside_def)
qed

definition binding_ok :: "CtrDrvrPtimBinding \<Rightarrow> bool" where
  "binding_ok p \<longleftrightarrow> ptb_EqpNum p \<noteq> 0 \<and> unat (ptb_Counter p) < CtrDrvrCOUNTERS"

lemma bind_slots_ok:
  assumes "module_ok m" "binding_ok p" "free_run (\<lambda>i. mc_EqpNum m i = 0) (unat (ptb_Size p)) start"
  shows "module_ok (bind_slots p start m)"
proof -
  have ok: "tables_ok m" "mirrored m" using assms(1) by (simp_all add: module_ok_def)
  have "slot_ok (bind_slots p start m) i" if "i < CtrDrvrRamTableSIZE" for i
  proof (cases "start \<le> i \<and> i < start + unat (ptb_Size p)")
    case True
    then have "mc_EqpNum m i = 0" using assms(3) by (auto simp: free_run_def)
    then show ?thesis
      using tables_okD(1) [OF ok(1) that] assms(2) True
      by (auto simp: slot_ok_def bind_slots_simps binding_ok_def ctr_classes unsigned_ucast_eq take_bit_nat_eq_self CtrDrvrCOUNTERS_def)
  next
    case False
    then have "mc_EqpNum (bind_slots p start m) i = mc_EqpNum m i" "mc_EqpClass (bind_slots p start m) i = mc_EqpClass m i"
      "mc_Trigs (bind_slots p start m) i = mc_Trigs m i" by (simp_all only: bind_slots_simps if_False)
    then show ?thesis using tables_okD(1) [OF ok(1) that] by (auto simp: slot_ok_def bind_slots_simps(4-))
  qed
  then have "tables_ok (bind_slots p start m)"
    using ok(1) unfolding tables_ok_def by (auto simp: bind_slots_simps ctr_classes)
  moreover have "mirrored (bind_slots p start m)" using ok(2) by (simp add: mirrored_def bind_slots_simps)
  ultimately show ?thesis by (simp add: module_ok_def)
qed

lemma wa_ok_Ptim:
  "wa_ok wa \<Longrightarrow> (\<And>p. p \<in> set ps \<Longrightarrow> p \<in> set (wa_Ptim wa) \<or> (ptb_EqpNum p \<noteq> 0 \<and> unat (ptb_ModuleIndex p) < CtrDrvrMODULE_CONTEXTS)) \<Longrightarrow>
     wa_ok (wa\<lparr> wa_Ptim := ps \<rparr>)"
  by (auto simp: wa_ok_def)

lemma wa_ok_Ctim:
  "wa_ok wa \<Longrightarrow> (\<And>b. b \<in> set bs \<Longrightarrow> ctb_EqpNum b \<noteq> 0) \<Longrightarrow> wa_ok (wa\<lparr> wa_Ctim := bs \<rparr>)"
  by (auto simp: wa_ok_def)

lemma create_ptim_ok:
  assumes "wa_ok wa" "binding_ok p" shows "wa_ok (snd (create_ptim p wa))"
proof (cases "unat (ptb_ModuleIndex p) < wa_Modules wa")
  case True
  have k: "unat (ptb_ModuleIndex p) < CtrDrvrMODULE_CONTEXTS" using wa_okD(3) [OF assms(1) True] .
  have "wa_ok ((wa_mod (unat (ptb_ModuleIndex p)) (bind_slots p s (wa_ModuleContexts wa (unat (ptb_ModuleIndex p)))) wa)
      \<lparr> wa_Ptim := wa_Ptim wa @ [p\<lparr> ptb_StartIndex := of_nat s \<rparr>] \<rparr>)"
    if "find_run (\<lambda>i. mc_EqpNum (wa_ModuleContexts wa (unat (ptb_ModuleIndex p))) i = 0) (unat (ptb_Size p)) 0 0 [0..<CtrDrvrRamTableSIZE] = Some s" for s
    using assms(2) k by (intro wa_ok_Ptim wa_ok_mod [OF assms(1)] bind_slots_ok [OF wa_okD(1) [OF assms(1) k] assms(2) find_run_is_free [OF that]])
      (auto simp: binding_ok_def)
  then show ?thesis using assms(1) True by (auto simp: create_ptim_def Let_def split: option.splits)
qed (use assms(1) in \<open>simp add: create_ptim_def\<close>)

text \<open>
  C20: \<^verbatim>\<open>CREATE_PTIM_OBJECT\<close> with a new number for an installed module takes the lowest run of free slots
  of the size asked for, binds exactly these slots to the object, with its counter, and records the
  binding with their start; it fails exactly when the table has no such run, and then changes nothing.
\<close>

theorem ptim_first_fit:
  assumes "0 < unat (ptb_Size p)" and "unat (ptb_ModuleIndex p) < wa_Modules wa"
    and "\<not> list_ex (\<lambda>x. ptb_EqpNum x = ptb_EqpNum p) (wa_Ptim wa)" "length (wa_Ptim wa) < CtrDrvrPtimOBJECTS"
    and run: "table_ioctl k (CREATE_PTIM_OBJECT p) wa = (r, wa')"
  shows "let j = unat (ptb_ModuleIndex p); n = unat (ptb_Size p); m = wa_ModuleContexts wa j; m' = wa_ModuleContexts wa' j;
             is_run = (\<lambda>s. s + n \<le> CtrDrvrRamTableSIZE \<and> (\<forall>i. s \<le> i \<longrightarrow> i < s + n \<longrightarrow> mc_EqpNum m i = 0)) in
    (r = Inr Reply_OK \<and> (\<exists>s. is_run s \<and> (\<forall>s' < s. \<not> is_run s') \<and>
       wa_Ptim wa' = wa_Ptim wa @ [p\<lparr> ptb_StartIndex := of_nat s \<rparr>] \<and>
       (\<forall>i. if s \<le> i \<and> i < s + n
          then mc_EqpNum m' i = ptb_EqpNum p \<and> mc_EqpClass m' i = CtrDrvrConnectionClassPTIM \<and> tr_Counter (mc_Trigs m' i) = ucast (ptb_Counter p)
          else mc_EqpNum m' i = mc_EqpNum m i \<and> mc_EqpClass m' i = mc_EqpClass m i \<and> mc_Trigs m' i = mc_Trigs m i))) \<or>
    (r = Inl EINVAL \<and> wa' = wa \<and> (\<forall>s. \<not> is_run s))"
proof -
  define m where "m = wa_ModuleContexts wa (unat (ptb_ModuleIndex p))"
  note f = find_run_free [OF assms(1), of CtrDrvrRamTableSIZE "\<lambda>i. mc_EqpNum m i = 0", unfolded free_run_def]
  show ?thesis
  proof (cases "find_run (\<lambda>i. mc_EqpNum m i = 0) (unat (ptb_Size p)) 0 0 [0..<CtrDrvrRamTableSIZE]")
    case None
    then show ?thesis using run assms(2-4) f by (auto simp: create_ptim_def m_def Let_def)
  next
    case (Some s)
    then have w: "r = Inr Reply_OK" "wa' = (wa_mod (unat (ptb_ModuleIndex p)) (bind_slots p s m) wa)\<lparr> wa_Ptim := wa_Ptim wa @ [p\<lparr> ptb_StartIndex := of_nat s \<rparr>] \<rparr>"
      using run assms(2-4) by (auto simp: create_ptim_def m_def Let_def)
    have "s + unat (ptb_Size p) \<le> CtrDrvrRamTableSIZE" "\<forall>i. s \<le> i \<longrightarrow> i < s + unat (ptb_Size p) \<longrightarrow> mc_EqpNum m i = 0"
      "\<forall>s' < s. \<not> (\<forall>i. s' \<le> i \<longrightarrow> i < s' + unat (ptb_Size p) \<longrightarrow> mc_EqpNum m i = 0)"
      using f by (simp_all add: Some)
    then show ?thesis
      unfolding Let_def m_def [symmetric] by (intro disjI1 conjI exI [of _ s]) (auto simp: w bind_slots_simps)
  qed
qed

subsection \<open>Destroying\<close>

lemma clear_slot_ok:
  assumes "module_ok m" "mc_Clients m i = 0"
  shows "module_ok (clear_slot i m)"
proof -
  have ok: "tables_ok m" "mirrored m" using assms(1) by (simp_all add: module_ok_def)
  have "slot_ok (clear_slot i m) j" if "j < CtrDrvrRamTableSIZE" for j
    using tables_okD(1) [OF ok(1) that] assms(2)
    by (cases "j = i") (auto simp: slot_ok_def clear_slot_def zero_trigger_def CtrDrvrCOUNTERS_def ctr_classes)
  then have "tables_ok (clear_slot i m)" using ok(1) unfolding tables_ok_def
    by (auto simp: clear_slot_def ctr_classes)
  then show ?thesis using ok(2) by (simp add: module_ok_def mirrored_def clear_slot_def)
qed

lemma clear_slot_Clients [simp]: "mc_Clients (clear_slot i m) = mc_Clients m" "mc_HardClients (clear_slot i m) = mc_HardClients m"
  by (simp_all add: clear_slot_def)

lemma clear_slots_ok:
  assumes "module_ok m" "\<And>i. i \<in> set is \<Longrightarrow> ptim_slot e m i \<Longrightarrow> mc_Clients m i = 0"
  shows "module_ok (fold (\<lambda>i m. if ptim_slot e m i then clear_slot i m else m) is m) \<and>
    mc_Clients (fold (\<lambda>i m. if ptim_slot e m i then clear_slot i m else m) is m) = mc_Clients m \<and>
    mc_HardClients (fold (\<lambda>i m. if ptim_slot e m i then clear_slot i m else m) is m) = mc_HardClients m"
  using assms
proof (induction "is" arbitrary: m)
  case (Cons i "is")
  define m1 where "m1 = (if ptim_slot e m i then clear_slot i m else m)"
  have "module_ok m1" "mc_Clients m1 = mc_Clients m" "mc_HardClients m1 = mc_HardClients m"
    using Cons.prems clear_slot_ok by (auto simp: m1_def)
  moreover have "ptim_slot e m j" if "ptim_slot e m1 j" for j
    using that by (auto simp: m1_def ptim_slot_def clear_slot_def ctr_classes split: if_splits)
  ultimately show ?case using Cons.IH [of m1] Cons.prems(2) by (simp add: m1_def [symmetric])
qed simp

section \<open>Steps that disturb no subscription\<close>

text \<open>
  The working area stays well formed, the same clients are open, and a client that is not open gets
  on no slot or source.
\<close>

definition quiet :: "ctr_wa \<Rightarrow> ctr_wa \<Rightarrow> bool" where
  "quiet wa wa' \<longleftrightarrow> wa_ok wa' \<and> wa_Modules wa' = wa_Modules wa \<and>
     (\<forall>c. cc_InUse (wa_ClientContexts wa' c) = 0 \<longleftrightarrow> cc_InUse (wa_ClientContexts wa c) = 0) \<and>
     (\<forall>k c. cc_InUse (wa_ClientContexts wa c) = 0 \<longrightarrow> unsubscribed c (wa_ModuleContexts wa k) \<longrightarrow>
        unsubscribed c (wa_ModuleContexts wa' k))"

lemma quiet_refl [simp]: "wa_ok wa \<Longrightarrow> quiet wa wa"
  by (simp add: quiet_def)

lemma quiet_ok: "quiet wa wa' \<Longrightarrow> wa_ok wa'"
  by (simp add: quiet_def)

lemma unsubscribed_cong:
  "mc_Clients m' = mc_Clients m \<Longrightarrow> mc_HardClients m' = mc_HardClients m \<Longrightarrow> unsubscribed c m' = unsubscribed c m"
  by (simp add: unsubscribed_def)

lemma quiet_mod:
  "wa_ok wa \<Longrightarrow> module_ok m \<Longrightarrow> (\<And>c. cc_InUse (wa_ClientContexts wa c) = 0 \<Longrightarrow> unsubscribed c (wa_ModuleContexts wa k) \<Longrightarrow> unsubscribed c m) \<Longrightarrow>
     quiet wa (wa_mod k m wa)"
  by (simp add: quiet_def wa_ok_mod)

lemma quiet_same:
  assumes "wa_ok wa" "k < CtrDrvrMODULE_CONTEXTS" "same_tables (wa_ModuleContexts wa k) m"
  shows "quiet wa (wa_mod k m wa)"
proof (rule quiet_mod [OF assms(1)])
  show "module_ok m" using wa_okD(1) [OF assms(1,2)] same_tables_module_ok [OF assms(3)] by simp
  show "unsubscribed c m" if "unsubscribed c (wa_ModuleContexts wa k)" for c
    using that unsubscribed_cong [of m "wa_ModuleContexts wa k" c] assms(3) by (simp add: same_tables_def)
qed

lemma quiet_cli:
  "wa_ok wa \<Longrightarrow> client_ok n c \<Longrightarrow> cc_InUse c = cc_InUse (wa_ClientContexts wa n) \<Longrightarrow> quiet wa (wa_cli n c wa)"
  by (simp add: quiet_def wa_ok_cli)

lemma quiet_fields [simp]:
  "quiet wa (wa'\<lparr> wa_Timers := ts \<rparr>) = quiet wa wa'" "quiet wa (wa'\<lparr> wa_Bus := u \<rparr>) = quiet wa wa'"
  "quiet wa (wa'\<lparr> wa_debug_isr := d \<rparr>) = quiet wa wa'"
  by (simp_all add: quiet_def wa_ok_def)

lemma quiet_bindings:
  "quiet wa wa' \<Longrightarrow> wa_ok (wa'\<lparr> wa_Ptim := ps \<rparr>) \<Longrightarrow> quiet wa (wa'\<lparr> wa_Ptim := ps \<rparr>)"
  "quiet wa wa' \<Longrightarrow> wa_ok (wa'\<lparr> wa_Ctim := bs \<rparr>) \<Longrightarrow> quiet wa (wa'\<lparr> wa_Ctim := bs \<rparr>)"
  by (simp_all add: quiet_def)

lemma quiet_steps: "quiet wa wa' \<Longrightarrow> quiet wa' wa'' \<Longrightarrow> quiet wa wa''"
  by (simp add: quiet_def)

lemma unsubscribed_drop:
  "only_drops ci (mc_Clients m) (mc_Clients m') \<Longrightarrow> only_drops ci (mc_HardClients m) (mc_HardClients m') \<Longrightarrow>
     unsubscribed c m \<Longrightarrow> unsubscribed c m'"
  using only_drops_clear [of ci "mc_Clients m" "mc_Clients m'"] only_drops_clear [of ci "mc_HardClients m" "mc_HardClients m'"]
  unfolding unsubscribed_def by blast

lemma quiet_dropped: "wa_dropped ci wa wa' \<Longrightarrow> quiet wa wa'"
  unfolding quiet_def wa_dropped_def by (auto intro: unsubscribed_drop)

subsection \<open>Tables\<close>

lemma set_swap_remove: "set (swap_remove i xs) \<subseteq> set xs"
proof (cases "xs = []")
  case False
  have "set (butlast (xs[i := last xs])) \<subseteq> insert (last xs) (set xs)"
    by (meson in_set_butlastD set_update_subset_insert subset_iff)
  then show ?thesis using last_in_set [OF False] by (simp add: swap_remove_def insert_absorb)
qed (simp add: swap_remove_def)

lemma destroy_ptim_quiet:
  assumes "wa_ok wa" shows "quiet wa (snd (destroy_ptim p wa))"
proof -
  define k where "k = unat (ptb_ModuleIndex p)"
  define m where "m = wa_ModuleContexts wa k"
  let ?f = "\<lambda>i m. if ptim_slot (ptb_EqpNum p) m i then clear_slot i m else m"
  let ?m = "fold ?f [0..<CtrDrvrRamTableSIZE] m"
  have q: "quiet wa ((wa_mod k ?m wa)\<lparr> wa_Ptim := ps \<rparr>)"
    if "k < wa_Modules wa" "\<not> list_ex (\<lambda>i. mc_Clients m i \<noteq> 0) (filter (ptim_slot (ptb_EqpNum p) m) [0..<CtrDrvrRamTableSIZE])" "set ps \<subseteq> set (wa_Ptim wa)" for ps
  proof -
    have ok: "module_ok m" using wa_okD(1) [OF assms wa_okD(3) [OF assms that(1)]] by (simp add: m_def)
    have c: "module_ok ?m \<and> mc_Clients ?m = mc_Clients m \<and> mc_HardClients ?m = mc_HardClients m"
      using that(2) by (intro clear_slots_ok [OF ok]) (auto simp: list_ex_iff)
    then have "quiet wa (wa_mod k ?m wa)"
      using unsubscribed_cong [of ?m m] by (intro quiet_mod [OF assms]) (auto simp: m_def)
    then show ?thesis using that(3) quiet_ok by (intro quiet_bindings wa_ok_Ptim) auto
  qed
  have "set (case first_index (\<lambda>x. ptb_EqpNum x = ptb_EqpNum p) (wa_Ptim wa) of Some i \<Rightarrow> swap_remove i (wa_Ptim wa) | None \<Rightarrow> wa_Ptim wa)
      \<subseteq> set (wa_Ptim wa)" by (simp add: set_swap_remove split: option.split)
  note q' = q [OF _ _ this]
  show ?thesis
    using assms q' by (simp add: destroy_ptim_def Let_def k_def [symmetric] m_def [symmetric] not_le)
qed

lemma create_ptim_quiet:
  assumes "wa_ok wa" "binding_ok p" shows "quiet wa (snd (create_ptim p wa))"
proof -
  have "wa_Modules (snd (create_ptim p wa)) = wa_Modules wa \<and> wa_ClientContexts (snd (create_ptim p wa)) = wa_ClientContexts wa \<and>
      (\<forall>k. mc_Clients (wa_ModuleContexts (snd (create_ptim p wa)) k) = mc_Clients (wa_ModuleContexts wa k) \<and>
           mc_HardClients (wa_ModuleContexts (snd (create_ptim p wa)) k) = mc_HardClients (wa_ModuleContexts wa k))"
    by (auto simp: create_ptim_def Let_def bind_slots_simps split: option.splits)
  then show ?thesis
    using create_ptim_ok [OF assms] by (auto simp: quiet_def unsubscribed_def)
qed

definition table_cmd_ok :: "table_cmd \<Rightarrow> bool" where
  "table_cmd_ok c = (case c of CREATE_CTIM_OBJECT b \<Rightarrow> ctb_EqpNum b \<noteq> 0 | CREATE_PTIM_OBJECT p \<Rightarrow> binding_ok p | _ \<Rightarrow> True)"

lemma ctim_result_quiet:
  "wa_ok wa \<Longrightarrow> (\<And>bs. r = Inr bs \<Longrightarrow> \<forall>b \<in> set bs. ctb_EqpNum b \<noteq> 0) \<Longrightarrow> quiet wa (snd (ctim_result wa r))"
  by (cases r) (auto simp: ctim_result_def intro!: quiet_bindings wa_ok_Ctim)

lemma first_index_nth: "first_index P xs = Some i \<Longrightarrow> i < length xs \<and> P (xs ! i)"
  by (induction xs arbitrary: i) (auto split: if_splits)

lemma table_ioctl_quiet:
  assumes "wa_ok wa" "k < CtrDrvrMODULE_CONTEXTS" "table_cmd_ok c"
  shows "quiet wa (snd (table_ioctl k c wa))"
proof (cases c)
  case (SET_ACTION act)
  have "quiet wa (wa_mod k (set_action act i (wa_ModuleContexts wa k)) wa)"
    if "i < CtrDrvrRamTableSIZE" "action_allowed act i (wa_ModuleContexts wa k)" for i
    by (rule quiet_mod [OF assms(1) set_action_ok [OF wa_okD(1) [OF assms(1,2)] that]])
      (simp add: unsubscribed_def set_action_def Let_def)
  then show ?thesis using assms(1)
    by (auto simp: SET_ACTION Let_def slot_of_trigger_def split: option.splits if_splits)
next
  case (CREATE_CTIM_OBJECT b)
  then show ?thesis using assms
    by (auto simp: create_ctim_def table_cmd_ok_def wa_ok_def split: if_splits intro!: ctim_result_quiet)
next
  case (DESTROY_CTIM_OBJECT e)
  have "\<forall>b \<in> set (swap_remove i (wa_Ctim wa)). ctb_EqpNum b \<noteq> 0" for i
    using assms(1) set_swap_remove [of i "wa_Ctim wa"] by (auto simp: wa_ok_def)
  then show ?thesis using assms(1)
    by (auto simp: DESTROY_CTIM_OBJECT destroy_ctim_def split: if_splits option.splits intro!: ctim_result_quiet)
next
  case (CHANGE_CTIM_FRAME b)
  have "\<forall>x \<in> set ((wa_Ctim wa)[i := (wa_Ctim wa ! i)\<lparr> ctb_Frame := f \<rparr>]). ctb_EqpNum x \<noteq> 0" if "i < length (wa_Ctim wa)" for i f
    using assms(1) that set_update_subset_insert [of "wa_Ctim wa" i] by (fastforce simp: wa_ok_def)
  then show ?thesis using assms(1)
    by (auto simp: CHANGE_CTIM_FRAME change_ctim_frame_def split: if_splits option.splits
        dest!: first_index_nth intro!: ctim_result_quiet)
next
  case (CREATE_PTIM_OBJECT p)
  then show ?thesis using assms(1,3) create_ptim_quiet by (simp add: table_cmd_ok_def)
qed (use assms(1) destroy_ptim_quiet in \<open>auto split: option.splits\<close>)

subsection \<open>Clients and the driver\<close>

lemma client_ioctl_ok:
  "client_ok n c \<Longrightarrow> client_ok n (snd (client_ioctl cmd c)) \<and> cc_InUse (snd (client_ioctl cmd c)) = cc_InUse c"
  by (cases cmd) (simp_all add: client_ok_def)

lemma reset_ok:
  assumes "tables_ok m"
  shows "module_ok (reset_end (ResetTimeout (fst (reset_begin k m ts))))"
    "mc_Clients (reset_end m) = mc_Clients m" "mc_HardClients (reset_end m) = mc_HardClients m"
proof -
  define m1 where "m1 = ResetTimeout (fst (reset_begin k m ts))"
  have s: "same_tables m m1"
    by (simp add: m1_def same_tables_def ResetTimeout_def reset_begin_def Let_def ram_def split: prod.splits)
  have out: "same_ram b (fold default_out_mask is b') = same_ram b b'" for "is" b b'
    by (induction "is" arbitrary: b') (simp_all add: default_out_mask_def ram_def)
  have pll: "same_ram b (Io32Write pll_regs ws b') = same_ram b b'" for ws b b'
    by (rule same_ram_Io32Write) (simp add: pll_regs_def list_all_iff ram_def)
  define b where "b = Io32Write pll_regs (pll_defaults (mc_Pll m1))
      (HWr (push_bit 8 (ma_InterruptLevel (mc_Address m1)) OR (ma_InterruptVector (mc_Address m1) AND 0xFF)) R_Setup
        (HWr (output_byte_word (mc_OutputByte m1)) R_OutputByte
          (fold default_out_mask [CtrDrvrCounter1..<CtrDrvrCounter8 + 1]
            (HWr (mc_Command m1 AND NOT CtrDrvrCommandSET_HPTDC) R_Command (mc_Map m1)))))"
  have b: "same_ram (mc_Map m1) b" by (simp add: b_def pll out ram_def)
  have e: "reset_end m1 = (let m2 = EnableInterrupts (mc_InterruptEnable m1) (m1\<lparr> mc_Command := mc_Command m1 AND NOT CtrDrvrCommandSET_HPTDC,
       mc_Pll := pll_defaults (mc_Pll m1), mc_Map := b \<rparr>) in m2\<lparr> mc_Map := HptdcStateReset (mc_Map m2) \<rparr>)"
    by (simp only: reset_end_def Let_def b_def)
  have "same_tables m1 (m1\<lparr> mc_Command := c, mc_Pll := p, mc_Map := b \<rparr>)" for c p
    using b by (simp add: same_tables_def same_ram_def)
  then have "tables_ok (m1\<lparr> mc_Command := c, mc_Pll := p, mc_Map := b \<rparr>)" for c p
    using same_tables_tables_ok s assms by metis
  then have "module_ok (EnableInterrupts h (m1\<lparr> mc_Command := c, mc_Pll := p, mc_Map := b \<rparr>))" for h c p
    by (rule EnableInterrupts_restores)
  moreover have "same_tables m2 (m2\<lparr> mc_Map := HptdcStateReset (mc_Map m2) \<rparr>)" for m2
    by (intro same_tables_Map) simp
  ultimately show "module_ok (reset_end m1)" unfolding e Let_def using same_tables_module_ok by blast
  show "mc_Clients (reset_end m) = mc_Clients m" "mc_HardClients (reset_end m) = mc_HardClients m"
    by (simp_all add: reset_end_def Let_def)
qed

lemma sleep_result_quiet:
  assumes "wa_ok wa" "sleep_result k wa r = Inr (x, wa')"
    and "\<And>m ts. r = Inr (m, ts) \<Longrightarrow> module_ok m \<and> mc_Clients m = mc_Clients (wa_ModuleContexts wa k) \<and> mc_HardClients m = mc_HardClients (wa_ModuleContexts wa k)"
  shows "quiet wa wa'"
proof -
  obtain m ts where r: "r = Inr (m, ts)" "wa' = (wa_mod k m wa)\<lparr> wa_Timers := ts \<rparr>"
    using assms(2) by (auto simp: sleep_result_def bind_r_def split: sum.splits)
  from assms(3) [OF r(1)] show ?thesis
    unfolding r(2) using quiet_mod [OF assms(1), of m k] unsubscribed_cong [of m "wa_ModuleContexts wa k"] by simp
qed

lemma Reset_keeps:
  "tables_ok m \<Longrightarrow> Reset k m ts = Inr (m', ts') \<Longrightarrow> module_ok m' \<and> mc_Clients m' = mc_Clients m \<and> mc_HardClients m' = mc_HardClients m"
  using reset_ok(1) [of m k ts]
  by (auto simp: Reset_def reset_ok(2,3) ResetTimeout_def reset_begin_def Let_def module_ok_def reset_end_def split: if_splits prod.splits)

lemma jtag_close_keeps:
  assumes "module_ok m" "jtag_close k m ts = Inr (m', ts')"
  shows "module_ok m' \<and> mc_Clients m' = mc_Clients m \<and> mc_HardClients m' = mc_HardClients m"
proof -
  obtain tm where "m' = (EnableInterrupts 0 (ResetTimeout (m\<lparr> mc_Semaphore := snd (sreset (mc_Semaphore m)), mc_Timer := tm \<rparr>)))
      \<lparr> mc_FlashOpen := 0, mc_IrqBalance := (if mc_IrqBalance m = 0 then 1 else mc_IrqBalance m) \<rparr>"
    using assms(2) by (auto simp: jtag_close_def ResetTimeout_def EnableInterrupts_def Let_def split: if_splits prod.splits)
  moreover have "module_ok (x\<lparr> mc_FlashOpen := f, mc_IrqBalance := g \<rparr>) = module_ok x" for x :: ctr_module and f g
    by (rule same_tables_module_ok) (simp add: same_tables_def)
  moreover have "tables_ok (ResetTimeout (m\<lparr> mc_Semaphore := s, mc_Timer := t \<rparr>)) = tables_ok m" for s t
    by (rule tables_ok_cong) (simp_all add: ResetTimeout_def)
  ultimately show ?thesis
    using assms(1) EnableInterrupts_restores by (simp add: ResetTimeout_def module_ok_def)
qed

lemma Connect_quiet:
  assumes "wa_ok wa" "n < CtrDrvrCLIENT_CONTEXTS" "cc_InUse (wa_ClientContexts wa n) \<noteq> 0" "Connect conx n wa = Inr (e, wa')"
  shows "quiet wa wa'"
proof -
  have c: "connected n conx (connect_target conx n wa) wa (e, wa')"
    using Connect_connected [OF assms(1-3), of conx] by (simp add: assms(4))
  show ?thesis
  proof (cases "e = None")
    case False
    then show ?thesis using c assms(1) by (simp add: connected_def)
  next
    case True
    then obtain m where m: "wa' = wa_mod (connect_target conx n wa) m wa" "wa_ok wa'"
      "only_adds n (mc_Clients (wa_ModuleContexts wa (connect_target conx n wa))) (mc_Clients m)"
      "only_adds n (mc_HardClients (wa_ModuleContexts wa (connect_target conx n wa))) (mc_HardClients m)"
      using c by (auto simp: connected_def)
    have "unsubscribed c m" if "cc_InUse (wa_ClientContexts wa c) = 0" "unsubscribed c (wa_ModuleContexts wa (connect_target conx n wa))" for c
    proof -
      have "c \<noteq> n" using that(1) assms(3) by auto
      then show ?thesis using that(2) m(3,4) unfolding unsubscribed_def only_adds_def by metis
    qed
    then show ?thesis using m(2) unfolding quiet_def m(1) by auto
  qed
qed

lemma DisConnect_drops:
  assumes "wa_ok wa" "module_index (sint (cx_Module conx - 1)) = Inr k"
  shows "good (wa_dropped (cc_ClientIndex (wa_ClientContexts wa n)) wa) (DisConnect conx n wa)"
proof -
  let ?ci = "cc_ClientIndex (wa_ClientContexts wa n)"
  have "k < CtrDrvrMODULE_CONTEXTS" using assms(2) by (auto simp: module_index_def split: if_splits)
  then have ok: "module_ok (wa_ModuleContexts wa k)" by (rule wa_okD(1) [OF assms(1)])
  have one: "good (dropped ?ci (wa_ModuleContexts wa k)) (if same_object conx m i then DisConnectOne i (cx_EqpClass conx) ?ci m else Inr m)"
    if "i < CtrDrvrRamTableSIZE" "dropped ?ci (wa_ModuleContexts wa k) m" "cx_EqpClass conx \<noteq> CtrDrvrConnectionClassHARD" for i m
  proof -
    have "module_ok m" using that(2) by (simp add: dropped_def)
    then have "good (dropped ?ci (wa_ModuleContexts wa k)) (disconnect_slot i (cx_EqpClass conx) ?ci m)"
      using that by (intro good_mono [OF disconnect_slot_drops]) (auto intro: dropped_trans)
    then show ?thesis using that by (auto simp: DisConnectOne_def)
  qed
  have "good (dropped ?ci (wa_ModuleContexts wa k)) (if cx_EqpClass conx \<noteq> CtrDrvrConnectionClassHARD then
      fold_r (\<lambda>i m. if same_object conx m i then DisConnectOne i (cx_EqpClass conx) ?ci m else Inr m) [0..<CtrDrvrRamTableSIZE] (wa_ModuleContexts wa k)
      else disconnect_sources ?ci (wa_ModuleContexts wa k))"
    using one ok by (auto intro!: good_fold good_mono [OF disconnect_sources_drops [OF ok]])
  then show ?thesis
    using wa_dropped_mod [of ?ci wa wa k] assms(1)
    by (auto simp: DisConnect_def Let_def assms(2) wa_dropped_def intro!: good_bind)
qed

lemma DisConnect_quiet:
  assumes "wa_ok wa" "DisConnect conx n wa = Inr wa'" shows "quiet wa wa'"
proof -
  obtain k where "module_index (sint (cx_Module conx - 1)) = Inr k"
    using assms(2) by (cases "module_index (sint (cx_Module conx - 1))") (auto simp: DisConnect_def Let_def)
  from DisConnect_drops [OF assms(1) this, of n] show ?thesis
    using quiet_dropped by (simp add: assms(2))
qed

lemma driver_ioctl_quiet:
  assumes "wa_ok wa" "n < CtrDrvrCLIENT_CONTEXTS" "cc_InUse (wa_ClientContexts wa n) \<noteq> 0"
    and run: "driver_ioctl n c wa = Inr (r, wa')"
  shows "quiet wa wa'"
proof (cases c)
  case (SET_MODULE v)
  have cl: "client_ok n (wa_ClientContexts wa n)" using wa_okD(2) [OF assms(1,2)] .
  have "quiet wa (wa_mod k ((wa_ModuleContexts wa k)\<lparr> mc_ModuleIndex := x \<rparr>) (wa_cli n ((wa_ClientContexts wa n)\<lparr> cc_ModuleIndex := k \<rparr>) wa))"
    if "k < wa_Modules wa" for k x
  proof (rule quiet_steps)
    have k: "k < CtrDrvrMODULE_CONTEXTS" using wa_okD(3) [OF assms(1) that] .
    show q: "quiet wa (wa_cli n ((wa_ClientContexts wa n)\<lparr> cc_ModuleIndex := k \<rparr>) wa)"
      using cl k by (intro quiet_cli [OF assms(1)]) (simp_all add: client_ok_def)
    show "quiet (wa_cli n ((wa_ClientContexts wa n)\<lparr> cc_ModuleIndex := k \<rparr>) wa)
        (wa_mod k ((wa_ModuleContexts wa k)\<lparr> mc_ModuleIndex := x \<rparr>) (wa_cli n ((wa_ClientContexts wa n)\<lparr> cc_ModuleIndex := k \<rparr>) wa))"
      using quiet_same [OF quiet_ok [OF q] k] by (simp add: same_tables_def)
  qed
  moreover have "nat (sint v - 1) < wa_Modules wa" if "1 \<le> sint v" "sint v \<le> int (wa_Modules wa)" using that by linarith
  ultimately show ?thesis using run assms(1) by (auto simp: SET_MODULE Let_def split: if_splits)
next
  case (GET_CLIENT_CONNECTIONS pid)
  then show ?thesis using run assms(1) by (auto simp: bind_r_def split: sum.splits)
next
  case (CONNECT conx)
  then obtain e where "Connect conx n wa = Inr (e, wa')"
    using run by (auto simp: bind_r_def status_reply_def split: sum.splits)
  then show ?thesis by (rule Connect_quiet [OF assms(1-3)])
next
  case (DISCONNECT conx)
  then have "(if cx_EqpNum conx \<noteq> 0 then DisConnect conx n wa else DisConnectAll n wa) = Inr wa'"
    using run by (auto simp: bind_r_def split: sum.splits)
  moreover have "DisConnectAll n wa = Inr wa' \<Longrightarrow> quiet wa wa'"
    using DisConnectAll_drops [OF assms(1) refl, of n] quiet_dropped by (auto simp: good_iff)
  ultimately show ?thesis using DisConnect_quiet [OF assms(1)] by (auto split: if_splits)
next
  case RESET
  have k: "cc_ModuleIndex (wa_ClientContexts wa n) < CtrDrvrMODULE_CONTEXTS" using wa_okD(2) [OF assms(1,2)] by (simp add: client_ok_def)
  have "sleep_result (cc_ModuleIndex (wa_ClientContexts wa n)) wa (Reset (cc_ModuleIndex (wa_ClientContexts wa n))
      (wa_ModuleContexts wa (cc_ModuleIndex (wa_ClientContexts wa n))) (wa_Timers wa)) = Inr (r, wa')"
    using run by (simp add: RESET Let_def)
  then show ?thesis by (rule sleep_result_quiet [OF assms(1)]) (rule Reset_keeps [OF wa_okD(1) [OF assms(1) k, unfolded module_ok_def, THEN conjunct1]])
next
  case JTAG_CLOSE
  have k: "cc_ModuleIndex (wa_ClientContexts wa n) < CtrDrvrMODULE_CONTEXTS" using wa_okD(2) [OF assms(1,2)] by (simp add: client_ok_def)
  have "sleep_result (cc_ModuleIndex (wa_ClientContexts wa n)) wa (jtag_close (cc_ModuleIndex (wa_ClientContexts wa n))
      (wa_ModuleContexts wa (cc_ModuleIndex (wa_ClientContexts wa n))) (wa_Timers wa)) = Inr (r, wa')"
    using run by (simp add: JTAG_CLOSE Let_def)
  then show ?thesis by (rule sleep_result_quiet [OF assms(1)]) (rule jtag_close_keeps [OF wa_okD(1) [OF assms(1) k]])
qed (use run assms(1) in auto)

section \<open>Entry points and interrupts\<close>

definition cmd_ok :: "ctr_ioctl \<Rightarrow> bool" where
  "cmd_ok cmd = (case cmd of Board_cmd c \<Rightarrow> safe_board_cmd c | Table_cmd c \<Rightarrow> table_cmd_ok c | _ \<Rightarrow> True)"

lemma run_ioctl_quiet:
  assumes "wa_ok wa" "n < CtrDrvrCLIENT_CONTEXTS" "cc_InUse (wa_ClientContexts wa n) \<noteq> 0" "cmd_ok cmd"
    and run: "run_ioctl ct n cmd wa = Inr (r, wa')"
  shows "quiet wa wa'"
proof -
  have cl: "client_ok n (wa_ClientContexts wa n)" using wa_okD(2) [OF assms(1,2)] .
  then have k: "cc_ModuleIndex (wa_ClientContexts wa n) < CtrDrvrMODULE_CONTEXTS" by (simp add: client_ok_def)
  show ?thesis
  proof (cases cmd)
    case (Client_cmd c)
    then show ?thesis
      using run quiet_cli [OF assms(1), of n "snd (client_ioctl c (wa_ClientContexts wa n))"] client_ioctl_ok [OF cl, of c]
      by (auto simp: run_ioctl_def Let_def split: prod.splits)
  next
    case (Board_cmd c)
    then obtain m where m: "board_ioctl ct c (wa_ModuleContexts wa (cc_ModuleIndex (wa_ClientContexts wa n))) = Inr (r, m)"
      "wa' = wa_mod (cc_ModuleIndex (wa_ClientContexts wa n)) m wa"
      using run by (auto simp: run_ioctl_def Let_def bind_r_def split: sum.splits prod.splits)
    have "safe_board_cmd c" using assms(4) Board_cmd by (simp add: cmd_ok_def)
    then show ?thesis unfolding m(2) by (intro quiet_same [OF assms(1) k] board_ioctl_keeps [OF m(1)])
  next
    case (Table_cmd c)
    then show ?thesis
      using run table_ioctl_quiet [OF assms(1) k, of c] assms(4) by (simp add: run_ioctl_def cmd_ok_def Let_def)
  next
    case (Driver_cmd c)
    then show ?thesis using run driver_ioctl_quiet [OF assms(1-3)] by (simp add: run_ioctl_def Let_def)
  qed (use run assms(1) in \<open>simp add: run_ioctl_def Let_def\<close>)
qed

lemma charge_bus_errors_quiet:
  assumes "wa_ok wa" "k < CtrDrvrMODULE_CONTEXTS"
  shows "quiet wa (charge_bus_errors k wa)" "wa_ClientContexts (charge_bus_errors k wa) = wa_ClientContexts wa"
  using quiet_same [OF assms] by (simp_all add: charge_bus_errors_def Let_def same_tables_def split: prod.splits)

lemma minor_range:
  "0 \<le> sint w \<Longrightarrow> sint w < int CtrDrvrCLIENT_CONTEXTS \<Longrightarrow> nat (sint w) < CtrDrvrCLIENT_CONTEXTS"
  by simp

lemma CtrDrvrIoctl_quiet:
  assumes "wa_ok wa" "cmd_ok cmd" "CtrDrvrIoctl ct dev arg cmd wa = Inr (r, wa')"
  shows "quiet wa wa'"
proof -
  define n where "n = nat (sint ((dev AND 0xFF) - 1))"
  define k where "k = cc_ModuleIndex (wa_ClientContexts wa n)"
  show ?thesis
  proof (cases "arg = Garbage_arg \<or> sint ((dev AND 0xFF) - 1) < 0 \<or> sint ((dev AND 0xFF) - 1) \<ge> int CtrDrvrCLIENT_CONTEXTS \<or>
      cc_InUse (wa_ClientContexts wa n) = 0 \<or> mc_InUse (wa_ModuleContexts wa k) = 0")
    case True
    then have "wa' = wa" using assms(3) by (auto simp: CtrDrvrIoctl_def Let_def n_def k_def split: if_splits)
    then show ?thesis using assms(1) by simp
  next
    case False
    then have n: "n < CtrDrvrCLIENT_CONTEXTS" "cc_InUse (wa_ClientContexts wa n) \<noteq> 0" by (auto simp: n_def)
    have k: "k < CtrDrvrMODULE_CONTEXTS" using wa_okD(2) [OF assms(1) n(1)] by (simp add: client_ok_def k_def)
    note c = charge_bus_errors_quiet [OF assms(1) k]
    have "wa' = charge_bus_errors k wa \<or> run_ioctl ct n cmd (charge_bus_errors k wa) = Inr (r, wa')"
      using False assms(3) by (auto simp: CtrDrvrIoctl_def Let_def n_def k_def split: if_splits)
    then show ?thesis
      using c(1) quiet_steps [OF c(1)] run_ioctl_quiet [OF quiet_ok [OF c(1)] n(1) _ assms(2)] n(2) by (auto simp: c(2))
  qed
qed

subsection \<open>Deliveries\<close>

lemma client_put_fields [simp]:
  "cc_InUse (snd (client_put x c)) = cc_InUse c" "cc_ClientIndex (snd (client_put x c)) = cc_ClientIndex c"
  "cc_ModuleIndex (snd (client_put x c)) = cc_ModuleIndex c"
  by (simp_all add: client_put_def Let_def split: prod.splits)

lemma client_put_ok: "client_ok n c \<Longrightarrow> client_ok n (snd (client_put x c))"
  by (simp add: client_ok_def client_put_queue queue_put_ok)

lemma quiet_put_clients:
  assumes "wa_ok wa"
  shows "quiet wa (wa\<lparr> wa_ClientContexts := put_clients clients rbf (wa_ClientContexts wa) \<rparr>)"
  using assms client_put_ok unfolding quiet_def wa_ok_def by (simp add: put_clients_one)

lemma quiet_serve:
  assumes "wa_ok wa" "k < CtrDrvrMODULE_CONTEXTS"
  shows "quiet wa (handle_source k isrc i wa)"
proof (cases "bit isrc i")
  case True
  obtain clients rbf m where s: "serve_source i (wa_ModuleContexts wa k) = (clients, rbf, m)"
    by (cases "serve_source i (wa_ModuleContexts wa k)")
  have "same_tables (wa_ModuleContexts wa k) m"
    using s by (auto simp: serve_source_def unlock_history_def hard_buffer_def GetTime_def Let_def same_tables_def ram_def
        after_read_def clears_on_read_def split: if_splits prod.splits ctr_reg.splits)
  note q = quiet_same [OF assms this]
  show ?thesis
    using quiet_steps [OF q quiet_put_clients [OF quiet_ok [OF q]]] by (simp add: handle_source_cases(2) [OF True s])
qed (use assms(1) in \<open>simp add: handle_source_cases(1)\<close>)

lemma quiet_serves: "wa_ok wa \<Longrightarrow> k < CtrDrvrMODULE_CONTEXTS \<Longrightarrow> quiet wa (fold (handle_source k isrc) is wa)"
proof (induction "is" arbitrary: wa)
  case (Cons i "is")
  note q = quiet_serve [OF Cons.prems, of isrc i]
  show ?case using quiet_steps [OF q Cons.IH [OF quiet_ok [OF q] Cons.prems(2)]] by simp
qed simp

lemma IntrHandler_quiet_step:
  assumes "wa_ok wa" "k < CtrDrvrMODULE_CONTEXTS"
  shows "quiet wa (snd (IntrHandler k wa))"
proof -
  have h: "quiet wa (fold (handle_source k isrc) is ((wa_mod k ((wa_ModuleContexts wa k)\<lparr> mc_Map := b \<rparr>) wa)\<lparr> wa_Bus := u \<rparr>))"
    if "same_ram (mc_Map (wa_ModuleContexts wa k)) b" for isrc "is" b u
  proof -
    have "quiet wa ((wa_mod k ((wa_ModuleContexts wa k)\<lparr> mc_Map := b \<rparr>) wa)\<lparr> wa_Bus := u \<rparr>)"
      using quiet_same [OF assms same_tables_Map [OF that]] by simp
    from quiet_steps [OF this quiet_serves [OF quiet_ok [OF this] assms(2)]] show ?thesis .
  qed
  show ?thesis
    by (cases "isr_bus_error (IHRd_bus (wa_Bus wa))") (simp_all add: IntrHandler_def Let_def h)
qed

lemma GetTime_same: "GetTime b = (t, b') \<Longrightarrow> same_ram b b'"
  by (auto simp: GetTime_def Let_def ram_def)

lemma CtrDrvrWrite_quiet:
  assumes "wa_ok wa" "CtrDrvrWrite wb wa = Inr (e, wa')"
  shows "quiet wa wa'"
proof (cases "wa' = wa")
  case False
  define k where "k = nat (sint (cx_Module (wb_Connection wb) - 1))"
  obtain clients rb b u where w: "wa' = wa\<lparr> wa_ModuleContexts := (wa_ModuleContexts wa)(k := (wa_ModuleContexts wa k)\<lparr> mc_Map := b \<rparr>),
      wa_ClientContexts := put_clients clients rb (wa_ClientContexts wa), wa_Bus := u \<rparr>"
    and b: "same_ram (mc_Map (wa_ModuleContexts wa k)) b" and k: "k < CtrDrvrMODULE_CONTEXTS"
    using assms(2) False GetTime_same [of "mc_Map (wa_ModuleContexts wa k)"]
    by (auto simp: CtrDrvrWrite_def Let_def bind_r_def k_def split: if_splits sum.splits prod.splits)
  note q = quiet_same [OF assms(1) k same_tables_Map [OF b]]
  show ?thesis using quiet_steps [OF q quiet_put_clients [OF quiet_ok [OF q], of clients rb]] by (simp add: w)
qed (use assms(1) in simp)

section \<open>The system\<close>

subsection \<open>After the installation\<close>

lemma wipe_triggers_simps:
  "b_Mem (wipe_triggers b) (R_ConfigWord i) = b_Mem b (R_ConfigWord i)" "b_Mem (wipe_triggers b) R_InterruptEnable = b_Mem b R_InterruptEnable"
  "ram_is_memory (wipe_triggers b) = ram_is_memory b"
proof -
  have "b_Mem (fold (\<lambda>j b. HWr 0 (R_TrigWord j) (HWr 0 (R_TrigFrame j) b)) is b) (R_ConfigWord i) = b_Mem b (R_ConfigWord i) \<and>
      b_Mem (fold (\<lambda>j b. HWr 0 (R_TrigWord j) (HWr 0 (R_TrigFrame j) b)) is b) R_InterruptEnable = b_Mem b R_InterruptEnable \<and>
      ram_is_memory (fold (\<lambda>j b. HWr 0 (R_TrigWord j) (HWr 0 (R_TrigFrame j) b)) is b) = ram_is_memory b" for "is"
    by (induction "is" arbitrary: b) simp_all
  then show "b_Mem (wipe_triggers b) (R_ConfigWord i) = b_Mem b (R_ConfigWord i)" "b_Mem (wipe_triggers b) R_InterruptEnable = b_Mem b R_InterruptEnable"
    "ram_is_memory (wipe_triggers b) = ram_is_memory b" unfolding wipe_triggers_def by blast+
qed

text \<open>A module with empty tables.\<close>

definition vacant :: "ctr_module \<Rightarrow> bool" where
  "vacant m \<longleftrightarrow> module_ok m \<and> mc_Clients m = (\<lambda>_. 0) \<and> mc_HardClients m = (\<lambda>_. 0)"

lemma vacant_blank [simp]: "vacant module_blank"
  by (simp add: vacant_def) (simp add: module_blank_def)

lemma vacant_same: "same_tables m m' \<Longrightarrow> vacant m \<Longrightarrow> vacant m'"
  using same_tables_module_ok [of m m'] by (simp add: vacant_def same_tables_def)

lemma install_vacant:
  assumes "AddModule ker i m ts = Inr (r, m', ts')" "vacant m" "\<And>i. mc_EqpNum m i = 0"
    and ker: "\<And>w. ram_is_memory (board_at ker w)"
  shows "vacant (install_result (r, m'))"
proof -
  have addr: "same_tables m1 (m1\<lparr> mc_Address := a \<rparr>)" "same_tables m1 (m1\<lparr> mc_Address := a, mc_InUse := u \<rparr>)" for m1 :: ctr_module and a u
    by (simp_all add: same_tables_def)
  show ?thesis
  proof (cases "r = Added")
    case False
    then have "\<exists>a. m' = m\<lparr> mc_Address := a \<rparr>"
      using assms(1) by (auto simp: AddModule_def Let_def bind_r_def split: option.splits if_splits sum.splits)
    then obtain a where "m' = m\<lparr> mc_Address := a \<rparr>" ..
    then have "vacant m'" using addr(1) assms(2) vacant_same by blast
    then have "vacant (m'\<lparr> mc_Address := a \<rparr>)" "vacant (m'\<lparr> mc_Address := a, mc_InUse := u \<rparr>)" for a u
      using vacant_same [OF addr(1)] vacant_same [OF addr(2)] by blast+
    then show ?thesis using False by (cases r) (simp_all add: install_result_def Let_def)
  next
    case True
    then obtain a v b t where a: "Reset i (m\<lparr> mc_Address := a, mc_IVector := v, mc_Map := b \<rparr>) t = Inr (m', ts')" "ram_is_memory b"
      using assms(1) ker by (auto simp: AddModule_def Let_def bind_r_def split: option.splits if_splits sum.splits)
    have t: "tables_ok m" using assms(2) by (simp add: vacant_def module_ok_def)
    have c: "mc_Clients m = (\<lambda>_. 0)" "mc_HardClients m = (\<lambda>_. 0)" using assms(2) by (simp_all add: vacant_def)
    have "tables_ok (m\<lparr> mc_Address := a, mc_IVector := v, mc_Map := b \<rparr>)"
      using t a(2) assms(3) by (auto simp: tables_ok_def slot_ok_def c)
    from Reset_keeps [OF this a(1)] have m': "vacant m'" by (simp add: vacant_def c)
    have "module_ok (m'\<lparr> mc_Map := wipe_triggers (mc_Map m'), mc_InUse := 1 \<rparr>) = module_ok m'"
      by (simp add: module_ok_def mirrored_def wipe_triggers_simps) (intro conj_cong refl tables_ok_cong; simp add: wipe_triggers_simps)
    then show ?thesis using m' True by (simp add: install_result_def vacant_def Let_def)
  qed
qed

lemma info_modules: "ti_Modules (info p) \<le> CtrDrvrMODULE_CONTEXTS"
  by (auto simp: info_def BuildInfoObject_def check_args_def MAX_DEVS_def default_info_def Let_def CtrDrvrMODULE_CONTEXTS_def
      split: option.splits if_splits)

definition fresh :: "nat \<Rightarrow> ctr_wa \<Rightarrow> bool" where
  "fresh n wa \<longleftrightarrow> (\<forall>k. vacant (wa_ModuleContexts wa k)) \<and> (\<forall>k. n \<le> k \<longrightarrow> wa_ModuleContexts wa k = module_blank) \<and>
     wa_ClientContexts wa = (\<lambda>_. client_zero) \<and> wa_Ptim wa = [] \<and> wa_Ctim wa = []"

lemma CtrDrvrInstall_fresh:
  assumes "CtrDrvrInstall ker p = Inr wa" "\<And>w. ram_is_memory (board_at ker w)"
  shows "wa_ok wa \<and> wa_Modules wa = ti_Modules (info p) \<and> (\<forall>k. vacant (wa_ModuleContexts wa k)) \<and> wa_ClientContexts wa = (\<lambda>_. client_zero)"
proof -
  obtain wa1 where w: "fold_r (install_module ker (info p)) [0..<ti_Modules (info p)] wa_blank = Inr wa1"
    "wa = wa1\<lparr> wa_Modules := ti_Modules (info p) \<rparr>"
    using assms(1) by (auto simp: CtrDrvrInstall_def Let_def bind_r_def split: sum.splits)
  have "fold_r (install_module ker (info p)) [0..<n] wa_blank = Inr wa1 \<Longrightarrow> fresh n wa1" for n wa1
  proof (induction n arbitrary: wa1)
    case 0 then show ?case by (auto simp: fresh_def wa_blank_def)
  next
    case (Suc n)
    then obtain wa0 where f: "fresh n wa0" and i: "install_module ker (info p) n wa0 = Inr wa1"
      by (auto simp: fold_r_append bind_r_def split: sum.splits)
    then obtain r m ts where a: "AddModule ker n (module_blank\<lparr> mc_Address := ti_Addresses (info p) n, mc_ModuleIndex := of_nat n \<rparr>) (wa_Timers wa0) = Inr (r, m, ts)"
      "wa1 = (wa_mod n (install_result (r, m)) wa0)\<lparr> wa_Timers := ts \<rparr>"
      by (auto simp: install_module_def fresh_def bind_r_def split: sum.splits)
    have "vacant (module_blank\<lparr> mc_Address := ti_Addresses (info p) n, mc_ModuleIndex := of_nat n \<rparr>)"
      by (rule vacant_same [OF _ vacant_blank]) (simp add: same_tables_def)
    from install_vacant [OF a(1) this _ assms(2)] have "vacant (install_result (r, m))" by (simp add: module_blank_def)
    then show ?case using f by (auto simp: fresh_def a(2))
  qed
  from this [OF w(1)] have f: "fresh (ti_Modules (info p)) wa1" .
  then have "wa_ok wa" using info_modules [of p]
    by (auto simp: w(2) wa_ok_def fresh_def vacant_def client_ok_def client_zero_def CtrDrvrMODULE_CONTEXTS_def)
  then show ?thesis using f by (simp add: w(2) fresh_def)
qed

subsection \<open>Steps\<close>

text \<open>
  The calls of processes, the two timers, the interrupts, what the boards do to their own registers,
  and bus errors. A read is in two halves, before and after its sleep. Every module has been found
  with its window: a module that was only found by its JTAG port, or not at all, has the null pointer for its
  window, and a call for its board would stop the kernel. For the same reason a connection to a module that is
  not installed, which \<^verbatim>\<open>Connect\<close> does not refuse, is not a step.
\<close>

inductive ctr_step :: "ctr_wa \<Rightarrow> ctr_wa \<Rightarrow> bool" where
  Open: "CtrDrvrOpen dev pid wa = (e, wa') \<Longrightarrow> ctr_step wa wa'"
| Close: "n < CtrDrvrCLIENT_CONTEXTS \<Longrightarrow> dev AND 0xFF = of_nat n + 1 \<Longrightarrow> cc_InUse (wa_ClientContexts wa n) \<noteq> 0 \<Longrightarrow>
    CtrDrvrClose dev wa = Inr (e, wa') \<Longrightarrow> ctr_step wa wa'"
| Ioctl: "cmd_ok cmd \<Longrightarrow> CtrDrvrIoctl ct dev arg cmd wa = Inr (r, wa') \<Longrightarrow>
    (\<And>conx. cmd = Driver_cmd (CONNECT conx) \<Longrightarrow> sint (cx_Module conx) \<le> int (wa_Modules wa)) \<Longrightarrow> ctr_step wa wa'"
| Write: "CtrDrvrWrite wb wa = Inr (e, wa') \<Longrightarrow> ctr_step wa wa'"
| Read: "n < CtrDrvrCLIENT_CONTEXTS \<Longrightarrow> read_begin n (wa_ClientContexts wa n) (wa_Timers wa) = (passed, c, ts) \<Longrightarrow>
    ctr_step wa ((wa_cli n c wa)\<lparr> wa_Timers := ts \<rparr>)"
| Signal: "n < CtrDrvrCLIENT_CONTEXTS \<Longrightarrow> read_signalled n (wa_ClientContexts wa n) (wa_Timers wa) = (c, ts) \<Longrightarrow>
    ctr_step wa ((wa_cli n c wa)\<lparr> wa_Timers := ts \<rparr>)"
| Read_end: "n < CtrDrvrCLIENT_CONTEXTS \<Longrightarrow> read_end (wa_ClientContexts wa n) (wa_Timers wa) = (res, c, ts) \<Longrightarrow>
    ctr_step wa ((wa_cli n c wa)\<lparr> wa_Timers := ts \<rparr>)"
| Read_timer: "n < CtrDrvrCLIENT_CONTEXTS \<Longrightarrow> i < TIMERS \<Longrightarrow> wa_Timers wa ! i = Some (Call_ReadTimeout n) \<Longrightarrow>
    ReadTimeout (wa_ClientContexts wa n) = (ws, c) \<Longrightarrow> ctr_step wa ((wa_cli n c wa)\<lparr> wa_Timers := (wa_Timers wa)[i := None] \<rparr>)"
| Interrupt: "k < wa_Modules wa \<Longrightarrow> IntrHandler k wa = (h, wa') \<Longrightarrow> ctr_step wa wa'"
| Board: "k < wa_Modules wa \<Longrightarrow> same_ram (mc_Map (wa_ModuleContexts wa k)) b \<Longrightarrow>
    ctr_step wa (wa_mod k ((wa_ModuleContexts wa k)\<lparr> mc_Map := b \<rparr>) wa)"
| Bus_error: "ctr_step wa (wa\<lparr> wa_Bus := BusErrorHandler (wa_Bus wa) \<rparr>)"

inductive ctr_reach :: "ctr_wa \<Rightarrow> bool" where
  Install: "(\<And>w. ram_is_memory (board_at ker w)) \<Longrightarrow> CtrDrvrInstall ker p = Inr wa \<Longrightarrow>
    (\<And>k. k < wa_Modules wa \<Longrightarrow> ma_VMEAddress (mc_Address (wa_ModuleContexts wa k)) \<noteq> 0) \<Longrightarrow> ctr_reach wa"
| Step: "ctr_reach wa \<Longrightarrow> ctr_step wa wa' \<Longrightarrow> ctr_reach wa'"

text \<open>No installed module serves a client that is not open.\<close>

definition subs_ok :: "ctr_wa \<Rightarrow> bool" where
  "subs_ok wa \<longleftrightarrow> (\<forall>k < wa_Modules wa. \<forall>c < CtrDrvrCLIENT_CONTEXTS.
     cc_InUse (wa_ClientContexts wa c) = 0 \<longrightarrow> unsubscribed c (wa_ModuleContexts wa k))"

lemma quiet_subs: "quiet wa wa' \<Longrightarrow> subs_ok wa \<Longrightarrow> subs_ok wa'"
  by (simp add: quiet_def subs_ok_def)

lemma quiet_read:
  assumes "wa_ok wa" "n < CtrDrvrCLIENT_CONTEXTS" and "queue_ok (cc_Queue (wa_ClientContexts wa n)) \<Longrightarrow> queue_ok (cc_Queue c)"
    and "cc_InUse c = cc_InUse (wa_ClientContexts wa n)" "cc_ClientIndex c = cc_ClientIndex (wa_ClientContexts wa n)"
      "cc_ModuleIndex c = cc_ModuleIndex (wa_ClientContexts wa n)"
  shows "quiet wa ((wa_cli n c wa)\<lparr> wa_Timers := ts \<rparr>)"
  using quiet_cli [OF assms(1), of n c] wa_okD(2) [OF assms(1,2)] assms(3-) by (simp add: client_ok_def)

lemma read_take_fields:
  "read_take c = (r, c') \<Longrightarrow> cc_InUse c' = cc_InUse c \<and> cc_ClientIndex c' = cc_ClientIndex c \<and> cc_ModuleIndex c' = cc_ModuleIndex c"
  by (auto simp: read_take_def split: if_splits prod.splits)

lemma read_take_timer:
  "read_take (c\<lparr> cc_Timer := t \<rparr>) = (r, c') \<Longrightarrow> queue_ok (cc_Queue c) \<Longrightarrow> queue_ok (cc_Queue c')"
  using read_take_ok(1) [of "c\<lparr> cc_Timer := t \<rparr>"] by simp

lemma ctr_step_ok:
  assumes "ctr_step wa wa'" "wa_ok wa" "subs_ok wa"
  shows "wa_ok wa' \<and> subs_ok wa'"
proof -
  have q: "quiet wa x \<Longrightarrow> wa_ok x \<and> subs_ok x" for x using quiet_ok quiet_subs assms(3) by blast
  from assms(1) show ?thesis
  proof cases
    case (Open dev pid e)
    define n where "n = nat (sint ((dev AND 0xFF) - 1))"
    have "wa' = wa \<or> (n < CtrDrvrCLIENT_CONTEXTS \<and> cc_InUse (wa_ClientContexts wa n) = 0 \<and> wa' = wa_cli n (client_open n pid (wa_ClientContexts wa n)) wa)"
      using Open by (auto simp: CtrDrvrOpen_def Let_def n_def split: if_splits)
    moreover have "client_ok n (client_open n pid c)" for c
      by (simp add: client_ok_def client_open_def client_zero_def CtrDrvrMODULE_CONTEXTS_def)
    moreover have "cc_InUse (client_open n pid c) \<noteq> 0" for c by (simp add: client_open_def)
    ultimately show ?thesis using assms(2,3)
      by (auto simp: subs_ok_def split: if_splits intro!: wa_ok_cli)
  next
    case (Close n dev e)
    have d: "wa_dropped n (closing n wa) wa'" "\<forall>k < wa_Modules wa. unsubscribed n (wa_ModuleContexts wa' k)"
      using CtrDrvrClose_drops [OF assms(2) Close(1-3)] by (simp_all add: Close(4))
    have "unsubscribed c (wa_ModuleContexts wa' k)"
      if "k < wa_Modules wa" "c < CtrDrvrCLIENT_CONTEXTS" "cc_InUse (wa_ClientContexts wa' c) = 0" for k c
    proof (cases "c = n")
      case False
      then have "cc_InUse (wa_ClientContexts wa c) = 0" using that(3) d(1) by (simp add: wa_dropped_def)
      then have "unsubscribed c (wa_ModuleContexts wa k)" using assms(3) that(1,2) by (simp add: subs_ok_def)
      then show ?thesis
        using d(1) unsubscribed_drop [of n "wa_ModuleContexts wa k" "wa_ModuleContexts wa' k" c] by (simp add: wa_dropped_def)
    qed (use d(2) that(1) in simp)
    then show ?thesis using d(1) by (simp add: subs_ok_def wa_dropped_def)
  next
    case (Ioctl cmd ct dev arg r)
    show ?thesis by (rule q [OF CtrDrvrIoctl_quiet [OF assms(2) Ioctl(1,2)]])
  next
    case (Write wb e)
    show ?thesis by (rule q [OF CtrDrvrWrite_quiet [OF assms(2) Write]])
  next
    case (Read n passed c ts)
    show ?thesis unfolding Read(1) using Read(3)
      by (intro q quiet_read [OF assms(2) Read(2)]) (auto simp: read_begin_def Let_def split: if_splits prod.splits)
  next
    case (Signal n c ts)
    show ?thesis unfolding Signal(1) using Signal(3)
      by (intro q quiet_read [OF assms(2) Signal(2)]) (auto simp: read_signalled_def Let_def split: if_splits prod.splits)
  next
    case (Read_end n res c ts)
    show ?thesis unfolding Read_end(1) using Read_end(3)
      by (intro q quiet_read [OF assms(2) Read_end(2)])
        (auto simp: read_end_def Let_def dest: read_take_fields read_take_ok(1) read_take_timer split: if_splits prod.splits)
  next
    case (Read_timer n i ws c)
    show ?thesis unfolding Read_timer(1) using Read_timer(5)
      by (intro q quiet_read [OF assms(2) Read_timer(2)]) (auto simp: ReadTimeout_def Let_def split: prod.splits)
  next
    case (Interrupt k h)
    show ?thesis using q [OF IntrHandler_quiet_step [OF assms(2) wa_okD(3) [OF assms(2) Interrupt(1)]]] Interrupt(2) by simp
  next
    case (Board k b)
    show ?thesis unfolding Board(1)
      by (intro q quiet_same [OF assms(2) wa_okD(3) [OF assms(2) Board(2)]] same_tables_Map Board(3))
  next
    case Bus_error
    then show ?thesis using q [of wa'] assms(2) by simp
  qed
qed

lemma ctr_reach_ok: "ctr_reach wa \<Longrightarrow> wa_ok wa \<and> subs_ok wa"
proof (induction rule: ctr_reach.induct)
  case (Install ker p wa)
  from CtrDrvrInstall_fresh [OF Install(2,1)] show ?case
    by (simp add: subs_ok_def vacant_def unsubscribed_def)
next
  case (Step wa wa')
  then show ?case using ctr_step_ok by blast
qed

subsection \<open>What reachable states guarantee\<close>



subsection \<open>From the connection to the queue\<close>

text \<open>A raised source is served in a state whose tables and histories are those at the start.\<close>

lemma served_member:
  assumes "history_steady (mc_Map m)" "i \<in> set is" "bit isrc i"
  shows "\<exists>m1 clients rbf. (clients, rbf) \<in> set (served isrc is m) \<and> (clients, rbf) = (fst (serve_source i m1), fst (snd (serve_source i m1))) \<and>
    mc_Clients m1 = mc_Clients m \<and> mc_HardClients m1 = mc_HardClients m \<and> mc_EqpNum m1 = mc_EqpNum m \<and> mc_EqpClass m1 = mc_EqpClass m \<and>
    HRd (R_LockConfig i) (mc_Map m1) = HRd (R_LockConfig i) (mc_Map m) \<and> HRd (R_History i 0) (mc_Map m1) = HRd (R_History i 0) (mc_Map m)"
  using assms(1,2)
proof (induction "is" arbitrary: m)
  case (Cons j "is")
  obtain clients rbf m1 where s: "serve_source j m = (clients, rbf, m1)" by (cases "serve_source j m")
  show ?case
  proof (cases "j = i")
    case True
    then show ?thesis using s assms(3) by (intro exI [of _ m]) simp
  next
    case False
    then have i: "i \<in> set is" using Cons.prems(2) by simp
    show ?thesis
    proof (cases "bit isrc j")
      case False
      then show ?thesis using Cons.IH [OF Cons.prems(1) i] by simp
    next
      case True
      note k = serve_source_keeps [OF s]
      have e: "mc_EqpNum m1 = mc_EqpNum m" "mc_EqpClass m1 = mc_EqpClass m"
        using s by (auto simp: serve_source_def unlock_history_def hard_buffer_def GetTime_def Let_def split: if_splits prod.splits)
      have h: "HRd (R_LockConfig i) (mc_Map m1) = HRd (R_LockConfig i) (mc_Map m)"
        "HRd (R_History i 0) (mc_Map m1) = HRd (R_History i 0) (mc_Map m)"
        using Cons.prems(1) k(3,6,7) unfolding history_steady_def HRd_def by (metis option.case_eq_if)+
      show ?thesis
        using Cons.IH [OF recipients_steady(2) [OF Cons.prems(1) s] i] True s k(1,2) e h by auto
    qed
  qed
qed simp

text \<open>The buffer of an object, when a client of the object is among the recipients.\<close>

lemma serve_object:
  assumes "bit (object_clients i m) c" and "HRd (R_History i 0) (mc_Map m) = of_nat j" "j < CtrDrvrRamTableSIZE"
  shows "let rb = fst (snd (serve_source i m)) in bit (fst (serve_source i m)) c \<and> rb_InterruptNumber rb = of_nat i \<and>
    rb_TriggerNumber rb = of_nat j + 1 \<and> cx_EqpClass (rb_Connection rb) = mc_EqpClass m j \<and> cx_EqpNum (rb_Connection rb) = mc_EqpNum m j"
proof -
  have nz: "object_clients i m \<noteq> 0" using assms(1) by auto
  have j: "unat (of_nat j :: u32) = j" using assms(3) by (simp add: unat_of_nat CtrDrvrRamTableSIZE_def)
  show ?thesis
    using nz assms(1,2) j by (simp add: serve_source_def object_buffer_def Let_def bit_or_iff)
qed

lemma buffers_delivered:
  assumes "(clients, rb) \<in> set out" "bit clients c" shows "rb \<in> set (buffers_for c out)"
  using assms by (force simp: buffers_for_def)

lemma served_few: "length (buffers_for c (served isrc [0..<CtrDrvrInterruptSOURCES] m)) \<le> CtrDrvrInterruptSOURCES"
proof -
  have "length (buffers_for c (served isrc is m)) \<le> length is" for "is"
    using length_filter_le [of "\<lambda>x. bit (fst x) c" "served isrc is m"] length_filter_le [of "bit isrc" "is"]
    by (simp add: buffers_for_def served_keeps_clients del: length_filter_le)
  from this [of "[0..<CtrDrvrInterruptSOURCES]"] show ?thesis by simp
qed

text \<open>With an empty queue nothing is lost: there are fewer sources than places.\<close>

lemma IntrHandler_pending:
  assumes "bus_error_count (wa_Bus wa) \<le> last_bus_error (wa_Bus wa)" "c < CtrDrvrCLIENT_CONTEXTS"
    and "queue_ok (cc_Queue (wa_ClientContexts wa c))" "q_Size (cc_Queue (wa_ClientContexts wa c)) = 0"
  shows "pending (cc_Queue (wa_ClientContexts (snd (IntrHandler k wa)) c)) =
    buffers_for c (served (raised k wa) [0..<CtrDrvrInterruptSOURCES] (entered k wa))"
proof -
  have "pending (cc_Queue (wa_ClientContexts wa c)) = []" using assms(4) by simp
  then show ?thesis
    using ring.puts_content [OF assms(3)] served_few [of c "raised k wa" "entered k wa"]
    by (simp add: IntrHandler_queue [OF assms(1,2)] CtrDrvrQUEUE_SIZE_def CtrDrvrInterruptSOURCES_def)
qed


section \<open>Examples\<close>

text \<open>
  One module with a window, installed without parameters; the same with an open
  client, a CTIM object in the first slot, and the interrupt of the counter 0 raised.
\<close>

definition kernel_one :: ctr_kernel where
  "kernel_one = \<lparr> map_A16 = (\<lambda>_. 0), map_A24 = (\<lambda>_. Some 1), take_vector = (\<lambda>_. True), board_at = (\<lambda>_. board_blank) \<rparr>"

definition no_params :: ctr_params where
  "no_params = \<lparr> luns = [], vme1 = [], vme2 = [], vecs = [], first_module = 1, modules = 1 \<rparr>"

lemma ram_blank [simp]: "ram_is_memory board_blank"
  by (simp add: ram_is_memory_def board_blank_def)

lemma info_default: "ti_Modules (info no_params) = 1"
  by (simp add: info_def BuildInfoObject_def check_args_def no_params_def default_info_def CtrDrvrMODULE_CONTEXTS_def)

text \<open>Installing writes to the board, and does not change what its registers answer.\<close>

lemma b_Device_fold: "(\<And>x b. b_Device (f x b) = b_Device b) \<Longrightarrow> b_Device (fold f xs b) = b_Device b"
  by (induction xs arbitrary: b) simp_all

lemma b_Device_install [simp]:
  "b_Device (HptdcStateReset b) = b_Device b" "b_Device (Io32Write rs ws b) = b_Device b"
  "b_Device (fold default_out_mask is b) = b_Device b" "b_Device (wipe_triggers b) = b_Device b"
  by (auto simp: HptdcStateReset_def HptdcBitTransfer_def Io32Write_def wipe_triggers_def default_out_mask_def Let_def
      intro!: b_Device_fold split: prod.split)

lemma Reset_returns:
  assumes "free_timer 0 ts \<noteq> None"
  shows "\<exists>m' ts'. Reset k m ts = Inr (m', ts') \<and> mc_Address m' = mc_Address m \<and> b_Device (mc_Map m') = b_Device (mc_Map m)"
proof -
  obtain tm ts1 where "timeout (Call_ResetTimeout k) ts = (tm, ts1)" by fastforce
  with assms show ?thesis
    by (simp add: Reset_def reset_begin_def ResetTimeout_def reset_end_def EnableInterrupts_def Let_def)
qed

lemma install_one: "\<exists>wa. CtrDrvrInstall kernel_one no_params = Inr wa \<and> wa_Modules wa = 1 \<and>
    ma_VMEAddress (mc_Address (wa_ModuleContexts wa 0)) = 1 \<and>
    b_Device (mc_Map (wa_ModuleContexts wa 0)) = (\<lambda>_ _. None) \<and> bus_error_count (wa_Bus wa) \<le> last_bus_error (wa_Bus wa) \<and>
    cc_InUse (wa_ClientContexts wa 3) = 0"
proof -
  let ?m = "module_blank\<lparr> mc_Address := ti_Addresses (info no_params) 0, mc_ModuleIndex := 0 \<rparr>"
  have free: "free_timer 0 LynxOsTimersInitialize \<noteq> None"
    by (simp add: LynxOsTimersInitialize_def TIMERS_def)
  obtain m ts where a: "AddModule kernel_one 0 ?m LynxOsTimersInitialize = Inr (Added, m, ts)" "ma_VMEAddress (mc_Address m) = 1"
      "b_Device (mc_Map m) = (\<lambda>_ _. None)"
    using Reset_returns [OF free, of 0 "?m\<lparr> mc_Address := ti_Addresses (info no_params) 0\<lparr> ma_JTGAddress := 0, ma_VMEAddress := 1 \<rparr>,
        mc_IVector := ma_InterruptVector (ti_Addresses (info no_params) 0), mc_Map := board_blank \<rparr>"]
    by (auto simp: AddModule_def kernel_one_def board_blank_def)
  then have "fold_r (install_module kernel_one (info no_params)) [0..<ti_Modules (info no_params)] wa_blank
      = Inr ((wa_mod 0 (install_result (Added, m)) wa_blank)\<lparr> wa_Timers := ts \<rparr>)"
    by (simp add: info_default install_module_def) (simp add: wa_blank_def)
  then show ?thesis using a(2,3)
    by (simp add: CtrDrvrInstall_def info_default install_result_def Let_def) (simp add: wa_blank_def bus_quiet_def client_zero_def)
qed

lemma reach_one: "\<exists>wa. ctr_reach wa \<and> wa_Modules wa = 1 \<and>
    history_steady (mc_Map (wa_ModuleContexts wa 0)) \<and> bus_error_count (wa_Bus wa) \<le> last_bus_error (wa_Bus wa) \<and>
    cc_InUse (wa_ClientContexts wa 3) = 0"
proof -
  obtain wa where wa: "CtrDrvrInstall kernel_one no_params = Inr wa" "wa_Modules wa = 1"
    "ma_VMEAddress (mc_Address (wa_ModuleContexts wa 0)) = 1" "b_Device (mc_Map (wa_ModuleContexts wa 0)) = (\<lambda>_ _. None)"
    "bus_error_count (wa_Bus wa) \<le> last_bus_error (wa_Bus wa)" "cc_InUse (wa_ClientContexts wa 3) = 0"
    using install_one by blast
  have "ctr_reach wa" by (rule Install [OF _ wa(1)]) (use wa(2,3) in \<open>simp_all add: kernel_one_def\<close>)
  with wa show ?thesis by (auto simp: history_steady_def)
qed



definition module_obj :: ctr_module where
  "module_obj = module_blank\<lparr> mc_EqpNum := (\<lambda>_. 0)(0 := 5), mc_EqpClass := (\<lambda>_. 0)(0 := CtrDrvrConnectionClassCTIM),
     mc_Map := board_blank\<lparr> b_Mem := (\<lambda>_. 0)(R_InterruptSource := 1) \<rparr> \<rparr>"

definition wa_obj :: ctr_wa where
  "wa_obj = wa_cli 0 (client_open 0 1 client_zero) (wa_mod 0 module_obj (wa_blank\<lparr> wa_Modules := 1 \<rparr>))"

definition conx_obj :: CtrDrvrConnection where
  "conx_obj = \<lparr> cx_Module = 1, cx_EqpClass = CtrDrvrConnectionClassCTIM, cx_EqpNum = 5 \<rparr>"

lemma module_obj_ok: "module_ok module_obj"
proof -
  have "slot_ok module_obj i" for i
    by (simp add: slot_ok_def module_obj_def module_blank_def zero_trigger_def CtrDrvrCOUNTERS_def CtrDrvrCounter0_def ctr_classes)
  then show ?thesis
    by (simp add: module_ok_def tables_ok_def mirrored_def module_obj_def module_blank_def board_blank_def
        ram_is_memory_def ctr_classes)
qed

lemma wa_obj_ok: "wa_ok wa_obj" "cc_InUse (wa_ClientContexts wa_obj 0) \<noteq> 0"
proof -
  have "wa_ok (wa_blank\<lparr> wa_Modules := 1 \<rparr>)"
    using wa_ok_blank by (simp add: wa_ok_def CtrDrvrMODULE_CONTEXTS_def del: wa_ok_blank)
  moreover have "client_ok 0 (client_open 0 1 client_zero)"
    by (simp add: client_ok_def client_open_def client_zero_def CtrDrvrMODULE_CONTEXTS_def)
  ultimately show "wa_ok wa_obj" unfolding wa_obj_def by (intro wa_ok_cli wa_ok_mod module_obj_ok)
  show "cc_InUse (wa_ClientContexts wa_obj 0) \<noteq> 0" by (simp add: wa_obj_def client_open_def)
qed

lemma target_obj: "connect_target conx_obj 0 wa_obj = 0"
  by (simp add: connect_target_def conx_obj_def ctr_classes CtrDrvrMODULE_CONTEXTS_def)

definition wa_connected :: ctr_wa where
  "wa_connected = (let m = connect_slot 0 0 CtrDrvrInterruptMaskCOUNTER_0 module_obj in
     wa_mod 0 (EnableInterrupts (mc_InterruptEnable m) m) wa_obj)"

lemma obj_at: "wa_ModuleContexts wa_obj 0 = module_obj" "cc_ClientIndex (wa_ClientContexts wa_obj 0) = 0"
    "cc_ModuleIndex (wa_ClientContexts wa_obj 0) = 0" "cx_EqpClass conx_obj = CtrDrvrConnectionClassCTIM"
    "sint (cx_Module conx_obj - 1) = 0"
  by (simp_all add: wa_obj_def client_open_def client_zero_def conx_obj_def)

lemma connect_ctim_obj: "connect_ctim conx_obj 0 wa_obj module_obj = Inr (1, connect_slot 0 0 CtrDrvrInterruptMaskCOUNTER_0 module_obj)"
proof -
  have "[0..<CtrDrvrRamTableSIZE] = 0 # [Suc 0..<CtrDrvrRamTableSIZE]"
    by (rule upt_conv_Cons) (simp add: CtrDrvrRamTableSIZE_def)
  moreover have "same_object conx_obj module_obj 0" by (simp add: same_object_def conx_obj_def module_obj_def)
  ultimately show ?thesis by (simp only: connect_ctim_def find.simps if_True option.case)
qed

lemma connect_obj: "Connect conx_obj 0 wa_obj = Inr (None, wa_connected)"
proof -
  have "CtrDrvrConnectionClassCTIM \<noteq> CtrDrvrConnectionClassPTIM" by (simp add: ctr_classes)
  moreover have "connect_result 0 (1, connect_slot 0 0 CtrDrvrInterruptMaskCOUNTER_0 module_obj) wa_obj = (None, wa_connected)"
    by (simp only: connect_result_def wa_connected_def Let_def fst_conv snd_conv) simp
  ultimately show ?thesis
    by (simp only: Connect_def Let_def obj_at connect_ctim_obj sum.case) (simp add: obj_at connect_ctim_obj CtrDrvrMODULE_CONTEXTS_def)
qed


definition action_obj :: CtrDrvrAction where
  "action_obj = \<lparr> ac_TriggerNumber = 1, ac_EqpNum = 5, ac_EqpClass = CtrDrvrConnectionClassCTIM,
     ac_Trigger = zero_trigger\<lparr> tr_Ctim := 5, tr_Frame := 0x34000000 \<rparr>, ac_Config = zero_config\<lparr> cf_Delay := 9 \<rparr> \<rparr>"

lemma action_roundtrip_witness:
  "\<exists>wa' act. table_ioctl 0 (SET_ACTION action_obj) wa_obj = (Inr Reply_OK, wa') \<and>
     fst (table_ioctl 0 (GET_ACTION 1) wa') = Inr (Reply_Action act) \<and> cf_Delay (ac_Config act) = 9 \<and> tr_Frame (ac_Trigger act) = 0x34000000"
proof -
  have "action_allowed action_obj 0 module_obj"
    by (simp add: action_allowed_def action_obj_def module_obj_def module_blank_def zero_trigger_def ctr_classes)
  then obtain wa' where r: "table_ioctl 0 (SET_ACTION action_obj) wa_obj = (Inr Reply_OK, wa')"
    by (simp add: slot_of_trigger_def action_obj_def CtrDrvrRamTableSIZE_def wa_obj_def Let_def)
  have "0 < CtrDrvrMODULE_CONTEXTS" by (simp add: CtrDrvrMODULE_CONTEXTS_def)
  note a = action_roundtrip [OF wa_obj_ok(1) this r, THEN conjunct1]
  have "ac_TriggerNumber action_obj = 1" by (simp add: action_obj_def)
  with a r show ?thesis
    by (auto simp: action_obj_def cut_config_def cut_trigger_def config_for_clients_def)
qed

definition binding_two :: CtrDrvrPtimBinding where
  "binding_two = \<lparr> ptb_EqpNum = 7, ptb_ModuleIndex = 0, ptb_Counter = 1, ptb_Size = 2, ptb_StartIndex = 0 \<rparr>"

lemma ptim_first_fit_witness:
  "fst (table_ioctl 0 (CREATE_PTIM_OBJECT binding_two) (wa_blank\<lparr> wa_Modules := 1 \<rparr>)) = Inr Reply_OK"
proof -
  let ?wa = "wa_blank\<lparr> wa_Modules := 1 \<rparr>"
  obtain r wa' where r: "table_ioctl 0 (CREATE_PTIM_OBJECT binding_two) ?wa = (r, wa')" by fastforce
  have h: "0 < unat (ptb_Size binding_two)" "unat (ptb_ModuleIndex binding_two) < wa_Modules ?wa"
    "\<not> list_ex (\<lambda>x. ptb_EqpNum x = ptb_EqpNum binding_two) (wa_Ptim ?wa)" "length (wa_Ptim ?wa) < CtrDrvrPtimOBJECTS"
    by (simp_all add: binding_two_def wa_blank_def CtrDrvrPtimOBJECTS_def)
  have "0 + unat (ptb_Size binding_two) \<le> CtrDrvrRamTableSIZE \<and> (\<forall>i. mc_EqpNum (wa_ModuleContexts ?wa (unat (ptb_ModuleIndex binding_two))) i = 0)"
    by (simp add: binding_two_def wa_blank_def module_blank_def CtrDrvrRamTableSIZE_def)
  then have "r = Inr Reply_OK" using ptim_first_fit [OF h r, unfolded Let_def] by blast
  then show ?thesis using r by simp
qed

end
