(* ===== verification/Skel_Queue.thy ===== *)
theory Skel_Queue
  imports Ctr_Queue
begin

text \<open>
  The queue of a client of the driver skeleton (skel/driver/skeldrvr.c, skeldrvrP.h, include/skel.h,
  with the sizes of mttn/include/skeluser.h): a ring of read buffers that loses its oldest entry when
  it is full, and the two halves of \<^verbatim>\<open>SkelDrvrRead\<close> around its sleep. Semaphores are those of
  cdcm/cdcmTime.c, which cdcmSem.c repeats.
\<close>

section \<open>Read buffers\<close>

definition SkelDrvrQUEUE_SIZE :: nat where "SkelDrvrQUEUE_SIZE = 32"
definition SkelDrvrINTERRUPTS :: nat where "SkelDrvrINTERRUPTS = 32"
definition SkelDrvrCONNECTIONS :: nat where "SkelDrvrCONNECTIONS = 16"
definition SkelDrvrCLIENT_CONTEXTS :: nat where "SkelDrvrCLIENT_CONTEXTS = 16"
definition SkelDrvrMODULE_CONTEXTS :: nat where "SkelDrvrMODULE_CONTEXTS = 8"
definition SkelDrvrDEFAULT_CLIENT_TIMEOUT :: u32 where "SkelDrvrDEFAULT_CLIENT_TIMEOUT = 2000"
definition SkelDrvrDEFAULT_MODULE_TIMEOUT :: u32 where "SkelDrvrDEFAULT_MODULE_TIMEOUT = 10"

record SkelDrvrConnection =
  sx_Module :: u32
  sx_ConMask :: u32

record SkelDrvrReadBuf =
  sr_Connection :: SkelDrvrConnection
  sr_Second :: u32
  sr_NanoSecond :: u32

definition skel_zero_rb :: SkelDrvrReadBuf where
  "skel_zero_rb = \<lparr> sr_Connection = \<lparr> sx_Module = 0, sx_ConMask = 0 \<rparr>, sr_Second = 0, sr_NanoSecond = 0 \<rparr>"

section \<open>The ring\<close>

record SkelDrvrQueue =
  sq_QueueOff :: bool
  sq_Missed :: "16 word"
  sq_Size :: nat
  sq_RdPntr :: nat
  sq_WrPntr :: nat
  sq_Entries :: "SkelDrvrReadBuf list"

definition skel_queue_new :: SkelDrvrQueue where
  "skel_queue_new = \<lparr> sq_QueueOff = False, sq_Missed = 0, sq_Size = 0, sq_RdPntr = 0, sq_WrPntr = 0,
     sq_Entries = replicate SkelDrvrQUEUE_SIZE skel_zero_rb \<rparr>"

text \<open>\<^verbatim>\<open>__q_put\<close>; the first component tells whether the semaphore is signalled.\<close>

definition skel_ring_put :: "SkelDrvrReadBuf \<Rightarrow> SkelDrvrQueue \<Rightarrow> bool \<times> SkelDrvrQueue" where
  "skel_ring_put rb q =
     (let q1 = q\<lparr> sq_Entries := (sq_Entries q)[sq_WrPntr q := rb],
                  sq_WrPntr := (sq_WrPntr q + 1) mod SkelDrvrQUEUE_SIZE \<rparr> in
      if sq_Size q < SkelDrvrQUEUE_SIZE then (True, q1\<lparr> sq_Size := sq_Size q + 1 \<rparr>)
      else (False, q1\<lparr> sq_Missed := sq_Missed q + 1, sq_RdPntr := (sq_RdPntr q + 1) mod SkelDrvrQUEUE_SIZE \<rparr>))"

text \<open>\<^verbatim>\<open>__q_get\<close>: an empty queue gives a buffer of zeros.\<close>

definition skel_q_get :: "SkelDrvrQueue \<Rightarrow> SkelDrvrReadBuf \<times> SkelDrvrQueue" where
  "skel_q_get q =
     (if sq_Size q > 0 then
        (sq_Entries q ! sq_RdPntr q,
         q\<lparr> sq_RdPntr := (sq_RdPntr q + 1) mod SkelDrvrQUEUE_SIZE, sq_Size := sq_Size q - 1 \<rparr>)
      else (skel_zero_rb, q))"

definition skel_queue_ok :: "SkelDrvrQueue \<Rightarrow> bool" where
  "skel_queue_ok q \<longleftrightarrow> length (sq_Entries q) = SkelDrvrQUEUE_SIZE \<and> sq_RdPntr q < SkelDrvrQUEUE_SIZE \<and>
     sq_Size q \<le> SkelDrvrQUEUE_SIZE \<and> sq_WrPntr q = (sq_RdPntr q + sq_Size q) mod SkelDrvrQUEUE_SIZE"

definition skel_pending :: "SkelDrvrQueue \<Rightarrow> SkelDrvrReadBuf list" where
  "skel_pending q = map (\<lambda>k. sq_Entries q ! ((sq_RdPntr q + k) mod SkelDrvrQUEUE_SIZE)) [0..<sq_Size q]"

lemma length_skel_pending [simp]: "length (skel_pending q) = sq_Size q"
  by (simp add: skel_pending_def)

lemma skel_pending_Nil [simp]: "skel_pending q = [] \<longleftrightarrow> sq_Size q = 0"
  by (simp flip: length_0_conv)

lemma skel_QUEUE_SIZE_pos [simp]: "0 < SkelDrvrQUEUE_SIZE"
  by (simp add: SkelDrvrQUEUE_SIZE_def)

lemma skel_queue_new_ok [simp]: "skel_queue_ok skel_queue_new"
  by (simp add: skel_queue_ok_def skel_queue_new_def)

lemma skel_ring_put_ok: "skel_queue_ok q \<Longrightarrow> skel_queue_ok (snd (skel_ring_put x q))"
  by (auto simp: skel_queue_ok_def skel_ring_put_def Let_def mod_Suc_eq mod_add_left_eq)

lemma skel_ring_put_pending:
  assumes "skel_queue_ok q"
  shows "skel_pending (snd (skel_ring_put x q)) =
    (if sq_Size q < SkelDrvrQUEUE_SIZE then skel_pending q @ [x] else tl (skel_pending q) @ [x])"
proof -
  let ?N = SkelDrvrQUEUE_SIZE and ?r = "sq_RdPntr q" and ?s = "sq_Size q" and ?xs = "sq_Entries q"
  have q: "length ?xs = ?N" "?r < ?N" "?s \<le> ?N" "sq_WrPntr q = (?r + ?s) mod ?N"
    using assms by (auto simp: skel_queue_ok_def)
  show ?thesis
  proof (cases "?s < ?N")
    case True
    have "?xs[(?r + ?s) mod ?N := x] ! ((?r + k) mod ?N) = (if k = ?s then x else ?xs ! ((?r + k) mod ?N))"
      if "k \<le> ?s" for k
      using ring_slot [of ?r ?N ?s k] q(1,2) that True by (auto simp: nth_list_update)
    with True q show ?thesis by (simp add: skel_ring_put_def skel_pending_def Let_def)
  next
    case False
    then have s: "?s = ?N" using q by simp
    have "?xs[?r := x] ! (((?r + 1) mod ?N + k) mod ?N) =
        (if k = ?N - 1 then x else ?xs ! ((?r + Suc k) mod ?N))" if "k < ?N" for k
    proof -
      have "((?r + 1) mod ?N + k) mod ?N = (?r + Suc k) mod ?N" by (simp add: mod_add_left_eq)
      moreover have "(?r + Suc k) mod ?N = ?r \<longleftrightarrow> k = ?N - 1"
        using ring_slot [of ?r ?N "Suc k" 0] q(2) that by (cases "Suc k = ?N") auto
      ultimately show ?thesis using q(1,2) by (auto simp: nth_list_update)
    qed
    then show ?thesis using s q
      by (auto simp: skel_ring_put_def skel_pending_def Let_def nth_append nth_tl less_Suc_eq intro!: nth_equalityI)
  qed
qed

lemma skel_q_get_ok: "skel_queue_ok q \<Longrightarrow> skel_queue_ok (snd (skel_q_get q))"
  by (cases "sq_Size q") (simp_all add: skel_queue_ok_def skel_q_get_def mod_add_left_eq)

lemma skel_q_get_pending:
  assumes "skel_queue_ok q" "0 < sq_Size q"
  shows "skel_pending q = fst (skel_q_get q) # skel_pending (snd (skel_q_get q))"
proof -
  obtain t where t: "sq_Size q = Suc t" using assms(2) by (cases "sq_Size q") auto
  have "(Suc (sq_RdPntr q) mod SkelDrvrQUEUE_SIZE + k) mod SkelDrvrQUEUE_SIZE = (sq_RdPntr q + Suc k) mod SkelDrvrQUEUE_SIZE" for k
    by (simp add: mod_add_left_eq)
  with assms t show ?thesis
    by (simp add: skel_q_get_def skel_pending_def skel_queue_ok_def upt_conv_Cons map_Suc_upt [symmetric] del: upt_Suc)
qed

interpretation skel_ring: lossy_fifo skel_queue_ok skel_pending sq_Missed "\<lambda>x q. snd (skel_ring_put x q)" skel_q_get SkelDrvrQUEUE_SIZE
proof
  fix q x assume q: "skel_queue_ok q"
  show "sq_Missed (snd (skel_ring_put x q)) = sq_Missed q + (if length (skel_pending q) < SkelDrvrQUEUE_SIZE then 0 else 1)"
    by (simp add: skel_ring_put_def Let_def)
  show "length (skel_pending q) \<le> SkelDrvrQUEUE_SIZE" using q by (simp add: skel_queue_ok_def)
qed (simp_all add: skel_ring_put_ok skel_ring_put_pending skel_q_get_ok skel_q_get_pending)

section \<open>The client\<close>

text \<open>The file pointer identifies the client; a context is found by it and not stored in the file.\<close>

record SkelDrvrClientContext =
  sc_Pid :: u32
  sc_Semaphore :: cdcm_sem
  sc_Timeout :: u32
  sc_Queue :: SkelDrvrQueue
  sc_Debug :: u32
  sc_ModuleNumber :: u32
  sc_cdcmf :: nat

text \<open>\<^verbatim>\<open>q_put\<close>.\<close>

definition skel_q_put :: "SkelDrvrReadBuf \<Rightarrow> SkelDrvrClientContext \<Rightarrow> SkelDrvrClientContext" where
  "skel_q_put rb c =
     (let (sig, q) = skel_ring_put rb (sc_Queue c) in
      c\<lparr> sc_Queue := q, sc_Semaphore := (if sig then snd (ssignal (sc_Semaphore c)) else sc_Semaphore c) \<rparr>)"

definition skel_reset_queue :: "SkelDrvrClientContext \<Rightarrow> SkelDrvrClientContext" where
  "skel_reset_queue c =
     c\<lparr> sc_Queue := (sc_Queue c)\<lparr> sq_Size := 0, sq_RdPntr := 0, sq_WrPntr := 0, sq_Missed := 0 \<rparr>,
        sc_Semaphore := snd (sreset (sc_Semaphore c)) \<rparr>"

text \<open>A timeout drops the entries, but leaves the pointers and the semaphore as they are.\<close>

definition client_timeout :: "SkelDrvrClientContext \<Rightarrow> SkelDrvrClientContext" where
  "client_timeout c = c\<lparr> sc_Queue := (sc_Queue c)\<lparr> sq_Size := 0, sq_Missed := 0 \<rparr> \<rparr>"

text \<open>
  A read up to its sleep, by the task \<open>t\<close>; whether it goes on at once. Then the end of a read that
  was woken, and of one that was not: with a timeout the wait cannot be interrupted and ends by
  the time, without one it ends by a signal.
\<close>

definition skel_read_begin :: "nat \<Rightarrow> SkelDrvrClientContext \<Rightarrow> bool \<times> SkelDrvrClientContext" where
  "skel_read_begin t c =
     (let c1 = (if sq_QueueOff (sc_Queue c) then skel_reset_queue c else c);
          (passed, s) = cdcm_down t (sc_Semaphore c1) in
      (passed, c1\<lparr> sc_Semaphore := s \<rparr>))"

definition skel_read_end :: "SkelDrvrClientContext \<Rightarrow> (errno option \<times> SkelDrvrReadBuf) \<times> SkelDrvrClientContext" where
  "skel_read_end c =
     (let (rb, q) = skel_q_get (sc_Queue c) in
      ((if sx_ConMask (sr_Connection rb) = 0 then Some ETIME else None, rb), c\<lparr> sc_Queue := q \<rparr>))"

definition skel_read_fail :: "bool \<Rightarrow> nat \<Rightarrow> SkelDrvrClientContext \<Rightarrow> errno \<times> SkelDrvrClientContext" where
  "skel_read_fail timed t c =
     (let c1 = c\<lparr> sc_Semaphore := cdcm_down_leave t (sc_Semaphore c) \<rparr> in
      (EINTR, if timed then client_timeout c1 else c1))"

lemma skel_q_put_queue: "sc_Queue (skel_q_put rb c) = snd (skel_ring_put rb (sc_Queue c))"
  by (simp add: skel_q_put_def case_prod_beta Let_def)

lemma skel_q_put_same [simp]:
  "sc_Pid (skel_q_put rb c) = sc_Pid c" "sc_Timeout (skel_q_put rb c) = sc_Timeout c" "sc_Debug (skel_q_put rb c) = sc_Debug c"
  "sc_ModuleNumber (skel_q_put rb c) = sc_ModuleNumber c" "sc_cdcmf (skel_q_put rb c) = sc_cdcmf c"
  by (simp_all add: skel_q_put_def case_prod_beta Let_def)

end
