(* ===== verification/Skel_RawIo.thy ===== *)
theory Skel_RawIo
  imports Prelude
begin

text \<open>
  Raw transfers of the driver skeleton (\<^verbatim>\<open>RawIo\<close> and \<^verbatim>\<open>RawIoBlock\<close> of skel/driver/skeldrvr.c) on an address
  space of the module's description (include/config_data.h, utils/driver/libinstkernel.c). What a
  device answers to an access may depend on all accesses before it. No bus error and no failing copy
  to or from the user occurs; the byte indices of the code are ints, so a transfer stays below 2 GB.
\<close>

section \<open>Address spaces and accesses\<close>

datatype InsLibEndian = InsLibEndianNOT_SET | InsLibEndianBIG | InsLibEndianLITTLE

record InsLibAnyAddressSpace =
  as_SpaceNumber :: u32
  as_WindowSize :: u32
  as_DataWidth :: u32
  as_Endian :: InsLibEndian

definition InsLibGetAddressSpace :: "InsLibAnyAddressSpace list \<Rightarrow> u32 \<Rightarrow> InsLibAnyAddressSpace option" where
  "InsLibGetAddressSpace spaces num = find (\<lambda>s. as_SpaceNumber s = num) spaces"

definition InsLibGetAddressSpaceWidth :: "InsLibAnyAddressSpace list \<Rightarrow> u32 \<Rightarrow> u32 \<Rightarrow> InsLibAnyAddressSpace option" where
  "InsLibGetAddressSpaceWidth spaces num width =
     find (\<lambda>s. as_SpaceNumber s = num \<and> (width = 0 \<or> as_DataWidth s = width)) spaces"

text \<open>An access has a width in bits, a byte order and an address in the window.\<close>

datatype raw_event = Raw_rd nat bool int | Raw_wr nat bool int u32

record raw_bus =
  rw_trace :: "raw_event list"
  rw_device :: "raw_event list \<Rightarrow> nat \<Rightarrow> bool \<Rightarrow> int \<Rightarrow> u32"

definition raw_ioread :: "nat \<Rightarrow> bool \<Rightarrow> int \<Rightarrow> raw_bus \<Rightarrow> u32 \<times> raw_bus" where
  "raw_ioread w big a b = (take_bit w (rw_device b (rw_trace b) w big a), b\<lparr> rw_trace := rw_trace b @ [Raw_rd w big a] \<rparr>)"

definition raw_iowrite :: "nat \<Rightarrow> bool \<Rightarrow> int \<Rightarrow> u32 \<Rightarrow> raw_bus \<Rightarrow> raw_bus" where
  "raw_iowrite w big a v b = b\<lparr> rw_trace := rw_trace b @ [Raw_wr w big a (take_bit w v)] \<rparr>"

section \<open>A single transfer\<close>

record SkelDrvrRawIoBlock =
  ri_SpaceNumber :: u32
  ri_Offset :: u32
  ri_DataWidth :: u32
  ri_Data :: u32

text \<open>The offset is checked against a window of known size, the end of the access is not.\<close>

definition outside_window :: "InsLibAnyAddressSpace \<Rightarrow> u32 \<Rightarrow> bool" where
  "outside_window s offset \<longleftrightarrow> as_WindowSize s \<noteq> 0 \<and> offset \<ge> as_WindowSize s"

definition skel_RawIo ::
  "InsLibAnyAddressSpace list \<Rightarrow> SkelDrvrRawIoBlock \<Rightarrow> bool \<Rightarrow> raw_bus \<Rightarrow> (errno option \<times> SkelDrvrRawIoBlock) \<times> raw_bus" where
  "skel_RawIo spaces riob flag b =
     (case InsLibGetAddressSpaceWidth spaces (ri_SpaceNumber riob) (ri_DataWidth riob) of
        None \<Rightarrow> ((Some ENXIO, riob), b)
      | Some s \<Rightarrow>
          if outside_window s (ri_Offset riob) then ((Some EINVAL, riob), b)
          else (let riob1 = (if ri_DataWidth riob = 0 then riob\<lparr> ri_DataWidth := as_DataWidth s \<rparr> else riob);
                    w = unat (ri_DataWidth riob1); big = as_Endian s = InsLibEndianBIG \<and> w \<noteq> 8; a = uint (ri_Offset riob) in
                if w \<notin> {8, 16, 32} then ((Some EINVAL, riob1), b)
                else if flag then ((None, riob1), raw_iowrite w big a (ri_Data riob1) b)
                else (let (v, b1) = raw_ioread w big a b in ((None, riob1\<lparr> ri_Data := v \<rparr>), b1))))"

section \<open>A block\<close>

record SkelDrvrRawIoTransferBlock =
  rt_SpaceNumber :: u32
  rt_Offset :: u32
  rt_DataWidth :: u32
  rt_AddrIncr :: u32
  rt_BytesTr :: u32

definition TRANSFERS :: nat where "TRANSFERS = 1024"

text \<open>Memory, the user's from its data pointer on and the kernel's buffer: a value is stored low byte first.\<close>

type_synonym mem_bytes = "nat \<Rightarrow> u8"

definition put_bytes :: "nat \<Rightarrow> u32 \<Rightarrow> nat \<Rightarrow> mem_bytes \<Rightarrow> mem_bytes" where
  "put_bytes n v k f = (\<lambda>i. if k \<le> i \<and> i < k + n then ucast (drop_bit (8 * (i - k)) v) else f i)"

definition get_bytes :: "nat \<Rightarrow> nat \<Rightarrow> mem_bytes \<Rightarrow> u32" where
  "get_bytes n k f = foldr (\<lambda>i v. push_bit 8 v OR ucast (f (k + i))) [0..<n] 0"

definition copy_bytes :: "nat \<Rightarrow> nat \<Rightarrow> nat \<Rightarrow> mem_bytes \<Rightarrow> mem_bytes \<Rightarrow> mem_bytes" where
  "copy_bytes n from to src dst = (\<lambda>i. if to \<le> i \<and> i < to + n then src (from + (i - to)) else dst i)"

text \<open>The constants of the loop, and what it changes.\<close>

record raw_par =
  rp_bits :: nat
  rp_bytes :: nat
  rp_big :: bool
  rp_base :: int
  rp_incr :: u32
  rp_ksize :: nat

record raw_state =
  rs_kbuf :: mem_bytes
  rs_user :: mem_bytes
  rs_kindx :: nat
  rs_uindx :: nat
  rs_hskip :: i32
  rs_bus :: raw_bus

text \<open>The width of an access that is neither 16 nor 32 is 8 bits. A read of 8 bits is always at the start.\<close>

definition item_bits :: "raw_par \<Rightarrow> nat" where
  "item_bits p = (if rp_bits p = 16 \<or> rp_bits p = 32 then rp_bits p else 8)"

definition item_big :: "raw_par \<Rightarrow> bool" where
  "item_big p = (rp_big p \<and> item_bits p \<noteq> 8)"

definition read_item :: "raw_par \<Rightarrow> raw_state \<Rightarrow> raw_state" where
  "read_item p s =
     (let a = (if item_bits p = 8 then rp_base p else rp_base p + sint (rs_hskip s));
          (v, b) = raw_ioread (item_bits p) (item_big p) a (rs_bus s) in
      s\<lparr> rs_kbuf := put_bytes (item_bits p div 8) v (rs_kindx s) (rs_kbuf s), rs_bus := b \<rparr>)"

definition write_item :: "raw_par \<Rightarrow> raw_state \<Rightarrow> raw_state" where
  "write_item p s =
     s\<lparr> rs_bus := raw_iowrite (item_bits p) (item_big p) (rp_base p + sint (rs_hskip s))
          (get_bytes (item_bits p div 8) (rs_kindx s) (rs_kbuf s)) (rs_bus s) \<rparr>"

text \<open>When the kernel buffer is used up it is copied out or filled again, and only then \<^verbatim>\<open>uindx\<close> goes on.\<close>

definition flush_buffer :: "bool \<Rightarrow> raw_par \<Rightarrow> raw_state \<Rightarrow> raw_state" where
  "flush_buffer flag p s =
     (if rs_kindx s \<ge> rp_ksize p then
        (let s1 = (if flag then s\<lparr> rs_kbuf := copy_bytes (rp_ksize p) (rs_uindx s) 0 (rs_user s) (rs_kbuf s) \<rparr>
                   else s\<lparr> rs_user := copy_bytes (rp_ksize p) 0 (rs_uindx s) (rs_kbuf s) (rs_user s) \<rparr>) in
         s1\<lparr> rs_uindx := rs_uindx s + rp_ksize p, rs_kindx := 0 \<rparr>)
      else s)"

definition raw_item :: "bool \<Rightarrow> raw_par \<Rightarrow> raw_state \<Rightarrow> raw_state" where
  "raw_item flag p s =
     (let s1 = (if flag then write_item p s else read_item p s) in
      flush_buffer flag p (s1\<lparr> rs_hskip := rs_hskip s + rp_incr p * of_nat (rp_bytes p), rs_kindx := rs_kindx s + rp_bytes p \<rparr>))"

definition raw_loop :: "bool \<Rightarrow> raw_par \<Rightarrow> nat \<Rightarrow> raw_state \<Rightarrow> raw_state" where
  "raw_loop flag p n s = fold (\<lambda>_. raw_item flag p) [0..<n] s"

text \<open>The number of items, at least one; a width below eight bits makes the code divide by zero.\<close>

definition raw_width :: "InsLibAnyAddressSpace \<Rightarrow> SkelDrvrRawIoTransferBlock \<Rightarrow> nat" where
  "raw_width s riob = (let w = unat (rt_DataWidth riob AND 0x3F) in if w = 0 then unat (as_DataWidth s) else w)"

definition raw_count :: "nat \<Rightarrow> SkelDrvrRawIoTransferBlock \<Rightarrow> nat" where
  "raw_count bytes riob = (let n = sint (rt_BytesTr riob div of_nat bytes) in if n \<le> 0 then 1 else nat n)"

text \<open>The old contents of the kernel buffer, or none when there is no memory, are an argument.\<close>

definition skel_RawIoBlock ::
  "InsLibAnyAddressSpace list \<Rightarrow> mem_bytes option \<Rightarrow> SkelDrvrRawIoTransferBlock \<Rightarrow> bool \<Rightarrow> mem_bytes \<Rightarrow> raw_bus \<Rightarrow>
   (errno option \<times> mem_bytes \<times> raw_bus) result" where
  "skel_RawIoBlock spaces alloc riob flag user b =
     (case InsLibGetAddressSpace spaces (rt_SpaceNumber riob) of
        None \<Rightarrow> Inr (Some ENXIO, user, b)
      | Some s \<Rightarrow>
          if outside_window s (rt_Offset riob) then Inr (Some EINVAL, user, b)
          else (let bits = raw_width s riob; bytes = bits div 8 in
            if bytes = 0 then Inl Bad_arith
            else (case alloc of None \<Rightarrow> Inr (Some ENOMEM, user, b)
              | Some kbuf \<Rightarrow>
                  (let n = raw_count bytes riob; ksize = (if n < TRANSFERS then n else TRANSFERS) * bytes;
                       p = \<lparr> rp_bits = bits, rp_bytes = bytes, rp_big = (as_Endian s = InsLibEndianBIG),
                             rp_base = uint (rt_Offset riob), rp_incr = rt_AddrIncr riob, rp_ksize = ksize \<rparr>;
                       s1 = raw_loop flag p n \<lparr> rs_kbuf = (if flag then copy_bytes ksize 0 0 user kbuf else kbuf), rs_user = user,
                             rs_kindx = 0, rs_uindx = 0, rs_hskip = 0, rs_bus = b \<rparr> in
                   Inr (None, if \<not> flag \<and> rs_kindx s1 \<noteq> 0 then copy_bytes (rs_kindx s1) 0 (rs_uindx s1) (rs_kbuf s1) (rs_user s1)
                              else rs_user s1, rs_bus s1)))))"

section \<open>What a block transfer does\<close>

text \<open>
  The reference: the items are accessed one after the other, without buffers. Reads of 8 bits do not
  follow the address increment; writes do.
\<close>

definition item_addr :: "bool \<Rightarrow> raw_par \<Rightarrow> nat \<Rightarrow> int" where
  "item_addr flag p k =
     (if \<not> flag \<and> item_bits p = 8 then rp_base p else rp_base p + sint (of_nat k * (rp_incr p * of_nat (rp_bytes p)) :: i32))"

fun read_items :: "raw_par \<Rightarrow> nat \<Rightarrow> raw_bus \<Rightarrow> u32 list \<times> raw_bus" where
  "read_items p 0 b = ([], b)"
| "read_items p (Suc n) b =
     (let (vs, b1) = read_items p n b; (v, b2) = raw_ioread (item_bits p) (item_big p) (item_addr False p n) b1 in (vs @ [v], b2))"

lemma length_read_items [simp]: "length (fst (read_items p n b)) = n"
  by (induction n) (simp_all add: case_prod_beta Let_def)

text \<open>The byte at a place of a sequence of items of \<open>w\<close> bytes each.\<close>

definition item_byte :: "nat \<Rightarrow> u32 list \<Rightarrow> nat \<Rightarrow> u8" where
  "item_byte w vs i = ucast (drop_bit (8 * (i mod w)) (vs ! (i div w)))"

definition whole_items :: "raw_par \<Rightarrow> bool" where
  "whole_items p \<longleftrightarrow> rp_bits p = 8 * rp_bytes p \<and> rp_bytes p \<in> {1, 2, 4}"

lemma whole_items_bits: "whole_items p \<Longrightarrow> item_bits p = 8 * rp_bytes p" "whole_items p \<Longrightarrow> 0 < rp_bytes p"
  by (auto simp: whole_items_def item_bits_def)

lemma raw_loop_Suc: "raw_loop flag p (Suc n) s = raw_item flag p (raw_loop flag p n s)"
  by (simp add: raw_loop_def)

lemma item_indices [simp]:
  "rs_kindx (write_item p s) = rs_kindx s" "rs_uindx (write_item p s) = rs_uindx s" "rs_user (write_item p s) = rs_user s"
  "rs_kbuf (write_item p s) = rs_kbuf s" "rs_kindx (read_item p s) = rs_kindx s" "rs_uindx (read_item p s) = rs_uindx s"
  by (simp_all add: write_item_def read_item_def case_prod_beta Let_def)

text \<open>Where the loop stands after \<open>k\<close> items, when the kernel buffer holds \<open>T\<close> of them.\<close>

lemma raw_loop_indices:
  assumes "rp_ksize p = T * rp_bytes p" "0 < T" "0 < rp_bytes p" "rs_kindx s = 0" "rs_uindx s = 0" "rs_hskip s = 0"
  shows "rs_kindx (raw_loop flag p k s) = (k mod T) * rp_bytes p \<and> rs_uindx (raw_loop flag p k s) = (k div T) * rp_ksize p \<and>
    rs_hskip (raw_loop flag p k s) = of_nat k * (rp_incr p * of_nat (rp_bytes p))"
proof (induction k)
  case 0 then show ?case using assms(4-) by (simp add: raw_loop_def)
next
  case (Suc k)
  let ?s = "raw_loop flag p k s" and ?B = "rp_bytes p"
  have c: "(k mod T) * ?B + ?B = Suc (k mod T) * ?B" by simp
  have le: "T * ?B \<le> Suc (k mod T) * ?B \<longleftrightarrow> T \<le> Suc (k mod T)" using assms(3) by (simp only: mult_le_cancel2 simp_thms)
  have m: "T \<le> Suc (k mod T) \<longleftrightarrow> Suc (k mod T) = T" using assms(2) by (metis Suc_leI le_antisym mod_less_divisor order_refl)
  have "Suc k mod T = (if Suc (k mod T) = T then 0 else Suc (k mod T))" "Suc k div T = (if Suc (k mod T) = T then Suc (k div T) else k div T)"
    by (simp_all add: mod_Suc div_Suc)
  then show ?case using Suc.IH le m
    by (cases flag) (simp_all add: raw_loop_Suc raw_item_def flush_buffer_def Let_def assms(1) c algebra_simps)
qed

lemma item_byte_app: "i < length vs * w \<Longrightarrow> item_byte w (vs @ us) i = item_byte w vs i"
  by (simp add: item_byte_def nth_append less_mult_imp_div_less)

lemma item_byte_last: "d < w \<Longrightarrow> item_byte w (vs @ [v]) (length vs * w + d) = ucast (drop_bit (8 * d) v)"
  by (simp add: item_byte_def nth_append)

lemma read_loop_state:
  assumes "rp_ksize p = T * rp_bytes p" "0 < T" "whole_items p" "rs_kindx s = 0" "rs_uindx s = 0" "rs_hskip s = 0"
  defines "B \<equiv> rp_bytes p"
  shows "rs_bus (raw_loop False p k s) = snd (read_items p k (rs_bus s)) \<and>
    rs_user (raw_loop False p k s) =
      (\<lambda>i. if i < (k div T) * rp_ksize p then item_byte B (fst (read_items p k (rs_bus s))) i else rs_user s i) \<and>
    (\<forall>i < (k mod T) * B. rs_kbuf (raw_loop False p k s) i = item_byte B (fst (read_items p k (rs_bus s))) ((k div T) * rp_ksize p + i))"
proof (induction k)
  case 0 then show ?case by (simp add: raw_loop_def)
next
  case (Suc k)
  let ?s = "raw_loop False p k s" and ?K = "rp_ksize p"
  obtain vs b where r: "read_items p k (rs_bus s) = (vs, b)" by fastforce
  then have vs: "length vs = k" using length_read_items [of p k "rs_bus s"] by simp
  obtain v b' where v: "raw_ioread (item_bits p) (item_big p) (item_addr False p k) b = (v, b')" by fastforce
  have B: "0 < B" and bits: "item_bits p div 8 = B" using whole_items_bits [OF assms(3)] by (simp_all add: B_def)
  note ix = raw_loop_indices [OF assms(1,2) whole_items_bits(2) [OF assms(3)] assms(4-6), of False k]
  have IH: "rs_bus ?s = b" "rs_user ?s = (\<lambda>i. if i < (k div T) * ?K then item_byte B vs i else rs_user s i)"
    "\<And>i. i < (k mod T) * B \<Longrightarrow> rs_kbuf ?s i = item_byte B vs ((k div T) * ?K + i)"
    using Suc.IH unfolding r fst_conv snd_conv by blast+
  have addr: "item_addr False p k = (if item_bits p = 8 then rp_base p else rp_base p + sint (rs_hskip ?s))"
    using ix by (simp add: item_addr_def)
  have K: "?K = T * B" using assms(1) by (simp add: B_def)
  have kT: "(k div T) * ?K + (k mod T) * B = k * B"
    by (simp add: K flip: mult.assoc add_mult_distrib)
  let ?s1 = "read_item p ?s"
  have s1: "rs_bus ?s1 = b'" "rs_user ?s1 = rs_user ?s" "rs_kindx ?s1 = rs_kindx ?s" "rs_uindx ?s1 = rs_uindx ?s"
      "rs_kbuf ?s1 = put_bytes B v (rs_kindx ?s) (rs_kbuf ?s)"
    using v by (simp_all add: read_item_def IH(1) bits Let_def case_prod_beta addr)
  have ks: "rs_kindx ?s = (k mod T) * B" "rs_uindx ?s = (k div T) * ?K" using ix by (simp_all add: B_def)
  have buf: "rs_kbuf ?s1 i = item_byte B (vs @ [v]) ((k div T) * ?K + i)" if "i < Suc (k mod T) * B" for i
  proof (cases "i < (k mod T) * B")
    case True
    then have "(k div T) * ?K + i < length vs * B" using add_strict_left_mono [OF True, of "(k div T) * ?K"] kT vs by simp
    then show ?thesis using True IH(3) [OF True] by (simp add: s1 put_bytes_def ks item_byte_app)
  next
    case False
    define d where "d = i - (k mod T) * B"
    have d: "d < B" "i = (k mod T) * B + d" using False that by (simp_all add: d_def)
    have "item_byte B (vs @ [v]) ((k div T) * ?K + i) = item_byte B (vs @ [v]) (length vs * B + d)"
      using kT vs d(2) by (metis add.assoc)
    also have "\<dots> = ucast (drop_bit (8 * d) v)" using item_byte_last [OF d(1)] .
    also have "\<dots> = rs_kbuf ?s1 i" by (simp add: s1 put_bytes_def ks d)
    finally show ?thesis by simp
  qed
  have usr: "item_byte B (vs @ [v]) i = item_byte B vs i" if "i < (k div T) * ?K" for i
    using trans_less_add1 [OF that, of "(k mod T) * B"] kT vs by (intro item_byte_app) simp
  show ?case
  proof (cases "Suc (k mod T) = T")
    case True
    then have "?K \<le> rs_kindx ?s + B" by (simp add: ks K flip: mult_Suc) (metis add.commute mult_Suc order_refl)
    then have step: "raw_item False p ?s = ?s1\<lparr> rs_hskip := rs_hskip ?s + rp_incr p * of_nat (rp_bytes p), rs_kindx := 0,
        rs_user := copy_bytes ?K 0 (rs_uindx ?s) (rs_kbuf ?s1) (rs_user ?s), rs_uindx := rs_uindx ?s + ?K \<rparr>"
      by (simp add: raw_item_def flush_buffer_def Let_def s1 flip: B_def)
    have m: "Suc k mod T = 0" "Suc k div T = Suc (k div T)" using True by (simp_all add: mod_Suc div_Suc)
    have "copy_bytes ?K 0 (rs_uindx ?s) (rs_kbuf ?s1) (rs_user ?s) i =
        (if i < Suc (k div T) * ?K then item_byte B (vs @ [v]) i else rs_user s i)" for i
    proof (cases "(k div T) * ?K \<le> i \<and> i < (k div T) * ?K + ?K")
      case True
      then have "i - (k div T) * ?K < ?K" by (simp add: less_diff_conv2 add.commute)
      then have "i - (k div T) * ?K < Suc (k mod T) * B" using \<open>Suc (k mod T) = T\<close> K by simp
      with buf [OF this] True show ?thesis by (simp add: copy_bytes_def ks algebra_simps)
    qed (auto simp: copy_bytes_def ks IH(2) usr)
    then show ?thesis by (simp add: raw_loop_Suc step r v m s1 fun_eq_iff)
  next
    case False
    then have lt: "Suc (k mod T) < T" using assms(2) by (metis Suc_leI le_neq_implies_less mod_less_divisor)
    then have "Suc (k mod T) * B < ?K" using B by (simp only: K mult_less_cancel2)
    then have step: "raw_item False p ?s = ?s1\<lparr> rs_hskip := rs_hskip ?s + rp_incr p * of_nat (rp_bytes p), rs_kindx := rs_kindx ?s + B \<rparr>"
      by (simp add: raw_item_def flush_buffer_def Let_def s1 ks flip: B_def)
    have m: "Suc k mod T = Suc (k mod T)" "Suc k div T = k div T" using False by (simp_all add: mod_Suc div_Suc)
    show ?thesis using buf usr by (simp add: raw_loop_Suc step r v m s1 IH(2) fun_eq_iff)
  qed
qed

lemma write_loop_state:
  assumes "rp_ksize p = T * rp_bytes p" "0 < T" "whole_items p" "rs_kindx s = 0" "rs_uindx s = 0" "rs_hskip s = 0"
    and "\<And>i. i < rp_ksize p \<Longrightarrow> rs_kbuf s i = rs_user s i"
  defines "B \<equiv> rp_bytes p"
  shows "rs_bus (raw_loop True p k s) = (rs_bus s)\<lparr> rw_trace := rw_trace (rs_bus s) @
      map (\<lambda>j. Raw_wr (item_bits p) (item_big p) (item_addr True p j)
        (take_bit (item_bits p) (get_bytes B ((if j < T then j else j - T) * B) (rs_user s)))) [0..<k] \<rparr> \<and>
    rs_user (raw_loop True p k s) = rs_user s \<and>
    (\<forall>i < rp_ksize p. rs_kbuf (raw_loop True p k s) i = rs_user s (((k div T) - 1) * rp_ksize p + i))"
proof (induction k)
  case 0 then show ?case using assms(7) by (simp add: raw_loop_def)
next
  case (Suc k)
  let ?s = "raw_loop True p k s" and ?K = "rp_ksize p"
  let ?src = "(if k < T then k else k - T) * B"
  have B: "0 < B" and bits: "item_bits p div 8 = B" using whole_items_bits [OF assms(3)] by (simp_all add: B_def)
  note ix = raw_loop_indices [OF assms(1,2) whole_items_bits(2) [OF assms(3)] assms(4-6), of True k]
  have ks: "rs_kindx ?s = (k mod T) * B" "rs_uindx ?s = (k div T) * ?K" using ix by (simp_all add: B_def)
  have K: "?K = T * B" using assms(1) by (simp add: B_def)
  have src: "?src = ((k div T) - 1) * ?K + (k mod T) * B"
  proof (cases "k < T")
    case False
    then obtain q where q: "k div T = Suc q" using assms(2) by (cases "k div T") (auto simp: div_eq_0_iff)
    then have "k - T = q * T + k mod T" using div_mult_mod_eq [of k T] by simp
    then show ?thesis using False q by (simp add: K algebra_simps)
  qed simp
  have "Suc (k mod T) \<le> T" using assms(2) by (simp add: Suc_leI)
  then have "Suc (k mod T) * B \<le> ?K" unfolding K by (rule mult_le_mono1)
  then have "rs_kbuf ?s ((k mod T) * B + d) = rs_user s (?src + d)" if "d < B" for d
    using Suc.IH that unfolding src by (simp add: add.assoc)
  then have get: "get_bytes B (rs_kindx ?s) (rs_kbuf ?s) = get_bytes B ?src (rs_user s)"
    unfolding get_bytes_def ks by (intro foldr_cong) auto
  have addr: "rp_base p + sint (rs_hskip ?s) = item_addr True p k" using ix by (simp add: item_addr_def)
  let ?s1 = "write_item p ?s"
  have s1: "rs_bus ?s1 = raw_iowrite (item_bits p) (item_big p) (item_addr True p k) (get_bytes B ?src (rs_user s)) (rs_bus ?s)"
    by (simp add: write_item_def addr bits get)
  show ?case
  proof (cases "Suc (k mod T) = T")
    case True
    then have "?K \<le> rs_kindx ?s + B" by (simp add: ks K flip: mult_Suc) (metis add.commute mult_Suc order_refl)
    then have step: "raw_item True p ?s = ?s1\<lparr> rs_hskip := rs_hskip ?s + rp_incr p * of_nat (rp_bytes p), rs_kindx := 0,
        rs_kbuf := copy_bytes ?K (rs_uindx ?s) 0 (rs_user ?s) (rs_kbuf ?s), rs_uindx := rs_uindx ?s + ?K \<rparr>"
      by (simp add: raw_item_def flush_buffer_def Let_def flip: B_def)
    have m: "Suc k mod T = 0" "Suc k div T = Suc (k div T)" using True by (simp_all add: mod_Suc div_Suc)
    show ?thesis using Suc.IH
      by (simp add: raw_loop_Suc step m s1 raw_iowrite_def copy_bytes_def ks)
  next
    case False
    then have lt: "Suc (k mod T) < T" using assms(2) by (metis Suc_leI le_neq_implies_less mod_less_divisor)
    then have "Suc (k mod T) * B < ?K" using B by (simp only: K mult_less_cancel2)
    then have step: "raw_item True p ?s = ?s1\<lparr> rs_hskip := rs_hskip ?s + rp_incr p * of_nat (rp_bytes p), rs_kindx := rs_kindx ?s + B \<rparr>"
      by (simp add: raw_item_def flush_buffer_def Let_def ks flip: B_def)
    have m: "Suc k mod T = Suc (k mod T)" "Suc k div T = k div T" using False by (simp_all add: mod_Suc div_Suc)
    show ?thesis using Suc.IH by (simp add: raw_loop_Suc step m s1 raw_iowrite_def)
  qed
qed


text \<open>
  C40: A block write of \<open>n\<close> items writes them in order to addresses that follow the increment, and leaves the
  user's memory alone; but only the first 1024 values are the right ones. When the kernel
  buffer is used up it is filled again from the place where it had been filled before, so that item
  \<open>k \<ge> 1024\<close> gets the value of item \<open>k - 1024\<close>.
\<close>

theorem raw_block_write:
  assumes "InsLibGetAddressSpace spaces (rt_SpaceNumber riob) = Some s" "\<not> outside_window s (rt_Offset riob)"
    and "raw_width s riob \<in> {8, 16, 32}"
  defines "B \<equiv> raw_width s riob div 8"
  defines "n \<equiv> raw_count B riob"
  defines "p \<equiv> \<lparr> rp_bits = raw_width s riob, rp_bytes = B, rp_big = (as_Endian s = InsLibEndianBIG), rp_base = uint (rt_Offset riob),
      rp_incr = rt_AddrIncr riob, rp_ksize = (if n < TRANSFERS then n else TRANSFERS) * B \<rparr>"
  shows "skel_RawIoBlock spaces (Some kbuf) riob True user b = Inr (None, user, b\<lparr> rw_trace := rw_trace b @
      map (\<lambda>k. Raw_wr (item_bits p) (item_big p) (item_addr True p k)
        (take_bit (item_bits p) (get_bytes B ((if k < TRANSFERS then k else k - TRANSFERS) * B) user))) [0..<n] \<rparr>)"
proof -
  define T where "T = (if n < TRANSFERS then n else TRANSFERS)"
  let ?s0 = "\<lparr> rs_kbuf = copy_bytes (rp_ksize p) 0 0 user kbuf, rs_user = user, rs_kindx = 0, rs_uindx = 0, rs_hskip = 0, rs_bus = b \<rparr>"
  have B: "0 < B" using assms(3) by (auto simp: B_def)
  have w: "whole_items p" using assms(3) by (auto simp: p_def B_def whole_items_def)
  have "0 < n" by (simp add: n_def raw_count_def Let_def)
  then have T: "0 < T" by (simp add: T_def TRANSFERS_def)
  have p: "rp_ksize p = T * rp_bytes p" "rp_bytes p = B" by (simp_all add: p_def T_def)
  have "\<And>i. i < rp_ksize p \<Longrightarrow> rs_kbuf ?s0 i = rs_user ?s0 i" by (simp add: copy_bytes_def)
  then have L: "rs_bus (raw_loop True p n ?s0) = b\<lparr> rw_trace := rw_trace b @
      map (\<lambda>j. Raw_wr (item_bits p) (item_big p) (item_addr True p j)
        (take_bit (item_bits p) (get_bytes B ((if j < T then j else j - T) * B) user))) [0..<n] \<rparr>"
      "rs_user (raw_loop True p n ?s0) = user"
    using write_loop_state [OF p(1) T w, where s = ?s0 and k = n] by (simp_all add: p(2))
  have run: "skel_RawIoBlock spaces (Some kbuf) riob True user b =
      Inr (None, rs_user (raw_loop True p n ?s0), rs_bus (raw_loop True p n ?s0))"
    using assms(1,2) B by (simp add: skel_RawIoBlock_def Let_def B_def n_def p_def)
  have "k < T \<longleftrightarrow> k < TRANSFERS" "\<not> k < TRANSFERS \<Longrightarrow> k - T = k - TRANSFERS" if "k < n" for k
    using that by (auto simp: T_def)
  then show ?thesis unfolding run by (simp add: L)
qed

section \<open>Examples\<close>

text \<open>A little-endian space of 16-bit words whose device counts the accesses; two items to read, 1025 to write.\<close>

definition space_count :: InsLibAnyAddressSpace where
  "space_count = \<lparr> as_SpaceNumber = 0x39, as_WindowSize = 0, as_DataWidth = 16, as_Endian = InsLibEndianLITTLE \<rparr>"

definition bus_count :: raw_bus where
  "bus_count = \<lparr> rw_trace = [], rw_device = (\<lambda>t w big a. of_nat (length t) + 0x100) \<rparr>"

definition block_of :: "u32 \<Rightarrow> SkelDrvrRawIoTransferBlock" where
  "block_of n = \<lparr> rt_SpaceNumber = 0x39, rt_Offset = 0, rt_DataWidth = 0, rt_AddrIncr = 1, rt_BytesTr = n \<rparr>"

lemma block_of_simps:
  "InsLibGetAddressSpace [space_count] (rt_SpaceNumber (block_of n)) = Some space_count"
  "\<not> outside_window space_count (rt_Offset (block_of n))" "raw_width space_count (block_of n) = 16" "as_Endian space_count = InsLibEndianLITTLE"
  by (simp_all add: InsLibGetAddressSpace_def space_count_def block_of_def outside_window_def raw_width_def)

lemma two_items: "read_items p 2 b = read_items p (Suc (Suc 0)) b" "get_bytes 2 k f = push_bit 8 (ucast (f (k + 1))) OR ucast (f k)"
  by (simp_all add: get_bytes_def numeral_2_eq_2)


lemma raw_block_write_witness:
  "\<exists>b'. skel_RawIoBlock [space_count] (Some (\<lambda>_. 0)) (block_of 2050) True (\<lambda>i. of_nat i) bus_count = Inr (None, \<lambda>i. of_nat i, b') \<and>
     rw_trace b' ! 1024 = Raw_wr 16 False 2048 0x100"
proof -
  have n: "raw_count 2 (block_of 2050) = 1025" by (simp add: raw_count_def block_of_def)
  have w: "raw_width space_count (block_of 2050) \<in> {8, 16, 32}" by (simp add: block_of_simps)
  note r = raw_block_write [OF block_of_simps(1,2) w, of "\<lambda>_. 0" "\<lambda>i. of_nat i" bus_count, unfolded block_of_simps]
  show ?thesis unfolding r
    by (simp add: n bus_count_def item_bits_def item_big_def item_addr_def TRANSFERS_def block_of_simps two_items nth_append
        del: upt_Suc) (simp add: block_of_def)
qed

end
