(* ===== verification/Spec2Isabelle.thy ===== *)
theory Spec2Isabelle
  imports Mtt_Roundtrip Mtt_Tasks Vme_Service Vme_Request Vme_Events Ctr_System Skel_Queue Skel_RawIo
begin

text \<open>
  A verification library for the COHT collection of accelerator timing and VME drivers.

  \<^bold>\<open>The program.\<close> The repository holds the sources of about thirty drivers with their
  libraries and tools. Three subsystems with much of the logic are modelled here, and of the generic driver
  skeleton the queues and the raw transfers.

  The first is the MTT event generator (mttn/): a VME module that runs small timing programs, one
  per task. Source text is assembled by the tool \<^verbatim>\<open>asm\<close> (tools/asm.c) into an object file; the tool
  \<^verbatim>\<open>emu\<close> (tools/emu.c) executes and shows object files off line; the library (lib/libmtt.c) loads an
  object into a free task slot of the module, finds tasks by name, starts and stops them; the driver
  (driver/mtt-skel.c) turns the library's ioctls into accesses of the memory map
  (include/mtthard.h), under one lock for the module, one per task and one for the output control.
  The instruction and register tables (lib/opcodes.c) are shared by the three tools.

  The second is the bridge between the PCI and the VME bus (vmebridge/driver/): the TSI148 chip
  translates PCI accesses in its eight outbound windows to VME cycles, moves blocks by DMA and
  reports VME interrupts and bus errors. vme_window.c keeps the windows and the logical mappings
  that user programs and other drivers hold in them; vme_cesif.c offers the same service under the
  interface of an older driver; vme_dma.c runs a transfer on one of two channels; vme_irq.c
  dispatches interrupts to the handlers of other drivers, and bus errors to the handlers of
  vme_misc.c. All of them reach the chip through tsi148.c.

  The third is the driver of the timing receiver CTR (ctr/driver/ctrdrvr-vme.c): up to 16 modules, each with
  14 interrupt sources, nine counters and a table of 2048 triggers. Up to 16 clients open a device each,
  select a module, create timing objects (CTIM, PTIM), connect to objects or to hardware sources, and read: the
  interrupt handler puts a buffer on the queue of every client that is connected to a raised source, and a
  reader sleeps on a semaphore until a buffer or its timer comes. The driver is written for LynxOS; its
  semaphores and timers are emulated by cdcmSem.c and EmulateLynxOs.c.

  \<^bold>\<open>Theories and sources.\<close>

  \<^item> Prelude: words, faults, the C library functions the sources call.
  \<^item> Mtt_Opcodes (lib/opcodes.c, include/opcodes.h, include/asm.h) and Mtt_Atoms
    (tools/asmP.h): the tables, with uniqueness and partition lemmas.
  \<^item> Mtt_Emu (\<^verbatim>\<open>Execute\<close> of emu.c), Mtt_Isa (the instruction set as a specification over the integers
    and the refinement), Mtt_Emulate (the register editor and the command loop; reachable states).
  \<^item> Mtt_Object (\<^verbatim>\<open>WriteObject\<close>, \<^verbatim>\<open>ReadObject\<close>), Mtt_Lex (\<^verbatim>\<open>GetAtoms\<close> and its look-ups), Mtt_Expr
    (symbols, stacks, \<^verbatim>\<open>DoExpression\<close>), Mtt_Asm (\<^verbatim>\<open>Assemble\<close>, the second pass, \<^verbatim>\<open>DisAssemble\<close>, the
    assembling part of \<^verbatim>\<open>main\<close>), Mtt_Roundtrip (source text to object file and back): asm.c.
  \<^item> Mtt_Driver (mtt-skel.c, mtt_priv.h), Mtt_Locking (order of locks, what each protects, shape of
    the private data), Mtt_Board (what each request does to the memory map).
  \<^item> Mtt_Lib (libmtt.c), Mtt_Tasks (task look-up, loading, reading back, unloading, starting).
  \<^item> Vme_Tsi148 (the window registers in tsi148.c, tsi148.h, vmebus.h), Vme_Chip (alignment,
    attribute word, order of register writes, translation of an address by a programmed window).
  \<^item> Vme_Window (vme_window.c, vme_cesif.c), Vme_Windows (its invariant and the contract of every
    entry point), Vme_Service (what callers get).
  \<^item> Vme_Dma (vme_dma.c and the DMA part of tsi148.c), Vme_Chain (the chain of descriptors and its
    reference, the cut of a scatter list at block boundaries), Vme_Transfer (scatter lists; what setting up
    undoes or leaves), Vme_Sharing (two channels, many callers: steps, reachable states), Vme_Request
    (what the chip reads for a user's request).
  \<^item> Vme_Irq (vme_irq.c, vme_misc.c, the rest of tsi148.c: interrupts, bus errors, start and shutdown),
    Vme_Events (the abstract machine it implements; shutdown).
  \<^item> Ctr_Hard (ctrhard.h and the fields of ctrdrvr.h: triggers and configurations as bit fields and back),
    Ctr_Queue (cdcmSem.c, EmulateLynxOs.c, the queue of a client), Ctr_Client (\<^verbatim>\<open>CtrDrvrRead\<close> against
    deliveries and timers), Ctr_Board (registers, bus errors, the JTAG port of the HPTDC).
  \<^item> Ctr_Driver (connections, interrupt handler, open, close, write), Ctr_Isr (what the handler delivers),
    Ctr_Tables (what connecting, disconnecting and closing do to the tables of a module).
  \<^item> Ctr_Ioctl (\<^verbatim>\<open>CtrDrvrIoctl\<close> with all its commands), Ctr_Install (\<^verbatim>\<open>AddModule\<close>, \<^verbatim>\<open>CtrDrvrInstall\<close>,
    \<^verbatim>\<open>CtrDrvrUninstall\<close>), Ctr_System (steps of the whole driver, reachable states, from a connection to the queue).

  \<^item> Skel_Queue (queue and read entry point of skel/driver/skeldrvr.c), Skel_RawIo (its raw transfers).

  \<^bold>\<open>State and operations.\<close> A C struct is a record with the fields the code uses, an enumeration a
  datatype (or a word where the code computes with it), a table a list, \<^verbatim>\<open>int\<close> and \<^verbatim>\<open>unsigned\<close> 32-bit
  words, a pointer to an array element its index. Operations are functions from a state to a value
  of \<open>fault + ...\<close>: a fault is a process exit, an access outside an array, an undefined shift or a
  lock taken twice, so a theorem that a call returns also says that none of these happens. The
  error codes of the kernel are values of \<open>errno\<close>. What the code calls but does not hold is a
  parameter: the kernel's answers (\<open>kenv\<close>, \<open>vkernel\<close>, \<open>dkernel\<close>), the memory that \<^verbatim>\<open>malloc\<close> returns, file
  contents, the clock, and for the MTT library what the board does to its words between two calls
  (\<open>world\<close>). Bus accesses, lock operations and register writes are recorded in traces, so that
  their order can be stated. Hypotheses on parameters: \<open>world_wf\<close> (the board changes only words
  below an index), \<open>kernel_ok\<close> (user copies succeed), \<open>bus_ok\<close> (a bus region handed out is
  aligned to 64K as asked for, does not wrap, and is not zero), \<open>calm\<close> (no signal, allocations succeed),
  \<open>pool_ok\<close> (a DMA pool hands out aligned blocks that are not in use), \<open>gets_pages\<close> (pinning returns the
  pages asked for), \<open>map_sg_ok\<close> (mapping a scatter list onto the bus keeps its bytes in order).

  \<^bold>\<open>What is shown.\<close> For the tools: a canonical source text is assembled to its program and read
  back (and, in this theory, loaded to the board); \<^verbatim>\<open>Execute\<close> refines the instruction set
  specification and faults exactly where the step is undefined; every reachable state of the
  emulator is well formed and a closed program stays in its memory; the expression stacks are
  bounded last-in first-out stacks. For the driver: every request respects the lock order and accesses
  each word under its lock; it returns for every argument in range; block and control block
  writes are read back. For the library: loading, reading back, unloading, starting. For the bridge: the
  invariant of the window manager in every reachable state, the translation of a found mapping by the
  chip to the address and modifier asked for, releasing as the inverse of finding, closing a file, mapping pages
  only of one's own mappings. For DMA: every request that fits the address spaces is set up without a
  fault, the descriptors the chip then reads are the reference cut of the buffer and exchange its bytes with the
  bus in order; in every reachable state of the two channels semaphore, descriptors, pages and mappings
  agree with the transfers under way, which do not disturb one another and can always end. For interrupts: every sequence of requests, releases
  and interrupts refines a machine over a partial map from vectors to handlers. For the timing receiver: the
  tables of the modules agree with the boards and with the open clients in every reachable state; connecting
  subscribes to exactly what was asked for and closing gives it all back; the interrupt handler delivers the buffers
  of the raised sources in order to exactly the connected clients; a read returns the oldest buffer; actions are
  read back as they were set, and a new PTIM object gets the first run of slots that is long enough. Some theorems state what the code does where that is less than it means to do;
  they are named so in their text.

  \<^bold>\<open>Interfaces.\<close> The locales \<open>bounded_stack\<close> (expression stacks), \<open>number_format\<close> (object files),
  \<open>io_contract\<close> (driver requests), \<open>task_directory\<close> (search by name), \<open>outbound_windows\<close> (what the window
  manager needs of the chip), \<open>simulation\<close> (a component and its abstract machine), \<open>lossy_fifo\<close> (queues of the timing clients) and \<open>entry_point\<close> (what every entry point of the window manager keeps)
  state contracts; each is interpreted on the model's definitions.

  \<^bold>\<open>Bounds.\<close> Loops are recursion on the list they run over or on the text that is left, so no fuel is needed
  except in the emulator's command loop, which is given its input lines and blocks when they are used up.
  Array sizes are the source's (100 forward references, 16 tasks, 8 windows, 2048 triggers, 64 buffers on a queue). The loop over one entry of a scatter list is a
  partial function, since for odd arguments it need not end; it is shown to end when nothing wraps around.

  \<^bold>\<open>Not modelled.\<close> Console and proc file output apart from the texts the tools compute; argument
  parsing of the tools' \<^verbatim>\<open>main\<close>; opening devices and probing of hardware; the ioctl
  glue of the driver skeleton (skel/) other than its queues and raw transfers; in vmebridge the raw register device and the module's probing; bus addresses are taken to be 32 bits wide. The two halves of a DMA transfer are single
  steps of the shared state. In ctr the PCI variant of
  the driver, which repeats this one over another bus, the debug messages, \<^verbatim>\<open>CtrDrvrSelect\<close>, the JTAG port of the flash
  memory, and LynxOS memory allocation; a module without a window, whose board the code would reach by a null
  pointer, is left out of the reachable states.
  Calls run to completion in the model: what another processor does between two
  critical sections of one call is not covered, the recorded traces and held locks show which accesses
  are protected. The other drivers of the collection are not modelled yet; the component list gives
  the reason for each. Code generated from register descriptions, vendored code, VHDL and scripts are left aside.
\<close>

lemma WriteObject_nonempty: "WriteObject code = Inr obj \<Longrightarrow> obj \<noteq> []"
  by (auto simp: WriteObject_def bind_r_eq_Inr)

text \<open>
  C1: From source text to the board. The canonical source text of a program is assembled
  without errors; when the object file is in the library's directory under the task's name,
  loading the task puts exactly the instructions of the program into the program memory at the
  address of the first free slot, and the name leads to that slot. This spans the lexical
  analyser, the assembler, the object format, the library, the driver and the memory map.
\<close>

theorem source_to_board:
  assumes "list_all2 denotable ks (Program code)" "InstructionCount code = of_nat (length (Program code))"
    "LoadAddress code = 0" "Program code \<noteq> []" "\<forall>k. malloc k \<noteq> None"
    "world_wf w 812" "lib_wf l" "L_mtt l" "kernel_ok w" "name_ok (Some name)" "length (L_objdir l) + length name < LN"
    "length (Program code) \<le> unat (L_max_size l)" "unat (L_max_size l) \<le> MttLibTASK_SIZE"
    "\<forall>j \<in> set (task_range l). task_name l j \<noteq> name"
    "i \<in> set (task_range l)" "task_name l i = []" "\<forall>j \<in> set (task_range l). j < i \<longrightarrow> task_name l j \<noteq> []"
  shows "\<exists>s obj l'. assemble_file malloc (print_source ks code) = Inr (s, obj) \<and> error_count s = 0 \<and>
     MttLibLoadTask w [L_objdir l @ name \<mapsto> obj] malloc pbf (Some name) l = Inr (MttLibErrorNONE, l') \<and>
     first_named l' name i \<and> prog_image (unat (L_max_size l) * i) (length (Program code)) (L_drv l') = Program code"
proof -
  have small: "length (Program code) \<le> 256" using assms(12,13) by (simp add: MttLibTASK_SIZE_def MttLibTASKS_def)
  then have len29: "length (Program code) < 2 ^ 29" by simp
  have cnt: "unat (InstructionCount code) = length (Program code)" using small assms(2) by (simp add: unat_of_nat)
  obtain s obj where s: "assemble_file malloc (print_source ks code) = Inr (s, obj)" "error_count s = 0" "WriteObject code = Inr obj"
    using assemble_print [OF assms(1,2) len29 assms(5)] by blast
  obtain mem where mem: "malloc (8 * length (Program code)) = Some mem" using assms(5) by blast
  have "ReadObject malloc obj pbf = Inr code"
    using read_write_object [of code malloc mem pbf, OF assms(2) len29 mem] s(3) by auto
  then have rd: "MttLibReadObject malloc obj pbf = Inr (MttLibErrorNONE, code)"
    using lib_reader_eq [OF WriteObject_nonempty [OF s(3)], of malloc pbf] assms(5) by simp
  have c: "InstructionCount code \<noteq> 0" "InstructionCount code \<le> L_max_size l" "malloc (8 * unat (InstructionCount code)) = Some mem"
    using cnt assms(4,12) mem by (auto simp: word_le_nat_alt)
  obtain p l' where l': "MttLibLoadTaskObject w (Some name) code l = Inr ((MttLibErrorNONE, p), l')"
      "p = code\<lparr>LoadAddress := L_max_size l * of_nat i\<rparr>" "load_state l name p [Suc i] l'" "first_named l' name i"
    using load_single [of w l name code i malloc mem, OF assms(6-10) assms(3) c(1) cnt [symmetric] c(2) assms(13-17) c(3)] by blast
  have i16: "i < 16" using task_range_bound [OF assms(7)] assms(15) by (auto simp: MttDrvrTASKS_def)
  have "unat (L_max_size l) * i \<le> 256 * 16"
    by (rule mult_mono) (use assms(13) i16 in \<open>simp_all add: MttLibTASK_SIZE_def MttLibTASKS_def\<close>)
  then have la: "unat (L_max_size l * of_nat i) = unat (L_max_size l) * i"
    using i16 by (simp add: unat_word_ariths unat_of_nat)
  have "MttLibLoadTask w [L_objdir l @ name \<mapsto> obj] malloc pbf (Some name) l = Inr (MttLibErrorNONE, l')"
    using assms(8,10,11) rd l'(1) by (simp add: MttLibLoadTask_def)
  moreover have "prog_image (unat (L_max_size l) * i) (length (Program code)) (L_drv l') = Program code"
    using l'(2,3) la cnt by (simp add: load_state_def)
  ultimately show ?thesis using s(1,2) l'(4) by blast
qed

definition ex_zero :: ProgramBuf where
  "ex_zero = ex_loop\<lparr>LoadAddress := 0\<rparr>"

theorem source_to_board_witness:
  "\<exists>s obj l'. assemble_file (\<lambda>k. Some (\<lambda>j. junk_inst)) (print_source ex_rows ex_zero) = Inr (s, obj) \<and>
     MttLibLoadTask world0 [L_objdir lib0 @ ''Pulse'' \<mapsto> obj] (\<lambda>k. Some (\<lambda>j. junk_inst)) ex_loop (Some ''Pulse'') lib0 = Inr (MttLibErrorNONE, l') \<and>
     prog_image 0 (length (Program ex_loop)) (L_drv l') = Program ex_loop"
proof -
  have name: "name_ok (Some ''Pulse'')" by code_simp
  have rows: "list_all2 denotable ex_rows (Program ex_zero)" using ex_rows_denotable by (simp add: ex_zero_def)
  have "L_objdir lib0 = []" by (simp add: lib0_def lib_start_def)
  then show ?thesis
    using source_to_board [of ex_rows ex_zero "\<lambda>k. Some (\<lambda>j. junk_inst)" world0 lib0 "''Pulse''" 0 ex_loop,
        OF rows _ _ _ _ world0_wf(1) lib0_wf lib0_simps(1) world0_wf(2) name]
    by (auto simp: ex_zero_def ex_loop_def lib0_simps lib0_names MttLibTASK_SIZE_def MttLibTASKS_def LN_def)
qed
end
